(* ===== verification/Prelude.thy ===== *)
theory Prelude
  imports Main "HOL-Library.Char_ord" "HOL-Library.List_Lexorder"
begin

text \<open>
  Shared vocabulary of the development.

  Go strings are byte strings, so they are modelled by \<^typ>\<open>string\<close> (a list of 8-bit
  characters) with the byte-wise lexicographic order of \<open>HOL-Library.List_Lexorder\<close>, which is
  Go's \<open><\<close> on strings and the order used by \<open>sort.Strings\<close>. A Go \<open>error\<close> result is an
  \<open>option\<close> of the message (\<open>None\<close> is \<open>nil\<close>); a Go pair \<open>(value, error)\<close> is a sum with the
  error on the left. A Go \<open>map[string]bool\<close> used as a set is a HOL set, so that no definition can
  depend on the unspecified iteration order of Go maps.
\<close>

named_theorems err_simps \<open>facts about the first error of a chain of checks\<close>
named_theorems go_strings \<open>facts about Go string functions\<close>
named_theorems go_sets \<open>facts about Go maps used as sets\<close>

type_synonym error = string
type_synonym 'a result = "error + 'a"

section \<open>Checks that report the first error\<close>

text \<open>
  A Go validator is a sequence of \<open>if bad { return errors.New(msg) }\<close> statements, some of them
  inside loops. \<open>reject_if bad msg\<close> is one such statement, \<open>first_err\<close> their sequence and
  \<open>each_err\<close> a loop over a slice whose body returns early.
\<close>

definition reject_if :: "bool \<Rightarrow> 'e \<Rightarrow> 'e option" where
  "reject_if bad msg = (if bad then Some msg else None)"

fun first_err :: "'e option list \<Rightarrow> 'e option" where
  "first_err [] = None"
| "first_err (e # es) = (case e of None \<Rightarrow> first_err es | Some m \<Rightarrow> Some m)"

definition each_err :: "('a \<Rightarrow> 'e option) \<Rightarrow> 'a list \<Rightarrow> 'e option" where
  "each_err f xs = first_err (map f xs)"

definition wrap_err :: "string \<Rightarrow> error option \<Rightarrow> error option" where
  "wrap_err ctx e = map_option (\<lambda>m. ctx @ m) e"

lemma reject_if_None [simp, err_simps]: "reject_if bad msg = None \<longleftrightarrow> \<not> bad"
  by (simp add: reject_if_def)

lemma reject_if_Some [simp, err_simps]: "reject_if bad msg = Some m \<longleftrightarrow> bad \<and> m = msg"
  by (auto simp: reject_if_def)

lemma first_err_None [simp, err_simps]: "first_err es = None \<longleftrightarrow> (\<forall>e\<in>set es. e = None)"
  by (induction es) (auto split: option.splits)

declare first_err.simps [simp del]

lemma each_err_None [simp, err_simps]: "each_err f xs = None \<longleftrightarrow> (\<forall>x\<in>set xs. f x = None)"
  by (simp add: each_err_def)

lemma wrap_err_None [simp, err_simps]: "wrap_err ctx e = None \<longleftrightarrow> e = None"
  by (simp add: wrap_err_def)

lemma first_err_Some:
  assumes "first_err es = Some m"
  shows "\<exists>e\<in>set es. e = Some m"
  using assms by (induction es) (auto simp: first_err.simps split: option.splits)

section \<open>Strings\<close>

definition hasPrefix :: "string \<Rightarrow> string \<Rightarrow> bool" where
  "hasPrefix p s = (take (length p) s = p)"

definition hasSuffix :: "string \<Rightarrow> string \<Rightarrow> bool" where
  "hasSuffix p s = hasPrefix (rev p) (rev s)"

definition trimPrefix :: "string \<Rightarrow> string \<Rightarrow> string" where
  "trimPrefix p s = (if hasPrefix p s then drop (length p) s else s)"

text \<open>\<open>strings.Split(s, sep)\<close> for a one-byte separator: never empty, also on the empty string.\<close>

fun split_on :: "char \<Rightarrow> string \<Rightarrow> string list" where
  "split_on c [] = [[]]"
| "split_on c (x # xs) =
     (if x = c then [] # split_on c xs
      else (case split_on c xs of [] \<Rightarrow> [[x]] | h # t \<Rightarrow> (x # h) # t))"

text \<open>\<open>strings.Join(parts, sep)\<close> for a one-byte separator.\<close>

fun join_with :: "char \<Rightarrow> string list \<Rightarrow> string" where
  "join_with c [] = []"
| "join_with c [p] = p"
| "join_with c (p # q # ps) = p @ c # join_with c (q # ps)"

definition containsAny :: "string \<Rightarrow> string \<Rightarrow> bool" where
  "containsAny s chars = list_ex (\<lambda>c. c \<in> set chars) s"

text \<open>\<open>strings.IndexAny\<close>: the first index of a byte of \<open>chars\<close>, for ASCII \<open>chars\<close>.\<close>

fun indexAny :: "string \<Rightarrow> string \<Rightarrow> nat option" where
  "indexAny [] chars = None"
| "indexAny (c # cs) chars = (if c \<in> set chars then Some 0 else map_option Suc (indexAny cs chars))"

text \<open>
  The UTF-8 encodings of the code points for which \<open>unicode.IsSpace\<close> holds.
  \<open>strings.TrimSpace s\<close> leaves \<open>s\<close> unchanged exactly when none of them is at either end: every
  encoding starts with a byte that starts a rune, so a suffix test finds the last rune.
\<close>

definition space_runes :: "string list" where
  "space_runes =
    [[CHR 0x09], [CHR 0x0A], [CHR 0x0B], [CHR 0x0C], [CHR 0x0D], [CHR 0x20],
     [CHR 0xC2, CHR 0x85], [CHR 0xC2, CHR 0xA0], [CHR 0xE1, CHR 0x9A, CHR 0x80],
     [CHR 0xE2, CHR 0x80, CHR 0x80], [CHR 0xE2, CHR 0x80, CHR 0x81],
     [CHR 0xE2, CHR 0x80, CHR 0x82], [CHR 0xE2, CHR 0x80, CHR 0x83],
     [CHR 0xE2, CHR 0x80, CHR 0x84], [CHR 0xE2, CHR 0x80, CHR 0x85],
     [CHR 0xE2, CHR 0x80, CHR 0x86], [CHR 0xE2, CHR 0x80, CHR 0x87],
     [CHR 0xE2, CHR 0x80, CHR 0x88], [CHR 0xE2, CHR 0x80, CHR 0x89],
     [CHR 0xE2, CHR 0x80, CHR 0x8A], [CHR 0xE2, CHR 0x80, CHR 0xA8],
     [CHR 0xE2, CHR 0x80, CHR 0xA9], [CHR 0xE2, CHR 0x80, CHR 0xAF],
     [CHR 0xE2, CHR 0x81, CHR 0x9F], [CHR 0xE3, CHR 0x80, CHR 0x80]]"

definition trimSpaceFixed :: "string \<Rightarrow> bool" where
  "trimSpaceFixed s =
     (\<not> list_ex (\<lambda>r. hasPrefix r s) space_runes \<and> \<not> list_ex (\<lambda>r. hasSuffix r s) space_runes)"

lemma hasPrefix_iff [go_strings]: "hasPrefix p s \<longleftrightarrow> (\<exists>t. s = p @ t)"
  unfolding hasPrefix_def by (metis append_eq_conv_conj append_take_drop_id)

lemma split_on_nonempty [simp, go_strings]: "split_on c s \<noteq> []"
  by (cases s) (auto split: list.splits)

lemma split_on_no_sep [go_strings]: "c \<notin> set s \<Longrightarrow> split_on c s = [s]"
  by (induction s) auto

lemma split_on_parts [go_strings]: "p \<in> set (split_on c s) \<Longrightarrow> c \<notin> set p"
proof (induction s arbitrary: p)
  case Nil
  then show ?case by simp
next
  case (Cons x xs)
  then show ?case by (auto split: if_splits list.splits)
qed

lemma join_split [simp, go_strings]: "join_with c (split_on c s) = s"
proof (induction s)
  case Nil
  then show ?case by simp
next
  case (Cons x xs)
  obtain h t where ht: "split_on c xs = h # t" by (meson split_on_nonempty list.exhaust)
  with Cons.IH show ?case by (cases t) auto
qed

lemma split_on_append [go_strings]:
  assumes "c \<notin> set p"
  shows "split_on c (p @ c # s) = p # split_on c s"
  using assms by (induction p) auto

lemma split_join [go_strings]:
  assumes "ps \<noteq> []" and "\<And>p. p \<in> set ps \<Longrightarrow> c \<notin> set p"
  shows "split_on c (join_with c ps) = ps"
  using assms
proof (induction c ps rule: join_with.induct)
  case (1 c)
  then show ?case by simp
next
  case (2 c p)
  then show ?case by (simp add: split_on_no_sep)
next
  case (3 c p q ps)
  then show ?case by (simp add: split_on_append)
qed

lemma join_with_inject [go_strings]:
  assumes "ps \<noteq> []" "qs \<noteq> []" "\<And>p. p \<in> set ps \<Longrightarrow> c \<notin> set p" "\<And>q. q \<in> set qs \<Longrightarrow> c \<notin> set q"
    and "join_with c ps = join_with c qs"
  shows "ps = qs"
  using assms split_join by metis

lemma set_join_with [go_strings]: "set (join_with c ps) \<subseteq> insert c (\<Union> (set ` set ps))"
  by (induction c ps rule: join_with.induct) auto

lemma split_on_chars [go_strings]:
  assumes "x \<in> set s" "x \<noteq> c"
  obtains p where "p \<in> set (split_on c s)" "x \<in> set p"
proof -
  from assms have "x \<in> \<Union> (set ` set (split_on c s))"
    using set_join_with [of c "split_on c s"] by auto
  then show ?thesis using that by blast
qed

lemma sort_Nil_iff [simp]: "sort xs = [] \<longleftrightarrow> xs = []"
  by (metis length_0_conv length_sort)

section \<open>Character classes of the regular expressions\<close>

text \<open>
  Every pattern of the modelled packages is a concatenation of ASCII classes anchored at both
  ends, with at most one bounded repetition per part.
\<close>

definition in_range :: "char \<Rightarrow> char \<Rightarrow> char \<Rightarrow> bool" where
  "in_range lo hi c = ((of_char lo :: int) \<le> of_char c \<and> (of_char c :: int) \<le> of_char hi)"

definition is_lower :: "char \<Rightarrow> bool" where "is_lower c = in_range (CHR ''a'') (CHR ''z'') c"
definition is_upper :: "char \<Rightarrow> bool" where "is_upper c = in_range (CHR ''A'') (CHR ''Z'') c"
definition is_digit :: "char \<Rightarrow> bool" where "is_digit c = in_range (CHR ''0'') (CHR ''9'') c"
definition is_alnum :: "char \<Rightarrow> bool" where "is_alnum c = (is_lower c \<or> is_upper c \<or> is_digit c)"
definition is_lower_hex :: "char \<Rightarrow> bool" where
  "is_lower_hex c = (is_digit c \<or> in_range (CHR ''a'') (CHR ''f'') c)"
definition is_hex :: "char \<Rightarrow> bool" where
  "is_hex c = (is_lower_hex c \<or> in_range (CHR ''A'') (CHR ''F'') c)"

text \<open>\<open>^[first][rest]{0,bound}$\<close>; \<open>None\<close> is the unbounded \<open>*\<close>.\<close>

definition match_ident :: "(char \<Rightarrow> bool) \<Rightarrow> (char \<Rightarrow> bool) \<Rightarrow> nat option \<Rightarrow> string \<Rightarrow> bool" where
  "match_ident first rest bound s =
     (case s of [] \<Rightarrow> False
      | c # cs \<Rightarrow> first c \<and> list_all rest cs \<and> (case bound of None \<Rightarrow> True | Some n \<Rightarrow> length cs \<le> n))"

text \<open>\<open>^[0-9a-f]{n}$\<close>\<close>

definition lower_hex_len :: "nat \<Rightarrow> string \<Rightarrow> bool" where
  "lower_hex_len n s = (length s = n \<and> list_all is_lower_hex s)"

lemma match_ident_nonempty [go_strings]: "match_ident f r b s \<Longrightarrow> s \<noteq> []"
  by (auto simp: match_ident_def)

lemma match_ident_chars [go_strings]:
  "match_ident f r b s \<Longrightarrow> x \<in> set s \<Longrightarrow> f x \<or> r x"
  by (auto simp: match_ident_def list_all_iff split: list.splits)

text \<open>\<open>^[0-9]+\.[0-9]+(?:\.[0-9]+)?(?:[-+][A-Za-z0-9.-]+)?$\<close>: the parts begin with different characters.\<close>

definition qualifier_part :: "string \<Rightarrow> bool" where
  "qualifier_part s = (case s of [] \<Rightarrow> True
     | c # cs \<Rightarrow> (c = CHR ''-'' \<or> c = CHR ''+'') \<and> cs \<noteq> [] \<and> list_all (\<lambda>x. is_alnum x \<or> x = CHR ''.'' \<or> x = CHR ''-'') cs)"

definition digits_then :: "(string \<Rightarrow> bool) \<Rightarrow> string \<Rightarrow> bool" where
  "digits_then rest s = (takeWhile is_digit s \<noteq> [] \<and> rest (dropWhile is_digit s))"

definition match_gradle_version :: "string \<Rightarrow> bool" where
  "match_gradle_version = digits_then (\<lambda>s. case s of [] \<Rightarrow> False | c # cs \<Rightarrow> c = CHR ''.'' \<and>
     digits_then (\<lambda>t. case t of [] \<Rightarrow> True | x # xs \<Rightarrow> if x = CHR ''.'' then digits_then qualifier_part xs else qualifier_part t) cs)"

section \<open>Decimal numerals\<close>

text \<open>\<open>strconv.FormatInt(n, 10)\<close> and \<open>strconv.FormatUint(n, 10)\<close> for numbers that are not negative.\<close>

function decimal :: "nat \<Rightarrow> string" where
  "decimal n = (if n < 10 then [char_of (48 + n)] else decimal (n div 10) @ [char_of (48 + n mod 10)])"
  by pat_completeness auto
termination by (relation "measure id") auto

declare decimal.simps [simp del]

section \<open>Go maps used as sets\<close>

text \<open>\<open>sortedKeys\<close>: the keys in ascending order; the result does not depend on map iteration.\<close>

definition sortedKeys :: "string set \<Rightarrow> string list" where
  "sortedKeys S = sorted_list_of_set S"

lemma set_sortedKeys [simp, go_sets]: "finite S \<Longrightarrow> set (sortedKeys S) = S"
  by (simp add: sortedKeys_def)

lemma distinct_sortedKeys [simp, go_sets]: "distinct (sortedKeys S)"
  by (simp add: sortedKeys_def)

lemma sorted_sortedKeys [simp, go_sets]: "sorted (sortedKeys S)"
  by (simp add: sortedKeys_def)

text \<open>
  The duplicate check \<open>if seen[v] { return false }; seen[v] = true\<close> of the validators, on an
  arbitrary key.
\<close>

fun no_dup_from :: "'k set \<Rightarrow> 'k list \<Rightarrow> bool" where
  "no_dup_from seen [] = True"
| "no_dup_from seen (k # ks) = (k \<notin> seen \<and> no_dup_from (insert k seen) ks)"

lemma no_dup_from_iff [simp, go_sets]:
  "no_dup_from seen ks \<longleftrightarrow> distinct ks \<and> set ks \<inter> seen = {}"
  by (induction ks arbitrary: seen) auto

end
