(* ===== verification/GoPath.thy ===== *)
theory GoPath
  imports Prelude
begin

text \<open>
  The two functions of Go's standard package \<open>path\<close> that the sources call on repository paths:
  \<open>path.Clean\<close> and \<open>path.Match\<close> (with its helpers \<open>scanChunk\<close>, \<open>matchChunk\<close> and \<open>getEsc\<close>), and
  \<open>utf8.DecodeRuneInString\<close>, on which \<open>Match\<close> relies for \<open>?\<close> and character classes.
  \<open>path_match\<close> returns \<open>None\<close> for \<open>ErrBadPattern\<close>.
\<close>

section \<open>path.Clean\<close>

definition clean_step :: "bool \<Rightarrow> string list \<Rightarrow> string \<Rightarrow> string list" where
  "clean_step rooted acc seg =
     (if seg = [] \<or> seg = ''.'' then acc
      else if seg = ''..'' then
        (if acc \<noteq> [] \<and> hd acc \<noteq> ''..'' then tl acc
         else if rooted then acc else ''..'' # acc)
      else seg # acc)"

definition path_clean :: "string \<Rightarrow> string" where
  "path_clean p =
     (let rooted = hasPrefix ''/'' p;
          segs = rev (foldl (clean_step rooted) [] (split_on (CHR ''/'') p));
          body = join_with (CHR ''/'') segs
      in if rooted then CHR ''/'' # body else if body = [] then ''.'' else body)"

lemma foldl_clean_plain:
  assumes "\<And>s. s \<in> set segs \<Longrightarrow> s \<noteq> [] \<and> s \<noteq> ''.'' \<and> s \<noteq> ''..''"
  shows "foldl (clean_step r) acc segs = rev segs @ acc"
  using assms by (induction segs arbitrary: acc) (auto simp: clean_step_def)

text \<open>A relative path all of whose segments are proper names is already clean.\<close>

lemma path_clean_plain:
  assumes "p \<noteq> []"
    and "\<And>s. s \<in> set (split_on (CHR ''/'') p) \<Longrightarrow> s \<noteq> [] \<and> s \<noteq> ''.'' \<and> s \<noteq> ''..''"
  shows "path_clean p = p"
proof -
  have "\<not> hasPrefix ''/'' p"
  proof
    assume "hasPrefix ''/'' p"
    then obtain t where "p = CHR ''/'' # t" by (auto simp: hasPrefix_iff)
    with assms(2) [of "[]"] show False by simp
  qed
  moreover have "rev (foldl (clean_step False) [] (split_on (CHR ''/'') p)) = split_on (CHR ''/'') p"
    using foldl_clean_plain [of "split_on (CHR ''/'') p" False "[]"] assms(2) by simp
  ultimately show ?thesis using assms(1) by (simp add: path_clean_def Let_def)
qed

section \<open>utf8.DecodeRuneInString\<close>

definition byte_in :: "int \<Rightarrow> int \<Rightarrow> char \<Rightarrow> bool" where
  "byte_in lo hi c = (lo \<le> of_char c \<and> of_char c \<le> hi)"

definition rune_error :: int where "rune_error = 65533"

definition cont :: "char \<Rightarrow> int" where "cont c = of_char c mod 64"

text \<open>The decoded rune and its width; an invalid encoding is \<open>RuneError\<close> of width 1.\<close>

fun decode_rune :: "string \<Rightarrow> int \<times> nat" where
  "decode_rune [] = (rune_error, 0)"
| "decode_rune (a # rest) =
     (if byte_in 0 127 a then (of_char a, 1)
      else (case rest of
          [] \<Rightarrow> (rune_error, 1)
        | b # rest2 \<Rightarrow>
            if byte_in 194 223 a then
              (if byte_in 128 191 b then ((of_char a mod 32) * 64 + cont b, 2) else (rune_error, 1))
            else (case rest2 of
                [] \<Rightarrow> (rune_error, 1)
              | c # rest3 \<Rightarrow>
                  if byte_in 224 239 a then
                    (if (if byte_in 224 224 a then byte_in 160 191 b
                         else if byte_in 237 237 a then byte_in 128 159 b
                         else byte_in 128 191 b) \<and> byte_in 128 191 c
                     then ((of_char a mod 16) * 4096 + cont b * 64 + cont c, 3)
                     else (rune_error, 1))
                  else (case rest3 of
                      [] \<Rightarrow> (rune_error, 1)
                    | d # _ \<Rightarrow>
                        if byte_in 240 244 a \<and>
                           (if byte_in 240 240 a then byte_in 144 191 b
                            else if byte_in 244 244 a then byte_in 128 143 b
                            else byte_in 128 191 b) \<and> byte_in 128 191 c \<and> byte_in 128 191 d
                        then ((of_char a mod 8) * 262144 + cont b * 4096 + cont c * 64 + cont d, 4)
                        else (rune_error, 1)))))"

lemma decode_rune_width: "s \<noteq> [] \<Longrightarrow> 1 \<le> snd (decode_rune s)"
  by (cases s) (auto split: list.splits)

section \<open>path.Match\<close>

text \<open>\<open>getEsc\<close>: one possibly escaped character of a class; \<open>None\<close> is \<open>ErrBadPattern\<close>.\<close>

definition get_esc :: "string \<Rightarrow> (int \<times> string) option" where
  "get_esc chunk =
     (if chunk = [] \<or> hd chunk = CHR ''-'' \<or> hd chunk = CHR '']'' then None
      else let chunk1 = (if hd chunk = CHR 0x5C then tl chunk else chunk) in
        if chunk1 = [] then None
        else let (r, n) = decode_rune chunk1; nchunk = drop n chunk1 in
          if (r = rune_error \<and> n = 1) \<or> nchunk = [] then None else Some (r, nchunk))"

lemma get_esc_length: "get_esc chunk = Some (r, ch) \<Longrightarrow> length ch < length chunk \<and> ch \<noteq> []"
  using decode_rune_width
  by (fastforce simp: get_esc_def Let_def neq_Nil_conv split: if_splits prod.splits)

text \<open>The loop over the ranges of a class, after the optional \<open>^\<close>.\<close>

function class_ranges :: "int \<Rightarrow> bool \<Rightarrow> bool \<Rightarrow> string \<Rightarrow> (bool \<times> string) option" where
  "class_ranges r some_range m chunk =
     (if some_range \<and> chunk \<noteq> [] \<and> hd chunk = CHR '']'' then Some (m, tl chunk)
      else (case get_esc chunk of
          None \<Rightarrow> None
        | Some (lo, ch1) \<Rightarrow>
            if hd ch1 = CHR ''-'' then
              (case get_esc (tl ch1) of
                  None \<Rightarrow> None
                | Some (hi, ch2) \<Rightarrow> class_ranges r True (m \<or> (lo \<le> r \<and> r \<le> hi)) ch2)
            else class_ranges r True (m \<or> lo = r) ch1))"
  by pat_completeness auto
termination
proof (relation "measure (\<lambda>(r, sr, m, chunk). length chunk)", goal_cases)
  case 1
  then show ?case by simp
next
  case (2 r sr m chunk p lo ch1 q hi ch2)
  then have "length ch2 < length (tl ch1)" "length ch1 < length chunk"
    using get_esc_length by (metis)+
  then show ?case by simp
next
  case (3 r sr m chunk p lo ch1)
  then show ?case using get_esc_length by (metis in_measure case_prod_conv)
qed

declare class_ranges.simps [simp del]

lemma class_ranges_length:
  "class_ranges r sr m chunk = Some (b, ch) \<Longrightarrow> length ch < length chunk"
proof (induction r sr m chunk rule: class_ranges.induct)
  case (1 r sr m chunk)
  show ?case
  proof (cases "sr \<and> chunk \<noteq> [] \<and> hd chunk = CHR '']''")
    case True
    with "1.prems" have "ch = tl chunk" by (simp add: class_ranges.simps [of r True m chunk])
    with True show ?thesis by (cases chunk) auto
  next
    case False
    with "1.prems" obtain lo ch1 where g: "get_esc chunk = Some (lo, ch1)"
      by (subst (asm) class_ranges.simps) (auto split: option.splits)
    from get_esc_length [OF g] have l1: "length ch1 < length chunk" by simp
    show ?thesis
    proof (cases "hd ch1 = CHR ''-''")
      case True
      with "1.prems" False g obtain hi ch2 where h: "get_esc (tl ch1) = Some (hi, ch2)"
        by (subst (asm) class_ranges.simps) (auto split: option.splits)
      from "1.IH"(1) [OF False g refl True h refl] "1.prems" False g True h
      have "length ch < length ch2" by (simp add: class_ranges.simps [of r sr m chunk])
      with get_esc_length [OF h] l1 show ?thesis by auto
    next
      case False2: False
      from "1.IH"(2) [OF False g refl False2] "1.prems" False g False2
      have "length ch < length ch1" by (simp add: class_ranges.simps [of r sr m chunk])
      with l1 show ?thesis by simp
    qed
  qed
qed

text \<open>
  \<open>matchChunk\<close>: \<open>None\<close> is \<open>ErrBadPattern\<close>, \<open>Some None\<close> a failed match, \<open>Some (Some rest)\<close> a match
  that leaves \<open>rest\<close>. After a failure the rest of the chunk is still checked for syntax.
\<close>

function match_chunk :: "bool \<Rightarrow> string \<Rightarrow> string \<Rightarrow> string option option" where
  "match_chunk failed [] s = Some (if failed then None else Some s)"
| "match_chunk failed0 (c # chunk) s =
     (let failed = (failed0 \<or> s = []) in
      if c = CHR ''['' then
        let r = (if failed then 0 else fst (decode_rune s));
            s1 = (if failed then s else drop (snd (decode_rune s)) s);
            negated = (chunk \<noteq> [] \<and> hd chunk = CHR ''^'');
            chunk1 = (if negated then tl chunk else chunk)
        in (case class_ranges r False False chunk1 of
              None \<Rightarrow> None
            | Some (m, chunk2) \<Rightarrow> match_chunk (failed \<or> m = negated) chunk2 s1)
      else if c = CHR ''?'' then
        match_chunk (failed \<or> hd s = CHR ''/'') chunk
          (if failed then s else drop (snd (decode_rune s)) s)
      else if c = CHR 0x5C then
        (case chunk of
            [] \<Rightarrow> None
          | d # chunk1 \<Rightarrow> match_chunk (failed \<or> d \<noteq> hd s) chunk1 (if failed then s else tl s))
      else match_chunk (failed \<or> c \<noteq> hd s) chunk (if failed then s else tl s))"
  by pat_completeness auto
termination
proof (relation "measure (\<lambda>(f, chunk, s). length chunk)", goal_cases)
  case (2 failed0 c chunk s failed r s1 negated chunk1 p m chunk2)
  then have "length chunk2 < length chunk1" using class_ranges_length by metis
  with 2 show ?case by (auto split: if_splits)
qed auto

text \<open>\<open>scanChunk\<close>: leading stars, then the chunk up to the next star outside a class.\<close>

fun scan_body :: "bool \<Rightarrow> string \<Rightarrow> string \<times> string" where
  "scan_body inr [] = ([], [])"
| "scan_body inr (c # cs) =
     (if c = CHR 0x5C then
        (case cs of
            [] \<Rightarrow> ([c], [])
          | d # ds \<Rightarrow> (let (a, b) = scan_body inr ds in (c # d # a, b)))
      else if c = CHR ''*'' \<and> \<not> inr then ([], c # cs)
      else let inr' = (if c = CHR ''['' then True else if c = CHR '']'' then False else inr);
               (a, b) = scan_body inr' cs
           in (c # a, b))"

definition scan_chunk :: "string \<Rightarrow> bool \<times> string \<times> string" where
  "scan_chunk pat =
     (let pat1 = dropWhile (\<lambda>c. c = CHR ''*'') pat; (chunk, rest) = scan_body False pat1
      in (pat \<noteq> [] \<and> hd pat = CHR ''*'', chunk, rest))"

lemma scan_body_append: "fst (scan_body inr cs) @ snd (scan_body inr cs) = cs"
proof (induction cs arbitrary: inr rule: length_induct)
  case (1 cs)
  show ?case
  proof (cases cs)
    case Nil
    then show ?thesis by simp
  next
    case (Cons c ds)
    from "1" Cons have IH: "fst (scan_body b ds) @ snd (scan_body b ds) = ds" for b by simp
    from "1" Cons have IH2: "fst (scan_body b es) @ snd (scan_body b es) = es"
      if "ds = e # es" for b e es using that by simp
    show ?thesis using Cons IH IH2
      by (auto simp: case_prod_beta Let_def split: list.splits)
  qed
qed

lemma scan_chunk_length:
  assumes "(star, chunk, rest) = scan_chunk pat" and "pat \<noteq> []"
  shows "length rest < length pat"
proof -
  let ?p = "dropWhile (\<lambda>c. c = CHR ''*'') pat"
  from assms(1) have sb: "scan_body False ?p = (chunk, rest)"
    by (auto simp: scan_chunk_def Let_def split: prod.splits)
  have app: "length chunk + length rest = length ?p"
    using scan_body_append [of False ?p] sb by (metis fst_conv snd_conv length_append)
  from assms(2) obtain c cs where pat: "pat = c # cs" by (cases pat) auto
  show ?thesis
  proof (cases "c = CHR ''*''")
    case True
    with pat have "length ?p \<le> length cs" by (simp add: length_dropWhile_le)
    with app pat show ?thesis by simp
  next
    case False
    with pat have p: "?p = c # cs" by simp
    with sb False have "chunk \<noteq> []"
      by (auto simp: case_prod_beta Let_def split: if_splits list.splits)
    then have "0 < length chunk" by simp
    with app p pat show ?thesis by (simp only: length_Cons)
  qed
qed

text \<open>The search for a later match of a chunk after a star; it cannot skip a slash.\<close>

fun star_search :: "string \<Rightarrow> bool \<Rightarrow> string \<Rightarrow> string option option" where
  "star_search chunk last_chunk [] = Some None"
| "star_search chunk last_chunk (c # cs) =
     (if c = CHR ''/'' then Some None
      else (case match_chunk False chunk cs of
          None \<Rightarrow> None
        | Some None \<Rightarrow> star_search chunk last_chunk cs
        | Some (Some t) \<Rightarrow>
            if last_chunk \<and> t \<noteq> [] then star_search chunk last_chunk cs else Some (Some t)))"

text \<open>After a failed match, the rest of the pattern is still checked for syntax.\<close>

function check_rest :: "string \<Rightarrow> bool option" where
  "check_rest pat =
     (if pat = [] then Some False
      else (case scan_chunk pat of (star, chunk, rest) \<Rightarrow>
        (case match_chunk False chunk [] of None \<Rightarrow> None | Some _ \<Rightarrow> check_rest rest)))"
  by pat_completeness auto
termination
  by (relation "measure length") (auto dest: scan_chunk_length)

definition chunk_accepted :: "string option \<Rightarrow> string \<Rightarrow> bool" where
  "chunk_accepted found rest = (case found of None \<Rightarrow> False | Some t \<Rightarrow> t = [] \<or> rest \<noteq> [])"

function path_match :: "string \<Rightarrow> string \<Rightarrow> bool option" where
  "path_match pat name =
     (if pat = [] then Some (name = [])
      else (case scan_chunk pat of (star, chunk, rest) \<Rightarrow>
        if star \<and> chunk = [] then Some (CHR ''/'' \<notin> set name)
        else (case match_chunk False chunk name of
            None \<Rightarrow> None
          | Some found \<Rightarrow>
              if chunk_accepted found rest then path_match rest (the found)
              else if star then
                (case star_search chunk (rest = []) name of
                    None \<Rightarrow> None
                  | Some None \<Rightarrow> check_rest rest
                  | Some (Some t) \<Rightarrow> path_match rest t)
              else check_rest rest)))"
  by pat_completeness auto
termination
  by (relation "measure (\<lambda>(pat, name). length pat)") (auto dest: scan_chunk_length)

declare path_match.simps [simp del] check_rest.simps [simp del]

text \<open>A pattern without metacharacters matches exactly its own text.\<close>

definition plain_pattern :: "string \<Rightarrow> bool" where
  "plain_pattern p = list_all (\<lambda>c. c \<noteq> CHR ''*'' \<and> c \<noteq> CHR ''?'' \<and> c \<noteq> CHR ''['' \<and> c \<noteq> CHR 0x5C) p"

lemma scan_body_plain: "plain_pattern p \<Longrightarrow> scan_body inr p = (p, [])"
  by (induction p arbitrary: inr) (auto simp: plain_pattern_def)

lemma match_chunk_plain_failed: "plain_pattern p \<Longrightarrow> match_chunk True p s = Some None"
  by (induction p arbitrary: s) (auto simp: plain_pattern_def)

lemma match_chunk_plain:
  "plain_pattern p \<Longrightarrow>
     match_chunk False p s = Some (if hasPrefix p s then Some (drop (length p) s) else None)"
proof (induction p arbitrary: s)
  case Nil
  then show ?case by (simp add: hasPrefix_def)
next
  case (Cons c p)
  then have p: "plain_pattern p" by (simp add: plain_pattern_def)
  show ?case
  proof (cases s)
    case Nil
    with Cons.prems p show ?thesis
      by (auto simp: plain_pattern_def hasPrefix_def match_chunk_plain_failed)
  next
    case (Cons d t)
    from match_chunk_plain_failed [OF p, of t] Cons.IH [OF p, of t]
    have "match_chunk (c \<noteq> d) p t =
        Some (if c = d \<and> hasPrefix p t then Some (drop (length p) t) else None)"
      by (cases "c = d") simp_all
    with Cons.prems Cons show ?thesis
      by (auto simp: plain_pattern_def hasPrefix_def)
  qed
qed

lemma path_match_plain:
  assumes "plain_pattern p"
  shows "path_match p s = Some (p = s)"
proof (cases "p = []")
  case True
  then show ?thesis by (auto simp: path_match.simps)
next
  case False
  with assms obtain c cs where pc: "p = c # cs" "c \<noteq> CHR ''*''"
    by (cases p) (auto simp: plain_pattern_def)
  then have sc: "scan_chunk p = (False, p, [])"
    using scan_body_plain [OF assms] by (simp add: scan_chunk_def)
  have "path_match p s = (if hasPrefix p s \<and> drop (length p) s = [] then Some True else Some False)"
    using False match_chunk_plain [OF assms, of s]
    by (subst path_match.simps)
       (auto simp: path_match.simps [of "[]"] check_rest.simps sc chunk_accepted_def
          simp del: match_chunk.simps)
  moreover have "hasPrefix p s \<and> drop (length p) s = [] \<longleftrightarrow> p = s"
    by (auto simp: hasPrefix_def)
  ultimately show ?thesis by simp
qed

end
