(* ===== verification/Manifest.thy ===== *)
theory Manifest
  imports GoPath
begin

text \<open>
  \<open>internal/buildimpact/manifest.go\<close>: the customer-committed manifest of Build Impact Analysis.
  The record types, every validation of \<open>validateManifest\<close> and its helpers, and the facts later
  components rely on: what an accepted manifest guarantees.
\<close>

section \<open>Data\<close>

abbreviation ManifestSchemaVersion :: string where
  "ManifestSchemaVersion \<equiv> ''buildopt.build-impact/manifest/v1''"
abbreviation RepositoryOwnership :: string where "RepositoryOwnership \<equiv> ''REPOSITORY_COMMITTED''"
abbreviation FullGraphPolicy :: string where "FullGraphPolicy \<equiv> ''FULL_GRAPH''"
abbreviation BuildOptimization :: string where "BuildOptimization \<equiv> ''BUILD_OPTIMIZATION''"
abbreviation TestOptimization :: string where "TestOptimization \<equiv> ''TEST_OPTIMIZATION''"

record EntrypointSet =
  es_ID :: string
  es_Entrypoints :: "string list"

record Artifact =
  a_ID :: string
  a_Path :: string
  a_Owner :: string

record Check =
  c_ID :: string
  c_Owner :: string

text \<open>
  \<open>RequiredChecks\<close> is the one slice for which the code distinguishes \<open>nil\<close> from an empty slice, so
  it is an option.
\<close>

record Manifest =
  m_SchemaVersion :: string
  m_ManifestVersion :: nat
  m_RepositoryID :: string
  m_PipelineClass :: string
  m_Ownership :: string
  m_OriginalEntrypoints :: "string list"
  m_AllowedAlternatives :: "EntrypointSet list"
  m_RequiredArtifacts :: "Artifact list"
  m_RequiredChecks :: "Check list option"
  m_GlobalChangePaths :: "string list"
  m_UnknownChangePolicy :: string

definition checks_of :: "Manifest \<Rightarrow> Check list" where
  "checks_of m = (case m_RequiredChecks m of None \<Rightarrow> [] | Some cs \<Rightarrow> cs)"

record LoadedManifest =
  lm_Manifest :: Manifest
  lm_Digest :: string

section \<open>Patterns and path checks\<close>

definition idPattern :: "string \<Rightarrow> bool" where
  "idPattern s = match_ident is_lower (\<lambda>c. is_lower c \<or> is_digit c \<or> c = CHR ''-'') (Some 63) s"

definition repo_part :: "string \<Rightarrow> bool" where
  "repo_part s = match_ident is_alnum
     (\<lambda>c. is_alnum c \<or> c = CHR ''_'' \<or> c = CHR ''.'' \<or> c = CHR ''-'') (Some 99) s"

definition repositoryPattern :: "string \<Rightarrow> bool" where
  "repositoryPattern s = (case split_on (CHR ''/'') s of [a, b] \<Rightarrow> repo_part a \<and> repo_part b | _ \<Rightarrow> False)"

definition pipelinePattern :: "string \<Rightarrow> bool" where
  "pipelinePattern s = match_ident (\<lambda>c. is_lower c \<or> is_digit c)
     (\<lambda>c. is_lower c \<or> is_digit c \<or> c = CHR ''.'' \<or> c = CHR ''_'' \<or> c = CHR ''-'') (Some 63) s"

definition taskSegmentPattern :: "string \<Rightarrow> bool" where
  "taskSegmentPattern s = match_ident is_alnum
     (\<lambda>c. is_alnum c \<or> c = CHR ''_'' \<or> c = CHR ''.'' \<or> c = CHR ''-'') None s"

definition validGradleEntrypoint :: "string \<Rightarrow> bool" where
  "validGradleEntrypoint e =
     (if e = [] \<or> \<not> trimSpaceFixed e \<or> hasPrefix ''-'' e then False
      else let segments = split_on (CHR '':'') (trimPrefix '':'' e) in
        if hasPrefix ''::'' e \<or> segments = [] then False
        else list_all (\<lambda>seg. taskSegmentPattern seg \<and> seg \<noteq> ''.'' \<and> seg \<noteq> ''..'') segments)"

text \<open>A control character or DEL; a multi-byte rune never has a code below 0x80.\<close>

definition control_char :: "char \<Rightarrow> bool" where
  "control_char c = ((of_char c :: int) < 32 \<or> (of_char c :: int) = 127)"

definition validRepositoryGlob :: "string \<Rightarrow> bool" where
  "validRepositoryGlob s =
     (if s = [] \<or> \<not> trimSpaceFixed s \<or> containsAny s [CHR 0x5C, CHR 0x00] \<or> hasPrefix ''/'' s then False
      else if list_ex control_char s then False
      else if path_clean s \<noteq> s \<or> s = ''.'' \<or> hasPrefix ''../'' s then False
      else if list_ex (\<lambda>seg. seg = [] \<or> seg = ''.'' \<or> seg = ''..'') (split_on (CHR ''/'') s) then False
      else path_match s s \<noteq> None)"

definition setKey :: "string list \<Rightarrow> string" where
  "setKey values = join_with (CHR 0x00) (sort values)"

section \<open>Validation\<close>

fun entrypoints_loop :: "string set \<Rightarrow> string list \<Rightarrow> error option" where
  "entrypoints_loop seen [] = None"
| "entrypoints_loop seen (e # es) =
     (if \<not> validGradleEntrypoint e \<or> e \<in> seen
      then Some ''entrypoints must be unique canonical Gradle task names''
      else entrypoints_loop (insert e seen) es)"

definition validateEntrypoints :: "string list \<Rightarrow> error option" where
  "validateEntrypoints es =
     (if length es = 0 \<or> length es > 64
      then Some ''entrypoint set must contain between 1 and 64 tasks''
      else entrypoints_loop {} es)"

text \<open>\<open>validateOwnedID\<close>: the error, or the enlarged set of identifiers seen so far.\<close>

definition validateOwnedID :: "string \<Rightarrow> string set \<Rightarrow> string set result" where
  "validateOwnedID i seen =
     (if \<not> idPattern i \<or> i \<in> seen then Inl ''IDs must be unique canonical IDs''
      else Inr (insert i seen))"

fun alternatives_loop ::
    "string \<Rightarrow> string set \<Rightarrow> string set \<Rightarrow> EntrypointSet list \<Rightarrow> error option" where
  "alternatives_loop originalKey ids sets [] = None"
| "alternatives_loop originalKey ids sets (a # as) =
     (if \<not> idPattern (es_ID a) \<or> es_ID a \<in> ids
      then Some ''allowed alternative IDs must be unique canonical IDs''
      else case validateEntrypoints (es_Entrypoints a) of
        Some err \<Rightarrow> Some (''invalid allowed alternative '' @ es_ID a @ '': '' @ err)
      | None \<Rightarrow>
          let key = setKey (es_Entrypoints a) in
          if key = originalKey \<or> key \<in> sets
          then Some ''allowed alternative entrypoint sets must be unique and differ from the original''
          else alternatives_loop originalKey (insert (es_ID a) ids) (insert key sets) as)"

fun artifacts_loop :: "string set \<Rightarrow> string set \<Rightarrow> Artifact list \<Rightarrow> string set result" where
  "artifacts_loop ids paths [] = Inr ids"
| "artifacts_loop ids paths (a # as) =
     (case validateOwnedID (a_ID a) ids of
        Inl err \<Rightarrow> Inl (''invalid required artifact: '' @ err)
      | Inr ids' \<Rightarrow>
          if a_Owner a \<noteq> BuildOptimization \<or> \<not> validRepositoryGlob (a_Path a) \<or> a_Path a \<in> paths
          then Inl ''required artifacts need BUILD_OPTIMIZATION ownership and safe repository-relative paths''
          else artifacts_loop ids' (insert (a_Path a) paths) as)"

fun checks_loop :: "string set \<Rightarrow> Check list \<Rightarrow> error option" where
  "checks_loop ids [] = None"
| "checks_loop ids (c # cs) =
     (case validateOwnedID (c_ID c) ids of
        Inl err \<Rightarrow> Some (''invalid required check: '' @ err)
      | Inr ids' \<Rightarrow>
          if c_Owner c \<noteq> BuildOptimization \<and> c_Owner c \<noteq> TestOptimization
          then Some ''required checks need an explicit product owner''
          else checks_loop ids' cs)"

fun global_paths_loop :: "string set \<Rightarrow> string list \<Rightarrow> error option" where
  "global_paths_loop seen [] = None"
| "global_paths_loop seen (p # ps) =
     (if \<not> validRepositoryGlob p \<or> p \<in> seen
      then Some ''global change paths must be unique safe repository-relative globs''
      else global_paths_loop (insert p seen) ps)"

definition validateManifest :: "Manifest \<Rightarrow> string \<Rightarrow> string \<Rightarrow> error option" where
  "validateManifest m repositoryID pipelineClass = first_err
     [reject_if (m_SchemaVersion m \<noteq> ManifestSchemaVersion \<or> m_ManifestVersion m = 0)
        ''unsupported build-impact manifest identity'',
      reject_if (\<not> repositoryPattern repositoryID \<or> m_RepositoryID m \<noteq> repositoryID)
        ''build-impact manifest repository binding does not match'',
      reject_if (\<not> pipelinePattern pipelineClass \<or> m_PipelineClass m \<noteq> pipelineClass)
        ''build-impact manifest pipeline binding does not match'',
      reject_if (m_Ownership m \<noteq> RepositoryOwnership)
        ''build-impact manifest must be repository committed'',
      reject_if (m_UnknownChangePolicy m \<noteq> FullGraphPolicy) ''unknown changes must use FULL_GRAPH'',
      wrap_err ''invalid original entrypoints: '' (validateEntrypoints (m_OriginalEntrypoints m)),
      reject_if (length (m_AllowedAlternatives m) = 0 \<or> length (m_AllowedAlternatives m) > 64)
        ''build-impact manifest requires bounded allowed alternatives'',
      alternatives_loop (setKey (m_OriginalEntrypoints m)) {} {} (m_AllowedAlternatives m),
      reject_if (length (m_RequiredArtifacts m) = 0 \<or> length (m_RequiredArtifacts m) > 256)
        ''build-impact manifest requires bounded artifacts'',
      (case artifacts_loop {} {} (m_RequiredArtifacts m) of
         Inl err \<Rightarrow> Some err
       | Inr ids \<Rightarrow> first_err
           [reject_if (m_RequiredChecks m = None \<or> length (checks_of m) > 256)
              ''build-impact manifest requires an explicit bounded check list'',
            checks_loop ids (checks_of m)]),
      reject_if (length (m_GlobalChangePaths m) = 0 \<or> length (m_GlobalChangePaths m) > 256)
        ''build-impact manifest requires bounded global change paths'',
      global_paths_loop {} (m_GlobalChangePaths m)]"

section \<open>What an accepted manifest guarantees\<close>

lemma entrypoints_loop_None:
  "entrypoints_loop seen es = None \<longleftrightarrow>
     list_all validGradleEntrypoint es \<and> distinct es \<and> set es \<inter> seen = {}"
  by (induction seen es rule: entrypoints_loop.induct) auto

lemma validateEntrypoints_None:
  "validateEntrypoints es = None \<longleftrightarrow>
     es \<noteq> [] \<and> length es \<le> 64 \<and> distinct es \<and> list_all validGradleEntrypoint es"
  by (auto simp: validateEntrypoints_def entrypoints_loop_None)

lemma taskSegment_chars:
  assumes "taskSegmentPattern s" "c \<in> set s"
  shows "c \<noteq> CHR 0x00" "c \<noteq> CHR '':''"
proof -
  from assms have "is_alnum c \<or> c = CHR ''_'' \<or> c = CHR ''.'' \<or> c = CHR ''-''"
    unfolding taskSegmentPattern_def by (auto dest: match_ident_chars)
  then show "c \<noteq> CHR 0x00" "c \<noteq> CHR '':''"
    by (auto simp: is_alnum_def is_lower_def is_upper_def is_digit_def in_range_def)
qed

lemma entrypoint_no_nul:
  assumes "validGradleEntrypoint e"
  shows "CHR 0x00 \<notin> set e"
proof
  assume nul: "CHR 0x00 \<in> set e"
  let ?t = "trimPrefix '':'' e"
  from assms have segs: "list_all taskSegmentPattern (split_on (CHR '':'') ?t)"
    by (auto simp: validGradleEntrypoint_def Let_def list_all_iff split: if_splits)
  have "CHR 0x00 \<in> set ?t"
    using nul by (cases e) (auto simp: trimPrefix_def hasPrefix_def split: if_splits)
  then obtain p where "p \<in> set (split_on (CHR '':'') ?t)" "CHR 0x00 \<in> set p"
    by (rule split_on_chars [where c = "CHR '':''"]) auto
  with segs show False using taskSegment_chars(1) by (fastforce simp: list_all_iff)
qed

text \<open>
  The joined key identifies the set of entrypoints: two validated lists have the same key exactly
  when they hold the same entrypoints, because no entrypoint contains the separator.
\<close>

lemma setKey_eq_iff:
  assumes "validateEntrypoints xs = None" "validateEntrypoints ys = None"
  shows "setKey xs = setKey ys \<longleftrightarrow> set xs = set ys"
proof
  assume eq: "setKey xs = setKey ys"
  have "CHR 0x00 \<notin> set p" if "p \<in> set xs \<union> set ys" for p
    using that assms entrypoint_no_nul by (auto simp: validateEntrypoints_None list_all_iff)
  then have "sort xs = sort ys"
    using eq assms join_with_inject [of "sort xs" "sort ys" "CHR 0x00"]
    by (auto simp: setKey_def validateEntrypoints_None)
  then show "set xs = set ys" by (metis set_sort)
next
  assume "set xs = set ys"
  then have "sort xs = sort ys"
    using assms by (metis sorted_list_of_set_sort_remdups distinct_remdups_id validateEntrypoints_None)
  then show "setKey xs = setKey ys" by (simp add: setKey_def)
qed

lemma alternatives_loop_None:
  "alternatives_loop k ids sets as = None \<Longrightarrow>
     list_all (\<lambda>a. idPattern (es_ID a) \<and> validateEntrypoints (es_Entrypoints a) = None \<and>
        setKey (es_Entrypoints a) \<noteq> k) as \<and>
     distinct (map es_ID as) \<and> set (map es_ID as) \<inter> ids = {} \<and>
     distinct (map (setKey \<circ> es_Entrypoints) as) \<and>
     set (map (setKey \<circ> es_Entrypoints) as) \<inter> sets = {}"
  by (induction k ids sets as rule: alternatives_loop.induct)
     (auto simp: Let_def split: if_splits option.splits)

lemma artifacts_loop_Inr:
  "artifacts_loop ids paths as = Inr ids' \<Longrightarrow>
     list_all (\<lambda>a. a_Owner a = BuildOptimization \<and> validRepositoryGlob (a_Path a)) as \<and>
     distinct (map a_ID as) \<and> ids' = ids \<union> set (map a_ID as) \<and> set (map a_ID as) \<inter> ids = {}"
  by (induction ids paths as rule: artifacts_loop.induct)
     (auto simp: validateOwnedID_def split: if_splits sum.splits)

lemma checks_loop_None:
  "checks_loop ids cs = None \<Longrightarrow>
     list_all (\<lambda>c. c_Owner c = BuildOptimization \<or> c_Owner c = TestOptimization) cs \<and>
     distinct (map c_ID cs) \<and> set (map c_ID cs) \<inter> ids = {}"
  by (induction ids cs rule: checks_loop.induct)
     (auto simp: validateOwnedID_def split: if_splits sum.splits)

lemma validateManifest_alternatives:
  assumes "validateManifest m r p = None"
  shows "alternatives_loop (setKey (m_OriginalEntrypoints m)) {} {} (m_AllowedAlternatives m) = None"
    and "validateEntrypoints (m_OriginalEntrypoints m) = None"
  using assms by (auto simp: validateManifest_def)

lemma validateManifest_artifacts:
  assumes "validateManifest m r p = None"
  obtains ids where "artifacts_loop {} {} (m_RequiredArtifacts m) = Inr ids"
    and "checks_loop ids (checks_of m) = None"
  using assms by (auto simp: validateManifest_def split: sum.splits)

end
