(* ===== verification/GraphSearch.thy ===== *)
theory GraphSearch
  imports Prelude
begin

text \<open>
  The two graph searches that the Go packages \<open>buildimpact\<close> and \<open>changeaware\<close> both contain, once and
  for an arbitrary node type: the three-colour depth-first search for a dependency cycle, and the
  worklist that collects every node reachable from a list of roots. A graph is an association
  list from a node to its successors, the Go map of adjacency slices in some iteration order; a
  node without an entry has no successor.
\<close>

type_synonym 'k graph = "('k \<times> 'k list) list"

definition succs :: "'k graph \<Rightarrow> 'k \<Rightarrow> 'k list" where
  "succs g k = (case map_of g k of None \<Rightarrow> [] | Some ds \<Rightarrow> ds)"

definition nodes :: "'k graph \<Rightarrow> 'k set" where
  "nodes g = fst ` set g"

definition edges :: "'k graph \<Rightarrow> ('k \<times> 'k) set" where
  "edges g = {(p, d). d \<in> set (succs g p)}"

lemma finite_nodes [simp]: "finite (nodes g)"
  by (simp add: nodes_def)

lemma succs_outside [simp]: "p \<notin> nodes g \<Longrightarrow> succs g p = []"
proof -
  assume "p \<notin> nodes g"
  then have "map_of g p = None" by (simp add: map_of_eq_None_iff nodes_def)
  then show ?thesis by (simp add: succs_def)
qed

lemma edges_iff [simp]: "(p, d) \<in> edges g \<longleftrightarrow> d \<in> set (succs g p)"
  by (simp add: edges_def)

section \<open>Cycle detection by three-colour depth-first search\<close>

text \<open>
  Colours as in the code: 0 unvisited, 1 on the current path, 2 finished. The result is
  \<open>None\<close> only when the fuel runs out, which \<open>dfs_cyclic_total\<close> excludes for the fuel that
  \<open>dfs_cyclic\<close> supplies.
\<close>

fun visit :: "nat \<Rightarrow> 'k graph \<Rightarrow> 'k \<Rightarrow> ('k \<Rightarrow> nat) \<Rightarrow> (bool \<times> ('k \<Rightarrow> nat)) option"
  and visit_list :: "nat \<Rightarrow> 'k graph \<Rightarrow> 'k list \<Rightarrow> ('k \<Rightarrow> nat) \<Rightarrow> (bool \<times> ('k \<Rightarrow> nat)) option"
where
  "visit 0 g p st = None"
| "visit (Suc n) g p st =
     (if st p = 1 then Some (True, st)
      else if st p = 2 then Some (False, st)
      else (case visit_list n g (succs g p) (st(p := 1)) of
          None \<Rightarrow> None
        | Some (found, st') \<Rightarrow> if found then Some (True, st') else Some (False, st'(p := 2))))"
| "visit_list n g [] st = Some (False, st)"
| "visit_list n g (d # ds) st =
     (case visit n g d st of
        None \<Rightarrow> None
      | Some (found, st') \<Rightarrow> if found then Some (True, st') else visit_list n g ds st')"

definition dfs_cyclic :: "'k graph \<Rightarrow> bool option" where
  "dfs_cyclic g = map_option fst (visit_list (Suc (length g)) g (map fst g) (\<lambda>_. 0))"

text \<open>Nodes on the current path are the same before and after a search that finds nothing.\<close>

lemma visit_grey:
  "visit n g p st = Some (False, st') \<Longrightarrow> st' q = 1 \<longleftrightarrow> st q = 1"
  "visit_list n g ds st = Some (False, st') \<Longrightarrow> st' q = 1 \<longleftrightarrow> st q = 1"
proof (induction n g p st and n g ds st arbitrary: st' and st' rule: visit_visit_list.induct)
  case (2 n g p st)
  then show ?case by (fastforce split: if_splits option.splits)
next
  case (4 n g d ds st)
  then show ?case by (fastforce split: if_splits option.splits)
qed simp_all

text \<open>A search only colours nodes: an uncoloured node was uncoloured before.\<close>

lemma visit_white:
  "visit n g p st = Some (b, st') \<Longrightarrow> st' q = 0 \<Longrightarrow> st q = 0"
  "visit_list n g ds st = Some (b, st') \<Longrightarrow> st' q = 0 \<Longrightarrow> st q = 0"
proof (induction n g p st and n g ds st arbitrary: b st' and b st' rule: visit_visit_list.induct)
  case (2 n g p st)
  then show ?case by (fastforce split: if_splits option.splits)
next
  case (4 n g d ds st)
  then show ?case by (fastforce split: if_splits option.splits)
qed simp_all

text \<open>Finished nodes are closed under successors and lie on no cycle.\<close>

definition finished_ok :: "'k graph \<Rightarrow> ('k \<Rightarrow> nat) \<Rightarrow> bool" where
  "finished_ok g st \<longleftrightarrow>
     (\<forall>p. st p = 2 \<longrightarrow> (\<forall>d\<in>set (succs g p). st d = 2) \<and> (p, p) \<notin> (edges g)\<^sup>+)"

lemma finished_ok_reach:
  assumes "finished_ok g st" and "(p, q) \<in> (edges g)\<^sup>*" and "st p = 2"
  shows "st q = 2"
  using assms(2,3) by (induction rule: rtrancl_induct) (use assms(1) in \<open>auto simp: finished_ok_def\<close>)

lemma finish_node:
  assumes "finished_ok g st" "st p = 1" "\<forall>d\<in>set (succs g p). st d = 2"
  shows "finished_ok g (st(p := 2))"
proof -
  have "(p, p) \<notin> (edges g)\<^sup>+"
  proof
    assume "(p, p) \<in> (edges g)\<^sup>+"
    then obtain d where d: "d \<in> set (succs g p)" "(d, p) \<in> (edges g)\<^sup>*"
      by (auto dest: tranclD)
    with assms finished_ok_reach [of g st d p] show False by auto
  qed
  with assms show ?thesis by (auto simp: finished_ok_def)
qed

lemma visit_False:
  "visit n g p st = Some (False, st') \<Longrightarrow> finished_ok g st \<Longrightarrow>
     finished_ok g st' \<and> st' p = 2 \<and> (\<forall>q. st q = 2 \<longrightarrow> st' q = 2)"
  "visit_list n g ds st = Some (False, st') \<Longrightarrow> finished_ok g st \<Longrightarrow>
     finished_ok g st' \<and> (\<forall>d\<in>set ds. st' d = 2) \<and> (\<forall>q. st q = 2 \<longrightarrow> st' q = 2)"
proof (induction n g p st and n g ds st arbitrary: st' and st' rule: visit_visit_list.induct)
  case (2 n g p st)
  show ?case
  proof (cases "st p = 2")
    case True
    with 2 show ?thesis by auto
  next
    case False
    with "2.prems" obtain st1 where v: "visit_list n g (succs g p) (st(p := 1)) = Some (False, st1)"
      and st': "st' = st1(p := 2)" and p: "st p \<noteq> 1"
      by (auto split: if_splits option.splits)
    have ok: "finished_ok g (st(p := 1))"
      using "2.prems"(2) False by (auto simp: finished_ok_def)
    from "2.IH" [OF p False v ok] have fin: "finished_ok g st1" "\<forall>d\<in>set (succs g p). st1 d = 2"
      "\<forall>q. (st(p := 1)) q = 2 \<longrightarrow> st1 q = 2" by auto
    have "st1 p = 1" using visit_grey(2) [OF v, of p] by simp
    with fin(1,2) have "finished_ok g (st1(p := 2))" by (intro finish_node)
    then have "finished_ok g st'" unfolding st' .
    moreover have "st' p = 2 \<and> (\<forall>q. st q = 2 \<longrightarrow> st' q = 2)" using fin(3) st' False by auto
    ultimately show ?thesis by blast
  qed
next
  case (4 n g d ds st)
  from "4.prems"(1) obtain st1 where v: "visit n g d st = Some (False, st1)"
    and l: "visit_list n g ds st1 = Some (False, st')"
    by (auto split: if_splits option.splits)
  from "4.IH"(1) [OF v "4.prems"(2)] have one: "finished_ok g st1" "st1 d = 2"
    "\<forall>q. st q = 2 \<longrightarrow> st1 q = 2" by auto
  from "4.IH"(2) [OF v refl _ l one(1)] one show ?case by auto
qed simp_all

text \<open>
  While every node of the current path reaches the node being visited, meeting a node of the path
  again closes a cycle.
\<close>

lemma visit_True:
  "visit n g p st = Some (True, st') \<Longrightarrow> (\<And>q. st q = 1 \<Longrightarrow> (q, p) \<in> (edges g)\<^sup>+) \<Longrightarrow>
     \<exists>q. (q, q) \<in> (edges g)\<^sup>+"
  "visit_list n g ds st = Some (True, st') \<Longrightarrow>
     (\<And>q d. st q = 1 \<Longrightarrow> d \<in> set ds \<Longrightarrow> (q, d) \<in> (edges g)\<^sup>+) \<Longrightarrow> \<exists>q. (q, q) \<in> (edges g)\<^sup>+"
proof (induction n g p st and n g ds st arbitrary: st' and st' rule: visit_visit_list.induct)
  case (2 n g p st)
  show ?case
  proof (cases "st p = 1")
    case True
    then show ?thesis using "2.prems"(2) by blast
  next
    case False
    with "2.prems"(1) have p2: "st p \<noteq> 2"
      and v: "visit_list n g (succs g p) (st(p := 1)) = Some (True, st')"
      by (auto split: if_splits option.splits)
    have "(q, d) \<in> (edges g)\<^sup>+" if "(st(p := 1)) q = 1" "d \<in> set (succs g p)" for q d
      using that "2.prems"(2) [of q] by (auto split: if_splits intro: trancl_into_trancl)
    with "2.IH" [OF False p2 v] show ?thesis by blast
  qed
next
  case (4 n g d ds st)
  show ?case
  proof (cases "visit n g d st")
    case None
    with "4.prems"(1) show ?thesis by simp
  next
    case (Some r)
    then obtain b st1 where r: "visit n g d st = Some (b, st1)" by (cases r) auto
    show ?thesis
    proof (cases b)
      case True
      with "4.IH"(1) r "4.prems"(2) show ?thesis by auto
    next
      case False
      with r have vF: "visit n g d st = Some (False, st1)" by simp
      from visit_grey(1) [OF vF] have "st1 q = 1 \<longleftrightarrow> st q = 1" for q .
      with "4.IH"(2) [OF vF refl] "4.prems" vF show ?thesis by auto
    qed
  qed
qed simp_all

text \<open>The fuel: one unit per uncoloured entry of the graph and one for a node without entry.\<close>

definition whites :: "'k graph \<Rightarrow> ('k \<Rightarrow> nat) \<Rightarrow> 'k set" where
  "whites g st = {p \<in> nodes g. st p = 0}"

lemma whites_mono: "(\<And>q. st' q = 0 \<Longrightarrow> st q = 0) \<Longrightarrow> card (whites g st') \<le> card (whites g st)"
  by (rule card_mono) (auto simp: whites_def)

definition coloured :: "('k \<Rightarrow> nat) \<Rightarrow> bool" where
  "coloured st \<longleftrightarrow> (\<forall>q. st q \<le> 2)"

lemma visit_coloured:
  "visit n g p st = Some (b, st') \<Longrightarrow> coloured st \<Longrightarrow> coloured st'"
  "visit_list n g ds st = Some (b, st') \<Longrightarrow> coloured st \<Longrightarrow> coloured st'"
proof (induction n g p st and n g ds st arbitrary: b st' and b st' rule: visit_visit_list.induct)
  case (2 n g p st)
  then show ?case by (fastforce simp: coloured_def split: if_splits option.splits)
next
  case (4 n g d ds st)
  then show ?case by (fastforce split: if_splits option.splits)
qed simp_all

lemma visit_total:
  "card (whites g st) < n \<Longrightarrow> coloured st \<Longrightarrow> \<exists>b st'. visit n g p st = Some (b, st')"
  "card (whites g st) < n \<Longrightarrow> coloured st \<Longrightarrow> \<exists>b st'. visit_list n g ds st = Some (b, st')"
proof (induction n g p st and n g ds st rule: visit_visit_list.induct)
  case (2 n g p st)
  show ?case
  proof (cases "st p = 0")
    case False
    with "2.prems"(2) have "st p = 1 \<or> st p = 2"
      unfolding coloured_def by (metis One_nat_def Suc_1 le_Suc_eq le_zero_eq)
    then show ?thesis by auto
  next
    case True
    have ex: "\<exists>b st'. visit_list n g (succs g p) (st(p := 1)) = Some (b, st')"
    proof (cases "p \<in> nodes g")
      case False
      then show ?thesis by auto
    next
      case p: True
      have "whites g (st(p := 1)) \<subset> whites g st" using p True by (auto simp: whites_def)
      then have "card (whites g (st(p := 1))) < card (whites g st)"
        by (intro psubset_card_mono) (auto simp: whites_def)
      moreover have "coloured (st(p := 1))" using "2.prems"(2) by (simp add: coloured_def)
      ultimately show ?thesis using "2.IH" True "2.prems"(1) by fastforce
    qed
    then show ?thesis using True by (auto split: option.splits)
  qed
next
  case (4 n g d ds st)
  then obtain b st1 where v: "visit n g d st = Some (b, st1)" by blast
  show ?case
  proof (cases b)
    case True
    with v show ?thesis by auto
  next
    case False
    have "card (whites g st1) < n"
      using whites_mono [of st1 st g] visit_white(1) [OF v] "4.prems"(1) by fastforce
    with "4.IH"(2) [OF v refl] False v visit_coloured(1) [OF v "4.prems"(2)] show ?thesis by auto
  qed
qed auto

lemma dfs_cyclic_total: "\<exists>b. dfs_cyclic g = Some b"
proof -
  have "card (whites g (\<lambda>_. 0)) \<le> card (nodes g)" by (rule card_mono) (auto simp: whites_def)
  also have "\<dots> \<le> length g" unfolding nodes_def by (rule order_trans [OF card_image_le card_length]) simp
  finally have "card (whites g (\<lambda>_. 0)) < Suc (length g)" by simp
  then show ?thesis
    using visit_total(2) [of g "\<lambda>_. 0" "Suc (length g)" "map fst g"]
    by (auto simp: dfs_cyclic_def coloured_def)
qed

lemma dfs_cyclic_iff: "dfs_cyclic g = Some (\<exists>q. (q, q) \<in> (edges g)\<^sup>+)"
proof -
  obtain b st' where v: "visit_list (Suc (length g)) g (map fst g) (\<lambda>_. 0) = Some (b, st')"
    using dfs_cyclic_total [of g] by (auto simp: dfs_cyclic_def)
  show ?thesis
  proof (cases b)
    case True
    with v visit_True(2) [of "Suc (length g)" g "map fst g" "\<lambda>_. 0" st']
    show ?thesis by (auto simp: dfs_cyclic_def)
  next
    case False
    with v visit_False(2) [of "Suc (length g)" g "map fst g" "\<lambda>_. 0" st']
    have ok: "finished_ok g st'" and all: "\<forall>p\<in>nodes g. st' p = 2"
      by (auto simp: finished_ok_def nodes_def)
    have "(q, q) \<notin> (edges g)\<^sup>+" for q
    proof
      assume c: "(q, q) \<in> (edges g)\<^sup>+"
      then obtain d where "d \<in> set (succs g q)" by (auto dest: tranclD)
      then have "q \<in> nodes g" by (metis empty_iff list.set(1) succs_outside)
      with ok all c show False by (auto simp: finished_ok_def)
    qed
    with v False show ?thesis by (auto simp: dfs_cyclic_def)
  qed
qed

section \<open>Worklist reachability\<close>

text \<open>
  The stack of the code with its top at the head of the list. It terminates: a popped node is
  either known already, or has an entry that is now used up, or has no successors.
\<close>

function reach_loop :: "'k graph \<Rightarrow> 'k list \<Rightarrow> 'k set \<Rightarrow> 'k set" where
  "reach_loop g [] R = R"
| "reach_loop g (p # ps) R =
     (if p \<in> R then reach_loop g ps R
      else reach_loop g (rev (succs g p) @ ps) (insert p R))"
  by pat_completeness auto
termination
proof (relation "measures [\<lambda>(g, ps, R). card (nodes g - R), \<lambda>(g, ps, R). length ps]", goal_cases)
  case (3 g p ps R)
  show ?case
  proof (cases "p \<in> nodes g")
    case True
    with 3 have "nodes g - insert p R \<subset> nodes g - R" by auto
    then have "card (nodes g - insert p R) < card (nodes g - R)"
      by (intro psubset_card_mono) auto
    then show ?thesis by simp
  next
    case False
    then have "nodes g - insert p R = nodes g - R" by auto
    with False show ?thesis by simp
  qed
qed auto

definition reachable_from :: "'k graph \<Rightarrow> 'k list \<Rightarrow> 'k set" where
  "reachable_from g roots = reach_loop g (rev roots) {}"

lemma reach_loop_sound:
  "q \<in> reach_loop g ps R \<Longrightarrow> q \<in> R \<or> (\<exists>p\<in>set ps. (p, q) \<in> (edges g)\<^sup>*)"
proof (induction g ps R rule: reach_loop.induct)
  case (2 g p ps R)
  show ?case
  proof (cases "p \<in> R")
    case True
    with 2 show ?thesis by auto
  next
    case False
    with 2 have "q \<in> insert p R \<or> (\<exists>x\<in>set (rev (succs g p) @ ps). (x, q) \<in> (edges g)\<^sup>*)" by simp
    then show ?thesis by (auto intro: converse_rtrancl_into_rtrancl)
  qed
qed simp

definition closed_upto :: "'k graph \<Rightarrow> 'k set \<Rightarrow> 'k set \<Rightarrow> bool" where
  "closed_upto g R P \<longleftrightarrow> (\<forall>p\<in>R. set (succs g p) \<subseteq> R \<union> P)"

lemma reach_loop_closed:
  assumes "closed_upto g R (set ps)"
  shows "R \<union> set ps \<subseteq> reach_loop g ps R \<and> closed_upto g (reach_loop g ps R) {}"
  using assms
proof (induction g ps R rule: reach_loop.induct)
  case (1 g R)
  then show ?case by simp
next
  case (2 g p ps R)
  show ?case
  proof (cases "p \<in> R")
    case True
    with 2 show ?thesis by (auto simp: closed_upto_def)
  next
    case False
    then have "closed_upto g (insert p R) (set (rev (succs g p) @ ps))"
      using "2.prems" by (auto simp: closed_upto_def)
    with 2(2) [OF False] False show ?thesis by auto
  qed
qed

lemma closed_upto_reach:
  assumes "closed_upto g R {}" "(p, q) \<in> (edges g)\<^sup>*" "p \<in> R"
  shows "q \<in> R"
  using assms(2,3) by (induction rule: rtrancl_induct) (use assms(1) in \<open>auto simp: closed_upto_def\<close>)

lemma reachable_from_eq:
  "reachable_from g roots = {q. \<exists>p\<in>set roots. (p, q) \<in> (edges g)\<^sup>*}"
proof (rule set_eqI, rule iffI)
  fix q
  assume "q \<in> reachable_from g roots"
  then show "q \<in> {q. \<exists>p\<in>set roots. (p, q) \<in> (edges g)\<^sup>*}"
    using reach_loop_sound [of q g "rev roots" "{}"] by (auto simp: reachable_from_def)
next
  fix q
  assume "q \<in> {q. \<exists>p\<in>set roots. (p, q) \<in> (edges g)\<^sup>*}"
  moreover have "set roots \<subseteq> reachable_from g roots \<and> closed_upto g (reachable_from g roots) {}"
    using reach_loop_closed [of g "{}" "rev roots"] by (auto simp: reachable_from_def closed_upto_def)
  ultimately show "q \<in> reachable_from g roots" using closed_upto_reach [of g] by blast
qed

lemma finite_reach_loop: "finite R \<Longrightarrow> finite (reach_loop g ps R)"
  by (induction g ps R rule: reach_loop.induct) auto

lemma finite_reachable_from [simp]: "finite (reachable_from g roots)"
  by (simp add: reachable_from_def finite_reach_loop)

section \<open>Closures as an interface\<close>

text \<open>
  What the clients rely on: from some roots a closure operation collects exactly what the edges
  reach. The consequences are proved once; the searches of the packages are its instances.
\<close>

locale graph_closure =
  fixes closure :: "'g \<Rightarrow> 'r \<Rightarrow> 'k set"
    and edge :: "'g \<Rightarrow> ('k \<times> 'k) set"
    and roots :: "'r \<Rightarrow> 'k set"
  assumes closure_eq: "closure g r = {q. \<exists>p\<in>roots r. (p, q) \<in> (edge g)\<^sup>*}"
begin

lemma closure_roots: "roots r \<subseteq> closure g r"
  by (auto simp: closure_eq)

lemma closure_step: "p \<in> closure g r \<Longrightarrow> (p, q) \<in> edge g \<Longrightarrow> q \<in> closure g r"
  by (auto simp: closure_eq intro: rtrancl_into_rtrancl)

lemma closure_least:
  assumes "roots r \<subseteq> S" "\<And>p q. p \<in> S \<Longrightarrow> (p, q) \<in> edge g \<Longrightarrow> q \<in> S"
  shows "closure g r \<subseteq> S"
proof
  fix q assume "q \<in> closure g r"
  then obtain p where "p \<in> S" "(p, q) \<in> (edge g)\<^sup>*" using assms(1) by (auto simp: closure_eq)
  from this(2,1) show "q \<in> S" by (induction rule: rtrancl_induct) (use assms(2) in auto)
qed

lemma outside_unreached: "q \<notin> closure g r \<Longrightarrow> p \<in> roots r \<Longrightarrow> (p, q) \<notin> (edge g)\<^sup>*"
  by (auto simp: closure_eq)

end

interpretation search: graph_closure reachable_from edges set
  by unfold_locales (rule reachable_from_eq)

end
