(* ===== verification/ImpactGraph.thy ===== *)
theory ImpactGraph
  imports Manifest GraphSearch "HOL-Library.Product_Lexorder"
begin

text \<open>
  \<open>internal/buildimpact/graph.go\<close>: the declared project graph, its validation against a manifest,
  repository globs, the reverse-dependency closure and \<open>evaluateImpact\<close>, which predicts a smaller
  customer alternative for a set of changed paths or falls back to the full graph.
\<close>

section \<open>Data\<close>

abbreviation DeclaredGraphSchemaVersion :: string where
  "DeclaredGraphSchemaVersion \<equiv> ''buildopt.build-impact/declared-graph/v1''"
abbreviation DecisionFullGraph :: string where "DecisionFullGraph \<equiv> ''FULL_GRAPH''"
abbreviation DecisionShadowAlternative :: string where
  "DecisionShadowAlternative \<equiv> ''SHADOW_ALTERNATIVE''"

definition mandatoryGlobalChangePaths :: "string list" where
  "mandatoryGlobalChangePaths =
     [''settings.gradle'', ''settings.gradle.kts'', ''**/settings.gradle'', ''**/settings.gradle.kts'',
      ''build.gradle'', ''build.gradle.kts'', ''**/build.gradle'', ''**/build.gradle.kts'',
      ''buildSrc/**'', ''build-logic/**'', ''gradle/**'', ''gradle.properties'', ''gradlew'',
      ''gradlew.bat'']"

record Project =
  p_Path :: string
  p_SourcePaths :: "string list"
  p_OwnedSourcePaths :: "string list"
  p_DependsOn :: "string list"
  p_UnknownRelationships :: bool

record DeclaredEntrypoint =
  ep_Name :: string
  ep_Owner :: string
  ep_ReachesProjects :: "string list"
  ep_ArtifactIDs :: "string list"
  ep_CheckIDs :: "string list"
  ep_ContainsTestTasks :: bool
  ep_UnknownRelationships :: bool

record DeclaredGraph =
  g_SchemaVersion :: string
  g_RepositoryID :: string
  g_PipelineClass :: string
  g_ManifestDigest :: string
  g_AdapterVersion :: string
  g_Complete :: bool
  g_Projects :: "Project list"
  g_Entrypoints :: "DeclaredEntrypoint list"
  g_GlobalChangePaths :: "string list"

record LoadedGraph =
  lg_Graph :: DeclaredGraph
  lg_Digest :: string

record ImpactDecision =
  d_Mode :: string
  d_Reason :: string
  d_ExecutableEntrypoints :: "string list"
  d_PredictedAlternativeID :: string
  d_PredictedEntrypoints :: "string list"
  d_AffectedProjects :: "string list"
  d_OmittedProjects :: "string list"
  d_PreservedTestCheckIDs :: "string list"
  d_SelectionAuthorized :: bool

section \<open>Repository globs\<close>

definition validRepositoryPath :: "string \<Rightarrow> bool" where
  "validRepositoryPath s = (validRepositoryGlob s \<and> \<not> containsAny s ''*?['')"

text \<open>The inner closure \<open>match\<close> on the remaining pattern and candidate segments.\<close>

primrec glob_match :: "string list \<Rightarrow> string list \<Rightarrow> bool" where
  "glob_match [] cs = (cs = [])"
| "glob_match (p # ps) cs =
     (if p = ''**'' then list_ex (\<lambda>next. glob_match ps (drop next cs)) [0..<Suc (length cs)]
      else (case cs of [] \<Rightarrow> False | c # cs' \<Rightarrow> path_match p c = Some True \<and> glob_match ps cs'))"

definition matchRepositoryGlob :: "string \<Rightarrow> string \<Rightarrow> bool" where
  "matchRepositoryGlob pattern candidate =
     glob_match (split_on (CHR ''/'') pattern) (split_on (CHR ''/'') candidate)"

definition matchesAnyGlob :: "string list \<Rightarrow> string \<Rightarrow> bool" where
  "matchesAnyGlob patterns candidate = list_ex (\<lambda>p. matchRepositoryGlob p candidate) patterns"

definition appendGlobalPaths :: "string list \<Rightarrow> string list \<Rightarrow> string list" where
  "appendGlobalPaths manifestPaths graphPaths = mandatoryGlobalChangePaths @ manifestPaths @ graphPaths"

definition repositoryGlobSpecificity :: "string \<Rightarrow> int" where
  "repositoryGlobSpecificity pattern =
     (case indexAny pattern ''*?['' of Some i \<Rightarrow> int i | None \<Rightarrow> int (length pattern))"

text \<open>What the segments of a glob mean: \<open>**\<close> stands for any number of whole segments.\<close>

inductive glob_spec :: "string list \<Rightarrow> string list \<Rightarrow> bool" where
  glob_nil: "glob_spec [] []"
| glob_any: "glob_spec ps cs2 \<Longrightarrow> glob_spec (''**'' # ps) (cs1 @ cs2)"
| glob_seg: "p \<noteq> ''**'' \<Longrightarrow> path_match p c = Some True \<Longrightarrow> glob_spec ps cs \<Longrightarrow> glob_spec (p # ps) (c # cs)"

inductive_simps glob_spec_Nil [simp]: "glob_spec [] cs"
inductive_cases glob_spec_ConsE: "glob_spec (p # ps) cs"

lemma glob_match_spec: "glob_match ps cs \<longleftrightarrow> glob_spec ps cs"
proof (induction ps arbitrary: cs)
  case Nil
  show ?case by simp
next
  case (Cons p ps)
  show ?case
  proof (cases "p = ''**''")
    case True
    have "glob_match (p # ps) cs \<longleftrightarrow> (\<exists>n\<le>length cs. glob_spec ps (drop n cs))"
      using True Cons.IH by (auto simp: list_ex_iff less_Suc_eq_le simp del: upt_Suc)
    also have "\<dots> \<longleftrightarrow> glob_spec (p # ps) cs"
    proof
      assume "\<exists>n\<le>length cs. glob_spec ps (drop n cs)"
      then obtain n where "glob_spec ps (drop n cs)" by blast
      then show "glob_spec (p # ps) cs"
        using glob_spec.glob_any [of ps "drop n cs" "take n cs"] True by simp
    next
      assume "glob_spec (p # ps) cs"
      then show "\<exists>n\<le>length cs. glob_spec ps (drop n cs)"
      proof (rule glob_spec_ConsE)
        fix cs2 cs1
        assume "cs = cs1 @ cs2" "glob_spec ps cs2"
        then show ?thesis by (intro exI [of _ "length cs1"]) simp
      qed (use True in auto)
    qed
    finally show ?thesis .
  next
    case False
    then show ?thesis
      by (auto simp: Cons.IH elim!: glob_spec_ConsE intro: glob_spec.glob_seg split: list.splits)
  qed
qed

section \<open>Project ownership of a changed path\<close>

definition project_specificity :: "bool \<Rightarrow> string \<Rightarrow> Project \<Rightarrow> int" where
  "project_specificity ownedOnly changedPath project =
     (let sourcePaths = (if ownedOnly \<and> p_OwnedSourcePaths project \<noteq> [] then p_OwnedSourcePaths project
                         else p_SourcePaths project)
      in foldl (\<lambda>best sourcePath.
            if matchRepositoryGlob sourcePath changedPath
            then max best (repositoryGlobSpecificity sourcePath) else best) (-1) sourcePaths)"

definition matching_step ::
    "bool \<Rightarrow> bool \<Rightarrow> string \<Rightarrow> int \<times> string set \<Rightarrow> Project \<Rightarrow> int \<times> string set" where
  "matching_step mostSpecificOnly ownedOnly changedPath acc project =
     (let (best, matches) = acc; sp = project_specificity ownedOnly changedPath project in
      if sp < 0 then (best, matches)
      else let (best', matches') =
             (if mostSpecificOnly \<and> sp > best then (sp, {}) else (best, matches))
           in if \<not> mostSpecificOnly \<or> sp = best' then (best', insert (p_Path project) matches')
              else (best', matches'))"

definition matchingChangedProjects :: "Project list \<Rightarrow> string \<Rightarrow> bool \<Rightarrow> bool \<Rightarrow> string set" where
  "matchingChangedProjects projects changedPath mostSpecificOnly ownedOnly =
     snd (foldl (matching_step mostSpecificOnly ownedOnly changedPath) (-1, {}) projects)"

definition owns_path :: "bool \<Rightarrow> string \<Rightarrow> Project \<Rightarrow> bool" where
  "owns_path ownedOnly changedPath project =
     list_ex (\<lambda>sp. matchRepositoryGlob sp changedPath)
       (if ownedOnly \<and> p_OwnedSourcePaths project \<noteq> [] then p_OwnedSourcePaths project
        else p_SourcePaths project)"

lemma specificity_nonneg: "0 \<le> repositoryGlobSpecificity p"
  by (auto simp: repositoryGlobSpecificity_def split: option.splits)

lemma foldl_specificity:
  fixes b :: int
  shows "b \<le> foldl (\<lambda>best sp. if q sp then max best (repositoryGlobSpecificity sp) else best) b xs"
  by (induction xs arbitrary: b) (auto intro: order_trans [OF max.cobounded1])

lemma project_specificity_owns: "0 \<le> project_specificity o' c p \<longleftrightarrow> owns_path o' c p"
proof -
  have "0 \<le> foldl (\<lambda>best sp. if q sp then max best (repositoryGlobSpecificity sp) else best) b xs
      \<longleftrightarrow> 0 \<le> b \<or> list_ex q xs" for q xs and b :: int
  proof (induction xs arbitrary: b)
    case (Cons x xs)
    then show ?case using specificity_nonneg [of x] by (auto simp: le_max_iff_disj)
  qed simp
  then show ?thesis by (simp add: project_specificity_def owns_path_def Let_def)
qed

lemma matching_conservative:
  "snd (foldl (matching_step False o' c) (b, M) ps) = M \<union> p_Path ` {p \<in> set ps. owns_path o' c p}"
proof (induction ps arbitrary: b M)
  case (Cons p ps)
  have "matching_step False o' c (b, M) p =
      (b, if owns_path o' c p then insert (p_Path p) M else M)"
    using project_specificity_owns [of o' c p] by (auto simp: matching_step_def Let_def)
  with Cons.IH show ?case by (cases "owns_path o' c p") (auto simp: image_iff)
qed simp

text \<open>Without the most-specific rule every owner is kept.\<close>

lemma matchingChangedProjects_all:
  "matchingChangedProjects ps c False o' = p_Path ` {p \<in> set ps. owns_path o' c p}"
  by (simp add: matchingChangedProjects_def matching_conservative)

text \<open>With it, exactly the owners of greatest specificity are kept.\<close>

definition best_owners :: "bool \<Rightarrow> string \<Rightarrow> Project set \<Rightarrow> Project set" where
  "best_owners o' c P = {p \<in> P. owns_path o' c p \<and>
     (\<forall>q\<in>P. project_specificity o' c q \<le> project_specificity o' c p)}"

lemma matching_most_specific:
  assumes "b = Max (insert (-1) (project_specificity o' c ` set qs))"
    and "M = p_Path ` best_owners o' c (set qs)"
  shows "snd (foldl (matching_step True o' c) (b, M) ps) = p_Path ` best_owners o' c (set (qs @ ps))"
  using assms
proof (induction ps arbitrary: b M qs)
  case Nil
  then show ?case by simp
next
  case (Cons p ps)
  let ?sp = "project_specificity o' c"
  let ?qs = "qs @ [p]"
  have own: "owns_path o' c q \<longleftrightarrow> 0 \<le> ?sp q" for q by (simp add: project_specificity_owns)
  have max: "?sp q \<le> b" if "q \<in> set qs" for q using Cons.prems(1) that by auto
  have bge: "-1 \<le> b" using Cons.prems(1) by auto
  have bin: "b = -1 \<or> (\<exists>q\<in>set qs. ?sp q = b)"
    using Max_in [of "insert (-1) (?sp ` set qs)"] Cons.prems(1) by auto
  have b': "Max (insert (-1) (?sp ` set ?qs)) = max b (?sp p)"
  proof -
    have "insert (-1) (?sp ` set ?qs) = insert (?sp p) (insert (-1) (?sp ` set qs))" by auto
    then show ?thesis using Cons.prems(1) by (simp only: Max_insert finite.intros finite_imageI
        finite_set insert_not_empty not_False_eq_True max.commute)
  qed
  define st where "st = matching_step True o' c (b, M) p"
  have "fst st = max b (?sp p) \<and> snd st = p_Path ` best_owners o' c (set ?qs)"
  proof -
    consider "?sp p < 0" | "0 \<le> ?sp p" "b < ?sp p" | "0 \<le> ?sp p" "?sp p = b" | "0 \<le> ?sp p" "?sp p < b"
      by linarith
    then show ?thesis
    proof cases
      case 1
      then have "best_owners o' c (set ?qs) = best_owners o' c (set qs)"
        using bge by (auto simp: best_owners_def own)
      with 1 bge Cons.prems(2) show ?thesis by (simp add: st_def matching_step_def)
    next
      case 2
      then have "best_owners o' c (set ?qs) = {p}"
        using max by (force simp: best_owners_def own)
      with 2 show ?thesis by (simp add: st_def matching_step_def)
    next
      case 3
      then have "best_owners o' c (set ?qs) = insert p (best_owners o' c (set qs))"
        using max bin by (auto simp: best_owners_def own)
      with 3 Cons.prems(2) show ?thesis by (simp add: st_def matching_step_def)
    next
      case 4
      then obtain q where "q \<in> set qs" "?sp q = b" using bin by auto
      with 4 have "best_owners o' c (set ?qs) = best_owners o' c (set qs)"
        by (auto simp: best_owners_def own)
      with 4 Cons.prems(2) show ?thesis by (simp add: st_def matching_step_def)
    qed
  qed
  then have "st = (max b (?sp p), p_Path ` best_owners o' c (set ?qs))" by (cases st) auto
  with Cons.IH [of "max b (?sp p)" ?qs] b' show ?case by (simp add: st_def)
qed

lemma matchingChangedProjects_best:
  "matchingChangedProjects ps c True o' = p_Path ` best_owners o' c (set ps)"
  using matching_most_specific [of "-1" o' c "[]" "{}" ps]
  by (simp add: matchingChangedProjects_def best_owners_def)

section \<open>Validation of a declared graph\<close>

definition validGradleProject :: "string \<Rightarrow> bool" where
  "validGradleProject p =
     (if p = '':'' then True
      else hasPrefix '':'' p \<and> validGradleEntrypoint (p @ '':placeholder''))"

fun uniqueSafeGlobs_loop :: "string set \<Rightarrow> string list \<Rightarrow> bool" where
  "uniqueSafeGlobs_loop seen [] = True"
| "uniqueSafeGlobs_loop seen (v # vs) =
     (if \<not> validRepositoryGlob v \<or> v \<in> seen then False else uniqueSafeGlobs_loop (insert v seen) vs)"

definition uniqueSafeGlobs :: "string list \<Rightarrow> bool" where
  "uniqueSafeGlobs values = (if length values = 0 then True else uniqueSafeGlobs_loop {} values)"

fun uniqueStrings_loop :: "string set \<Rightarrow> string list \<Rightarrow> bool" where
  "uniqueStrings_loop seen [] = True"
| "uniqueStrings_loop seen (v # vs) =
     (if v = [] \<or> v \<in> seen then False else uniqueStrings_loop (insert v seen) vs)"

definition uniqueStrings :: "string list \<Rightarrow> bool" where
  "uniqueStrings values = uniqueStrings_loop {} values"

text \<open>A Go map filled by a loop over a slice: the last entry for a key wins, a missing key reads as
  the zero value.\<close>

definition built_map :: "('a \<Rightarrow> 'k) \<Rightarrow> 'a list \<Rightarrow> 'k \<Rightarrow> 'a option" where
  "built_map key xs = map_of (rev (map (\<lambda>x. (key x, x)) xs))"

definition owner_in :: "('a \<Rightarrow> string) \<Rightarrow> ('a \<Rightarrow> string) \<Rightarrow> 'a list \<Rightarrow> string \<Rightarrow> string" where
  "owner_in ident owner xs k = (case built_map ident xs k of None \<Rightarrow> [] | Some x \<Rightarrow> owner x)"

definition dependency_graph :: "Project list \<Rightarrow> string graph" where
  "dependency_graph projects = rev (map (\<lambda>p. (p_Path p, p_DependsOn p)) projects)"

definition hasDependencyCycle :: "Project list \<Rightarrow> bool" where
  "hasDependencyCycle projects = (dfs_cyclic (dependency_graph projects) \<noteq> Some False)"

fun allEntrypoints_loop :: "string set \<Rightarrow> string list \<Rightarrow> string list" where
  "allEntrypoints_loop seen [] = []"
| "allEntrypoints_loop seen (n # ns) =
     (if n \<in> seen then allEntrypoints_loop seen ns
      else n # allEntrypoints_loop (insert n seen) ns)"

definition allManifestEntrypoints :: "Manifest \<Rightarrow> string list" where
  "allManifestEntrypoints m =
     allEntrypoints_loop {}
       (m_OriginalEntrypoints m @ concat (map es_Entrypoints (m_AllowedAlternatives m)))"

text \<open>The body of the loop over the projects, with the paths seen so far.\<close>

definition validate_project :: "string set \<Rightarrow> Project \<Rightarrow> error option" where
  "validate_project seen p = first_err
     [reject_if (\<not> validGradleProject (p_Path p) \<or> p_Path p \<in> seen \<or> length (p_SourcePaths p) = 0 \<or>
         length (p_SourcePaths p) > 256 \<or> length (p_OwnedSourcePaths p) > 256 \<or>
         length (p_DependsOn p) > 1024)
        ''declared graph project is invalid'',
      reject_if (\<not> uniqueSafeGlobs (p_SourcePaths p) \<or> \<not> uniqueSafeGlobs (p_OwnedSourcePaths p) \<or>
         \<not> uniqueStrings (p_DependsOn p))
        ''declared graph project paths or dependencies are invalid'',
      reject_if (length (p_OwnedSourcePaths p) \<noteq> 0 \<and>
         list_ex (\<lambda>owned. owned \<notin> set (p_SourcePaths p)) (p_OwnedSourcePaths p))
        ''declared graph owned source is outside its conservative source boundary'']"

fun projects_loop :: "string set \<Rightarrow> Project list \<Rightarrow> error option" where
  "projects_loop seen [] = None"
| "projects_loop seen (p # ps) =
     (case validate_project seen p of
        Some err \<Rightarrow> Some err
      | None \<Rightarrow> projects_loop (insert (p_Path p) seen) ps)"

definition validate_dependencies :: "Project list \<Rightarrow> error option" where
  "validate_dependencies projects =
     each_err (\<lambda>p. each_err (\<lambda>dependency.
         reject_if (dependency \<notin> set (map p_Path projects) \<or> dependency = p_Path p)
           ''declared graph dependency is missing or self-referential'') (p_DependsOn p)) projects"

text \<open>The body of the loop over the entrypoints, with the names seen so far.\<close>

definition validate_entrypoint ::
    "string set \<Rightarrow> (string \<Rightarrow> string) \<Rightarrow> (string \<Rightarrow> string) \<Rightarrow> string set \<Rightarrow>
      DeclaredEntrypoint \<Rightarrow> error option" where
  "validate_entrypoint projects artifactOwners checkOwners seen e = first_err
     [reject_if (\<not> validGradleEntrypoint (ep_Name e) \<or> ep_Name e \<in> seen \<or>
         ep_Owner e \<noteq> BuildOptimization \<or> length (ep_ReachesProjects e) = 0 \<or>
         length (ep_ReachesProjects e) > 4096)
        ''declared graph entrypoint is invalid'',
      reject_if (\<not> uniqueStrings (ep_ReachesProjects e) \<or> \<not> uniqueStrings (ep_ArtifactIDs e) \<or>
         \<not> uniqueStrings (ep_CheckIDs e))
        ''declared graph entrypoint contains duplicate references'',
      reject_if (list_ex (\<lambda>p. p \<notin> projects) (ep_ReachesProjects e))
        ''declared graph entrypoint reaches an unknown project'',
      reject_if (list_ex (\<lambda>a. artifactOwners a \<noteq> BuildOptimization) (ep_ArtifactIDs e))
        ''declared graph entrypoint references an unknown artifact'',
      reject_if (list_ex (\<lambda>c. checkOwners c \<noteq> BuildOptimization) (ep_CheckIDs e))
        ''declared graph entrypoint cannot own Test Optimization checks'']"

fun graph_entrypoints_loop ::
    "string set \<Rightarrow> (string \<Rightarrow> string) \<Rightarrow> (string \<Rightarrow> string) \<Rightarrow> string set \<Rightarrow>
      DeclaredEntrypoint list \<Rightarrow> error option" where
  "graph_entrypoints_loop projects artifactOwners checkOwners seen [] = None"
| "graph_entrypoints_loop projects artifactOwners checkOwners seen (e # es) =
     (case validate_entrypoint projects artifactOwners checkOwners seen e of
        Some err \<Rightarrow> Some err
      | None \<Rightarrow> graph_entrypoints_loop projects artifactOwners checkOwners (insert (ep_Name e) seen) es)"

definition validateDeclaredGraph :: "LoadedManifest \<Rightarrow> DeclaredGraph \<Rightarrow> error option" where
  "validateDeclaredGraph manifest graph =
     (let m = lm_Manifest manifest; projects = set (map p_Path (g_Projects graph)) in first_err
      [reject_if (g_SchemaVersion graph \<noteq> DeclaredGraphSchemaVersion \<or>
          g_RepositoryID graph \<noteq> m_RepositoryID m \<or> g_PipelineClass graph \<noteq> m_PipelineClass m)
         ''declared graph repository or pipeline binding does not match manifest'',
       reject_if (g_ManifestDigest graph \<noteq> lm_Digest manifest)
         ''declared graph manifest digest does not match'',
       reject_if (\<not> idPattern (g_AdapterVersion graph)) ''declared graph adapter version is invalid'',
       reject_if (length (g_Projects graph) = 0 \<or> length (g_Projects graph) > 4096 \<or>
          length (g_Entrypoints graph) = 0 \<or> length (g_Entrypoints graph) > 4096 \<or>
          length (g_GlobalChangePaths graph) > 256)
         ''declared graph collections are outside bounds'',
       projects_loop {} (g_Projects graph),
       validate_dependencies (g_Projects graph),
       reject_if (hasDependencyCycle (g_Projects graph))
         ''declared graph project dependencies contain a cycle'',
       graph_entrypoints_loop projects
         (owner_in a_ID a_Owner (m_RequiredArtifacts m)) (owner_in c_ID c_Owner (checks_of m))
         {} (g_Entrypoints graph),
       reject_if (list_ex (\<lambda>r. r \<notin> set (map ep_Name (g_Entrypoints graph))) (allManifestEntrypoints m))
         ''declared graph omits a customer manifest entrypoint'',
       reject_if (\<not> uniqueSafeGlobs (g_GlobalChangePaths graph)) ''declared graph global paths are invalid''])"

section \<open>The reverse-dependency closure\<close>

text \<open>
  One pass over the entries of the project map, in some iteration order, with the in-place
  additions of the code; the loop repeats passes until one adds nothing.
\<close>

definition closure_step :: "string set \<Rightarrow> string \<times> Project \<Rightarrow> string set" where
  "closure_step R entry =
     (if fst entry \<in> R then R
      else if list_ex (\<lambda>dependency. dependency \<in> R) (p_DependsOn (snd entry)) then insert (fst entry) R
      else R)"

definition closure_pass :: "(string \<times> Project) list \<Rightarrow> string set \<Rightarrow> string set" where
  "closure_pass entries R = foldl closure_step R entries"

lemma closure_pass_bounds: "R \<subseteq> closure_pass entries R \<and> closure_pass entries R \<subseteq> R \<union> fst ` set entries"
proof (induction entries arbitrary: R)
  case (Cons e entries)
  have "R \<subseteq> closure_step R e \<and> closure_step R e \<subseteq> insert (fst e) R" by (auto simp: closure_step_def)
  with Cons.IH [of "closure_step R e"] show ?case by (auto simp: closure_pass_def)
qed (simp add: closure_pass_def)

function reverseDependencyClosure :: "(string \<times> Project) list \<Rightarrow> string set \<Rightarrow> string set" where
  "reverseDependencyClosure entries R =
     (let R' = closure_pass entries R in if R' = R then R else reverseDependencyClosure entries R')"
  by pat_completeness auto
termination
proof (relation "measure (\<lambda>(entries, R). card (fst ` set entries - R))", goal_cases)
  case (2 entries R R')
  then have "R \<subset> R'" "R' \<subseteq> R \<union> fst ` set entries" using closure_pass_bounds [of R entries] by auto
  then have "fst ` set entries - R' \<subset> fst ` set entries - R" by auto
  then show ?case by (simp add: psubset_card_mono)
qed simp

declare reverseDependencyClosure.simps [simp del]

text \<open>\<open>(q, p)\<close> when the entry \<open>q\<close> depends on \<open>p\<close>.\<close>

definition depends_on :: "(string \<times> Project) list \<Rightarrow> (string \<times> string) set" where
  "depends_on entries = {(q, p). \<exists>proj. (q, proj) \<in> set entries \<and> p \<in> set (p_DependsOn proj)}"

lemma closure_step_sound:
  assumes "q \<in> closure_step R e" "e \<in> set entries"
  shows "q \<in> R \<or> (\<exists>p\<in>R. (q, p) \<in> depends_on entries)"
  using assms by (cases e) (force simp: closure_step_def depends_on_def list_ex_iff split: if_splits)

lemma closure_pass_sound:
  assumes "set es \<subseteq> set entries" "q \<in> closure_pass es R"
  shows "\<exists>p\<in>R. (q, p) \<in> (depends_on entries)\<^sup>*"
  using assms
proof (induction es arbitrary: R)
  case (Cons e es)
  from Cons obtain p where p: "p \<in> closure_step R e" "(q, p) \<in> (depends_on entries)\<^sup>*"
    by (auto simp: closure_pass_def)
  from closure_step_sound [OF p(1), of entries] Cons.prems(1) p(2) show ?case
    by (auto intro: rtrancl_into_rtrancl)
qed (auto simp: closure_pass_def)

lemma closure_pass_fixed:
  assumes "closure_pass es R = R" "e \<in> set es"
  shows "closure_step R e = R"
  using assms
proof (induction es)
  case (Cons x es)
  have "R \<subseteq> closure_step R x" "closure_step R x \<subseteq> closure_pass (x # es) R"
    using closure_pass_bounds [of "closure_step R x" es] by (auto simp: closure_step_def closure_pass_def)
  with Cons.prems(1) have x: "closure_step R x = R" by auto
  with Cons show ?case by (auto simp: closure_pass_def)
qed simp

lemma reverseDependencyClosure_sound:
  "q \<in> reverseDependencyClosure entries R \<Longrightarrow> \<exists>p\<in>R. (q, p) \<in> (depends_on entries)\<^sup>*"
proof (induction entries R rule: reverseDependencyClosure.induct)
  case (1 entries R)
  show ?case
  proof (cases "closure_pass entries R = R")
    case True
    with "1.prems" show ?thesis by (auto simp: reverseDependencyClosure.simps [of entries R])
  next
    case False
    with "1.prems" have "q \<in> reverseDependencyClosure entries (closure_pass entries R)"
      by (simp add: reverseDependencyClosure.simps [of entries R] Let_def)
    with "1.IH" [OF refl False] obtain p where
      p: "p \<in> closure_pass entries R" "(q, p) \<in> (depends_on entries)\<^sup>*" by blast
    from closure_pass_sound [OF subset_refl p(1)] p(2) show ?thesis by (meson rtrancl_trans)
  qed
qed

lemma reverseDependencyClosure_closed:
  "R \<subseteq> reverseDependencyClosure entries R \<and>
   (\<forall>q p. (q, p) \<in> depends_on entries \<longrightarrow> p \<in> reverseDependencyClosure entries R \<longrightarrow>
      q \<in> reverseDependencyClosure entries R)"
proof (induction entries R rule: reverseDependencyClosure.induct)
  case (1 entries R)
  show ?case
  proof (cases "closure_pass entries R = R")
    case True
    have "q \<in> R" if qp: "(q, p) \<in> depends_on entries" "p \<in> R" for q p
    proof -
      from qp obtain proj where e: "(q, proj) \<in> set entries" "p \<in> set (p_DependsOn proj)"
        by (auto simp: depends_on_def)
      from closure_pass_fixed [OF True e(1)] e(2) qp(2) show ?thesis
        by (auto simp: closure_step_def list_ex_iff split: if_splits)
    qed
    with True show ?thesis by (auto simp: reverseDependencyClosure.simps [of entries R])
  next
    case False
    from "1.IH" [OF refl False] closure_pass_bounds [of R entries] False show ?thesis
      by (auto simp: reverseDependencyClosure.simps [of entries R] Let_def)
  qed
qed

lemma reverseDependencyClosure_eq:
  "reverseDependencyClosure entries R = {q. \<exists>p\<in>R. (q, p) \<in> (depends_on entries)\<^sup>*}"
proof (rule set_eqI, rule iffI)
  fix q
  assume "q \<in> {q. \<exists>p\<in>R. (q, p) \<in> (depends_on entries)\<^sup>*}"
  then obtain p where "p \<in> R" "(q, p) \<in> (depends_on entries)\<^sup>*" by blast
  from this(2) this(1) show "q \<in> reverseDependencyClosure entries R"
    by (induction rule: converse_rtrancl_induct) (use reverseDependencyClosure_closed in blast)+
qed (use reverseDependencyClosure_sound in blast)

interpretation impact: graph_closure reverseDependencyClosure "\<lambda>entries. (depends_on entries)\<inverse>" "\<lambda>R. R"
  by unfold_locales (simp add: reverseDependencyClosure_eq rtrancl_converse)

lemma finite_reverseDependencyClosure:
  assumes "finite R"
  shows "finite (reverseDependencyClosure entries R)"
proof -
  have "reverseDependencyClosure entries R \<subseteq> R \<union> fst ` set entries"
    by (rule impact.closure_least) (force simp: depends_on_def)+
  with assms show ?thesis by (meson finite_UnI finite_imageI finite_set finite_subset)
qed

section \<open>evaluateImpact\<close>

definition manifestArtifactIDs :: "Manifest \<Rightarrow> string set" where
  "manifestArtifactIDs m = set (map a_ID (m_RequiredArtifacts m))"

definition manifestCheckIDs :: "Manifest \<Rightarrow> string set \<times> string list" where
  "manifestCheckIDs m =
     (set (map c_ID (filter (\<lambda>c. c_Owner c = BuildOptimization) (checks_of m))),
      sort (map c_ID (filter (\<lambda>c. c_Owner c \<noteq> BuildOptimization \<and> c_Owner c = TestOptimization)
        (checks_of m))))"

definition fullGraphDecision :: "Manifest \<Rightarrow> string \<Rightarrow> ImpactDecision" where
  "fullGraphDecision m reason =
     \<lparr>d_Mode = DecisionFullGraph, d_Reason = reason,
      d_ExecutableEntrypoints = m_OriginalEntrypoints m, d_PredictedAlternativeID = [],
      d_PredictedEntrypoints = m_OriginalEntrypoints m, d_AffectedProjects = [],
      d_OmittedProjects = [], d_PreservedTestCheckIDs = snd (manifestCheckIDs m),
      d_SelectionAuthorized = False\<rparr>"

text \<open>
  The loop over the changed paths: a fallback reason, or the projects that own a changed path and
  the seeds of the affected closure.
\<close>

fun changes_loop ::
    "Manifest \<Rightarrow> DeclaredGraph \<Rightarrow> bool \<Rightarrow> string set \<Rightarrow> string set \<Rightarrow> string list \<Rightarrow>
      (string set \<times> string set) result" where
  "changes_loop m graph closure changed seeds [] = Inr (changed, seeds)"
| "changes_loop m graph closure changed seeds (path # paths) =
     (if \<not> validRepositoryPath path then Inl ''INVALID_CHANGE_PATH''
      else if matchesAnyGlob (appendGlobalPaths (m_GlobalChangePaths m) (g_GlobalChangePaths graph)) path
      then Inl ''GLOBAL_CHANGE''
      else let affectedMatches = matchingChangedProjects (g_Projects graph) path False False in
        if affectedMatches = {} then Inl ''UNKNOWN_CHANGE_PATH''
        else let matches = (if closure then affectedMatches
                            else matchingChangedProjects (g_Projects graph) path True True)
          in if \<not> closure \<and> matches = {} then Inl ''UNKNOWN_CHANGE_PATH''
             else changes_loop m graph closure (changed \<union> matches) (seeds \<union> affectedMatches) paths)"

record Coverage =
  cov_Projects :: "string set"
  cov_Artifacts :: "string set"
  cov_Checks :: "string set"

text \<open>The loop over the entrypoints of one alternative; \<open>None\<close> when it is not eligible.\<close>

fun alternative_coverage ::
    "(string \<Rightarrow> DeclaredEntrypoint option) \<Rightarrow> Coverage \<Rightarrow> string list \<Rightarrow> Coverage option" where
  "alternative_coverage byName cov [] = Some cov"
| "alternative_coverage byName cov (name # names) =
     (case byName name of
        None \<Rightarrow> None
      | Some e \<Rightarrow>
          if ep_Owner e \<noteq> BuildOptimization \<or> ep_ContainsTestTasks e then None
          else alternative_coverage byName
            \<lparr>cov_Projects = cov_Projects cov \<union> set (ep_ReachesProjects e),
             cov_Artifacts = cov_Artifacts cov \<union> set (ep_ArtifactIDs e),
             cov_Checks = cov_Checks cov \<union> set (ep_CheckIDs e)\<rparr> names)"

definition containsAll :: "string set \<Rightarrow> string set \<Rightarrow> bool" where
  "containsAll have required = (required \<subseteq> have)"

definition impact_candidates ::
    "DeclaredGraph \<Rightarrow> string set \<Rightarrow> string set \<Rightarrow> string set \<Rightarrow> EntrypointSet list \<Rightarrow>
      (EntrypointSet \<times> string set) list" where
  "impact_candidates graph requiredProjects requiredArtifacts requiredChecks alternatives =
     concat (map (\<lambda>a.
       case alternative_coverage (built_map ep_Name (g_Entrypoints graph))
              \<lparr>cov_Projects = {}, cov_Artifacts = {}, cov_Checks = {}\<rparr> (es_Entrypoints a) of
         None \<Rightarrow> []
       | Some cov \<Rightarrow>
           if containsAll (cov_Projects cov) requiredProjects \<and>
              containsAll (cov_Artifacts cov) requiredArtifacts \<and>
              containsAll (cov_Checks cov) requiredChecks
           then [(a, cov_Projects cov)] else []) alternatives)"

definition candidate_order :: "EntrypointSet \<times> string set \<Rightarrow> nat \<times> string" where
  "candidate_order c = (length (es_Entrypoints (fst c)), es_ID (fst c))"

definition evaluateImpact ::
    "LoadedManifest \<Rightarrow> DeclaredGraph \<Rightarrow> string list \<Rightarrow> bool \<Rightarrow> ImpactDecision" where
  "evaluateImpact manifest graph changedPaths requireAffectedClosure =
     (let m = lm_Manifest manifest; full = fullGraphDecision m in
      if validateDeclaredGraph manifest graph \<noteq> None then full ''GRAPH_INVALID''
      else if \<not> g_Complete graph then full ''GRAPH_INCOMPLETE''
      else if list_ex p_UnknownRelationships (g_Projects graph) then full ''UNKNOWN_RELATIONSHIP''
      else if list_ex ep_UnknownRelationships (g_Entrypoints graph) then full ''UNKNOWN_RELATIONSHIP''
      else if length changedPaths = 0 then full ''NO_DECLARED_CHANGES''
      else case changes_loop m graph requireAffectedClosure {} {} changedPaths of
        Inl reason \<Rightarrow> full reason
      | Inr (changedProjects, affectedSeeds) \<Rightarrow>
          let affected = reverseDependencyClosure
                (map (\<lambda>p. (p_Path p, p)) (g_Projects graph)) affectedSeeds;
              decision = (full ''NO_AUTHORIZED_ALTERNATIVE'')\<lparr>d_AffectedProjects := sortedKeys affected\<rparr>;
              requiredProjects = (if requireAffectedClosure then affected else changedProjects);
              candidates = impact_candidates graph requiredProjects (manifestArtifactIDs m)
                (fst (manifestCheckIDs m)) (m_AllowedAlternatives m)
          in case sort_key candidate_order candidates of
               [] \<Rightarrow> decision
             | (selected, covered) # _ \<Rightarrow>
                 decision\<lparr>d_Mode := DecisionShadowAlternative,
                   d_Reason := (if requireAffectedClosure then ''CUSTOMER_ALTERNATIVE_AND_DECLARED_GRAPH''
                     else ''CUSTOMER_ALTERNATIVE_AND_DECLARED_OUTPUT_SCOPE''),
                   d_PredictedAlternativeID := es_ID selected,
                   d_PredictedEntrypoints := es_Entrypoints selected,
                   d_OmittedProjects := sortedKeys (set (map p_Path (g_Projects graph)) - covered)\<rparr>)"

definition EvaluateImpact :: "LoadedManifest \<Rightarrow> DeclaredGraph \<Rightarrow> string list \<Rightarrow> ImpactDecision" where
  "EvaluateImpact manifest graph changedPaths = evaluateImpact manifest graph changedPaths True"

definition evaluatePOCImpact :: "LoadedManifest \<Rightarrow> DeclaredGraph \<Rightarrow> string list \<Rightarrow> ImpactDecision" where
  "evaluatePOCImpact manifest graph changedPaths = evaluateImpact manifest graph changedPaths False"

end
