(* ===== verification/ImpactFacts.thy ===== *)
theory ImpactFacts
  imports ImpactGraph
begin

text \<open>
  What \<open>internal/buildimpact/graph.go\<close> guarantees: the meaning of an accepted graph, of globs, of
  the closure and of the shadow decision of \<open>evaluateImpact\<close>. The last section holds a small
  repository on which the hypotheses of the properties are satisfied.
\<close>

section \<open>Facts about the loops\<close>

lemma uniqueStrings_iff [simp]: "uniqueStrings vs \<longleftrightarrow> distinct vs \<and> [] \<notin> set vs"
proof -
  have "uniqueStrings_loop seen vs \<longleftrightarrow> distinct vs \<and> [] \<notin> set vs \<and> set vs \<inter> seen = {}" for seen
    by (induction seen vs rule: uniqueStrings_loop.induct) auto
  then show ?thesis by (simp add: uniqueStrings_def)
qed

lemma projects_loop_distinct:
  "projects_loop seen ps = None \<Longrightarrow> distinct (map p_Path ps) \<and> set (map p_Path ps) \<inter> seen = {}"
proof (induction seen ps rule: projects_loop.induct)
  case (2 seen p ps)
  from "2.prems" have "validate_project seen p = None" "projects_loop (insert (p_Path p) seen) ps = None"
    by (auto split: option.splits)
  moreover from this(1) have "p_Path p \<notin> seen" by (simp add: validate_project_def)
  ultimately show ?case using "2.IH" by auto
qed simp

definition entrypoint_ok :: "string set \<Rightarrow> (string \<Rightarrow> string) \<Rightarrow> (string \<Rightarrow> string) \<Rightarrow> DeclaredEntrypoint \<Rightarrow> bool" where
  "entrypoint_ok P ao co e \<longleftrightarrow>
     ep_Owner e = BuildOptimization \<and> set (ep_ReachesProjects e) \<subseteq> P \<and>
     (\<forall>a\<in>set (ep_ArtifactIDs e). ao a = BuildOptimization) \<and>
     (\<forall>c\<in>set (ep_CheckIDs e). co c = BuildOptimization)"

lemma validate_entrypoint_None:
  assumes "validate_entrypoint P ao co seen e = None"
  shows "ep_Name e \<notin> seen" "entrypoint_ok P ao co e"
  using assms unfolding validate_entrypoint_def entrypoint_ok_def
  by (simp_all only: first_err_None list.set ball_simps reject_if_None list_ex_iff) blast+

lemma graph_entrypoints_loop_None:
  "graph_entrypoints_loop P ao co seen es = None \<Longrightarrow>
     distinct (map ep_Name es) \<and> set (map ep_Name es) \<inter> seen = {} \<and> (\<forall>e\<in>set es. entrypoint_ok P ao co e)"
proof (induction P ao co seen es rule: graph_entrypoints_loop.induct)
  case (2 P ao co seen e es)
  from "2.prems" have v: "validate_entrypoint P ao co seen e = None"
    and l: "graph_entrypoints_loop P ao co (insert (ep_Name e) seen) es = None"
    by (auto split: option.splits)
  from "2.IH" [OF v l] validate_entrypoint_None [OF v] show ?case by auto
qed simp

lemma built_map_distinct:
  assumes "distinct (map key xs)"
  shows "built_map key xs k = Some x \<longleftrightarrow> x \<in> set xs \<and> key x = k"
proof -
  have "distinct (map fst (rev (map (\<lambda>x. (key x, x)) xs)))"
    using assms by (simp add: rev_map [symmetric] comp_def)
  then have "built_map key xs k = Some x \<longleftrightarrow> (k, x) \<in> set (rev (map (\<lambda>x. (key x, x)) xs))"
    unfolding built_map_def by (rule map_of_eq_Some_iff)
  then show ?thesis by auto
qed

lemma validated_graph:
  assumes "validateDeclaredGraph lm g = None"
  shows "distinct (map p_Path (g_Projects g))" "distinct (map ep_Name (g_Entrypoints g))"
    and "\<not> hasDependencyCycle (g_Projects g)"
    and "\<And>e. e \<in> set (g_Entrypoints g) \<Longrightarrow> set (ep_ReachesProjects e) \<subseteq> set (map p_Path (g_Projects g))"
proof -
  from assms have p: "projects_loop {} (g_Projects g) = None"
    and c: "\<not> hasDependencyCycle (g_Projects g)"
    and e: "graph_entrypoints_loop (set (map p_Path (g_Projects g)))
       (owner_in a_ID a_Owner (m_RequiredArtifacts (lm_Manifest lm)))
       (owner_in c_ID c_Owner (checks_of (lm_Manifest lm))) {} (g_Entrypoints g) = None"
    by (auto simp: validateDeclaredGraph_def Let_def)
  show "distinct (map p_Path (g_Projects g))" using projects_loop_distinct [OF p] by simp
  show "\<not> hasDependencyCycle (g_Projects g)" by (rule c)
  show "distinct (map ep_Name (g_Entrypoints g))" using graph_entrypoints_loop_None [OF e] by simp
  show "set (ep_ReachesProjects e') \<subseteq> set (map p_Path (g_Projects g))"
    if "e' \<in> set (g_Entrypoints g)" for e'
    using graph_entrypoints_loop_None [OF e] that by (simp add: entrypoint_ok_def)
qed

lemma hasDependencyCycle_iff:
  "hasDependencyCycle ps \<longleftrightarrow> (\<exists>q. (q, q) \<in> (edges (dependency_graph ps))\<^sup>+)"
  by (simp add: hasDependencyCycle_def dfs_cyclic_iff)

section \<open>Facts about the changed paths and the alternatives\<close>

lemma changes_loop_Inr:
  "changes_loop m g cl ch sd paths = Inr (ch', sd') \<Longrightarrow>
     (\<forall>p\<in>set paths. validRepositoryPath p \<and>
        \<not> matchesAnyGlob (appendGlobalPaths (m_GlobalChangePaths m) (g_GlobalChangePaths g)) p \<and>
        matchingChangedProjects (g_Projects g) p False False \<noteq> {}) \<and>
     sd' = sd \<union> (\<Union>p\<in>set paths. matchingChangedProjects (g_Projects g) p False False) \<and>
     ch' = ch \<union> (\<Union>p\<in>set paths. matchingChangedProjects (g_Projects g) p (\<not> cl) (\<not> cl))"
  by (induction m g cl ch sd paths rule: changes_loop.induct)
     (auto simp: Let_def split: if_splits)

lemma alternative_coverage_Some:
  "alternative_coverage byName cov names = Some cov' \<Longrightarrow>
     (\<forall>n\<in>set names. \<exists>e. byName n = Some e \<and> ep_Owner e = BuildOptimization \<and> \<not> ep_ContainsTestTasks e) \<and>
     cov_Projects cov' = cov_Projects cov \<union> (\<Union>n\<in>set names. set (ep_ReachesProjects (the (byName n)))) \<and>
     cov_Artifacts cov' = cov_Artifacts cov \<union> (\<Union>n\<in>set names. set (ep_ArtifactIDs (the (byName n)))) \<and>
     cov_Checks cov' = cov_Checks cov \<union> (\<Union>n\<in>set names. set (ep_CheckIDs (the (byName n))))"
  by (induction byName cov names rule: alternative_coverage.induct)
     (auto split: option.splits if_splits)

text \<open>What a list of entrypoints provides according to the graph.\<close>

definition named :: "DeclaredGraph \<Rightarrow> string list \<Rightarrow> DeclaredEntrypoint set" where
  "named g names = {e \<in> set (g_Entrypoints g). ep_Name e \<in> set names}"

definition provides :: "(DeclaredEntrypoint \<Rightarrow> string list) \<Rightarrow> DeclaredGraph \<Rightarrow> string list \<Rightarrow> string set" where
  "provides field g names = (\<Union>e\<in>named g names. set (field e))"

lemma provides_built_map:
  assumes "distinct (map ep_Name (g_Entrypoints g))"
    and "\<forall>n\<in>set names. \<exists>e. built_map ep_Name (g_Entrypoints g) n = Some e"
  shows "(\<Union>n\<in>set names. set (field (the (built_map ep_Name (g_Entrypoints g) n)))) = provides field g names"
proof -
  note bm = built_map_distinct [OF assms(1)]
  show ?thesis
  proof (intro set_eqI iffI)
    fix x
    assume "x \<in> (\<Union>n\<in>set names. set (field (the (built_map ep_Name (g_Entrypoints g) n))))"
    then obtain n where n: "n \<in> set names" "x \<in> set (field (the (built_map ep_Name (g_Entrypoints g) n)))"
      by blast
    with assms(2) obtain e where e: "built_map ep_Name (g_Entrypoints g) n = Some e" by blast
    with n bm [of n e] show "x \<in> provides field g names" by (auto simp: provides_def named_def)
  next
    fix x
    assume "x \<in> provides field g names"
    then obtain e where e: "e \<in> set (g_Entrypoints g)" "ep_Name e \<in> set names" "x \<in> set (field e)"
      by (auto simp: provides_def named_def)
    with bm [of "ep_Name e" e] show "x \<in> (\<Union>n\<in>set names. set (field (the (built_map ep_Name (g_Entrypoints g) n))))"
      by force
  qed
qed

lemma impact_candidates_cases:
  assumes "(a, covered) \<in> set (impact_candidates g rp ra rc alts)"
  obtains cov where
    "alternative_coverage (built_map ep_Name (g_Entrypoints g))
       \<lparr>cov_Projects = {}, cov_Artifacts = {}, cov_Checks = {}\<rparr> (es_Entrypoints a) = Some cov"
    "rp \<subseteq> cov_Projects cov" "ra \<subseteq> cov_Artifacts cov" "rc \<subseteq> cov_Checks cov"
    "a \<in> set alts" "covered = cov_Projects cov"
proof -
  from assms obtain b where b: "b \<in> set alts"
    "(a, covered) \<in> set (case alternative_coverage (built_map ep_Name (g_Entrypoints g))
       \<lparr>cov_Projects = {}, cov_Artifacts = {}, cov_Checks = {}\<rparr> (es_Entrypoints b) of
         None \<Rightarrow> []
       | Some cov \<Rightarrow>
           if containsAll (cov_Projects cov) rp \<and> containsAll (cov_Artifacts cov) ra \<and>
              containsAll (cov_Checks cov) rc
           then [(b, cov_Projects cov)] else [])"
    by (auto simp: impact_candidates_def)
  show ?thesis
  proof (cases "alternative_coverage (built_map ep_Name (g_Entrypoints g))
       \<lparr>cov_Projects = {}, cov_Artifacts = {}, cov_Checks = {}\<rparr> (es_Entrypoints b)")
    case None
    with b(2) show ?thesis by simp
  next
    case (Some cov)
    with b have "b = a" "rp \<subseteq> cov_Projects cov" "ra \<subseteq> cov_Artifacts cov" "rc \<subseteq> cov_Checks cov"
      "covered = cov_Projects cov"
      by (simp_all add: containsAll_def split: if_splits)
    with b(1) Some that [of cov] show ?thesis by simp
  qed
qed

lemma impact_candidates_mem:
  assumes "(a, covered) \<in> set (impact_candidates g rp ra rc alts)"
    and "distinct (map ep_Name (g_Entrypoints g))"
  shows "a \<in> set alts" "covered = provides ep_ReachesProjects g (es_Entrypoints a)"
    and "rp \<subseteq> covered" "ra \<subseteq> provides ep_ArtifactIDs g (es_Entrypoints a)"
    and "rc \<subseteq> provides ep_CheckIDs g (es_Entrypoints a)"
    and "\<And>e. e \<in> named g (es_Entrypoints a) \<Longrightarrow> ep_Owner e = BuildOptimization \<and> \<not> ep_ContainsTestTasks e"
    and "set (es_Entrypoints a) \<subseteq> ep_Name ` set (g_Entrypoints g)"
proof -
  let ?bm = "built_map ep_Name (g_Entrypoints g)"
  from assms(1) obtain cov where
    cov: "alternative_coverage ?bm \<lparr>cov_Projects = {}, cov_Artifacts = {}, cov_Checks = {}\<rparr> (es_Entrypoints a) = Some cov"
    and sub: "rp \<subseteq> cov_Projects cov" "ra \<subseteq> cov_Artifacts cov" "rc \<subseteq> cov_Checks cov"
    and mem: "a \<in> set alts" "covered = cov_Projects cov"
    by (rule impact_candidates_cases) blast
  note ac = alternative_coverage_Some [OF cov]
  have all: "\<forall>n\<in>set (es_Entrypoints a). \<exists>e. ?bm n = Some e" using conjunct1 [OF ac] by metis
  note pb = provides_built_map [OF assms(2) all]
  show "a \<in> set alts" by (rule mem)
  show "covered = provides ep_ReachesProjects g (es_Entrypoints a)"
    using ac mem(2) pb [of ep_ReachesProjects] by simp
  show "rp \<subseteq> covered" using sub mem(2) by simp
  show "ra \<subseteq> provides ep_ArtifactIDs g (es_Entrypoints a)" using sub ac pb [of ep_ArtifactIDs] by simp
  show "rc \<subseteq> provides ep_CheckIDs g (es_Entrypoints a)" using sub ac pb [of ep_CheckIDs] by simp
  show "ep_Owner e = BuildOptimization \<and> \<not> ep_ContainsTestTasks e" if "e \<in> named g (es_Entrypoints a)" for e
  proof -
    from that have e: "ep_Name e \<in> set (es_Entrypoints a)" "?bm (ep_Name e) = Some e"
      using built_map_distinct [OF assms(2), of "ep_Name e" e] by (simp_all add: named_def)
    with bspec [OF conjunct1 [OF ac] e(1)] show ?thesis by simp
  qed
  show "set (es_Entrypoints a) \<subseteq> ep_Name ` set (g_Entrypoints g)"
  proof
    fix n assume "n \<in> set (es_Entrypoints a)"
    with all obtain e where "?bm n = Some e" by blast
    with built_map_distinct [OF assms(2), of n e] show "n \<in> ep_Name ` set (g_Entrypoints g)" by auto
  qed
qed

section \<open>The shape of a decision\<close>

text \<open>Projects that own one of the paths, and everything that depends on them.\<close>

definition owners_of :: "DeclaredGraph \<Rightarrow> string list \<Rightarrow> string set" where
  "owners_of g paths = p_Path ` {p \<in> set (g_Projects g). \<exists>c\<in>set paths. owns_path False c p}"

definition project_dependencies :: "DeclaredGraph \<Rightarrow> (string \<times> string) set" where
  "project_dependencies g = {(p_Path q, d) | q d. q \<in> set (g_Projects g) \<and> d \<in> set (p_DependsOn q)}"

definition affected_by :: "DeclaredGraph \<Rightarrow> string list \<Rightarrow> string set" where
  "affected_by g paths = {q. \<exists>p\<in>owners_of g paths. (q, p) \<in> (project_dependencies g)\<^sup>*}"

lemma depends_on_projects:
  "depends_on (map (\<lambda>p. (p_Path p, p)) (g_Projects g)) = project_dependencies g"
  by (auto simp: depends_on_def project_dependencies_def)

lemma finite_owners_of [simp]: "finite (owners_of g paths)"
  by (simp add: owners_of_def)

lemma closure_affected:
  "reverseDependencyClosure (map (\<lambda>p. (p_Path p, p)) (g_Projects g)) (owners_of g paths) = affected_by g paths"
  by (simp add: reverseDependencyClosure_eq depends_on_projects affected_by_def)

lemma finite_affected_by [simp]: "finite (affected_by g paths)"
  unfolding closure_affected [symmetric] by (rule finite_reverseDependencyClosure) simp

lemma seeds_owners:
  "(\<Union>c\<in>set paths. matchingChangedProjects (g_Projects g) c False False) = owners_of g paths"
  by (auto simp: matchingChangedProjects_all owners_of_def)

text \<open>Every decision is the full graph with a reason, or a shadow prediction for some candidate.\<close>

lemma evaluateImpact_cases:
  obtains (full) reason affected where
      "evaluateImpact lm g paths cl = (fullGraphDecision (lm_Manifest lm) reason)\<lparr>d_AffectedProjects := affected\<rparr>"
  | (shadow) changed a covered where
      "validateDeclaredGraph lm g = None" "g_Complete g"
      "\<not> list_ex p_UnknownRelationships (g_Projects g)" "\<not> list_ex ep_UnknownRelationships (g_Entrypoints g)"
      "paths \<noteq> []"
      "changes_loop (lm_Manifest lm) g cl {} {} paths = Inr (changed, owners_of g paths)"
      "(a, covered) = hd (sort_key candidate_order (impact_candidates g (if cl then affected_by g paths else changed)
          (manifestArtifactIDs (lm_Manifest lm)) (fst (manifestCheckIDs (lm_Manifest lm)))
          (m_AllowedAlternatives (lm_Manifest lm))))"
      "(a, covered) \<in> set (impact_candidates g (if cl then affected_by g paths else changed)
          (manifestArtifactIDs (lm_Manifest lm)) (fst (manifestCheckIDs (lm_Manifest lm)))
          (m_AllowedAlternatives (lm_Manifest lm)))"
      "evaluateImpact lm g paths cl =
         (fullGraphDecision (lm_Manifest lm) ''NO_AUTHORIZED_ALTERNATIVE'')
           \<lparr>d_AffectedProjects := sortedKeys (affected_by g paths), d_Mode := DecisionShadowAlternative,
            d_Reason := (if cl then ''CUSTOMER_ALTERNATIVE_AND_DECLARED_GRAPH''
               else ''CUSTOMER_ALTERNATIVE_AND_DECLARED_OUTPUT_SCOPE''),
            d_PredictedAlternativeID := es_ID a, d_PredictedEntrypoints := es_Entrypoints a,
            d_OmittedProjects := sortedKeys (set (map p_Path (g_Projects g)) - covered)\<rparr>"
proof -
  let ?m = "lm_Manifest lm"
  have plain: "(fullGraphDecision ?m r)\<lparr>d_AffectedProjects := []\<rparr> = fullGraphDecision ?m r" for r
    by (simp add: fullGraphDecision_def)
  show ?thesis
  proof (cases "validateDeclaredGraph lm g \<noteq> None \<or> \<not> g_Complete g \<or> list_ex p_UnknownRelationships (g_Projects g)
      \<or> list_ex ep_UnknownRelationships (g_Entrypoints g) \<or> paths = []")
    case True
    then have "\<exists>r. evaluateImpact lm g paths cl = fullGraphDecision ?m r"
      by (auto simp: evaluateImpact_def Let_def)
    with plain show ?thesis by (metis full)
  next
    case ok: False
    show ?thesis
    proof (cases "changes_loop ?m g cl {} {} paths")
      case (Inl r)
      with ok have "evaluateImpact lm g paths cl = fullGraphDecision ?m r"
        by (auto simp: evaluateImpact_def Let_def)
      with plain show ?thesis by (metis full)
    next
      case (Inr cs)
      then obtain changed seeds where cs: "cs = (changed, seeds)" by (cases cs)
      with changes_loop_Inr Inr have sd: "seeds = owners_of g paths"
        by (metis seeds_owners sup_bot_left)
      let ?cands = "impact_candidates g (if cl then affected_by g paths else changed)
          (manifestArtifactIDs ?m) (fst (manifestCheckIDs ?m)) (m_AllowedAlternatives ?m)"
      have eq: "evaluateImpact lm g paths cl =
          (case sort_key candidate_order ?cands of
             [] \<Rightarrow> (fullGraphDecision ?m ''NO_AUTHORIZED_ALTERNATIVE'')\<lparr>d_AffectedProjects := sortedKeys (affected_by g paths)\<rparr>
           | (selected, covered) # _ \<Rightarrow> (fullGraphDecision ?m ''NO_AUTHORIZED_ALTERNATIVE'')
              \<lparr>d_AffectedProjects := sortedKeys (affected_by g paths), d_Mode := DecisionShadowAlternative,
               d_Reason := (if cl then ''CUSTOMER_ALTERNATIVE_AND_DECLARED_GRAPH''
                 else ''CUSTOMER_ALTERNATIVE_AND_DECLARED_OUTPUT_SCOPE''),
               d_PredictedAlternativeID := es_ID selected, d_PredictedEntrypoints := es_Entrypoints selected,
               d_OmittedProjects := sortedKeys (set (map p_Path (g_Projects g)) - covered)\<rparr>)"
        using ok Inr cs sd by (simp add: evaluateImpact_def Let_def closure_affected split: list.split)
      show ?thesis
      proof (cases "sort_key candidate_order ?cands")
        case Nil
        with eq show ?thesis using full by simp
      next
        case (Cons x xs)
        then obtain a covered where x: "x = (a, covered)" by (cases x)
        have "set (sort_key candidate_order ?cands) = set ?cands" by simp
        with Cons have "x \<in> set ?cands" by (metis list.set_intros(1))
        then show ?thesis using shadow [of changed a covered] ok Inr cs sd eq Cons x by simp
      qed
    qed
  qed
qed

lemma impact_shadow:
  assumes "d_Mode (evaluateImpact lm g paths cl) = DecisionShadowAlternative"
  obtains changed a covered where
    "validateDeclaredGraph lm g = None" "paths \<noteq> []"
    "changes_loop (lm_Manifest lm) g cl {} {} paths = Inr (changed, owners_of g paths)"
    "(a, covered) = hd (sort_key candidate_order (impact_candidates g (if cl then affected_by g paths else changed)
        (manifestArtifactIDs (lm_Manifest lm)) (fst (manifestCheckIDs (lm_Manifest lm)))
        (m_AllowedAlternatives (lm_Manifest lm))))"
    "(a, covered) \<in> set (impact_candidates g (if cl then affected_by g paths else changed)
        (manifestArtifactIDs (lm_Manifest lm)) (fst (manifestCheckIDs (lm_Manifest lm)))
        (m_AllowedAlternatives (lm_Manifest lm)))"
    "d_PredictedAlternativeID (evaluateImpact lm g paths cl) = es_ID a"
    "d_PredictedEntrypoints (evaluateImpact lm g paths cl) = es_Entrypoints a"
    "d_AffectedProjects (evaluateImpact lm g paths cl) = sortedKeys (affected_by g paths)"
    "d_OmittedProjects (evaluateImpact lm g paths cl) = sortedKeys (set (map p_Path (g_Projects g)) - covered)"
  using assms
proof (cases rule: evaluateImpact_cases [of lm g paths cl])
  case (full reason affected)
  with assms show ?thesis by (simp add: fullGraphDecision_def)
next
  case (shadow changed a covered)
  show ?thesis by (rule that [OF shadow(1,5,6,7,8)]) (simp_all add: shadow(9))
qed

text \<open>\<open>sort.Slice\<close> by (number of entrypoints, identifier) puts a least candidate first.\<close>

lemma hd_sort_key_least:
  assumes "x = hd (sort_key f xs)" "y \<in> set xs"
  shows "f x \<le> f y"
proof -
  have "sorted (map f (sort_key f xs))" by simp
  moreover have "y \<in> set (sort_key f xs)" using assms(2) by simp
  ultimately show ?thesis using assms(1) by (cases "sort_key f xs") auto
qed

lemma glob_spec_suffix: "path_match p c = Some True \<Longrightarrow> p \<noteq> ''**'' \<Longrightarrow> glob_spec [''**'', p] (cs @ [c])"
  by (intro glob_spec.glob_any glob_spec.glob_seg glob_spec.glob_nil)

lemma glob_spec_prefix: "path_match p c = Some True \<Longrightarrow> p \<noteq> ''**'' \<Longrightarrow> glob_spec [p, ''**''] (c # cs)"
  using glob_spec.glob_seg [OF _ _ glob_spec.glob_any [OF glob_spec.glob_nil, of cs]] by simp

definition build_logic_path :: "string \<Rightarrow> bool" where
  "build_logic_path c \<longleftrightarrow>
     last (split_on (CHR ''/'') c) \<in>
       {''settings.gradle'', ''settings.gradle.kts'', ''build.gradle'', ''build.gradle.kts''} \<or>
     hd (split_on (CHR ''/'') c) \<in> {''buildSrc'', ''build-logic'', ''gradle''}"

lemma build_logic_global:
  assumes "build_logic_path c"
  shows "matchesAnyGlob (appendGlobalPaths ms gs) c"
proof -
  let ?cs = "split_on (CHR ''/'') c"
  have suffix: "matchRepositoryGlob (''**/'' @ p) c"
    if "last ?cs = p" "plain_pattern p" "CHR ''/'' \<notin> set p" "p \<noteq> ''**''" for p
  proof -
    have "split_on (CHR ''/'') (''**/'' @ p) = [''**'', p]"
      using that(3) split_on_append [of "CHR ''/''" "''**''" p] by (simp add: split_on_no_sep)
    moreover have "glob_spec [''**'', p] (butlast ?cs @ [last ?cs])"
      using that path_match_plain by (intro glob_spec_suffix) auto
    ultimately show ?thesis by (simp add: matchRepositoryGlob_def glob_match_spec)
  qed
  have prefix: "matchRepositoryGlob (p @ ''/**'') c"
    if "hd ?cs = p" "plain_pattern p" "CHR ''/'' \<notin> set p" "p \<noteq> ''**''" for p
  proof -
    have "split_on (CHR ''/'') (p @ ''/**'') = [p, ''**'']"
      using that(3) split_on_append [of "CHR ''/''" p "''**''"] by simp
    moreover have "glob_spec [p, ''**''] (hd ?cs # tl ?cs)"
      using that path_match_plain by (intro glob_spec_prefix) auto
    ultimately show ?thesis by (simp add: matchRepositoryGlob_def glob_match_spec)
  qed
  from assms show ?thesis
    using suffix [of "''settings.gradle''"] suffix [of "''settings.gradle.kts''"]
      suffix [of "''build.gradle''"] suffix [of "''build.gradle.kts''"]
      prefix [of "''buildSrc''"] prefix [of "''build-logic''"] prefix [of "''gradle''"]
    by (auto simp: build_logic_path_def matchesAnyGlob_def appendGlobalPaths_def
        mandatoryGlobalChangePaths_def plain_pattern_def)
qed

lemma dependency_graph_edges:
  assumes "distinct (map p_Path ps)"
  shows "edges (dependency_graph ps) = {(p_Path q, d) | q d. q \<in> set ps \<and> d \<in> set (p_DependsOn q)}"
proof -
  have "distinct (map fst (dependency_graph ps))"
    using assms by (simp add: dependency_graph_def rev_map [symmetric] comp_def)
  then have "d \<in> set (succs (dependency_graph ps) k) \<longleftrightarrow> (\<exists>ds. (k, ds) \<in> set (dependency_graph ps) \<and> d \<in> set ds)" for k d
    by (auto simp: succs_def dest: map_of_SomeD split: option.splits)
  then show ?thesis by (auto simp: edges_def dependency_graph_def)
qed

end
