(* ===== verification/GoTime.thy ===== *)
theory GoTime
  imports Prelude
begin

text \<open>
  The canonical UTC timestamps of the repository. The code accepts a timestamp when
  \<open>time.Parse(time.RFC3339, s)\<close> succeeds, formatting the result gives \<open>s\<close> back and the location
  is UTC. That leaves exactly the strings \<open>YYYY-MM-DDThh:mm:ssZ\<close> of a valid date: a fraction or a
  numeric offset does not survive the formatting. An instant is the number of seconds since
  the zero time of Go, January 1 of year 1, so \<open>IsZero\<close> is \<open>= 0\<close>.
\<close>

type_synonym instant = int

definition digit_val :: "char \<Rightarrow> int" where
  "digit_val c = of_char c - 48"

definition number :: "string \<Rightarrow> int" where
  "number s = foldl (\<lambda>n c. 10 * n + digit_val c) 0 s"

definition leap_year :: "int \<Rightarrow> bool" where
  "leap_year y = (y mod 4 = 0 \<and> (y mod 100 \<noteq> 0 \<or> y mod 400 = 0))"

definition month_days :: "int \<Rightarrow> int list" where
  "month_days y = [31, if leap_year y then 29 else 28, 31, 30, 31, 30, 31, 31, 30, 31, 30, 31]"

definition days_before_year :: "int \<Rightarrow> int" where
  "days_before_year y = 365 * (y - 1) + (y - 1) div 4 - (y - 1) div 100 + (y - 1) div 400"

definition days_before_month :: "int \<Rightarrow> int \<Rightarrow> int" where
  "days_before_month y m = sum_list (take (nat (m - 1)) (month_days y))"

definition days_in :: "int \<Rightarrow> int \<Rightarrow> int" where
  "days_in y m = month_days y ! nat (m - 1)"

definition field :: "nat \<Rightarrow> nat \<Rightarrow> string \<Rightarrow> string" where
  "field a n s = take n (drop a s)"

definition parse_utc :: "string \<Rightarrow> instant option" where
  "parse_utc s =
     (if length s \<noteq> 20 then None
      else let ys = field 0 4 s; ms = field 5 2 s; ds = field 8 2 s;
               hs = field 11 2 s; mins = field 14 2 s; secs = field 17 2 s in
        if field 4 1 s \<noteq> ''-'' \<or> field 7 1 s \<noteq> ''-'' \<or> field 10 1 s \<noteq> ''T'' \<or> field 13 1 s \<noteq> '':'' \<or>
           field 16 1 s \<noteq> '':'' \<or> field 19 1 s \<noteq> ''Z'' \<or>
           \<not> list_all is_digit (ys @ ms @ ds @ hs @ mins @ secs)
        then None
        else let y = number ys; m = number ms; d = number ds; h = number hs; mi = number mins;
                 sec = number secs in
          if m < 1 \<or> m > 12 \<or> d < 1 \<or> h > 23 \<or> mi > 59 \<or> sec > 59 then None
          else if d > days_in y m then None
          else Some ((days_before_year y + days_before_month y m + (d - 1)) * 86400 +
                     h * 3600 + mi * 60 + sec))"

definition canonical_utc :: "string \<Rightarrow> bool" where
  "canonical_utc s = (parse_utc s \<noteq> None)"

text \<open>\<open>t.Sub(u)\<close> in nanoseconds: a 64-bit duration that saturates.\<close>

definition max_duration :: int where "max_duration = 9223372036854775807"
definition min_duration :: int where "min_duration = -9223372036854775808"

definition time_sub :: "instant \<Rightarrow> instant \<Rightarrow> int" where
  "time_sub t u = max min_duration (min max_duration ((t - u) * 1000000000))"

lemma time_sub_ge:
  assumes "0 \<le> n" "n * 1000000000 \<le> max_duration" "n \<le> t - u"
  shows "n * 1000000000 \<le> time_sub t u"
  using assms unfolding time_sub_def by (simp add: le_max_iff_disj)

lemma time_sub_le: "0 \<le> t - u \<Longrightarrow> time_sub t u \<le> (t - u) * 1000000000"
  by (simp add: time_sub_def min_duration_def)

end
