(* ===== verification/Validation.thy ===== *)
theory Validation
  imports ImpactFacts GoTime
begin

text \<open>
  \<open>internal/buildimpact/validation.go\<close>: a shadow decision is validated by a full baseline run, or by
  a paired control that runs the predicted alternative in isolation and compares what both runs
  produced. The decoding of the JSON observation is outside the model: the theory starts from
  the decoded \<open>ValidationObservation\<close>.
\<close>

section \<open>Data\<close>

abbreviation ValidationObservationSchemaVersion :: string where
  "ValidationObservationSchemaVersion \<equiv> ''buildopt.build-impact/validation-observation/v1''"
abbreviation ValidationResultSchemaVersion :: string where
  "ValidationResultSchemaVersion \<equiv> ''buildopt.build-impact/validation-result/v1''"
abbreviation ValidationShadow :: string where "ValidationShadow \<equiv> ''SHADOW''"
abbreviation ValidationPairedControl :: string where "ValidationPairedControl \<equiv> ''PAIRED_CONTROL''"
abbreviation ValidationShadowPassed :: string where "ValidationShadowPassed \<equiv> ''SHADOW_VALIDATED''"
abbreviation ValidationControlPassed :: string where "ValidationControlPassed \<equiv> ''CONTROL_PASSED''"
abbreviation ValidationFalseNegative :: string where "ValidationFalseNegative \<equiv> ''FALSE_NEGATIVE''"
abbreviation ValidationInconclusive :: string where "ValidationInconclusive \<equiv> ''INCONCLUSIVE''"
abbreviation RunSuccess :: string where "RunSuccess \<equiv> ''SUCCESS''"
abbreviation RunBuildFailure :: string where "RunBuildFailure \<equiv> ''BUILD_FAILURE''"
abbreviation RunInfrastructureFailure :: string where "RunInfrastructureFailure \<equiv> ''INFRA_FAILURE''"
abbreviation RunCancelled :: string where "RunCancelled \<equiv> ''CANCELLED''"

record ObservedArtifact =
  oa_ID :: string
  oa_Path :: string
  oa_Digest :: string
  oa_SizeBytes :: int

record ObservedCheck =
  oc_ID :: string
  oc_Owner :: string
  oc_Outcome :: string

record RunObservation =
  r_Outcome :: string
  r_Entrypoints :: "string list"
  r_Projects :: "string list"
  r_Artifacts :: "ObservedArtifact list"
  r_Checks :: "ObservedCheck list"

record ValidationObservation =
  o_SchemaVersion :: string
  o_ObservationID :: string
  o_RepositoryID :: string
  o_PipelineClass :: string
  o_Revision :: string
  o_ManifestDigest :: string
  o_GraphDigest :: string
  o_AdapterVersion :: string
  o_ChangeClass :: string
  o_ObservedAt :: string
  o_Mode :: string
  o_ChangedPaths :: "string list"
  o_Baseline :: RunObservation
  o_Candidate :: "RunObservation option"

record ValidationResult =
  v_SchemaVersion :: string
  v_ObservationID :: string
  v_RepositoryID :: string
  v_PipelineClass :: string
  v_Revision :: string
  v_ManifestDigest :: string
  v_GraphDigest :: string
  v_AdapterVersion :: string
  v_ChangeClass :: string
  v_ObservedAt :: string
  v_Mode :: string
  v_AlternativeID :: string
  v_Outcome :: string
  v_Reason :: string
  v_EligibleDecision :: bool
  v_ValidationComplete :: bool
  v_FullControl :: bool
  v_FalseNegative :: bool
  v_SelectionAuthorized :: bool

definition observationIDPattern :: "string \<Rightarrow> bool" where
  "observationIDPattern s = (hasPrefix ''bia-'' s \<and>
     match_ident (\<lambda>c. is_lower c \<or> is_digit c) (\<lambda>c. is_lower c \<or> is_digit c \<or> c = CHR ''-'') (Some 62) (drop 4 s))"

definition revisionPattern :: "string \<Rightarrow> bool" where
  "revisionPattern s = lower_hex_len 40 s"

definition sha256Pattern :: "string \<Rightarrow> bool" where
  "sha256Pattern s = (hasPrefix ''sha256:'' s \<and> lower_hex_len 64 (drop 7 s))"

section \<open>The shape of an observation\<close>

fun run_artifacts_ok :: "string set \<Rightarrow> ObservedArtifact list \<Rightarrow> bool" where
  "run_artifacts_ok seen [] = True"
| "run_artifacts_ok seen (a # as) =
     (if \<not> idPattern (oa_ID a) \<or> oa_ID a \<in> seen \<or> \<not> validRepositoryPath (oa_Path a) \<or>
         \<not> sha256Pattern (oa_Digest a) \<or> oa_SizeBytes a \<le> 0
      then False else run_artifacts_ok (insert (oa_ID a) seen) as)"

fun run_checks_ok :: "string set \<Rightarrow> ObservedCheck list \<Rightarrow> bool" where
  "run_checks_ok seen [] = True"
| "run_checks_ok seen (c # cs) =
     (if \<not> idPattern (oc_ID c) \<or> oc_ID c \<in> seen \<or>
         (oc_Owner c \<noteq> BuildOptimization \<and> oc_Owner c \<noteq> TestOptimization) \<or>
         (oc_Outcome c \<noteq> ''PASSED'' \<and> oc_Outcome c \<noteq> ''FAILED'')
      then False else run_checks_ok (insert (oc_ID c) seen) cs)"

definition validateRunShape :: "RunObservation \<Rightarrow> DeclaredGraph \<Rightarrow> error option" where
  "validateRunShape run graph = first_err
     [reject_if (r_Outcome run \<noteq> RunSuccess \<and> r_Outcome run \<noteq> RunBuildFailure \<and>
         r_Outcome run \<noteq> RunInfrastructureFailure \<and> r_Outcome run \<noteq> RunCancelled)
        ''run outcome is invalid'',
      reject_if (length (r_Entrypoints run) = 0 \<or> \<not> uniqueStrings (r_Entrypoints run) \<or>
         \<not> uniqueStrings (r_Projects run))
        ''run entrypoints or projects are invalid'',
      reject_if (list_ex (\<lambda>e. e \<notin> set (map ep_Name (g_Entrypoints graph))) (r_Entrypoints run))
        ''run references an unknown entrypoint'',
      reject_if (list_ex (\<lambda>p. p \<notin> set (map p_Path (g_Projects graph))) (r_Projects run))
        ''run references an unknown project'',
      reject_if (\<not> run_artifacts_ok {} (r_Artifacts run)) ''run artifact is invalid'',
      reject_if (\<not> run_checks_ok {} (r_Checks run)) ''run check is invalid'']"

definition validateObservation ::
    "ValidationObservation \<Rightarrow> LoadedManifest \<Rightarrow> LoadedGraph \<Rightarrow> error option" where
  "validateObservation ob manifest graph = first_err
     [reject_if (o_SchemaVersion ob \<noteq> ValidationObservationSchemaVersion \<or>
         \<not> observationIDPattern (o_ObservationID ob))
        ''validation observation identity is invalid'',
      reject_if (o_RepositoryID ob \<noteq> m_RepositoryID (lm_Manifest manifest) \<or>
         o_PipelineClass ob \<noteq> m_PipelineClass (lm_Manifest manifest) \<or>
         o_ManifestDigest ob \<noteq> lm_Digest manifest \<or> o_GraphDigest ob \<noteq> lg_Digest graph \<or>
         o_AdapterVersion ob \<noteq> g_AdapterVersion (lg_Graph graph))
        ''validation observation binding does not match manifest and graph'',
      reject_if (\<not> revisionPattern (o_Revision ob) \<or> \<not> idPattern (o_ChangeClass ob))
        ''validation revision or change class is invalid'',
      reject_if (\<not> canonical_utc (o_ObservedAt ob))
        ''validation observation time must be canonical UTC RFC3339'',
      reject_if (o_Mode ob \<noteq> ValidationShadow \<and> o_Mode ob \<noteq> ValidationPairedControl)
        ''validation mode is invalid'',
      reject_if (o_Mode ob = ValidationShadow \<and> o_Candidate ob \<noteq> None \<or>
         o_Mode ob = ValidationPairedControl \<and> o_Candidate ob = None)
        ''validation candidate presence does not match mode'',
      reject_if (length (o_ChangedPaths ob) = 0 \<or> length (o_ChangedPaths ob) > 4096 \<or>
         \<not> uniqueStrings (o_ChangedPaths ob))
        ''validation changed paths are invalid'',
      reject_if (list_ex (\<lambda>p. \<not> validRepositoryPath p) (o_ChangedPaths ob))
        ''validation changed path is unsafe'',
      wrap_err ''invalid baseline observation: '' (validateRunShape (o_Baseline ob) (lg_Graph graph)),
      (case o_Candidate ob of
         None \<Rightarrow> None
       | Some c \<Rightarrow> wrap_err ''invalid candidate observation: '' (validateRunShape c (lg_Graph graph)))]"

section \<open>Comparing runs\<close>

definition equalSet :: "string set \<Rightarrow> string set \<Rightarrow> bool" where
  "equalSet left right = (card left = card right \<and> containsAll left right)"

definition alternativeReach :: "DeclaredGraph \<Rightarrow> string list \<Rightarrow> string set" where
  "alternativeReach graph entrypoints =
     set (concat (map ep_ReachesProjects
       (filter (\<lambda>e. ep_Name e \<in> set entrypoints) (g_Entrypoints graph))))"

definition originalReach :: "DeclaredGraph \<Rightarrow> Manifest \<Rightarrow> string set" where
  "originalReach graph manifest = alternativeReach graph (m_OriginalEntrypoints manifest)"

text \<open>The empty string is success, as in the code.\<close>

definition validateSuccessfulRun :: "Manifest \<Rightarrow> RunObservation \<Rightarrow> string set \<Rightarrow> string" where
  "validateSuccessfulRun manifest run expectedProjects =
     (if \<not> equalSet (set (r_Projects run)) expectedProjects then ''PROJECT_DIVERGENCE''
      else let expectedArtifacts = built_map a_ID (m_RequiredArtifacts manifest) in
        if length (r_Artifacts run) \<noteq> card (set (map a_ID (m_RequiredArtifacts manifest)))
        then ''ARTIFACT_SET_DIVERGENCE''
        else if list_ex (\<lambda>observed. case expectedArtifacts (oa_ID observed) of
               None \<Rightarrow> True
             | Some expected \<Rightarrow> \<not> matchRepositoryGlob (a_Path expected) (oa_Path observed)) (r_Artifacts run)
        then ''ARTIFACT_SET_DIVERGENCE''
        else let expectedChecks = built_map c_ID (checks_of manifest) in
          if length (r_Checks run) \<noteq> card (set (map c_ID (checks_of manifest))) then ''CHECK_SET_DIVERGENCE''
          else if list_ex (\<lambda>observed. case expectedChecks (oc_ID observed) of
                 None \<Rightarrow> True
               | Some expected \<Rightarrow> oc_Owner observed \<noteq> c_Owner expected \<or> oc_Outcome observed \<noteq> ''PASSED'')
               (r_Checks run)
          then ''CHECK_SET_DIVERGENCE''
          else [])"

text \<open>A missing key of a Go map reads as the zero value of its type.\<close>

definition zero_artifact :: ObservedArtifact where
  "zero_artifact = \<lparr>oa_ID = [], oa_Path = [], oa_Digest = [], oa_SizeBytes = 0\<rparr>"

definition zero_check :: ObservedCheck where
  "zero_check = \<lparr>oc_ID = [], oc_Owner = [], oc_Outcome = []\<rparr>"

definition lookup_zero :: "'a \<Rightarrow> ('k \<Rightarrow> 'a option) \<Rightarrow> 'k \<Rightarrow> 'a" where
  "lookup_zero z m k = (case m k of None \<Rightarrow> z | Some v \<Rightarrow> v)"

definition compareRuns :: "RunObservation \<Rightarrow> RunObservation \<Rightarrow> string" where
  "compareRuns baseline candidate =
     (if list_ex (\<lambda>a. let b = lookup_zero zero_artifact (built_map oa_ID (r_Artifacts baseline)) (oa_ID a) in
           oa_Path a \<noteq> oa_Path b \<or> oa_Digest a \<noteq> oa_Digest b \<or> oa_SizeBytes a \<noteq> oa_SizeBytes b)
         (r_Artifacts candidate)
      then ''REQUIRED_ARTIFACT_DIVERGENCE''
      else if list_ex (\<lambda>c. let b = lookup_zero zero_check (built_map oc_ID (r_Checks baseline)) (oc_ID c) in
           oc_Owner c \<noteq> oc_Owner b \<or> oc_Outcome c \<noteq> oc_Outcome b)
         (r_Checks candidate)
      then ''REQUIRED_CHECK_DIVERGENCE''
      else [])"

section \<open>EvaluateValidation\<close>

definition baseValidationResult :: "ValidationObservation \<Rightarrow> ValidationResult" where
  "baseValidationResult ob =
     \<lparr>v_SchemaVersion = ValidationResultSchemaVersion, v_ObservationID = o_ObservationID ob,
      v_RepositoryID = o_RepositoryID ob, v_PipelineClass = o_PipelineClass ob,
      v_Revision = o_Revision ob, v_ManifestDigest = o_ManifestDigest ob,
      v_GraphDigest = o_GraphDigest ob, v_AdapterVersion = o_AdapterVersion ob,
      v_ChangeClass = o_ChangeClass ob, v_ObservedAt = o_ObservedAt ob, v_Mode = o_Mode ob,
      v_AlternativeID = [], v_Outcome = ValidationInconclusive, v_Reason = ''INCONCLUSIVE'',
      v_EligibleDecision = False, v_ValidationComplete = False, v_FullControl = False,
      v_FalseNegative = False, v_SelectionAuthorized = False\<rparr>"

definition falseNegativeResult :: "ValidationResult \<Rightarrow> string \<Rightarrow> ValidationResult" where
  "falseNegativeResult result reason =
     result\<lparr>v_Outcome := ValidationFalseNegative, v_Reason := reason, v_ValidationComplete := True,
            v_FalseNegative := True\<rparr>"

text \<open>The part of \<open>EvaluateValidation\<close> that judges the isolated candidate of a paired control.\<close>

definition evaluate_candidate ::
    "LoadedManifest \<Rightarrow> LoadedGraph \<Rightarrow> ImpactDecision \<Rightarrow> RunObservation \<Rightarrow> RunObservation \<Rightarrow>
      ValidationResult \<Rightarrow> ValidationResult" where
  "evaluate_candidate manifest graph decision baseline candidate result =
     (if r_Entrypoints candidate \<noteq> d_PredictedEntrypoints decision
      then falseNegativeResult result ''CANDIDATE_ENTRYPOINT_DIVERGENCE''
      else if r_Outcome candidate = RunInfrastructureFailure \<or> r_Outcome candidate = RunCancelled
      then result\<lparr>v_Reason := ''CANDIDATE_INFRASTRUCTURE_INCONCLUSIVE''\<rparr>
      else if r_Outcome candidate = RunBuildFailure then falseNegativeResult result ''CANDIDATE_BUILD_FAILURE''
      else if r_Outcome candidate \<noteq> RunSuccess then result\<lparr>v_Reason := ''CANDIDATE_OUTCOME_INVALID''\<rparr>
      else let reason = validateSuccessfulRun (lm_Manifest manifest) candidate
             (alternativeReach (lg_Graph graph) (d_PredictedEntrypoints decision)) in
        if reason \<noteq> [] then falseNegativeResult result (''CANDIDATE_'' @ reason)
        else let divergence = compareRuns baseline candidate in
          if divergence \<noteq> [] then falseNegativeResult result divergence
          else result\<lparr>v_Outcome := ValidationControlPassed, v_Reason := ''PAIRED_CONTROL_MATCHED'',
            v_ValidationComplete := True\<rparr>)"

definition EvaluateValidation ::
    "LoadedManifest \<Rightarrow> LoadedGraph \<Rightarrow> ValidationObservation \<Rightarrow> ValidationResult" where
  "EvaluateValidation manifest graph ob =
     (let result = baseValidationResult ob in
      if validateObservation ob manifest graph \<noteq> None then result\<lparr>v_Reason := ''OBSERVATION_INVALID''\<rparr>
      else let decision = EvaluateImpact manifest (lg_Graph graph) (o_ChangedPaths ob) in
        if d_Mode decision \<noteq> DecisionShadowAlternative
        then result\<lparr>v_Reason := ''DECISION_'' @ d_Reason decision\<rparr>
        else let result = result\<lparr>v_AlternativeID := d_PredictedAlternativeID decision, v_EligibleDecision := True\<rparr> in
          if r_Entrypoints (o_Baseline ob) \<noteq> m_OriginalEntrypoints (lm_Manifest manifest)
          then result\<lparr>v_Reason := ''BASELINE_NOT_ORIGINAL_ENTRYPOINTS''\<rparr>
          else if r_Outcome (o_Baseline ob) \<noteq> RunSuccess then result\<lparr>v_Reason := ''BASELINE_NOT_SUCCESSFUL''\<rparr>
          else let reason = validateSuccessfulRun (lm_Manifest manifest) (o_Baseline ob)
                 (originalReach (lg_Graph graph) (lm_Manifest manifest)) in
            if reason \<noteq> [] then result\<lparr>v_Reason := ''BASELINE_'' @ reason\<rparr>
            else if o_Mode ob = ValidationShadow
            then result\<lparr>v_Outcome := ValidationShadowPassed,
              v_Reason := ''FULL_EXECUTION_VALIDATES_SHADOW_MODEL'', v_ValidationComplete := True\<rparr>
            else let result = result\<lparr>v_FullControl := True\<rparr> in
              case o_Candidate ob of
                None \<Rightarrow> result\<lparr>v_Reason := ''CANDIDATE_MISSING''\<rparr>
              | Some candidate \<Rightarrow> evaluate_candidate manifest graph decision (o_Baseline ob) candidate result)"

end
