(* ===== verification/Promotion.thy ===== *)
theory Promotion
  imports Complex_Main Validation
begin

text \<open>
  \<open>internal/buildimpact/promotion.go\<close>: the statistical promotion rule BIA-002 over validation
  results. The floating-point fields of the report are exact reals here. The decision compares
  quotients of integers below \<open>10^6\<close> and \<open>1 - 0.05^(1/n)\<close> with constants from which the exact
  values are either equal to or far away (more than \<open>10^-8\<close>), so the comparisons agree with
  those of the 64-bit floating-point code.
\<close>

section \<open>Data\<close>

abbreviation PromotionReportSchemaVersion :: string where
  "PromotionReportSchemaVersion \<equiv> ''buildopt.build-impact/promotion-report/v1''"
abbreviation PromotionInconclusive :: string where "PromotionInconclusive \<equiv> ''INCONCLUSIVE''"
abbreviation PromotionQualified :: string where "PromotionQualified \<equiv> ''QUALIFIED''"
abbreviation PromotionSuspended :: string where "PromotionSuspended \<equiv> ''SUSPENDED''"

definition MinimumShadowDays :: real where "MinimumShadowDays = 30"
definition MinimumEligibleDecisions :: int where "MinimumEligibleDecisions = 3000"
definition MinimumControlsPerChangeClass :: int where "MinimumControlsPerChangeClass = 100"
definition MinimumValidationCoverage :: real where "MinimumValidationCoverage = 99 / 100"
definition MaximumAggregateFalseNegative :: real where "MaximumAggregateFalseNegative = 1 / 1000"
definition MaximumStratumFalseNegative :: real where "MaximumStratumFalseNegative = 3 / 100"
definition oneSidedAlpha :: real where "oneSidedAlpha = 5 / 100"
definition maximumPromotionResults :: int where "maximumPromotionResults = 1000000"

record PromotionInput =
  pi_RepositoryID :: string
  pi_PipelineClass :: string
  pi_ManifestDigest :: string
  pi_GraphDigest :: string
  pi_AdapterVersion :: string
  pi_MandatoryChangeClasses :: "string list"
  pi_Results :: "ValidationResult list"

record StratumReport =
  s_ChangeClass :: string
  s_FullControls :: int
  s_FalseNegatives :: int
  s_Upper95 :: real

record PromotionReport =
  pr_SchemaVersion :: string
  pr_RepositoryID :: string
  pr_PipelineClass :: string
  pr_ManifestDigest :: string
  pr_GraphDigest :: string
  pr_AdapterVersion :: string
  pr_State :: string
  pr_Reason :: string
  pr_ShadowDays :: real
  pr_EligibleDecisions :: int
  pr_ValidatedDecisions :: int
  pr_ValidationCoverage :: real
  pr_FullControls :: int
  pr_FalseNegatives :: int
  pr_AggregateUpper95 :: real
  pr_Strata :: "StratumReport list"
  pr_ExcludedPreReset :: int
  pr_ResetApplied :: bool
  pr_SelectionAuthorized :: bool

section \<open>Checks of the inputs\<close>

definition validatePromotionInput :: "PromotionInput \<Rightarrow> error option" where
  "validatePromotionInput input = first_err
     [reject_if (\<not> repositoryPattern (pi_RepositoryID input) \<or> \<not> pipelinePattern (pi_PipelineClass input) \<or>
         \<not> sha256Pattern (pi_ManifestDigest input) \<or> \<not> sha256Pattern (pi_GraphDigest input) \<or>
         \<not> idPattern (pi_AdapterVersion input))
        ''promotion input binding is invalid'',
      reject_if (length (pi_MandatoryChangeClasses input) = 0 \<or> length (pi_MandatoryChangeClasses input) > 32 \<or>
         \<not> uniqueStrings (pi_MandatoryChangeClasses input) \<or>
         int (length (pi_Results input)) > maximumPromotionResults)
        ''promotion input collections are invalid'',
      reject_if (list_ex (\<lambda>c. \<not> idPattern c) (pi_MandatoryChangeClasses input))
        ''mandatory change class is invalid'']"

definition validValidationResult :: "ValidationResult \<Rightarrow> bool" where
  "validValidationResult r =
     (if v_SchemaVersion r \<noteq> ValidationResultSchemaVersion \<or> \<not> observationIDPattern (v_ObservationID r) \<or>
         \<not> revisionPattern (v_Revision r) \<or> \<not> idPattern (v_ChangeClass r) \<or> v_Reason r = [] \<or>
         v_SelectionAuthorized r then False
      else if v_Mode r \<noteq> ValidationShadow \<and> v_Mode r \<noteq> ValidationPairedControl then False
      else if v_AlternativeID r \<noteq> [] \<and> \<not> idPattern (v_AlternativeID r) then False
      else if \<not> v_EligibleDecision r \<and>
         (v_AlternativeID r \<noteq> [] \<or> v_ValidationComplete r \<or> v_FullControl r \<or> v_FalseNegative r) then False
      else if v_EligibleDecision r \<and> v_AlternativeID r = [] then False
      else if v_FullControl r \<and> v_Mode r \<noteq> ValidationPairedControl then False
      else if \<not> canonical_utc (v_ObservedAt r) then False
      else if v_Outcome r = ValidationShadowPassed
      then v_Mode r = ValidationShadow \<and> v_EligibleDecision r \<and> v_ValidationComplete r \<and>
        \<not> v_FullControl r \<and> \<not> v_FalseNegative r
      else if v_Outcome r = ValidationControlPassed
      then v_Mode r = ValidationPairedControl \<and> v_EligibleDecision r \<and> v_ValidationComplete r \<and>
        v_FullControl r \<and> \<not> v_FalseNegative r
      else if v_Outcome r = ValidationFalseNegative
      then v_Mode r = ValidationPairedControl \<and> v_EligibleDecision r \<and> v_ValidationComplete r \<and>
        v_FullControl r \<and> v_FalseNegative r
      else if v_Outcome r = ValidationInconclusive
      then \<not> v_ValidationComplete r \<and> \<not> v_FalseNegative r
      else False)"

section \<open>The upper bound\<close>

definition conservativeFalseNegativeUpper :: "int \<Rightarrow> int \<Rightarrow> real" where
  "conservativeFalseNegativeUpper failures observations =
     (if observations \<le> 0 \<or> failures > 0 then 1
      else 1 - oneSidedAlpha powr (1 / of_int observations))"

section \<open>EvaluatePromotion\<close>

text \<open>The state of the loop over the results: the report with its counters, the identifiers seen,
  the earliest and latest eligible observation (zero time until one is seen) and the counters of the
  mandatory strata.\<close>

record PromotionLoop =
  l_Report :: PromotionReport
  l_Seen :: "string set"
  l_Earliest :: instant
  l_Latest :: instant
  l_Controls :: "string \<Rightarrow> int"
  l_Failures :: "string \<Rightarrow> int"

text \<open>What an eligible result adds to the counters of its stratum.\<close>

definition bump :: "bool \<Rightarrow> string set \<Rightarrow> string \<Rightarrow> (string \<Rightarrow> int) \<Rightarrow> string \<Rightarrow> int" where
  "bump cond strata c f = (if cond \<and> c \<in> strata then f(c := f c + 1) else f)"

definition count_eligible :: "string set \<Rightarrow> PromotionLoop \<Rightarrow> ValidationResult \<Rightarrow> PromotionLoop" where
  "count_eligible strata st r =
     (let observedAt = the (parse_utc (v_ObservedAt r));
          control = v_FullControl r \<and> v_ValidationComplete r;
          rep = l_Report st in
      st\<lparr>l_Earliest := (if l_Earliest st = 0 \<or> observedAt < l_Earliest st then observedAt else l_Earliest st),
         l_Latest := (if l_Latest st = 0 \<or> observedAt > l_Latest st then observedAt else l_Latest st),
         l_Controls := bump control strata (v_ChangeClass r) (l_Controls st),
         l_Failures := bump (v_FalseNegative r) strata (v_ChangeClass r) (l_Failures st),
         l_Report := rep
           \<lparr>pr_EligibleDecisions := pr_EligibleDecisions rep + 1,
            pr_ValidatedDecisions := pr_ValidatedDecisions rep + (if v_ValidationComplete r then 1 else 0),
            pr_FullControls := pr_FullControls rep + (if control then 1 else 0),
            pr_FalseNegatives := pr_FalseNegatives rep + (if v_FalseNegative r then 1 else 0)\<rparr>\<rparr>)"

text \<open>One iteration; \<open>Inl\<close> is an early return with the reason set.\<close>

definition promotion_step ::
    "PromotionInput \<Rightarrow> PromotionLoop \<Rightarrow> ValidationResult \<Rightarrow> PromotionReport + PromotionLoop" where
  "promotion_step input st r =
     (if v_ObservationID r \<in> l_Seen st then Inl ((l_Report st)\<lparr>pr_Reason := ''DUPLICATE_OBSERVATION''\<rparr>)
      else let st = st\<lparr>l_Seen := insert (v_ObservationID r) (l_Seen st)\<rparr> in
        if v_RepositoryID r \<noteq> pi_RepositoryID input \<or> v_PipelineClass r \<noteq> pi_PipelineClass input
        then Inl ((l_Report st)\<lparr>pr_Reason := ''RESULT_SCOPE_MISMATCH''\<rparr>)
        else if v_ManifestDigest r \<noteq> pi_ManifestDigest input \<or> v_GraphDigest r \<noteq> pi_GraphDigest input \<or>
           v_AdapterVersion r \<noteq> pi_AdapterVersion input
        then Inr (st\<lparr>l_Report := (l_Report st)\<lparr>pr_ExcludedPreReset := pr_ExcludedPreReset (l_Report st) + 1\<rparr>\<rparr>)
        else if \<not> validValidationResult r then Inl ((l_Report st)\<lparr>pr_Reason := ''RESULT_INVALID''\<rparr>)
        else if \<not> v_EligibleDecision r then Inr st
        else Inr (count_eligible (set (pi_MandatoryChangeClasses input)) st r))"

fun promotion_loop ::
    "PromotionInput \<Rightarrow> PromotionLoop \<Rightarrow> ValidationResult list \<Rightarrow> PromotionReport + PromotionLoop" where
  "promotion_loop input st [] = Inr st"
| "promotion_loop input st (r # rs) =
     (case promotion_step input st r of Inl rep \<Rightarrow> Inl rep | Inr st' \<Rightarrow> promotion_loop input st' rs)"

text \<open>\<open>latest.Sub(earliest).Hours() / 24\<close>\<close>

definition days_between :: "instant \<Rightarrow> instant \<Rightarrow> real" where
  "days_between earliest latest = of_int (time_sub latest earliest) / (3600 * 1000000000) / 24"

definition finish_counters :: "PromotionInput \<Rightarrow> PromotionLoop \<Rightarrow> PromotionReport" where
  "finish_counters input st =
     (let rep = l_Report st in
      rep\<lparr>pr_ResetApplied := pr_ExcludedPreReset rep > 0,
          pr_ShadowDays := (if l_Earliest st \<noteq> 0 then days_between (l_Earliest st) (l_Latest st)
            else pr_ShadowDays rep),
          pr_ValidationCoverage := (if pr_EligibleDecisions rep > 0
            then of_int (pr_ValidatedDecisions rep) / of_int (pr_EligibleDecisions rep)
            else pr_ValidationCoverage rep),
          pr_AggregateUpper95 := conservativeFalseNegativeUpper (pr_FalseNegatives rep) (pr_ValidatedDecisions rep),
          pr_Strata := sort_key s_ChangeClass (map (\<lambda>c.
            \<lparr>s_ChangeClass = c, s_FullControls = l_Controls st c, s_FalseNegatives = l_Failures st c,
             s_Upper95 = conservativeFalseNegativeUpper (l_Failures st c) (l_Controls st c)\<rparr>)
            (pi_MandatoryChangeClasses input))\<rparr>)"

fun strata_loop :: "StratumReport list \<Rightarrow> string option" where
  "strata_loop [] = None"
| "strata_loop (s # ss) =
     (if s_FullControls s < MinimumControlsPerChangeClass then Some ''STRATUM_CONTROLS_INSUFFICIENT''
      else if s_Upper95 s > MaximumStratumFalseNegative then Some ''STRATUM_UPPER_BOUND_EXCEEDED''
      else strata_loop ss)"

definition judge_promotion :: "PromotionReport \<Rightarrow> PromotionReport" where
  "judge_promotion rep =
     (if pr_FalseNegatives rep > 0
      then rep\<lparr>pr_State := PromotionSuspended, pr_Reason := ''FALSE_NEGATIVE_OBSERVED''\<rparr>
      else if pr_ShadowDays rep < MinimumShadowDays then rep\<lparr>pr_Reason := ''SHADOW_WINDOW_INSUFFICIENT''\<rparr>
      else if pr_EligibleDecisions rep < MinimumEligibleDecisions
      then rep\<lparr>pr_Reason := ''ELIGIBLE_DECISIONS_INSUFFICIENT''\<rparr>
      else if pr_ValidationCoverage rep < MinimumValidationCoverage
      then rep\<lparr>pr_Reason := ''VALIDATION_COVERAGE_INSUFFICIENT''\<rparr>
      else case strata_loop (pr_Strata rep) of
        Some reason \<Rightarrow> rep\<lparr>pr_Reason := reason\<rparr>
      | None \<Rightarrow>
          if pr_AggregateUpper95 rep > MaximumAggregateFalseNegative
          then rep\<lparr>pr_Reason := ''AGGREGATE_UPPER_BOUND_EXCEEDED''\<rparr>
          else rep\<lparr>pr_State := PromotionQualified, pr_Reason := ''BIA_002_SATISFIED''\<rparr>)"

definition initial_report :: "PromotionInput \<Rightarrow> PromotionReport" where
  "initial_report input =
     \<lparr>pr_SchemaVersion = PromotionReportSchemaVersion, pr_RepositoryID = pi_RepositoryID input,
      pr_PipelineClass = pi_PipelineClass input, pr_ManifestDigest = pi_ManifestDigest input,
      pr_GraphDigest = pi_GraphDigest input, pr_AdapterVersion = pi_AdapterVersion input,
      pr_State = PromotionInconclusive, pr_Reason = ''INPUT_INVALID'', pr_ShadowDays = 0,
      pr_EligibleDecisions = 0, pr_ValidatedDecisions = 0, pr_ValidationCoverage = 0,
      pr_FullControls = 0, pr_FalseNegatives = 0, pr_AggregateUpper95 = 0, pr_Strata = [],
      pr_ExcludedPreReset = 0, pr_ResetApplied = False, pr_SelectionAuthorized = False\<rparr>"

definition initial_loop :: "PromotionInput \<Rightarrow> PromotionLoop" where
  "initial_loop input =
     \<lparr>l_Report = initial_report input, l_Seen = {}, l_Earliest = 0, l_Latest = 0,
      l_Controls = (\<lambda>_. 0), l_Failures = (\<lambda>_. 0)\<rparr>"

definition EvaluatePromotion :: "PromotionInput \<Rightarrow> PromotionReport" where
  "EvaluatePromotion input =
     (if validatePromotionInput input \<noteq> None then initial_report input
      else case promotion_loop input (initial_loop input) (pi_Results input) of
        Inl rep \<Rightarrow> rep
      | Inr st \<Rightarrow> judge_promotion (finish_counters input st))"

end
