(* ===== verification/PromotionFacts.thy ===== *)
theory PromotionFacts
  imports Promotion
begin

text \<open>
  What the loop of \<open>EvaluatePromotion\<close> counts, what the one-sided upper bound means for the number
  of observations, and what a qualified or suspended report implies about the results.
\<close>

section \<open>The counters are counts\<close>

definition current :: "PromotionInput \<Rightarrow> ValidationResult \<Rightarrow> bool" where
  "current input r \<longleftrightarrow> v_ManifestDigest r = pi_ManifestDigest input \<and> v_GraphDigest r = pi_GraphDigest input \<and>
     v_AdapterVersion r = pi_AdapterVersion input"

definition eligible_results :: "PromotionInput \<Rightarrow> ValidationResult list \<Rightarrow> ValidationResult list" where
  "eligible_results input rs = filter (\<lambda>r. current input r \<and> v_EligibleDecision r) rs"

definition instant_of :: "ValidationResult \<Rightarrow> instant" where
  "instant_of r = the (parse_utc (v_ObservedAt r))"

abbreviation count_if :: "('a \<Rightarrow> bool) \<Rightarrow> 'a list \<Rightarrow> int" where
  "count_if P xs \<equiv> int (length (filter P xs))"

definition acceptable :: "PromotionInput \<Rightarrow> ValidationResult \<Rightarrow> bool" where
  "acceptable input r \<longleftrightarrow> v_RepositoryID r = pi_RepositoryID input \<and> v_PipelineClass r = pi_PipelineClass input \<and>
     (current input r \<longrightarrow> validValidationResult r)"

lemma eligible_results_simps [simp]:
  "eligible_results input [] = []"
  "eligible_results input (r # rs) =
     (if current input r \<and> v_EligibleDecision r then r # eligible_results input rs else eligible_results input rs)"
  by (simp_all add: eligible_results_def)

lemma promotion_step_Inr_iff:
  "promotion_step input st r = Inr st' \<longleftrightarrow>
     v_ObservationID r \<notin> l_Seen st \<and> acceptable input r \<and>
     st' = (let st1 = st\<lparr>l_Seen := insert (v_ObservationID r) (l_Seen st)\<rparr> in
        if \<not> current input r
        then st1\<lparr>l_Report := (l_Report st)\<lparr>pr_ExcludedPreReset := pr_ExcludedPreReset (l_Report st) + 1\<rparr>\<rparr>
        else if v_EligibleDecision r then count_eligible (set (pi_MandatoryChangeClasses input)) st1 r
        else st1)"
  by (auto simp: promotion_step_def acceptable_def current_def Let_def)

lemma promotion_loop_accepts:
  "(\<exists>st'. promotion_loop input st rs = Inr st') \<longleftrightarrow>
     distinct (map v_ObservationID rs) \<and> set (map v_ObservationID rs) \<inter> l_Seen st = {} \<and>
     (\<forall>r\<in>set rs. acceptable input r)"
proof (induction input st rs rule: promotion_loop.induct)
  case (2 input st r rs)
  show ?case
  proof (cases "promotion_step input st r")
    case (Inl rep)
    then have "\<not> (v_ObservationID r \<notin> l_Seen st \<and> acceptable input r)"
      using promotion_step_Inr_iff [of input st r] by auto
    with Inl show ?thesis by auto
  next
    case (Inr st')
    then have "v_ObservationID r \<notin> l_Seen st" "acceptable input r"
      and "l_Seen st' = insert (v_ObservationID r) (l_Seen st)"
      unfolding promotion_step_Inr_iff by (simp_all add: Let_def count_eligible_def)
    with "2.IH" [OF Inr] Inr show ?thesis by auto
  qed
qed simp

text \<open>What one iteration adds to each counter.\<close>

lemma promotion_step_counts:
  assumes "promotion_step input st r = Inr st'"
  defines "e \<equiv> current input r \<and> v_EligibleDecision r"
  shows "pr_EligibleDecisions (l_Report st') = pr_EligibleDecisions (l_Report st) + of_bool e"
    and "pr_ValidatedDecisions (l_Report st') = pr_ValidatedDecisions (l_Report st) + of_bool (e \<and> v_ValidationComplete r)"
    and "pr_FalseNegatives (l_Report st') = pr_FalseNegatives (l_Report st) + of_bool (e \<and> v_FalseNegative r)"
    and "c \<in> set (pi_MandatoryChangeClasses input) \<Longrightarrow> l_Controls st' c = l_Controls st c
           + of_bool (e \<and> v_ChangeClass r = c \<and> v_FullControl r \<and> v_ValidationComplete r)"
    and "c \<in> set (pi_MandatoryChangeClasses input) \<Longrightarrow> l_Failures st' c = l_Failures st c
           + of_bool (e \<and> v_ChangeClass r = c \<and> v_FalseNegative r)"
    and "pr_State (l_Report st') = pr_State (l_Report st)"
    and "pr_ShadowDays (l_Report st') = pr_ShadowDays (l_Report st)"
    and "pr_SelectionAuthorized (l_Report st') = pr_SelectionAuthorized (l_Report st)"
  using assms(1) unfolding promotion_step_Inr_iff e_def
  by (simp_all add: count_eligible_def bump_def Let_def) blast+

text \<open>Folding any of these increments over the loop counts the eligible results with the property.\<close>

lemma promotion_loop_count:
  assumes "\<And>st st' r. promotion_step input st r = Inr st' \<Longrightarrow>
      f st' = f st + of_bool ((current input r \<and> v_EligibleDecision r) \<and> P r)"
    and "promotion_loop input st rs = Inr st'"
  shows "f st' = f st + count_if P (eligible_results input rs)"
  using assms(2)
proof (induction rs arbitrary: st)
  case (Cons r rs)
  then show ?case
  proof (cases "promotion_step input st r")
    case (Inr st1)
    with Cons.IH [of st1] Cons.prems assms(1) [OF Inr] show ?thesis by auto
  qed simp
qed simp

lemma promotion_loop_keeps:
  assumes "\<And>st st' r. promotion_step input st r = Inr st' \<Longrightarrow> f st' = f st"
    and "promotion_loop input st rs = Inr st'"
  shows "f st' = f st"
  using assms(2)
proof (induction rs arbitrary: st)
  case (Cons r rs)
  then show ?case
  proof (cases "promotion_step input st r")
    case (Inr st1)
    with Cons.IH [of st1] Cons.prems assms(1) [OF Inr] show ?thesis by auto
  qed simp
qed simp

text \<open>The counters after the loop.\<close>

lemma promotion_loop_counts:
  assumes "promotion_loop input (initial_loop input) rs = Inr st"
  defines "es \<equiv> eligible_results input rs"
  shows "pr_EligibleDecisions (l_Report st) = int (length es)"
    and "pr_ValidatedDecisions (l_Report st) = count_if v_ValidationComplete es"
    and "pr_FalseNegatives (l_Report st) = count_if v_FalseNegative es"
    and "c \<in> set (pi_MandatoryChangeClasses input) \<Longrightarrow> l_Controls st c =
           count_if (\<lambda>r. v_ChangeClass r = c \<and> v_FullControl r \<and> v_ValidationComplete r) es"
    and "c \<in> set (pi_MandatoryChangeClasses input) \<Longrightarrow> l_Failures st c =
           count_if (\<lambda>r. v_ChangeClass r = c \<and> v_FalseNegative r) es"
    and "pr_State (l_Report st) = PromotionInconclusive"
    and "pr_ShadowDays (l_Report st) = 0"
    and "pr_SelectionAuthorized (l_Report st) = False"
proof -
  note init = initial_loop_def initial_report_def
  note cnt = promotion_loop_count [OF _ assms(1)]
  note keep = promotion_loop_keeps [OF _ assms(1)]
  show "pr_EligibleDecisions (l_Report st) = int (length es)"
    using cnt [of "\<lambda>st. pr_EligibleDecisions (l_Report st)" "\<lambda>_. True"] promotion_step_counts(1)
    by (simp add: init es_def)
  show "pr_ValidatedDecisions (l_Report st) = count_if v_ValidationComplete es"
    using cnt [of "\<lambda>st. pr_ValidatedDecisions (l_Report st)"] promotion_step_counts(2) by (simp add: init es_def)
  show "pr_FalseNegatives (l_Report st) = count_if v_FalseNegative es"
    using cnt [of "\<lambda>st. pr_FalseNegatives (l_Report st)"] promotion_step_counts(3) by (simp add: init es_def)
  show "l_Controls st c = count_if (\<lambda>r. v_ChangeClass r = c \<and> v_FullControl r \<and> v_ValidationComplete r) es"
    if "c \<in> set (pi_MandatoryChangeClasses input)"
    using cnt [of "\<lambda>st. l_Controls st c"] promotion_step_counts(4) [OF _ that] by (simp add: init es_def)
  show "l_Failures st c = count_if (\<lambda>r. v_ChangeClass r = c \<and> v_FalseNegative r) es"
    if "c \<in> set (pi_MandatoryChangeClasses input)"
    using cnt [of "\<lambda>st. l_Failures st c"] promotion_step_counts(5) [OF _ that] by (simp add: init es_def)
  show "pr_State (l_Report st) = PromotionInconclusive"
    using keep [of "\<lambda>st. pr_State (l_Report st)"] promotion_step_counts(6) by (simp add: init)
  show "pr_ShadowDays (l_Report st) = 0"
    using keep [of "\<lambda>st. pr_ShadowDays (l_Report st)"] promotion_step_counts(7) by (simp add: init)
  show "pr_SelectionAuthorized (l_Report st) = False"
    using keep [of "\<lambda>st. pr_SelectionAuthorized (l_Report st)"] promotion_step_counts(8) by (simp add: init)
qed

lemma promotion_loop_window:
  assumes "promotion_loop input st rs = Inr st'"
    and "E = eligible_results input qs"
    and "E \<noteq> [] \<Longrightarrow> l_Earliest st \<in> instant_of ` set E \<and> l_Latest st \<in> instant_of ` set E"
    and "E = [] \<Longrightarrow> l_Earliest st = 0 \<and> l_Latest st = 0"
  shows "(eligible_results input (qs @ rs) \<noteq> [] \<longrightarrow>
       l_Earliest st' \<in> instant_of ` set (eligible_results input (qs @ rs)) \<and>
       l_Latest st' \<in> instant_of ` set (eligible_results input (qs @ rs))) \<and>
     (eligible_results input (qs @ rs) = [] \<longrightarrow> l_Earliest st' = 0 \<and> l_Latest st' = 0)"
  using assms
proof (induction input st rs arbitrary: qs E rule: promotion_loop.induct)
  case (2 input st r rs)
  show ?case
  proof (cases "promotion_step input st r")
    case (Inr st1)
    let ?E = "eligible_results input (qs @ [r])"
    have E: "?E = (if current input r \<and> v_EligibleDecision r then E @ [r] else E)"
      using "2.prems"(2) by (simp add: eligible_results_def)
    have cnt: "l_Earliest st1 \<in> {l_Earliest st, instant_of r} \<and> l_Latest st1 \<in> {l_Latest st, instant_of r} \<and>
        (E = [] \<longrightarrow> l_Earliest st1 = instant_of r \<and> l_Latest st1 = instant_of r)"
      if "current input r" "v_EligibleDecision r"
      using Inr that "2.prems"(4) unfolding promotion_step_Inr_iff
      by (auto simp: count_eligible_def instant_of_def Let_def)
    have skip: "l_Earliest st1 = l_Earliest st \<and> l_Latest st1 = l_Latest st"
      if "\<not> (current input r \<and> v_EligibleDecision r)"
      using Inr that unfolding promotion_step_Inr_iff by (auto simp: Let_def)
    have "promotion_loop input st1 rs = Inr st'" using "2.prems"(1) Inr by simp
    then have "(eligible_results input ((qs @ [r]) @ rs) \<noteq> [] \<longrightarrow>
       l_Earliest st' \<in> instant_of ` set (eligible_results input ((qs @ [r]) @ rs)) \<and>
       l_Latest st' \<in> instant_of ` set (eligible_results input ((qs @ [r]) @ rs))) \<and>
     (eligible_results input ((qs @ [r]) @ rs) = [] \<longrightarrow> l_Earliest st' = 0 \<and> l_Latest st' = 0)"
      using "2.prems"(3,4) cnt skip
      by (intro "2.IH" [OF Inr _ refl]) (cases "current input r \<and> v_EligibleDecision r"; cases "E = []"; auto simp: E)+
    then show ?thesis by simp
  qed (use "2.prems"(1) in simp)
qed simp

section \<open>The upper bound\<close>

lemma upper_le_iff:
  assumes "0 < n" "0 < q"
  shows "conservativeFalseNegativeUpper 0 n \<le> 1 - q \<longleftrightarrow> q ^ nat n \<le> 1 / 20"
proof -
  have n: "0 < (of_int n :: real)" using assms by simp
  have "conservativeFalseNegativeUpper 0 n \<le> 1 - q \<longleftrightarrow> q \<le> (1 / 20) powr (1 / of_int n)"
    using assms by (simp add: conservativeFalseNegativeUpper_def oneSidedAlpha_def)
  also have "\<dots> \<longleftrightarrow> q powr of_int n \<le> 1 / 20"
  proof
    assume "q \<le> (1 / 20) powr (1 / of_int n)"
    then have "q powr of_int n \<le> ((1 / 20) powr (1 / of_int n)) powr of_int n"
      using assms n by (intro powr_mono2) auto
    then show "q powr of_int n \<le> 1 / 20" using n by (simp add: powr_powr)
  next
    assume "q powr of_int n \<le> 1 / 20"
    then have "(q powr of_int n) powr (1 / of_int n) \<le> (1 / 20) powr (1 / of_int n)"
      using assms n by (intro powr_mono2) auto
    then show "q \<le> (1 / 20) powr (1 / of_int n)" using n assms by (simp add: powr_powr)
  qed
  also have "q powr of_int n = q ^ nat n"
    using assms by (metis powr_realpow of_int_of_nat_eq order_less_imp_le nat_0_le of_nat_nat)
  finally show ?thesis .
qed

lemma power_chain:
  fixes q :: real
  assumes "0 \<le> q" "0 \<le> a" "q ^ m \<le> a" "a ^ k \<le> b"
  shows "q ^ (m * k) \<le> b"
proof -
  have "q ^ (m * k) = (q ^ m) ^ k" by (rule power_mult)
  also have "\<dots> \<le> a ^ k" using assms by (intro power_mono) auto
  finally show ?thesis using assms(4) by simp
qed

lemma power_chain_less:
  fixes q :: real
  assumes "0 \<le> q" "0 \<le> a" "a \<le> q ^ m" "b \<le> a ^ k"
  shows "b \<le> q ^ (m * k)"
proof -
  have "a ^ k \<le> (q ^ m) ^ k" using assms by (intro power_mono) auto
  then show ?thesis using assms(4) by (simp add: power_mult)
qed

lemma stratum_power: "(97 / 100 :: real) ^ 100 \<le> 1 / 20"
proof -
  have a: "(97 / 100 :: real) ^ 10 \<le> 7375 / 10000" by (simp add: power_divide)
  have "(7375 / 10000 :: real) ^ 10 \<le> 1 / 20" by (simp add: power_divide)
  from power_chain [OF _ _ a this] show ?thesis by simp
qed

lemma aggregate_power: "1 / 20 < (999 / 1000 :: real) ^ 2994"
proof -
  define q where "q = (999 / 1000 :: real)"
  have q0: "0 < q" by (simp add: q_def)
  have a: "990044880209 / 1000000000000 \<le> q ^ 10" by (simp add: q_def power_divide)
  have b: "904792147106 / 1000000000000 \<le> (990044880209 / 1000000000000 :: real) ^ 10" by (simp add: power_divide)
  have c: "49712393985 / 1000000000000 \<le> (904792147106 / 1000000000000 :: real) ^ 30" by (simp add: power_divide)
  from power_chain_less [OF _ _ power_chain_less [OF _ _ a b] c] have lo: "49712393985 / 1000000000000 \<le> q ^ 3000" using q0 by simp
  have split: "q ^ 3000 = q ^ 2994 * q ^ 6" using power_add [of q 2994 6] by simp
  have "1 / 20 * q ^ 6 < 49712393985 / 1000000000000" by (simp add: q_def power_divide)
  from order.strict_trans2 [OF this lo] have "1 / 20 * q ^ 6 < q ^ 2994 * q ^ 6" unfolding split .
  then have "1 / 20 < q ^ 2994" using q0 by (simp only: mult_less_cancel_right_pos zero_less_power)
  then show ?thesis unfolding q_def .
qed

lemma aggregate_power_2995: "(999 / 1000 :: real) ^ 2995 \<le> 1 / 20"
proof -
  define q where "q = (999 / 1000 :: real)"
  have q0: "0 < q" by (simp add: q_def)
  have a: "q ^ 10 \<le> 990045 / 1000000" by (simp add: q_def power_divide)
  have b: "(990045 / 1000000 :: real) ^ 10 \<le> 904794 / 1000000" by (simp add: power_divide)
  have c: "(904794 / 1000000 :: real) ^ 30 \<le> 49716 / 1000000" by (simp add: power_divide)
  from power_chain [OF _ _ power_chain [OF _ _ a b] c] have hi: "q ^ 3000 \<le> 49716 / 1000000" using q0 by simp
  have split: "q ^ 3000 = q ^ 2995 * q ^ 5" using power_add [of q 2995 5] by simp
  have "49716 / 1000000 \<le> 1 / 20 * q ^ 5" by (simp add: q_def power_divide)
  from order_trans [OF hi this] have "q ^ 2995 * q ^ 5 \<le> 1 / 20 * q ^ 5" unfolding split .
  then have "q ^ 2995 \<le> 1 / 20" using q0 by (simp only: mult_le_cancel_right_pos zero_less_power)
  then show ?thesis unfolding q_def .
qed

lemma stratum_bound:
  assumes "MinimumControlsPerChangeClass \<le> n"
  shows "conservativeFalseNegativeUpper 0 n \<le> MaximumStratumFalseNegative"
proof -
  have n: "100 \<le> n" using assms by (simp add: MinimumControlsPerChangeClass_def)
  have "(97 / 100 :: real) ^ nat n \<le> (97 / 100) ^ 100" using n by (intro power_decreasing) auto
  with stratum_power upper_le_iff [of n "97 / 100"] n show ?thesis
    by (simp add: MaximumStratumFalseNegative_def)
qed

lemma aggregate_bound_count:
  assumes "conservativeFalseNegativeUpper 0 n \<le> MaximumAggregateFalseNegative"
  shows "2995 \<le> n"
proof (rule ccontr)
  assume "\<not> 2995 \<le> n"
  then have n: "n \<le> 2994" by simp
  show False
  proof (cases "0 < n")
    case True
    then have "(999 / 1000 :: real) ^ nat n \<le> 1 / 20"
      using assms upper_le_iff [of n "999 / 1000"] by (simp add: MaximumAggregateFalseNegative_def)
    moreover have "(999 / 1000 :: real) ^ 2994 \<le> (999 / 1000) ^ nat n" using n by (intro power_decreasing) auto
    ultimately show False using aggregate_power by (meson leD order_trans)
  next
    case False
    then show False
      using assms by (simp add: conservativeFalseNegativeUpper_def MaximumAggregateFalseNegative_def)
  qed
qed

lemma aggregate_bound_iff:
  "conservativeFalseNegativeUpper 0 n \<le> MaximumAggregateFalseNegative \<longleftrightarrow> 2995 \<le> n"
proof
  assume n: "2995 \<le> n"
  then have "(999 / 1000 :: real) ^ nat n \<le> (999 / 1000) ^ 2995" by (intro power_decreasing) auto
  from order_trans [OF this aggregate_power_2995] n upper_le_iff [of n "999 / 1000"]
  show "conservativeFalseNegativeUpper 0 n \<le> MaximumAggregateFalseNegative"
    by (simp add: MaximumAggregateFalseNegative_def)
qed (rule aggregate_bound_count)

section \<open>The state of the report\<close>

lemma promotion_loop_Inl:
  "promotion_loop input st rs = Inl rep \<Longrightarrow>
     pr_State rep = pr_State (l_Report st) \<and> pr_SelectionAuthorized rep = pr_SelectionAuthorized (l_Report st)"
proof (induction rs arbitrary: st)
  case (Cons r rs)
  show ?case
  proof (cases "promotion_step input st r")
    case (Inl rep')
    with Cons.prems have "promotion_step input st r = Inl rep" by simp
    then show ?thesis by (auto simp: promotion_step_def Let_def split: if_splits)
  next
    case (Inr st')
    with Cons.prems Cons.IH [of st'] promotion_step_counts(6,8) [OF Inr] show ?thesis by simp
  qed
qed simp

lemma finish_counters_keeps [simp]:
  "pr_State (finish_counters input st) = pr_State (l_Report st)"
  "pr_FalseNegatives (finish_counters input st) = pr_FalseNegatives (l_Report st)"
  "pr_EligibleDecisions (finish_counters input st) = pr_EligibleDecisions (l_Report st)"
  "pr_SelectionAuthorized (finish_counters input st) = pr_SelectionAuthorized (l_Report st)"
  by (simp_all add: finish_counters_def Let_def)

lemma judge_cases:
  "pr_State (judge_promotion rep) = PromotionSuspended \<and> 0 < pr_FalseNegatives rep \<or>
   pr_State (judge_promotion rep) = pr_State rep \<and> pr_FalseNegatives rep \<le> 0 \<or>
   pr_State (judge_promotion rep) = PromotionQualified \<and> pr_FalseNegatives rep \<le> 0 \<and>
     MinimumShadowDays \<le> pr_ShadowDays rep \<and> MinimumEligibleDecisions \<le> pr_EligibleDecisions rep \<and>
     MinimumValidationCoverage \<le> pr_ValidationCoverage rep \<and> strata_loop (pr_Strata rep) = None \<and>
     pr_AggregateUpper95 rep \<le> MaximumAggregateFalseNegative"
  by (cases "strata_loop (pr_Strata rep)") (auto simp: judge_promotion_def)

lemma judge_authorized [simp]: "pr_SelectionAuthorized (judge_promotion rep) = pr_SelectionAuthorized rep"
  by (auto simp: judge_promotion_def split: option.splits)

lemma EvaluatePromotion_cases:
  obtains (inconclusive) "pr_State (EvaluatePromotion input) = PromotionInconclusive"
      "\<not> pr_SelectionAuthorized (EvaluatePromotion input)"
      "validatePromotionInput input \<noteq> None \<or> (\<nexists>st. promotion_loop input (initial_loop input) (pi_Results input) = Inr st)"
  | (judged) st where "validatePromotionInput input = None"
      "promotion_loop input (initial_loop input) (pi_Results input) = Inr st"
      "EvaluatePromotion input = judge_promotion (finish_counters input st)"
      "\<not> pr_SelectionAuthorized (EvaluatePromotion input)"
proof (cases "validatePromotionInput input = None")
  case False
  with inconclusive show ?thesis by (simp add: EvaluatePromotion_def initial_report_def)
next
  case True
  show ?thesis
  proof (cases "promotion_loop input (initial_loop input) (pi_Results input)")
    case (Inl rep)
    with promotion_loop_Inl [OF Inl] True inconclusive show ?thesis
      by (simp add: EvaluatePromotion_def initial_loop_def initial_report_def)
  next
    case (Inr st)
    with True promotion_loop_counts(8) [OF Inr] judged show ?thesis by (simp add: EvaluatePromotion_def)
  qed
qed

lemma strata_loop_None:
  "strata_loop ss = None \<longleftrightarrow>
     (\<forall>s\<in>set ss. MinimumControlsPerChangeClass \<le> s_FullControls s \<and> s_Upper95 s \<le> MaximumStratumFalseNegative)"
  by (induction ss) auto

lemma qualified_judged:
  assumes "pr_State (EvaluatePromotion input) = PromotionQualified"
  obtains st where "validatePromotionInput input = None"
    "promotion_loop input (initial_loop input) (pi_Results input) = Inr st"
    "pr_FalseNegatives (l_Report st) \<le> 0"
    "MinimumShadowDays \<le> pr_ShadowDays (finish_counters input st)"
    "MinimumEligibleDecisions \<le> pr_EligibleDecisions (l_Report st)"
    "MinimumValidationCoverage \<le> pr_ValidationCoverage (finish_counters input st)"
    "strata_loop (pr_Strata (finish_counters input st)) = None"
    "pr_AggregateUpper95 (finish_counters input st) \<le> MaximumAggregateFalseNegative"
proof (cases rule: EvaluatePromotion_cases [of input])
  case inconclusive
  with assms show ?thesis by simp
next
  case (judged st)
  show ?thesis
    using judge_cases [of "finish_counters input st"] assms promotion_loop_counts(6) [OF judged(2)]
    by (intro that [OF judged(1,2)]) (simp_all add: judged(3))
qed

text \<open>The evidence a qualified report rests on.\<close>

definition promotion_evidence :: "PromotionInput \<Rightarrow> bool" where
  "promotion_evidence input \<longleftrightarrow> (let es = eligible_results input (pi_Results input) in
     distinct (map v_ObservationID (pi_Results input)) \<and>
     (\<forall>r\<in>set (pi_Results input). acceptable input r) \<and>
     (\<forall>r\<in>set es. \<not> v_FalseNegative r) \<and>
     3000 \<le> int (length es) \<and>
     2995 \<le> count_if v_ValidationComplete es \<and>
     99 * int (length es) \<le> 100 * count_if v_ValidationComplete es \<and>
     (\<forall>c\<in>set (pi_MandatoryChangeClasses input).
        100 \<le> count_if (\<lambda>r. v_ChangeClass r = c \<and> v_FullControl r \<and> v_ValidationComplete r) es) \<and>
     (\<exists>a\<in>set es. \<exists>b\<in>set es. 30 * 86400 \<le> instant_of b - instant_of a))"

lemma window_days:
  assumes "MinimumShadowDays \<le> days_between e l"
  shows "30 * 86400 \<le> l - e"
proof -
  from assms have "(30 * 86400 * 1000000000 :: real) \<le> of_int (time_sub l e)"
    by (simp add: MinimumShadowDays_def days_between_def)
  then have t: "30 * 86400 * 1000000000 \<le> time_sub l e" by linarith
  then have "0 \<le> l - e" by (auto simp: time_sub_def max_duration_def min_duration_def)
  with t time_sub_le show ?thesis by (smt (verit))
qed

lemma qualified_evidence:
  assumes "pr_State (EvaluatePromotion input) = PromotionQualified"
  shows "promotion_evidence input"
proof -
  let ?rs = "pi_Results input" let ?es = "eligible_results input (pi_Results input)"
  from assms obtain st where loop: "promotion_loop input (initial_loop input) ?rs = Inr st"
    and q: "pr_FalseNegatives (l_Report st) \<le> 0" "MinimumShadowDays \<le> pr_ShadowDays (finish_counters input st)"
      "MinimumEligibleDecisions \<le> pr_EligibleDecisions (l_Report st)"
      "MinimumValidationCoverage \<le> pr_ValidationCoverage (finish_counters input st)"
      "strata_loop (pr_Strata (finish_counters input st)) = None"
      "pr_AggregateUpper95 (finish_counters input st) \<le> MaximumAggregateFalseNegative"
    by (rule qualified_judged)
  note cnt = promotion_loop_counts [OF loop]
  have acc: "distinct (map v_ObservationID ?rs)" "\<forall>r\<in>set ?rs. acceptable input r"
    using promotion_loop_accepts [of input "initial_loop input" ?rs] loop by auto
  have fn: "\<forall>r\<in>set ?es. \<not> v_FalseNegative r" using q(1) cnt(3) by (simp add: filter_empty_conv)
  have n: "3000 \<le> int (length ?es)" using q(3) cnt(1) by (simp add: MinimumEligibleDecisions_def)
  have ne: "?es \<noteq> []" using n by auto
  have v: "2995 \<le> count_if v_ValidationComplete ?es"
    using aggregate_bound_count [of "count_if v_ValidationComplete ?es"] q(1,6) cnt(2,3)
    by (simp add: finish_counters_def Let_def)
  have "99 / 100 \<le> (of_int (count_if v_ValidationComplete ?es) :: real) / of_int (int (length ?es))"
    using q(4) cnt(1,2) ne by (simp add: finish_counters_def Let_def MinimumValidationCoverage_def)
  then have "99 * of_int (int (length ?es)) \<le> 100 * (of_int (count_if v_ValidationComplete ?es) :: real)"
    using ne by (simp add: field_simps)
  then have cov: "99 * int (length ?es) \<le> 100 * count_if v_ValidationComplete ?es" by linarith
  have ctl: "100 \<le> count_if (\<lambda>r. v_ChangeClass r = c \<and> v_FullControl r \<and> v_ValidationComplete r) ?es"
    if "c \<in> set (pi_MandatoryChangeClasses input)" for c
    using q(5) cnt(4) [OF that] that
    by (auto simp: strata_loop_None finish_counters_def Let_def MinimumControlsPerChangeClass_def)
  have win: "l_Earliest st \<in> instant_of ` set ?es" "l_Latest st \<in> instant_of ` set ?es"
    using promotion_loop_window [OF loop, of "[]" "[]"] ne by (simp_all add: initial_loop_def)
  have "MinimumShadowDays \<le> days_between (l_Earliest st) (l_Latest st)"
    using q(2) cnt(7) by (simp add: finish_counters_def Let_def MinimumShadowDays_def split: if_splits)
  from window_days [OF this] win have "\<exists>a\<in>set ?es. \<exists>b\<in>set ?es. 30 * 86400 \<le> instant_of b - instant_of a" by (metis imageE)
  with acc fn n v cov ctl show ?thesis by (simp add: promotion_evidence_def Let_def)
qed

section \<open>Evidence is enough\<close>

text \<open>With observations after the zero time the loop keeps the extremes of the window.\<close>

lemma promotion_loop_extremes:
  assumes "promotion_loop input st rs = Inr st'"
    and "\<forall>r\<in>set (eligible_results input rs). 0 < instant_of r"
    and "0 \<le> l_Earliest st" "0 \<le> l_Latest st" "l_Earliest st = 0 \<longleftrightarrow> l_Latest st = 0"
  shows "(l_Earliest st \<noteq> 0 \<longrightarrow> 0 < l_Earliest st' \<and> l_Earliest st' \<le> l_Earliest st \<and> l_Latest st \<le> l_Latest st') \<and>
     (\<forall>r\<in>set (eligible_results input rs).
        0 < l_Earliest st' \<and> l_Earliest st' \<le> instant_of r \<and> instant_of r \<le> l_Latest st')"
  using assms
proof (induction rs arbitrary: st)
  case (Cons r rs)
  show ?case
  proof (cases "promotion_step input st r")
    case (Inr st1)
    have loop: "promotion_loop input st1 rs = Inr st'" using Cons.prems(1) Inr by simp
    show ?thesis
    proof (cases "current input r \<and> v_EligibleDecision r")
      case True
      then have pos: "0 < instant_of r" using Cons.prems(2) by simp
      have "l_Earliest st1 = (if l_Earliest st = 0 \<or> instant_of r < l_Earliest st then instant_of r else l_Earliest st)"
        "l_Latest st1 = (if l_Latest st = 0 \<or> instant_of r > l_Latest st then instant_of r else l_Latest st)"
        using Inr True unfolding promotion_step_Inr_iff by (simp_all add: count_eligible_def instant_of_def Let_def)
      with Cons.IH [OF loop] Cons.prems(2-5) True pos show ?thesis
        by (auto split: if_splits)
    next
      case False
      then have "l_Earliest st1 = l_Earliest st" "l_Latest st1 = l_Latest st"
        using Inr unfolding promotion_step_Inr_iff by (auto simp: Let_def)
      with Cons.IH [OF loop] Cons.prems(2-5) False show ?thesis by auto
    qed
  qed (use Cons.prems(1) in simp)
qed auto

lemma days_window:
  assumes "30 * 86400 \<le> l - e"
  shows "MinimumShadowDays \<le> days_between e l"
proof -
  have "30 * 86400 * 1000000000 \<le> time_sub l e"
    using assms by (intro time_sub_ge) (simp_all add: max_duration_def)
  then have "(30 * 86400 * 1000000000 :: real) \<le> of_int (time_sub l e)" by linarith
  then show ?thesis by (simp add: MinimumShadowDays_def days_between_def)
qed

lemma evidence_qualified:
  assumes "validatePromotionInput input = None" "promotion_evidence input"
    and "\<forall>r\<in>set (eligible_results input (pi_Results input)). 0 < instant_of r"
  shows "pr_State (EvaluatePromotion input) = PromotionQualified"
proof -
  let ?rs = "pi_Results input" let ?es = "eligible_results input (pi_Results input)"
  from assms(2) have ev: "\<forall>r\<in>set ?es. \<not> v_FalseNegative r" "3000 \<le> int (length ?es)"
    "2995 \<le> count_if v_ValidationComplete ?es"
    "99 * int (length ?es) \<le> 100 * count_if v_ValidationComplete ?es"
    "\<And>c. c \<in> set (pi_MandatoryChangeClasses input) \<Longrightarrow>
       100 \<le> count_if (\<lambda>r. v_ChangeClass r = c \<and> v_FullControl r \<and> v_ValidationComplete r) ?es"
    by (simp_all add: promotion_evidence_def Let_def)
  from assms(2) obtain a b where ab: "a \<in> set ?es" "b \<in> set ?es" "30 * 86400 \<le> instant_of b - instant_of a"
    by (auto simp: promotion_evidence_def Let_def)
  have "\<exists>st. promotion_loop input (initial_loop input) ?rs = Inr st"
    using assms(2) unfolding promotion_loop_accepts
    by (simp add: promotion_evidence_def Let_def initial_loop_def)
  then obtain st where loop: "promotion_loop input (initial_loop input) ?rs = Inr st" by blast
  note cnt = promotion_loop_counts [OF loop]
  let ?rep = "finish_counters input st"
  have fn: "count_if v_FalseNegative ?es = 0" using ev(1) by (simp add: filter_empty_conv)
  have fnc: "count_if (\<lambda>r. v_ChangeClass r = c \<and> v_FalseNegative r) ?es = 0" for c
    using ev(1) by (simp add: filter_empty_conv)
  have ext: "0 < l_Earliest st \<and> l_Earliest st \<le> instant_of r \<and> instant_of r \<le> l_Latest st" if "r \<in> set ?es" for r
    using promotion_loop_extremes [OF loop assms(3)] that by (simp add: initial_loop_def)
  have "30 * 86400 \<le> l_Latest st - l_Earliest st" using ab ext [OF ab(1)] ext [OF ab(2)] by linarith
  then have w: "MinimumShadowDays \<le> pr_ShadowDays ?rep"
    using days_window ext [OF ab(1)] by (simp add: finish_counters_def Let_def)
  have "0 < int (length ?es)" using ev(2) by linarith
  then have c: "MinimumValidationCoverage \<le> pr_ValidationCoverage ?rep"
    using ev(4) cnt(1,2) by (simp add: finish_counters_def Let_def MinimumValidationCoverage_def field_simps)
  have u: "pr_AggregateUpper95 ?rep \<le> MaximumAggregateFalseNegative"
    using aggregate_bound_iff [of "count_if v_ValidationComplete ?es"] ev(3) cnt(2,3) fn
    by (simp add: finish_counters_def Let_def)
  have st: "strata_loop (pr_Strata ?rep) = None"
    using ev(5) stratum_bound cnt(4,5) fnc
    by (auto simp: strata_loop_None finish_counters_def Let_def MinimumControlsPerChangeClass_def)
  have "pr_State (judge_promotion ?rep) = PromotionQualified"
    using w c u st fn ev(2) cnt(1,3) by (simp add: judge_promotion_def MinimumEligibleDecisions_def)
  with assms(1) loop show ?thesis by (simp add: EvaluatePromotion_def)
qed

section \<open>The reasons\<close>

lemma promotion_loop_reason:
  "promotion_loop input st rs = Inl rep \<Longrightarrow>
     pr_Reason rep \<in> {''DUPLICATE_OBSERVATION'', ''RESULT_SCOPE_MISMATCH'', ''RESULT_INVALID''}"
proof (induction rs arbitrary: st)
  case (Cons r rs)
  show ?case
  proof (cases "promotion_step input st r")
    case (Inl rep')
    with Cons.prems have "promotion_step input st r = Inl rep" by simp
    then show ?thesis by (auto simp: promotion_step_def Let_def split: if_splits)
  next
    case (Inr st')
    with Cons.prems Cons.IH [of st'] show ?thesis by simp
  qed
qed simp

lemma strata_loop_bounded:
  "(\<And>s. s \<in> set ss \<Longrightarrow> MinimumControlsPerChangeClass \<le> s_FullControls s \<Longrightarrow>
      s_Upper95 s \<le> MaximumStratumFalseNegative) \<Longrightarrow>
   strata_loop ss \<in> {None, Some ''STRATUM_CONTROLS_INSUFFICIENT''}"
proof (induction ss)
  case (Cons a ss)
  have "strata_loop ss \<in> {None, Some ''STRATUM_CONTROLS_INSUFFICIENT''}" using Cons by simp
  moreover have "MinimumControlsPerChangeClass \<le> s_FullControls a \<Longrightarrow> s_Upper95 a \<le> MaximumStratumFalseNegative"
    using Cons.prems by simp
  ultimately show ?case by (auto simp: not_less)
qed simp

lemma judged_reason:
  assumes "promotion_loop input (initial_loop input) rs = Inr st"
  shows "pr_Reason (judge_promotion (finish_counters input st)) \<noteq> ''STRATUM_UPPER_BOUND_EXCEEDED''"
proof (cases "pr_FalseNegatives (l_Report st) > 0")
  case True
  then show ?thesis by (simp add: judge_promotion_def)
next
  case False
  note cnt = promotion_loop_counts [OF assms]
  from False cnt(3) have "\<forall>r\<in>set (eligible_results input rs). \<not> v_FalseNegative r"
    by (simp add: filter_empty_conv)
  then have "l_Failures st c = 0" if "c \<in> set (pi_MandatoryChangeClasses input)" for c
    using cnt(5) [OF that] by (simp add: filter_empty_conv)
  then have "strata_loop (pr_Strata (finish_counters input st)) \<in> {None, Some ''STRATUM_CONTROLS_INSUFFICIENT''}"
    using stratum_bound by (intro strata_loop_bounded) (auto simp: finish_counters_def Let_def)
  then show ?thesis by (auto simp: judge_promotion_def)
qed

end
