(* ===== verification/Selection.thy ===== *)
theory Selection
  imports PromotionFacts
begin

text \<open>
  \<open>internal/buildimpact/selection.go\<close> and \<open>poc_candidate.go\<close>: the two boundaries at which a build
  may leave the customer's own entrypoints. \<open>canonicalBuildImpactDigest\<close> (SHA-256 over the JSON
  encoding) is the parameter \<open>digest\<close>. In \<open>PlanPOCCandidate\<close> the files of the repository are
  arguments too: what loading and decoding each of them returned. Phase timings are left out: they
  are diagnostic and never read by the planner.
\<close>

section \<open>PlanSelection\<close>

abbreviation SelectionPlanSchemaVersion :: string where
  "SelectionPlanSchemaVersion \<equiv> ''buildopt.build-impact/selection-plan/v1''"
abbreviation SelectionFullGraph :: string where "SelectionFullGraph \<equiv> ''FULL_GRAPH''"
abbreviation SelectionCustomerAlternative :: string where
  "SelectionCustomerAlternative \<equiv> ''CUSTOMER_ALTERNATIVE''"

record SelectionControls =
  sc_Enabled :: bool
  sc_KillSwitchActive :: bool
  sc_LocalBypass :: bool

record SelectionPlan =
  sp_SchemaVersion :: string
  sp_Mode :: string
  sp_Reason :: string
  sp_Entrypoints :: "string list"
  sp_AlternativeID :: string
  sp_AffectedProjects :: "string list"
  sp_OmittedProjects :: "string list"
  sp_PreservedTestCheckIDs :: "string list"
  sp_PromotionState :: string
  sp_SelectionAuthorized :: bool

type_synonym digest = "Manifest + DeclaredGraph \<Rightarrow> string"

definition validLoadedManifest :: "digest \<Rightarrow> LoadedManifest \<Rightarrow> bool" where
  "validLoadedManifest digest manifest =
     (if validateManifest (lm_Manifest manifest) (m_RepositoryID (lm_Manifest manifest))
           (m_PipelineClass (lm_Manifest manifest)) \<noteq> None then False
      else lm_Digest manifest = digest (Inl (lm_Manifest manifest)))"

definition validLoadedGraph :: "digest \<Rightarrow> LoadedManifest \<Rightarrow> LoadedGraph \<Rightarrow> bool" where
  "validLoadedGraph digest manifest graph =
     (if validateDeclaredGraph manifest (lg_Graph graph) \<noteq> None then False
      else lg_Digest graph = digest (Inr (lg_Graph graph)))"

definition promotion_bound :: "LoadedManifest \<Rightarrow> LoadedGraph \<Rightarrow> PromotionInput \<Rightarrow> bool" where
  "promotion_bound manifest graph promotion \<longleftrightarrow>
     pi_RepositoryID promotion = m_RepositoryID (lm_Manifest manifest) \<and>
     pi_PipelineClass promotion = m_PipelineClass (lm_Manifest manifest) \<and>
     pi_ManifestDigest promotion = lm_Digest manifest \<and>
     pi_GraphDigest promotion = lg_Digest graph \<and>
     pi_AdapterVersion promotion = g_AdapterVersion (lg_Graph graph)"

definition PlanSelection ::
    "digest \<Rightarrow> LoadedManifest \<Rightarrow> LoadedGraph \<Rightarrow> string list \<Rightarrow> PromotionInput \<Rightarrow> SelectionControls \<Rightarrow>
      SelectionPlan" where
  "PlanSelection digest manifest graph changedPaths promotion controls =
     (let plan = \<lparr>sp_SchemaVersion = SelectionPlanSchemaVersion, sp_Mode = SelectionFullGraph,
            sp_Reason = ''MANIFEST_INVALID'', sp_Entrypoints = [], sp_AlternativeID = [],
            sp_AffectedProjects = [], sp_OmittedProjects = [], sp_PreservedTestCheckIDs = [],
            sp_PromotionState = [], sp_SelectionAuthorized = False\<rparr> in
      if \<not> validLoadedManifest digest manifest then plan
      else let plan = plan\<lparr>sp_Entrypoints := m_OriginalEntrypoints (lm_Manifest manifest),
                 sp_PreservedTestCheckIDs := snd (manifestCheckIDs (lm_Manifest manifest))\<rparr> in
        if \<not> validLoadedGraph digest manifest graph then plan\<lparr>sp_Reason := ''GRAPH_INVALID''\<rparr>
        else if sc_LocalBypass controls then plan\<lparr>sp_Reason := ''LOCAL_BYPASS''\<rparr>
        else if sc_KillSwitchActive controls then plan\<lparr>sp_Reason := ''KILL_SWITCH_ACTIVE''\<rparr>
        else if \<not> sc_Enabled controls then plan\<lparr>sp_Reason := ''SELECTION_DISABLED''\<rparr>
        else if \<not> promotion_bound manifest graph promotion
        then plan\<lparr>sp_Reason := ''PROMOTION_BINDING_MISMATCH''\<rparr>
        else let report = EvaluatePromotion promotion;
                 plan = plan\<lparr>sp_PromotionState := pr_State report\<rparr> in
          if pr_State report \<noteq> PromotionQualified then plan\<lparr>sp_Reason := ''PROMOTION_'' @ pr_Reason report\<rparr>
          else let decision = EvaluateImpact manifest (lg_Graph graph) changedPaths;
                   plan = plan\<lparr>sp_AffectedProjects := d_AffectedProjects decision,
                     sp_OmittedProjects := d_OmittedProjects decision,
                     sp_PreservedTestCheckIDs := d_PreservedTestCheckIDs decision\<rparr> in
            if d_Mode decision \<noteq> DecisionShadowAlternative
            then plan\<lparr>sp_Reason := ''IMPACT_'' @ d_Reason decision\<rparr>
            else plan\<lparr>sp_Mode := SelectionCustomerAlternative, sp_Reason := ''PROMOTED_CUSTOMER_ALTERNATIVE'',
              sp_Entrypoints := d_PredictedEntrypoints decision,
              sp_AlternativeID := d_PredictedAlternativeID decision, sp_SelectionAuthorized := True\<rparr>)"

section \<open>PlanPOCCandidate\<close>

abbreviation POCCandidatePlanSchemaVersion :: string where
  "POCCandidatePlanSchemaVersion \<equiv> ''buildopt.build-impact/poc-candidate-plan/v1''"
abbreviation POCCandidateMode :: string where "POCCandidateMode \<equiv> ''POC_CANDIDATE''"
abbreviation GeneratedManifestSchemaVersion :: string where
  "GeneratedManifestSchemaVersion \<equiv> ''buildopt.build-impact/generated-manifest/v1''"

record GeneratedManifest =
  gm_SchemaVersion :: string
  gm_RepositoryID :: string
  gm_PipelineClass :: string
  gm_ManifestDigest :: string
  gm_GraphDigest :: string
  gm_DiscoveryDigest :: string
  gm_AdapterVersion :: string
  gm_GradleVersion :: string
  gm_Complete :: bool
  gm_FallbackReasons :: "string list"

record POCCandidatePlan =
  pc_SchemaVersion :: string
  pc_Mode :: string
  pc_Reason :: string
  pc_Entrypoints :: "string list"
  pc_AlternativeID :: string
  pc_AffectedProjects :: "string list"
  pc_OmittedProjects :: "string list"
  pc_PreservedTestCheckIDs :: "string list"
  pc_CandidateSelected :: bool
  pc_ProductionAuthorized :: bool

definition gradleVersionPattern :: "string \<Rightarrow> bool" where
  "gradleVersionPattern s = match_ident is_digit
     (\<lambda>c. is_alnum c \<or> c = CHR ''.'' \<or> c = CHR ''+'' \<or> c = CHR ''_'' \<or> c = CHR ''-'') (Some 63) s"

definition validateGeneratedManifestBinding ::
    "GeneratedManifest \<Rightarrow> LoadedManifest \<Rightarrow> LoadedGraph \<Rightarrow> error option" where
  "validateGeneratedManifestBinding generated manifest graph =
     reject_if (gm_SchemaVersion generated \<noteq> GeneratedManifestSchemaVersion \<or>
        gm_RepositoryID generated \<noteq> m_RepositoryID (lm_Manifest manifest) \<or>
        gm_PipelineClass generated \<noteq> m_PipelineClass (lm_Manifest manifest) \<or>
        gm_ManifestDigest generated \<noteq> lm_Digest manifest \<or>
        gm_GraphDigest generated \<noteq> lg_Digest graph \<or>
        gm_AdapterVersion generated \<noteq> g_AdapterVersion (lg_Graph graph) \<or>
        \<not> sha256Pattern (gm_DiscoveryDigest generated) \<or>
        \<not> gradleVersionPattern (gm_GradleVersion generated))
       ''generated Build Impact manifest binding is invalid''"

text \<open>The evaluation once every file is loaded.\<close>

definition plan_poc_loaded ::
    "POCCandidatePlan \<Rightarrow> LoadedManifest \<Rightarrow> LoadedGraph \<Rightarrow> GeneratedManifest \<Rightarrow> string list \<Rightarrow> POCCandidatePlan" where
  "plan_poc_loaded plan manifest graph generated changedPaths =
     (let decision = evaluatePOCImpact manifest (lg_Graph graph) changedPaths;
          plan = plan\<lparr>pc_Reason := ''IMPACT_'' @ d_Reason decision,
            pc_AffectedProjects := d_AffectedProjects decision,
            pc_OmittedProjects := d_OmittedProjects decision,
            pc_PreservedTestCheckIDs := d_PreservedTestCheckIDs decision\<rparr> in
      if \<not> gm_Complete generated \<or> length (gm_FallbackReasons generated) \<noteq> 0
      then (if d_Mode decision = DecisionShadowAlternative
            then plan\<lparr>pc_Reason := ''IMPACT_GENERATED_STATE_INCOMPLETE''\<rparr> else plan)
      else if d_Mode decision \<noteq> DecisionShadowAlternative then plan
      else plan\<lparr>pc_Mode := POCCandidateMode, pc_Reason := ''EXPLICIT_OWNER_POC_CANDIDATE'',
             pc_Entrypoints := d_PredictedEntrypoints decision,
             pc_AlternativeID := d_PredictedAlternativeID decision, pc_CandidateSelected := True\<rparr>)"

definition PlanPOCCandidate ::
    "LoadedManifest result \<Rightarrow> LoadedGraph result \<Rightarrow> GeneratedManifest result \<Rightarrow> string list \<Rightarrow> bool \<Rightarrow>
      POCCandidatePlan result" where
  "PlanPOCCandidate manifestFile graphFile generatedFile changedPaths localBypass =
     (case manifestFile of
        Inl err \<Rightarrow> Inl err
      | Inr manifest \<Rightarrow>
          let plan = \<lparr>pc_SchemaVersion = POCCandidatePlanSchemaVersion, pc_Mode = DecisionFullGraph,
                pc_Reason = ''GRAPH_INVALID'', pc_Entrypoints = m_OriginalEntrypoints (lm_Manifest manifest),
                pc_AlternativeID = [], pc_AffectedProjects = [], pc_OmittedProjects = [],
                pc_PreservedTestCheckIDs = snd (manifestCheckIDs (lm_Manifest manifest)),
                pc_CandidateSelected = False, pc_ProductionAuthorized = False\<rparr> in
          if localBypass then Inr (plan\<lparr>pc_Reason := ''LOCAL_BYPASS''\<rparr>)
          else case graphFile of
            Inl err \<Rightarrow> Inl err
          | Inr graph \<Rightarrow> (case generatedFile of
              Inl err \<Rightarrow> Inl err
            | Inr generated \<Rightarrow> (case validateGeneratedManifestBinding generated manifest graph of
                Some err \<Rightarrow> Inl err
              | None \<Rightarrow> Inr (plan_poc_loaded plan manifest graph generated changedPaths))))"

end
