(* ===== verification/ImpactProps.thy ===== *)
theory ImpactProps
  imports ImpactFacts
begin

text \<open>
  The properties of the manifest (\<open>internal/buildimpact/manifest.go\<close>) and of the impact decision
  (\<open>internal/buildimpact/graph.go\<close>), with a small repository on which their hypotheses hold.
\<close>

section \<open>Eligible alternatives\<close>

text \<open>What the loop over the alternatives looks for, as a predicate on one alternative.\<close>

definition eligible_alternative :: "Manifest \<Rightarrow> DeclaredGraph \<Rightarrow> string set \<Rightarrow> EntrypointSet \<Rightarrow> bool" where
  "eligible_alternative m g required a \<longleftrightarrow>
     set (es_Entrypoints a) \<subseteq> ep_Name ` set (g_Entrypoints g) \<and>
     (\<forall>e\<in>named g (es_Entrypoints a). ep_Owner e = BuildOptimization \<and> \<not> ep_ContainsTestTasks e) \<and>
     required \<subseteq> provides ep_ReachesProjects g (es_Entrypoints a) \<and>
     manifestArtifactIDs m \<subseteq> provides ep_ArtifactIDs g (es_Entrypoints a) \<and>
     fst (manifestCheckIDs m) \<subseteq> provides ep_CheckIDs g (es_Entrypoints a)"

lemma alternative_coverage_exists:
  "(\<forall>n\<in>set names. \<exists>e. byName n = Some e \<and> ep_Owner e = BuildOptimization \<and> \<not> ep_ContainsTestTasks e) \<Longrightarrow>
     \<exists>cov'. alternative_coverage byName cov names = Some cov'"
  by (induction names arbitrary: cov) auto

lemma impact_candidates_complete:
  assumes "distinct (map ep_Name (g_Entrypoints g))" "a \<in> set alts" "eligible_alternative m g required a"
  shows "(a, provides ep_ReachesProjects g (es_Entrypoints a))
     \<in> set (impact_candidates g required (manifestArtifactIDs m) (fst (manifestCheckIDs m)) alts)"
proof -
  let ?bm = "built_map ep_Name (g_Entrypoints g)"
  let ?init = "\<lparr>cov_Projects = {}, cov_Artifacts = {}, cov_Checks = {}\<rparr>"
  have all: "\<forall>n\<in>set (es_Entrypoints a). \<exists>e. ?bm n = Some e \<and> ep_Owner e = BuildOptimization \<and> \<not> ep_ContainsTestTasks e"
  proof
    fix n assume n: "n \<in> set (es_Entrypoints a)"
    with assms(3) obtain e where e: "e \<in> set (g_Entrypoints g)" "ep_Name e = n"
      by (auto simp: eligible_alternative_def)
    with n have "e \<in> named g (es_Entrypoints a)" by (simp add: named_def)
    with e assms(3) built_map_distinct [OF assms(1), of n e]
    show "\<exists>e. ?bm n = Some e \<and> ep_Owner e = BuildOptimization \<and> \<not> ep_ContainsTestTasks e"
      by (auto simp: eligible_alternative_def)
  qed
  then obtain cov where cov: "alternative_coverage ?bm ?init (es_Entrypoints a) = Some cov"
    using alternative_coverage_exists by blast
  note ac = alternative_coverage_Some [OF cov]
  from all have "\<forall>n\<in>set (es_Entrypoints a). \<exists>e. ?bm n = Some e" by blast
  note pb = provides_built_map [OF assms(1) this]
  have "cov_Projects cov = provides ep_ReachesProjects g (es_Entrypoints a)"
    "cov_Artifacts cov = provides ep_ArtifactIDs g (es_Entrypoints a)"
    "cov_Checks cov = provides ep_CheckIDs g (es_Entrypoints a)"
    using ac pb [of ep_ReachesProjects] pb [of ep_ArtifactIDs] pb [of ep_CheckIDs] by simp_all
  with cov assms(2,3) show ?thesis
    by (auto simp: impact_candidates_def containsAll_def eligible_alternative_def intro!: bexI [of _ a])
qed

lemma impact_candidates_eligible:
  assumes "(a, covered) \<in> set (impact_candidates g required (manifestArtifactIDs m) (fst (manifestCheckIDs m)) alts)"
    and "distinct (map ep_Name (g_Entrypoints g))"
  shows "eligible_alternative m g required a"
  using impact_candidates_mem [OF assms] unfolding eligible_alternative_def by blast

text \<open>The conditions under which the alternatives are considered at all.\<close>

definition usable_change :: "LoadedManifest \<Rightarrow> DeclaredGraph \<Rightarrow> string list \<Rightarrow> bool" where
  "usable_change lm g paths \<longleftrightarrow>
     validateDeclaredGraph lm g = None \<and> g_Complete g \<and>
     (\<forall>p\<in>set (g_Projects g). \<not> p_UnknownRelationships p) \<and>
     (\<forall>e\<in>set (g_Entrypoints g). \<not> ep_UnknownRelationships e) \<and> paths \<noteq> [] \<and>
     (\<forall>c\<in>set paths. validRepositoryPath c \<and>
        \<not> matchesAnyGlob (appendGlobalPaths (m_GlobalChangePaths (lm_Manifest lm)) (g_GlobalChangePaths g)) c \<and>
        owners_of g [c] \<noteq> {})"

lemma changes_loop_closure_Inr:
  "(\<forall>c\<in>set paths. validRepositoryPath c \<and>
      \<not> matchesAnyGlob (appendGlobalPaths (m_GlobalChangePaths m) (g_GlobalChangePaths g)) c \<and>
      matchingChangedProjects (g_Projects g) c False False \<noteq> {}) \<Longrightarrow>
   \<exists>r. changes_loop m g True ch sd paths = Inr r"
  by (induction paths arbitrary: ch sd) (auto simp: Let_def)

lemma owners_of_single: "owners_of g [c] = matchingChangedProjects (g_Projects g) c False False"
  by (auto simp: owners_of_def matchingChangedProjects_all)

lemma evaluateImpact_full_mode:
  assumes "evaluateImpact lm g paths cl = (fullGraphDecision (lm_Manifest lm) reason)\<lparr>d_AffectedProjects := affected\<rparr>"
  shows "d_Mode (evaluateImpact lm g paths cl) = DecisionFullGraph"
  using assms by (simp add: fullGraphDecision_def)

lemma usable_shadow:
  assumes "usable_change lm g paths" "a \<in> set (m_AllowedAlternatives (lm_Manifest lm))"
    and "eligible_alternative (lm_Manifest lm) g (affected_by g paths) a"
  shows "d_Mode (evaluateImpact lm g paths True) = DecisionShadowAlternative"
proof -
  let ?m = "lm_Manifest lm"
  from assms(1) have v: "validateDeclaredGraph lm g = None" by (simp add: usable_change_def)
  have "\<forall>c\<in>set paths. validRepositoryPath c \<and>
      \<not> matchesAnyGlob (appendGlobalPaths (m_GlobalChangePaths ?m) (g_GlobalChangePaths g)) c \<and>
      matchingChangedProjects (g_Projects g) c False False \<noteq> {}"
    using assms(1) unfolding usable_change_def owners_of_single by blast
  from changes_loop_closure_Inr [OF this] obtain cs where "changes_loop ?m g True {} {} paths = Inr cs" by blast
  then obtain ch sd where cl: "changes_loop ?m g True {} {} paths = Inr (ch, sd)" by (cases cs) auto
  then have sd: "sd = owners_of g paths" by (metis changes_loop_Inr seeds_owners sup_bot_left)
  let ?cands = "impact_candidates g (affected_by g paths) (manifestArtifactIDs ?m) (fst (manifestCheckIDs ?m))
     (m_AllowedAlternatives ?m)"
  have "?cands \<noteq> []"
    using impact_candidates_complete [OF validated_graph(2) [OF v] assms(2,3)] by auto
  then have "sort_key candidate_order ?cands \<noteq> []" by (metis length_0_conv length_sort)
  moreover have "\<not> list_ex p_UnknownRelationships (g_Projects g)"
    "\<not> list_ex ep_UnknownRelationships (g_Entrypoints g)" "g_Complete g" "paths \<noteq> []"
    using assms(1) by (auto simp: usable_change_def list_ex_iff)
  ultimately show ?thesis
    using v cl sd by (simp add: evaluateImpact_def Let_def closure_affected split: list.split)
qed

lemma shadow_usable:
  assumes "d_Mode (evaluateImpact lm g paths True) = DecisionShadowAlternative"
  shows "usable_change lm g paths"
proof (cases rule: evaluateImpact_cases [of lm g paths True])
  case (full reason affected)
  with assms show ?thesis by (simp add: fullGraphDecision_def)
next
  case (shadow changed a covered)
  from changes_loop_Inr [OF shadow(6)] shadow(1-5) show ?thesis
    by (simp add: usable_change_def owners_of_single list_ex_iff)
qed

lemmas impact_shadow_closure = impact_shadow [of _ _ _ True, unfolded if_True]

text \<open>Without the closure requirement only the most specific owners have to be covered.\<close>

definition direct_owners :: "DeclaredGraph \<Rightarrow> string list \<Rightarrow> string set" where
  "direct_owners g paths = (\<Union>c\<in>set paths. p_Path ` best_owners True c (set (g_Projects g)))"

lemma shadow_predicts_eligible:
  assumes "d_Mode (evaluateImpact lm g paths cl) = DecisionShadowAlternative"
  shows "\<exists>a\<in>set (m_AllowedAlternatives (lm_Manifest lm)).
      d_PredictedAlternativeID (evaluateImpact lm g paths cl) = es_ID a \<and>
      d_PredictedEntrypoints (evaluateImpact lm g paths cl) = es_Entrypoints a \<and>
      eligible_alternative (lm_Manifest lm) g (if cl then affected_by g paths else direct_owners g paths) a"
proof -
  from assms obtain changed a covered where v: "validateDeclaredGraph lm g = None"
    and ch: "changes_loop (lm_Manifest lm) g cl {} {} paths = Inr (changed, owners_of g paths)"
    and mem: "(a, covered) \<in> set (impact_candidates g (if cl then affected_by g paths else changed)
        (manifestArtifactIDs (lm_Manifest lm)) (fst (manifestCheckIDs (lm_Manifest lm)))
        (m_AllowedAlternatives (lm_Manifest lm)))"
    and fields: "d_PredictedAlternativeID (evaluateImpact lm g paths cl) = es_ID a"
      "d_PredictedEntrypoints (evaluateImpact lm g paths cl) = es_Entrypoints a"
    by (rule impact_shadow) blast
  have "changed = direct_owners g paths" if "\<not> cl"
    using changes_loop_Inr [OF ch] that by (simp add: matchingChangedProjects_best direct_owners_def)
  then have "(if cl then affected_by g paths else changed) = (if cl then affected_by g paths else direct_owners g paths)"
    by simp
  with impact_candidates_eligible [OF mem validated_graph(2) [OF v]]
    impact_candidates_mem(1) [OF mem validated_graph(2) [OF v]] fields show ?thesis by auto
qed

section \<open>A repository\<close>

text \<open>Three projects, \<open>:lib\<close> on top of \<open>:core\<close> and an independent \<open>:docs\<close>; the alternative
  builds the library only.\<close>

definition ex_digest :: string where
  "ex_digest = ''sha256:'' @ replicate 64 (CHR ''0'')"

definition ex_manifest :: LoadedManifest where
  "ex_manifest = \<lparr>lm_Manifest =
     \<lparr>m_SchemaVersion = ManifestSchemaVersion, m_ManifestVersion = 1,
      m_RepositoryID = ''acme/app'', m_PipelineClass = ''ci'', m_Ownership = RepositoryOwnership,
      m_OriginalEntrypoints = [''build''],
      m_AllowedAlternatives = [\<lparr>es_ID = ''lib'', es_Entrypoints = ['':lib:jar'']\<rparr>],
      m_RequiredArtifacts = [\<lparr>a_ID = ''jar'', a_Path = ''lib/out/*.jar'', a_Owner = BuildOptimization\<rparr>],
      m_RequiredChecks = Some [],
      m_GlobalChangePaths = [''ci/**''], m_UnknownChangePolicy = FullGraphPolicy\<rparr>,
     lm_Digest = ex_digest\<rparr>"

definition ex_graph :: DeclaredGraph where
  "ex_graph = \<lparr>g_SchemaVersion = DeclaredGraphSchemaVersion, g_RepositoryID = ''acme/app'',
     g_PipelineClass = ''ci'', g_ManifestDigest = ex_digest, g_AdapterVersion = ''v1'', g_Complete = True,
     g_Projects =
       [\<lparr>p_Path = '':lib'', p_SourcePaths = [''lib/**''], p_OwnedSourcePaths = [],
         p_DependsOn = ['':core''], p_UnknownRelationships = False\<rparr>,
        \<lparr>p_Path = '':core'', p_SourcePaths = [''core/**''], p_OwnedSourcePaths = [],
         p_DependsOn = [], p_UnknownRelationships = False\<rparr>,
        \<lparr>p_Path = '':docs'', p_SourcePaths = [''docs/**''], p_OwnedSourcePaths = [],
         p_DependsOn = [], p_UnknownRelationships = False\<rparr>],
     g_Entrypoints =
       [\<lparr>ep_Name = ''build'', ep_Owner = BuildOptimization,
         ep_ReachesProjects = ['':lib'', '':core'', '':docs''], ep_ArtifactIDs = [''jar''],
         ep_CheckIDs = [], ep_ContainsTestTasks = False, ep_UnknownRelationships = False\<rparr>,
        \<lparr>ep_Name = '':lib:jar'', ep_Owner = BuildOptimization,
         ep_ReachesProjects = ['':lib'', '':core''], ep_ArtifactIDs = [''jar''],
         ep_CheckIDs = [], ep_ContainsTestTasks = False, ep_UnknownRelationships = False\<rparr>],
     g_GlobalChangePaths = []\<rparr>"

lemma ex_shadow:
  "d_Mode (EvaluateImpact ex_manifest ex_graph [''core/src/A.java'']) = DecisionShadowAlternative"
  by code_simp

lemma ex_manifest_valid: "validateManifest (lm_Manifest ex_manifest) ''acme/app'' ''ci'' = None"
  by code_simp

section \<open>Properties of the decision\<close>

text \<open>(C12) A decision of \<open>EvaluateImpact\<close> in shadow mode is safe: it names one of the manifest's
  alternatives, whose entrypoints reach every project that owns a changed path and everything that
  transitively depends on one, produce every required artifact and run every build-owned check,
  are owned by build optimization and contain no test task; the projects reported as omitted are
  disjoint from the affected ones.\<close>

theorem shadow_alternative_covers:
  assumes "d_Mode (EvaluateImpact lm g paths) = DecisionShadowAlternative"
  shows "(\<exists>a\<in>set (m_AllowedAlternatives (lm_Manifest lm)).
      d_PredictedAlternativeID (EvaluateImpact lm g paths) = es_ID a \<and>
      d_PredictedEntrypoints (EvaluateImpact lm g paths) = es_Entrypoints a \<and>
      affected_by g paths \<subseteq> provides ep_ReachesProjects g (es_Entrypoints a) \<and>
      manifestArtifactIDs (lm_Manifest lm) \<subseteq> provides ep_ArtifactIDs g (es_Entrypoints a) \<and>
      fst (manifestCheckIDs (lm_Manifest lm)) \<subseteq> provides ep_CheckIDs g (es_Entrypoints a) \<and>
      (\<forall>e\<in>named g (es_Entrypoints a). ep_Owner e = BuildOptimization \<and> \<not> ep_ContainsTestTasks e)) \<and>
    set (d_AffectedProjects (EvaluateImpact lm g paths)) = affected_by g paths \<and>
    set (d_OmittedProjects (EvaluateImpact lm g paths)) \<inter> affected_by g paths = {}"
proof -
  from assms have shadow: "d_Mode (evaluateImpact lm g paths True) = DecisionShadowAlternative"
    by (simp add: EvaluateImpact_def)
  then obtain a covered where v: "validateDeclaredGraph lm g = None"
    and mem: "(a, covered) \<in> set (impact_candidates g (affected_by g paths) (manifestArtifactIDs (lm_Manifest lm))
        (fst (manifestCheckIDs (lm_Manifest lm))) (m_AllowedAlternatives (lm_Manifest lm)))"
    and fields: "d_PredictedAlternativeID (EvaluateImpact lm g paths) = es_ID a"
      "d_PredictedEntrypoints (EvaluateImpact lm g paths) = es_Entrypoints a"
      "d_AffectedProjects (EvaluateImpact lm g paths) = sortedKeys (affected_by g paths)"
      "d_OmittedProjects (EvaluateImpact lm g paths) = sortedKeys (set (map p_Path (g_Projects g)) - covered)"
    unfolding EvaluateImpact_def by (rule impact_shadow_closure) blast
  note cand = impact_candidates_mem [OF mem validated_graph(2) [OF v]]
  then have "set (d_OmittedProjects (EvaluateImpact lm g paths)) \<inter> affected_by g paths = {}"
    using fields by auto
  then show ?thesis using cand fields by (intro conjI bexI [of _ a]) auto
qed

theorem shadow_alternative_covers_witness:
  "set (d_AffectedProjects (EvaluateImpact ex_manifest ex_graph [''core/src/A.java''])) =
     affected_by ex_graph [''core/src/A.java'']"
  using shadow_alternative_covers [OF ex_shadow] by blast

text \<open>\<open>EvaluateImpact\<close> predicts an alternative exactly when the graph and the changed paths
  are usable and some alternative of the manifest is eligible for the affected projects, and then
  the predicted one is least by number of entrypoints and identifier among the eligible ones.\<close>

theorem shadow_iff_eligible:
  "d_Mode (EvaluateImpact lm g paths) = DecisionShadowAlternative \<longleftrightarrow>
     usable_change lm g paths \<and>
     (\<exists>a\<in>set (m_AllowedAlternatives (lm_Manifest lm)).
        eligible_alternative (lm_Manifest lm) g (affected_by g paths) a)"
proof
  assume "d_Mode (EvaluateImpact lm g paths) = DecisionShadowAlternative"
  then have s: "d_Mode (evaluateImpact lm g paths True) = DecisionShadowAlternative" by (simp add: EvaluateImpact_def)
  then obtain a covered where v: "validateDeclaredGraph lm g = None"
    and mem: "(a, covered) \<in> set (impact_candidates g (affected_by g paths) (manifestArtifactIDs (lm_Manifest lm))
        (fst (manifestCheckIDs (lm_Manifest lm))) (m_AllowedAlternatives (lm_Manifest lm)))"
    by (rule impact_shadow_closure) blast
  from impact_candidates_eligible [OF mem validated_graph(2) [OF v]]
    impact_candidates_mem(1) [OF mem validated_graph(2) [OF v]] shadow_usable [OF s]
  show "usable_change lm g paths \<and> (\<exists>a\<in>set (m_AllowedAlternatives (lm_Manifest lm)).
      eligible_alternative (lm_Manifest lm) g (affected_by g paths) a)" by blast
qed (auto simp: EvaluateImpact_def intro: usable_shadow)

text \<open>Among the eligible alternatives of a shadow decision the predicted one is least by
  (number of entrypoints, identifier): the choice does not depend on the order of the manifest.\<close>

theorem shadow_alternative_least:
  assumes "d_Mode (EvaluateImpact lm g paths) = DecisionShadowAlternative"
    and "b \<in> set (m_AllowedAlternatives (lm_Manifest lm))"
    and "eligible_alternative (lm_Manifest lm) g (affected_by g paths) b"
  shows "(length (d_PredictedEntrypoints (EvaluateImpact lm g paths)),
          d_PredictedAlternativeID (EvaluateImpact lm g paths)) \<le> (length (es_Entrypoints b), es_ID b)"
proof -
  from assms(1) have "d_Mode (evaluateImpact lm g paths True) = DecisionShadowAlternative"
    by (simp add: EvaluateImpact_def)
  then obtain a covered where v: "validateDeclaredGraph lm g = None"
    and hd: "(a, covered) = hd (sort_key candidate_order (impact_candidates g (affected_by g paths)
        (manifestArtifactIDs (lm_Manifest lm)) (fst (manifestCheckIDs (lm_Manifest lm)))
        (m_AllowedAlternatives (lm_Manifest lm))))"
    and fields: "d_PredictedAlternativeID (EvaluateImpact lm g paths) = es_ID a"
      "d_PredictedEntrypoints (EvaluateImpact lm g paths) = es_Entrypoints a"
    unfolding EvaluateImpact_def by (rule impact_shadow_closure) blast
  from hd_sort_key_least [OF hd impact_candidates_complete [OF validated_graph(2) [OF v] assms(2,3)]]
  show ?thesis by (simp add: fields candidate_order_def)
qed

theorem shadow_alternative_least_witness:
  "(length (d_PredictedEntrypoints (EvaluateImpact ex_manifest ex_graph [''core/src/A.java''])),
    d_PredictedAlternativeID (EvaluateImpact ex_manifest ex_graph [''core/src/A.java''])) \<le> (1, ''lib'')"
proof -
  let ?a = "\<lparr>es_ID = ''lib'', es_Entrypoints = ['':lib:jar'']\<rparr>"
  have mem: "?a \<in> set (m_AllowedAlternatives (lm_Manifest ex_manifest))" by (simp add: ex_manifest_def)
  have "reverseDependencyClosure (map (\<lambda>p. (p_Path p, p)) (g_Projects ex_graph)) (owners_of ex_graph [''core/src/A.java''])
      = {'':core'', '':lib''}" by code_simp
  then have aff: "affected_by ex_graph [''core/src/A.java''] = {'':core'', '':lib''}"
    unfolding closure_affected .
  have el: "eligible_alternative (lm_Manifest ex_manifest) ex_graph (affected_by ex_graph [''core/src/A.java'']) ?a"
    unfolding aff by code_simp
  show ?thesis using shadow_alternative_least [OF ex_shadow mem el] by simp
qed

text \<open>Whatever the graph and the changed paths, an impact decision never authorizes a
  selection, always executes the original entrypoints of the customer, always preserves the test
  checks, and outside shadow mode also predicts the original entrypoints and omits nothing.\<close>

lemma impact_never_authorizes:
  "d_SelectionAuthorized (evaluateImpact lm g paths cl) = False \<and>
   d_ExecutableEntrypoints (evaluateImpact lm g paths cl) = m_OriginalEntrypoints (lm_Manifest lm) \<and>
   set (d_PreservedTestCheckIDs (evaluateImpact lm g paths cl)) =
     c_ID ` {c \<in> set (checks_of (lm_Manifest lm)). c_Owner c = TestOptimization} \<and>
   (d_Mode (evaluateImpact lm g paths cl) = DecisionShadowAlternative \<or>
    d_Mode (evaluateImpact lm g paths cl) = DecisionFullGraph \<and>
    d_PredictedEntrypoints (evaluateImpact lm g paths cl) = m_OriginalEntrypoints (lm_Manifest lm) \<and>
    d_PredictedAlternativeID (evaluateImpact lm g paths cl) = [] \<and>
    d_OmittedProjects (evaluateImpact lm g paths cl) = [])"
  by (cases rule: evaluateImpact_cases [of lm g paths cl];
      auto simp: fullGraphDecision_def manifestCheckIDs_def)

text \<open>A change to the build logic (a \<open>settings.gradle\<close> or \<open>build.gradle\<close> file in any
  directory, or anything below \<open>buildSrc\<close>, \<open>build-logic\<close> or \<open>gradle\<close>) always falls back to the full
  graph, in both modes and whatever globs the manifest and the graph declare.\<close>

theorem build_logic_change_full_graph:
  assumes "c \<in> set paths" "build_logic_path c"
  shows "d_Mode (evaluateImpact lm g paths cl) = DecisionFullGraph"
proof (cases rule: evaluateImpact_cases [of lm g paths cl])
  case (full reason affected)
  then show ?thesis by (simp add: fullGraphDecision_def)
next
  case (shadow changed a covered)
  with changes_loop_Inr [OF shadow(6)] assms build_logic_global show ?thesis by blast
qed

theorem build_logic_change_full_graph_witness:
  "d_Mode (evaluateImpact ex_manifest ex_graph [''core/build.gradle''] True) = DecisionFullGraph"
proof -
  have "build_logic_path ''core/build.gradle''" by code_simp
  then show ?thesis by (intro build_logic_change_full_graph) simp_all
qed

section \<open>Properties of the graph operations\<close>

text \<open>Repository globs mean what they say: a pattern matches a path exactly when the segments
  are matched one to one by \<open>path.Match\<close>, with \<open>**\<close> standing for any number of segments.\<close>

theorem matchRepositoryGlob_spec:
  "matchRepositoryGlob pattern candidate \<longleftrightarrow>
     glob_spec (split_on (CHR ''/'') pattern) (split_on (CHR ''/'') candidate)"
  by (simp add: matchRepositoryGlob_def glob_match_spec)

text \<open>On projects with different paths the depth-first search reports a cycle exactly when some
  project transitively depends on itself; it never runs out of the fuel that stands for the stack.\<close>

theorem hasDependencyCycle_correct:
  assumes "distinct (map p_Path ps)"
  shows "hasDependencyCycle ps \<longleftrightarrow>
     (\<exists>q. (q, q) \<in> {(p_Path q, d) | q d. q \<in> set ps \<and> d \<in> set (p_DependsOn q)}\<^sup>+)"
  by (simp add: hasDependencyCycle_iff dependency_graph_edges [OF assms])

theorem hasDependencyCycle_correct_witness:
  "\<exists>q. (q, q) \<in> {(p_Path q, d) | q d. q \<in> set ([\<lparr>p_Path = '':a'', p_SourcePaths = [], p_OwnedSourcePaths = [],
       p_DependsOn = ['':b''], p_UnknownRelationships = False\<rparr>, \<lparr>p_Path = '':b'', p_SourcePaths = [],
       p_OwnedSourcePaths = [], p_DependsOn = ['':a''], p_UnknownRelationships = False\<rparr>] :: Project list) \<and>
       d \<in> set (p_DependsOn q)}\<^sup>+"
proof -
  let ?ps = "[\<lparr>p_Path = '':a'', p_SourcePaths = [], p_OwnedSourcePaths = [],
       p_DependsOn = ['':b''], p_UnknownRelationships = False\<rparr>, \<lparr>p_Path = '':b'', p_SourcePaths = [],
       p_OwnedSourcePaths = [], p_DependsOn = ['':a''], p_UnknownRelationships = False\<rparr>] :: Project list"
  have "hasDependencyCycle ?ps" by code_simp
  moreover have "distinct (map p_Path ?ps)" by simp
  ultimately show ?thesis using hasDependencyCycle_correct [of ?ps] by blast
qed

text \<open>(C39) The repeated passes over the project map end and compute the set of projects that
  reach a changed one along dependencies, whatever order the map is iterated in.\<close>

theorem reverseDependencyClosure_correct:
  "reverseDependencyClosure entries R =
     {q. \<exists>p\<in>R. (q, p) \<in> {(q, p). \<exists>proj. (q, proj) \<in> set entries \<and> p \<in> set (p_DependsOn proj)}\<^sup>*}"
  unfolding reverseDependencyClosure_eq depends_on_def by (rule refl)

text \<open>The owners kept by the most-specific rule are exactly the projects with a matching source
  glob whose specificity is greatest among all projects; without the rule every owner is kept.\<close>

lemma matchingChangedProjects_correct:
  "matchingChangedProjects ps c mostSpecific owned =
     p_Path ` {p \<in> set ps. owns_path owned c p \<and>
       (mostSpecific \<longrightarrow> (\<forall>q\<in>set ps. project_specificity owned c q \<le> project_specificity owned c p))}"
  by (cases mostSpecific) (simp_all add: matchingChangedProjects_all matchingChangedProjects_best best_owners_def)

lemma matchingChangedProjects_correct_witness:
  "matchingChangedProjects (g_Projects ex_graph) ''core/src/A.java'' True False = {'':core''}"
  unfolding matchingChangedProjects_correct by code_simp

section \<open>Properties of the manifest\<close>

text \<open>In an accepted manifest every alternative has its own identifier, is a set of entrypoints
  different from the original one and from every other alternative, however the tasks are ordered,
  and artifact and check identifiers are pairwise different.\<close>

lemma validateManifest_alternatives_differ:
  assumes "validateManifest m r p = None"
  shows "distinct (map es_ID (m_AllowedAlternatives m)) \<and>
    (\<forall>a\<in>set (m_AllowedAlternatives m). set (es_Entrypoints a) \<noteq> set (m_OriginalEntrypoints m)) \<and>
    distinct (map (set \<circ> es_Entrypoints) (m_AllowedAlternatives m)) \<and>
    distinct (map a_ID (m_RequiredArtifacts m) @ map c_ID (checks_of m))"
proof (intro conjI)
  note va = validateManifest_alternatives [OF assms]
  note al = alternatives_loop_None [OF va(1)]
  then have ok: "validateEntrypoints (es_Entrypoints a) = None" if "a \<in> set (m_AllowedAlternatives m)" for a
    using that by (simp add: list_all_iff)
  show "distinct (map es_ID (m_AllowedAlternatives m))" using al by simp
  show "\<forall>a\<in>set (m_AllowedAlternatives m). set (es_Entrypoints a) \<noteq> set (m_OriginalEntrypoints m)"
    using al setKey_eq_iff [OF ok va(2)] by (auto simp: list_all_iff)
  have inj: "inj_on (\<lambda>a. setKey (es_Entrypoints a)) (set (m_AllowedAlternatives m))" "distinct (m_AllowedAlternatives m)"
    using al by (simp_all add: distinct_map comp_def)
  then show "distinct (map (set \<circ> es_Entrypoints) (m_AllowedAlternatives m))"
    using setKey_eq_iff [OF ok ok] by (auto simp: distinct_map inj_on_def)
  from assms obtain ids where "artifacts_loop {} {} (m_RequiredArtifacts m) = Inr ids" "checks_loop ids (checks_of m) = None"
    by (rule validateManifest_artifacts)
  with artifacts_loop_Inr [OF this(1)] checks_loop_None [OF this(2)]
  show "distinct (map a_ID (m_RequiredArtifacts m) @ map c_ID (checks_of m))" by auto
qed

lemma validateManifest_alternatives_differ_witness:
  "distinct (map (set \<circ> es_Entrypoints) (m_AllowedAlternatives (lm_Manifest ex_manifest)))"
  using validateManifest_alternatives_differ [OF ex_manifest_valid] by blast

end
