(* ===== verification/ValidationFacts.thy ===== *)
theory ValidationFacts
  imports Promotion ImpactProps
begin

text \<open>
  What \<open>EvaluateValidation\<close> establishes: the shape of every result, and that a passed control really
  compared the same artifacts and checks.
\<close>

section \<open>Successful runs\<close>

lemma run_artifacts_ok_distinct:
  "run_artifacts_ok seen as \<Longrightarrow> distinct (map oa_ID as) \<and> set (map oa_ID as) \<inter> seen = {}"
  by (induction seen as rule: run_artifacts_ok.induct) (auto split: if_splits)

lemma run_checks_ok_distinct:
  "run_checks_ok seen cs \<Longrightarrow> distinct (map oc_ID cs) \<and> set (map oc_ID cs) \<inter> seen = {}"
  by (induction seen cs rule: run_checks_ok.induct) (auto split: if_splits)

lemma built_map_None: "built_map key xs k = None \<longleftrightarrow> k \<notin> key ` set xs"
  by (simp add: built_map_def map_of_eq_None_iff image_image)

lemma built_map_Some: "built_map key xs k = Some x \<Longrightarrow> x \<in> set xs \<and> key x = k"
  unfolding built_map_def by (auto dest!: map_of_SomeD)

lemma equalSet_iff: "finite left \<Longrightarrow> equalSet left right \<longleftrightarrow> left = right"
  unfolding equalSet_def containsAll_def by (metis card_subset_eq order_refl)

lemma finite_alternativeReach [simp]: "finite (alternativeReach g names)"
  by (simp add: alternativeReach_def)

lemma same_ids:
  assumes "distinct (map k xs)" "length xs = card (set ids)" "\<And>x. x \<in> set xs \<Longrightarrow> k x \<in> set ids"
  shows "k ` set xs = set ids"
proof (rule card_subset_eq)
  show "k ` set xs \<subseteq> set ids" using assms(3) by auto
  show "card (k ` set xs) = card (set ids)" using assms(1,2) distinct_card [of "map k xs"] by simp
qed simp

lemma validateSuccessfulRun_ok:
  assumes "validateSuccessfulRun m run expected = []"
    and "run_artifacts_ok {} (r_Artifacts run)" "run_checks_ok {} (r_Checks run)"
  shows "set (r_Projects run) = expected"
    and "oa_ID ` set (r_Artifacts run) = set (map a_ID (m_RequiredArtifacts m))"
    and "oc_ID ` set (r_Checks run) = set (map c_ID (checks_of m))"
    and "\<And>c. c \<in> set (r_Checks run) \<Longrightarrow> oc_Outcome c = ''PASSED''"
proof -
  from assms(1) have p: "equalSet (set (r_Projects run)) expected"
    and la: "length (r_Artifacts run) = card (set (map a_ID (m_RequiredArtifacts m)))"
    and ea: "\<not> list_ex (\<lambda>observed. case built_map a_ID (m_RequiredArtifacts m) (oa_ID observed) of
               None \<Rightarrow> True
             | Some expected \<Rightarrow> \<not> matchRepositoryGlob (a_Path expected) (oa_Path observed)) (r_Artifacts run)"
    and lc: "length (r_Checks run) = card (set (map c_ID (checks_of m)))"
    and ec: "\<not> list_ex (\<lambda>observed. case built_map c_ID (checks_of m) (oc_ID observed) of
                 None \<Rightarrow> True
               | Some expected \<Rightarrow> oc_Owner observed \<noteq> c_Owner expected \<or> oc_Outcome observed \<noteq> ''PASSED'')
               (r_Checks run)"
    unfolding validateSuccessfulRun_def Let_def by (simp_all split: if_splits)
  show "set (r_Projects run) = expected" using p equalSet_iff by blast
  show "oa_ID ` set (r_Artifacts run) = set (map a_ID (m_RequiredArtifacts m))"
  proof (rule same_ids [OF _ la])
    fix x assume "x \<in> set (r_Artifacts run)"
    then have "built_map a_ID (m_RequiredArtifacts m) (oa_ID x) \<noteq> None"
      using ea by (auto simp: list_ex_iff split: option.splits)
    then show "oa_ID x \<in> set (map a_ID (m_RequiredArtifacts m))" by (simp add: built_map_None)
  qed (use run_artifacts_ok_distinct [OF assms(2)] in simp)
  show "oc_ID ` set (r_Checks run) = set (map c_ID (checks_of m))"
  proof (rule same_ids [OF _ lc])
    fix x assume "x \<in> set (r_Checks run)"
    then have "built_map c_ID (checks_of m) (oc_ID x) \<noteq> None"
      using ec by (auto simp: list_ex_iff split: option.splits)
    then show "oc_ID x \<in> set (map c_ID (checks_of m))" by (simp add: built_map_None)
  qed (use run_checks_ok_distinct [OF assms(3)] in simp)
  show "oc_Outcome c = ''PASSED''" if "c \<in> set (r_Checks run)" for c
    using ec that by (auto simp: list_ex_iff split: option.splits)
qed

text \<open>Two duplicate-free lists with the same keys, one contained in the other, have the same members.\<close>

lemma same_members:
  assumes "distinct (map k ys)" "k ` set xs = k ` set ys" "set xs \<subseteq> set ys"
  shows "set xs = set ys"
proof
  show "set ys \<subseteq> set xs"
  proof
    fix y assume y: "y \<in> set ys"
    then obtain x where x: "x \<in> set xs" "k x = k y" using assms(2) by (metis imageE imageI)
    with y assms(1,3) have "x = y" by (metis distinct_map inj_onD subsetD)
    with x show "y \<in> set xs" by simp
  qed
qed (rule assms(3))

lemma compareRuns_ok:
  assumes "compareRuns b c = []"
    and "run_artifacts_ok {} (r_Artifacts b)" "run_checks_ok {} (r_Checks b)"
    and "oa_ID ` set (r_Artifacts c) = oa_ID ` set (r_Artifacts b)"
    and "oc_ID ` set (r_Checks c) = oc_ID ` set (r_Checks b)"
  shows "set (r_Artifacts c) = set (r_Artifacts b)" "set (r_Checks c) = set (r_Checks b)"
proof -
  from assms(1) have a: "\<And>x. x \<in> set (r_Artifacts c) \<Longrightarrow>
        let y = lookup_zero zero_artifact (built_map oa_ID (r_Artifacts b)) (oa_ID x) in
        oa_Path x = oa_Path y \<and> oa_Digest x = oa_Digest y \<and> oa_SizeBytes x = oa_SizeBytes y"
    and k: "\<And>x. x \<in> set (r_Checks c) \<Longrightarrow>
        let y = lookup_zero zero_check (built_map oc_ID (r_Checks b)) (oc_ID x) in
        oc_Owner x = oc_Owner y \<and> oc_Outcome x = oc_Outcome y"
    unfolding compareRuns_def by (auto simp: Let_def list_ex_iff split: if_splits)
  show "set (r_Artifacts c) = set (r_Artifacts b)"
  proof (rule same_members [where k = oa_ID])
    show "set (r_Artifacts c) \<subseteq> set (r_Artifacts b)"
    proof
      fix x assume x: "x \<in> set (r_Artifacts c)"
      then have "built_map oa_ID (r_Artifacts b) (oa_ID x) \<noteq> None" using assms(4) by (auto simp: built_map_None)
      then obtain y where y: "built_map oa_ID (r_Artifacts b) (oa_ID x) = Some y" by blast
      with a [OF x] built_map_Some [OF y] have "x = y" by (simp add: lookup_zero_def Let_def)
      with built_map_Some [OF y] show "x \<in> set (r_Artifacts b)" by simp
    qed
  qed (use assms(4) run_artifacts_ok_distinct [OF assms(2)] in simp_all)
  show "set (r_Checks c) = set (r_Checks b)"
  proof (rule same_members [where k = oc_ID])
    show "set (r_Checks c) \<subseteq> set (r_Checks b)"
    proof
      fix x assume x: "x \<in> set (r_Checks c)"
      then have "built_map oc_ID (r_Checks b) (oc_ID x) \<noteq> None" using assms(5) by (auto simp: built_map_None)
      then obtain y where y: "built_map oc_ID (r_Checks b) (oc_ID x) = Some y" by blast
      with k [OF x] built_map_Some [OF y] have "x = y" by (simp add: lookup_zero_def Let_def)
      with built_map_Some [OF y] show "x \<in> set (r_Checks b)" by simp
    qed
  qed (use assms(5) run_checks_ok_distinct [OF assms(3)] in simp_all)
qed

section \<open>The shape of the results\<close>

lemma validateObservation_runs:
  assumes "validateObservation ob lm lg = None"
  shows "run_artifacts_ok {} (r_Artifacts (o_Baseline ob))" "run_checks_ok {} (r_Checks (o_Baseline ob))"
    and "o_Candidate ob = Some c \<Longrightarrow> run_artifacts_ok {} (r_Artifacts c) \<and> run_checks_ok {} (r_Checks c)"
  using assms unfolding validateObservation_def by (simp_all add: validateRunShape_def)

lemma validateObservation_identity:
  assumes "validateObservation ob lm lg = None"
  shows "observationIDPattern (o_ObservationID ob)" "revisionPattern (o_Revision ob)" "idPattern (o_ChangeClass ob)"
    and "canonical_utc (o_ObservedAt ob)" "o_Mode ob = ValidationShadow \<or> o_Mode ob = ValidationPairedControl"
    and "o_Mode ob = ValidationPairedControl \<Longrightarrow> o_Candidate ob \<noteq> None"
  using assms unfolding validateObservation_def by auto

lemma evaluate_candidate_cases:
  obtains (false_negative) reason where "reason \<noteq> []"
      "evaluate_candidate lm lg d b c result = falseNegativeResult result reason"
  | (inconclusive) reason where "reason \<noteq> []" "evaluate_candidate lm lg d b c result = result\<lparr>v_Reason := reason\<rparr>"
  | (passed) "r_Entrypoints c = d_PredictedEntrypoints d" "r_Outcome c = RunSuccess"
      "validateSuccessfulRun (lm_Manifest lm) c (alternativeReach (lg_Graph lg) (d_PredictedEntrypoints d)) = []"
      "compareRuns b c = []"
      "evaluate_candidate lm lg d b c result = result\<lparr>v_Outcome := ValidationControlPassed,
         v_Reason := ''PAIRED_CONTROL_MATCHED'', v_ValidationComplete := True\<rparr>"
proof -
  let ?reason = "validateSuccessfulRun (lm_Manifest lm) c (alternativeReach (lg_Graph lg) (d_PredictedEntrypoints d))"
  note ec = evaluate_candidate_def
  show ?thesis
  proof (cases "r_Entrypoints c = d_PredictedEntrypoints d")
    case False
    with false_negative [of "''CANDIDATE_ENTRYPOINT_DIVERGENCE''"] show ?thesis by (simp add: ec)
  next
    case e: True
    consider "r_Outcome c = RunInfrastructureFailure \<or> r_Outcome c = RunCancelled" | "r_Outcome c = RunBuildFailure"
      | "r_Outcome c = RunSuccess"
      | "\<not> (r_Outcome c = RunInfrastructureFailure \<or> r_Outcome c = RunCancelled)" "r_Outcome c \<noteq> RunBuildFailure"
        "r_Outcome c \<noteq> RunSuccess" by blast
    then show ?thesis
    proof cases
      case 1
      with e inconclusive [of "''CANDIDATE_INFRASTRUCTURE_INCONCLUSIVE''"] show ?thesis by (simp add: ec)
    next
      case 2
      with e false_negative [of "''CANDIDATE_BUILD_FAILURE''"] show ?thesis by (simp add: ec)
    next
      case 3
      with e false_negative [of "''CANDIDATE_'' @ ?reason"] false_negative [of "compareRuns b c"] passed
      show ?thesis by (cases "?reason = []"; cases "compareRuns b c = []") (simp_all add: ec Let_def)
    next
      case 4
      with e inconclusive [of "''CANDIDATE_OUTCOME_INVALID''"] show ?thesis by (simp add: ec)
    qed
  qed
qed

lemma EvaluateValidation_cases:
  fixes lm lg ob
  defines "d \<equiv> EvaluateImpact lm (lg_Graph lg) (o_ChangedPaths ob)"
  defines "r \<equiv> (baseValidationResult ob)\<lparr>v_AlternativeID := d_PredictedAlternativeID d, v_EligibleDecision := True\<rparr>"
  assumes "validateObservation ob lm lg = None"
  obtains (ineligible) reason where "reason \<noteq> []"
      "EvaluateValidation lm lg ob = (baseValidationResult ob)\<lparr>v_Reason := reason\<rparr>"
  | (baseline) reason where "d_Mode d = DecisionShadowAlternative" "reason \<noteq> []"
      "EvaluateValidation lm lg ob = r\<lparr>v_Reason := reason\<rparr>"
  | (shadow) "d_Mode d = DecisionShadowAlternative" "o_Mode ob = ValidationShadow"
      "EvaluateValidation lm lg ob = r\<lparr>v_Outcome := ValidationShadowPassed,
         v_Reason := ''FULL_EXECUTION_VALIDATES_SHADOW_MODEL'', v_ValidationComplete := True\<rparr>"
  | (control) c where "d_Mode d = DecisionShadowAlternative" "o_Mode ob = ValidationPairedControl"
      "o_Candidate ob = Some c" "r_Entrypoints (o_Baseline ob) = m_OriginalEntrypoints (lm_Manifest lm)"
      "r_Outcome (o_Baseline ob) = RunSuccess"
      "validateSuccessfulRun (lm_Manifest lm) (o_Baseline ob) (originalReach (lg_Graph lg) (lm_Manifest lm)) = []"
      "EvaluateValidation lm lg ob = evaluate_candidate lm lg d (o_Baseline ob) c (r\<lparr>v_FullControl := True\<rparr>)"
proof (cases "d_Mode d = DecisionShadowAlternative")
  case False
  with assms(3) ineligible [of "''DECISION_'' @ d_Reason d"] show ?thesis
    by (simp add: EvaluateValidation_def Let_def d_def)
next
  case s: True
  let ?ok = "r_Entrypoints (o_Baseline ob) = m_OriginalEntrypoints (lm_Manifest lm) \<and>
      r_Outcome (o_Baseline ob) = RunSuccess \<and>
      validateSuccessfulRun (lm_Manifest lm) (o_Baseline ob) (originalReach (lg_Graph lg) (lm_Manifest lm)) = []"
  show ?thesis
  proof (cases ?ok)
    case False
    then have "\<exists>reason. reason \<noteq> [] \<and> EvaluateValidation lm lg ob = r\<lparr>v_Reason := reason\<rparr>"
      using s assms(3) by (auto simp: EvaluateValidation_def Let_def d_def r_def)
    with baseline s show ?thesis by blast
  next
    case ok: True
    note id = validateObservation_identity [OF assms(3)]
    show ?thesis
    proof (cases "o_Mode ob = ValidationShadow")
      case True
      with ok s assms(3) shadow show ?thesis by (simp add: EvaluateValidation_def Let_def d_def r_def)
    next
      case False
      with id obtain c where "o_Mode ob = ValidationPairedControl" "o_Candidate ob = Some c" by auto
      with False ok s assms(3) control [of c] show ?thesis
        by (simp add: EvaluateValidation_def Let_def d_def r_def)
    qed
  qed
qed

end
