(* ===== verification/SelectionProps.thy ===== *)
theory SelectionProps
  imports Selection ValidationFacts
begin

text \<open>
  Validation, promotion and selection: the contract every selection boundary keeps as a locale, its
  two implementations, and the properties of \<open>validation.go\<close>, \<open>promotion.go\<close>, \<open>selection.go\<close> and
  \<open>poc_candidate.go\<close>.
\<close>

section \<open>A boundary that fails closed\<close>

text \<open>
  A planner runs what the customer asked for unless it selected an alternative, and it selects
  only an alternative that covers the change. Switches that block it are stronger than anything else.
\<close>

locale selection_boundary =
  fixes plan :: "'i \<Rightarrow> 'p"
    and loaded :: "'i \<Rightarrow> bool"
    and blocked :: "'i \<Rightarrow> bool"
    and selected :: "'p \<Rightarrow> bool"
    and entrypoints :: "'p \<Rightarrow> string list"
    and original :: "'i \<Rightarrow> string list"
    and covering :: "'i \<Rightarrow> string list \<Rightarrow> bool"
  assumes unselected_original: "loaded i \<Longrightarrow> \<not> selected (plan i) \<Longrightarrow> entrypoints (plan i) = original i"
    and selected_covering: "selected (plan i) \<Longrightarrow> covering i (entrypoints (plan i))"
    and blocked_unselected: "blocked i \<Longrightarrow> \<not> selected (plan i)"
begin

lemma original_or_covering:
  assumes "loaded i"
  shows "entrypoints (plan i) = original i \<or> covering i (entrypoints (plan i))"
  using unselected_original [OF assms] selected_covering by blast

lemma blocked_original: "loaded i \<Longrightarrow> blocked i \<Longrightarrow> entrypoints (plan i) = original i"
  using unselected_original blocked_unselected by blast

lemma departs_only_selected:
  "loaded i \<Longrightarrow> entrypoints (plan i) \<noteq> original i \<Longrightarrow> selected (plan i) \<and> \<not> blocked i"
  using unselected_original blocked_unselected by blast

end

text \<open>The entrypoints of an allowed alternative that is eligible for the required projects.\<close>

definition covers_change :: "LoadedManifest \<Rightarrow> DeclaredGraph \<Rightarrow> string set \<Rightarrow> string list \<Rightarrow> bool" where
  "covers_change lm g required names \<longleftrightarrow>
     (\<exists>a\<in>set (m_AllowedAlternatives (lm_Manifest lm)).
        names = es_Entrypoints a \<and> eligible_alternative (lm_Manifest lm) g required a)"

definition plan_gates ::
    "digest \<Rightarrow> LoadedManifest \<Rightarrow> LoadedGraph \<Rightarrow> PromotionInput \<Rightarrow> SelectionControls \<Rightarrow> bool" where
  "plan_gates digest manifest graph promotion controls \<longleftrightarrow>
     validLoadedManifest digest manifest \<and> validLoadedGraph digest manifest graph \<and>
     \<not> sc_LocalBypass controls \<and> \<not> sc_KillSwitchActive controls \<and> sc_Enabled controls \<and>
     promotion_bound manifest graph promotion \<and>
     pr_State (EvaluatePromotion promotion) = PromotionQualified"

lemma PlanSelection_authorized_iff:
  "sp_SelectionAuthorized (PlanSelection digest manifest graph paths promotion controls) \<longleftrightarrow>
     plan_gates digest manifest graph promotion controls \<and>
     d_Mode (EvaluateImpact manifest (lg_Graph graph) paths) = DecisionShadowAlternative"
  by (simp add: PlanSelection_def plan_gates_def Let_def)

lemma PlanSelection_authorized_fields:
  assumes "sp_SelectionAuthorized (PlanSelection digest manifest graph paths promotion controls)"
  shows "sp_Entrypoints (PlanSelection digest manifest graph paths promotion controls) =
      d_PredictedEntrypoints (EvaluateImpact manifest (lg_Graph graph) paths)"
    and "sp_AlternativeID (PlanSelection digest manifest graph paths promotion controls) =
      d_PredictedAlternativeID (EvaluateImpact manifest (lg_Graph graph) paths)"
  using assms unfolding PlanSelection_authorized_iff
  by (simp_all add: PlanSelection_def plan_gates_def Let_def)

lemma PlanSelection_unauthorized_fields:
  assumes "\<not> sp_SelectionAuthorized (PlanSelection digest manifest graph paths promotion controls)"
  shows "sp_Entrypoints (PlanSelection digest manifest graph paths promotion controls) =
      (if validLoadedManifest digest manifest then m_OriginalEntrypoints (lm_Manifest manifest) else [])"
    and "sp_Mode (PlanSelection digest manifest graph paths promotion controls) = SelectionFullGraph"
    and "sp_AlternativeID (PlanSelection digest manifest graph paths promotion controls) = []"
  using assms unfolding PlanSelection_authorized_iff
  by (simp_all add: PlanSelection_def plan_gates_def Let_def) blast+

lemma PlanSelection_covers:
  assumes "sp_SelectionAuthorized (PlanSelection digest manifest graph paths promotion controls)"
  shows "covers_change manifest (lg_Graph graph) (affected_by (lg_Graph graph) paths)
      (sp_Entrypoints (PlanSelection digest manifest graph paths promotion controls))"
  using assms shadow_predicts_eligible [of manifest "lg_Graph graph" paths True]
  unfolding PlanSelection_authorized_fields [OF assms] PlanSelection_authorized_iff covers_change_def
  by (auto simp: EvaluateImpact_def)

type_synonym selection_request =
  "digest \<times> LoadedManifest \<times> LoadedGraph \<times> string list \<times> PromotionInput \<times> SelectionControls"

interpretation plan_selection: selection_boundary
  "\<lambda>(digest, manifest, graph, paths, promotion, controls).
     PlanSelection digest manifest graph paths promotion controls"
  "\<lambda>(digest, manifest, graph, paths, promotion, controls). validLoadedManifest digest manifest"
  "\<lambda>(digest, manifest, graph, paths, promotion, controls).
     sc_LocalBypass controls \<or> sc_KillSwitchActive controls \<or> \<not> sc_Enabled controls"
  sp_SelectionAuthorized sp_Entrypoints
  "\<lambda>(digest, manifest, graph, paths, promotion, controls). m_OriginalEntrypoints (lm_Manifest manifest)"
  "\<lambda>(digest, manifest, graph, paths, promotion, controls).
     covers_change manifest (lg_Graph graph) (affected_by (lg_Graph graph) paths)"
proof (unfold_locales, goal_cases)
  case (1 i)
  then show ?case by (auto simp: PlanSelection_unauthorized_fields split: prod.splits)
next
  case (2 i)
  then show ?case by (auto intro: PlanSelection_covers split: prod.splits)
next
  case (3 i)
  then show ?case by (auto simp: PlanSelection_authorized_iff plan_gates_def split: prod.splits)
qed

text \<open>The same contract for the owner-operated candidate planner, on requests whose files load.\<close>

definition poc_plan ::
    "LoadedManifest \<times> LoadedGraph \<times> GeneratedManifest \<times> string list \<times> bool \<Rightarrow> POCCandidatePlan result" where
  "poc_plan = (\<lambda>(manifest, graph, generated, paths, bypass).
     PlanPOCCandidate (Inr manifest) (Inr graph) (Inr generated) paths bypass)"

definition poc_selected :: "POCCandidatePlan result \<Rightarrow> bool" where
  "poc_selected r = (case r of Inl _ \<Rightarrow> False | Inr p \<Rightarrow> pc_CandidateSelected p)"

definition poc_entrypoints :: "POCCandidatePlan result \<Rightarrow> string list" where
  "poc_entrypoints r = (case r of Inl _ \<Rightarrow> [] | Inr p \<Rightarrow> pc_Entrypoints p)"

lemma poc_loaded_selected:
  "pc_CandidateSelected (plan_poc_loaded p manifest graph generated paths) \<longleftrightarrow>
     pc_CandidateSelected p \<or>
     gm_Complete generated \<and> gm_FallbackReasons generated = [] \<and>
     d_Mode (evaluatePOCImpact manifest (lg_Graph graph) paths) = DecisionShadowAlternative"
  by (auto simp: plan_poc_loaded_def Let_def)

lemma poc_loaded_entrypoints:
  "pc_Entrypoints (plan_poc_loaded p manifest graph generated paths) =
     (if gm_Complete generated \<and> gm_FallbackReasons generated = [] \<and>
         d_Mode (evaluatePOCImpact manifest (lg_Graph graph) paths) = DecisionShadowAlternative
      then d_PredictedEntrypoints (evaluatePOCImpact manifest (lg_Graph graph) paths) else pc_Entrypoints p)"
  "pc_ProductionAuthorized (plan_poc_loaded p manifest graph generated paths) = pc_ProductionAuthorized p"
  by (simp_all add: plan_poc_loaded_def Let_def)

lemmas poc_simps = poc_plan_def poc_selected_def poc_entrypoints_def PlanPOCCandidate_def
  poc_loaded_selected poc_loaded_entrypoints Let_def

lemma POC_covers:
  assumes "d_Mode (evaluatePOCImpact manifest g paths) = DecisionShadowAlternative"
  shows "covers_change manifest g (direct_owners g paths) (d_PredictedEntrypoints (evaluatePOCImpact manifest g paths))"
  using shadow_predicts_eligible [of manifest g paths False] assms
  by (auto simp: covers_change_def evaluatePOCImpact_def)

interpretation poc_candidate: selection_boundary
  poc_plan
  "\<lambda>(manifest, graph, generated, paths, bypass).
     validateGeneratedManifestBinding generated manifest graph = None \<or> bypass"
  "\<lambda>(manifest, graph, generated, paths, bypass).
     bypass \<or> \<not> gm_Complete generated \<or> gm_FallbackReasons generated \<noteq> []"
  poc_selected poc_entrypoints
  "\<lambda>(manifest, graph, generated, paths, bypass). m_OriginalEntrypoints (lm_Manifest manifest)"
  "\<lambda>(manifest, graph, generated, paths, bypass).
     covers_change manifest (lg_Graph graph) (direct_owners (lg_Graph graph) paths)"
proof (unfold_locales, goal_cases)
  case (1 i)
  then show ?case by (auto simp: poc_simps split: prod.splits option.splits if_splits)
next
  case (2 i)
  then show ?case by (auto simp: poc_simps split: prod.splits option.splits if_splits intro: POC_covers)
next
  case (3 i)
  then show ?case by (auto simp: poc_simps split: prod.splits option.splits if_splits)
qed

section \<open>Observations for the witnesses\<close>

text \<open>3000 matched paired controls over 31 days.\<close>

fun dec :: "nat \<Rightarrow> nat \<Rightarrow> string" where
  "dec 0 n = []"
| "dec (Suc k) n = char_of (48 + n mod 10) # dec k (n div 10)"

lemma dec_inj: "n < 10 ^ k \<Longrightarrow> m < 10 ^ k \<Longrightarrow> dec k n = dec k m \<Longrightarrow> n = m"
proof (induction k arbitrary: n m)
  case (Suc k)
  have c: "(of_char (char_of (48 + x mod 10) :: char) :: nat) = 48 + x mod 10" for x :: nat
    by (simp add: mod_less)
  from Suc.prems(3) have h: "(char_of (48 + n mod 10) :: char) = char_of (48 + m mod 10)"
    and t: "dec k (n div 10) = dec k (m div 10)" by simp_all
  from arg_cong [OF h, of "of_char :: char \<Rightarrow> nat"] have "n mod 10 = m mod 10" using c [of n] c [of m] by simp
  moreover have "n div 10 = m div 10" using Suc.IH [OF _ _ t] Suc.prems(1,2) by simp
  ultimately show ?case by (metis div_mult_mod_eq)
qed simp

lemma dec_digits: "list_all is_digit (dec k n)"
proof (induction k arbitrary: n)
  case (Suc k)
  have "\<forall>d\<in>set [0..<10::nat]. is_digit (char_of (48 + d))" by code_simp
  then have "is_digit (char_of (48 + n mod 10))" by (simp del: upt_rec_numeral)
  with Suc show ?case by simp
qed simp

lemma length_dec [simp]: "length (dec k n) = k"
  by (induction k arbitrary: n) auto

definition ex_result :: "string \<Rightarrow> nat \<Rightarrow> ValidationResult" where
  "ex_result observed i =
     \<lparr>v_SchemaVersion = ValidationResultSchemaVersion, v_ObservationID = ''bia-'' @ dec 4 i,
      v_RepositoryID = ''acme/app'', v_PipelineClass = ''ci'', v_Revision = replicate 40 (CHR ''a''),
      v_ManifestDigest = ex_digest, v_GraphDigest = ex_digest, v_AdapterVersion = ''v1'',
      v_ChangeClass = ''code'', v_ObservedAt = observed, v_Mode = ValidationPairedControl,
      v_AlternativeID = ''lib'', v_Outcome = ValidationControlPassed,
      v_Reason = ''PAIRED_CONTROL_MATCHED'', v_EligibleDecision = True, v_ValidationComplete = True,
      v_FullControl = True, v_FalseNegative = False, v_SelectionAuthorized = False\<rparr>"

definition ex_promotion_of :: "nat \<Rightarrow> PromotionInput" where
  "ex_promotion_of n = \<lparr>pi_RepositoryID = ''acme/app'', pi_PipelineClass = ''ci'', pi_ManifestDigest = ex_digest,
     pi_GraphDigest = ex_digest, pi_AdapterVersion = ''v1'', pi_MandatoryChangeClasses = [''code''],
     pi_Results = map (ex_result ''2026-01-01T00:00:00Z'') [0..<n] @
       map (ex_result ''2026-02-01T00:00:00Z'') [n..<n + n]\<rparr>"

definition ex_promotion :: PromotionInput where
  "ex_promotion = ex_promotion_of 1500"

lemma ex_id: "observationIDPattern (''bia-'' @ dec 4 i)"
proof -
  obtain c cs where c: "dec 4 i = c # cs" using length_dec [of 4 i] by (cases "dec 4 i") simp_all
  with dec_digits [of 4 i] length_dec [of 4 i] show ?thesis
    by (auto simp: observationIDPattern_def hasPrefix_def match_ident_def list_all_iff)
qed

lemma validValidationResult_id:
  "observationIDPattern (v_ObservationID r) \<Longrightarrow> observationIDPattern x \<Longrightarrow>
     validValidationResult (r\<lparr>v_ObservationID := x\<rparr>) = validValidationResult r"
  by (simp add: validValidationResult_def)

lemma ex_result_valid:
  assumes "validValidationResult (ex_result observed 0)"
  shows "validValidationResult (ex_result observed i)"
proof -
  have i: "ex_result observed i = (ex_result observed 0)\<lparr>v_ObservationID := ''bia-'' @ dec 4 i\<rparr>"
    by (simp add: ex_result_def)
  have "observationIDPattern (v_ObservationID (ex_result observed 0))"
    using ex_id [of 0] by (simp add: ex_result_def)
  from validValidationResult_id [OF this ex_id] assms i show ?thesis by simp
qed

lemma ex_results_valid:
  "validValidationResult (ex_result ''2026-01-01T00:00:00Z'' i)"
  "validValidationResult (ex_result ''2026-02-01T00:00:00Z'' i)"
  by (rule ex_result_valid, code_simp)+

lemma ex_result_fields [simp]:
  "v_ObservationID (ex_result observed i) = ''bia-'' @ dec 4 i"
  "v_RepositoryID (ex_result observed i) = ''acme/app''" "v_PipelineClass (ex_result observed i) = ''ci''"
  "v_ManifestDigest (ex_result observed i) = ex_digest" "v_GraphDigest (ex_result observed i) = ex_digest"
  "v_AdapterVersion (ex_result observed i) = ''v1''" "v_ChangeClass (ex_result observed i) = ''code''"
  "v_EligibleDecision (ex_result observed i)" "v_ValidationComplete (ex_result observed i)"
  "v_FullControl (ex_result observed i)" "\<not> v_FalseNegative (ex_result observed i)"
  "instant_of (ex_result observed i) = the (parse_utc observed)"
  by (simp_all add: ex_result_def instant_of_def)

lemma ex_eligible: "eligible_results (ex_promotion_of n) (pi_Results (ex_promotion_of n)) = pi_Results (ex_promotion_of n)"
  unfolding eligible_results_def filter_id_conv by (auto simp: ex_promotion_of_def current_def)

lemma ex_instants:
  "parse_utc ''2026-01-01T00:00:00Z'' = Some 63902822400"
  "parse_utc ''2026-02-01T00:00:00Z'' = Some 63905500800"
  by code_simp+

lemma ex_ids:
  assumes "n + n \<le> 10 ^ 4"
  shows "distinct (map v_ObservationID (pi_Results (ex_promotion_of n)))"
proof -
  have "map v_ObservationID (pi_Results (ex_promotion_of n)) = map (\<lambda>i. ''bia-'' @ dec 4 i) [0..<n + n]"
    using upt_add_eq_append [of 0 n n] by (simp add: ex_promotion_of_def comp_def)
  moreover have "inj_on (\<lambda>i. ''bia-'' @ dec 4 i) (set [0..<n + n])"
  proof (rule inj_onI)
    fix x y
    assume "x \<in> set [0..<n + n]" "y \<in> set [0..<n + n]" "''bia-'' @ dec 4 x = ''bia-'' @ dec 4 y"
    then show "x = y" using assms by (intro dec_inj [of _ 4]) auto
  qed
  ultimately show ?thesis by (simp add: distinct_map)
qed

lemma ex_counts:
  assumes "\<And>observed i. P (ex_result observed i)"
  shows "count_if P (pi_Results (ex_promotion_of n)) = int (n + n)"
proof -
  have "filter P (pi_Results (ex_promotion_of n)) = pi_Results (ex_promotion_of n)"
    using assms by (auto simp: filter_id_conv ex_promotion_of_def)
  then show ?thesis by (simp add: ex_promotion_of_def)
qed

lemma ex_evidence:
  assumes "1500 \<le> n" "n \<le> 5000"
  shows "promotion_evidence (ex_promotion_of n)"
proof -
  let ?p = "ex_promotion_of n"
  have "ex_result ''2026-01-01T00:00:00Z'' 0 \<in> set (pi_Results ?p)"
    "ex_result ''2026-02-01T00:00:00Z'' n \<in> set (pi_Results ?p)"
    using assms by (auto simp: ex_promotion_of_def)
  moreover have "30 * 86400 \<le> instant_of (ex_result ''2026-02-01T00:00:00Z'' n) - instant_of (ex_result ''2026-01-01T00:00:00Z'' 0)"
    by (simp add: ex_instants)
  ultimately have w: "\<exists>a\<in>set (pi_Results ?p). \<exists>b\<in>set (pi_Results ?p). 30 * 86400 \<le> instant_of b - instant_of a"
    by blast
  have c: "count_if (\<lambda>_. True) (pi_Results ?p) = int (n + n)"
    "count_if v_ValidationComplete (pi_Results ?p) = int (n + n)"
    "count_if (\<lambda>r. v_ChangeClass r = ''code'' \<and> v_FullControl r \<and> v_ValidationComplete r) (pi_Results ?p) = int (n + n)"
    by (rule ex_counts, simp)+
  have acc: "\<forall>r\<in>set (pi_Results ?p). acceptable ?p r \<and> \<not> v_FalseNegative r"
    using ex_results_valid by (auto simp: acceptable_def ex_promotion_of_def)
  have "pi_MandatoryChangeClasses ?p = [''code'']" by (simp add: ex_promotion_of_def)
  with w c acc ex_ids [of n] assms show ?thesis unfolding promotion_evidence_def Let_def ex_eligible by simp
qed

lemma ex_input_valid: "n \<le> 5000 \<Longrightarrow> validatePromotionInput (ex_promotion_of n) = None"
proof -
  assume "n \<le> 5000"
  moreover have "validatePromotionInput (ex_promotion_of 0) = None" by code_simp
  moreover have "int (length (pi_Results (ex_promotion_of n))) = int (n + n)" by (simp add: ex_promotion_of_def)
  ultimately show ?thesis
    by (simp add: validatePromotionInput_def maximumPromotionResults_def ex_promotion_of_def)
qed

lemma ex_promotion_after_zero:
  "\<forall>r\<in>set (eligible_results (ex_promotion_of n) (pi_Results (ex_promotion_of n))). 0 < instant_of r"
  unfolding ex_eligible by (auto simp: ex_promotion_of_def ex_instants)

lemma ex_qualified: "pr_State (EvaluatePromotion ex_promotion) = PromotionQualified"
  unfolding ex_promotion_def
  by (rule evidence_qualified [OF ex_input_valid ex_evidence ex_promotion_after_zero]) simp_all

definition ex_loaded_graph :: LoadedGraph where
  "ex_loaded_graph = \<lparr>lg_Graph = ex_graph, lg_Digest = ex_digest\<rparr>"

definition ex_controls :: SelectionControls where
  "ex_controls = \<lparr>sc_Enabled = True, sc_KillSwitchActive = False, sc_LocalBypass = False\<rparr>"

definition ex_run :: "string list \<Rightarrow> string list \<Rightarrow> RunObservation" where
  "ex_run names projects = \<lparr>r_Outcome = RunSuccess, r_Entrypoints = names, r_Projects = projects,
     r_Artifacts = [\<lparr>oa_ID = ''jar'', oa_Path = ''lib/out/a.jar'', oa_Digest = ex_digest, oa_SizeBytes = 7\<rparr>],
     r_Checks = []\<rparr>"

definition ex_observation :: ValidationObservation where
  "ex_observation = \<lparr>o_SchemaVersion = ValidationObservationSchemaVersion, o_ObservationID = ''bia-1'',
     o_RepositoryID = ''acme/app'', o_PipelineClass = ''ci'', o_Revision = replicate 40 (CHR ''a''),
     o_ManifestDigest = ex_digest, o_GraphDigest = ex_digest, o_AdapterVersion = ''v1'',
     o_ChangeClass = ''code'', o_ObservedAt = ''2026-01-01T00:00:00Z'', o_Mode = ValidationPairedControl,
     o_ChangedPaths = [''core/src/A.java''], o_Baseline = ex_run [''build''] ['':lib'', '':core'', '':docs''],
     o_Candidate = Some (ex_run ['':lib:jar''] ['':lib'', '':core''])\<rparr>"

lemma ex_observation_valid: "validateObservation ex_observation ex_manifest ex_loaded_graph = None"
  by code_simp

lemma ex_observation_passed:
  "v_Outcome (EvaluateValidation ex_manifest ex_loaded_graph ex_observation) = ValidationControlPassed"
  by code_simp

lemma ex_authorized:
  "sp_SelectionAuthorized
     (PlanSelection (\<lambda>_. ex_digest) ex_manifest ex_loaded_graph [''core/src/A.java''] ex_promotion ex_controls)"
proof -
  have "validLoadedManifest (\<lambda>_. ex_digest) ex_manifest" "validLoadedGraph (\<lambda>_. ex_digest) ex_manifest ex_loaded_graph"
    by code_simp+
  moreover have "promotion_bound ex_manifest ex_loaded_graph ex_promotion"
    by (simp add: promotion_bound_def ex_promotion_def ex_promotion_of_def ex_manifest_def ex_loaded_graph_def ex_graph_def)
  ultimately show ?thesis
    using ex_shadow ex_qualified unfolding PlanSelection_authorized_iff
    by (simp add: plan_gates_def ex_controls_def ex_loaded_graph_def)
qed

section \<open>Properties of the validation\<close>

text \<open>(C31) A passed paired control is a real comparison: the baseline ran the original entrypoints
  and the candidate the predicted ones, both covered exactly the projects their entrypoints reach,
  produced the same artifacts (identifier, path, digest and size), all required ones, and ran the
  same checks, all required ones, all passed.\<close>

theorem control_passed_equal:
  assumes "v_Outcome (EvaluateValidation lm lg ob) = ValidationControlPassed"
  shows "\<exists>c. o_Candidate ob = Some c \<and>
    r_Entrypoints (o_Baseline ob) = m_OriginalEntrypoints (lm_Manifest lm) \<and>
    r_Entrypoints c = d_PredictedEntrypoints (EvaluateImpact lm (lg_Graph lg) (o_ChangedPaths ob)) \<and>
    set (r_Projects (o_Baseline ob)) = provides ep_ReachesProjects (lg_Graph lg) (m_OriginalEntrypoints (lm_Manifest lm)) \<and>
    set (r_Projects c) = provides ep_ReachesProjects (lg_Graph lg) (r_Entrypoints c) \<and>
    set (r_Artifacts c) = set (r_Artifacts (o_Baseline ob)) \<and>
    oa_ID ` set (r_Artifacts c) = manifestArtifactIDs (lm_Manifest lm) \<and>
    set (r_Checks c) = set (r_Checks (o_Baseline ob)) \<and>
    oc_ID ` set (r_Checks c) = set (map c_ID (checks_of (lm_Manifest lm))) \<and>
    (\<forall>k\<in>set (r_Checks c). oc_Outcome k = ''PASSED'')"
proof -
  have v: "validateObservation ob lm lg = None"
  proof (rule ccontr)
    assume "validateObservation ob lm lg \<noteq> None"
    then have "EvaluateValidation lm lg ob = (baseValidationResult ob)\<lparr>v_Reason := ''OBSERVATION_INVALID''\<rparr>"
      by (simp add: EvaluateValidation_def)
    with assms show False by (simp add: baseValidationResult_def)
  qed
  have reach: "alternativeReach g names = provides ep_ReachesProjects g names" for g names
    by (auto simp: alternativeReach_def provides_def named_def)
  note base = baseValidationResult_def falseNegativeResult_def
  from v show ?thesis
  proof (cases rule: EvaluateValidation_cases)
    case (control c)
    then show ?thesis
    proof (cases rule: evaluate_candidate_cases [of lm lg "EvaluateImpact lm (lg_Graph lg) (o_ChangedPaths ob)"
          "o_Baseline ob" c "(baseValidationResult ob)\<lparr>v_AlternativeID := d_PredictedAlternativeID
            (EvaluateImpact lm (lg_Graph lg) (o_ChangedPaths ob)), v_EligibleDecision := True, v_FullControl := True\<rparr>"])
      case passed
      note runs = validateObservation_runs [OF v]
      note ok = validateSuccessfulRun_ok [OF passed(3) conjunct1 [OF runs(3) [OF control(3)]] conjunct2 [OF runs(3) [OF control(3)]]]
      note base_ok = validateSuccessfulRun_ok [OF control(6) runs(1,2)]
      note same = compareRuns_ok [OF passed(4) runs(1,2)]
      show ?thesis
        using control(3,4) passed(1) ok base_ok same
        by (simp add: reach originalReach_def manifestArtifactIDs_def)
    qed (use assms control in \<open>simp_all add: base\<close>)
  qed (use assms in \<open>simp_all add: base\<close>)
qed

theorem control_passed_equal_witness:
  "\<exists>c. o_Candidate ex_observation = Some c \<and> set (r_Artifacts c) = set (r_Artifacts (o_Baseline ex_observation))"
proof -
  from control_passed_equal [OF ex_observation_passed] obtain c where "o_Candidate ex_observation = Some c"
    "set (r_Artifacts c) = set (r_Artifacts (o_Baseline ex_observation))" by (elim exE conjE) (rule that)
  then show ?thesis by (intro exI conjI)
qed

text \<open>(C40) Every result of \<open>EvaluateValidation\<close> on an accepted observation of an accepted manifest is
  accepted by \<open>validValidationResult\<close>, so the promotion never rejects the validator's own output.\<close>

theorem validation_results_accepted:
  assumes "validateObservation ob lm lg = None" "validateManifest (lm_Manifest lm) r p = None"
  shows "validValidationResult (EvaluateValidation lm lg ob)"
proof -
  note id = validateObservation_identity [OF assms(1)]
  note simps = validValidationResult_def baseValidationResult_def falseNegativeResult_def
  let ?d = "EvaluateImpact lm (lg_Graph lg) (o_ChangedPaths ob)"
  have alt: "idPattern (d_PredictedAlternativeID ?d) \<and> d_PredictedAlternativeID ?d \<noteq> []"
    if "d_Mode ?d = DecisionShadowAlternative"
  proof -
    from shadow_predicts_eligible [of lm "lg_Graph lg" "o_ChangedPaths ob" True] that
    obtain a where "a \<in> set (m_AllowedAlternatives (lm_Manifest lm))" "d_PredictedAlternativeID ?d = es_ID a"
      by (auto simp: EvaluateImpact_def)
    with alternatives_loop_None [OF validateManifest_alternatives(1) [OF assms(2)]] show ?thesis
      by (auto simp: list_all_iff idPattern_def match_ident_def)
  qed
  from assms(1) show ?thesis
  proof (cases rule: EvaluateValidation_cases)
    case (control c)
    note alt = alt [OF control(1)]
    show ?thesis unfolding control(7)
      by (cases rule: evaluate_candidate_cases [of lm lg ?d "o_Baseline ob" c
            "(baseValidationResult ob)\<lparr>v_AlternativeID := d_PredictedAlternativeID ?d, v_EligibleDecision := True,
              v_FullControl := True\<rparr>"])
         (use id(1-4) control(2) alt in \<open>simp_all add: simps\<close>)
  qed (use id(1-5) alt in \<open>simp_all add: simps\<close>)
qed

theorem validation_results_accepted_witness:
  "validValidationResult (EvaluateValidation ex_manifest ex_loaded_graph ex_observation)"
  by (rule validation_results_accepted [OF ex_observation_valid ex_manifest_valid])

section \<open>Properties of the promotion\<close>

text \<open>A report is \<open>QUALIFIED\<close> exactly when the input is well formed and its results are the
  evidence BIA-002 asks for: distinct, in scope and valid results, no false negative, at least 3000
  eligible decisions over at least 30 days, 99 percent and at least 2995 of them validated (the
  smallest number for which the one-sided bound is at most 0.001), and 100 completed full controls for
  each mandatory change class. Observations are taken after January 1 of year 1.\<close>

theorem promotion_qualified_iff:
  assumes "\<forall>r\<in>set (eligible_results input (pi_Results input)). 0 < instant_of r"
  shows "pr_State (EvaluatePromotion input) = PromotionQualified \<longleftrightarrow>
     validatePromotionInput input = None \<and> promotion_evidence input"
  using evidence_qualified [OF _ _ assms] qualified_evidence [of input] by (metis qualified_judged)

theorem promotion_qualified_iff_witness:
  "pr_State (EvaluatePromotion ex_promotion) = PromotionQualified"
  unfolding ex_promotion_def promotion_qualified_iff [OF ex_promotion_after_zero]
  using ex_input_valid [of 1500] ex_evidence [of 1500] by simp

text \<open>A report is \<open>SUSPENDED\<close> exactly when the input is well formed, all results were accepted
  and one eligible decision under the current binding was a false negative; no amount of other
  evidence outweighs it.\<close>

theorem promotion_suspended_iff:
  "pr_State (EvaluatePromotion input) = PromotionSuspended \<longleftrightarrow>
     validatePromotionInput input = None \<and> distinct (map v_ObservationID (pi_Results input)) \<and>
     (\<forall>r\<in>set (pi_Results input). acceptable input r) \<and>
     (\<exists>r\<in>set (eligible_results input (pi_Results input)). v_FalseNegative r)"
proof -
  note acc = promotion_loop_accepts [of input "initial_loop input" "pi_Results input"]
  have seen: "l_Seen (initial_loop input) = {}" by (simp add: initial_loop_def)
  show ?thesis
  proof (cases rule: EvaluatePromotion_cases [of input])
    case inconclusive
    with acc seen show ?thesis by auto
  next
    case (judged st)
    note cnt = promotion_loop_counts [OF judged(2)]
    have "pr_State (EvaluatePromotion input) = PromotionSuspended \<longleftrightarrow> 0 < pr_FalseNegatives (l_Report st)"
    proof (cases "0 < pr_FalseNegatives (l_Report st)")
      case True
      then show ?thesis by (simp add: judged(3) judge_promotion_def)
    next
      case False
      then have "pr_State (EvaluatePromotion input) = PromotionInconclusive \<or>
          pr_State (EvaluatePromotion input) = PromotionQualified"
        using judge_cases [of "finish_counters input st"] cnt(6)
        by (elim disjE conjE) (simp_all add: judged(3))
      with False show ?thesis by (elim disjE) simp_all
    qed
    also have "\<dots> \<longleftrightarrow> (\<exists>r\<in>set (eligible_results input (pi_Results input)). v_FalseNegative r)"
      unfolding cnt(3) by (auto simp: length_greater_0_conv filter_empty_conv)
    finally show ?thesis using judged(1,2) acc seen by auto
  qed
qed

theorem promotion_suspended_iff_witness:
  "pr_State (EvaluatePromotion ((ex_promotion_of 0)\<lparr>pi_Results :=
     [(ex_result ''2026-01-01T00:00:00Z'' 0)\<lparr>v_Outcome := ValidationFalseNegative, v_FalseNegative := True\<rparr>]\<rparr>))
   = PromotionSuspended"
  unfolding promotion_suspended_iff by code_simp

text \<open>The stratum bound never decides: a report that got as far as the strata, with no false
  negative and the minimum number of controls, always satisfies it, so the reason
  \<open>STRATUM_UPPER_BOUND_EXCEEDED\<close> is never given.\<close>

lemma stratum_bound_never_exceeded:
  "pr_Reason (EvaluatePromotion input) \<noteq> ''STRATUM_UPPER_BOUND_EXCEEDED''"
proof (cases "validatePromotionInput input = None")
  case False
  then show ?thesis by (simp add: EvaluatePromotion_def initial_report_def)
next
  case True
  show ?thesis
  proof (cases "promotion_loop input (initial_loop input) (pi_Results input)")
    case (Inl rep)
    with promotion_loop_reason [OF Inl] True show ?thesis by (auto simp: EvaluatePromotion_def)
  next
    case (Inr st)
    with True judged_reason [OF Inr] show ?thesis by (simp add: EvaluatePromotion_def)
  qed
qed

section \<open>Properties of the selection boundaries\<close>

text \<open>(C1) \<open>PlanSelection\<close> authorizes a selection only with every gate open: valid manifest and graph with
  matching digests, no bypass, no kill switch, selection enabled, promotion bound to the same
  manifest and graph and resting on the full BIA-002 evidence; and then the entrypoints are those of
  an allowed alternative that covers every affected project, artifact and build check.\<close>

theorem plan_selection_authorized_sound:
  assumes "sp_SelectionAuthorized (PlanSelection digest manifest graph paths promotion controls)"
  shows "validLoadedManifest digest manifest \<and> validLoadedGraph digest manifest graph \<and>
    sc_Enabled controls \<and> \<not> sc_KillSwitchActive controls \<and> \<not> sc_LocalBypass controls \<and>
    promotion_bound manifest graph promotion \<and> promotion_evidence promotion \<and>
    covers_change manifest (lg_Graph graph) (affected_by (lg_Graph graph) paths)
      (sp_Entrypoints (PlanSelection digest manifest graph paths promotion controls))"
  using assms PlanSelection_covers [OF assms] qualified_evidence [of promotion]
  unfolding PlanSelection_authorized_iff plan_gates_def by blast

theorem plan_selection_authorized_sound_witness:
  "covers_change ex_manifest ex_graph (affected_by ex_graph [''core/src/A.java''])
     (sp_Entrypoints (PlanSelection (\<lambda>_. ex_digest) ex_manifest ex_loaded_graph [''core/src/A.java''] ex_promotion ex_controls))"
  using plan_selection_authorized_sound [OF ex_authorized] by (simp add: ex_loaded_graph_def)

text \<open>On a valid manifest \<open>PlanSelection\<close> either authorizes or runs exactly the original
  entrypoints with no alternative; a bypass, an active kill switch or a disabled selection always
  means the original entrypoints.\<close>

theorem plan_selection_fails_closed:
  assumes "validLoadedManifest digest manifest"
  shows "(\<not> sp_SelectionAuthorized (PlanSelection digest manifest graph paths promotion controls) \<longrightarrow>
      sp_Entrypoints (PlanSelection digest manifest graph paths promotion controls) = m_OriginalEntrypoints (lm_Manifest manifest) \<and>
      sp_Mode (PlanSelection digest manifest graph paths promotion controls) = SelectionFullGraph \<and>
      sp_AlternativeID (PlanSelection digest manifest graph paths promotion controls) = []) \<and>
    (sc_LocalBypass controls \<or> sc_KillSwitchActive controls \<or> \<not> sc_Enabled controls \<longrightarrow>
      sp_Entrypoints (PlanSelection digest manifest graph paths promotion controls) = m_OriginalEntrypoints (lm_Manifest manifest))"
proof (intro conjI impI)
  assume "sc_LocalBypass controls \<or> sc_KillSwitchActive controls \<or> \<not> sc_Enabled controls"
  with assms plan_selection.blocked_original [of "(digest, manifest, graph, paths, promotion, controls)"]
  show "sp_Entrypoints (PlanSelection digest manifest graph paths promotion controls) = m_OriginalEntrypoints (lm_Manifest manifest)"
    by simp
qed (use assms PlanSelection_unauthorized_fields in \<open>simp_all\<close>)

theorem plan_selection_fails_closed_witness:
  "sp_Entrypoints (PlanSelection (\<lambda>_. ex_digest) ex_manifest ex_loaded_graph [''core/src/A.java''] ex_promotion
     (ex_controls\<lparr>sc_KillSwitchActive := True\<rparr>)) = [''build'']"
proof -
  have v: "validLoadedManifest (\<lambda>_. ex_digest) ex_manifest" by code_simp
  have "m_OriginalEntrypoints (lm_Manifest ex_manifest) = [''build'']" by (simp add: ex_manifest_def)
  with plan_selection_fails_closed [OF v, of ex_loaded_graph "[''core/src/A.java'']" ex_promotion
      "ex_controls\<lparr>sc_KillSwitchActive := True\<rparr>"] show ?thesis by simp
qed

text \<open>On a manifest that does not validate, the plan is not authorized and has no entrypoints at
  all, not the original ones.\<close>

lemma plan_selection_invalid_manifest:
  assumes "\<not> validLoadedManifest digest manifest"
  shows "sp_Entrypoints (PlanSelection digest manifest graph paths promotion controls) = [] \<and>
    \<not> sp_SelectionAuthorized (PlanSelection digest manifest graph paths promotion controls)"
  using assms by (simp add: PlanSelection_def)

lemma plan_selection_invalid_manifest_witness:
  "sp_Entrypoints (PlanSelection (\<lambda>_. []) ex_manifest ex_loaded_graph [''core/src/A.java''] ex_promotion ex_controls) = []"
proof -
  have "\<not> validLoadedManifest (\<lambda>_. []) ex_manifest" by code_simp
  from plan_selection_invalid_manifest [OF this] show ?thesis by blast
qed

text \<open>A plan of \<open>PlanPOCCandidate\<close> is never a production authorization; it leaves the original
  entrypoints only without a bypass and on complete generated state, for an allowed alternative that
  covers the most specific owners of every changed path.\<close>

theorem poc_candidate_bounded:
  assumes "PlanPOCCandidate (Inr manifest) (Inr graph) (Inr generated) paths bypass = Inr plan"
  shows "\<not> pc_ProductionAuthorized plan \<and>
    (\<not> pc_CandidateSelected plan \<longrightarrow> pc_Entrypoints plan = m_OriginalEntrypoints (lm_Manifest manifest)) \<and>
    (pc_CandidateSelected plan \<longrightarrow> \<not> bypass \<and> gm_Complete generated \<and> gm_FallbackReasons generated = [] \<and>
       covers_change manifest (lg_Graph graph) (direct_owners (lg_Graph graph) paths) (pc_Entrypoints plan))"
proof -
  let ?i = "(manifest, graph, generated, paths, bypass)"
  have p: "poc_plan ?i = Inr plan" using assms by (simp add: poc_plan_def)
  have loaded: "validateGeneratedManifestBinding generated manifest graph = None \<or> bypass"
    using assms by (auto simp: PlanPOCCandidate_def Let_def split: option.splits)
  have "\<not> pc_ProductionAuthorized plan"
    using assms by (auto simp: PlanPOCCandidate_def Let_def poc_loaded_entrypoints split: option.splits if_splits)
  moreover have "\<not> poc_selected (poc_plan ?i) \<Longrightarrow> poc_entrypoints (poc_plan ?i) = m_OriginalEntrypoints (lm_Manifest manifest)"
    using poc_candidate.unselected_original [of ?i] loaded by simp
  moreover have "poc_selected (poc_plan ?i) \<Longrightarrow>
      covers_change manifest (lg_Graph graph) (direct_owners (lg_Graph graph) paths) (poc_entrypoints (poc_plan ?i))"
    using poc_candidate.selected_covering [of ?i] by simp
  moreover have "poc_selected (poc_plan ?i) \<Longrightarrow> \<not> bypass \<and> gm_Complete generated \<and> gm_FallbackReasons generated = []"
    using poc_candidate.blocked_unselected [of ?i] by auto
  ultimately show ?thesis by (simp add: p poc_selected_def poc_entrypoints_def)
qed

definition ex_generated :: GeneratedManifest where
  "ex_generated = \<lparr>gm_SchemaVersion = GeneratedManifestSchemaVersion, gm_RepositoryID = ''acme/app'',
     gm_PipelineClass = ''ci'', gm_ManifestDigest = ex_digest, gm_GraphDigest = ex_digest,
     gm_DiscoveryDigest = ex_digest, gm_AdapterVersion = ''v1'', gm_GradleVersion = ''8.5'',
     gm_Complete = True, gm_FallbackReasons = []\<rparr>"

theorem poc_candidate_bounded_witness:
  "\<exists>plan. PlanPOCCandidate (Inr ex_manifest) (Inr ex_loaded_graph) (Inr ex_generated) [''core/src/A.java''] False = Inr plan \<and>
     pc_CandidateSelected plan \<and> \<not> pc_ProductionAuthorized plan"
proof -
  have "(case PlanPOCCandidate (Inr ex_manifest) (Inr ex_loaded_graph) (Inr ex_generated) [''core/src/A.java''] False of
      Inl _ \<Rightarrow> False | Inr plan \<Rightarrow> pc_CandidateSelected plan)" by code_simp
  then obtain plan where
    "PlanPOCCandidate (Inr ex_manifest) (Inr ex_loaded_graph) (Inr ex_generated) [''core/src/A.java''] False = Inr plan"
    "pc_CandidateSelected plan" by (auto split: sum.splits)
  with poc_candidate_bounded [OF this(1)] show ?thesis by blast
qed

end
