(* ===== verification/Ownership.thy ===== *)
theory Ownership
  imports ImpactProps
begin

text \<open>
  \<open>internal/buildimpact/proposal.go\<close> and \<open>workflow_inputs.go\<close>: which Gradle projects own a set of
  changed paths, from source ownership alone or extended with the task inputs of a complete
  workflow observation; and the reach of a project entrypoint derived from the observed
  task graph (\<open>DeriveProjectEntrypoints\<close> of \<open>discovery.go\<close>).
\<close>

section \<open>Data\<close>

record DiscoveredTask =
  dt_Path :: string
  dt_ProjectPath :: string
  dt_DependsOn :: "string list"

record DiscoveredProject =
  dp_Path :: string
  dp_SourcePaths :: "string list"
  dp_OwnedSourcePaths :: "string list"
  dp_DependsOn :: "string list"
  dp_UnknownRelationships :: bool

record DiscoveredEntrypoint =
  de_Name :: string
  de_ReachesProjects :: "string list"
  de_ContainsTestTasks :: bool
  de_UnknownRelationships :: bool

record DiscoverySnapshot =
  ds_SchemaVersion :: string
  ds_GradleVersion :: string
  ds_Complete :: bool
  ds_FallbackReasons :: "string list"
  ds_IncludedBuildPaths :: "string list"
  ds_Projects :: "DiscoveredProject list"
  ds_Tasks :: "DiscoveredTask list"
  ds_Entrypoints :: "DiscoveredEntrypoint list"

abbreviation WorkflowInputRelevanceSchemaVersion :: string where
  "WorkflowInputRelevanceSchemaVersion \<equiv> ''buildopt.build-impact/workflow-input-relevance/v1''"

definition maximumWorkflowInputPaths :: int where "maximumWorkflowInputPaths = 4096"
definition maximumWorkflowInputConsumers :: int where "maximumWorkflowInputConsumers = 262144"

record WorkflowInputPath =
  wi_Path :: string
  wi_ConsumingTasks :: "string list"

record WorkflowInputRelevance =
  wr_SchemaVersion :: string
  wr_Complete :: bool
  wr_FallbackReasons :: "string list"
  wr_Paths :: "WorkflowInputPath list"

record WorkflowProjectOwnership =
  wo_Owners :: "string list"
  wo_IgnoredPaths :: "string list"
  wo_ConsumedUnownedPaths :: "string list"
  wo_UnattributedPaths :: "string list"

section \<open>Source ownership\<close>

definition source_specificity :: "string \<Rightarrow> DiscoveredProject \<Rightarrow> int" where
  "source_specificity changedPath project =
     foldl (\<lambda>best sourcePath.
         if matchRepositoryGlob sourcePath changedPath
         then max best (repositoryGlobSpecificity sourcePath) else best) (-1)
       (if dp_OwnedSourcePaths project \<noteq> [] then dp_OwnedSourcePaths project else dp_SourcePaths project)"

definition owner_step :: "string \<Rightarrow> int \<times> string set \<Rightarrow> DiscoveredProject \<Rightarrow> int \<times> string set" where
  "owner_step changedPath acc project =
     (let (best, matches) = acc; sp = source_specificity changedPath project in
      if sp < 0 then (best, matches)
      else let (best, matches) = (if sp > best then (sp, {}) else (best, matches)) in
        if sp = best then (best, insert (dp_Path project) matches) else (best, matches))"

definition matchingProjectOwners :: "DiscoverySnapshot \<Rightarrow> string \<Rightarrow> string set" where
  "matchingProjectOwners snapshot changedPath =
     snd (foldl (owner_step changedPath) (-1, {}) (ds_Projects snapshot))"

fun owners_loop :: "DiscoverySnapshot \<Rightarrow> string set \<Rightarrow> string list \<Rightarrow> string set result" where
  "owners_loop snapshot owners [] = Inr owners"
| "owners_loop snapshot owners (c # cs) =
     (let matches = matchingProjectOwners snapshot c in
      if card matches \<noteq> 1 then Inl ''changed path has missing or ambiguous Gradle project ownership''
      else owners_loop snapshot (owners \<union> matches) cs)"

definition ResolveProjectOwners :: "DiscoverySnapshot \<Rightarrow> string list \<Rightarrow> string list result" where
  "ResolveProjectOwners snapshot changedPaths =
     (if length changedPaths = 0 then Inl ''proposal requires at least one changed path''
      else case owners_loop snapshot {} changedPaths of
        Inl err \<Rightarrow> Inl err
      | Inr owners \<Rightarrow> Inr (sortedKeys owners))"

section \<open>Workflow inputs\<close>

fun input_paths_loop :: "string set \<Rightarrow> WorkflowInputPath list \<Rightarrow> error option" where
  "input_paths_loop seen [] = None"
| "input_paths_loop seen (entry # es) =
     (if \<not> validRepositoryPath (wi_Path entry) \<or> wi_Path entry \<in> seen \<or> \<not> uniqueStrings (wi_ConsumingTasks entry)
      then Some ''workflow-input observation contains an invalid path''
      else if list_ex (\<lambda>task. \<not> validGradleEntrypoint task) (wi_ConsumingTasks entry)
      then Some ''workflow-input observation contains an invalid consuming task''
      else input_paths_loop (insert (wi_Path entry) seen) es)"

definition validateWorkflowInputRelevance :: "WorkflowInputRelevance \<Rightarrow> string list \<Rightarrow> error option" where
  "validateWorkflowInputRelevance ob changedPaths = first_err
     [reject_if (wr_SchemaVersion ob \<noteq> WorkflowInputRelevanceSchemaVersion \<or>
         length changedPaths = 0 \<or> int (length changedPaths) > maximumWorkflowInputPaths \<or>
         length (wr_Paths ob) \<noteq> length changedPaths \<or>
         \<not> uniqueStrings (wr_FallbackReasons ob) \<or>
         (wr_Complete ob \<and> length (wr_FallbackReasons ob) \<noteq> 0) \<or>
         (\<not> wr_Complete ob \<and> length (wr_FallbackReasons ob) = 0))
        ''workflow-input observation identity or completeness is invalid'',
      reject_if (list_ex (\<lambda>reason. reason \<notin> {''CHANGED_PATH_UNRESOLVED'', ''TASK_INPUTS_UNAVAILABLE'',
            ''TASK_INPUT_SYMLINK_UNRESOLVED''}) (wr_FallbackReasons ob))
        ''workflow-input observation contains an unknown fallback reason'',
      reject_if (\<not> uniqueStrings (sort changedPaths)) ''workflow-input changed paths are duplicated'',
      input_paths_loop {} (wr_Paths ob),
      reject_if (sum_list (map (\<lambda>e. int (length (wi_ConsumingTasks e))) (wr_Paths ob)) > maximumWorkflowInputConsumers)
        ''workflow-input observation has too many consuming tasks'',
      reject_if (list_ex (\<lambda>(observed, wanted). observed \<noteq> wanted)
          (zip (sort (map wi_Path (wr_Paths ob))) (sort changedPaths)))
        ''workflow-input observation does not cover the exact changed-path set'']"

text \<open>The loop that collects the project of each observed task.\<close>

fun task_projects_loop ::
    "string set \<Rightarrow> (string \<Rightarrow> string option) \<Rightarrow> DiscoveredTask list \<Rightarrow> (string \<Rightarrow> string option) result" where
  "task_projects_loop projects acc [] = Inr acc"
| "task_projects_loop projects acc (t # ts) =
     (case acc (dt_Path t) of
        Some previous \<Rightarrow>
          if previous \<noteq> dt_ProjectPath t then Inl ''workflow task ownership is ambiguous''
          else if dt_ProjectPath t \<notin> projects then Inl ''workflow task references an unknown project''
          else task_projects_loop projects (acc(dt_Path t \<mapsto> dt_ProjectPath t)) ts
      | None \<Rightarrow>
          if dt_ProjectPath t \<notin> projects then Inl ''workflow task references an unknown project''
          else task_projects_loop projects (acc(dt_Path t \<mapsto> dt_ProjectPath t)) ts)"

record Attribution =
  at_Owners :: "string set"
  at_Consumed :: "string list"
  at_Unattributed :: "string list"

definition consumers_of :: "WorkflowInputRelevance \<Rightarrow> string \<Rightarrow> string list" where
  "consumers_of ob path =
     (case built_map wi_Path (wr_Paths ob) path of None \<Rightarrow> [] | Some e \<Rightarrow> wi_ConsumingTasks e)"

definition attribute_path ::
    "DiscoverySnapshot \<Rightarrow> WorkflowInputRelevance \<Rightarrow> (string \<Rightarrow> string option) \<Rightarrow> Attribution \<Rightarrow> string \<Rightarrow>
      Attribution result" where
  "attribute_path snapshot ob taskProjects acc path =
     (let matches = matchingProjectOwners snapshot path in
      if card matches = 1 then Inr (acc\<lparr>at_Owners := at_Owners acc \<union> matches\<rparr>)
      else if card matches = 0 then
        (let consumers = consumers_of ob path in
         if length consumers = 0 then Inr (acc\<lparr>at_Unattributed := at_Unattributed acc @ [path]\<rparr>)
         else if list_ex (\<lambda>c. taskProjects c = None) consumers
         then Inl ''workflow input references an unknown consuming task''
         else Inr (acc\<lparr>at_Owners := at_Owners acc \<union> set (map (\<lambda>c. the (taskProjects c)) consumers),
                at_Consumed := at_Consumed acc @ [path]\<rparr>))
      else Inl ''changed path has ambiguous Gradle project ownership'')"

fun attribution_loop ::
    "DiscoverySnapshot \<Rightarrow> WorkflowInputRelevance \<Rightarrow> (string \<Rightarrow> string option) \<Rightarrow> Attribution \<Rightarrow> string list \<Rightarrow>
      Attribution result" where
  "attribution_loop snapshot ob taskProjects acc [] = Inr acc"
| "attribution_loop snapshot ob taskProjects acc (p # ps) =
     (case attribute_path snapshot ob taskProjects acc p of
        Inl err \<Rightarrow> Inl err
      | Inr acc' \<Rightarrow> attribution_loop snapshot ob taskProjects acc' ps)"

abbreviation no_ownership :: WorkflowProjectOwnership where
  "no_ownership \<equiv> \<lparr>wo_Owners = [], wo_IgnoredPaths = [], wo_ConsumedUnownedPaths = [], wo_UnattributedPaths = []\<rparr>"

abbreviation ErrConfigurationInputOwnershipUnproven :: error where
  "ErrConfigurationInputOwnershipUnproven \<equiv> ''configuration input ownership is unproven''"

text \<open>The code returns the partial resolution together with the error when nothing is proven.\<close>

definition ResolveWorkflowProjectOwnership ::
    "DiscoverySnapshot \<Rightarrow> WorkflowInputRelevance \<Rightarrow> string list \<Rightarrow> WorkflowProjectOwnership \<times> error option" where
  "ResolveWorkflowProjectOwnership snapshot ob changedPaths =
     (case validateWorkflowInputRelevance ob changedPaths of
        Some err \<Rightarrow> (no_ownership, Some err)
      | None \<Rightarrow>
          if \<not> wr_Complete ob then (no_ownership, Some ''workflow-input observation is incomplete'')
          else case task_projects_loop (set (map dp_Path (ds_Projects snapshot))) (\<lambda>_. None) (ds_Tasks snapshot) of
            Inl err \<Rightarrow> (no_ownership, Some err)
          | Inr taskProjects \<Rightarrow>
              (case attribution_loop snapshot ob taskProjects
                  \<lparr>at_Owners = {}, at_Consumed = [], at_Unattributed = []\<rparr> changedPaths of
                 Inl err \<Rightarrow> (no_ownership, Some err)
               | Inr acc \<Rightarrow>
                   let resolution = \<lparr>wo_Owners = sortedKeys (at_Owners acc), wo_IgnoredPaths = [],
                         wo_ConsumedUnownedPaths = sort (at_Consumed acc),
                         wo_UnattributedPaths = sort (at_Unattributed acc)\<rparr> in
                   if length (wo_Owners resolution) = 0
                   then (resolution, Some ErrConfigurationInputOwnershipUnproven)
                   else (resolution\<lparr>wo_IgnoredPaths := wo_UnattributedPaths resolution\<rparr>, None)))"

definition ResolveWorkflowProjectOwners ::
    "DiscoverySnapshot \<Rightarrow> WorkflowInputRelevance \<Rightarrow> string list \<Rightarrow> string list \<times> string list \<times> error option" where
  "ResolveWorkflowProjectOwners snapshot ob changedPaths =
     (let (resolution, err) = ResolveWorkflowProjectOwnership snapshot ob changedPaths in
      (wo_Owners resolution, wo_IgnoredPaths resolution, err))"

section \<open>The derived reach of an entrypoint\<close>

text \<open>
  The two loops over a stack of pending names: \<open>known\<close> is the map of tasks or of projects; the last
  pending name is taken first. \<open>Inl\<close> is the error for an unknown name (error messages are kept
  without the quoted operand).
\<close>

function pending_loop :: "string \<Rightarrow> string graph \<Rightarrow> string list \<Rightarrow> string set \<Rightarrow> string set result" where
  "pending_loop kind g pending reached =
     (if pending = [] then Inr reached
      else let c = last pending in
        if c \<in> reached then pending_loop kind g (butlast pending) reached
        else if c \<notin> nodes g then Inl (''candidate '' @ kind @ '' has an unknown dependency'')
        else pending_loop kind g (butlast pending @ succs g c) (insert c reached))"
  by pat_completeness auto
termination
proof (relation "inv_image (less_than <*lex*> less_than) (\<lambda>(kind, g, ps, R). (card (nodes g - R), length ps))", goal_cases)
  case 1
  show ?case by (intro wf_inv_image wf_lex_prod wf_less_than)
next
  case (2 kind g pending reached c)
  then show ?case by simp
next
  case (3 kind g pending reached c)
  then have "card (nodes g - insert c reached) < card (nodes g - reached)"
    by (intro psubset_card_mono) auto
  then show ?case by simp
qed

declare pending_loop.simps [simp del]

definition task_graph :: "DiscoveredTask list \<Rightarrow> string graph" where
  "task_graph tasks = rev (map (\<lambda>t. (dt_Path t, dt_DependsOn t)) tasks)"

definition project_graph :: "DiscoveredProject list \<Rightarrow> string graph" where
  "project_graph projects = rev (map (\<lambda>p. (dp_Path p, dp_DependsOn p)) projects)"

text \<open>The project before the last colon; \<open>None\<close> when the name is not project-qualified.\<close>

definition entrypoint_owner :: "string \<Rightarrow> string option" where
  "entrypoint_owner e =
     (if CHR '':'' \<notin> set e then None
      else let task = takeWhile (\<lambda>c. c \<noteq> CHR '':'') (rev e); owner = take (length e - length task - 1) e in
        if task = [] then None else Some (if owner = [] then '':'' else owner))"

definition derive_reach :: "DiscoverySnapshot \<Rightarrow> string \<Rightarrow> string set result" where
  "derive_reach snapshot e =
     (case entrypoint_owner e of
        None \<Rightarrow> Inl ''candidate entrypoint is not project-qualified''
      | Some owner \<Rightarrow>
          if owner \<notin> set (map dp_Path (ds_Projects snapshot)) then Inl ''candidate entrypoint has no project''
          else if e \<in> nodes (task_graph (ds_Tasks snapshot))
          then (case pending_loop ''task'' (task_graph (ds_Tasks snapshot)) [e] {} of
                  Inl err \<Rightarrow> Inl err
                | Inr tasks \<Rightarrow> Inr ((\<lambda>t. case built_map dt_Path (ds_Tasks snapshot) t of
                     None \<Rightarrow> [] | Some task \<Rightarrow> dt_ProjectPath task) ` tasks))
          else pending_loop ''project'' (project_graph (ds_Projects snapshot)) [owner] {})"

fun derive_loop ::
    "DiscoverySnapshot \<Rightarrow> string set \<Rightarrow> DiscoveredEntrypoint list \<Rightarrow> string list \<Rightarrow> DiscoveredEntrypoint list result" where
  "derive_loop snapshot seen acc [] = Inr acc"
| "derive_loop snapshot seen acc (e # es) =
     (if e \<in> seen then derive_loop snapshot seen acc es
      else case derive_reach snapshot e of
        Inl err \<Rightarrow> Inl err
      | Inr reached \<Rightarrow> derive_loop snapshot (insert e seen)
          (acc @ [\<lparr>de_Name = e, de_ReachesProjects = sortedKeys reached, de_ContainsTestTasks = False,
                  de_UnknownRelationships = False\<rparr>]) es)"

definition DeriveProjectEntrypoints :: "DiscoverySnapshot \<Rightarrow> string list \<Rightarrow> DiscoverySnapshot result" where
  "DeriveProjectEntrypoints snapshot entrypoints =
     (if \<not> ds_Complete snapshot \<or> length (ds_Projects snapshot) = 0 \<or> length entrypoints = 0
      then Inl ''complete project graph and candidate entrypoints are required''
      else if list_ex (\<lambda>p. dp_Path p = [] \<or> dp_UnknownRelationships p) (ds_Projects snapshot)
      then Inl ''candidate project graph contains an unknown relationship''
      else case derive_loop snapshot (set (map de_Name (ds_Entrypoints snapshot))) (ds_Entrypoints snapshot) entrypoints of
        Inl err \<Rightarrow> Inl err
      | Inr es \<Rightarrow> Inr (snapshot\<lparr>ds_Entrypoints := es\<rparr>))"

section \<open>Facts\<close>

text \<open>The projects of the snapshot as projects of a declared graph.\<close>

definition as_project :: "DiscoveredProject \<Rightarrow> Project" where
  "as_project p = \<lparr>p_Path = dp_Path p, p_SourcePaths = dp_SourcePaths p, p_OwnedSourcePaths = dp_OwnedSourcePaths p,
     p_DependsOn = dp_DependsOn p, p_UnknownRelationships = dp_UnknownRelationships p\<rparr>"

lemma source_specificity_project: "source_specificity c p = project_specificity True c (as_project p)"
  by (simp add: source_specificity_def project_specificity_def as_project_def Let_def)

lemma owner_step_matching: "owner_step c acc p = matching_step True True c acc (as_project p)"
  by (simp add: owner_step_def matching_step_def source_specificity_project as_project_def Let_def split: prod.split)

lemma matchingProjectOwners_matching:
  "matchingProjectOwners s c = matchingChangedProjects (map as_project (ds_Projects s)) c True True"
proof -
  have "foldl (owner_step c) acc ps = foldl (matching_step True True c) acc (map as_project ps)" for acc ps
    by (induction ps arbitrary: acc) (simp_all add: owner_step_matching)
  then show ?thesis by (simp add: matchingProjectOwners_def matchingChangedProjects_def)
qed

lemma matchingProjectOwners_best:
  "matchingProjectOwners s c = p_Path ` best_owners True c (as_project ` set (ds_Projects s))"
  by (simp add: matchingProjectOwners_matching matchingChangedProjects_best)

lemma matchingProjectOwners_sub: "matchingProjectOwners s c \<subseteq> set (map dp_Path (ds_Projects s))"
  by (auto simp: matchingProjectOwners_best best_owners_def as_project_def)

lemma finite_matchingProjectOwners [simp]: "finite (matchingProjectOwners s c)"
  using matchingProjectOwners_sub by (rule finite_subset) simp

lemma owners_loop_Inr:
  "owners_loop s R cs = Inr R' \<longleftrightarrow>
     (\<forall>c\<in>set cs. card (matchingProjectOwners s c) = 1) \<and> R' = R \<union> (\<Union>c\<in>set cs. matchingProjectOwners s c)"
  by (induction s R cs rule: owners_loop.induct) (auto simp: Let_def)

lemma task_projects_loop_Inr:
  "task_projects_loop P acc ts = Inr m \<Longrightarrow>
     (\<forall>t p. m t = Some p \<longrightarrow> acc t = Some p \<or> (\<exists>k\<in>set ts. dt_Path k = t \<and> dt_ProjectPath k = p \<and> p \<in> P))"
proof (induction ts arbitrary: acc)
  case (Cons t ts)
  from Cons.prems have "dt_ProjectPath t \<in> P" "acc (dt_Path t) = None \<or> acc (dt_Path t) = Some (dt_ProjectPath t)"
    and "task_projects_loop P (acc(dt_Path t \<mapsto> dt_ProjectPath t)) ts = Inr m"
    by (cases "acc (dt_Path t)"; simp split: if_splits)+
  with Cons.IH [OF this(3)] show ?case by (simp split: if_splits) blast
qed auto

text \<open>What one changed path contributes to the owners.\<close>

definition attributed ::
    "DiscoverySnapshot \<Rightarrow> WorkflowInputRelevance \<Rightarrow> (string \<Rightarrow> string option) \<Rightarrow> string set \<Rightarrow> string list \<Rightarrow> string list \<Rightarrow>
      string \<Rightarrow> bool" where
  "attributed s ob tp R consumed unattributed c \<longleftrightarrow>
     (\<exists>p. matchingProjectOwners s c = {p} \<and> p \<in> R) \<or>
     matchingProjectOwners s c = {} \<and> consumers_of ob c \<noteq> [] \<and> c \<in> set consumed \<and>
       (\<forall>t\<in>set (consumers_of ob c). \<exists>p. tp t = Some p \<and> p \<in> R) \<or>
     matchingProjectOwners s c = {} \<and> consumers_of ob c = [] \<and> c \<in> set unattributed"

lemma attribute_path_Inr:
  assumes "attribute_path s ob tp acc c = Inr acc'"
  shows "attributed s ob tp (at_Owners acc') (at_Consumed acc') (at_Unattributed acc') c"
    and "at_Owners acc \<subseteq> at_Owners acc'" "set (at_Consumed acc) \<subseteq> set (at_Consumed acc')"
    and "set (at_Unattributed acc) \<subseteq> set (at_Unattributed acc')"
    and "at_Owners acc' \<subseteq> at_Owners acc \<union> matchingProjectOwners s c \<union> ran tp"
    and "set (at_Unattributed acc') \<subseteq> set (at_Unattributed acc) \<union>
           {x. x = c \<and> matchingProjectOwners s x = {} \<and> consumers_of ob x = []}"
proof -
  let ?M = "matchingProjectOwners s c"
  have "(card ?M = 1 \<and> acc' = acc\<lparr>at_Owners := at_Owners acc \<union> ?M\<rparr>) \<or>
    (?M = {} \<and> consumers_of ob c = [] \<and> acc' = acc\<lparr>at_Unattributed := at_Unattributed acc @ [c]\<rparr>) \<or>
    (?M = {} \<and> consumers_of ob c \<noteq> [] \<and> (\<forall>t\<in>set (consumers_of ob c). tp t \<noteq> None) \<and>
     acc' = acc\<lparr>at_Owners := at_Owners acc \<union> set (map (\<lambda>c. the (tp c)) (consumers_of ob c)),
                at_Consumed := at_Consumed acc @ [c]\<rparr>)"
    using assms by (auto simp: attribute_path_def Let_def list_ex_iff split: if_splits)
  then consider (one) "card ?M = 1" "acc' = acc\<lparr>at_Owners := at_Owners acc \<union> ?M\<rparr>"
    | (none) "?M = {}" "consumers_of ob c = []" "acc' = acc\<lparr>at_Unattributed := at_Unattributed acc @ [c]\<rparr>"
    | (consumed) "?M = {}" "consumers_of ob c \<noteq> []" "\<forall>t\<in>set (consumers_of ob c). tp t \<noteq> None"
      "acc' = acc\<lparr>at_Owners := at_Owners acc \<union> set (map (\<lambda>c. the (tp c)) (consumers_of ob c)),
                at_Consumed := at_Consumed acc @ [c]\<rparr>" by blast
  note cases3 = this
  show "attributed s ob tp (at_Owners acc') (at_Consumed acc') (at_Unattributed acc') c"
    by (cases rule: cases3) (auto simp: attributed_def card_1_singleton_iff image_iff, force+)
  show "at_Owners acc \<subseteq> at_Owners acc'" "set (at_Consumed acc) \<subseteq> set (at_Consumed acc')"
    "set (at_Unattributed acc) \<subseteq> set (at_Unattributed acc')"
    by (cases rule: cases3; auto)+
  show "at_Owners acc' \<subseteq> at_Owners acc \<union> ?M \<union> ran tp"
    by (cases rule: cases3) (fastforce simp: ran_def)+
  show "set (at_Unattributed acc') \<subseteq> set (at_Unattributed acc) \<union>
           {x. x = c \<and> matchingProjectOwners s x = {} \<and> consumers_of ob x = []}"
    by (cases rule: cases3) auto
qed

lemma attributed_mono:
  assumes "attributed s ob tp R C U c" "R \<subseteq> R'" "set C \<subseteq> set C'" "set U \<subseteq> set U'"
  shows "attributed s ob tp R' C' U' c"
  using assms unfolding attributed_def by (meson subsetD)

lemma attribution_loop_Inr:
  assumes "attribution_loop s ob tp acc cs = Inr acc'"
  shows "(\<forall>c\<in>set cs. attributed s ob tp (at_Owners acc') (at_Consumed acc') (at_Unattributed acc') c) \<and>
    at_Owners acc \<subseteq> at_Owners acc' \<and> set (at_Consumed acc) \<subseteq> set (at_Consumed acc') \<and>
    set (at_Unattributed acc) \<subseteq> set (at_Unattributed acc') \<and>
    at_Owners acc' \<subseteq> at_Owners acc \<union> (\<Union>c\<in>set cs. matchingProjectOwners s c) \<union> ran tp \<and>
    set (at_Unattributed acc') \<subseteq> set (at_Unattributed acc) \<union>
      {x \<in> set cs. matchingProjectOwners s x = {} \<and> consumers_of ob x = []}"
  using assms
proof (induction cs arbitrary: acc)
  case (Cons c cs)
  then obtain acc1 where one: "attribute_path s ob tp acc c = Inr acc1"
    and rest: "attribution_loop s ob tp acc1 cs = Inr acc'" by (auto split: sum.splits)
  note IH = Cons.IH [OF rest]
  note step = attribute_path_Inr [OF one]
  have "attributed s ob tp (at_Owners acc') (at_Consumed acc') (at_Unattributed acc') c"
    using attributed_mono [OF step(1)] IH by blast
  moreover have "set (at_Unattributed acc') \<subseteq> set (at_Unattributed acc) \<union>
      {x \<in> set (c # cs). matchingProjectOwners s x = {} \<and> consumers_of ob x = []}"
    using IH step(6) by (simp add: subset_iff) metis
  ultimately show ?case using IH step(2-5) by auto
qed auto

lemma pending_loop_reach:
  "pending_loop kind g ps R = Inr R' \<Longrightarrow> R' = reach_loop g (rev ps) R"
proof (induction kind g ps R rule: pending_loop.induct)
  case (1 kind g ps R)
  show ?case
  proof (cases "ps = []")
    case True
    with "1.prems" show ?thesis by (simp add: pending_loop.simps [of kind g "[]"])
  next
    case False
    then have rev: "rev ps = last ps # rev (butlast ps)" by (metis append_butlast_last_id rev_eq_Cons_iff rev_rev_ident)
    show ?thesis
    proof (cases "last ps \<in> R")
      case True
      with 1(1) [OF False refl True] "1.prems" False show ?thesis
        unfolding rev by (simp add: pending_loop.simps [of kind g ps])
    next
      case out: False
      with "1.prems" False have n: "last ps \<in> nodes g"
        by (auto simp: pending_loop.simps [of kind g ps] Let_def split: if_splits)
      with 1(2) [OF False refl out] "1.prems" False out show ?thesis
        unfolding rev by (simp add: pending_loop.simps [of kind g ps] Let_def)
    qed
  qed
qed

lemma pending_loop_reachable:
  "pending_loop kind g [x] {} = Inr R \<Longrightarrow> R = {q. (x, q) \<in> (edges g)\<^sup>*}"
  using pending_loop_reach [of kind g "[x]" "{}" R] reachable_from_eq [of g "[x]"] by (simp add: reachable_from_def)

section \<open>Properties\<close>

text \<open>\<open>ResolveProjectOwners\<close> succeeds exactly when there is a changed path and every changed path
  has exactly one most specific owner, and then returns those owners in ascending order.\<close>

theorem ResolveProjectOwners_iff:
  "ResolveProjectOwners s paths = Inr owners \<longleftrightarrow>
     paths \<noteq> [] \<and>
     (\<forall>c\<in>set paths. \<exists>p. p_Path ` best_owners True c (as_project ` set (ds_Projects s)) = {p}) \<and>
     owners = sorted_list_of_set (\<Union>c\<in>set paths. p_Path ` best_owners True c (as_project ` set (ds_Projects s)))"
proof (cases "owners_loop s {} paths")
  case (Inl err)
  then have "\<not> (\<forall>c\<in>set paths. card (matchingProjectOwners s c) = 1)"
    using owners_loop_Inr [of s "{}" paths] by auto
  with Inl show ?thesis
    by (auto simp: ResolveProjectOwners_def matchingProjectOwners_best card_1_singleton_iff)
next
  case (Inr R)
  from Inr owners_loop_Inr [of s "{}" paths R] show ?thesis
    by (auto simp: ResolveProjectOwners_def matchingProjectOwners_best card_1_singleton_iff sortedKeys_def)
qed

definition ex_snapshot :: DiscoverySnapshot where
  "ex_snapshot = \<lparr>ds_SchemaVersion = ''buildopt.build-impact/gradle-discovery/v1'', ds_GradleVersion = ''8.5'',
     ds_Complete = True, ds_FallbackReasons = [], ds_IncludedBuildPaths = [],
     ds_Projects = [\<lparr>dp_Path = '':lib'', dp_SourcePaths = [''lib/**''], dp_OwnedSourcePaths = [],
         dp_DependsOn = ['':core''], dp_UnknownRelationships = False\<rparr>,
       \<lparr>dp_Path = '':core'', dp_SourcePaths = [''core/**''], dp_OwnedSourcePaths = [],
         dp_DependsOn = [], dp_UnknownRelationships = False\<rparr>],
     ds_Tasks = [\<lparr>dt_Path = '':lib:jar'', dt_ProjectPath = '':lib'', dt_DependsOn = ['':core:jar'']\<rparr>,
       \<lparr>dt_Path = '':core:jar'', dt_ProjectPath = '':core'', dt_DependsOn = []\<rparr>],
     ds_Entrypoints = []\<rparr>"

theorem ResolveProjectOwners_iff_witness:
  "ResolveProjectOwners ex_snapshot [''lib/src/A.java'', ''core/src/B.java''] = Inr ['':core'', '':lib'']"
  unfolding ResolveProjectOwners_iff card_1_singleton_iff [symmetric] by code_simp

lemma workflow_ownership_success:
  assumes "ResolveWorkflowProjectOwnership s ob paths = (res, None)"
  obtains tp acc where "task_projects_loop (set (map dp_Path (ds_Projects s))) (\<lambda>_. None) (ds_Tasks s) = Inr tp"
    "attribution_loop s ob tp \<lparr>at_Owners = {}, at_Consumed = [], at_Unattributed = []\<rparr> paths = Inr acc"
    "wo_Owners res = sortedKeys (at_Owners acc)" "wo_Owners res \<noteq> []"
    "wo_IgnoredPaths res = sort (at_Unattributed acc)" "wr_Complete ob"
proof (cases "validateWorkflowInputRelevance ob paths")
  case (Some err)
  with assms show ?thesis by (simp add: ResolveWorkflowProjectOwnership_def)
next
  case v: None
  let ?tasks = "task_projects_loop (set (map dp_Path (ds_Projects s))) (\<lambda>_. None) (ds_Tasks s)"
  show ?thesis
  proof (cases ?tasks)
    case (Inl err)
    with v assms show ?thesis by (simp add: ResolveWorkflowProjectOwnership_def split: if_splits)
  next
    case tp: (Inr tp)
    show ?thesis
    proof (cases "attribution_loop s ob tp \<lparr>at_Owners = {}, at_Consumed = [], at_Unattributed = []\<rparr> paths")
      case (Inl err)
      with v tp assms show ?thesis by (simp add: ResolveWorkflowProjectOwnership_def split: if_splits)
    next
      case (Inr acc)
      with v tp assms have "wr_Complete ob" "wo_Owners res = sortedKeys (at_Owners acc)" "wo_Owners res \<noteq> []"
        "wo_IgnoredPaths res = sort (at_Unattributed acc)"
        by (auto simp: ResolveWorkflowProjectOwnership_def Let_def split: if_splits)
      with tp Inr that show ?thesis by blast
    qed
  qed
qed

text \<open>A successful \<open>ResolveWorkflowProjectOwnership\<close> proves at least one owner, and every changed path
  is accounted for: it has one most specific owner, which is reported; or it has none and every task
  that consumes it belongs to a reported project; or no task consumes it and it is reported as
  ignored. Nothing else is ignored, and every reported owner is a project of the snapshot.\<close>

theorem workflow_ownership_sound:
  assumes "ResolveWorkflowProjectOwnership s ob paths = (res, None)"
  shows "wo_Owners res \<noteq> [] \<and> set (wo_Owners res) \<subseteq> set (map dp_Path (ds_Projects s)) \<and>
    (\<forall>c\<in>set paths.
       (\<exists>p. matchingProjectOwners s c = {p} \<and> p \<in> set (wo_Owners res)) \<or>
       matchingProjectOwners s c = {} \<and> consumers_of ob c \<noteq> [] \<and>
         (\<forall>t\<in>set (consumers_of ob c). \<exists>k\<in>set (ds_Tasks s). dt_Path k = t \<and> dt_ProjectPath k \<in> set (wo_Owners res)) \<or>
       matchingProjectOwners s c = {} \<and> consumers_of ob c = [] \<and> c \<in> set (wo_IgnoredPaths res)) \<and>
    (\<forall>c\<in>set (wo_IgnoredPaths res). c \<in> set paths \<and> matchingProjectOwners s c = {} \<and> consumers_of ob c = []) \<and>
    wr_Complete ob"
proof -
  let ?P = "set (map dp_Path (ds_Projects s))"
  from assms obtain tp acc where tp: "task_projects_loop ?P (\<lambda>_. None) (ds_Tasks s) = Inr tp"
    and acc: "attribution_loop s ob tp \<lparr>at_Owners = {}, at_Consumed = [], at_Unattributed = []\<rparr> paths = Inr acc"
    and res: "wo_Owners res = sortedKeys (at_Owners acc)" "wo_Owners res \<noteq> []"
      "wo_IgnoredPaths res = sort (at_Unattributed acc)" and complete: "wr_Complete ob"
    by (rule workflow_ownership_success)
  note loop = attribution_loop_Inr [OF acc, simplified]
  have ran: "ran tp \<subseteq> ?P" using task_projects_loop_Inr [OF tp] by (auto simp: ran_def)
  have "at_Owners acc \<subseteq> (\<Union>c\<in>set paths. matchingProjectOwners s c) \<union> ran tp"
    and unatt: "set (at_Unattributed acc) \<subseteq> {x \<in> set paths. matchingProjectOwners s x = {} \<and> consumers_of ob x = []}"
    using loop by simp_all
  then have sub: "at_Owners acc \<subseteq> ?P" using ran matchingProjectOwners_sub [of s] by blast
  then have own: "set (wo_Owners res) = at_Owners acc" using res(1) by (simp add: finite_subset)
  have task: "\<exists>k\<in>set (ds_Tasks s). dt_Path k = t \<and> dt_ProjectPath k = p" if "tp t = Some p" for t p
    using task_projects_loop_Inr [OF tp] that by blast
  have ign: "set (wo_IgnoredPaths res) = set (at_Unattributed acc)" using res(3) by simp
  have "(\<exists>p. matchingProjectOwners s c = {p} \<and> p \<in> set (wo_Owners res)) \<or>
       matchingProjectOwners s c = {} \<and> consumers_of ob c \<noteq> [] \<and>
         (\<forall>t\<in>set (consumers_of ob c). \<exists>k\<in>set (ds_Tasks s). dt_Path k = t \<and> dt_ProjectPath k \<in> set (wo_Owners res)) \<or>
       matchingProjectOwners s c = {} \<and> consumers_of ob c = [] \<and> c \<in> set (wo_IgnoredPaths res)"
    if "c \<in> set paths" for c
  proof -
    have "attributed s ob tp (set (wo_Owners res)) (at_Consumed acc) (at_Unattributed acc) c"
      using conjunct1 [OF attribution_loop_Inr [OF acc]] that own by simp
    then show ?thesis unfolding attributed_def
    proof (elim disjE)
      assume a: "matchingProjectOwners s c = {} \<and> consumers_of ob c \<noteq> [] \<and> c \<in> set (at_Consumed acc) \<and>
        (\<forall>t\<in>set (consumers_of ob c). \<exists>p. tp t = Some p \<and> p \<in> set (wo_Owners res))"
      have "\<exists>k\<in>set (ds_Tasks s). dt_Path k = t \<and> dt_ProjectPath k \<in> set (wo_Owners res)"
        if "t \<in> set (consumers_of ob c)" for t
      proof -
        from a that obtain p where p: "tp t = Some p" "p \<in> set (wo_Owners res)" by blast
        from task [OF p(1)] p(2) show ?thesis by blast
      qed
      with a show ?thesis by simp
    qed (simp_all add: ign)
  qed
  moreover have "\<forall>c\<in>set (wo_IgnoredPaths res). c \<in> set paths \<and> matchingProjectOwners s c = {} \<and> consumers_of ob c = []"
    using unatt ign by blast
  ultimately show ?thesis using res(2) sub own complete by (intro conjI ballI) simp_all
qed

definition ex_inputs :: WorkflowInputRelevance where
  "ex_inputs = \<lparr>wr_SchemaVersion = WorkflowInputRelevanceSchemaVersion, wr_Complete = True, wr_FallbackReasons = [],
     wr_Paths = [\<lparr>wi_Path = ''conf/x.yml'', wi_ConsumingTasks = ['':core:jar'']\<rparr>,
       \<lparr>wi_Path = ''notes.txt'', wi_ConsumingTasks = []\<rparr>]\<rparr>"

theorem workflow_ownership_sound_witness:
  "wo_Owners (fst (ResolveWorkflowProjectOwnership ex_snapshot ex_inputs [''conf/x.yml'', ''notes.txt''])) \<noteq> [] \<and>
   fst (ResolveWorkflowProjectOwnership ex_snapshot ex_inputs [''conf/x.yml'', ''notes.txt'']) =
     \<lparr>wo_Owners = ['':core''], wo_IgnoredPaths = [''notes.txt''], wo_ConsumedUnownedPaths = [''conf/x.yml''],
      wo_UnattributedPaths = [''notes.txt'']\<rparr>"
proof -
  let ?r = "\<lparr>wo_Owners = ['':core''], wo_IgnoredPaths = [''notes.txt''], wo_ConsumedUnownedPaths = [''conf/x.yml''],
      wo_UnattributedPaths = [''notes.txt'']\<rparr>"
  have r: "ResolveWorkflowProjectOwnership ex_snapshot ex_inputs [''conf/x.yml'', ''notes.txt''] = (?r, None)"
    by code_simp
  from workflow_ownership_sound [OF r] show ?thesis unfolding r fst_conv by blast
qed

text \<open>A change none of whose paths is attributed to a project never succeeds: the resolution is
  empty and comes with the error that keeps the native workflow.\<close>

lemma workflow_unattributed_rejected:
  assumes "\<forall>c\<in>set paths. matchingProjectOwners s c = {} \<and> consumers_of ob c = []"
  shows "snd (ResolveWorkflowProjectOwnership s ob paths) \<noteq> None \<and>
    wo_Owners (fst (ResolveWorkflowProjectOwnership s ob paths)) = [] \<and>
    wo_IgnoredPaths (fst (ResolveWorkflowProjectOwnership s ob paths)) = []"
proof -
  have none: "attribution_loop s ob tp acc cs = Inr (acc\<lparr>at_Unattributed := at_Unattributed acc @ cs\<rparr>)"
    if "set cs \<subseteq> set paths" for tp acc cs
    using that
  proof (induction cs arbitrary: acc)
    case (Cons c cs)
    with assms have "attribute_path s ob tp acc c = Inr (acc\<lparr>at_Unattributed := at_Unattributed acc @ [c]\<rparr>)"
      by (simp add: attribute_path_def)
    with Cons show ?case by simp
  qed simp
  from none [OF order_refl] show ?thesis
    by (auto simp: ResolveWorkflowProjectOwnership_def Let_def sortedKeys_def split: option.splits sum.splits)
qed

lemma workflow_unattributed_rejected_witness:
  "snd (ResolveWorkflowProjectOwnership ex_snapshot
     (ex_inputs\<lparr>wr_Paths := [\<lparr>wi_Path = ''notes.txt'', wi_ConsumingTasks = []\<rparr>]\<rparr>) [''notes.txt'']) \<noteq> None"
proof -
  let ?ob = "ex_inputs\<lparr>wr_Paths := [\<lparr>wi_Path = ''notes.txt'', wi_ConsumingTasks = []\<rparr>]\<rparr>"
  have "matchingProjectOwners ex_snapshot ''notes.txt'' = {} \<and> consumers_of ?ob ''notes.txt'' = []" by code_simp
  then have "\<forall>c\<in>set [''notes.txt'']. matchingProjectOwners ex_snapshot c = {} \<and> consumers_of ?ob c = []" by simp
  from workflow_unattributed_rejected [OF this] show ?thesis by blast
qed

text \<open>A derived entrypoint reaches what the observed graph says: for a known task, the projects of
  every task reachable along task dependencies; otherwise every project reachable from its own
  project. The search over the stack always ends.\<close>

theorem derive_reach_correct:
  assumes "derive_reach s e = Inr reached"
  shows "\<exists>owner. entrypoint_owner e = Some owner \<and> owner \<in> set (map dp_Path (ds_Projects s)) \<and>
    reached = (if e \<in> nodes (task_graph (ds_Tasks s))
      then (\<lambda>t. case built_map dt_Path (ds_Tasks s) t of None \<Rightarrow> [] | Some task \<Rightarrow> dt_ProjectPath task) `
        {t. (e, t) \<in> (edges (task_graph (ds_Tasks s)))\<^sup>*}
      else {q. (owner, q) \<in> (edges (project_graph (ds_Projects s)))\<^sup>*})"
proof -
  from assms obtain owner where owner: "entrypoint_owner e = Some owner" "owner \<in> set (map dp_Path (ds_Projects s))"
    by (auto simp: derive_reach_def split: option.splits if_splits)
  show ?thesis
  proof (cases "e \<in> nodes (task_graph (ds_Tasks s))")
    case True
    with assms owner obtain R where "pending_loop ''task'' (task_graph (ds_Tasks s)) [e] {} = Inr R"
      "reached = (\<lambda>t. case built_map dt_Path (ds_Tasks s) t of None \<Rightarrow> [] | Some task \<Rightarrow> dt_ProjectPath task) ` R"
      by (auto simp: derive_reach_def split: sum.splits)
    with pending_loop_reachable [OF this(1)] owner True show ?thesis by simp
  next
    case False
    with assms owner have "pending_loop ''project'' (project_graph (ds_Projects s)) [owner] {} = Inr reached"
      by (simp add: derive_reach_def)
    with pending_loop_reachable [OF this] owner False show ?thesis by simp
  qed
qed

theorem derive_reach_correct_witness:
  "derive_reach ex_snapshot '':lib:jar'' = Inr {'':lib'', '':core''} \<and>
   {'':lib'', '':core''} = (\<lambda>t. case built_map dt_Path (ds_Tasks ex_snapshot) t of None \<Rightarrow> [] | Some task \<Rightarrow> dt_ProjectPath task) `
        {t. ('':lib:jar'', t) \<in> (edges (task_graph (ds_Tasks ex_snapshot)))\<^sup>*}"
proof -
  have r: "derive_reach ex_snapshot '':lib:jar'' = Inr {'':lib'', '':core''}" by code_simp
  have "'':lib:jar'' \<in> nodes (task_graph (ds_Tasks ex_snapshot))" by code_simp
  with r derive_reach_correct [OF r] show ?thesis by auto
qed

end
