(* ===== verification/ChangeAware.thy ===== *)
theory ChangeAware
  imports GoPath GraphSearch "HOL-Library.Product_Lexorder"
begin

text \<open>
  \<open>internal/changeaware/closure.go\<close>: from one completed Gradle workflow and a change set, which of
  the requested tasks have to run again and which outputs may be kept. The maps of the code are
  lists of tasks in an arbitrary iteration order; no result depends on that order. The SHA-256 of the
  action binding is the parameter \<open>sha256_hex\<close>.
\<close>

section \<open>Data\<close>

abbreviation CaptureSchemaVersion :: string where
  "CaptureSchemaVersion \<equiv> ''buildopt.poc/change-aware-producer-capture/v1''"
abbreviation ReportSchemaVersion :: string where
  "ReportSchemaVersion \<equiv> ''buildopt.poc/change-aware-producer-report/v1''"
abbreviation CaptureComplete :: string where "CaptureComplete \<equiv> ''COMPLETE''"
abbreviation CaptureUnavailable :: string where "CaptureUnavailable \<equiv> ''UNAVAILABLE''"
abbreviation CaptureFailed :: string where "CaptureFailed \<equiv> ''FAILED''"
abbreviation StatusTestableActions :: string where "StatusTestableActions \<equiv> ''TESTABLE_ACTIONS''"
abbreviation StatusNoSafeAction :: string where "StatusNoSafeAction \<equiv> ''NO_SAFE_ACTION''"
abbreviation StatusNotApplicable :: string where "StatusNotApplicable \<equiv> ''NOT_APPLICABLE''"
abbreviation StatusInputUnavailable :: string where "StatusInputUnavailable \<equiv> ''INPUT_UNAVAILABLE''"
abbreviation StatusProducerFailed :: string where "StatusProducerFailed \<equiv> ''PRODUCER_FAILED''"

record PathEvidence =
  pe_Path :: string
  pe_Kind :: string

record OutputEvidence =
  oe_Path :: string
  oe_Kind :: string
  oe_SHA256 :: string
  oe_Exists :: bool

record TaskEvidence =
  te_Path :: string
  te_DependsOn :: "string list"
  te_Inputs :: "PathEvidence list"
  te_Outputs :: "OutputEvidence list"

record Capture =
  cap_SchemaVersion :: string
  cap_GeneratedAt :: string
  cap_Family :: string
  cap_DSL :: string
  cap_BaseRevision :: string
  cap_TargetRevision :: string
  cap_Status :: string
  cap_Reason :: string
  cap_ChangedPaths :: "string list"
  cap_RequestedTasks :: "string list"
  cap_RequiredOutputs :: "string list"
  cap_Tasks :: "TaskEvidence list"

record BoundOutput =
  bo_ProducerTask :: string
  bo_Path :: string
  bo_Kind :: string
  bo_SHA256 :: string

record Report =
  rep_SchemaVersion :: string
  rep_GeneratedAt :: string
  rep_Family :: string
  rep_DSL :: string
  rep_BaseRevision :: string
  rep_TargetRevision :: string
  rep_Status :: string
  rep_Reason :: string
  rep_ChangedPaths :: "string list"
  rep_RequestedTasks :: "string list"
  rep_RequiredOutputs :: "string list"
  rep_AffectedInputTasks :: "string list"
  rep_RequiredProducers :: "string list"
  rep_CandidateTasks :: "string list"
  rep_OmittedTasks :: "string list"
  rep_OmittedOutputs :: "BoundOutput list"
  rep_ActionBindingSHA256 :: string
  rep_InputComplete :: bool
  rep_TestableActions :: nat
  rep_PerformanceMeasured :: bool
  rep_ActivationAuthorized :: bool

section \<open>Checks\<close>

definition under :: "string \<Rightarrow> string \<Rightarrow> bool" where
  "under root candidate = (candidate \<noteq> root \<and> hasPrefix (root @ ''/'') candidate)"

definition safeRepositoryPath :: "string \<Rightarrow> bool" where
  "safeRepositoryPath v = (v \<noteq> [] \<and> v = path_clean v \<and> v \<noteq> ''.'' \<and> \<not> hasPrefix ''/'' v \<and>
     \<not> hasPrefix ''../'' v \<and> CHR 0x5C \<notin> set v \<and> CHR 0x00 \<notin> set v)"

definition safeTaskPath :: "string \<Rightarrow> bool" where
  "safeTaskPath v = (hasPrefix '':'' v \<and> \<not> containsAny v [CHR 0x00, CHR 0x0D, CHR 0x0A, CHR '' ''])"

definition safeLabel :: "string \<Rightarrow> bool" where
  "safeLabel v = (if v = [] \<or> length v > 128 then False
     else list_all (\<lambda>c. is_lower c \<or> is_digit c \<or> c = CHR ''-'' \<or> c = CHR ''_'') v)"

definition validSHA :: "string \<Rightarrow> bool" where
  "validSHA v = (if length v \<noteq> 64 then False else list_all is_hex v)"

definition validRevision :: "string \<Rightarrow> bool" where
  "validRevision v = (if length v \<noteq> 40 then False else list_all is_hex v)"

fun string_set_loop :: "(string \<Rightarrow> bool) \<Rightarrow> string set \<Rightarrow> string list \<Rightarrow> bool" where
  "string_set_loop validate seen [] = True"
| "string_set_loop validate seen (v # vs) =
     (if \<not> validate v \<or> v \<in> seen then False else string_set_loop validate (insert v seen) vs)"

definition validateStringSet :: "string list \<Rightarrow> (string \<Rightarrow> bool) \<Rightarrow> bool" where
  "validateStringSet values validate = (if length values = 0 then False else string_set_loop validate {} values)"

fun validatePaths_loop :: "string set \<Rightarrow> PathEvidence list \<Rightarrow> bool" where
  "validatePaths_loop seen [] = True"
| "validatePaths_loop seen (v # vs) =
     (if \<not> safeRepositoryPath (pe_Path v) \<or> (pe_Kind v \<noteq> ''FILE'' \<and> pe_Kind v \<noteq> ''DIRECTORY'') \<or>
         pe_Kind v @ [CHR 0x00] @ pe_Path v \<in> seen then False
      else validatePaths_loop (insert (pe_Kind v @ [CHR 0x00] @ pe_Path v) seen) vs)"

definition validatePaths :: "PathEvidence list \<Rightarrow> bool" where
  "validatePaths vs = validatePaths_loop {} vs"

fun validateOutputs_loop :: "string set \<Rightarrow> OutputEvidence list \<Rightarrow> bool" where
  "validateOutputs_loop seen [] = True"
| "validateOutputs_loop seen (v # vs) =
     (if \<not> safeRepositoryPath (oe_Path v) \<or> (oe_Kind v \<noteq> ''FILE'' \<and> oe_Kind v \<noteq> ''DIRECTORY'') \<or>
         (oe_Exists v \<and> \<not> validSHA (oe_SHA256 v)) \<or> (\<not> oe_Exists v \<and> oe_SHA256 v \<noteq> []) \<or>
         oe_Kind v @ [CHR 0x00] @ oe_Path v \<in> seen then False
      else validateOutputs_loop (insert (oe_Kind v @ [CHR 0x00] @ oe_Path v) seen) vs)"

definition validateOutputs :: "OutputEvidence list \<Rightarrow> bool" where
  "validateOutputs vs = validateOutputs_loop {} vs"

fun tasks_ok :: "string set \<Rightarrow> TaskEvidence list \<Rightarrow> bool" where
  "tasks_ok seen [] = True"
| "tasks_ok seen (t # ts) =
     (if \<not> safeTaskPath (te_Path t) \<or> te_Path t \<in> seen \<or>
         (length (te_DependsOn t) \<noteq> 0 \<and> \<not> validateStringSet (te_DependsOn t) safeTaskPath) then False
      else if \<not> validatePaths (te_Inputs t) \<or> \<not> validateOutputs (te_Outputs t) then False
      else tasks_ok (insert (te_Path t) seen) ts)"

definition dependencies_graph :: "TaskEvidence list \<Rightarrow> string graph" where
  "dependencies_graph tasks = map (\<lambda>t. (te_Path t, te_DependsOn t)) tasks"

definition reverse_graph :: "TaskEvidence list \<Rightarrow> string graph" where
  "reverse_graph tasks =
     map (\<lambda>t. (te_Path t, map te_Path (filter (\<lambda>u. te_Path t \<in> set (te_DependsOn u)) tasks))) tasks"

text \<open>\<open>validateTasks\<close>: on success the two graphs the code builds.\<close>

definition validateTasks :: "TaskEvidence list \<Rightarrow> (string graph \<times> string graph) option" where
  "validateTasks values =
     (if \<not> tasks_ok {} values then None
      else if list_ex (\<lambda>t. list_ex (\<lambda>d. d = te_Path t \<or> d \<notin> set (map te_Path values)) (te_DependsOn t)) values
      then None
      else Some (dependencies_graph values, reverse_graph values))"

section \<open>Analyze\<close>

definition taskConsumes :: "TaskEvidence \<Rightarrow> string \<Rightarrow> bool" where
  "taskConsumes task changed =
     list_ex (\<lambda>i. pe_Path i = changed \<or> (pe_Kind i = ''DIRECTORY'' \<and> under (pe_Path i) changed)) (te_Inputs task)"

definition taskProduces :: "TaskEvidence \<Rightarrow> string \<Rightarrow> bool" where
  "taskProduces task required =
     list_ex (\<lambda>i. oe_Path i = required \<or> (oe_Kind i = ''DIRECTORY'' \<and> under (oe_Path i) required)) (te_Outputs task)"

definition ancestors :: "string graph \<Rightarrow> string list \<Rightarrow> string set" where
  "ancestors tasks roots = reachable_from tasks roots"

definition descendants :: "string graph \<Rightarrow> string list \<Rightarrow> string set" where
  "descendants reverse roots = reachable_from reverse roots"

definition cyclic :: "string graph \<Rightarrow> bool" where
  "cyclic tasks = (dfs_cyclic tasks \<noteq> Some False)"

definition baseReport :: "Capture \<Rightarrow> Report" where
  "baseReport c =
     \<lparr>rep_SchemaVersion = ReportSchemaVersion, rep_GeneratedAt = cap_GeneratedAt c, rep_Family = cap_Family c,
      rep_DSL = cap_DSL c, rep_BaseRevision = cap_BaseRevision c, rep_TargetRevision = cap_TargetRevision c,
      rep_Status = [], rep_Reason = [], rep_ChangedPaths = cap_ChangedPaths c,
      rep_RequestedTasks = cap_RequestedTasks c, rep_RequiredOutputs = cap_RequiredOutputs c,
      rep_AffectedInputTasks = [], rep_RequiredProducers = [], rep_CandidateTasks = [],
      rep_OmittedTasks = [], rep_OmittedOutputs = [], rep_ActionBindingSHA256 = [],
      rep_InputComplete = False, rep_TestableActions = 0, rep_PerformanceMeasured = False,
      rep_ActivationAuthorized = False\<rparr>"

definition noSafe :: "Report \<Rightarrow> string \<Rightarrow> Report" where
  "noSafe r reason = r\<lparr>rep_Status := StatusNoSafeAction, rep_Reason := reason, rep_InputComplete := True\<rparr>"

definition actionBinding :: "(string \<Rightarrow> string) \<Rightarrow> Report \<Rightarrow> string" where
  "actionBinding sha256_hex r =
     sha256_hex (join_with (CHR 0x00)
       ([''buildopt-change-aware-action-v1'', rep_Family r, rep_BaseRevision r, rep_TargetRevision r] @
        rep_ChangedPaths r @ rep_CandidateTasks r @
        concat (map (\<lambda>o'. [bo_ProducerTask o', bo_Path o', bo_Kind o', bo_SHA256 o']) (rep_OmittedOutputs r))))"

text \<open>The tasks that consume a changed path; \<open>None\<close> when some path has no consumer.\<close>

fun seeds_loop :: "TaskEvidence list \<Rightarrow> string set \<Rightarrow> string list \<Rightarrow> string set option" where
  "seeds_loop tasks seeds [] = Some seeds"
| "seeds_loop tasks seeds (c # cs) =
     (let owners = map te_Path (filter (\<lambda>t. taskConsumes t c) tasks) in
      if length owners = 0 then None else seeds_loop tasks (seeds \<union> set owners) cs)"

fun producers_loop :: "TaskEvidence list \<Rightarrow> string set \<Rightarrow> string list \<Rightarrow> string set result" where
  "producers_loop tasks acc [] = Inr acc"
| "producers_loop tasks acc (r # rs) =
     (let producers = map te_Path (filter (\<lambda>t. taskProduces t r) tasks) in
      if length producers = 0 then Inl ''REQUIRED_OUTPUT_PRODUCER_MISSING''
      else if length producers \<noteq> 1 then Inl ''REQUIRED_OUTPUT_PRODUCER_AMBIGUOUS''
      else producers_loop tasks (insert (hd producers) acc) rs)"

definition outputs_at :: "TaskEvidence list \<Rightarrow> string \<Rightarrow> OutputEvidence list" where
  "outputs_at tasks path = (case find (\<lambda>t. te_Path t = path) tasks of None \<Rightarrow> [] | Some t \<Rightarrow> te_Outputs t)"

fun bind_outputs :: "string \<Rightarrow> OutputEvidence list \<Rightarrow> BoundOutput list option" where
  "bind_outputs path [] = Some []"
| "bind_outputs path (v # vs) =
     (if \<not> oe_Exists v \<or> \<not> validSHA (oe_SHA256 v) then None
      else map_option (\<lambda>bs. \<lparr>bo_ProducerTask = path, bo_Path = oe_Path v, bo_Kind = oe_Kind v,
             bo_SHA256 = oe_SHA256 v\<rparr> # bs) (bind_outputs path vs))"

fun omitted_loop :: "TaskEvidence list \<Rightarrow> string list \<Rightarrow> BoundOutput list option" where
  "omitted_loop tasks [] = Some []"
| "omitted_loop tasks (p # ps) =
     (case bind_outputs p (outputs_at tasks p) of
        None \<Rightarrow> None
      | Some bs \<Rightarrow> map_option (\<lambda>rest. bs @ rest) (omitted_loop tasks ps))"

text \<open>The derivation once the scope and the graphs are validated.\<close>

definition derive_action ::
    "(string \<Rightarrow> string) \<Rightarrow> Capture \<Rightarrow> string graph \<Rightarrow> string graph \<Rightarrow> Report \<Rightarrow> string set \<Rightarrow> string set \<Rightarrow> Report" where
  "derive_action sha256_hex capture deps reverse report affectedSeeds requiredProducers =
     (let requiredGraph = ancestors deps (cap_RequestedTasks capture) in
      if \<not> requiredProducers \<subseteq> requiredGraph then noSafe report ''REQUIRED_OUTPUT_OUTSIDE_REQUESTED_GRAPH''
      else let affectedGraph = descendants reverse (sortedKeys affectedSeeds);
               notApplicable = report\<lparr>rep_Status := StatusNotApplicable,
                 rep_Reason := ''CHANGE_DOES_NOT_REACH_REQUIRED_OUTPUT'', rep_InputComplete := True\<rparr> in
        if requiredProducers \<inter> affectedGraph = {} then notApplicable
        else let candidateSet = requiredGraph \<inter> affectedGraph in
          if candidateSet = {} then notApplicable
          else let omittedSet = requiredGraph - candidateSet in
            if omittedSet = {} then noSafe report ''FULL_PRODUCER_GRAPH_REQUIRED''
            else case omitted_loop (cap_Tasks capture) (sortedKeys omittedSet) of
              None \<Rightarrow> noSafe report ''OMITTED_OUTPUT_EVIDENCE_INCOMPLETE''
            | Some omittedOutputs \<Rightarrow>
                if length omittedOutputs = 0 then noSafe report ''OMITTED_OUTPUT_CLOSURE_EMPTY''
                else let report = report\<lparr>rep_Status := StatusTestableActions,
                       rep_Reason := ''EXACT_CHANGE_AWARE_PRODUCER_CLOSURE'',
                       rep_CandidateTasks := sortedKeys candidateSet, rep_OmittedTasks := sortedKeys omittedSet,
                       rep_OmittedOutputs := sort_key (\<lambda>b. (bo_ProducerTask b, bo_Path b)) omittedOutputs\<rparr> in
                  report\<lparr>rep_ActionBindingSHA256 := actionBinding sha256_hex report,
                    rep_InputComplete := True, rep_TestableActions := 1\<rparr>)"

definition analyze_graph :: "(string \<Rightarrow> string) \<Rightarrow> Capture \<Rightarrow> Report \<Rightarrow> Report" where
  "analyze_graph sha256_hex capture report =
     (case validateTasks (cap_Tasks capture) of
        None \<Rightarrow> noSafe report ''TASK_GRAPH_INCOMPLETE_OR_AMBIGUOUS''
      | Some (deps, reverse) \<Rightarrow>
          if cyclic deps then noSafe report ''TASK_GRAPH_CYCLIC''
          else if list_ex (\<lambda>r. r \<notin> set (map te_Path (cap_Tasks capture))) (cap_RequestedTasks capture)
          then noSafe report ''REQUESTED_TASK_UNAVAILABLE''
          else case seeds_loop (cap_Tasks capture) {} (cap_ChangedPaths capture) of
            None \<Rightarrow> noSafe report ''CHANGE_INPUT_OWNERSHIP_UNPROVEN''
          | Some seeds \<Rightarrow>
              let report = report\<lparr>rep_AffectedInputTasks := sortedKeys seeds\<rparr> in
              (case producers_loop (cap_Tasks capture) {} (cap_RequiredOutputs capture) of
                 Inl reason \<Rightarrow> noSafe report reason
               | Inr producers \<Rightarrow>
                   derive_action sha256_hex capture deps reverse
                     (report\<lparr>rep_RequiredProducers := sortedKeys producers\<rparr>) seeds producers))"

definition capture_identity_ok :: "Capture \<Rightarrow> bool" where
  "capture_identity_ok c = (\<not> (cap_SchemaVersion c \<noteq> CaptureSchemaVersion \<or> cap_GeneratedAt c = [] \<or>
     \<not> safeLabel (cap_Family c) \<or> (cap_DSL c \<noteq> ''KOTLIN'' \<and> cap_DSL c \<noteq> ''GROOVY'') \<or>
     \<not> validRevision (cap_BaseRevision c) \<or> \<not> validRevision (cap_TargetRevision c) \<or>
     cap_BaseRevision c = cap_TargetRevision c))"

definition Analyze :: "(string \<Rightarrow> string) \<Rightarrow> Capture \<Rightarrow> Report result" where
  "Analyze sha256_hex c =
     (let report = baseReport c in
      if \<not> capture_identity_ok c then Inl ''change-aware capture identity is invalid''
      else if cap_Status c = CaptureUnavailable then
        (if cap_Reason c = [] \<or> length (cap_Tasks c) \<noteq> 0 then Inl ''unavailable capture boundary is invalid''
         else Inr (report\<lparr>rep_Status := StatusInputUnavailable, rep_Reason := cap_Reason c\<rparr>))
      else if cap_Status c = CaptureFailed then
        (if cap_Reason c = [] \<or> length (cap_Tasks c) \<noteq> 0 then Inl ''failed capture boundary is invalid''
         else Inr (report\<lparr>rep_Status := StatusProducerFailed, rep_Reason := cap_Reason c\<rparr>))
      else if cap_Status c \<noteq> CaptureComplete then Inl ''unknown capture status''
      else if cap_Reason c \<noteq> [] then Inl ''complete capture has a failure reason''
      else if \<not> validateStringSet (cap_ChangedPaths c) safeRepositoryPath \<or>
         \<not> validateStringSet (cap_RequestedTasks c) safeTaskPath \<or>
         \<not> validateStringSet (cap_RequiredOutputs c) safeRepositoryPath \<or> length (cap_Tasks c) = 0
      then Inl ''change-aware capture scope is invalid''
      else Inr (analyze_graph sha256_hex c report))"

section \<open>Facts\<close>

interpretation task_ancestors: graph_closure ancestors edges set
  by unfold_locales (simp add: ancestors_def reachable_from_eq)

interpretation task_descendants: graph_closure descendants edges set
  by unfold_locales (simp add: descendants_def reachable_from_eq)

lemma cyclic_iff: "cyclic g \<longleftrightarrow> (\<exists>q. (q, q) \<in> (edges g)\<^sup>+)"
  by (simp add: cyclic_def dfs_cyclic_iff)

lemma tasks_ok_distinct: "tasks_ok seen ts \<Longrightarrow> distinct (map te_Path ts) \<and> set (map te_Path ts) \<inter> seen = {}"
  by (induction seen ts rule: tasks_ok.induct) (auto split: if_splits)

text \<open>\<open>(p, d)\<close> when the task \<open>p\<close> depends on \<open>d\<close>.\<close>

definition task_deps :: "TaskEvidence list \<Rightarrow> (string \<times> string) set" where
  "task_deps ts = {(te_Path t, d) | t d. t \<in> set ts \<and> d \<in> set (te_DependsOn t)}"

lemma succs_map:
  assumes "distinct (map key xs)" "x \<in> set xs"
  shows "succs (map (\<lambda>x. (key x, f x)) xs) (key x) = f x"
proof -
  have "map_of (map (\<lambda>x. (key x, f x)) xs) (key x) = Some (f x)"
    using assms by (intro map_of_is_SomeI) (auto simp: comp_def)
  then show ?thesis by (simp add: succs_def)
qed

lemma edges_map:
  assumes "distinct (map key xs)"
  shows "edges (map (\<lambda>x. (key x, f x)) xs) = {(key x, d) | x d. x \<in> set xs \<and> d \<in> set (f x)}"
proof -
  let ?g = "map (\<lambda>x. (key x, f x)) xs"
  have "d \<in> set (succs ?g k) \<longleftrightarrow> (\<exists>x\<in>set xs. key x = k \<and> d \<in> set (f x))" for k d
  proof (cases "k \<in> key ` set xs")
    case True
    then obtain x where x: "x \<in> set xs" "k = key x" by auto
    have "y = x" if "y \<in> set xs" "key y = key x" for y
      using that x assms by (auto simp: distinct_map dest: inj_onD)
    with x succs_map [OF assms x(1), of f] show ?thesis by auto
  next
    case False
    then have "succs ?g k = []" by (intro succs_outside) (auto simp: nodes_def)
    with False show ?thesis by auto
  qed
  then show ?thesis by (auto simp: edges_def)
qed

lemma validateTasks_Some:
  assumes "validateTasks ts = Some (deps, rv)"
  shows "distinct (map te_Path ts)" "edges deps = task_deps ts" "edges rv = (task_deps ts)\<inverse>"
proof -
  from assms have ok: "tasks_ok {} ts" and g: "deps = dependencies_graph ts" "rv = reverse_graph ts"
    and known: "\<And>t d. t \<in> set ts \<Longrightarrow> d \<in> set (te_DependsOn t) \<Longrightarrow> d \<in> set (map te_Path ts)"
    by (auto simp: validateTasks_def list_ex_iff split: if_splits)
  show dist: "distinct (map te_Path ts)" using tasks_ok_distinct [OF ok] by simp
  show "edges deps = task_deps ts"
    unfolding g dependencies_graph_def edges_map [OF dist] task_deps_def by (rule refl)
  show "edges rv = (task_deps ts)\<inverse>"
  proof -
    have "(x, y) \<in> edges rv \<longleftrightarrow> (y, x) \<in> task_deps ts" for x y
      unfolding g reverse_graph_def edges_map [OF dist] task_deps_def
      using known [of _ x] by (auto simp: image_iff) blast
    then show ?thesis by auto
  qed
qed

lemma seeds_loop_Some:
  "seeds_loop ts R cs = Some R' \<Longrightarrow>
     R' = R \<union> te_Path ` {t \<in> set ts. \<exists>c\<in>set cs. taskConsumes t c} \<and>
     (\<forall>c\<in>set cs. \<exists>t\<in>set ts. taskConsumes t c)"
  by (induction ts R cs rule: seeds_loop.induct) (auto simp: Let_def filter_empty_conv split: if_splits)

lemma producers_loop_Inr:
  "producers_loop ts R rs = Inr R' \<Longrightarrow> R \<subseteq> R' \<and> finite R = finite R' \<and>
     (\<forall>r\<in>set rs. \<exists>t. filter (\<lambda>t. taskProduces t r) ts = [t] \<and> te_Path t \<in> R')"
proof (induction ts R rs rule: producers_loop.induct)
  case (2 ts R r rs)
  from "2.prems" obtain t where t: "filter (\<lambda>t. taskProduces t r) ts = [t]"
    by (cases "filter (\<lambda>t. taskProduces t r) ts") (auto simp: Let_def split: if_splits)
  with 2 show ?case by (simp add: Let_def)
qed simp

definition bound_output :: "string \<Rightarrow> OutputEvidence \<Rightarrow> BoundOutput" where
  "bound_output path v = \<lparr>bo_ProducerTask = path, bo_Path = oe_Path v, bo_Kind = oe_Kind v, bo_SHA256 = oe_SHA256 v\<rparr>"

lemma bind_outputs_Some:
  "bind_outputs p vs = Some bs \<Longrightarrow>
     bs = map (bound_output p) vs \<and> (\<forall>v\<in>set vs. oe_Exists v \<and> validSHA (oe_SHA256 v))"
proof (induction vs arbitrary: bs)
  case (Cons v vs)
  then have v: "oe_Exists v" "validSHA (oe_SHA256 v)" by (auto split: if_splits)
  with Cons.prems obtain rest where "bind_outputs p vs = Some rest" "bs = bound_output p v # rest"
    by (auto simp: bound_output_def)
  with Cons.IH v show ?case by simp
qed simp

lemma omitted_loop_Some:
  "omitted_loop ts ps = Some bs \<Longrightarrow>
     set bs = (\<Union>p\<in>set ps. bound_output p ` set (outputs_at ts p)) \<and>
     (\<forall>p\<in>set ps. \<forall>v\<in>set (outputs_at ts p). oe_Exists v \<and> validSHA (oe_SHA256 v))"
proof (induction ts ps arbitrary: bs rule: omitted_loop.induct)
  case (2 ts p ps)
  then obtain b rest where b: "bind_outputs p (outputs_at ts p) = Some b" "omitted_loop ts ps = Some rest" "bs = b @ rest"
    by (auto split: option.splits)
  with 2(1) [OF b(1) b(2)] bind_outputs_Some [OF b(1)] show ?case by auto
qed simp

lemma outputs_at_task:
  assumes "distinct (map te_Path ts)" "t \<in> set ts"
  shows "outputs_at ts (te_Path t) = te_Outputs t"
proof -
  have "find (\<lambda>u. te_Path u = te_Path t) ts = Some t"
    using assms
  proof (induction ts)
    case (Cons u ts)
    show ?case
    proof (cases "te_Path u = te_Path t")
      case True
      with Cons.prems have "u = t" by force
      with True show ?thesis by simp
    qed (use Cons in auto)
  qed simp
  then show ?thesis by (simp add: outputs_at_def)
qed

text \<open>The state of affairs behind a testable action.\<close>

lemma noSafe_status [simp]:
  "rep_Status (noSafe r reason) = StatusNoSafeAction"
  "rep_ActivationAuthorized (noSafe r reason) = rep_ActivationAuthorized r"
  by (simp_all add: noSafe_def)

lemma derive_action_testable:
  assumes "rep_Status (derive_action sha c deps rv r seeds prods) = StatusTestableActions"
  defines "R \<equiv> ancestors deps (cap_RequestedTasks c)" and "A \<equiv> descendants rv (sortedKeys seeds)"
  shows "prods \<subseteq> R" "prods \<inter> A \<noteq> {}"
    and "rep_CandidateTasks (derive_action sha c deps rv r seeds prods) = sortedKeys (R \<inter> A)"
    and "rep_OmittedTasks (derive_action sha c deps rv r seeds prods) = sortedKeys (R - A)"
    and "R - A \<noteq> {}"
    and "\<exists>bs. omitted_loop (cap_Tasks c) (sortedKeys (R - A)) = Some bs \<and> bs \<noteq> [] \<and>
           set (rep_OmittedOutputs (derive_action sha c deps rv r seeds prods)) = set bs"
proof -
  note d = derive_action_def Let_def
  show p: "prods \<subseteq> R" using assms(1) by (rule contrapos_pp) (simp add: d R_def)
  show a: "prods \<inter> A \<noteq> {}" using assms(1) by (rule contrapos_pp) (use p in \<open>simp add: d R_def A_def\<close>)
  then have ne: "R \<inter> A \<noteq> {}" using p by auto
  have diff: "R - R \<inter> A = R - A" by auto
  show o: "R - A \<noteq> {}"
    using assms(1) by (rule contrapos_pp) (use p a ne diff in \<open>simp add: d R_def A_def\<close>)
  have "omitted_loop (cap_Tasks c) (sortedKeys (R - A)) \<noteq> None"
    using assms(1) by (rule contrapos_pp) (use p a ne o diff in \<open>simp add: d R_def A_def\<close>)
  then obtain bs where bs: "omitted_loop (cap_Tasks c) (sortedKeys (R - A)) = Some bs" by blast
  have "bs \<noteq> []"
    using assms(1) by (rule contrapos_pp) (use p a ne o bs diff in \<open>simp add: d R_def A_def\<close>)
  with p a ne o bs diff
  show "rep_CandidateTasks (derive_action sha c deps rv r seeds prods) = sortedKeys (R \<inter> A)"
    "rep_OmittedTasks (derive_action sha c deps rv r seeds prods) = sortedKeys (R - A)"
    "\<exists>bs. omitted_loop (cap_Tasks c) (sortedKeys (R - A)) = Some bs \<and> bs \<noteq> [] \<and>
           set (rep_OmittedOutputs (derive_action sha c deps rv r seeds prods)) = set bs"
    by (simp_all add: d R_def A_def)
qed

lemma Analyze_testable:
  assumes "Analyze sha c = Inr r" "rep_Status r = StatusTestableActions"
  obtains deps rv seeds prods rep where
    "validateTasks (cap_Tasks c) = Some (deps, rv)" "\<not> cyclic deps"
    "seeds_loop (cap_Tasks c) {} (cap_ChangedPaths c) = Some seeds"
    "producers_loop (cap_Tasks c) {} (cap_RequiredOutputs c) = Inr prods"
    "r = derive_action sha c deps rv rep seeds prods"
proof -
  have g: "r = analyze_graph sha c (baseReport c)"
    using assms unfolding Analyze_def Let_def by (simp split: if_splits) auto
  show ?thesis
  proof (cases "validateTasks (cap_Tasks c)")
    case None
    with g assms(2) show ?thesis by (simp add: analyze_graph_def)
  next
    case (Some gs)
    then obtain deps rv where v: "validateTasks (cap_Tasks c) = Some (deps, rv)" by (cases gs) simp
    have cy: "\<not> cyclic deps"
      using assms(2) by (rule contrapos_pn) (simp add: g analyze_graph_def v)
    have rq: "\<not> list_ex (\<lambda>x. x \<notin> set (map te_Path (cap_Tasks c))) (cap_RequestedTasks c)"
      using assms(2) by (rule contrapos_pn) (simp add: g analyze_graph_def v cy)
    have "seeds_loop (cap_Tasks c) {} (cap_ChangedPaths c) \<noteq> None"
      using assms(2) by (rule contrapos_pn) (use rq in \<open>simp add: g analyze_graph_def v cy\<close>)
    then obtain seeds where sd: "seeds_loop (cap_Tasks c) {} (cap_ChangedPaths c) = Some seeds" by blast
    show ?thesis
    proof (cases "producers_loop (cap_Tasks c) {} (cap_RequiredOutputs c)")
      case (Inl reason)
      with rq assms(2) show ?thesis by (simp add: g analyze_graph_def v cy sd Let_def)
    next
      case (Inr prods)
      show ?thesis
        by (rule that [OF v cy sd Inr]) (use rq in \<open>simp add: g analyze_graph_def v cy sd Inr Let_def\<close>)
    qed
  qed
qed

section \<open>Properties\<close>

text \<open>(C25) A testable action splits the tasks the request needs into candidates and omitted tasks, and
  omitting is safe: no omitted task transitively depends on a task that consumes a changed path, so
  nothing it reads can differ; every task of the request that does depend on one is a candidate;
  every output of an omitted task exists, has a digest and is bound in the report; and some required
  output is really affected.\<close>

theorem testable_action_safe:
  assumes "Analyze sha c = Inr r" "rep_Status r = StatusTestableActions"
  shows "set (rep_CandidateTasks r) \<union> set (rep_OmittedTasks r) =
      {t. \<exists>q\<in>set (cap_RequestedTasks c). (q, t) \<in> (task_deps (cap_Tasks c))\<^sup>*} \<and>
    set (rep_CandidateTasks r) \<inter> set (rep_OmittedTasks r) = {} \<and>
    (\<forall>p\<in>set (rep_OmittedTasks r). \<forall>t\<in>set (cap_Tasks c). \<forall>x\<in>set (cap_ChangedPaths c).
       taskConsumes t x \<longrightarrow> (p, te_Path t) \<notin> (task_deps (cap_Tasks c))\<^sup>*) \<and>
    (\<forall>p\<in>set (rep_CandidateTasks r). \<exists>t\<in>set (cap_Tasks c). \<exists>x\<in>set (cap_ChangedPaths c).
       taskConsumes t x \<and> (p, te_Path t) \<in> (task_deps (cap_Tasks c))\<^sup>*) \<and>
    (\<forall>t\<in>set (cap_Tasks c). te_Path t \<in> set (rep_OmittedTasks r) \<longrightarrow>
       (\<forall>v\<in>set (te_Outputs t). oe_Exists v \<and> validSHA (oe_SHA256 v) \<and>
          bound_output (te_Path t) v \<in> set (rep_OmittedOutputs r))) \<and>
    rep_CandidateTasks r \<noteq> [] \<and> rep_OmittedTasks r \<noteq> []"
proof -
  let ?ts = "cap_Tasks c"
  from assms obtain deps rv seeds prods rep where
    v: "validateTasks ?ts = Some (deps, rv)"
    and sd: "seeds_loop ?ts {} (cap_ChangedPaths c) = Some seeds"
    and rd: "r = derive_action sha c deps rv rep seeds prods"
    by (rule Analyze_testable)
  note vt = validateTasks_Some [OF v]
  have seeds: "seeds = te_Path ` {t \<in> set ?ts. \<exists>x\<in>set (cap_ChangedPaths c). taskConsumes t x}"
    using seeds_loop_Some [OF sd] by simp
  then have fin: "finite seeds" by simp
  define R where "R = ancestors deps (cap_RequestedTasks c)"
  define A where "A = descendants rv (sortedKeys seeds)"
  note da = derive_action_testable [OF assms(2) [unfolded rd], folded rd R_def A_def]
  have finR: "finite R" by (simp add: R_def ancestors_def)
  have sets: "set (rep_CandidateTasks r) = R \<inter> A" "set (rep_OmittedTasks r) = R - A"
    using da(3,4) finR by simp_all
  have R: "R = {t. \<exists>q\<in>set (cap_RequestedTasks c). (q, t) \<in> (task_deps ?ts)\<^sup>*}"
    unfolding R_def task_ancestors.closure_eq vt(2) by (rule refl)
  have A: "p \<in> A \<longleftrightarrow> (\<exists>s\<in>seeds. (p, s) \<in> (task_deps ?ts)\<^sup>*)" for p
    unfolding A_def task_descendants.closure_eq vt(3) using fin by (simp add: rtrancl_converse)
  from da(6) obtain bs where bs: "omitted_loop ?ts (sortedKeys (R - A)) = Some bs"
    "set (rep_OmittedOutputs r) = set bs" by blast
  have outs: "oe_Exists w \<and> validSHA (oe_SHA256 w) \<and> bound_output (te_Path t) w \<in> set (rep_OmittedOutputs r)"
    if "t \<in> set ?ts" "te_Path t \<in> R - A" "w \<in> set (te_Outputs t)" for t w
    using omitted_loop_Some [OF bs(1)] outputs_at_task [OF vt(1) that(1)] that finR bs(2)
    by (auto intro!: bexI [of _ "te_Path t"])
  show ?thesis
  proof (intro conjI)
    show "\<forall>p\<in>set (rep_OmittedTasks r). \<forall>t\<in>set ?ts. \<forall>x\<in>set (cap_ChangedPaths c).
       taskConsumes t x \<longrightarrow> (p, te_Path t) \<notin> (task_deps ?ts)\<^sup>*"
      using A seeds unfolding sets by blast
    show "\<forall>p\<in>set (rep_CandidateTasks r). \<exists>t\<in>set ?ts. \<exists>x\<in>set (cap_ChangedPaths c).
       taskConsumes t x \<and> (p, te_Path t) \<in> (task_deps ?ts)\<^sup>*"
      using A seeds unfolding sets by blast
    show "rep_CandidateTasks r \<noteq> []" using da(1,2) sets(1) by auto
    show "rep_OmittedTasks r \<noteq> []" using da(5) sets(2) by auto
  qed (use sets R outs in auto)
qed

definition ex_capture :: Capture where
  "ex_capture = \<lparr>cap_SchemaVersion = CaptureSchemaVersion, cap_GeneratedAt = ''t'', cap_Family = ''f'',
     cap_DSL = ''KOTLIN'', cap_BaseRevision = replicate 40 (CHR ''a''), cap_TargetRevision = replicate 40 (CHR ''b''),
     cap_Status = CaptureComplete, cap_Reason = [], cap_ChangedPaths = [''src/A.java''],
     cap_RequestedTasks = ['':jar''], cap_RequiredOutputs = [''out/a.jar''],
     cap_Tasks =
       [\<lparr>te_Path = '':gen'', te_DependsOn = [], te_Inputs = [],
         te_Outputs = [\<lparr>oe_Path = ''gen/G.java'', oe_Kind = ''FILE'', oe_SHA256 = replicate 64 (CHR ''0''), oe_Exists = True\<rparr>]\<rparr>,
        \<lparr>te_Path = '':jar'', te_DependsOn = ['':gen''],
         te_Inputs = [\<lparr>pe_Path = ''src'', pe_Kind = ''DIRECTORY''\<rparr>],
         te_Outputs = [\<lparr>oe_Path = ''out/a.jar'', oe_Kind = ''FILE'', oe_SHA256 = [], oe_Exists = False\<rparr>]\<rparr>]\<rparr>"

theorem testable_action_safe_witness:
  "\<exists>r. Analyze (\<lambda>_. ''h'') ex_capture = Inr r \<and> rep_CandidateTasks r \<noteq> [] \<and> rep_OmittedTasks r \<noteq> []"
proof -
  have "(case Analyze (\<lambda>_. ''h'') ex_capture of Inl _ \<Rightarrow> False | Inr r \<Rightarrow> rep_Status r = StatusTestableActions)"
    by code_simp
  then obtain r where r: "Analyze (\<lambda>_. ''h'') ex_capture = Inr r" "rep_Status r = StatusTestableActions"
    by (auto split: sum.splits)
  from testable_action_safe [OF r] r(1) show ?thesis by (intro exI [of _ r] conjI) (elim conjE, assumption)+
qed

text \<open>A report never authorizes activation or claims a measurement, and it offers an action only
  when its status says so; on an unavailable or failed capture it only repeats the reason.\<close>

lemma report_never_authorizes:
  assumes "Analyze sha c = Inr r"
  shows "\<not> rep_ActivationAuthorized r \<and> \<not> rep_PerformanceMeasured r \<and>
    (rep_TestableActions r = (if rep_Status r = StatusTestableActions then 1 else 0)) \<and>
    (rep_Status r \<noteq> StatusTestableActions \<longrightarrow> rep_CandidateTasks r = [] \<and> rep_OmittedTasks r = [] \<and> rep_OmittedOutputs r = [])"
proof -
  let ?ok = "\<lambda>r. \<not> rep_ActivationAuthorized r \<and> \<not> rep_PerformanceMeasured r \<and>
    (rep_TestableActions r = (if rep_Status r = StatusTestableActions then 1 else 0)) \<and>
    (rep_Status r \<noteq> StatusTestableActions \<longrightarrow> rep_CandidateTasks r = [] \<and> rep_OmittedTasks r = [] \<and> rep_OmittedOutputs r = [])"
  let ?base = "\<lambda>r. \<not> rep_ActivationAuthorized r \<and> \<not> rep_PerformanceMeasured r \<and> rep_TestableActions r = 0 \<and>
    rep_CandidateTasks r = [] \<and> rep_OmittedTasks r = [] \<and> rep_OmittedOutputs r = []"
  have no: "?ok (noSafe r reason)" if "?base r" for r reason using that by (simp add: noSafe_def)
  have d: "?ok (derive_action sha c deps rv r seeds prods)" if "?base r" for deps rv r seeds prods
    using that no [OF that] unfolding derive_action_def Let_def by (simp split: option.split)
  have g: "?ok (analyze_graph sha c r)" if "?base r" for r
    using that no [OF that] d no unfolding analyze_graph_def Let_def
    by (simp split: option.split prod.split sum.split)
  have "?base (baseReport c)" by (simp add: baseReport_def)
  with assms g show ?thesis unfolding Analyze_def Let_def
    by (simp split: if_splits) (auto simp: baseReport_def)
qed

end
