(* ===== verification/Leases.thy ===== *)
theory Leases
  imports Prelude
begin

text \<open>
  \<open>internal/sharedcache/wcncp_lease.go\<close> with the table and the partial unique index of
  \<open>internal/sharedcache/state_sqlite.go\<close>: validation leases of the Shared service. The table is the list of its
  rows. Every operation runs under the mutation mutex, so operations are atomic steps; the two statements of a
  claim are separate, and the expiry of old leases persists when the insertion fails. SHA-256 in hexadecimal is
  the parameter \<open>sha256_hex\<close>. Instants are nanoseconds since the Unix epoch.
\<close>

section \<open>Data\<close>

abbreviation ErrWCNCPInvalid :: error where "ErrWCNCPInvalid \<equiv> ''BuildOpt WCNCP state is invalid''"
abbreviation ErrWCNCPLeaseHeld :: error where "ErrWCNCPLeaseHeld \<equiv> ''BuildOpt WCNCP proposal lease is held''"
abbreviation ErrWCNCPLeaseLost :: error where "ErrWCNCPLeaseLost \<equiv> ''BuildOpt WCNCP proposal lease was lost''"
abbreviation ErrClosed :: error where "ErrClosed \<equiv> ''single-node Shared storage is closed''"
abbreviation CheckFailed :: error where "CheckFailed \<equiv> ''CHECK constraint failed''"

datatype lease_state = ACTIVE | RELEASED | EXPIRED | CONSUMED

text \<open>A row of \<open>wcncp_leases\<close>: the fields of \<open>WCNCPLease\<close>, the last heartbeat and the state.\<close>

record WCNCPLease =
  l_LeaseID :: string
  l_RepositoryScopeSHA256 :: string
  l_ProposalDigest :: string
  l_ProtocolVersion :: string
  l_EnvironmentClass :: string
  l_Holder :: string
  l_Attempt :: int
  l_StartUnixMs :: int
  l_ExpiryUnixMs :: int

record lease_row = WCNCPLease +
  l_HeartbeatUnixMs :: int
  l_State :: lease_state

record LeaseStore =
  ls_Closed :: bool
  ls_Leases :: "lease_row list"

definition go_zero_time :: int where "go_zero_time = -62135596800000000000"

definition to_milli :: "int \<Rightarrow> int" where "to_milli t = t div 1000000"

definition validSHA256 :: "string \<Rightarrow> bool" where
  "validSHA256 v = lower_hex_len 64 v"

definition identity :: "lease_row \<Rightarrow> string \<times> string \<times> string \<times> string" where
  "identity l = (l_RepositoryScopeSHA256 l, l_ProposalDigest l, l_ProtocolVersion l, l_EnvironmentClass l)"

definition wcncpLeaseID :: "(string \<Rightarrow> string) \<Rightarrow> string \<Rightarrow> string \<Rightarrow> string \<Rightarrow> string \<Rightarrow> int \<Rightarrow> string" where
  "wcncpLeaseID sha256_hex repo proposal protocol env attempt =
     sha256_hex (''wcncp-lease-v1'' @ [CHR 0x00] @ repo @ [CHR 0x00] @ proposal @ [CHR 0x00] @ protocol @ [CHR 0x00] @ env @
       [CHR 0x00] @ decimal (nat attempt))"

section \<open>The table\<close>

text \<open>The CHECK constraints. SQLite's \<open>length\<close> counts the characters before the first NUL.\<close>

definition row_checks :: "lease_row \<Rightarrow> bool" where
  "row_checks l = (lower_hex_len 64 (l_LeaseID l) \<and> lower_hex_len 64 (l_RepositoryScopeSHA256 l) \<and>
     lower_hex_len 64 (l_ProposalDigest l) \<and> l_ProtocolVersion l \<noteq> [] \<and> hd (l_ProtocolVersion l) \<noteq> CHR 0x00 \<and>
     l_EnvironmentClass l \<in> {''CONTROLLED_PERFORMANCE'', ''STANDARD_HOSTED_CI'', ''LOCAL_FUNCTIONAL''} \<and>
     l_Holder l \<noteq> [] \<and> hd (l_Holder l) \<noteq> CHR 0x00 \<and> l_Attempt l > 0 \<and> l_StartUnixMs l \<ge> 0 \<and>
     l_ExpiryUnixMs l > l_StartUnixMs l \<and> l_HeartbeatUnixMs l \<ge> l_StartUnixMs l)"

text \<open>The primary key and the unique index \<open>wcncp_leases_active\<close>.\<close>

definition unique_violation :: "lease_row list \<Rightarrow> lease_row \<Rightarrow> bool" where
  "unique_violation ls l = list_ex (\<lambda>x. l_LeaseID x = l_LeaseID l \<or>
     (l_State x = ACTIVE \<and> l_State l = ACTIVE \<and> identity x = identity l)) ls"

section \<open>Operations\<close>

definition expireWCNCPLeasesTx :: "LeaseStore \<Rightarrow> int \<Rightarrow> LeaseStore \<times> nat" where
  "expireWCNCPLeasesTx s now =
     (let old = (\<lambda>l. l_State l = ACTIVE \<and> l_ExpiryUnixMs l \<le> to_milli now) in
      (s\<lparr>ls_Leases := map (\<lambda>l. if old l then l\<lparr>l_State := EXPIRED\<rparr> else l) (ls_Leases s)\<rparr>,
       length (filter old (ls_Leases s))))"

definition ExpireWCNCPLeases :: "LeaseStore \<Rightarrow> int \<Rightarrow> LeaseStore \<times> nat result" where
  "ExpireWCNCPLeases s now =
     (if now = go_zero_time then (s, Inl ErrWCNCPInvalid)
      else if ls_Closed s then (s, Inl ErrClosed)
      else let (s', n) = expireWCNCPLeasesTx s now in (s', Inr n))"

definition next_attempt :: "lease_row list \<Rightarrow> string \<times> string \<times> string \<times> string \<Rightarrow> int" where
  "next_attempt ls i =
     (let attempts = map l_Attempt (filter (\<lambda>l. identity l = i) ls) in
      if attempts = [] then 1 else Max (set attempts) + 1)"

definition claim_valid :: "string \<Rightarrow> string \<Rightarrow> string \<Rightarrow> string \<Rightarrow> string \<Rightarrow> int \<Rightarrow> int \<Rightarrow> bool" where
  "claim_valid repo proposal protocol env holder ttl now =
     (\<not> (\<not> validSHA256 repo \<or> \<not> validSHA256 proposal \<or> length protocol = 0 \<or> length protocol > 64 \<or>
         length holder = 0 \<or> length holder > 128 \<or> ttl \<le> 0 \<or> now = go_zero_time) \<and>
      \<not> (env \<noteq> ''CONTROLLED_PERFORMANCE'' \<and> env \<noteq> ''STANDARD_HOSTED_CI'' \<and> env \<noteq> ''LOCAL_FUNCTIONAL''))"

definition new_lease ::
    "(string \<Rightarrow> string) \<Rightarrow> lease_row list \<Rightarrow> string \<Rightarrow> string \<Rightarrow> string \<Rightarrow> string \<Rightarrow> string \<Rightarrow> int \<Rightarrow> int \<Rightarrow> lease_row" where
  "new_lease sha256_hex ls repo proposal protocol env holder ttl now =
     (let attempt = next_attempt ls (repo, proposal, protocol, env) in
      \<lparr>l_LeaseID = wcncpLeaseID sha256_hex repo proposal protocol env attempt, l_RepositoryScopeSHA256 = repo,
       l_ProposalDigest = proposal, l_ProtocolVersion = protocol, l_EnvironmentClass = env, l_Holder = holder,
       l_Attempt = attempt, l_StartUnixMs = to_milli now, l_ExpiryUnixMs = to_milli (now + ttl),
       l_HeartbeatUnixMs = to_milli now, l_State = ACTIVE\<rparr>)"

definition ClaimWCNCPLease ::
    "(string \<Rightarrow> string) \<Rightarrow> LeaseStore \<Rightarrow> string \<Rightarrow> string \<Rightarrow> string \<Rightarrow> string \<Rightarrow> string \<Rightarrow> int \<Rightarrow> int \<Rightarrow>
      LeaseStore \<times> lease_row result" where
  "ClaimWCNCPLease sha256_hex s repo proposal protocol env holder ttl now =
     (if \<not> claim_valid repo proposal protocol env holder ttl now then (s, Inl ErrWCNCPInvalid)
      else if ls_Closed s then (s, Inl ErrClosed)
      else let s1 = fst (expireWCNCPLeasesTx s now);
               lease = new_lease sha256_hex (ls_Leases s1) repo proposal protocol env holder ttl now in
        if \<not> row_checks lease then (s1, Inl CheckFailed)
        else if unique_violation (ls_Leases s1) lease then (s1, Inl ErrWCNCPLeaseHeld)
        else (s1\<lparr>ls_Leases := ls_Leases s1 @ [lease]\<rparr>, Inr lease))"

definition HeartbeatWCNCPLease :: "LeaseStore \<Rightarrow> string \<Rightarrow> string \<Rightarrow> int \<Rightarrow> LeaseStore \<times> error option" where
  "HeartbeatWCNCPLease s leaseID holder now =
     (let sel = (\<lambda>l. l_LeaseID l = leaseID \<and> l_Holder l = holder \<and> l_State l = ACTIVE \<and> l_ExpiryUnixMs l > to_milli now);
          beat = (\<lambda>l. l\<lparr>l_ExpiryUnixMs := to_milli now + (l_ExpiryUnixMs l - l_HeartbeatUnixMs l), l_HeartbeatUnixMs := to_milli now\<rparr>) in
      if \<not> validSHA256 leaseID \<or> length holder = 0 \<or> now = go_zero_time then (s, Some ErrWCNCPInvalid)
      else if ls_Closed s then (s, Some ErrClosed)
      else if list_ex (\<lambda>l. sel l \<and> \<not> row_checks (beat l)) (ls_Leases s) then (s, Some CheckFailed)
      else let s' = s\<lparr>ls_Leases := map (\<lambda>l. if sel l then beat l else l) (ls_Leases s)\<rparr> in
        if length (filter sel (ls_Leases s)) \<noteq> 1 then (s', Some ErrWCNCPLeaseLost) else (s', None))"

definition ReleaseWCNCPLease :: "LeaseStore \<Rightarrow> string \<Rightarrow> string \<Rightarrow> lease_state \<Rightarrow> LeaseStore \<times> error option" where
  "ReleaseWCNCPLease s leaseID holder state =
     (let sel = (\<lambda>l. l_LeaseID l = leaseID \<and> l_Holder l = holder \<and> l_State l = ACTIVE) in
      if \<not> validSHA256 leaseID \<or> length holder = 0 \<or> (state \<noteq> RELEASED \<and> state \<noteq> CONSUMED) then (s, Some ErrWCNCPInvalid)
      else if ls_Closed s then (s, Some ErrClosed)
      else let s' = s\<lparr>ls_Leases := map (\<lambda>l. if sel l then l\<lparr>l_State := state\<rparr> else l) (ls_Leases s)\<rparr> in
        if length (filter sel (ls_Leases s)) \<noteq> 1 then (s', Some ErrWCNCPLeaseLost) else (s', None))"

definition RequireWCNCPLease :: "LeaseStore \<Rightarrow> string \<Rightarrow> string \<Rightarrow> string \<Rightarrow> int \<Rightarrow> error option" where
  "RequireWCNCPLease s leaseID holder proposalDigest now =
     (if \<not> validSHA256 leaseID \<or> length holder = 0 \<or> \<not> validSHA256 proposalDigest \<or> now = go_zero_time then Some ErrWCNCPInvalid
      else if ls_Closed s then Some ErrClosed
      else case find (\<lambda>l. l_LeaseID l = leaseID \<and> l_State l = ACTIVE) (ls_Leases s) of
        None \<Rightarrow> Some ErrWCNCPLeaseLost
      | Some l \<Rightarrow>
          if l_Holder l \<noteq> holder \<or> l_ProposalDigest l \<noteq> proposalDigest \<or> l_ExpiryUnixMs l \<le> to_milli now
          then Some ErrWCNCPLeaseLost else None)"

section \<open>Interleavings\<close>

inductive lease_step :: "(string \<Rightarrow> string) \<Rightarrow> LeaseStore \<Rightarrow> LeaseStore \<Rightarrow> bool" for sha256_hex where
  claim: "ClaimWCNCPLease sha256_hex s repo proposal protocol env holder ttl now = (s', res) \<Longrightarrow> lease_step sha256_hex s s'"
| heartbeat: "HeartbeatWCNCPLease s leaseID holder now = (s', err) \<Longrightarrow> lease_step sha256_hex s s'"
| release_lease: "ReleaseWCNCPLease s leaseID holder state = (s', err) \<Longrightarrow> lease_step sha256_hex s s'"
| expire: "ExpireWCNCPLeases s now = (s', n) \<Longrightarrow> lease_step sha256_hex s s'"
| close: "lease_step sha256_hex s (s\<lparr>ls_Closed := True\<rparr>)"

inductive lease_reachable :: "(string \<Rightarrow> string) \<Rightarrow> LeaseStore \<Rightarrow> bool" for sha256_hex where
  initial: "lease_reachable sha256_hex \<lparr>ls_Closed = False, ls_Leases = []\<rparr>"
| step: "lease_reachable sha256_hex s \<Longrightarrow> lease_step sha256_hex s s' \<Longrightarrow> lease_reachable sha256_hex s'"

section \<open>Facts\<close>

text \<open>The only changes of a row: an active lease is ended, or its expiry and heartbeat move.\<close>

definition lease_move :: "lease_row \<Rightarrow> lease_row \<Rightarrow> bool" where
  "lease_move x y \<longleftrightarrow> x = y \<or> (l_State x = ACTIVE \<and> (\<exists>st e h. y = x\<lparr>l_State := st, l_ExpiryUnixMs := e, l_HeartbeatUnixMs := h\<rparr>))"

lemma lease_move_fields:
  assumes "lease_move x y"
  shows "l_LeaseID y = l_LeaseID x" "identity y = identity x" "l_Attempt y = l_Attempt x" "l_Holder y = l_Holder x"
    "l_State y = ACTIVE \<Longrightarrow> l_State x = ACTIVE"
  using assms by (auto simp: lease_move_def identity_def)

lemma lease_move_end: "l_State x = ACTIVE \<Longrightarrow> lease_move x (x\<lparr>l_State := st\<rparr>)"
  unfolding lease_move_def
  by (intro disjI2 conjI exI [of _ st] exI [of _ "l_ExpiryUnixMs x"] exI [of _ "l_HeartbeatUnixMs x"]) simp_all

lemma lease_move_beat: "l_State x = ACTIVE \<Longrightarrow> lease_move x (x\<lparr>l_ExpiryUnixMs := e, l_HeartbeatUnixMs := h\<rparr>)"
  unfolding lease_move_def by (intro disjI2 conjI exI [of _ "l_State x"] exI [of _ e] exI [of _ h]) simp_all

lemma map_moves:
  assumes "\<And>l. P l \<Longrightarrow> lease_move l (f l)"
  shows "list_all2 lease_move ls (map (\<lambda>l. if P l then f l else l) ls)"
  using assms by (auto simp: list_all2_conv_all_nth) (simp add: lease_move_def)

text \<open>The invariant of the table: primary key, one active lease per identity, no attempt number twice.\<close>

definition leases_ok :: "lease_row list \<Rightarrow> bool" where
  "leases_ok ls \<longleftrightarrow> distinct (map l_LeaseID ls) \<and> distinct (map (\<lambda>l. (identity l, l_Attempt l)) ls) \<and>
     distinct (map identity (filter (\<lambda>l. l_State l = ACTIVE) ls)) \<and> (\<forall>n\<in>snd ` set (map (\<lambda>l. (identity l, l_Attempt l)) ls). 0 < n)"

lemma moves_same:
  assumes "list_all2 lease_move ls ms"
  shows "map l_LeaseID ms = map l_LeaseID ls" "map (\<lambda>l. (identity l, l_Attempt l)) ms = map (\<lambda>l. (identity l, l_Attempt l)) ls"
    "set (map identity (filter (\<lambda>l. l_State l = ACTIVE) ms)) \<subseteq> set (map identity (filter (\<lambda>l. l_State l = ACTIVE) ls))"
    "distinct (map identity (filter (\<lambda>l. l_State l = ACTIVE) ls)) \<Longrightarrow> distinct (map identity (filter (\<lambda>l. l_State l = ACTIVE) ms))"
proof -
  show "map l_LeaseID ms = map l_LeaseID ls" "map (\<lambda>l. (identity l, l_Attempt l)) ms = map (\<lambda>l. (identity l, l_Attempt l)) ls"
    using assms by (induction rule: list_all2_induct) (auto dest: lease_move_fields)
  show sub: "set (map identity (filter (\<lambda>l. l_State l = ACTIVE) ms)) \<subseteq> set (map identity (filter (\<lambda>l. l_State l = ACTIVE) ls))"
    using assms by (induction rule: list_all2_induct) (auto dest: lease_move_fields)
  show "distinct (map identity (filter (\<lambda>l. l_State l = ACTIVE) ls)) \<Longrightarrow> distinct (map identity (filter (\<lambda>l. l_State l = ACTIVE) ms))"
    using assms
  proof (induction rule: list_all2_induct)
    case (Cons x xs y ys)
    have s: "set (map identity (filter (\<lambda>l. l_State l = ACTIVE) ys)) \<subseteq> set (map identity (filter (\<lambda>l. l_State l = ACTIVE) xs))"
      using Cons.hyps(2) by (induction rule: list_all2_induct) (auto dest: lease_move_fields)
    show ?case
    proof (cases "l_State y = ACTIVE")
      case True
      with lease_move_fields [OF Cons.hyps(1)] have "l_State x = ACTIVE" "identity y = identity x" by auto
      moreover have "identity x \<notin> set (map identity (filter (\<lambda>l. l_State l = ACTIVE) ys))"
        using s Cons.prems calculation(1) by auto
      ultimately show ?thesis using Cons True by simp
    next
      case False
      with Cons show ?thesis by (cases "l_State x = ACTIVE") auto
    qed
  qed simp
qed

lemma moves_ok: "list_all2 lease_move ls ms \<Longrightarrow> leases_ok ls \<Longrightarrow> leases_ok ms"
  using moves_same [of ls ms] unfolding leases_ok_def by simp

lemma expire_moves: "list_all2 lease_move (ls_Leases s) (ls_Leases (fst (expireWCNCPLeasesTx s now)))"
  using map_moves [of "\<lambda>l. l_State l = ACTIVE \<and> l_ExpiryUnixMs l \<le> to_milli now" "\<lambda>l. l\<lparr>l_State := EXPIRED\<rparr>" "ls_Leases s"]
  by (simp add: expireWCNCPLeasesTx_def Let_def lease_move_end)

lemma heartbeat_moves:
  assumes "HeartbeatWCNCPLease s leaseID holder now = (s', err)"
  shows "list_all2 lease_move (ls_Leases s) (ls_Leases s')"
proof -
  have "list_all2 lease_move ls ls" for ls by (simp add: list_all2_same lease_move_def)
  moreover have "list_all2 lease_move (ls_Leases s) (map (\<lambda>l. if l_LeaseID l = leaseID \<and> l_Holder l = holder \<and> l_State l = ACTIVE \<and> l_ExpiryUnixMs l > to_milli now
      then l\<lparr>l_ExpiryUnixMs := to_milli now + (l_ExpiryUnixMs l - l_HeartbeatUnixMs l), l_HeartbeatUnixMs := to_milli now\<rparr> else l) (ls_Leases s))"
    by (rule map_moves) (simp add: lease_move_beat)
  ultimately show ?thesis using assms by (auto simp: HeartbeatWCNCPLease_def Let_def split: if_splits)
qed

lemma release_moves:
  assumes "ReleaseWCNCPLease s leaseID holder state = (s', err)"
  shows "list_all2 lease_move (ls_Leases s) (ls_Leases s')"
proof -
  have "list_all2 lease_move ls ls" for ls by (simp add: list_all2_same lease_move_def)
  moreover have "list_all2 lease_move (ls_Leases s) (map (\<lambda>l. if l_LeaseID l = leaseID \<and> l_Holder l = holder \<and> l_State l = ACTIVE
      then l\<lparr>l_State := state\<rparr> else l) (ls_Leases s))"
    by (rule map_moves) (simp add: lease_move_end)
  ultimately show ?thesis using assms by (auto simp: ReleaseWCNCPLease_def Let_def split: if_splits)
qed

lemma next_attempt_greater: "l \<in> set ls \<Longrightarrow> identity l = i \<Longrightarrow> l_Attempt l < next_attempt ls i"
proof -
  assume "l \<in> set ls" "identity l = i"
  then have m: "l_Attempt l \<in> set (map l_Attempt (filter (\<lambda>l. identity l = i) ls))" by auto
  then have "l_Attempt l \<le> Max (set (map l_Attempt (filter (\<lambda>l. identity l = i) ls)))" by (intro Max_ge) auto
  moreover have "map l_Attempt (filter (\<lambda>l. identity l = i) ls) \<noteq> []" using m by (metis empty_iff list.set(1))
  ultimately show ?thesis unfolding next_attempt_def Let_def by simp
qed

lemma next_attempt_pos:
  assumes "leases_ok ls"
  shows "0 < next_attempt ls i"
proof (cases "map l_Attempt (filter (\<lambda>l. identity l = i) ls) = []")
  case True
  then show ?thesis by (simp add: next_attempt_def)
next
  case False
  then obtain l where "l \<in> set ls" "identity l = i" by (auto simp: filter_empty_conv)
  with assms next_attempt_greater [of l ls i] show ?thesis by (force simp: leases_ok_def)
qed

lemma new_lease_fields:
  "identity (new_lease sha ls repo proposal protocol env holder ttl now) = (repo, proposal, protocol, env)"
  "l_State (new_lease sha ls repo proposal protocol env holder ttl now) = ACTIVE"
  "l_Attempt (new_lease sha ls repo proposal protocol env holder ttl now) = next_attempt ls (repo, proposal, protocol, env)"
  by (simp_all add: new_lease_def Let_def identity_def)

lemma insert_ok:
  assumes "leases_ok ls" "\<not> unique_violation ls l" "l_State l = ACTIVE" "l_Attempt l = next_attempt ls (identity l)"
  shows "leases_ok (ls @ [l])"
proof -
  have "l_LeaseID l \<notin> l_LeaseID ` set ls" "identity l \<notin> identity ` set (filter (\<lambda>x. l_State x = ACTIVE) ls)"
    using assms(2,3) by (auto simp: unique_violation_def list_ex_iff)
  moreover have "(identity l, l_Attempt l) \<notin> (\<lambda>l. (identity l, l_Attempt l)) ` set ls"
    using next_attempt_greater [of _ ls "identity l"] assms(4) by fastforce
  moreover have "0 < l_Attempt l" using next_attempt_pos [OF assms(1)] assms(4) by simp
  ultimately show ?thesis using assms(1,3) by (simp add: leases_ok_def)
qed

lemma lease_step_ok:
  assumes "lease_step sha s s'" "leases_ok (ls_Leases s)"
  shows "leases_ok (ls_Leases s')"
  using assms(1)
proof cases
  case (claim repo proposal protocol env holder ttl now res)
  let ?s1 = "fst (expireWCNCPLeasesTx s now)"
  let ?l = "new_lease sha (ls_Leases ?s1) repo proposal protocol env holder ttl now"
  have ok1: "leases_ok (ls_Leases ?s1)" using moves_ok [OF expire_moves] assms(2) by blast
  have "s' = s \<or> s' = ?s1 \<or> (s' = ?s1\<lparr>ls_Leases := ls_Leases ?s1 @ [?l]\<rparr> \<and> \<not> unique_violation (ls_Leases ?s1) ?l)"
    using claim by (auto simp: ClaimWCNCPLease_def Let_def split: if_splits)
  with assms(2) ok1 insert_ok [OF ok1, of ?l] show ?thesis by (auto simp: new_lease_fields)
next
  case heartbeat
  then show ?thesis using moves_ok [OF heartbeat_moves] assms(2) by blast
next
  case release_lease
  then show ?thesis using moves_ok [OF release_moves] assms(2) by blast
next
  case (expire now n)
  then have "s' = s \<or> s' = fst (expireWCNCPLeasesTx s now)"
    by (auto simp: ExpireWCNCPLeases_def split: if_splits prod.splits)
  then show ?thesis using moves_ok [OF expire_moves] assms(2) by blast
next
  case close
  with assms(2) show ?thesis by simp
qed

lemma reachable_leases_ok: "lease_reachable sha s \<Longrightarrow> leases_ok (ls_Leases s)"
  by (induction rule: lease_reachable.induct) (simp add: leases_ok_def, blast intro: lease_step_ok)

lemma active_unique:
  assumes "leases_ok ls" "x \<in> set ls" "y \<in> set ls" "l_State x = ACTIVE" "l_State y = ACTIVE" "identity x = identity y"
  shows "x = y"
proof -
  have "inj_on identity (set (filter (\<lambda>l. l_State l = ACTIVE) ls))" using assms(1) by (simp add: leases_ok_def distinct_map)
  with assms show ?thesis by (auto dest: inj_onD)
qed

lemma Require_None:
  assumes "RequireWCNCPLease s leaseID holder proposal now = None"
  obtains l where "l \<in> set (ls_Leases s)" "l_LeaseID l = leaseID" "l_State l = ACTIVE" "l_Holder l = holder"
    "l_ProposalDigest l = proposal" "to_milli now < l_ExpiryUnixMs l"
proof -
  from assms obtain l where "find (\<lambda>l. l_LeaseID l = leaseID \<and> l_State l = ACTIVE) (ls_Leases s) = Some l"
    and ok: "l_Holder l = holder" "l_ProposalDigest l = proposal" "to_milli now < l_ExpiryUnixMs l"
    by (auto simp: RequireWCNCPLease_def split: if_splits option.splits)
  then have "l \<in> set (ls_Leases s)" "l_LeaseID l = leaseID" "l_State l = ACTIVE" by (auto simp: find_Some_iff)
  with ok show ?thesis using that by blast
qed

section \<open>Properties\<close>

text \<open>
  (C26) Validation leases are exclusive. After any sequence of claims, heartbeats, releases and expiries by any
  clients with any clocks, if two lease holders both pass the check that precedes a publication, for the same
  proposal, and their leases are for the same repository, protocol and environment, then it is the same
  lease and the same holder.
\<close>

theorem lease_mutual_exclusion:
  assumes "lease_reachable sha256_hex s"
    and "RequireWCNCPLease s id1 holder1 proposal now1 = None" "RequireWCNCPLease s id2 holder2 proposal now2 = None"
    and "x \<in> set (ls_Leases s)" "l_LeaseID x = id1" "y \<in> set (ls_Leases s)" "l_LeaseID y = id2"
    and "l_RepositoryScopeSHA256 x = l_RepositoryScopeSHA256 y" "l_ProtocolVersion x = l_ProtocolVersion y"
      "l_EnvironmentClass x = l_EnvironmentClass y"
  shows "id1 = id2 \<and> holder1 = holder2"
proof -
  note ok = reachable_leases_ok [OF assms(1)]
  obtain l1 where l1: "l1 \<in> set (ls_Leases s)" "l_LeaseID l1 = id1" "l_State l1 = ACTIVE" "l_Holder l1 = holder1" "l_ProposalDigest l1 = proposal"
    using assms(2) by (elim Require_None) blast
  obtain l2 where l2: "l2 \<in> set (ls_Leases s)" "l_LeaseID l2 = id2" "l_State l2 = ACTIVE" "l_Holder l2 = holder2" "l_ProposalDigest l2 = proposal"
    using assms(3) by (elim Require_None) blast
  have inj: "inj_on l_LeaseID (set (ls_Leases s))" using ok by (simp add: leases_ok_def distinct_map)
  have "l1 = x" "l2 = y" using inj l1 l2 assms(4-7) by (auto dest: inj_onD)
  with l1 l2 assms(8-10) have "identity l1 = identity l2" by (simp add: identity_def)
  from active_unique [OF ok l1(1) l2(1) l1(3) l2(3) this] l1 l2 show ?thesis by auto
qed

definition ex_sha_id :: "string \<Rightarrow> string" where
  "ex_sha_id content = replicate 64 (CHR ''e'')"

definition ex_claim :: "LeaseStore \<times> lease_row result" where
  "ex_claim = ClaimWCNCPLease ex_sha_id \<lparr>ls_Closed = False, ls_Leases = []\<rparr> (replicate 64 (CHR ''a'')) (replicate 64 (CHR ''b''))
     ''v1'' ''LOCAL_FUNCTIONAL'' ''h'' 5000000000 1000000000"

theorem lease_mutual_exclusion_witness:
  "\<exists>x y. x \<in> set (ls_Leases (fst ex_claim)) \<and> y \<in> set (ls_Leases (fst ex_claim)) \<and>
     RequireWCNCPLease (fst ex_claim) (l_LeaseID x) ''h'' (replicate 64 (CHR ''b'')) 2000000000 = None \<and>
     RequireWCNCPLease (fst ex_claim) (l_LeaseID y) (l_Holder y) (replicate 64 (CHR ''b'')) 3000000000 = None \<and>
     l_LeaseID x = l_LeaseID y \<and> ''h'' = l_Holder y"
proof -
  let ?id = "replicate 64 (CHR ''e'')" and ?p = "replicate 64 (CHR ''b'')"
  have r1: "RequireWCNCPLease (fst ex_claim) ?id ''h'' ?p 2000000000 = None"
    and r2: "RequireWCNCPLease (fst ex_claim) ?id ''h'' ?p 3000000000 = None" by code_simp+
  have "lease_step ex_sha_id \<lparr>ls_Closed = False, ls_Leases = []\<rparr> (fst ex_claim)"
    by (rule lease_step.claim [of _ _ "replicate 64 (CHR ''a'')" ?p "''v1''" "''LOCAL_FUNCTIONAL''" "''h''"
        5000000000 1000000000 _ "snd ex_claim"]) (simp add: ex_claim_def)
  with lease_reachable.initial have reach: "lease_reachable ex_sha_id (fst ex_claim)" by (rule lease_reachable.step)
  obtain l where l: "l \<in> set (ls_Leases (fst ex_claim))" "l_LeaseID l = ?id" "l_Holder l = ''h''" using r1 by (elim Require_None) blast
  from lease_mutual_exclusion [OF reach r1 r2 l(1,2) l(1,2) refl refl refl] r1 r2 l show ?thesis by metis
qed

lemma next_attempt_map:
  assumes "map (\<lambda>l. (identity l, l_Attempt l)) ms = map (\<lambda>l. (identity l, l_Attempt l)) ls"
  shows "next_attempt ms i = next_attempt ls i"
proof -
  have "map l_Attempt (filter (\<lambda>l. identity l = i) ks) =
    map snd (filter (\<lambda>p. fst p = i) (map (\<lambda>l. (identity l, l_Attempt l)) ks))" for ks :: "lease_row list"
    by (induction ks) auto
  with assms show ?thesis by (simp add: next_attempt_def)
qed

lemma expired_active:
  "x \<in> set (ls_Leases (fst (expireWCNCPLeasesTx s now))) \<and> l_State x = ACTIVE \<longleftrightarrow>
   x \<in> set (ls_Leases s) \<and> l_State x = ACTIVE \<and> to_milli now < l_ExpiryUnixMs x"
  by (auto simp: expireWCNCPLeasesTx_def Let_def split: if_splits)

lemma find_append_last: "find P xs = None \<Longrightarrow> P x \<Longrightarrow> find P (xs @ [x]) = Some x"
  by (induction xs) auto

text \<open>
  A claim wins exactly when the proposal is free. For a well-formed request whose lease identifier is
  not already taken: if an active lease of the same identity has not reached its expiry, the claim reports
  that the lease is held; otherwise it succeeds, the new lease has a higher attempt number than every
  earlier lease of the identity, and its holder at once passes the check that precedes a publication.
\<close>

theorem claim_wins_iff_free:
  assumes "lease_reachable sha256_hex s" "claim_valid repo proposal protocol env holder ttl now" "\<not> ls_Closed s" "\<And>c. lower_hex_len 64 (sha256_hex c)"
    and "0 \<le> to_milli now" "1000000 \<le> ttl" "hd protocol \<noteq> CHR 0x00" "hd holder \<noteq> CHR 0x00"
    and "wcncpLeaseID sha256_hex repo proposal protocol env (next_attempt (ls_Leases s) (repo, proposal, protocol, env)) \<notin>
      l_LeaseID ` set (ls_Leases s)"
  shows "if \<exists>l\<in>set (ls_Leases s). identity l = (repo, proposal, protocol, env) \<and> l_State l = ACTIVE \<and> to_milli now < l_ExpiryUnixMs l
    then snd (ClaimWCNCPLease sha256_hex s repo proposal protocol env holder ttl now) = Inl ErrWCNCPLeaseHeld
    else \<exists>s' lease. ClaimWCNCPLease sha256_hex s repo proposal protocol env holder ttl now = (s', Inr lease) \<and>
      RequireWCNCPLease s' (l_LeaseID lease) holder proposal now = None \<and>
      (\<forall>l\<in>set (ls_Leases s). identity l = (repo, proposal, protocol, env) \<longrightarrow> l_Attempt l < l_Attempt lease)"
proof -
  let ?i = "(repo, proposal, protocol, env)" and ?s1 = "fst (expireWCNCPLeasesTx s now)"
  let ?l = "new_lease sha256_hex (ls_Leases ?s1) repo proposal protocol env holder ttl now"
  note moves = moves_same [OF expire_moves [of s now]]
  have att: "next_attempt (ls_Leases ?s1) ?i = next_attempt (ls_Leases s) ?i" by (rule next_attempt_map [OF moves(2)])
  have ids: "l_LeaseID ` set (ls_Leases ?s1) = l_LeaseID ` set (ls_Leases s)" using moves(1) by (metis list.set_map)
  have ttl: "to_milli now < to_milli (now + ttl)"
  proof -
    have "(now + 1000000) div 1000000 \<le> (now + ttl) div 1000000" using assms(6) by (intro zdiv_mono1) simp_all
    then show ?thesis by (simp add: to_milli_def)
  qed
  have pos: "0 < next_attempt (ls_Leases s) ?i" by (rule next_attempt_pos [OF reachable_leases_ok [OF assms(1)]])
  have lid: "l_LeaseID ?l = wcncpLeaseID sha256_hex repo proposal protocol env (next_attempt (ls_Leases s) ?i)"
    by (simp add: new_lease_def att Let_def)
  have checks: "row_checks ?l"
    using assms(2,4,5,7,8) pos ttl att unfolding row_checks_def lid
    by (auto simp: new_lease_def Let_def wcncpLeaseID_def claim_valid_def validSHA256_def)
  have uniq: "unique_violation (ls_Leases ?s1) ?l \<longleftrightarrow>
      (\<exists>l\<in>set (ls_Leases s). identity l = ?i \<and> l_State l = ACTIVE \<and> to_milli now < l_ExpiryUnixMs l)"
  proof -
    have "l_LeaseID x \<noteq> l_LeaseID ?l" if "x \<in> set (ls_Leases ?s1)" for x using that assms(9) ids unfolding lid by (metis imageI)
    then have "unique_violation (ls_Leases ?s1) ?l \<longleftrightarrow> (\<exists>x. x \<in> set (ls_Leases ?s1) \<and> l_State x = ACTIVE \<and> identity x = ?i)"
      unfolding unique_violation_def list_ex_iff new_lease_fields by blast
    also have "\<dots> \<longleftrightarrow> (\<exists>l\<in>set (ls_Leases s). identity l = ?i \<and> l_State l = ACTIVE \<and> to_milli now < l_ExpiryUnixMs l)"
      using expired_active [of _ s now] by blast
    finally show ?thesis .
  qed
  have closed: "ls_Closed ?s1 = ls_Closed s" by (simp add: expireWCNCPLeasesTx_def Let_def)
  show ?thesis
  proof (cases "unique_violation (ls_Leases ?s1) ?l")
    case True
    then show ?thesis using uniq assms(2,3) checks by (simp add: ClaimWCNCPLease_def Let_def)
  next
    case False
    let ?s2 = "?s1\<lparr>ls_Leases := ls_Leases ?s1 @ [?l]\<rparr>"
    have claim: "ClaimWCNCPLease sha256_hex s repo proposal protocol env holder ttl now = (?s2, Inr ?l)"
      using False assms(2,3) checks by (simp add: ClaimWCNCPLease_def Let_def)
    have new: "find (\<lambda>l. l_LeaseID l = l_LeaseID ?l \<and> l_State l = ACTIVE) (ls_Leases ?s1) = None"
      using False unfolding find_None_iff unique_violation_def list_ex_iff by blast
    have at: "find (\<lambda>l. l_LeaseID l = l_LeaseID ?l \<and> l_State l = ACTIVE) (ls_Leases ?s1 @ [?l]) = Some ?l"
      using new new_lease_fields(2) by (intro find_append_last) simp_all
    have fields: "l_Holder ?l = holder" "l_ProposalDigest ?l = proposal" "l_ExpiryUnixMs ?l = to_milli (now + ttl)"
      by (simp_all add: new_lease_def Let_def)
    have "validSHA256 (l_LeaseID ?l)" unfolding lid by (simp add: validSHA256_def wcncpLeaseID_def assms(4))
    then have "RequireWCNCPLease ?s2 (l_LeaseID ?l) holder proposal now = None"
      unfolding RequireWCNCPLease_def using at fields ttl assms(2,3) closed by (simp add: claim_valid_def)
    moreover have "\<forall>l\<in>set (ls_Leases s). identity l = ?i \<longrightarrow> l_Attempt l < l_Attempt ?l"
      unfolding new_lease_fields att using next_attempt_greater by blast
    ultimately show ?thesis using claim uniq False by auto
  qed
qed

theorem claim_wins_iff_free_witness:
  "\<exists>s' lease. ClaimWCNCPLease ex_sha_id \<lparr>ls_Closed = False, ls_Leases = []\<rparr> (replicate 64 (CHR ''a'')) (replicate 64 (CHR ''b''))
     ''v1'' ''LOCAL_FUNCTIONAL'' ''h'' 5000000000 1000000000 = (s', Inr lease) \<and>
     RequireWCNCPLease s' (l_LeaseID lease) ''h'' (replicate 64 (CHR ''b'')) 1000000000 = None"
proof -
  have v: "claim_valid (replicate 64 (CHR ''a'')) (replicate 64 (CHR ''b'')) ''v1'' ''LOCAL_FUNCTIONAL'' ''h'' 5000000000 1000000000"
    by code_simp
  have h: "lower_hex_len 64 (ex_sha_id c)" for c unfolding ex_sha_id_def by code_simp
  show ?thesis using claim_wins_iff_free [OF lease_reachable.initial v _ h] by (simp add: to_milli_def)
qed

end
