(* ===== verification/SharedStorage.thy ===== *)
theory SharedStorage
  imports Leases "HOL-Library.Product_Lexorder"
begin

text \<open>
  The durable state of the Shared cache server: the tables of \<open>cache.sqlite\<close> and \<open>control.sqlite\<close>
  (\<open>internal/sharedcache/sqlite.go\<close>), the content-addressed blob directory (\<open>blob.go\<close>) and the \<open>Storage\<close>
  structure that owns them (\<open>storage.go\<close>).

  A table is the list of its rows in insertion order. A statement that violates a CHECK constraint or a key
  fails and changes nothing. A transaction is a function on \<open>cache_db\<close>: rolling it back is discarding its
  result. The tables of \<open>state.sqlite\<close> are owned by other files of the package; only the blob digests they
  refer to matter here and they are a field of the state. Instants are nanoseconds since the Unix epoch; the
  tables keep milliseconds.

  SHA-256, the JSON encoding of the requests and the iteration order of Go maps are fields of the
  \<open>environment\<close>.
\<close>

section \<open>Errors\<close>

abbreviation ErrBlobTooLarge :: error where "ErrBlobTooLarge \<equiv> ''Shared blob exceeds the maximum object size''"
abbreviation ErrBlobCorrupt :: error where "ErrBlobCorrupt \<equiv> ''Shared blob is corrupt''"
abbreviation ErrInvalidDigest :: error where "ErrInvalidDigest \<equiv> ''invalid Shared blob digest''"
abbreviation ErrAttemptNotFound :: error where "ErrAttemptNotFound \<equiv> ''Shared cache attempt was not found''"
abbreviation ErrAttemptConflict :: error where "ErrAttemptConflict \<equiv> ''Shared cache attempt conflicts with the request''"
abbreviation ErrStatePrecondition :: error where "ErrStatePrecondition \<equiv> ''Shared cache attempt state precondition failed''"
abbreviation ErrIdempotencyConflict :: error where "ErrIdempotencyConflict \<equiv> ''Shared cache idempotency identity conflict''"
abbreviation ErrCommitRejected :: error where "ErrCommitRejected \<equiv> ''Shared cache commit decision was rejected''"
abbreviation ErrCASLost :: error where "ErrCASLost \<equiv> ''Shared cache first-writer CAS was lost''"
abbreviation ErrCacheMiss :: error where "ErrCacheMiss \<equiv> ''Shared cache miss''"
abbreviation ErrCapacityExceeded :: error where "ErrCapacityExceeded \<equiv> ''Shared cache capacity exceeded''"
abbreviation ErrNotExist :: error where "ErrNotExist \<equiv> ''file does not exist''"
abbreviation UniqueFailed :: error where "UniqueFailed \<equiv> ''UNIQUE constraint failed''"
abbreviation DatabaseError :: error where "DatabaseError \<equiv> ''database error''"

text \<open>Statements run in sequence; the first error ends the function.\<close>

fun and_then :: "'a result \<Rightarrow> ('a \<Rightarrow> 'b result) \<Rightarrow> 'b result" where
  "and_then (Inl e) f = Inl e"
| "and_then (Inr a) f = f a"

lemma and_then_Inr [simp]: "and_then r f = Inr b \<longleftrightarrow> (\<exists>a. r = Inr a \<and> f a = Inr b)"
  by (cases r) auto

lemma and_then_Inl: "and_then r f = Inl e \<longleftrightarrow> r = Inl e \<or> (\<exists>a. r = Inr a \<and> f a = Inl e)"
  by (cases r) auto

section \<open>Identities\<close>

definition identifierPattern :: "string \<Rightarrow> bool" where
  "identifierPattern = match_ident is_alnum (\<lambda>c. is_alnum c \<or> c \<in> set ''._:/-'') (Some 255)"

definition cacheKeyPattern :: "string \<Rightarrow> bool" where
  "cacheKeyPattern s = (1 \<le> length s \<and> length s \<le> 256 \<and> list_all (\<lambda>c. is_alnum c \<or> c \<in> set ''._-'') s)"

definition revisionPattern :: "string \<Rightarrow> bool" where
  "revisionPattern s = (7 \<le> length s \<and> length s \<le> 64 \<and> list_all is_lower_hex s)"

definition digestPattern :: "string \<Rightarrow> bool" where
  "digestPattern s = ((hasPrefix ''sha256:'' s \<and> lower_hex_len 64 (drop 7 s)) \<or>
     (hasPrefix ''hmac-sha256:'' s \<and> lower_hex_len 64 (drop 12 s)))"

definition digestPrefix :: string where "digestPrefix = ''sha256:''"

text \<open>
  \<open>hex.DecodeString\<close> also accepts upper-case digits; re-encoding and comparing leaves the lower-case ones.
\<close>

definition parseDigest :: "string \<Rightarrow> string result" where
  "parseDigest digest =
     (if length digest \<noteq> length digestPrefix + 64 \<or> \<not> hasPrefix digestPrefix digest then Inl ErrInvalidDigest
      else let hexDigest = trimPrefix digestPrefix digest in
        if list_all is_lower_hex hexDigest then Inr hexDigest else Inl ErrInvalidDigest)"

definition validSHA256Digest :: "string \<Rightarrow> bool" where
  "validSHA256Digest s = (case parseDigest s of Inl _ \<Rightarrow> False | Inr _ \<Rightarrow> True)"

record RepositoryIdentity =
  rp_Tenant :: string
  rp_Repository :: string
  rp_TrustDomain :: string

record Blob =
  bl_Digest :: string
  bl_Size :: int

record CommitObject =
  co_NamespaceGeneration :: int
  co_Key :: string
  co_Checksum :: string
  co_SizeBytes :: int

definition MaximumBlobBytes :: int where "MaximumBlobBytes = 104857600"

section \<open>Tables of the cache database\<close>

datatype AttemptState = AttemptPending | AttemptCommitted | AttemptAborted

record attempt_row =
  at_attempt_id :: string
  at_request_fingerprint :: string
  at_tenant_id :: string
  at_repository_id :: string
  at_trust_domain :: string
  at_namespace_generation :: int
  at_source_revision :: string
  at_source_state_digest :: string
  at_policy_digest :: string
  at_configuration_policy_digest :: string
  at_cache_contract_digest :: string
  at_owner_id :: string
  at_lease_id :: string
  at_lease_expires_at_unix_ms :: int
  at_state :: AttemptState
  at_state_version :: int
  at_terminal_id :: "string option"
  at_terminal_fingerprint :: "string option"
  at_decision_digest :: "string option"
  at_abort_reason :: "string option"
  at_created_at_unix_ms :: int
  at_updated_at_unix_ms :: int

record pending_row =
  pe_attempt_id :: string
  pe_cache_key :: string
  pe_blob_digest :: string
  pe_size_bytes :: int
  pe_created_at_unix_ms :: int

record decision_row =
  de_decision_digest :: string
  de_attempt_id :: string
  de_canonical_document :: string
  de_committed_at_unix_ms :: int

record committed_row =
  cm_tenant_id :: string
  cm_namespace_generation :: int
  cm_cache_key :: string
  cm_blob_digest :: string
  cm_size_bytes :: int
  cm_decision_digest :: string
  cm_committed_at_unix_ms :: int
  cm_last_access_unix_ms :: int

datatype segment = PROBATION | PROTECTED

record entry_row =
  en_tenant_id :: string
  en_namespace_generation :: int
  en_cache_key :: string
  en_repository_id :: string
  en_trust_domain :: string
  en_expires_at_unix_ms :: int
  en_segment :: segment

record quarantine_row =
  qu_decision_digest :: "string option"
  qu_attempt_id :: "string option"
  qu_blob_digest :: string
  qu_size_bytes :: int
  qu_reason :: string
  qu_quarantined_at_unix_ms :: int

record cache_db =
  db_attempts :: "attempt_row list"
  db_authorities :: "(string \<times> string) list"
  db_pending :: "pending_row list"
  db_decisions :: "decision_row list"
  db_committed :: "committed_row list"
  db_entries :: "entry_row list"
  db_quarantine :: "quarantine_row list"

type_synonym object_key = "string \<times> int \<times> string"

definition committed_key :: "committed_row \<Rightarrow> object_key" where
  "committed_key c = (cm_tenant_id c, cm_namespace_generation c, cm_cache_key c)"

definition entry_key :: "entry_row \<Rightarrow> object_key" where
  "entry_key e = (en_tenant_id e, en_namespace_generation e, en_cache_key e)"

definition pending_key :: "pending_row \<Rightarrow> string \<times> string" where
  "pending_key p = (pe_attempt_id p, pe_cache_key p)"

text \<open>The CHECK constraints of the migrations, in the order of the columns.\<close>

definition text_between :: "nat \<Rightarrow> nat \<Rightarrow> string \<Rightarrow> bool" where
  "text_between a b s = (a \<le> length s \<and> length s \<le> b)"

definition digest_column :: "string \<Rightarrow> bool" where
  "digest_column s = (length s = 71 \<and> take 7 s = ''sha256:'' \<and> list_all is_lower_hex (drop 7 s))"

definition terminal_columns :: "attempt_row \<Rightarrow> bool" where
  "terminal_columns a =
     (case at_state a of
        AttemptPending \<Rightarrow> at_terminal_id a = None \<and> at_terminal_fingerprint a = None \<and> at_decision_digest a = None \<and>
          at_abort_reason a = None
      | AttemptCommitted \<Rightarrow> at_terminal_id a \<noteq> None \<and> at_terminal_fingerprint a \<noteq> None \<and> at_decision_digest a \<noteq> None \<and>
          at_abort_reason a = None
      | AttemptAborted \<Rightarrow> at_terminal_id a \<noteq> None \<and> at_terminal_fingerprint a \<noteq> None \<and> at_decision_digest a = None \<and>
          at_abort_reason a \<noteq> None)"

definition attempt_checks :: "attempt_row \<Rightarrow> bool" where
  "attempt_checks a =
     (text_between 1 256 (at_attempt_id a) \<and> digest_column (at_request_fingerprint a) \<and>
      text_between 1 256 (at_tenant_id a) \<and> text_between 1 256 (at_repository_id a) \<and>
      text_between 1 256 (at_trust_domain a) \<and> at_namespace_generation a > 0 \<and>
      text_between 7 64 (at_source_revision a) \<and> text_between 71 76 (at_source_state_digest a) \<and>
      length (at_policy_digest a) = 71 \<and> length (at_configuration_policy_digest a) = 71 \<and>
      length (at_cache_contract_digest a) = 71 \<and> text_between 1 256 (at_owner_id a) \<and>
      text_between 1 256 (at_lease_id a) \<and> at_lease_expires_at_unix_ms a \<ge> 0 \<and> at_state_version a > 0 \<and>
      at_created_at_unix_ms a \<ge> 0 \<and> at_updated_at_unix_ms a \<ge> at_created_at_unix_ms a \<and> terminal_columns a)"

definition size_column :: "int \<Rightarrow> bool" where
  "size_column n = (n \<ge> 0 \<and> n \<le> MaximumBlobBytes)"

definition pending_checks :: "pending_row \<Rightarrow> bool" where
  "pending_checks p =
     (text_between 1 256 (pe_cache_key p) \<and> digest_column (pe_blob_digest p) \<and> size_column (pe_size_bytes p) \<and>
      pe_created_at_unix_ms p \<ge> 0)"

definition decision_checks :: "decision_row \<Rightarrow> bool" where
  "decision_checks d =
     (digest_column (de_decision_digest d) \<and> text_between 1 256 (de_attempt_id d) \<and> de_committed_at_unix_ms d \<ge> 0)"

definition committed_checks :: "committed_row \<Rightarrow> bool" where
  "committed_checks c =
     (text_between 1 256 (cm_tenant_id c) \<and> cm_namespace_generation c \<ge> 0 \<and> text_between 1 512 (cm_cache_key c) \<and>
      digest_column (cm_blob_digest c) \<and> size_column (cm_size_bytes c) \<and> cm_committed_at_unix_ms c \<ge> 0 \<and>
      cm_last_access_unix_ms c \<ge> cm_committed_at_unix_ms c)"

definition entry_checks :: "entry_row \<Rightarrow> bool" where
  "entry_checks e =
     (text_between 1 256 (en_tenant_id e) \<and> en_namespace_generation e > 0 \<and> text_between 1 512 (en_cache_key e) \<and>
      text_between 1 256 (en_repository_id e) \<and> text_between 1 256 (en_trust_domain e) \<and> en_expires_at_unix_ms e \<ge> 0)"

definition quarantine_checks :: "quarantine_row \<Rightarrow> bool" where
  "quarantine_checks q =
     (digest_column (qu_blob_digest q) \<and> size_column (qu_size_bytes q) \<and> qu_reason q \<in> {''MISSING'', ''CORRUPT''} \<and>
      qu_quarantined_at_unix_ms q \<ge> 0)"

section \<open>Statements\<close>

text \<open>
  \<open>INSERT\<close> into a table with a key, \<open>UPDATE ... WHERE\<close> with the number of rows affected, and the deletions
  with the cascade of the foreign key of \<open>storage_entries\<close>.
\<close>

definition sql_insert :: "('r \<Rightarrow> bool) \<Rightarrow> ('r \<Rightarrow> 'k) \<Rightarrow> 'r \<Rightarrow> 'r list \<Rightarrow> 'r list result" where
  "sql_insert checks key r rs =
     (if \<not> checks r then Inl CheckFailed
      else if list_ex (\<lambda>x. key x = key r) rs then Inl UniqueFailed else Inr (rs @ [r]))"

definition sql_update :: "('r \<Rightarrow> bool) \<Rightarrow> ('r \<Rightarrow> bool) \<Rightarrow> ('r \<Rightarrow> 'r) \<Rightarrow> 'r list \<Rightarrow> ('r list \<times> nat) result" where
  "sql_update checks sel f rs =
     (if list_ex (\<lambda>r. sel r \<and> \<not> checks (f r)) rs then Inl CheckFailed
      else Inr (map (\<lambda>r. if sel r then f r else r) rs, length (filter sel rs)))"

definition delete_pending :: "(pending_row \<Rightarrow> bool) \<Rightarrow> cache_db \<Rightarrow> cache_db" where
  "delete_pending sel db = db\<lparr>db_pending := filter (\<lambda>p. \<not> sel p) (db_pending db)\<rparr>"

definition delete_committed :: "(committed_row \<Rightarrow> bool) \<Rightarrow> cache_db \<Rightarrow> cache_db \<times> nat" where
  "delete_committed sel db =
     (let gone = filter sel (db_committed db); keys = map committed_key gone in
      (db\<lparr>db_committed := filter (\<lambda>c. \<not> sel c) (db_committed db),
          db_entries := filter (\<lambda>e. entry_key e \<notin> set keys) (db_entries db)\<rparr>, length gone))"

definition insert_pending :: "pending_row \<Rightarrow> cache_db \<Rightarrow> cache_db result" where
  "insert_pending p db =
     and_then (sql_insert pending_checks pending_key p (db_pending db)) (\<lambda>rs. Inr (db\<lparr>db_pending := rs\<rparr>))"

text \<open>\<open>commit_decisions\<close> has two keys: the digest and the attempt.\<close>

definition insert_decision :: "decision_row \<Rightarrow> cache_db \<Rightarrow> cache_db result" where
  "insert_decision d db =
     (if list_ex (\<lambda>x. de_attempt_id x = de_attempt_id d) (db_decisions db) then Inl UniqueFailed
      else and_then (sql_insert decision_checks de_decision_digest d (db_decisions db)) (\<lambda>rs. Inr (db\<lparr>db_decisions := rs\<rparr>)))"

definition insert_committed :: "committed_row \<Rightarrow> cache_db \<Rightarrow> cache_db result" where
  "insert_committed c db =
     (if \<not> list_ex (\<lambda>d. de_decision_digest d = cm_decision_digest c) (db_decisions db) then Inl ''FOREIGN KEY constraint failed''
      else and_then (sql_insert committed_checks committed_key c (db_committed db)) (\<lambda>rs. Inr (db\<lparr>db_committed := rs\<rparr>)))"

definition insert_entry :: "entry_row \<Rightarrow> cache_db \<Rightarrow> cache_db result" where
  "insert_entry e db =
     (if \<not> list_ex (\<lambda>c. committed_key c = entry_key e) (db_committed db) then Inl ''FOREIGN KEY constraint failed''
      else and_then (sql_insert entry_checks entry_key e (db_entries db)) (\<lambda>rs. Inr (db\<lparr>db_entries := rs\<rparr>)))"

definition insertQuarantineRecord ::
    "string option \<Rightarrow> string option \<Rightarrow> Blob \<Rightarrow> string \<Rightarrow> int \<Rightarrow> cache_db \<Rightarrow> cache_db result" where
  "insertQuarantineRecord decisionDigest attemptID blob reason now db =
     (let q = \<lparr>qu_decision_digest = decisionDigest, qu_attempt_id = attemptID, qu_blob_digest = bl_Digest blob,
                qu_size_bytes = bl_Size blob, qu_reason = reason, qu_quarantined_at_unix_ms = to_milli now\<rparr> in
      if quarantine_checks q then Inr (db\<lparr>db_quarantine := db_quarantine db @ [q]\<rparr>) else Inl CheckFailed)"

definition nullableString :: "string \<Rightarrow> string option" where
  "nullableString s = (if s \<noteq> [] then Some s else None)"

section \<open>The storage\<close>

record CapacityPolicy =
  cp_DeploymentBytes :: int
  cp_RepositoryBytes :: int
  cp_PendingQuarantineBytes :: int
  cp_StableTTL :: int
  cp_QuarantineTTL :: int
  cp_HighWatermarkPercent :: int
  cp_LowWatermarkPercent :: int
  cp_ProtectedPercent :: int
  cp_AccessUpdateInterval :: int

record capacityScope =
  sc_tenant :: string
  sc_repository :: string
  sc_trustDomain :: string
  sc_namespaceGeneration :: int

record pendingReservation =
  rs_scope :: capacityScope
  rs_amount :: int

record protectedAccessKey =
  ak_tenant :: string
  ak_namespaceGeneration :: int
  ak_key :: string
  ak_blobDigest :: string
  ak_sizeBytes :: int
  ak_decisionDigest :: string

record ReconciliationReport =
  rr_StartedAt :: int
  rr_CompletedAt :: int
  rr_ExpiredAttempts :: nat
  rr_InvalidatedDecisions :: nat
  rr_QuarantinedBlobs :: nat
  rr_DeletedOrphanBlobs :: nat
  rr_RepairedAuditRows :: nat

record CapacityMaintenanceReport =
  mr_StartedAt :: int
  mr_CompletedAt :: int
  mr_StableBytesBefore :: int
  mr_StableBytesAfter :: int
  mr_ExpiredObjects :: nat
  mr_EvictedProbation :: nat
  mr_EvictedProtected :: nat
  mr_DemotedProtected :: nat
  mr_ExpiredAttempts :: nat
  mr_ExpiredQuarantine :: nat
  mr_DeletedUnreferencedBlob :: nat

text \<open>
  A reservation is a pointer of the map \<open>reservations\<close>; here it is a number that is never reused, and a
  released reservation is one that the map no longer has.
\<close>

record Storage =
  so_closed :: bool
  so_cache :: cache_db
  so_audit :: "(string \<times> int) list"
  so_reconciliation_runs :: "ReconciliationReport list"
  so_maintenance_runs :: "CapacityMaintenanceReport list"
  so_state_digests :: "string list"
  so_blobs :: "(string \<times> string) list"
  so_quarantine_files :: "(string \<times> string) list"
  so_maximumBlobBytes :: int
  so_capacity :: CapacityPolicy
  so_reservations :: "(nat \<times> pendingReservation) list"
  so_next_reservation :: nat
  so_blobCleanupPending :: bool
  so_quarantineCleanupPending :: bool
  so_minimumNamespaceGeneration :: int
  so_currentAccessBatch :: "(protectedAccessKey \<times> int) list option"
  so_protectedAccessError :: bool

record StartAttemptRequest =
  sr_RequestID :: string
  sr_AttemptID :: string
  sr_AuthorityDigest :: string
  sr_Repository :: RepositoryIdentity
  sr_NamespaceGeneration :: int
  sr_SourceRevision :: string
  sr_SourceStateDigest :: string
  sr_PolicyDigest :: string
  sr_ConfigurationPolicyDigest :: string
  sr_CacheContractDigest :: string
  sr_OwnerID :: string
  sr_LeaseID :: string
  sr_LeaseExpiresAt :: int

record AbortAttemptRequest =
  ar_RequestID :: string
  ar_AttemptID :: string
  ar_ExpectedStateVersion :: int
  ar_Reason :: string

text \<open>
  \<open>json_...\<close> is \<open>json.Marshal\<close> followed by \<open>CanonicalizeJCS\<close> on the fingerprinted values.
\<close>

record environment =
  sha256_hex :: "string \<Rightarrow> string"
  map_order :: "(string \<times> string) list \<Rightarrow> (string \<times> string) list"
  json_start :: "StartAttemptRequest \<Rightarrow> string"
  json_abort :: "AbortAttemptRequest \<Rightarrow> string"
  json_expired :: "string \<Rightarrow> string \<Rightarrow> string"
  json_quarantine :: "string \<Rightarrow> Blob \<Rightarrow> string \<Rightarrow> string"

definition canonicalDocumentFingerprint :: "environment \<Rightarrow> string \<Rightarrow> string" where
  "canonicalDocumentFingerprint env canonical = digestPrefix @ sha256_hex env canonical"

text \<open>\<open>fingerprintValue\<close> of a value whose canonical JSON text is given.\<close>

definition fingerprintValue :: "environment \<Rightarrow> string \<Rightarrow> string" where
  "fingerprintValue env canonical = canonicalDocumentFingerprint env canonical"

section \<open>The blob store\<close>

text \<open>
  The blob directory is the association list of digests and bytes, one file per digest. \<open>putLocked\<close> names a
  file by the digest of the streamed bytes and links it only when no file has that name; when one has, its
  bytes are verified.
\<close>

definition openVerified :: "environment \<Rightarrow> Storage \<Rightarrow> Blob \<Rightarrow> string result" where
  "openVerified env s blob =
     (if bl_Size blob < 0 \<or> bl_Size blob > so_maximumBlobBytes s then Inl ''open Shared blob: invalid expected size''
      else and_then (parseDigest (bl_Digest blob)) (\<lambda>_.
        case map_of (so_blobs s) (bl_Digest blob) of
          None \<Rightarrow> Inl ErrNotExist
        | Some bytes \<Rightarrow>
            if int (length bytes) \<noteq> bl_Size blob \<or> digestPrefix @ sha256_hex env bytes \<noteq> bl_Digest blob
            then Inl ErrBlobCorrupt else Inr bytes))"

definition classifyBlobFailure :: "error \<Rightarrow> string" where
  "classifyBlobFailure e = (if e = ErrNotExist then ''MISSING'' else ''CORRUPT'')"

definition blob_of :: "environment \<Rightarrow> string \<Rightarrow> Blob" where
  "blob_of env bytes = \<lparr>bl_Digest = digestPrefix @ sha256_hex env bytes, bl_Size = int (length bytes)\<rparr>"

definition putLocked :: "environment \<Rightarrow> Storage \<Rightarrow> string \<Rightarrow> Storage \<times> (Blob \<times> bool) result" where
  "putLocked env s bytes =
     (if int (length bytes) > so_maximumBlobBytes s then (s, Inl ErrBlobTooLarge)
      else let blob = blob_of env bytes in
        case parseDigest (bl_Digest blob) of
          Inl e \<Rightarrow> (s, Inl e)
        | Inr _ \<Rightarrow>
            (case map_of (so_blobs s) (bl_Digest blob) of
               Some _ \<Rightarrow>
                 (case openVerified env s blob of Inl e \<Rightarrow> (s, Inl e) | Inr _ \<Rightarrow> (s, Inr (blob, False)))
             | None \<Rightarrow> (s\<lparr>so_blobs := (bl_Digest blob, bytes) # so_blobs s\<rparr>, Inr (blob, True))))"

definition remove_blob :: "Storage \<Rightarrow> string \<Rightarrow> Storage" where
  "remove_blob s digest = s\<lparr>so_blobs := filter (\<lambda>b. fst b \<noteq> digest) (so_blobs s)\<rparr>"

text \<open>\<open>strconv.FormatInt(n, 10)\<close>\<close>

definition format_int :: "int \<Rightarrow> string" where
  "format_int n = (if n < 0 then CHR ''-'' # decimal (nat (- n)) else decimal (nat n))"

text \<open>
  A quarantined blob moves to \<open>quarantine/<hex>.<milliseconds>.<reason>\<close>, with a numeric suffix when the name
  is taken. One of the first \<open>n + 1\<close> candidates is free when there are \<open>n\<close> files.
\<close>

definition lower_case :: "char \<Rightarrow> char" where
  "lower_case c = (if is_upper c then char_of (of_char c + (32 :: nat)) else c)"

definition quarantine_base :: "string \<Rightarrow> int \<Rightarrow> string \<Rightarrow> string" where
  "quarantine_base hexDigest now reason =
     hexDigest @ ''.'' @ format_int (to_milli now) @ ''.'' @ map lower_case reason"

definition quarantine_candidate :: "string \<Rightarrow> nat \<Rightarrow> string" where
  "quarantine_candidate base suffix = (if suffix > 0 then base @ ''.'' @ decimal suffix else base)"

definition quarantine_name :: "string list \<Rightarrow> string \<Rightarrow> string" where
  "quarantine_name taken base =
     (case find (\<lambda>i. quarantine_candidate base i \<notin> set taken) [0..<length taken + 1] of
        Some i \<Rightarrow> quarantine_candidate base i | None \<Rightarrow> base)"

definition quarantine_blob :: "Storage \<Rightarrow> Blob \<Rightarrow> string \<Rightarrow> int \<Rightarrow> (Storage \<times> bool) result" where
  "quarantine_blob s blob reason now =
     and_then (parseDigest (bl_Digest blob)) (\<lambda>hexDigest.
       case map_of (so_blobs s) (bl_Digest blob) of
         None \<Rightarrow> Inr (s, False)
       | Some bytes \<Rightarrow>
           let name = quarantine_name (map fst (so_quarantine_files s)) (quarantine_base hexDigest now reason) in
           Inr ((remove_blob s (bl_Digest blob))\<lparr>so_quarantine_files := (name, bytes) # so_quarantine_files s\<rparr>, True))"

end
