(* ===== verification/LocalAuthority.thy ===== *)
theory LocalAuthority
  imports Complex_Main GoTime
begin

text \<open>
  \<open>internal/localauthority\<close>: the semantic validation of a local authority document (\<open>authority.go\<close>), the durable
  anti-rollback record (\<open>state.go\<close>) and the launcher's store of those records (\<open>Install\<close> of \<open>files.go\<close>).
  SHA-256 in hexadecimal is the parameter \<open>sha256_hex\<close>. Two checks loop over a Go map; \<open>iter\<close> is the
  order of the iteration, which decides only which of several invalid fields is named. Generations are the
  source's \<open>int64\<close> values, which no operation here computes with, as integers; the overhead ratio, a
  \<open>float64\<close>, is the rational number it stands for. Instants are nanoseconds since January 1 of year 1.
\<close>

section \<open>Data\<close>

abbreviation AuthorityContractVersion :: string where "AuthorityContractVersion \<equiv> ''buildopt-local-cache-authority/v1''"
abbreviation StateContractVersion :: string where "StateContractVersion \<equiv> ''buildopt.local-authority-state/v1''"
abbreviation ErrRejected :: error where "ErrRejected \<equiv> ''local cache authority was rejected: ''"
abbreviation ErrRollback :: error where "ErrRollback \<equiv> ''local cache authority rollback was rejected: ''"

definition maximumPolicyTasks :: int where "maximumPolicyTasks = 4096"
definition maximumPolicyLifetime :: int where "maximumPolicyLifetime = 30 * 24 * 3600 * 1000000000"
definition maximumAttemptLifetime :: int where "maximumAttemptLifetime = 24 * 3600 * 1000000000"

record RepositoryIdentity =
  ri_Tenant :: string
  ri_Repository :: string
  ri_TrustDomain :: string

record AuthorityAttempt =
  at_AttemptID :: string
  at_OwnerID :: string
  at_LeaseID :: string
  at_LeaseExpiresAt :: string
  at_AllowRead :: bool
  at_AllowWrite :: bool
  at_CredentialDigest :: string

record RemoteCachePolicy =
  rc_Read :: bool
  rc_Write :: string
  rc_Namespace :: string
  rc_NamespaceGeneration :: int

record ConfigurationCachePolicy =
  cc_Enabled :: bool
  cc_ContractVersion :: string

record GrantReference =
  gr_Digest :: string
  gr_ExpiresAt :: string

record PolicyBudgets =
  pb_MaxSynchronousOverheadMs :: int
  pb_MaxSynchronousOverheadRatio :: rat
  pb_MaxValidationRunnerMsPerDay :: int

record QualifiedTask =
  qt_ImplementationHash :: string
  qt_QualificationSource :: string
  qt_ContractRef :: string
  qt_CacheContractDigest :: string
  qt_QualificationState :: string
  qt_RepeatabilityGate :: string
  qt_RelocatabilityGate :: string

record AffectedBuild =
  ab_EnabledInCI :: bool
  ab_EnabledLocally :: bool

record OptimizationPolicy =
  op_SchemaVersion :: string
  op_RecordType :: string
  op_PolicyID :: string
  op_PolicyVersion :: int
  op_PolicyDigest :: string
  op_ConfigurationPolicyDigest :: string
  op_RevocationEpoch :: int
  op_L1SecurityGeneration :: int
  op_GatewayConnectionGeneration :: int
  op_SignatureKeyID :: string
  op_IssuedAt :: string
  op_LauncherVersionRange :: string
  op_PluginVersionRange :: string
  op_Mode :: string
  op_AllowedActions :: "string list"
  op_RemoteCache :: RemoteCachePolicy
  op_ConfigurationCache :: ConfigurationCachePolicy
  op_TestOptimizationGrant :: "GrantReference option"
  op_Budgets :: PolicyBudgets
  op_ExportProfile :: string
  op_QualifiedTasks :: "QualifiedTask list"
  op_AffectedBuild :: AffectedBuild
  op_ExpiresAt :: string

record Authentication =
  au_Algorithm :: string
  au_KeyID :: string
  au_Signature :: string

record RevocationState =
  rv_ContractVersion :: string
  rv_RequestID :: string
  rv_TrustDomain :: string
  rv_RevocationEpoch :: int
  rv_L1SecurityGeneration :: int
  rv_CumulativeStateDigest :: string
  rv_ValidUntil :: string
  rv_Authentication :: Authentication

record Document =
  do_SchemaVersion :: string
  do_AuthorityDigest :: string
  do_Repository :: RepositoryIdentity
  do_SourceRevision :: string
  do_SourceStateDigest :: string
  do_CacheContractDigest :: string
  do_Attempt :: AuthorityAttempt
  do_Policy :: OptimizationPolicy
  do_Revocation :: RevocationState
  do_Authentication :: Authentication

text \<open>The durable record.\<close>

record State =
  st_SchemaVersion :: string
  st_ScopeDigest :: string
  st_Repository :: RepositoryIdentity
  st_PolicyID :: string
  st_PolicyVersion :: int
  st_PolicyDigest :: string
  st_ConfigurationPolicyDigest :: string
  st_RevocationEpoch :: int
  st_RevocationDigest :: string
  st_L1SecurityGeneration :: int
  st_GatewayConnectionGeneration :: int
  st_Namespace :: string
  st_NamespaceGeneration :: int
  st_PolicyExpiresAt :: string
  st_InstalledAt :: string

section \<open>Patterns, digests and timestamps\<close>

definition identifierPattern :: "string \<Rightarrow> bool" where
  "identifierPattern = match_ident is_alnum (\<lambda>c. is_alnum c \<or> c \<in> set ''._:/-'') (Some 255)"

definition revisionPattern :: "string \<Rightarrow> bool" where
  "revisionPattern s = (7 \<le> length s \<and> length s \<le> 64 \<and> list_all is_lower_hex s)"

definition digestPattern :: "string \<Rightarrow> bool" where
  "digestPattern s = ((hasPrefix ''sha256:'' s \<and> lower_hex_len 64 (drop 7 s)) \<or>
     (hasPrefix ''hmac-sha256:'' s \<and> lower_hex_len 64 (drop 12 s)))"

definition namespacePattern :: "string \<Rightarrow> bool" where
  "namespacePattern s = (1 \<le> length s \<and> length s \<le> 512 \<and> list_all (\<lambda>c. is_alnum c \<or> c \<in> set ''._/-'') s)"

definition isLowerHex :: "string \<Rightarrow> bool" where
  "isLowerHex s = (s \<noteq> [] \<and> list_all is_lower_hex s)"

definition validSHA256 :: "string \<Rightarrow> bool" where
  "validSHA256 s = (length s = 71 \<and> take 7 s = ''sha256:'' \<and> isLowerHex (drop 7 s))"

definition credentialDigest :: "(string \<Rightarrow> string) \<Rightarrow> string \<Rightarrow> string" where
  "credentialDigest sha256_hex credential = ''sha256:'' @ sha256_hex credential"

text \<open>
  \<open>time.Parse(time.RFC3339Nano, s)\<close> for a string that ends in \<open>Z\<close>: the hour may have one digit, and the seconds
  may carry a fraction after a period or a comma, of which nine digits count.
\<close>

definition parse_nano :: "string \<Rightarrow> int option" where
  "parse_nano s =
     (if s = [] \<or> last s \<noteq> CHR ''Z'' then None
      else let body = butlast s;
               padded = (if take 1 (drop 12 body) = '':'' then take 11 body @ ''0'' @ drop 11 body else body);
               fraction = drop 19 padded in
        case parse_utc (take 19 padded @ ''Z'') of
          None \<Rightarrow> None
        | Some seconds \<Rightarrow>
            (case fraction of
               [] \<Rightarrow> Some (seconds * 1000000000)
             | c # ds \<Rightarrow>
                 if (c = CHR ''.'' \<or> c = CHR '','') \<and> ds \<noteq> [] \<and> list_all is_digit ds
                 then Some (seconds * 1000000000 + number (take 9 (ds @ replicate 9 (CHR ''0'')))) else None))"

definition ValidUTCTimestamp :: "string \<Rightarrow> bool" where
  "ValidUTCTimestamp s = (hasSuffix ''Z'' s \<and> parse_nano s \<noteq> None)"

definition parseTimestamp :: "string \<Rightarrow> int result" where
  "parseTimestamp s =
     (if \<not> ValidUTCTimestamp s then Inl ''timestamp is not canonical UTC''
      else case parse_nano s of None \<Rightarrow> Inl ''parsing time'' | Some t \<Rightarrow> Inr t)"

text \<open>\<open>t.Sub(u)\<close> on nanoseconds: a 64-bit duration that saturates.\<close>

definition nano_sub :: "int \<Rightarrow> int \<Rightarrow> int" where
  "nano_sub t u = max min_duration (min max_duration (t - u))"

section \<open>Versions\<close>

text \<open>\<open>strings.Cut(s, sep)\<close> for the two-byte separator space, less-than.\<close>

fun cut_upper :: "string \<Rightarrow> (string \<times> string) option" where
  "cut_upper (a # b # s) =
     (if a = CHR '' '' \<and> b = CHR ''<'' then Some ([], s) else map_option (\<lambda>(l, u). (a # l, u)) (cut_upper (b # s)))"
| "cut_upper _ = None"

definition cutPrefix :: "string \<Rightarrow> string \<Rightarrow> string option" where
  "cutPrefix p s = (if hasPrefix p s then Some (drop (length p) s) else None)"

definition parse_part :: "string \<Rightarrow> int option" where
  "parse_part p = (if p \<noteq> [] \<and> list_all is_digit p \<and> number p < 2 ^ 31 \<and> decimal (nat (number p)) = p then Some (number p) else None)"

definition parseVersion :: "string \<Rightarrow> (int \<times> int \<times> int) option" where
  "parseVersion v =
     (case split_on (CHR ''.'') v of
        [a, b, c] \<Rightarrow>
          (case (parse_part a, parse_part b, parse_part c) of
             (Some x, Some y, Some z) \<Rightarrow> Some (x, y, z)
           | _ \<Rightarrow> None)
      | _ \<Rightarrow> None)"

definition compareVersion :: "int \<times> int \<times> int \<Rightarrow> int \<times> int \<times> int \<Rightarrow> int" where
  "compareVersion l r =
     (case (l, r) of ((a, b, c), (x, y, z)) \<Rightarrow>
        if a < x then -1 else if a > x then 1 else if b < y then -1 else if b > y then 1 else if c < z then -1
        else if c > z then 1 else 0)"

definition version_text :: "string \<Rightarrow> bool" where
  "version_text s = (length (split_on (CHR ''.'') s) = 3 \<and> list_all (\<lambda>p. p \<noteq> [] \<and> list_all is_digit p) (split_on (CHR ''.'') s))"

definition versionRangePattern :: "string \<Rightarrow> bool" where
  "versionRangePattern s =
     ((hasPrefix ''='' s \<and> version_text (drop 1 s)) \<or>
      (hasPrefix ''>='' s \<and> (case cut_upper (drop 2 s) of None \<Rightarrow> False | Some (l, u) \<Rightarrow> version_text l \<and> version_text u)))"

text \<open>The lower and upper bound of an expression that is not exact.\<close>

definition range_bounds :: "string \<Rightarrow> ((int \<times> int \<times> int) \<times> (int \<times> int \<times> int)) option" where
  "range_bounds expression =
     (case cut_upper expression of
        None \<Rightarrow> None
      | Some (lowerText, upperText) \<Rightarrow>
          (case cutPrefix ''>='' lowerText of
             None \<Rightarrow> None
           | Some lowerText' \<Rightarrow>
               (case (parseVersion lowerText', parseVersion upperText) of
                  (Some lower, Some upper) \<Rightarrow> Some (lower, upper)
                | _ \<Rightarrow> None)))"

definition validVersionRange :: "string \<Rightarrow> bool" where
  "validVersionRange expression =
     (if \<not> versionRangePattern expression then False
      else if cutPrefix ''='' expression \<noteq> None then True
      else case range_bounds expression of None \<Rightarrow> False | Some (lower, upper) \<Rightarrow> compareVersion lower upper < 0)"

definition versionSatisfies :: "string \<Rightarrow> string \<Rightarrow> bool" where
  "versionSatisfies version expression =
     (case parseVersion version of
        None \<Rightarrow> False
      | Some current \<Rightarrow>
          (case cutPrefix ''='' expression of
             Some exact \<Rightarrow> parseVersion exact = Some current
           | None \<Rightarrow>
               (case range_bounds expression of
                  None \<Rightarrow> False
                | Some (lower, upper) \<Rightarrow> compareVersion current lower \<ge> 0 \<and> compareVersion current upper < 0)))"

section \<open>Semantic validation\<close>

fun actions_loop :: "string list \<Rightarrow> string set \<Rightarrow> string set option" where
  "actions_loop [] seen = Some seen"
| "actions_loop (a # as) seen =
     (if a \<notin> set [''REMOTE_CACHE_ALLOWLISTED'', ''DEPENDENCY_CACHE'', ''CONFIGURATION_CACHE'', ''RESOURCE_PROFILE'', ''BUILD_IMPACT'', ''PATCH_CANDIDATE''] then None
      else if a \<in> seen then None
      else actions_loop as (insert a seen))"

definition containsUniqueAllowedAction :: "string list \<Rightarrow> string \<Rightarrow> bool" where
  "containsUniqueAllowedAction actions required =
     (if length actions > 16 then False
      else case actions_loop actions {} of None \<Rightarrow> False | Some seen \<Rightarrow> required \<in> seen)"

definition validGate :: "string \<Rightarrow> bool" where
  "validGate v = (v \<in> set [''PASSED'', ''FAILED'', ''INCONCLUSIVE'', ''NOT_EVALUATED''])"

definition task_valid :: "QualifiedTask \<Rightarrow> bool" where
  "task_valid t =
     (if \<not> validSHA256 (qt_ImplementationHash t) \<or> \<not> identifierPattern (qt_ContractRef t) \<or> \<not> validSHA256 (qt_CacheContractDigest t) then False
      else if qt_QualificationSource t \<notin> set [''OFFICIAL'', ''REVIEWED_ADAPTER'', ''HERMETIC_PRODUCER_PROFILE'', ''SOURCE_PATCH''] then False
      else if qt_QualificationState t \<notin> set [''CONTRACT_QUALIFIED'', ''QUARANTINE_VALIDATED'', ''UNKNOWN'', ''OBSERVING'', ''REJECTED'', ''SUSPENDED''] then False
      else if qt_QualificationState t = ''QUARANTINE_VALIDATED'' \<and>
          (qt_RepeatabilityGate t \<noteq> ''PASSED'' \<or> qt_RelocatabilityGate t \<noteq> ''PASSED'') then False
      else validGate (qt_RepeatabilityGate t) \<and> validGate (qt_RelocatabilityGate t))"

fun qualified_loop :: "QualifiedTask list \<Rightarrow> string \<Rightarrow> bool \<Rightarrow> bool" where
  "qualified_loop [] requiredDigest matched = matched"
| "qualified_loop (t # ts) requiredDigest matched =
     (if \<not> task_valid t then False
      else qualified_loop ts requiredDigest
        (if qt_CacheContractDigest t = requiredDigest \<and>
            (qt_QualificationState t = ''CONTRACT_QUALIFIED'' \<or> qt_QualificationState t = ''QUARANTINE_VALIDATED'')
         then True else matched))"

definition containsQualifiedContract :: "QualifiedTask list \<Rightarrow> string \<Rightarrow> bool" where
  "containsQualifiedContract tasks requiredDigest = qualified_loop tasks requiredDigest False"

definition validConfigurationPolicy :: "ConfigurationCachePolicy \<Rightarrow> bool" where
  "validConfigurationPolicy p = identifierPattern (cc_ContractVersion p)"

text \<open>The bound on the ratio is the \<open>float64\<close> nearest to 0.02.\<close>

definition validBudgets :: "PolicyBudgets \<Rightarrow> bool" where
  "validBudgets b = (pb_MaxSynchronousOverheadMs b \<ge> 0 \<and> pb_MaxSynchronousOverheadMs b \<le> 60000 \<and>
     pb_MaxSynchronousOverheadRatio b \<ge> 0 \<and> pb_MaxSynchronousOverheadRatio b \<le> 5764607523034235 / 288230376151711744 \<and>
     pb_MaxValidationRunnerMsPerDay b \<ge> 0 \<and> pb_MaxValidationRunnerMsPerDay b \<le> 86400000)"

definition validExportProfile :: "string \<Rightarrow> bool" where
  "validExportProfile v = (v \<in> set [''NONE'', ''SUMMARY'', ''TASKS'', ''DIAGNOSTIC''])"

definition fail :: "bool \<Rightarrow> string \<Rightarrow> error option" where
  "fail bad reason = reject_if bad (ErrRejected @ reason)"

definition identifier_fields :: "Document \<Rightarrow> (string \<times> string) list" where
  "identifier_fields d =
     [(''repository.tenant'', ri_Tenant (do_Repository d)), (''repository.repository'', ri_Repository (do_Repository d)),
      (''repository.trustDomain'', ri_TrustDomain (do_Repository d)), (''attempt.attemptId'', at_AttemptID (do_Attempt d)),
      (''attempt.ownerId'', at_OwnerID (do_Attempt d)), (''attempt.leaseId'', at_LeaseID (do_Attempt d)),
      (''policy.policyId'', op_PolicyID (do_Policy d)), (''policy.signatureKeyId'', op_SignatureKeyID (do_Policy d)),
      (''revocation.requestId'', rv_RequestID (do_Revocation d)), (''authentication.keyId'', au_KeyID (do_Authentication d))]"

definition digest_fields :: "Document \<Rightarrow> (string \<times> string) list" where
  "digest_fields d =
     [(''authorityDigest'', do_AuthorityDigest d), (''cacheContractDigest'', do_CacheContractDigest d),
      (''credentialDigest'', at_CredentialDigest (do_Attempt d)), (''policyDigest'', op_PolicyDigest (do_Policy d)),
      (''configurationPolicyDigest'', op_ConfigurationPolicyDigest (do_Policy d)),
      (''revocationDigest'', rv_CumulativeStateDigest (do_Revocation d))]"

type_synonym iteration = "(string \<times> string) list \<Rightarrow> (string \<times> string) list"

definition semantic_checks :: "(string \<Rightarrow> string) \<Rightarrow> iteration \<Rightarrow> Document \<Rightarrow> string \<Rightarrow> error option" where
  "semantic_checks sha256_hex iter d credential =
     (let a = do_Attempt d; p = do_Policy d; r = do_Revocation d; c = op_RemoteCache p in
      first_err
       [fail (do_SchemaVersion d \<noteq> AuthorityContractVersion) ''unsupported authority contract'',
        each_err (\<lambda>(name, v). fail (\<not> identifierPattern v) (''invalid '' @ name)) (iter (identifier_fields d)),
        fail (\<not> revisionPattern (do_SourceRevision d) \<or> \<not> digestPattern (do_SourceStateDigest d)) ''invalid source binding'',
        each_err (\<lambda>(name, v). fail (\<not> validSHA256 v) (''invalid '' @ name)) (iter (digest_fields d)),
        fail (at_CredentialDigest a \<noteq> credentialDigest sha256_hex credential) ''local cache credential digest mismatch'',
        fail (\<not> at_AllowRead a \<and> \<not> at_AllowWrite a) ''authority grants no cache operation'',
        fail (op_SchemaVersion p \<noteq> ''1.0'' \<or> op_RecordType p \<noteq> ''OPTIMIZATION_POLICY'' \<or> op_PolicyVersion p < 1 \<or> op_Mode p \<noteq> ''VERIFIED'')
          ''unsupported optimization policy'',
        fail (op_SignatureKeyID p \<noteq> au_KeyID (do_Authentication d) \<or> au_KeyID (rv_Authentication r) \<noteq> au_KeyID (do_Authentication d) \<or>
              au_Algorithm (rv_Authentication r) \<noteq> ''Ed25519'' \<or> au_Algorithm (do_Authentication d) \<noteq> ''Ed25519'')
          ''deployment key binding mismatch'',
        fail (rv_ContractVersion r \<noteq> ''buildopt-cache-control/v1'' \<or> rv_TrustDomain r \<noteq> ri_TrustDomain (do_Repository d) \<or>
              rv_RevocationEpoch r < 1 \<or> rv_L1SecurityGeneration r < 1)
          ''invalid cumulative revocation state'',
        fail (op_RevocationEpoch p \<noteq> rv_RevocationEpoch r \<or> op_L1SecurityGeneration p \<noteq> rv_L1SecurityGeneration r \<or>
              op_GatewayConnectionGeneration p < 1)
          ''policy generation is not current'',
        fail (rc_NamespaceGeneration c < 1 \<or> \<not> namespacePattern (rc_Namespace c)) ''invalid remote cache namespace'',
        fail (\<not> ab_EnabledInCI (op_AffectedBuild p) \<and> \<not> ab_EnabledLocally (op_AffectedBuild p)) ''policy enables no build class'',
        fail (at_AllowRead a \<and> \<not> rc_Read c) ''read authority exceeds policy'',
        (if rc_Write c = ''DISABLED'' then fail (at_AllowWrite a) ''write authority exceeds policy''
         else if rc_Write c = ''TRUSTED_CI_ONLY'' then fail (\<not> ab_EnabledInCI (op_AffectedBuild p)) ''trusted CI write lacks CI scope''
         else fail True ''invalid remote cache write policy''),
        fail (at_AllowWrite a \<and> rc_Write c \<noteq> ''TRUSTED_CI_ONLY'') ''write authority exceeds policy'',
        fail (\<not> containsUniqueAllowedAction (op_AllowedActions p) ''REMOTE_CACHE_ALLOWLISTED'') ''remote cache action is not explicitly allowed'',
        fail (\<not> validVersionRange (op_LauncherVersionRange p) \<or> \<not> validVersionRange (op_PluginVersionRange p)) ''invalid component version range'',
        fail (\<not> validConfigurationPolicy (op_ConfigurationCache p) \<or> \<not> validBudgets (op_Budgets p) \<or> \<not> validExportProfile (op_ExportProfile p))
          ''invalid optimization policy selection'',
        fail (length (op_QualifiedTasks p) = 0 \<or> int (length (op_QualifiedTasks p)) > maximumPolicyTasks \<or>
              \<not> containsQualifiedContract (op_QualifiedTasks p) (do_CacheContractDigest d))
          ''cache contract is not positively qualified'',
        (case op_TestOptimizationGrant p of
           None \<Rightarrow> None
         | Some g \<Rightarrow>
             first_err
               [fail (\<not> validSHA256 (gr_Digest g)) ''invalid Test Optimization grant digest'',
                fail (isl (parseTimestamp (gr_ExpiresAt g))) ''invalid Test Optimization grant expiry''])])"

text \<open>The validity window: issue, expiry, end of the revocation state, end of the lease.\<close>

definition validity_window :: "Document \<Rightarrow> int \<Rightarrow> (int \<times> int \<times> int \<times> int) result" where
  "validity_window d now =
     (case parseTimestamp (op_IssuedAt (do_Policy d)) of
        Inl _ \<Rightarrow> Inl (ErrRejected @ ''invalid policy issuedAt'')
      | Inr issuedAt \<Rightarrow>
      case parseTimestamp (op_ExpiresAt (do_Policy d)) of
        Inl _ \<Rightarrow> Inl (ErrRejected @ ''policy is not currently valid'')
      | Inr expiresAt \<Rightarrow>
      if issuedAt > now \<or> \<not> expiresAt > now \<or> \<not> expiresAt > issuedAt \<or> nano_sub expiresAt issuedAt > maximumPolicyLifetime
      then Inl (ErrRejected @ ''policy is not currently valid'')
      else case parseTimestamp (rv_ValidUntil (do_Revocation d)) of
        Inl _ \<Rightarrow> Inl (ErrRejected @ ''revocation state does not cover policy lifetime'')
      | Inr revValidUntil \<Rightarrow>
      if revValidUntil < expiresAt then Inl (ErrRejected @ ''revocation state does not cover policy lifetime'')
      else case parseTimestamp (at_LeaseExpiresAt (do_Attempt d)) of
        Inl _ \<Rightarrow> Inl (ErrRejected @ ''attempt lease is outside policy lifetime'')
      | Inr leaseExpiresAt \<Rightarrow>
      if \<not> leaseExpiresAt > now \<or> leaseExpiresAt > expiresAt \<or> nano_sub leaseExpiresAt now > maximumAttemptLifetime
      then Inl (ErrRejected @ ''attempt lease is outside policy lifetime'')
      else case op_TestOptimizationGrant (do_Policy d) of
        None \<Rightarrow> Inr (issuedAt, expiresAt, revValidUntil, leaseExpiresAt)
      | Some g \<Rightarrow>
          (let grantExpiry = (case parseTimestamp (gr_ExpiresAt g) of Inl _ \<Rightarrow> 0 | Inr t \<Rightarrow> t) in
           if grantExpiry < expiresAt then Inl (ErrRejected @ ''Test Optimization grant does not cover policy'')
           else Inr (issuedAt, expiresAt, revValidUntil, leaseExpiresAt)))"

definition validateSemantics ::
    "(string \<Rightarrow> string) \<Rightarrow> iteration \<Rightarrow> Document \<Rightarrow> string \<Rightarrow> int \<Rightarrow> (int \<times> int \<times> int \<times> int) result" where
  "validateSemantics sha256_hex iter d credential now =
     (case semantic_checks sha256_hex iter d credential of
        Some e \<Rightarrow> Inl e
      | None \<Rightarrow> validity_window d now)"

section \<open>Verified documents\<close>

record Verified =
  vf_document :: Document
  vf_issuedAt :: int
  vf_expiresAt :: int
  vf_revValidUntil :: int
  vf_leaseExpiresAt :: int

text \<open>What \<open>Verify\<close> builds from the document and the instants of the semantic validation.\<close>

definition make_verified :: "Document \<Rightarrow> int \<times> int \<times> int \<times> int \<Rightarrow> Verified" where
  "make_verified d w = (case w of (issuedAt, expiresAt, revValidUntil, leaseExpiresAt) \<Rightarrow>
     \<lparr>vf_document = d, vf_issuedAt = issuedAt, vf_expiresAt = expiresAt, vf_revValidUntil = revValidUntil,
      vf_leaseExpiresAt = leaseExpiresAt\<rparr>)"

definition minTime :: "int list \<Rightarrow> int" where
  "minTime values = foldl (\<lambda>minimum v. if v < minimum then v else minimum) (hd values) (tl values)"

definition verified_ExpiresAt :: "Verified \<Rightarrow> int" where
  "verified_ExpiresAt v = minTime [vf_expiresAt v, vf_revValidUntil v, vf_leaseExpiresAt v]"

definition AllowsAction :: "Verified \<Rightarrow> string \<Rightarrow> bool" where
  "AllowsAction v action = (action \<in> set (op_AllowedActions (do_Policy (vf_document v))))"

definition SupportsComponents :: "Verified \<Rightarrow> string \<Rightarrow> string \<Rightarrow> bool" where
  "SupportsComponents v launcherVersion pluginVersion =
     (versionSatisfies launcherVersion (op_LauncherVersionRange (do_Policy (vf_document v))) \<and>
      versionSatisfies pluginVersion (op_PluginVersionRange (do_Policy (vf_document v))))"

section \<open>The anti-rollback record\<close>

text \<open>\<open>binary.BigEndian.PutUint32(uint32(n))\<close>\<close>

definition be32 :: "nat \<Rightarrow> string" where
  "be32 n = map (\<lambda>i. char_of (n div 256 ^ i mod 256)) [3, 2, 1, 0]"

definition scope_bytes :: "RepositoryIdentity \<Rightarrow> string" where
  "scope_bytes r = ''buildopt-local-authority-scope-v1'' @
     concat (map (\<lambda>v. be32 (length v) @ v) [ri_Tenant r, ri_Repository r, ri_TrustDomain r])"

definition ScopeDigest :: "(string \<Rightarrow> string) \<Rightarrow> RepositoryIdentity \<Rightarrow> string" where
  "ScopeDigest sha256_hex r = sha256_hex (scope_bytes r)"

definition validateState :: "(string \<Rightarrow> string) \<Rightarrow> State \<Rightarrow> error option" where
  "validateState sha256_hex s =
     first_err
       [reject_if (st_SchemaVersion s \<noteq> StateContractVersion \<or> length (st_ScopeDigest s) \<noteq> 64 \<or> \<not> isLowerHex (st_ScopeDigest s) \<or>
          st_ScopeDigest s \<noteq> ScopeDigest sha256_hex (st_Repository s) \<or> \<not> identifierPattern (ri_Tenant (st_Repository s)) \<or>
          \<not> identifierPattern (ri_Repository (st_Repository s)) \<or> \<not> identifierPattern (ri_TrustDomain (st_Repository s)) \<or>
          \<not> identifierPattern (st_PolicyID s) \<or> st_PolicyVersion s < 1 \<or> \<not> validSHA256 (st_PolicyDigest s) \<or>
          \<not> validSHA256 (st_ConfigurationPolicyDigest s) \<or> st_RevocationEpoch s < 1 \<or> \<not> validSHA256 (st_RevocationDigest s) \<or>
          st_L1SecurityGeneration s < 1 \<or> st_GatewayConnectionGeneration s < 1 \<or> \<not> namespacePattern (st_Namespace s) \<or>
          st_NamespaceGeneration s < 1) ''invalid local authority state'',
        reject_if (isl (parseTimestamp (st_PolicyExpiresAt s))) ''invalid local authority policy expiry'',
        reject_if (isl (parseTimestamp (st_InstalledAt s))) ''invalid local authority install time'']"

definition zero_state :: State where
  "zero_state = \<lparr>st_SchemaVersion = [], st_ScopeDigest = [], st_Repository = \<lparr>ri_Tenant = [], ri_Repository = [], ri_TrustDomain = []\<rparr>,
     st_PolicyID = [], st_PolicyVersion = 0, st_PolicyDigest = [], st_ConfigurationPolicyDigest = [], st_RevocationEpoch = 0,
     st_RevocationDigest = [], st_L1SecurityGeneration = 0, st_GatewayConnectionGeneration = 0, st_Namespace = [],
     st_NamespaceGeneration = 0, st_PolicyExpiresAt = [], st_InstalledAt = []\<rparr>"

text \<open>The record of an authenticated document; the formatted install time is an argument.\<close>

definition StateFromVerified :: "(string \<Rightarrow> string) \<Rightarrow> Document \<Rightarrow> string \<Rightarrow> State" where
  "StateFromVerified sha256_hex d installedAt =
     \<lparr>st_SchemaVersion = StateContractVersion, st_ScopeDigest = ScopeDigest sha256_hex (do_Repository d), st_Repository = do_Repository d,
      st_PolicyID = op_PolicyID (do_Policy d), st_PolicyVersion = op_PolicyVersion (do_Policy d), st_PolicyDigest = op_PolicyDigest (do_Policy d),
      st_ConfigurationPolicyDigest = op_ConfigurationPolicyDigest (do_Policy d), st_RevocationEpoch = rv_RevocationEpoch (do_Revocation d),
      st_RevocationDigest = rv_CumulativeStateDigest (do_Revocation d), st_L1SecurityGeneration = rv_L1SecurityGeneration (do_Revocation d),
      st_GatewayConnectionGeneration = op_GatewayConnectionGeneration (do_Policy d), st_Namespace = rc_Namespace (op_RemoteCache (do_Policy d)),
      st_NamespaceGeneration = rc_NamespaceGeneration (op_RemoteCache (do_Policy d)), st_PolicyExpiresAt = op_ExpiresAt (do_Policy d),
      st_InstalledAt = installedAt\<rparr>"

definition rollback :: "bool \<Rightarrow> string \<Rightarrow> error option" where
  "rollback bad why = reject_if bad (ErrRollback @ why)"

definition Advance :: "(string \<Rightarrow> string) \<Rightarrow> State \<Rightarrow> State \<Rightarrow> error option" where
  "Advance sha256_hex c n =
     (case validateState sha256_hex n of
        Some e \<Rightarrow> Some e
      | None \<Rightarrow>
      if c = zero_state then None
      else first_err
       [rollback (validateState sha256_hex c \<noteq> None) ''persisted state is invalid'',
        rollback (st_ScopeDigest c \<noteq> st_ScopeDigest n \<or> st_Repository c \<noteq> st_Repository n \<or> st_PolicyID c \<noteq> st_PolicyID n) ''policy scope changed'',
        rollback (st_PolicyVersion n < st_PolicyVersion c) ''policy version decreased'',
        rollback (st_PolicyVersion n = st_PolicyVersion c \<and>
          (st_PolicyDigest n \<noteq> st_PolicyDigest c \<or> st_ConfigurationPolicyDigest n \<noteq> st_ConfigurationPolicyDigest c))
          ''policy version was reused with different content'',
        rollback (st_RevocationEpoch n < st_RevocationEpoch c) ''revocation epoch decreased'',
        (if st_RevocationEpoch n = st_RevocationEpoch c
         then rollback (st_RevocationDigest n \<noteq> st_RevocationDigest c \<or> st_L1SecurityGeneration n \<noteq> st_L1SecurityGeneration c)
           ''revocation epoch was reused with different state''
         else rollback (st_L1SecurityGeneration n \<le> st_L1SecurityGeneration c) ''revocation advance did not rotate L1''),
        rollback (st_L1SecurityGeneration n < st_L1SecurityGeneration c) ''L1 generation decreased'',
        rollback (st_GatewayConnectionGeneration n < st_GatewayConnectionGeneration c) ''gateway connection generation decreased'',
        rollback (st_NamespaceGeneration n < st_NamespaceGeneration c) ''namespace generation decreased'',
        rollback (st_NamespaceGeneration n = st_NamespaceGeneration c \<and> st_Namespace n \<noteq> st_Namespace c) ''namespace generation was rebound''])"

section \<open>The launcher's store\<close>

text \<open>
  The store maps a scope digest to the record its file holds. A write replaces the file by a rename and
  then synchronizes the directory, so an installation that reports an error may have replaced the file. The
  lock and the outcome of the write are inputs.
\<close>

datatype write_outcome = Written | NotWritten error | WrittenUnsynced error

type_synonym state_files = "string \<Rightarrow> State option"

definition readState :: "(string \<Rightarrow> string) \<Rightarrow> state_files \<Rightarrow> string \<Rightarrow> State result" where
  "readState sha256_hex files scope =
     (case files scope of
        None \<Rightarrow> Inr zero_state
      | Some s \<Rightarrow> (case validateState sha256_hex s of Some e \<Rightarrow> Inl e | None \<Rightarrow> Inr s))"

definition equivalentState :: "State \<Rightarrow> State \<Rightarrow> bool" where
  "equivalentState l r = (l\<lparr>st_InstalledAt := []\<rparr> = r\<lparr>st_InstalledAt := []\<rparr>)"

definition Install ::
    "(string \<Rightarrow> string) \<Rightarrow> error option \<Rightarrow> write_outcome \<Rightarrow> state_files \<Rightarrow> Document \<Rightarrow> string \<Rightarrow>
      state_files \<times> (State \<times> State \<times> bool) result" where
  "Install sha256_hex lock outcome files d installedAt =
     (let n = StateFromVerified sha256_hex d installedAt; scope = st_ScopeDigest n in
      case lock of
        Some e \<Rightarrow> (files, Inl e)
      | None \<Rightarrow>
          (case readState sha256_hex files scope of
             Inl e \<Rightarrow> (files, Inl e)
           | Inr current \<Rightarrow>
               (case Advance sha256_hex current n of
                  Some e \<Rightarrow> (files, Inl e)
                | None \<Rightarrow>
                    if equivalentState current n then (files, Inr (current, current, False))
                    else (case outcome of
                            Written \<Rightarrow> (files(scope \<mapsto> n), Inr (current, n, True))
                          | NotWritten e \<Rightarrow> (files, Inl e)
                          | WrittenUnsynced e \<Rightarrow> (files(scope \<mapsto> n), Inl e)))))"

end
