(* ===== verification/SharedDecision.thy ===== *)
theory SharedDecision
  imports SharedStorage LocalAuthority
begin

text \<open>
  \<open>internal/sharedcache/decision.go\<close>: the signed document that authorises a publication, its semantic checks
  and its complete verification. JCS, the strict JSON decoder, the removal of the signed members, base64 and
  Ed25519 are parameters. Timestamps use the canonical UTC form of \<open>contractcrypto.ValidUTCTimestamp\<close>, counted
  in nanoseconds since January 1 of year 1; \<open>unix_nano\<close> moves them to the Unix epoch.
\<close>

record TestOptimizationGrant =
  tg_State :: string
  tg_GrantID :: string
  tg_GrantEpoch :: "int option"
  tg_Digest :: string
  tg_ExpiresAt :: string
  tg_Reason :: string

record CommitValidation =
  cv_Status :: string
  cv_EvidenceRef :: string
  cv_CompletedAt :: string
  cv_ExpiresAt :: string
  cv_Reason :: string

record CommitAuthentication =
  ca_Algorithm :: string
  ca_KeyID :: string
  ca_Signature :: string

record CommitDecision =
  cd_SchemaVersion :: string
  cd_RecordType :: string
  cd_ContractVersion :: string
  cd_DecisionID :: string
  cd_DecisionDigest :: string
  cd_AttemptID :: string
  cd_Repository :: SharedStorage.RepositoryIdentity
  cd_SourceRevision :: string
  cd_SourceStateDigest :: string
  cd_Objects :: "CommitObject list"
  cd_PolicyDigest :: string
  cd_ConfigurationPolicyDigest :: string
  cd_CacheContractDigest :: string
  cd_TestOptimizationGrant :: TestOptimizationGrant
  cd_RevocationEpoch :: int
  cd_Validation :: CommitValidation
  cd_IssuedAt :: string
  cd_ExpiresAt :: string
  cd_Authentication :: CommitAuthentication

record VerifiedCommitDecision =
  vd_decision :: CommitDecision
  vd_canonical :: string
  vd_issuedAt :: int
  vd_expiresAt :: int

definition maximumCommitDecisionBytes :: int where "maximumCommitDecisionBytes = 4194304"
definition maximumCommitObjects :: int where "maximumCommitObjects = 4096"

definition rejected :: "string \<Rightarrow> error" where
  "rejected reason = ErrCommitRejected @ '': '' @ reason"

text \<open>The Unix epoch is 62135596800 seconds after the zero time of Go.\<close>

definition unix_nano :: "int \<Rightarrow> int" where
  "unix_nano t = t - 62135596800000000000"

definition parseDecisionTimestamp :: "string \<Rightarrow> int option" where
  "parseDecisionTimestamp v = (if ValidUTCTimestamp v then map_option unix_nano (parse_nano v) else None)"

section \<open>Semantic checks\<close>

definition object_valid :: "CommitObject \<Rightarrow> error option" where
  "object_valid b = first_err
     [reject_if (co_NamespaceGeneration b < 1 \<or> \<not> cacheKeyPattern (co_Key b) \<or> co_SizeBytes b < 0 \<or>
        co_SizeBytes b > MaximumBlobBytes) (rejected ''invalid object''),
      reject_if (\<not> validSHA256Digest (co_Checksum b)) (rejected ''invalid object checksum'')]"

definition object_less :: "CommitObject \<Rightarrow> CommitObject \<Rightarrow> bool" where
  "object_less a b = (\<not> (co_NamespaceGeneration b < co_NamespaceGeneration a \<or>
     (co_NamespaceGeneration b = co_NamespaceGeneration a \<and> co_Key b \<le> co_Key a)))"

fun objects_loop :: "CommitObject option \<Rightarrow> CommitObject list \<Rightarrow> error option" where
  "objects_loop previous [] = None"
| "objects_loop previous (b # bs) =
     (case object_valid b of
        Some e \<Rightarrow> Some e
      | None \<Rightarrow>
          if (case previous of None \<Rightarrow> False | Some a \<Rightarrow> \<not> object_less a b)
          then Some (rejected ''objects are not strictly sorted'')
          else objects_loop (Some b) bs)"

definition identifiers_check :: "environment \<Rightarrow> (string \<times> string) list \<Rightarrow> error option" where
  "identifiers_check env members =
     each_err (\<lambda>(name, v). reject_if (\<not> SharedStorage.identifierPattern v) (rejected (''invalid '' @ name))) (map_order env members)"

definition digests_check :: "environment \<Rightarrow> (string \<times> string) list \<Rightarrow> error option" where
  "digests_check env members =
     each_err (\<lambda>(name, v). reject_if (\<not> validSHA256Digest v) (rejected (''invalid '' @ name))) (map_order env members)"

definition validation_check :: "CommitValidation \<Rightarrow> int \<Rightarrow> int \<Rightarrow> error option" where
  "validation_check v issuedAt expiresAt =
     (if cv_Status v = ''PASSED'' then first_err
        [reject_if (cv_EvidenceRef v = [] \<or> \<not> SharedStorage.identifierPattern (cv_EvidenceRef v) \<or> cv_Reason v \<noteq> [])
           (rejected ''invalid passed validation''),
         reject_if (case (parseDecisionTimestamp (cv_CompletedAt v), parseDecisionTimestamp (cv_ExpiresAt v)) of
             (Some completedAt, Some validationExpiresAt) \<Rightarrow> completedAt > issuedAt \<or> validationExpiresAt < expiresAt
           | _ \<Rightarrow> True) (rejected ''invalid validation window'')]
      else if cv_Status v = ''NOT_REQUIRED'' then
        reject_if (cv_Reason v \<noteq> ''ALLOWLISTED_DIRECT_ACTION'' \<or> cv_EvidenceRef v \<noteq> [] \<or> cv_CompletedAt v \<noteq> [] \<or>
          cv_ExpiresAt v \<noteq> []) (rejected ''invalid direct-action validation'')
      else Some (rejected ''invalid validation status''))"

definition grant_check :: "TestOptimizationGrant \<Rightarrow> int \<Rightarrow> error option" where
  "grant_check g expiresAt =
     (if tg_State g = ''PRESENT'' then first_err
        [reject_if (tg_GrantID g = [] \<or> \<not> SharedStorage.identifierPattern (tg_GrantID g) \<or>
             (case tg_GrantEpoch g of None \<Rightarrow> True | Some n \<Rightarrow> n < 0) \<or> tg_Reason g \<noteq> [])
           (rejected ''invalid test optimization grant''),
         reject_if (\<not> validSHA256Digest (tg_Digest g)) (rejected ''invalid test optimization grant digest''),
         reject_if (case parseDecisionTimestamp (tg_ExpiresAt g) of None \<Rightarrow> True | Some t \<Rightarrow> t < expiresAt)
           (rejected ''invalid test optimization grant window'')]
      else if tg_State g = ''NOT_REQUIRED'' then
        reject_if (tg_Reason g \<noteq> ''NO_TEST_OUTPUTS'' \<or> tg_GrantID g \<noteq> [] \<or> tg_GrantEpoch g \<noteq> None \<or> tg_Digest g \<noteq> [] \<or>
          tg_ExpiresAt g \<noteq> []) (rejected ''invalid no-test grant'')
      else Some (rejected ''invalid test optimization grant state''))"

text \<open>The checks before the first timestamp is parsed.\<close>

definition binding_checks :: "environment \<Rightarrow> CommitDecision \<Rightarrow> int \<Rightarrow> error option" where
  "binding_checks env d currentRevocationEpoch = first_err
     [reject_if (cd_SchemaVersion d \<noteq> ''1.0'' \<or> cd_RecordType d \<noteq> ''COMMIT_DECISION'' \<or>
        cd_ContractVersion d \<noteq> ''buildopt-cache-commit/v1'') (rejected ''unsupported decision contract''),
      identifiers_check env
        [(''decisionId'', cd_DecisionID d), (''attemptId'', cd_AttemptID d), (''repository.tenant'', rp_Tenant (cd_Repository d)),
         (''repository.repository'', rp_Repository (cd_Repository d)), (''repository.trustDomain'', rp_TrustDomain (cd_Repository d)),
         (''authentication.keyId'', ca_KeyID (cd_Authentication d))],
      reject_if (\<not> SharedStorage.revisionPattern (cd_SourceRevision d) \<or> \<not> SharedStorage.digestPattern (cd_SourceStateDigest d))
        (rejected ''invalid source binding''),
      digests_check env
        [(''decisionDigest'', cd_DecisionDigest d), (''policyDigest'', cd_PolicyDigest d),
         (''configurationPolicyDigest'', cd_ConfigurationPolicyDigest d), (''cacheContractDigest'', cd_CacheContractDigest d)],
      reject_if (length (cd_Objects d) < 1 \<or> int (length (cd_Objects d)) > maximumCommitObjects) (rejected ''invalid object count''),
      objects_loop None (cd_Objects d),
      reject_if (cd_RevocationEpoch d < 0 \<or> cd_RevocationEpoch d \<noteq> currentRevocationEpoch)
        (rejected ''revocation epoch is stale or future'')]"

definition validateCommitDecisionSemantics :: "environment \<Rightarrow> CommitDecision \<Rightarrow> int \<Rightarrow> int \<Rightarrow> (int \<times> int) result" where
  "validateCommitDecisionSemantics env d currentRevocationEpoch now =
     (case binding_checks env d currentRevocationEpoch of
        Some e \<Rightarrow> Inl e
      | None \<Rightarrow>
         (case parseDecisionTimestamp (cd_IssuedAt d) of
            None \<Rightarrow> Inl (rejected ''invalid issuedAt'')
          | Some issuedAt \<Rightarrow>
             (case parseDecisionTimestamp (cd_ExpiresAt d) of
                None \<Rightarrow> Inl (rejected ''decision is not currently valid'')
              | Some expiresAt \<Rightarrow>
                 (case first_err
                    [reject_if (issuedAt > now \<or> \<not> expiresAt > now \<or> \<not> expiresAt > issuedAt)
                       (rejected ''decision is not currently valid''),
                     validation_check (cd_Validation d) issuedAt expiresAt,
                     grant_check (cd_TestOptimizationGrant d) expiresAt,
                     reject_if (ca_Algorithm (cd_Authentication d) \<noteq> ''Ed25519'' \<or> length (ca_Signature (cd_Authentication d)) \<noteq> 86)
                       (rejected ''invalid authentication envelope'')] of
                    Some e \<Rightarrow> Inl e | None \<Rightarrow> Inr (issuedAt, expiresAt)))))"

section \<open>Verification\<close>

text \<open>
  \<open>jcs\<close> is \<open>CanonicalizeJCS\<close>, \<open>decode\<close> the strict decoder with its end-of-input check, \<open>unsigned\<close> the canonical
  document without its digest and signature, \<open>base64\<close> the raw URL decoder and \<open>ed25519_verify\<close> the signature check.
\<close>

record decision_codec =
  jcs :: "string \<Rightarrow> string option"
  decode_decision :: "string \<Rightarrow> CommitDecision result"
  unsigned_document :: "string \<Rightarrow> string option"
  base64_raw_url :: "string \<Rightarrow> string option"
  ed25519_verify :: "string \<Rightarrow> string \<Rightarrow> string \<Rightarrow> bool"

definition commitDecisionDigest :: "environment \<Rightarrow> decision_codec \<Rightarrow> string \<Rightarrow> string option" where
  "commitDecisionDigest env codec canonical =
     map_option (\<lambda>payload. digestPrefix @ sha256_hex env payload) (unsigned_document codec canonical)"

definition commitDecisionSignaturePayload :: "string \<Rightarrow> string \<Rightarrow> string" where
  "commitDecisionSignaturePayload keyID digest = ''buildopt-cache-commit/v1'' @ [CHR 0x00] @ keyID @ [CHR 0x00] @ digest"

definition VerifyCommitDecision ::
    "environment \<Rightarrow> decision_codec \<Rightarrow> string \<Rightarrow> (string \<Rightarrow> string option) \<Rightarrow> int \<Rightarrow> int \<Rightarrow> VerifiedCommitDecision result" where
  "VerifyCommitDecision env codec raw publicKeys currentRevocationEpoch now =
     (if raw = [] \<or> int (length raw) > maximumCommitDecisionBytes then Inl (rejected ''invalid document size'')
      else if jcs codec raw \<noteq> Some raw then Inl (rejected ''document is not canonical JCS'')
      else case decode_decision codec raw of
        Inl e \<Rightarrow> Inl (rejected e)
      | Inr d \<Rightarrow>
         (case validateCommitDecisionSemantics env d currentRevocationEpoch now of
            Inl e \<Rightarrow> Inl e
          | Inr (issuedAt, expiresAt) \<Rightarrow>
              if commitDecisionDigest env codec raw \<noteq> Some (cd_DecisionDigest d) then Inl (rejected ''decision digest mismatch'')
              else case publicKeys (ca_KeyID (cd_Authentication d)) of
                None \<Rightarrow> Inl (rejected ''unknown decision key'')
              | Some publicKey \<Rightarrow>
                  if length publicKey \<noteq> 32 then Inl (rejected ''unknown decision key'')
                  else (case base64_raw_url codec (ca_Signature (cd_Authentication d)) of
                      None \<Rightarrow> Inl (rejected ''invalid Ed25519 signature'')
                    | Some signature \<Rightarrow>
                        if length signature \<noteq> 64 \<or>
                           \<not> ed25519_verify codec publicKey
                              (commitDecisionSignaturePayload (ca_KeyID (cd_Authentication d)) (cd_DecisionDigest d)) signature
                        then Inl (rejected ''invalid Ed25519 signature'')
                        else Inr \<lparr>vd_decision = d, vd_canonical = raw, vd_issuedAt = issuedAt, vd_expiresAt = expiresAt\<rparr>)))"

end
