(* ===== verification/SharedCapacity.thy ===== *)
theory SharedCapacity
  imports SharedStorage "HOL-Library.AList"
begin

text \<open>
  \<open>internal/sharedcache/capacity.go\<close>: the capacity policy, reservations, byte accounting, watermark eviction,
  the segmented LRU and the batched access times. \<open>available\<close> is the reading of the disk probe, \<open>None\<close> when it
  fails or does not fit an \<open>int64\<close>, and \<open>disk_total\<close> the size of the volume. A validated policy bounds every
  product by \<open>100 * (500 << 30)\<close>, so the 64-bit arithmetic does not wrap (lemma \<open>percentageBytes_no_overflow\<close>).
\<close>

section \<open>Policy\<close>

definition privateBetaDeploymentLimit :: int where "privateBetaDeploymentLimit = 536870912000"
definition privateBetaRepositoryLimit :: int where "privateBetaRepositoryLimit = 107374182400"
definition privateBetaStableTTL :: int where "privateBetaStableTTL = 2592000000000000"
definition privateBetaQuarantineTTL :: int where "privateBetaQuarantineTTL = 604800000000000"

definition percentageBytes :: "int \<Rightarrow> int \<Rightarrow> int" where
  "percentageBytes v percent = v * percent div 100"

definition defaultCapacityPolicy :: "int result \<Rightarrow> int \<Rightarrow> CapacityPolicy result" where
  "defaultCapacityPolicy disk_total maximumBlobBytes =
     (case disk_total of
        Inl e \<Rightarrow> Inl e
      | Inr volume \<Rightarrow>
          if volume = 0 \<or> volume > 9223372036854775807 then Inl ''storage volume capacity is unavailable''
          else let deployment = min (volume div 2) privateBetaDeploymentLimit;
                   repository = min privateBetaRepositoryLimit deployment;
                   pending = max (percentageBytes deployment 10) maximumBlobBytes in
            Inr \<lparr>cp_DeploymentBytes = deployment, cp_RepositoryBytes = repository, cp_PendingQuarantineBytes = pending,
                 cp_StableTTL = privateBetaStableTTL, cp_QuarantineTTL = privateBetaQuarantineTTL,
                 cp_HighWatermarkPercent = 85, cp_LowWatermarkPercent = 75, cp_ProtectedPercent = 80,
                 cp_AccessUpdateInterval = 60000000000\<rparr>)"

definition validateCapacityPolicy :: "CapacityPolicy \<Rightarrow> int \<Rightarrow> bool" where
  "validateCapacityPolicy p maximumBlobBytes = (\<not>
     (cp_DeploymentBytes p < maximumBlobBytes \<or> cp_DeploymentBytes p > privateBetaDeploymentLimit \<or>
      cp_RepositoryBytes p < maximumBlobBytes \<or> cp_RepositoryBytes p > cp_DeploymentBytes p \<or>
      cp_RepositoryBytes p > privateBetaRepositoryLimit \<or> cp_PendingQuarantineBytes p < maximumBlobBytes \<or>
      cp_PendingQuarantineBytes p > cp_DeploymentBytes p \<or>
      cp_PendingQuarantineBytes p > percentageBytes (cp_DeploymentBytes p) 10 \<or>
      cp_StableTTL p \<le> 0 \<or> cp_StableTTL p > privateBetaStableTTL \<or> cp_QuarantineTTL p \<le> 0 \<or>
      cp_QuarantineTTL p > privateBetaQuarantineTTL \<or> cp_LowWatermarkPercent p < 1 \<or>
      cp_HighWatermarkPercent p \<le> cp_LowWatermarkPercent p \<or> cp_HighWatermarkPercent p > 100 \<or>
      cp_ProtectedPercent p < 1 \<or> cp_ProtectedPercent p > 100 \<or> cp_AccessUpdateInterval p \<le> 0))"

lemma percentageBytes_no_overflow:
  assumes "validateCapacityPolicy p maximumBlobBytes" "0 \<le> maximumBlobBytes" "0 \<le> percent" "percent \<le> 100"
    "0 \<le> v" "v \<le> cp_DeploymentBytes p"
  shows "0 \<le> v * percent" "v * percent < 2 ^ 63" "percentageBytes v percent \<le> v"
proof -
  have v: "v \<le> 536870912000" using assms(1,6) by (simp add: validateCapacityPolicy_def privateBetaDeploymentLimit_def)
  show "0 \<le> v * percent" using assms(3,5) by simp
  have le: "v * percent \<le> v * 100" using assms(4,5) by (simp add: mult_left_mono)
  then show "v * percent < 2 ^ 63" using v by simp
  show "percentageBytes v percent \<le> v" using le by (simp add: percentageBytes_def)
qed

text \<open>On open, a shorter TTL is applied to the entries that are already stored.\<close>

definition applyCapacityPolicy :: "CapacityPolicy \<Rightarrow> cache_db \<Rightarrow> cache_db result" where
  "applyCapacityPolicy p db =
     (let ttlMillis = cp_StableTTL p div 1000000;
          shorten = (\<lambda>e. case find (\<lambda>c. committed_key c = entry_key e) (db_committed db) of
             None \<Rightarrow> e
           | Some c \<Rightarrow> e\<lparr>en_expires_at_unix_ms := min (en_expires_at_unix_ms e) (cm_committed_at_unix_ms c + ttlMillis)\<rparr>) in
      if ttlMillis < 1 then Inl ''stable TTL cannot be represented in milliseconds''
      else and_then (sql_update entry_checks (\<lambda>_. True) shorten (db_entries db)) (\<lambda>(rs, _). Inr (db\<lparr>db_entries := rs\<rparr>)))"

section \<open>Accounting\<close>

definition no_scope :: capacityScope where
  "no_scope = \<lparr>sc_tenant = [], sc_repository = [], sc_trustDomain = [], sc_namespaceGeneration = 0\<rparr>"

definition repositoryScope :: "capacityScope \<Rightarrow> capacityScope" where
  "repositoryScope sc = sc\<lparr>sc_namespaceGeneration := 0\<rparr>"

definition in_scope :: "capacityScope \<Rightarrow> string \<Rightarrow> string \<Rightarrow> string \<Rightarrow> int \<Rightarrow> bool" where
  "in_scope sc tenant repository trustDomain ns =
     (sc_repository sc = [] \<or>
      (tenant = sc_tenant sc \<and> repository = sc_repository sc \<and> trustDomain = sc_trustDomain sc \<and>
       (sc_namespaceGeneration sc = 0 \<or> ns = sc_namespaceGeneration sc)))"

text \<open>\<open>committed_objects JOIN storage_entries\<close>\<close>

definition stable_rows :: "cache_db \<Rightarrow> (committed_row \<times> entry_row) list" where
  "stable_rows db = filter (\<lambda>(c, e). entry_key e = committed_key c) (List.product (db_committed db) (db_entries db))"

definition row_in_scope :: "capacityScope \<Rightarrow> committed_row \<times> entry_row \<Rightarrow> bool" where
  "row_in_scope sc = (\<lambda>(c, e). in_scope sc (cm_tenant_id c) (en_repository_id e) (en_trust_domain e) (cm_namespace_generation c))"

definition row_bytes :: "(committed_row \<times> entry_row) list \<Rightarrow> int" where
  "row_bytes rows = sum_list (map (\<lambda>(c, e). cm_size_bytes c) rows)"

text \<open>\<open>pending_objects JOIN cache_attempts\<close> restricted to pending attempts\<close>

definition pending_rows :: "cache_db \<Rightarrow> (pending_row \<times> attempt_row) list" where
  "pending_rows db = filter (\<lambda>(p, a). at_attempt_id a = pe_attempt_id p \<and> at_state a = AttemptPending)
     (List.product (db_pending db) (db_attempts db))"

definition pending_in_scope :: "capacityScope \<Rightarrow> pending_row \<times> attempt_row \<Rightarrow> bool" where
  "pending_in_scope sc = (\<lambda>(p, a). in_scope sc (at_tenant_id a) (at_repository_id a) (at_trust_domain a) (at_namespace_generation a))"

record usage =
  us_stableBytes :: int
  us_probationBytes :: int
  us_protectedBytes :: int
  us_pendingBytes :: int
  us_quarantineBytes :: int
  us_stableObjects :: int

definition capacityUsage :: "cache_db \<Rightarrow> capacityScope \<Rightarrow> usage" where
  "capacityUsage db sc =
     (let rows = filter (row_in_scope sc) (stable_rows db) in
      \<lparr>us_stableBytes = row_bytes rows,
       us_probationBytes = row_bytes (filter (\<lambda>(c, e). en_segment e = PROBATION) rows),
       us_protectedBytes = row_bytes (filter (\<lambda>(c, e). en_segment e = PROTECTED) rows),
       us_pendingBytes = sum_list (map (\<lambda>(p, a). pe_size_bytes p) (filter (pending_in_scope sc) (pending_rows db))),
       us_quarantineBytes = (if sc = no_scope then sum_list (map qu_size_bytes (db_quarantine db)) else 0),
       us_stableObjects = int (length rows)\<rparr>)"

definition reserved_sum :: "(pendingReservation \<Rightarrow> bool) \<Rightarrow> (nat \<times> pendingReservation) list \<Rightarrow> int" where
  "reserved_sum sel rs = sum_list (map (rs_amount \<circ> snd) (filter (sel \<circ> snd) rs))"

definition same_repository :: "capacityScope \<Rightarrow> pendingReservation \<Rightarrow> bool" where
  "same_repository sc r = (sc_tenant (rs_scope r) = sc_tenant sc \<and> sc_repository (rs_scope r) = sc_repository sc \<and>
     sc_trustDomain (rs_scope r) = sc_trustDomain sc)"

definition reservedBytesLocked :: "Storage \<Rightarrow> capacityScope \<Rightarrow> int \<times> int \<times> int" where
  "reservedBytesLocked s sc =
     (reserved_sum (\<lambda>_. True) (so_reservations s), reserved_sum (same_repository sc) (so_reservations s),
      reserved_sum (\<lambda>r. rs_scope r = sc) (so_reservations s))"

section \<open>Reservations\<close>

text \<open>
  The four byte limits that an additional amount has to fit. \<open>observed\<close> is what the usage queries answered. They run
  outside a transaction: \<open>reservePendingLocked\<close> is called with the lifecycle mutex, so its queries see one database,
  but \<open>resizePendingReservationLocked\<close> is not, and a commit between its queries can move bytes from a sum that is
  still to be read to one that has been read. The answers are therefore an argument of the resize.
\<close>

definition admission_exceeded :: "(capacityScope \<Rightarrow> usage) \<Rightarrow> Storage \<Rightarrow> capacityScope \<Rightarrow> int \<Rightarrow> bool" where
  "admission_exceeded observed s sc amount =
     (let namespaceUsage = observed sc;
          repositoryUsage = observed (repositoryScope sc);
          globalUsage = observed no_scope;
          (reservedTotal, reservedRepository, reservedNamespace) = reservedBytesLocked s sc;
          p = so_capacity s in
      amount > cp_PendingQuarantineBytes p - us_pendingBytes globalUsage - us_quarantineBytes globalUsage - reservedTotal \<or>
      amount > cp_DeploymentBytes p - us_stableBytes globalUsage - us_pendingBytes globalUsage -
        us_quarantineBytes globalUsage - reservedTotal \<or>
      amount > cp_RepositoryBytes p - us_stableBytes repositoryUsage - us_pendingBytes repositoryUsage - reservedRepository \<or>
      amount > cp_RepositoryBytes p - us_stableBytes namespaceUsage - us_pendingBytes namespaceUsage - reservedNamespace)"

definition reservePendingLocked :: "Storage \<Rightarrow> capacityScope \<Rightarrow> int \<Rightarrow> int option \<Rightarrow> (Storage \<times> nat) result" where
  "reservePendingLocked s sc declaredBytes available =
     (let amount = (if declaredBytes < 0 then so_maximumBlobBytes s else declaredBytes);
          (reservedTotal, _, _) = reservedBytesLocked s sc in
      if amount > so_maximumBlobBytes s then Inl ErrBlobTooLarge
      else if admission_exceeded (capacityUsage (so_cache s)) s sc amount then Inl ErrCapacityExceeded
      else case available of
        None \<Rightarrow> Inl ErrCapacityExceeded
      | Some bytes \<Rightarrow>
          if amount > bytes - reservedTotal then Inl ErrCapacityExceeded
          else Inr (s\<lparr>so_reservations := (so_next_reservation s, \<lparr>rs_scope = sc, rs_amount = amount\<rparr>) # so_reservations s,
                      so_next_reservation := Suc (so_next_reservation s)\<rparr>, so_next_reservation s))"

definition set_amount :: "Storage \<Rightarrow> nat \<Rightarrow> int \<Rightarrow> Storage" where
  "set_amount s rid amount =
     s\<lparr>so_reservations := map (\<lambda>(i, r). (i, if i = rid then r\<lparr>rs_amount := amount\<rparr> else r)) (so_reservations s)\<rparr>"

definition resizePendingReservationLocked ::
    "(capacityScope \<Rightarrow> usage) \<Rightarrow> Storage \<Rightarrow> nat \<Rightarrow> int \<Rightarrow> int \<Rightarrow> int option \<Rightarrow> Storage result" where
  "resizePendingReservationLocked observed s rid actualBytes writtenBytes available =
     (if actualBytes < 0 \<or> writtenBytes < 0 \<or> writtenBytes > actualBytes \<or> actualBytes > so_maximumBlobBytes s
      then Inl ErrCapacityExceeded
      else case map_of (so_reservations s) rid of
        None \<Rightarrow> Inl ErrCapacityExceeded
      | Some r \<Rightarrow>
          if actualBytes \<le> rs_amount r then Inr (set_amount s rid actualBytes)
          else let additional = actualBytes - rs_amount r;
                   (reservedTotal, _, _) = reservedBytesLocked s (rs_scope r);
                   otherReserved = reservedTotal - rs_amount r;
                   remainingWrite = actualBytes - writtenBytes in
            if admission_exceeded observed s (rs_scope r) additional then Inl ErrCapacityExceeded
            else case available of
              None \<Rightarrow> Inl ErrCapacityExceeded
            | Some bytes \<Rightarrow>
                if remainingWrite > bytes - otherReserved then Inl ErrCapacityExceeded else Inr (set_amount s rid actualBytes))"

text \<open>One call of \<open>reservationReader.Read\<close> that got \<open>count\<close> bytes: the state and the new \<open>written\<close>.\<close>

definition reservationRead ::
    "(capacityScope \<Rightarrow> usage) \<Rightarrow> Storage \<Rightarrow> nat \<Rightarrow> int \<Rightarrow> int \<Rightarrow> int option \<Rightarrow> (Storage \<times> int) result" where
  "reservationRead observed s rid written count available =
     (if count \<le> 0 then Inr (s, written)
      else let target = written + count in
        case map_of (so_reservations s) rid of
          Some r \<Rightarrow>
            if target > rs_amount r
            then and_then (resizePendingReservationLocked observed s rid target written available) (\<lambda>s'. Inr (s', target))
            else Inr (s, target)
        | None \<Rightarrow> and_then (resizePendingReservationLocked observed s rid target written available) (\<lambda>s'. Inr (s', target)))"

definition releasePendingReservation :: "Storage \<Rightarrow> nat \<Rightarrow> Storage" where
  "releasePendingReservation s rid = s\<lparr>so_reservations := filter (\<lambda>(i, r). i \<noteq> rid) (so_reservations s)\<rparr>"

section \<open>Snapshot\<close>

record CapacitySnapshot =
  cs_DeploymentBytes :: int
  cs_RepositoryBytes :: int
  cs_PendingQuarantineBytes :: int
  cs_HighWatermarkBytes :: int
  cs_LowWatermarkBytes :: int
  cs_StableBytes :: int
  cs_ProbationBytes :: int
  cs_ProtectedBytes :: int
  cs_PendingBytes :: int
  cs_QuarantineBytes :: int
  cs_ReservedBytes :: int
  cs_StableObjects :: int
  cs_AdmissionBlocked :: bool
  cs_HighWatermarkReached :: bool

definition capacitySnapshotLocked :: "Storage \<Rightarrow> CapacitySnapshot result" where
  "capacitySnapshotLocked s =
     (if so_protectedAccessError s then Inl ''persist Shared protected access metadata''
      else let u = capacityUsage (so_cache s) no_scope; p = so_capacity s;
               (reserved, _, _) = reservedBytesLocked s no_scope;
               high = percentageBytes (cp_DeploymentBytes p) (cp_HighWatermarkPercent p);
               low = percentageBytes (cp_DeploymentBytes p) (cp_LowWatermarkPercent p) in
        Inr \<lparr>cs_DeploymentBytes = cp_DeploymentBytes p, cs_RepositoryBytes = cp_RepositoryBytes p,
             cs_PendingQuarantineBytes = cp_PendingQuarantineBytes p, cs_HighWatermarkBytes = high, cs_LowWatermarkBytes = low,
             cs_StableBytes = us_stableBytes u, cs_ProbationBytes = us_probationBytes u, cs_ProtectedBytes = us_protectedBytes u,
             cs_PendingBytes = us_pendingBytes u, cs_QuarantineBytes = us_quarantineBytes u, cs_ReservedBytes = reserved,
             cs_StableObjects = us_stableObjects u,
             cs_AdmissionBlocked = (us_pendingBytes u + us_quarantineBytes u + reserved \<ge> cp_PendingQuarantineBytes p),
             cs_HighWatermarkReached = (us_stableBytes u \<ge> high)\<rparr>)"

definition CapacitySnapshot_op :: "Storage \<Rightarrow> CapacitySnapshot result" where
  "CapacitySnapshot_op s = (if so_closed s then Inl ErrClosed else capacitySnapshotLocked s)"

section \<open>Eviction\<close>

definition segment_rank :: "segment \<Rightarrow> int" where
  "segment_rank g = (case g of PROBATION \<Rightarrow> 0 | PROTECTED \<Rightarrow> 1)"

definition eviction_order :: "committed_row \<times> entry_row \<Rightarrow> int \<times> int \<times> int \<times> object_key" where
  "eviction_order = (\<lambda>(c, e). (segment_rank (en_segment e), cm_last_access_unix_ms c, - cm_size_bytes c, committed_key c))"

definition evictionCandidates :: "cache_db \<Rightarrow> capacityScope \<Rightarrow> string \<Rightarrow> (committed_row \<times> entry_row) list" where
  "evictionCandidates db sc excludedDecision =
     sort_key eviction_order
       (filter (\<lambda>(c, e). row_in_scope sc (c, e) \<and> (excludedDecision = [] \<or> cm_decision_digest c \<noteq> excludedDecision)) (stable_rows db))"

fun evict_loop :: "(committed_row \<times> entry_row) list \<Rightarrow> int \<Rightarrow> nat \<Rightarrow> nat \<Rightarrow> cache_db \<Rightarrow> cache_db \<times> int \<times> nat \<times> nat" where
  "evict_loop [] toFree probation protected db = (db, toFree, probation, protected)"
| "evict_loop ((c, e) # cs) toFree probation protected db =
     (if toFree \<le> 0 then (db, toFree, probation, protected)
      else let (db', affected) = delete_committed (\<lambda>x. committed_key x = committed_key c) db in
        if affected = 0 then evict_loop cs toFree probation protected db'
        else if en_segment e = PROBATION then evict_loop cs (toFree - cm_size_bytes c) (Suc probation) protected db'
        else evict_loop cs (toFree - cm_size_bytes c) probation (Suc protected) db')"

definition scope_limit :: "CapacityPolicy \<Rightarrow> capacityScope \<Rightarrow> int" where
  "scope_limit p sc = (if sc \<noteq> no_scope then cp_RepositoryBytes p else cp_DeploymentBytes p)"

definition enforceWatermarkTx :: "CapacityPolicy \<Rightarrow> capacityScope \<Rightarrow> string \<Rightarrow> cache_db \<Rightarrow> (cache_db \<times> nat \<times> nat) result" where
  "enforceWatermarkTx p sc excludedDecision db =
     (let limit = scope_limit p sc; used = us_stableBytes (capacityUsage db sc);
          high = percentageBytes limit (cp_HighWatermarkPercent p) in
      if used < high then Inr (db, 0, 0)
      else let target = percentageBytes limit (cp_LowWatermarkPercent p);
               (db', toFree, probation, protected) = evict_loop (evictionCandidates db sc excludedDecision) (used - target) 0 0 db in
        if toFree > 0 then Inl ErrCapacityExceeded else Inr (db', probation, protected))"

definition enforceCommitCapacityTx :: "CapacityPolicy \<Rightarrow> capacityScope \<Rightarrow> string \<Rightarrow> cache_db \<Rightarrow> (cache_db \<times> nat \<times> nat) result" where
  "enforceCommitCapacityTx p sc decisionDigest db =
     (if us_stableBytes (capacityUsage db sc) > cp_RepositoryBytes p \<or>
         us_stableBytes (capacityUsage db (repositoryScope sc)) > cp_RepositoryBytes p \<or>
         us_stableBytes (capacityUsage db no_scope) > cp_DeploymentBytes p
      then Inl ErrCapacityExceeded
      else and_then (enforceWatermarkTx p sc decisionDigest db) (\<lambda>(db1, probation1, protected1).
           and_then (enforceWatermarkTx p (repositoryScope sc) decisionDigest db1) (\<lambda>(db2, probation2, protected2).
           and_then (enforceWatermarkTx p no_scope decisionDigest db2) (\<lambda>(db3, probation3, protected3).
             Inr (db3, probation1 + probation2 + probation3, protected1 + protected2 + protected3)))))"

definition deleteExpiredEntries :: "int \<Rightarrow> cache_db \<Rightarrow> cache_db \<times> nat" where
  "deleteExpiredEntries now db =
     delete_committed (\<lambda>c. list_ex (\<lambda>e. entry_key e = committed_key c \<and> en_expires_at_unix_ms e \<le> to_milli now) (db_entries db)) db"

section \<open>The protected segment\<close>

definition set_segment :: "object_key \<Rightarrow> segment \<Rightarrow> cache_db \<Rightarrow> cache_db" where
  "set_segment k g db = db\<lparr>db_entries := map (\<lambda>e. if entry_key e = k then e\<lparr>en_segment := g\<rparr> else e) (db_entries db)\<rparr>"

definition protected_rows :: "cache_db \<Rightarrow> (committed_row \<times> entry_row) list" where
  "protected_rows db = filter (\<lambda>(c, e). en_segment e = PROTECTED) (stable_rows db)"

fun demote_loop :: "int \<Rightarrow> (committed_row \<times> entry_row) list \<Rightarrow> int \<Rightarrow> nat \<Rightarrow> cache_db \<Rightarrow> cache_db \<times> nat" where
  "demote_loop target [] protectedBytes demoted db = (db, demoted)"
| "demote_loop target ((c, e) # cs) protectedBytes demoted db =
     (if protectedBytes \<le> target then (db, demoted)
      else demote_loop target cs (protectedBytes - cm_size_bytes c) (Suc demoted) (set_segment (committed_key c) PROBATION db))"

definition protected_target :: "CapacityPolicy \<Rightarrow> int" where
  "protected_target p =
     percentageBytes (percentageBytes (cp_DeploymentBytes p) (cp_LowWatermarkPercent p)) (cp_ProtectedPercent p)"

definition enforceProtectedTargetTx :: "CapacityPolicy \<Rightarrow> cache_db \<Rightarrow> cache_db \<times> nat" where
  "enforceProtectedTargetTx p db =
     (if row_bytes (protected_rows db) \<le> protected_target p then (db, 0)
      else demote_loop (protected_target p)
        (sort_key (\<lambda>(c, e). (cm_last_access_unix_ms c, committed_key c)) (protected_rows db))
        (row_bytes (protected_rows db)) 0 db)"

section \<open>Access times\<close>

definition accessUpdateRequired :: "Storage \<Rightarrow> segment \<Rightarrow> int \<Rightarrow> int \<Rightarrow> bool" where
  "accessUpdateRequired s g lastAccess now =
     (g = PROBATION \<or> lastAccess \<le> to_milli (now - cp_AccessUpdateInterval (so_capacity s)))"

text \<open>\<open>commits\<close> is the outcome of the commit of the transaction.\<close>

definition promoteAndBatchAccess :: "Storage \<Rightarrow> object_key \<Rightarrow> segment \<Rightarrow> int \<Rightarrow> int \<Rightarrow> bool \<Rightarrow> Storage result" where
  "promoteAndBatchAccess s k g lastAccess now commits =
     (if \<not> accessUpdateRequired s g lastAccess now then Inr s
      else and_then (sql_update committed_checks (\<lambda>c. committed_key c = k) (\<lambda>c. c\<lparr>cm_last_access_unix_ms := to_milli now\<rparr>)
             (db_committed (so_cache s))) (\<lambda>(rs, _).
        let db1 = (so_cache s)\<lparr>db_committed := rs\<rparr>;
            db2 = (if g = PROBATION then fst (enforceProtectedTargetTx (so_capacity s) (set_segment k PROTECTED db1)) else db1) in
        if commits then Inr (s\<lparr>so_cache := db2\<rparr>) else Inl DatabaseError))"

definition batchProtectedAccess :: "Storage \<Rightarrow> protectedAccessKey \<Rightarrow> int \<Rightarrow> Storage" where
  "batchProtectedAccess s k now =
     (let entries = (case so_currentAccessBatch s of None \<Rightarrow> [] | Some es \<Rightarrow> es);
          entries' = (case map_of entries k of
              None \<Rightarrow> (k, now) # entries
            | Some previous \<Rightarrow> if now > previous then AList.update k now entries else entries) in
      s\<lparr>so_currentAccessBatch := Some entries'\<rparr>)"

text \<open>The conditional update of one entry of a batch; \<open>validAt\<close> is the clock when its statement runs.\<close>

definition access_matches :: "protectedAccessKey \<Rightarrow> int \<Rightarrow> cache_db \<Rightarrow> committed_row \<Rightarrow> bool" where
  "access_matches k validAt db c =
     (committed_key c = (ak_tenant k, ak_namespaceGeneration k, ak_key k) \<and> cm_blob_digest c = ak_blobDigest k \<and>
      cm_size_bytes c = ak_sizeBytes k \<and> cm_decision_digest c = ak_decisionDigest k \<and>
      list_ex (\<lambda>e. entry_key e = committed_key c \<and> en_segment e = PROTECTED \<and> en_expires_at_unix_ms e > to_milli validAt) (db_entries db))"

fun flush_entries :: "(protectedAccessKey \<Rightarrow> int) \<Rightarrow> (protectedAccessKey \<times> int) list \<Rightarrow> cache_db \<Rightarrow> cache_db result" where
  "flush_entries validAt [] db = Inr db"
| "flush_entries validAt ((k, accessedAt) # es) db =
     and_then (sql_update committed_checks (access_matches k (validAt k) db)
         (\<lambda>c. c\<lparr>cm_last_access_unix_ms := to_milli accessedAt\<rparr>) (db_committed db))
       (\<lambda>(rs, _). flush_entries validAt es (db\<lparr>db_committed := rs\<rparr>))"

definition flushProtectedAccessBatch :: "Storage \<Rightarrow> (protectedAccessKey \<Rightarrow> int) \<Rightarrow> bool \<Rightarrow> Storage" where
  "flushProtectedAccessBatch s validAt commits =
     (case so_currentAccessBatch s of
        None \<Rightarrow> s
      | Some es \<Rightarrow>
          let s' = s\<lparr>so_currentAccessBatch := None\<rparr> in
          case flush_entries validAt es (so_cache s) of
            Inl _ \<Rightarrow> s'\<lparr>so_protectedAccessError := True\<rparr>
          | Inr db \<Rightarrow> if commits then s'\<lparr>so_cache := db\<rparr> else s'\<lparr>so_protectedAccessError := True\<rparr>)"

definition expireQuarantineTx :: "CapacityPolicy \<Rightarrow> int \<Rightarrow> cache_db \<Rightarrow> cache_db \<times> nat" where
  "expireQuarantineTx p now db =
     (let old = (\<lambda>q. qu_quarantined_at_unix_ms q \<le> to_milli (now - cp_QuarantineTTL p)) in
      (db\<lparr>db_quarantine := filter (\<lambda>q. \<not> old q) (db_quarantine db)\<rparr>, length (filter old (db_quarantine db))))"

end
