(* ===== verification/SharedAttempts.thy ===== *)
theory SharedAttempts
  imports SharedDecision SharedCapacity
begin

text \<open>
  \<open>internal/sharedcache/lifecycle.go\<close> and the parts of \<open>reconcile.go\<close> it calls: the life of an attempt from
  \<open>StartAttempt\<close> over pending objects to its commit or abort, and the verified read of committed objects.

  Every operation is a function of the state that its critical section sees. An operation that gives up its
  mutex and takes it again is several functions, one per critical section, so that other operations can run in
  between (theory \<open>SharedSystem\<close>). \<open>commits\<close> is the outcome of the commit of the operation's transaction and
  \<open>indexes\<close> the outcome of the insertion into the audit index of the control database.
\<close>

section \<open>Attempts\<close>

definition maximumPendingLifetime :: int where "maximumPendingLifetime = 86400000000000"

definition abortReasons :: "string list" where
  "abortReasons = [''BUILD_FAILURE'', ''INFRA_FAILURE'', ''CANCELLED'', ''TIMEOUT'', ''POLICY_CHANGED'', ''SOURCE_CHANGED'',
     ''LEASE_EXPIRED'', ''VALIDATION_FAILED'', ''INCOMPLETE_COMMIT_DECISION'']"

record AttemptStatus =
  as_AttemptID :: string
  as_AuthorityDigest :: string
  as_Repository :: SharedStorage.RepositoryIdentity
  as_NamespaceGeneration :: int
  as_SourceRevision :: string
  as_SourceStateDigest :: string
  as_PolicyDigest :: string
  as_ConfigurationPolicyDigest :: string
  as_CacheContractDigest :: string
  as_OwnerID :: string
  as_LeaseID :: string
  as_LeaseExpiresAt :: int
  as_State :: AttemptState
  as_StateVersion :: int
  as_PendingObjectCount :: nat
  as_DecisionDigest :: string
  as_AbortReason :: string
  as_CreatedAt :: int
  as_UpdatedAt :: int

record attemptRecord =
  rc_status :: AttemptStatus
  rc_requestFingerprint :: string
  rc_terminalID :: "string option"
  rc_terminalFingerprint :: "string option"

text \<open>\<open>sql.NullString.String\<close> is empty when the column is NULL.\<close>

definition null_text :: "string option \<Rightarrow> string" where
  "null_text v = (case v of None \<Rightarrow> [] | Some s \<Rightarrow> s)"

text \<open>\<open>time.UnixMilli\<close>\<close>

definition from_milli :: "int \<Rightarrow> int" where "from_milli ms = ms * 1000000"

definition status_of_row :: "cache_db \<Rightarrow> attempt_row \<Rightarrow> AttemptStatus" where
  "status_of_row db a =
     \<lparr>as_AttemptID = at_attempt_id a, as_AuthorityDigest = null_text (map_of (db_authorities db) (at_attempt_id a)),
      as_Repository = \<lparr>rp_Tenant = at_tenant_id a, rp_Repository = at_repository_id a, rp_TrustDomain = at_trust_domain a\<rparr>,
      as_NamespaceGeneration = at_namespace_generation a, as_SourceRevision = at_source_revision a,
      as_SourceStateDigest = at_source_state_digest a, as_PolicyDigest = at_policy_digest a,
      as_ConfigurationPolicyDigest = at_configuration_policy_digest a, as_CacheContractDigest = at_cache_contract_digest a,
      as_OwnerID = at_owner_id a, as_LeaseID = at_lease_id a, as_LeaseExpiresAt = from_milli (at_lease_expires_at_unix_ms a),
      as_State = at_state a, as_StateVersion = at_state_version a,
      as_PendingObjectCount = length (filter (\<lambda>p. pe_attempt_id p = at_attempt_id a) (db_pending db)),
      as_DecisionDigest = null_text (at_decision_digest a), as_AbortReason = null_text (at_abort_reason a),
      as_CreatedAt = from_milli (at_created_at_unix_ms a), as_UpdatedAt = from_milli (at_updated_at_unix_ms a)\<rparr>"

definition attempt_of :: "cache_db \<Rightarrow> string \<Rightarrow> attempt_row option" where
  "attempt_of db attemptID = find (\<lambda>a. at_attempt_id a = attemptID) (db_attempts db)"

definition loadAttempt :: "cache_db \<Rightarrow> string \<Rightarrow> attemptRecord result" where
  "loadAttempt db attemptID =
     (case attempt_of db attemptID of
        None \<Rightarrow> Inl ErrAttemptNotFound
      | Some a \<Rightarrow> Inr \<lparr>rc_status = status_of_row db a, rc_requestFingerprint = at_request_fingerprint a,
          rc_terminalID = at_terminal_id a, rc_terminalFingerprint = at_terminal_fingerprint a\<rparr>)"

definition pendingObjects :: "cache_db \<Rightarrow> attemptRecord \<Rightarrow> CommitObject list" where
  "pendingObjects db r =
     map (\<lambda>p. \<lparr>co_NamespaceGeneration = as_NamespaceGeneration (rc_status r), co_Key = pe_cache_key p,
              co_Checksum = pe_blob_digest p, co_SizeBytes = pe_size_bytes p\<rparr>)
       (sort_key pe_cache_key (filter (\<lambda>p. pe_attempt_id p = as_AttemptID (rc_status r)) (db_pending db)))"

definition abortAttemptTx ::
    "attemptRecord \<Rightarrow> string \<Rightarrow> string \<Rightarrow> string \<Rightarrow> int \<Rightarrow> cache_db \<Rightarrow> cache_db result" where
  "abortAttemptTx r terminalID terminalFingerprint reason now db =
     (let attemptID = as_AttemptID (rc_status r);
          sel = (\<lambda>a. at_attempt_id a = attemptID \<and> at_state a = AttemptPending \<and> at_state_version a = as_StateVersion (rc_status r)) in
      and_then (sql_update attempt_checks sel
          (\<lambda>a. a\<lparr>at_state := AttemptAborted, at_state_version := at_state_version a + 1, at_terminal_id := Some terminalID,
                 at_terminal_fingerprint := Some terminalFingerprint, at_abort_reason := Some reason,
                 at_updated_at_unix_ms := to_milli now\<rparr>) (db_attempts db))
        (\<lambda>(rs, affected).
          if affected \<noteq> 1 then Inl ErrStatePrecondition
          else Inr (delete_pending (\<lambda>p. pe_attempt_id p = attemptID) (db\<lparr>db_attempts := rs\<rparr>))))"

definition abortExpiredAttempt :: "environment \<Rightarrow> attemptRecord \<Rightarrow> int \<Rightarrow> cache_db \<Rightarrow> cache_db result" where
  "abortExpiredAttempt env r now db =
     abortAttemptTx r ''reconcile:lease-expired''
       (fingerprintValue env (json_expired env (as_AttemptID (rc_status r)) ''LEASE_EXPIRED'')) ''LEASE_EXPIRED'' now db"

section \<open>Starting an attempt\<close>

definition ensureAttemptAuthority :: "string \<Rightarrow> string \<Rightarrow> cache_db \<Rightarrow> cache_db \<times> error option" where
  "ensureAttemptAuthority attemptID authorityDigest db =
     (if authorityDigest = [] then (db, None)
      else let db' = (case map_of (db_authorities db) attemptID of
                 None \<Rightarrow> db\<lparr>db_authorities := db_authorities db @ [(attemptID, authorityDigest)]\<rparr> | Some _ \<Rightarrow> db) in
        (db', if map_of (db_authorities db') attemptID \<noteq> Some authorityDigest then Some ErrIdempotencyConflict else None))"

definition start_error :: "string \<Rightarrow> error" where
  "start_error msg = ''start Shared cache attempt: '' @ msg"

definition validateStartAttemptRequest :: "environment \<Rightarrow> StartAttemptRequest \<Rightarrow> int \<Rightarrow> error option" where
  "validateStartAttemptRequest env q now = first_err
     [each_err (\<lambda>(name, v). reject_if (\<not> SharedStorage.identifierPattern v) (start_error (''invalid '' @ name)))
        (map_order env [(''request ID'', sr_RequestID q), (''attempt ID'', sr_AttemptID q), (''tenant'', rp_Tenant (sr_Repository q)),
           (''repository'', rp_Repository (sr_Repository q)), (''trust domain'', rp_TrustDomain (sr_Repository q)),
           (''owner ID'', sr_OwnerID q), (''lease ID'', sr_LeaseID q)]),
      reject_if (sr_NamespaceGeneration q < 1) (start_error ''namespace generation must be positive''),
      reject_if (sr_AuthorityDigest q \<noteq> [] \<and> \<not> validSHA256Digest (sr_AuthorityDigest q)) (start_error ''invalid local authority digest''),
      reject_if (\<not> SharedStorage.revisionPattern (sr_SourceRevision q) \<or> \<not> SharedStorage.digestPattern (sr_SourceStateDigest q))
        (start_error ''invalid source binding''),
      each_err (\<lambda>d. reject_if (\<not> validSHA256Digest d) (start_error ''invalid policy binding''))
        [sr_PolicyDigest q, sr_ConfigurationPolicyDigest q, sr_CacheContractDigest q],
      reject_if (\<not> sr_LeaseExpiresAt q > now \<or> sr_LeaseExpiresAt q > now + maximumPendingLifetime)
        (start_error ''lease must be within 24 hours'')]"

definition new_attempt :: "environment \<Rightarrow> StartAttemptRequest \<Rightarrow> int \<Rightarrow> attempt_row" where
  "new_attempt env q now =
     \<lparr>at_attempt_id = sr_AttemptID q, at_request_fingerprint = fingerprintValue env (json_start env q),
      at_tenant_id = rp_Tenant (sr_Repository q), at_repository_id = rp_Repository (sr_Repository q),
      at_trust_domain = rp_TrustDomain (sr_Repository q), at_namespace_generation = sr_NamespaceGeneration q,
      at_source_revision = sr_SourceRevision q, at_source_state_digest = sr_SourceStateDigest q,
      at_policy_digest = sr_PolicyDigest q, at_configuration_policy_digest = sr_ConfigurationPolicyDigest q,
      at_cache_contract_digest = sr_CacheContractDigest q, at_owner_id = sr_OwnerID q, at_lease_id = sr_LeaseID q,
      at_lease_expires_at_unix_ms = to_milli (sr_LeaseExpiresAt q), at_state = AttemptPending, at_state_version = 1,
      at_terminal_id = None, at_terminal_fingerprint = None, at_decision_digest = None, at_abort_reason = None,
      at_created_at_unix_ms = to_milli now, at_updated_at_unix_ms = to_milli now\<rparr>"

text \<open>The tail of both branches: bind the authority, then report the status.\<close>

definition start_result :: "Storage \<Rightarrow> StartAttemptRequest \<Rightarrow> attemptRecord \<Rightarrow> bool \<Rightarrow> Storage \<times> (AttemptStatus \<times> bool) result" where
  "start_result s q r created =
     (case ensureAttemptAuthority (sr_AttemptID q) (sr_AuthorityDigest q) (so_cache s) of
        (db, Some e) \<Rightarrow> (s\<lparr>so_cache := db\<rparr>, Inl e)
      | (db, None) \<Rightarrow>
          (s\<lparr>so_cache := db\<rparr>,
           Inr (if sr_AuthorityDigest q \<noteq> [] then (rc_status r)\<lparr>as_AuthorityDigest := sr_AuthorityDigest q\<rparr> else rc_status r, created)))"

definition StartAttempt :: "environment \<Rightarrow> Storage \<Rightarrow> StartAttemptRequest \<Rightarrow> int \<Rightarrow> Storage \<times> (AttemptStatus \<times> bool) result" where
  "StartAttempt env s q now =
     (if so_closed s then (s, Inl ErrClosed)
      else case validateStartAttemptRequest env q now of
        Some e \<Rightarrow> (s, Inl e)
      | None \<Rightarrow>
          if sr_NamespaceGeneration q < so_minimumNamespaceGeneration s
          then (s, Inl (start_error ''namespace generation predates managed deletion''))
          else case sql_insert attempt_checks at_attempt_id (new_attempt env q now) (db_attempts (so_cache s)) of
            Inl e \<Rightarrow>
              (case loadAttempt (so_cache s) (sr_AttemptID q) of
                 Inl _ \<Rightarrow> (s, Inl (start_error e))
               | Inr existing \<Rightarrow>
                   if rc_requestFingerprint existing \<noteq> fingerprintValue env (json_start env q) then (s, Inl ErrIdempotencyConflict)
                   else start_result s q existing False)
          | Inr rs \<Rightarrow>
              let s' = s\<lparr>so_cache := (so_cache s)\<lparr>db_attempts := rs\<rparr>\<rparr> in
              case loadAttempt (so_cache s') (sr_AttemptID q) of
                Inl e \<Rightarrow> (s', Inl e)
              | Inr r \<Rightarrow> start_result s' q r True)"

section \<open>Status\<close>

text \<open>The clock is read for the comparison and again for the abort.\<close>

definition AttemptStatus_op :: "environment \<Rightarrow> Storage \<Rightarrow> string \<Rightarrow> int \<Rightarrow> int \<Rightarrow> Storage \<times> AttemptStatus result" where
  "AttemptStatus_op env s attemptID now now' =
     (if \<not> SharedStorage.identifierPattern attemptID then (s, Inl ErrAttemptNotFound)
      else if so_closed s then (s, Inl ErrClosed)
      else case loadAttempt (so_cache s) attemptID of
        Inl e \<Rightarrow> (s, Inl e)
      | Inr r \<Rightarrow>
          if as_State (rc_status r) = AttemptPending \<and> \<not> as_LeaseExpiresAt (rc_status r) > now
          then (case abortExpiredAttempt env r now' (so_cache s) of
                  Inl e \<Rightarrow> (s, Inl e)
                | Inr db \<Rightarrow> (s\<lparr>so_cache := db\<rparr>, and_then (loadAttempt db attemptID) (\<lambda>r'. Inr (rc_status r'))))
          else (s, Inr (rc_status r)))"

definition PendingAttemptObjects :: "Storage \<Rightarrow> string \<Rightarrow> CommitObject list result" where
  "PendingAttemptObjects s attemptID =
     (if \<not> SharedStorage.identifierPattern attemptID then Inl ''inspect Shared cache pending objects: invalid request''
      else if so_closed s then Inl ErrClosed
      else and_then (loadAttempt (so_cache s) attemptID) (\<lambda>r.
        if as_State (rc_status r) \<noteq> AttemptPending then Inl ErrAttemptConflict else Inr (pendingObjects (so_cache s) r)))"

section \<open>Pending objects\<close>

text \<open>
  \<open>PutPendingSized\<close> has four critical sections: admission under the lifecycle mutex, the reads of the body under
  the capacity mutex, the publication of the blob, and the transaction under the lifecycle mutex. The read lock
  of the reconciliation mutex is held throughout.
\<close>

record PendingObjectResult =
  po_Object :: CommitObject
  po_BlobCreated :: bool
  po_ObjectAdded :: bool
  po_StateVersion :: int

definition attempt_scope :: "AttemptStatus \<Rightarrow> capacityScope" where
  "attempt_scope st = \<lparr>sc_tenant = rp_Tenant (as_Repository st), sc_repository = rp_Repository (as_Repository st),
     sc_trustDomain = rp_TrustDomain (as_Repository st), sc_namespaceGeneration = as_NamespaceGeneration st\<rparr>"

definition put_admit ::
    "environment \<Rightarrow> Storage \<Rightarrow> string \<Rightarrow> string \<Rightarrow> int \<Rightarrow> int \<Rightarrow> int option \<Rightarrow> Storage \<times> (nat \<times> int) result" where
  "put_admit env s attemptID key declaredBytes now available =
     (if \<not> SharedStorage.identifierPattern attemptID \<or> \<not> cacheKeyPattern key
      then (s, Inl ''put pending Shared object: invalid identity'')
      else if declaredBytes < -1 then (s, Inl ''put pending Shared object: invalid declared size'')
      else if so_closed s then (s, Inl ErrClosed)
      else case loadAttempt (so_cache s) attemptID of
        Inl e \<Rightarrow> (s, Inl e)
      | Inr r \<Rightarrow>
          if as_State (rc_status r) \<noteq> AttemptPending then (s, Inl ErrAttemptConflict)
          else if \<not> as_LeaseExpiresAt (rc_status r) > now
          then (case abortExpiredAttempt env r now (so_cache s) of
                  Inl e \<Rightarrow> (s, Inl e) | Inr db \<Rightarrow> (s\<lparr>so_cache := db\<rparr>, Inl ErrAttemptConflict))
          else (case reservePendingLocked s (attempt_scope (rc_status r)) declaredBytes available of
                  Inl e \<Rightarrow> (s, Inl e)
                | Inr (s', rid) \<Rightarrow> (s', Inr (rid, as_NamespaceGeneration (rc_status r)))))"

text \<open>
  The body arrives in chunks, each with the disk reading its accounting may need; the limited reader stops one
  byte after the maximum.
\<close>

fun put_stream :: "Storage \<Rightarrow> nat \<Rightarrow> string \<Rightarrow> (string \<times> int option) list \<Rightarrow> Storage \<times> string result" where
  "put_stream s rid received [] = (s, Inr received)"
| "put_stream s rid received ((chunk, available) # rest) =
     (let room = so_maximumBlobBytes s + 1 - int (length received) in
      if room \<le> 0 then (s, Inr received)
      else let part = take (nat room) chunk in
        case reservationRead (capacityUsage (so_cache s)) s rid (int (length received)) (int (length part)) available of
          Inl e \<Rightarrow> (s, Inl e)
        | Inr (s', _) \<Rightarrow> put_stream s' rid (received @ part) rest)"

definition cleanup_if :: "bool \<Rightarrow> Storage \<Rightarrow> Storage" where
  "cleanup_if b s = (if b then s\<lparr>so_blobCleanupPending := True\<rparr> else s)"

definition pending_object :: "int \<Rightarrow> string \<Rightarrow> Blob \<Rightarrow> CommitObject" where
  "pending_object generation key blob =
     \<lparr>co_NamespaceGeneration = generation, co_Key = key, co_Checksum = bl_Digest blob, co_SizeBytes = bl_Size blob\<rparr>"

definition put_record_tx ::
    "environment \<Rightarrow> string \<Rightarrow> string \<Rightarrow> int \<Rightarrow> Blob \<Rightarrow> bool \<Rightarrow> int \<Rightarrow> cache_db \<Rightarrow> (cache_db \<times> PendingObjectResult result) result" where
  "put_record_tx env attemptID key generation blob created now db =
     and_then (loadAttempt db attemptID) (\<lambda>r.
       if as_State (rc_status r) \<noteq> AttemptPending then Inl ErrAttemptConflict
       else if \<not> as_LeaseExpiresAt (rc_status r) > now
       then and_then (abortExpiredAttempt env r now db) (\<lambda>db'. Inr (db', Inl ErrAttemptConflict))
       else case find (\<lambda>p. pending_key p = (attemptID, key)) (db_pending db) of
         Some p \<Rightarrow>
           if \<lparr>bl_Digest = pe_blob_digest p, bl_Size = pe_size_bytes p\<rparr> \<noteq> blob then Inl ErrAttemptConflict
           else Inr (db, Inr \<lparr>po_Object = pending_object generation key blob, po_BlobCreated = created, po_ObjectAdded = False,
                             po_StateVersion = as_StateVersion (rc_status r)\<rparr>)
       | None \<Rightarrow>
           if int (as_PendingObjectCount (rc_status r)) \<ge> maximumCommitObjects then Inl ErrAttemptConflict
           else and_then (insert_pending \<lparr>pe_attempt_id = attemptID, pe_cache_key = key, pe_blob_digest = bl_Digest blob,
                             pe_size_bytes = bl_Size blob, pe_created_at_unix_ms = to_milli now\<rparr> db) (\<lambda>db1.
                and_then (sql_update attempt_checks (\<lambda>a. at_attempt_id a = attemptID \<and> at_state a = AttemptPending)
                    (\<lambda>a. a\<lparr>at_state_version := at_state_version a + 1, at_updated_at_unix_ms := to_milli now\<rparr>) (db_attempts db1))
                  (\<lambda>(rs, _). Inr (db1\<lparr>db_attempts := rs\<rparr>,
                     Inr \<lparr>po_Object = pending_object generation key blob, po_BlobCreated = created, po_ObjectAdded = True,
                          po_StateVersion = as_StateVersion (rc_status r) + 1\<rparr>))))"

text \<open>A blob this call created is scheduled for cleanup unless the call records or finds its row.\<close>

definition put_record ::
    "environment \<Rightarrow> Storage \<Rightarrow> string \<Rightarrow> string \<Rightarrow> int \<Rightarrow> Blob \<Rightarrow> bool \<Rightarrow> int \<Rightarrow> bool \<Rightarrow> Storage \<times> PendingObjectResult result" where
  "put_record env s attemptID key generation blob created now commits =
     (case put_record_tx env attemptID key generation blob created now (so_cache s) of
        Inl e \<Rightarrow> (cleanup_if created s, Inl e)
      | Inr (db, outcome) \<Rightarrow>
          if \<not> commits then (cleanup_if created s, Inl DatabaseError)
          else case outcome of
            Inl e \<Rightarrow> (cleanup_if created (s\<lparr>so_cache := db\<rparr>), Inl e)
          | Inr res \<Rightarrow> (s\<lparr>so_cache := db\<rparr>, Inr res))"

text \<open>\<open>PutPendingSized\<close> when no other operation runs in between.\<close>

definition PutPendingSized ::
    "environment \<Rightarrow> Storage \<Rightarrow> string \<Rightarrow> string \<Rightarrow> int \<Rightarrow> (string \<times> int option) list \<Rightarrow> int \<Rightarrow> int option \<Rightarrow> int \<Rightarrow> bool \<Rightarrow>
      Storage \<times> PendingObjectResult result" where
  "PutPendingSized env s attemptID key declaredBytes body now available now' commits =
     (case put_admit env s attemptID key declaredBytes now available of
        (s1, Inl e) \<Rightarrow> (s1, Inl e)
      | (s1, Inr (rid, generation)) \<Rightarrow>
         (case put_stream s1 rid [] body of
            (s2, Inl e) \<Rightarrow> (releasePendingReservation s2 rid, Inl e)
          | (s2, Inr bytes) \<Rightarrow>
             (case putLocked env s2 bytes of
                (s3, Inl e) \<Rightarrow> (releasePendingReservation s3 rid, Inl e)
              | (s3, Inr (blob, created)) \<Rightarrow>
                 (case resizePendingReservationLocked (capacityUsage (so_cache s3)) s3 rid (bl_Size blob) (bl_Size blob) available of
                    Inl e \<Rightarrow> (releasePendingReservation (cleanup_if created s3) rid, Inl e)
                  | Inr s4 \<Rightarrow>
                     (case put_record env s4 attemptID key generation blob created now' commits of
                        (s5, res) \<Rightarrow> (releasePendingReservation s5 rid, res))))))"

section \<open>Abort\<close>

record AbortResult =
  ab_Status :: AttemptStatus
  ab_Outcome :: string

definition AbortAttempt :: "environment \<Rightarrow> Storage \<Rightarrow> AbortAttemptRequest \<Rightarrow> int \<Rightarrow> bool \<Rightarrow> Storage \<times> AbortResult result" where
  "AbortAttempt env s q now commits =
     (let fingerprint = fingerprintValue env (json_abort env q) in
      if \<not> SharedStorage.identifierPattern (ar_RequestID q) \<or> \<not> SharedStorage.identifierPattern (ar_AttemptID q) \<or> ar_ExpectedStateVersion q < 1
      then (s, Inl ''abort Shared cache attempt: invalid request'')
      else if ar_Reason q \<notin> set abortReasons then (s, Inl ''abort Shared cache attempt: invalid reason'')
      else if so_closed s then (s, Inl ErrClosed)
      else case loadAttempt (so_cache s) (ar_AttemptID q) of
        Inl e \<Rightarrow> (s, Inl e)
      | Inr r \<Rightarrow>
          if as_State (rc_status r) = AttemptAborted
          then (if null_text (rc_terminalID r) \<noteq> ar_RequestID q \<or> null_text (rc_terminalFingerprint r) \<noteq> fingerprint
                then (s, Inl ErrIdempotencyConflict)
                else if commits then (s, Inr \<lparr>ab_Status = rc_status r, ab_Outcome = ''ALREADY_ABORTED''\<rparr>) else (s, Inl DatabaseError))
          else if as_State (rc_status r) \<noteq> AttemptPending then (s, Inl ErrAttemptConflict)
          else if as_StateVersion (rc_status r) \<noteq> ar_ExpectedStateVersion q then (s, Inl ErrStatePrecondition)
          else case abortAttemptTx r (ar_RequestID q) fingerprint (ar_Reason q) now (so_cache s) of
            Inl e \<Rightarrow> (s, Inl e)
          | Inr db \<Rightarrow>
              if \<not> commits then (s, Inl DatabaseError)
              else (cleanup_if (as_PendingObjectCount (rc_status r) > 0) (s\<lparr>so_cache := db\<rparr>),
                    and_then (loadAttempt db (ar_AttemptID q)) (\<lambda>r'. Inr \<lparr>ab_Status = rc_status r', ab_Outcome = ''ABORTED''\<rparr>)))"

definition abortRejectedAttempt ::
    "environment \<Rightarrow> Storage \<Rightarrow> attemptRecord \<Rightarrow> VerifiedCommitDecision \<Rightarrow> string \<Rightarrow> int \<Rightarrow> bool \<Rightarrow> Storage result" where
  "abortRejectedAttempt env s r verified reason now commits =
     and_then (abortAttemptTx r (cd_DecisionID (vd_decision verified)) (canonicalDocumentFingerprint env (vd_canonical verified))
         reason now (so_cache s)) (\<lambda>db.
       if commits then Inr (cleanup_if (as_PendingObjectCount (rc_status r) > 0) (s\<lparr>so_cache := db\<rparr>)) else Inl DatabaseError)"

section \<open>Quarantine\<close>

definition quarantinePendingRecord ::
    "environment \<Rightarrow> Storage \<Rightarrow> attemptRecord \<Rightarrow> string \<Rightarrow> string \<Rightarrow> Blob \<Rightarrow> error \<Rightarrow> int \<Rightarrow> bool \<Rightarrow> Storage \<times> error option" where
  "quarantinePendingRecord env s r decisionDigest terminalID blob verifyErr now commits =
     (let reason = classifyBlobFailure verifyErr; attemptID = as_AttemptID (rc_status r);
          moved = (if reason = ''CORRUPT'' then quarantine_blob s blob reason now else Inr (s, False)) in
      case moved of
        Inl e \<Rightarrow> (s, Some e)
      | Inr (s1, _) \<Rightarrow>
         (case and_then (insertQuarantineRecord (nullableString decisionDigest) (nullableString attemptID) blob reason now (so_cache s1))
                 (abortAttemptTx r terminalID (fingerprintValue env (json_quarantine env attemptID blob reason))
                    ''INCOMPLETE_COMMIT_DECISION'' now) of
            Inl e \<Rightarrow> (s1, Some e)
          | Inr db \<Rightarrow>
              if \<not> commits then (s1, Some DatabaseError)
              else (cleanup_if (as_PendingObjectCount (rc_status r) > 0) (s1\<lparr>so_cache := db\<rparr>), None)))"

definition object_blob :: "CommitObject \<Rightarrow> Blob" where
  "object_blob b = \<lparr>bl_Digest = co_Checksum b, bl_Size = co_SizeBytes b\<rparr>"

definition quarantinePendingFailure ::
    "environment \<Rightarrow> Storage \<Rightarrow> attemptRecord \<Rightarrow> VerifiedCommitDecision \<Rightarrow> CommitObject \<Rightarrow> error \<Rightarrow> int \<Rightarrow> bool \<Rightarrow> Storage \<times> error option" where
  "quarantinePendingFailure env s r verified object verifyErr now commits =
     quarantinePendingRecord env s r (cd_DecisionDigest (vd_decision verified)) (cd_DecisionID (vd_decision verified))
       (object_blob object) verifyErr now commits"

text \<open>The corrupt files move first; an error there leaves the database untouched.\<close>

fun quarantine_files :: "Storage \<Rightarrow> (Blob \<times> error) list \<Rightarrow> int \<Rightarrow> Storage \<times> error option" where
  "quarantine_files s [] now = (s, None)"
| "quarantine_files s ((blob, err) # rest) now =
     (if classifyBlobFailure err \<noteq> ''CORRUPT'' then quarantine_files s rest now
      else case quarantine_blob s blob ''CORRUPT'' now of
        Inl e \<Rightarrow> (s, Some e)
      | Inr (s', _) \<Rightarrow> quarantine_files s' rest now)"

fun quarantine_records :: "string \<Rightarrow> string option \<Rightarrow> (Blob \<times> error) list \<Rightarrow> int \<Rightarrow> cache_db \<Rightarrow> cache_db result" where
  "quarantine_records decisionDigest attemptID [] now db = Inr db"
| "quarantine_records decisionDigest attemptID ((blob, err) # rest) now db =
     and_then (insertQuarantineRecord (nullableString decisionDigest) attemptID blob (classifyBlobFailure err) now db)
       (quarantine_records decisionDigest attemptID rest now)"

definition delete_decision :: "string \<Rightarrow> cache_db \<Rightarrow> cache_db" where
  "delete_decision decisionDigest db =
     (let db1 = fst (delete_committed (\<lambda>c. cm_decision_digest c = decisionDigest) db) in
      db1\<lparr>db_decisions := filter (\<lambda>d. de_decision_digest d \<noteq> decisionDigest) (db_decisions db1)\<rparr>)"

definition invalidateDecision :: "Storage \<Rightarrow> string \<Rightarrow> (Blob \<times> error) list \<Rightarrow> int \<Rightarrow> bool \<Rightarrow> Storage \<times> nat result" where
  "invalidateDecision s decisionDigest invalidBlobs now commits =
     (case quarantine_files s invalidBlobs now of
        (s1, Some e) \<Rightarrow> (s1, Inl e)
      | (s1, None) \<Rightarrow>
          let attemptID = map_option de_attempt_id (find (\<lambda>d. de_decision_digest d = decisionDigest) (db_decisions (so_cache s1))) in
          case quarantine_records decisionDigest attemptID invalidBlobs now (so_cache s1) of
            Inl e \<Rightarrow> (s1, Inl e)
          | Inr db \<Rightarrow>
              if \<not> commits then (s1, Inl DatabaseError)
              else (s1\<lparr>so_cache := delete_decision decisionDigest db, so_blobCleanupPending := True\<rparr>, Inr (length invalidBlobs)))"

section \<open>Commit\<close>

record CommitResult =
  cr_AttemptID :: string
  cr_DecisionDigest :: string
  cr_Outcome :: string
  cr_ObjectCount :: nat
  cr_StateVersion :: int
  cr_CommittedAt :: int
  cr_AuditIndexed :: bool
  cr_RequiresReconcile :: bool

definition sameCommitObjects :: "CommitObject list \<Rightarrow> CommitObject list \<Rightarrow> bool" where
  "sameCommitObjects left right = (left = right)"

definition validateDecisionAgainstAttempt :: "CommitDecision \<Rightarrow> AttemptStatus \<Rightarrow> CommitObject list \<Rightarrow> error option" where
  "validateDecisionAgainstAttempt d st pending = first_err
     [reject_if (cd_AttemptID d \<noteq> as_AttemptID st \<or> cd_Repository d \<noteq> as_Repository st \<or> cd_SourceRevision d \<noteq> as_SourceRevision st \<or>
        cd_SourceStateDigest d \<noteq> as_SourceStateDigest st \<or> cd_PolicyDigest d \<noteq> as_PolicyDigest st \<or>
        cd_ConfigurationPolicyDigest d \<noteq> as_ConfigurationPolicyDigest st \<or> cd_CacheContractDigest d \<noteq> as_CacheContractDigest st \<or>
        length pending = 0 \<or> \<not> sameCommitObjects (cd_Objects d) pending) (rejected ''attempt binding or object coverage mismatch''),
      each_err (\<lambda>b. reject_if (co_NamespaceGeneration b \<noteq> as_NamespaceGeneration st) (rejected ''namespace generation mismatch'')) pending]"

fun first_unverified :: "environment \<Rightarrow> Storage \<Rightarrow> CommitObject list \<Rightarrow> (CommitObject \<times> error) option" where
  "first_unverified env s [] = None"
| "first_unverified env s (b # bs) =
     (case openVerified env s (object_blob b) of Inl e \<Rightarrow> Some (b, e) | Inr _ \<Rightarrow> first_unverified env s bs)"

definition indexDecision :: "Storage \<Rightarrow> string \<Rightarrow> int \<Rightarrow> bool \<Rightarrow> Storage \<times> bool" where
  "indexDecision s decisionDigest now indexes =
     (if \<not> indexes \<or> \<not> digest_column decisionDigest \<or> to_milli now < 0 then (s, False)
      else if map_of (so_audit s) decisionDigest \<noteq> None then (s, True)
      else (s\<lparr>so_audit := so_audit s @ [(decisionDigest, to_milli now)]\<rparr>, True))"

definition published_row :: "AttemptStatus \<Rightarrow> string \<Rightarrow> int \<Rightarrow> CommitObject \<Rightarrow> committed_row" where
  "published_row st decisionDigest now b =
     \<lparr>cm_tenant_id = rp_Tenant (as_Repository st), cm_namespace_generation = co_NamespaceGeneration b,
      cm_cache_key = co_Key b, cm_blob_digest = co_Checksum b, cm_size_bytes = co_SizeBytes b,
      cm_decision_digest = decisionDigest, cm_committed_at_unix_ms = to_milli now, cm_last_access_unix_ms = to_milli now\<rparr>"

definition published_entry :: "AttemptStatus \<Rightarrow> int \<Rightarrow> int \<Rightarrow> CommitObject \<Rightarrow> entry_row" where
  "published_entry st now stableTTL b =
     \<lparr>en_tenant_id = rp_Tenant (as_Repository st), en_namespace_generation = co_NamespaceGeneration b,
      en_cache_key = co_Key b, en_repository_id = rp_Repository (as_Repository st), en_trust_domain = rp_TrustDomain (as_Repository st),
      en_expires_at_unix_ms = to_milli (now + stableTTL), en_segment = PROBATION\<rparr>"

fun publish_loop :: "AttemptStatus \<Rightarrow> string \<Rightarrow> int \<Rightarrow> int \<Rightarrow> CommitObject list \<Rightarrow> cache_db \<Rightarrow> cache_db result" where
  "publish_loop st decisionDigest now stableTTL [] db = Inr db"
| "publish_loop st decisionDigest now stableTTL (b # bs) db =
     and_then (insert_committed (published_row st decisionDigest now b) db) (\<lambda>db1.
     and_then (insert_entry (published_entry st now stableTTL b) db1) (publish_loop st decisionDigest now stableTTL bs))"

definition object_exists :: "AttemptStatus \<Rightarrow> cache_db \<Rightarrow> CommitObject \<Rightarrow> bool" where
  "object_exists st db b =
     list_ex (\<lambda>c. committed_key c = (rp_Tenant (as_Repository st), co_NamespaceGeneration b, co_Key b)) (db_committed db)"

datatype commit_outcome = Lost cache_db nat | Published cache_db nat nat nat

text \<open>The serializable transaction of \<open>CommitAttempt\<close>.\<close>

definition commit_tx ::
    "environment \<Rightarrow> CapacityPolicy \<Rightarrow> int \<Rightarrow> VerifiedCommitDecision \<Rightarrow> int \<Rightarrow> cache_db \<Rightarrow> commit_outcome result" where
  "commit_tx env p expectedStateVersion verified now db =
     (let d = vd_decision verified; fingerprint = canonicalDocumentFingerprint env (vd_canonical verified) in
      and_then (loadAttempt db (cd_AttemptID d)) (\<lambda>r.
        let st = rc_status r; pending = pendingObjects db r in
        if as_State st \<noteq> AttemptPending \<or> as_StateVersion st \<noteq> expectedStateVersion then Inl ErrStatePrecondition
        else case validateDecisionAgainstAttempt d st pending of
          Some e \<Rightarrow> Inl e
        | None \<Rightarrow>
            if list_ex (object_exists st db) pending
            then and_then (abortAttemptTx r (cd_DecisionID d) fingerprint ''CAS_LOST'' now db) (\<lambda>db'. Inr (Lost db' (as_PendingObjectCount st)))
            else and_then (insert_decision \<lparr>de_decision_digest = cd_DecisionDigest d, de_attempt_id = cd_AttemptID d,
                     de_canonical_document = vd_canonical verified, de_committed_at_unix_ms = to_milli now\<rparr> db) (\<lambda>db1.
                 and_then (publish_loop st (cd_DecisionDigest d) now (cp_StableTTL p) pending db1) (\<lambda>db2.
                 and_then (enforceCommitCapacityTx p (attempt_scope st) (cd_DecisionDigest d) db2) (\<lambda>(db3, probation, protected).
                 and_then (sql_update attempt_checks
                     (\<lambda>a. at_attempt_id a = cd_AttemptID d \<and> at_state a = AttemptPending \<and> at_state_version a = expectedStateVersion)
                     (\<lambda>a. a\<lparr>at_state := AttemptCommitted, at_state_version := at_state_version a + 1,
                            at_terminal_id := Some (cd_DecisionID d), at_terminal_fingerprint := Some fingerprint,
                            at_decision_digest := Some (cd_DecisionDigest d), at_updated_at_unix_ms := to_milli now\<rparr>)
                     (db_attempts db3)) (\<lambda>(rs, _).
                   Inr (Published (delete_pending (\<lambda>q. pe_attempt_id q = cd_AttemptID d) (db3\<lparr>db_attempts := rs\<rparr>))
                     (length pending) probation protected)))))))"

definition replayCommit :: "Storage \<Rightarrow> attemptRecord \<Rightarrow> VerifiedCommitDecision \<Rightarrow> int \<Rightarrow> bool \<Rightarrow> Storage \<times> CommitResult result" where
  "replayCommit s r verified now indexes =
     (case find (\<lambda>d. de_attempt_id d = as_AttemptID (rc_status r)) (db_decisions (so_cache s)) of
        None \<Rightarrow> (s, Inl ErrCommitRejected)
      | Some row \<Rightarrow>
          if de_canonical_document row \<noteq> vd_canonical verified then (s, Inl ErrIdempotencyConflict)
          else let digest = cd_DecisionDigest (vd_decision verified);
                   (s', auditIndexed) = indexDecision s digest now indexes in
            (s', Inr \<lparr>cr_AttemptID = as_AttemptID (rc_status r), cr_DecisionDigest = digest, cr_Outcome = ''IDEMPOTENT_REPLAY'',
                 cr_ObjectCount = length (filter (\<lambda>c. cm_decision_digest c = digest) (db_committed (so_cache s))),
                 cr_StateVersion = as_StateVersion (rc_status r), cr_CommittedAt = from_milli (de_committed_at_unix_ms row),
                 cr_AuditIndexed = auditIndexed, cr_RequiresReconcile = \<not> auditIndexed\<rparr>))"

text \<open>The transaction and what follows its commit; evictions schedule a cleanup before the commit.\<close>

definition commit_publish ::
    "environment \<Rightarrow> Storage \<Rightarrow> int \<Rightarrow> VerifiedCommitDecision \<Rightarrow> int \<Rightarrow> bool \<Rightarrow> bool \<Rightarrow> Storage \<times> CommitResult result" where
  "commit_publish env s expectedStateVersion verified now commits indexes =
     (case commit_tx env (so_capacity s) expectedStateVersion verified now (so_cache s) of
        Inl e \<Rightarrow> (s, Inl e)
      | Inr (Lost db count) \<Rightarrow>
          if \<not> commits then (s, Inl DatabaseError) else (cleanup_if (count > 0) (s\<lparr>so_cache := db\<rparr>), Inl ErrCASLost)
      | Inr (Published db count probation protected) \<Rightarrow>
          let s1 = cleanup_if (probation > 0 \<or> protected > 0) s in
          if \<not> commits then (s1, Inl DatabaseError)
          else let digest = cd_DecisionDigest (vd_decision verified);
                   (s2, auditIndexed) = indexDecision (s1\<lparr>so_cache := db\<rparr>) digest now indexes in
            (s2, Inr \<lparr>cr_AttemptID = cd_AttemptID (vd_decision verified), cr_DecisionDigest = digest, cr_Outcome = ''COMMITTED'',
                 cr_ObjectCount = count, cr_StateVersion = expectedStateVersion + 1, cr_CommittedAt = now,
                 cr_AuditIndexed = auditIndexed, cr_RequiresReconcile = \<not> auditIndexed\<rparr>))"

text \<open>A rejected decision aborts its attempt and then reports the rejection.\<close>

definition reject_commit ::
    "environment \<Rightarrow> Storage \<Rightarrow> attemptRecord \<Rightarrow> VerifiedCommitDecision \<Rightarrow> string \<Rightarrow> error \<Rightarrow> int \<Rightarrow> bool \<Rightarrow> Storage \<times> CommitResult result" where
  "reject_commit env s r verified reason e now commits =
     (case abortRejectedAttempt env s r verified reason now commits of Inl e' \<Rightarrow> (s, Inl e') | Inr s' \<Rightarrow> (s', Inl e))"

definition CommitAttempt ::
    "environment \<Rightarrow> Storage \<Rightarrow> int \<Rightarrow> int \<Rightarrow> VerifiedCommitDecision \<Rightarrow> int \<Rightarrow> bool \<Rightarrow> bool \<Rightarrow> Storage \<times> CommitResult result" where
  "CommitAttempt env s expectedStateVersion currentRevocationEpoch verified now commits indexes =
     (let d = vd_decision verified in
      if expectedStateVersion < 1 \<or> vd_canonical verified = [] then (s, Inl ErrCommitRejected)
      else if so_closed s then (s, Inl ErrClosed)
      else case loadAttempt (so_cache s) (cd_AttemptID d) of
        Inl e \<Rightarrow> (s, Inl e)
      | Inr r \<Rightarrow>
          let st = rc_status r; pending = pendingObjects (so_cache s) r in
          if as_State st = AttemptCommitted then replayCommit s r verified now indexes
          else if as_State st = AttemptAborted \<and> null_text (rc_terminalID r) = cd_DecisionID d
          then (if null_text (rc_terminalFingerprint r) \<noteq> canonicalDocumentFingerprint env (vd_canonical verified)
                then (s, Inl ErrIdempotencyConflict)
                else if as_AbortReason st = ''CAS_LOST'' then (s, Inl ErrCASLost) else (s, Inl ErrCommitRejected))
          else if as_State st \<noteq> AttemptPending then (s, Inl ErrAttemptConflict)
          else if as_StateVersion st \<noteq> expectedStateVersion then (s, Inl ErrStatePrecondition)
          else if cd_RevocationEpoch d \<noteq> currentRevocationEpoch
          then reject_commit env s r verified ''POLICY_CHANGED'' ErrCommitRejected now commits
          else if \<not> as_LeaseExpiresAt st > now \<or> \<not> vd_expiresAt verified > now \<or> vd_issuedAt verified < as_CreatedAt st \<or>
                  vd_expiresAt verified > as_LeaseExpiresAt st
          then reject_commit env s r verified ''INCOMPLETE_COMMIT_DECISION'' ErrCommitRejected now commits
          else case validateDecisionAgainstAttempt d st pending of
            Some e \<Rightarrow> reject_commit env s r verified ''INCOMPLETE_COMMIT_DECISION'' e now commits
          | None \<Rightarrow>
             (case first_unverified env s pending of
                Some (object, verifyErr) \<Rightarrow>
                  (case quarantinePendingFailure env s r verified object verifyErr now commits of
                     (s', Some e) \<Rightarrow> (s', Inl e)
                   | (s', None) \<Rightarrow> (s', Inl (rejected ''pending object verification failed'')))
              | None \<Rightarrow> commit_publish env s expectedStateVersion verified now commits indexes))"

end
