(* ===== verification/SharedReads.thy ===== *)
theory SharedReads
  imports SharedAttempts
begin

text \<open>
  The read side of \<open>internal/sharedcache/lifecycle.go\<close> and the HTTP handler of \<open>http.go\<close>. \<open>OpenCommitted\<close> looks an
  object up and verifies its bytes under the read lock, and then, if metadata has to change, gives the lock up
  and finishes in a second critical section.
\<close>

section \<open>Lookup\<close>

record CommittedObject =
  ob_RepositoryTenant :: string
  ob_NamespaceGeneration :: int
  ob_Key :: string
  ob_Blob :: Blob
  ob_DecisionDigest :: string

definition object_of_row :: "committed_row \<Rightarrow> CommittedObject" where
  "object_of_row c =
     \<lparr>ob_RepositoryTenant = cm_tenant_id c, ob_NamespaceGeneration = cm_namespace_generation c, ob_Key = cm_cache_key c,
      ob_Blob = \<lparr>bl_Digest = cm_blob_digest c, bl_Size = cm_size_bytes c\<rparr>, ob_DecisionDigest = cm_decision_digest c\<rparr>"

text \<open>\<open>committed_objects JOIN commit_decisions JOIN storage_entries\<close> at one key\<close>

definition loadCommittedObjectReadLocked :: "cache_db \<Rightarrow> object_key \<Rightarrow> (CommittedObject \<times> segment \<times> int \<times> int) result" where
  "loadCommittedObjectReadLocked db k =
     (case find (\<lambda>(c, e). committed_key c = k \<and> list_ex (\<lambda>d. de_decision_digest d = cm_decision_digest c) (db_decisions db)) (stable_rows db) of
        None \<Rightarrow> Inl ErrCacheMiss
      | Some (c, e) \<Rightarrow> Inr (object_of_row c, en_segment e, cm_last_access_unix_ms c, en_expires_at_unix_ms e))"

definition deleteExpiredCommittedObjectLocked :: "Storage \<Rightarrow> object_key \<Rightarrow> int \<Rightarrow> Storage" where
  "deleteExpiredCommittedObjectLocked s k now =
     (let (db, deleted) = delete_committed (\<lambda>c. committed_key c = k \<and>
            list_ex (\<lambda>e. entry_key e = k \<and> en_expires_at_unix_ms e \<le> to_milli now) (db_entries (so_cache s))) (so_cache s) in
      cleanup_if (deleted > 0) (s\<lparr>so_cache := db\<rparr>))"

section \<open>Opening a committed object\<close>

text \<open>What the first critical section leaves to do.\<close>

datatype open_step =
    OpenFailed error
  | OpenExpired object_key int
  | OpenInvalid CommittedObject error
  | OpenDone string CommittedObject
  | OpenTouch string CommittedObject int
  | OpenPromote string CommittedObject

definition open_read :: "environment \<Rightarrow> Storage \<Rightarrow> string \<Rightarrow> int \<Rightarrow> string \<Rightarrow> int \<Rightarrow> open_step" where
  "open_read env s tenant ns key now =
     (if \<not> SharedStorage.identifierPattern tenant \<or> ns < 1 \<or> \<not> cacheKeyPattern key then OpenFailed ErrCacheMiss
      else if so_closed s then OpenFailed ErrClosed
      else case loadCommittedObjectReadLocked (so_cache s) (tenant, ns, key) of
        Inl e \<Rightarrow> OpenFailed e
      | Inr (object, g, lastAccess, expiresAt) \<Rightarrow>
          if expiresAt \<le> to_milli now then OpenExpired (tenant, ns, key) now
          else case openVerified env s (ob_Blob object) of
            Inl e \<Rightarrow> OpenInvalid object e
          | Inr bytes \<Rightarrow>
              if \<not> accessUpdateRequired s g lastAccess now then OpenDone bytes object
              else if g = PROTECTED then OpenTouch bytes object now else OpenPromote bytes object)"

definition access_key :: "CommittedObject \<Rightarrow> protectedAccessKey" where
  "access_key b = \<lparr>ak_tenant = ob_RepositoryTenant b, ak_namespaceGeneration = ob_NamespaceGeneration b, ak_key = ob_Key b,
     ak_blobDigest = bl_Digest (ob_Blob b), ak_sizeBytes = bl_Size (ob_Blob b), ak_decisionDigest = ob_DecisionDigest b\<rparr>"

definition object_key_of :: "CommittedObject \<Rightarrow> object_key" where
  "object_key_of b = (ob_RepositoryTenant b, ob_NamespaceGeneration b, ob_Key b)"

definition open_promote :: "Storage \<Rightarrow> string \<Rightarrow> CommittedObject \<Rightarrow> int \<Rightarrow> bool \<Rightarrow> Storage \<times> (string \<times> CommittedObject) result" where
  "open_promote s bytes object now commits =
     (let k = object_key_of object in
      case loadCommittedObjectReadLocked (so_cache s) k of
        Inl e \<Rightarrow> (s, Inl e)
      | Inr (current, g, lastAccess, expiresAt) \<Rightarrow>
          if expiresAt \<le> to_milli now then (deleteExpiredCommittedObjectLocked s k now, Inl ErrCacheMiss)
          else if current \<noteq> object then (s, Inl ErrCacheMiss)
          else case promoteAndBatchAccess s k g lastAccess now commits of
            Inl e \<Rightarrow> (s, Inl e) | Inr s' \<Rightarrow> (s', Inr (bytes, object)))"

fun open_finish :: "Storage \<Rightarrow> open_step \<Rightarrow> int \<Rightarrow> bool \<Rightarrow> Storage \<times> (string \<times> CommittedObject) result" where
  "open_finish s (OpenFailed e) now commits = (s, Inl e)"
| "open_finish s (OpenExpired k seen) now commits = (deleteExpiredCommittedObjectLocked s k seen, Inl ErrCacheMiss)"
| "open_finish s (OpenInvalid object e) now commits =
     (fst (invalidateDecision s (ob_DecisionDigest object) [(ob_Blob object, e)] now commits), Inl ErrCacheMiss)"
| "open_finish s (OpenDone bytes object) now commits = (s, Inr (bytes, object))"
| "open_finish s (OpenTouch bytes object seen) now commits = (batchProtectedAccess s (access_key object) seen, Inr (bytes, object))"
| "open_finish s (OpenPromote bytes object) now commits = open_promote s bytes object now commits"

text \<open>\<open>OpenCommitted\<close> when no other operation runs between its two sections.\<close>

definition OpenCommitted ::
    "environment \<Rightarrow> Storage \<Rightarrow> string \<Rightarrow> int \<Rightarrow> string \<Rightarrow> int \<Rightarrow> int \<Rightarrow> bool \<Rightarrow> Storage \<times> (string \<times> CommittedObject) result" where
  "OpenCommitted env s tenant ns key now now' commits = open_finish s (open_read env s tenant ns key now) now' commits"

definition OpenCommittedScoped ::
    "environment \<Rightarrow> Storage \<Rightarrow> string \<Rightarrow> string \<Rightarrow> string \<Rightarrow> int \<Rightarrow> string \<Rightarrow> int \<Rightarrow> int \<Rightarrow> bool \<Rightarrow>
      Storage \<times> (string \<times> CommittedObject) result" where
  "OpenCommittedScoped env s tenant repository trustDomain ns key now now' commits =
     (if \<not> SharedStorage.identifierPattern tenant \<or> \<not> SharedStorage.identifierPattern repository \<or>
         \<not> SharedStorage.identifierPattern trustDomain \<or> ns < 1 \<or> \<not> cacheKeyPattern key then (s, Inl ErrCacheMiss)
      else if so_closed s then (s, Inl ErrClosed)
      else if \<not> list_ex (\<lambda>e. entry_key e = (tenant, ns, key) \<and> en_repository_id e = repository \<and> en_trust_domain e = trustDomain)
                (db_entries (so_cache s)) then (s, Inl ErrCacheMiss)
      else OpenCommitted env s tenant ns key now now' commits)"

section \<open>HTTP\<close>

record HTTPBinding =
  hb_Tenant :: string
  hb_NamespaceGeneration :: int
  hb_PendingAttemptID :: string
  hb_AllowRead :: bool
  hb_AllowWrite :: bool

definition NewHTTPHandler :: "HTTPBinding \<Rightarrow> error option" where
  "NewHTTPHandler b = first_err
     [reject_if (\<not> SharedStorage.identifierPattern (hb_Tenant b) \<or> hb_NamespaceGeneration b < 1 \<or> (\<not> hb_AllowRead b \<and> \<not> hb_AllowWrite b))
        ''invalid Shared cache HTTP binding'',
      reject_if (hb_AllowWrite b \<and> \<not> SharedStorage.identifierPattern (hb_PendingAttemptID b))
        ''write-enabled Shared cache HTTP binding needs an attempt'',
      reject_if (\<not> hb_AllowWrite b \<and> hb_PendingAttemptID b \<noteq> []) ''read-only Shared cache HTTP binding cannot name an attempt'']"

record http_response =
  hr_status :: int
  hr_headers :: "(string \<times> string) list"
  hr_body :: string

definition writeCacheStatus :: "int \<Rightarrow> (string \<times> string) list \<Rightarrow> http_response" where
  "writeCacheStatus code headers = \<lparr>hr_status = code, hr_headers = headers @ [(''Content-Length'', ''0'')], hr_body = []\<rparr>"

definition cacheKeyFromPath :: "string \<Rightarrow> string option" where
  "cacheKeyFromPath path =
     (if \<not> hasPrefix ''/cache/'' path then None
      else let key = trimPrefix ''/cache/'' path in
        if CHR ''/'' \<in> set key \<or> \<not> cacheKeyPattern key then None else Some key)"

definition get_response :: "(string \<times> CommittedObject) result \<Rightarrow> http_response" where
  "get_response r =
     (case r of
        Inl e \<Rightarrow> if e = ErrCacheMiss then writeCacheStatus 404 [] else writeCacheStatus 503 []
      | Inr (bytes, object) \<Rightarrow>
          \<lparr>hr_status = 200,
           hr_headers = [(''Content-Type'', ''application/octet-stream''), (''Content-Length'', format_int (bl_Size (ob_Blob object))),
             (''ETag'', [CHR 0x22] @ bl_Digest (ob_Blob object) @ [CHR 0x22]), (''X-BuildOpt-Commit-State'', ''COMMITTED''),
             (''X-BuildOpt-Decision-Digest'', ob_DecisionDigest object)],
           hr_body = bytes\<rparr>)"

definition serveCommittedGET :: "environment \<Rightarrow> Storage \<Rightarrow> HTTPBinding \<Rightarrow> string \<Rightarrow> int \<Rightarrow> int \<Rightarrow> bool \<Rightarrow> Storage \<times> http_response" where
  "serveCommittedGET env s b key now now' commits =
     (let (s', r) = OpenCommitted env s (hb_Tenant b) (hb_NamespaceGeneration b) key now now' commits in (s', get_response r))"

definition put_error_status :: "error \<Rightarrow> int" where
  "put_error_status e =
     (if e = ErrBlobTooLarge \<or> e = ErrCapacityExceeded then 413
      else if e = ErrAttemptNotFound then 404
      else if e = ErrAttemptConflict \<or> e = ErrStatePrecondition then 409 else 503)"

definition put_response :: "PendingObjectResult result \<Rightarrow> http_response" where
  "put_response r =
     (case r of
        Inl e \<Rightarrow> writeCacheStatus (put_error_status e) []
      | Inr res \<Rightarrow> writeCacheStatus (if po_ObjectAdded res then 201 else 200) [(''X-BuildOpt-Blob-Digest'', co_Checksum (po_Object res))])"

text \<open>The clock readings are those of the status call, of its abort, and of the two sections of the put.\<close>

record clock =
  ck_status :: int
  ck_abort :: int
  ck_first :: int
  ck_second :: int

definition servePendingPUT ::
    "environment \<Rightarrow> Storage \<Rightarrow> HTTPBinding \<Rightarrow> string \<Rightarrow> int \<Rightarrow> (string \<times> int option) list \<Rightarrow> clock \<Rightarrow> int option \<Rightarrow> bool \<Rightarrow>
      Storage \<times> http_response" where
  "servePendingPUT env s b key contentLength body ck available commits =
     (case AttemptStatus_op env s (hb_PendingAttemptID b) (ck_status ck) (ck_abort ck) of
        (s1, Inl e) \<Rightarrow> (s1, writeCacheStatus (if e = ErrAttemptNotFound then 404 else 503) [])
      | (s1, Inr st) \<Rightarrow>
          if rp_Tenant (as_Repository st) \<noteq> hb_Tenant b \<or> as_NamespaceGeneration st \<noteq> hb_NamespaceGeneration b
          then (s1, writeCacheStatus 403 [])
          else if as_State st \<noteq> AttemptPending then (s1, writeCacheStatus 409 [])
          else if contentLength > so_maximumBlobBytes s1 then (s1, writeCacheStatus 413 [])
          else let (s2, r) = PutPendingSized env s1 (hb_PendingAttemptID b) key contentLength body (ck_first ck) available (ck_second ck) commits in
            (s2, put_response r))"

definition serveBoundCacheHTTP ::
    "environment \<Rightarrow> Storage \<Rightarrow> HTTPBinding \<Rightarrow> string \<Rightarrow> string \<Rightarrow> int \<Rightarrow> (string \<times> int option) list \<Rightarrow> clock \<Rightarrow> int option \<Rightarrow> bool \<Rightarrow>
      Storage \<times> http_response" where
  "serveBoundCacheHTTP env s b method path contentLength body ck available commits =
     (case cacheKeyFromPath path of
        None \<Rightarrow> (s, writeCacheStatus 404 [])
      | Some key \<Rightarrow>
          if method = ''GET'' then
            (if \<not> hb_AllowRead b then (s, writeCacheStatus 403 []) else serveCommittedGET env s b key (ck_first ck) (ck_second ck) commits)
          else if method = ''PUT'' then
            (if \<not> hb_AllowWrite b then (s, writeCacheStatus 403 []) else servePendingPUT env s b key contentLength body ck available commits)
          else (s, writeCacheStatus 405 [(''Allow'', ''GET, PUT'')]))"

end
