(* ===== verification/SharedReconcile.thy ===== *)
theory SharedReconcile
  imports SharedReads
begin

text \<open>
  \<open>internal/sharedcache/reconcile.go\<close> and the maintenance cycle of \<open>capacity.go\<close>. Both run under the exclusive
  reconciliation and lifecycle mutexes, so each is one step of the system. The transactions of a run commit; a
  constraint failure ends the run and keeps what the finished transactions did. \<open>completed\<close> is the clock at the end.
\<close>

section \<open>Expired attempts\<close>

fun expire_loop :: "environment \<Rightarrow> int \<Rightarrow> string list \<Rightarrow> cache_db \<Rightarrow> cache_db result" where
  "expire_loop env now [] db = Inr db"
| "expire_loop env now (attemptID # rest) db =
     and_then (loadAttempt db attemptID) (\<lambda>r. and_then (abortExpiredAttempt env r now db) (expire_loop env now rest))"

definition expired_ids :: "int \<Rightarrow> cache_db \<Rightarrow> string list" where
  "expired_ids now db =
     sort (map at_attempt_id (filter (\<lambda>a. at_state a = AttemptPending \<and> at_lease_expires_at_unix_ms a \<le> to_milli now) (db_attempts db)))"

definition expirePendingAttempts :: "environment \<Rightarrow> Storage \<Rightarrow> int \<Rightarrow> (Storage \<times> nat) result" where
  "expirePendingAttempts env s now =
     (let ids = expired_ids now (so_cache s) in
      and_then (expire_loop env now ids (so_cache s)) (\<lambda>db. Inr (s\<lparr>so_cache := db\<rparr>, length ids)))"

section \<open>Objects whose bytes are gone or wrong\<close>

definition pending_candidates :: "cache_db \<Rightarrow> (string \<times> Blob) list" where
  "pending_candidates db =
     map (\<lambda>(p, a). (pe_attempt_id p, \<lparr>bl_Digest = pe_blob_digest p, bl_Size = pe_size_bytes p\<rparr>))
       (sort_key (\<lambda>(p, a). pending_key p) (pending_rows db))"

fun pending_loop ::
    "environment \<Rightarrow> int \<Rightarrow> (string \<times> Blob) list \<Rightarrow> string list \<Rightarrow> nat \<Rightarrow> Storage \<Rightarrow> Storage \<times> nat result" where
  "pending_loop env now [] processed quarantined s = (s, Inr quarantined)"
| "pending_loop env now ((attemptID, blob) # rest) processed quarantined s =
     (if attemptID \<in> set processed then pending_loop env now rest processed quarantined s
      else case openVerified env s blob of
        Inr _ \<Rightarrow> pending_loop env now rest processed quarantined s
      | Inl verifyErr \<Rightarrow>
         (case loadAttempt (so_cache s) attemptID of
            Inl e \<Rightarrow> (s, Inl e)
          | Inr r \<Rightarrow>
              if as_State (rc_status r) \<noteq> AttemptPending then pending_loop env now rest processed quarantined s
              else case quarantinePendingRecord env s r [] ''reconcile:invalid-pending'' blob verifyErr now True of
                (s', Some e) \<Rightarrow> (s', Inl e)
              | (s', None) \<Rightarrow> pending_loop env now rest (attemptID # processed) (Suc quarantined) s'))"

definition reconcilePendingObjects :: "environment \<Rightarrow> Storage \<Rightarrow> int \<Rightarrow> Storage \<times> nat result" where
  "reconcilePendingObjects env s now = pending_loop env now (pending_candidates (so_cache s)) [] 0 s"

definition row_blob :: "committed_row \<Rightarrow> Blob" where
  "row_blob c = \<lparr>bl_Digest = cm_blob_digest c, bl_Size = cm_size_bytes c\<rparr>"

text \<open>
  The rows that do not verify, grouped by decision. The decisions are visited in ascending order; Go visits the
  map in some order, and since the rows of different decisions are disjoint every order ends in the same tables.
\<close>

definition invalid_rows :: "environment \<Rightarrow> Storage \<Rightarrow> (string \<times> Blob \<times> error) list" where
  "invalid_rows env s =
     List.map_filter (\<lambda>c. case openVerified env s (row_blob c) of Inl e \<Rightarrow> Some (cm_decision_digest c, row_blob c, e) | Inr _ \<Rightarrow> None)
       (sort_key (\<lambda>c. (cm_decision_digest c, committed_key c)) (db_committed (so_cache s)))"

fun invalidate_loop ::
    "int \<Rightarrow> (string \<times> Blob \<times> error) list \<Rightarrow> string list \<Rightarrow> nat \<Rightarrow> Storage \<Rightarrow> Storage \<times> nat result" where
  "invalidate_loop now invalid [] quarantined s = (s, Inr quarantined)"
| "invalidate_loop now invalid (decision # rest) quarantined s =
     (case invalidateDecision s decision (map snd (filter (\<lambda>i. fst i = decision) invalid)) now True of
        (s', Inl e) \<Rightarrow> (s', Inl e)
      | (s', Inr count) \<Rightarrow> invalidate_loop now invalid rest (quarantined + count) s')"

definition reconcileCommittedObjects :: "environment \<Rightarrow> Storage \<Rightarrow> int \<Rightarrow> Storage \<times> (nat \<times> nat) result" where
  "reconcileCommittedObjects env s now =
     (let invalid = invalid_rows env s; decisions = remdups (map fst invalid) in
      case invalidate_loop now invalid decisions 0 s of
        (s', Inl e) \<Rightarrow> (s', Inl e)
      | (s', Inr quarantined) \<Rightarrow> (s', Inr (length decisions, quarantined)))"

section \<open>The audit index and the orphaned blobs\<close>

fun repair_loop :: "int \<Rightarrow> string list \<Rightarrow> nat \<Rightarrow> Storage \<Rightarrow> Storage \<times> nat result" where
  "repair_loop now [] repaired s = (s, Inr repaired)"
| "repair_loop now (digest # rest) repaired s =
     (if map_of (so_audit s) digest \<noteq> None then repair_loop now rest repaired s
      else if \<not> digest_column digest \<or> to_milli now < 0 then (s, Inl CheckFailed)
      else repair_loop now rest (Suc repaired) (s\<lparr>so_audit := so_audit s @ [(digest, to_milli now)]\<rparr>))"

definition repairAuditIndex :: "Storage \<Rightarrow> int \<Rightarrow> Storage \<times> nat result" where
  "repairAuditIndex s now = repair_loop now (sort (map de_decision_digest (db_decisions (so_cache s)))) 0 s"

definition referenced :: "Storage \<Rightarrow> string set" where
  "referenced s = set (map pe_blob_digest (db_pending (so_cache s))) \<union> set (map cm_blob_digest (db_committed (so_cache s))) \<union>
     set (so_state_digests s)"

definition deleteOrphanBlobs :: "Storage \<Rightarrow> Storage \<times> nat" where
  "deleteOrphanBlobs s =
     (s\<lparr>so_blobs := filter (\<lambda>b. fst b \<in> referenced s) (so_blobs s)\<rparr>, length (filter (\<lambda>b. fst b \<notin> referenced s) (so_blobs s)))"

section \<open>Reconciliation\<close>

definition recordReconciliation :: "Storage \<Rightarrow> ReconciliationReport \<Rightarrow> Storage result" where
  "recordReconciliation s r =
     (if to_milli (rr_StartedAt r) < 0 \<or> to_milli (rr_CompletedAt r) < to_milli (rr_StartedAt r) then Inl CheckFailed
      else Inr (s\<lparr>so_reconciliation_runs := so_reconciliation_runs s @ [r]\<rparr>))"

definition reconcile :: "environment \<Rightarrow> Storage \<Rightarrow> int \<Rightarrow> int \<Rightarrow> Storage \<times> ReconciliationReport result" where
  "reconcile env s startedAt completed =
     (case expirePendingAttempts env s startedAt of
        Inl e \<Rightarrow> (s, Inl e)
      | Inr (s1, expired) \<Rightarrow>
       (case reconcilePendingObjects env s1 startedAt of
          (s2, Inl e) \<Rightarrow> (s2, Inl e)
        | (s2, Inr quarantinedPending) \<Rightarrow>
         (case reconcileCommittedObjects env s2 startedAt of
            (s3, Inl e) \<Rightarrow> (s3, Inl e)
          | (s3, Inr (invalidated, quarantinedCommitted)) \<Rightarrow>
           (case repairAuditIndex s3 startedAt of
              (s4, Inl e) \<Rightarrow> (s4, Inl e)
            | (s4, Inr repaired) \<Rightarrow>
                let (s5, deleted) = deleteOrphanBlobs s4;
                    report = \<lparr>rr_StartedAt = startedAt, rr_CompletedAt = max completed startedAt, rr_ExpiredAttempts = expired,
                      rr_InvalidatedDecisions = invalidated, rr_QuarantinedBlobs = quarantinedPending + quarantinedCommitted,
                      rr_DeletedOrphanBlobs = deleted, rr_RepairedAuditRows = repaired\<rparr> in
                case recordReconciliation s5 report of Inl e \<Rightarrow> (s5, Inl e) | Inr s6 \<Rightarrow> (s6, Inr report)))))"

definition Reconcile :: "environment \<Rightarrow> Storage \<Rightarrow> int \<Rightarrow> int \<Rightarrow> Storage \<times> ReconciliationReport result" where
  "Reconcile env s now completed = (if so_closed s then (s, Inl ErrClosed) else reconcile env s now completed)"

section \<open>Maintenance\<close>

text \<open>\<open>strconv.ParseInt(s, 10, 64)\<close>\<close>

definition parse_digits :: "string \<Rightarrow> int option" where
  "parse_digits s = (if s = [] \<or> \<not> list_all is_digit s then None else Some (foldl (\<lambda>n c. 10 * n + (of_char c - 48)) 0 s))"

definition parse_int64 :: "string \<Rightarrow> int option" where
  "parse_int64 s =
     (let v = (case s of
          [] \<Rightarrow> None
        | c # cs \<Rightarrow> if c = CHR ''-'' then map_option uminus (parse_digits cs)
                    else if c = CHR ''+'' then parse_digits cs else parse_digits s) in
      case v of None \<Rightarrow> None | Some n \<Rightarrow> if n < -9223372036854775808 \<or> n > 9223372036854775807 then None else Some n)"

text \<open>The files are visited by name; the first name that is not a quarantine name ends the loop.\<close>

fun expire_files :: "int \<Rightarrow> string list \<Rightarrow> (string \<times> string) list \<Rightarrow> (string \<times> string) list \<times> error option" where
  "expire_files cutoff [] files = (files, None)"
| "expire_files cutoff (name # rest) files =
     (let parts = split_on (CHR ''.'') name in
      if length parts < 3 then (files, Some ''unexpected quarantine entry'')
      else case parse_int64 (parts ! 1) of
        None \<Rightarrow> (files, Some ''unexpected quarantine entry'')
      | Some millis \<Rightarrow>
          if millis > cutoff then expire_files cutoff rest files
          else expire_files cutoff rest (filter (\<lambda>f. fst f \<noteq> name) files))"

definition deleteExpiredQuarantineFiles :: "Storage \<Rightarrow> int \<Rightarrow> Storage \<times> error option" where
  "deleteExpiredQuarantineFiles s now =
     (let cutoff = to_milli (now - cp_QuarantineTTL (so_capacity s));
          (files, e) = expire_files cutoff (sort (map fst (so_quarantine_files s))) (so_quarantine_files s) in
      (s\<lparr>so_quarantine_files := files\<rparr>, e))"

definition capacityMaintenanceChanged :: "CapacityMaintenanceReport \<Rightarrow> bool" where
  "capacityMaintenanceChanged r =
     (mr_ExpiredObjects r > 0 \<or> mr_EvictedProbation r > 0 \<or> mr_EvictedProtected r > 0 \<or> mr_DemotedProtected r > 0 \<or>
      mr_ExpiredAttempts r > 0 \<or> mr_ExpiredQuarantine r > 0 \<or> mr_DeletedUnreferencedBlob r > 0)"

definition recordCapacityMaintenance :: "Storage \<Rightarrow> CapacityMaintenanceReport \<Rightarrow> Storage result" where
  "recordCapacityMaintenance s r =
     (if to_milli (mr_StartedAt r) < 0 \<or> to_milli (mr_CompletedAt r) < to_milli (mr_StartedAt r) \<or> mr_StableBytesBefore r < 0 \<or>
         mr_StableBytesAfter r < 0 then Inl CheckFailed
      else Inr (s\<lparr>so_maintenance_runs := so_maintenance_runs s @ [r]\<rparr>))"

text \<open>The logical transaction: expiry, watermark, protected target and quarantine records.\<close>

definition maintain_tx :: "CapacityPolicy \<Rightarrow> int \<Rightarrow> cache_db \<Rightarrow> (cache_db \<times> nat \<times> nat \<times> nat \<times> nat \<times> nat) result" where
  "maintain_tx p now db =
     (let (db1, expired) = deleteExpiredEntries now db in
      and_then (enforceWatermarkTx p no_scope [] db1) (\<lambda>(db2, probation, protected).
        let (db3, demoted) = enforceProtectedTargetTx p db2;
            (db4, expiredQuarantine) = expireQuarantineTx p now db3 in
        Inr (db4, expired, probation, protected, demoted, expiredQuarantine)))"

definition sweep_blobs :: "Storage \<Rightarrow> Storage \<times> nat" where
  "sweep_blobs s =
     (if so_blobCleanupPending s
      then let (s', deleted) = deleteOrphanBlobs s in (s'\<lparr>so_blobCleanupPending := False\<rparr>, deleted) else (s, 0))"

definition sweep_quarantine :: "Storage \<Rightarrow> int \<Rightarrow> Storage \<times> error option" where
  "sweep_quarantine s now =
     (if so_quarantineCleanupPending s
      then case deleteExpiredQuarantineFiles s now of
          (s', Some e) \<Rightarrow> (s', Some e) | (s', None) \<Rightarrow> (s'\<lparr>so_quarantineCleanupPending := False\<rparr>, None)
      else (s, None))"

definition maintainCapacityLocked :: "environment \<Rightarrow> Storage \<Rightarrow> int \<Rightarrow> int \<Rightarrow> Storage \<times> CapacityMaintenanceReport result" where
  "maintainCapacityLocked env s now completed =
     (case expirePendingAttempts env s now of
        Inl e \<Rightarrow> (s, Inl e)
      | Inr (s1, expiredAttempts) \<Rightarrow>
       (case maintain_tx (so_capacity s1) now (so_cache s1) of
          Inl e \<Rightarrow> (s1, Inl e)
        | Inr (db, expired, probation, protected, demoted, expiredQuarantine) \<Rightarrow>
            let s2 = cleanup_if (expired > 0 \<or> probation > 0 \<or> protected > 0 \<or> expiredAttempts > 0) (s1\<lparr>so_cache := db\<rparr>);
                (s3, deleted) = sweep_blobs s2;
                s4 = (if expiredQuarantine > 0 then s3\<lparr>so_quarantineCleanupPending := True\<rparr> else s3) in
            case sweep_quarantine s4 now of
              (s5, Some e) \<Rightarrow> (s5, Inl e)
            | (s5, None) \<Rightarrow>
                let report = \<lparr>mr_StartedAt = now, mr_CompletedAt = max completed now,
                      mr_StableBytesBefore = us_stableBytes (capacityUsage (so_cache s1) no_scope),
                      mr_StableBytesAfter = us_stableBytes (capacityUsage db no_scope), mr_ExpiredObjects = expired,
                      mr_EvictedProbation = probation, mr_EvictedProtected = protected, mr_DemotedProtected = demoted,
                      mr_ExpiredAttempts = expiredAttempts, mr_ExpiredQuarantine = expiredQuarantine,
                      mr_DeletedUnreferencedBlob = deleted\<rparr> in
                if capacityMaintenanceChanged report
                then (case recordCapacityMaintenance s5 report of Inl e \<Rightarrow> (s5, Inl e) | Inr s6 \<Rightarrow> (s6, Inr report))
                else (s5, Inr report)))"

definition MaintainCapacity :: "environment \<Rightarrow> Storage \<Rightarrow> int \<Rightarrow> int \<Rightarrow> Storage \<times> CapacityMaintenanceReport result" where
  "MaintainCapacity env s now completed =
     (if so_closed s then (s, Inl ErrClosed) else maintainCapacityLocked env s now completed)"

section \<open>Opening and closing the storage\<close>

text \<open>
  A process that ends keeps the databases and the files and loses the fields of \<open>Storage\<close>. \<open>boundary\<close> is the
  namespace generation of the managed lifecycle, \<open>ds\<close> are the blob digests that the typed state still refers to
  after its own maintenance, and a storage whose opening fails is closed.
\<close>

definition crashed :: "Storage \<Rightarrow> Storage" where
  "crashed disk = disk\<lparr>so_closed := True, so_reservations := [], so_blobCleanupPending := False, so_quarantineCleanupPending := False,
     so_currentAccessBatch := None, so_protectedAccessError := False\<rparr>"

definition zeroCapacityPolicy :: CapacityPolicy where
  "zeroCapacityPolicy = \<lparr>cp_DeploymentBytes = 0, cp_RepositoryBytes = 0, cp_PendingQuarantineBytes = 0, cp_StableTTL = 0,
     cp_QuarantineTTL = 0, cp_HighWatermarkPercent = 0, cp_LowWatermarkPercent = 0, cp_ProtectedPercent = 0,
     cp_AccessUpdateInterval = 0\<rparr>"

definition open_policy :: "int \<Rightarrow> CapacityPolicy \<Rightarrow> int result \<Rightarrow> CapacityPolicy result" where
  "open_policy maximumBlobBytes capacity disk_total =
     (if maximumBlobBytes < 1 \<or> maximumBlobBytes > MaximumBlobBytes
      then Inl ''open single-node Shared storage: invalid maximum blob size''
      else and_then (if capacity = zeroCapacityPolicy then defaultCapacityPolicy disk_total maximumBlobBytes else Inr capacity) (\<lambda>p.
        if validateCapacityPolicy p maximumBlobBytes then Inr p
        else Inl ''open single-node Shared storage: invalid capacity''))"

definition openWithConfiguration ::
    "environment \<Rightarrow> int \<Rightarrow> CapacityPolicy \<Rightarrow> int result \<Rightarrow> int \<Rightarrow> string list \<Rightarrow> Storage \<Rightarrow> int \<times> int \<Rightarrow> int \<times> int \<Rightarrow>
      Storage \<times> error option" where
  "openWithConfiguration env maximumBlobBytes capacity disk_total boundary ds disk first second =
     (case open_policy maximumBlobBytes capacity disk_total of
        Inl e \<Rightarrow> (disk, Some e)
      | Inr p \<Rightarrow>
         (case applyCapacityPolicy p (so_cache disk) of
            Inl e \<Rightarrow> (disk, Some e)
          | Inr db \<Rightarrow>
              let s = (crashed disk)\<lparr>so_closed := False, so_cache := db, so_state_digests := ds, so_maximumBlobBytes := maximumBlobBytes,
                    so_capacity := p, so_minimumNamespaceGeneration := boundary\<rparr> in
              case reconcile env s (fst first) (snd first) of
                (s1, Inl e) \<Rightarrow> (crashed s1, Some e)
              | (s1, Inr _) \<Rightarrow>
                 (case maintainCapacityLocked env s1 (fst second) (snd second) of
                    (s2, Inl e) \<Rightarrow> (crashed s2, Some e)
                  | (s2, Inr _) \<Rightarrow> (s2, None))))"

text \<open>The first close reports the error of the access batches.\<close>

definition Close_op :: "Storage \<Rightarrow> Storage \<times> bool" where
  "Close_op s = (if so_closed s then (s, False) else (s\<lparr>so_closed := True\<rparr>, so_protectedAccessError s))"

end
