(* ===== verification/SharedFacts.thy ===== *)
theory SharedFacts
  imports SharedReconcile
begin

text \<open>
  What the operations of the Shared storage do to the tables: the invariant of the database, the effect of
  every deletion and of the eviction loops as the removal of a set of keys, and the effect of a commit.
\<close>

section \<open>The invariant of the database\<close>

definition attempts_ok :: "cache_db \<Rightarrow> bool" where
  "attempts_ok db = (distinct (map at_attempt_id (db_attempts db)) \<and> (\<forall>a\<in>set (db_attempts db). attempt_checks a))"

definition pending_ok :: "cache_db \<Rightarrow> bool" where
  "pending_ok db = (distinct (map pending_key (db_pending db)) \<and>
     (\<forall>p\<in>set (db_pending db). pending_checks p \<and>
        (\<exists>a\<in>set (db_attempts db). at_attempt_id a = pe_attempt_id p \<and> at_state a = AttemptPending)))"

definition committed_ok :: "cache_db \<Rightarrow> bool" where
  "committed_ok db = (distinct (map committed_key (db_committed db)) \<and> distinct (map entry_key (db_entries db)) \<and>
     set (map entry_key (db_entries db)) = set (map committed_key (db_committed db)) \<and>
     (\<forall>c\<in>set (db_committed db). committed_checks c))"

definition decisions_ok :: "cache_db \<Rightarrow> bool" where
  "decisions_ok db = (distinct (map de_decision_digest (db_decisions db)) \<and> distinct (map de_attempt_id (db_decisions db)) \<and>
     set (map cm_decision_digest (db_committed db)) \<subseteq> set (map de_decision_digest (db_decisions db)) \<and>
     (\<forall>d\<in>set (db_decisions db). \<exists>a\<in>set (db_attempts db). at_attempt_id a = de_attempt_id d \<and> at_state a = AttemptCommitted \<and>
        at_decision_digest a = Some (de_decision_digest d)))"

definition quarantine_ok :: "cache_db \<Rightarrow> bool" where
  "quarantine_ok db = (\<forall>q\<in>set (db_quarantine db). quarantine_checks q)"

definition db_ok :: "cache_db \<Rightarrow> bool" where
  "db_ok db = (attempts_ok db \<and> pending_ok db \<and> committed_ok db \<and> decisions_ok db \<and> quarantine_ok db)"

lemmas db_ok_defs = db_ok_def attempts_ok_def pending_ok_def committed_ok_def decisions_ok_def quarantine_ok_def

section \<open>Statements\<close>

lemma list_ex_key: "list_ex (\<lambda>x. f x = k) xs \<longleftrightarrow> k \<in> f ` set xs"
  by (auto simp: list_ex_iff)

lemma sql_insert_Inr: "sql_insert ok key r rs = Inr rs' \<longleftrightarrow> ok r \<and> key r \<notin> key ` set rs \<and> rs' = rs @ [r]"
  by (auto simp: sql_insert_def list_ex_key)

lemma sql_update_Inr:
  "sql_update ok sel f rs = Inr (rs', n) \<longleftrightarrow>
     (\<forall>r\<in>set rs. sel r \<longrightarrow> ok (f r)) \<and> rs' = map (\<lambda>r. if sel r then f r else r) rs \<and> n = length (filter sel rs)"
  by (auto simp: sql_update_def list_ex_iff)

lemma distinct_key_eq: "distinct (map f xs) \<Longrightarrow> x \<in> set xs \<Longrightarrow> y \<in> set xs \<Longrightarrow> f x = f y \<Longrightarrow> x = y"
  by (auto simp: distinct_map dest: inj_onD)

lemma attempt_of_Some:
  assumes "attempt_of db i = Some a"
  shows "a \<in> set (db_attempts db)" "at_attempt_id a = i"
  using assms by (auto simp: attempt_of_def find_Some_iff)

lemma attempt_of_iff:
  assumes "distinct (map at_attempt_id (db_attempts db))"
  shows "attempt_of db i = Some a \<longleftrightarrow> a \<in> set (db_attempts db) \<and> at_attempt_id a = i"
proof
  assume "a \<in> set (db_attempts db) \<and> at_attempt_id a = i"
  moreover obtain b where "attempt_of db i = Some b"
    using calculation by (cases "attempt_of db i") (auto simp: attempt_of_def find_None_iff)
  ultimately show "attempt_of db i = Some a"
    using attempt_of_Some [of db i b] assms by (auto simp: distinct_map dest: inj_onD)
qed (auto dest: attempt_of_Some)

lemma loadAttempt_Inr:
  "loadAttempt db i = Inr r \<longleftrightarrow> (\<exists>a. attempt_of db i = Some a \<and>
     r = \<lparr>rc_status = status_of_row db a, rc_requestFingerprint = at_request_fingerprint a,
          rc_terminalID = at_terminal_id a, rc_terminalFingerprint = at_terminal_fingerprint a\<rparr>)"
  by (auto simp: loadAttempt_def split: option.splits)

lemma status_of_row_simps [simp]:
  "as_AttemptID (status_of_row db a) = at_attempt_id a" "as_State (status_of_row db a) = at_state a"
  "as_StateVersion (status_of_row db a) = at_state_version a" "as_NamespaceGeneration (status_of_row db a) = at_namespace_generation a"
  "rp_Tenant (as_Repository (status_of_row db a)) = at_tenant_id a"
  "rp_Repository (as_Repository (status_of_row db a)) = at_repository_id a"
  "rp_TrustDomain (as_Repository (status_of_row db a)) = at_trust_domain a"
  by (simp_all add: status_of_row_def)

section \<open>Removing keys\<close>

text \<open>Every deletion from \<open>committed_objects\<close> removes the rows and entries of a set of keys.\<close>

definition drop_keys :: "object_key set \<Rightarrow> cache_db \<Rightarrow> cache_db" where
  "drop_keys K db = db\<lparr>db_committed := filter (\<lambda>c. committed_key c \<notin> K) (db_committed db),
     db_entries := filter (\<lambda>e. entry_key e \<notin> K) (db_entries db)\<rparr>"

lemma drop_keys_simps [simp]:
  "db_attempts (drop_keys K db) = db_attempts db" "db_pending (drop_keys K db) = db_pending db"
  "db_decisions (drop_keys K db) = db_decisions db" "db_authorities (drop_keys K db) = db_authorities db"
  "db_quarantine (drop_keys K db) = db_quarantine db"
  "db_committed (drop_keys K db) = filter (\<lambda>c. committed_key c \<notin> K) (db_committed db)"
  "db_entries (drop_keys K db) = filter (\<lambda>e. entry_key e \<notin> K) (db_entries db)"
  by (simp_all add: drop_keys_def)

lemma drop_keys_empty [simp]: "drop_keys {} db = db"
  by (simp add: drop_keys_def)

lemma drop_keys_Un [simp]: "drop_keys K (drop_keys L db) = drop_keys (K \<union> L) db"
  by (simp add: drop_keys_def conj_commute)

lemma delete_committed_drop:
  assumes "distinct (map committed_key (db_committed db))"
  shows "fst (delete_committed sel db) = drop_keys (committed_key ` {c \<in> set (db_committed db). sel c}) db"
proof -
  have "filter (\<lambda>c. \<not> sel c) (db_committed db) =
      filter (\<lambda>c. committed_key c \<notin> committed_key ` {c \<in> set (db_committed db). sel c}) (db_committed db)"
    using assms by (intro filter_cong) (auto simp: distinct_map dest: inj_onD)
  then show ?thesis by (simp add: delete_committed_def drop_keys_def Let_def)
qed

lemma delete_committed_key:
  "fst (delete_committed (\<lambda>x. committed_key x = k) db) = drop_keys (if k \<in> committed_key ` set (db_committed db) then {k} else {}) db"
proof -
  have *: "committed_key ` {x \<in> set (db_committed db). committed_key x = k} = (if k \<in> committed_key ` set (db_committed db) then {k} else {})"
    by auto
  have "filter (\<lambda>c. committed_key c \<noteq> k) (db_committed db) =
      filter (\<lambda>c. committed_key c \<notin> (if k \<in> committed_key ` set (db_committed db) then {k} else {})) (db_committed db)"
    by (intro filter_cong) auto
  with * show ?thesis by (simp add: delete_committed_def drop_keys_def Let_def)
qed

lemma distinct_map_filter_keys: "distinct (map f xs) \<Longrightarrow> distinct (map f (filter P xs))"
  by (simp add: distinct_map inj_on_def)

lemma image_minus_keys: "f ` {x \<in> S. f x \<notin> K} = f ` S - K"
  by auto

lemma drop_keys_ok:
  assumes "db_ok db"
  shows "db_ok (drop_keys K db)"
proof -
  from assms have "attempts_ok (drop_keys K db)" "pending_ok (drop_keys K db)" "quarantine_ok (drop_keys K db)"
    by (simp_all add: db_ok_def attempts_ok_def pending_ok_def quarantine_ok_def)
  moreover have "committed_ok (drop_keys K db)"
    using assms unfolding db_ok_def committed_ok_def by (simp add: distinct_map_filter_keys image_minus_keys)
  moreover have "decisions_ok (drop_keys K db)"
    using assms unfolding db_ok_def decisions_ok_def by (simp add: distinct_map_filter_keys) blast
  ultimately show ?thesis by (simp add: db_ok_def)
qed


section \<open>Eviction removes keys\<close>

lemma evict_loop_drop:
  obtains K where "K \<subseteq> committed_key ` fst ` set cs" "fst (evict_loop cs toFree a b db) = drop_keys K db"
proof -
  have "\<exists>K. K \<subseteq> committed_key ` fst ` set cs \<and> fst (evict_loop cs toFree a b db) = drop_keys K db"
  proof (induction cs toFree a b db rule: evict_loop.induct)
    case (1 toFree a b db)
    show ?case by (intro exI [of _ "{}"]) simp
  next
    case (2 c e cs toFree a b db)
    let ?k = "committed_key c"
    let ?db' = "fst (delete_committed (\<lambda>x. committed_key x = ?k) db)"
    let ?L = "if ?k \<in> committed_key ` set (db_committed db) then {?k} else {}"
    have L: "?L \<subseteq> {?k}" "?db' = drop_keys ?L db" by (simp_all add: delete_committed_key)
    show ?case
    proof (cases "toFree \<le> 0")
      case True
      then show ?thesis by (intro exI [of _ "{}"]) simp
    next
      case False
      have "\<exists>K. K \<subseteq> committed_key ` fst ` set cs \<and> fst (evict_loop ((c, e) # cs) toFree a b db) = drop_keys K ?db'"
        using 2 [OF False prod.collapse refl] False by (simp add: case_prod_beta Let_def)
      then obtain K where "K \<subseteq> committed_key ` fst ` set cs" "fst (evict_loop ((c, e) # cs) toFree a b db) = drop_keys K ?db'" by blast
      then show ?thesis using L by (intro exI [of _ "K \<union> ?L"]) auto
    qed
  qed
  then show ?thesis using that by blast
qed


definition keys_of :: "(committed_row \<Rightarrow> bool) \<Rightarrow> cache_db \<Rightarrow> object_key set" where
  "keys_of sel db = committed_key ` {c \<in> set (db_committed db). sel c}"

lemma enforceWatermarkTx_drop:
  assumes "enforceWatermarkTx p sc x db = Inr (db', a, b)"
  obtains K where "K \<subseteq> keys_of (\<lambda>c. x = [] \<or> cm_decision_digest c \<noteq> x) db" "db' = drop_keys K db"
proof (cases "us_stableBytes (capacityUsage db sc) < percentageBytes (scope_limit p sc) (cp_HighWatermarkPercent p)")
  case True
  with assms have "db' = drop_keys {} db" by (simp add: enforceWatermarkTx_def Let_def)
  then show ?thesis using that [of "{}"] by simp
next
  case False
  let ?cs = "evictionCandidates db sc x"
  obtain K where K: "K \<subseteq> committed_key ` fst ` set ?cs"
    "fst (evict_loop ?cs (us_stableBytes (capacityUsage db sc) - percentageBytes (scope_limit p sc) (cp_LowWatermarkPercent p)) 0 0 db) = drop_keys K db"
    by (rule evict_loop_drop)
  have "fst ` set ?cs \<subseteq> {c \<in> set (db_committed db). x = [] \<or> cm_decision_digest c \<noteq> x}"
    by (auto simp: evictionCandidates_def stable_rows_def)
  moreover have "db' = drop_keys K db"
    using assms False K(2) by (auto simp: enforceWatermarkTx_def Let_def split: prod.splits if_splits)
  ultimately show ?thesis using K(1) that [of K] unfolding keys_of_def by blast
qed

lemma enforceCommitCapacityTx_drop:
  assumes "enforceCommitCapacityTx p sc x db = Inr (db', a, b)" "distinct (map committed_key (db_committed db))" "x \<noteq> []"
  obtains K where "K \<inter> keys_of (\<lambda>c. cm_decision_digest c = x) db = {}" "db' = drop_keys K db"
proof -
  from assms(1) obtain db1 a1 b1 db2 a2 b2 a3 b3 where w:
      "enforceWatermarkTx p sc x db = Inr (db1, a1, b1)" "enforceWatermarkTx p (repositoryScope sc) x db1 = Inr (db2, a2, b2)"
      "enforceWatermarkTx p no_scope x db2 = Inr (db', a3, b3)"
    by (auto simp: enforceCommitCapacityTx_def split: if_splits)
  obtain K1 where K1: "K1 \<subseteq> keys_of (\<lambda>c. x = [] \<or> cm_decision_digest c \<noteq> x) db" "db1 = drop_keys K1 db"
    using w(1) by (rule enforceWatermarkTx_drop)
  obtain K2 where K2: "K2 \<subseteq> keys_of (\<lambda>c. x = [] \<or> cm_decision_digest c \<noteq> x) db1" "db2 = drop_keys K2 db1"
    using w(2) by (rule enforceWatermarkTx_drop)
  obtain K3 where K3: "K3 \<subseteq> keys_of (\<lambda>c. x = [] \<or> cm_decision_digest c \<noteq> x) db2" "db' = drop_keys K3 db2"
    using w(3) by (rule enforceWatermarkTx_drop)
  have "K1 \<union> K2 \<union> K3 \<subseteq> keys_of (\<lambda>c. cm_decision_digest c \<noteq> x) db"
    using K1 K2(1,2) K3(1) assms(3) unfolding keys_of_def by auto
  moreover have "keys_of (\<lambda>c. cm_decision_digest c \<noteq> x) db \<inter> keys_of (\<lambda>c. cm_decision_digest c = x) db = {}"
    using assms(2) by (auto simp: keys_of_def distinct_map dest: inj_onD)
  moreover have "db' = drop_keys (K1 \<union> K2 \<union> K3) db" using K1(2) K2(2) K3(2) by (simp add: Un_ac)
  ultimately show ?thesis using that [of "K1 \<union> K2 \<union> K3"] by blast
qed

section \<open>Publication\<close>

lemma insert_committed_Inr:
  "insert_committed c db = Inr db' \<longleftrightarrow> cm_decision_digest c \<in> de_decision_digest ` set (db_decisions db) \<and> committed_checks c \<and>
     committed_key c \<notin> committed_key ` set (db_committed db) \<and> db' = db\<lparr>db_committed := db_committed db @ [c]\<rparr>"
  by (auto simp: insert_committed_def sql_insert_Inr list_ex_key)

lemma insert_entry_Inr:
  "insert_entry e db = Inr db' \<longleftrightarrow> entry_key e \<in> committed_key ` set (db_committed db) \<and> entry_checks e \<and>
     entry_key e \<notin> entry_key ` set (db_entries db) \<and> db' = db\<lparr>db_entries := db_entries db @ [e]\<rparr>"
  by (auto simp: insert_entry_def sql_insert_Inr list_ex_key)

lemma insert_decision_Inr:
  "insert_decision d db = Inr db' \<longleftrightarrow> de_attempt_id d \<notin> de_attempt_id ` set (db_decisions db) \<and> decision_checks d \<and>
     de_decision_digest d \<notin> de_decision_digest ` set (db_decisions db) \<and> db' = db\<lparr>db_decisions := db_decisions db @ [d]\<rparr>"
  by (auto simp: insert_decision_def sql_insert_Inr list_ex_key)

lemma published_keys [simp]:
  "committed_key (published_row st dd now b) = (rp_Tenant (as_Repository st), co_NamespaceGeneration b, co_Key b)"
  "entry_key (published_entry st now ttl b) = (rp_Tenant (as_Repository st), co_NamespaceGeneration b, co_Key b)"
  "cm_decision_digest (published_row st dd now b) = dd" "cm_size_bytes (published_row st dd now b) = co_SizeBytes b"
  by (simp_all add: published_row_def published_entry_def committed_key_def entry_key_def)

lemma publish_loop_Inr:
  assumes "publish_loop st dd now ttl bs db = Inr db'"
  shows "db' = db\<lparr>db_committed := db_committed db @ map (published_row st dd now) bs,
           db_entries := db_entries db @ map (published_entry st now ttl) bs\<rparr>"
    and "distinct (map committed_key (db_committed db)) \<Longrightarrow> distinct (map committed_key (db_committed db'))"
    and "distinct (map entry_key (db_entries db)) \<Longrightarrow> distinct (map entry_key (db_entries db'))"
    and "\<forall>b\<in>set bs. committed_checks (published_row st dd now b) \<and> entry_checks (published_entry st now ttl b)"
    and "bs \<noteq> [] \<Longrightarrow> dd \<in> de_decision_digest ` set (db_decisions db)"
  using assms
proof (induction bs arbitrary: db)
  case (Cons b bs)
  have loop: "publish_loop st dd now ttl bs (db\<lparr>db_committed := db_committed db @ [published_row st dd now b],
      db_entries := db_entries db @ [published_entry st now ttl b]\<rparr>) = Inr db'"
    if "publish_loop st dd now ttl (b # bs) db = Inr db'" for db
    using that by (simp add: insert_committed_Inr insert_entry_Inr)
  {
    case 1
    from Cons.IH(1) [OF loop [OF 1]] show ?case by simp
  next
    case 2
    then show ?case using Cons.IH(2) [OF _ loop] by (auto simp: insert_committed_Inr insert_entry_Inr)
  next
    case 3
    then show ?case using Cons.IH(3) [OF _ loop] by (auto simp: insert_committed_Inr insert_entry_Inr)
  next
    case 4
    with Cons.IH(4) [OF loop [OF 4]] show ?case by (simp add: insert_committed_Inr insert_entry_Inr)
  next
    case 5
    then show ?case by (simp add: insert_committed_Inr insert_entry_Inr)
  }
qed simp_all


section \<open>The commit transaction\<close>

lemma validateDecisionAgainstAttempt_None:
  "validateDecisionAgainstAttempt d st pending = None \<longleftrightarrow>
     cd_AttemptID d = as_AttemptID st \<and> cd_Repository d = as_Repository st \<and> cd_SourceRevision d = as_SourceRevision st \<and>
     cd_SourceStateDigest d = as_SourceStateDigest st \<and> cd_PolicyDigest d = as_PolicyDigest st \<and>
     cd_ConfigurationPolicyDigest d = as_ConfigurationPolicyDigest st \<and> cd_CacheContractDigest d = as_CacheContractDigest st \<and>
     pending \<noteq> [] \<and> cd_Objects d = pending \<and> (\<forall>b\<in>set pending. co_NamespaceGeneration b = as_NamespaceGeneration st)"
  by (auto simp: validateDecisionAgainstAttempt_def sameCommitObjects_def)

lemma object_exists_iff:
  "object_exists st db b \<longleftrightarrow> (rp_Tenant (as_Repository st), co_NamespaceGeneration b, co_Key b) \<in> committed_key ` set (db_committed db)"
  by (simp add: object_exists_def list_ex_key)

definition marked_committed :: "environment \<Rightarrow> VerifiedCommitDecision \<Rightarrow> int \<Rightarrow> attempt_row \<Rightarrow> attempt_row" where
  "marked_committed env verified now a =
     a\<lparr>at_state := AttemptCommitted, at_state_version := at_state_version a + 1,
       at_terminal_id := Some (cd_DecisionID (vd_decision verified)),
       at_terminal_fingerprint := Some (canonicalDocumentFingerprint env (vd_canonical verified)),
       at_decision_digest := Some (cd_DecisionDigest (vd_decision verified)), at_updated_at_unix_ms := to_milli now\<rparr>"

definition decision_of :: "VerifiedCommitDecision \<Rightarrow> int \<Rightarrow> decision_row" where
  "decision_of verified now =
     \<lparr>de_decision_digest = cd_DecisionDigest (vd_decision verified), de_attempt_id = cd_AttemptID (vd_decision verified),
      de_canonical_document = vd_canonical verified, de_committed_at_unix_ms = to_milli now\<rparr>"

text \<open>The effect of a published commit, with the set \<open>K\<close> of evicted keys.\<close>

definition commit_effect ::
    "environment \<Rightarrow> VerifiedCommitDecision \<Rightarrow> int \<Rightarrow> int \<Rightarrow> attempt_row \<Rightarrow> object_key set \<Rightarrow> cache_db \<Rightarrow> cache_db \<Rightarrow> bool" where
  "commit_effect env verified now ttl a K db db' \<longleftrightarrow>
     (let d = vd_decision verified; st = status_of_row db a in
      attempt_of db (cd_AttemptID d) = Some a \<and> at_state a = AttemptPending \<and>
      cd_Objects d = pendingObjects db \<lparr>rc_status = st, rc_requestFingerprint = at_request_fingerprint a,
          rc_terminalID = at_terminal_id a, rc_terminalFingerprint = at_terminal_fingerprint a\<rparr> \<and>
      cd_Repository d = as_Repository st \<and> cd_Objects d \<noteq> [] \<and>
      db_attempts db' = map (\<lambda>x. if at_attempt_id x = cd_AttemptID d then marked_committed env verified now x else x) (db_attempts db) \<and>
      (\<forall>x\<in>set (db_attempts db'). attempt_checks x) \<and>
      db_authorities db' = db_authorities db \<and> db_quarantine db' = db_quarantine db \<and>
      db_pending db' = filter (\<lambda>q. pe_attempt_id q \<noteq> cd_AttemptID d) (db_pending db) \<and>
      de_attempt_id (decision_of verified now) \<notin> de_attempt_id ` set (db_decisions db) \<and>
      de_decision_digest (decision_of verified now) \<notin> de_decision_digest ` set (db_decisions db) \<and>
      db_decisions db' = db_decisions db @ [decision_of verified now] \<and>
      (\<forall>b\<in>set (cd_Objects d). committed_checks (published_row st (cd_DecisionDigest d) now b) \<and>
         committed_key (published_row st (cd_DecisionDigest d) now b) \<notin> committed_key ` set (db_committed db)) \<and>
      distinct (map (\<lambda>b. (at_tenant_id a, co_NamespaceGeneration b, co_Key b)) (cd_Objects d)) \<and>
      db_committed db' = filter (\<lambda>c. committed_key c \<notin> K) (db_committed db) @ map (published_row st (cd_DecisionDigest d) now) (cd_Objects d) \<and>
      db_entries db' = filter (\<lambda>e. entry_key e \<notin> K) (db_entries db) @ map (published_entry st now ttl) (cd_Objects d))"

lemma commit_effectD:
  assumes "commit_effect env verified now ttl a K db db'"
  shows "attempt_of db (cd_AttemptID (vd_decision verified)) = Some a"
    and "at_state a = AttemptPending"
    and "cd_Objects (vd_decision verified) = pendingObjects db \<lparr>rc_status = status_of_row db a,
        rc_requestFingerprint = at_request_fingerprint a, rc_terminalID = at_terminal_id a,
        rc_terminalFingerprint = at_terminal_fingerprint a\<rparr>"
    and "cd_Repository (vd_decision verified) = as_Repository (status_of_row db a)"
    and "cd_Objects (vd_decision verified) \<noteq> []"
    and "db_pending db' = filter (\<lambda>q. pe_attempt_id q \<noteq> cd_AttemptID (vd_decision verified)) (db_pending db)"
    and "db_decisions db' = db_decisions db @ [decision_of verified now]"
    and "b \<in> set (cd_Objects (vd_decision verified)) \<Longrightarrow>
      (at_tenant_id a, co_NamespaceGeneration b, co_Key b) \<notin> committed_key ` set (db_committed db)"
    and "distinct (map (\<lambda>b. (at_tenant_id a, co_NamespaceGeneration b, co_Key b)) (cd_Objects (vd_decision verified)))"
    and "db_committed db' = filter (\<lambda>c. committed_key c \<notin> K) (db_committed db) @
      map (published_row (status_of_row db a) (cd_DecisionDigest (vd_decision verified)) now) (cd_Objects (vd_decision verified))"
    and "db_entries db' = filter (\<lambda>e. entry_key e \<notin> K) (db_entries db) @
      map (published_entry (status_of_row db a) now ttl) (cd_Objects (vd_decision verified))"
  using assms by (auto simp only: commit_effect_def Let_def published_keys status_of_row_simps)

lemma filter_keys_append:
  assumes "\<And>b. b \<in> set bs \<Longrightarrow> f (g b) \<notin> K"
  shows "filter (\<lambda>x. f x \<notin> K) (xs @ map g bs) = filter (\<lambda>x. f x \<notin> K) xs @ map g bs"
  using assms by (simp add: filter_id_conv)

text \<open>The sections of a transaction that publishes.\<close>

lemma commit_tx_sections:
  assumes "commit_tx env p v verified now db = Inr (Published db' n pr pt)"
  defines "d \<equiv> vd_decision verified"
  obtains a bs db1 db2 db3 rs k where "attempt_of db (cd_AttemptID d) = Some a"
    "bs = pendingObjects db \<lparr>rc_status = status_of_row db a, rc_requestFingerprint = at_request_fingerprint a,
        rc_terminalID = at_terminal_id a, rc_terminalFingerprint = at_terminal_fingerprint a\<rparr>"
    "at_state a = AttemptPending" "at_state_version a = v" "validateDecisionAgainstAttempt d (status_of_row db a) bs = None"
    "\<not> list_ex (object_exists (status_of_row db a) db) bs" "insert_decision (decision_of verified now) db = Inr db1"
    "publish_loop (status_of_row db a) (cd_DecisionDigest d) now (cp_StableTTL p) bs db1 = Inr db2"
    "enforceCommitCapacityTx p (attempt_scope (status_of_row db a)) (cd_DecisionDigest d) db2 = Inr (db3, pr, pt)"
    "sql_update attempt_checks (\<lambda>a. at_attempt_id a = cd_AttemptID d \<and> at_state a = AttemptPending \<and> at_state_version a = v)
       (marked_committed env verified now) (db_attempts db3) = Inr (rs, k)"
    "db' = delete_pending (\<lambda>q. pe_attempt_id q = cd_AttemptID d) (db3\<lparr>db_attempts := rs\<rparr>)" "n = length bs"
proof -
  from assms(1) obtain a where a: "attempt_of db (cd_AttemptID d) = Some a"
    by (auto simp: commit_tx_def Let_def loadAttempt_Inr d_def)
  let ?st = "status_of_row db a"
  let ?r = "\<lparr>rc_status = ?st, rc_requestFingerprint = at_request_fingerprint a,
          rc_terminalID = at_terminal_id a, rc_terminalFingerprint = at_terminal_fingerprint a\<rparr>"
  let ?bs = "pendingObjects db ?r"
  have load: "loadAttempt db (cd_AttemptID d) = Inr ?r" using a by (simp add: loadAttempt_Inr)
  from assms(1) obtain db1 db2 db3 rs k where c:
      "at_state a = AttemptPending" "at_state_version a = v" "validateDecisionAgainstAttempt d ?st ?bs = None"
      "\<not> list_ex (object_exists ?st db) ?bs" "insert_decision (decision_of verified now) db = Inr db1"
      "publish_loop ?st (cd_DecisionDigest d) now (cp_StableTTL p) ?bs db1 = Inr db2"
      "enforceCommitCapacityTx p (attempt_scope ?st) (cd_DecisionDigest d) db2 = Inr (db3, pr, pt)"
      "sql_update attempt_checks (\<lambda>a. at_attempt_id a = cd_AttemptID d \<and> at_state a = AttemptPending \<and> at_state_version a = v)
         (marked_committed env verified now) (db_attempts db3) = Inr (rs, k)"
      "db' = delete_pending (\<lambda>q. pe_attempt_id q = cd_AttemptID d) (db3\<lparr>db_attempts := rs\<rparr>)" "n = length ?bs"
    by (simp add: commit_tx_def Let_def load [unfolded d_def] d_def decision_of_def [symmetric] marked_committed_def [abs_def, symmetric]
        split: if_splits option.splits) (auto simp: marked_committed_def [abs_def])
  show ?thesis by (rule that [OF a refl c])
qed

lemma commit_tx_Published:
  assumes commit: "commit_tx env p v verified now db = Inr (Published db' n pr pt)" and ok: "db_ok db"
  obtains a K where "commit_effect env verified now (cp_StableTTL p) a K db db'" "at_state_version a = v"
    "n = length (cd_Objects (vd_decision verified))"
proof -
  let ?d = "vd_decision verified"
  let ?dd = "cd_DecisionDigest ?d"
  obtain a bs db1 db2 db3 rs k where a: "attempt_of db (cd_AttemptID ?d) = Some a"
    and bs: "bs = pendingObjects db \<lparr>rc_status = status_of_row db a, rc_requestFingerprint = at_request_fingerprint a,
        rc_terminalID = at_terminal_id a, rc_terminalFingerprint = at_terminal_fingerprint a\<rparr>"
    and c: "at_state a = AttemptPending" "at_state_version a = v" "validateDecisionAgainstAttempt ?d (status_of_row db a) bs = None"
      "\<not> list_ex (object_exists (status_of_row db a) db) bs" "insert_decision (decision_of verified now) db = Inr db1"
      "publish_loop (status_of_row db a) ?dd now (cp_StableTTL p) bs db1 = Inr db2"
      "enforceCommitCapacityTx p (attempt_scope (status_of_row db a)) ?dd db2 = Inr (db3, pr, pt)"
      "sql_update attempt_checks (\<lambda>a. at_attempt_id a = cd_AttemptID ?d \<and> at_state a = AttemptPending \<and> at_state_version a = v)
         (marked_committed env verified now) (db_attempts db3) = Inr (rs, k)"
      "db' = delete_pending (\<lambda>q. pe_attempt_id q = cd_AttemptID ?d) (db3\<lparr>db_attempts := rs\<rparr>)" "n = length bs"
    by (rule commit_tx_sections [OF commit])
  let ?st = "status_of_row db a"
  let ?bs = bs
  note aid = attempt_of_Some(2) [OF a]
  have dec: "cd_Objects ?d = ?bs" "cd_Repository ?d = as_Repository ?st" "?bs \<noteq> []"
    using c(3) by (simp_all add: validateDecisionAgainstAttempt_None)
  have dd: "?dd \<noteq> []" using c(5) by (auto simp: insert_decision_Inr decision_checks_def digest_column_def decision_of_def)
  have db1: "db1 = db\<lparr>db_decisions := db_decisions db @ [decision_of verified now]\<rparr>"
    using c(5) by (simp add: insert_decision_Inr)
  note db2 = publish_loop_Inr [OF c(6)]
  have keys: "distinct (map committed_key (db_committed db2))"
    using db2(2) ok by (simp add: db1 db_ok_def committed_ok_def)
  obtain K where K: "K \<inter> keys_of (\<lambda>c. cm_decision_digest c = ?dd) db2 = {}" "db3 = drop_keys K db2"
    using enforceCommitCapacityTx_drop [OF c(7) keys dd] .
  have fresh: "committed_key (published_row ?st ?dd now b) \<notin> K" if "b \<in> set ?bs" for b
  proof -
    have "committed_key (published_row ?st ?dd now b) \<in> keys_of (\<lambda>c. cm_decision_digest c = ?dd) db2"
      unfolding keys_of_def using that by (intro imageI) (simp add: db2(1))
    with K(1) show ?thesis by blast
  qed
  then have fresh_entry: "entry_key (published_entry ?st now (cp_StableTTL p) b) \<notin> K" if "b \<in> set ?bs" for b
    using that by simp
  have only: "x = a" if "x \<in> set (db_attempts db)" "at_attempt_id x = cd_AttemptID ?d" for x
    using distinct_key_eq [of at_attempt_id, OF _ that(1) attempt_of_Some(1) [OF a]] that(2) aid ok by (simp add: db_ok_def attempts_ok_def)
  have attempts: "rs = map (\<lambda>x. if at_attempt_id x = cd_AttemptID ?d then marked_committed env verified now x else x) (db_attempts db)"
    using c(1,2,8) only by (auto simp: sql_update_Inr K(2) db2(1) db1)
  have checks: "attempt_checks x" if "x \<in> set rs" for x
    using that c(8) ok by (auto simp: sql_update_Inr K(2) db2(1) db1 db_ok_def attempts_ok_def split: if_splits)
  have absent: "committed_key (published_row ?st ?dd now b) \<notin> committed_key ` set (db_committed db)" if "b \<in> set ?bs" for b
    using that c(4) by (simp add: object_exists_iff list_ex_iff)
  have "distinct (map (committed_key \<circ> published_row ?st ?dd now) ?bs)"
    using keys by (simp add: db2(1))
  then have dist: "distinct (map (\<lambda>b. (at_tenant_id a, co_NamespaceGeneration b, co_Key b)) ?bs)"
    by (simp add: comp_def)
  have "db_committed db' = filter (\<lambda>c. committed_key c \<notin> K) (db_committed db) @ map (published_row ?st ?dd now) ?bs"
    using filter_keys_append [of ?bs committed_key "published_row ?st ?dd now" K, OF fresh]
    by (simp add: c(9) K(2) db2(1) db1 delete_pending_def)
  moreover have "db_entries db' = filter (\<lambda>e. entry_key e \<notin> K) (db_entries db) @ map (published_entry ?st now (cp_StableTTL p)) ?bs"
    using filter_keys_append [of ?bs entry_key "published_entry ?st now (cp_StableTTL p)" K, OF fresh_entry]
    by (simp add: c(9) K(2) db2(1) db1 delete_pending_def)
  ultimately have "commit_effect env verified now (cp_StableTTL p) a K db db'"
    unfolding commit_effect_def Let_def
    using a c(1,5) dec db2(4) absent dist attempts checks bs
    by (simp add: c(9) K(2) db2(1) db1 delete_pending_def insert_decision_Inr)
  then show ?thesis using that c(2,10) dec(1) by simp
qed

end
