(* ===== verification/SharedMoves.thy ===== *)
theory SharedMoves
  imports SharedFacts
begin

text \<open>
  Every operation of the Shared storage changes the cache database by a sequence of a few kinds of moves, and
  each invariant is proved once per kind. Recording a pending object is kept apart, because it is the one
  change that makes the database grow against a reservation.
\<close>

section \<open>Moves\<close>

definition set_attempt :: "string \<Rightarrow> (attempt_row \<Rightarrow> attempt_row) \<Rightarrow> cache_db \<Rightarrow> cache_db" where
  "set_attempt i f db = db\<lparr>db_attempts := map (\<lambda>x. if at_attempt_id x = i then f x else x) (db_attempts db)\<rparr>"

definition marked_aborted :: "string \<Rightarrow> string \<Rightarrow> string \<Rightarrow> int \<Rightarrow> attempt_row \<Rightarrow> attempt_row" where
  "marked_aborted terminalID terminalFingerprint reason now a =
     a\<lparr>at_state := AttemptAborted, at_state_version := at_state_version a + 1, at_terminal_id := Some terminalID,
       at_terminal_fingerprint := Some terminalFingerprint, at_abort_reason := Some reason, at_updated_at_unix_ms := to_milli now\<rparr>"

definition marked_updated :: "int \<Rightarrow> attempt_row \<Rightarrow> attempt_row" where
  "marked_updated now a = a\<lparr>at_state_version := at_state_version a + 1, at_updated_at_unix_ms := to_milli now\<rparr>"

definition touches_committed :: "(committed_row \<Rightarrow> committed_row) \<Rightarrow> bool" where
  "touches_committed f = (\<forall>c. committed_key (f c) = committed_key c \<and> cm_blob_digest (f c) = cm_blob_digest c \<and>
     cm_size_bytes (f c) = cm_size_bytes c \<and> cm_decision_digest (f c) = cm_decision_digest c \<and>
     cm_committed_at_unix_ms (f c) = cm_committed_at_unix_ms c)"

definition touches_entry :: "(entry_row \<Rightarrow> entry_row) \<Rightarrow> bool" where
  "touches_entry g = (\<forall>e. entry_key (g e) = entry_key e \<and> en_repository_id (g e) = en_repository_id e \<and>
     en_trust_domain (g e) = en_trust_domain e)"

inductive db_move :: "environment \<Rightarrow> VerifiedCommitDecision set \<Rightarrow> cache_db \<Rightarrow> cache_db \<Rightarrow> bool" for env V where
  move_start: "at_attempt_id a \<notin> at_attempt_id ` set (db_attempts db) \<Longrightarrow> attempt_checks a \<Longrightarrow> at_state a = AttemptPending \<Longrightarrow>
     db_move env V db (db\<lparr>db_attempts := db_attempts db @ [a]\<rparr>)"
| move_authority: "db_move env V db (db\<lparr>db_authorities := x\<rparr>)"
| move_abort: "attempt_of db i = Some a \<Longrightarrow> at_state a = AttemptPending \<Longrightarrow> attempt_checks (marked_aborted tid tfp reason now a) \<Longrightarrow>
     db_move env V db (delete_pending (\<lambda>p. pe_attempt_id p = i) (set_attempt i (marked_aborted tid tfp reason now) db))"
| move_commit: "verified \<in> V \<Longrightarrow> commit_effect env verified now ttl a K db db' \<Longrightarrow> db_move env V db db'"
| move_drop: "db_move env V db (drop_keys K db)"
| move_touch: "touches_committed f \<Longrightarrow> touches_entry g \<Longrightarrow> \<forall>c\<in>set (db_committed db). committed_checks (f c) \<Longrightarrow>
     db_move env V db (db\<lparr>db_committed := map f (db_committed db), db_entries := map g (db_entries db)\<rparr>)"
| move_quarantine: "\<forall>x\<in>set q. quarantine_checks x \<Longrightarrow> db_move env V db (db\<lparr>db_quarantine := q\<rparr>)"
| move_forget: "db_move env V db (delete_decision dd db)"

definition db_put :: "string \<Rightarrow> string \<Rightarrow> Blob \<Rightarrow> int \<Rightarrow> cache_db \<Rightarrow> cache_db \<Rightarrow> bool" where
  "db_put i key blob now db db' \<longleftrightarrow>
     (\<exists>a. attempt_of db i = Some a \<and> at_state a = AttemptPending \<and> attempt_checks (marked_updated now a) \<and>
        (let p = \<lparr>pe_attempt_id = i, pe_cache_key = key, pe_blob_digest = bl_Digest blob, pe_size_bytes = bl_Size blob,
                  pe_created_at_unix_ms = to_milli now\<rparr> in
         pending_checks p \<and> pending_key p \<notin> pending_key ` set (db_pending db) \<and>
         db' = set_attempt i (marked_updated now) (db\<lparr>db_pending := db_pending db @ [p]\<rparr>)))"

abbreviation db_moves :: "environment \<Rightarrow> VerifiedCommitDecision set \<Rightarrow> cache_db \<Rightarrow> cache_db \<Rightarrow> bool" where
  "db_moves env V \<equiv> (db_move env V)\<^sup>*\<^sup>*"

section \<open>Moves keep the invariant\<close>

lemma marked_simps [simp]:
  "at_attempt_id (marked_aborted tid tfp reason now a) = at_attempt_id a" "at_state (marked_aborted tid tfp reason now a) = AttemptAborted"
  "at_state_version (marked_aborted tid tfp reason now a) = at_state_version a + 1"
  "at_attempt_id (marked_updated now a) = at_attempt_id a" "at_state (marked_updated now a) = at_state a"
  "at_state_version (marked_updated now a) = at_state_version a + 1"
  "at_attempt_id (marked_committed env v now a) = at_attempt_id a" "at_state (marked_committed env v now a) = AttemptCommitted"
  "at_state_version (marked_committed env v now a) = at_state_version a + 1"
  "at_decision_digest (marked_committed env v now a) = Some (cd_DecisionDigest (vd_decision v))"
  by (simp_all add: marked_aborted_def marked_updated_def marked_committed_def)

lemma set_attempt_simps [simp]:
  "db_pending (set_attempt i f db) = db_pending db" "db_committed (set_attempt i f db) = db_committed db"
  "db_entries (set_attempt i f db) = db_entries db" "db_decisions (set_attempt i f db) = db_decisions db"
  "db_attempts (set_attempt i f db) = map (\<lambda>x. if at_attempt_id x = i then f x else x) (db_attempts db)"
  "db_quarantine (set_attempt i f db) = db_quarantine db"
  by (simp_all add: set_attempt_def)

lemma delete_pending_simps [simp]:
  "db_pending (delete_pending sel db) = filter (\<lambda>p. \<not> sel p) (db_pending db)" "db_committed (delete_pending sel db) = db_committed db"
  "db_entries (delete_pending sel db) = db_entries db" "db_decisions (delete_pending sel db) = db_decisions db"
  "db_attempts (delete_pending sel db) = db_attempts db" "db_quarantine (delete_pending sel db) = db_quarantine db"
  by (simp_all add: delete_pending_def)

lemma map_if_ids:
  assumes "\<And>x. at_attempt_id (f x) = at_attempt_id x"
  shows "map at_attempt_id (map (\<lambda>x. if at_attempt_id x = i then f x else x) xs) = map at_attempt_id xs"
  using assms by (induction xs) auto

lemma attempt_of_set_attempt:
  assumes "\<And>x. at_attempt_id (f x) = at_attempt_id x"
  shows "attempt_of (set_attempt i f db) j = (if j = i then map_option f (attempt_of db i) else attempt_of db j)"
proof -
  have "find (\<lambda>a. at_attempt_id a = j) (map (\<lambda>x. if at_attempt_id x = i then f x else x) xs) =
     (if j = i then map_option f (find (\<lambda>a. at_attempt_id a = i) xs) else find (\<lambda>a. at_attempt_id a = j) xs)" for xs
    using assms by (induction xs) auto
  then show ?thesis by (simp add: attempt_of_def)
qed

lemma attempts_ok_set:
  assumes "attempts_ok db" "attempt_of db i = Some a" "attempt_checks (f a)" "\<And>x. at_attempt_id (f x) = at_attempt_id x"
  shows "attempts_ok (set_attempt i f db)"
proof -
  have "x = a" if "x \<in> set (db_attempts db)" "at_attempt_id x = i" for x
    using distinct_key_eq [of at_attempt_id, OF _ that(1) attempt_of_Some(1) [OF assms(2)]] that(2) attempt_of_Some(2) [OF assms(2)] assms(1)
    by (simp add: attempts_ok_def)
  then have "\<forall>x\<in>set (db_attempts (set_attempt i f db)). attempt_checks x" using assms(1,3) by (auto simp: attempts_ok_def)
  moreover have "map at_attempt_id (db_attempts (set_attempt i f db)) = map at_attempt_id (db_attempts db)"
    using map_if_ids [OF assms(4)] by (simp add: set_attempt_def del: map_map)
  ultimately show ?thesis using assms(1) unfolding attempts_ok_def by metis
qed

lemma attempt_unique:
  assumes "attempts_ok db" "attempt_of db i = Some a" "x \<in> set (db_attempts db)" "at_attempt_id x = i"
  shows "x = a"
  using distinct_key_eq [of at_attempt_id, OF _ assms(3) attempt_of_Some(1) [OF assms(2)]] assms attempt_of_Some(2) [OF assms(2)]
  by (simp add: attempts_ok_def)

lemma pending_attempt_kept:
  assumes "pending_ok db" "attempts_ok db" "p \<in> set (db_pending db)" "pe_attempt_id p \<noteq> i \<or> (\<forall>x. at_state (f x) = at_state x)"
    and "\<And>x. at_attempt_id (f x) = at_attempt_id x"
  shows "\<exists>a\<in>set (db_attempts (set_attempt i f db)). at_attempt_id a = pe_attempt_id p \<and> at_state a = AttemptPending"
proof -
  obtain a where a: "a \<in> set (db_attempts db)" "at_attempt_id a = pe_attempt_id p" "at_state a = AttemptPending"
    using assms(1,3) unfolding pending_ok_def by blast
  let ?a = "if at_attempt_id a = i then f a else a"
  have "?a \<in> set (db_attempts (set_attempt i f db))" using a(1) by auto
  moreover have "at_attempt_id ?a = pe_attempt_id p" "at_state ?a = AttemptPending" using a assms(4,5) by auto
  ultimately show ?thesis by blast
qed

lemma decision_attempt_kept:
  assumes "decisions_ok db" "attempts_ok db" "attempt_of db i = Some b" "at_state b = AttemptPending" "d \<in> set (db_decisions db)"
  shows "\<exists>a\<in>set (db_attempts (set_attempt i f db)). at_attempt_id a = de_attempt_id d \<and> at_state a = AttemptCommitted \<and>
    at_decision_digest a = Some (de_decision_digest d)"
proof -
  obtain a where a: "a \<in> set (db_attempts db)" "at_attempt_id a = de_attempt_id d" "at_state a = AttemptCommitted"
      "at_decision_digest a = Some (de_decision_digest d)"
    using assms(1,5) unfolding decisions_ok_def by blast
  have "at_attempt_id a \<noteq> i" using attempt_unique [OF assms(2,3) a(1)] a(3) assms(4) by auto
  then have "a \<in> set (db_attempts (set_attempt i f db))" using a(1) by force
  with a show ?thesis by blast
qed

lemma db_ok_set_attempt:
  assumes "db_ok db" "attempt_of db i = Some a" "at_state a = AttemptPending" "attempt_checks (f a)"
    and "\<And>x. at_attempt_id (f x) = at_attempt_id x" "\<And>p. p \<in> set (db_pending db') \<Longrightarrow> pe_attempt_id p \<noteq> i \<or> (\<forall>x. at_state (f x) = at_state x)"
    and "db_attempts db' = db_attempts db" "db_decisions db' = db_decisions db" "db_committed db' = db_committed db"
      "db_entries db' = db_entries db" "set (db_pending db') \<subseteq> set (db_pending db)" "distinct (map pending_key (db_pending db'))"
      "db_quarantine db' = db_quarantine db"
  shows "db_ok (set_attempt i f db')"
proof -
  have ok: "attempts_ok db" "pending_ok db" "committed_ok db" "decisions_ok db" using assms(1) by (simp_all add: db_ok_def)
  have eq: "db_attempts (set_attempt i f db') = db_attempts (set_attempt i f db)" by (simp add: assms(7))
  have "attempts_ok (set_attempt i f db')"
    using attempts_ok_set [where f = f, OF ok(1) assms(2,4,5)] by (simp add: attempts_ok_def assms(7))
  moreover have "pending_ok (set_attempt i f db')"
    using pending_attempt_kept [where f = f and i = i, OF ok(2,1) _ assms(6) assms(5)] assms(11,12) ok(2)
    unfolding pending_ok_def eq by auto
  moreover have "committed_ok (set_attempt i f db')" using ok(3) by (simp add: committed_ok_def assms(9,10))
  moreover have "decisions_ok (set_attempt i f db')"
    using ok(4) decision_attempt_kept [where f = f, OF ok(4,1) assms(2,3)] unfolding decisions_ok_def eq by (simp add: assms(8,9))
  moreover have "quarantine_ok (set_attempt i f db')" using assms(1) by (simp add: db_ok_def quarantine_ok_def assms(13))
  ultimately show ?thesis by (simp add: db_ok_def)
qed


lemma db_ok_start:
  assumes "db_ok db" "at_attempt_id a \<notin> at_attempt_id ` set (db_attempts db)" "attempt_checks a"
  shows "db_ok (db\<lparr>db_attempts := db_attempts db @ [a]\<rparr>)"
proof -
  have "attempts_ok (db\<lparr>db_attempts := db_attempts db @ [a]\<rparr>)" using assms by (auto simp: db_ok_def attempts_ok_def)
  moreover have "pending_ok (db\<lparr>db_attempts := db_attempts db @ [a]\<rparr>)" using assms(1) unfolding db_ok_def pending_ok_def by auto
  moreover have "committed_ok (db\<lparr>db_attempts := db_attempts db @ [a]\<rparr>)" using assms(1) by (simp add: db_ok_def committed_ok_def)
  moreover have "decisions_ok (db\<lparr>db_attempts := db_attempts db @ [a]\<rparr>)" using assms(1) unfolding db_ok_def decisions_ok_def by simp
  ultimately show ?thesis using assms(1) by (simp add: db_ok_def quarantine_ok_def)
qed

lemma db_ok_touch:
  assumes "db_ok db" "touches_committed f" "touches_entry g" "\<forall>c\<in>set (db_committed db). committed_checks (f c)"
  shows "db_ok (db\<lparr>db_committed := map f (db_committed db), db_entries := map g (db_entries db)\<rparr>)"
proof -
  have "map committed_key (map f (db_committed db)) = map committed_key (db_committed db)"
    "map cm_decision_digest (map f (db_committed db)) = map cm_decision_digest (db_committed db)"
    using assms(2) by (simp_all add: touches_committed_def)
  moreover have "map entry_key (map g (db_entries db)) = map entry_key (db_entries db)" using assms(3) by (simp add: touches_entry_def)
  ultimately have "committed_ok (db\<lparr>db_committed := map f (db_committed db), db_entries := map g (db_entries db)\<rparr>)"
    "decisions_ok (db\<lparr>db_committed := map f (db_committed db), db_entries := map g (db_entries db)\<rparr>)"
    using assms(1,4) by (simp_all add: db_ok_def committed_ok_def decisions_ok_def del: map_map)
  with assms(1) show ?thesis by (simp add: db_ok_def attempts_ok_def pending_ok_def quarantine_ok_def)
qed

lemma delete_decision_drop:
  assumes "db_ok db"
  shows "delete_decision dd db = (drop_keys (keys_of (\<lambda>c. cm_decision_digest c = dd) db) db)
    \<lparr>db_decisions := filter (\<lambda>d. de_decision_digest d \<noteq> dd) (db_decisions db)\<rparr>"
  using assms by (simp add: delete_decision_def Let_def delete_committed_drop db_ok_def committed_ok_def keys_of_def)

lemma db_ok_forget:
  assumes "db_ok db"
  shows "db_ok (delete_decision dd db)"
proof -
  let ?K = "keys_of (\<lambda>c. cm_decision_digest c = dd) db"
  have ok: "db_ok (drop_keys ?K db)" using drop_keys_ok [OF assms] .
  have gone: "cm_decision_digest c \<noteq> dd" if "c \<in> set (db_committed (drop_keys ?K db))" for c
    using that by (auto simp: keys_of_def)
  from ok have dec: "decisions_ok (drop_keys ?K db)" by (simp add: db_ok_def)
  have "set (map cm_decision_digest (db_committed (drop_keys ?K db))) \<subseteq>
      set (map de_decision_digest (filter (\<lambda>d. de_decision_digest d \<noteq> dd) (db_decisions db)))"
  proof
    fix x assume "x \<in> set (map cm_decision_digest (db_committed (drop_keys ?K db)))"
    then obtain c where c: "c \<in> set (db_committed (drop_keys ?K db))" "x = cm_decision_digest c" by auto
    with dec have "x \<in> set (map de_decision_digest (db_decisions db))" unfolding decisions_ok_def by auto
    with gone [OF c(1)] c(2) show "x \<in> set (map de_decision_digest (filter (\<lambda>d. de_decision_digest d \<noteq> dd) (db_decisions db)))" by auto
  qed
  with dec have "decisions_ok (delete_decision dd db)"
    unfolding delete_decision_drop [OF assms] decisions_ok_def by (simp add: distinct_map_filter_keys)
  with ok show ?thesis unfolding delete_decision_drop [OF assms] by (simp add: db_ok_def attempts_ok_def pending_ok_def committed_ok_def quarantine_ok_def)
qed

lemma db_ok_abort:
  assumes "db_ok db" "attempt_of db i = Some a" "at_state a = AttemptPending" "attempt_checks (marked_aborted tid tfp reason now a)"
  shows "db_ok (delete_pending (\<lambda>p. pe_attempt_id p = i) (set_attempt i (marked_aborted tid tfp reason now) db))"
proof -
  have "db_ok (set_attempt i (marked_aborted tid tfp reason now) (delete_pending (\<lambda>p. pe_attempt_id p = i) db))"
    by (rule db_ok_set_attempt [OF assms(1,2,3)]) (use assms in \<open>auto simp: db_ok_def pending_ok_def distinct_map_filter_keys\<close>)
  moreover have "set_attempt i f (delete_pending sel db) = delete_pending sel (set_attempt i f db)" for f sel
    by (simp add: set_attempt_def delete_pending_def)
  ultimately show ?thesis by simp
qed

lemma db_ok_put:
  assumes "db_ok db" "db_put i key blob now db db'"
  shows "db_ok db'"
proof -
  from assms(2) obtain a where a: "attempt_of db i = Some a" "at_state a = AttemptPending" "attempt_checks (marked_updated now a)"
    and p: "let p = \<lparr>pe_attempt_id = i, pe_cache_key = key, pe_blob_digest = bl_Digest blob, pe_size_bytes = bl_Size blob,
                  pe_created_at_unix_ms = to_milli now\<rparr> in
         pending_checks p \<and> pending_key p \<notin> pending_key ` set (db_pending db) \<and>
         db' = set_attempt i (marked_updated now) (db\<lparr>db_pending := db_pending db @ [p]\<rparr>)"
    unfolding db_put_def by blast
  have ok: "db_ok (set_attempt i (marked_updated now) db)"
    by (rule db_ok_set_attempt [OF assms(1) a(1,2)]) (use a(3) assms(1) in \<open>auto simp: db_ok_def pending_ok_def\<close>)
  have "marked_updated now a \<in> set (db_attempts db')"
    using attempt_of_Some [OF a(1)] p by (auto simp: Let_def)
  then have "\<exists>x\<in>set (db_attempts db'). at_attempt_id x = i \<and> at_state x = AttemptPending"
    using a(2) attempt_of_Some(2) [OF a(1)] by (intro bexI [of _ "marked_updated now a"]) simp_all
  with ok p show ?thesis unfolding db_ok_def attempts_ok_def pending_ok_def committed_ok_def decisions_ok_def quarantine_ok_def by (simp add: Let_def)
qed

lemma commit_effect_attempts:
  assumes "commit_effect env verified now ttl a K db db'"
  shows "db_attempts db' = db_attempts (set_attempt (cd_AttemptID (vd_decision verified)) (marked_committed env verified now) db)"
  using assms by (simp add: commit_effect_def Let_def)

lemma db_ok_commit:
  assumes "db_ok db" and c: "commit_effect env verified now ttl a K db db'"
  shows "db_ok db'"
proof -
  let ?d = "vd_decision verified"
  let ?i = "cd_AttemptID ?d"
  let ?st = "status_of_row db a"
  let ?db1 = "set_attempt ?i (marked_committed env verified now) (delete_pending (\<lambda>p. pe_attempt_id p = ?i) db)"
  have a: "attempt_of db ?i = Some a" "at_state a = AttemptPending" and att: "db_attempts db' = db_attempts ?db1"
    using c by (simp_all add: commit_effect_def Let_def)
  note checks = c [unfolded commit_effect_def Let_def]
  have "marked_committed env verified now a \<in> set (db_attempts db')"
    using attempt_of_Some [OF a(1)] att by auto
  then have ac: "attempt_checks (marked_committed env verified now a)" using checks by simp
  have ok1: "db_ok ?db1"
    by (rule db_ok_set_attempt [OF assms(1) a]) (use ac assms(1) in \<open>auto simp: db_ok_def pending_ok_def distinct_map_filter_keys\<close>)
  have ok: "attempts_ok ?db1" "pending_ok ?db1" "decisions_ok ?db1" "committed_ok (drop_keys K db)"
    using ok1 drop_keys_ok [OF assms(1), of K] by (simp_all add: db_ok_def)
  have "attempts_ok db'" using ok(1) by (simp add: attempts_ok_def att)
  moreover have "pending_ok db'" using ok(2) checks by (simp add: pending_ok_def att)
  moreover have "committed_ok db'"
    using ok(4) checks by (auto simp: committed_ok_def comp_def image_iff)
  moreover have "decisions_ok db'"
  proof -
    have "\<exists>x\<in>set (db_attempts db'). at_attempt_id x = ?i \<and> at_state x = AttemptCommitted \<and> at_decision_digest x = Some (cd_DecisionDigest ?d)"
      using \<open>marked_committed env verified now a \<in> set (db_attempts db')\<close> attempt_of_Some(2) [OF a(1)]
      by (intro bexI [of _ "marked_committed env verified now a"]) simp_all
    with ok(3) checks show ?thesis unfolding decisions_ok_def att by (auto simp: decision_of_def image_iff)
  qed
  moreover have "quarantine_ok db'" using assms(1) checks by (simp add: db_ok_def quarantine_ok_def)
  ultimately show ?thesis by (simp add: db_ok_def)
qed

lemma db_move_ok:
  assumes "db_move env V db db'" "db_ok db"
  shows "db_ok db'"
  using assms(1)
proof cases
  case (move_start a)
  then show ?thesis using db_ok_start [OF assms(2)] by simp
next
  case (move_authority x)
  then show ?thesis using assms(2) by (simp add: db_ok_defs)
next
  case (move_abort i a tid tfp reason now)
  then show ?thesis using db_ok_abort [OF assms(2)] by simp
next
  case (move_commit verified now ttl a K)
  then show ?thesis using db_ok_commit [OF assms(2)] by blast
next
  case (move_drop K)
  then show ?thesis using drop_keys_ok [OF assms(2)] by simp
next
  case (move_touch f g)
  then show ?thesis using db_ok_touch [OF assms(2)] by simp
next
  case (move_quarantine q)
  then show ?thesis using assms(2) by (simp add: db_ok_defs)
next
  case (move_forget dd)
  then show ?thesis using db_ok_forget [OF assms(2)] by simp
qed

lemma db_moves_ok: "db_moves env V db db' \<Longrightarrow> db_ok db \<Longrightarrow> db_ok db'"
  by (induction rule: rtranclp_induct) (auto intro: db_move_ok)

end
