(* ===== verification/SharedSystem.thy ===== *)
theory SharedSystem
  imports SharedMoves
begin

text \<open>
  The Shared storage as a concurrent system. Every critical section of every operation is a step; a put that is
  under way is remembered with its phase, because it holds a reservation and the read lock that keeps
  reconciliation and maintenance out. The disk is an adversary: blob files can change or vanish at any time.
\<close>

section \<open>Operations that leave the reservations alone\<close>

definition quiet :: "environment \<Rightarrow> VerifiedCommitDecision set \<Rightarrow> Storage \<Rightarrow> Storage \<Rightarrow> bool" where
  "quiet env V s s' \<longleftrightarrow> so_capacity s' = so_capacity s \<and> so_reservations s' = so_reservations s \<and>
     so_next_reservation s' = so_next_reservation s \<and> so_maximumBlobBytes s' = so_maximumBlobBytes s \<and>
     db_moves env V (so_cache s) (so_cache s')"

named_theorems quiet_intros \<open>operations whose effect on the database is a sequence of moves\<close>

lemma quiet_refl [simp, quiet_intros]: "quiet env V s s"
  by (simp add: quiet_def)

lemma quiet_trans: "quiet env V s t \<Longrightarrow> quiet env V t u \<Longrightarrow> quiet env V s u"
  by (auto simp: quiet_def)

lemma quiet_cache: "db_moves env V (so_cache s) db \<Longrightarrow> quiet env V s (s\<lparr>so_cache := db\<rparr>)"
  by (simp add: quiet_def)

lemma quiet_fields [simp]:
  "quiet env V s (t\<lparr>so_blobCleanupPending := b\<rparr>) = quiet env V s t" "quiet env V s (t\<lparr>so_quarantineCleanupPending := b\<rparr>) = quiet env V s t"
  "quiet env V s (t\<lparr>so_blobs := bs\<rparr>) = quiet env V s t" "quiet env V s (t\<lparr>so_quarantine_files := q\<rparr>) = quiet env V s t"
  "quiet env V s (t\<lparr>so_audit := x\<rparr>) = quiet env V s t" "quiet env V s (t\<lparr>so_currentAccessBatch := y\<rparr>) = quiet env V s t"
  "quiet env V s (t\<lparr>so_protectedAccessError := b\<rparr>) = quiet env V s t" "quiet env V s (t\<lparr>so_reconciliation_runs := rr\<rparr>) = quiet env V s t"
  "quiet env V s (t\<lparr>so_maintenance_runs := mr\<rparr>) = quiet env V s t" "quiet env V s (cleanup_if b t) = quiet env V s t"
  by (simp_all add: quiet_def cleanup_if_def)

lemma cleanup_if_cache [simp]: "(cleanup_if b s)\<lparr>so_cache := db\<rparr> = cleanup_if b (s\<lparr>so_cache := db\<rparr>)"
  by (simp add: cleanup_if_def)

lemma quiet_ok: "quiet env V s s' \<Longrightarrow> db_ok (so_cache s) \<Longrightarrow> db_ok (so_cache s')"
  using db_moves_ok by (auto simp: quiet_def)

lemma filter_length_1:
  assumes "distinct (map f xs)" "length (filter (\<lambda>x. f x = i \<and> P x) xs) = 1"
  shows "\<exists>x\<in>set xs. f x = i \<and> P x \<and> (\<forall>y\<in>set xs. f y = i \<longrightarrow> y = x)"
proof -
  from assms(2) obtain x where x: "filter (\<lambda>x. f x = i \<and> P x) xs = [x]" by (auto simp: length_Suc_conv)
  then have "x \<in> set xs" "f x = i" "P x" by (auto simp: filter_eq_Cons_iff)
  then show ?thesis using distinct_key_eq [OF assms(1)] by metis
qed

lemma abortAttemptTx_effect:
  assumes "abortAttemptTx r tid tfp reason now db = Inr db'" "attempts_ok db"
  obtains a where "attempt_of db (as_AttemptID (rc_status r)) = Some a" "at_state a = AttemptPending"
    "at_state_version a = as_StateVersion (rc_status r)" "attempt_checks (marked_aborted tid tfp reason now a)"
    "db' = delete_pending (\<lambda>p. pe_attempt_id p = as_AttemptID (rc_status r))
       (set_attempt (as_AttemptID (rc_status r)) (marked_aborted tid tfp reason now) db)"
proof -
  let ?i = "as_AttemptID (rc_status r)"
  let ?sel = "\<lambda>a. at_attempt_id a = ?i \<and> at_state a = AttemptPending \<and> at_state_version a = as_StateVersion (rc_status r)"
  from assms(1) obtain rs n where u: "sql_update attempt_checks ?sel (marked_aborted tid tfp reason now) (db_attempts db) = Inr (rs, n)"
    "n = 1" "db' = delete_pending (\<lambda>p. pe_attempt_id p = ?i) (db\<lparr>db_attempts := rs\<rparr>)"
    by (auto simp: abortAttemptTx_def Let_def marked_aborted_def [abs_def] split: if_splits)
  have dist: "distinct (map at_attempt_id (db_attempts db))" using assms(2) by (simp add: attempts_ok_def)
  have one: "length (filter ?sel (db_attempts db)) = 1" using u(1,2) by (simp add: sql_update_Inr)
  obtain a where a: "a \<in> set (db_attempts db)" "at_attempt_id a = ?i"
      "at_state a = AttemptPending \<and> at_state_version a = as_StateVersion (rc_status r)"
      "\<forall>y\<in>set (db_attempts db). at_attempt_id y = ?i \<longrightarrow> y = a"
    using filter_length_1 [OF dist one] by blast
  have "rs = map (\<lambda>x. if at_attempt_id x = ?i then marked_aborted tid tfp reason now x else x) (db_attempts db)"
    using u(1) a(3,4) by (auto simp: sql_update_Inr)
  then have "db' = delete_pending (\<lambda>p. pe_attempt_id p = ?i) (set_attempt ?i (marked_aborted tid tfp reason now) db)"
    using u(3) by (simp add: set_attempt_def)
  moreover have "attempt_checks (marked_aborted tid tfp reason now a)" using u(1) a(1-3) by (auto simp: sql_update_Inr)
  ultimately show ?thesis using that attempt_of_iff [OF dist] a(1-3) by blast
qed

lemma abortAttemptTx_move:
  "abortAttemptTx r tid tfp reason now db = Inr db' \<Longrightarrow> db_ok db \<Longrightarrow> db_moves env V db db'"
  by (elim abortAttemptTx_effect) (auto simp: db_ok_def intro: move_abort)

lemma abortExpiredAttempt_move:
  "abortExpiredAttempt e r now db = Inr db' \<Longrightarrow> db_ok db \<Longrightarrow> db_moves env V db db'"
  unfolding abortExpiredAttempt_def by (rule abortAttemptTx_move)

lemma start_result_quiet: "quiet env V s (fst (start_result s q r created))"
proof -
  have "db_moves env V db (fst (ensureAttemptAuthority i x db))" for i x db
    by (auto simp: ensureAttemptAuthority_def Let_def intro: move_authority split: option.splits)
  then show ?thesis by (auto simp: start_result_def intro!: quiet_cache split: prod.splits option.splits) (metis fst_conv)+
qed

lemma StartAttempt_quiet [quiet_intros]:
  "quiet env V s (fst (StartAttempt env s q now))"
proof (cases "sql_insert attempt_checks at_attempt_id (new_attempt env q now) (db_attempts (so_cache s))")
  case (Inl e)
  then show ?thesis using start_result_quiet by (auto simp: StartAttempt_def Let_def split: option.splits sum.splits)
next
  case (Inr rs)
  let ?s = "s\<lparr>so_cache := (so_cache s)\<lparr>db_attempts := rs\<rparr>\<rparr>"
  have "db_move env V (so_cache s) ((so_cache s)\<lparr>db_attempts := rs\<rparr>)"
    using Inr move_start [of "new_attempt env q now" "so_cache s"] by (auto simp: sql_insert_Inr new_attempt_def)
  then have "quiet env V s ?s" by (intro quiet_cache) blast
  then show ?thesis using Inr start_result_quiet [of env V ?s] quiet_trans
    by (auto simp: StartAttempt_def Let_def split: option.splits sum.splits)
qed

lemma AttemptStatus_quiet [quiet_intros]:
  assumes "db_ok (so_cache s)"
  shows "quiet env V s (fst (AttemptStatus_op env s i now now'))"
  using assms by (auto simp: AttemptStatus_op_def intro!: quiet_cache intro: abortExpiredAttempt_move split: sum.splits)

lemma AbortAttempt_quiet [quiet_intros]:
  assumes "db_ok (so_cache s)"
  shows "quiet env V s (fst (AbortAttempt env s q now commits))"
  using assms by (auto simp: AbortAttempt_def Let_def intro!: quiet_cache intro: abortAttemptTx_move split: sum.splits)


lemma insertQuarantineRecord_move:
  "insertQuarantineRecord d i b reason now db = Inr db' \<Longrightarrow> db_ok db \<Longrightarrow> db_moves env V db db'"
  by (auto simp: insertQuarantineRecord_def Let_def db_ok_def quarantine_ok_def intro!: r_into_rtranclp move_quarantine split: if_splits)

lemma quarantine_blob_fields:
  assumes "quarantine_blob s b reason now = Inr (s', moved)"
  shows "so_cache s' = so_cache s" "quiet env V s s'"
  using assms by (auto simp: quarantine_blob_def remove_blob_def Let_def split: option.splits)

lemma quarantinePendingRecord_quiet:
  assumes "db_ok (so_cache s)"
  shows "quiet env V s (fst (quarantinePendingRecord e s r dd tid b err now commits))"
proof -
  let ?moved = "if classifyBlobFailure err = ''CORRUPT'' then quarantine_blob s b (classifyBlobFailure err) now else Inr (s, False)"
  show ?thesis
  proof (cases ?moved)
    case (Inl x)
    then show ?thesis by (simp add: quarantinePendingRecord_def Let_def)
  next
    case (Inr sm)
    obtain s1 m where sm: "sm = (s1, m)" by (cases sm)
    have s1: "so_cache s1 = so_cache s" "quiet env V s s1"
      using Inr sm quarantine_blob_fields by (auto split: if_splits)
    have "db_moves env V (so_cache s1) db'"
      if "and_then (insertQuarantineRecord x y b z now (so_cache s1)) (abortAttemptTx r tid fp w now) = Inr db'" for x y z w fp db'
    proof -
      from that obtain db where db: "insertQuarantineRecord x y b z now (so_cache s1) = Inr db" "abortAttemptTx r tid fp w now db = Inr db'" by auto
      have m: "db_moves env V (so_cache s1) db" using insertQuarantineRecord_move [OF db(1)] assms s1(1) by simp
      then have "db_ok db" using db_moves_ok assms s1(1) by metis
      with m abortAttemptTx_move [OF db(2)] show ?thesis by (meson rtranclp_trans)
    qed
    then show ?thesis using Inr sm s1(2) quiet_trans [OF s1(2) quiet_cache]
      by (auto simp: quarantinePendingRecord_def Let_def split: sum.splits)
  qed
qed

lemma quarantine_files_fields:
  "so_cache (fst (quarantine_files s bs now)) = so_cache s" "quiet env V s (fst (quarantine_files s bs now))"
proof -
  have "so_cache (fst (quarantine_files s bs now)) = so_cache s \<and> quiet env V s (fst (quarantine_files s bs now))"
  proof (induction s bs now rule: quarantine_files.induct)
    case (2 s blob err rest now)
    show ?case
    proof (cases "quarantine_blob s blob ''CORRUPT'' now")
      case (Inr x)
      then show ?thesis using 2 quarantine_blob_fields quiet_trans by (cases x) (auto, (metis quarantine_blob_fields(1) quarantine_blob_fields(2) quiet_trans)+)
    qed (use 2 in auto)
  qed simp
  then show "so_cache (fst (quarantine_files s bs now)) = so_cache s" "quiet env V s (fst (quarantine_files s bs now))" by simp_all
qed

lemma quarantine_records_move:
  "quarantine_records dd i bs now db = Inr db' \<Longrightarrow> db_ok db \<Longrightarrow> db_moves env V db db'"
proof (induction dd i bs now db rule: quarantine_records.induct)
  case (2 dd i blob err rest now db)
  then obtain db1 where x: "insertQuarantineRecord (nullableString dd) i blob (classifyBlobFailure err) now db = Inr db1"
    "quarantine_records dd i rest now db1 = Inr db'" by auto
  note m = insertQuarantineRecord_move [OF x(1) 2(3)]
  with 2(1) [OF x(2) db_moves_ok [OF m 2(3)]] show ?case by (meson rtranclp_trans)
qed simp

lemma invalidateDecision_quiet:
  assumes "db_ok (so_cache s)"
  shows "quiet env V s (fst (invalidateDecision s dd bs now commits))"
proof -
  obtain s1 e where s1: "quarantine_files s bs now = (s1, e)" by (cases "quarantine_files s bs now")
  then have q: "quiet env V s s1" using quarantine_files_fields(2) [of env V s bs now] by simp
  have "db_moves env V (so_cache s1) (delete_decision dd db)" if "quarantine_records dd i bs now (so_cache s1) = Inr db" for i db
    using quarantine_records_move [OF that quiet_ok [OF q assms]] move_forget by (meson rtranclp.rtrancl_into_rtrancl)
  then show ?thesis using s1 q quiet_trans [OF q quiet_cache]
    by (auto simp: invalidateDecision_def Let_def split: option.splits sum.splits)
qed

lemma indexDecision_fields:
  "so_cache (fst (indexDecision s dd now ix)) = so_cache s" "quiet env V t (fst (indexDecision s dd now ix)) = quiet env V t s"
  by (auto simp: indexDecision_def)

lemma reject_commit_quiet:
  assumes "db_ok (so_cache s)"
  shows "quiet env V s (fst (reject_commit e s r verified reason x now commits))"
  using assms by (auto simp: reject_commit_def abortRejectedAttempt_def intro!: quiet_cache intro: abortAttemptTx_move split: sum.splits if_splits)

lemma commit_tx_move:
  assumes "commit_tx env p v verified now db = Inr out" "db_ok db" "verified \<in> V"
  shows "case out of Lost db' n \<Rightarrow> db_moves env V db db' | Published db' n pr pt \<Rightarrow> db_moves env V db db'"
proof (cases out)
  case (Lost db' n)
  with assms(1) obtain r tid tfp reason where "abortAttemptTx r tid tfp reason now db = Inr db'"
    by (auto simp: commit_tx_def Let_def split: if_splits option.splits)
  with Lost abortAttemptTx_move assms(2) show ?thesis by simp
next
  case (Published db' n pr pt)
  with assms(1) have "commit_tx env p v verified now db = Inr (Published db' n pr pt)" by simp
  then obtain a K where "commit_effect env verified now (cp_StableTTL p) a K db db'" using assms(2) by (rule commit_tx_Published)
  with move_commit [OF assms(3)] Published show ?thesis by auto
qed

lemma commit_publish_quiet:
  assumes "db_ok (so_cache s)" "verified \<in> V"
  shows "quiet env V s (fst (commit_publish env s v verified now commits ix))"
proof (cases "commit_tx env (so_capacity s) v verified now (so_cache s)")
  case (Inr out)
  with commit_tx_move [OF Inr assms] show ?thesis
    by (cases out) (auto simp: commit_publish_def Let_def indexDecision_fields intro!: quiet_cache split: prod.splits
        dest!: arg_cong [of _ _ fst])
qed (simp add: commit_publish_def)

lemma CommitAttempt_quiet [quiet_intros]:
  assumes "db_ok (so_cache s)" "verified \<in> V"
  shows "quiet env V s (fst (CommitAttempt env s v epoch verified now commits ix))"
proof -
  have "quiet env V s (fst (replayCommit s r verified now ix))" for r
    by (auto simp: replayCommit_def Let_def indexDecision_fields split: option.splits prod.splits dest!: arg_cong [of _ _ fst])
  moreover have "quiet env V s (fst (quarantinePendingFailure env s r verified b e now commits))" for r b e
    unfolding quarantinePendingFailure_def by (rule quarantinePendingRecord_quiet [OF assms(1)])
  ultimately show ?thesis
    using reject_commit_quiet [OF assms(1)] commit_publish_quiet [OF assms]
    by (auto simp: CommitAttempt_def Let_def split: sum.splits option.splits prod.splits dest!: arg_cong [of _ _ fst])
qed


section \<open>Reads\<close>

lemma delete_committed_move:
  assumes "db_ok db"
  shows "db_moves env V db (fst (delete_committed sel db))"
  using assms move_drop by (auto simp: delete_committed_drop db_ok_def committed_ok_def)

lemma deleteExpired_quiet:
  assumes "db_ok (so_cache s)"
  shows "quiet env V s (deleteExpiredCommittedObjectLocked s k now)"
  using delete_committed_move [OF assms]
  by (auto simp: deleteExpiredCommittedObjectLocked_def Let_def case_prod_beta intro!: quiet_cache)

lemma touches_last_access [simp]: "touches_committed (\<lambda>c. if P c then c\<lparr>cm_last_access_unix_ms := t\<rparr> else c)"
  by (simp add: touches_committed_def committed_key_def)

lemma touches_id [simp]: "touches_committed (\<lambda>c. c)" "touches_entry (\<lambda>e. e)"
  by (simp_all add: touches_committed_def touches_entry_def)

lemma touches_segment [simp]: "touches_entry (\<lambda>e. if P e then e\<lparr>en_segment := g\<rparr> else e)"
  by (simp add: touches_entry_def entry_key_def)

lemma last_access_move:
  assumes "sql_update committed_checks sel (\<lambda>c. c\<lparr>cm_last_access_unix_ms := t\<rparr>) (db_committed db) = Inr (rs, n)" "db_ok db"
  shows "db_moves env V db (db\<lparr>db_committed := rs\<rparr>)"
proof -
  have "db_move env V db (db\<lparr>db_committed := map (\<lambda>c. if sel c then c\<lparr>cm_last_access_unix_ms := t\<rparr> else c) (db_committed db),
      db_entries := map (\<lambda>e. e) (db_entries db)\<rparr>)"
    using assms by (intro move_touch) (auto simp: sql_update_Inr db_ok_def committed_ok_def)
  then show ?thesis using assms(1) by (auto simp: sql_update_Inr)
qed

lemma set_segment_move:
  assumes "db_ok db"
  shows "db_move env V db (set_segment k g db)"
proof -
  have "db_move env V db (db\<lparr>db_committed := map (\<lambda>c. c) (db_committed db),
      db_entries := map (\<lambda>e. if entry_key e = k then e\<lparr>en_segment := g\<rparr> else e) (db_entries db)\<rparr>)"
    using assms by (intro move_touch) (auto simp: db_ok_def committed_ok_def)
  then show ?thesis by (simp add: set_segment_def)
qed

lemma demote_loop_move:
  "db_ok db \<Longrightarrow> db_moves env V db (fst (demote_loop target cs bytes n db))"
proof (induction target cs bytes n db rule: demote_loop.induct)
  case (2 target c e cs bytes n db)
  note m = set_segment_move [OF 2(2), of env V "committed_key c" PROBATION]
  show ?case using 2(1) [OF _ db_move_ok [OF m 2(2)]] m 2(2) by (auto intro: converse_rtranclp_into_rtranclp)
qed simp

lemma enforceProtectedTargetTx_move:
  "db_ok db \<Longrightarrow> db_moves env V db (fst (enforceProtectedTargetTx p db))"
  using demote_loop_move by (simp add: enforceProtectedTargetTx_def)

lemma promote_quiet:
  assumes "promoteAndBatchAccess s k g lastAccess now commits = Inr s'" "db_ok (so_cache s)"
  shows "quiet env V s s'"
proof (cases "accessUpdateRequired s g lastAccess now")
  case True
  with assms(1) obtain rs n where u: "sql_update committed_checks (\<lambda>c. committed_key c = k) (\<lambda>c. c\<lparr>cm_last_access_unix_ms := to_milli now\<rparr>)
        (db_committed (so_cache s)) = Inr (rs, n)" and
    s': "s' = s\<lparr>so_cache := if g = PROBATION then fst (enforceProtectedTargetTx (so_capacity s) (set_segment k PROTECTED ((so_cache s)\<lparr>db_committed := rs\<rparr>)))
        else (so_cache s)\<lparr>db_committed := rs\<rparr>\<rparr>"
    by (auto simp: promoteAndBatchAccess_def Let_def split: if_splits)
  let ?db1 = "(so_cache s)\<lparr>db_committed := rs\<rparr>"
  have m1: "db_moves env V (so_cache s) ?db1" using last_access_move [OF u assms(2)] .
  have ok1: "db_ok ?db1" using db_moves_ok [OF m1 assms(2)] .
  have m2: "db_move env V ?db1 (set_segment k PROTECTED ?db1)" using set_segment_move [OF ok1] .
  have m3: "db_moves env V (set_segment k PROTECTED ?db1) (fst (enforceProtectedTargetTx (so_capacity s) (set_segment k PROTECTED ?db1)))"
    using enforceProtectedTargetTx_move [OF db_move_ok [OF m2 ok1]] .
  have "db_moves env V (so_cache s) (fst (enforceProtectedTargetTx (so_capacity s) (set_segment k PROTECTED ?db1)))"
    using m1 m2 m3 by (meson rtranclp.rtrancl_into_rtrancl rtranclp_trans)
  with m1 show ?thesis by (simp add: s' quiet_cache)
qed (use assms in \<open>simp add: promoteAndBatchAccess_def\<close>)

lemma open_promote_quiet:
  assumes "db_ok (so_cache s)"
  shows "quiet env V s (fst (open_promote s bytes object now commits))"
  using deleteExpired_quiet [OF assms] promote_quiet [OF _ assms]
  by (auto simp: open_promote_def Let_def split: sum.splits prod.splits)

lemma open_finish_quiet [quiet_intros]:
  assumes "db_ok (so_cache s)"
  shows "quiet env V s (fst (open_finish s st now commits))"
  using deleteExpired_quiet [OF assms] invalidateDecision_quiet [OF assms] open_promote_quiet [OF assms]
  by (cases st) (auto simp: batchProtectedAccess_def Let_def)

lemma flush_entries_move:
  "flush_entries validAt es db = Inr db' \<Longrightarrow> db_ok db \<Longrightarrow> db_moves env V db db'"
proof (induction validAt es db rule: flush_entries.induct)
  case (2 validAt k t es db)
  then obtain rs n where u: "sql_update committed_checks (access_matches k (validAt k) db) (\<lambda>c. c\<lparr>cm_last_access_unix_ms := to_milli t\<rparr>)
      (db_committed db) = Inr (rs, n)" and f: "flush_entries validAt es (db\<lparr>db_committed := rs\<rparr>) = Inr db'" by auto
  note m = last_access_move [OF u 2(3)]
  with 2(1) [OF f db_moves_ok [OF m 2(3)]] show ?case by (meson rtranclp_trans)
qed simp

lemma flush_quiet [quiet_intros]:
  assumes "db_ok (so_cache s)"
  shows "quiet env V s (flushProtectedAccessBatch s validAt commits)"
  using assms by (auto simp: flushProtectedAccessBatch_def Let_def intro!: flush_entries_move quiet_cache split: option.splits sum.splits)
     (simp add: quiet_def flush_entries_move)


section \<open>Reconciliation and maintenance\<close>

lemma expire_loop_move:
  "expire_loop e now ids db = Inr db' \<Longrightarrow> db_ok db \<Longrightarrow> db_moves env V db db'"
proof (induction e now ids db rule: expire_loop.induct)
  case (2 e now i rest db)
  then obtain r db1 where x: "abortExpiredAttempt e r now db = Inr db1" "expire_loop e now rest db1 = Inr db'" "loadAttempt db i = Inr r" by auto
  note m = abortExpiredAttempt_move [OF x(1) 2(3)]
  with 2(1) [OF x(2) db_moves_ok [OF m 2(3)]] show ?case by (meson rtranclp_trans)
qed simp

lemma expirePendingAttempts_quiet:
  assumes "expirePendingAttempts e s now = Inr (s', n)" "db_ok (so_cache s)"
  shows "quiet env V s s'"
  using assms by (auto simp: expirePendingAttempts_def Let_def intro!: quiet_cache expire_loop_move)

lemma pending_loop_quiet:
  "db_ok (so_cache s) \<Longrightarrow> quiet env V s (fst (pending_loop e now cs processed n s))"
proof (induction e now cs processed n s rule: pending_loop.induct)
  case (2 e now i blob rest processed n s)
  have *: "quiet env V s t \<Longrightarrow> quiet env V t u \<Longrightarrow> quiet env V s u" for t u by (rule quiet_trans)
  show ?case
  proof (cases "i \<in> set processed")
    case True
    then show ?thesis using 2(1,5) by simp
  next
    case False
    show ?thesis
    proof (cases "openVerified e s blob")
      case (Inr x)
      then show ?thesis using 2(4) [OF False Inr 2(5)] False by simp
    next
      case (Inl err)
      show ?thesis
      proof (cases "loadAttempt (so_cache s) i")
        case (Inl x)
        then show ?thesis using False \<open>openVerified e s blob = Inl err\<close> by simp
      next
        case (Inr r)
        obtain s1 x where q: "quarantinePendingRecord e s r [] ''reconcile:invalid-pending'' blob err now True = (s1, x)" by fastforce
        have q1: "quiet env V s s1" using quarantinePendingRecord_quiet [OF 2(5), of env V e r "[]"] q by (metis fst_conv)
        show ?thesis
        proof (cases "as_State (rc_status r) \<noteq> AttemptPending")
          case True
          then show ?thesis using 2(2) [OF False Inl Inr True 2(5)] False Inl Inr by simp
        next
          case pending: False
          show ?thesis
          proof (cases x)
            case None
            then show ?thesis using 2(3) [OF False Inl Inr pending q [symmetric] None quiet_ok [OF q1 2(5)]] q1 False Inl Inr pending q *
              by simp
          qed (use q q1 False Inl Inr pending in simp)
        qed
      qed
    qed
  qed
qed simp

lemma invalidate_loop_quiet: "db_ok (so_cache s) \<Longrightarrow> quiet env V s (fst (invalidate_loop now invalid ds n s))"
proof (induction now invalid ds n s rule: invalidate_loop.induct)
  case (2 now invalid d rest n s)
  obtain s1 x where i: "invalidateDecision s d (map snd (filter (\<lambda>i. fst i = d) invalid)) now True = (s1, x)" by fastforce
  then have q: "quiet env V s s1" using invalidateDecision_quiet [OF 2(2), of env V d] by (metis fst_conv)
  show ?case using 2(1) [OF i [symmetric] _ quiet_ok [OF q 2(2)]] i q quiet_trans [OF q] by (cases x) auto
qed simp

lemma repair_loop_fields: "quiet env V t (fst (repair_loop now ds n s)) = quiet env V t s"
  by (induction now ds n s rule: repair_loop.induct) auto

lemma reconcile_quiet:
  assumes "db_ok (so_cache s)"
  shows "quiet env V s (fst (reconcile e s now completed))"
proof (cases "expirePendingAttempts e s now")
  case (Inl x)
  then show ?thesis by (simp add: reconcile_def)
next
  case (Inr sn)
  obtain s1 n where s1: "expirePendingAttempts e s now = Inr (s1, n)" using Inr by (cases sn) simp
  obtain s2 x where s2: "reconcilePendingObjects e s1 now = (s2, x)" by fastforce
  obtain s3 y where s3: "reconcileCommittedObjects e s2 now = (s3, y)" by fastforce
  obtain s4 z where s4: "repairAuditIndex s3 now = (s4, z)" by fastforce
  have q1: "quiet env V s s1" using expirePendingAttempts_quiet [OF s1 assms] .
  have q2: "quiet env V s1 s2"
    using pending_loop_quiet [OF quiet_ok [OF q1 assms], of env V] s2 unfolding reconcilePendingObjects_def by (metis fst_conv)
  have q3: "quiet env V s2 s3"
    using invalidate_loop_quiet [OF quiet_ok [OF q2 quiet_ok [OF q1 assms]], of env V] s3 by (auto simp: reconcileCommittedObjects_def Let_def split: prod.splits sum.splits) (metis fst_conv)+
  have q4: "quiet env V s2 s4" using q3 repair_loop_fields [of env V s2] s4 unfolding repairAuditIndex_def by (metis fst_conv)
  have "quiet env V s s2" "quiet env V s s3" "quiet env V s s4" using q1 q2 q3 q4 quiet_trans by blast+
  then show ?thesis
    by (simp add: reconcile_def s1 s2 s3 s4 deleteOrphanBlobs_def recordReconciliation_def Let_def split: sum.splits prod.splits)
qed

lemma Reconcile_quiet [quiet_intros]: "db_ok (so_cache s) \<Longrightarrow> quiet env V s (fst (Reconcile e s now completed))"
  by (simp add: Reconcile_def reconcile_quiet)

lemma enforceWatermarkTx_move: "enforceWatermarkTx p sc x db = Inr (db', a, b) \<Longrightarrow> db_move env V db db'"
  by (elim enforceWatermarkTx_drop) (simp add: move_drop)

lemma maintain_tx_move:
  assumes "maintain_tx p now db = Inr (db', counts)" "db_ok db"
  shows "db_moves env V db db'"
proof -
  let ?db1 = "fst (deleteExpiredEntries now db)"
  from assms(1) obtain db2 a b where w: "enforceWatermarkTx p no_scope [] ?db1 = Inr (db2, a, b)"
    and db': "db' = fst (expireQuarantineTx p now (fst (enforceProtectedTargetTx p db2)))"
    by (auto simp: maintain_tx_def Let_def case_prod_beta)
  have m1: "db_moves env V db ?db1" using delete_committed_move [OF assms(2)] by (simp add: deleteExpiredEntries_def)
  have m2: "db_move env V ?db1 db2" using enforceWatermarkTx_move [OF w] .
  have ok2: "db_ok db2" using db_move_ok [OF m2 db_moves_ok [OF m1 assms(2)]] .
  have m3: "db_moves env V db2 (fst (enforceProtectedTargetTx p db2))" using enforceProtectedTargetTx_move [OF ok2] .
  have m4: "db_move env V x (fst (expireQuarantineTx p now x))" if "db_ok x" for x
    using that by (auto simp: expireQuarantineTx_def Let_def db_ok_def quarantine_ok_def intro!: move_quarantine)
  show ?thesis unfolding db' using m1 m2 m3 m4 [OF db_moves_ok [OF m3 ok2]] by (meson rtranclp.rtrancl_into_rtrancl rtranclp_trans)
qed

lemma sweep_fields:
  "quiet env V t (fst (sweep_blobs s)) = quiet env V t s" "quiet env V t (fst (sweep_quarantine s now)) = quiet env V t s"
  by (auto simp: sweep_blobs_def sweep_quarantine_def deleteOrphanBlobs_def deleteExpiredQuarantineFiles_def Let_def split: prod.splits option.splits)

lemma maintain_quiet:
  assumes "db_ok (so_cache s)"
  shows "quiet env V s (fst (maintainCapacityLocked e s now completed))"
proof (cases "expirePendingAttempts e s now")
  case (Inl x)
  then show ?thesis by (simp add: maintainCapacityLocked_def)
next
  case (Inr sn)
  obtain s1 n where s1: "expirePendingAttempts e s now = Inr (s1, n)" using Inr by (cases sn) simp
  have q1: "quiet env V s s1" using expirePendingAttempts_quiet [OF s1 assms] .
  show ?thesis
  proof (cases "maintain_tx (so_capacity s1) now (so_cache s1)")
    case (Inr r)
    obtain db a b c d f where r: "r = (db, a, b, c, d, f)" by (cases r)
    have "db_moves env V (so_cache s1) db" using maintain_tx_move Inr r quiet_ok [OF q1 assms] by metis
    then have q: "quiet env V s (s1\<lparr>so_cache := db\<rparr>)" using quiet_trans [OF q1 quiet_cache] by simp
    define s2 where "s2 = cleanup_if (a > 0 \<or> b > 0 \<or> c > 0 \<or> n > 0) (s1\<lparr>so_cache := db\<rparr>)"
    obtain s3 del where s3: "sweep_blobs s2 = (s3, del)" by fastforce
    have q3: "quiet env V s s3" using q sweep_fields(1) [of env V s s2] s3 s2_def by simp
    define s4 where "s4 = (if f > 0 then s3\<lparr>so_quarantineCleanupPending := True\<rparr> else s3)"
    obtain s5 x where s5: "sweep_quarantine s4 now = (s5, x)" by fastforce
    have "quiet env V s s5" using q3 sweep_fields(2) [of env V s s4 now] s5 s4_def by simp
    then show ?thesis
      using s3 s5 by (auto simp: maintainCapacityLocked_def s1 Inr r Let_def s2_def [symmetric] s4_def [symmetric] recordCapacityMaintenance_def split: option.splits)
  qed (use s1 q1 in \<open>simp add: maintainCapacityLocked_def\<close>)
qed

lemma MaintainCapacity_quiet [quiet_intros]: "db_ok (so_cache s) \<Longrightarrow> quiet env V s (fst (MaintainCapacity e s now completed))"
  by (simp add: MaintainCapacity_def maintain_quiet)

section \<open>Opening and closing\<close>

lemma Close_quiet [quiet_intros]: "quiet env V s (fst (Close_op s))"
  by (simp add: Close_op_def quiet_def)

lemma crashed_quiet: "quiet env V s t \<Longrightarrow> so_reservations t = [] \<Longrightarrow> quiet env V s (crashed t)"
  by (simp add: quiet_def crashed_def)

lemma applyCapacityPolicy_move:
  assumes "applyCapacityPolicy p db = Inr db'" "db_ok db"
  shows "db_moves env V db db'"
proof -
  let ?g = "\<lambda>e. case find (\<lambda>c. committed_key c = entry_key e) (db_committed db) of
      None \<Rightarrow> e
    | Some c \<Rightarrow> e\<lparr>en_expires_at_unix_ms := min (en_expires_at_unix_ms e) (cm_committed_at_unix_ms c + cp_StableTTL p div 1000000)\<rparr>"
  have "db' = db\<lparr>db_committed := map (\<lambda>c. c) (db_committed db), db_entries := map ?g (db_entries db)\<rparr>"
    using assms(1) by (auto simp: applyCapacityPolicy_def Let_def sql_update_Inr split: if_splits)
  moreover have "touches_entry ?g" by (auto simp: touches_entry_def entry_key_def split: option.splits)
  moreover have "\<forall>c\<in>set (db_committed db). committed_checks c" using assms(2) by (simp add: db_ok_def committed_ok_def)
  ultimately show ?thesis using move_touch [of "\<lambda>c. c" ?g db env V] by (auto simp: r_into_rtranclp)
qed

lemma open_policy_given:
  assumes "open_policy m p disk_total = Inr p'" "validateCapacityPolicy p m"
  shows "p' = p"
proof -
  have "p \<noteq> zeroCapacityPolicy" using assms(2) by (auto simp: validateCapacityPolicy_def zeroCapacityPolicy_def)
  then show ?thesis using assms by (auto simp: open_policy_def split: if_splits)
qed

lemma boot_quiet:
  assumes "db_ok (so_cache s)" "so_reservations s = []" "validateCapacityPolicy (so_capacity s) (so_maximumBlobBytes s)"
  shows "quiet env V s
    (fst (openWithConfiguration e (so_maximumBlobBytes s) (so_capacity s) disk_total boundary ds s first second))"
proof (cases "open_policy (so_maximumBlobBytes s) (so_capacity s) disk_total")
  case (Inr p)
  then have p: "p = so_capacity s" using open_policy_given assms(3) by blast
  show ?thesis
  proof (cases "applyCapacityPolicy p (so_cache s)")
    case db: (Inr db)
    define s0 where "s0 = (crashed s)\<lparr>so_closed := False, so_cache := db, so_state_digests := ds, so_maximumBlobBytes := so_maximumBlobBytes s,
      so_capacity := p, so_minimumNamespaceGeneration := boundary\<rparr>"
    have q0: "quiet env V s s0"
      using applyCapacityPolicy_move [OF db assms(1)] assms(2) p by (simp add: quiet_def s0_def crashed_def)
    obtain s1 x where s1: "reconcile e s0 (fst first) (snd first) = (s1, x)" by fastforce
    have q1: "quiet env V s s1" using quiet_trans [OF q0] reconcile_quiet [OF quiet_ok [OF q0 assms(1)], of env V] s1 by (metis fst_conv)
    obtain s2 y where s2: "maintainCapacityLocked e s1 (fst second) (snd second) = (s2, y)" by fastforce
    have q2: "quiet env V s s2" using quiet_trans [OF q1] maintain_quiet [OF quiet_ok [OF q1 assms(1)], of env V] s2 by (metis fst_conv)
    have "so_reservations s1 = []" "so_reservations s2 = []" using q1 q2 assms(2) by (simp_all add: quiet_def)
    then show ?thesis
      using q1 q2 crashed_quiet by (auto simp: openWithConfiguration_def Inr db s0_def [symmetric] s1 s2 Let_def split: sum.splits)
  qed (simp add: openWithConfiguration_def Inr)
qed (simp add: openWithConfiguration_def)

end
