(* ===== verification/SharedBytes.thy ===== *)
theory SharedBytes
  imports SharedSystem "HOL-Library.Multiset"
begin

text \<open>
  The byte accounting of the Shared storage as sums over the tables, and what each move does to them: a commit
  turns pending bytes into stable bytes, recording an object adds exactly its size, every other move releases.
\<close>

section \<open>Joins with a unique partner\<close>

definition partner_sum :: "('x \<Rightarrow> 'y option) \<Rightarrow> ('x \<Rightarrow> 'y \<Rightarrow> bool) \<Rightarrow> ('x \<Rightarrow> int) \<Rightarrow> 'x list \<Rightarrow> int" where
  "partner_sum mate P h xs = sum_list (map (\<lambda>x. case mate x of None \<Rightarrow> 0 | Some y \<Rightarrow> if P x y then h x else 0) xs)"

lemma partner_sum_simps [simp]:
  "partner_sum mate P h [] = 0"
  "partner_sum mate P h (x # xs) = (case mate x of None \<Rightarrow> 0 | Some y \<Rightarrow> if P x y then h x else 0) + partner_sum mate P h xs"
  "partner_sum mate P h (xs @ ys) = partner_sum mate P h xs + partner_sum mate P h ys"
  by (simp_all add: partner_sum_def)

lemma sum_join_one:
  assumes "distinct (map g ys)"
  shows "sum_list (map (\<lambda>(x, y). h x) (filter (\<lambda>(x, y). g y = f x \<and> P x y) (map (Pair x) ys))) =
    (case find (\<lambda>y. g y = f x) ys of None \<Rightarrow> 0 | Some y \<Rightarrow> if P x y then h x else (0 :: int))"
  using assms
proof (induction ys)
  case (Cons y ys)
  show ?case
  proof (cases "g y = f x")
    case True
    with Cons.prems have "filter (\<lambda>(x, y). g y = f x \<and> P x y) (map (Pair x) ys) = []" by (auto simp: filter_empty_conv image_iff)
    with True show ?thesis by simp
  qed (use Cons in simp)
qed simp

lemma sum_join:
  assumes "distinct (map g ys)"
  shows "sum_list (map (\<lambda>(x, y). h x) (filter (\<lambda>(x, y). g y = f x \<and> P x y) (List.product xs ys))) =
    partner_sum (\<lambda>x. find (\<lambda>y. g y = f x) ys) P h xs"
  by (induction xs) (simp_all add: sum_join_one [OF assms])

lemma partner_sum_cong:
  assumes "\<And>x. x \<in> set xs \<Longrightarrow> mate x = mate' x" "\<And>x y. x \<in> set xs \<Longrightarrow> mate' x = Some y \<Longrightarrow> P x y = P' x y" "\<And>x. x \<in> set xs \<Longrightarrow> h x = h' x"
  shows "partner_sum mate P h xs = partner_sum mate' P' h' xs"
  using assms by (induction xs) (auto split: option.splits)

lemma partner_sum_filter_le:
  assumes "\<And>x. x \<in> set xs \<Longrightarrow> h x \<ge> 0"
  shows "partner_sum mate P h (filter Q xs) \<le> partner_sum mate P h xs"
  using assms by (induction xs) (auto split: option.splits intro: add_increasing)

lemma partner_sum_split:
  "partner_sum mate P h xs = partner_sum mate P h (filter Q xs) + partner_sum mate P h (filter (\<lambda>x. \<not> Q x) xs)"
  by (induction xs) (auto split: option.splits)

lemma partner_sum_nonneg:
  "(\<And>x. x \<in> set xs \<Longrightarrow> h x \<ge> 0) \<Longrightarrow> partner_sum mate P h xs \<ge> 0"
  by (induction xs) (auto split: option.splits)

section \<open>Stable and pending bytes\<close>

definition entry_at :: "cache_db \<Rightarrow> object_key \<Rightarrow> entry_row option" where
  "entry_at db k = find (\<lambda>e. entry_key e = k) (db_entries db)"

definition stable_bytes :: "capacityScope \<Rightarrow> cache_db \<Rightarrow> int" where
  "stable_bytes sc db = us_stableBytes (capacityUsage db sc)"

definition pending_bytes :: "capacityScope \<Rightarrow> cache_db \<Rightarrow> int" where
  "pending_bytes sc db = us_pendingBytes (capacityUsage db sc)"

definition attempt_in_scope :: "capacityScope \<Rightarrow> attempt_row \<Rightarrow> bool" where
  "attempt_in_scope sc a = in_scope sc (at_tenant_id a) (at_repository_id a) (at_trust_domain a) (at_namespace_generation a)"

lemma stable_bytes_alt:
  assumes "db_ok db"
  shows "stable_bytes sc db = partner_sum (\<lambda>c. entry_at db (committed_key c)) (\<lambda>c e. row_in_scope sc (c, e)) cm_size_bytes (db_committed db)"
proof -
  have "distinct (map entry_key (db_entries db))" using assms by (simp add: db_ok_def committed_ok_def)
  from sum_join [OF this, of cm_size_bytes committed_key "\<lambda>c e. row_in_scope sc (c, e)" "db_committed db"]
  have "sum_list (map (\<lambda>(c, e). cm_size_bytes c)
      (filter (\<lambda>(c, e). entry_key e = committed_key c \<and> row_in_scope sc (c, e)) (List.product (db_committed db) (db_entries db)))) =
    partner_sum (\<lambda>c. entry_at db (committed_key c)) (\<lambda>c e. row_in_scope sc (c, e)) cm_size_bytes (db_committed db)"
    by (simp add: entry_at_def)
  moreover have "filter (row_in_scope sc) (stable_rows db) =
      filter (\<lambda>(c, e). entry_key e = committed_key c \<and> row_in_scope sc (c, e)) (List.product (db_committed db) (db_entries db))"
    by (simp add: stable_rows_def) (rule filter_cong, auto)
  ultimately show ?thesis by (simp add: stable_bytes_def capacityUsage_def Let_def row_bytes_def)
qed

lemma pending_bytes_alt:
  assumes "db_ok db"
  shows "pending_bytes sc db = partner_sum (\<lambda>p. attempt_of db (pe_attempt_id p)) (\<lambda>p a. at_state a = AttemptPending \<and> attempt_in_scope sc a)
    pe_size_bytes (db_pending db)"
proof -
  have "distinct (map at_attempt_id (db_attempts db))" using assms by (simp add: db_ok_def attempts_ok_def)
  from sum_join [OF this, of pe_size_bytes pe_attempt_id "\<lambda>p a. at_state a = AttemptPending \<and> attempt_in_scope sc a" "db_pending db"]
  have "sum_list (map (\<lambda>(p, a). pe_size_bytes p) (filter (\<lambda>(p, a). at_attempt_id a = pe_attempt_id p \<and> at_state a = AttemptPending \<and>
      attempt_in_scope sc a) (List.product (db_pending db) (db_attempts db)))) =
    partner_sum (\<lambda>p. attempt_of db (pe_attempt_id p)) (\<lambda>p a. at_state a = AttemptPending \<and> attempt_in_scope sc a) pe_size_bytes (db_pending db)"
    by (simp add: attempt_of_def)
  moreover have "filter (pending_in_scope sc) (pending_rows db) = filter (\<lambda>(p, a). at_attempt_id a = pe_attempt_id p \<and>
      at_state a = AttemptPending \<and> attempt_in_scope sc a) (List.product (db_pending db) (db_attempts db))"
    by (simp add: pending_rows_def pending_in_scope_def attempt_in_scope_def) (rule filter_cong, auto)
  ultimately show ?thesis by (simp add: pending_bytes_def capacityUsage_def Let_def)
qed

lemma committed_size: "db_ok db \<Longrightarrow> c \<in> set (db_committed db) \<Longrightarrow> 0 \<le> cm_size_bytes c"
  by (simp add: db_ok_def committed_ok_def committed_checks_def size_column_def)

lemma pending_size: "db_ok db \<Longrightarrow> p \<in> set (db_pending db) \<Longrightarrow> 0 \<le> pe_size_bytes p"
  by (simp add: db_ok_def pending_ok_def pending_checks_def size_column_def)

lemma bytes_nonneg:
  assumes "db_ok db"
  shows "0 \<le> stable_bytes sc db" "0 \<le> pending_bytes sc db"
  using partner_sum_nonneg committed_size [OF assms] pending_size [OF assms]
  by (auto simp: stable_bytes_alt [OF assms] pending_bytes_alt [OF assms] intro!: partner_sum_nonneg)


section \<open>The effect of the moves\<close>

lemma stable_bytes_cong:
  assumes "db_ok db" "db_ok db'" "db_committed db' = db_committed db" "db_entries db' = db_entries db"
  shows "stable_bytes sc db' = stable_bytes sc db"
  by (simp add: stable_bytes_alt [OF assms(1)] stable_bytes_alt [OF assms(2)] assms(3,4) entry_at_def)

lemma pending_bytes_cong:
  assumes "db_ok db" "db_ok db'" "db_pending db' = db_pending db" "db_attempts db' = db_attempts db"
  shows "pending_bytes sc db' = pending_bytes sc db"
  by (simp add: pending_bytes_alt [OF assms(1)] pending_bytes_alt [OF assms(2)] assms(3,4) attempt_of_def)

lemma stable_bytes_drop:
  assumes "db_ok db"
  shows "stable_bytes sc (drop_keys K db) \<le> stable_bytes sc db"
proof -
  have find: "find (\<lambda>e. entry_key e = k) (filter (\<lambda>e. entry_key e \<notin> K) es) = find (\<lambda>e. entry_key e = k) es" if "k \<notin> K" for k es
    using that by (induction es) auto
  have "stable_bytes sc (drop_keys K db) = partner_sum (\<lambda>c. entry_at db (committed_key c)) (\<lambda>c e. row_in_scope sc (c, e)) cm_size_bytes
      (filter (\<lambda>c. committed_key c \<notin> K) (db_committed db))"
    unfolding stable_bytes_alt [OF drop_keys_ok [OF assms]] by (simp, rule partner_sum_cong) (auto simp: entry_at_def find)
  also have "\<dots> \<le> stable_bytes sc db"
    unfolding stable_bytes_alt [OF assms] by (rule partner_sum_filter_le) (rule committed_size [OF assms])
  finally show ?thesis .
qed

lemma stable_bytes_touch:
  assumes "db_ok db" "touches_committed f" "touches_entry g" "\<forall>c\<in>set (db_committed db). committed_checks (f c)"
  shows "stable_bytes sc (db\<lparr>db_committed := map f (db_committed db), db_entries := map g (db_entries db)\<rparr>) = stable_bytes sc db"
proof -
  have key: "committed_key (f c) = committed_key c" "cm_size_bytes (f c) = cm_size_bytes c" "entry_key (g e) = entry_key e"
    "row_in_scope sc (f c, g e) = row_in_scope sc (c, e)" for c e
    using assms(2,3) by (auto simp: touches_committed_def touches_entry_def row_in_scope_def committed_key_def)
  have find: "find (\<lambda>e. entry_key e = k) (map g es) = map_option g (find (\<lambda>e. entry_key e = k) es)" for k es
    by (induction es) (auto simp: key)
  have "partner_sum (\<lambda>c. map_option g (entry_at db (committed_key c))) (\<lambda>c e. row_in_scope sc (c, e)) cm_size_bytes (map f cs) =
      partner_sum (\<lambda>c. entry_at db (committed_key c)) (\<lambda>c e. row_in_scope sc (c, e)) cm_size_bytes cs" for cs
    by (induction cs) (auto simp: key split: option.splits)
  then show ?thesis
    by (simp add: stable_bytes_alt [OF db_ok_touch [OF assms]] stable_bytes_alt [OF assms(1)] entry_at_def find)
qed

definition object_sum :: "CommitObject list \<Rightarrow> int" where
  "object_sum bs = sum_list (map co_SizeBytes bs)"

lemma find_append_key:
  "find P (xs @ ys) = (case find P xs of None \<Rightarrow> find P ys | Some x \<Rightarrow> Some x)"
  by (induction xs) auto

lemma find_key_None: "find (\<lambda>e. f e = k) es = None \<longleftrightarrow> k \<notin> f ` set es"
  by (auto simp: find_None_iff)

lemma find_filter_key:
  "k \<notin> K \<Longrightarrow> find (\<lambda>e. f e = k) (filter (\<lambda>e. f e \<notin> K) es) = find (\<lambda>e. f e = k) es"
  by (induction es) auto

lemma find_map_key:
  assumes "distinct (map key bs)" "b \<in> set bs" "\<And>b. f (g b) = key b"
  shows "find (\<lambda>e. f e = key b) (map g bs) = Some (g b)"
  using assms by (induction bs) auto

lemma stable_bytes_commit:
  assumes "db_ok db" and c: "commit_effect env verified now ttl a K db db'"
  shows "stable_bytes sc db' \<le> stable_bytes sc db + (if attempt_in_scope sc a then object_sum (cd_Objects (vd_decision verified)) else 0)"
proof -
  let ?bs = "cd_Objects (vd_decision verified)"
  let ?st = "status_of_row db a"
  let ?row = "published_row ?st (cd_DecisionDigest (vd_decision verified)) now"
  let ?entry = "published_entry ?st now ttl"
  let ?key = "\<lambda>b. (at_tenant_id a, co_NamespaceGeneration b, co_Key b)"
  note e = commit_effectD [OF c]
  have ns: "co_NamespaceGeneration b = at_namespace_generation a" if "b \<in> set ?bs" for b
    using that unfolding e(3) by (auto simp: pendingObjects_def)
  have scope: "row_in_scope sc (?row b, ?entry b) = attempt_in_scope sc a" if "b \<in> set ?bs" for b
    using ns [OF that] by (simp add: row_in_scope_def attempt_in_scope_def published_row_def published_entry_def)
  have keys: "entry_key ` set (db_entries db) = committed_key ` set (db_committed db)"
    using assms(1) by (simp add: db_ok_def committed_ok_def)
  have old: "entry_at db' k = entry_at db k" if k: "k \<notin> K" "k \<in> committed_key ` set (db_committed db)" for k
  proof -
    obtain y where "find (\<lambda>e. entry_key e = k) (db_entries db) = Some y"
      using k(2) keys find_key_None [of entry_key k "db_entries db"] by auto
    then show ?thesis using k(1) by (simp add: e(11) entry_at_def find_append_key find_filter_key)
  qed
  have new: "entry_at db' (?key b) = Some (?entry b)" if "b \<in> set ?bs" for b
  proof -
    have "?key b \<notin> entry_key ` set (db_entries db)" using e(8) [OF that] keys by simp
    then have "find (\<lambda>e. entry_key e = ?key b) (filter (\<lambda>e. entry_key e \<notin> K) (db_entries db)) = None" unfolding find_key_None by auto
    moreover have "find (\<lambda>e. entry_key e = ?key b) (map ?entry ?bs) = Some (?entry b)"
      using e(9) that by (intro find_map_key [where key = ?key]) simp_all
    ultimately show ?thesis by (simp add: e(11) entry_at_def find_append_key)
  qed
  have "partner_sum (\<lambda>c. entry_at db' (committed_key c)) (\<lambda>c e. row_in_scope sc (c, e)) cm_size_bytes (map ?row bs) =
      (if attempt_in_scope sc a then object_sum bs else 0)" if "set bs \<subseteq> set ?bs" for bs
    using that by (induction bs) (simp_all add: new scope object_sum_def)
  moreover have "partner_sum (\<lambda>c. entry_at db' (committed_key c)) (\<lambda>c e. row_in_scope sc (c, e)) cm_size_bytes
      (filter (\<lambda>c. committed_key c \<notin> K) (db_committed db)) \<le> stable_bytes sc db"
  proof -
    have "partner_sum (\<lambda>c. entry_at db' (committed_key c)) (\<lambda>c e. row_in_scope sc (c, e)) cm_size_bytes
        (filter (\<lambda>c. committed_key c \<notin> K) (db_committed db)) =
      partner_sum (\<lambda>c. entry_at db (committed_key c)) (\<lambda>c e. row_in_scope sc (c, e)) cm_size_bytes
        (filter (\<lambda>c. committed_key c \<notin> K) (db_committed db))"
      by (rule partner_sum_cong) (auto simp: old)
    also have "\<dots> \<le> stable_bytes sc db"
      unfolding stable_bytes_alt [OF assms(1)] by (rule partner_sum_filter_le) (rule committed_size [OF assms(1)])
    finally show ?thesis .
  qed
  ultimately show ?thesis unfolding stable_bytes_alt [OF db_ok_commit [OF assms]] by (simp add: e(10))
qed


text \<open>Ending an attempt releases its pending bytes.\<close>

lemma partner_sum_all:
  assumes "\<And>x. x \<in> set xs \<Longrightarrow> mate x = Some y" "\<And>x. x \<in> set xs \<Longrightarrow> P x y = b"
  shows "partner_sum mate P h xs = (if b then sum_list (map h xs) else 0)"
  using assms by (induction xs) auto

lemma pending_bytes_end:
  assumes "db_ok db" "db_ok db'" "attempt_of db i = Some a" "at_state a = AttemptPending"
    and "db_pending db' = filter (\<lambda>p. pe_attempt_id p \<noteq> i) (db_pending db)" "db_attempts db' = db_attempts (set_attempt i f db)"
    and "\<And>x. at_attempt_id (f x) = at_attempt_id x"
  shows "pending_bytes sc db' = pending_bytes sc db -
    (if attempt_in_scope sc a then sum_list (map pe_size_bytes (filter (\<lambda>p. pe_attempt_id p = i) (db_pending db))) else 0)"
proof -
  let ?P = "\<lambda>(p :: pending_row) a. at_state a = AttemptPending \<and> attempt_in_scope sc a"
  have "attempt_of db' j = attempt_of db j" if "j \<noteq> i" for j
    using that attempt_of_set_attempt [of f, OF assms(7)] assms(6) by (simp add: attempt_of_def)
  then have "pending_bytes sc db' = partner_sum (\<lambda>p. attempt_of db (pe_attempt_id p)) ?P pe_size_bytes (filter (\<lambda>p. pe_attempt_id p \<noteq> i) (db_pending db))"
    unfolding pending_bytes_alt [OF assms(2)] assms(5) by (intro partner_sum_cong) auto
  moreover have "partner_sum (\<lambda>p. attempt_of db (pe_attempt_id p)) ?P pe_size_bytes (filter (\<lambda>p. \<not> pe_attempt_id p \<noteq> i) (db_pending db)) =
      (if attempt_in_scope sc a then sum_list (map pe_size_bytes (filter (\<lambda>p. \<not> pe_attempt_id p \<noteq> i) (db_pending db))) else 0)"
    using assms(3,4) by (intro partner_sum_all [where y = a]) auto
  ultimately show ?thesis
    unfolding pending_bytes_alt [OF assms(1)]
    using partner_sum_split [of "\<lambda>p. attempt_of db (pe_attempt_id p)" ?P pe_size_bytes "db_pending db" "\<lambda>p. pe_attempt_id p \<noteq> i"] by simp
qed

lemma sum_list_sort_key: "sum_list (map h (sort_key k xs)) = sum_list (map (h :: 'a \<Rightarrow> int) xs)"
  by (metis mset_map mset_sort sum_mset_sum_list)

lemma commit_objects_sum:
  assumes "commit_effect env verified now ttl a K db db'"
  shows "object_sum (cd_Objects (vd_decision verified)) =
    sum_list (map pe_size_bytes (filter (\<lambda>p. pe_attempt_id p = cd_AttemptID (vd_decision verified)) (db_pending db)))"
proof -
  note i = attempt_of_Some(2) [OF commit_effectD(1) [OF assms]]
  show ?thesis by (simp add: commit_effectD(3) [OF assms] object_sum_def pendingObjects_def comp_def i sum_list_sort_key)
qed

lemma commit_bytes:
  assumes "db_ok db" and c: "commit_effect env verified now ttl a K db db'"
  shows "stable_bytes sc db' + pending_bytes sc db' \<le> stable_bytes sc db + pending_bytes sc db" "pending_bytes sc db' \<le> pending_bytes sc db"
proof -
  let ?i = "cd_AttemptID (vd_decision verified)"
  note e = commit_effectD [OF c]
  have p: "pending_bytes sc db' = pending_bytes sc db - (if attempt_in_scope sc a then object_sum (cd_Objects (vd_decision verified)) else 0)"
    unfolding commit_objects_sum [OF c]
    by (rule pending_bytes_end [OF assms(1) db_ok_commit [OF assms], where f = "marked_committed env verified now"])
      (simp_all add: e(1,2,6) commit_effect_attempts [OF c])
  have "0 \<le> object_sum (cd_Objects (vd_decision verified))"
    unfolding commit_objects_sum [OF c] by (intro sum_list_nonneg) (auto intro: pending_size [OF assms(1)])
  with p stable_bytes_commit [OF assms, of sc]
  show "stable_bytes sc db' + pending_bytes sc db' \<le> stable_bytes sc db + pending_bytes sc db" "pending_bytes sc db' \<le> pending_bytes sc db" by auto
qed

lemma db_move_bytes:
  assumes "db_move env V db db'" "db_ok db"
  shows "stable_bytes sc db' + pending_bytes sc db' \<le> stable_bytes sc db + pending_bytes sc db \<and> pending_bytes sc db' \<le> pending_bytes sc db"
proof -
  note ok' = db_move_ok [OF assms]
  from assms(1) show ?thesis
  proof cases
    case (move_start a)
    have "attempt_of db' (pe_attempt_id p) = attempt_of db (pe_attempt_id p)" if p: "p \<in> set (db_pending db)" for p
    proof -
      obtain x where "x \<in> set (db_attempts db)" "at_attempt_id x = pe_attempt_id p"
        using assms(2) p unfolding db_ok_def pending_ok_def by blast
      then have "pe_attempt_id p \<in> at_attempt_id ` set (db_attempts db)" by force
      then obtain y where "attempt_of db (pe_attempt_id p) = Some y"
        using find_key_None [of at_attempt_id "pe_attempt_id p" "db_attempts db"] unfolding attempt_of_def by blast
      then show ?thesis by (simp add: move_start(1) attempt_of_def find_append_key)
    qed
    then have "pending_bytes sc db' = pending_bytes sc db"
      unfolding pending_bytes_alt [OF assms(2)] pending_bytes_alt [OF ok'] by (simp add: move_start(1), intro partner_sum_cong) auto
    with stable_bytes_cong [OF assms(2) ok'] show ?thesis by (simp add: move_start(1))
  next
    case (move_authority x)
    then show ?thesis using stable_bytes_cong [OF assms(2) ok'] pending_bytes_cong [OF assms(2) ok'] by simp
  next
    case (move_abort i a tid tfp reason now)
    have "pending_bytes sc db' = pending_bytes sc db -
        (if attempt_in_scope sc a then sum_list (map pe_size_bytes (filter (\<lambda>p. pe_attempt_id p = i) (db_pending db))) else 0)"
      by (rule pending_bytes_end [OF assms(2) ok', where f = "marked_aborted tid tfp reason now"]) (simp_all add: move_abort)
    moreover have "0 \<le> sum_list (map pe_size_bytes (filter (\<lambda>p. pe_attempt_id p = i) (db_pending db)))"
      by (intro sum_list_nonneg) (auto intro: pending_size [OF assms(2)])
    ultimately show ?thesis using stable_bytes_cong [OF assms(2) ok'] by (simp add: move_abort)
  next
    case (move_commit verified now ttl a K)
    then show ?thesis using commit_bytes [OF assms(2)] by blast
  next
    case (move_drop K)
    then show ?thesis using stable_bytes_drop [OF assms(2)] pending_bytes_cong [OF assms(2) ok'] by simp
  next
    case (move_touch f g)
    then show ?thesis using stable_bytes_touch [OF assms(2)] pending_bytes_cong [OF assms(2) ok'] by simp
  next
    case (move_quarantine q)
    then show ?thesis using stable_bytes_cong [OF assms(2) ok'] pending_bytes_cong [OF assms(2) ok'] by simp
  next
    case (move_forget dd)
    let ?db = "drop_keys (keys_of (\<lambda>c. cm_decision_digest c = dd) db) db"
    have "stable_bytes sc db' = stable_bytes sc ?db"
      using move_forget delete_decision_drop [OF assms(2)] by (intro stable_bytes_cong [OF drop_keys_ok [OF assms(2)] ok']) simp_all
    moreover have "pending_bytes sc db' = pending_bytes sc db"
      using move_forget delete_decision_drop [OF assms(2)] by (intro pending_bytes_cong [OF assms(2) ok']) simp_all
    ultimately show ?thesis using stable_bytes_drop [OF assms(2)] by simp
  qed
qed

lemma db_moves_bytes:
  assumes "db_moves env V db db'" "db_ok db"
  shows "stable_bytes sc db' + pending_bytes sc db' \<le> stable_bytes sc db + pending_bytes sc db \<and> pending_bytes sc db' \<le> pending_bytes sc db"
  using assms
proof (induction rule: rtranclp_induct)
  case (step y z)
  then show ?case using db_move_bytes [OF step(2) db_moves_ok [OF step(1)], of sc] by linarith
qed simp

lemma db_put_bytes:
  assumes "db_put i key blob now db db'" "db_ok db" "attempt_of db i = Some a"
  shows "stable_bytes sc db' = stable_bytes sc db"
    "pending_bytes sc db' = pending_bytes sc db + (if attempt_in_scope sc a then bl_Size blob else 0)"
proof -
  note ok' = db_ok_put [OF assms(2,1)]
  let ?p = "\<lparr>pe_attempt_id = i, pe_cache_key = key, pe_blob_digest = bl_Digest blob, pe_size_bytes = bl_Size blob,
                  pe_created_at_unix_ms = to_milli now\<rparr>"
  let ?P = "\<lambda>(p :: pending_row) a. at_state a = AttemptPending \<and> attempt_in_scope sc a"
  have a: "at_state a = AttemptPending" and db': "db' = set_attempt i (marked_updated now) (db\<lparr>db_pending := db_pending db @ [?p]\<rparr>)"
    using assms(1,3) by (auto simp: db_put_def Let_def)
  have pend: "db_pending db' = db_pending db @ [?p]" by (simp add: db')
  show "stable_bytes sc db' = stable_bytes sc db" using stable_bytes_cong [OF assms(2) ok'] db' by simp
  have at: "attempt_of db' j = (if j = i then map_option (marked_updated now) (attempt_of db i) else attempt_of db j)" for j
    using attempt_of_set_attempt [of "marked_updated now" i "db\<lparr>db_pending := db_pending db @ [?p]\<rparr>" j] db' by (simp add: attempt_of_def)
  have scope: "attempt_in_scope sc (marked_updated now x) = attempt_in_scope sc x" for x by (simp add: attempt_in_scope_def marked_updated_def)
  have "partner_sum (\<lambda>p. attempt_of db' (pe_attempt_id p)) ?P pe_size_bytes ps = partner_sum (\<lambda>p. attempt_of db (pe_attempt_id p)) ?P pe_size_bytes ps" for ps
    by (induction ps) (auto simp: at scope assms(3) split: option.splits)
  then show "pending_bytes sc db' = pending_bytes sc db + (if attempt_in_scope sc a then bl_Size blob else 0)"
    unfolding pending_bytes_alt [OF assms(2)] pending_bytes_alt [OF ok'] using at [of i] by (simp add: pend assms(3) a scope)
qed

section \<open>Stable bytes\<close>

text \<open>Only a commit adds stable bytes.\<close>

lemma db_move_stable:
  assumes "db_move env {} db db'" "db_ok db"
  shows "stable_bytes sc db' \<le> stable_bytes sc db"
proof -
  note ok' = db_move_ok [OF assms]
  have same: "stable_bytes sc db' = stable_bytes sc db" if "db_committed db' = db_committed db" "db_entries db' = db_entries db"
    using stable_bytes_cong [OF assms(2) ok' that] .
  from assms(1) show ?thesis
  proof cases
    case (move_abort i a tid tfp reason now)
    then show ?thesis using same by (simp add: delete_pending_def)
  next
    case (move_drop K)
    then show ?thesis using stable_bytes_drop [OF assms(2)] by simp
  next
    case (move_touch f g)
    then show ?thesis using stable_bytes_touch [OF assms(2)] by simp
  next
    case (move_forget dd)
    let ?db = "drop_keys (keys_of (\<lambda>c. cm_decision_digest c = dd) db) db"
    have "stable_bytes sc db' = stable_bytes sc ?db"
      using move_forget delete_decision_drop [OF assms(2)] by (intro stable_bytes_cong [OF drop_keys_ok [OF assms(2)] ok']) simp_all
    then show ?thesis using stable_bytes_drop [OF assms(2)] by simp
  qed (use same in simp_all)
qed

lemma db_moves_stable:
  assumes "db_moves env {} db db'" "db_ok db"
  shows "stable_bytes sc db' \<le> stable_bytes sc db"
  using assms
proof (induction rule: rtranclp_induct)
  case (step y z)
  then show ?case using db_move_stable [OF step(2) db_moves_ok [OF step(1)], of sc] by linarith
qed simp

definition stable_within :: "CapacityPolicy \<Rightarrow> cache_db \<Rightarrow> bool" where
  "stable_within p db \<longleftrightarrow> stable_bytes no_scope db \<le> cp_DeploymentBytes p \<and>
     (\<forall>sc. sc_repository sc \<noteq> [] \<and> sc_namespaceGeneration sc = 0 \<longrightarrow> stable_bytes sc db \<le> cp_RepositoryBytes p)"

lemma stable_within_le:
  assumes "stable_within p db" "\<And>sc. stable_bytes sc db' \<le> stable_bytes sc db"
  shows "stable_within p db'"
  using assms unfolding stable_within_def by (meson order_trans)

lemma product_filter: "List.product (filter P xs) (filter Q ys) = filter (\<lambda>(x, y). P x \<and> Q y) (List.product xs ys)"
proof -
  have one: "filter (\<lambda>(x, y). P x \<and> Q y) (map (Pair x) ys) = (if P x then map (Pair x) (filter Q ys) else [])" for x
    by (induction ys) auto
  show ?thesis by (induction xs) (simp_all add: one)
qed

text \<open>The rows that an eviction leaves have no more bytes, whatever else the database holds.\<close>

lemma stable_bytes_evicted:
  assumes "db_committed db' = filter (\<lambda>c. committed_key c \<notin> K) (db_committed db)" "db_entries db' = filter (\<lambda>e. entry_key e \<notin> K) (db_entries db)"
    and "\<And>c. c \<in> set (db_committed db) \<Longrightarrow> 0 \<le> cm_size_bytes c"
  shows "stable_bytes sc db' \<le> stable_bytes sc db"
proof -
  let ?P = "\<lambda>(c, e). committed_key c \<notin> K \<and> entry_key e \<notin> K"
  have rows: "filter (row_in_scope sc) (stable_rows db') = filter ?P (filter (row_in_scope sc) (stable_rows db))"
    unfolding stable_rows_def assms(1,2) product_filter filter_filter by (rule filter_cong) auto
  have "sum_list (map (\<lambda>(c, e). cm_size_bytes c) (filter ?P xs)) \<le> sum_list (map (\<lambda>(c, e). cm_size_bytes c) xs)"
    if "\<And>c e. (c, e) \<in> set xs \<Longrightarrow> 0 \<le> cm_size_bytes c" for xs :: "(committed_row \<times> entry_row) list"
    using that by (induction xs) (auto intro: add_increasing)
  moreover have "0 \<le> cm_size_bytes c" if "(c, e) \<in> set (filter (row_in_scope sc) (stable_rows db))" for c e
    using that assms(3) by (auto simp: stable_rows_def)
  ultimately have "row_bytes (filter ?P (filter (row_in_scope sc) (stable_rows db))) \<le> row_bytes (filter (row_in_scope sc) (stable_rows db))"
    unfolding row_bytes_def by blast
  then show ?thesis unfolding stable_bytes_def capacityUsage_def Let_def usage.simps rows .
qed

lemma enforceCommitCapacityTx_limits:
  assumes "enforceCommitCapacityTx p sc x db = Inr out"
  shows "stable_bytes (repositoryScope sc) db \<le> cp_RepositoryBytes p" "stable_bytes no_scope db \<le> cp_DeploymentBytes p"
  using assms by (auto simp: enforceCommitCapacityTx_def stable_bytes_def split: if_splits)

lemma commit_tx_within:
  assumes "commit_tx env p v verified now db = Inr (Published db' n pr pt)" "db_ok db" "stable_within p db"
  shows "stable_within p db'"
proof -
  let ?d = "vd_decision verified"
  obtain b K where effect: "commit_effect env verified now (cp_StableTTL p) b K db db'"
    by (rule commit_tx_Published [OF assms(1,2)]) (rule that)
  obtain a bs db1 db2 db3 rs where a: "attempt_of db (cd_AttemptID ?d) = Some a"
    and c: "insert_decision (decision_of verified now) db = Inr db1"
      "publish_loop (status_of_row db a) (cd_DecisionDigest ?d) now (cp_StableTTL p) bs db1 = Inr db2"
      "enforceCommitCapacityTx p (attempt_scope (status_of_row db a)) (cd_DecisionDigest ?d) db2 = Inr (db3, pr, pt)"
      "db' = delete_pending (\<lambda>q. pe_attempt_id q = cd_AttemptID ?d) (db3\<lparr>db_attempts := rs\<rparr>)"
    by (rule commit_tx_sections [OF assms(1)]) (rule that, assumption+)
  have "b = a" using commit_effectD(1) [OF effect] a by simp
  have db1: "db_committed db1 = db_committed db" using c(1) by (auto simp: insert_decision_Inr)
  note db2 = publish_loop_Inr [OF c(2)]
  have keys: "distinct (map committed_key (db_committed db2))"
    using db2(2) assms(2) db1 by (simp add: db_ok_def committed_ok_def)
  have dd: "cd_DecisionDigest ?d \<noteq> []" using c(1) by (auto simp: insert_decision_Inr decision_checks_def digest_column_def decision_of_def)
  obtain L where L: "db3 = drop_keys L db2" using enforceCommitCapacityTx_drop [OF c(3) keys dd] .
  have sizes: "0 \<le> cm_size_bytes x" if "x \<in> set (db_committed db2)" for x
  proof -
    have "committed_checks x" using that db2 db1 assms(2) by (auto simp: db_ok_def committed_ok_def)
    then show ?thesis by (simp add: committed_checks_def size_column_def)
  qed
  have le: "stable_bytes sc db' \<le> stable_bytes sc db2" for sc
    by (rule stable_bytes_evicted [where K = L]) (simp_all add: c(4) L delete_pending_def sizes)
  note limits = enforceCommitCapacityTx_limits [OF c(3)]
  show ?thesis unfolding stable_within_def
  proof (intro conjI allI impI)
    show "stable_bytes no_scope db' \<le> cp_DeploymentBytes p" using le [of no_scope] limits(2) by linarith
    fix sc :: capacityScope assume sc: "sc_repository sc \<noteq> [] \<and> sc_namespaceGeneration sc = 0"
    show "stable_bytes sc db' \<le> cp_RepositoryBytes p"
    proof (cases "attempt_in_scope sc a")
      case True
      then have "repositoryScope (attempt_scope (status_of_row db a)) = sc"
        using sc by (auto simp: attempt_in_scope_def in_scope_def attempt_scope_def repositoryScope_def intro!: capacityScope.equality)
      then show ?thesis using le [of sc] limits(1) by simp
    next
      case False
      then have "stable_bytes sc db' \<le> stable_bytes sc db" using stable_bytes_commit [OF assms(2) effect, of sc] \<open>b = a\<close> by simp
      then show ?thesis using assms(3) sc unfolding stable_within_def by (meson order_trans)
    qed
  qed
qed

end
