(* ===== verification/Lifecycle.thy ===== *)
theory Lifecycle
  imports Main
begin

text \<open>
  Contracts that durable components share. First, the contract of a table of versioned rows whose life ends in a terminal state, and what every client may
  conclude from it: a terminal row is final, versions grow, and an unchanged version means an unchanged row, so
  that a check of the expected version detects every intermediate change.
\<close>

locale versioned_lifecycle =
  fixes step :: "'s \<Rightarrow> 's \<Rightarrow> bool" and good :: "'s \<Rightarrow> bool" and row :: "'s \<Rightarrow> 'i \<Rightarrow> 'r option"
    and terminal :: "'r \<Rightarrow> bool" and version :: "'r \<Rightarrow> int" and binding :: "'r \<Rightarrow> 'b"
  assumes good_step: "good s \<Longrightarrow> step s s' \<Longrightarrow> good s'"
    and row_step: "good s \<Longrightarrow> step s s' \<Longrightarrow> row s i = Some r \<Longrightarrow>
      \<exists>r'. row s' i = Some r' \<and> binding r' = binding r \<and> (r' = r \<or> (\<not> terminal r \<and> version r < version r'))"
begin

lemma good_run: "step\<^sup>*\<^sup>* s s' \<Longrightarrow> good s \<Longrightarrow> good s'"
  by (induction rule: rtranclp_induct) (auto intro: good_step)

lemma row_run:
  assumes "step\<^sup>*\<^sup>* s s'" "good s" "row s i = Some r"
  shows "\<exists>r'. row s' i = Some r' \<and> binding r' = binding r \<and> (r' = r \<or> (\<not> terminal r \<and> version r < version r'))"
  using assms
proof (induction rule: rtranclp_induct)
  case (step y z)
  then obtain r1 where r1: "row y i = Some r1" "binding r1 = binding r" "r1 = r \<or> (\<not> terminal r \<and> version r < version r1)" by blast
  from row_step [OF good_run [OF step(1,4)] step(2) r1(1)] obtain r2 where
    "row z i = Some r2" "binding r2 = binding r1" "r2 = r1 \<or> (\<not> terminal r1 \<and> version r1 < version r2)" by blast
  with r1 show ?case by auto
qed simp

lemma terminal_final:
  assumes "step\<^sup>*\<^sup>* s s'" "good s" "row s i = Some r" "terminal r"
  shows "row s' i = Some r"
  using row_run [OF assms(1-3)] assms(4) by auto

lemma version_mono:
  assumes "step\<^sup>*\<^sup>* s s'" "good s" "row s i = Some r" "row s' i = Some r'"
  shows "version r \<le> version r'" "version r = version r' \<Longrightarrow> r' = r"
  using row_run [OF assms(1-3)] assms(4) by auto

end

text \<open>
  The contract of a write-once table: a step may publish at keys that are free and may withdraw what is
  published, but it never replaces a value.
\<close>

locale write_once =
  fixes step :: "'s \<Rightarrow> 's \<Rightarrow> bool" and good :: "'s \<Rightarrow> bool" and published :: "'s \<Rightarrow> 'k \<Rightarrow> 'v option"
  assumes good_kept: "good s \<Longrightarrow> step s s' \<Longrightarrow> good s'"
    and never_replaced: "good s \<Longrightarrow> step s s' \<Longrightarrow> published s k = Some v \<Longrightarrow> published s' k = None \<or> published s' k = Some v"
begin

lemma run_good: "step\<^sup>*\<^sup>* s s' \<Longrightarrow> good s \<Longrightarrow> good s'"
  by (induction rule: rtranclp_induct) (auto intro: good_kept)

text \<open>While a key stays published its value does not change.\<close>

lemma stable_while_published:
  assumes "(\<lambda>s s'. step s s' \<and> published s' k \<noteq> None)\<^sup>*\<^sup>* s s'" "good s" "published s k = Some v"
  shows "published s' k = Some v"
  using assms
proof (induction rule: rtranclp_induct)
  case (step y z)
  have "step\<^sup>*\<^sup>* s y" using step(1) by (rule rtranclp_mono [THEN predicate2D, rotated]) auto
  then have "good y" using run_good step(4) by blast
  with never_replaced [of y z k v] step show ?case by auto
qed simp

end

text \<open>
  A register whose update rule accepts a new value only if it is above the old one in a transitive order. The
  histories of such a register never roll back, not even over many updates.
\<close>

locale monotone_register =
  fixes accepts :: "'s \<Rightarrow> 's \<Rightarrow> bool" and above :: "'s \<Rightarrow> 's \<Rightarrow> bool"
  assumes accepts_above: "accepts c n \<Longrightarrow> above c n"
    and above_refl: "above c c"
    and above_trans: "above a b \<Longrightarrow> above b c \<Longrightarrow> above a c"
begin

lemma history_above: "accepts\<^sup>*\<^sup>* c n \<Longrightarrow> above c n"
  by (induction rule: rtranclp_induct) (auto intro: above_refl above_trans accepts_above)

end

end
