(* ===== verification/SharedRuns.thy ===== *)
theory SharedRuns
  imports SharedBytes Lifecycle
begin

text \<open>
  The steps of the Shared storage and the invariants of every run: the database invariant, the link between a
  put that is under way and its reservation, the authorisation of everything published, and the byte budgets.
\<close>

section \<open>Steps\<close>

text \<open>
  A step is one critical section. \<open>PutPendingSized\<close> takes one step per section, with its progress kept in a \<open>put\<close>
  under the key of its reservation; it holds the read side of the reconciliation and operation mutexes, so
  reconciliation, maintenance and closing see no put under way. \<open>step_disk\<close> stands for everything else that
  touches the files (corruption, typed state, a failed publication), \<open>step_crash\<close> ends the process at any moment,
  and \<open>step_boot\<close> opens the storage again with the same configuration. The answers \<open>observed\<close> of the usage queries of
  a reservation that grows are arbitrary, which covers every commit and every other step between them. \<open>V\<close> is the set of decisions that
  commits are called with.
\<close>

datatype put_phase = Reading string | Stored Blob bool | Sized Blob bool | Finished

record put =
  pt_attempt :: string
  pt_key :: string
  pt_generation :: int
  pt_phase :: put_phase

type_synonym config = "Storage \<times> (nat \<Rightarrow> put option)"

definition advance :: "(nat \<Rightarrow> put option) \<Rightarrow> nat \<Rightarrow> put \<Rightarrow> put_phase \<Rightarrow> nat \<Rightarrow> put option" where
  "advance ps rid pt phase = ps(rid \<mapsto> pt\<lparr>pt_phase := phase\<rparr>)"

inductive shared_step :: "environment \<Rightarrow> VerifiedCommitDecision set \<Rightarrow> config \<Rightarrow> config \<Rightarrow> bool" for env V where
  step_start: "shared_step env V (s, ps) (fst (StartAttempt env s q now), ps)"
| step_status: "shared_step env V (s, ps) (fst (AttemptStatus_op env s i now now'), ps)"
| step_abort: "shared_step env V (s, ps) (fst (AbortAttempt env s ar now commits), ps)"
| step_commit: "verified \<in> V \<Longrightarrow> shared_step env V (s, ps) (fst (CommitAttempt env s v epoch verified now commits indexes), ps)"
| step_open: "shared_step env V (s, ps) (fst (open_finish s st now commits), ps)"
| step_flush: "shared_step env V (s, ps) (flushProtectedAccessBatch s validAt commits, ps)"
| step_reconcile: "ps = Map.empty \<Longrightarrow> shared_step env V (s, ps) (fst (Reconcile env s now completed), ps)"
| step_maintain: "ps = Map.empty \<Longrightarrow> shared_step env V (s, ps) (fst (MaintainCapacity env s now completed), ps)"
| step_refused: "put_admit env s i key declared now available = (s', Inl e) \<Longrightarrow> shared_step env V (s, ps) (s', ps)"
| step_admitted: "put_admit env s i key declared now available = (s', Inr (rid, generation)) \<Longrightarrow>
    shared_step env V (s, ps) (s', ps(rid \<mapsto> \<lparr>pt_attempt = i, pt_key = key, pt_generation = generation, pt_phase = Reading []\<rparr>))"
| step_read: "ps rid = Some pt \<Longrightarrow> pt_phase pt = Reading received \<Longrightarrow>
    reservationRead observed s rid (int (length received)) (int (length part)) available = Inr (s', written) \<Longrightarrow>
    shared_step env V (s, ps) (s', advance ps rid pt (Reading (received @ part)))"
| step_store: "ps rid = Some pt \<Longrightarrow> pt_phase pt = Reading received \<Longrightarrow> putLocked env s received = (s', Inr (blob, created)) \<Longrightarrow>
    shared_step env V (s, ps) (s', advance ps rid pt (Stored blob created))"
| step_size: "ps rid = Some pt \<Longrightarrow> pt_phase pt = Stored blob created \<Longrightarrow>
    resizePendingReservationLocked observed s rid (bl_Size blob) (bl_Size blob) available = Inr s' \<Longrightarrow>
    shared_step env V (s, ps) (s', advance ps rid pt (Sized blob created))"
| step_record: "ps rid = Some pt \<Longrightarrow> pt_phase pt = Sized blob created \<Longrightarrow>
    shared_step env V (s, ps) (fst (put_record env s (pt_attempt pt) (pt_key pt) (pt_generation pt) blob created now commits),
      advance ps rid pt Finished)"
| step_broken: "ps rid = Some pt \<Longrightarrow> pt_phase pt = Reading received \<Longrightarrow> shared_step env V (s, ps) (s, advance ps rid pt Finished)"
| step_oversized: "ps rid = Some pt \<Longrightarrow> pt_phase pt = Stored blob created \<Longrightarrow>
    resizePendingReservationLocked observed s rid (bl_Size blob) (bl_Size blob) available = Inl e \<Longrightarrow>
    shared_step env V (s, ps) (cleanup_if created s, advance ps rid pt Finished)"
| step_release: "ps rid = Some pt \<Longrightarrow> pt_phase pt = Finished \<Longrightarrow>
    shared_step env V (s, ps) (releasePendingReservation s rid, ps(rid := None))"
| step_close: "ps = Map.empty \<Longrightarrow> shared_step env V (s, ps) (fst (Close_op s), ps)"
| step_crash: "shared_step env V (s, ps) (crashed s, Map.empty)"
| step_boot: "so_closed s \<Longrightarrow> ps = Map.empty \<Longrightarrow> validateCapacityPolicy (so_capacity s) (so_maximumBlobBytes s) \<Longrightarrow>
    shared_step env V (s, ps)
      (fst (openWithConfiguration env (so_maximumBlobBytes s) (so_capacity s) disk_total boundary ds s first second), ps)"
| step_disk: "shared_step env V (s, ps) (s\<lparr>so_blobs := bs, so_state_digests := ds\<rparr>, ps)"

section \<open>Attempts\<close>

definition attempt_binding :: "attempt_row \<Rightarrow> attempt_row" where
  "attempt_binding a = a\<lparr>at_state := AttemptPending, at_state_version := 0, at_terminal_id := None, at_terminal_fingerprint := None,
     at_decision_digest := None, at_abort_reason := None, at_updated_at_unix_ms := 0\<rparr>"

definition attempt_follows :: "attempt_row \<Rightarrow> attempt_row \<Rightarrow> bool" where
  "attempt_follows a a' = (attempt_binding a' = attempt_binding a \<and>
     (a' = a \<or> (at_state a = AttemptPending \<and> at_state_version a < at_state_version a')))"

lemma attempt_follows_refl [simp]: "attempt_follows a a"
  by (simp add: attempt_follows_def)

lemma attempt_follows_trans: "attempt_follows a b \<Longrightarrow> attempt_follows b c \<Longrightarrow> attempt_follows a c"
  by (auto simp: attempt_follows_def)

lemma attempt_follows_marked:
  assumes "at_state a = AttemptPending"
  shows "attempt_follows a (marked_aborted tid tfp reason now a)" "attempt_follows a (marked_updated now a)"
    "attempt_follows a (marked_committed env v now a)"
  using assms by (simp_all add: attempt_follows_def attempt_binding_def marked_aborted_def marked_updated_def marked_committed_def)

lemma binding_scope:
  assumes "attempt_binding a' = attempt_binding a"
  shows "attempt_in_scope sc a' = attempt_in_scope sc a" "attempt_scope (status_of_row db' a') = attempt_scope (status_of_row db a)"
proof -
  have f: "f (attempt_binding a') = f (attempt_binding a)" for f :: "attempt_row \<Rightarrow> 'x" using assms by simp
  have "at_tenant_id a' = at_tenant_id a" "at_repository_id a' = at_repository_id a" "at_trust_domain a' = at_trust_domain a"
    "at_namespace_generation a' = at_namespace_generation a"
    using f [of at_tenant_id] f [of at_repository_id] f [of at_trust_domain] f [of at_namespace_generation] by (simp_all add: attempt_binding_def)
  then show "attempt_in_scope sc a' = attempt_in_scope sc a" "attempt_scope (status_of_row db' a') = attempt_scope (status_of_row db a)"
    by (simp_all add: attempt_in_scope_def attempt_scope_def)
qed

lemma attempt_set_follows:
  assumes "attempt_of db i = Some a" "attempt_follows a (f a)" "\<And>x. at_attempt_id (f x) = at_attempt_id x"
    and "attempt_of db j = Some b" "db_attempts db' = db_attempts (set_attempt i f db)"
  shows "\<exists>b'. attempt_of db' j = Some b' \<and> attempt_follows b b'"
  using attempt_of_set_attempt [of f, OF assms(3), of i db j] assms by (auto simp: attempt_of_def split: if_splits)

lemma db_move_attempt:
  assumes "db_move env V db db'" "attempt_of db j = Some b"
  shows "\<exists>b'. attempt_of db' j = Some b' \<and> attempt_follows b b'"
  using assms(1)
proof cases
  case (move_start a)
  then show ?thesis using assms(2) by (simp add: attempt_of_def find_append_key)
next
  case (move_abort i a tid tfp reason now)
  then show ?thesis
    using attempt_set_follows [where f = "marked_aborted tid tfp reason now", OF move_abort(2) _ _ assms(2)] attempt_follows_marked by simp
next
  case (move_commit verified now ttl a K)
  note c = commit_effectD(1,2) [OF move_commit(2)]
  show ?thesis
    using attempt_set_follows [where f = "marked_committed env verified now", OF c(1) _ _ assms(2) commit_effect_attempts [OF move_commit(2)]]
      attempt_follows_marked(3) [OF c(2)] by simp
next
  case (move_forget dd)
  then show ?thesis using assms(2) by (simp add: attempt_of_def delete_decision_def delete_committed_def Let_def)
qed (use assms(2) in \<open>auto simp: attempt_of_def\<close>)

lemma db_moves_attempt:
  assumes "db_moves env V db db'" "attempt_of db j = Some b"
  shows "\<exists>b'. attempt_of db' j = Some b' \<and> attempt_follows b b'"
  using assms
proof (induction rule: rtranclp_induct)
  case (step y z)
  then show ?case using db_move_attempt attempt_follows_trans by blast
qed simp

lemma db_put_attempt:
  assumes "db_put i key blob now db db'" "attempt_of db j = Some b"
  shows "\<exists>b'. attempt_of db' j = Some b' \<and> attempt_follows b b'"
proof -
  from assms(1) obtain a p where a: "attempt_of db i = Some a" "at_state a = AttemptPending"
    and db': "db' = set_attempt i (marked_updated now) (db\<lparr>db_pending := db_pending db @ [p]\<rparr>)"
    by (auto simp: db_put_def Let_def)
  show ?thesis using attempt_set_follows [where f = "marked_updated now", OF a(1) _ _ assms(2), of db'] attempt_follows_marked(2) [OF a(2)] db'
    by simp
qed


section \<open>Puts\<close>

lemma put_admit_refused:
  assumes "put_admit env s i key declared now available = (s', Inl e)" "db_ok (so_cache s)"
  shows "quiet env V s s'"
  using assms by (auto simp: put_admit_def intro!: quiet_cache abortExpiredAttempt_move split: if_splits sum.splits)

lemma reservePending_Inr:
  assumes "reservePendingLocked s sc declared available = Inr (s', rid)" "declared \<ge> -1" "0 \<le> so_maximumBlobBytes s"
  obtains amount where "rid = so_next_reservation s" "0 \<le> amount" "amount \<le> so_maximumBlobBytes s" "\<not> admission_exceeded (capacityUsage (so_cache s)) s sc amount"
    "s' = s\<lparr>so_reservations := (so_next_reservation s, \<lparr>rs_scope = sc, rs_amount = amount\<rparr>) # so_reservations s,
            so_next_reservation := Suc (so_next_reservation s)\<rparr>"
proof -
  define amount where "amount = (if declared < 0 then so_maximumBlobBytes s else declared)"
  have "\<not> amount > so_maximumBlobBytes s" "\<not> admission_exceeded (capacityUsage (so_cache s)) s sc amount" "rid = so_next_reservation s"
    "s' = s\<lparr>so_reservations := (so_next_reservation s, \<lparr>rs_scope = sc, rs_amount = amount\<rparr>) # so_reservations s,
            so_next_reservation := Suc (so_next_reservation s)\<rparr>"
    using assms(1) by (auto simp: reservePendingLocked_def amount_def [symmetric] Let_def split: if_splits option.splits prod.splits)
  moreover have "0 \<le> amount" using assms(2,3) by (simp add: amount_def)
  ultimately show ?thesis using that by simp
qed

lemma put_admit_admitted:
  assumes "put_admit env s i key declared now available = (s', Inr (rid, generation))" "0 \<le> so_maximumBlobBytes s"
  obtains a amount where "attempt_of (so_cache s) i = Some a" "at_state a = AttemptPending" "rid = so_next_reservation s" "0 \<le> amount"
    "\<not> admission_exceeded (capacityUsage (so_cache s)) s (attempt_scope (status_of_row (so_cache s) a)) amount"
    "s' = s\<lparr>so_reservations := (rid, \<lparr>rs_scope = attempt_scope (status_of_row (so_cache s) a), rs_amount = amount\<rparr>) # so_reservations s,
            so_next_reservation := Suc (so_next_reservation s)\<rparr>"
proof -
  from assms(1) obtain a where a: "attempt_of (so_cache s) i = Some a"
    by (cases "attempt_of (so_cache s) i") (auto simp: put_admit_def loadAttempt_def split: if_splits)
  have r: "reservePendingLocked s (attempt_scope (status_of_row (so_cache s) a)) declared available = Inr (s', rid)"
      "declared \<ge> -1" "at_state a = AttemptPending"
    using assms(1) a by (auto simp: put_admit_def loadAttempt_def split: if_splits sum.splits)
  from r(1,2) assms(2) obtain amount where "rid = so_next_reservation s" "0 \<le> amount"
      "\<not> admission_exceeded (capacityUsage (so_cache s)) s (attempt_scope (status_of_row (so_cache s) a)) amount"
      "s' = s\<lparr>so_reservations := (so_next_reservation s, \<lparr>rs_scope = attempt_scope (status_of_row (so_cache s) a), rs_amount = amount\<rparr>) # so_reservations s,
            so_next_reservation := Suc (so_next_reservation s)\<rparr>"
    by (rule reservePending_Inr)
  with that a r(3) show ?thesis by blast
qed

text \<open>A resize either lowers the amount or raises it by bytes that the queries admitted.\<close>

lemma resize_Inr:
  assumes "resizePendingReservationLocked observed s rid actual written available = Inr s'"
  obtains r where "map_of (so_reservations s) rid = Some r" "s' = set_amount s rid actual" "0 \<le> actual"
    "actual \<le> rs_amount r \<or> \<not> admission_exceeded observed s (rs_scope r) (actual - rs_amount r)"
  using assms by (auto simp: resizePendingReservationLocked_def Let_def split: if_splits option.splits prod.splits)

lemma reservationRead_Inr:
  assumes "reservationRead observed s rid written n available = Inr (s', w)" "map_of (so_reservations s) rid = Some r" "0 \<le> n"
    "written \<le> rs_amount r"
  shows "(s' = s \<and> written + n \<le> rs_amount r) \<or>
    (s' = set_amount s rid (written + n) \<and> rs_amount r < written + n \<and> \<not> admission_exceeded observed s (rs_scope r) (written + n - rs_amount r))"
proof (cases "n = 0 \<or> written + n \<le> rs_amount r")
  case True
  with assms show ?thesis by (auto simp: reservationRead_def Let_def split: if_splits)
next
  case False
  then have "resizePendingReservationLocked observed s rid (written + n) written available = Inr s'"
    using assms by (auto simp: reservationRead_def Let_def split: if_splits)
  then show ?thesis
  proof (rule resize_Inr)
    fix r' assume "map_of (so_reservations s) rid = Some r'" "s' = set_amount s rid (written + n)"
      "written + n \<le> rs_amount r' \<or> \<not> admission_exceeded observed s (rs_scope r') (written + n - rs_amount r')"
    with False assms(2) show ?thesis by auto
  qed
qed

lemma putLocked_fields:
  assumes "putLocked env s bytes = (s', Inr (blob, created))"
  shows "\<exists>bs. s' = s\<lparr>so_blobs := bs\<rparr>" "bl_Size blob = int (length bytes)"
proof -
  have "s' = s \<or> (\<exists>bs. s' = s\<lparr>so_blobs := bs\<rparr>)" "blob = blob_of env bytes"
    using assms by (auto simp: putLocked_def Let_def split: if_splits sum.splits option.splits)
  moreover have "s = s\<lparr>so_blobs := so_blobs s\<rparr>" by simp
  ultimately show "\<exists>bs. s' = s\<lparr>so_blobs := bs\<rparr>" "bl_Size blob = int (length bytes)" by (metis, simp add: blob_of_def)
qed

lemma putLocked_failed: "putLocked env s bytes = (s', Inl e) \<Longrightarrow> \<exists>bs. s' = s\<lparr>so_blobs := bs\<rparr>"
  by (auto simp: putLocked_def Let_def split: if_splits sum.splits option.splits) (metis Storage.update_convs(7) Storage.surjective)+

lemma put_record_effect:
  assumes "db_ok (so_cache s)"
  shows "quiet env V s (fst (put_record env s i key generation blob created now commits)) \<or>
    (\<exists>db. db_put i key blob now (so_cache s) db \<and> fst (put_record env s i key generation blob created now commits) = s\<lparr>so_cache := db\<rparr>)"
proof (cases "put_record_tx env i key generation blob created now (so_cache s)")
  case (Inl e)
  then show ?thesis by (simp add: put_record_def)
next
  case (Inr x)
  obtain db outcome where x: "x = (db, outcome)" by (cases x)
  show ?thesis
  proof (cases outcome)
    case (Inl e)
    have "db_moves env V (so_cache s) db"
      using Inr x Inl assms by (auto simp: put_record_tx_def Let_def intro: abortExpiredAttempt_move split: if_splits option.splits)
    then show ?thesis using Inr x Inl by (auto simp: put_record_def intro: quiet_cache)
  next
    case (Inr res)
    have tx: "put_record_tx env i key generation blob created now (so_cache s) = Inr (db, Inr res)"
      using \<open>put_record_tx env i key generation blob created now (so_cache s) = Inr x\<close> x Inr by simp
    have "db = so_cache s \<or> db_put i key blob now (so_cache s) db"
    proof (cases "find (\<lambda>p. pending_key p = (i, key)) (db_pending (so_cache s))")
      case (Some p)
      then show ?thesis using tx by (auto simp: put_record_tx_def Let_def split: if_splits)
    next
      case None
      let ?p = "\<lparr>pe_attempt_id = i, pe_cache_key = key, pe_blob_digest = bl_Digest blob, pe_size_bytes = bl_Size blob,
                  pe_created_at_unix_ms = to_milli now\<rparr>"
      let ?db1 = "(so_cache s)\<lparr>db_pending := db_pending (so_cache s) @ [?p]\<rparr>"
      from tx None obtain a rs n where a: "attempt_of (so_cache s) i = Some a" "at_state a = AttemptPending"
        and p: "pending_checks ?p" "pending_key ?p \<notin> pending_key ` set (db_pending (so_cache s))"
        and u: "sql_update attempt_checks (\<lambda>a. at_attempt_id a = i \<and> at_state a = AttemptPending) (marked_updated now) (db_attempts (so_cache s)) = Inr (rs, n)"
        and db: "db = ?db1\<lparr>db_attempts := rs\<rparr>"
        by (auto simp: put_record_tx_def loadAttempt_Inr insert_pending_def sql_insert_Inr marked_updated_def [abs_def] Let_def split: if_splits)
      have only: "x = a" if "x \<in> set (db_attempts (so_cache s))" "at_attempt_id x = i" for x
        using attempt_unique [OF _ a(1) that] assms by (simp add: db_ok_def)
      have "rs = map (\<lambda>x. if at_attempt_id x = i then marked_updated now x else x) (db_attempts (so_cache s))"
        using u a(2) only by (auto simp: sql_update_Inr)
      then have "db = set_attempt i (marked_updated now) ?db1" using db by (simp add: set_attempt_def)
      moreover have "attempt_checks (marked_updated now a)"
        using u a(2) attempt_of_Some [OF a(1)] by (auto simp: sql_update_Inr)
      ultimately show ?thesis using a p unfolding db_put_def Let_def by blast
    qed
    then show ?thesis using tx Inr by (cases commits) (auto simp: put_record_def)
  qed
qed

end
