(* ===== verification/SharedBudget.thy ===== *)
theory SharedBudget
  imports SharedRuns
begin

text \<open>
  The byte budgets of the Shared storage under every interleaving. A reservation counts against the budget
  until its put has recorded its object or failed; from then on the recorded bytes count instead.
\<close>

section \<open>Held bytes\<close>

definition held_sum :: "(pendingReservation \<Rightarrow> bool) \<Rightarrow> nat set \<Rightarrow> (nat \<times> pendingReservation) list \<Rightarrow> int" where
  "held_sum sel F rs = sum_list (map (\<lambda>(i, r). if sel r \<and> i \<notin> F then rs_amount r else 0) rs)"

lemma held_sum_simps [simp]:
  "held_sum sel F [] = 0" "held_sum sel F ((i, r) # rs) = (if sel r \<and> i \<notin> F then rs_amount r else 0) + held_sum sel F rs"
  by (simp_all add: held_sum_def)

lemma held_sum_other: "rid \<notin> fst ` set rs \<Longrightarrow> held_sum sel (insert rid F) rs = held_sum sel F rs"
  by (induction rs) auto

lemma held_sum_finish:
  assumes "distinct (map fst rs)" "map_of rs rid = Some r" "rid \<notin> F"
  shows "held_sum sel F rs = held_sum sel (insert rid F) rs + (if sel r then rs_amount r else 0)"
  using assms
proof (induction rs)
  case (Cons x rs)
  obtain i q where x: "x = (i, q)" by (cases x)
  show ?case
  proof (cases "i = rid")
    case True
    with Cons.prems x have "rid \<notin> fst ` set rs" by auto
    with True x Cons.prems show ?thesis by (simp add: held_sum_other)
  qed (use Cons x in auto)
qed simp

lemma held_sum_set:
  assumes "distinct (map fst rs)" "map_of rs rid = Some r" "sel (r\<lparr>rs_amount := n\<rparr>) = sel r"
  shows "held_sum sel F (map (\<lambda>(i, r). (i, if i = rid then r\<lparr>rs_amount := n\<rparr> else r)) rs) =
    held_sum sel F rs + (if sel r \<and> rid \<notin> F then n - rs_amount r else 0)"
  using assms
proof (induction rs)
  case (Cons x rs)
  obtain i q where x: "x = (i, q)" by (cases x)
  show ?case
  proof (cases "i = rid")
    case True
    with Cons.prems x have "rid \<notin> fst ` set rs" by auto
    then have "map (\<lambda>(i, r). (i, if i = rid then r\<lparr>rs_amount := n\<rparr> else r)) rs = rs" by (intro map_idI) (auto simp: image_iff)
    with True x Cons.prems show ?thesis by auto
  qed (use Cons x in auto)
qed simp

lemma held_sum_remove: "rid \<in> F \<Longrightarrow> held_sum sel F (filter (\<lambda>(i, r). i \<noteq> rid) rs) = held_sum sel F rs"
  by (induction rs) auto

lemma held_sum_le:
  assumes "\<forall>x\<in>set rs. 0 \<le> rs_amount (snd x)"
  shows "held_sum sel F rs \<le> reserved_sum sel rs" "held_sum sel (insert rid F) rs \<le> held_sum sel F rs"
proof -
  have "held_sum sel F rs \<le> reserved_sum sel rs \<and> held_sum sel (insert rid F) rs \<le> held_sum sel F rs"
    using assms
  proof (induction rs)
    case (Cons x rs)
    obtain i q where x: "x = (i, q)" by (cases x)
    have "held_sum sel F rs \<le> reserved_sum sel rs \<and> held_sum sel (insert rid F) rs \<le> held_sum sel F rs" "0 \<le> rs_amount q"
      using Cons x by auto
    then show ?case using x by (auto simp: reserved_sum_def)
  qed (simp add: reserved_sum_def)
  then show "held_sum sel F rs \<le> reserved_sum sel rs" "held_sum sel (insert rid F) rs \<le> held_sum sel F rs" by simp_all
qed

lemma held_sum_cong: "(\<And>i. i \<in> fst ` set rs \<Longrightarrow> (i \<in> F) = (i \<in> G)) \<Longrightarrow> held_sum sel F rs = held_sum sel G rs"
  by (induction rs) auto

definition finished :: "(nat \<Rightarrow> put option) \<Rightarrow> nat set" where
  "finished ps = {rid. \<exists>pt. ps rid = Some pt \<and> pt_phase pt = Finished}"

definition held :: "(pendingReservation \<Rightarrow> bool) \<Rightarrow> config \<Rightarrow> int" where
  "held sel = (\<lambda>(s, ps). held_sum sel (finished ps) (so_reservations s))"

section \<open>The invariant of a run\<close>

definition put_ok :: "cache_db \<Rightarrow> put \<Rightarrow> pendingReservation \<Rightarrow> bool" where
  "put_ok db pt r = ((\<exists>a. attempt_of db (pt_attempt pt) = Some a \<and> rs_scope r = attempt_scope (status_of_row db a)) \<and>
     (case pt_phase pt of Reading received \<Rightarrow> int (length received) \<le> rs_amount r | Stored b c \<Rightarrow> bl_Size b \<le> rs_amount r
      | Sized b c \<Rightarrow> bl_Size b \<le> rs_amount r | Finished \<Rightarrow> True))"

definition run_ok :: "config \<Rightarrow> bool" where
  "run_ok = (\<lambda>(s, ps). db_ok (so_cache s) \<and> 0 \<le> so_maximumBlobBytes s \<and> distinct (map fst (so_reservations s)) \<and>
     (\<forall>(i, r)\<in>set (so_reservations s). i < so_next_reservation s \<and> 0 \<le> rs_amount r) \<and>
     dom ps = fst ` set (so_reservations s) \<and>
     (\<forall>rid pt r. ps rid = Some pt \<longrightarrow> map_of (so_reservations s) rid = Some r \<longrightarrow> put_ok (so_cache s) pt r))"

definition budget :: "config \<Rightarrow> bool" where
  "budget = (\<lambda>(s, ps). let p = so_capacity s; db = so_cache s in
     stable_bytes no_scope db + pending_bytes no_scope db + held (\<lambda>_. True) (s, ps) \<le> cp_DeploymentBytes p \<and>
     pending_bytes no_scope db + held (\<lambda>_. True) (s, ps) \<le> cp_PendingQuarantineBytes p \<and>
     (\<forall>sc. sc_repository sc \<noteq> [] \<and> sc_namespaceGeneration sc = 0 \<longrightarrow>
        stable_bytes sc db + pending_bytes sc db + held (same_repository sc) (s, ps) \<le> cp_RepositoryBytes p))"

lemma run_okD:
  assumes "run_ok (s, ps)"
  shows "db_ok (so_cache s)" "0 \<le> so_maximumBlobBytes s" "distinct (map fst (so_reservations s))"
    "\<And>i r. (i, r) \<in> set (so_reservations s) \<Longrightarrow> i < so_next_reservation s \<and> 0 \<le> rs_amount r"
    "dom ps = fst ` set (so_reservations s)"
    "\<And>rid pt r. ps rid = Some pt \<Longrightarrow> map_of (so_reservations s) rid = Some r \<Longrightarrow> put_ok (so_cache s) pt r"
  using assms by (auto simp: run_ok_def)

lemma run_amounts: "run_ok (s, ps) \<Longrightarrow> \<forall>x\<in>set (so_reservations s). 0 \<le> rs_amount (snd x)"
  using run_okD(4) by fastforce

lemma run_okI:
  assumes "db_ok (so_cache s)" "0 \<le> so_maximumBlobBytes s" "distinct (map fst (so_reservations s))"
    "\<And>i r. (i, r) \<in> set (so_reservations s) \<Longrightarrow> i < so_next_reservation s \<and> 0 \<le> rs_amount r"
    "dom ps = fst ` set (so_reservations s)"
    "\<And>rid pt r. ps rid = Some pt \<Longrightarrow> map_of (so_reservations s) rid = Some r \<Longrightarrow> put_ok (so_cache s) pt r"
  shows "run_ok (s, ps)"
  using assms by (auto simp: run_ok_def)

lemma budgetD:
  assumes "budget (s, ps)"
  shows "stable_bytes no_scope (so_cache s) + pending_bytes no_scope (so_cache s) + held (\<lambda>_. True) (s, ps) \<le> cp_DeploymentBytes (so_capacity s)"
    "pending_bytes no_scope (so_cache s) + held (\<lambda>_. True) (s, ps) \<le> cp_PendingQuarantineBytes (so_capacity s)"
    "sc_repository sc \<noteq> [] \<Longrightarrow> sc_namespaceGeneration sc = 0 \<Longrightarrow>
       stable_bytes sc (so_cache s) + pending_bytes sc (so_cache s) + held (same_repository sc) (s, ps) \<le> cp_RepositoryBytes (so_capacity s)"
  using assms by (auto simp: budget_def Let_def)

lemma budgetI:
  assumes "stable_bytes no_scope (so_cache s) + pending_bytes no_scope (so_cache s) + held (\<lambda>_. True) (s, ps) \<le> cp_DeploymentBytes (so_capacity s)"
    "pending_bytes no_scope (so_cache s) + held (\<lambda>_. True) (s, ps) \<le> cp_PendingQuarantineBytes (so_capacity s)"
    "\<And>sc. sc_repository sc \<noteq> [] \<Longrightarrow> sc_namespaceGeneration sc = 0 \<Longrightarrow>
       stable_bytes sc (so_cache s) + pending_bytes sc (so_cache s) + held (same_repository sc) (s, ps) \<le> cp_RepositoryBytes (so_capacity s)"
  shows "budget (s, ps)"
  using assms by (auto simp: budget_def Let_def)

text \<open>A put keeps its link while the database moves under it.\<close>

lemma put_ok_follows:
  assumes "put_ok db pt r" "\<And>j b. attempt_of db j = Some b \<Longrightarrow> \<exists>b'. attempt_of db' j = Some b' \<and> attempt_follows b b'"
  shows "put_ok db' pt r"
proof -
  from assms(1) obtain a where a: "attempt_of db (pt_attempt pt) = Some a" "rs_scope r = attempt_scope (status_of_row db a)"
    by (auto simp: put_ok_def)
  from assms(2) [OF a(1)] obtain a' where a': "attempt_of db' (pt_attempt pt) = Some a'" "attempt_follows a a'" by blast
  then have "rs_scope r = attempt_scope (status_of_row db' a')"
    using a(2) binding_scope(2) [of a' a db' db] by (simp add: attempt_follows_def)
  with a'(1) assms(1) show ?thesis by (auto simp: put_ok_def)
qed

lemma quiet_run:
  assumes "quiet env V s s'" "run_ok (s, ps)"
  shows "run_ok (s', ps)" "budget (s, ps) \<Longrightarrow> budget (s', ps)"
proof -
  note r = run_okD [OF assms(2)]
  have q: "so_capacity s' = so_capacity s" "so_reservations s' = so_reservations s" "so_next_reservation s' = so_next_reservation s"
    "so_maximumBlobBytes s' = so_maximumBlobBytes s" "db_moves env V (so_cache s) (so_cache s')"
    using assms(1) by (auto simp: quiet_def)
  show "run_ok (s', ps)"
  proof (rule run_okI)
    show "db_ok (so_cache s')" using db_moves_ok [OF q(5) r(1)] .
    fix rid pt x assume "ps rid = Some pt" "map_of (so_reservations s') rid = Some x"
    then have "put_ok (so_cache s) pt x" using r(6) q(2) by simp
    then show "put_ok (so_cache s') pt x" using put_ok_follows db_moves_attempt [OF q(5)] by blast
  qed (use r q in auto)
  assume b: "budget (s, ps)"
  have m: "stable_bytes sc (so_cache s') + pending_bytes sc (so_cache s') \<le> stable_bytes sc (so_cache s) + pending_bytes sc (so_cache s)"
    "pending_bytes sc (so_cache s') \<le> pending_bytes sc (so_cache s)" for sc
    using db_moves_bytes [OF q(5) r(1), of sc] by simp_all
  have h: "held sel (s', ps) = held sel (s, ps)" for sel by (simp add: held_def q)
  show "budget (s', ps)"
  proof (rule budgetI)
    fix sc :: capacityScope assume "sc_repository sc \<noteq> []" "sc_namespaceGeneration sc = 0"
    then show "stable_bytes sc (so_cache s') + pending_bytes sc (so_cache s') + held (same_repository sc) (s', ps) \<le> cp_RepositoryBytes (so_capacity s')"
      using budgetD(3) [OF b, of sc] m(1) [of sc] h [of "same_repository sc"] q(1) by simp
  qed (use budgetD(1,2) [OF b] m(1,2) [of no_scope] h [of "\<lambda>_. True"] q(1) in simp_all)
qed


section \<open>Admission\<close>

lemma admitted_bytes:
  assumes "\<not> admission_exceeded (capacityUsage (so_cache s)) s sc n" "db_ok (so_cache s)" "\<forall>x\<in>set (so_reservations s). 0 \<le> rs_amount (snd x)"
  shows "stable_bytes no_scope (so_cache s) + pending_bytes no_scope (so_cache s) + held (\<lambda>_. True) (s, ps) + n \<le> cp_DeploymentBytes (so_capacity s)"
    "pending_bytes no_scope (so_cache s) + held (\<lambda>_. True) (s, ps) + n \<le> cp_PendingQuarantineBytes (so_capacity s)"
    "stable_bytes (repositoryScope sc) (so_cache s) + pending_bytes (repositoryScope sc) (so_cache s) + held (same_repository sc) (s, ps) + n \<le>
       cp_RepositoryBytes (so_capacity s)"
proof -
  let ?db = "so_cache s"
  have "0 \<le> us_quarantineBytes (capacityUsage ?db no_scope)"
    using assms(2) by (auto simp: capacityUsage_def Let_def db_ok_def quarantine_ok_def quarantine_checks_def size_column_def intro!: sum_list_nonneg)
  moreover have "held (\<lambda>_. True) (s, ps) \<le> reserved_sum (\<lambda>_. True) (so_reservations s)"
    "held (same_repository sc) (s, ps) \<le> reserved_sum (same_repository sc) (so_reservations s)"
    using held_sum_le(1) [OF assms(3)] by (simp_all add: held_def)
  moreover have "n \<le> cp_PendingQuarantineBytes (so_capacity s) - pending_bytes no_scope ?db - us_quarantineBytes (capacityUsage ?db no_scope) -
      reserved_sum (\<lambda>_. True) (so_reservations s)"
    "n \<le> cp_DeploymentBytes (so_capacity s) - stable_bytes no_scope ?db - pending_bytes no_scope ?db -
      us_quarantineBytes (capacityUsage ?db no_scope) - reserved_sum (\<lambda>_. True) (so_reservations s)"
    "n \<le> cp_RepositoryBytes (so_capacity s) - stable_bytes (repositoryScope sc) ?db - pending_bytes (repositoryScope sc) ?db -
      reserved_sum (same_repository sc) (so_reservations s)"
    using assms(1) by (simp_all add: admission_exceeded_def Let_def reservedBytesLocked_def stable_bytes_def pending_bytes_def)
  ultimately show "stable_bytes no_scope ?db + pending_bytes no_scope ?db + held (\<lambda>_. True) (s, ps) + n \<le> cp_DeploymentBytes (so_capacity s)"
    "pending_bytes no_scope ?db + held (\<lambda>_. True) (s, ps) + n \<le> cp_PendingQuarantineBytes (so_capacity s)"
    "stable_bytes (repositoryScope sc) ?db + pending_bytes (repositoryScope sc) ?db + held (same_repository sc) (s, ps) + n \<le>
       cp_RepositoryBytes (so_capacity s)"
    by linarith+
qed

text \<open>Two scopes that name the same repository without a generation are equal.\<close>

lemma repository_scope_eq:
  assumes "same_repository sc r" "sc_namespaceGeneration sc = 0"
  shows "repositoryScope (rs_scope r) = sc" "same_repository sc = same_repository (rs_scope r)"
  using assms by (auto simp: same_repository_def repositoryScope_def fun_eq_iff intro!: capacityScope.equality)

text \<open>Holding \<open>n\<close> more bytes for a reservation stays within the budgets when they were admitted.\<close>

lemma budget_hold:
  assumes "budget (s, ps)" "db_ok (so_cache s)" "\<forall>x\<in>set (so_reservations s). 0 \<le> rs_amount (snd x)"
    and "n \<le> 0 \<or> \<not> admission_exceeded (capacityUsage (so_cache s)) s (rs_scope r) n"
    and "so_cache s' = so_cache s" "so_capacity s' = so_capacity s"
    and "\<And>sel. (\<And>m. sel (r\<lparr>rs_amount := m\<rparr>) = sel r) \<Longrightarrow> held sel (s', ps') \<le> held sel (s, ps) + (if sel r then n else 0)"
  shows "budget (s', ps')"
proof (rule budgetI)
  have all: "held (\<lambda>_. True) (s', ps') \<le> held (\<lambda>_. True) (s, ps) + n" using assms(7) [of "\<lambda>_. True"] by simp
  show "stable_bytes no_scope (so_cache s') + pending_bytes no_scope (so_cache s') + held (\<lambda>_. True) (s', ps') \<le> cp_DeploymentBytes (so_capacity s')"
    "pending_bytes no_scope (so_cache s') + held (\<lambda>_. True) (s', ps') \<le> cp_PendingQuarantineBytes (so_capacity s')"
    using assms(4) all budgetD(1,2) [OF assms(1)] admitted_bytes(1,2) [where sc = "rs_scope r" and n = n and ps = ps, OF _ assms(2,3)] by (auto simp: assms(5,6))
  fix sc :: capacityScope assume sc: "sc_repository sc \<noteq> []" "sc_namespaceGeneration sc = 0"
  have h: "held (same_repository sc) (s', ps') \<le> held (same_repository sc) (s, ps) + (if same_repository sc r then n else 0)"
    by (rule assms(7)) (simp add: same_repository_def)
  show "stable_bytes sc (so_cache s') + pending_bytes sc (so_cache s') + held (same_repository sc) (s', ps') \<le> cp_RepositoryBytes (so_capacity s')"
  proof (cases "same_repository sc r \<and> \<not> n \<le> 0")
    case True
    then have "\<not> admission_exceeded (capacityUsage (so_cache s)) s (rs_scope r) n" using assms(4) by simp
    from admitted_bytes(3) [where ps = ps, OF this assms(2,3)] h True repository_scope_eq [of sc r] sc(2) show ?thesis by (simp add: assms(5,6))
  next
    case False
    then show ?thesis using h budgetD(3) [OF assms(1) sc] by (auto simp: assms(5,6) split: if_splits)
  qed
qed

section \<open>The steps of a put\<close>

lemma finished_upd [simp]:
  "finished (ps(rid := None)) = finished ps - {rid}"
  "pt_phase pt \<noteq> Finished \<Longrightarrow> finished (ps(rid \<mapsto> pt)) = finished ps - {rid}"
  "pt_phase pt = Finished \<Longrightarrow> finished (ps(rid \<mapsto> pt)) = insert rid (finished ps)"
  by (auto simp: finished_def)

lemma not_finished: "ps rid = Some pt \<Longrightarrow> pt_phase pt \<noteq> Finished \<Longrightarrow> rid \<notin> finished ps"
  by (simp add: finished_def)

lemma admitted_run:
  assumes "run_ok (s, ps)" "put_admit env s i key declared now available = (s', Inr (rid, g))"
  shows "run_ok (s', ps(rid \<mapsto> \<lparr>pt_attempt = i, pt_key = key, pt_generation = g, pt_phase = Reading []\<rparr>))"
    and "budget (s, ps) \<Longrightarrow> budget (s', ps(rid \<mapsto> \<lparr>pt_attempt = i, pt_key = key, pt_generation = g, pt_phase = Reading []\<rparr>))"
proof -
  note r = run_okD [OF assms(1)]
  obtain a n where a: "attempt_of (so_cache s) i = Some a" "rid = so_next_reservation s" "0 \<le> n"
    "\<not> admission_exceeded (capacityUsage (so_cache s)) s (attempt_scope (status_of_row (so_cache s) a)) n"
    "s' = s\<lparr>so_reservations := (rid, \<lparr>rs_scope = attempt_scope (status_of_row (so_cache s) a), rs_amount = n\<rparr>) # so_reservations s,
            so_next_reservation := Suc (so_next_reservation s)\<rparr>"
    using put_admit_admitted [OF assms(2) r(2)] by metis
  let ?r = "\<lparr>rs_scope = attempt_scope (status_of_row (so_cache s) a), rs_amount = n\<rparr>"
  let ?ps = "ps(rid \<mapsto> \<lparr>pt_attempt = i, pt_key = key, pt_generation = g, pt_phase = Reading []\<rparr>)"
  have fresh: "rid \<notin> fst ` set (so_reservations s)" using r(4) a(2) by force
  then have new: "ps rid = None" using r(5) by (metis domIff)
  show "run_ok (s', ?ps)"
  proof (rule run_okI)
    fix j pt x assume j: "?ps j = Some pt" "map_of (so_reservations s') j = Some x"
    show "put_ok (so_cache s') pt x"
    proof (cases "j = rid")
      case True
      with j a show ?thesis by (auto simp: put_ok_def)
    next
      case False
      with j r(6) a(5) show ?thesis by simp
    qed
  next
    fix j x assume "(j, x) \<in> set (so_reservations s')"
    then show "j < so_next_reservation s' \<and> 0 \<le> rs_amount x" using r(4) a(2,3,5) by (auto simp: less_Suc_eq)
  qed (use r a fresh in auto)
  assume b: "budget (s, ps)"
  have "held sel (s', ?ps) = held sel (s, ps) + (if sel ?r then n else 0)" for sel
  proof -
    have "rid \<notin> finished ps" using new by (simp add: finished_def)
    then show ?thesis by (simp add: held_def a(5))
  qed
  then show "budget (s', ?ps)" using budget_hold [where r = ?r and n = n, OF b r(1) run_amounts [OF assms(1)]] a(4,5) by simp
qed


lemma put_reservation:
  assumes "run_ok (s, ps)" "ps rid = Some pt"
  obtains r where "map_of (so_reservations s) rid = Some r" "put_ok (so_cache s) pt r"
proof -
  have "rid \<in> fst ` set (so_reservations s)" using run_okD(5) [OF assms(1)] assms(2) by blast
  then obtain r where "map_of (so_reservations s) rid = Some r" using map_of_eq_None_iff [of "so_reservations s" rid] by auto
  with run_okD(6) [OF assms(1,2)] that show ?thesis by blast
qed

text \<open>A put changes phase while its reservation is set to \<open>n\<close> bytes.\<close>

lemma advance_run:
  assumes "run_ok (s, ps)" "ps rid = Some pt" "map_of (so_reservations s) rid = Some r" "0 \<le> n"
    and "so_cache s' = so_cache s" "so_capacity s' = so_capacity s" "so_maximumBlobBytes s' = so_maximumBlobBytes s"
      "so_next_reservation s' = so_next_reservation s" "so_reservations s' = so_reservations (set_amount s rid n)"
    and "put_ok (so_cache s) (pt\<lparr>pt_phase := phase\<rparr>) (r\<lparr>rs_amount := n\<rparr>)"
  shows "run_ok (s', advance ps rid pt phase)"
    and "pt_phase pt \<noteq> Finished \<Longrightarrow> n \<le> rs_amount r \<or> \<not> admission_exceeded (capacityUsage (so_cache s)) s (rs_scope r) (n - rs_amount r) \<Longrightarrow> budget (s, ps) \<Longrightarrow>
      budget (s', advance ps rid pt phase)"
proof -
  note q = run_okD [OF assms(1)]
  let ?f = "\<lambda>(i, r). (i, if i = rid then r\<lparr>rs_amount := n\<rparr> else r)"
  have res: "so_reservations s' = map ?f (so_reservations s)" using assms(9) by (simp add: set_amount_def)
  have keys: "map fst (map ?f rs) = map fst rs" for rs :: "(nat \<times> pendingReservation) list" by auto
  have mapof: "map_of (map ?f rs) j = (if j = rid then map_option (\<lambda>r. r\<lparr>rs_amount := n\<rparr>) (map_of rs j) else map_of rs j)" for rs j
    by (induction rs) auto
  show "run_ok (s', advance ps rid pt phase)"
  proof (rule run_okI)
    show "distinct (map fst (so_reservations s'))" unfolding res keys by (rule q(3))
    have "fst ` set (so_reservations s') = fst ` set (so_reservations s)" unfolding res list.set_map [symmetric] keys ..
    then show "dom (advance ps rid pt phase) = fst ` set (so_reservations s')" using q(5) assms(2) by (auto simp: advance_def)
    fix j pt' x assume j: "advance ps rid pt phase j = Some pt'" "map_of (so_reservations s') j = Some x"
    show "put_ok (so_cache s') pt' x"
    proof (cases "j = rid")
      case True
      with j assms(3) have "pt' = pt\<lparr>pt_phase := phase\<rparr>" "x = r\<lparr>rs_amount := n\<rparr>" by (simp_all add: advance_def res mapof)
      then show ?thesis using assms(5,10) by simp
    next
      case False
      with j have "ps j = Some pt'" "map_of (so_reservations s) j = Some x" by (simp_all add: advance_def res mapof)
      then show ?thesis using q(6) assms(5) by simp
    qed
  next
    fix j x assume "(j, x) \<in> set (so_reservations s')"
    then show "j < so_next_reservation s' \<and> 0 \<le> rs_amount x" using q(4) assms(4) by (auto simp: res assms(8))
  qed (use q assms in auto)
  assume *: "pt_phase pt \<noteq> Finished" "n \<le> rs_amount r \<or> \<not> admission_exceeded (capacityUsage (so_cache s)) s (rs_scope r) (n - rs_amount r)" "budget (s, ps)"
  have "held sel (s', advance ps rid pt phase) \<le> held sel (s, ps) + (if sel r then n - rs_amount r else 0)"
    if sel: "\<And>m. sel (r\<lparr>rs_amount := m\<rparr>) = sel r" for sel
  proof -
    have F: "rid \<notin> finished ps" using not_finished [of ps rid pt, OF assms(2)] *(1) .
    have "held_sum sel (finished (advance ps rid pt phase)) (so_reservations s') \<le> held_sum sel (finished ps) (so_reservations s')"
    proof (cases "phase = Finished")
      case True
      have "\<forall>x\<in>set (so_reservations s'). 0 \<le> rs_amount (snd x)"
        using run_amounts [OF assms(1)] assms(4) by (auto simp: res)
      with True show ?thesis using held_sum_le(2) by (simp add: advance_def)
    qed (use F in \<open>simp add: advance_def\<close>)
    then show ?thesis using held_sum_set [where sel = sel and n = n and F = "finished ps", OF q(3) assms(3) sel] F
      by (simp add: held_def res)
  qed
  then show "budget (s', advance ps rid pt phase)"
    using budget_hold [where r = r and n = "n - rs_amount r", OF *(3) q(1) run_amounts [OF assms(1)]] *(2) assms(5,6) by auto
qed

lemma set_amount_same:
  assumes "distinct (map fst (so_reservations s))" "map_of (so_reservations s) rid = Some r"
  shows "so_reservations (set_amount s rid (rs_amount r)) = so_reservations s"
proof -
  have "(case x of (i, q) \<Rightarrow> (i, if i = rid then q\<lparr>rs_amount := rs_amount r\<rparr> else q)) = x" if "x \<in> set (so_reservations s)" for x
  proof (cases x)
    case (Pair i q)
    with that assms have "i = rid \<Longrightarrow> q = r" by (metis eq_key_imp_eq_value map_of_SomeD)
    with Pair show ?thesis by simp
  qed
  then show ?thesis by (simp add: set_amount_def map_idI)
qed

lemma map_of_set_amount:
  "map_of (so_reservations (set_amount s rid n)) rid = map_option (\<lambda>r. r\<lparr>rs_amount := n\<rparr>) (map_of (so_reservations s) rid)"
proof -
  have "map_of (map (\<lambda>(i, r). (i, if i = rid then r\<lparr>rs_amount := n\<rparr> else r)) rs) rid = map_option (\<lambda>r. r\<lparr>rs_amount := n\<rparr>) (map_of rs rid)" for rs
    by (induction rs) auto
  then show ?thesis by (simp add: set_amount_def)
qed

text \<open>
  The answers of the usage queries behind a growing reservation may be out of date. \<open>growth_admitted\<close> says of a
  step that it enlarges a reservation only by bytes that the usage of the state it starts in admits, or not at all.
\<close>

definition growth_admitted :: "config \<Rightarrow> config \<Rightarrow> bool" where
  "growth_admitted = (\<lambda>(s, ps) (s', ps'). \<forall>rid r r'. map_of (so_reservations s) rid = Some r \<longrightarrow> map_of (so_reservations s') rid = Some r' \<longrightarrow>
     rs_amount r' \<le> rs_amount r \<or> \<not> admission_exceeded (capacityUsage (so_cache s)) s (rs_scope r) (rs_amount r' - rs_amount r))"

lemma growth_admittedD:
  assumes "growth_admitted (s, ps) (s', ps')" "map_of (so_reservations s) rid = Some r" "so_reservations s' = so_reservations (set_amount s rid n)"
  shows "n \<le> rs_amount r \<or> \<not> admission_exceeded (capacityUsage (so_cache s)) s (rs_scope r) (n - rs_amount r)"
proof -
  have "map_of (so_reservations s') rid = Some (r\<lparr>rs_amount := n\<rparr>)" using assms(2) by (simp add: assms(3) map_of_set_amount)
  with assms(1,2) show ?thesis unfolding growth_admitted_def by fastforce
qed

text \<open>Growth that was decided on the usage of the current state is admitted.\<close>

lemma current_growth_admitted:
  assumes "resizePendingReservationLocked (capacityUsage (so_cache s)) s rid actual written available = Inr s'"
  shows "growth_admitted (s, ps) (s', ps')"
proof -
  obtain q where q: "map_of (so_reservations s) rid = Some q" "s' = set_amount s rid actual"
      "actual \<le> rs_amount q \<or> \<not> admission_exceeded (capacityUsage (so_cache s)) s (rs_scope q) (actual - rs_amount q)"
    by (rule resize_Inr [OF assms])
  have other: "map_of (so_reservations s') j = map_of (so_reservations s) j" if "j \<noteq> rid" for j
  proof -
    have "map_of (map (\<lambda>(i, r). (i, if i = rid then r\<lparr>rs_amount := actual\<rparr> else r)) rs) j = map_of rs j" for rs
      using that by (induction rs) auto
    then show ?thesis by (simp add: q(2) set_amount_def)
  qed
  show ?thesis unfolding growth_admitted_def prod.case
  proof (intro allI impI)
    fix j r r' assume j: "map_of (so_reservations s) j = Some r" "map_of (so_reservations s') j = Some r'"
    show "rs_amount r' \<le> rs_amount r \<or> \<not> admission_exceeded (capacityUsage (so_cache s)) s (rs_scope r) (rs_amount r' - rs_amount r)"
    proof (cases "j = rid")
      case True
      then show ?thesis using j q map_of_set_amount [of s rid actual] by auto
    qed (use j other in auto)
  qed
qed

lemma recorded_run:
  assumes "run_ok (s, ps)" "ps rid = Some pt" "pt_phase pt = Sized blob created" "db_put (pt_attempt pt) key blob now (so_cache s) db"
  shows "run_ok (s\<lparr>so_cache := db\<rparr>, advance ps rid pt Finished)"
    and "budget (s, ps) \<Longrightarrow> budget (s\<lparr>so_cache := db\<rparr>, advance ps rid pt Finished)"
proof -
  note q = run_okD [OF assms(1)]
  obtain r where r: "map_of (so_reservations s) rid = Some r" "put_ok (so_cache s) pt r" using put_reservation [OF assms(1,2)] .
  obtain a where a: "attempt_of (so_cache s) (pt_attempt pt) = Some a" "rs_scope r = attempt_scope (status_of_row (so_cache s) a)"
      and size: "bl_Size blob \<le> rs_amount r"
    using r(2) assms(3) by (auto simp: put_ok_def)
  have follows: "put_ok db pt' x" if "put_ok (so_cache s) pt' x" for pt' x
    using put_ok_follows [OF that] db_put_attempt [OF assms(4)] by blast
  show "run_ok (s\<lparr>so_cache := db\<rparr>, advance ps rid pt Finished)"
  proof (rule run_okI)
    show "db_ok (so_cache (s\<lparr>so_cache := db\<rparr>))" using db_ok_put [OF q(1) assms(4)] by simp
    fix j pt' x assume "advance ps rid pt Finished j = Some pt'" "map_of (so_reservations (s\<lparr>so_cache := db\<rparr>)) j = Some x"
    then show "put_ok (so_cache (s\<lparr>so_cache := db\<rparr>)) pt' x"
      using q(6) [of j pt' x] follows [of pt' x] follows [OF r(2)] r(1) by (auto simp: advance_def put_ok_def split: if_splits)
  qed (use q assms(2) in \<open>auto simp: advance_def\<close>)
  assume b: "budget (s, ps)"
  have fin: "held sel (s, ps) = held sel (s\<lparr>so_cache := db\<rparr>, advance ps rid pt Finished) + (if sel r then rs_amount r else 0)" for sel
    using held_sum_finish [OF q(3) r(1) not_finished [of ps rid pt, OF assms(2)]] assms(3) by (simp add: held_def advance_def)
  have put: "stable_bytes sc db = stable_bytes sc (so_cache s)"
    "pending_bytes sc db = pending_bytes sc (so_cache s) + (if attempt_in_scope sc a then bl_Size blob else 0)" for sc
    using db_put_bytes [OF assms(4) q(1) a(1)] by simp_all
  have scope: "attempt_in_scope sc a = same_repository sc r" if "sc_repository sc \<noteq> []" "sc_namespaceGeneration sc = 0" for sc
    using that by (auto simp: attempt_in_scope_def in_scope_def same_repository_def a(2) attempt_scope_def)
  show "budget (s\<lparr>so_cache := db\<rparr>, advance ps rid pt Finished)"
  proof (rule budgetI)
    fix sc :: capacityScope assume sc: "sc_repository sc \<noteq> []" "sc_namespaceGeneration sc = 0"
    show "stable_bytes sc (so_cache (s\<lparr>so_cache := db\<rparr>)) + pending_bytes sc (so_cache (s\<lparr>so_cache := db\<rparr>)) +
        held (same_repository sc) (s\<lparr>so_cache := db\<rparr>, advance ps rid pt Finished) \<le> cp_RepositoryBytes (so_capacity (s\<lparr>so_cache := db\<rparr>))"
      using budgetD(3) [OF b sc] fin [of "same_repository sc"] put [of sc] scope [OF sc] size by (auto split: if_splits)
  qed (use budgetD(1,2) [OF b] fin [of "\<lambda>_. True"] put [of no_scope] size in
        \<open>simp_all add: attempt_in_scope_def in_scope_def no_scope_def\<close>)
qed

lemma released_run:
  assumes "run_ok (s, ps)" "ps rid = Some pt" "pt_phase pt = Finished"
  shows "run_ok (releasePendingReservation s rid, ps(rid := None))"
    and "budget (s, ps) \<Longrightarrow> budget (releasePendingReservation s rid, ps(rid := None))"
proof -
  note q = run_okD [OF assms(1)]
  let ?rs = "filter (\<lambda>(i, r). i \<noteq> rid) (so_reservations s)"
  have mapof: "map_of (filter (\<lambda>(i, r). i \<noteq> rid) rs) j = (if j = rid then None else map_of rs j)" for rs :: "(nat \<times> pendingReservation) list" and j
    by (induction rs) auto
  show "run_ok (releasePendingReservation s rid, ps(rid := None))"
  proof (rule run_okI)
    show "dom (ps(rid := None)) = fst ` set (so_reservations (releasePendingReservation s rid))"
      using q(5) by (force simp: releasePendingReservation_def)
    fix j pt' x assume "(ps(rid := None)) j = Some pt'" "map_of (so_reservations (releasePendingReservation s rid)) j = Some x"
    then show "put_ok (so_cache (releasePendingReservation s rid)) pt' x"
      using q(6) [of j pt' x] by (auto simp: releasePendingReservation_def mapof split: if_splits)
  qed (use q in \<open>auto simp: releasePendingReservation_def distinct_map_filter_keys\<close>)
  assume b: "budget (s, ps)"
  have "rid \<in> finished ps" using assms(2,3) by (simp add: finished_def)
  then have "held_sum sel (finished ps) ?rs = held_sum sel (finished ps) (so_reservations s)" for sel by (rule held_sum_remove)
  moreover have "held_sum sel (finished ps - {rid}) ?rs = held_sum sel (finished ps) ?rs" for sel by (rule held_sum_cong) auto
  ultimately have "held sel (releasePendingReservation s rid, ps(rid := None)) = held sel (s, ps)" for sel
    by (simp add: held_def releasePendingReservation_def)
  then show "budget (releasePendingReservation s rid, ps(rid := None))"
    using b by (simp add: budget_def Let_def releasePendingReservation_def)
qed


section \<open>Every step\<close>

text \<open>A put that moves on without touching the amount of its reservation.\<close>

lemma moved_run:
  assumes "run_ok (s, ps)" "ps rid = Some pt" "pt_phase pt \<noteq> Finished"
    and "so_cache s' = so_cache s" "so_capacity s' = so_capacity s" "so_maximumBlobBytes s' = so_maximumBlobBytes s"
      "so_next_reservation s' = so_next_reservation s" "so_reservations s' = so_reservations s"
    and "\<And>r. put_ok (so_cache s) pt r \<Longrightarrow> put_ok (so_cache s) (pt\<lparr>pt_phase := phase\<rparr>) r"
  shows "run_ok (s', advance ps rid pt phase)" "budget (s, ps) \<Longrightarrow> budget (s', advance ps rid pt phase)"
proof -
  obtain r where r: "map_of (so_reservations s) rid = Some r" "put_ok (so_cache s) pt r" using put_reservation [OF assms(1,2)] .
  have n: "0 \<le> rs_amount r" using run_okD(4) [OF assms(1)] map_of_SomeD [OF r(1)] by blast
  have same: "so_reservations s' = so_reservations (set_amount s rid (rs_amount r))"
    using set_amount_same [OF run_okD(3) [OF assms(1)] r(1)] assms(8) by simp
  have ok: "put_ok (so_cache s) (pt\<lparr>pt_phase := phase\<rparr>) (r\<lparr>rs_amount := rs_amount r\<rparr>)" using assms(9) [OF r(2)] by simp
  note a = advance_run [OF assms(1,2) r(1) n assms(4-7) same ok]
  show "run_ok (s', advance ps rid pt phase)" by (rule a(1))
  show "budget (s', advance ps rid pt phase)" if "budget (s, ps)" using a(2) [OF assms(3) _ that] by simp
qed

lemma read_run:
  assumes "run_ok (s, ps)" "ps rid = Some pt" "pt_phase pt = Reading received"
    and "reservationRead observed s rid (int (length received)) (int (length part)) available = Inr (s', w)"
  shows "run_ok (s', advance ps rid pt (Reading (received @ part)))"
    "growth_admitted (s, ps) (s', ps') \<Longrightarrow> budget (s, ps) \<Longrightarrow> budget (s', advance ps rid pt (Reading (received @ part)))"
proof -
  obtain r where r: "map_of (so_reservations s) rid = Some r" "put_ok (so_cache s) pt r" using put_reservation [OF assms(1,2)] .
  have len: "int (length received) \<le> rs_amount r" using r(2) assms(3) by (auto simp: put_ok_def)
  have n: "0 \<le> rs_amount r" using run_okD(4) [OF assms(1)] map_of_SomeD [OF r(1)] by blast
  have distinct: "distinct (map fst (so_reservations s))" by (rule run_okD(3) [OF assms(1)])
  let ?m = "int (length received) + int (length part)"
  obtain m where m: "so_reservations s' = so_reservations (set_amount s rid m)"
      "so_cache s' = so_cache s" "so_capacity s' = so_capacity s" "so_maximumBlobBytes s' = so_maximumBlobBytes s"
      "so_next_reservation s' = so_next_reservation s" "0 \<le> m" "?m \<le> m"
  proof (cases "s' = s \<and> ?m \<le> rs_amount r")
    case True
    then show ?thesis using that [of "rs_amount r"] set_amount_same [OF distinct r(1)] n by simp
  next
    case False
    then have "s' = set_amount s rid ?m"
      using reservationRead_Inr [OF assms(4) r(1) _ len] by auto
    then show ?thesis using that [of ?m] by (simp add: set_amount_def)
  qed
  have ok: "put_ok (so_cache s) (pt\<lparr>pt_phase := Reading (received @ part)\<rparr>) (r\<lparr>rs_amount := m\<rparr>)"
    using r(2) m(7) by (auto simp: put_ok_def)
  note a = advance_run [OF assms(1,2) r(1) m(6,2-5,1) ok]
  show "run_ok (s', advance ps rid pt (Reading (received @ part)))" by (rule a(1))
  show "budget (s', advance ps rid pt (Reading (received @ part)))" if "growth_admitted (s, ps) (s', ps')" "budget (s, ps)"
    using a(2) [OF _ growth_admittedD [OF that(1) r(1) m(1)] that(2)] assms(3) by simp
qed

lemma store_run:
  assumes "run_ok (s, ps)" "ps rid = Some pt" "pt_phase pt = Reading received" "putLocked env s received = (s', Inr (blob, created))"
  shows "run_ok (s', advance ps rid pt (Stored blob created))" "budget (s, ps) \<Longrightarrow> budget (s', advance ps rid pt (Stored blob created))"
proof -
  obtain bs where s': "s' = s\<lparr>so_blobs := bs\<rparr>" using putLocked_fields(1) [OF assms(4)] ..
  have ok: "put_ok (so_cache s) pt r \<Longrightarrow> put_ok (so_cache s) (pt\<lparr>pt_phase := Stored blob created\<rparr>) r" for r
    using putLocked_fields(2) [OF assms(4)] assms(3) by (auto simp: put_ok_def)
  note m = moved_run [where s' = s' and phase = "Stored blob created", OF assms(1,2) _ _ _ _ _ _ ok]
  show "run_ok (s', advance ps rid pt (Stored blob created))" "budget (s, ps) \<Longrightarrow> budget (s', advance ps rid pt (Stored blob created))"
    using m assms(3) by (simp_all add: s')
qed

lemma size_run:
  assumes "run_ok (s, ps)" "ps rid = Some pt" "pt_phase pt = Stored blob created"
    and "resizePendingReservationLocked observed s rid (bl_Size blob) (bl_Size blob) available = Inr s'"
  shows "run_ok (s', advance ps rid pt (Sized blob created))"
    "growth_admitted (s, ps) (s', ps') \<Longrightarrow> budget (s, ps) \<Longrightarrow> budget (s', advance ps rid pt (Sized blob created))"
proof -
  obtain r where r: "map_of (so_reservations s) rid = Some r" "s' = set_amount s rid (bl_Size blob)" "0 \<le> bl_Size blob"
    by (rule resize_Inr [OF assms(4)])
  have ok: "put_ok (so_cache s) (pt\<lparr>pt_phase := Sized blob created\<rparr>) (r\<lparr>rs_amount := bl_Size blob\<rparr>)"
    using run_okD(6) [OF assms(1,2) r(1)] by (auto simp: put_ok_def)
  note a = advance_run [where s' = s' and phase = "Sized blob created", OF assms(1,2) r(1,3) _ _ _ _ _ ok]
  show "run_ok (s', advance ps rid pt (Sized blob created))" using a(1) by (simp add: r(2) set_amount_def)
  show "budget (s', advance ps rid pt (Sized blob created))" if "growth_admitted (s, ps) (s', ps')" "budget (s, ps)"
    using a(2) [OF _ _ _ _ _ _ growth_admittedD [OF that(1) r(1)] that(2)] assms(3) by (simp add: r(2) set_amount_def)
qed

lemma record_run:
  assumes "run_ok (s, ps)" "ps rid = Some pt" "pt_phase pt = Sized blob created"
    and "s' = fst (put_record env s (pt_attempt pt) (pt_key pt) g blob created now commits)"
  shows "run_ok (s', advance ps rid pt Finished)" "budget (s, ps) \<Longrightarrow> budget (s', advance ps rid pt Finished)"
proof -
  consider "quiet env {} s s'" | db where "db_put (pt_attempt pt) (pt_key pt) blob now (so_cache s) db" "s' = s\<lparr>so_cache := db\<rparr>"
    using put_record_effect [OF run_okD(1) [OF assms(1)]] unfolding assms(4) by blast
  then have "run_ok (s', advance ps rid pt Finished) \<and> (budget (s, ps) \<longrightarrow> budget (s', advance ps rid pt Finished))"
  proof cases
    case 1
    note q = quiet_run [OF 1 assms(1)]
    have "put_ok (so_cache s') (pt\<lparr>pt_phase := Finished\<rparr>) r" if "put_ok (so_cache s') pt r" for r
      using that by (auto simp: put_ok_def)
    then show ?thesis
      using moved_run [where s' = s' and phase = Finished, OF q(1) assms(2)] q(2) assms(3) by simp
  next
    case 2
    then show ?thesis using recorded_run [OF assms(1-3) 2(1)] by simp
  qed
  then show "run_ok (s', advance ps rid pt Finished)" "budget (s, ps) \<Longrightarrow> budget (s', advance ps rid pt Finished)" by simp_all
qed

lemma crashed_run:
  assumes "run_ok (s, ps)"
  shows "run_ok (crashed s, Map.empty)" "budget (s, ps) \<Longrightarrow> budget (crashed s, Map.empty)"
proof -
  note q = run_okD [OF assms]
  show "run_ok (crashed s, Map.empty)" using q(1,2) by (intro run_okI) (simp_all add: crashed_def)
  assume b: "budget (s, ps)"
  have "0 \<le> held sel (s, ps)" for sel
    using q(4) by (force simp: held_def held_sum_def intro!: sum_list_nonneg)
  then have "held sel (crashed s, Map.empty) \<le> held sel (s, ps)" for sel by (simp add: held_def crashed_def)
  then show "budget (crashed s, Map.empty)"
    using budget_hold [where r = undefined and n = 0, OF b q(1) run_amounts [OF assms]] by (simp add: crashed_def)
qed

lemma step_run:
  assumes "shared_step env V (s, ps) (s', ps')" "run_ok (s, ps)"
  shows "run_ok (s', ps') \<and> (growth_admitted (s, ps) (s', ps') \<longrightarrow> budget (s, ps) \<longrightarrow> budget (s', ps'))"
proof -
  note ok = run_okD(1) [OF assms(2)]
  have quiet: "run_ok (t, ps) \<and> (budget (s, ps) \<longrightarrow> budget (t, ps))" if "quiet env V s t" for t
    using quiet_run [OF that assms(2)] by blast
  from assms(1) show ?thesis
  proof cases
    case (step_refused i key declared now available e)
    then show ?thesis using quiet [OF put_admit_refused [OF _ ok]] by blast
  next
    case (step_admitted i key declared now available rid generation)
    then show ?thesis using admitted_run [OF assms(2)] by blast
  next
    case (step_read rid pt received observed part available written)
    then show ?thesis using read_run [OF assms(2) step_read(2-4)] by blast
  next
    case (step_store rid pt received blob created)
    then show ?thesis using store_run [OF assms(2) step_store(2-4)] by simp
  next
    case (step_size rid pt blob created observed available)
    then show ?thesis using size_run [OF assms(2) step_size(2-4)] by blast
  next
    case (step_record rid pt blob created now commits)
    then show ?thesis using record_run [OF assms(2) step_record(3,4)] by simp
  next
    case (step_broken rid pt received)
    then show ?thesis using moved_run [where s' = s and phase = Finished, OF assms(2) step_broken(3)] by (simp add: put_ok_def)
  next
    case (step_oversized rid pt blob created observed available e)
    then show ?thesis
      using moved_run [where s' = s' and phase = Finished, OF assms(2) step_oversized(3)] by (simp add: put_ok_def cleanup_if_def)
  next
    case (step_release rid pt)
    then show ?thesis using released_run [OF assms(2) step_release(3,4)] by simp
  next
    case step_crash
    then show ?thesis using crashed_run [OF assms(2)] by simp
  next
    case (step_boot disk_total boundary ds first second)
    then have "so_reservations s = []" using run_okD(5) [OF assms(2)] by simp
    then show ?thesis using step_boot boot_quiet [OF ok] quiet by simp
  next
    case (step_disk bs ds)
    then show ?thesis using assms(2) by (simp add: run_ok_def budget_def held_def Let_def)
  qed (use quiet ok in \<open>auto intro: quiet_intros\<close>)
qed

end
