(* ===== verification/SharedPublished.thy ===== *)
theory SharedPublished
  imports SharedBudget
begin

text \<open>
  What the Shared storage publishes: the table of committed objects is write-once, attempts are versioned rows
  with terminal states, and every published object is named by a decision the storage was given. The two
  contracts of \<open>Lifecycle\<close> are interpreted on the steps of the storage.
\<close>

section \<open>The outcomes of a commit\<close>

lemma indexDecision_same:
  "so_cache (fst (indexDecision s dd now ix)) = so_cache s" "so_blobs (fst (indexDecision s dd now ix)) = so_blobs s"
  "so_closed (fst (indexDecision s dd now ix)) = so_closed s"
  "so_maximumBlobBytes (fst (indexDecision s dd now ix)) = so_maximumBlobBytes s"
  by (simp_all add: indexDecision_def)

lemma commit_publish_outcome:
  assumes "commit_publish env s v verified now commits ix = (s', out)" "db_ok (so_cache s)"
  shows "(\<exists>e. out = Inl e \<and> quiet env {} s s') \<or>
    (\<exists>r a K. out = Inr r \<and> cr_Outcome r = ''COMMITTED'' \<and> cr_StateVersion r = v + 1 \<and> at_state_version a = v \<and>
       commit_effect env verified now (cp_StableTTL (so_capacity s)) a K (so_cache s) (so_cache s') \<and> so_blobs s' = so_blobs s \<and>
       so_closed s' = so_closed s \<and> so_maximumBlobBytes s' = so_maximumBlobBytes s \<and>
       (stable_within (so_capacity s) (so_cache s) \<longrightarrow> stable_within (so_capacity s) (so_cache s')))"
proof (cases "commit_tx env (so_capacity s) v verified now (so_cache s)")
  case (Inl e)
  with assms(1) show ?thesis by (auto simp: commit_publish_def)
next
  case (Inr x)
  show ?thesis
  proof (cases x)
    case (Lost db n)
    with Inr obtain r tid tfp reason where "abortAttemptTx r tid tfp reason now (so_cache s) = Inr db"
      by (auto simp: commit_tx_def Let_def split: if_splits option.splits)
    then have "quiet env {} s (s\<lparr>so_cache := db\<rparr>)" using abortAttemptTx_move assms(2) by (blast intro: quiet_cache)
    then show ?thesis using assms(1) by (auto simp: commit_publish_def Inr Lost split: if_splits)
  next
    case (Published db n pr pt)
    obtain a K where c: "commit_effect env verified now (cp_StableTTL (so_capacity s)) a K (so_cache s) db" "at_state_version a = v"
      by (rule commit_tx_Published [OF Inr [unfolded Published] assms(2)])
    show ?thesis
    proof (cases commits)
      case True
      define s1 where "s1 = (cleanup_if (pr > 0 \<or> pt > 0) s)\<lparr>so_cache := db\<rparr>"
      have "s' = fst (indexDecision s1 (cd_DecisionDigest (vd_decision verified)) now ix)"
        "\<exists>r. out = Inr r \<and> cr_Outcome r = ''COMMITTED'' \<and> cr_StateVersion r = v + 1"
        using assms(1) True by (auto simp: commit_publish_def Inr Published Let_def case_prod_beta s1_def)
      moreover have "so_cache s1 = db" "so_blobs s1 = so_blobs s" "so_closed s1 = so_closed s" "so_maximumBlobBytes s1 = so_maximumBlobBytes s"
        by (simp_all add: s1_def cleanup_if_def)
      ultimately have "so_cache s' = db" "so_blobs s' = so_blobs s" "so_closed s' = so_closed s" "so_maximumBlobBytes s' = so_maximumBlobBytes s"
        "\<exists>r. out = Inr r \<and> cr_Outcome r = ''COMMITTED'' \<and> cr_StateVersion r = v + 1"
        by (simp_all add: indexDecision_same)
      with c commit_tx_within [OF Inr [unfolded Published] assms(2)] show ?thesis by blast
    qed (use assms(1) in \<open>auto simp: commit_publish_def Inr Published Let_def\<close>)
  qed
qed

text \<open>What held when a commit published: the checks that come before the transaction.\<close>

definition commit_ready :: "environment \<Rightarrow> Storage \<Rightarrow> int \<Rightarrow> VerifiedCommitDecision \<Rightarrow> int \<Rightarrow> attempt_row \<Rightarrow> bool" where
  "commit_ready env s currentRevocationEpoch verified now a = (let d = vd_decision verified; st = status_of_row (so_cache s) a in
     attempt_of (so_cache s) (cd_AttemptID d) = Some a \<and> \<not> so_closed s \<and> cd_RevocationEpoch d = currentRevocationEpoch \<and>
     as_LeaseExpiresAt st > now \<and> vd_expiresAt verified > now \<and> vd_issuedAt verified \<ge> as_CreatedAt st \<and>
     vd_expiresAt verified \<le> as_LeaseExpiresAt st \<and> first_unverified env s (cd_Objects d) = None)"

lemma CommitAttempt_outcome:
  assumes "CommitAttempt env s v epoch verified now commits ix = (s', out)" "db_ok (so_cache s)"
  shows "(quiet env {} s s' \<and> (\<forall>r. out = Inr r \<longrightarrow> cr_Outcome r = ''IDEMPOTENT_REPLAY'')) \<or>
    (\<exists>r a K. out = Inr r \<and> cr_Outcome r = ''COMMITTED'' \<and> cr_StateVersion r = v + 1 \<and> at_state_version a = v \<and>
       commit_effect env verified now (cp_StableTTL (so_capacity s)) a K (so_cache s) (so_cache s') \<and>
       commit_ready env s epoch verified now a \<and> so_blobs s' = so_blobs s \<and> so_closed s' = so_closed s \<and>
       so_maximumBlobBytes s' = so_maximumBlobBytes s \<and>
       (stable_within (so_capacity s) (so_cache s) \<longrightarrow> stable_within (so_capacity s) (so_cache s')))"
proof (cases "attempt_of (so_cache s) (cd_AttemptID (vd_decision verified))")
  case None
  with assms(1) show ?thesis by (auto simp: CommitAttempt_def loadAttempt_def Let_def split: if_splits)
next
  case (Some a)
  define r where "r = \<lparr>rc_status = status_of_row (so_cache s) a, rc_requestFingerprint = at_request_fingerprint a,
      rc_terminalID = at_terminal_id a, rc_terminalFingerprint = at_terminal_fingerprint a\<rparr>"
  have load: "loadAttempt (so_cache s) (cd_AttemptID (vd_decision verified)) = Inr r" using Some by (simp add: loadAttempt_def r_def)
  have replay: "replayCommit s r verified now ix = (s', out) \<Longrightarrow> quiet env {} s s' \<and> (\<forall>x. out = Inr x \<longrightarrow> cr_Outcome x = ''IDEMPOTENT_REPLAY'')"
    by (auto simp: replayCommit_def Let_def indexDecision_def split: option.splits if_splits prod.splits)
  have reject: "reject_commit env s r verified reason e now commits = (s', out) \<Longrightarrow> quiet env {} s s' \<and> (\<exists>e'. out = Inl e')" for reason e
    using reject_commit_quiet [OF assms(2), of env "{}" env r verified reason e now commits]
    by (auto simp: reject_commit_def split: sum.splits)
  have quarantine: "quiet env {} s t" if "quarantinePendingFailure env s r verified b e now commits = (t, x)" for b e t x
    using quarantinePendingRecord_quiet [OF assms(2)] that unfolding quarantinePendingFailure_def by (metis fst_conv)
  have failed: "quiet env {} s s' \<and> (\<exists>e'. out = Inl e')"
    if "(case quarantinePendingFailure env s r verified b e now commits of (t, Some x) \<Rightarrow> (t, Inl x)
         | (t, None) \<Rightarrow> (t, Inl (rejected ''pending object verification failed''))) = (s', out)" for b e
  proof (cases "quarantinePendingFailure env s r verified b e now commits")
    case (Pair t x)
    with that quarantine [OF Pair] show ?thesis by (cases x) auto
  qed
  show ?thesis
  proof (cases "first_unverified env s (pendingObjects (so_cache s) r)")
    case None
    show ?thesis
    proof (cases "commit_publish env s v verified now commits ix = (s', out) \<and> validateDecisionAgainstAttempt (vd_decision verified) (rc_status r) (pendingObjects (so_cache s) r) = None \<and>
        \<not> so_closed s \<and> cd_RevocationEpoch (vd_decision verified) = epoch \<and> as_LeaseExpiresAt (rc_status r) > now \<and> vd_expiresAt verified > now \<and>
        vd_issuedAt verified \<ge> as_CreatedAt (rc_status r) \<and> vd_expiresAt verified \<le> as_LeaseExpiresAt (rc_status r)")
      case True
      from commit_publish_outcome [OF conjunct1 [OF True] assms(2)] show ?thesis
      proof (elim disjE exE conjE)
        fix out_r b K assume c: "commit_effect env verified now (cp_StableTTL (so_capacity s)) b K (so_cache s) (so_cache s')"
          and o: "out = Inr out_r" "cr_Outcome out_r = ''COMMITTED''" "cr_StateVersion out_r = v + 1" "at_state_version b = v" "so_blobs s' = so_blobs s"
            "so_closed s' = so_closed s" "so_maximumBlobBytes s' = so_maximumBlobBytes s"
            "stable_within (so_capacity s) (so_cache s) \<longrightarrow> stable_within (so_capacity s) (so_cache s')"
        have "b = a" using commit_effectD(1) [OF c] Some by simp
        moreover have "cd_Objects (vd_decision verified) = pendingObjects (so_cache s) r"
          using commit_effectD(3) [OF c] \<open>b = a\<close> by (simp add: r_def)
        ultimately have "commit_ready env s epoch verified now b"
          using True None Some by (simp add: commit_ready_def Let_def r_def)
        with c o show ?thesis by blast
      qed simp
    next
      case False
      with None assms(1) replay reject load show ?thesis
        by (auto simp: CommitAttempt_def Let_def split: if_splits option.splits)
    qed
  next
    case (Some x)
    with assms(1) replay reject failed load show ?thesis
      by (auto simp: CommitAttempt_def Let_def split: if_splits option.splits prod.splits)
  qed
qed

section \<open>The database under a step\<close>

lemma CommitAttempt_effect:
  assumes "db_ok (so_cache s)" "verified \<in> V" "s' = fst (CommitAttempt env s v epoch verified now commits ix)"
  shows "db_moves env {} (so_cache s) (so_cache s') \<or> (db_move env V (so_cache s) (so_cache s') \<and>
      (stable_within (so_capacity s) (so_cache s) \<longrightarrow> stable_within (so_capacity s) (so_cache s')))"
proof -
  have "CommitAttempt env s v epoch verified now commits ix = (s', snd (CommitAttempt env s v epoch verified now commits ix))"
    using assms(3) by simp
  from CommitAttempt_outcome [OF this assms(1)] show ?thesis using move_commit [OF assms(2)] by (auto simp: quiet_def)
qed

lemma step_db:
  assumes "shared_step env V (s, ps) (s', ps')" "run_ok (s, ps)"
  shows "db_moves env {} (so_cache s) (so_cache s') \<or>
    (db_move env V (so_cache s) (so_cache s') \<and>
      (stable_within (so_capacity s) (so_cache s) \<longrightarrow> stable_within (so_capacity s) (so_cache s'))) \<or>
    (\<exists>i key blob now. db_put i key blob now (so_cache s) (so_cache s'))"
proof -
  note ok = run_okD(1) [OF assms(2)]
  have quiet: "db_moves env {} (so_cache s) (so_cache t)" if "quiet env {} s t" for t using that by (simp add: quiet_def)
  from assms(1) show ?thesis
  proof cases
    case (step_commit verified v epoch now commits ix)
    then show ?thesis using CommitAttempt_effect [OF ok] by blast
  next
    case (step_refused i key declared now available e)
    then show ?thesis using quiet [OF put_admit_refused [OF _ ok]] by blast
  next
    case (step_admitted i key declared now available rid generation)
    have "so_cache s' = so_cache s" by (rule put_admit_admitted [OF step_admitted(2) run_okD(2) [OF assms(2)]]) simp
    then show ?thesis by simp
  next
    case (step_read rid pt received observed part available written)
    then have "so_cache s' = so_cache s"
      by (auto simp: reservationRead_def resizePendingReservationLocked_def set_amount_def Let_def split: if_splits option.splits prod.splits sum.splits)
    then show ?thesis by simp
  next
    case (step_store rid pt received blob created)
    then show ?thesis using putLocked_fields(1) [OF step_store(4)] by auto
  next
    case (step_size rid pt blob created observed available)
    then have "so_cache s' = so_cache s" by (auto elim!: resize_Inr simp: set_amount_def)
    then show ?thesis by simp
  next
    case (step_record rid pt blob created now commits)
    then show ?thesis using put_record_effect [OF ok, of env "{}"] quiet by (metis Storage.select_convs(2) Storage.surjective Storage.update_convs(2))
  next
    case (step_boot disk_total boundary ds first second)
    then have "so_reservations s = []" using run_okD(5) [OF assms(2)] by simp
    then show ?thesis using step_boot boot_quiet [OF ok, of env "{}"] quiet by simp
  qed (use quiet ok in \<open>auto simp: crashed_def cleanup_if_def releasePendingReservation_def intro: quiet_intros\<close>)
qed

lemma stable_step:
  assumes "shared_step env V (s, ps) (s', ps')" "run_ok (s, ps)" "stable_within (so_capacity s) (so_cache s)"
  shows "stable_within (so_capacity s) (so_cache s')"
proof -
  note ok = run_okD(1) [OF assms(2)]
  from step_db [OF assms(1,2)] show ?thesis
  proof (elim disjE exE conjE)
    assume "db_moves env {} (so_cache s) (so_cache s')"
    then show ?thesis using stable_within_le [OF assms(3)] db_moves_stable [OF _ ok] by blast
  next
    fix i key blob now assume put: "db_put i key blob now (so_cache s) (so_cache s')"
    then obtain a where "attempt_of (so_cache s) i = Some a" by (auto simp: db_put_def)
    then have "stable_bytes sc (so_cache s') = stable_bytes sc (so_cache s)" for sc using db_put_bytes(1) [OF put ok] by blast
    then show ?thesis using stable_within_le [OF assms(3)] by simp
  qed (use assms(3) in blast)
qed

section \<open>The write-once table\<close>

definition row_of :: "cache_db \<Rightarrow> object_key \<Rightarrow> committed_row option" where
  "row_of db k = find (\<lambda>c. committed_key c = k) (db_committed db)"

text \<open>What a client sees of a committed row, and what only the access times change around.\<close>

definition published_value :: "committed_row \<Rightarrow> Blob \<times> string \<times> int" where
  "published_value c = (\<lparr>bl_Digest = cm_blob_digest c, bl_Size = cm_size_bytes c\<rparr>, cm_decision_digest c, cm_committed_at_unix_ms c)"

definition published_at :: "cache_db \<Rightarrow> object_key \<Rightarrow> (Blob \<times> string \<times> int) option" where
  "published_at db k = map_option published_value (row_of db k)"

lemma published_drop: "published_at (drop_keys K db) k = (if k \<in> K then None else published_at db k)"
  by (auto simp: published_at_def row_of_def drop_keys_def find_filter_key find_None_iff)

lemma find_map_same:
  assumes "\<And>x. f (g x) = f x"
  shows "find (\<lambda>e. f e = k) (map g xs) = map_option g (find (\<lambda>e. f e = k) xs)"
  using assms by (induction xs) auto

lemma published_move:
  assumes "db_move env V db db'" "db_ok db" "published_at db k = Some v"
  shows "published_at db' k = None \<or> published_at db' k = Some v"
  using assms(1)
proof cases
  case (move_commit verified now ttl a K)
  note c = commit_effectD [OF move_commit(2)]
  obtain x where x: "row_of db k = Some x" "published_value x = v" using assms(3) by (auto simp: published_at_def)
  then have k: "k \<in> committed_key ` set (db_committed db)" by (auto simp: row_of_def find_Some_iff)
  have new: "find (\<lambda>e. committed_key e = k) (map (published_row (status_of_row db a) dd now) (cd_Objects (vd_decision verified))) = None" for dd
    using c(8) k by (force simp: find_None_iff)
  have "find (\<lambda>e. committed_key e = k) (filter (\<lambda>c. committed_key c \<notin> K) (db_committed db)) = (if k \<in> K then None else row_of db k)"
    by (auto simp: row_of_def find_filter_key find_key_None)
  then have "row_of db' k = (if k \<in> K then None else row_of db k)"
    unfolding row_of_def [of db'] c(10) find_append_key new by (simp split: option.splits)
  with x show ?thesis by (simp add: published_at_def)
next
  case (move_touch f g)
  have "row_of db' k = map_option f (row_of db k)"
    using find_map_same [of committed_key f k "db_committed db"] move_touch by (simp add: touches_committed_def row_of_def)
  moreover have "published_value (f x) = published_value x" for x using move_touch(2) by (simp add: touches_committed_def published_value_def)
  ultimately show ?thesis using assms(3) by (auto simp: published_at_def)
next
  case (move_drop K)
  then show ?thesis using assms(3) by (simp add: published_drop)
next
  case (move_forget dd)
  have "published_at db' k = published_at (drop_keys (keys_of (\<lambda>c. cm_decision_digest c = dd) db) db) k"
    using delete_decision_drop [OF assms(2)] move_forget by (simp add: published_at_def row_of_def)
  then show ?thesis using assms(3) by (simp add: published_drop)
qed (use assms(3) in \<open>auto simp: published_at_def row_of_def\<close>)

text \<open>Only a commit publishes at a key that is free.\<close>

lemma unpublished_move:
  assumes "db_move env {} db db'" "db_ok db" "published_at db k = None"
  shows "published_at db' k = None"
proof (rule ccontr)
  assume "published_at db' k \<noteq> None"
  then have "k \<in> committed_key ` set (db_committed db')" by (force simp: published_at_def row_of_def find_Some_iff)
  moreover have "k \<notin> committed_key ` set (db_committed db)"
    using assms(3) by (auto simp: published_at_def row_of_def find_None_iff)
  moreover have "committed_key ` set (db_committed db') \<subseteq> committed_key ` set (db_committed db)"
    using assms(1)
  proof cases
    case (move_forget dd)
    then show ?thesis using delete_decision_drop [OF assms(2)] by auto
  qed (auto simp: touches_committed_def image_iff)
  ultimately show False by blast
qed

lemma published_moves:
  assumes "db_moves env {} db db'" "db_ok db"
  shows "published_at db' k = None \<or> published_at db' k = published_at db k"
  using assms(1)
proof (induction rule: rtranclp_induct)
  case (step y z)
  have "db_ok y" using db_moves_ok [OF step(1) assms(2)] .
  then show ?case
    using step(3) published_move [OF step(2), of k] unpublished_move [OF step(2), of k] by (cases "published_at y k") metis+
qed simp

lemma published_put: "db_put i key blob now db db' \<Longrightarrow> published_at db' k = published_at db k"
  by (auto simp: db_put_def Let_def published_at_def row_of_def)

definition published :: "config \<Rightarrow> object_key \<Rightarrow> (Blob \<times> string \<times> int) option" where
  "published c = published_at (so_cache (fst c))"

definition attempt_in :: "config \<Rightarrow> string \<Rightarrow> attempt_row option" where
  "attempt_in c = attempt_of (so_cache (fst c))"

lemma step_kept: "run_ok c \<Longrightarrow> shared_step env V c c' \<Longrightarrow> run_ok c'"
  using step_run [of env V "fst c" "snd c" "fst c'" "snd c'"] by simp

interpretation objects: write_once "shared_step env V" run_ok published
proof unfold_locales
  fix c c' k v assume c: "run_ok c" "shared_step env V c c'"
  then show "run_ok c'" by (rule step_kept)
  assume v: "published c k = Some v"
  have ok: "db_ok (so_cache (fst c))" using run_okD(1) [of "fst c" "snd c"] c(1) by simp
  from step_db [of env V "fst c" "snd c" "fst c'" "snd c'"] c
  consider "db_moves env {} (so_cache (fst c)) (so_cache (fst c'))" | "db_move env V (so_cache (fst c)) (so_cache (fst c'))"
    | i key blob now where "db_put i key blob now (so_cache (fst c)) (so_cache (fst c'))" by auto
  then show "published c' k = None \<or> published c' k = Some v"
    using published_moves [OF _ ok, of env _ k] published_move [OF _ ok, of env V _ k v] published_put v
    by cases (auto simp: published_def)
qed

interpretation attempts: versioned_lifecycle "shared_step env V" run_ok attempt_in "\<lambda>a. at_state a \<noteq> AttemptPending"
  at_state_version attempt_binding
proof unfold_locales
  fix c c' i a assume c: "run_ok c" "shared_step env V c c'"
  then show "run_ok c'" by (rule step_kept)
  assume a: "attempt_in c i = Some a"
  from step_db [of env V "fst c" "snd c" "fst c'" "snd c'"] c
  consider "db_moves env V (so_cache (fst c)) (so_cache (fst c'))" | "db_moves env {} (so_cache (fst c)) (so_cache (fst c'))"
    | j key blob now where "db_put j key blob now (so_cache (fst c)) (so_cache (fst c'))" by auto
  then have "\<exists>b. attempt_of (so_cache (fst c')) i = Some b \<and> attempt_follows a b"
    using a db_moves_attempt db_put_attempt by cases (simp_all add: attempt_in_def)
  then show "\<exists>b. attempt_in c' i = Some b \<and> attempt_binding b = attempt_binding a \<and>
      (b = a \<or> (\<not> at_state a \<noteq> AttemptPending \<and> at_state_version a < at_state_version b))"
    by (auto simp: attempt_in_def attempt_follows_def)
qed

section \<open>Everything published is authorised\<close>

text \<open>A decision covers a published row and its entry when it names the object, its bytes, and its repository.\<close>

definition covers :: "VerifiedCommitDecision \<Rightarrow> committed_row \<Rightarrow> entry_row \<Rightarrow> bool" where
  "covers v c e = (let d = vd_decision v in
     cm_decision_digest c = cd_DecisionDigest d \<and> cm_tenant_id c = rp_Tenant (cd_Repository d) \<and>
     en_repository_id e = rp_Repository (cd_Repository d) \<and> en_trust_domain e = rp_TrustDomain (cd_Repository d) \<and>
     \<lparr>co_NamespaceGeneration = cm_namespace_generation c, co_Key = cm_cache_key c, co_Checksum = cm_blob_digest c,
      co_SizeBytes = cm_size_bytes c\<rparr> \<in> set (cd_Objects d))"

definition authorised :: "VerifiedCommitDecision set \<Rightarrow> cache_db \<Rightarrow> bool" where
  "authorised V db = (\<forall>c\<in>set (db_committed db). \<forall>e\<in>set (db_entries db). entry_key e = committed_key c \<longrightarrow> (\<exists>v\<in>V. covers v c e))"

lemma authorisedD:
  "authorised V db \<Longrightarrow> c \<in> set (db_committed db) \<Longrightarrow> e \<in> set (db_entries db) \<Longrightarrow> entry_key e = committed_key c \<Longrightarrow> \<exists>v\<in>V. covers v c e"
  by (simp add: authorised_def)

lemma authorised_subset:
  assumes "authorised V db" "set (db_committed db') \<subseteq> set (db_committed db)" "set (db_entries db') \<subseteq> set (db_entries db)"
  shows "authorised V db'"
  using assms unfolding authorised_def by blast

lemma covers_published:
  assumes "commit_effect env verified now ttl a K db db'" "b \<in> set (cd_Objects (vd_decision verified))"
  shows "covers verified (published_row (status_of_row db a) (cd_DecisionDigest (vd_decision verified)) now b)
    (published_entry (status_of_row db a) now ttl b)"
proof -
  have "\<lparr>co_NamespaceGeneration = co_NamespaceGeneration b, co_Key = co_Key b, co_Checksum = co_Checksum b, co_SizeBytes = co_SizeBytes b\<rparr> = b"
    by simp
  with assms(2) have "\<lparr>co_NamespaceGeneration = co_NamespaceGeneration b, co_Key = co_Key b, co_Checksum = co_Checksum b, co_SizeBytes = co_SizeBytes b\<rparr>
      \<in> set (cd_Objects (vd_decision verified))" by (simp only:)
  then show ?thesis
    using commit_effectD(4) [OF assms(1)] by (simp add: covers_def Let_def published_row_def published_entry_def)
qed

lemma authorised_commit:
  assumes "commit_effect env verified now ttl a K db db'" "db_ok db" "verified \<in> V" "authorised V db"
  shows "authorised V db'"
  unfolding authorised_def
proof (intro ballI impI)
  note c = commit_effectD [OF assms(1)]
  let ?objects = "cd_Objects (vd_decision verified)"
  let ?key = "\<lambda>b. (at_tenant_id a, co_NamespaceGeneration b, co_Key b)"
  fix x e assume x: "x \<in> set (db_committed db')" and e: "e \<in> set (db_entries db')" and same: "entry_key e = committed_key x"
  have keys: "entry_key ` set (db_entries db) = committed_key ` set (db_committed db)" using assms(2) by (simp add: db_ok_def committed_ok_def)
  show "\<exists>v\<in>V. covers v x e"
  proof (cases "\<exists>b\<in>set ?objects. committed_key x = ?key b")
    case False
    then have "x \<in> set (db_committed db)" "e \<in> set (db_entries db)"
      using x e same by (auto simp: c(10,11))
    then show ?thesis using authorisedD [OF assms(4)] same by blast
  next
    case True
    then obtain b where b: "b \<in> set ?objects" "committed_key x = ?key b" by blast
    have free: "?key b \<notin> committed_key ` set (db_committed db)" by (rule c(8) [OF b(1)])
    then have "x \<notin> set (db_committed db)" using b(2) by (metis image_eqI)
    moreover have "e \<notin> set (db_entries db)" using free keys same b(2) by (metis image_eqI)
    ultimately obtain b1 b2 where new: "b1 \<in> set ?objects" "x = published_row (status_of_row db a) (cd_DecisionDigest (vd_decision verified)) now b1"
      "b2 \<in> set ?objects" "e = published_entry (status_of_row db a) now ttl b2"
      using x e by (auto simp: c(10,11))
    then have "b1 = b2" using distinct_key_eq [OF c(9), of b1 b2] same by simp
    with new covers_published [OF assms(1)] assms(3) show ?thesis by blast
  qed
qed

lemma authorised_move:
  assumes "db_move env V db db'" "db_ok db" "authorised V db"
  shows "authorised V db'"
  using assms(1)
proof cases
  case (move_commit verified now ttl a K)
  then show ?thesis using authorised_commit [OF _ assms(2) _ assms(3)] by blast
next
  case (move_touch f g)
  have "covers v (f c) (g e) = covers v c e" "entry_key (g e) = entry_key e" "committed_key (f c) = committed_key c" for v c e
    using move_touch(2,3) by (auto simp: covers_def touches_committed_def touches_entry_def committed_key_def)
  then show ?thesis using move_touch(1) assms(3) by (auto simp: authorised_def)
next
  case (move_forget dd)
  then show ?thesis
    using delete_decision_drop [OF assms(2)] by (intro authorised_subset [OF assms(3)]) auto
qed (auto intro!: authorised_subset [OF assms(3)])

lemma authorised_mono: "authorised V db \<Longrightarrow> V \<subseteq> W \<Longrightarrow> authorised W db"
  unfolding authorised_def by blast

lemma db_move_mono: "db_move env V db db' \<Longrightarrow> V \<subseteq> W \<Longrightarrow> db_move env W db db'"
  by (induction rule: db_move.induct) (auto intro: db_move.intros)

lemma authorised_step:
  assumes "shared_step env V (s, ps) (s', ps')" "run_ok (s, ps)" "authorised V (so_cache s)"
  shows "authorised V (so_cache s')"
proof -
  have moves: "authorised V db'" if "db_moves env {} db db'" "db_ok db" "authorised V db" for db db'
    using that(1)
  proof (induction rule: rtranclp_induct)
    case (step y z)
    then show ?case using authorised_move [OF db_move_mono [OF step(2)]] db_moves_ok [OF step(1) that(2)] by blast
  qed (rule that(3))
  from step_db [OF assms(1,2)] show ?thesis
  proof (elim disjE exE)
    fix i key blob now assume "db_put i key blob now (so_cache s) (so_cache s')"
    then show ?thesis by (intro authorised_subset [OF assms(3)]) (auto simp: db_put_def Let_def)
  qed (use assms run_okD(1) authorised_move moves in blast)+
qed

text \<open>The decisions that pass the verification under the keys of the deployment.\<close>

definition decisions_verified :: "environment \<Rightarrow> decision_codec \<Rightarrow> (string \<Rightarrow> string option) \<Rightarrow> VerifiedCommitDecision set" where
  "decisions_verified env codec publicKeys =
     {v. \<exists>raw epoch now. VerifyCommitDecision env codec raw publicKeys epoch now = Inr v}"

definition signed :: "environment \<Rightarrow> decision_codec \<Rightarrow> (string \<Rightarrow> string option) \<Rightarrow> CommitDecision \<Rightarrow> bool" where
  "signed env codec publicKeys d \<longleftrightarrow>
     (\<exists>canonical publicKey signature. decode_decision codec canonical = Inr d \<and>
        commitDecisionDigest env codec canonical = Some (cd_DecisionDigest d) \<and>
        publicKeys (ca_KeyID (cd_Authentication d)) = Some publicKey \<and>
        base64_raw_url codec (ca_Signature (cd_Authentication d)) = Some signature \<and>
        ed25519_verify codec publicKey (commitDecisionSignaturePayload (ca_KeyID (cd_Authentication d)) (cd_DecisionDigest d)) signature)"

lemma decisions_verified_signed: "v \<in> decisions_verified env codec publicKeys \<Longrightarrow> signed env codec publicKeys (vd_decision v)"
  by (auto simp: decisions_verified_def VerifyCommitDecision_def signed_def split: if_splits sum.splits prod.splits option.splits)

section \<open>Reads of a published object\<close>

lemma stable_rows_member: "(c, e) \<in> set (stable_rows db) \<longleftrightarrow> c \<in> set (db_committed db) \<and> e \<in> set (db_entries db) \<and> entry_key e = committed_key c"
  by (auto simp: stable_rows_def)

lemma loadCommitted_row:
  assumes "loadCommittedObjectReadLocked db k = Inr (object, g, lastAccess, expiresAt)"
  obtains c e where "c \<in> set (db_committed db)" "e \<in> set (db_entries db)" "entry_key e = committed_key c" "committed_key c = k"
    "object = object_of_row c" "g = en_segment e" "lastAccess = cm_last_access_unix_ms c" "expiresAt = en_expires_at_unix_ms e"
proof -
  from assms obtain c e where f: "find (\<lambda>(c, e). committed_key c = k \<and> list_ex (\<lambda>d. de_decision_digest d = cm_decision_digest c) (db_decisions db)) (stable_rows db) = Some (c, e)"
    and o: "object = object_of_row c" "g = en_segment e" "lastAccess = cm_last_access_unix_ms c" "expiresAt = en_expires_at_unix_ms e"
    by (auto simp: loadCommittedObjectReadLocked_def split: option.splits)
  from f have "(c, e) \<in> set (stable_rows db)" "committed_key c = k" by (auto simp: find_Some_iff, metis nth_mem)
  with o that show ?thesis by (auto simp: stable_rows_member)
qed

text \<open>The bytes a reader gets were verified against a row of the table, whatever happened after the lookup.\<close>

lemma read_verified:
  assumes "open_finish s' (open_read env s tenant ns key now) now' commits = (t, Inr (bytes, object))"
  obtains c e where "c \<in> set (db_committed (so_cache s))" "e \<in> set (db_entries (so_cache s))" "entry_key e = committed_key c"
    "committed_key c = (tenant, ns, key)" "object = object_of_row c" "to_milli now < en_expires_at_unix_ms e"
    "openVerified env s (ob_Blob object) = Inr bytes"
proof -
  from assms obtain g la ex where l: "loadCommittedObjectReadLocked (so_cache s) (tenant, ns, key) = Inr (object, g, la, ex)"
    "\<not> ex \<le> to_milli now" "openVerified env s (ob_Blob object) = Inr bytes"
    by (auto simp: open_read_def open_promote_def Let_def split: if_splits sum.splits prod.splits)
  from loadCommitted_row [OF l(1)] l(2,3) that show ?thesis by (metis not_le)
qed

lemma authorised_read:
  assumes "open_finish s' (open_read env s tenant ns key now) now' commits = (t, Inr (bytes, object))"
    and "authorised (decisions_verified env codec publicKeys) (so_cache s)"
  obtains d c e where "signed env codec publicKeys d" "c \<in> set (db_committed (so_cache s))" "e \<in> set (db_entries (so_cache s))"
    "entry_key e = (tenant, ns, key)" "object = object_of_row c" "openVerified env s (ob_Blob object) = Inr bytes"
    "\<lparr>co_NamespaceGeneration = ns, co_Key = key, co_Checksum = bl_Digest (ob_Blob object), co_SizeBytes = bl_Size (ob_Blob object)\<rparr> \<in> set (cd_Objects d)"
    "cd_Repository d = \<lparr>rp_Tenant = tenant, rp_Repository = en_repository_id e, rp_TrustDomain = en_trust_domain e\<rparr>"
    "cd_DecisionDigest d = ob_DecisionDigest object"
proof -
  from assms(1) obtain c e where row: "c \<in> set (db_committed (so_cache s))" "e \<in> set (db_entries (so_cache s))" "entry_key e = committed_key c"
    "committed_key c = (tenant, ns, key)" "object = object_of_row c" and bytes: "openVerified env s (ob_Blob object) = Inr bytes"
    by (rule read_verified)
  from authorisedD [OF assms(2) row(1-3)] obtain v where v: "v \<in> decisions_verified env codec publicKeys" "covers v c e" by blast
  have "cd_Repository (vd_decision v) = \<lparr>rp_Tenant = tenant, rp_Repository = en_repository_id e, rp_TrustDomain = en_trust_domain e\<rparr>"
    using v(2) row(4) by (simp add: covers_def Let_def committed_key_def)
  then show ?thesis
    using that [of "vd_decision v" c e] decisions_verified_signed [OF v(1)] row bytes v(2)
    by (simp add: covers_def Let_def object_of_row_def committed_key_def)
qed

lemma openVerified_Inr:
  assumes "openVerified env s blob = Inr bytes"
  shows "map_of (so_blobs s) (bl_Digest blob) = Some bytes" "int (length bytes) = bl_Size blob" "digestPrefix @ sha256_hex env bytes = bl_Digest blob"
  using assms by (auto simp: openVerified_def split: if_splits option.splits)

section \<open>Runs from the empty storage\<close>

definition initial :: "Storage \<Rightarrow> bool" where
  "initial s = (db_attempts (so_cache s) = [] \<and> db_pending (so_cache s) = [] \<and> db_decisions (so_cache s) = [] \<and>
     db_committed (so_cache s) = [] \<and> db_entries (so_cache s) = [] \<and> db_quarantine (so_cache s) = [] \<and> so_reservations s = [] \<and>
     1 \<le> so_maximumBlobBytes s \<and> validateCapacityPolicy (so_capacity s) (so_maximumBlobBytes s))"

lemma initial_run:
  assumes "initial s"
  shows "run_ok (s, Map.empty)" "budget (s, Map.empty)" "authorised V (so_cache s)" "stable_within (so_capacity s) (so_cache s)"
proof -
  show "run_ok (s, Map.empty)" using assms by (auto simp: initial_def run_ok_def db_ok_defs)
  show "budget (s, Map.empty)"
    using assms by (auto simp: initial_def budget_def Let_def stable_bytes_def pending_bytes_def capacityUsage_def stable_rows_def
        pending_rows_def row_bytes_def held_def validateCapacityPolicy_def)
  then show "stable_within (so_capacity s) (so_cache s)"
    using assms by (auto simp: initial_def stable_within_def stable_bytes_def capacityUsage_def Let_def stable_rows_def row_bytes_def
        validateCapacityPolicy_def)
  show "authorised V (so_cache s)" using assms by (simp add: initial_def authorised_def)
qed

lemma run_invariants:
  assumes "(shared_step env V)\<^sup>*\<^sup>* (s, Map.empty) (s', ps')" "initial s"
  shows "run_ok (s', ps') \<and> authorised V (so_cache s')"
  using assms(1)
proof (induction rule: rtranclp_induct2)
  case refl
  then show ?case using initial_run [OF assms(2)] by blast
next
  case (step s1 ps1 s2 ps2)
  then show ?case using step_run [OF step(2)] authorised_step [OF step(2)] by blast
qed

text \<open>A steady run is one in which no reservation grows on answers that are out of date.\<close>

definition steady_step :: "environment \<Rightarrow> VerifiedCommitDecision set \<Rightarrow> config \<Rightarrow> config \<Rightarrow> bool" where
  "steady_step env V c c' \<longleftrightarrow> shared_step env V c c' \<and> growth_admitted c c'"

lemma steady_run_budget:
  assumes "(steady_step env V)\<^sup>*\<^sup>* (s, Map.empty) (s', ps')" "initial s"
  shows "run_ok (s', ps') \<and> budget (s', ps')"
  using assms(1)
proof (induction rule: rtranclp_induct2)
  case refl
  then show ?case using initial_run [OF assms(2)] by blast
next
  case (step s1 ps1 s2 ps2)
  then show ?case using step_run [of env V s1 ps1 s2 ps2] unfolding steady_step_def by blast
qed

end
