(* ===== verification/SharedPuts.thy ===== *)
theory SharedPuts
  imports SharedPublished
begin

text \<open>
  The sequential \<open>PutPendingSized\<close> is one of the interleavings of the storage: each of its sections is a step, its
  queries see the current usage, and at the end its reservation is gone. The configuration of the storage never changes during a run.
\<close>

section \<open>A put as a run\<close>

abbreviation shared_run :: "environment \<Rightarrow> VerifiedCommitDecision set \<Rightarrow> config \<Rightarrow> config \<Rightarrow> bool" where
  "shared_run env V \<equiv> (shared_step env V)\<^sup>*\<^sup>*"

abbreviation steady_run :: "environment \<Rightarrow> VerifiedCommitDecision set \<Rightarrow> config \<Rightarrow> config \<Rightarrow> bool" where
  "steady_run env V \<equiv> (steady_step env V)\<^sup>*\<^sup>*"

lemma steady_shared: "steady_run env V c c' \<Longrightarrow> shared_run env V c c'"
  by (erule rtranclp_mono [THEN predicate2D, rotated]) (auto simp: steady_step_def)

lemma growth_kept: "so_reservations s' = so_reservations s \<Longrightarrow> growth_admitted (s, ps) (s', ps')"
  by (auto simp: growth_admitted_def)

lemma growth_released: "growth_admitted (s, ps) (releasePendingReservation s rid, ps')"
proof -
  have "map_of (filter (\<lambda>(i, r). i \<noteq> rid) rs) j = (if j = rid then None else map_of rs j)" for rs :: "(nat \<times> pendingReservation) list" and j
    by (induction rs) auto
  then show ?thesis by (auto simp: growth_admitted_def releasePendingReservation_def)
qed

lemma growth_new:
  assumes "rid \<notin> fst ` set (so_reservations s)" "so_reservations s' = (rid, r) # so_reservations s"
  shows "growth_admitted (s, ps) (s', ps')"
  using assms by (auto simp: growth_admitted_def split: if_splits) (metis fst_conv image_eqI map_of_SomeD)

lemma growth_read:
  assumes "reservationRead (capacityUsage (so_cache s)) s rid written n available = Inr (s', w)"
  shows "growth_admitted (s, ps) (s', ps')"
proof -
  have "s' = s \<or> resizePendingReservationLocked (capacityUsage (so_cache s)) s rid (written + n) written available = Inr s'"
    using assms by (auto simp: reservationRead_def Let_def split: if_splits option.splits)
  then show ?thesis using growth_kept current_growth_admitted by blast
qed

lemma put_record_reservations: "so_reservations (fst (put_record env s i key g blob created now commits)) = so_reservations s"
  by (simp add: put_record_def cleanup_if_def split: sum.splits prod.splits)

lemma put_stream_run:
  assumes "put_stream s rid received body = (s', r)"
  shows "\<exists>received'. steady_run env V (s, ps(rid \<mapsto> pt\<lparr>pt_phase := Reading received\<rparr>)) (s', ps(rid \<mapsto> pt\<lparr>pt_phase := Reading received'\<rparr>)) \<and>
    (\<forall>bytes. r = Inr bytes \<longrightarrow> received' = bytes)"
  using assms
proof (induction s rid received body rule: put_stream.induct)
  case (2 s rid received chunk available rest)
  define part where "part = take (nat (so_maximumBlobBytes s + 1 - int (length received))) chunk"
  show ?case
  proof (cases "so_maximumBlobBytes s + 1 - int (length received) \<le> 0")
    case True
    with 2(2) show ?thesis by auto
  next
    case False
    show ?thesis
    proof (cases "reservationRead (capacityUsage (so_cache s)) s rid (int (length received)) (int (length part)) available")
      case (Inl e)
      with 2(2) False show ?thesis by (auto simp: part_def Let_def)
    next
      case (Inr x)
      obtain s1 w where x: "x = (s1, w)" by (cases x)
      have "put_stream s1 rid (received @ part) rest = (s', r)" using 2(2) False Inr x by (simp add: part_def Let_def)
      with 2(1) [OF refl False part_def] Inr x obtain received' where
        run: "steady_run env V (s1, ps(rid \<mapsto> pt\<lparr>pt_phase := Reading (received @ part)\<rparr>)) (s', ps(rid \<mapsto> pt\<lparr>pt_phase := Reading received'\<rparr>))"
        and res: "\<forall>bytes. r = Inr bytes \<longrightarrow> received' = bytes" by metis
      have "steady_step env V (s, ps(rid \<mapsto> pt\<lparr>pt_phase := Reading received\<rparr>)) (s1, ps(rid \<mapsto> pt\<lparr>pt_phase := Reading (received @ part)\<rparr>))"
        using step_read [of "ps(rid \<mapsto> pt\<lparr>pt_phase := Reading received\<rparr>)" rid "pt\<lparr>pt_phase := Reading received\<rparr>" received "capacityUsage (so_cache s)" s part available s1 w env V]
          Inr x growth_read by (simp add: advance_def steady_step_def)
      with run res show ?thesis by (meson converse_rtranclp_into_rtranclp)
    qed
  qed
qed auto

text \<open>A put that has finished releases its reservation.\<close>

lemma finish_run:
  assumes "ps rid = None" "steady_run env V c (s, ps(rid \<mapsto> pt\<lparr>pt_phase := Finished\<rparr>))"
  shows "steady_run env V c (releasePendingReservation s rid, ps)"
proof -
  have "(ps(rid \<mapsto> pt\<lparr>pt_phase := Finished\<rparr>))(rid := None) = ps" using assms(1) by (simp add: fun_upd_idem)
  then have "steady_step env V (s, ps(rid \<mapsto> pt\<lparr>pt_phase := Finished\<rparr>)) (releasePendingReservation s rid, ps)"
    using step_release [of "ps(rid \<mapsto> pt\<lparr>pt_phase := Finished\<rparr>)" rid "pt\<lparr>pt_phase := Finished\<rparr>" env V s] growth_released
    by (simp add: steady_step_def)
  with assms(2) show ?thesis by (rule rtranclp.rtrancl_into_rtrancl)
qed

text \<open>The end of a put: its blob is stored, and its row is still to be recorded.\<close>

lemma put_tail_run:
  assumes "ps rid = None" "steady_run env V c (s, ps(rid \<mapsto> pt\<lparr>pt_phase := Stored blob created\<rparr>))"
  shows "steady_run env V c
    (fst (case resizePendingReservationLocked (capacityUsage (so_cache s)) s rid (bl_Size blob) (bl_Size blob) available of
            Inl e \<Rightarrow> (releasePendingReservation (cleanup_if created s) rid, Inl e)
          | Inr s4 \<Rightarrow> (case put_record env s4 (pt_attempt pt) (pt_key pt) (pt_generation pt) blob created now commits of
              (s5, res) \<Rightarrow> (releasePendingReservation s5 rid, res))), ps)"
proof (cases "resizePendingReservationLocked (capacityUsage (so_cache s)) s rid (bl_Size blob) (bl_Size blob) available")
  case (Inl e)
  let ?at = "\<lambda>phase. ps(rid \<mapsto> pt\<lparr>pt_phase := phase\<rparr>)"
  have "steady_step env V (s, ?at (Stored blob created)) (cleanup_if created s, ?at Finished)"
    using step_oversized [of "?at (Stored blob created)" rid "pt\<lparr>pt_phase := Stored blob created\<rparr>"] Inl
    by (simp add: advance_def steady_step_def growth_kept cleanup_if_def)
  from finish_run [OF assms(1) rtranclp.rtrancl_into_rtrancl [OF assms(2) this]] show ?thesis by (simp add: Inl)
next
  case (Inr s4)
  let ?at = "\<lambda>phase. ps(rid \<mapsto> pt\<lparr>pt_phase := phase\<rparr>)"
  have "steady_step env V (s, ?at (Stored blob created)) (s4, ?at (Sized blob created))"
    using step_size [of "?at (Stored blob created)" rid "pt\<lparr>pt_phase := Stored blob created\<rparr>"] Inr current_growth_admitted
    by (simp add: advance_def steady_step_def)
  moreover obtain s5 res where s5: "put_record env s4 (pt_attempt pt) (pt_key pt) (pt_generation pt) blob created now commits = (s5, res)" by fastforce
  then have "steady_step env V (s4, ?at (Sized blob created)) (s5, ?at Finished)"
    using step_record [of "?at (Sized blob created)" rid "pt\<lparr>pt_phase := Sized blob created\<rparr>" blob created env V s4 now commits]
      put_record_reservations [of env s4 "pt_attempt pt" "pt_key pt" "pt_generation pt" blob created now commits]
    by (simp add: advance_def steady_step_def growth_kept)
  ultimately have "steady_run env V c (s5, ?at Finished)" using assms(2) by (meson rtranclp.rtrancl_into_rtrancl)
  from finish_run [OF assms(1) this] show ?thesis by (simp add: Inr s5)
qed

lemma put_body_run:
  assumes "ps rid = None" "steady_run env V c (s, ps(rid \<mapsto> pt\<lparr>pt_phase := Reading []\<rparr>))"
    and "put_stream s rid [] body = (s2, r)"
  shows "steady_run env V c
    (fst (case r of Inl e \<Rightarrow> (releasePendingReservation s2 rid, Inl e)
          | Inr bytes \<Rightarrow> (case putLocked env s2 bytes of
              (s3, Inl e) \<Rightarrow> (releasePendingReservation s3 rid, Inl e)
            | (s3, Inr (blob, created)) \<Rightarrow>
               (case resizePendingReservationLocked (capacityUsage (so_cache s3)) s3 rid (bl_Size blob) (bl_Size blob) available of
                  Inl e \<Rightarrow> (releasePendingReservation (cleanup_if created s3) rid, Inl e)
                | Inr s4 \<Rightarrow> (case put_record env s4 (pt_attempt pt) (pt_key pt) (pt_generation pt) blob created now commits of
                    (s5, res) \<Rightarrow> (releasePendingReservation s5 rid, res))))), ps)"
proof -
  let ?at = "\<lambda>phase. ps(rid \<mapsto> pt\<lparr>pt_phase := phase\<rparr>)"
  obtain received where received: "steady_run env V (s, ?at (Reading [])) (s2, ?at (Reading received))" "\<forall>bytes. r = Inr bytes \<longrightarrow> received = bytes"
    using put_stream_run [OF assms(3), of env V ps pt] by blast
  have r2: "steady_run env V c (s2, ?at (Reading received))" using assms(2) received(1) by (rule rtranclp_trans)
  have broken: "steady_step env V (t, ?at (Reading received)) (t, ?at Finished)" for t
    using step_broken [of "?at (Reading received)" rid "pt\<lparr>pt_phase := Reading received\<rparr>" received env V t] by (simp add: advance_def steady_step_def growth_kept)
  show ?thesis
  proof (cases r)
    case (Inl e)
    then show ?thesis using finish_run [OF assms(1) rtranclp.rtrancl_into_rtrancl [OF r2 broken]] by simp
  next
    case (Inr bytes)
    obtain s3 w where s3: "putLocked env s2 bytes = (s3, w)" by fastforce
    show ?thesis
    proof (cases w)
      case (Inl e)
      obtain bs where "s3 = s2\<lparr>so_blobs := bs, so_state_digests := so_state_digests s2\<rparr>" using putLocked_failed [OF s3 [unfolded Inl]] by auto
      then have "steady_step env V (s2, ?at (Reading received)) (s3, ?at (Reading received))"
        using step_disk [of env V s2 "?at (Reading received)" "so_state_digests s2" bs] by (simp add: steady_step_def growth_kept)
      from finish_run [OF assms(1) rtranclp.rtrancl_into_rtrancl [OF rtranclp.rtrancl_into_rtrancl [OF r2 this] broken]]
      show ?thesis by (simp add: Inr s3 Inl)
    next
      case z: (Inr z)
      obtain blob created where b: "z = (blob, created)" by (cases z)
      have "steady_step env V (s2, ?at (Reading received)) (s3, ?at (Stored blob created))"
        using step_store [of "?at (Reading received)" rid "pt\<lparr>pt_phase := Reading received\<rparr>" received env s2 s3 blob created V] s3 z b Inr received(2)
          putLocked_fields(1) [of env s2 bytes s3 blob created] by (auto simp: advance_def steady_step_def intro!: growth_kept)
      from put_tail_run [OF assms(1) rtranclp.rtrancl_into_rtrancl [OF r2 this]] show ?thesis by (simp add: Inr s3 z b)
    qed
  qed
qed

lemma PutPendingSized_steady:
  assumes "0 \<le> so_maximumBlobBytes s" "ps (so_next_reservation s) = None" "so_next_reservation s \<notin> fst ` set (so_reservations s)"
  shows "steady_run env V (s, ps) (fst (PutPendingSized env s i key declared body now available now' commits), ps)"
proof (cases "put_admit env s i key declared now available")
  case (Pair s1 x)
  show ?thesis
  proof (cases x)
    case (Inl e)
    then have "so_reservations s1 = so_reservations s" using Pair by (auto simp: put_admit_def split: if_splits sum.splits)
    then show ?thesis using step_refused [of env s i key declared now available s1 e V ps] Pair Inl growth_kept
      by (auto simp: PutPendingSized_def steady_step_def)
  next
    case (Inr y)
    obtain rid g where y: "y = (rid, g)" by (cases y)
    have rid: "ps rid = None" using put_admit_admitted [of env s i key declared now available s1 rid g] assms Pair Inr y by metis
    define pt where "pt = \<lparr>pt_attempt = i, pt_key = key, pt_generation = g, pt_phase = Reading []\<rparr>"
    have pt: "pt\<lparr>pt_phase := Reading []\<rparr> = pt" by (simp add: pt_def)
    have "growth_admitted (s, ps) (s1, ps(rid \<mapsto> pt))"
    proof (rule put_admit_admitted [OF _ assms(1)])
      show "put_admit env s i key declared now available = (s1, Inr (rid, g))" using Pair Inr y by simp
    qed (use assms(3) growth_new in auto)
    then have r1: "steady_run env V (s, ps) (s1, ps(rid \<mapsto> pt\<lparr>pt_phase := Reading []\<rparr>))"
      using step_admitted [of env s i key declared now available s1 rid g V ps] Pair Inr y unfolding pt by (simp add: pt_def steady_step_def r_into_rtranclp)
    obtain s2 r where s2: "put_stream s1 rid [] body = (s2, r)" by fastforce
    have fields: "pt_attempt pt = i" "pt_key pt = key" "pt_generation pt = g" by (simp_all add: pt_def)
    from put_body_run [where now = now' and commits = commits and available = available, OF rid r1 s2] show ?thesis
      unfolding fields by (simp add: PutPendingSized_def Pair Inr y s2)
  qed
qed

lemma PutPendingSized_run:
  assumes "run_ok (s, ps)"
  shows "shared_run env V (s, ps) (fst (PutPendingSized env s i key declared body now available now' commits), ps)"
proof -
  note q = run_okD [OF assms]
  have fresh: "so_next_reservation s \<notin> fst ` set (so_reservations s)" using q(4) by force
  then have "ps (so_next_reservation s) = None" using q(5) by (metis domIff)
  from q(2) this fresh show ?thesis by (intro steady_shared PutPendingSized_steady)
qed

section \<open>The configuration of a run\<close>

definition same_configuration :: "Storage \<Rightarrow> Storage \<Rightarrow> bool" where
  "same_configuration s s' = (so_capacity s' = so_capacity s \<and> so_maximumBlobBytes s' = so_maximumBlobBytes s)"

lemma step_configuration:
  assumes "shared_step env V (s, ps) (s', ps')" "run_ok (s, ps)"
  shows "same_configuration s s'"
proof -
  note ok = run_okD(1) [OF assms(2)]
  have quiet: "same_configuration s t" if "quiet env V s t" for t
    using that by (simp add: quiet_def same_configuration_def)
  from assms(1) show ?thesis
  proof cases
    case (step_refused i key declared now available e)
    then show ?thesis using quiet [OF put_admit_refused [OF _ ok]] by blast
  next
    case (step_admitted i key declared now available rid generation)
    show ?thesis by (rule put_admit_admitted [OF step_admitted(2) run_okD(2) [OF assms(2)]]) (simp add: same_configuration_def)
  next
    case (step_read rid pt received observed part available written)
    then show ?thesis
      by (auto simp: reservationRead_def resizePendingReservationLocked_def set_amount_def same_configuration_def Let_def split: if_splits option.splits prod.splits sum.splits)
  next
    case (step_store rid pt received blob created)
    then show ?thesis using putLocked_fields(1) [OF step_store(4)] by (auto simp: same_configuration_def)
  next
    case (step_size rid pt blob created observed available)
    then show ?thesis by (auto elim!: resize_Inr simp: set_amount_def same_configuration_def)
  next
    case (step_record rid pt blob created now commits)
    then consider "quiet env V s s'" | db where "s' = s\<lparr>so_cache := db\<rparr>" using put_record_effect [OF ok] by blast
    then show ?thesis
    proof cases
      case 1
      then show ?thesis by (rule quiet)
    qed (simp add: same_configuration_def)
  next
    case (step_boot disk_total boundary ds first second)
    then have "so_reservations s = []" using run_okD(5) [OF assms(2)] by simp
    then show ?thesis using step_boot boot_quiet [OF ok] quiet by simp
  next
    case (step_oversized rid pt blob created observed available e)
    then show ?thesis by (simp add: same_configuration_def cleanup_if_def)
  next
    case (step_release rid pt)
    then show ?thesis by (simp add: same_configuration_def releasePendingReservation_def)
  next
    case step_crash
    then show ?thesis by (simp add: same_configuration_def crashed_def)
  next
    case (step_disk bs ds)
    then show ?thesis by (simp add: same_configuration_def)
  qed (use quiet ok in \<open>auto intro: quiet_intros\<close>)
qed

lemma run_configuration:
  assumes "shared_run env V (s, Map.empty) (s', ps')" "initial s"
  shows "same_configuration s s'"
  using assms(1)
proof (induction rule: rtranclp_induct2)
  case (step s1 ps1 s2 ps2)
  then show ?case using step_configuration [OF step(2)] run_invariants [OF step(1) assms(2)] by (simp add: same_configuration_def)
qed (simp add: same_configuration_def)

lemma run_stable:
  assumes "shared_run env V (s, Map.empty) (s', ps')" "initial s"
  shows "stable_within (so_capacity s) (so_cache s')"
  using assms(1)
proof (induction rule: rtranclp_induct2)
  case refl
  then show ?case using initial_run(4) [OF assms(2)] .
next
  case (step s1 ps1 s2 ps2)
  have "so_capacity s1 = so_capacity s" using run_configuration [OF step(1) assms(2)] by (simp add: same_configuration_def)
  then show ?case using stable_step [OF step(2)] run_invariants [OF step(1) assms(2)] step(3) by simp
qed

end
