(* ===== verification/SharedExample.thy ===== *)
theory SharedExample
  imports SharedPuts
begin

text \<open>
  One build on a small storage: an attempt starts, puts one object, a signed decision commits it, and a reader
  opens it. The witnesses of the properties of the Shared storage are instances of this run.
\<close>

definition ex_digest :: "char \<Rightarrow> string" where
  "ex_digest c = ''sha256:'' @ replicate 64 c"

definition ex_env :: environment where
  "ex_env = \<lparr>sha256_hex = (\<lambda>s. replicate 64 (if s = ''bytes'' then CHR ''b'' else CHR ''c'')), map_order = (\<lambda>m. m),
     json_start = (\<lambda>q. sr_RequestID q), json_abort = (\<lambda>q. ar_RequestID q), json_expired = (\<lambda>i r. i @ r),
     json_quarantine = (\<lambda>i b r. i @ r)\<rparr>"

definition ex_policy :: CapacityPolicy where
  "ex_policy = \<lparr>cp_DeploymentBytes = 1000, cp_RepositoryBytes = 500, cp_PendingQuarantineBytes = 100, cp_StableTTL = 1000000000000,
     cp_QuarantineTTL = 1000000000, cp_HighWatermarkPercent = 85, cp_LowWatermarkPercent = 75, cp_ProtectedPercent = 80,
     cp_AccessUpdateInterval = 60000000000\<rparr>"

definition ex_empty :: cache_db where
  "ex_empty = \<lparr>db_attempts = [], db_authorities = [], db_pending = [], db_decisions = [], db_committed = [], db_entries = [], db_quarantine = []\<rparr>"

definition ex_storage :: Storage where
  "ex_storage = \<lparr>so_closed = False, so_cache = ex_empty, so_audit = [], so_reconciliation_runs = [], so_maintenance_runs = [],
     so_state_digests = [], so_blobs = [], so_quarantine_files = [], so_maximumBlobBytes = 50, so_capacity = ex_policy,
     so_reservations = [], so_next_reservation = 0, so_blobCleanupPending = False, so_quarantineCleanupPending = False,
     so_minimumNamespaceGeneration = 1, so_currentAccessBatch = None, so_protectedAccessError = False\<rparr>"

definition ex_repository :: SharedStorage.RepositoryIdentity where
  "ex_repository = \<lparr>rp_Tenant = ''tenant'', rp_Repository = ''repo'', rp_TrustDomain = ''trusted''\<rparr>"

definition ex_start :: StartAttemptRequest where
  "ex_start = \<lparr>sr_RequestID = ''request-1'', sr_AttemptID = ''attempt-1'', sr_AuthorityDigest = [], sr_Repository = ex_repository,
     sr_NamespaceGeneration = 1, sr_SourceRevision = replicate 40 (CHR ''a''), sr_SourceStateDigest = ex_digest (CHR ''0''),
     sr_PolicyDigest = ex_digest (CHR ''1''), sr_ConfigurationPolicyDigest = ex_digest (CHR ''2''),
     sr_CacheContractDigest = ex_digest (CHR ''3''), sr_OwnerID = ''owner'', sr_LeaseID = ''lease'', sr_LeaseExpiresAt = 200000000000\<rparr>"

definition ex_key :: string where
  "ex_key = ''key-d''"

definition ex_object :: CommitObject where
  "ex_object = \<lparr>co_NamespaceGeneration = 1, co_Key = ex_key, co_Checksum = ex_digest (CHR ''b''), co_SizeBytes = 5\<rparr>"

definition ex_decision :: CommitDecision where
  "ex_decision = \<lparr>cd_SchemaVersion = ''1.0'', cd_RecordType = ''COMMIT_DECISION'', cd_ContractVersion = ''buildopt-cache-commit/v1'',
     cd_DecisionID = ''decision-1'', cd_DecisionDigest = ex_digest (CHR ''c''), cd_AttemptID = ''attempt-1'', cd_Repository = ex_repository,
     cd_SourceRevision = replicate 40 (CHR ''a''), cd_SourceStateDigest = ex_digest (CHR ''0''), cd_Objects = [ex_object],
     cd_PolicyDigest = ex_digest (CHR ''1''), cd_ConfigurationPolicyDigest = ex_digest (CHR ''2''),
     cd_CacheContractDigest = ex_digest (CHR ''3''),
     cd_TestOptimizationGrant = \<lparr>tg_State = ''NOT_REQUIRED'', tg_GrantID = [], tg_GrantEpoch = None, tg_Digest = [], tg_ExpiresAt = [],
       tg_Reason = ''NO_TEST_OUTPUTS''\<rparr>,
     cd_RevocationEpoch = 0,
     cd_Validation = \<lparr>cv_Status = ''NOT_REQUIRED'', cv_EvidenceRef = [], cv_CompletedAt = [], cv_ExpiresAt = [],
       cv_Reason = ''ALLOWLISTED_DIRECT_ACTION''\<rparr>,
     cd_IssuedAt = ''1970-01-01T00:00:01Z'', cd_ExpiresAt = ''1970-01-01T00:01:40Z'',
     cd_Authentication = \<lparr>ca_Algorithm = ''Ed25519'', ca_KeyID = ''key'', ca_Signature = replicate 86 (CHR ''s'')\<rparr>\<rparr>"

definition ex_codec :: decision_codec where
  "ex_codec = \<lparr>jcs = Some, decode_decision = (\<lambda>raw. if raw = ''decision'' then Inr ex_decision else Inl ''syntax''),
     unsigned_document = (\<lambda>raw. Some ''unsigned''), base64_raw_url = (\<lambda>t. Some (replicate 64 (CHR ''s''))),
     ed25519_verify = (\<lambda>k m sig. k = replicate 32 (CHR ''k'') \<and> sig = replicate 64 (CHR ''s''))\<rparr>"

definition ex_keys :: "string \<Rightarrow> string option" where
  "ex_keys k = (if k = ''key'' then Some (replicate 32 (CHR ''k'')) else None)"

definition ex_verified :: VerifiedCommitDecision where
  "ex_verified = \<lparr>vd_decision = ex_decision, vd_canonical = ''decision'', vd_issuedAt = 1000000000, vd_expiresAt = 100000000000\<rparr>"

definition ex_started :: Storage where "ex_started = fst (StartAttempt ex_env ex_storage ex_start 0)"

definition ex_put :: Storage where
  "ex_put = fst (PutPendingSized ex_env ex_started ''attempt-1'' ex_key 5 [(''byt'', Some 1000), (''es'', Some 1000)] 1000000000 (Some 1000) 1500000000 True)"

definition ex_committed :: Storage where
  "ex_committed = fst (CommitAttempt ex_env ex_put 2 0 ex_verified 2000000000 True True)"

lemma ex_initial: "initial ex_storage"
  by code_simp

lemma ex_verifies: "ex_verified \<in> decisions_verified ex_env ex_codec ex_keys"
proof -
  have "VerifyCommitDecision ex_env ex_codec ''decision'' ex_keys 0 2000000000 = Inr ex_verified" by code_simp
  then show ?thesis unfolding decisions_verified_def by blast
qed

lemma ex_started_next: "so_next_reservation ex_started = 0" "so_maximumBlobBytes ex_started = 50" "so_reservations ex_started = []"
  by code_simp+

lemma ex_start_steady: "steady_run ex_env V (ex_storage, Map.empty) (ex_started, Map.empty)"
proof -
  have "so_reservations ex_started = so_reservations ex_storage" by code_simp
  then have "steady_step ex_env V (ex_storage, Map.empty) (ex_started, Map.empty)"
    using step_start growth_kept unfolding steady_step_def ex_started_def by blast
  then show ?thesis by (rule r_into_rtranclp)
qed

lemma ex_put_steady: "steady_run ex_env V (ex_storage, Map.empty) (ex_put, Map.empty)"
proof -
  have "steady_run ex_env V (ex_started, Map.empty) (ex_put, Map.empty)"
    unfolding ex_put_def by (rule PutPendingSized_steady) (simp_all add: ex_started_next)
  with ex_start_steady show ?thesis by (rule rtranclp_trans)
qed

lemma ex_commit_steady:
  "steady_run ex_env (decisions_verified ex_env ex_codec ex_keys) (ex_storage, Map.empty) (ex_committed, Map.empty)"
proof -
  let ?V = "decisions_verified ex_env ex_codec ex_keys"
  have "so_reservations ex_committed = so_reservations ex_put" by code_simp
  moreover have "shared_step ex_env ?V (ex_put, Map.empty) (ex_committed, Map.empty)"
    unfolding ex_committed_def by (rule step_commit [OF ex_verifies])
  ultimately have "steady_step ex_env ?V (ex_put, Map.empty) (ex_committed, Map.empty)"
    using growth_kept unfolding steady_step_def by blast
  with ex_put_steady show ?thesis by (rule rtranclp.rtrancl_into_rtrancl)
qed

lemmas ex_start_run = ex_start_steady [THEN steady_shared]
lemmas ex_put_run = ex_put_steady [THEN steady_shared]
lemmas ex_commit_run = ex_commit_steady [THEN steady_shared]

end
