(* ===== verification/SharedProps.thy ===== *)
theory SharedProps
  imports SharedExample
begin

text \<open>
  The properties of the Shared cache server: byte budgets, authorised reads, the life of attempts, the
  write-once table, and what a commit does. Runs start at an empty storage and interleave every operation,
  crashes and restarts included.
\<close>

section \<open>Byte budgets\<close>

lemma held_nonneg: "run_ok (s, ps) \<Longrightarrow> 0 \<le> held sel (s, ps)"
  using run_okD(4) by (force simp: held_def held_sum_def intro!: sum_list_nonneg)

text \<open>
  (C2) The configured policy is in force at every restart. Then in every state that any interleaving of operations,
  crashes and restarts reaches from an empty storage, the stable bytes stay within the deployment budget and those
  of each repository within its budget. If moreover no put enlarged its reservation on usage answers that a
  concurrent commit had made obsolete (puts whose body fits the declared length, or that declare none, never
  enlarge it), the stable and pending bytes together stay within these budgets, and the pending bytes within the
  pending pool.
\<close>

theorem shared_capacity_invariant:
  assumes "shared_run env V (s, Map.empty) (s', ps)" "initial s" "sc_repository sc \<noteq> []" "sc_namespaceGeneration sc = 0"
  shows "(let total = capacityUsage (so_cache s') no_scope; repository = capacityUsage (so_cache s') sc in
     so_capacity s' = so_capacity s \<and>
     us_stableBytes total \<le> cp_DeploymentBytes (so_capacity s) \<and>
     us_stableBytes repository \<le> cp_RepositoryBytes (so_capacity s) \<and>
     (steady_run env V (s, Map.empty) (s', ps) \<longrightarrow>
        us_stableBytes total + us_pendingBytes total \<le> cp_DeploymentBytes (so_capacity s) \<and>
        us_pendingBytes total \<le> cp_PendingQuarantineBytes (so_capacity s) \<and>
        us_stableBytes repository + us_pendingBytes repository \<le> cp_RepositoryBytes (so_capacity s)))"
proof -
  have capacity: "so_capacity s' = so_capacity s" using run_configuration [OF assms(1,2)] by (simp add: same_configuration_def)
  have stable: "stable_within (so_capacity s) (so_cache s')" by (rule run_stable [OF assms(1,2)])
  have steady: "us_stableBytes (capacityUsage (so_cache s') no_scope) + us_pendingBytes (capacityUsage (so_cache s') no_scope) \<le> cp_DeploymentBytes (so_capacity s) \<and>
      us_pendingBytes (capacityUsage (so_cache s') no_scope) \<le> cp_PendingQuarantineBytes (so_capacity s) \<and>
      us_stableBytes (capacityUsage (so_cache s') sc) + us_pendingBytes (capacityUsage (so_cache s') sc) \<le> cp_RepositoryBytes (so_capacity s)"
    if "steady_run env V (s, Map.empty) (s', ps)"
  proof -
    note inv = steady_run_budget [OF that assms(2)]
    have "0 \<le> held (\<lambda>_. True) (s', ps)" "0 \<le> held (same_repository sc) (s', ps)" using held_nonneg inv by blast+
    then show ?thesis using budgetD(1,2) [of s' ps] budgetD(3) [of s' ps sc] assms(3,4) inv capacity
      by (simp add: stable_bytes_def pending_bytes_def)
  qed
  show ?thesis using capacity stable steady assms(3,4) by (simp add: Let_def stable_within_def stable_bytes_def)
qed

theorem shared_capacity_invariant_witness:
  "(let total = capacityUsage (so_cache ex_committed) no_scope;
        repository = capacityUsage (so_cache ex_committed) \<lparr>sc_tenant = ''tenant'', sc_repository = ''repo'', sc_trustDomain = ''trusted'', sc_namespaceGeneration = 0\<rparr> in
     us_stableBytes total + us_pendingBytes total \<le> cp_DeploymentBytes (so_capacity ex_storage) \<and>
     us_pendingBytes total \<le> cp_PendingQuarantineBytes (so_capacity ex_storage) \<and>
     us_stableBytes repository + us_pendingBytes repository \<le> cp_RepositoryBytes (so_capacity ex_storage) \<and>
     so_capacity ex_committed = so_capacity ex_storage)"
  using shared_capacity_invariant [where sc = "\<lparr>sc_tenant = ''tenant'', sc_repository = ''repo'', sc_trustDomain = ''trusted'', sc_namespaceGeneration = 0\<rparr>",
      OF ex_commit_run ex_initial] ex_commit_steady by (simp add: Let_def)

section \<open>Authorised reads\<close>

text \<open>
  (C3) A read looks an object up in one reachable state and finishes in another. If it returns an object, the
  bytes have the recorded size and digest, and a decision document whose digest and Ed25519 signature verify under
  a key of the deployment lists exactly this object for the tenant that was asked for.
\<close>

theorem shared_served_authorised:
  assumes "shared_run env (decisions_verified env codec publicKeys) (s0, Map.empty) (s, ps)" "initial s0"
    and "open_finish s' (open_read env s tenant ns key now) now' commits = (t, Inr (bytes, object))"
  shows "digestPrefix @ sha256_hex env bytes = bl_Digest (ob_Blob object) \<and> int (length bytes) = bl_Size (ob_Blob object) \<and>
    (\<exists>d. signed env codec publicKeys d \<and> rp_Tenant (cd_Repository d) = tenant \<and> cd_DecisionDigest d = ob_DecisionDigest object \<and>
       \<lparr>co_NamespaceGeneration = ns, co_Key = key, co_Checksum = bl_Digest (ob_Blob object), co_SizeBytes = bl_Size (ob_Blob object)\<rparr> \<in> set (cd_Objects d))"
proof -
  have "authorised (decisions_verified env codec publicKeys) (so_cache s)" using run_invariants [OF assms(1,2)] by blast
  from assms(3) this obtain d and c :: committed_row and e :: entry_row where "signed env codec publicKeys d" and bytes: "openVerified env s (ob_Blob object) = Inr bytes" and
    "\<lparr>co_NamespaceGeneration = ns, co_Key = key, co_Checksum = bl_Digest (ob_Blob object), co_SizeBytes = bl_Size (ob_Blob object)\<rparr> \<in> set (cd_Objects d)"
    "cd_Repository d = \<lparr>rp_Tenant = tenant, rp_Repository = en_repository_id e, rp_TrustDomain = en_trust_domain e\<rparr>"
    "cd_DecisionDigest d = ob_DecisionDigest object"
    by (rule authorised_read)
  with openVerified_Inr(2,3) [OF bytes] show ?thesis by (intro conjI exI [of _ d]) simp_all
qed

lemma ex_read:
  "open_finish ex_committed (open_read ex_env ex_committed ''tenant'' 1 ex_key 3000000000) 4000000000 True =
     (fst (open_finish ex_committed (open_read ex_env ex_committed ''tenant'' 1 ex_key 3000000000) 4000000000 True),
      Inr (''bytes'', \<lparr>ob_RepositoryTenant = ''tenant'', ob_NamespaceGeneration = 1, ob_Key = ex_key,
        ob_Blob = \<lparr>bl_Digest = ex_digest (CHR ''b''), bl_Size = 5\<rparr>, ob_DecisionDigest = ex_digest (CHR ''c'')\<rparr>))"
proof -
  have "snd (open_finish ex_committed (open_read ex_env ex_committed ''tenant'' 1 ex_key 3000000000) 4000000000 True) =
      Inr (''bytes'', \<lparr>ob_RepositoryTenant = ''tenant'', ob_NamespaceGeneration = 1, ob_Key = ex_key,
        ob_Blob = \<lparr>bl_Digest = ex_digest (CHR ''b''), bl_Size = 5\<rparr>, ob_DecisionDigest = ex_digest (CHR ''c'')\<rparr>)" by code_simp
  then show ?thesis by (metis prod.collapse)
qed

theorem shared_served_authorised_witness:
  "digestPrefix @ sha256_hex ex_env ''bytes'' = ex_digest (CHR ''b'') \<and>
    (\<exists>d. signed ex_env ex_codec ex_keys d \<and> rp_Tenant (cd_Repository d) = ''tenant'' \<and> cd_DecisionDigest d = ex_digest (CHR ''c'') \<and>
       ex_object \<in> set (cd_Objects d))"
  using shared_served_authorised [OF ex_commit_run ex_initial ex_read] by (simp add: ex_object_def)

section \<open>The life of an attempt\<close>

text \<open>
  (C13) Once an attempt exists it is never removed and never rebound to another request, repository or lease.
  Between two reachable states its row is either unchanged, or it was pending and its state version has grown; so
  a committed or aborted attempt is final, and a check of the expected version detects every change.
\<close>

theorem shared_attempt_lifecycle:
  assumes "shared_run env V (s0, Map.empty) (s, ps)" "initial s0" "shared_run env V (s, ps) (s', ps')"
    and "attempt_of (so_cache s) i = Some a"
  shows "\<exists>a'. attempt_of (so_cache s') i = Some a' \<and> attempt_binding a' = attempt_binding a \<and>
    (a' = a \<or> (at_state a = AttemptPending \<and> at_state_version a < at_state_version a'))"
  using attempts.row_run [OF assms(3), of i a] run_invariants [OF assms(1,2)] assms(4) by (simp add: attempt_in_def)

theorem shared_attempt_lifecycle_witness:
  "\<exists>a a'. attempt_of (so_cache ex_put) ''attempt-1'' = Some a \<and> at_state a = AttemptPending \<and> at_state_version a = 2 \<and>
    attempt_of (so_cache ex_committed) ''attempt-1'' = Some a' \<and> attempt_binding a' = attempt_binding a \<and>
    at_state a' = AttemptCommitted \<and> at_state_version a' = 3"
proof -
  let ?V = "decisions_verified ex_env ex_codec ex_keys"
  have run: "shared_run ex_env ?V (ex_put, Map.empty) (ex_committed, Map.empty)"
    using step_commit [OF ex_verifies] unfolding ex_committed_def by (rule r_into_rtranclp)
  have pending: "map_option (\<lambda>a. (at_state a, at_state_version a)) (attempt_of (so_cache ex_put) ''attempt-1'') = Some (AttemptPending, 2)"
    "map_option (\<lambda>a. (at_state a, at_state_version a)) (attempt_of (so_cache ex_committed) ''attempt-1'') = Some (AttemptCommitted, 3)"
    by code_simp+
  then obtain a where a: "attempt_of (so_cache ex_put) ''attempt-1'' = Some a" "at_state a = AttemptPending" "at_state_version a = 2" by auto
  from shared_attempt_lifecycle [OF ex_put_run ex_initial run a(1)] a pending(2) show ?thesis by auto
qed

section \<open>First writer wins\<close>

text \<open>
  (C8) A published object is immutable: as long as its key stays published, its blob digest, its size, the
  decision that published it and its commit time do not change, whatever commits, reads, evictions, reconciliations
  and restarts happen. It can only disappear.
\<close>

theorem shared_first_writer_wins:
  assumes "shared_run env V (s0, Map.empty) c" "initial s0"
    and "(\<lambda>c c'. shared_step env V c c' \<and> published c' k \<noteq> None)\<^sup>*\<^sup>* c c'" "published c k = Some v"
  shows "published c' k = Some v"
proof -
  have "run_ok c" using run_invariants [of env V s0 "fst c" "snd c"] assms(1,2) by simp
  then show ?thesis using objects.stable_while_published [OF assms(3) _ assms(4)] by blast
qed

lemma ex_published: "published (ex_committed, ps) (''tenant'', 1, ex_key) =
    Some (\<lparr>bl_Digest = ex_digest (CHR ''b''), bl_Size = 5\<rparr>, ex_digest (CHR ''c''), 2000)"
proof -
  have "published_at (so_cache ex_committed) (''tenant'', 1, ex_key) =
      Some (\<lparr>bl_Digest = ex_digest (CHR ''b''), bl_Size = 5\<rparr>, ex_digest (CHR ''c''), 2000)" by code_simp
  then show ?thesis by (simp add: published_def)
qed

theorem shared_first_writer_wins_witness:
  "published (fst (StartAttempt ex_env ex_committed (ex_start\<lparr>sr_AttemptID := ''attempt-2''\<rparr>) 3000000000), Map.empty) (''tenant'', 1, ex_key) =
     Some (\<lparr>bl_Digest = ex_digest (CHR ''b''), bl_Size = 5\<rparr>, ex_digest (CHR ''c''), 2000)"
proof -
  let ?V = "decisions_verified ex_env ex_codec ex_keys"
  let ?s = "fst (StartAttempt ex_env ex_committed (ex_start\<lparr>sr_AttemptID := ''attempt-2''\<rparr>) 3000000000)"
  have "published_at (so_cache ?s) (''tenant'', 1, ex_key) \<noteq> None" by code_simp
  then have "shared_step ex_env ?V (ex_committed, Map.empty) (?s, Map.empty) \<and> published (?s, Map.empty) (''tenant'', 1, ex_key) \<noteq> None"
    using step_start by (simp add: published_def)
  from shared_first_writer_wins [OF ex_commit_run ex_initial r_into_rtranclp [of "\<lambda>c c'. shared_step ex_env ?V c c' \<and> published c' (''tenant'', 1, ex_key) \<noteq> None", OF this] ex_published]
  show ?thesis .
qed

end
