(* ===== verification/SharedCommits.thy ===== *)
theory SharedCommits
  imports SharedProps
begin

text \<open>
  What \<open>CommitAttempt\<close> does in each of its outcomes, and the reads that are bound to one repository or to one
  HTTP binding.
\<close>

section \<open>Commits\<close>

text \<open>The object that a decision names at a key, if any.\<close>

definition decided :: "CommitDecision \<Rightarrow> object_key \<Rightarrow> CommitObject option" where
  "decided d k = find (\<lambda>b. (rp_Tenant (cd_Repository d), co_NamespaceGeneration b, co_Key b) = k) (cd_Objects d)"

lemma commit_published:
  assumes "commit_effect env verified now ttl a K db db'" "db_ok db"
  defines "d \<equiv> vd_decision verified"
  shows "published_at db' k = (case decided d k of Some b \<Rightarrow> Some (object_blob b, cd_DecisionDigest d, to_milli now)
      | None \<Rightarrow> if k \<in> K then None else published_at db k)"
    and "decided d k \<noteq> None \<Longrightarrow> published_at db k = None"
proof -
  note c = commit_effectD [OF assms(1)]
  let ?row = "published_row (status_of_row db a) (cd_DecisionDigest d) now"
  have tenant: "rp_Tenant (cd_Repository d) = at_tenant_id a" using c(4) by (simp add: d_def)
  show free: "published_at db k = None" if "decided d k \<noteq> None"
  proof -
    from that obtain b where "b \<in> set (cd_Objects d)" "k = (at_tenant_id a, co_NamespaceGeneration b, co_Key b)"
      using tenant by (auto simp: decided_def find_None_iff)
    then have "k \<notin> committed_key ` set (db_committed db)" using c(8) by (simp add: d_def)
    then show ?thesis by (simp add: published_at_def row_of_def find_key_None)
  qed
  have old: "find (\<lambda>x. committed_key x = k) (filter (\<lambda>c. committed_key c \<notin> K) (db_committed db)) = (if k \<in> K then None else row_of db k)"
    by (auto simp: row_of_def find_filter_key find_key_None)
  have "find (\<lambda>x. committed_key x = k) (map ?row bs) = map_option ?row (find (\<lambda>b. (at_tenant_id a, co_NamespaceGeneration b, co_Key b) = k) bs)" for bs
    by (induction bs) auto
  then have new: "find (\<lambda>x. committed_key x = k) (map ?row (cd_Objects d)) = map_option ?row (decided d k)"
    by (simp add: decided_def tenant)
  have row: "row_of db' k = (case if k \<in> K then None else row_of db k of None \<Rightarrow> map_option ?row (decided d k) | Some x \<Rightarrow> Some x)"
    unfolding row_of_def [of db'] c(10) [folded d_def] find_append_key old new ..
  show "published_at db' k = (case decided d k of Some b \<Rightarrow> Some (object_blob b, cd_DecisionDigest d, to_milli now)
      | None \<Rightarrow> if k \<in> K then None else published_at db k)"
  proof (cases "decided d k")
    case None
    then show ?thesis using row by (auto simp: published_at_def split: option.splits)
  next
    case (Some b)
    then have "row_of db k = None" using free by (simp add: published_at_def)
    then show ?thesis using row Some by (simp add: published_at_def published_value_def published_row_def object_blob_def)
  qed
qed

text \<open>
  (C10) A commit that answers COMMITTED was ready: the attempt is pending at the expected version, its lease and the
  decision are unexpired, the revocation epoch is current, the decision lists exactly the pending objects, and the
  bytes of each verified. It publishes every listed object at a key that was free, changes no other published
  object except by evicting it, removes the pending rows of this attempt only, and marks the attempt committed.
\<close>

theorem shared_commit_exact:
  assumes "shared_run env V (s0, Map.empty) (s, ps)" "initial s0"
    and "CommitAttempt env s v epoch verified now commits ix = (s', Inr r)" "cr_Outcome r = ''COMMITTED''"
  shows "\<exists>a K. let d = vd_decision verified; db = so_cache s; db' = so_cache s' in
    commit_ready env s epoch verified now a \<and> at_state a = AttemptPending \<and> at_state_version a = v \<and>
    cd_Objects d = pendingObjects db \<lparr>rc_status = status_of_row db a, rc_requestFingerprint = at_request_fingerprint a,
        rc_terminalID = at_terminal_id a, rc_terminalFingerprint = at_terminal_fingerprint a\<rparr> \<and>
    (\<forall>k. published_at db' k = (case decided d k of Some b \<Rightarrow> Some (object_blob b, cd_DecisionDigest d, to_milli now)
        | None \<Rightarrow> if k \<in> K then None else published_at db k)) \<and>
    (\<forall>k. decided d k = None \<or> published_at db k = None) \<and>
    db_pending db' = filter (\<lambda>q. pe_attempt_id q \<noteq> cd_AttemptID d) (db_pending db) \<and>
    map_option at_state (attempt_of db' (cd_AttemptID d)) = Some AttemptCommitted"
proof -
  have ok: "db_ok (so_cache s)" using run_invariants [OF assms(1,2)] run_okD(1) by blast
  from CommitAttempt_outcome [OF assms(3) ok] assms(4) obtain a K where
    c: "commit_effect env verified now (cp_StableTTL (so_capacity s)) a K (so_cache s) (so_cache s')"
    and ready: "commit_ready env s epoch verified now a" "at_state_version a = v" by auto
  have "attempt_of (so_cache s') (cd_AttemptID (vd_decision verified)) = Some (marked_committed env verified now a)"
    using commit_effect_attempts [OF c] attempt_of_set_attempt [of "marked_committed env verified now"] commit_effectD(1) [OF c]
    by (simp add: attempt_of_def)
  moreover have "\<forall>k. decided (vd_decision verified) k = None \<or> published_at (so_cache s) k = None"
  proof
    show "decided (vd_decision verified) k = None \<or> published_at (so_cache s) k = None" for k
      using commit_published(2) [OF c ok, of k] by (cases "decided (vd_decision verified) k") simp_all
  qed
  moreover note commit_effectD(2,3,6) [OF c] ready commit_published(1) [OF c ok]
  ultimately show ?thesis by (intro exI [of _ a] exI [of _ K]) (simp add: Let_def)
qed

lemma ex_commit:
  "CommitAttempt ex_env ex_put 2 0 ex_verified 2000000000 True True = (ex_committed, Inr \<lparr>cr_AttemptID = ''attempt-1'',
     cr_DecisionDigest = ex_digest (CHR ''c''), cr_Outcome = ''COMMITTED'', cr_ObjectCount = 1, cr_StateVersion = 3,
     cr_CommittedAt = 2000000000, cr_AuditIndexed = True, cr_RequiresReconcile = False\<rparr>)"
proof -
  have "snd (CommitAttempt ex_env ex_put 2 0 ex_verified 2000000000 True True) = Inr \<lparr>cr_AttemptID = ''attempt-1'',
     cr_DecisionDigest = ex_digest (CHR ''c''), cr_Outcome = ''COMMITTED'', cr_ObjectCount = 1, cr_StateVersion = 3,
     cr_CommittedAt = 2000000000, cr_AuditIndexed = True, cr_RequiresReconcile = False\<rparr>" by code_simp
  then show ?thesis by (metis ex_committed_def prod.collapse)
qed

theorem shared_commit_exact_witness:
  "\<exists>a. commit_ready ex_env ex_put 0 ex_verified 2000000000 a \<and> at_state_version a = 2 \<and>
     published_at (so_cache ex_put) (''tenant'', 1, ex_key) = None \<and>
     published_at (so_cache ex_committed) (''tenant'', 1, ex_key) = Some (object_blob ex_object, ex_digest (CHR ''c''), 2000)"
proof -
  have d: "decided (vd_decision ex_verified) (''tenant'', 1, ex_key) = Some ex_object" "cd_DecisionDigest (vd_decision ex_verified) = ex_digest (CHR ''c'')"
    "to_milli 2000000000 = 2000" by code_simp+
  from shared_commit_exact [OF ex_put_run ex_initial ex_commit] obtain a K where
    a: "commit_ready ex_env ex_put 0 ex_verified 2000000000 a" "at_state_version a = 2"
    and free: "\<forall>k. decided (vd_decision ex_verified) k = None \<or> published_at (so_cache ex_put) k = None"
    and all: "\<forall>k. published_at (so_cache ex_committed) k =
        (case decided (vd_decision ex_verified) k of Some b \<Rightarrow> Some (object_blob b, cd_DecisionDigest (vd_decision ex_verified), to_milli 2000000000)
         | None \<Rightarrow> if k \<in> K then None else published_at (so_cache ex_put) k)" by (auto simp: Let_def)
  show ?thesis using a spec [OF free, of "(''tenant'', 1, ex_key)"] spec [OF all, of "(''tenant'', 1, ex_key)"] d by auto
qed

text \<open>The tables of the published objects.\<close>

definition same_published :: "cache_db \<Rightarrow> cache_db \<Rightarrow> bool" where
  "same_published db db' \<longleftrightarrow> db_committed db' = db_committed db \<and> db_entries db' = db_entries db \<and> db_decisions db' = db_decisions db"

lemma same_published_refl [simp]: "same_published db db"
  by (simp add: same_published_def)

lemma abortAttemptTx_published: "abortAttemptTx r tid tfp reason now db = Inr db' \<Longrightarrow> same_published db db'"
  by (auto simp: abortAttemptTx_def Let_def same_published_def split: if_splits)

lemma reject_published: "same_published (so_cache s) (so_cache (fst (reject_commit env s r verified reason e now commits)))"
  using abortAttemptTx_published
  by (auto simp: reject_commit_def abortRejectedAttempt_def cleanup_if_def split: sum.splits if_splits)

lemma quarantine_published:
  "same_published (so_cache s) (so_cache (fst (quarantinePendingRecord env s r dd tid b err now commits)))"
proof -
  let ?moved = "if classifyBlobFailure err = ''CORRUPT'' then quarantine_blob s b (classifyBlobFailure err) now else Inr (s, False)"
  have moved: "so_cache s1 = so_cache s" if "?moved = Inr (s1, m)" for s1 m
    using that quarantine_blob_fields(1) by (auto split: if_splits)
  have "same_published db db'"
    if "and_then (insertQuarantineRecord x y b z now db) (abortAttemptTx r tid fp w now) = Inr db'" for x y z w fp db db'
    using that abortAttemptTx_published by (force simp: insertQuarantineRecord_def Let_def same_published_def split: if_splits)
  note abort = this
  show ?thesis
  proof (cases ?moved)
    case (Inr x)
    obtain s1 m where x: "x = (s1, m)" by (cases x)
    have s1: "so_cache s1 = so_cache s" using moved Inr x by blast
    let ?tx = "and_then (insertQuarantineRecord (nullableString dd) (nullableString (as_AttemptID (rc_status r))) b (classifyBlobFailure err) now (so_cache s1))
       (abortAttemptTx r tid (fingerprintValue env (json_quarantine env (as_AttemptID (rc_status r)) b (classifyBlobFailure err)))
          ''INCOMPLETE_COMMIT_DECISION'' now)"
    show ?thesis
    proof (cases ?tx)
      case e: (Inl e)
      from e [unfolded s1] show ?thesis by (simp add: quarantinePendingRecord_def Let_def Inr x s1)
    next
      case db: (Inr db)
      from abort [OF db] show ?thesis by (simp add: quarantinePendingRecord_def Let_def Inr x s1 db [unfolded s1] cleanup_if_def)
    qed
  qed (simp add: quarantinePendingRecord_def Let_def)
qed

lemma commit_publish_failed:
  assumes "commit_publish env s v verified now commits ix = (s', Inl e)"
  shows "same_published (so_cache s) (so_cache s')"
proof (cases "commit_tx env (so_capacity s) v verified now (so_cache s)")
  case (Inr out)
  show ?thesis
  proof (cases out)
    case (Lost db n)
    with Inr obtain r tid tfp reason where "abortAttemptTx r tid tfp reason now (so_cache s) = Inr db"
      by (auto simp: commit_tx_def Let_def split: if_splits option.splits)
    then show ?thesis using assms abortAttemptTx_published by (auto simp: commit_publish_def Inr Lost cleanup_if_def split: if_splits)
  next
    case (Published db n pr pt)
    then show ?thesis using assms by (auto simp: commit_publish_def Inr Published Let_def cleanup_if_def case_prod_beta split: if_splits)
  qed
qed (use assms in \<open>simp add: commit_publish_def\<close>)

text \<open>
  A commit that fails, for whatever reason, leaves the published objects, their entries and the decisions
  exactly as they were.
\<close>

theorem shared_commit_refused:
  assumes "CommitAttempt env s v epoch verified now commits ix = (s', Inl e)"
  shows "same_published (so_cache s) (so_cache s')"
proof -
  have reject: "same_published (so_cache s) (so_cache s')" if "reject_commit env s r verified reason x now commits = (s', out)" for r reason x out
    using reject_published [of s env r verified reason x now commits] that by simp
  have quarantine: "same_published (so_cache s) (so_cache s')" if "quarantinePendingFailure env s r verified b x now commits = (s', out)" for r b x out
    using quarantine_published [of s env r _ _ _ x now commits] that unfolding quarantinePendingFailure_def by (metis fst_conv)
  have replay: "same_published (so_cache s) (so_cache s')" if "replayCommit s r verified now ix = (s', Inl e)" for r
    using that by (auto simp: replayCommit_def Let_def split: option.splits if_splits prod.splits)
  show ?thesis
    using assms reject quarantine replay commit_publish_failed
    by (auto simp: CommitAttempt_def Let_def split: if_splits sum.splits option.splits prod.splits)
qed

theorem shared_commit_refused_witness:
  "snd (CommitAttempt ex_env ex_put 1 0 ex_verified 2000000000 True True) = Inl ErrStatePrecondition \<and>
     same_published (so_cache ex_put) (so_cache (fst (CommitAttempt ex_env ex_put 1 0 ex_verified 2000000000 True True)))"
proof -
  have out: "snd (CommitAttempt ex_env ex_put 1 0 ex_verified 2000000000 True True) = Inl ErrStatePrecondition" by code_simp
  then have "CommitAttempt ex_env ex_put 1 0 ex_verified 2000000000 True True =
      (fst (CommitAttempt ex_env ex_put 1 0 ex_verified 2000000000 True True), Inl ErrStatePrecondition)" by (metis prod.collapse)
  from shared_commit_refused [OF this] out show ?thesis by blast
qed

lemma CommitAttempt_replayed:
  assumes "CommitAttempt env s v epoch verified now commits ix = (s', Inr r)" "cr_Outcome r \<noteq> ''COMMITTED''" "db_ok (so_cache s)"
  shows "\<exists>a row. attempt_of (so_cache s') (cd_AttemptID (vd_decision verified)) = Some a \<and> at_state a = AttemptCommitted \<and>
    find (\<lambda>d. de_attempt_id d = cd_AttemptID (vd_decision verified)) (db_decisions (so_cache s')) = Some row \<and>
    de_canonical_document row = vd_canonical verified \<and> \<not> so_closed s'"
proof (cases "attempt_of (so_cache s) (cd_AttemptID (vd_decision verified))")
  case None
  with assms(1) show ?thesis by (auto simp: CommitAttempt_def loadAttempt_def Let_def split: if_splits)
next
  case (Some a)
  define q where "q = \<lparr>rc_status = status_of_row (so_cache s) a, rc_requestFingerprint = at_request_fingerprint a,
      rc_terminalID = at_terminal_id a, rc_terminalFingerprint = at_terminal_fingerprint a\<rparr>"
  have load: "loadAttempt (so_cache s) (cd_AttemptID (vd_decision verified)) = Inr q" using Some by (simp add: loadAttempt_def q_def)
  have publish: "commit_publish env s v verified now commits ix \<noteq> (s', Inr r)"
    using commit_publish_outcome [of env s v verified now commits ix s' "Inr r"] assms(2,3) by auto
  have replay: "at_state a = AttemptCommitted \<and> replayCommit s q verified now ix = (s', Inr r) \<and> \<not> so_closed s"
    using assms(1) publish
    by (auto simp: CommitAttempt_def load Let_def q_def reject_commit_def split: if_splits option.splits prod.splits sum.splits)
  then obtain row where row: "find (\<lambda>d. de_attempt_id d = cd_AttemptID (vd_decision verified)) (db_decisions (so_cache s)) = Some row"
    "de_canonical_document row = vd_canonical verified" "s' = fst (indexDecision s (cd_DecisionDigest (vd_decision verified)) now ix)"
    using attempt_of_Some(2) [OF Some] by (auto simp: replayCommit_def q_def Let_def case_prod_beta split: option.splits if_splits)
  with replay Some show ?thesis by (simp add: indexDecision_same)
qed

text \<open>
  (C29) A commit that succeeded can be repeated with the same decision at any later version, epoch and time, and
  whether or not its audit row can be written: the answer is an idempotent replay with the same decision digest and
  the database does not change.
\<close>

theorem shared_commit_replay:
  assumes "shared_run env V (s0, Map.empty) (s, ps)" "initial s0"
    and "CommitAttempt env s v epoch verified now commits ix = (s', Inr r)" "1 \<le> v'"
  shows "\<exists>r'. snd (CommitAttempt env s' v' epoch' verified now' commits' ix') = Inr r' \<and> cr_Outcome r' = ''IDEMPOTENT_REPLAY'' \<and>
    cr_DecisionDigest r' = cd_DecisionDigest (vd_decision verified) \<and>
    so_cache (fst (CommitAttempt env s' v' epoch' verified now' commits' ix')) = so_cache s'"
proof -
  let ?i = "cd_AttemptID (vd_decision verified)"
  have ok: "db_ok (so_cache s)" using run_invariants [OF assms(1,2)] run_okD(1) by blast
  have canonical: "vd_canonical verified \<noteq> []" "\<not> so_closed s" using assms(3) by (auto simp: CommitAttempt_def Let_def split: if_splits)
  obtain a row where a: "attempt_of (so_cache s') ?i = Some a" "at_state a = AttemptCommitted"
      "find (\<lambda>d. de_attempt_id d = ?i) (db_decisions (so_cache s')) = Some row" "de_canonical_document row = vd_canonical verified" "\<not> so_closed s'"
  proof (cases "cr_Outcome r = ''COMMITTED''")
    case True
    with CommitAttempt_outcome [OF assms(3) ok] obtain b K where
      c: "commit_effect env verified now (cp_StableTTL (so_capacity s)) b K (so_cache s) (so_cache s')" "so_closed s' = so_closed s" by auto
    have "attempt_of (so_cache s') ?i = Some (marked_committed env verified now b)"
      using commit_effect_attempts [OF c(1)] attempt_of_set_attempt [of "marked_committed env verified now"] commit_effectD(1) [OF c(1)]
      by (simp add: attempt_of_def)
    moreover have "?i \<notin> de_attempt_id ` set (db_decisions (so_cache s))" using c(1) by (simp add: commit_effect_def Let_def decision_of_def)
    then have "find (\<lambda>d. de_attempt_id d = ?i) (db_decisions (so_cache s)) = None" by (simp add: find_key_None)
    ultimately show ?thesis
      using that [of "marked_committed env verified now b" "decision_of verified now"] commit_effectD(7) [OF c(1)] c(2) canonical(2)
      by (simp add: find_append_key decision_of_def)
  next
    case False
    with CommitAttempt_replayed [OF assms(3) _ ok] that show ?thesis by blast
  qed
  then show ?thesis
    using canonical assms(4) attempt_of_Some(2) [OF a(1)]
    by (auto simp: CommitAttempt_def loadAttempt_def replayCommit_def Let_def case_prod_beta indexDecision_same)
qed

theorem shared_commit_replay_witness:
  "\<exists>r'. snd (CommitAttempt ex_env ex_committed 7 5 ex_verified 9000000000 True False) = Inr r' \<and> cr_Outcome r' = ''IDEMPOTENT_REPLAY'' \<and>
    cr_DecisionDigest r' = cd_DecisionDigest (vd_decision ex_verified) \<and>
    so_cache (fst (CommitAttempt ex_env ex_committed 7 5 ex_verified 9000000000 True False)) = so_cache ex_committed"
  by (rule shared_commit_replay [OF ex_put_run ex_initial ex_commit]) simp

section \<open>Bound reads\<close>

text \<open>
  A read that is scoped to a repository and a trust domain returns only bytes that match a signed decision for
  exactly this tenant, repository and trust domain, when no other operation runs between its lookups.
\<close>

theorem shared_scoped_read:
  assumes "shared_run env (decisions_verified env codec publicKeys) (s0, Map.empty) (s, ps)" "initial s0"
    and "OpenCommittedScoped env s tenant repository trustDomain ns key now now' commits = (t, Inr (bytes, object))"
  shows "\<exists>d. signed env codec publicKeys d \<and>
    cd_Repository d = \<lparr>rp_Tenant = tenant, rp_Repository = repository, rp_TrustDomain = trustDomain\<rparr> \<and>
    \<lparr>co_NamespaceGeneration = ns, co_Key = key, co_Checksum = digestPrefix @ sha256_hex env bytes, co_SizeBytes = int (length bytes)\<rparr> \<in> set (cd_Objects d)"
proof -
  have inv: "authorised (decisions_verified env codec publicKeys) (so_cache s)" "committed_ok (so_cache s)"
    using run_invariants [OF assms(1,2)] run_okD(1) [of s ps] by (simp_all add: db_ok_def)
  from assms(3) obtain x where x: "x \<in> set (db_entries (so_cache s))" "entry_key x = (tenant, ns, key)" "en_repository_id x = repository"
    "en_trust_domain x = trustDomain" by (auto simp: OpenCommittedScoped_def list_ex_iff split: if_splits)
  have "open_finish s (open_read env s tenant ns key now) now' commits = (t, Inr (bytes, object))"
    using assms(3) by (auto simp: OpenCommittedScoped_def OpenCommitted_def split: if_splits)
  then obtain d and c :: committed_row and e :: entry_row where d: "signed env codec publicKeys d" "e \<in> set (db_entries (so_cache s))"
    "entry_key e = (tenant, ns, key)" and bytes: "openVerified env s (ob_Blob object) = Inr bytes" and
    o: "\<lparr>co_NamespaceGeneration = ns, co_Key = key, co_Checksum = bl_Digest (ob_Blob object), co_SizeBytes = bl_Size (ob_Blob object)\<rparr> \<in> set (cd_Objects d)"
    "cd_Repository d = \<lparr>rp_Tenant = tenant, rp_Repository = en_repository_id e, rp_TrustDomain = en_trust_domain e\<rparr>"
    using inv(1) by (rule authorised_read)
  have "e = x" using distinct_key_eq [of entry_key "db_entries (so_cache s)" e x] inv(2) d x by (simp add: committed_ok_def)
  with d o x openVerified_Inr(2,3) [OF bytes] show ?thesis by (intro exI [of _ d]) simp
qed

lemma ex_scoped:
  "OpenCommittedScoped ex_env ex_committed ''tenant'' ''repo'' ''trusted'' 1 ex_key 3000000000 4000000000 True =
     (fst (OpenCommittedScoped ex_env ex_committed ''tenant'' ''repo'' ''trusted'' 1 ex_key 3000000000 4000000000 True),
      Inr (''bytes'', \<lparr>ob_RepositoryTenant = ''tenant'', ob_NamespaceGeneration = 1, ob_Key = ex_key,
        ob_Blob = \<lparr>bl_Digest = ex_digest (CHR ''b''), bl_Size = 5\<rparr>, ob_DecisionDigest = ex_digest (CHR ''c'')\<rparr>))"
proof -
  have "snd (OpenCommittedScoped ex_env ex_committed ''tenant'' ''repo'' ''trusted'' 1 ex_key 3000000000 4000000000 True) =
      Inr (''bytes'', \<lparr>ob_RepositoryTenant = ''tenant'', ob_NamespaceGeneration = 1, ob_Key = ex_key,
        ob_Blob = \<lparr>bl_Digest = ex_digest (CHR ''b''), bl_Size = 5\<rparr>, ob_DecisionDigest = ex_digest (CHR ''c'')\<rparr>)" by code_simp
  then show ?thesis by (metis prod.collapse)
qed

theorem shared_scoped_read_witness:
  "\<exists>d. signed ex_env ex_codec ex_keys d \<and>
    cd_Repository d = \<lparr>rp_Tenant = ''tenant'', rp_Repository = ''repo'', rp_TrustDomain = ''trusted''\<rparr> \<and>
    \<lparr>co_NamespaceGeneration = 1, co_Key = ex_key, co_Checksum = digestPrefix @ sha256_hex ex_env ''bytes'', co_SizeBytes = int (length ''bytes'')\<rparr> \<in> set (cd_Objects d)"
  by (rule shared_scoped_read [OF ex_commit_run ex_initial ex_scoped])

text \<open>
  An HTTP request that is answered 200 to a GET carries, as its body, exactly the bytes of an object that a
  signed decision publishes for the tenant and the namespace generation of the binding under the key of the path,
  and the binding allows reads.
\<close>

theorem shared_http_get:
  assumes "shared_run env (decisions_verified env codec publicKeys) (s0, Map.empty) (s, ps)" "initial s0"
    and "serveBoundCacheHTTP env s b ''GET'' path contentLength body ck available commits = (t, resp)" "hr_status resp = 200"
  shows "hb_AllowRead b \<and> (\<exists>key d. cacheKeyFromPath path = Some key \<and> signed env codec publicKeys d \<and> rp_Tenant (cd_Repository d) = hb_Tenant b \<and>
    \<lparr>co_NamespaceGeneration = hb_NamespaceGeneration b, co_Key = key, co_Checksum = digestPrefix @ sha256_hex env (hr_body resp),
     co_SizeBytes = int (length (hr_body resp))\<rparr> \<in> set (cd_Objects d))"
proof -
  have inv: "authorised (decisions_verified env codec publicKeys) (so_cache s)" using run_invariants [OF assms(1,2)] by blast
  from assms(3,4) obtain key where key: "cacheKeyFromPath path = Some key" "hb_AllowRead b"
    and serve: "serveCommittedGET env s b key (ck_first ck) (ck_second ck) commits = (t, resp)"
    by (auto simp: serveBoundCacheHTTP_def writeCacheStatus_def split: option.splits if_splits)
  obtain bytes object where read: "open_finish s (open_read env s (hb_Tenant b) (hb_NamespaceGeneration b) key (ck_first ck)) (ck_second ck) commits =
      (t, Inr (bytes, object))" and body: "hr_body resp = bytes"
    using serve assms(4) by (auto simp: serveCommittedGET_def OpenCommitted_def get_response_def writeCacheStatus_def Let_def
        split: prod.splits sum.splits if_splits)
  from read inv obtain d and c :: committed_row and e :: entry_row where "signed env codec publicKeys d"
    and bytes: "openVerified env s (ob_Blob object) = Inr bytes" and
    "\<lparr>co_NamespaceGeneration = hb_NamespaceGeneration b, co_Key = key, co_Checksum = bl_Digest (ob_Blob object),
      co_SizeBytes = bl_Size (ob_Blob object)\<rparr> \<in> set (cd_Objects d)"
    "cd_Repository d = \<lparr>rp_Tenant = hb_Tenant b, rp_Repository = en_repository_id e, rp_TrustDomain = en_trust_domain e\<rparr>"
    by (rule authorised_read)
  with openVerified_Inr(2,3) [OF bytes] key body show ?thesis by (intro conjI exI [of _ key] exI [of _ d]) simp_all
qed

definition ex_binding :: HTTPBinding where
  "ex_binding = \<lparr>hb_Tenant = ''tenant'', hb_NamespaceGeneration = 1, hb_PendingAttemptID = [], hb_AllowRead = True, hb_AllowWrite = False\<rparr>"

definition ex_get :: "Storage \<times> http_response" where
  "ex_get = serveBoundCacheHTTP ex_env ex_committed ex_binding ''GET'' (''/cache/'' @ ex_key) 0 []
     \<lparr>ck_status = 0, ck_abort = 0, ck_first = 3000000000, ck_second = 4000000000\<rparr> None True"

lemma ex_get: "hr_status (snd ex_get) = 200" "hr_body (snd ex_get) = ''bytes''" "cacheKeyFromPath (''/cache/'' @ ex_key) = Some ex_key"
  by code_simp+

theorem shared_http_get_witness:
  "\<exists>d. signed ex_env ex_codec ex_keys d \<and> rp_Tenant (cd_Repository d) = ''tenant'' \<and>
    \<lparr>co_NamespaceGeneration = 1, co_Key = ex_key, co_Checksum = digestPrefix @ sha256_hex ex_env ''bytes'', co_SizeBytes = int (length ''bytes'')\<rparr> \<in> set (cd_Objects d)"
proof -
  have "ex_get = (fst ex_get, snd ex_get)" by simp
  from shared_http_get [OF ex_commit_run ex_initial this [unfolded ex_get_def] ex_get(1) [unfolded ex_get_def]] ex_get show ?thesis
    by (auto simp: ex_binding_def ex_get_def)
qed

end
