(* ===== verification/SharedRecovery.thy ===== *)
theory SharedRecovery
  imports SharedCommits
begin

text \<open>
  What a reconciliation establishes: the bytes of everything published are there and verify, no blob is
  orphaned, no attempt is pending after its lease, and every decision is in the audit index.
\<close>

section \<open>Attempts past their lease\<close>

definition leases_ok :: "int \<Rightarrow> cache_db \<Rightarrow> bool" where
  "leases_ok now db = (\<forall>a\<in>set (db_attempts db). at_state a = AttemptPending \<longrightarrow> to_milli now < at_lease_expires_at_unix_ms a)"

text \<open>An abort keeps every other attempt and leaves its own in a terminal state.\<close>

definition only_aborts :: "cache_db \<Rightarrow> cache_db \<Rightarrow> bool" where
  "only_aborts db db' = (\<forall>a'\<in>set (db_attempts db'). at_state a' \<noteq> AttemptPending \<or> a' \<in> set (db_attempts db))"

lemma only_aborts_trans: "only_aborts db1 db2 \<Longrightarrow> only_aborts db2 db3 \<Longrightarrow> only_aborts db1 db3"
  unfolding only_aborts_def by blast

lemma only_aborts_same: "db_attempts db' = db_attempts db \<Longrightarrow> only_aborts db db'"
  by (simp add: only_aborts_def)

lemma abortAttemptTx_only: "abortAttemptTx r tid tfp reason now db = Inr db' \<Longrightarrow> only_aborts db db'"
  by (auto simp: abortAttemptTx_def sql_update_Inr Let_def only_aborts_def split: if_splits)

lemma only_aborts_leases: "only_aborts db db' \<Longrightarrow> leases_ok now db \<Longrightarrow> leases_ok now db'"
  unfolding only_aborts_def leases_ok_def by blast

lemma abortAttemptTx_terminal:
  assumes "abortAttemptTx r tid tfp reason now db = Inr db'" "attempts_ok db" "a' \<in> set (db_attempts db')"
    "at_attempt_id a' = as_AttemptID (rc_status r)"
  shows "at_state a' \<noteq> AttemptPending"
proof -
  let ?sel = "\<lambda>a. at_attempt_id a = as_AttemptID (rc_status r) \<and> at_state a = AttemptPending \<and> at_state_version a = as_StateVersion (rc_status r)"
  from assms(1) have n: "length (filter ?sel (db_attempts db)) = 1"
    and db': "db_attempts db' = map (\<lambda>a. if ?sel a then a\<lparr>at_state := AttemptAborted, at_state_version := at_state_version a + 1,
        at_terminal_id := Some tid, at_terminal_fingerprint := Some tfp, at_abort_reason := Some reason,
        at_updated_at_unix_ms := to_milli now\<rparr> else a) (db_attempts db)"
    by (auto simp: abortAttemptTx_def sql_update_Inr Let_def split: if_splits)
  from filter_length_1 [where f = at_attempt_id and i = "as_AttemptID (rc_status r)"
      and P = "\<lambda>a. at_state a = AttemptPending \<and> at_state_version a = as_StateVersion (rc_status r)", OF _ n] assms(2)
  obtain x where x: "?sel x" "\<forall>y\<in>set (db_attempts db). at_attempt_id y = as_AttemptID (rc_status r) \<longrightarrow> y = x"
    by (auto simp: attempts_ok_def)
  from assms(3,4) db' x show ?thesis by (auto split: if_splits)
qed

lemma expire_loop_leases:
  assumes "expire_loop env now ids db = Inr db'" "db_ok db"
  shows "only_aborts db db' \<and> (\<forall>a\<in>set (db_attempts db'). at_attempt_id a \<in> set ids \<longrightarrow> at_state a \<noteq> AttemptPending)"
  using assms
proof (induction env now ids db rule: expire_loop.induct)
  case (2 env now i rest db)
  then obtain r db1 where x: "abortExpiredAttempt env r now db = Inr db1" "expire_loop env now rest db1 = Inr db'" "loadAttempt db i = Inr r" by auto
  obtain tid tfp reason where tx: "abortAttemptTx r tid tfp reason now db = Inr db1" using x(1) by (auto simp: abortExpiredAttempt_def Let_def)
  have r: "as_AttemptID (rc_status r) = i" using x(3) attempt_of_Some(2) by (auto simp: loadAttempt_Inr)
  have ok: "db_ok db1" using db_moves_ok [OF abortAttemptTx_move [OF tx 2(3)] 2(3)] .
  have aborted: "\<forall>a\<in>set (db_attempts db1). at_attempt_id a = i \<longrightarrow> at_state a \<noteq> AttemptPending"
    using abortAttemptTx_terminal [OF tx] 2(3) r by (auto simp: db_ok_def)
  have rest: "only_aborts db1 db'" "\<forall>a\<in>set (db_attempts db'). at_attempt_id a \<in> set rest \<longrightarrow> at_state a \<noteq> AttemptPending"
    using 2(1) x ok by auto
  then show ?case
    using only_aborts_trans [OF abortAttemptTx_only [OF tx]] aborted unfolding only_aborts_def by auto
qed (simp add: only_aborts_def)

lemma expire_loop_published: "expire_loop env now ids db = Inr db' \<Longrightarrow> same_published db db'"
proof (induction ids arbitrary: db)
  case (Cons i rest)
  then obtain r db1 where "abortExpiredAttempt env r now db = Inr db1" "expire_loop env now rest db1 = Inr db'" by auto
  with Cons(1) show ?case using abortAttemptTx_published by (force simp: abortExpiredAttempt_def same_published_def)
qed simp

lemma expire_leases:
  assumes "expirePendingAttempts env s now = Inr (s', n)" "db_ok (so_cache s)"
  shows "leases_ok now (so_cache s')"
proof -
  have e: "expire_loop env now (expired_ids now (so_cache s)) (so_cache s) = Inr (so_cache s')"
    using assms(1) by (auto simp: expirePendingAttempts_def Let_def)
  have ids: "set (expired_ids now (so_cache s)) =
      at_attempt_id ` {a \<in> set (db_attempts (so_cache s)). at_state a = AttemptPending \<and> at_lease_expires_at_unix_ms a \<le> to_milli now}"
    by (auto simp: expired_ids_def)
  show ?thesis unfolding leases_ok_def
  proof (intro ballI impI)
    fix a assume a: "a \<in> set (db_attempts (so_cache s'))" "at_state a = AttemptPending"
    with expire_loop_leases [OF e assms(2)] have "a \<in> set (db_attempts (so_cache s))" "at_attempt_id a \<notin> set (expired_ids now (so_cache s))"
      by (auto simp: only_aborts_def)
    with a(2) show "to_milli now < at_lease_expires_at_unix_ms a" unfolding ids by force
  qed
qed

section \<open>The loops over damaged objects\<close>

lemma quarantine_blob_blobs:
  assumes "quarantine_blob s b reason now = Inr (s', moved)"
  shows "dg \<noteq> bl_Digest b \<Longrightarrow> map_of (so_blobs s') dg = map_of (so_blobs s) dg" "so_maximumBlobBytes s' = so_maximumBlobBytes s"
proof -
  have f: "dg \<noteq> d \<Longrightarrow> map_of (filter (\<lambda>b. fst b \<noteq> d) bs) dg = map_of bs dg" for d and bs :: "(string \<times> string) list"
    by (induction bs) auto
  show "dg \<noteq> bl_Digest b \<Longrightarrow> map_of (so_blobs s') dg = map_of (so_blobs s) dg" "so_maximumBlobBytes s' = so_maximumBlobBytes s"
    using assms f by (auto simp: quarantine_blob_def remove_blob_def Let_def split: option.splits)
qed

lemma quarantine_files_blobs:
  assumes "quarantine_files s bs now = (s', e)"
  shows "(\<forall>dg. dg \<notin> bl_Digest ` fst ` set bs \<longrightarrow> map_of (so_blobs s') dg = map_of (so_blobs s) dg) \<and>
    so_maximumBlobBytes s' = so_maximumBlobBytes s"
  using assms
proof (induction bs arbitrary: s)
  case (Cons p rest)
  obtain blob err where p: "p = (blob, err)" by (cases p)
  show ?case
  proof (cases "classifyBlobFailure err = ''CORRUPT''")
    case True
    show ?thesis
    proof (cases "quarantine_blob s blob ''CORRUPT'' now")
      case (Inl x)
      then show ?thesis using Cons(2) p True by auto
    next
      case (Inr x)
      obtain s1 m where x: "x = (s1, m)" by (cases x)
      have "quarantine_files s1 rest now = (s', e)" using Cons(2) p True Inr x by simp
      from Cons(1) [OF this] show ?thesis using quarantine_blob_blobs [OF Inr [unfolded x]] p by auto
    qed
  qed (use Cons p in auto)
qed simp

lemma quarantine_records_tables:
  "quarantine_records dd i bs now db = Inr db' \<Longrightarrow> same_published db db' \<and> db_attempts db' = db_attempts db"
proof (induction dd i bs now db rule: quarantine_records.induct)
  case (2 dd i blob err rest now db)
  then obtain db1 where "insertQuarantineRecord (nullableString dd) i blob (classifyBlobFailure err) now db = Inr db1"
    "quarantine_records dd i rest now db1 = Inr db'" by auto
  with 2 show ?case by (auto simp: insertQuarantineRecord_def Let_def same_published_def split: if_splits)
qed simp

text \<open>Invalidating a decision removes its rows and touches no blob that it did not report.\<close>

lemma invalidateDecision_effect:
  assumes "invalidateDecision s dd bs now True = (s', Inr n)"
  shows "db_committed (so_cache s') = filter (\<lambda>c. cm_decision_digest c \<noteq> dd) (db_committed (so_cache s))"
    "db_attempts (so_cache s') = db_attempts (so_cache s)" "so_maximumBlobBytes s' = so_maximumBlobBytes s"
    "dg \<notin> bl_Digest ` fst ` set bs \<Longrightarrow> map_of (so_blobs s') dg = map_of (so_blobs s) dg"
proof -
  obtain s1 e where s1: "quarantine_files s bs now = (s1, e)" by fastforce
  have cache: "so_cache s1 = so_cache s" using quarantine_files_fields(1) [of s bs now] s1 by simp
  from assms s1 obtain i db where db: "quarantine_records dd i bs now (so_cache s) = Inr db"
    "s' = s1\<lparr>so_cache := delete_decision dd db, so_blobCleanupPending := True\<rparr>"
    by (auto simp: invalidateDecision_def Let_def cache split: option.splits sum.splits)
  note t = quarantine_records_tables [OF db(1)]
  show "db_committed (so_cache s') = filter (\<lambda>c. cm_decision_digest c \<noteq> dd) (db_committed (so_cache s))"
    "db_attempts (so_cache s') = db_attempts (so_cache s)"
    using t db(2) by (simp_all add: delete_decision_def delete_committed_def Let_def same_published_def)
  show "so_maximumBlobBytes s' = so_maximumBlobBytes s" "dg \<notin> bl_Digest ` fst ` set bs \<Longrightarrow> map_of (so_blobs s') dg = map_of (so_blobs s) dg"
    using quarantine_files_blobs [OF s1] db(2) by simp_all
qed

lemma invalidate_loop_effect:
  assumes "invalidate_loop now invalid ds n s = (s', Inr m)"
  shows "db_committed (so_cache s') = filter (\<lambda>c. cm_decision_digest c \<notin> set ds) (db_committed (so_cache s)) \<and>
    db_attempts (so_cache s') = db_attempts (so_cache s) \<and> so_maximumBlobBytes s' = so_maximumBlobBytes s \<and>
    (\<forall>dg. dg \<notin> (\<lambda>i. bl_Digest (fst (snd i))) ` set invalid \<longrightarrow> map_of (so_blobs s') dg = map_of (so_blobs s) dg)"
  using assms
proof (induction now invalid ds n s rule: invalidate_loop.induct)
  case (2 now invalid d rest n s)
  obtain s1 x where i: "invalidateDecision s d (map snd (filter (\<lambda>i. fst i = d) invalid)) now True = (s1, x)" by fastforce
  with 2(2) obtain k where x: "x = Inr k" and rest: "invalidate_loop now invalid rest (n + k) s1 = (s', Inr m)" by (cases x) auto
  note e = invalidateDecision_effect [OF i [unfolded x]]
  have "map_of (so_blobs s1) dg = map_of (so_blobs s) dg" if "dg \<notin> (\<lambda>i. bl_Digest (fst (snd i))) ` set invalid" for dg
    using that by (intro e(4)) force
  with 2(1) [OF i [symmetric, unfolded x] refl rest] e(1-3) show ?case by (auto simp: conj_commute intro: filter_cong)
qed simp

text \<open>The loop over pending objects aborts attempts and publishes nothing.\<close>

lemma quarantinePending_effect:
  assumes "quarantinePendingRecord env s r dd tid b err now True = (s', None)"
  shows "same_published (so_cache s) (so_cache s')" "only_aborts (so_cache s) (so_cache s')" "so_maximumBlobBytes s' = so_maximumBlobBytes s"
proof -
  show "same_published (so_cache s) (so_cache s')" using quarantine_published [of s env r dd tid b err now True] assms by simp
  let ?moved = "if classifyBlobFailure err = ''CORRUPT'' then quarantine_blob s b (classifyBlobFailure err) now else Inr (s, False)"
  from assms obtain s1 m where moved: "?moved = Inr (s1, m)"
    by (cases ?moved) (auto simp: quarantinePendingRecord_def Let_def)
  then have s1: "so_cache s1 = so_cache s" "so_maximumBlobBytes s1 = so_maximumBlobBytes s"
    using quarantine_blob_fields(1) quarantine_blob_blobs(2) by (auto split: if_splits)
  let ?tx = "and_then (insertQuarantineRecord (nullableString dd) (nullableString (as_AttemptID (rc_status r))) b (classifyBlobFailure err) now (so_cache s))
       (abortAttemptTx r tid (fingerprintValue env (json_quarantine env (as_AttemptID (rc_status r)) b (classifyBlobFailure err)))
          ''INCOMPLETE_COMMIT_DECISION'' now)"
  from assms obtain db where tx: "?tx = Inr db" and s': "s' = cleanup_if (as_PendingObjectCount (rc_status r) > 0) (s1\<lparr>so_cache := db\<rparr>)"
    by (cases ?tx) (simp_all add: quarantinePendingRecord_def Let_def moved s1)
  from tx have "only_aborts (so_cache s) db"
    using abortAttemptTx_only by (force simp: insertQuarantineRecord_def Let_def only_aborts_def split: if_splits)
  with s1 s' show "only_aborts (so_cache s) (so_cache s')" "so_maximumBlobBytes s' = so_maximumBlobBytes s" by (simp_all add: cleanup_if_def)
qed

lemma pending_loop_effect:
  assumes "pending_loop env now cs processed n s = (s', Inr m)"
  shows "same_published (so_cache s) (so_cache s') \<and> only_aborts (so_cache s) (so_cache s') \<and> so_maximumBlobBytes s' = so_maximumBlobBytes s"
  using assms
proof (induction cs arbitrary: processed n s)
  case (Cons c rest)
  obtain i blob where c: "c = (i, blob)" by (cases c)
  show ?case
  proof (cases "i \<in> set processed \<or> (\<exists>x. openVerified env s blob = Inr x)")
    case True
    then show ?thesis using Cons c by (auto split: if_splits)
  next
    case False
    then obtain e where e: "openVerified env s blob = Inl e" "i \<notin> set processed" by (cases "openVerified env s blob") auto
    with Cons(2) c obtain r where r: "loadAttempt (so_cache s) i = Inr r" by (cases "loadAttempt (so_cache s) i") auto
    show ?thesis
    proof (cases "as_State (rc_status r) = AttemptPending")
      case True
      obtain t x where t: "quarantinePendingRecord env s r [] ''reconcile:invalid-pending'' blob e now True = (t, x)" by fastforce
      with Cons(2) c e r True have x: "x = None" by (cases x) auto
      with t Cons(2) c e r True have "pending_loop env now rest (i # processed) (Suc n) t = (s', Inr m)" by simp
      from Cons(1) [OF this] show ?thesis
        using quarantinePending_effect [OF t [unfolded x]] only_aborts_trans by (auto simp: same_published_def)
    qed (use Cons c e r in auto)
  qed
qed (simp add: only_aborts_def)

section \<open>Reconciliation\<close>

definition sizes_agree :: "cache_db \<Rightarrow> bool" where
  "sizes_agree db = (\<forall>c\<in>set (db_committed db). \<forall>c'\<in>set (db_committed db). cm_blob_digest c = cm_blob_digest c' \<longrightarrow> cm_size_bytes c = cm_size_bytes c')"

definition all_verify :: "environment \<Rightarrow> Storage \<Rightarrow> bool" where
  "all_verify env s = (\<forall>c\<in>set (db_committed (so_cache s)). \<exists>bytes. openVerified env s (row_blob c) = Inr bytes)"

lemma openVerified_cong:
  assumes "map_of (so_blobs s') (bl_Digest b) = map_of (so_blobs s) (bl_Digest b)" "so_maximumBlobBytes s' = so_maximumBlobBytes s"
  shows "openVerified env s' b = openVerified env s b"
  using assms by (simp add: openVerified_def)

lemma all_verify_fields [simp]:
  "all_verify env (s\<lparr>so_audit := au\<rparr>) = all_verify env s" "all_verify env (s\<lparr>so_reconciliation_runs := rs\<rparr>) = all_verify env s"
proof -
  have "openVerified env (s\<lparr>so_audit := au\<rparr>) b = openVerified env s b" "openVerified env (s\<lparr>so_reconciliation_runs := rs\<rparr>) b = openVerified env s b" for b
    by (simp_all add: openVerified_def)
  then show "all_verify env (s\<lparr>so_audit := au\<rparr>) = all_verify env s" "all_verify env (s\<lparr>so_reconciliation_runs := rs\<rparr>) = all_verify env s"
    by (simp_all add: all_verify_def)
qed

lemma map_filter_member: "x \<in> set (List.map_filter f ys) \<longleftrightarrow> (\<exists>y\<in>set ys. f y = Some x)"
  by (induction ys) (auto simp: map_filter_simps split: option.splits)

lemma reconcileCommitted_verify:
  assumes "reconcileCommittedObjects env s now = (s', Inr counts)" "sizes_agree (so_cache s)"
  shows "all_verify env s'" "db_attempts (so_cache s') = db_attempts (so_cache s)"
proof -
  let ?invalid = "invalid_rows env s"
  from assms(1) obtain n where loop: "invalidate_loop now ?invalid (remdups (map fst ?invalid)) 0 s = (s', Inr n)"
    by (auto simp: reconcileCommittedObjects_def Let_def split: prod.splits sum.splits)
  note e = invalidate_loop_effect [OF loop]
  show "db_attempts (so_cache s') = db_attempts (so_cache s)" using e by simp
  have invalid: "(dd, b, x) \<in> set ?invalid \<longleftrightarrow> (\<exists>c\<in>set (db_committed (so_cache s)). openVerified env s (row_blob c) = Inl x \<and> dd = cm_decision_digest c \<and> b = row_blob c)" for dd b x
  proof -
    have "(case openVerified env s (row_blob c) of Inl e \<Rightarrow> Some (cm_decision_digest c, row_blob c, e) | Inr _ \<Rightarrow> None) = Some (dd, b, x) \<longleftrightarrow>
        openVerified env s (row_blob c) = Inl x \<and> dd = cm_decision_digest c \<and> b = row_blob c" for c
      by (cases "openVerified env s (row_blob c)") auto
    then show ?thesis by (simp add: invalid_rows_def map_filter_member)
  qed
  show "all_verify env s'" unfolding all_verify_def
  proof
    fix c assume "c \<in> set (db_committed (so_cache s'))"
    then have c: "c \<in> set (db_committed (so_cache s))" "cm_decision_digest c \<notin> fst ` set ?invalid" using e by auto
    obtain bytes where bytes: "openVerified env s (row_blob c) = Inr bytes"
    proof (cases "openVerified env s (row_blob c)")
      case (Inl x)
      then have "(cm_decision_digest c, row_blob c, x) \<in> set ?invalid" using invalid c(1) by blast
      with c(2) have False by (metis fst_conv image_eqI)
      then show ?thesis ..
    qed (rule that)
    have "cm_blob_digest c \<notin> (\<lambda>i. bl_Digest (fst (snd i))) ` set ?invalid"
    proof
      assume "cm_blob_digest c \<in> (\<lambda>i. bl_Digest (fst (snd i))) ` set ?invalid"
      then obtain dd b x where i: "(dd, b, x) \<in> set ?invalid" "bl_Digest b = cm_blob_digest c" by auto
      then obtain y where y: "y \<in> set (db_committed (so_cache s))" "openVerified env s (row_blob y) = Inl x" "b = row_blob y" using invalid by blast
      then have same: "cm_blob_digest y = cm_blob_digest c" using i(2) by (simp add: row_blob_def)
      then have "cm_size_bytes y = cm_size_bytes c" using assms(2) y(1) c(1) unfolding sizes_agree_def by blast
      with same have "row_blob y = row_blob c" by (simp add: row_blob_def)
      with y(2) bytes show False by simp
    qed
    then have "openVerified env s' (row_blob c) = openVerified env s (row_blob c)" using e by (intro openVerified_cong) (auto simp: row_blob_def)
    with bytes show "\<exists>bytes. openVerified env s' (row_blob c) = Inr bytes" by simp
  qed
qed

lemma repair_loop_audit:
  assumes "repair_loop now ds n s = (s', Inr m)"
  shows "(\<exists>au. s' = s\<lparr>so_audit := au\<rparr> \<and> (\<forall>d. map_of (so_audit s) d \<noteq> None \<longrightarrow> map_of au d \<noteq> None) \<and> (\<forall>d\<in>set ds. map_of au d \<noteq> None))"
  using assms
proof (induction ds arbitrary: n s)
  case (Cons d rest)
  show ?case
  proof (cases "map_of (so_audit s) d")
    case None
    with Cons(2) have "repair_loop now rest (Suc n) (s\<lparr>so_audit := so_audit s @ [(d, to_milli now)]\<rparr>) = (s', Inr m)" by (auto split: if_splits)
    from Cons(1) [OF this] obtain au where au: "s' = s\<lparr>so_audit := au\<rparr>" "\<forall>x. map_of (so_audit s @ [(d, to_milli now)]) x \<noteq> None \<longrightarrow> map_of au x \<noteq> None"
      "\<forall>d\<in>set rest. map_of au d \<noteq> None" by auto
    then show ?thesis by (intro exI [of _ au]) (auto simp: map_add_def split: option.splits)
  next
    case (Some t)
    with Cons(2) have "repair_loop now rest n s = (s', Inr m)" by simp
    from Cons(1) [OF this] Some show ?thesis by auto
  qed
qed (simp, metis Storage.surjective Storage.update_convs(3))

lemma deleteOrphanBlobs_effect:
  assumes "deleteOrphanBlobs s = (s', n)"
  shows "\<forall>b\<in>set (so_blobs s'). fst b \<in> referenced s'" "referenced s' = referenced s" "all_verify env s \<Longrightarrow> all_verify env s'"
proof -
  have s': "s' = s\<lparr>so_blobs := filter (\<lambda>b. fst b \<in> referenced s) (so_blobs s)\<rparr>" using assms by (simp add: deleteOrphanBlobs_def)
  show ref: "referenced s' = referenced s" by (simp add: s' referenced_def)
  show "\<forall>b\<in>set (so_blobs s'). fst b \<in> referenced s'" unfolding ref by (simp add: s')
  assume v: "all_verify env s"
  have keep: "map_of (filter (\<lambda>b. fst b \<in> R) bs) dg = map_of bs dg" if "dg \<in> R" for R dg and bs :: "(string \<times> string) list"
    using that by (induction bs) auto
  have "openVerified env s' (row_blob c) = openVerified env s (row_blob c)" if "c \<in> set (db_committed (so_cache s))" for c
  proof (rule openVerified_cong)
    have "bl_Digest (row_blob c) \<in> referenced s" using that by (simp add: row_blob_def referenced_def)
    then show "map_of (so_blobs s') (bl_Digest (row_blob c)) = map_of (so_blobs s) (bl_Digest (row_blob c))" using keep by (simp add: s')
  qed (simp add: s')
  with v show "all_verify env s'" unfolding all_verify_def by (simp add: s')
qed

text \<open>The five phases of a run that succeeds.\<close>

lemma Reconcile_phases:
  assumes "Reconcile env s now completed = (s', Inr report)"
  obtains s1 n1 s2 n2 s3 n3 s4 n4 s5 n5 rs where "expirePendingAttempts env s now = Inr (s1, n1)" "reconcilePendingObjects env s1 now = (s2, Inr n2)"
    "reconcileCommittedObjects env s2 now = (s3, Inr n3)" "repairAuditIndex s3 now = (s4, Inr n4)" "deleteOrphanBlobs s4 = (s5, n5)"
    "s' = s5\<lparr>so_reconciliation_runs := rs\<rparr>"
proof -
  have r: "reconcile env s now completed = (s', Inr report)" using assms by (simp add: Reconcile_def split: if_splits)
  obtain s1 n1 where s1: "expirePendingAttempts env s now = Inr (s1, n1)"
    using r by (cases "expirePendingAttempts env s now") (auto simp: reconcile_def)
  obtain s2 x where x: "reconcilePendingObjects env s1 now = (s2, x)" by fastforce
  then obtain n2 where s2: "reconcilePendingObjects env s1 now = (s2, Inr n2)" using r s1 by (cases x) (auto simp: reconcile_def)
  obtain s3 y where y: "reconcileCommittedObjects env s2 now = (s3, y)" by fastforce
  then obtain n3 where s3: "reconcileCommittedObjects env s2 now = (s3, Inr n3)" using r s1 s2 by (cases y) (auto simp: reconcile_def)
  obtain s4 z where z: "repairAuditIndex s3 now = (s4, z)" by fastforce
  then obtain n4 where s4: "repairAuditIndex s3 now = (s4, Inr n4)" using r s1 s2 s3 by (cases z) (auto simp: reconcile_def case_prod_beta)
  obtain s5 n5 where s5: "deleteOrphanBlobs s4 = (s5, n5)" by fastforce
  have "\<exists>rs. s' = s5\<lparr>so_reconciliation_runs := rs\<rparr>"
    using r s1 s2 s3 s4 s5 by (auto simp: reconcile_def recordReconciliation_def Let_def case_prod_beta split: if_splits)
  with that s1 s2 s3 s4 s5 show ?thesis by blast
qed

text \<open>
  (C17) A reconciliation that succeeds leaves the storage sound: the bytes of every published object are on disk and
  have its size and digest, every blob on disk is referenced, no attempt is pending past its lease, and every
  decision is in the audit index. The published rows agree on the size of each digest beforehand.
\<close>

theorem shared_reconcile_recovers:
  assumes "shared_run env V (s0, Map.empty) (s, ps)" "initial s0" "sizes_agree (so_cache s)"
    and "Reconcile env s now completed = (s', Inr report)"
  shows "all_verify env s' \<and> leases_ok now (so_cache s') \<and> (\<forall>b\<in>set (so_blobs s'). fst b \<in> referenced s') \<and>
    (\<forall>d\<in>set (db_decisions (so_cache s')). map_of (so_audit s') (de_decision_digest d) \<noteq> None)"
proof -
  have ok: "db_ok (so_cache s)" using run_invariants [OF assms(1,2)] run_okD(1) by blast
  obtain s1 n1 s2 n2 s3 n3 s4 n4 s5 n5 rs where
    s1: "expirePendingAttempts env s now = Inr (s1, n1)" and s2: "reconcilePendingObjects env s1 now = (s2, Inr n2)" and
    s3: "reconcileCommittedObjects env s2 now = (s3, Inr n3)" and s4: "repairAuditIndex s3 now = (s4, Inr n4)" and
    s5: "deleteOrphanBlobs s4 = (s5, n5)" and s': "s' = s5\<lparr>so_reconciliation_runs := rs\<rparr>"
    by (rule Reconcile_phases [OF assms(4)])
  have e1: "same_published (so_cache s) (so_cache s1)" using s1 by (auto simp: expirePendingAttempts_def Let_def expire_loop_published)
  note e2 = pending_loop_effect [OF s2 [unfolded reconcilePendingObjects_def]]
  have "db_committed (so_cache s2) = db_committed (so_cache s)" using e1 e2 by (simp add: same_published_def)
  then have "sizes_agree (so_cache s2)" using assms(3) unfolding sizes_agree_def by (simp only:)
  note e3 = reconcileCommitted_verify [OF s3 this]
  from repair_loop_audit [OF s4 [unfolded repairAuditIndex_def]] obtain au where
    s4': "s4 = s3\<lparr>so_audit := au\<rparr>" and audit: "\<forall>d\<in>set (db_decisions (so_cache s3)). map_of au (de_decision_digest d) \<noteq> None" by auto
  have v4: "all_verify env s4" using e3(1) by (simp add: s4')
  have "leases_ok now (so_cache s2)" using expire_leases [OF s1 ok] only_aborts_leases e2 by blast
  then have l5: "leases_ok now (so_cache s5)" using e3(2) s5 by (auto simp: leases_ok_def s4' deleteOrphanBlobs_def)
  have au5: "\<forall>d\<in>set (db_decisions (so_cache s5)). map_of (so_audit s5) (de_decision_digest d) \<noteq> None"
    using audit s5 by (auto simp: s4' deleteOrphanBlobs_def)
  note e5 = deleteOrphanBlobs_effect [OF s5]
  from s' l5 au5 e5(1) e5(3) [OF v4] show ?thesis by (simp add: referenced_def)
qed

text \<open>A disk with an orphaned blob beside the one of the published object.\<close>

definition ex_dirty :: Storage where
  "ex_dirty = ex_committed\<lparr>so_blobs := (ex_digest (CHR ''e''), ''orphan'') # so_blobs ex_committed, so_state_digests := []\<rparr>"

definition ex_reconciled :: Storage where "ex_reconciled = fst (Reconcile ex_env ex_dirty 5000000000 6000000000)"

lemma ex_dirty_blobs: "length (so_blobs ex_dirty) = 2"
  by code_simp

lemma ex_reconciled_blobs: "so_blobs ex_reconciled = [(ex_digest (CHR ''b''), ''bytes'')]"
  by code_simp

theorem shared_reconcile_recovers_witness:
  "length (so_blobs ex_dirty) = 2 \<and> so_blobs ex_reconciled = [(ex_digest (CHR ''b''), ''bytes'')] \<and>
    (\<exists>c bytes. db_committed (so_cache ex_reconciled) = [c] \<and> openVerified ex_env ex_reconciled (row_blob c) = Inr bytes)"
proof -
  let ?V = "decisions_verified ex_env ex_codec ex_keys"
  have run: "shared_run ex_env ?V (ex_storage, Map.empty) (ex_dirty, Map.empty)"
    unfolding ex_dirty_def using ex_commit_run step_disk by (rule rtranclp.rtrancl_into_rtrancl)
  have agree: "sizes_agree (so_cache ex_dirty)" by code_simp
  have "\<not> isl (snd (Reconcile ex_env ex_dirty 5000000000 6000000000))" by code_simp
  then obtain report where "snd (Reconcile ex_env ex_dirty 5000000000 6000000000) = Inr report" by (cases "snd (Reconcile ex_env ex_dirty 5000000000 6000000000)") simp_all
  then have "Reconcile ex_env ex_dirty 5000000000 6000000000 = (ex_reconciled, Inr report)" by (simp add: ex_reconciled_def prod_eq_iff)
  from shared_reconcile_recovers [OF run ex_initial agree this] have "all_verify ex_env ex_reconciled" by blast
  moreover have one: "length (db_committed (so_cache ex_reconciled)) = 1" by code_simp
  obtain c where "db_committed (so_cache ex_reconciled) = [c]" using one by (auto simp: length_Suc_conv)
  ultimately show ?thesis using ex_dirty_blobs ex_reconciled_blobs by (auto simp: all_verify_def)
qed

section \<open>Puts among other operations\<close>

text \<open>
  (C24) A whole put, as the function of the source composes it from admission, streaming, storing, sizing and
  recording, refines the interleaved steps of the server: from every reachable state, in the midst of other puts, its
  effect is one of their runs. Whether it succeeds or fails, it holds no reservation when it returns and leaves those of
  the others.
\<close>

theorem shared_put_refines:
  assumes "shared_run env V (s0, Map.empty) (s, ps)" "initial s0"
    and "PutPendingSized env s i key declared body now available now' commits = (s', result)"
  shows "shared_run env V (s, ps) (s', ps) \<and> fst ` set (so_reservations s') = fst ` set (so_reservations s)"
proof -
  have ok: "run_ok (s, ps)" using run_invariants [OF assms(1,2)] by blast
  have run: "shared_run env V (s, ps) (s', ps)"
    using PutPendingSized_run [OF ok, of env V i key declared body now available now' commits] assms(3) by simp
  have "run_ok (s', ps)" using run_invariants [OF rtranclp_trans [OF assms(1) run] assms(2)] by blast
  with run show ?thesis using run_okD(5) [OF ok] run_okD(5) [of s' ps] by simp
qed

theorem shared_put_refines_witness:
  "shared_run ex_env {} (ex_started, Map.empty) (ex_put, Map.empty) \<and>
     fst ` set (so_reservations ex_put) = fst ` set (so_reservations ex_started)"
  using shared_put_refines [OF ex_start_run ex_initial prod.collapse [symmetric]] unfolding ex_put_def by blast

section \<open>Blobs of attempts that expire in a status request\<close>

text \<open>A status request that finds the lease of a pending attempt over aborts it and drops its pending rows; nothing else changes.\<close>

lemma expired_status_effect:
  assumes "AttemptStatus_op env s i now now' = (s', Inr st)" "attempt_of (so_cache s) i = Some a" "at_state a = AttemptPending"
    and "\<not> as_LeaseExpiresAt (status_of_row (so_cache s) a) > now"
  obtains rs where "s' = s\<lparr>so_cache := delete_pending (\<lambda>p. pe_attempt_id p = i) ((so_cache s)\<lparr>db_attempts := rs\<rparr>)\<rparr>"
proof -
  let ?r = "\<lparr>rc_status = status_of_row (so_cache s) a, rc_requestFingerprint = at_request_fingerprint a,
      rc_terminalID = at_terminal_id a, rc_terminalFingerprint = at_terminal_fingerprint a\<rparr>"
  have load: "loadAttempt (so_cache s) i = Inr ?r" using assms(2) by (simp add: loadAttempt_Inr)
  from assms(1) have ex: "\<exists>db. abortExpiredAttempt env ?r now' (so_cache s) = Inr db \<and> s' = s\<lparr>so_cache := db\<rparr>"
    using assms(3,4) by (auto simp: AttemptStatus_op_def load split: if_splits sum.splits)
  then obtain db where db: "abortExpiredAttempt env ?r now' (so_cache s) = Inr db" "s' = s\<lparr>so_cache := db\<rparr>" by blast
  have "as_AttemptID (status_of_row (so_cache s) a) = i" using attempt_of_Some(2) [OF assms(2)] by simp
  with db(1) have "\<exists>rs. db = delete_pending (\<lambda>p. pe_attempt_id p = i) ((so_cache s)\<lparr>db_attempts := rs\<rparr>)"
    by (auto simp: abortExpiredAttempt_def abortAttemptTx_def Let_def split: if_splits)
  then show ?thesis using that db(2) by blast
qed

text \<open>A maintenance that expires and evicts nothing does not look at the blobs unless a cleanup was scheduled.\<close>

lemma idle_maintenance_blobs:
  assumes "MaintainCapacity env s now completed = (s', Inr report)" "\<not> so_blobCleanupPending s"
    and "mr_ExpiredObjects report = 0" "mr_EvictedProbation report = 0" "mr_EvictedProtected report = 0" "mr_ExpiredAttempts report = 0"
  shows "so_blobs s' = so_blobs s"
proof -
  have "maintainCapacityLocked env s now completed = (s', Inr report)" using assms(1) by (simp add: MaintainCapacity_def split: if_splits)
  then show ?thesis using assms(2-6)
    by (auto simp: maintainCapacityLocked_def expirePendingAttempts_def sweep_blobs_def sweep_quarantine_def cleanup_if_def
        deleteExpiredQuarantineFiles_def recordCapacityMaintenance_def Let_def split: sum.splits prod.splits option.splits if_splits)
qed

text \<open>
  (C38) When a status request finds the lease of a pending attempt over, it aborts the attempt and drops its pending
  rows without scheduling a cleanup. A blob that only these rows referred to is then on disk with nothing that refers
  to it, and a maintenance cycle afterwards that has nothing else to expire or evict, in a storage where no other
  operation had scheduled a cleanup, leaves it there.
\<close>

theorem expired_status_leaks_blob:
  assumes "AttemptStatus_op env s i now now' = (s', Inr st)" "attempt_of (so_cache s) i = Some a" "at_state a = AttemptPending"
    and "\<not> as_LeaseExpiresAt (status_of_row (so_cache s) a) > now"
    and "dg \<in> fst ` set (so_blobs s)" "dg \<notin> set (so_state_digests s)" "dg \<notin> cm_blob_digest ` set (db_committed (so_cache s))"
    and "\<forall>p\<in>set (db_pending (so_cache s)). pe_blob_digest p = dg \<longrightarrow> pe_attempt_id p = i"
    and "\<not> so_blobCleanupPending s" "MaintainCapacity env s' later completed = (s'', Inr report)"
    and "mr_ExpiredObjects report = 0" "mr_EvictedProbation report = 0" "mr_EvictedProtected report = 0" "mr_ExpiredAttempts report = 0"
  shows "dg \<notin> referenced s' \<and> \<not> so_blobCleanupPending s' \<and> dg \<in> fst ` set (so_blobs s'')"
proof -
  obtain rs where s': "s' = s\<lparr>so_cache := delete_pending (\<lambda>p. pe_attempt_id p = i) ((so_cache s)\<lparr>db_attempts := rs\<rparr>)\<rparr>"
    by (rule expired_status_effect [OF assms(1-4)])
  have pending: "\<not> so_blobCleanupPending s'" using assms(9) by (simp add: s')
  moreover have "dg \<notin> referenced s'" using assms(6-8) by (auto simp: s' referenced_def delete_pending_def)
  moreover have "so_blobs s'' = so_blobs s" using idle_maintenance_blobs [OF assms(10) pending assms(11-14)] by (simp add: s')
  ultimately show ?thesis using assms(5) by simp
qed

definition ex_expired :: Storage where
  "ex_expired = fst (AttemptStatus_op ex_env ex_put ''attempt-1'' 300000000000 300000000000)"

lemma ex_expired_status: "\<exists>st. AttemptStatus_op ex_env ex_put ''attempt-1'' 300000000000 300000000000 = (ex_expired, Inr st)"
proof -
  have "\<not> isl (snd (AttemptStatus_op ex_env ex_put ''attempt-1'' 300000000000 300000000000))" by code_simp
  then obtain st where "snd (AttemptStatus_op ex_env ex_put ''attempt-1'' 300000000000 300000000000) = Inr st"
    by (cases "snd (AttemptStatus_op ex_env ex_put ''attempt-1'' 300000000000 300000000000)") simp_all
  then show ?thesis unfolding ex_expired_def by (intro exI [of _ st] prod_eqI) simp_all
qed

lemma ex_expired_maintenance:
  "\<exists>report. MaintainCapacity ex_env ex_expired 400000000000 400000000000 = (fst (MaintainCapacity ex_env ex_expired 400000000000 400000000000), Inr report) \<and>
     mr_ExpiredObjects report = 0 \<and> mr_EvictedProbation report = 0 \<and> mr_EvictedProtected report = 0 \<and> mr_ExpiredAttempts report = 0"
proof -
  have "case snd (MaintainCapacity ex_env ex_expired 400000000000 400000000000) of Inl _ \<Rightarrow> False
      | Inr report \<Rightarrow> mr_ExpiredObjects report = 0 \<and> mr_EvictedProbation report = 0 \<and> mr_EvictedProtected report = 0 \<and> mr_ExpiredAttempts report = 0"
    by code_simp
  then obtain report where "snd (MaintainCapacity ex_env ex_expired 400000000000 400000000000) = Inr report" "mr_ExpiredObjects report = 0"
      "mr_EvictedProbation report = 0" "mr_EvictedProtected report = 0" "mr_ExpiredAttempts report = 0"
    by (cases "snd (MaintainCapacity ex_env ex_expired 400000000000 400000000000)") simp_all
  then show ?thesis by (intro exI [of _ report] conjI prod_eqI) simp_all
qed

theorem expired_status_leaks_blob_witness:
  "ex_digest (CHR ''b'') \<notin> referenced ex_expired \<and>
     ex_digest (CHR ''b'') \<in> fst ` set (so_blobs (fst (MaintainCapacity ex_env ex_expired 400000000000 400000000000)))"
proof -
  obtain st where st: "AttemptStatus_op ex_env ex_put ''attempt-1'' 300000000000 300000000000 = (ex_expired, Inr st)"
    using ex_expired_status by blast
  have "case attempt_of (so_cache ex_put) ''attempt-1'' of None \<Rightarrow> False
      | Some a \<Rightarrow> at_state a = AttemptPending \<and> \<not> as_LeaseExpiresAt (status_of_row (so_cache ex_put) a) > 300000000000" by code_simp
  then obtain a where a: "attempt_of (so_cache ex_put) ''attempt-1'' = Some a" "at_state a = AttemptPending"
      "\<not> as_LeaseExpiresAt (status_of_row (so_cache ex_put) a) > 300000000000" by (auto split: option.splits)
  have b: "ex_digest (CHR ''b'') \<in> fst ` set (so_blobs ex_put)" "ex_digest (CHR ''b'') \<notin> set (so_state_digests ex_put)"
      "ex_digest (CHR ''b'') \<notin> cm_blob_digest ` set (db_committed (so_cache ex_put))"
      "\<forall>p\<in>set (db_pending (so_cache ex_put)). pe_blob_digest p = ex_digest (CHR ''b'') \<longrightarrow> pe_attempt_id p = ''attempt-1''"
      "\<not> so_blobCleanupPending ex_put" by code_simp+
  obtain report where r: "MaintainCapacity ex_env ex_expired 400000000000 400000000000 = (fst (MaintainCapacity ex_env ex_expired 400000000000 400000000000), Inr report)"
      "mr_ExpiredObjects report = 0" "mr_EvictedProbation report = 0" "mr_EvictedProtected report = 0" "mr_ExpiredAttempts report = 0"
    using ex_expired_maintenance by blast
  from expired_status_leaks_blob [OF st a b r] show ?thesis by blast
qed

section \<open>The default policy on a small volume\<close>

text \<open>
  The policy that is derived from the volume raises the pending pool to the size of one object when a tenth of
  the deployment budget is smaller, and the validation then always rejects it: on such a volume the storage does
  not open with the default policy.
\<close>

theorem default_policy_rejected:
  assumes "0 < volume" "volume \<le> 9223372036854775807" "percentageBytes (min (volume div 2) privateBetaDeploymentLimit) 10 < maximumBlobBytes"
  shows "\<exists>p. defaultCapacityPolicy (Inr volume) maximumBlobBytes = Inr p \<and> cp_PendingQuarantineBytes p = maximumBlobBytes \<and>
    \<not> validateCapacityPolicy p maximumBlobBytes"
  using assms by (simp add: defaultCapacityPolicy_def Let_def validateCapacityPolicy_def)

theorem default_policy_rejected_witness:
  "\<exists>p. defaultCapacityPolicy (Inr 1073741824) MaximumBlobBytes = Inr p \<and> cp_PendingQuarantineBytes p = MaximumBlobBytes \<and>
    \<not> validateCapacityPolicy p MaximumBlobBytes"
  by (rule default_policy_rejected) (simp_all add: percentageBytes_def privateBetaDeploymentLimit_def MaximumBlobBytes_def)

end
