(* ===== verification/LocalAuthorityProps.thy ===== *)
theory LocalAuthorityProps
  imports LocalAuthority Lifecycle
begin

text \<open>
  Properties of \<open>internal/localauthority\<close>: what an accepted authority document may grant, and that the durable
  record never rolls back over any sequence of installations, failed ones included.
\<close>

section \<open>The order of the records\<close>

text \<open>
  Every security generation is at least as high; a generation that is equal has the same content, and a
  higher revocation epoch comes with a higher L1 generation.
\<close>

definition no_rollback :: "State \<Rightarrow> State \<Rightarrow> bool" where
  "no_rollback c n \<longleftrightarrow>
     st_ScopeDigest n = st_ScopeDigest c \<and> st_Repository n = st_Repository c \<and> st_PolicyID n = st_PolicyID c \<and>
     st_PolicyVersion c \<le> st_PolicyVersion n \<and>
     (st_PolicyVersion n = st_PolicyVersion c \<longrightarrow>
        st_PolicyDigest n = st_PolicyDigest c \<and> st_ConfigurationPolicyDigest n = st_ConfigurationPolicyDigest c) \<and>
     st_RevocationEpoch c \<le> st_RevocationEpoch n \<and>
     (st_RevocationEpoch n = st_RevocationEpoch c \<longrightarrow>
        st_RevocationDigest n = st_RevocationDigest c \<and> st_L1SecurityGeneration n = st_L1SecurityGeneration c) \<and>
     (st_RevocationEpoch c < st_RevocationEpoch n \<longrightarrow> st_L1SecurityGeneration c < st_L1SecurityGeneration n) \<and>
     st_GatewayConnectionGeneration c \<le> st_GatewayConnectionGeneration n \<and>
     st_NamespaceGeneration c \<le> st_NamespaceGeneration n \<and>
     (st_NamespaceGeneration n = st_NamespaceGeneration c \<longrightarrow> st_Namespace n = st_Namespace c)"

lemma no_rollback_refl: "no_rollback c c"
  by (simp add: no_rollback_def)

lemma generation_trans:
  fixes a b c :: int
  assumes "a \<le> b" "b = a \<longrightarrow> P" "b \<le> c" "c = b \<longrightarrow> Q"
  shows "a \<le> c" "c = a \<longrightarrow> P \<and> Q"
  using assms by (linarith, force)

lemma rotation_trans:
  fixes a b c u v w :: int
  assumes "a \<le> b" "b = a \<longrightarrow> v = u" "a < b \<longrightarrow> u < v" "b \<le> c" "c = b \<longrightarrow> w = v" "b < c \<longrightarrow> v < w"
  shows "a < c \<longrightarrow> u < w"
  using assms by linarith

lemma no_rollback_trans:
  assumes "no_rollback a b" "no_rollback b c"
  shows "no_rollback a c"
proof -
  note ab = assms(1) [unfolded no_rollback_def] and bc = assms(2) [unfolded no_rollback_def]
  from generation_trans [of "st_PolicyVersion a" "st_PolicyVersion b" _ "st_PolicyVersion c"] ab bc
  have "st_PolicyVersion a \<le> st_PolicyVersion c"
    "st_PolicyVersion c = st_PolicyVersion a \<longrightarrow> st_PolicyDigest c = st_PolicyDigest a \<and> st_ConfigurationPolicyDigest c = st_ConfigurationPolicyDigest a"
    by auto
  moreover from generation_trans [of "st_RevocationEpoch a" "st_RevocationEpoch b" _ "st_RevocationEpoch c"] ab bc
  have "st_RevocationEpoch a \<le> st_RevocationEpoch c"
    "st_RevocationEpoch c = st_RevocationEpoch a \<longrightarrow> st_RevocationDigest c = st_RevocationDigest a \<and> st_L1SecurityGeneration c = st_L1SecurityGeneration a"
    by auto
  moreover have "st_RevocationEpoch a < st_RevocationEpoch c \<longrightarrow> st_L1SecurityGeneration a < st_L1SecurityGeneration c"
    by (rule rotation_trans [of _ "st_RevocationEpoch b" "st_L1SecurityGeneration b"]) (use ab bc in simp_all)
  moreover from generation_trans [of "st_NamespaceGeneration a" "st_NamespaceGeneration b" _ "st_NamespaceGeneration c"] ab bc
  have "st_NamespaceGeneration a \<le> st_NamespaceGeneration c"
    "st_NamespaceGeneration c = st_NamespaceGeneration a \<longrightarrow> st_Namespace c = st_Namespace a"
    by auto
  ultimately show ?thesis using ab bc unfolding no_rollback_def by simp
qed

lemma rollback_None [simp]: "rollback bad why = None \<longleftrightarrow> \<not> bad"
  by (simp add: rollback_def)

lemma fail_None [simp]: "fail bad why = None \<longleftrightarrow> \<not> bad"
  by (simp add: fail_def)

lemma Advance_iff:
  "Advance sha256_hex c n = None \<longleftrightarrow>
     validateState sha256_hex n = None \<and> (c = zero_state \<or> (validateState sha256_hex c = None \<and> no_rollback c n))"
  unfolding Advance_def no_rollback_def by (auto split: option.split)

lemma zero_state_invalid [simp]: "validateState sha256_hex zero_state \<noteq> None"
  by (simp add: validateState_def zero_state_def)

lemma Advance_no_rollback: "Advance sha256_hex c n = None \<Longrightarrow> c \<noteq> zero_state \<Longrightarrow> no_rollback c n"
  by (simp add: Advance_iff)

interpretation authority: monotone_register "\<lambda>c n. c \<noteq> zero_state \<and> Advance sha256_hex c n = None" no_rollback for sha256_hex
  by unfold_locales (auto intro: no_rollback_refl no_rollback_trans simp: Advance_no_rollback)

section \<open>Steps of the store\<close>

inductive install_step :: "(string \<Rightarrow> string) \<Rightarrow> state_files \<Rightarrow> state_files \<Rightarrow> bool" for sha256_hex where
  install: "Install sha256_hex lock outcome files d installedAt = (files', res) \<Longrightarrow> install_step sha256_hex files files'"

inductive_cases install_stepE: "install_step sha256_hex files files'"

lemma Install_cases:
  assumes "Install sha256_hex lock outcome files d installedAt = (files', res)"
  obtains (same) "files' = files"
  | (replaced) c n where "readState sha256_hex files (st_ScopeDigest n) = Inr c" "n = StateFromVerified sha256_hex d installedAt"
      "Advance sha256_hex c n = None" "files' = files(st_ScopeDigest n \<mapsto> n)"
proof -
  define n where "n = StateFromVerified sha256_hex d installedAt"
  have "files' = files \<or> (\<exists>c. readState sha256_hex files (st_ScopeDigest n) = Inr c \<and> Advance sha256_hex c n = None \<and>
      files' = files(st_ScopeDigest n \<mapsto> n))"
    using assms unfolding Install_def Let_def n_def [symmetric]
    by (simp split: option.splits sum.splits if_splits write_outcome.splits)
  with that n_def show ?thesis by blast
qed

lemma readState_Inr:
  "readState sha256_hex files scope = Inr c \<longleftrightarrow>
     (files scope = None \<and> c = zero_state) \<or> (files scope = Some c \<and> validateState sha256_hex c = None)"
  by (auto simp: readState_def split: option.splits)

abbreviation advances :: "(string \<Rightarrow> string) \<Rightarrow> State \<Rightarrow> State \<Rightarrow> bool" where
  "advances sha256_hex c n \<equiv> c \<noteq> zero_state \<and> Advance sha256_hex c n = None"

lemma install_step_history:
  assumes "install_step sha256_hex files files'" "files scope = Some s"
  shows "\<exists>s'. files' scope = Some s' \<and> (advances sha256_hex)\<^sup>*\<^sup>* s s'"
  using assms(1)
proof (cases rule: install_step.cases)
  case (install lock outcome d installedAt res)
  then show ?thesis
  proof (cases rule: Install_cases)
    case same
    with assms(2) show ?thesis by blast
  next
    case (replaced c n)
    show ?thesis
    proof (cases "scope = st_ScopeDigest n")
      case True
      with replaced(1) assms(2) have "c = s" "c \<noteq> zero_state" by (auto simp: readState_Inr)
      with replaced True show ?thesis by auto
    next
      case False
      with replaced(4) assms(2) show ?thesis by auto
    qed
  qed
qed

lemma install_steps_history:
  assumes "(install_step sha256_hex)\<^sup>*\<^sup>* files files'" "files scope = Some s"
  shows "\<exists>s'. files' scope = Some s' \<and> (advances sha256_hex)\<^sup>*\<^sup>* s s'"
  using assms
proof (induction rule: rtranclp_induct)
  case (step y z)
  then obtain s1 where s1: "y scope = Some s1" "(advances sha256_hex)\<^sup>*\<^sup>* s s1" by blast
  with install_step_history [OF step.hyps(2)] show ?case by (meson rtranclp_trans)
qed blast

lemma Install_Inr_advances:
  assumes "snd (Install sha256_hex lock outcome files d installedAt) = Inr r \<or> fst (Install sha256_hex lock outcome files d installedAt) \<noteq> files"
  shows "\<exists>c. readState sha256_hex files (ScopeDigest sha256_hex (do_Repository d)) = Inr c \<and>
    Advance sha256_hex c (StateFromVerified sha256_hex d installedAt) = None"
proof -
  define n where "n = StateFromVerified sha256_hex d installedAt"
  have "st_ScopeDigest n = ScopeDigest sha256_hex (do_Repository d)" by (simp add: n_def StateFromVerified_def)
  then show ?thesis using assms unfolding Install_def Let_def n_def [symmetric]
    by (auto split: option.splits sum.splits if_splits)
qed

definition files_ok :: "(string \<Rightarrow> string) \<Rightarrow> state_files \<Rightarrow> bool" where
  "files_ok sha256_hex files \<longleftrightarrow> (\<forall>scope s. files scope = Some s \<longrightarrow> validateState sha256_hex s = None \<and> st_ScopeDigest s = scope)"

lemma install_steps_ok:
  assumes "(install_step sha256_hex)\<^sup>*\<^sup>* files files'" "files_ok sha256_hex files"
  shows "files_ok sha256_hex files'"
  using assms
proof (induction rule: rtranclp_induct)
  case (step y z)
  from step.hyps(2) show ?case
  proof (cases rule: install_step.cases)
    case (install lock outcome d installedAt res)
    then show ?thesis
    proof (cases rule: Install_cases)
      case same
      with step show ?thesis by simp
    next
      case (replaced c n)
      from replaced(3) have "validateState sha256_hex n = None" by (simp add: Advance_iff)
      with step.IH [OF step.prems] show ?thesis unfolding replaced(4) files_ok_def by simp
    qed
  qed
qed

section \<open>What an accepted document grants\<close>

lemma nano_sub_le: "nano_sub t u \<le> n \<Longrightarrow> n < max_duration \<Longrightarrow> t - u \<le> n"
  by (auto simp: nano_sub_def max_def min_def split: if_splits)

lemma lifetimes_small: "maximumPolicyLifetime < max_duration" "maximumAttemptLifetime < max_duration"
  by (simp_all add: maximumPolicyLifetime_def maximumAttemptLifetime_def max_duration_def)

lemma validity_window_Inr:
  assumes "validity_window d now = Inr (issued, expires, rev_until, lease)"
  shows "issued \<le> now" "now < lease" "lease \<le> expires" "expires \<le> rev_until" "expires - issued \<le> maximumPolicyLifetime"
    "lease - now \<le> maximumAttemptLifetime" "parseTimestamp (op_ExpiresAt (do_Policy d)) = Inr expires"
  using assms nano_sub_le [OF _ lifetimes_small(1)] nano_sub_le [OF _ lifetimes_small(2)]
  unfolding validity_window_def Let_def
  by (simp_all split: sum.splits if_splits option.splits)

lemma qualified_loop_iff:
  "qualified_loop ts digest matched \<longleftrightarrow> (\<forall>t\<in>set ts. task_valid t) \<and>
     (matched \<or> (\<exists>t\<in>set ts. qt_CacheContractDigest t = digest \<and> qt_QualificationState t \<in> {''CONTRACT_QUALIFIED'', ''QUARANTINE_VALIDATED''}))"
  by (induction ts digest matched rule: qualified_loop.induct) auto

lemma actions_loop_Some:
  "actions_loop as seen = Some out \<Longrightarrow> out = seen \<union> set as \<and> distinct as \<and> set as \<inter> seen = {}"
  by (induction as seen rule: actions_loop.induct) (auto split: if_splits)

lemma validateSemantics_Inr:
  "validateSemantics sha256_hex iter d credential now = Inr w \<longleftrightarrow>
     semantic_checks sha256_hex iter d credential = None \<and> validity_window d now = Inr w"
  by (simp add: validateSemantics_def split: option.split)

lemma semantic_checks_None:
  assumes "semantic_checks sha256_hex iter d credential = None"
  shows "at_CredentialDigest (do_Attempt d) = credentialDigest sha256_hex credential"
    "at_AllowRead (do_Attempt d) \<or> at_AllowWrite (do_Attempt d)"
    "at_AllowRead (do_Attempt d) \<longrightarrow> rc_Read (op_RemoteCache (do_Policy d))"
    "at_AllowWrite (do_Attempt d) \<longrightarrow> rc_Write (op_RemoteCache (do_Policy d)) = ''TRUSTED_CI_ONLY'' \<and> ab_EnabledInCI (op_AffectedBuild (do_Policy d))"
    "containsUniqueAllowedAction (op_AllowedActions (do_Policy d)) ''REMOTE_CACHE_ALLOWLISTED''"
    "containsQualifiedContract (op_QualifiedTasks (do_Policy d)) (do_CacheContractDigest d)"
    "op_SignatureKeyID (do_Policy d) = au_KeyID (do_Authentication d)" "au_KeyID (rv_Authentication (do_Revocation d)) = au_KeyID (do_Authentication d)"
    "rv_TrustDomain (do_Revocation d) = ri_TrustDomain (do_Repository d)"
    "op_RevocationEpoch (do_Policy d) = rv_RevocationEpoch (do_Revocation d)" "op_L1SecurityGeneration (do_Policy d) = rv_L1SecurityGeneration (do_Revocation d)"
    "\<forall>f\<in>set (iter (identifier_fields d)). identifierPattern (snd f)" "\<forall>f\<in>set (iter (digest_fields d)). validSHA256 (snd f)"
    "op_PolicyVersion (do_Policy d) \<ge> 1" "rv_RevocationEpoch (do_Revocation d) \<ge> 1" "rv_L1SecurityGeneration (do_Revocation d) \<ge> 1"
    "op_GatewayConnectionGeneration (do_Policy d) \<ge> 1" "rc_NamespaceGeneration (op_RemoteCache (do_Policy d)) \<ge> 1"
    "namespacePattern (rc_Namespace (op_RemoteCache (do_Policy d)))"
  using assms unfolding semantic_checks_def Let_def by (simp_all add: case_prod_beta split: if_splits)

text \<open>
  An accepted authority document grants no more than its policy. If the semantic validation accepts a document at
  some instant, then the policy and the attempt lease are current, the lease ends within 24 hours and within the
  policy, the policy lives at most 30 days and the revocation state covers it; the credential presented is the one the
  attempt names; reading is granted only if the policy allows it and writing only to trusted CI; the remote-cache
  action is listed, with no action twice; the cache contract is one of the policy's tasks in a qualified
  state, with both gates passed if it came out of quarantine; and the policy, the revocation state and the envelope name
  one deployment key, one epoch and one L1 generation.
\<close>

theorem accepted_authority_bounded:
  assumes "validateSemantics sha256_hex iter d credential now = Inr (issued, expires, rev_until, lease)"
  shows "issued \<le> now \<and> now < lease \<and> lease \<le> expires \<and> expires \<le> rev_until \<and>
    expires - issued \<le> maximumPolicyLifetime \<and> lease - now \<le> maximumAttemptLifetime \<and>
    at_CredentialDigest (do_Attempt d) = credentialDigest sha256_hex credential \<and>
    (at_AllowRead (do_Attempt d) \<or> at_AllowWrite (do_Attempt d)) \<and>
    (at_AllowRead (do_Attempt d) \<longrightarrow> rc_Read (op_RemoteCache (do_Policy d))) \<and>
    (at_AllowWrite (do_Attempt d) \<longrightarrow>
       rc_Write (op_RemoteCache (do_Policy d)) = ''TRUSTED_CI_ONLY'' \<and> ab_EnabledInCI (op_AffectedBuild (do_Policy d))) \<and>
    ''REMOTE_CACHE_ALLOWLISTED'' \<in> set (op_AllowedActions (do_Policy d)) \<and> distinct (op_AllowedActions (do_Policy d)) \<and>
    (\<exists>t\<in>set (op_QualifiedTasks (do_Policy d)). qt_CacheContractDigest t = do_CacheContractDigest d \<and>
       (qt_QualificationState t = ''CONTRACT_QUALIFIED'' \<or>
        qt_QualificationState t = ''QUARANTINE_VALIDATED'' \<and> qt_RepeatabilityGate t = ''PASSED'' \<and> qt_RelocatabilityGate t = ''PASSED'')) \<and>
    op_SignatureKeyID (do_Policy d) = au_KeyID (do_Authentication d) \<and>
    au_KeyID (rv_Authentication (do_Revocation d)) = au_KeyID (do_Authentication d) \<and>
    rv_TrustDomain (do_Revocation d) = ri_TrustDomain (do_Repository d) \<and>
    op_RevocationEpoch (do_Policy d) = rv_RevocationEpoch (do_Revocation d) \<and>
    op_L1SecurityGeneration (do_Policy d) = rv_L1SecurityGeneration (do_Revocation d)"
proof -
  from assms have c: "semantic_checks sha256_hex iter d credential = None"
    and w: "validity_window d now = Inr (issued, expires, rev_until, lease)" by (simp_all add: validateSemantics_Inr)
  note checks = semantic_checks_None [OF c]
  have actions: "''REMOTE_CACHE_ALLOWLISTED'' \<in> set (op_AllowedActions (do_Policy d))" "distinct (op_AllowedActions (do_Policy d))"
    using checks(5) actions_loop_Some [of "op_AllowedActions (do_Policy d)" "{}"]
    by (auto simp: containsUniqueAllowedAction_def split: if_splits option.splits)
  from checks(6) obtain t where t: "t \<in> set (op_QualifiedTasks (do_Policy d))" "task_valid t" "qt_CacheContractDigest t = do_CacheContractDigest d"
    "qt_QualificationState t = ''CONTRACT_QUALIFIED'' \<or> qt_QualificationState t = ''QUARANTINE_VALIDATED''"
    by (auto simp: containsQualifiedContract_def qualified_loop_iff)
  from t(2,4) have "qt_QualificationState t = ''CONTRACT_QUALIFIED'' \<or>
      qt_QualificationState t = ''QUARANTINE_VALIDATED'' \<and> qt_RepeatabilityGate t = ''PASSED'' \<and> qt_RelocatabilityGate t = ''PASSED''"
    by (auto simp: task_valid_def split: if_splits)
  with t have "\<exists>t\<in>set (op_QualifiedTasks (do_Policy d)). qt_CacheContractDigest t = do_CacheContractDigest d \<and>
       (qt_QualificationState t = ''CONTRACT_QUALIFIED'' \<or>
        qt_QualificationState t = ''QUARANTINE_VALIDATED'' \<and> qt_RepeatabilityGate t = ''PASSED'' \<and> qt_RelocatabilityGate t = ''PASSED'')"
    by blast
  with checks(1-4,7-11) actions validity_window_Inr [OF w] show ?thesis by (intro conjI)
qed

definition ex_hex :: string where "ex_hex = replicate 64 (CHR ''a'')"
definition ex_sha :: "string \<Rightarrow> string" where "ex_sha _ = ex_hex"
definition ex_digest :: string where "ex_digest = ''sha256:'' @ ex_hex"

definition ex_policy :: OptimizationPolicy where
  "ex_policy = \<lparr>op_SchemaVersion = ''1.0'', op_RecordType = ''OPTIMIZATION_POLICY'', op_PolicyID = ''policy-1'', op_PolicyVersion = 3,
     op_PolicyDigest = ex_digest, op_ConfigurationPolicyDigest = ex_digest, op_RevocationEpoch = 2, op_L1SecurityGeneration = 5,
     op_GatewayConnectionGeneration = 1, op_SignatureKeyID = ''key-1'', op_IssuedAt = ''2026-01-01T00:00:00Z'',
     op_LauncherVersionRange = ''>=1.2.0 <2.0.0'', op_PluginVersionRange = ''=1.4.2'', op_Mode = ''VERIFIED'',
     op_AllowedActions = [''REMOTE_CACHE_ALLOWLISTED'', ''BUILD_IMPACT''],
     op_RemoteCache = \<lparr>rc_Read = True, rc_Write = ''TRUSTED_CI_ONLY'', rc_Namespace = ''team/main'', rc_NamespaceGeneration = 1\<rparr>,
     op_ConfigurationCache = \<lparr>cc_Enabled = False, cc_ContractVersion = ''v1''\<rparr>, op_TestOptimizationGrant = None,
     op_Budgets = \<lparr>pb_MaxSynchronousOverheadMs = 500, pb_MaxSynchronousOverheadRatio = 1 / 128, pb_MaxValidationRunnerMsPerDay = 0\<rparr>,
     op_ExportProfile = ''SUMMARY'',
     op_QualifiedTasks = [\<lparr>qt_ImplementationHash = ex_digest, qt_QualificationSource = ''OFFICIAL'', qt_ContractRef = ''compile'',
       qt_CacheContractDigest = ex_digest, qt_QualificationState = ''QUARANTINE_VALIDATED'', qt_RepeatabilityGate = ''PASSED'', qt_RelocatabilityGate = ''PASSED''\<rparr>],
     op_AffectedBuild = \<lparr>ab_EnabledInCI = True, ab_EnabledLocally = False\<rparr>, op_ExpiresAt = ''2026-01-20T00:00:00Z''\<rparr>"

definition ex_document :: Document where
  "ex_document = \<lparr>do_SchemaVersion = AuthorityContractVersion, do_AuthorityDigest = ex_digest,
     do_Repository = \<lparr>ri_Tenant = ''tenant'', ri_Repository = ''org/repo'', ri_TrustDomain = ''ci''\<rparr>, do_SourceRevision = ''0123abc'',
     do_SourceStateDigest = ex_digest, do_CacheContractDigest = ex_digest,
     do_Attempt = \<lparr>at_AttemptID = ''attempt-1'', at_OwnerID = ''owner'', at_LeaseID = ''lease-1'', at_LeaseExpiresAt = ''2026-01-02T06:00:00.5Z'',
       at_AllowRead = True, at_AllowWrite = True, at_CredentialDigest = ex_digest\<rparr>,
     do_Policy = ex_policy,
     do_Revocation = \<lparr>rv_ContractVersion = ''buildopt-cache-control/v1'', rv_RequestID = ''request-1'', rv_TrustDomain = ''ci'', rv_RevocationEpoch = 2,
       rv_L1SecurityGeneration = 5, rv_CumulativeStateDigest = ex_digest, rv_ValidUntil = ''2026-02-01T00:00:00Z'',
       rv_Authentication = \<lparr>au_Algorithm = ''Ed25519'', au_KeyID = ''key-1'', au_Signature = ''s''\<rparr>\<rparr>,
     do_Authentication = \<lparr>au_Algorithm = ''Ed25519'', au_KeyID = ''key-1'', au_Signature = ''s''\<rparr>\<rparr>"

definition ex_now :: int where "ex_now = 63902908800000000000"

lemma ex_accepted:
  "validateSemantics ex_sha (\<lambda>xs. xs) ex_document ''secret'' ex_now =
     Inr (63902822400000000000, 63904464000000000000, 63905500800000000000, 63902930400500000000)"
  by code_simp

theorem accepted_authority_bounded_witness:
  "at_AllowWrite (do_Attempt ex_document) \<and> rc_Write (op_RemoteCache (do_Policy ex_document)) = ''TRUSTED_CI_ONLY'' \<and>
   (63902930400500000000 :: int) - ex_now \<le> maximumAttemptLifetime"
  using accepted_authority_bounded [OF ex_accepted] by (simp add: ex_document_def)

section \<open>The durable record\<close>

lemma fresh_state:
  "st_ScopeDigest (StateFromVerified sha256_hex d t) = ScopeDigest sha256_hex (do_Repository d)"
  "\<not> equivalentState zero_state (StateFromVerified sha256_hex d t)"
  "equivalentState (StateFromVerified sha256_hex d t) (StateFromVerified sha256_hex d u)"
  by (simp_all add: equivalentState_def StateFromVerified_def zero_state_def)

lemma fresh_install:
  assumes "validateState sha256_hex (StateFromVerified sha256_hex d t) = None" "files (ScopeDigest sha256_hex (do_Repository d)) = None"
  shows "Install sha256_hex None Written files d t =
    (files(ScopeDigest sha256_hex (do_Repository d) \<mapsto> StateFromVerified sha256_hex d t), Inr (zero_state, StateFromVerified sha256_hex d t, True))"
proof -
  from assms have "readState sha256_hex files (ScopeDigest sha256_hex (do_Repository d)) = Inr zero_state"
    "Advance sha256_hex zero_state (StateFromVerified sha256_hex d t) = None" by (simp_all add: readState_def Advance_iff)
  then show ?thesis by (simp add: Install_def Let_def fresh_state)
qed

lemma accepted_state_valid:
  assumes "validateSemantics sha256_hex iter d credential now = Inr w" "\<And>xs. set (iter xs) = set xs"
    and "lower_hex_len 64 (ScopeDigest sha256_hex (do_Repository d))" "\<not> isl (parseTimestamp installedAt)"
  shows "validateState sha256_hex (StateFromVerified sha256_hex d installedAt) = None"
proof -
  obtain issued expires rev_until lease where w: "validity_window d now = Inr (issued, expires, rev_until, lease)"
    and c: "semantic_checks sha256_hex iter d credential = None" using assms(1) by (cases w) (simp add: validateSemantics_Inr)
  note checks = semantic_checks_None [OF c]
  have ids: "identifierPattern (ri_Tenant (do_Repository d))" "identifierPattern (ri_Repository (do_Repository d))"
    "identifierPattern (ri_TrustDomain (do_Repository d))" "identifierPattern (op_PolicyID (do_Policy d))"
    using checks(12) by (simp_all add: assms(2) identifier_fields_def)
  have digests: "validSHA256 (op_PolicyDigest (do_Policy d))" "validSHA256 (op_ConfigurationPolicyDigest (do_Policy d))"
    "validSHA256 (rv_CumulativeStateDigest (do_Revocation d))"
    using checks(13) by (simp_all add: assms(2) digest_fields_def)
  have scope: "length (ScopeDigest sha256_hex (do_Repository d)) = 64" "isLowerHex (ScopeDigest sha256_hex (do_Repository d))"
    using assms(3) by (auto simp: lower_hex_len_def isLowerHex_def)
  from ids digests scope checks(14-19) validity_window_Inr(7) [OF w] assms(4) show ?thesis
    by (simp add: validateState_def StateFromVerified_def)
qed

text \<open>
  (C18) The durable record never rolls back. Start the launcher's store empty and run any installations, of
  any documents, with any failures of the lock and of the write. A record that is present stays present, every record
  is valid and filed under its own scope, and every later record of a scope is above the earlier one: no
  generation decreases and none is reused with other content. A document whose record is not above one that was ever
  installed for its scope is refused and changes nothing.
\<close>

theorem authority_store_never_rolls_back:
  assumes "(install_step sha256_hex)\<^sup>*\<^sup>* (\<lambda>_. None) files" "(install_step sha256_hex)\<^sup>*\<^sup>* files files'" "files scope = Some s"
  shows "(\<exists>s'. files' scope = Some s' \<and> validateState sha256_hex s' = None \<and> st_ScopeDigest s' = scope \<and> no_rollback s s') \<and>
    (\<forall>lock outcome d installedAt. ScopeDigest sha256_hex (do_Repository d) = scope \<and>
       \<not> no_rollback s (StateFromVerified sha256_hex d installedAt) \<longrightarrow>
       fst (Install sha256_hex lock outcome files' d installedAt) = files' \<and> isl (snd (Install sha256_hex lock outcome files' d installedAt)))"
proof -
  from install_steps_history [OF assms(2,3)] obtain s' where s': "files' scope = Some s'" "(advances sha256_hex)\<^sup>*\<^sup>* s s'" by blast
  have above: "no_rollback s s'" using s'(2) by (rule authority.history_above)
  have "files_ok sha256_hex (\<lambda>_. None)" by (simp add: files_ok_def)
  then have "files_ok sha256_hex files'" using install_steps_ok assms(1,2) by blast
  then have ok: "validateState sha256_hex s' = None" "st_ScopeDigest s' = scope" using s'(1) by (auto simp: files_ok_def)
  have "fst (Install sha256_hex lock outcome files' d t) = files' \<and> isl (snd (Install sha256_hex lock outcome files' d t))"
    if d: "ScopeDigest sha256_hex (do_Repository d) = scope" "\<not> no_rollback s (StateFromVerified sha256_hex d t)" for lock outcome d t
  proof (rule ccontr)
    assume "\<not> ?thesis"
    then have "snd (Install sha256_hex lock outcome files' d t) = Inr (projr (snd (Install sha256_hex lock outcome files' d t))) \<or>
        fst (Install sha256_hex lock outcome files' d t) \<noteq> files'" by (metis sum.collapse(2))
    from Install_Inr_advances [OF this] d(1) s'(1) ok(1)
    have "Advance sha256_hex s' (StateFromVerified sha256_hex d t) = None" by (auto simp: readState_Inr)
    moreover have "s' \<noteq> zero_state" using ok(1) by auto
    ultimately show False using Advance_no_rollback above no_rollback_trans d(2) by blast
  qed
  with s' above ok show ?thesis by blast
qed

text \<open>
  A fresh authority is installed once. For a document that the semantic validation accepts, in a scope
  without a record, an installation whose lock and write succeed stores its record; installing the same document again, at
  any time, succeeds and leaves the store as it is. It relies on the scope digest being 64 lowercase hexadecimal digits
  and on formatted times being parsed back.
\<close>

theorem authority_install_idempotent:
  assumes "validateSemantics sha256_hex iter d credential now = Inr w" "\<And>xs. set (iter xs) = set xs"
    and "lower_hex_len 64 (ScopeDigest sha256_hex (do_Repository d))" "files (ScopeDigest sha256_hex (do_Repository d)) = None"
    and "\<not> isl (parseTimestamp installedAt)" "\<not> isl (parseTimestamp later)"
  shows "\<exists>files' n. Install sha256_hex None Written files d installedAt = (files', Inr (zero_state, n, True)) \<and>
    files' (ScopeDigest sha256_hex (do_Repository d)) = Some n \<and> n = StateFromVerified sha256_hex d installedAt \<and>
    Install sha256_hex None outcome files' d later = (files', Inr (n, n, False))"
proof -
  let ?n = "StateFromVerified sha256_hex d installedAt" and ?m = "StateFromVerified sha256_hex d later"
  let ?scope = "ScopeDigest sha256_hex (do_Repository d)"
  have v: "validateState sha256_hex ?n = None" "validateState sha256_hex ?m = None"
    using accepted_state_valid [OF assms(1-3)] assms(5,6) by blast+
  have "no_rollback ?n ?m" by (simp add: no_rollback_def StateFromVerified_def)
  with v have adv: "Advance sha256_hex ?n ?m = None" by (simp add: Advance_iff)
  have r: "readState sha256_hex (files(?scope \<mapsto> ?n)) ?scope = Inr ?n" using v(1) by (simp add: readState_def)
  with adv have "Install sha256_hex None outcome (files(?scope \<mapsto> ?n)) d later = (files(?scope \<mapsto> ?n), Inr (?n, ?n, False))"
    by (simp add: Install_def Let_def fresh_state)
  with fresh_install [OF v(1), of files] assms(4) show ?thesis by (intro exI [of _ "files(?scope \<mapsto> ?n)"] exI [of _ ?n]) simp
qed

abbreviation ex_installed :: string where "ex_installed \<equiv> ''2026-01-02T00:00:01.25Z''"
abbreviation ex_later :: string where "ex_later \<equiv> ''2026-01-02T01:00:00Z''"

lemma ex_times: "\<not> isl (parseTimestamp ex_installed)" "\<not> isl (parseTimestamp ex_later)"
  by code_simp+

lemma ex_scope: "ScopeDigest ex_sha r = ex_hex" "lower_hex_len 64 ex_hex"
  by (simp add: ScopeDigest_def ex_sha_def, code_simp)

theorem authority_install_idempotent_witness:
  "\<exists>files' n. Install ex_sha None Written (\<lambda>_. None) ex_document ex_installed = (files', Inr (zero_state, n, True)) \<and>
    files' ex_hex = Some n \<and> n = StateFromVerified ex_sha ex_document ex_installed \<and>
    Install ex_sha None (NotWritten ''disk full'') files' ex_document ex_later = (files', Inr (n, n, False))"
  using authority_install_idempotent [OF ex_accepted, where files = "\<lambda>_. None" and installedAt = ex_installed and later = ex_later
      and outcome = "NotWritten ''disk full''"] ex_times by (simp add: ex_scope)

definition ex_old_document :: Document where
  "ex_old_document = ex_document\<lparr>do_Policy := ex_policy\<lparr>op_PolicyVersion := 2\<rparr>\<rparr>"

lemma ex_first_install:
  "Install ex_sha None (WrittenUnsynced ''sync'') (\<lambda>_. None) ex_document ex_installed =
     ((\<lambda>_. None)(ex_hex \<mapsto> StateFromVerified ex_sha ex_document ex_installed), Inl ''sync'')"
proof -
  have "validateState ex_sha (StateFromVerified ex_sha ex_document ex_installed) = None"
    using accepted_state_valid [OF ex_accepted, of ex_installed] ex_times by (simp add: ex_scope)
  then have "Advance ex_sha zero_state (StateFromVerified ex_sha ex_document ex_installed) = None" by (simp add: Advance_iff)
  then show ?thesis by (simp add: Install_def Let_def readState_def fresh_state ex_scope)
qed

theorem authority_store_never_rolls_back_witness:
  "isl (snd (Install ex_sha None Written ((\<lambda>_. None)(ex_hex \<mapsto> StateFromVerified ex_sha ex_document ex_installed)) ex_old_document ex_later))"
proof -
  let ?files = "(\<lambda>_. None)(ex_hex \<mapsto> StateFromVerified ex_sha ex_document ex_installed)"
  have start: "(install_step ex_sha)\<^sup>*\<^sup>* (\<lambda>_. None) ?files" using install_step.intros [OF ex_first_install] by blast
  have stale: "\<not> no_rollback (StateFromVerified ex_sha ex_document ex_installed) (StateFromVerified ex_sha ex_old_document ex_later)"
    by (simp add: no_rollback_def StateFromVerified_def ex_old_document_def ex_document_def ex_policy_def)
  show ?thesis using authority_store_never_rolls_back [OF start rtranclp.rtrancl_refl, of ex_hex "StateFromVerified ex_sha ex_document ex_installed"] stale
    by (simp add: ex_scope)
qed

end
