(* ===== verification/EdgeStore.thy ===== *)
theory EdgeStore
  imports Prelude "HOL-Library.Product_Lexorder"
begin

text \<open>
  \<open>internal/edgecache\<close>: the durable Edge cache of committed objects (\<open>store.go\<close>, \<open>capacity.go\<close>,
  \<open>authority.go\<close>). A SQLite table is the list of its rows, without two rows of the same primary
  key; every query of the code orders its result by a key that ends in the primary key, so no result
  depends on the order of the list. A transaction that fails leaves the tables as they were. The blob
  directory is a list of file names and contents; the hash of the blobs (\<open>sha256:\<close> and the hex of
  SHA-256) is the parameter \<open>digest_of\<close>. Instants and durations are nanoseconds. Failures of the
  database and of the file system themselves are outside the model.
\<close>

section \<open>Data\<close>

abbreviation edgeEntrySchema :: string where "edgeEntrySchema \<equiv> ''buildopt.edge-cache/committed-entry/v1''"
abbreviation segmentProbation :: string where "segmentProbation \<equiv> ''PROBATION''"
abbreviation segmentProtected :: string where "segmentProtected \<equiv> ''PROTECTED''"
abbreviation ErrCapacityExceeded :: error where "ErrCapacityExceeded \<equiv> ''Edge cache capacity exceeded''"
abbreviation ErrCacheMiss :: error where "ErrCacheMiss \<equiv> ''Edge cache miss''"
abbreviation store_closed :: error where "store_closed \<equiv> ''Edge store is closed''"
abbreviation database_closed :: error where "database_closed \<equiv> ''sql: database is closed''"

record storedEntry =
  e_SchemaVersion :: string
  e_Tenant :: string
  e_Repository :: string
  e_TrustDomain :: string
  e_Namespace :: string
  e_NamespaceGeneration :: int
  e_Key :: string
  e_BlobDigest :: string
  e_SizeBytes :: int
  e_DecisionDigest :: string
  e_AuthorityDigest :: string
  e_RevocationEpoch :: int
  e_RevocationDigest :: string
  e_L1SecurityGeneration :: int
  e_CachedAtUnixMillis :: int
  e_ExpiresAtUnixMillis :: int
  e_Segment :: string
  e_LastAccessUnixMillis :: int

record pendingEntry =
  q_Tenant :: string
  q_Repository :: string
  q_TrustDomain :: string
  q_Namespace :: string
  q_NamespaceGeneration :: int
  q_AttemptID :: string
  q_Key :: string
  q_SchemaVersion :: string
  q_AuthorityDigest :: string
  q_RevocationEpoch :: int
  q_RevocationDigest :: string
  q_L1SecurityGeneration :: int
  q_BlobDigest :: string
  q_SizeBytes :: int
  q_CreatedAtUnixMillis :: int
  q_ExpiresAtUnixMillis :: int
  q_State :: string
  q_ReplicationAttempts :: int
  q_NextRetryUnixMillis :: int
  q_LastErrorClass :: string

record Store =
  st_StableTTL :: int
  st_PendingTTL :: int
  st_MaximumObjectBytes :: int
  st_CapacityBytes :: int
  st_HighWatermarkBytes :: int
  st_LowWatermarkBytes :: int
  st_ProtectedBytes :: int
  st_ReservedBytes :: int
  st_Closed :: bool
  st_Entries :: "storedEntry list"
  st_Pending :: "pendingEntry list"
  st_Blobs :: "(string \<times> string) list"

record reservation =
  res_bytes :: int
  res_released :: bool

record CapacitySnapshot =
  cs_CapacityBytes :: int
  cs_HighWatermarkBytes :: int
  cs_LowWatermarkBytes :: int
  cs_ProtectedBytes :: int
  cs_StableBytes :: int
  cs_ProbationBytes :: int
  cs_ProtectedUsedBytes :: int
  cs_PendingBytes :: int
  cs_TotalLogicalBytes :: int
  cs_ReservedBytes :: int
  cs_Objects :: int

record MaintenanceReport =
  mr_StableBytesBefore :: int
  mr_StableBytesAfter :: int
  mr_ExpiredObjects :: int
  mr_ExpiredPending :: int
  mr_EvictedProbation :: int
  mr_EvictedProtected :: int
  mr_DemotedProtected :: int
  mr_DeletedBlobs :: int

record ReadAuthority =
  ra_tenant :: string
  ra_repository :: string
  ra_trustDomain :: string
  ra_namespace :: string
  ra_namespaceGeneration :: int
  ra_authorityDigest :: string
  ra_revocationEpoch :: int
  ra_revocationDigest :: string
  ra_l1SecurityGeneration :: int
  ra_expiresAt :: int

text \<open>The zero time of Go and \<open>UnixMilli\<close>, for instants in nanoseconds since the Unix epoch.\<close>

definition zero_time :: int where "zero_time = -62135596800000000000"

definition unix_milli :: "int \<Rightarrow> int" where "unix_milli t = t div 1000000"

definition read_current :: "ReadAuthority \<Rightarrow> int \<Rightarrow> bool" where
  "read_current a now = (now \<noteq> zero_time \<and> ra_authorityDigest a \<noteq> [] \<and> ra_expiresAt a > now)"

definition read_matches :: "ReadAuthority \<Rightarrow> storedEntry \<Rightarrow> bool" where
  "read_matches a e = (e_Tenant e = ra_tenant a \<and> e_Repository e = ra_repository a \<and>
     e_TrustDomain e = ra_trustDomain a \<and> e_Namespace e = ra_namespace a \<and>
     e_NamespaceGeneration e = ra_namespaceGeneration a \<and> e_AuthorityDigest e = ra_authorityDigest a \<and>
     e_RevocationEpoch e = ra_revocationEpoch a \<and> e_RevocationDigest e = ra_revocationDigest a \<and>
     e_L1SecurityGeneration e = ra_l1SecurityGeneration a)"

definition validDigest :: "string \<Rightarrow> bool" where
  "validDigest v = (if length v \<noteq> 71 \<or> \<not> hasPrefix ''sha256:'' v then False else list_all is_lower_hex (drop 7 v))"

definition validCacheKey :: "string \<Rightarrow> bool" where
  "validCacheKey v = (if length v < 1 \<or> length v > 256 then False
     else list_all (\<lambda>c. is_alnum c \<or> c = CHR ''.'' \<or> c = CHR ''_'' \<or> c = CHR ''-'') v)"

section \<open>Sizes\<close>

definition percentage :: "int \<Rightarrow> int \<Rightarrow> int" where
  "percentage value percent = value * percent div 100"

definition stableBytes :: "storedEntry list \<Rightarrow> int" where
  "stableBytes es = sum_list (map e_SizeBytes es)"

definition pendingBytes :: "pendingEntry list \<Rightarrow> int" where
  "pendingBytes qs = sum_list (map q_SizeBytes qs)"

definition logicalBytes :: "Store \<Rightarrow> int" where
  "logicalBytes s = stableBytes (st_Entries s) + pendingBytes (st_Pending s)"

definition protectedUsed :: "storedEntry list \<Rightarrow> int" where
  "protectedUsed es = stableBytes (filter (\<lambda>e. e_Segment e = segmentProtected) es)"

section \<open>Reservations\<close>

definition reserve :: "Store \<Rightarrow> int \<Rightarrow> (Store \<times> reservation) result" where
  "reserve s sz =
     (if sz < 0 \<or> sz > st_MaximumObjectBytes s then Inl ErrCapacityExceeded
      else if st_Closed s then Inl store_closed
      else if logicalBytes s + st_ReservedBytes s + sz > st_CapacityBytes s then Inl ErrCapacityExceeded
      else Inr (s\<lparr>st_ReservedBytes := st_ReservedBytes s + sz\<rparr>, \<lparr>res_bytes = sz, res_released = False\<rparr>))"

definition release :: "Store \<Rightarrow> reservation \<Rightarrow> Store \<times> reservation" where
  "release s r =
     (if res_released r then (s, r)
      else (s\<lparr>st_ReservedBytes := st_ReservedBytes s - res_bytes r\<rparr>, r\<lparr>res_released := True\<rparr>))"

section \<open>Eviction\<close>

type_synonym entry_id = "string \<times> string \<times> string \<times> string \<times> int \<times> string"

definition entry_id :: "storedEntry \<Rightarrow> entry_id" where
  "entry_id e = (e_Tenant e, e_Repository e, e_TrustDomain e, e_Namespace e, e_NamespaceGeneration e, e_Key e)"

text \<open>The order of eviction: probation first, least recently used first, larger first.\<close>

definition eviction_order :: "storedEntry \<Rightarrow> int \<times> int \<times> int \<times> entry_id" where
  "eviction_order e = (if e_Segment e = segmentProbation then 0 else 1, e_LastAccessUnixMillis e, - e_SizeBytes e, entry_id e)"

fun evict_loop ::
    "int \<Rightarrow> storedEntry list \<Rightarrow> int \<Rightarrow> int \<Rightarrow> int \<Rightarrow> storedEntry list \<Rightarrow> storedEntry list \<times> int \<times> int \<times> int" where
  "evict_loop low [] usage probation protected es = (es, usage, probation, protected)"
| "evict_loop low (c # cs) usage probation protected es =
     (if usage \<le> low then (es, usage, probation, protected)
      else let es' = filter (\<lambda>e. entry_id e \<noteq> entry_id c) es in
        if length es' = length es then evict_loop low cs usage probation protected es
        else if e_Segment c = segmentProbation
        then evict_loop low cs (usage - e_SizeBytes c) (probation + 1) protected es'
        else evict_loop low cs (usage - e_SizeBytes c) probation (protected + 1) es')"

text \<open>The entry being published is never evicted; \<open>Maintain\<close> passes the zero entry, whose identifier no
  stored row has.\<close>

definition enforceWatermarksTx ::
    "Store \<Rightarrow> entry_id \<Rightarrow> storedEntry list \<Rightarrow> (storedEntry list \<times> int \<times> int) result" where
  "enforceWatermarksTx s excluded es =
     (let usage = stableBytes es in
      if usage < st_HighWatermarkBytes s then Inr (es, 0, 0)
      else let candidates = sort_key eviction_order (filter (\<lambda>e. entry_id e \<noteq> excluded) es);
               (es', usage', probation, protected) = evict_loop (st_LowWatermarkBytes s) candidates usage 0 0 es in
        if usage' > st_LowWatermarkBytes s then Inl ErrCapacityExceeded
        else Inr (es', probation, protected))"

fun demote_loop :: "int \<Rightarrow> storedEntry list \<Rightarrow> int \<Rightarrow> int \<Rightarrow> storedEntry list \<Rightarrow> storedEntry list \<times> int" where
  "demote_loop target [] protected demoted es = (es, demoted)"
| "demote_loop target (c # cs) protected demoted es =
     (if protected \<le> target then (es, demoted)
      else if list_ex (\<lambda>e. entry_id e = entry_id c \<and> e_Segment e = segmentProtected) es
      then demote_loop target cs (protected - e_SizeBytes c) (demoted + 1)
        (map (\<lambda>e. if entry_id e = entry_id c \<and> e_Segment e = segmentProtected
                  then e\<lparr>e_Segment := segmentProbation\<rparr> else e) es)
      else demote_loop target cs protected demoted es)"

definition demotion_order :: "storedEntry \<Rightarrow> int \<times> int \<times> entry_id" where
  "demotion_order e = (e_LastAccessUnixMillis e, - e_SizeBytes e, entry_id e)"

definition enforceProtectedTargetTx :: "Store \<Rightarrow> storedEntry list \<Rightarrow> storedEntry list \<times> int" where
  "enforceProtectedTargetTx s es =
     (let protected = protectedUsed es in
      if protected \<le> st_ProtectedBytes s then (es, 0)
      else demote_loop (st_ProtectedBytes s)
        (sort_key demotion_order (filter (\<lambda>e. e_Segment e = segmentProtected) es)) protected 0 es)"

section \<open>Blobs\<close>

definition referenced :: "Store \<Rightarrow> string set" where
  "referenced s = set (map e_BlobDigest (st_Entries s)) \<union> set (map q_BlobDigest (st_Pending s))"

definition deleteOrphanBlobsLocked :: "Store \<Rightarrow> Store \<times> int" where
  "deleteOrphanBlobsLocked s =
     (let keep = filter (\<lambda>(name, _). validDigest name \<and> name \<in> referenced s) (st_Blobs s) in
      (s\<lparr>st_Blobs := keep\<rparr>, int (length (st_Blobs s)) - int (length keep)))"

definition verifyOpenBlob :: "(string \<Rightarrow> string) \<Rightarrow> string \<Rightarrow> string \<Rightarrow> int \<Rightarrow> bool" where
  "verifyOpenBlob digest_of content digest sz =
     (validDigest digest \<and> sz \<ge> 0 \<and> int (length content) = sz \<and> digest_of content = digest)"

section \<open>Publishing and reading committed entries\<close>

definition put_row :: "storedEntry \<Rightarrow> storedEntry list \<Rightarrow> storedEntry list" where
  "put_row e es = filter (\<lambda>x. entry_id x \<noteq> entry_id e) es @ [e]"

definition replaced_bytes :: "storedEntry \<Rightarrow> storedEntry list \<Rightarrow> int" where
  "replaced_bytes e es = (case find (\<lambda>x. entry_id x = entry_id e) es of None \<Rightarrow> 0 | Some x \<Rightarrow> e_SizeBytes x)"

text \<open>\<open>Close\<close> closes the database with the store, so that no transaction begins on a closed store.\<close>

definition publishEntryWithCapacityLocked :: "Store \<Rightarrow> storedEntry \<Rightarrow> Store result" where
  "publishEntryWithCapacityLocked s entry =
     (if st_Closed s then Inl database_closed
      else if logicalBytes s - replaced_bytes entry (st_Entries s) + e_SizeBytes entry > st_CapacityBytes s
      then Inl ErrCapacityExceeded
      else case enforceWatermarksTx s (entry_id entry)
                  (put_row (entry\<lparr>e_Segment := segmentProbation\<rparr>) (st_Entries s)) of
        Inl err \<Rightarrow> Inl err
      | Inr (es, _, _) \<Rightarrow>
          Inr (fst (deleteOrphanBlobsLocked (s\<lparr>st_Entries := fst (enforceProtectedTargetTx s es)\<rparr>))))"

definition recordHit :: "Store \<Rightarrow> storedEntry \<Rightarrow> int \<Rightarrow> Store result" where
  "recordHit s entry now =
     (let hit = (\<lambda>e. entry_id e = entry_id entry \<and> e_BlobDigest e = e_BlobDigest entry \<and>
                    e_DecisionDigest e = e_DecisionDigest entry) in
      if st_Closed s then Inl store_closed
      else if length (filter hit (st_Entries s)) \<noteq> 1 then Inl ErrCacheMiss
      else let es = map (\<lambda>e. if hit e then e\<lparr>e_Segment := segmentProtected, e_LastAccessUnixMillis := unix_milli now\<rparr> else e)
                  (st_Entries s) in
        Inr (s\<lparr>st_Entries := fst (enforceProtectedTargetTx s es)\<rparr>))"

definition capacitySnapshot :: "Store \<Rightarrow> CapacitySnapshot result" where
  "capacitySnapshot s =
     (if st_Closed s then Inl store_closed
      else Inr \<lparr>cs_CapacityBytes = st_CapacityBytes s, cs_HighWatermarkBytes = st_HighWatermarkBytes s,
        cs_LowWatermarkBytes = st_LowWatermarkBytes s, cs_ProtectedBytes = st_ProtectedBytes s,
        cs_StableBytes = stableBytes (st_Entries s),
        cs_ProbationBytes = stableBytes (filter (\<lambda>e. e_Segment e = segmentProbation) (st_Entries s)),
        cs_ProtectedUsedBytes = protectedUsed (st_Entries s), cs_PendingBytes = pendingBytes (st_Pending s),
        cs_TotalLogicalBytes = stableBytes (st_Entries s) + pendingBytes (st_Pending s),
        cs_ReservedBytes = st_ReservedBytes s, cs_Objects = int (length (st_Entries s))\<rparr>)"

definition zero_id :: entry_id where "zero_id = ([], [], [], [], 0, [])"

definition Maintain :: "Store \<Rightarrow> int \<Rightarrow> (Store \<times> MaintenanceReport) result" where
  "Maintain s now =
     (if now = zero_time then Inl ''maintain Edge capacity: invalid input''
      else if st_Closed s then Inl store_closed
      else let es = filter (\<lambda>e. \<not> e_ExpiresAtUnixMillis e \<le> unix_milli now) (st_Entries s);
               qs = filter (\<lambda>q. \<not> q_ExpiresAtUnixMillis q \<le> unix_milli now) (st_Pending s) in
        case enforceWatermarksTx s zero_id es of
          Inl err \<Rightarrow> Inl err
        | Inr (es1, probation, protected) \<Rightarrow>
            let (es2, demoted) = enforceProtectedTargetTx s es1;
                (s', deleted) = deleteOrphanBlobsLocked (s\<lparr>st_Entries := es2, st_Pending := qs\<rparr>) in
            Inr (s', \<lparr>mr_StableBytesBefore = stableBytes (st_Entries s), mr_StableBytesAfter = stableBytes es2,
              mr_ExpiredObjects = int (length (st_Entries s)) - int (length es),
              mr_ExpiredPending = int (length (st_Pending s)) - int (length qs),
              mr_EvictedProbation = probation, mr_EvictedProtected = protected,
              mr_DemotedProtected = demoted, mr_DeletedBlobs = deleted\<rparr>))"

definition loadEntry :: "Store \<Rightarrow> ReadAuthority \<Rightarrow> string \<Rightarrow> storedEntry option" where
  "loadEntry s a key =
     find (\<lambda>e. entry_id e = (ra_tenant a, ra_repository a, ra_trustDomain a, ra_namespace a, ra_namespaceGeneration a, key))
       (st_Entries s)"

definition deleteEntry :: "Store \<Rightarrow> storedEntry \<Rightarrow> Store" where
  "deleteEntry s entry =
     (if st_Closed s then s else s\<lparr>st_Entries := filter (\<lambda>e. entry_id e \<noteq> entry_id entry) (st_Entries s)\<rparr>)"

text \<open>The bytes handed to the caller, or the error; a corrupt blob also deletes its entry.\<close>

definition OpenCommitted ::
    "(string \<Rightarrow> string) \<Rightarrow> Store \<Rightarrow> ReadAuthority \<Rightarrow> string \<Rightarrow> int \<Rightarrow> Store \<times> string result" where
  "OpenCommitted digest_of s authority key now =
     (if \<not> validCacheKey key \<or> \<not> read_current authority now then (s, Inl ErrCacheMiss)
      else if st_Closed s then (s, Inl store_closed)
      else case loadEntry s authority key of
        None \<Rightarrow> (s, Inl ErrCacheMiss)
      | Some e \<Rightarrow>
          if \<not> read_matches authority e \<or> e_SchemaVersion e \<noteq> edgeEntrySchema \<or>
             e_ExpiresAtUnixMillis e \<le> unix_milli now \<or> \<not> validDigest (e_BlobDigest e) \<or>
             \<not> validDigest (e_DecisionDigest e) \<or> e_SizeBytes e < 0 \<or> e_SizeBytes e > st_MaximumObjectBytes s
          then (s, Inl ErrCacheMiss)
          else case map_of (st_Blobs s) (e_BlobDigest e) of
            None \<Rightarrow> (deleteEntry s e, Inl ErrCacheMiss)
          | Some content \<Rightarrow>
              if \<not> verifyOpenBlob digest_of content (e_BlobDigest e) (e_SizeBytes e)
              then (deleteEntry s e, Inl ErrCacheMiss)
              else (case recordHit s e now of
                      Inl err \<Rightarrow> (s, Inl err)
                    | Inr s' \<Rightarrow> (s', Inr content)))"

record fetchedObject =
  f_body :: string
  f_size :: int
  f_digest :: string
  f_decisionDigest :: string

definition fetched_entry :: "Store \<Rightarrow> ReadAuthority \<Rightarrow> string \<Rightarrow> fetchedObject \<Rightarrow> int \<Rightarrow> storedEntry" where
  "fetched_entry s a key fetched now =
     \<lparr>e_SchemaVersion = edgeEntrySchema, e_Tenant = ra_tenant a, e_Repository = ra_repository a,
      e_TrustDomain = ra_trustDomain a, e_Namespace = ra_namespace a,
      e_NamespaceGeneration = ra_namespaceGeneration a, e_Key = key, e_BlobDigest = f_digest fetched,
      e_SizeBytes = f_size fetched, e_DecisionDigest = f_decisionDigest fetched,
      e_AuthorityDigest = ra_authorityDigest a, e_RevocationEpoch = ra_revocationEpoch a,
      e_RevocationDigest = ra_revocationDigest a, e_L1SecurityGeneration = ra_l1SecurityGeneration a,
      e_CachedAtUnixMillis = unix_milli now, e_ExpiresAtUnixMillis = unix_milli (now + st_StableTTL s),
      e_Segment = segmentProbation, e_LastAccessUnixMillis = unix_milli now\<rparr>"

text \<open>Linking the verified temporary file under the digest: an existing blob must verify.\<close>

definition link_blob :: "(string \<Rightarrow> string) \<Rightarrow> Store \<Rightarrow> string \<Rightarrow> string \<Rightarrow> int \<Rightarrow> Store option" where
  "link_blob digest_of s content digest sz =
     (case map_of (st_Blobs s) digest of
        Some existing \<Rightarrow> if verifyOpenBlob digest_of existing digest sz then Some s else None
      | None \<Rightarrow> Some (s\<lparr>st_Blobs := (digest, content) # st_Blobs s\<rparr>))"

definition persistFetched ::
    "(string \<Rightarrow> string) \<Rightarrow> Store \<Rightarrow> ReadAuthority \<Rightarrow> string \<Rightarrow> fetchedObject \<Rightarrow> int \<Rightarrow> Store \<times> error option" where
  "persistFetched digest_of s authority key fetched now =
     (if f_size fetched < 0 \<or> f_size fetched > st_MaximumObjectBytes s \<or> \<not> validDigest (f_digest fetched) \<or>
         \<not> validDigest (f_decisionDigest fetched) \<or> \<not> read_current authority now
      then (s, Some ''persist Shared object: invalid committed metadata'')
      else if st_Closed s then (s, Some store_closed)
      else let written = min (int (length (f_body fetched))) (st_MaximumObjectBytes s + 1) in
        if written \<noteq> f_size fetched \<or> written > st_MaximumObjectBytes s
        then (s, Some ''persist Shared object: incomplete or oversized body'')
        else if digest_of (take (nat written) (f_body fetched)) \<noteq> f_digest fetched
        then (s, Some ''persist Shared object: digest mismatch'')
        else case link_blob digest_of s (take (nat written) (f_body fetched)) (f_digest fetched) (f_size fetched) of
          None \<Rightarrow> (s, Some ''Edge blob mismatch'')
        | Some s1 \<Rightarrow>
            (case publishEntryWithCapacityLocked s1 (fetched_entry s authority key fetched now) of
               Inl err \<Rightarrow> (s1, Some err)
             | Inr s2 \<Rightarrow> (s2, None)))"

text \<open>The fetch from the Shared service is the parameter \<open>fetch\<close>.\<close>

definition ReadThrough ::
    "(string \<Rightarrow> string) \<Rightarrow> (string \<Rightarrow> fetchedObject result) \<Rightarrow> Store \<Rightarrow> ReadAuthority \<Rightarrow> string \<Rightarrow> int \<Rightarrow>
      Store \<times> string result" where
  "ReadThrough digest_of fetch s authority key now =
     (case OpenCommitted digest_of s authority key now of
        (s0, Inr content) \<Rightarrow> (s0, Inr content)
      | (s0, Inl err) \<Rightarrow>
          if err \<noteq> ErrCacheMiss then (s0, Inl err)
          else case fetch key of
            Inl err \<Rightarrow> (s0, Inl err)
          | Inr fetched \<Rightarrow>
              (case reserve s0 (f_size fetched) of
                 Inl err \<Rightarrow> (s0, Inl err)
               | Inr (s1, r) \<Rightarrow>
                   (case persistFetched digest_of s1 authority key fetched now of
                      (s2, Some err) \<Rightarrow> (fst (release s2 r), Inl err)
                    | (s2, None) \<Rightarrow>
                        (case OpenCommitted digest_of s2 authority key now of
                           (s3, res) \<Rightarrow> (fst (release s3 r), res)))))"

end
