(* ===== verification/EdgePending.thy ===== *)
theory EdgePending
  imports EdgeStore
begin

text \<open>
  \<open>internal/edgecache/pending.go\<close>: attempt-private pending objects and their replication to the Shared
  service. The service is a parameter: \<open>push i entry content\<close> is the outcome of the \<open>i\<close>-th push of
  a pass.
\<close>

section \<open>Data\<close>

abbreviation edgePendingSchema :: string where "edgePendingSchema \<equiv> ''buildopt.edge-cache/pending-entry/v1''"
abbreviation pendingQueued :: string where "pendingQueued \<equiv> ''QUEUED''"
abbreviation pendingReplicating :: string where "pendingReplicating \<equiv> ''REPLICATING''"
abbreviation pendingReplicated :: string where "pendingReplicated \<equiv> ''REPLICATED''"
abbreviation pendingRejected :: string where "pendingRejected \<equiv> ''REJECTED''"
abbreviation ErrPendingConflict :: error where "ErrPendingConflict \<equiv> ''Edge pending key has different bytes''"

definition maximumReplicationBatch :: nat where "maximumReplicationBatch = 64"
definition second :: int where "second = 1000000000"
definition maximumRetryDelay :: int where "maximumRetryDelay = 5 * 60 * second"

record WriteAuthority =
  wa_tenant :: string
  wa_repository :: string
  wa_trustDomain :: string
  wa_namespace :: string
  wa_namespaceGeneration :: int
  wa_authorityDigest :: string
  wa_revocationEpoch :: int
  wa_revocationDigest :: string
  wa_l1SecurityGeneration :: int
  wa_attemptID :: string
  wa_expiresAt :: int

record PendingWrite =
  pw_Digest :: string
  pw_Size :: int
  pw_Added :: bool

record PendingSnapshot =
  ps_Bytes :: int
  ps_Objects :: int
  ps_Queued :: int
  ps_Replicated :: int
  ps_Rejected :: int

record ReplicationReport =
  rr_Claimed :: nat
  rr_Replicated :: nat
  rr_Deferred :: nat
  rr_Rejected :: nat

text \<open>The outcome of a push: no error, one of the two terminal errors, or any other error.\<close>

datatype push_outcome = Pushed | UpstreamRejected | UpstreamConflict | UpstreamUnavailable

definition write_current :: "WriteAuthority \<Rightarrow> int \<Rightarrow> bool" where
  "write_current a now = (now \<noteq> zero_time \<and> wa_authorityDigest a \<noteq> [] \<and> wa_attemptID a \<noteq> [] \<and> wa_expiresAt a > now)"

definition matchesPending :: "WriteAuthority \<Rightarrow> pendingEntry \<Rightarrow> bool" where
  "matchesPending a q = (q_Tenant q = wa_tenant a \<and> q_Repository q = wa_repository a \<and>
     q_TrustDomain q = wa_trustDomain a \<and> q_Namespace q = wa_namespace a \<and>
     q_NamespaceGeneration q = wa_namespaceGeneration a \<and> q_AttemptID q = wa_attemptID a \<and>
     q_AuthorityDigest q = wa_authorityDigest a \<and> q_RevocationEpoch q = wa_revocationEpoch a \<and>
     q_RevocationDigest q = wa_revocationDigest a \<and> q_L1SecurityGeneration q = wa_l1SecurityGeneration a)"

definition pending_id :: "pendingEntry \<Rightarrow> string \<times> string \<times> string" where
  "pending_id q = (q_AuthorityDigest q, q_AttemptID q, q_Key q)"

section \<open>Writing and reading\<close>

definition publishPendingLocked :: "Store \<Rightarrow> pendingEntry \<Rightarrow> (Store \<times> bool) result" where
  "publishPendingLocked s entry =
     (if st_Closed s then Inl database_closed
      else case find (\<lambda>q. pending_id q = pending_id entry) (st_Pending s) of
        Some q \<Rightarrow>
          if q_BlobDigest q \<noteq> q_BlobDigest entry \<or> q_SizeBytes q \<noteq> q_SizeBytes entry then Inl ErrPendingConflict
          else Inr (s, False)
      | None \<Rightarrow>
          if logicalBytes s + q_SizeBytes entry > st_CapacityBytes s then Inl ErrCapacityExceeded
          else Inr (s\<lparr>st_Pending := st_Pending s @ [entry\<lparr>q_State := pendingQueued, q_ReplicationAttempts := 0,
                 q_NextRetryUnixMillis := 0, q_LastErrorClass := []\<rparr>]\<rparr>, True))"

definition new_pending :: "Store \<Rightarrow> WriteAuthority \<Rightarrow> string \<Rightarrow> string \<Rightarrow> int \<Rightarrow> int \<Rightarrow> pendingEntry" where
  "new_pending s a key digest sz now =
     (let expires = (if wa_expiresAt a < now + st_PendingTTL s then wa_expiresAt a else now + st_PendingTTL s) in
      \<lparr>q_Tenant = wa_tenant a, q_Repository = wa_repository a, q_TrustDomain = wa_trustDomain a,
       q_Namespace = wa_namespace a, q_NamespaceGeneration = wa_namespaceGeneration a,
       q_AttemptID = wa_attemptID a, q_Key = key, q_SchemaVersion = edgePendingSchema,
       q_AuthorityDigest = wa_authorityDigest a, q_RevocationEpoch = wa_revocationEpoch a,
       q_RevocationDigest = wa_revocationDigest a, q_L1SecurityGeneration = wa_l1SecurityGeneration a,
       q_BlobDigest = digest, q_SizeBytes = sz, q_CreatedAtUnixMillis = unix_milli now,
       q_ExpiresAtUnixMillis = unix_milli expires, q_State = pendingQueued, q_ReplicationAttempts = 0,
       q_NextRetryUnixMillis = 0, q_LastErrorClass = []\<rparr>)"

text \<open>The part of \<open>PutPendingDurable\<close> that runs under the lock, after the reservation.\<close>

definition put_pending_locked ::
    "(string \<Rightarrow> string) \<Rightarrow> Store \<Rightarrow> WriteAuthority \<Rightarrow> string \<Rightarrow> int \<Rightarrow> string \<Rightarrow> int \<Rightarrow> Store \<times> PendingWrite result" where
  "put_pending_locked digest_of s a key sz body now =
     (if st_Closed s then (s, Inl store_closed)
      else let written = min (int (length body)) (st_MaximumObjectBytes s + 1) in
        if written \<noteq> sz \<or> written > st_MaximumObjectBytes s
        then (s, Inl ''persist Edge pending object: incomplete or oversized body'')
        else let content = take (nat written) body; digest = digest_of content in
          case link_blob digest_of s content digest sz of
            None \<Rightarrow> (s, Inl ''Edge blob mismatch'')
          | Some s1 \<Rightarrow>
              (case publishPendingLocked s1 (new_pending s a key digest sz now) of
                 Inl err \<Rightarrow> (fst (deleteOrphanBlobsLocked s1), Inl err)
               | Inr (s2, added) \<Rightarrow> (s2, Inr \<lparr>pw_Digest = digest, pw_Size = sz, pw_Added = added\<rparr>)))"

definition PutPendingDurable ::
    "(string \<Rightarrow> string) \<Rightarrow> Store \<Rightarrow> WriteAuthority \<Rightarrow> string \<Rightarrow> int \<Rightarrow> string \<Rightarrow> int \<Rightarrow> Store \<times> PendingWrite result" where
  "PutPendingDurable digest_of s a key sz body now =
     (if \<not> validCacheKey key \<or> \<not> write_current a now \<or> sz < 0 \<or> sz > st_MaximumObjectBytes s
      then (s, Inl ''persist Edge pending object: invalid input'')
      else case reserve s sz of
        Inl err \<Rightarrow> (s, Inl err)
      | Inr (s1, r) \<Rightarrow>
          (case put_pending_locked digest_of s1 a key sz body now of
             (s2, res) \<Rightarrow> (fst (release s2 r), res)))"

definition loadPending :: "Store \<Rightarrow> WriteAuthority \<Rightarrow> string \<Rightarrow> pendingEntry option" where
  "loadPending s a key = find (\<lambda>q. pending_id q = (wa_authorityDigest a, wa_attemptID a, key)) (st_Pending s)"

definition OpenPending :: "(string \<Rightarrow> string) \<Rightarrow> Store \<Rightarrow> WriteAuthority \<Rightarrow> string \<Rightarrow> int \<Rightarrow> string result" where
  "OpenPending digest_of s a key now =
     (if \<not> validCacheKey key \<or> \<not> write_current a now then Inl ErrCacheMiss
      else if st_Closed s then Inl store_closed
      else case loadPending s a key of
        None \<Rightarrow> Inl ErrCacheMiss
      | Some q \<Rightarrow>
          if \<not> matchesPending a q \<or> q_SchemaVersion q \<noteq> edgePendingSchema \<or> q_State q = pendingRejected \<or>
             q_ExpiresAtUnixMillis q \<le> unix_milli now \<or> q_SizeBytes q < 0 \<or>
             q_SizeBytes q > st_MaximumObjectBytes s \<or> \<not> validDigest (q_BlobDigest q)
          then Inl ErrCacheMiss
          else case map_of (st_Blobs s) (q_BlobDigest q) of
            None \<Rightarrow> Inl ErrCacheMiss
          | Some content \<Rightarrow>
              if verifyOpenBlob digest_of content (q_BlobDigest q) (q_SizeBytes q) then Inr content
              else Inl ErrCacheMiss)"

definition pendingSnapshot :: "Store \<Rightarrow> PendingSnapshot result" where
  "pendingSnapshot s =
     (if st_Closed s then Inl store_closed
      else Inr \<lparr>ps_Bytes = pendingBytes (st_Pending s), ps_Objects = int (length (st_Pending s)),
        ps_Queued = int (length (filter (\<lambda>q. q_State q = pendingQueued \<or> q_State q = pendingReplicating) (st_Pending s))),
        ps_Replicated = int (length (filter (\<lambda>q. q_State q = pendingReplicated) (st_Pending s))),
        ps_Rejected = int (length (filter (\<lambda>q. q_State q = pendingRejected) (st_Pending s)))\<rparr>)"

section \<open>Replication\<close>

definition update_pending :: "(pendingEntry \<Rightarrow> bool) \<Rightarrow> (pendingEntry \<Rightarrow> pendingEntry) \<Rightarrow> Store \<Rightarrow> Store" where
  "update_pending P f s = s\<lparr>st_Pending := map (\<lambda>q. if P q then f q else q) (st_Pending s)\<rparr>"

text \<open>\<open>time.Second << (attempt - 1)\<close> with the attempt clamped to 1..9.\<close>

definition replicationRetryDelay :: "int \<Rightarrow> int" where
  "replicationRetryDelay attempt =
     (let attempt = (if attempt < 1 then 1 else attempt); attempt = (if attempt > 9 then 9 else attempt);
          delay = second * 2 ^ nat (attempt - 1) in
      if delay > maximumRetryDelay then maximumRetryDelay else delay)"

definition due :: "WriteAuthority \<Rightarrow> int \<Rightarrow> pendingEntry \<Rightarrow> bool" where
  "due a now q = (q_AuthorityDigest q = wa_authorityDigest a \<and> q_AttemptID q = wa_attemptID a \<and>
     q_State q = pendingQueued \<and> q_NextRetryUnixMillis q \<le> unix_milli now \<and> q_ExpiresAtUnixMillis q > unix_milli now)"

text \<open>An error, nothing due, or the claimed entry with its verified content.\<close>

definition claimPending ::
    "(string \<Rightarrow> string) \<Rightarrow> Store \<Rightarrow> WriteAuthority \<Rightarrow> int \<Rightarrow> (Store \<times> (pendingEntry \<times> string) option) result" where
  "claimPending digest_of s a now =
     (if st_Closed s then Inl store_closed
      else case sort_key (\<lambda>q. (q_CreatedAtUnixMillis q, q_Key q)) (filter (due a now) (st_Pending s)) of
        [] \<Rightarrow> Inr (s, None)
      | q # _ \<Rightarrow>
          if \<not> matchesPending a q \<or> q_SchemaVersion q \<noteq> edgePendingSchema \<or> \<not> validDigest (q_BlobDigest q) \<or>
             q_SizeBytes q < 0 \<or> q_SizeBytes q > st_MaximumObjectBytes s
          then Inl ''replicate Edge pending: invalid durable metadata''
          else let claimed = q\<lparr>q_ReplicationAttempts := q_ReplicationAttempts q + 1, q_State := pendingReplicating\<rparr>;
                   sel = (\<lambda>x. pending_id x = pending_id q \<and> q_State x = pendingQueued);
                   s' = update_pending sel
                     (\<lambda>x. x\<lparr>q_State := pendingReplicating, q_ReplicationAttempts := q_ReplicationAttempts q + 1\<rparr>) s in
            if length (filter sel (st_Pending s)) \<noteq> 1 then Inl ''replicate Edge pending: claim lost''
            else case map_of (st_Blobs s) (q_BlobDigest q) of
              None \<Rightarrow> Inl ''replicate Edge pending: corrupt blob''
            | Some content \<Rightarrow>
                if verifyOpenBlob digest_of content (q_BlobDigest q) (q_SizeBytes q)
                then Inr (s', Some (claimed, content))
                else Inl ''replicate Edge pending: corrupt blob'')"

definition push_result :: "pendingEntry \<Rightarrow> int \<Rightarrow> push_outcome \<Rightarrow> string \<times> int \<times> string" where
  "push_result q now outcome =
     (case outcome of
        Pushed \<Rightarrow> (pendingReplicated, 0, [])
      | UpstreamRejected \<Rightarrow> (pendingRejected, 0, ''AUTHORITY_REJECTED'')
      | UpstreamConflict \<Rightarrow> (pendingRejected, 0, ''ATTEMPT_REJECTED'')
      | UpstreamUnavailable \<Rightarrow>
          (pendingQueued, unix_milli (now + replicationRetryDelay (q_ReplicationAttempts q)), ''UPSTREAM_UNAVAILABLE''))"

definition finishReplication :: "Store \<Rightarrow> pendingEntry \<Rightarrow> int \<Rightarrow> push_outcome \<Rightarrow> (Store \<times> string) result" where
  "finishReplication s q now outcome =
     (let (state, nextRetry, errorClass) = push_result q now outcome;
          sel = (\<lambda>x. pending_id x = pending_id q \<and> q_State x = pendingReplicating \<and>
                     q_ReplicationAttempts x = q_ReplicationAttempts q) in
      if st_Closed s then Inl store_closed
      else if length (filter sel (st_Pending s)) \<noteq> 1 then Inl ''replicate Edge pending: durable outcome lost''
      else Inr (update_pending sel
             (\<lambda>x. x\<lparr>q_State := state, q_NextRetryUnixMillis := nextRetry, q_LastErrorClass := errorClass\<rparr>) s, state))"

definition count_outcome :: "string \<Rightarrow> ReplicationReport \<Rightarrow> ReplicationReport" where
  "count_outcome outcome r =
     (if outcome = pendingReplicated then r\<lparr>rr_Replicated := rr_Replicated r + 1\<rparr>
      else if outcome = pendingRejected then r\<lparr>rr_Rejected := rr_Rejected r + 1\<rparr>
      else r\<lparr>rr_Deferred := rr_Deferred r + 1\<rparr>)"

text \<open>The loop of one pass; \<open>left\<close> is what remains of the batch. The report is returned with the error.\<close>

fun replicate_loop ::
    "(string \<Rightarrow> string) \<Rightarrow> (nat \<Rightarrow> pendingEntry \<Rightarrow> string \<Rightarrow> push_outcome) \<Rightarrow> WriteAuthority \<Rightarrow> int \<Rightarrow> nat \<Rightarrow> Store \<Rightarrow>
      ReplicationReport \<Rightarrow> Store \<times> ReplicationReport \<times> error option" where
  "replicate_loop digest_of push a now 0 s r = (s, r, None)"
| "replicate_loop digest_of push a now (Suc left) s r =
     (case claimPending digest_of s a now of
        Inl err \<Rightarrow> (s, r, Some err)
      | Inr (s1, None) \<Rightarrow> (s1, r, None)
      | Inr (s1, Some (q, content)) \<Rightarrow>
          let r = r\<lparr>rr_Claimed := rr_Claimed r + 1\<rparr> in
          (case finishReplication s1 q now (push (rr_Claimed r) q content) of
             Inl err \<Rightarrow> (s1, r, Some err)
           | Inr (s2, outcome) \<Rightarrow> replicate_loop digest_of push a now left s2 (count_outcome outcome r)))"

definition ReplicatePendingOnce ::
    "(string \<Rightarrow> string) \<Rightarrow> (nat \<Rightarrow> pendingEntry \<Rightarrow> string \<Rightarrow> push_outcome) \<Rightarrow> Store \<Rightarrow> WriteAuthority \<Rightarrow> int \<Rightarrow>
      Store \<times> ReplicationReport \<times> error option" where
  "ReplicatePendingOnce digest_of push s a now =
     (let r = \<lparr>rr_Claimed = 0, rr_Replicated = 0, rr_Deferred = 0, rr_Rejected = 0\<rparr> in
      if \<not> write_current a now then (s, r, Some ''replicate Edge pending: invalid input'')
      else replicate_loop digest_of push a now maximumReplicationBatch s r)"

text \<open>The recovery of \<open>initialize\<close>: an interrupted replication is queued again.\<close>

definition recover_pending :: "Store \<Rightarrow> Store" where
  "recover_pending s = update_pending (\<lambda>q. q_State q = pendingReplicating)
     (\<lambda>q. q\<lparr>q_State := pendingQueued, q_NextRetryUnixMillis := 0, q_LastErrorClass := ''INTERRUPTED''\<rparr>) s"

end
