(* ===== verification/EdgeFacts.thy ===== *)
theory EdgeFacts
  imports EdgePending
begin

text \<open>
  The tables of the Edge store: the invariant every operation keeps, what eviction and demotion do to
  the rows, and the ledger of reservations as an interface.
\<close>

section \<open>Rows\<close>

definition rows_ok :: "storedEntry list \<Rightarrow> bool" where
  "rows_ok es \<longleftrightarrow> distinct (map entry_id es) \<and> (\<forall>e\<in>set es. 0 \<le> e_SizeBytes e)"

definition pending_ok :: "pendingEntry list \<Rightarrow> bool" where
  "pending_ok qs \<longleftrightarrow> distinct (map pending_id qs) \<and> (\<forall>q\<in>set qs. 0 \<le> q_SizeBytes q)"

lemma stableBytes_simps [simp]:
  "stableBytes [] = 0" "stableBytes (e # es) = e_SizeBytes e + stableBytes es"
  "stableBytes (es @ fs) = stableBytes es + stableBytes fs"
  by (simp_all add: stableBytes_def)

lemma pendingBytes_simps [simp]:
  "pendingBytes [] = 0" "pendingBytes (q # qs) = q_SizeBytes q + pendingBytes qs"
  "pendingBytes (qs @ rs) = pendingBytes qs + pendingBytes rs"
  by (simp_all add: pendingBytes_def)

lemma stableBytes_filter:
  "(\<And>e. e \<in> set es \<Longrightarrow> 0 \<le> e_SizeBytes e) \<Longrightarrow> stableBytes (filter P es) \<le> stableBytes es"
  by (induction es) fastforce+

lemma stableBytes_nonneg: "(\<And>e. e \<in> set es \<Longrightarrow> 0 \<le> e_SizeBytes e) \<Longrightarrow> 0 \<le> stableBytes es"
  by (induction es) auto

lemma pendingBytes_filter:
  "(\<And>q. q \<in> set qs \<Longrightarrow> 0 \<le> q_SizeBytes q) \<Longrightarrow> pendingBytes (filter P qs) \<le> pendingBytes qs"
  by (induction qs) fastforce+

lemma rows_ok_filter [simp]: "rows_ok es \<Longrightarrow> rows_ok (filter P es)"
  by (simp add: rows_ok_def distinct_map_filter)

lemma pending_ok_filter [simp]: "pending_ok qs \<Longrightarrow> pending_ok (filter P qs)"
  by (simp add: pending_ok_def distinct_map_filter)

lemma filter_id_absent: "entry_id c \<notin> entry_id ` set es \<Longrightarrow> filter (\<lambda>e. entry_id e \<noteq> entry_id c) es = es"
  by (metis (mono_tags, lifting) filter_id_conv imageI)

lemma stableBytes_remove:
  assumes "distinct (map entry_id es)" "c \<in> set es"
  shows "stableBytes (filter (\<lambda>e. entry_id e \<noteq> entry_id c) es) = stableBytes es - e_SizeBytes c"
  using assms
proof (induction es)
  case (Cons x es)
  show ?case
  proof (cases "x = c")
    case True
    with Cons.prems show ?thesis by (simp add: filter_id_absent)
  next
    case False
    with Cons.prems have "c \<in> set es" "entry_id x \<noteq> entry_id c" by auto
    with Cons show ?thesis by simp
  qed
qed simp

lemma put_row_ok:
  assumes "rows_ok es" "0 \<le> e_SizeBytes e"
  shows "rows_ok (put_row e es)"
  using assms by (auto simp: put_row_def rows_ok_def distinct_map_filter)

lemma put_row_bytes:
  assumes "rows_ok es"
  shows "stableBytes (put_row e es) = stableBytes es - replaced_bytes e es + e_SizeBytes e"
proof (cases "find (\<lambda>x. entry_id x = entry_id e) es")
  case None
  then have "\<forall>x\<in>set es. entry_id x \<noteq> entry_id e" by (simp add: find_None_iff)
  then have "filter (\<lambda>x. entry_id x \<noteq> entry_id e) es = es" by (simp add: filter_id_conv)
  with None show ?thesis by (simp add: put_row_def replaced_bytes_def)
next
  case (Some c)
  then have c: "c \<in> set es" "entry_id c = entry_id e" by (auto simp: find_Some_iff)
  from stableBytes_remove [of es c] assms c Some show ?thesis
    by (simp add: put_row_def replaced_bytes_def rows_ok_def)
qed

lemma replaced_nonneg: "rows_ok es \<Longrightarrow> 0 \<le> replaced_bytes e es"
  by (auto simp: replaced_bytes_def rows_ok_def find_Some_iff split: option.splits)

section \<open>Eviction\<close>

text \<open>Eviction deletes a prefix of the candidates, the shortest one that reaches the target.\<close>

definition evicted_to :: "storedEntry list \<Rightarrow> storedEntry list \<Rightarrow> nat \<Rightarrow> storedEntry list" where
  "evicted_to cs es k = filter (\<lambda>e. entry_id e \<notin> entry_id ` set (take k cs)) es"

lemma evict_loop_result:
  assumes "rows_ok es" "set cs \<subseteq> set es" "distinct (map entry_id cs)" "usage = stableBytes es"
  shows "\<exists>k\<le>length cs. fst (evict_loop low cs usage p q es) = evicted_to cs es k \<and>
     fst (snd (evict_loop low cs usage p q es)) = stableBytes (evicted_to cs es k) \<and>
     (stableBytes (evicted_to cs es k) \<le> low \<or> k = length cs) \<and>
     (\<forall>j<k. low < stableBytes (evicted_to cs es j))"
  using assms
proof (induction cs arbitrary: usage p q es)
  case Nil
  then show ?case by (auto simp: evicted_to_def)
next
  case (Cons c cs)
  show ?case
  proof (cases "usage \<le> low")
    case True
    with Cons.prems show ?thesis by (intro exI [of _ 0]) (simp add: evicted_to_def)
  next
    case False
    let ?es = "filter (\<lambda>e. entry_id e \<noteq> entry_id c) es"
    have c: "c \<in> set es" "distinct (map entry_id es)" using Cons.prems by (auto simp: rows_ok_def)
    then have len: "length ?es \<noteq> length es"
      using length_filter_less [of c es "\<lambda>e. entry_id e \<noteq> entry_id c"] by auto
    have bytes: "stableBytes ?es = usage - e_SizeBytes c" using stableBytes_remove [OF c(2,1)] Cons.prems(4) by simp
    have sub: "set cs \<subseteq> set ?es" using Cons.prems(2,3) by (auto simp: image_iff)
    have ev: "evicted_to cs ?es k = evicted_to (c # cs) es (Suc k)" for k
      by (auto simp: evicted_to_def conj_commute)
    obtain p' q' where step: "evict_loop low (c # cs) usage p q es = evict_loop low cs (usage - e_SizeBytes c) p' q' ?es"
      using False len by (cases "e_Segment c = segmentProbation") (auto simp: Let_def)
    from Cons.IH [of ?es "usage - e_SizeBytes c" p' q'] sub bytes Cons.prems(1,3)
    obtain k where k: "k \<le> length cs"
      "fst (evict_loop low cs (usage - e_SizeBytes c) p' q' ?es) = evicted_to cs ?es k"
      "fst (snd (evict_loop low cs (usage - e_SizeBytes c) p' q' ?es)) = stableBytes (evicted_to cs ?es k)"
      "stableBytes (evicted_to cs ?es k) \<le> low \<or> k = length cs"
      "\<forall>j<k. low < stableBytes (evicted_to cs ?es j)" by auto
    have zero: "low < stableBytes (evicted_to (c # cs) es 0)"
      using False Cons.prems(4) by (simp add: evicted_to_def)
    show ?thesis
      unfolding step using k zero by (intro exI [of _ "Suc k"]) (auto simp: ev less_Suc_eq_0_disj)
  qed
qed

definition eviction_candidates :: "entry_id \<Rightarrow> storedEntry list \<Rightarrow> storedEntry list" where
  "eviction_candidates excluded es = sort_key eviction_order (filter (\<lambda>e. entry_id e \<noteq> excluded) es)"

lemma enforceWatermarksTx_Inr:
  assumes "rows_ok es" "enforceWatermarksTx s excluded es = Inr (es', p, q)"
  shows "stableBytes es < st_HighWatermarkBytes s \<and> es' = es \<or>
    (\<exists>k\<le>length (eviction_candidates excluded es). es' = evicted_to (eviction_candidates excluded es) es k \<and>
       stableBytes es' \<le> st_LowWatermarkBytes s \<and>
       (\<forall>j<k. st_LowWatermarkBytes s < stableBytes (evicted_to (eviction_candidates excluded es) es j)))"
proof (cases "stableBytes es < st_HighWatermarkBytes s")
  case True
  with assms(2) show ?thesis by (simp add: enforceWatermarksTx_def)
next
  case False
  let ?cs = "eviction_candidates excluded es"
  obtain es1 u p1 q1 where loop: "evict_loop (st_LowWatermarkBytes s) ?cs (stableBytes es) 0 0 es = (es1, u, p1, q1)"
    by (metis prod_cases4)
  have "set ?cs \<subseteq> set es" "distinct (map entry_id ?cs)"
    using assms(1) by (auto simp: eviction_candidates_def rows_ok_def distinct_map intro: inj_on_subset)
  from evict_loop_result [OF assms(1) this refl, of "st_LowWatermarkBytes s" 0 0] loop
  obtain k where k: "k \<le> length ?cs" "es1 = evicted_to ?cs es k" "u = stableBytes (evicted_to ?cs es k)"
    "\<forall>j<k. st_LowWatermarkBytes s < stableBytes (evicted_to ?cs es j)" by auto
  from assms(2) False loop have "es' = es1" "\<not> u > st_LowWatermarkBytes s"
    by (auto simp: enforceWatermarksTx_def eviction_candidates_def Let_def split: if_splits)
  with k show ?thesis by auto
qed

lemma enforceWatermarksTx_rows:
  assumes "rows_ok es" "enforceWatermarksTx s excluded es = Inr (es', p, q)"
  shows "rows_ok es'" "stableBytes es' \<le> stableBytes es" "set es' \<subseteq> set es"
    and "e \<in> set es \<Longrightarrow> entry_id e = excluded \<Longrightarrow> e \<in> set es'"
proof -
  have "\<exists>P. es' = filter P es \<and> (\<forall>e. entry_id e = excluded \<longrightarrow> P e)"
    using enforceWatermarksTx_Inr [OF assms]
  proof (elim disjE exE conjE)
    assume "es' = es"
    then show ?thesis by (intro exI [of _ "\<lambda>_. True"]) simp
  next
    fix k assume e: "es' = evicted_to (eviction_candidates excluded es) es k"
    have "entry_id e \<notin> entry_id ` set (take k (eviction_candidates excluded es))" if "entry_id e = excluded" for e
      using that by (auto simp: eviction_candidates_def dest!: in_set_takeD)
    with e show ?thesis unfolding evicted_to_def by blast
  qed
  then obtain P where P: "es' = filter P es" "\<And>e. entry_id e = excluded \<Longrightarrow> P e" by blast
  show "rows_ok es'" using assms(1) P by simp
  show "stableBytes es' \<le> stableBytes es" using P assms(1) by (simp add: stableBytes_filter rows_ok_def)
  show "set es' \<subseteq> set es" using P by auto
  show "e \<in> set es'" if "e \<in> set es" "entry_id e = excluded" using that P by simp
qed

section \<open>Demotion\<close>

definition demote :: "entry_id \<Rightarrow> storedEntry \<Rightarrow> storedEntry" where
  "demote i e = (if entry_id e = i \<and> e_Segment e = segmentProtected then e\<lparr>e_Segment := segmentProbation\<rparr> else e)"

lemma demote_keeps [simp]: "entry_id (demote i e) = entry_id e" "e_SizeBytes (demote i e) = e_SizeBytes e"
  by (simp_all add: demote_def entry_id_def)

lemma demote_map_keeps [simp]:
  "map entry_id (map (demote i) es) = map entry_id es" "stableBytes (map (demote i) es) = stableBytes es"
  by (simp_all add: comp_def stableBytes_def)

lemma rows_ok_same:
  "map entry_id es' = map entry_id es \<Longrightarrow> map e_SizeBytes es' = map e_SizeBytes es \<Longrightarrow> rows_ok es \<Longrightarrow> rows_ok es'"
  unfolding rows_ok_def by (metis image_iff list.set_map)

lemma protectedUsed_Cons [simp]:
  "protectedUsed [] = 0"
  "protectedUsed (e # es) = (if e_Segment e = segmentProtected then e_SizeBytes e else 0) + protectedUsed es"
  by (simp_all add: protectedUsed_def)

lemma demote_segment:
  "e_Segment (demote i e) = (if entry_id e = i \<and> e_Segment e = segmentProtected then segmentProbation else e_Segment e)"
  by (simp add: demote_def)

lemma protectedUsed_demote:
  assumes "distinct (map entry_id es)" "c \<in> set es" "e_Segment c = segmentProtected"
  shows "protectedUsed (map (demote (entry_id c)) es) = protectedUsed es - e_SizeBytes c"
  using assms
proof (induction es)
  case (Cons x es)
  have abs: "map (demote (entry_id c)) es = es" if "entry_id c \<notin> entry_id ` set es"
    using that by (intro map_idI) (metis demote_def imageI)
  show ?case
  proof (cases "x = c")
    case True
    with Cons.prems have "map (demote (entry_id c)) es = es" by (intro abs) simp
    with True Cons.prems(3) show ?thesis by (simp add: demote_segment)
  next
    case False
    with Cons.prems have "c \<in> set es" "entry_id x \<noteq> entry_id c" by auto
    with Cons show ?thesis by (simp add: demote_segment)
  qed
qed simp

lemma demote_loop_result:
  assumes "distinct (map entry_id es)" "distinct (map entry_id cs)" "protected = protectedUsed es" "0 \<le> target"
    and "\<forall>c\<in>set cs. e_Segment c = segmentProtected \<and> c \<in> set es"
    and "\<forall>e\<in>set es. e_Segment e = segmentProtected \<longrightarrow> e \<in> set cs"
  shows "protectedUsed (fst (demote_loop target cs protected d es)) \<le> target \<and>
     map entry_id (fst (demote_loop target cs protected d es)) = map entry_id es \<and>
     map e_SizeBytes (fst (demote_loop target cs protected d es)) = map e_SizeBytes es"
  using assms
proof (induction cs arbitrary: protected d es)
  case Nil
  then have "filter (\<lambda>e. e_Segment e = segmentProtected) es = []" by (auto simp: filter_empty_conv)
  with Nil show ?case by (simp add: protectedUsed_def)
next
  case (Cons c cs)
  show ?case
  proof (cases "protected \<le> target")
    case True
    with Cons.prems show ?thesis by simp
  next
    case False
    let ?es = "map (demote (entry_id c)) es"
    have c: "c \<in> set es" "e_Segment c = segmentProtected" using Cons.prems(5) by auto
    have ex: "list_ex (\<lambda>e. entry_id e = entry_id c \<and> e_Segment e = segmentProtected) es"
      using c by (auto simp: list_ex_iff)
    have step: "demote_loop target (c # cs) protected d es = demote_loop target cs (protected - e_SizeBytes c) (d + 1) ?es"
      using False ex by (simp add: demote_def [abs_def])
    have keep: "x \<in> set ?es \<longleftrightarrow> x \<in> set es" if "x \<in> set cs" for x
    proof -
      have "entry_id x \<noteq> entry_id c" using Cons.prems(2) that by (auto simp: image_iff)
      then show ?thesis by (auto simp: demote_def image_iff split: if_splits) (auto simp: entry_id_def)
    qed
    have prot: "\<forall>e\<in>set ?es. e_Segment e = segmentProtected \<longrightarrow> e \<in> set cs"
    proof (intro ballI impI)
      fix e assume "e \<in> set ?es" "e_Segment e = segmentProtected"
      then have e: "e \<in> set es" "entry_id e \<noteq> entry_id c" "e_Segment e = segmentProtected"
        by (auto simp: demote_def split: if_splits)
      with Cons.prems(6) show "e \<in> set cs" by auto
    qed
    have "protectedUsed (fst (demote_loop target cs (protected - e_SizeBytes c) (d + 1) ?es)) \<le> target \<and>
      map entry_id (fst (demote_loop target cs (protected - e_SizeBytes c) (d + 1) ?es)) = map entry_id ?es \<and>
      map e_SizeBytes (fst (demote_loop target cs (protected - e_SizeBytes c) (d + 1) ?es)) = map e_SizeBytes ?es"
    proof (rule Cons.IH)
      show "distinct (map entry_id ?es)" using Cons.prems(1) by (simp del: map_map)
      show "protected - e_SizeBytes c = protectedUsed ?es"
        using protectedUsed_demote [OF Cons.prems(1) c] Cons.prems(3) by simp
      show "\<forall>x\<in>set cs. e_Segment x = segmentProtected \<and> x \<in> set ?es" using Cons.prems(5) keep by auto
    qed (use Cons.prems(2,4) prot in auto)
    moreover have "map entry_id ?es = map entry_id es" "map e_SizeBytes ?es = map e_SizeBytes es" by simp_all
    ultimately show ?thesis unfolding step by simp
  qed
qed

lemma enforceProtectedTargetTx_rows:
  assumes "distinct (map entry_id es)" "0 \<le> st_ProtectedBytes s"
  shows "protectedUsed (fst (enforceProtectedTargetTx s es)) \<le> st_ProtectedBytes s"
    and "map entry_id (fst (enforceProtectedTargetTx s es)) = map entry_id es"
    and "map e_SizeBytes (fst (enforceProtectedTargetTx s es)) = map e_SizeBytes es"
proof -
  let ?cs = "sort_key demotion_order (filter (\<lambda>e. e_Segment e = segmentProtected) es)"
  have "distinct (map entry_id ?cs)" using assms(1) by (auto simp: distinct_map intro: inj_on_subset)
  from demote_loop_result [OF assms(1) this refl assms(2), of 0]
  show "protectedUsed (fst (enforceProtectedTargetTx s es)) \<le> st_ProtectedBytes s"
    "map entry_id (fst (enforceProtectedTargetTx s es)) = map entry_id es"
    "map e_SizeBytes (fst (enforceProtectedTargetTx s es)) = map e_SizeBytes es"
    by (auto simp: enforceProtectedTargetTx_def Let_def)
qed

lemma stableBytes_same: "map e_SizeBytes es' = map e_SizeBytes es \<Longrightarrow> stableBytes es' = stableBytes es"
  by (simp add: stableBytes_def)

end
