(* ===== verification/EdgeLedger.thy ===== *)
theory EdgeLedger
  imports EdgeFacts GoPath "HOL-Library.Multiset"
begin

text \<open>
  The byte budget of the Edge store under any interleaving of its clients. \<open>byte_ledger\<close> is the
  interface between the reservations and the tables: what reserving, publishing, releasing and
  shrinking promise. The Edge store provides it, and \<open>edge_step\<close> interleaves the critical sections of
  \<open>ReadThrough\<close>, \<open>PutPendingDurable\<close>, \<open>OpenCommitted\<close>, \<open>Maintain\<close> and \<open>ReplicatePendingOnce\<close>, each of
  which runs under the mutex of the store.
\<close>

section \<open>Opening a store\<close>

abbreviation FilesystemPolicy :: string where "FilesystemPolicy \<equiv> ''ALLOWLIST_PROVEN_LOCAL''"

definition MinimumCapacityBytes :: int where "MinimumCapacityBytes = 1073741824"
definition MaximumCapacityBytes :: int where "MaximumCapacityBytes = 500 * 1073741824"
definition MaximumObjectBytes :: int where "MaximumObjectBytes = 100 * 1048576"
definition MaximumStableTTLSeconds :: int where "MaximumStableTTLSeconds = 30 * 24 * 3600"
definition MaximumPendingTTLSeconds :: int where "MaximumPendingTTLSeconds = 24 * 3600"
definition HighWatermarkPercent :: int where "HighWatermarkPercent = 85"
definition LowWatermarkPercent :: int where "LowWatermarkPercent = 75"
definition ProtectedPercent :: int where "ProtectedPercent = 80"

record Storage =
  sg_StateDirectory :: string
  sg_FilesystemPolicy :: string
  sg_CapacityBytes :: int
  sg_MaximumObjectBytes :: int
  sg_StableTTLSeconds :: int
  sg_PendingTTLSeconds :: int
  sg_HighWatermarkPercent :: int
  sg_LowWatermarkPercent :: int
  sg_ProtectedPercent :: int

text \<open>For the separator \<open>/\<close>.\<close>

definition absoluteCleanNonRoot :: "string \<Rightarrow> bool" where
  "absoluteCleanNonRoot path = (hasPrefix ''/'' path \<and> path_clean path = path \<and> path \<noteq> ''/'')"

definition storage_valid :: "Storage \<Rightarrow> bool" where
  "storage_valid g = (\<not> (\<not> absoluteCleanNonRoot (sg_StateDirectory g) \<or> sg_FilesystemPolicy g \<noteq> FilesystemPolicy \<or>
     sg_CapacityBytes g < MinimumCapacityBytes \<or> sg_CapacityBytes g > MaximumCapacityBytes \<or>
     sg_MaximumObjectBytes g < 1 \<or> sg_MaximumObjectBytes g > MaximumObjectBytes \<or>
     sg_StableTTLSeconds g < 1 \<or> sg_StableTTLSeconds g > MaximumStableTTLSeconds \<or>
     sg_PendingTTLSeconds g < 1 \<or> sg_PendingTTLSeconds g > MaximumPendingTTLSeconds \<or>
     sg_HighWatermarkPercent g \<noteq> HighWatermarkPercent \<or> sg_LowWatermarkPercent g \<noteq> LowWatermarkPercent \<or>
     sg_ProtectedPercent g \<noteq> ProtectedPercent))"

text \<open>The store opened over the rows and blobs that the state directory holds.\<close>

definition OpenStore ::
    "Storage \<Rightarrow> storedEntry list \<Rightarrow> pendingEntry list \<Rightarrow> (string \<times> string) list \<Rightarrow> Store result" where
  "OpenStore g es qs blobs =
     (if \<not> storage_valid g then Inl ''open Edge store: invalid storage configuration''
      else Inr (recover_pending
        \<lparr>st_StableTTL = sg_StableTTLSeconds g * second, st_PendingTTL = sg_PendingTTLSeconds g * second,
         st_MaximumObjectBytes = sg_MaximumObjectBytes g, st_CapacityBytes = sg_CapacityBytes g,
         st_HighWatermarkBytes = percentage (sg_CapacityBytes g) HighWatermarkPercent,
         st_LowWatermarkBytes = percentage (sg_CapacityBytes g) LowWatermarkPercent,
         st_ProtectedBytes = percentage (sg_CapacityBytes g) ProtectedPercent,
         st_ReservedBytes = 0, st_Closed = False, st_Entries = es, st_Pending = qs, st_Blobs = blobs\<rparr>))"

section \<open>The ledger of reservations\<close>

text \<open>
  \<open>held\<close> are the reservations whose object is not yet published, \<open>spent\<close> those published (or given up)
  and not yet released.
\<close>

locale byte_ledger =
  fixes usage :: "'s \<Rightarrow> int" and reserved :: "'s \<Rightarrow> int" and config :: "'s \<Rightarrow> 'c"
    and capacity :: "'c \<Rightarrow> int" and limit :: "'c \<Rightarrow> int" and good :: "'s \<Rightarrow> bool"
    and reserves :: "'s \<Rightarrow> int \<Rightarrow> 's \<Rightarrow> bool" and publishes :: "'s \<Rightarrow> int \<Rightarrow> 's \<Rightarrow> bool"
    and releases :: "'s \<Rightarrow> int \<Rightarrow> 's \<Rightarrow> bool" and shrinks :: "'s \<Rightarrow> 's \<Rightarrow> bool"
  assumes reserve_law: "good s \<Longrightarrow> reserves s n s' \<Longrightarrow>
      good s' \<and> 0 \<le> n \<and> n \<le> limit (config s) \<and> usage s' = usage s \<and> reserved s' = reserved s + n \<and> config s' = config s \<and>
      usage s + reserved s + n \<le> capacity (config s)"
    and publish_law: "good s \<Longrightarrow> 0 \<le> n \<Longrightarrow> publishes s n s' \<Longrightarrow>
      good s' \<and> usage s' \<le> usage s + n \<and> reserved s' = reserved s \<and> config s' = config s"
    and release_law: "good s \<Longrightarrow> releases s n s' \<Longrightarrow>
      good s' \<and> usage s' = usage s \<and> reserved s' = reserved s - n \<and> config s' = config s"
    and shrink_law: "good s \<Longrightarrow> shrinks s s' \<Longrightarrow>
      good s' \<and> usage s' \<le> usage s \<and> reserved s' = reserved s \<and> config s' = config s"
begin

definition balanced :: "'c \<Rightarrow> 's \<Rightarrow> int multiset \<Rightarrow> int multiset \<Rightarrow> bool" where
  "balanced c s held spent \<longleftrightarrow> good s \<and> config s = c \<and> (\<forall>n\<in>#held + spent. 0 \<le> n \<and> n \<le> limit c) \<and>
     reserved s = sum_mset held + sum_mset spent \<and> usage s + sum_mset held \<le> capacity c"

lemma sum_mset_nonneg: "\<forall>n\<in>#M. 0 \<le> n \<Longrightarrow> 0 \<le> sum_mset (M :: int multiset)"
  by (induction M) auto

lemma balanced_sums:
  assumes "balanced c s held spent"
  shows "0 \<le> sum_mset held" "0 \<le> sum_mset spent"
  using assms by (auto simp: balanced_def intro!: sum_mset_nonneg)

lemma balanced_bound:
  assumes "balanced c s held spent"
  shows "usage s \<le> capacity c" "0 \<le> reserved s"
  using assms balanced_sums [OF assms] by (auto simp: balanced_def)

lemma reserve_balanced:
  assumes "balanced c s held spent" "reserves s n s'"
  shows "balanced c s' (add_mset n held) spent"
  using assms balanced_sums(2) [OF assms(1)] reserve_law [of s n s'] by (auto simp: balanced_def)

lemma publish_balanced:
  assumes "balanced c s (add_mset n held) spent" "publishes s n s'"
  shows "balanced c s' held (add_mset n spent)"
  using assms publish_law [of s n s'] by (auto simp: balanced_def)

lemma release_balanced:
  assumes "balanced c s held (add_mset n spent)" "releases s n s'"
  shows "balanced c s' held spent"
  using assms release_law [of s n s'] by (auto simp: balanced_def)

lemma shrink_balanced:
  assumes "balanced c s held spent" "shrinks s s'"
  shows "balanced c s' held spent"
  using assms shrink_law [of s s'] by (auto simp: balanced_def)

lemma publish_fits:
  assumes "balanced c s (add_mset n held) spent"
  shows "usage s + n \<le> capacity c"
proof -
  have "0 \<le> sum_mset held" using assms by (auto simp: balanced_def intro!: sum_mset_nonneg)
  with assms show ?thesis by (auto simp: balanced_def)
qed

end

section \<open>The Edge store provides the ledger\<close>

definition store_ok :: "Store \<Rightarrow> bool" where
  "store_ok s \<longleftrightarrow> rows_ok (st_Entries s) \<and> pending_ok (st_Pending s) \<and> 0 \<le> st_ProtectedBytes s"

text \<open>The fields that no operation changes, and stores of the same configuration and reservations.\<close>

definition edge_config :: "Store \<Rightarrow> int \<times> int \<times> int \<times> int \<times> int \<times> int \<times> int" where
  "edge_config s = (st_CapacityBytes s, st_MaximumObjectBytes s, st_HighWatermarkBytes s, st_LowWatermarkBytes s,
     st_ProtectedBytes s, st_StableTTL s, st_PendingTTL s)"

definition same_budget :: "Store \<Rightarrow> Store \<Rightarrow> bool" where
  "same_budget s s' \<longleftrightarrow> st_ReservedBytes s' = st_ReservedBytes s \<and> edge_config s' = edge_config s"

lemmas budget_simps = same_budget_def edge_config_def

lemma config_update [simp]:
  "edge_config (s\<lparr>st_ReservedBytes := n\<rparr>) = edge_config s" "edge_config (s\<lparr>st_Closed := b\<rparr>) = edge_config s"
  "edge_config (s\<lparr>st_Entries := es\<rparr>) = edge_config s" "edge_config (s\<lparr>st_Pending := qs\<rparr>) = edge_config s"
  "edge_config (s\<lparr>st_Blobs := bs\<rparr>) = edge_config s"
  by (simp_all add: edge_config_def)

lemma config_fields:
  assumes "edge_config s' = edge_config s"
  shows "st_CapacityBytes s' = st_CapacityBytes s" "st_MaximumObjectBytes s' = st_MaximumObjectBytes s"
    "st_HighWatermarkBytes s' = st_HighWatermarkBytes s" "st_LowWatermarkBytes s' = st_LowWatermarkBytes s"
    "st_ProtectedBytes s' = st_ProtectedBytes s"
  using assms by (simp_all add: edge_config_def)

text \<open>A critical section that uses no reservation, and one that publishes an object of \<open>n\<close> bytes.\<close>

inductive edge_shrinks :: "(string \<Rightarrow> string) \<Rightarrow> Store \<Rightarrow> Store \<Rightarrow> bool" for digest_of where
  hit: "recordHit s e now = Inr s' \<Longrightarrow> edge_shrinks digest_of s s'"
| delete: "deleteEntry s e = s' \<Longrightarrow> edge_shrinks digest_of s s'"
| maintain: "Maintain s now = Inr (s', report) \<Longrightarrow> edge_shrinks digest_of s s'"
| claim: "claimPending digest_of s a now = Inr (s', claimed) \<Longrightarrow> edge_shrinks digest_of s s'"
| finish: "finishReplication s q now outcome = Inr (s', state) \<Longrightarrow> edge_shrinks digest_of s s'"
| close: "edge_shrinks digest_of s (s\<lparr>st_Closed := True\<rparr>)"

inductive edge_publishes :: "(string \<Rightarrow> string) \<Rightarrow> Store \<Rightarrow> int \<Rightarrow> Store \<Rightarrow> bool" for digest_of where
  fetched: "persistFetched digest_of s a key f now = (s', err) \<Longrightarrow> edge_publishes digest_of s (f_size f) s'"
| pending: "put_pending_locked digest_of s a key sz body now = (s', res) \<Longrightarrow> edge_publishes digest_of s sz s'"

definition edge_reserves :: "Store \<Rightarrow> int \<Rightarrow> Store \<Rightarrow> bool" where
  "edge_reserves s n s' \<longleftrightarrow> (\<exists>r. reserve s n = Inr (s', r))"

definition edge_releases :: "Store \<Rightarrow> int \<Rightarrow> Store \<Rightarrow> bool" where
  "edge_releases s n s' \<longleftrightarrow> s' = fst (release s \<lparr>res_bytes = n, res_released = False\<rparr>)"

definition shrunk :: "Store \<Rightarrow> Store \<Rightarrow> bool" where
  "shrunk s s' \<longleftrightarrow> store_ok s' \<and> logicalBytes s' \<le> logicalBytes s \<and> same_budget s s'"

lemma orphan_rows [simp]:
  "st_Entries (fst (deleteOrphanBlobsLocked s)) = st_Entries s"
  "st_Pending (fst (deleteOrphanBlobsLocked s)) = st_Pending s"
  "same_budget s (fst (deleteOrphanBlobsLocked s))"
  by (simp_all add: deleteOrphanBlobsLocked_def Let_def budget_simps)

lemma pending_ok_same:
  "map pending_id qs' = map pending_id qs \<Longrightarrow> map q_SizeBytes qs' = map q_SizeBytes qs \<Longrightarrow> pending_ok qs \<Longrightarrow> pending_ok qs'"
  unfolding pending_ok_def by (metis image_iff list.set_map)

lemma update_pending_same:
  assumes "\<And>q. P q \<Longrightarrow> pending_id (f q) = pending_id q \<and> q_SizeBytes (f q) = q_SizeBytes q"
    and "pending_ok (st_Pending s)"
  shows "pending_ok (st_Pending (update_pending P f s)) \<and>
    pendingBytes (st_Pending (update_pending P f s)) = pendingBytes (st_Pending s)"
proof -
  have ids: "map pending_id (st_Pending (update_pending P f s)) = map pending_id (st_Pending s)"
    and sizes: "map q_SizeBytes (st_Pending (update_pending P f s)) = map q_SizeBytes (st_Pending s)"
    using assms(1) by (simp_all add: update_pending_def)
  from pending_ok_same [OF ids sizes assms(2)] sizes show ?thesis by (simp add: pendingBytes_def)
qed

lemma update_pending_shrunk:
  assumes "\<And>q. P q \<Longrightarrow> pending_id (f q) = pending_id q \<and> q_SizeBytes (f q) = q_SizeBytes q" "store_ok s"
  shows "shrunk s (update_pending P f s)"
proof -
  have "st_Entries (update_pending P f s) = st_Entries s" "same_budget s (update_pending P f s)"
    by (simp_all add: update_pending_def budget_simps)
  with update_pending_same [of P f s] assms show ?thesis
    by (simp add: shrunk_def store_ok_def logicalBytes_def budget_simps)
qed

lemma protected_shrunk:
  assumes "store_ok s" "rows_ok es" "stableBytes es \<le> stableBytes (st_Entries s)"
  shows "shrunk s (s\<lparr>st_Entries := fst (enforceProtectedTargetTx s es)\<rparr>)"
proof -
  have d: "distinct (map entry_id es)" "0 \<le> st_ProtectedBytes s" using assms by (auto simp: rows_ok_def store_ok_def)
  have "rows_ok (fst (enforceProtectedTargetTx s es))"
    by (rule rows_ok_same) (use enforceProtectedTargetTx_rows [OF d] assms(2) in auto)
  moreover have "stableBytes (fst (enforceProtectedTargetTx s es)) = stableBytes es"
    by (rule stableBytes_same) (rule enforceProtectedTargetTx_rows [OF d])
  ultimately show ?thesis using assms by (simp add: shrunk_def store_ok_def logicalBytes_def budget_simps)
qed

lemma recordHit_shrunk:
  assumes "store_ok s" "recordHit s e now = Inr s'"
  shows "shrunk s s'"
proof -
  define hit where "hit = (\<lambda>x. entry_id x = entry_id e \<and> e_BlobDigest x = e_BlobDigest e \<and> e_DecisionDigest x = e_DecisionDigest e)"
  define es where "es = map (\<lambda>x. if hit x then x\<lparr>e_Segment := segmentProtected, e_LastAccessUnixMillis := unix_milli now\<rparr> else x) (st_Entries s)"
  from assms(2) have s': "s' = s\<lparr>st_Entries := fst (enforceProtectedTargetTx s es)\<rparr>"
    unfolding recordHit_def hit_def [symmetric] Let_def es_def [symmetric] by (auto split: if_splits)
  have ids: "map entry_id es = map entry_id (st_Entries s)" by (simp add: es_def entry_id_def)
  have sizes: "map e_SizeBytes es = map e_SizeBytes (st_Entries s)" by (simp add: es_def)
  show ?thesis unfolding s' using assms(1) rows_ok_same [OF ids sizes] stableBytes_same [OF sizes]
    by (intro protected_shrunk) (auto simp: store_ok_def)
qed

lemma deleteEntry_shrunk: "store_ok s \<Longrightarrow> shrunk s (deleteEntry s e)"
  by (auto simp: deleteEntry_def shrunk_def store_ok_def logicalBytes_def budget_simps rows_ok_def
      intro!: stableBytes_filter distinct_map_filter)

lemma Maintain_result:
  assumes "Maintain s now = Inr (s', report)"
  obtains es p q where
    "enforceWatermarksTx s zero_id (filter (\<lambda>e. \<not> e_ExpiresAtUnixMillis e \<le> unix_milli now) (st_Entries s)) = Inr (es, p, q)"
    "s' = fst (deleteOrphanBlobsLocked (s\<lparr>st_Entries := fst (enforceProtectedTargetTx s es),
       st_Pending := filter (\<lambda>q. \<not> q_ExpiresAtUnixMillis q \<le> unix_milli now) (st_Pending s)\<rparr>))"
  using assms unfolding Maintain_def by (auto simp: Let_def split: if_splits sum.splits prod.splits)

lemma Maintain_shrunk:
  assumes "store_ok s" "Maintain s now = Inr (s', report)"
  shows "shrunk s s'"
  using assms(2)
proof (cases rule: Maintain_result)
  case (1 es p q)
  let ?es = "filter (\<lambda>e. \<not> e_ExpiresAtUnixMillis e \<le> unix_milli now) (st_Entries s)"
  have ok: "rows_ok ?es" "stableBytes ?es \<le> stableBytes (st_Entries s)"
    using assms(1) by (auto simp: store_ok_def rows_ok_def intro!: stableBytes_filter distinct_map_filter)
  have pb: "pendingBytes (filter (\<lambda>q. \<not> q_ExpiresAtUnixMillis q \<le> unix_milli now) (st_Pending s)) \<le> pendingBytes (st_Pending s)"
    using assms(1) by (intro pendingBytes_filter) (auto simp: store_ok_def pending_ok_def)
  from enforceWatermarksTx_rows [OF ok(1) 1(1)] ok(2)
  have "shrunk s (s\<lparr>st_Entries := fst (enforceProtectedTargetTx s es)\<rparr>)"
    by (intro protected_shrunk [OF assms(1)]) auto
  with pb assms(1) orphan_rows [of "s\<lparr>st_Entries := fst (enforceProtectedTargetTx s es),
       st_Pending := filter (\<lambda>q. \<not> q_ExpiresAtUnixMillis q \<le> unix_milli now) (st_Pending s)\<rparr>"]
  show ?thesis unfolding 1(2) by (simp add: shrunk_def store_ok_def logicalBytes_def budget_simps)
qed

lemma claimPending_shrunk:
  assumes "store_ok s" "claimPending digest_of s a now = Inr (s', c)"
  shows "shrunk s s'"
proof -
  have same: "shrunk s s" using assms(1) by (simp add: shrunk_def budget_simps)
  have "shrunk s (update_pending (\<lambda>x. pending_id x = pending_id q \<and> q_State x = pendingQueued)
    (\<lambda>x. x\<lparr>q_State := pendingReplicating, q_ReplicationAttempts := n\<rparr>) s)" for q n
    using assms(1) by (intro update_pending_shrunk) (simp_all add: pending_id_def)
  with same assms(2) show ?thesis unfolding claimPending_def
    by (auto simp: Let_def split: if_splits list.splits option.splits)
qed

lemma finishReplication_shrunk:
  assumes "store_ok s" "finishReplication s q now outcome = Inr (s', st)"
  shows "shrunk s s'"
proof -
  obtain state retry err where r: "push_result q now outcome = (state, retry, err)" by (metis prod_cases3)
  have "shrunk s (update_pending (\<lambda>x. pending_id x = pending_id q \<and> q_State x = pendingReplicating \<and>
      q_ReplicationAttempts x = q_ReplicationAttempts q)
    (\<lambda>x. x\<lparr>q_State := state, q_NextRetryUnixMillis := retry, q_LastErrorClass := err\<rparr>) s)"
    using assms(1) by (intro update_pending_shrunk) (simp_all add: pending_id_def)
  with assms(2) r show ?thesis by (auto simp: finishReplication_def Let_def split: if_splits)
qed

text \<open>A publication adds at most the bytes of its object.\<close>

definition grown :: "int \<Rightarrow> Store \<Rightarrow> Store \<Rightarrow> bool" where
  "grown n s s' \<longleftrightarrow> store_ok s' \<and> logicalBytes s' \<le> logicalBytes s + n \<and> same_budget s s'"

lemma shrunk_grown: "shrunk s s' \<Longrightarrow> 0 \<le> n \<Longrightarrow> grown n s s'"
  by (simp add: shrunk_def grown_def)

lemma store_same_grown:
  assumes "grown n s s1" "st_Entries s2 = st_Entries s1" "st_Pending s2 = st_Pending s1" "same_budget s1 s2"
  shows "grown n s s2"
  using assms by (auto simp: grown_def store_ok_def logicalBytes_def budget_simps)

lemma grown_base:
  assumes "grown n s1 s2" "st_Entries s1 = st_Entries s" "st_Pending s1 = st_Pending s" "same_budget s s1"
  shows "grown n s s2"
  using assms by (auto simp: grown_def store_ok_def logicalBytes_def budget_simps)

lemma link_blob_same:
  assumes "link_blob digest_of s content d sz = Some s1"
  shows "st_Entries s1 = st_Entries s" "st_Pending s1 = st_Pending s" "same_budget s s1"
    "st_CapacityBytes s1 = st_CapacityBytes s" "st_Closed s1 = st_Closed s"
  using assms by (auto simp: link_blob_def budget_simps split: option.splits if_splits)

lemma publishEntry_result:
  assumes "publishEntryWithCapacityLocked s e = Inr s'"
  obtains es p q where "logicalBytes s - replaced_bytes e (st_Entries s) + e_SizeBytes e \<le> st_CapacityBytes s"
    "enforceWatermarksTx s (entry_id e) (put_row (e\<lparr>e_Segment := segmentProbation\<rparr>) (st_Entries s)) = Inr (es, p, q)"
    "s' = fst (deleteOrphanBlobsLocked (s\<lparr>st_Entries := fst (enforceProtectedTargetTx s es)\<rparr>))"
  using assms unfolding publishEntryWithCapacityLocked_def
  by (auto split: if_splits sum.splits prod.splits)

lemma segment_irrelevant [simp]:
  "entry_id (e\<lparr>e_Segment := x\<rparr>) = entry_id e" "replaced_bytes (e\<lparr>e_Segment := x\<rparr>) es = replaced_bytes e es"
  by (simp_all add: entry_id_def replaced_bytes_def)

lemma publishEntry_grown:
  assumes "store_ok s" "publishEntryWithCapacityLocked s e = Inr s'" "0 \<le> e_SizeBytes e"
  shows "grown (e_SizeBytes e) s s'"
  using assms(2)
proof (cases rule: publishEntry_result)
  case (1 es p q)
  let ?es = "put_row (e\<lparr>e_Segment := segmentProbation\<rparr>) (st_Entries s)"
  have ok: "rows_ok (st_Entries s)" "distinct (map entry_id (st_Entries s))" "0 \<le> st_ProtectedBytes s"
    using assms(1) by (auto simp: store_ok_def rows_ok_def)
  have put: "rows_ok ?es" using ok(1) assms(3) by (intro put_row_ok) simp_all
  have bytes: "stableBytes ?es \<le> stableBytes (st_Entries s) + e_SizeBytes e"
    using put_row_bytes [OF ok(1), of "e\<lparr>e_Segment := segmentProbation\<rparr>"] replaced_nonneg [OF ok(1), of e] by simp
  note rows = enforceWatermarksTx_rows [OF put 1(2)]
  have d: "distinct (map entry_id es)" using rows(1) by (simp add: rows_ok_def)
  have "rows_ok (fst (enforceProtectedTargetTx s es))"
    by (rule rows_ok_same) (use enforceProtectedTargetTx_rows [OF d ok(3)] rows(1) in auto)
  moreover have "stableBytes (fst (enforceProtectedTargetTx s es)) = stableBytes es"
    by (rule stableBytes_same) (rule enforceProtectedTargetTx_rows [OF d ok(3)])
  ultimately have "grown (e_SizeBytes e) s (s\<lparr>st_Entries := fst (enforceProtectedTargetTx s es)\<rparr>)"
    using assms(1) bytes rows(2) by (simp add: grown_def store_ok_def logicalBytes_def budget_simps)
  then show ?thesis unfolding 1(3) by (rule store_same_grown) simp_all
qed

lemma store_self_grown: "store_ok s \<Longrightarrow> 0 \<le> n \<Longrightarrow> grown n s s"
  by (simp add: grown_def budget_simps)

definition spooled :: "Store \<Rightarrow> string \<Rightarrow> string" where
  "spooled s body = take (nat (min (int (length body)) (st_MaximumObjectBytes s + 1))) body"

lemma length_spooled: "-1 \<le> st_MaximumObjectBytes s \<Longrightarrow>
    int (length (spooled s body)) = min (int (length body)) (st_MaximumObjectBytes s + 1)"
  by (simp add: spooled_def)

definition fetched_valid :: "Store \<Rightarrow> ReadAuthority \<Rightarrow> fetchedObject \<Rightarrow> int \<Rightarrow> bool" where
  "fetched_valid s a f now \<longleftrightarrow> 0 \<le> f_size f \<and> f_size f \<le> st_MaximumObjectBytes s \<and> validDigest (f_digest f) \<and>
     validDigest (f_decisionDigest f) \<and> read_current a now \<and> \<not> st_Closed s \<and>
     min (int (length (f_body f))) (st_MaximumObjectBytes s + 1) = f_size f"

lemma persistFetched_simps:
  "\<not> (fetched_valid s a f now \<and> digest_of (spooled s (f_body f)) = f_digest f) \<Longrightarrow>
     \<exists>m. persistFetched digest_of s a key f now = (s, Some m)"
  "fetched_valid s a f now \<Longrightarrow> digest_of (spooled s (f_body f)) = f_digest f \<Longrightarrow>
     persistFetched digest_of s a key f now =
       (case link_blob digest_of s (spooled s (f_body f)) (f_digest f) (f_size f) of
          None \<Rightarrow> (s, Some ''Edge blob mismatch'')
        | Some s1 \<Rightarrow> (case publishEntryWithCapacityLocked s1 (fetched_entry s a key f now) of
             Inl err \<Rightarrow> (s1, Some err) | Inr s2 \<Rightarrow> (s2, None)))"
  unfolding persistFetched_def Let_def spooled_def [symmetric] fetched_valid_def
  by (auto simp: not_less)

lemma persistFetched_cases:
  assumes "persistFetched digest_of s a key f now = (s', err)"
  obtains (unchanged) "s' = s" "err \<noteq> None"
  | (linked) s1 where "link_blob digest_of s (spooled s (f_body f)) (f_digest f) (f_size f) = Some s1" "s' = s1" "err \<noteq> None"
  | (published) s1 where "link_blob digest_of s (spooled s (f_body f)) (f_digest f) (f_size f) = Some s1"
      "publishEntryWithCapacityLocked s1 (fetched_entry s a key f now) = Inr s'" "err = None"
      "fetched_valid s a f now" "digest_of (spooled s (f_body f)) = f_digest f"
proof (cases "fetched_valid s a f now \<and> digest_of (spooled s (f_body f)) = f_digest f")
  case False
  then show ?thesis using persistFetched_simps(1) [of s a f now digest_of key] assms unchanged by auto
next
  case True
  note eq = persistFetched_simps(2) [of s a f now digest_of key]
  show ?thesis
  proof (cases "link_blob digest_of s (spooled s (f_body f)) (f_digest f) (f_size f)")
    case None
    then show ?thesis using True eq assms by (intro unchanged) auto
  next
    case (Some s1)
    show ?thesis
    proof (cases "publishEntryWithCapacityLocked s1 (fetched_entry s a key f now)")
      case (Inl m)
      then show ?thesis using True eq assms Some by (intro linked) auto
    next
      case (Inr s2)
      then show ?thesis using True eq assms Some by (intro published) auto
    qed
  qed
qed

lemma persistFetched_grown:
  assumes "store_ok s" "persistFetched digest_of s a key f now = (s', err)" "0 \<le> f_size f"
  shows "grown (f_size f) s s'"
proof -
  have "grown (f_size f) s x" if l: "link_blob digest_of s c (f_digest f) (f_size f) = Some s1"
      and x: "x = s1 \<or> publishEntryWithCapacityLocked s1 (fetched_entry s a key f now) = Inr x" for s1 c x
  proof -
    note same = link_blob_same [OF l]
    have ok1: "store_ok s1" using assms(1) same by (simp add: store_ok_def budget_simps)
    have "grown (f_size f) s1 x"
      using x store_self_grown [OF ok1 assms(3)] publishEntry_grown [OF ok1, of "fetched_entry s a key f now" x] assms(3)
      by (auto simp: fetched_entry_def)
    then show ?thesis by (rule grown_base [OF _ same(1-3)])
  qed
  with assms(2) store_self_grown [OF assms(1,3)] show ?thesis by (cases rule: persistFetched_cases) auto
qed

lemma publishPending_grown:
  assumes "store_ok s" "publishPendingLocked s q = Inr (s', added)" "0 \<le> q_SizeBytes q"
  shows "grown (q_SizeBytes q) s s'"
proof (cases "find (\<lambda>x. pending_id x = pending_id q) (st_Pending s)")
  case None
  then have new: "\<forall>x\<in>set (st_Pending s). pending_id x \<noteq> pending_id q" by (simp add: find_None_iff)
  let ?q = "q\<lparr>q_State := pendingQueued, q_ReplicationAttempts := 0, q_NextRetryUnixMillis := 0, q_LastErrorClass := []\<rparr>"
  have "pending_id ?q = pending_id q" by (simp add: pending_id_def)
  with new assms(1,3) have "pending_ok (st_Pending s @ [?q])" by (auto simp: store_ok_def pending_ok_def)
  with None assms show ?thesis
    by (auto simp: publishPendingLocked_def grown_def store_ok_def logicalBytes_def budget_simps split: if_splits)
next
  case (Some x)
  with assms(2) have "s' = s" by (auto simp: publishPendingLocked_def split: if_splits)
  with assms show ?thesis by (simp add: store_self_grown)
qed

lemma put_pending_cases:
  assumes "put_pending_locked digest_of s a key sz body now = (s', res)"
  obtains (unchanged) m where "s' = s" "res = Inl m"
  | (failed) s1 m where "link_blob digest_of s (spooled s body) (digest_of (spooled s body)) sz = Some s1"
      "publishPendingLocked s1 (new_pending s a key (digest_of (spooled s body)) sz now) = Inl m"
      "s' = fst (deleteOrphanBlobsLocked s1)" "res = Inl m"
  | (published) s1 added where "link_blob digest_of s (spooled s body) (digest_of (spooled s body)) sz = Some s1"
      "publishPendingLocked s1 (new_pending s a key (digest_of (spooled s body)) sz now) = Inr (s', added)"
      "res = Inr \<lparr>pw_Digest = digest_of (spooled s body), pw_Size = sz, pw_Added = added\<rparr>"
      "\<not> st_Closed s" "min (int (length body)) (st_MaximumObjectBytes s + 1) = sz" "sz \<le> st_MaximumObjectBytes s"
proof (cases "\<not> st_Closed s \<and> min (int (length body)) (st_MaximumObjectBytes s + 1) = sz \<and> sz \<le> st_MaximumObjectBytes s")
  case False
  then have "\<exists>m. put_pending_locked digest_of s a key sz body now = (s, Inl m)"
    unfolding put_pending_locked_def Let_def by (auto simp: not_less)
  with assms unchanged show ?thesis by auto
next
  case True
  then have eq: "put_pending_locked digest_of s a key sz body now =
    (case link_blob digest_of s (spooled s body) (digest_of (spooled s body)) sz of
       None \<Rightarrow> (s, Inl ''Edge blob mismatch'')
     | Some s1 \<Rightarrow> (case publishPendingLocked s1 (new_pending s a key (digest_of (spooled s body)) sz now) of
         Inl err \<Rightarrow> (fst (deleteOrphanBlobsLocked s1), Inl err)
       | Inr (s2, added) \<Rightarrow> (s2, Inr \<lparr>pw_Digest = digest_of (spooled s body), pw_Size = sz, pw_Added = added\<rparr>)))"
    unfolding put_pending_locked_def Let_def spooled_def [symmetric] by auto
  show ?thesis
  proof (cases "link_blob digest_of s (spooled s body) (digest_of (spooled s body)) sz")
    case None
    then show ?thesis using eq assms by (intro unchanged) auto
  next
    case (Some s1)
    show ?thesis
    proof (cases "publishPendingLocked s1 (new_pending s a key (digest_of (spooled s body)) sz now)")
      case (Inl m)
      then show ?thesis using eq assms Some by (intro failed) auto
    next
      case (Inr r)
      obtain s2 added where r: "r = (s2, added)" by (cases r)
      with Inr show ?thesis using eq assms Some True by (intro published) auto
    qed
  qed
qed

lemma put_pending_grown:
  assumes "store_ok s" "put_pending_locked digest_of s a key sz body now = (s', res)" "0 \<le> sz"
  shows "grown sz s s'"
proof -
  have via: "grown sz s x" if l: "link_blob digest_of s c d sz = Some s1"
    and x: "x = fst (deleteOrphanBlobsLocked s1) \<or> publishPendingLocked s1 (new_pending s a key d sz now) = Inr (x, added)"
    for s1 c d x added
  proof -
    note same = link_blob_same [OF l]
    have ok1: "store_ok s1" using assms(1) same by (simp add: store_ok_def budget_simps)
    have "q_SizeBytes (new_pending s a key d sz now) = sz" by (simp add: new_pending_def)
    with x publishPending_grown [OF ok1, of "new_pending s a key d sz now" x]
      store_same_grown [OF store_self_grown [OF ok1 assms(3)]] assms(3)
    have "grown sz s1 x" by auto
    then show ?thesis by (rule grown_base [OF _ same(1-3)])
  qed
  from assms(2) show ?thesis
  proof (cases rule: put_pending_cases)
    case unchanged
    then show ?thesis using store_self_grown [OF assms(1,3)] by simp
  next
    case (failed s1 m)
    then show ?thesis using via [OF failed(1)] by blast
  next
    case (published s1 added)
    then show ?thesis using via [OF published(1)] by blast
  qed
qed

interpretation ledger: byte_ledger logicalBytes st_ReservedBytes edge_config fst "\<lambda>c. fst (snd c)" store_ok
  edge_reserves "edge_publishes digest_of" edge_releases "edge_shrinks digest_of" for digest_of
proof
  fix s s' :: Store and n
  show "store_ok s' \<and> 0 \<le> n \<and> n \<le> fst (snd (edge_config s)) \<and> logicalBytes s' = logicalBytes s \<and>
      st_ReservedBytes s' = st_ReservedBytes s + n \<and> edge_config s' = edge_config s \<and>
      logicalBytes s + st_ReservedBytes s + n \<le> fst (edge_config s)"
    if "store_ok s" "edge_reserves s n s'"
    using that by (auto simp: edge_reserves_def reserve_def store_ok_def logicalBytes_def edge_config_def split: if_splits)
  show "store_ok s' \<and> logicalBytes s' \<le> logicalBytes s + n \<and> st_ReservedBytes s' = st_ReservedBytes s \<and>
      edge_config s' = edge_config s"
    if "store_ok s" "0 \<le> n" "edge_publishes digest_of s n s'"
    using that(3,1,2) by cases (auto simp: grown_def same_budget_def dest: persistFetched_grown put_pending_grown)
  show "store_ok s' \<and> logicalBytes s' = logicalBytes s \<and> st_ReservedBytes s' = st_ReservedBytes s - n \<and>
      edge_config s' = edge_config s"
    if "store_ok s" "edge_releases s n s'"
    using that by (auto simp: edge_releases_def release_def store_ok_def logicalBytes_def)
  show "store_ok s' \<and> logicalBytes s' \<le> logicalBytes s \<and> st_ReservedBytes s' = st_ReservedBytes s \<and>
      edge_config s' = edge_config s"
    if "store_ok s" "edge_shrinks digest_of s s'"
  proof -
    have "shrunk s s'" using that(2,1)
    proof cases
      case close
      with that(1) show ?thesis by (simp add: shrunk_def store_ok_def logicalBytes_def same_budget_def)
    qed (auto dest: recordHit_shrunk Maintain_shrunk claimPending_shrunk finishReplication_shrunk intro: deleteEntry_shrunk)
    then show ?thesis by (simp add: shrunk_def same_budget_def)
  qed
qed

section \<open>Interleavings\<close>

type_synonym edge_state = "Store \<times> int multiset \<times> int multiset"

inductive edge_step :: "(string \<Rightarrow> string) \<Rightarrow> edge_state \<Rightarrow> edge_state \<Rightarrow> bool" for digest_of where
  reserve_step: "edge_reserves s n s' \<Longrightarrow> edge_step digest_of (s, held, spent) (s', add_mset n held, spent)"
| publish_step: "edge_publishes digest_of s n s' \<Longrightarrow>
    edge_step digest_of (s, add_mset n held, spent) (s', held, add_mset n spent)"
| release_step: "edge_releases s n s' \<Longrightarrow> edge_step digest_of (s, held, add_mset n spent) (s', held, spent)"
| shrink_step: "edge_shrinks digest_of s s' \<Longrightarrow> edge_step digest_of (s, held, spent) (s', held, spent)"

inductive edge_reachable :: "(string \<Rightarrow> string) \<Rightarrow> Store \<Rightarrow> edge_state \<Rightarrow> bool" for digest_of s0 where
  opened: "edge_reachable digest_of s0 (s0, {#}, {#})"
| step: "edge_reachable digest_of s0 c \<Longrightarrow> edge_step digest_of c c' \<Longrightarrow> edge_reachable digest_of s0 c'"

inductive_cases edge_stepE: "edge_step digest_of (s, held, spent) c'"

lemma OpenStore_ok:
  assumes "OpenStore g es qs blobs = Inr s" "rows_ok es" "pending_ok qs"
  shows "store_ok s" "st_ReservedBytes s = 0" "st_CapacityBytes s = sg_CapacityBytes g" "logicalBytes s = stableBytes es + pendingBytes qs"
proof -
  define s0 where "s0 = \<lparr>st_StableTTL = sg_StableTTLSeconds g * second, st_PendingTTL = sg_PendingTTLSeconds g * second,
         st_MaximumObjectBytes = sg_MaximumObjectBytes g, st_CapacityBytes = sg_CapacityBytes g,
         st_HighWatermarkBytes = percentage (sg_CapacityBytes g) HighWatermarkPercent,
         st_LowWatermarkBytes = percentage (sg_CapacityBytes g) LowWatermarkPercent,
         st_ProtectedBytes = percentage (sg_CapacityBytes g) ProtectedPercent,
         st_ReservedBytes = 0, st_Closed = False, st_Entries = es, st_Pending = qs, st_Blobs = blobs\<rparr>"
  have s: "s = recover_pending s0" and v: "storage_valid g"
    using assms(1) by (auto simp: OpenStore_def s0_def split: if_splits)
  have "pending_ok (st_Pending s) \<and> pendingBytes (st_Pending s) = pendingBytes qs"
    using update_pending_same [of _ _ s0] assms(3) unfolding s recover_pending_def by (auto simp: s0_def pending_id_def)
  moreover have "st_Entries s = es" "st_ReservedBytes s = 0" "st_CapacityBytes s = sg_CapacityBytes g"
    "st_ProtectedBytes s = percentage (sg_CapacityBytes g) ProtectedPercent"
    by (simp_all add: s recover_pending_def update_pending_def s0_def)
  moreover have "0 \<le> percentage (sg_CapacityBytes g) ProtectedPercent"
    using v by (auto simp: storage_valid_def percentage_def ProtectedPercent_def MinimumCapacityBytes_def intro!: pos_imp_zdiv_nonneg_iff [THEN iffD2])
  ultimately show "store_ok s" "st_ReservedBytes s = 0" "st_CapacityBytes s = sg_CapacityBytes g"
    "logicalBytes s = stableBytes es + pendingBytes qs" using assms(2) by (simp_all add: store_ok_def logicalBytes_def)
qed

lemma edge_step_balanced:
  assumes "edge_step digest_of (s, held, spent) (s', held', spent')" "ledger.balanced c s held spent"
  shows "ledger.balanced c s' held' spent'"
  using assms(1)
proof cases
  case (reserve_step n)
  then show ?thesis using assms(2) ledger.reserve_balanced by blast
next
  case (publish_step n)
  then show ?thesis using assms(2) ledger.publish_balanced by blast
next
  case (release_step n)
  then show ?thesis using assms(2) ledger.release_balanced by blast
next
  case shrink_step
  then show ?thesis using assms(2) ledger.shrink_balanced by blast
qed

lemma reachable_balanced:
  assumes "edge_reachable digest_of s0 c" "ledger.balanced (edge_config s0) s0 {#} {#}"
  shows "ledger.balanced (edge_config s0) (fst c) (fst (snd c)) (snd (snd c))"
  using assms
proof induction
  case (step c c')
  then show ?case
    using edge_step_balanced [of digest_of "fst c" "fst (snd c)" "snd (snd c)" "fst c'" "fst (snd c')" "snd (snd c')"] by simp
qed simp

end
