(* ===== verification/EdgeProps.thy ===== *)
theory EdgeProps
  imports EdgeLedger
begin

text \<open>
  The properties of the Edge cache: its byte budget under every interleaving, eviction, integrity and
  isolation of what it serves, and the life of a pending object.
\<close>

section \<open>Publication under a reservation\<close>


lemma eviction_candidates_rows:
  assumes "rows_ok es"
  shows "set (eviction_candidates excluded es) = {e \<in> set es. entry_id e \<noteq> excluded}"
    and "distinct (map entry_id (eviction_candidates excluded es))"
  using assms by (auto simp: eviction_candidates_def rows_ok_def distinct_map intro: inj_on_subset)



lemma OpenStore_fields:
  assumes "OpenStore g es qs blobs = Inr s"
  shows "st_LowWatermarkBytes s = sg_CapacityBytes g * 75 div 100" "st_MaximumObjectBytes s = sg_MaximumObjectBytes g"
    "sg_MaximumObjectBytes g \<le> sg_CapacityBytes g * 75 div 100" "0 \<le> sg_CapacityBytes g * 75 div 100"
    "st_HighWatermarkBytes s = sg_CapacityBytes g * 85 div 100" "st_CapacityBytes s = sg_CapacityBytes g"
proof -
  from assms have v: "storage_valid g"
    by (auto simp: OpenStore_def split: if_splits)
  then have c: "1073741824 \<le> sg_CapacityBytes g" "sg_MaximumObjectBytes g \<le> 104857600"
    by (auto simp: storage_valid_def MinimumCapacityBytes_def MaximumObjectBytes_def)
  from assms v show "st_LowWatermarkBytes s = sg_CapacityBytes g * 75 div 100" "st_MaximumObjectBytes s = sg_MaximumObjectBytes g"
    "st_HighWatermarkBytes s = sg_CapacityBytes g * 85 div 100" "st_CapacityBytes s = sg_CapacityBytes g"
    by (auto simp: OpenStore_def recover_pending_def update_pending_def percentage_def LowWatermarkPercent_def HighWatermarkPercent_def)
  have "104857600 \<le> sg_CapacityBytes g * 75 div 100" using c(1) by linarith
  with c show "sg_MaximumObjectBytes g \<le> sg_CapacityBytes g * 75 div 100" "0 \<le> sg_CapacityBytes g * 75 div 100" by auto
qed

lemma reachable_ledger:
  assumes "OpenStore g es qs blobs = Inr s0" "rows_ok es" "pending_ok qs"
    and "stableBytes es + pendingBytes qs \<le> sg_CapacityBytes g" "edge_reachable digest_of s0 (s, held, spent)"
  shows "ledger.balanced (edge_config s0) s held spent"
proof -
  have "ledger.balanced (edge_config s0) s0 {#} {#}"
    using OpenStore_ok [OF assms(1-3)] assms(4) by (simp add: ledger.balanced_def) (simp add: edge_config_def)
  from reachable_balanced [OF assms(5) this] show ?thesis by simp
qed

text \<open>
  (C11) The byte budget of the Edge cache holds under every interleaving of its clients. Start from a
  store opened over tables that fit the configured capacity, and let any number of readers, writers,
  the maintenance loop and the replicator run their critical sections in any order: the committed and
  pending bytes together with the bytes still promised to reservations never exceed the capacity, the
  reserved counter is exactly the sum of the outstanding reservations, and the primary keys stay unique.
\<close>

theorem edge_capacity_invariant:
  assumes "OpenStore g es qs blobs = Inr s0" "rows_ok es" "pending_ok qs"
    and "stableBytes es + pendingBytes qs \<le> sg_CapacityBytes g" "edge_reachable digest_of s0 (s, held, spent)"
  shows "logicalBytes s + sum_mset held \<le> sg_CapacityBytes g \<and>
    st_ReservedBytes s = sum_mset held + sum_mset spent \<and> 0 \<le> sum_mset held \<and> 0 \<le> sum_mset spent \<and>
    rows_ok (st_Entries s) \<and> pending_ok (st_Pending s)"
proof -
  note b = reachable_ledger [OF assms]
  have "st_CapacityBytes s0 = sg_CapacityBytes g" using OpenStore_fields(6) [OF assms(1)] .
  with b ledger.balanced_sums [OF b] show ?thesis by (simp add: ledger.balanced_def store_ok_def) (simp add: edge_config_def)
qed

definition ex_storage :: Storage where
  "ex_storage = \<lparr>sg_StateDirectory = ''/var/edge'', sg_FilesystemPolicy = FilesystemPolicy,
     sg_CapacityBytes = MinimumCapacityBytes, sg_MaximumObjectBytes = 1000, sg_StableTTLSeconds = 60,
     sg_PendingTTLSeconds = 60, sg_HighWatermarkPercent = 85, sg_LowWatermarkPercent = 75, sg_ProtectedPercent = 80\<rparr>"

definition ex_store :: Store where
  "ex_store = \<lparr>st_StableTTL = 60000000000, st_PendingTTL = 60000000000, st_MaximumObjectBytes = 1000,
     st_CapacityBytes = 1073741824, st_HighWatermarkBytes = 912680550, st_LowWatermarkBytes = 805306368,
     st_ProtectedBytes = 858993459, st_ReservedBytes = 0, st_Closed = False, st_Entries = [], st_Pending = [], st_Blobs = []\<rparr>"

lemma ex_open: "OpenStore ex_storage [] [] [] = Inr ex_store"
  by code_simp

lemma ex_reserve: "edge_reserves ex_store 7 (ex_store\<lparr>st_ReservedBytes := 7\<rparr>)"
  by (simp add: edge_reserves_def reserve_def ex_store_def logicalBytes_def)

lemma ex_reachable: "edge_reachable digest_of ex_store (ex_store\<lparr>st_ReservedBytes := 7\<rparr>, {#7#}, {#})"
  by (rule edge_reachable.step [OF edge_reachable.opened]) (rule edge_step.reserve_step [OF ex_reserve])

theorem edge_capacity_invariant_witness:
  "logicalBytes (ex_store\<lparr>st_ReservedBytes := 7\<rparr>) + 7 \<le> MinimumCapacityBytes \<and> st_ReservedBytes (ex_store\<lparr>st_ReservedBytes := 7\<rparr>) = 7"
  using edge_capacity_invariant [OF ex_open _ _ _ ex_reachable]
  by (simp add: rows_ok_def pending_ok_def ex_storage_def MinimumCapacityBytes_def)






definition ex_entry :: "string \<Rightarrow> int \<Rightarrow> int \<Rightarrow> string \<Rightarrow> storedEntry" where
  "ex_entry key sz access segment = \<lparr>e_SchemaVersion = edgeEntrySchema, e_Tenant = ''t'', e_Repository = ''r'', e_TrustDomain = ''d'',
     e_Namespace = ''n'', e_NamespaceGeneration = 1, e_Key = key, e_BlobDigest = ''b'', e_SizeBytes = sz,
     e_DecisionDigest = ''c'', e_AuthorityDigest = ''a'', e_RevocationEpoch = 1, e_RevocationDigest = ''v'',
     e_L1SecurityGeneration = 1, e_CachedAtUnixMillis = 1, e_ExpiresAtUnixMillis = 100, e_Segment = segment,
     e_LastAccessUnixMillis = access\<rparr>"



section \<open>Eviction\<close>

text \<open>
  (C35) Watermark eviction is exact segmented LRU. Below the high watermark nothing is evicted. Otherwise
  the rows deleted are a prefix of the rows in eviction order (probation before protected, then least
  recently used, then larger), the shortest prefix that brings the committed bytes to the low watermark;
  every other row is untouched and the row being published is never deleted.
\<close>

theorem eviction_is_minimal_slru_prefix:
  assumes "rows_ok es" "enforceWatermarksTx s excluded es = Inr (es', p, q)" "st_HighWatermarkBytes s \<le> stableBytes es"
  shows "\<exists>cs k. set cs = {e \<in> set es. entry_id e \<noteq> excluded} \<and> distinct cs \<and> sorted (map eviction_order cs) \<and> k \<le> length cs \<and>
    es' = filter (\<lambda>e. e \<notin> set (take k cs)) es \<and> stableBytes es' \<le> st_LowWatermarkBytes s \<and>
    (\<forall>j<k. st_LowWatermarkBytes s < stableBytes (filter (\<lambda>e. e \<notin> set (take j cs)) es))"
proof -
  let ?cs = "eviction_candidates excluded es"
  note rows = eviction_candidates_rows [OF assms(1), of excluded]
  have ev: "evicted_to ?cs es j = filter (\<lambda>e. e \<notin> set (take j ?cs)) es" for j
  proof -
    have "entry_id e \<in> entry_id ` set (take j ?cs) \<longleftrightarrow> e \<in> set (take j ?cs)" if "e \<in> set es" for e
    proof
      assume "entry_id e \<in> entry_id ` set (take j ?cs)"
      then obtain c where c: "c \<in> set (take j ?cs)" "entry_id c = entry_id e" by auto
      then have "c \<in> set es" using rows(1) by (auto dest: in_set_takeD)
      then have "c = e" using assms(1) that c(2) by (auto simp: rows_ok_def distinct_map dest: inj_onD)
      with c show "e \<in> set (take j ?cs)" by simp
    qed simp
    then show ?thesis unfolding evicted_to_def by (intro filter_cong) auto
  qed
  have "sorted (map eviction_order ?cs)" "distinct ?cs"
    using rows(2) by (simp_all add: eviction_candidates_def distinct_map)
  moreover obtain k where "k \<le> length ?cs" "es' = evicted_to ?cs es k" "stableBytes es' \<le> st_LowWatermarkBytes s"
    "\<forall>j<k. st_LowWatermarkBytes s < stableBytes (evicted_to ?cs es j)"
    using enforceWatermarksTx_Inr [OF assms(1,2)] assms(3) by auto
  ultimately show ?thesis using rows(1) unfolding ev by blast
qed

definition ex_full :: Store where
  "ex_full = ex_store\<lparr>st_HighWatermarkBytes := 20, st_LowWatermarkBytes := 12\<rparr>"

definition ex_rows :: "storedEntry list" where
  "ex_rows = [ex_entry ''a'' 6 9 segmentProtected, ex_entry ''b'' 8 5 segmentProbation, ex_entry ''c'' 4 3 segmentProbation,
     ex_entry ''d'' 5 1 segmentProtected]"

lemma ex_evict: "enforceWatermarksTx ex_full zero_id ex_rows =
    Inr ([ex_entry ''a'' 6 9 segmentProtected, ex_entry ''d'' 5 1 segmentProtected], 2, 0)"
  by code_simp

theorem eviction_is_minimal_slru_prefix_witness:
  "\<exists>cs k. set cs = {e \<in> set ex_rows. entry_id e \<noteq> zero_id} \<and> k \<le> length cs \<and>
     [ex_entry ''a'' 6 9 segmentProtected, ex_entry ''d'' 5 1 segmentProtected] = filter (\<lambda>e. e \<notin> set (take k cs)) ex_rows"
proof -
  have "rows_ok ex_rows" "st_HighWatermarkBytes ex_full \<le> stableBytes ex_rows" by code_simp+
  from eviction_is_minimal_slru_prefix [OF this(1) ex_evict this(2)] show ?thesis by blast
qed

end
