(* ===== verification/EdgeServe.thy ===== *)
theory EdgeServe
  imports EdgeProps
begin

text \<open>What the Edge cache serves: integrity, authority and expiry of committed reads, isolation of pending reads.\<close>

section \<open>Committed reads\<close>

text \<open>The row and bytes that \<open>OpenCommitted\<close> may serve, written as one condition.\<close>

definition servable :: "(string \<Rightarrow> string) \<Rightarrow> Store \<Rightarrow> ReadAuthority \<Rightarrow> string \<Rightarrow> int \<Rightarrow> storedEntry \<Rightarrow> string \<Rightarrow> bool" where
  "servable digest_of s a key now e content \<longleftrightarrow> validCacheKey key \<and> read_current a now \<and> \<not> st_Closed s \<and>
     loadEntry s a key = Some e \<and> read_matches a e \<and> e_SchemaVersion e = edgeEntrySchema \<and>
     unix_milli now < e_ExpiresAtUnixMillis e \<and> validDigest (e_BlobDigest e) \<and> validDigest (e_DecisionDigest e) \<and>
     0 \<le> e_SizeBytes e \<and> e_SizeBytes e \<le> st_MaximumObjectBytes s \<and>
     map_of (st_Blobs s) (e_BlobDigest e) = Some content \<and> int (length content) = e_SizeBytes e \<and>
     digest_of content = e_BlobDigest e"

definition entry_usable :: "Store \<Rightarrow> ReadAuthority \<Rightarrow> int \<Rightarrow> storedEntry \<Rightarrow> bool" where
  "entry_usable s a now e \<longleftrightarrow> read_matches a e \<and> e_SchemaVersion e = edgeEntrySchema \<and>
     unix_milli now < e_ExpiresAtUnixMillis e \<and> validDigest (e_BlobDigest e) \<and> validDigest (e_DecisionDigest e) \<and>
     0 \<le> e_SizeBytes e \<and> e_SizeBytes e \<le> st_MaximumObjectBytes s"

lemma OpenCommitted_unfold:
  "OpenCommitted digest_of s a key now =
     (if \<not> validCacheKey key \<or> \<not> read_current a now then (s, Inl ErrCacheMiss)
      else if st_Closed s then (s, Inl store_closed)
      else case loadEntry s a key of
        None \<Rightarrow> (s, Inl ErrCacheMiss)
      | Some e \<Rightarrow>
          if \<not> entry_usable s a now e then (s, Inl ErrCacheMiss)
          else case map_of (st_Blobs s) (e_BlobDigest e) of
            None \<Rightarrow> (deleteEntry s e, Inl ErrCacheMiss)
          | Some content \<Rightarrow>
              if \<not> verifyOpenBlob digest_of content (e_BlobDigest e) (e_SizeBytes e)
              then (deleteEntry s e, Inl ErrCacheMiss)
              else (case recordHit s e now of
                      Inl err \<Rightarrow> (s, Inl err)
                    | Inr s' \<Rightarrow> (s', Inr content)))"
  unfolding OpenCommitted_def entry_usable_def by (simp add: not_less not_le split: option.splits)

lemma servable_unfold:
  "servable digest_of s a key now e content \<longleftrightarrow> validCacheKey key \<and> read_current a now \<and> \<not> st_Closed s \<and>
     loadEntry s a key = Some e \<and> entry_usable s a now e \<and> map_of (st_Blobs s) (e_BlobDigest e) = Some content \<and>
     verifyOpenBlob digest_of content (e_BlobDigest e) (e_SizeBytes e)"
  by (auto simp: servable_def entry_usable_def verifyOpenBlob_def)

lemma OpenCommitted_Inr:
  "OpenCommitted digest_of s a key now = (s', Inr content) \<longleftrightarrow>
     (\<exists>e. servable digest_of s a key now e content \<and> recordHit s e now = Inr s')"
  unfolding OpenCommitted_unfold servable_unfold by (auto split: option.splits sum.splits)

lemma OpenCommitted_Inl:
  assumes "OpenCommitted digest_of s a key now = (s', Inl err)"
  shows "s' = s \<or> (\<exists>e. loadEntry s a key = Some e \<and> s' = deleteEntry s e)"
  using assms unfolding OpenCommitted_unfold by (auto split: option.splits sum.splits if_splits)

lemma loadEntry_Some:
  assumes "loadEntry s a key = Some e"
  shows "e \<in> set (st_Entries s)"
    "entry_id e = (ra_tenant a, ra_repository a, ra_trustDomain a, ra_namespace a, ra_namespaceGeneration a, key)"
  using assms by (auto simp: loadEntry_def find_Some_iff)

lemma entry_id_key: "entry_id e = (t, r, d, n, g, k) \<Longrightarrow> e_Key e = k"
  by (simp add: entry_id_def)

text \<open>A hit changes the segment and the time of access of rows, nothing else.\<close>

definition same_payload :: "storedEntry \<Rightarrow> storedEntry \<Rightarrow> bool" where
  "same_payload e e' \<longleftrightarrow> (\<exists>seg t. e' = e\<lparr>e_Segment := seg, e_LastAccessUnixMillis := t\<rparr>)"

lemma same_payload_refl [simp, intro]: "same_payload e e"
  unfolding same_payload_def by (rule exI [of _ "e_Segment e"], rule exI [of _ "e_LastAccessUnixMillis e"]) simp

lemma same_payload_trans: "same_payload e e' \<Longrightarrow> same_payload e' e'' \<Longrightarrow> same_payload e e''"
  unfolding same_payload_def by (elim exE) (simp, blast)

lemma payload_list_trans:
  "list_all2 same_payload es fs \<Longrightarrow> list_all2 same_payload fs gs \<Longrightarrow> list_all2 same_payload es gs"
  by (rule list_all2_trans [of same_payload same_payload same_payload]) (rule same_payload_trans)

lemma same_payload_fields:
  assumes "same_payload e e'"
  shows "entry_id e' = entry_id e" "e_BlobDigest e' = e_BlobDigest e" "e_DecisionDigest e' = e_DecisionDigest e"
    "e_SizeBytes e' = e_SizeBytes e" "entry_usable s a now e' = entry_usable s a now e"
  using assms by (auto simp: same_payload_def entry_id_def entry_usable_def read_matches_def)

lemma demote_loop_payload: "list_all2 same_payload es (fst (demote_loop target cs protected d es))"
proof (induction cs arbitrary: protected d es)
  case Nil
  then show ?case by (simp add: list_all2_same)
next
  case (Cons c cs)
  let ?f = "\<lambda>e. if entry_id e = entry_id c \<and> e_Segment e = segmentProtected then e\<lparr>e_Segment := segmentProbation\<rparr> else e"
  have "same_payload e (?f e)" for e
    unfolding same_payload_def by (rule exI [of _ "e_Segment (?f e)"], rule exI [of _ "e_LastAccessUnixMillis e"]) simp
  then have "list_all2 same_payload es (map ?f es)" by (simp add: list_all2_conv_all_nth)
  then have "list_all2 same_payload es (fst (demote_loop target cs p k (map ?f es)))" for p k
    using Cons.IH [of "map ?f es"] by (rule payload_list_trans)
  with Cons.IH [of es] show ?case by (simp add: list_all2_same)
qed

lemma recordHit_Inr:
  assumes "recordHit s e now = Inr s'"
  shows "\<not> st_Closed s" "list_all2 same_payload (st_Entries s) (st_Entries s')" "st_Blobs s' = st_Blobs s"
    "st_Closed s' = st_Closed s" "st_MaximumObjectBytes s' = st_MaximumObjectBytes s"
proof -
  define hit where "hit = (\<lambda>x. entry_id x = entry_id e \<and> e_BlobDigest x = e_BlobDigest e \<and> e_DecisionDigest x = e_DecisionDigest e)"
  define f where "f = (\<lambda>x. if hit x then x\<lparr>e_Segment := segmentProtected, e_LastAccessUnixMillis := unix_milli now\<rparr> else x)"
  from assms have s': "\<not> st_Closed s" "s' = s\<lparr>st_Entries := fst (enforceProtectedTargetTx s (map f (st_Entries s)))\<rparr>"
    unfolding recordHit_def hit_def [symmetric] Let_def f_def [symmetric] by (auto split: if_splits)
  have "same_payload x (f x)" for x
    unfolding f_def by (cases "hit x") (auto simp: same_payload_def)
  then have "list_all2 same_payload (st_Entries s) (map f (st_Entries s))" by (simp add: list_all2_conv_all_nth)
  moreover have "list_all2 same_payload (map f (st_Entries s)) (fst (enforceProtectedTargetTx s (map f (st_Entries s))))"
    by (simp add: enforceProtectedTargetTx_def Let_def demote_loop_payload list_all2_same)
  ultimately show "list_all2 same_payload (st_Entries s) (st_Entries s')"
    unfolding s' using payload_list_trans by simp
  show "\<not> st_Closed s" "st_Blobs s' = st_Blobs s" "st_Closed s' = st_Closed s"
    "st_MaximumObjectBytes s' = st_MaximumObjectBytes s" using s' by simp_all
qed

lemma recordHit_succeeds:
  assumes "distinct (map entry_id (st_Entries s))" "e \<in> set (st_Entries s)" "\<not> st_Closed s"
  shows "\<exists>s'. recordHit s e now = Inr s'"
proof -
  let ?hit = "\<lambda>x. entry_id x = entry_id e \<and> e_BlobDigest x = e_BlobDigest e \<and> e_DecisionDigest x = e_DecisionDigest e"
  have "x = e" if "x \<in> set (st_Entries s)" "?hit x" for x
    using assms(1,2) that by (auto simp: distinct_map dest: inj_onD)
  then have "filter ?hit (st_Entries s) = filter (\<lambda>x. x = e) (st_Entries s)" using assms(2) by (intro filter_cong) auto
  moreover have "length (filter (\<lambda>x. x = e) (st_Entries s)) = 1"
  proof -
    have "set (filter (\<lambda>x. x = e) (st_Entries s)) = {e}" using assms(2) by auto
    moreover have "distinct (filter (\<lambda>x. x = e) (st_Entries s))" using assms(1) by (simp add: distinct_map)
    ultimately show ?thesis by (metis distinct_card card_1_singleton_iff One_nat_def)
  qed
  ultimately show ?thesis using assms(3) by (simp add: recordHit_def)
qed

lemma find_payload:
  assumes "list_all2 same_payload es es'" "find (\<lambda>x. entry_id x = i) es = Some e"
  shows "\<exists>e'. find (\<lambda>x. entry_id x = i) es' = Some e' \<and> same_payload e e'"
  using assms
proof (induction es es' rule: list_all2_induct)
  case (Cons x xs y ys)
  then show ?case using same_payload_fields(1) [of x y] by (auto split: if_splits)
qed simp

text \<open>A served object is served again, from the cache, by a store with the same rows up to a hit.\<close>

lemma servable_again:
  assumes "servable digest_of s a key now e content" "rows_ok (st_Entries s)"
    and "list_all2 same_payload (st_Entries s) (st_Entries s')" "st_Blobs s' = st_Blobs s" "st_Closed s' = st_Closed s"
    and "st_MaximumObjectBytes s' = st_MaximumObjectBytes s"
  shows "\<exists>s''. OpenCommitted digest_of s' a key now = (s'', Inr content)"
proof -
  have load: "loadEntry s a key = Some e" and closed: "\<not> st_Closed s'" using assms(1,5) by (auto simp: servable_def)
  obtain e' where e': "loadEntry s' a key = Some e'" "same_payload e e'"
    using find_payload [OF assms(3) load [unfolded loadEntry_def]] unfolding loadEntry_def by blast
  note f = same_payload_fields [OF e'(2)]
  have usable: "entry_usable s' a now e' = entry_usable s a now e"
    using f(5) [of s a now] assms(6) by (simp add: entry_usable_def)
  have serv: "servable digest_of s' a key now e' content"
    using assms(1,4,5) e'(1) usable f unfolding servable_unfold by simp
  have "map entry_id (st_Entries s') = map entry_id (st_Entries s)"
    using assms(3) by (induction rule: list_all2_induct) (auto dest: same_payload_fields)
  then have "distinct (map entry_id (st_Entries s'))" using assms(2) by (simp add: rows_ok_def)
  from recordHit_succeeds [OF this loadEntry_Some(1) [OF e'(1)] closed] serv show ?thesis
    unfolding OpenCommitted_Inr by blast
qed

text \<open>
  A committed read returns only bytes that the authority covers and that were verified: the row
  belongs to the tenant, repository, trust domain, namespace generation, authority, revocation state and
  security generation of the reader, carries the requested key, is not expired, the reader's authority is
  current, and the bytes are those of the blob with the size and digest of the row. A failed read changes
  nothing, except that a row whose blob is missing or corrupt is deleted.
\<close>

theorem committed_read_sound:
  assumes "OpenCommitted digest_of s a key now = (s', res)"
  shows "case res of
      Inr content \<Rightarrow> \<exists>e\<in>set (st_Entries s). read_matches a e \<and> e_Key e = key \<and> unix_milli now < e_ExpiresAtUnixMillis e \<and>
        now < ra_expiresAt a \<and> (e_BlobDigest e, content) \<in> set (st_Blobs s) \<and> digest_of content = e_BlobDigest e \<and>
        int (length content) = e_SizeBytes e
    | Inl err \<Rightarrow> s' = s \<or> (\<exists>e\<in>set (st_Entries s). s' = deleteEntry s e)"
proof (cases res)
  case (Inl err)
  have "s' = s \<or> (\<exists>e\<in>set (st_Entries s). s' = deleteEntry s e)"
    using OpenCommitted_Inl [OF assms [unfolded Inl]] loadEntry_Some(1) by blast
  with Inl show ?thesis by simp
next
  case (Inr content)
  with assms obtain e where e: "servable digest_of s a key now e content" by (auto simp: OpenCommitted_Inr)
  then have "e \<in> set (st_Entries s)" "e_Key e = key"
    using loadEntry_Some [of s a key e] entry_id_key by (auto simp: servable_def)
  with e Inr show ?thesis by (auto simp: servable_def read_current_def intro!: bexI [of _ e] dest: map_of_SomeD)
qed

definition ex_digest_of :: "string \<Rightarrow> string" where
  "ex_digest_of content = ''sha256:'' @ replicate 64 (CHR ''0'')"

definition ex_reader :: ReadAuthority where
  "ex_reader = \<lparr>ra_tenant = ''t'', ra_repository = ''r'', ra_trustDomain = ''d'', ra_namespace = ''n'',
     ra_namespaceGeneration = 1, ra_authorityDigest = ''a'', ra_revocationEpoch = 1, ra_revocationDigest = ''v'',
     ra_l1SecurityGeneration = 1, ra_expiresAt = 50000000000\<rparr>"

definition ex_fetch :: "string \<Rightarrow> fetchedObject result" where
  "ex_fetch key = Inr \<lparr>f_body = ''hello'', f_size = 5, f_digest = ex_digest_of ''hello'', f_decisionDigest = ex_digest_of ''x''\<rparr>"

lemma ex_read_through: "snd (ReadThrough ex_digest_of ex_fetch ex_store ex_reader ''k'' 1000000) = Inr ''hello''"
  by code_simp

definition ex_cached :: Store where
  "ex_cached = fst (ReadThrough ex_digest_of ex_fetch ex_store ex_reader ''k'' 1000000)"

theorem committed_read_sound_witness:
  "\<exists>e. e \<in> set (st_Entries ex_cached) \<and> read_matches ex_reader e \<and> e_Key e = ''k'' \<and> (e_BlobDigest e, ''hello'') \<in> set (st_Blobs ex_cached)"
proof -
  have "snd (OpenCommitted ex_digest_of ex_cached ex_reader ''k'' 2000000) = Inr ''hello''" by code_simp
  then obtain s' where "OpenCommitted ex_digest_of ex_cached ex_reader ''k'' 2000000 = (s', Inr ''hello'')"
    by (metis prod.collapse)
  from committed_read_sound [OF this] show ?thesis by auto
qed

lemma ReadThrough_Inr:
  assumes "ReadThrough digest_of fetch s a key now = (s', Inr content)" "store_ok s"
  obtains s2 e s3 where "store_ok s2" "servable digest_of s2 a key now e content" "recordHit s2 e now = Inr s3"
    "st_Entries s' = st_Entries s3" "st_Blobs s' = st_Blobs s3" "st_Closed s' = st_Closed s3"
    "st_MaximumObjectBytes s' = st_MaximumObjectBytes s3"
proof -
  obtain s0 r0 where r0: "OpenCommitted digest_of s a key now = (s0, r0)" by (cases "OpenCommitted digest_of s a key now")
  show ?thesis
  proof (cases r0)
    case (Inr c)
    with assms(1) r0 have "s' = s0" "c = content" by (simp_all add: ReadThrough_def)
    with r0 Inr obtain e where "servable digest_of s a key now e content" "recordHit s e now = Inr s'"
      by (auto simp: OpenCommitted_Inr)
    then show ?thesis using that assms(2) by blast
  next
    case (Inl err)
    have ok0: "store_ok s0" using OpenCommitted_Inl [OF r0 [unfolded Inl]] assms(2) deleteEntry_shrunk by (auto simp: shrunk_def)
    from assms(1) r0 Inl obtain f where f: "err = ErrCacheMiss" "fetch key = Inr f"
      by (auto simp: ReadThrough_def split: if_splits sum.splits)
    with assms(1) r0 Inl obtain s1 r where r: "reserve s0 (f_size f) = Inr (s1, r)"
      by (auto simp: ReadThrough_def split: sum.splits)
    have ok1: "store_ok s1" "0 \<le> f_size f"
      using r ok0 by (auto simp: reserve_def store_ok_def split: if_splits)
    obtain s2 perr where p: "persistFetched digest_of s1 a key f now = (s2, perr)" by (cases "persistFetched digest_of s1 a key f now")
    have ok2: "store_ok s2" using persistFetched_grown [OF ok1(1) p ok1(2)] by (simp add: grown_def)
    obtain s3 r3 where r3: "OpenCommitted digest_of s2 a key now = (s3, r3)" by (cases "OpenCommitted digest_of s2 a key now")
    have "perr = None" "r3 = Inr content" "s' = fst (release s3 r)"
      using assms(1) r0 Inl f r p r3 by (auto simp: ReadThrough_def split: option.splits)
    moreover obtain e where "servable digest_of s2 a key now e content" "recordHit s2 e now = Inr s3"
      using r3 calculation(2) by (auto simp: OpenCommitted_Inr)
    ultimately show ?thesis using that [OF ok2] by (simp add: release_def split: if_splits)
  qed
qed

text \<open>
  Read-through caching: once a key has been served, from the cache or from the Shared service, the
  store serves the same bytes again to the same authority from its own tables.
\<close>

theorem read_through_then_hit:
  assumes "store_ok s" "ReadThrough digest_of fetch s a key now = (s', Inr content)"
  shows "\<exists>s''. OpenCommitted digest_of s' a key now = (s'', Inr content)"
  using assms(2,1)
proof (cases rule: ReadThrough_Inr)
  case (1 s2 e s3)
  have "list_all2 same_payload (st_Entries s2) (st_Entries s')" using recordHit_Inr(2) [OF 1(3)] 1(4) by simp
  then show ?thesis using 1 recordHit_Inr [OF 1(3)] by (intro servable_again [OF 1(2)]) (auto simp: store_ok_def)
qed

theorem read_through_then_hit_witness:
  "\<exists>s''. OpenCommitted ex_digest_of ex_cached ex_reader ''k'' 1000000 = (s'', Inr ''hello'')"
proof -
  have "store_ok ex_store" by code_simp
  moreover have "ReadThrough ex_digest_of ex_fetch ex_store ex_reader ''k'' 1000000 = (ex_cached, Inr ''hello'')"
    using ex_read_through unfolding ex_cached_def by (metis prod.collapse)
  ultimately show ?thesis by (rule read_through_then_hit)
qed

section \<open>Pending reads\<close>

lemma loadPending_Some:
  assumes "loadPending s a key = Some q"
  shows "q \<in> set (st_Pending s)" "pending_id q = (wa_authorityDigest a, wa_attemptID a, key)"
  using assms by (auto simp: loadPending_def find_Some_iff)

lemma OpenPending_Inr:
  "OpenPending digest_of s a key now = Inr content \<longleftrightarrow>
     validCacheKey key \<and> write_current a now \<and> \<not> st_Closed s \<and>
     (\<exists>q. loadPending s a key = Some q \<and> matchesPending a q \<and> q_SchemaVersion q = edgePendingSchema \<and>
        q_State q \<noteq> pendingRejected \<and> unix_milli now < q_ExpiresAtUnixMillis q \<and> 0 \<le> q_SizeBytes q \<and>
        q_SizeBytes q \<le> st_MaximumObjectBytes s \<and> validDigest (q_BlobDigest q) \<and>
        map_of (st_Blobs s) (q_BlobDigest q) = Some content \<and> verifyOpenBlob digest_of content (q_BlobDigest q) (q_SizeBytes q))"
proof (cases "loadPending s a key")
  case (Some q)
  then show ?thesis by (auto simp: OpenPending_def not_less not_le split: option.splits)
qed (simp add: OpenPending_def)

text \<open>
  A pending object is visible only to the attempt that wrote it: a successful pending read is by the
  still current authority and attempt recorded in the row, for the requested key, of an object that was
  neither rejected nor expired, and the bytes are verified against the digest and size of the row.
\<close>

theorem pending_read_isolated:
  assumes "OpenPending digest_of s a key now = Inr content"
  shows "\<exists>q\<in>set (st_Pending s). matchesPending a q \<and> q_AttemptID q = wa_attemptID a \<and> q_Key q = key \<and>
    q_State q \<noteq> pendingRejected \<and> unix_milli now < q_ExpiresAtUnixMillis q \<and> now < wa_expiresAt a \<and>
    digest_of content = q_BlobDigest q \<and> int (length content) = q_SizeBytes q \<and> (q_BlobDigest q, content) \<in> set (st_Blobs s)"
proof -
  from assms obtain q where q: "loadPending s a key = Some q" "matchesPending a q" "q_State q \<noteq> pendingRejected"
    "unix_milli now < q_ExpiresAtUnixMillis q" "map_of (st_Blobs s) (q_BlobDigest q) = Some content"
    "verifyOpenBlob digest_of content (q_BlobDigest q) (q_SizeBytes q)" "write_current a now"
    unfolding OpenPending_Inr by blast
  from loadPending_Some [OF q(1)] q show ?thesis
    by (intro bexI [of _ q]) (auto simp: pending_id_def verifyOpenBlob_def write_current_def dest: map_of_SomeD)
qed

definition ex_writer :: WriteAuthority where
  "ex_writer = \<lparr>wa_tenant = ''t'', wa_repository = ''r'', wa_trustDomain = ''d'', wa_namespace = ''n'',
     wa_namespaceGeneration = 1, wa_authorityDigest = ''a'', wa_revocationEpoch = 1, wa_revocationDigest = ''v'',
     wa_l1SecurityGeneration = 1, wa_attemptID = ''at'', wa_expiresAt = 50000000000\<rparr>"

definition ex_put :: "Store \<times> PendingWrite result" where
  "ex_put = PutPendingDurable ex_digest_of ex_store ex_writer ''k'' 5 ''hello'' 1000000"

theorem pending_read_isolated_witness:
  "\<exists>q. q \<in> set (st_Pending (fst ex_put)) \<and> matchesPending ex_writer q \<and> q_Key q = ''k'' \<and> ex_digest_of ''hello'' = q_BlobDigest q"
proof -
  have "OpenPending ex_digest_of (fst ex_put) ex_writer ''k'' 2000000 = Inr ''hello''" by code_simp
  from pending_read_isolated [OF this] show ?thesis by auto
qed

lemma link_blob_stored:
  assumes "link_blob digest_of s content d sz = Some s1" "digest_of content = d" "validDigest d" "int (length content) = sz"
  shows "\<exists>c. map_of (st_Blobs s1) d = Some c \<and> verifyOpenBlob digest_of c d sz"
  using assms by (auto simp: link_blob_def verifyOpenBlob_def split: option.splits if_splits)

lemma find_append_new: "find P xs = None \<Longrightarrow> P x \<Longrightarrow> find P (xs @ [x]) = Some x"
  by (induction xs) auto

text \<open>
  A pending write that reports a new object is readable back by its attempt: the read returns bytes of
  the same digest and length as the body written. It relies on the digest function producing well-formed
  digests, on a pending lifetime of at least a millisecond and on the authority outliving the current one.
\<close>

theorem pending_write_read_roundtrip:
  assumes "PutPendingDurable digest_of s a key sz body now = (s', Inr w)" "pw_Added w"
    and "\<And>c. validDigest (digest_of c)" "1000000 \<le> st_PendingTTL s" "unix_milli now < unix_milli (wa_expiresAt a)"
  shows "\<exists>c. OpenPending digest_of s' a key now = Inr c \<and> digest_of c = digest_of body \<and> length c = length body"
proof -
  from assms(1) obtain s1 r s2 where input: "validCacheKey key" "write_current a now" "0 \<le> sz"
    and r: "reserve s sz = Inr (s1, r)" and p: "put_pending_locked digest_of s1 a key sz body now = (s2, Inr w)"
    and s': "s' = fst (release s2 r)"
    by (auto simp: PutPendingDurable_def split: if_splits sum.splits prod.splits)
  have s1: "s1 = s\<lparr>st_ReservedBytes := st_ReservedBytes s + sz\<rparr>" using r by (auto simp: reserve_def split: if_splits)
  from p show ?thesis
  proof (cases rule: put_pending_cases)
    case (published s3 added)
    let ?q = "new_pending s1 a key (digest_of (spooled s1 body)) sz now"
    have spool: "spooled s1 body = body" and len: "int (length body) = sz" using published(5,6) by (auto simp: spooled_def)
    have new: "find (\<lambda>q. pending_id q = pending_id ?q) (st_Pending s3) = None"
      and s2: "st_Pending s2 = st_Pending s3 @ [?q]" "st_Blobs s2 = st_Blobs s3" "st_Closed s2 = st_Closed s3"
        "st_MaximumObjectBytes s2 = st_MaximumObjectBytes s3"
      using published(2,3) assms(2) by (auto simp: publishPendingLocked_def new_pending_def Let_def split: option.splits if_splits)
    have q: "pending_id ?q = (wa_authorityDigest a, wa_attemptID a, key)" "matchesPending a ?q"
      "q_SchemaVersion ?q = edgePendingSchema" "q_State ?q = pendingQueued" "q_SizeBytes ?q = sz" "q_BlobDigest ?q = digest_of body"
      by (simp_all add: new_pending_def pending_id_def matchesPending_def spool Let_def)
    have "unix_milli now < unix_milli (now + st_PendingTTL s1)" using assms(4) s1 by (simp add: unix_milli_def)
    then have live: "unix_milli now < q_ExpiresAtUnixMillis ?q" using assms(5) by (simp add: new_pending_def Let_def)
    have load: "loadPending s2 a key = Some ?q"
      unfolding loadPending_def s2 using find_append_new [OF new] q(1) by simp
    from link_blob_stored [OF published(1) refl assms(3)] spool len
    obtain c where c: "map_of (st_Blobs s2) (digest_of body) = Some c" "verifyOpenBlob digest_of c (digest_of body) sz"
      by (auto simp: s2(2))
    have same: "loadPending s' a key = loadPending s2 a key" "st_Blobs s' = st_Blobs s2" "st_Closed s' = st_Closed s2"
      "st_MaximumObjectBytes s' = st_MaximumObjectBytes s2"
      unfolding s' by (simp_all add: release_def loadPending_def)
    have max: "st_MaximumObjectBytes s3 = st_MaximumObjectBytes s1" "st_Closed s3 = st_Closed s1"
      using link_blob_same(3,5) [OF published(1)] by (auto simp: same_budget_def edge_config_def)
    have "OpenPending digest_of s' a key now = Inr c"
      unfolding OpenPending_Inr using input load q live c same max s2 published(4,6) assms(3)
      by (intro conjI exI [of _ ?q]) simp_all
    moreover have "digest_of c = digest_of body" "length c = length body" using c(2) len by (auto simp: verifyOpenBlob_def)
    ultimately show ?thesis by blast
  qed simp_all
qed

theorem pending_write_read_roundtrip_witness:
  "\<exists>c. OpenPending ex_digest_of (fst ex_put) ex_writer ''k'' 1000000 = Inr c \<and> length c = length ''hello''"
proof -
  have "snd ex_put = Inr \<lparr>pw_Digest = ex_digest_of ''hello'', pw_Size = 5, pw_Added = True\<rparr>" by code_simp
  then have put: "PutPendingDurable ex_digest_of ex_store ex_writer ''k'' 5 ''hello'' 1000000 =
    (fst ex_put, Inr \<lparr>pw_Digest = ex_digest_of ''hello'', pw_Size = 5, pw_Added = True\<rparr>)"
    unfolding ex_put_def by (metis prod.collapse)
  have added: "pw_Added \<lparr>pw_Digest = ex_digest_of ''hello'', pw_Size = 5, pw_Added = True\<rparr>"
    and ttl: "1000000 \<le> st_PendingTTL ex_store" and live: "unix_milli 1000000 < unix_milli (wa_expiresAt ex_writer)"
    by code_simp+
  have "validDigest (ex_digest_of c)" for c unfolding ex_digest_of_def by code_simp
  from pending_write_read_roundtrip [OF put added this ttl live] show ?thesis by blast
qed

end
