(* ===== verification/EdgeReplication.thy ===== *)
theory EdgeReplication
  imports EdgeServe
begin

text \<open>The life of a pending object: every step moves it along one automaton, and a replication pass handles each due object once.\<close>

section \<open>Updating one row\<close>

definition set_row :: "pendingEntry \<Rightarrow> pendingEntry list \<Rightarrow> pendingEntry list" where
  "set_row q qs = map (\<lambda>x. if pending_id x = pending_id q then q else x) qs"

lemma pending_unique:
  assumes "pending_ok qs" "q \<in> set qs" "x \<in> set qs" "pending_id x = pending_id q"
  shows "x = q"
  using assms by (auto simp: pending_ok_def distinct_map dest: inj_onD)

lemma update_one:
  assumes "pending_ok qs" "q \<in> set qs" "sel q" "pending_id (f q) = pending_id q"
    and "\<And>x. sel x \<Longrightarrow> pending_id x = pending_id q"
  shows "map (\<lambda>x. if sel x then f x else x) qs = set_row (f q) qs" "length (filter sel qs) = 1"
proof -
  have iff: "sel x \<longleftrightarrow> pending_id x = pending_id q" if "x \<in> set qs" for x
    using assms(3,5) pending_unique [OF assms(1,2) that] by blast
  have "(if sel x then f x else x) = (if pending_id x = pending_id (f q) then f q else x)" if "x \<in> set qs" for x
  proof (cases "pending_id x = pending_id q")
    case True
    then have "x = q" by (rule pending_unique [OF assms(1,2) that])
    then show ?thesis using assms(3,4) by simp
  next
    case False
    then show ?thesis using iff [OF that] assms(4) by simp
  qed
  then show "map (\<lambda>x. if sel x then f x else x) qs = set_row (f q) qs" by (simp add: set_row_def)
  have "set (filter sel qs) = {q}" using assms(2,3) iff pending_unique [OF assms(1,2)] by auto
  moreover have "distinct (filter sel qs)" using assms(1) by (simp add: pending_ok_def distinct_map)
  ultimately show "length (filter sel qs) = 1" by (metis distinct_card card_1_singleton_iff One_nat_def)
qed

lemma set_row_ids [simp]: "map pending_id (set_row q qs) = map pending_id qs"
  by (simp add: set_row_def)

lemma set_row_mem: "x \<in> set (set_row q qs) \<longleftrightarrow> (x = q \<and> pending_id q \<in> pending_id ` set qs) \<or> (x \<in> set qs \<and> pending_id x \<noteq> pending_id q)"
proof -
  have "set (set_row q qs) = (\<lambda>x. if pending_id x = pending_id q then q else x) ` set qs" by (simp add: set_row_def)
  also have "\<dots> = (if pending_id q \<in> pending_id ` set qs then {q} else {}) \<union> {x \<in> set qs. pending_id x \<noteq> pending_id q}"
    by (auto simp: image_iff)
  finally show ?thesis by auto
qed

lemma set_row_twice: "pending_id q = pending_id q' \<Longrightarrow> set_row q (set_row q' qs) = set_row q qs"
  by (simp add: set_row_def)

lemma set_row_ok:
  assumes "pending_ok qs" "0 \<le> q_SizeBytes q"
  shows "pending_ok (set_row q qs)"
  using assms by (auto simp: pending_ok_def set_row_mem)

section \<open>The steps of replication\<close>

definition claimable :: "(string \<Rightarrow> string) \<Rightarrow> Store \<Rightarrow> WriteAuthority \<Rightarrow> pendingEntry \<Rightarrow> bool" where
  "claimable digest_of s a q \<longleftrightarrow> matchesPending a q \<and> q_SchemaVersion q = edgePendingSchema \<and> validDigest (q_BlobDigest q) \<and>
     0 \<le> q_SizeBytes q \<and> q_SizeBytes q \<le> st_MaximumObjectBytes s \<and>
     (case map_of (st_Blobs s) (q_BlobDigest q) of None \<Rightarrow> False
      | Some content \<Rightarrow> verifyOpenBlob digest_of content (q_BlobDigest q) (q_SizeBytes q))"

definition claimed :: "pendingEntry \<Rightarrow> pendingEntry" where
  "claimed q = q\<lparr>q_ReplicationAttempts := q_ReplicationAttempts q + 1, q_State := pendingReplicating\<rparr>"

definition finished :: "pendingEntry \<Rightarrow> int \<Rightarrow> push_outcome \<Rightarrow> pendingEntry" where
  "finished q now outcome = (case push_result q now outcome of
     (state, retry, err) \<Rightarrow> q\<lparr>q_State := state, q_NextRetryUnixMillis := retry, q_LastErrorClass := err\<rparr>)"

lemma claimed_id [simp]: "pending_id (claimed q) = pending_id q" "q_SizeBytes (claimed q) = q_SizeBytes q"
  by (simp_all add: claimed_def pending_id_def)

lemma claimed_state: "q_State (claimed q) = pendingReplicating"
  by (simp add: claimed_def)

lemma finished_id [simp]: "pending_id (finished q now outcome) = pending_id q" "q_SizeBytes (finished q now outcome) = q_SizeBytes q"
  by (simp_all add: finished_def pending_id_def split: prod.splits)

lemma due_head:
  assumes "sort_key k (filter (due a now) qs) = q # rest"
  shows "q \<in> set qs" "due a now q"
proof -
  have "q \<in> set (sort_key k (filter (due a now) qs))" using assms by simp
  then show "q \<in> set qs" "due a now q" by simp_all
qed

lemma claim_eq:
  assumes "pending_ok (st_Pending s)" "\<not> st_Closed s"
    and "sort_key (\<lambda>q. (q_CreatedAtUnixMillis q, q_Key q)) (filter (due a now) (st_Pending s)) = q # rest"
  shows "claimPending digest_of s a now =
    (if claimable digest_of s a q
     then Inr (s\<lparr>st_Pending := set_row (claimed q) (st_Pending s)\<rparr>,
               Some (claimed q, the (map_of (st_Blobs s) (q_BlobDigest q))))
     else Inl (if matchesPending a q \<and> q_SchemaVersion q = edgePendingSchema \<and> validDigest (q_BlobDigest q) \<and>
                  0 \<le> q_SizeBytes q \<and> q_SizeBytes q \<le> st_MaximumObjectBytes s
               then ''replicate Edge pending: corrupt blob'' else ''replicate Edge pending: invalid durable metadata''))"
proof -
  let ?sel = "\<lambda>x. pending_id x = pending_id q \<and> q_State x = pendingQueued"
  let ?f = "\<lambda>x. x\<lparr>q_State := pendingReplicating, q_ReplicationAttempts := q_ReplicationAttempts q + 1\<rparr>"
  note q = due_head [OF assms(3)]
  have "?sel q" using q(2) by (simp add: due_def)
  have f: "?f q = claimed q" by (simp add: claimed_def)
  have one: "map (\<lambda>x. if ?sel x then ?f x else x) (st_Pending s) = set_row (claimed q) (st_Pending s)"
    "length (filter ?sel (st_Pending s)) = 1"
    using update_one [OF assms(1) q(1), of ?sel ?f] \<open>?sel q\<close> by (simp_all add: f)
  have upd: "update_pending ?sel ?f s = s\<lparr>st_Pending := set_row (claimed q) (st_Pending s)\<rparr>"
    unfolding update_pending_def using one(1) by simp
  show ?thesis
    unfolding claimPending_def assms(3) Let_def upd claimable_def claimed_def [symmetric] list.case
    using assms(2) one(2) by (simp add: not_less split: option.split)
qed

lemma finish_eq:
  assumes "pending_ok (st_Pending s)" "\<not> st_Closed s" "q \<in> set (st_Pending s)" "q_State q = pendingReplicating"
  shows "finishReplication s q now outcome =
    Inr (s\<lparr>st_Pending := set_row (finished q now outcome) (st_Pending s)\<rparr>, q_State (finished q now outcome))"
proof -
  obtain state retry err where r: "push_result q now outcome = (state, retry, err)" by (metis prod_cases3)
  let ?sel = "\<lambda>x. pending_id x = pending_id q \<and> q_State x = pendingReplicating \<and> q_ReplicationAttempts x = q_ReplicationAttempts q"
  let ?f = "\<lambda>x. x\<lparr>q_State := state, q_NextRetryUnixMillis := retry, q_LastErrorClass := err\<rparr>"
  have f: "?f q = finished q now outcome" by (simp add: finished_def r)
  have one: "map (\<lambda>x. if ?sel x then ?f x else x) (st_Pending s) = set_row (finished q now outcome) (st_Pending s)"
    "length (filter ?sel (st_Pending s)) = 1"
    using update_one [OF assms(1,3), of ?sel ?f] assms(4) by (simp_all add: f) 
  have upd: "update_pending ?sel ?f s = s\<lparr>st_Pending := set_row (finished q now outcome) (st_Pending s)\<rparr>"
    unfolding update_pending_def using one(1) by simp
  show ?thesis unfolding finishReplication_def r Let_def prod.case upd using assms(2) one(2) by (simp add: finished_def r)
qed

section \<open>The automaton of a pending object\<close>

text \<open>Queued objects are claimed, claimed objects are replicated, rejected or queued again, and nothing else happens.\<close>

inductive pending_move :: "pendingEntry \<Rightarrow> pendingEntry \<Rightarrow> bool" where
  claim: "q_State q = pendingQueued \<Longrightarrow> pending_move q (claimed q)"
| finish: "q_State q = pendingReplicating \<Longrightarrow> pending_move q (finished q now outcome)"

inductive_simps pending_move_queued: "pending_move q q'"

lemma claim_moves:
  assumes "pending_ok (st_Pending s)" "claimPending digest_of s a now = Inr (s', r)" "q' \<in> set (st_Pending s')"
  shows "\<exists>q\<in>set (st_Pending s). pending_id q' = pending_id q \<and> (q' = q \<or> pending_move q q')"
proof (cases "sort_key (\<lambda>q. (q_CreatedAtUnixMillis q, q_Key q)) (filter (due a now) (st_Pending s))")
  case Nil
  with assms(2) have "s' = s" by (auto simp: claimPending_def split: if_splits)
  with assms(3) show ?thesis by blast
next
  case (Cons q rest)
  note q = due_head [OF Cons]
  have opn: "\<not> st_Closed s" using assms(2) by (auto simp: claimPending_def split: if_splits)
  have "s' = s\<lparr>st_Pending := set_row (claimed q) (st_Pending s)\<rparr>"
    using assms(2) claim_eq [OF assms(1) opn Cons, of digest_of] by (auto split: if_splits)
  with assms(3) have "q' = claimed q \<or> q' \<in> set (st_Pending s)" by (auto simp: set_row_mem)
  moreover have "pending_move q (claimed q)" using q(2) by (intro claim) (simp add: due_def)
  ultimately show ?thesis using q(1) by (metis claimed_id(1))
qed

lemma finish_moves:
  assumes "finishReplication s q now outcome = Inr (s', st)" "q' \<in> set (st_Pending s')"
  shows "\<exists>x\<in>set (st_Pending s). pending_id q' = pending_id x \<and> (q' = x \<or> pending_move x q')"
proof -
  obtain state retry err where r: "push_result q now outcome = (state, retry, err)" by (metis prod_cases3)
  let ?sel = "\<lambda>x. pending_id x = pending_id q \<and> q_State x = pendingReplicating \<and> q_ReplicationAttempts x = q_ReplicationAttempts q"
  let ?f = "\<lambda>x. x\<lparr>q_State := state, q_NextRetryUnixMillis := retry, q_LastErrorClass := err\<rparr>"
  have "s' = update_pending ?sel ?f s" using assms(1) r by (auto simp: finishReplication_def Let_def split: if_splits)
  with assms(2) obtain x where x: "x \<in> set (st_Pending s)" "q' = (if ?sel x then ?f x else x)"
    by (auto simp: update_pending_def)
  have "pending_move x (?f x)" if "?sel x"
  proof -
    have "push_result x now outcome = push_result q now outcome" using that by (simp add: push_result_def split: push_outcome.split)
    then have "?f x = finished x now outcome" by (simp add: finished_def r)
    then show ?thesis using pending_move.finish [of x now outcome] that by simp
  qed
  with x show ?thesis by (intro bexI [of _ x]) (auto simp: pending_id_def)
qed

lemma publish_moves:
  assumes "edge_publishes digest_of s n s'" "q' \<in> set (st_Pending s')"
  shows "(pending_id q' \<notin> pending_id ` set (st_Pending s) \<and> q_State q' = pendingQueued \<and> q_ReplicationAttempts q' = 0) \<or>
    q' \<in> set (st_Pending s)"
  using assms(1)
proof cases
  case (fetched a key f now err)
  from fetched(2) have "st_Pending s' = st_Pending s"
  proof (cases rule: persistFetched_cases)
    case (linked s1)
    then show ?thesis using link_blob_same(2) by blast
  next
    case (published s1)
    from published(2) have "st_Pending s' = st_Pending s1" by (cases rule: publishEntry_result) simp
    then show ?thesis using link_blob_same(2) [OF published(1)] by simp
  qed simp
  with assms(2) show ?thesis by simp
next
  case (pending a key body now res)
  from pending show ?thesis
  proof (cases rule: put_pending_cases)
    case (failed s1 m)
    then show ?thesis using link_blob_same(2) [OF failed(1)] assms(2) by simp
  next
    case (published s1 added)
    then have "st_Pending s1 = st_Pending s" using link_blob_same(2) by blast
    with published(2) assms(2) show ?thesis
      by (auto simp: publishPendingLocked_def find_None_iff pending_id_def split: option.splits if_splits)
  qed (use assms(2) in simp)
qed

text \<open>
  (C23) Every interleaving refines the automaton of a pending object: in each step of the store a pending
  row of the new state is either a new object (queued, no attempt made) or a row of the old state, the same
  or moved by one transition of \<open>pending_move\<close>; so an object is claimed only when queued, its identity and
  bytes never change, and a replicated or rejected object stays exactly as it is until it expires.
\<close>

theorem pending_steps_refine_automaton:
  assumes "edge_step digest_of (s, held, spent) (s', held', spent')" "pending_ok (st_Pending s)" "q' \<in> set (st_Pending s')"
  shows "(pending_id q' \<notin> pending_id ` set (st_Pending s) \<and> q_State q' = pendingQueued \<and> q_ReplicationAttempts q' = 0) \<or>
    (\<exists>q\<in>set (st_Pending s). pending_id q' = pending_id q \<and> q_BlobDigest q' = q_BlobDigest q \<and> q_SizeBytes q' = q_SizeBytes q \<and>
       (q' = q \<or> pending_move q q') \<and> (q_State q = pendingReplicated \<or> q_State q = pendingRejected \<longrightarrow> q' = q))"
proof -
  have kept: "q_BlobDigest q'' = q_BlobDigest q \<and> q_SizeBytes q'' = q_SizeBytes q \<and>
      q_State q \<noteq> pendingReplicated \<and> q_State q \<noteq> pendingRejected" if "pending_move q q''" for q q''
    using that by cases (auto simp: claimed_def finished_def split: prod.splits)
  have "(pending_id q' \<notin> pending_id ` set (st_Pending s) \<and> q_State q' = pendingQueued \<and> q_ReplicationAttempts q' = 0) \<or>
    (\<exists>q\<in>set (st_Pending s). pending_id q' = pending_id q \<and> (q' = q \<or> pending_move q q'))"
    using assms(1)
  proof cases
    case (reserve_step n)
    then show ?thesis using assms(3) by (auto simp: edge_reserves_def reserve_def split: if_splits)
  next
    case (publish_step n)
    from publish_moves [OF this(3) assms(3)] show ?thesis by blast
  next
    case (release_step n)
    then show ?thesis using assms(3) by (auto simp: edge_releases_def release_def)
  next
    case shrink_step
    from this(3) show ?thesis
    proof cases
      case (hit e now)
      then have "s' = s\<lparr>st_Entries := st_Entries s'\<rparr>" by (auto simp: recordHit_def Let_def split: if_splits)
      then have "st_Pending s' = st_Pending s" by (metis Store.select_convs(11) Store.surjective Store.update_convs(10))
      then show ?thesis using assms(3) by auto
    next
      case (delete e)
      then show ?thesis using assms(3) by (auto simp: deleteEntry_def split: if_splits)
    next
      case (maintain now report)
      from maintain show ?thesis using assms(3) by (cases rule: Maintain_result) auto
    next
      case (claim a now r)
      from claim_moves [OF assms(2) claim assms(3)] show ?thesis by blast
    next
      case (finish q now outcome st)
      from finish_moves [OF finish assms(3)] show ?thesis by blast
    next
      case close
      then show ?thesis using assms(3) by auto
    qed
  qed
  then show ?thesis using kept by blast
qed

definition ex_queued :: Store where
  "ex_queued = fst ex_put"

lemma ex_claim: "\<exists>s' q c. claimPending ex_digest_of ex_queued ex_writer 2000000 = Inr (s', Some (q, c)) \<and> q \<in> set (st_Pending s') \<and>
    q_State q = pendingReplicating"
proof -
  have "case claimPending ex_digest_of ex_queued ex_writer 2000000 of
      Inr (s', Some (q, c)) \<Rightarrow> q \<in> set (st_Pending s') \<and> q_State q = pendingReplicating | _ \<Rightarrow> False" by code_simp
  then show ?thesis by (auto split: sum.splits option.splits prod.splits)
qed

theorem pending_steps_refine_automaton_witness:
  "\<exists>s' q' q. edge_step ex_digest_of (ex_queued, {#}, {#}) (s', {#}, {#}) \<and> q' \<in> set (st_Pending s') \<and>
     q_State q' = pendingReplicating \<and> q \<in> set (st_Pending ex_queued) \<and> pending_id q' = pending_id q"
proof -
  obtain s' q' c where c: "claimPending ex_digest_of ex_queued ex_writer 2000000 = Inr (s', Some (q', c))"
    "q' \<in> set (st_Pending s')" "q_State q' = pendingReplicating" using ex_claim by blast
  have step: "edge_step ex_digest_of (ex_queued, {#}, {#}) (s', {#}, {#})"
    by (intro edge_step.shrink_step edge_shrinks.claim [OF c(1)])
  have "pending_ok (st_Pending ex_queued)" by code_simp
  from pending_steps_refine_automaton [OF step this c(2)] c(3)
  obtain q where "q \<in> set (st_Pending ex_queued)" "pending_id q' = pending_id q" by auto
  with step c(2,3) show ?thesis by blast
qed

section \<open>One replication pass\<close>

lemma retry_delay_bound:
  "replicationRetryDelay n = second * 2 ^ min 8 (nat (n - 1)) \<and> second \<le> replicationRetryDelay n \<and>
   replicationRetryDelay n \<le> 256 * second \<and> replicationRetryDelay n < maximumRetryDelay"
proof -
  define k where "k = min 8 (nat (n - 1))"
  have clamp: "nat ((if (if n < 1 then 1 else n) > 9 then 9 else if n < 1 then 1 else n) - 1) = k" by (simp add: k_def)
  have k: "(1::int) \<le> 2 ^ k" "(2::int) ^ k \<le> 2 ^ 8" by (simp, intro power_increasing) (simp_all add: k_def)
  then have "second * 2 ^ k < maximumRetryDelay" by (simp add: second_def maximumRetryDelay_def)
  then have "replicationRetryDelay n = second * 2 ^ k" unfolding replicationRetryDelay_def Let_def clamp by simp
  with k show ?thesis unfolding k_def [symmetric] by (simp add: second_def maximumRetryDelay_def)
qed

text \<open>
  The back-off of replication is exactly exponential: one second doubled for every further attempt,
  frozen from the ninth attempt on at 256 seconds, so it is always between one second and 256 seconds and
  the five-minute cap is never reached.
\<close>

lemma retry_delay_exponential:
  "replicationRetryDelay n = 1000000000 * 2 ^ min 8 (nat (n - 1)) \<and> 1000000000 \<le> replicationRetryDelay n \<and>
   replicationRetryDelay n \<le> 256 * 1000000000 \<and> replicationRetryDelay n < maximumRetryDelay"
  using retry_delay_bound [of n] by (simp add: second_def)

lemma retry_positive: "unix_milli now < unix_milli (now + replicationRetryDelay n)"
proof -
  have "now + 1000000 \<le> now + replicationRetryDelay n" using retry_delay_bound [of n] by (simp add: second_def)
  then have "(now + 1000000) div 1000000 \<le> (now + replicationRetryDelay n) div 1000000" by (rule zdiv_mono1) simp
  then show ?thesis by (simp add: unix_milli_def)
qed

lemma finished_not_due: "\<not> due a now (finished (claimed q) now outcome)"
  using retry_positive [of now] by (cases outcome) (auto simp: due_def finished_def push_result_def not_le)

lemma filter_set_row:
  assumes "\<not> P q"
  shows "filter P (set_row q qs) = filter (\<lambda>x. P x \<and> pending_id x \<noteq> pending_id q) qs"
  using assms by (induction qs) (auto simp: set_row_def)

definition counted :: "ReplicationReport \<Rightarrow> nat" where
  "counted r = rr_Replicated r + rr_Deferred r + rr_Rejected r"

lemma counted_claim [simp]: "counted (r\<lparr>rr_Claimed := n\<rparr>) = counted r"
  by (simp add: counted_def)

lemma counted_count [simp]: "counted (count_outcome st r) = counted r + 1" "rr_Claimed (count_outcome st r) = rr_Claimed r"
  by (simp_all add: counted_def count_outcome_def)

lemma remove_due_length:
  assumes "pending_ok qs" "q \<in> set qs" "P q"
  shows "length (filter P qs) = Suc (length (filter (\<lambda>x. P x \<and> pending_id x \<noteq> pending_id q) qs))"
proof -
  have "(P x \<and> pending_id x = pending_id q) = (x = q)" if "x \<in> set qs" for x
    using assms pending_unique [OF assms(1,2) that] by blast
  then have "filter (\<lambda>x. P x \<and> pending_id x = pending_id q) qs = filter (\<lambda>x. x = q) qs" by (intro filter_cong) auto
  moreover have "length (filter (\<lambda>x. x = q) qs) = 1"
  proof -
    have "set (filter (\<lambda>x. x = q) qs) = {q}" "distinct (filter (\<lambda>x. x = q) qs)"
      using assms(1,2) by (auto simp: pending_ok_def distinct_map)
    then show ?thesis by (metis distinct_card card_1_singleton_iff One_nat_def)
  qed
  moreover have "length (filter P qs) = length (filter (\<lambda>x. P x \<and> pending_id x = pending_id q) qs) +
      length (filter (\<lambda>x. P x \<and> pending_id x \<noteq> pending_id q) qs)" by (induction qs) auto
  ultimately show ?thesis by simp
qed

lemma replicate_step:
  assumes "pending_ok (st_Pending s)" "\<not> st_Closed s"
    and "sort_key (\<lambda>q. (q_CreatedAtUnixMillis q, q_Key q)) (filter (due a now) (st_Pending s)) = q # rest" "claimable digest_of s a q"
  shows "\<exists>outcome. replicate_loop digest_of push a now (Suc left) s r =
    replicate_loop digest_of push a now left (s\<lparr>st_Pending := set_row (finished (claimed q) now outcome) (st_Pending s)\<rparr>)
      (count_outcome (q_State (finished (claimed q) now outcome)) (r\<lparr>rr_Claimed := rr_Claimed r + 1\<rparr>))"
proof -
  let ?s1 = "s\<lparr>st_Pending := set_row (claimed q) (st_Pending s)\<rparr>" and ?c = "the (map_of (st_Blobs s) (q_BlobDigest q))"
  note q = due_head [OF assms(3)]
  have c: "claimPending digest_of s a now = Inr (?s1, Some (claimed q, ?c))"
    using claim_eq [OF assms(1,2,3), of digest_of] assms(4) by simp
  have ok: "pending_ok (st_Pending ?s1)" using set_row_ok [OF assms(1), of "claimed q"] assms(4) by (simp add: claimable_def)
  have mem: "claimed q \<in> set (st_Pending ?s1)" using q(1) by (simp add: set_row_mem)
  have "finishReplication ?s1 (claimed q) now outcome =
      Inr (s\<lparr>st_Pending := set_row (finished (claimed q) now outcome) (st_Pending s)\<rparr>, q_State (finished (claimed q) now outcome))" for outcome
    using finish_eq [OF ok _ mem, of now outcome] assms(2) by (simp add: claimed_state set_row_twice)
  with c show ?thesis by (intro exI [of _ "push (rr_Claimed r + 1) (claimed q) ?c"]) (simp add: Let_def)
qed

lemma replicate_loop_drains:
  assumes "pending_ok (st_Pending s)" "\<not> st_Closed s" "length (filter (due a now) (st_Pending s)) \<le> left"
    and "\<And>q. q \<in> set (st_Pending s) \<Longrightarrow> due a now q \<Longrightarrow> claimable digest_of s a q"
  shows "\<exists>s' r'. replicate_loop digest_of push a now left s r = (s', r', None) \<and> filter (due a now) (st_Pending s') = [] \<and>
    rr_Claimed r' = rr_Claimed r + length (filter (due a now) (st_Pending s)) \<and>
    counted r' = counted r + length (filter (due a now) (st_Pending s))"
  using assms
proof (induction left arbitrary: s r)
  case 0
  then show ?case by simp
next
  case (Suc left)
  let ?due = "filter (due a now)"
  show ?case
  proof (cases "sort_key (\<lambda>q. (q_CreatedAtUnixMillis q, q_Key q)) (?due (st_Pending s))")
    case Nil
    then have "?due (st_Pending s) = []" by (metis length_0_conv length_sort)
    moreover have "claimPending digest_of s a now = Inr (s, None)" using Nil Suc.prems(2) by (simp add: claimPending_def)
    ultimately show ?thesis by simp
  next
    case (Cons q rest)
    note q = due_head [OF Cons]
    obtain outcome where step: "replicate_loop digest_of push a now (Suc left) s r =
      replicate_loop digest_of push a now left (s\<lparr>st_Pending := set_row (finished (claimed q) now outcome) (st_Pending s)\<rparr>)
        (count_outcome (q_State (finished (claimed q) now outcome)) (r\<lparr>rr_Claimed := rr_Claimed r + 1\<rparr>))" (is "_ = replicate_loop _ _ _ _ _ ?s2 ?r2")
      using replicate_step [OF Suc.prems(1,2) Cons Suc.prems(4) [OF q]] by blast
    have due2: "?due (st_Pending ?s2) = filter (\<lambda>x. due a now x \<and> pending_id x \<noteq> pending_id q) (st_Pending s)"
      by (simp add: filter_set_row finished_not_due)
    have len: "length (?due (st_Pending s)) = Suc (length (?due (st_Pending ?s2)))"
      unfolding due2 using Suc.prems(1) q by (rule remove_due_length)
    have "\<exists>s' r'. replicate_loop digest_of push a now left ?s2 ?r2 = (s', r', None) \<and> ?due (st_Pending s') = [] \<and>
      rr_Claimed r' = rr_Claimed ?r2 + length (?due (st_Pending ?s2)) \<and> counted r' = counted ?r2 + length (?due (st_Pending ?s2))"
    proof (rule Suc.IH)
      show "pending_ok (st_Pending ?s2)"
        using set_row_ok [OF Suc.prems(1), of "finished (claimed q) now outcome"] Suc.prems(4) [OF q] by (simp add: claimable_def)
      show "claimable digest_of ?s2 a x" if "x \<in> set (st_Pending ?s2)" "due a now x" for x
      proof -
        have "x \<in> set (st_Pending s)" using that finished_not_due by (auto simp: set_row_mem)
        from Suc.prems(4) [OF this that(2)] show ?thesis by (simp add: claimable_def)
      qed
    qed (use Suc.prems len in auto)
    then show ?thesis unfolding step len by auto
  qed
qed

text \<open>
  (C36) A replication pass makes progress whatever the Shared service answers. If the due objects of the
  attempt fit one batch and their rows and blobs are intact, the pass ends without an error, claims every
  due object exactly once, records an outcome for each claim, and leaves no due object behind; a failed
  push is deferred beyond the current instant and is not retried within the pass.
\<close>

theorem replication_pass_drains_due:
  assumes "write_current a now" "pending_ok (st_Pending s)" "\<not> st_Closed s"
    and "length (filter (due a now) (st_Pending s)) \<le> maximumReplicationBatch"
    and "\<And>q. q \<in> set (st_Pending s) \<Longrightarrow> due a now q \<Longrightarrow> claimable digest_of s a q"
  shows "\<exists>s' r. ReplicatePendingOnce digest_of push s a now = (s', r, None) \<and> filter (due a now) (st_Pending s') = [] \<and>
    rr_Claimed r = length (filter (due a now) (st_Pending s)) \<and> rr_Replicated r + rr_Deferred r + rr_Rejected r = rr_Claimed r"
proof -
  from replicate_loop_drains [OF assms(2-5), of push "\<lparr>rr_Claimed = 0, rr_Replicated = 0, rr_Deferred = 0, rr_Rejected = 0\<rparr>"]
  obtain s' r where "replicate_loop digest_of push a now maximumReplicationBatch s
      \<lparr>rr_Claimed = 0, rr_Replicated = 0, rr_Deferred = 0, rr_Rejected = 0\<rparr> = (s', r, None)"
    "filter (due a now) (st_Pending s') = []" "rr_Claimed r = length (filter (due a now) (st_Pending s))"
    "counted r = length (filter (due a now) (st_Pending s))" by (auto simp: counted_def)
  with assms(1) show ?thesis by (auto simp: ReplicatePendingOnce_def counted_def)
qed

theorem replication_pass_drains_due_witness:
  "\<exists>s' r. ReplicatePendingOnce ex_digest_of (\<lambda>i q c. UpstreamUnavailable) ex_queued ex_writer 2000000 = (s', r, None) \<and> rr_Claimed r = 1"
proof -
  have "write_current ex_writer 2000000" "pending_ok (st_Pending ex_queued)" "\<not> st_Closed ex_queued"
    "length (filter (due ex_writer 2000000) (st_Pending ex_queued)) \<le> maximumReplicationBatch"
    "list_all (\<lambda>q. due ex_writer 2000000 q \<longrightarrow> claimable ex_digest_of ex_queued ex_writer q) (st_Pending ex_queued)"
    and n: "length (filter (due ex_writer 2000000) (st_Pending ex_queued)) = 1" by code_simp+
  then show ?thesis using replication_pass_drains_due [of ex_writer 2000000 ex_queued ex_digest_of "\<lambda>i q c. UpstreamUnavailable"]
    unfolding n by (auto simp: list_all_iff)
qed

end
