(* ===== verification/EdgeAuthority.thy ===== *)
theory EdgeAuthority
  imports LocalAuthorityProps EdgeReplication
begin

text \<open>
  The projection of a verified local authority into the read and write authority of the Edge
  (\<open>internal/edgecache/authority.go\<close>), and the sequence in which the Edge runtime loads a generation
  (\<open>internal/edgecache/runtime.go\<close>): install the anti-rollback record, then project. The instants of
  \<open>internal/localauthority\<close> count from year 1 and those of the Edge from the Unix epoch.
\<close>

definition unix_nano :: "int \<Rightarrow> int" where "unix_nano t = t + zero_time"

definition NewReadAuthority :: "Verified \<Rightarrow> int \<Rightarrow> ReadAuthority result" where
  "NewReadAuthority v now =
     (let d = vf_document v; c = op_RemoteCache (do_Policy d) in
      if now = zero_time \<or> \<not> unix_nano (verified_ExpiresAt v) > now \<or> \<not> rc_Read c \<or> \<not> AllowsAction v ''REMOTE_CACHE_ALLOWLISTED'' \<or>
         do_AuthorityDigest d = [] \<or> ri_Tenant (do_Repository d) = [] \<or> ri_Repository (do_Repository d) = [] \<or>
         ri_TrustDomain (do_Repository d) = [] \<or> rc_Namespace c = [] \<or> rc_NamespaceGeneration c < 1 \<or>
         rv_RevocationEpoch (do_Revocation d) < 1 \<or> rv_CumulativeStateDigest (do_Revocation d) = [] \<or>
         rv_L1SecurityGeneration (do_Revocation d) < 1
      then Inl ''Edge read authority is absent, expired, or incomplete''
      else Inr \<lparr>ra_tenant = ri_Tenant (do_Repository d), ra_repository = ri_Repository (do_Repository d),
             ra_trustDomain = ri_TrustDomain (do_Repository d), ra_namespace = rc_Namespace c, ra_namespaceGeneration = rc_NamespaceGeneration c,
             ra_authorityDigest = do_AuthorityDigest d, ra_revocationEpoch = rv_RevocationEpoch (do_Revocation d),
             ra_revocationDigest = rv_CumulativeStateDigest (do_Revocation d), ra_l1SecurityGeneration = rv_L1SecurityGeneration (do_Revocation d),
             ra_expiresAt = unix_nano (verified_ExpiresAt v)\<rparr>)"

text \<open>
  The lease is parsed again with \<open>time.Parse\<close>, which also accepts a numeric offset; every document that
  passed the semantic validation has a lease that ends in \<open>Z\<close>, so \<open>parse_nano\<close> decides it.
\<close>

definition NewWriteAuthority :: "Verified \<Rightarrow> int \<Rightarrow> WriteAuthority result" where
  "NewWriteAuthority v now =
     (let d = vf_document v; c = op_RemoteCache (do_Policy d);
          failed = Inl ''Edge write authority is absent, expired, or incomplete'' in
      case parse_nano (at_LeaseExpiresAt (do_Attempt d)) of
        None \<Rightarrow> failed
      | Some lease \<Rightarrow>
          if now = zero_time \<or> \<not> unix_nano (verified_ExpiresAt v) > now \<or> \<not> unix_nano lease > now \<or> \<not> at_AllowWrite (do_Attempt d) \<or>
             rc_Write c \<noteq> ''TRUSTED_CI_ONLY'' \<or> \<not> AllowsAction v ''REMOTE_CACHE_ALLOWLISTED'' \<or> do_AuthorityDigest d = [] \<or>
             ri_Tenant (do_Repository d) = [] \<or> ri_Repository (do_Repository d) = [] \<or> ri_TrustDomain (do_Repository d) = [] \<or>
             rc_Namespace c = [] \<or> rc_NamespaceGeneration c < 1 \<or> at_AttemptID (do_Attempt d) = [] \<or>
             rv_RevocationEpoch (do_Revocation d) < 1 \<or> rv_CumulativeStateDigest (do_Revocation d) = [] \<or>
             rv_L1SecurityGeneration (do_Revocation d) < 1
          then failed
          else let e = unix_nano (verified_ExpiresAt v) in
            Inr \<lparr>wa_tenant = ri_Tenant (do_Repository d), wa_repository = ri_Repository (do_Repository d),
              wa_trustDomain = ri_TrustDomain (do_Repository d), wa_namespace = rc_Namespace c, wa_namespaceGeneration = rc_NamespaceGeneration c,
              wa_authorityDigest = do_AuthorityDigest d, wa_revocationEpoch = rv_RevocationEpoch (do_Revocation d),
              wa_revocationDigest = rv_CumulativeStateDigest (do_Revocation d), wa_l1SecurityGeneration = rv_L1SecurityGeneration (do_Revocation d),
              wa_attemptID = at_AttemptID (do_Attempt d), wa_expiresAt = (if unix_nano lease < e then unix_nano lease else e)\<rparr>)"

text \<open>
  Loading a generation from a document that the semantic validation accepted: the record is installed, then both
  authorities are projected, the write authority only for an attempt that may write.
\<close>

definition project_authorities :: "Verified \<Rightarrow> int \<Rightarrow> (ReadAuthority \<times> WriteAuthority option) result" where
  "project_authorities v now =
     (case NewReadAuthority v now of
        Inl e \<Rightarrow> Inl e
      | Inr r \<Rightarrow>
          if at_AllowWrite (do_Attempt (vf_document v))
          then (case NewWriteAuthority v now of Inl e \<Rightarrow> Inl e | Inr w \<Rightarrow> Inr (r, Some w))
          else Inr (r, None))"

definition loadGeneration ::
    "(string \<Rightarrow> string) \<Rightarrow> iteration \<Rightarrow> error option \<Rightarrow> write_outcome \<Rightarrow> state_files \<Rightarrow> Document \<Rightarrow> string \<Rightarrow> int \<Rightarrow> string \<Rightarrow>
      state_files \<times> (ReadAuthority \<times> WriteAuthority option) result" where
  "loadGeneration sha256_hex iter lock outcome files d credential now installedAt =
     (case validateSemantics sha256_hex iter d credential now of
        Inl e \<Rightarrow> (files, Inl e)
      | Inr w \<Rightarrow>
          (case Install sha256_hex lock outcome files d installedAt of
             (files', Inl e) \<Rightarrow> (files', Inl (''install Edge anti-rollback state: '' @ e))
           | (files', Inr _) \<Rightarrow> (files', project_authorities (make_verified d w) (unix_nano now))))"

section \<open>Facts\<close>

lemma minTime_three: "minTime [a, b, c] = min a (min b c)"
  by (auto simp: minTime_def min_def)

lemma accepted_expiry:
  assumes "validity_window d now = Inr (issued, expires, rev_until, lease)"
  shows "verified_ExpiresAt (make_verified d (issued, expires, rev_until, lease)) = lease"
  using validity_window_Inr [OF assms] by (simp add: verified_ExpiresAt_def make_verified_def minTime_three)

lemma NewReadAuthority_Inr:
  assumes "NewReadAuthority v now = Inr a"
  shows "rc_Read (op_RemoteCache (do_Policy (vf_document v)))" "now < ra_expiresAt a"
    "a = \<lparr>ra_tenant = ri_Tenant (do_Repository (vf_document v)), ra_repository = ri_Repository (do_Repository (vf_document v)),
       ra_trustDomain = ri_TrustDomain (do_Repository (vf_document v)), ra_namespace = rc_Namespace (op_RemoteCache (do_Policy (vf_document v))),
       ra_namespaceGeneration = rc_NamespaceGeneration (op_RemoteCache (do_Policy (vf_document v))),
       ra_authorityDigest = do_AuthorityDigest (vf_document v), ra_revocationEpoch = rv_RevocationEpoch (do_Revocation (vf_document v)),
       ra_revocationDigest = rv_CumulativeStateDigest (do_Revocation (vf_document v)),
       ra_l1SecurityGeneration = rv_L1SecurityGeneration (do_Revocation (vf_document v)), ra_expiresAt = unix_nano (verified_ExpiresAt v)\<rparr>"
  using assms by (auto simp: NewReadAuthority_def Let_def split: if_splits)

lemma NewWriteAuthority_Inr:
  assumes "NewWriteAuthority v now = Inr a"
  shows "at_AllowWrite (do_Attempt (vf_document v))" "rc_Write (op_RemoteCache (do_Policy (vf_document v))) = ''TRUSTED_CI_ONLY''"
    "wa_authorityDigest a = do_AuthorityDigest (vf_document v)" "wa_attemptID a = at_AttemptID (do_Attempt (vf_document v))"
    "wa_expiresAt a \<le> unix_nano (verified_ExpiresAt v)"
  using assms by (auto simp: NewWriteAuthority_def Let_def split: if_splits option.splits)

lemma Install_record:
  assumes "Install sha256_hex lock outcome files d installedAt = (files', Inr x)"
  shows "\<exists>rec. files' (ScopeDigest sha256_hex (do_Repository d)) = Some rec \<and> equivalentState rec (StateFromVerified sha256_hex d installedAt)"
proof -
  define n where "n = StateFromVerified sha256_hex d installedAt"
  have scope: "st_ScopeDigest n = ScopeDigest sha256_hex (do_Repository d)" by (simp add: n_def fresh_state)
  have fresh: "\<not> equivalentState zero_state n" by (simp add: n_def fresh_state)
  have same: "equivalentState n n" by (simp add: equivalentState_def)
  from assms have "\<exists>c. readState sha256_hex files (st_ScopeDigest n) = Inr c \<and>
      ((equivalentState c n \<and> files' = files) \<or> files' = files(st_ScopeDigest n \<mapsto> n))"
    unfolding Install_def Let_def n_def [symmetric]
    by (auto split: option.splits sum.splits if_splits write_outcome.splits)
  then obtain c where c: "readState sha256_hex files (st_ScopeDigest n) = Inr c"
    "(equivalentState c n \<and> files' = files) \<or> files' = files(st_ScopeDigest n \<mapsto> n)" by blast
  from c(2) show ?thesis
  proof
    assume e: "equivalentState c n \<and> files' = files"
    with c(1) fresh have "files (st_ScopeDigest n) = Some c" by (auto simp: readState_Inr)
    with e show ?thesis by (auto simp: n_def fresh_state)
  qed (use same in \<open>simp add: n_def fresh_state\<close>)
qed

lemma loadGeneration_Inr:
  assumes "loadGeneration sha256_hex iter lock outcome files d credential now installedAt = (files', Inr (r, w))"
  obtains issued expires rev_until lease x where
    "validateSemantics sha256_hex iter d credential now = Inr (issued, expires, rev_until, lease)"
    "Install sha256_hex lock outcome files d installedAt = (files', Inr x)"
    "NewReadAuthority (make_verified d (issued, expires, rev_until, lease)) (unix_nano now) = Inr r"
    "\<And>u. w = Some u \<Longrightarrow> NewWriteAuthority (make_verified d (issued, expires, rev_until, lease)) (unix_nano now) = Inr u"
  using assms by (auto simp: loadGeneration_def project_authorities_def split: sum.splits prod.splits if_splits)

lemma equivalent_generations:
  assumes "equivalentState rec (StateFromVerified sha256_hex d installedAt)"
  shows "st_Repository rec = do_Repository d" "st_NamespaceGeneration rec = rc_NamespaceGeneration (op_RemoteCache (do_Policy d))"
    "st_RevocationEpoch rec = rv_RevocationEpoch (do_Revocation d)" "st_RevocationDigest rec = rv_CumulativeStateDigest (do_Revocation d)"
    "st_L1SecurityGeneration rec = rv_L1SecurityGeneration (do_Revocation d)" "st_Namespace rec = rc_Namespace (op_RemoteCache (do_Policy d))"
  using assms by (cases rec; simp add: equivalentState_def StateFromVerified_def)+

lemma put_pending_row:
  assumes "PutPendingDurable digest_of s a key sz body now = (s', Inr w)"
  shows "write_current a now" "\<exists>q\<in>set (st_Pending s'). pending_id q = (wa_authorityDigest a, wa_attemptID a, key) \<and> q_BlobDigest q = pw_Digest w \<and> q_SizeBytes q = sz"
proof -
  from assms obtain s1 r s2 where input: "write_current a now"
    and p: "put_pending_locked digest_of s1 a key sz body now = (s2, Inr w)" and s': "s' = fst (release s2 r)"
    by (auto simp: PutPendingDurable_def split: if_splits sum.splits prod.splits)
  then show "write_current a now" by simp
  have "st_Pending s' = st_Pending s2" unfolding s' by (simp add: release_def)
  moreover from p have "\<exists>q\<in>set (st_Pending s2). pending_id q = (wa_authorityDigest a, wa_attemptID a, key) \<and> q_BlobDigest q = pw_Digest w \<and> q_SizeBytes q = sz"
  proof (cases rule: put_pending_cases)
    case (published s3 added)
    let ?q = "new_pending s1 a key (digest_of (spooled s1 body)) sz now"
    have q: "pending_id ?q = (wa_authorityDigest a, wa_attemptID a, key)" "q_BlobDigest ?q = pw_Digest w" "q_SizeBytes ?q = sz"
      using published(3) by (simp_all add: new_pending_def pending_id_def Let_def)
    show ?thesis
    proof (cases "find (\<lambda>x. pending_id x = pending_id ?q) (st_Pending s3)")
      case None
      with published(2) q have "?q\<lparr>q_State := pendingQueued, q_ReplicationAttempts := 0, q_NextRetryUnixMillis := 0, q_LastErrorClass := []\<rparr> \<in> set (st_Pending s2)"
        by (auto simp: publishPendingLocked_def split: if_splits)
      then show ?thesis by (rule bexI [rotated]) (use q in \<open>simp add: pending_id_def\<close>)
    next
      case (Some y)
      then have "y \<in> set (st_Pending s3)" "pending_id y = pending_id ?q" by (auto simp: find_Some_iff)
      with Some published(2) q show ?thesis by (auto simp: publishPendingLocked_def split: if_splits intro!: bexI [of _ y])
    qed
  qed simp_all
  ultimately show "\<exists>q\<in>set (st_Pending s'). pending_id q = (wa_authorityDigest a, wa_attemptID a, key) \<and> q_BlobDigest q = pw_Digest w \<and> q_SizeBytes q = sz"
    by simp
qed

section \<open>A concrete generation\<close>

abbreviation ex_unix :: int where "ex_unix \<equiv> unix_nano ex_now"

definition ex_edge_reader :: ReadAuthority where
  "ex_edge_reader = \<lparr>ra_tenant = ''tenant'', ra_repository = ''org/repo'', ra_trustDomain = ''ci'', ra_namespace = ''team/main'',
     ra_namespaceGeneration = 1, ra_authorityDigest = LocalAuthorityProps.ex_digest, ra_revocationEpoch = 2,
     ra_revocationDigest = LocalAuthorityProps.ex_digest, ra_l1SecurityGeneration = 5, ra_expiresAt = 1767333600500000000\<rparr>"

definition ex_edge_writer :: WriteAuthority where
  "ex_edge_writer = \<lparr>wa_tenant = ''tenant'', wa_repository = ''org/repo'', wa_trustDomain = ''ci'', wa_namespace = ''team/main'',
     wa_namespaceGeneration = 1, wa_authorityDigest = LocalAuthorityProps.ex_digest, wa_revocationEpoch = 2,
     wa_revocationDigest = LocalAuthorityProps.ex_digest, wa_l1SecurityGeneration = 5, wa_attemptID = ''attempt-1'', wa_expiresAt = 1767333600500000000\<rparr>"

lemma loadGeneration_fresh:
  assumes "validateSemantics sha256_hex (\<lambda>xs. xs) d credential now = Inr w" "lower_hex_len 64 (ScopeDigest sha256_hex (do_Repository d))"
    and "\<not> isl (parseTimestamp installedAt)" "project_authorities (make_verified d w) (unix_nano now) = res"
  shows "\<exists>files'. loadGeneration sha256_hex (\<lambda>xs. xs) None Written (\<lambda>_. None) d credential now installedAt = (files', res)"
proof -
  have "validateState sha256_hex (StateFromVerified sha256_hex d installedAt) = None"
    by (rule accepted_state_valid [OF assms(1) _ assms(2,3)]) simp
  from fresh_install [OF this, of "\<lambda>_. None"] assms(1,4) show ?thesis by (simp add: loadGeneration_def)
qed

lemma ex_project:
  "project_authorities (make_verified ex_document (63902822400000000000, 63904464000000000000, 63905500800000000000, 63902930400500000000)) (unix_nano ex_now) =
     Inr (ex_edge_reader, Some ex_edge_writer)"
  by code_simp

lemma ex_generation:
  "\<exists>files'. loadGeneration LocalAuthorityProps.ex_sha (\<lambda>xs. xs) None Written (\<lambda>_. None) ex_document ''secret'' ex_now ex_installed =
     (files', Inr (ex_edge_reader, Some ex_edge_writer))"
  by (rule loadGeneration_fresh [OF ex_accepted _ ex_times(1) ex_project]) (simp add: ex_scope)

lemma ex_edge_read:
  "\<exists>s s'. OpenCommitted ex_digest_of s ex_edge_reader ''k'' (ex_unix + 2000000) = (s', Inr ''hello'')"
proof -
  have "snd (OpenCommitted ex_digest_of (fst (ReadThrough ex_digest_of ex_fetch ex_store ex_edge_reader ''k'' ex_unix))
      ex_edge_reader ''k'' (ex_unix + 2000000)) = Inr ''hello''" by code_simp
  then show ?thesis by (metis prod.collapse)
qed

lemma ex_edge_write:
  "\<exists>s'. PutPendingDurable ex_digest_of ex_store ex_edge_writer ''k'' 5 ''hello'' ex_unix =
     (s', Inr \<lparr>pw_Digest = ex_digest_of ''hello'', pw_Size = 5, pw_Added = True\<rparr>)"
proof -
  have "snd (PutPendingDurable ex_digest_of ex_store ex_edge_writer ''k'' 5 ''hello'' ex_unix) =
     Inr \<lparr>pw_Digest = ex_digest_of ''hello'', pw_Size = 5, pw_Added = True\<rparr>" by code_simp
  then show ?thesis by (metis prod.collapse)
qed

end
