(* ===== verification/EdgeComposition.thy ===== *)
theory EdgeComposition
  imports EdgeAuthority
begin

text \<open>
  The composition of the local authority with the Edge cache: what the Edge serves and accepts under a loaded
  document.
\<close>

section \<open>From a signed document to a served object\<close>

text \<open>
  (C4) The Edge serves only what the loaded authority covers. Let a generation be loaded from a document (its
  semantics validated, its anti-rollback record installed, its authorities projected), and let a committed read with its
  read authority return bytes at a later instant. Then the policy allows reading; the instant lies before the attempt lease
  ends, which is at most 24 hours after the loading; the row served belongs to the document's repository and authority;
  the durable anti-rollback record of the scope has exactly the row's namespace generation, revocation epoch and digest and L1
  generation, so no row of an older or revoked generation is served; and the bytes have the digest and size of the row.
\<close>

theorem edge_read_within_authority:
  assumes "loadGeneration sha256_hex iter lock outcome files d credential now installedAt = (files', Inr (r, w))"
    and "OpenCommitted digest_of s r key later = (s', Inr content)"
  shows "rc_Read (op_RemoteCache (do_Policy d)) \<and>
    (\<exists>issued expires rev_until lease. validateSemantics sha256_hex iter d credential now = Inr (issued, expires, rev_until, lease) \<and>
       later < unix_nano lease \<and> lease - now \<le> maximumAttemptLifetime) \<and>
    (\<exists>e\<in>set (st_Entries s). \<exists>rec. files' (ScopeDigest sha256_hex (do_Repository d)) = Some rec \<and> e_Key e = key \<and>
       e_Tenant e = ri_Tenant (do_Repository d) \<and> e_Repository e = ri_Repository (do_Repository d) \<and>
       e_TrustDomain e = ri_TrustDomain (do_Repository d) \<and> e_AuthorityDigest e = do_AuthorityDigest d \<and>
       e_Namespace e = st_Namespace rec \<and> e_NamespaceGeneration e = st_NamespaceGeneration rec \<and>
       e_RevocationEpoch e = st_RevocationEpoch rec \<and> e_RevocationDigest e = st_RevocationDigest rec \<and>
       e_L1SecurityGeneration e = st_L1SecurityGeneration rec \<and>
       digest_of content = e_BlobDigest e \<and> int (length content) = e_SizeBytes e)"
proof -
  from assms(1) obtain issued expires rev_until lease x where
    v: "validateSemantics sha256_hex iter d credential now = Inr (issued, expires, rev_until, lease)"
    and i: "Install sha256_hex lock outcome files d installedAt = (files', Inr x)"
    and r: "NewReadAuthority (make_verified d (issued, expires, rev_until, lease)) (unix_nano now) = Inr r"
    by (rule loadGeneration_Inr)
  have doc: "vf_document (make_verified d (issued, expires, rev_until, lease)) = d" by (simp add: make_verified_def)
  note proj = NewReadAuthority_Inr [OF r, unfolded doc]
  from v have win: "validity_window d now = Inr (issued, expires, rev_until, lease)" by (simp add: validateSemantics_Inr)
  have exp: "ra_expiresAt r = unix_nano lease" using proj(3) accepted_expiry [OF win] by simp
  from Install_record [OF i] obtain rec where rec: "files' (ScopeDigest sha256_hex (do_Repository d)) = Some rec"
    "equivalentState rec (StateFromVerified sha256_hex d installedAt)" by blast
  from assms(2) obtain e where e: "servable digest_of s r key later e content" by (auto simp: OpenCommitted_Inr)
  then have "e \<in> set (st_Entries s)" "e_Key e = key"
    using loadEntry_Some [of s r key e] entry_id_key by (auto simp: servable_def)
  moreover from e have "later < unix_nano lease" by (simp add: servable_def read_current_def exp)
  moreover from e have "read_matches r e" "digest_of content = e_BlobDigest e" "int (length content) = e_SizeBytes e"
    by (simp_all add: servable_def)
  ultimately show ?thesis using v rec(1) proj(1) validity_window_Inr(6) [OF win] equivalent_generations [OF rec(2)]
    unfolding read_matches_def proj(3) by (auto intro!: bexI [of _ e])
qed

theorem edge_read_within_authority_witness:
  "\<exists>(s :: Store) (e :: storedEntry) (rec :: State). e \<in> set (st_Entries s) \<and> e_Repository e = ''org/repo'' \<and> e_RevocationEpoch e = st_RevocationEpoch rec"
proof -
  obtain files' where g: "loadGeneration LocalAuthorityProps.ex_sha (\<lambda>xs. xs) None Written (\<lambda>_. None) ex_document ''secret'' ex_now ex_installed =
     (files', Inr (ex_edge_reader, Some ex_edge_writer))" using ex_generation by blast
  obtain s s' where "OpenCommitted ex_digest_of s ex_edge_reader ''k'' (ex_unix + 2000000) = (s', Inr ''hello'')" using ex_edge_read by blast
  from edge_read_within_authority [OF g this] obtain e and rec :: State where "e \<in> set (st_Entries s)" "e_Repository e = ri_Repository (do_Repository ex_document)"
    "e_RevocationEpoch e = st_RevocationEpoch rec" by blast
  moreover have "ri_Repository (do_Repository ex_document) = ''org/repo''" by (simp add: ex_document_def)
  ultimately show ?thesis by metis
qed

text \<open>
  (C6) A pending write needs a grant to write. If a generation loaded from a document carries a write authority and a
  pending write with it succeeds, then the attempt may write, the policy restricts writing to trusted CI and enables
  CI, the write happened before the lease ended, and the queue holds a row for the key under the document's authority and attempt
  with the digest and size written.
\<close>

theorem edge_write_within_authority:
  assumes "loadGeneration sha256_hex iter lock outcome files d credential now installedAt = (files', Inr (r, Some w))"
    and "PutPendingDurable digest_of s w key sz body later = (s', Inr p)"
  shows "at_AllowWrite (do_Attempt d) \<and> rc_Write (op_RemoteCache (do_Policy d)) = ''TRUSTED_CI_ONLY'' \<and>
    ab_EnabledInCI (op_AffectedBuild (do_Policy d)) \<and>
    (\<exists>issued expires rev_until lease. validateSemantics sha256_hex iter d credential now = Inr (issued, expires, rev_until, lease) \<and>
       later < unix_nano lease \<and> lease - now \<le> maximumAttemptLifetime) \<and>
    (\<exists>q\<in>set (st_Pending s'). q_AuthorityDigest q = do_AuthorityDigest d \<and> q_AttemptID q = at_AttemptID (do_Attempt d) \<and> q_Key q = key \<and>
       q_BlobDigest q = pw_Digest p \<and> q_SizeBytes q = sz)"
proof -
  from assms(1) obtain issued expires rev_until lease where
    v: "validateSemantics sha256_hex iter d credential now = Inr (issued, expires, rev_until, lease)"
    and w: "NewWriteAuthority (make_verified d (issued, expires, rev_until, lease)) (unix_nano now) = Inr w"
    by (rule loadGeneration_Inr) blast
  have doc: "vf_document (make_verified d (issued, expires, rev_until, lease)) = d" by (simp add: make_verified_def)
  note proj = NewWriteAuthority_Inr [OF w, unfolded doc]
  from v have win: "validity_window d now = Inr (issued, expires, rev_until, lease)"
    and ok: "semantic_checks sha256_hex iter d credential = None" by (simp_all add: validateSemantics_Inr)
  from put_pending_row(1) [OF assms(2)] have "later < unix_nano lease"
    using proj(5) accepted_expiry [OF win] by (simp add: write_current_def)
  moreover from put_pending_row(2) [OF assms(2)] obtain q where "q \<in> set (st_Pending s')"
    "pending_id q = (wa_authorityDigest w, wa_attemptID w, key)" "q_BlobDigest q = pw_Digest p" "q_SizeBytes q = sz" by blast
  ultimately show ?thesis using v proj semantic_checks_None(4) [OF ok] validity_window_Inr(6) [OF win]
    by (auto simp: pending_id_def intro!: bexI [of _ q])
qed

theorem edge_write_within_authority_witness:
  "at_AllowWrite (do_Attempt ex_document) \<and> (\<exists>(s :: Store) (q :: pendingEntry). q \<in> set (st_Pending s) \<and> q_AttemptID q = ''attempt-1'' \<and> q_Key q = ''k'')"
proof -
  obtain files' where g: "loadGeneration LocalAuthorityProps.ex_sha (\<lambda>xs. xs) None Written (\<lambda>_. None) ex_document ''secret'' ex_now ex_installed =
     (files', Inr (ex_edge_reader, Some ex_edge_writer))" using ex_generation by blast
  obtain s' where "PutPendingDurable ex_digest_of ex_store ex_edge_writer ''k'' 5 ''hello'' ex_unix =
     (s', Inr \<lparr>pw_Digest = ex_digest_of ''hello'', pw_Size = 5, pw_Added = True\<rparr>)" using ex_edge_write by blast
  from edge_write_within_authority [OF g this] obtain q where "at_AllowWrite (do_Attempt ex_document)" "q \<in> set (st_Pending s')"
    "q_AttemptID q = at_AttemptID (do_Attempt ex_document)" "q_Key q = ''k''" by blast
  moreover have "at_AttemptID (do_Attempt ex_document) = ''attempt-1''" by (simp add: ex_document_def)
  ultimately show ?thesis by metis
qed

text \<open>
  The read authority of the Edge does not look at \<open>Attempt.AllowRead\<close>: a document whose attempt may write but not
  read passes the semantic validation, and the loaded generation carries a read authority.
\<close>

definition ex_write_only :: Document where
  "ex_write_only = ex_document\<lparr>do_Attempt := (do_Attempt ex_document)\<lparr>at_AllowRead := False\<rparr>\<rparr>"

theorem write_only_attempt_gets_read_authority:
  "\<not> at_AllowRead (do_Attempt ex_write_only) \<and>
   (\<exists>files'. loadGeneration LocalAuthorityProps.ex_sha (\<lambda>xs. xs) None Written (\<lambda>_. None) ex_write_only ''secret'' ex_now ex_installed =
     (files', Inr (ex_edge_reader, Some ex_edge_writer)))"
proof
  show "\<not> at_AllowRead (do_Attempt ex_write_only)" by (simp add: ex_write_only_def)
  have v: "validateSemantics LocalAuthorityProps.ex_sha (\<lambda>xs. xs) ex_write_only ''secret'' ex_now =
      Inr (63902822400000000000, 63904464000000000000, 63905500800000000000, 63902930400500000000)" by code_simp
  have "project_authorities (make_verified ex_write_only (63902822400000000000, 63904464000000000000, 63905500800000000000, 63902930400500000000))
      (unix_nano ex_now) = Inr (ex_edge_reader, Some ex_edge_writer)" by code_simp
  then show "\<exists>files'. loadGeneration LocalAuthorityProps.ex_sha (\<lambda>xs. xs) None Written (\<lambda>_. None) ex_write_only ''secret'' ex_now ex_installed =
     (files', Inr (ex_edge_reader, Some ex_edge_writer))"
    by (intro loadGeneration_fresh [OF v _ ex_times(1)]) (simp_all add: ex_scope)
qed

end
