(* ===== verification/NativeVolatility.thy ===== *)
theory NativeVolatility
  imports GoPath "HOL-Library.Multiset"
begin

text \<open>
  \<open>internal/nativevolatility/quarantine.go\<close>: two independent native builds of the same request are compared
  output by output; the producers of outputs that differ are quarantined, and the rest may be transported.

  SHA-256 in hexadecimal is the parameter \<open>sha256_hex\<close>. Go's map iteration order is unspecified: \<open>iter\<close> is the
  order in which the loop of \<open>Analyze\<close> visits the entries of the first observation, an arbitrary permutation.
  \<open>Observe\<close> and \<open>secureObservationPath\<close>, which read the file system, are outside the model.
\<close>

section \<open>Data\<close>

abbreviation ObservationSchema :: string where "ObservationSchema \<equiv> ''buildopt.poc/native-output-observation/v1''"
abbreviation ResultSchema :: string where "ResultSchema \<equiv> ''buildopt.poc/native-volatility-quarantine/v1''"
abbreviation DecisionTransportReady :: string where "DecisionTransportReady \<equiv> ''TRANSPORT_READY''"
abbreviation DecisionNativeRetained :: string where "DecisionNativeRetained \<equiv> ''NATIVE_RETAINED''"
abbreviation ReasonExact :: string where "ReasonExact \<equiv> ''INDEPENDENT_NATIVE_OUTPUTS_EXACT''"
abbreviation ReasonQuarantined :: string where "ReasonQuarantined \<equiv> ''VOLATILE_PRODUCERS_QUARANTINED''"
abbreviation ReasonInvalidEvidence :: string where "ReasonInvalidEvidence \<equiv> ''NATIVE_OUTPUT_EVIDENCE_INVALID''"
abbreviation ReasonBindingMismatch :: string where "ReasonBindingMismatch \<equiv> ''NATIVE_OUTPUT_BINDING_MISMATCH''"
abbreviation ReasonPathMismatch :: string where "ReasonPathMismatch \<equiv> ''NATIVE_OUTPUT_PATH_SET_MISMATCH''"
abbreviation ReasonProducerAmbiguous :: string where "ReasonProducerAmbiguous \<equiv> ''NATIVE_OUTPUT_PRODUCER_AMBIGUOUS''"

definition maximumOutputs :: int where "maximumOutputs = 250000"

record Entry =
  n_Path :: string
  n_SHA256 :: string
  n_ProducerTasks :: "string list"
  n_ProducerLineage :: "string list"

record Observation =
  ob_SchemaVersion :: string
  ob_BindingSHA256 :: string
  ob_Entries :: "Entry list"

record Result =
  rs_SchemaVersion :: string
  rs_Decision :: string
  rs_Reason :: string
  rs_BindingSHA256 :: string
  rs_FirstObservationSHA :: string
  rs_SecondObservationSHA :: string
  rs_ComparedOutputCount :: int
  rs_VolatilePaths :: "string list"
  rs_QuarantinedProducers :: "string list"
  rs_QuarantinedOutputs :: "Entry list"
  rs_TransportedOutputs :: "Entry list"
  rs_TransportSHA256 :: string
  rs_ProductionAuthorized :: bool
  rs_TestOptimization :: string

section \<open>Helpers\<close>

definition validSHA :: "string \<Rightarrow> bool" where
  "validSHA v = lower_hex_len 64 v"

definition validRelativePath :: "string \<Rightarrow> bool" where
  "validRelativePath p = (p \<noteq> [] \<and> p \<noteq> ''.'' \<and> CHR 0x5C \<notin> set p \<and> \<not> hasPrefix ''/'' p \<and> p \<noteq> ''..'' \<and>
     \<not> hasPrefix ''../'' p \<and> CHR 0x00 \<notin> set p)"

fun uniqueNonEmpty :: "string list \<Rightarrow> bool" where
  "uniqueNonEmpty [] = True"
| "uniqueNonEmpty [v] = (v \<noteq> [])"
| "uniqueNonEmpty (v # w # vs) = (v \<noteq> [] \<and> v \<noteq> w \<and> uniqueNonEmpty (w # vs))"

definition intersects :: "string list \<Rightarrow> string set \<Rightarrow> bool" where
  "intersects values S = list_ex (\<lambda>v. v \<in> S) values"

definition entryIntersects :: "Entry \<Rightarrow> string set \<Rightarrow> bool" where
  "entryIntersects e S = (intersects (n_ProducerTasks e) S \<or> intersects (n_ProducerLineage e) S)"

definition cloneEntry :: "Entry \<Rightarrow> Entry" where
  "cloneEntry e = e\<lparr>n_ProducerTasks := sort (n_ProducerTasks e), n_ProducerLineage := sort (n_ProducerLineage e)\<rparr>"

definition sortEntries :: "Entry list \<Rightarrow> Entry list" where
  "sortEntries es = sort_key n_Path es"

definition entry_bytes :: "Entry \<Rightarrow> string" where
  "entry_bytes e = n_Path e @ [CHR 0x00] @ n_SHA256 e @ concat (map (\<lambda>p. CHR 0x00 # p) (n_ProducerTasks e)) @
     [CHR 0xFF] @ concat (map (\<lambda>p. CHR 0x00 # p) (n_ProducerLineage e)) @ [CHR 0x0A]"

definition entriesDigest :: "(string \<Rightarrow> string) \<Rightarrow> Entry list \<Rightarrow> string" where
  "entriesDigest sha256_hex es = sha256_hex (concat (map entry_bytes es))"

section \<open>Validation of observations\<close>

text \<open>The loop of \<open>validateObservation\<close>; a Go map from paths to entries is the list of the entries stored.\<close>

definition entry_valid :: "Entry \<Rightarrow> bool" where
  "entry_valid e = (path_clean (n_Path e) = n_Path e \<and> validRelativePath (n_Path e) \<and> validSHA (n_SHA256 e) \<and>
     n_ProducerTasks e \<noteq> [] \<and> uniqueNonEmpty (n_ProducerTasks e) \<and> uniqueNonEmpty (n_ProducerLineage e) \<and>
     \<not> intersects (n_ProducerLineage e) (set (n_ProducerTasks e)))"

fun entries_loop :: "Entry list \<Rightarrow> Entry list \<Rightarrow> Entry list result" where
  "entries_loop acc [] = Inr acc"
| "entries_loop acc (source # es) =
     (let entry = cloneEntry source in
      if \<not> entry_valid entry then Inl ''invalid native output entry''
      else if n_Path entry \<in> set (map n_Path acc) then Inl ''duplicate native output path''
      else entries_loop (acc @ [entry]) es)"

definition validateObservation ::
    "(string \<Rightarrow> string) \<Rightarrow> Observation \<Rightarrow> bool \<Rightarrow> (Entry list \<times> string) result" where
  "validateObservation sha256_hex ob allowEmpty =
     (if ob_SchemaVersion ob \<noteq> ObservationSchema \<or> \<not> validSHA (ob_BindingSHA256 ob) \<or>
         (\<not> allowEmpty \<and> length (ob_Entries ob) = 0) \<or> int (length (ob_Entries ob)) > maximumOutputs
      then Inl ''invalid native output observation''
      else case entries_loop [] (ob_Entries ob) of
        Inl err \<Rightarrow> Inl err
      | Inr entries \<Rightarrow> Inr (entries, entriesDigest sha256_hex (sortEntries entries)))"

definition entry_at :: "Entry list \<Rightarrow> string \<Rightarrow> Entry option" where
  "entry_at es p = find (\<lambda>e. n_Path e = p) es"

definition OutputContractSHA256 :: "(string \<Rightarrow> string) \<Rightarrow> Observation \<Rightarrow> string result" where
  "OutputContractSHA256 sha256_hex ob =
     (case validateObservation sha256_hex ob False of
        Inl err \<Rightarrow> Inl err
      | Inr (entries, _) \<Rightarrow>
          Inr (sha256_hex (''buildopt-native-output-contract-v1'' @ [CHR 0x00] @
            concat (map (\<lambda>e. n_Path e @ [CHR 0x00] @ concat (map (\<lambda>p. p @ [CHR 0x00]) (n_ProducerTasks e)) @ [CHR 0xFF])
              (sortEntries (map (\<lambda>e. e\<lparr>n_SHA256 := []\<rparr>) entries))))))"

section \<open>Analyze\<close>

definition retained :: Result where
  "retained = \<lparr>rs_SchemaVersion = ResultSchema, rs_Decision = DecisionNativeRetained, rs_Reason = ReasonInvalidEvidence,
     rs_BindingSHA256 = [], rs_FirstObservationSHA = [], rs_SecondObservationSHA = [], rs_ComparedOutputCount = 0,
     rs_VolatilePaths = [], rs_QuarantinedProducers = [], rs_QuarantinedOutputs = [], rs_TransportedOutputs = [],
     rs_TransportSHA256 = [], rs_ProductionAuthorized = False, rs_TestOptimization = ''OUT_OF_SCOPE''\<rparr>"

text \<open>The comparison loop: the volatile paths in the order of the visits and the quarantined producers; a mismatch
  returns its reason with the volatile paths collected so far.\<close>

fun compare_loop ::
    "Entry list \<Rightarrow> string list \<Rightarrow> string set \<Rightarrow> Entry list \<Rightarrow> (string \<times> string list) + (string list \<times> string set)" where
  "compare_loop second volatile quarantined [] = Inr (volatile, quarantined)"
| "compare_loop second volatile quarantined (left # es) =
     (case entry_at second (n_Path left) of
        None \<Rightarrow> Inl (ReasonPathMismatch, volatile)
      | Some right \<Rightarrow>
          if n_ProducerTasks left \<noteq> n_ProducerTasks right \<or> n_ProducerLineage left \<noteq> n_ProducerLineage right
          then Inl (ReasonProducerAmbiguous, volatile)
          else if n_SHA256 left \<noteq> n_SHA256 right
          then compare_loop second (volatile @ [n_Path left]) (quarantined \<union> set (n_ProducerTasks left)) es
          else compare_loop second volatile quarantined es)"

definition Analyze ::
    "(string \<Rightarrow> string) \<Rightarrow> (Entry list \<Rightarrow> Entry list) \<Rightarrow> Observation \<Rightarrow> Observation \<Rightarrow> Result" where
  "Analyze sha256_hex iter first second =
     (case validateObservation sha256_hex first False of
        Inl _ \<Rightarrow> retained
      | Inr (firstEntries, firstDigest) \<Rightarrow>
      (case validateObservation sha256_hex second False of
        Inl _ \<Rightarrow> retained
      | Inr (secondEntries, secondDigest) \<Rightarrow>
        let result = retained\<lparr>rs_BindingSHA256 := ob_BindingSHA256 first, rs_FirstObservationSHA := firstDigest,
              rs_SecondObservationSHA := secondDigest\<rparr> in
        if ob_BindingSHA256 first \<noteq> ob_BindingSHA256 second then result\<lparr>rs_Reason := ReasonBindingMismatch\<rparr>
        else if length firstEntries \<noteq> length secondEntries then result\<lparr>rs_Reason := ReasonPathMismatch\<rparr>
        else case compare_loop secondEntries [] {} (iter firstEntries) of
          Inl (reason, volatile) \<Rightarrow> result\<lparr>rs_Reason := reason, rs_VolatilePaths := volatile\<rparr>
        | Inr (volatile, quarantined) \<Rightarrow>
            let ordered = sortEntries (map cloneEntry firstEntries);
                transported = sortEntries (map cloneEntry (filter (\<lambda>e. \<not> entryIntersects e quarantined) ordered)) in
            result\<lparr>rs_VolatilePaths := sort volatile, rs_QuarantinedProducers := sortedKeys quarantined,
              rs_QuarantinedOutputs := sortEntries (map cloneEntry (filter (\<lambda>e. entryIntersects e quarantined) ordered)),
              rs_TransportedOutputs := transported, rs_ComparedOutputCount := int (length firstEntries),
              rs_TransportSHA256 := entriesDigest sha256_hex transported, rs_Decision := DecisionTransportReady,
              rs_Reason := (if length (sortedKeys quarantined) > 0 then ReasonQuarantined else ReasonExact)\<rparr>))"

section \<open>Validation of a result and of a candidate\<close>

definition ValidateResult :: "(string \<Rightarrow> string) \<Rightarrow> Result \<Rightarrow> error option" where
  "ValidateResult sha256_hex r =
     (if rs_SchemaVersion r \<noteq> ResultSchema \<or> rs_Decision r \<noteq> DecisionTransportReady \<or> rs_ProductionAuthorized r \<or>
         rs_TestOptimization r \<noteq> ''OUT_OF_SCOPE'' \<or> \<not> validSHA (rs_BindingSHA256 r) \<or>
         \<not> validSHA (rs_FirstObservationSHA r) \<or> \<not> validSHA (rs_SecondObservationSHA r) \<or>
         rs_ComparedOutputCount r < 1 \<or> rs_ComparedOutputCount r > maximumOutputs \<or>
         \<not> uniqueNonEmpty (rs_QuarantinedProducers r)
      then Some ''native volatility result is not transport-ready POC evidence''
      else if rs_Reason r \<noteq> ReasonExact \<and> rs_Reason r \<noteq> ReasonQuarantined
      then Some ''native volatility result reason is invalid''
      else let observed = (\<lambda>es. \<lparr>ob_SchemaVersion = ObservationSchema, ob_BindingSHA256 = rs_BindingSHA256 r, ob_Entries = es\<rparr>);
               producerSet = set (rs_QuarantinedProducers r) in
        case validateObservation sha256_hex (observed (rs_QuarantinedOutputs r)) True of
          Inl _ \<Rightarrow> Some ''native volatility quarantined output set is invalid''
        | Inr (quarantined, _) \<Rightarrow>
            (case validateObservation sha256_hex (observed (rs_TransportedOutputs r)) True of
               Inl _ \<Rightarrow> Some ''native volatility output partition is incomplete''
             | Inr (transported, _) \<Rightarrow>
                 if int (length quarantined + length transported) \<noteq> rs_ComparedOutputCount r
                 then Some ''native volatility output partition is incomplete''
                 else if list_ex (\<lambda>e. entry_at transported (n_Path e) \<noteq> None \<or> \<not> entryIntersects e producerSet) quarantined
                 then Some ''native volatility quarantine partition overlaps''
                 else if list_ex (\<lambda>e. entryIntersects e producerSet) transported
                 then Some ''native volatility transported output uses a quarantined producer''
                 else if rs_TransportSHA256 r \<noteq> entriesDigest sha256_hex (rs_TransportedOutputs r)
                 then Some ''native volatility transport plan was modified''
                 else if length (rs_QuarantinedProducers r) = 0 then
                   (if rs_Reason r \<noteq> ReasonExact \<or> length (rs_QuarantinedOutputs r) \<noteq> 0 \<or> length (rs_VolatilePaths r) \<noteq> 0
                    then Some ''native volatility exact partition is inconsistent'' else None)
                 else if rs_Reason r \<noteq> ReasonQuarantined \<or> length (rs_QuarantinedOutputs r) = 0 \<or>
                    length (rs_VolatilePaths r) = 0 \<or> \<not> uniqueNonEmpty (rs_VolatilePaths r)
                 then Some ''native volatility quarantine metadata is incomplete''
                 else if list_ex (\<lambda>p. entry_at quarantined p = None) (rs_VolatilePaths r)
                 then Some ''native volatility path is outside the quarantine''
                 else None))"

definition verifyExactSet :: "Entry list \<Rightarrow> Entry list \<Rightarrow> error option" where
  "verifyExactSet expected actual =
     (if length expected \<noteq> length actual then Some ''transported output set is incomplete''
      else each_err (\<lambda>e. case entry_at actual (n_Path e) of
               None \<Rightarrow> Some (''transported output '' @ n_Path e @ '' is not exact'')
             | Some obs \<Rightarrow> reject_if (n_SHA256 obs \<noteq> n_SHA256 e \<or> n_ProducerTasks obs \<noteq> n_ProducerTasks e \<or>
                   n_ProducerLineage obs \<noteq> n_ProducerLineage e)
                 (''transported output '' @ n_Path e @ '' is not exact'')) expected)"

definition verifyRebuiltSet :: "Entry list \<Rightarrow> Entry list \<Rightarrow> string list \<Rightarrow> error option" where
  "verifyRebuiltSet expected actual producers =
     (if length expected \<noteq> length actual then Some ''locally rebuilt output set is incomplete''
      else each_err (\<lambda>e. case entry_at actual (n_Path e) of
               None \<Rightarrow> Some (''quarantined output '' @ n_Path e @ '' was not rebuilt by its producer'')
             | Some obs \<Rightarrow> reject_if (n_ProducerTasks obs \<noteq> n_ProducerTasks e \<or> n_ProducerLineage obs \<noteq> n_ProducerLineage e \<or>
                   \<not> entryIntersects obs (set producers))
                 (''quarantined output '' @ n_Path e @ '' was not rebuilt by its producer'')) expected)"

definition VerifyCandidate :: "(string \<Rightarrow> string) \<Rightarrow> Result \<Rightarrow> Observation \<Rightarrow> Observation \<Rightarrow> error option" where
  "VerifyCandidate sha256_hex r reused rebuilt =
     (case ValidateResult sha256_hex r of
        Some err \<Rightarrow> Some err
      | None \<Rightarrow>
          if ob_BindingSHA256 reused \<noteq> rs_BindingSHA256 r \<or> ob_BindingSHA256 rebuilt \<noteq> rs_BindingSHA256 r
          then Some ''candidate output binding mismatch''
          else case validateObservation sha256_hex reused True of
            Inl err \<Rightarrow> Some (''validate reused outputs: '' @ err)
          | Inr (reusedEntries, _) \<Rightarrow>
              (case validateObservation sha256_hex rebuilt True of
                 Inl err \<Rightarrow> Some (''validate rebuilt outputs: '' @ err)
               | Inr (rebuiltEntries, _) \<Rightarrow>
                   (case verifyExactSet (rs_TransportedOutputs r) reusedEntries of
                      Some err \<Rightarrow> Some (''verify transported outputs: '' @ err)
                    | None \<Rightarrow> wrap_err ''verify rebuilt outputs: ''
                        (verifyRebuiltSet (rs_QuarantinedOutputs r) rebuiltEntries (rs_QuarantinedProducers r)))))"

section \<open>Facts\<close>

lemma uniqueNonEmpty_iff: "uniqueNonEmpty vs \<longleftrightarrow> [] \<notin> set vs \<and> distinct_adj vs"
  by (induction vs rule: uniqueNonEmpty.induct) auto

lemma uniqueNonEmpty_distinct: "[] \<notin> set vs \<Longrightarrow> distinct vs \<Longrightarrow> uniqueNonEmpty vs"
  by (induction vs rule: uniqueNonEmpty.induct) auto

lemma cloneEntry_keeps [simp]:
  "n_Path (cloneEntry e) = n_Path e" "n_SHA256 (cloneEntry e) = n_SHA256 e"
  "set (n_ProducerTasks (cloneEntry e)) = set (n_ProducerTasks e)" "set (n_ProducerLineage (cloneEntry e)) = set (n_ProducerLineage e)"
  "cloneEntry (cloneEntry e) = cloneEntry e"
  by (simp_all add: cloneEntry_def sort_key_id_if_sorted)

text \<open>Normal entries: what \<open>validateObservation\<close> stores.\<close>

definition normal :: "Entry list \<Rightarrow> bool" where
  "normal es \<longleftrightarrow> distinct (map n_Path es) \<and> (\<forall>e\<in>set es. entry_valid e \<and> cloneEntry e = e)"

lemma entries_loop_iff:
  "distinct (map n_Path acc) \<Longrightarrow> entries_loop acc es = Inr entries \<longleftrightarrow>
     entries = acc @ map cloneEntry es \<and> distinct (map n_Path (acc @ map cloneEntry es)) \<and> (\<forall>e\<in>set es. entry_valid (cloneEntry e))"
proof (induction es arbitrary: acc)
  case (Cons x es)
  show ?case
  proof (cases "entry_valid (cloneEntry x) \<and> n_Path x \<notin> set (map n_Path acc)")
    case True
    then show ?thesis using Cons.IH [of "acc @ [cloneEntry x]"] Cons.prems by (auto simp: Let_def)
  qed (auto simp: Let_def)
qed auto

lemma validateObservation_Inr:
  "validateObservation sha ob allowEmpty = Inr (entries, d) \<longleftrightarrow>
     ob_SchemaVersion ob = ObservationSchema \<and> validSHA (ob_BindingSHA256 ob) \<and> (allowEmpty \<or> ob_Entries ob \<noteq> []) \<and>
     int (length (ob_Entries ob)) \<le> maximumOutputs \<and> entries = map cloneEntry (ob_Entries ob) \<and> normal entries \<and>
     d = entriesDigest sha (sortEntries entries)"
proof -
  have loop: "entries_loop [] (ob_Entries ob) = Inr es \<longleftrightarrow> es = map cloneEntry (ob_Entries ob) \<and> normal es" for es
    using entries_loop_iff [of "[]" "ob_Entries ob" es] by (simp add: normal_def cong: conj_cong)
  show ?thesis
  proof (cases "entries_loop [] (ob_Entries ob)")
    case (Inl e)
    with loop show ?thesis by (auto simp: validateObservation_def)
  next
    case (Inr es)
    with loop have "es = map cloneEntry (ob_Entries ob)" "normal es" by auto
    with Inr show ?thesis by (auto simp: validateObservation_def not_less)
  qed
qed

lemma entry_at_Some: "entry_at es p = Some e \<Longrightarrow> e \<in> set es \<and> n_Path e = p"
  by (auto simp: entry_at_def find_Some_iff)

lemma entry_at_None: "entry_at es p = None \<longleftrightarrow> p \<notin> n_Path ` set es"
  by (auto simp: entry_at_def find_None_iff)

lemma entry_at_unique:
  assumes "distinct (map n_Path es)" "e \<in> set es"
  shows "entry_at es (n_Path e) = Some e"
proof -
  have "entry_at es (n_Path e) \<noteq> None" using assms(2) by (auto simp: entry_at_None)
  then obtain x where "entry_at es (n_Path e) = Some x" by blast
  with entry_at_Some [OF this] assms show ?thesis by (auto simp: distinct_map dest: inj_onD)
qed

lemma normal_subset:
  assumes "normal es" "set fs \<subseteq> set es" "distinct (map n_Path fs)"
  shows "normal fs"
  using assms by (auto simp: normal_def)

text \<open>What the comparison loop establishes.\<close>

definition differs :: "Entry list \<Rightarrow> Entry \<Rightarrow> bool" where
  "differs second e \<longleftrightarrow> (case entry_at second (n_Path e) of None \<Rightarrow> False | Some b \<Rightarrow> n_SHA256 e \<noteq> n_SHA256 b)"

lemma compare_loop_Inr:
  assumes "compare_loop second volatile quarantined es = Inr (v, q)"
  shows "(\<forall>e\<in>set es. \<exists>b. entry_at second (n_Path e) = Some b \<and> n_ProducerTasks e = n_ProducerTasks b \<and>
      n_ProducerLineage e = n_ProducerLineage b) \<and>
    v = volatile @ map n_Path (filter (differs second) es) \<and>
    q = quarantined \<union> (\<Union>e\<in>set (filter (differs second) es). set (n_ProducerTasks e))"
  using assms
proof (induction es arbitrary: volatile quarantined)
  case (Cons x es)
  then obtain b where b: "entry_at second (n_Path x) = Some b" "n_ProducerTasks x = n_ProducerTasks b"
    "n_ProducerLineage x = n_ProducerLineage b"
    by (auto split: option.splits if_splits)
  show ?case
  proof (cases "n_SHA256 x = n_SHA256 b")
    case True
    with Cons.IH [of volatile quarantined] Cons.prems b show ?thesis by (simp add: differs_def)
  next
    case False
    with Cons.IH [of "volatile @ [n_Path x]" "quarantined \<union> set (n_ProducerTasks x)"] Cons.prems b show ?thesis
      by (auto simp: differs_def)
  qed
qed simp

lemma sort_key_filter_id: "sortEntries (filter P (sortEntries es)) = filter P (sortEntries es)"
  unfolding sortEntries_def by (intro sort_key_id_if_sorted sorted_filter) simp

lemma clone_filter_normal:
  assumes "normal es"
  shows "map cloneEntry (filter P (sortEntries es)) = filter P (sortEntries es)"
  using assms by (intro map_idI) (auto simp: normal_def sortEntries_def)

text \<open>A transport-ready plan, in terms of the normalised observations.\<close>

lemma Analyze_ready:
  assumes "\<And>xs. mset (iter xs) = mset xs" "rs_Decision (Analyze sha iter first second) = DecisionTransportReady"
  obtains F S q where "F = map cloneEntry (ob_Entries first)" "S = map cloneEntry (ob_Entries second)" "normal F" "normal S"
    "F \<noteq> []" "length F = length S" "int (length F) \<le> maximumOutputs" "validSHA (ob_BindingSHA256 first)"
    "ob_BindingSHA256 first = ob_BindingSHA256 second" "ob_SchemaVersion second = ObservationSchema"
    "\<forall>e\<in>set F. \<exists>b. entry_at S (n_Path e) = Some b \<and> n_ProducerTasks e = n_ProducerTasks b \<and> n_ProducerLineage e = n_ProducerLineage b"
    "q = (\<Union>e\<in>{e \<in> set F. differs S e}. set (n_ProducerTasks e))"
    "Analyze sha iter first second = retained\<lparr>rs_BindingSHA256 := ob_BindingSHA256 first,
       rs_FirstObservationSHA := entriesDigest sha (sortEntries F), rs_SecondObservationSHA := entriesDigest sha (sortEntries S),
       rs_VolatilePaths := sort (map n_Path (filter (differs S) (iter F))), rs_QuarantinedProducers := sortedKeys q,
       rs_QuarantinedOutputs := filter (\<lambda>e. entryIntersects e q) (sortEntries F),
       rs_TransportedOutputs := filter (\<lambda>e. \<not> entryIntersects e q) (sortEntries F), rs_ComparedOutputCount := int (length F),
       rs_TransportSHA256 := entriesDigest sha (filter (\<lambda>e. \<not> entryIntersects e q) (sortEntries F)),
       rs_Decision := DecisionTransportReady, rs_Reason := (if q \<noteq> {} then ReasonQuarantined else ReasonExact)\<rparr>"
proof -
  have ret: "rs_Decision retained \<noteq> DecisionTransportReady" by (simp add: retained_def)
  from assms(2) ret obtain F d1 where F: "validateObservation sha first False = Inr (F, d1)"
    by (auto simp: Analyze_def split: sum.splits)
  from assms(2) ret F obtain S d2 where S: "validateObservation sha second False = Inr (S, d2)"
    by (auto simp: Analyze_def split: sum.splits)
  note nF = F [unfolded validateObservation_Inr] and nS = S [unfolded validateObservation_Inr]
  have bind: "ob_BindingSHA256 first = ob_BindingSHA256 second" and len: "length F = length S"
    using assms(2) ret F S by (auto simp: Analyze_def Let_def split: if_splits)
  then obtain v q where c: "compare_loop S [] {} (iter F) = Inr (v, q)"
    using assms(2) ret F S by (cases "compare_loop S [] {} (iter F)") (auto simp: Analyze_def Let_def)
  have set: "set (iter F) = set F" using assms(1) [of F] by (metis set_mset_mset)
  note cl = compare_loop_Inr [OF c]
  have q: "q = (\<Union>e\<in>{e \<in> set F. differs S e}. set (n_ProducerTasks e))" using cl set by auto
  have fin: "finite q" unfolding q by auto
  have nil: "length (sortedKeys q) > 0 \<longleftrightarrow> q \<noteq> {}" using fin by (metis length_greater_0_conv list.set(1) set_empty set_sortedKeys)
  have Fnorm: "normal F" using nF by blast
  have map_id: "map cloneEntry F = F" using Fnorm by (intro map_idI) (simp add: normal_def)
  have eq: "Analyze sha iter first second = retained\<lparr>rs_BindingSHA256 := ob_BindingSHA256 first,
       rs_FirstObservationSHA := d1, rs_SecondObservationSHA := d2,
       rs_VolatilePaths := sort v, rs_QuarantinedProducers := sortedKeys q,
       rs_QuarantinedOutputs := filter (\<lambda>e. entryIntersects e q) (sortEntries F),
       rs_TransportedOutputs := filter (\<lambda>e. \<not> entryIntersects e q) (sortEntries F), rs_ComparedOutputCount := int (length F),
       rs_TransportSHA256 := entriesDigest sha (filter (\<lambda>e. \<not> entryIntersects e q) (sortEntries F)),
       rs_Decision := DecisionTransportReady, rs_Reason := (if q \<noteq> {} then ReasonQuarantined else ReasonExact)\<rparr>"
    unfolding Analyze_def F S sum.case prod.case Let_def c map_id clone_filter_normal [OF Fnorm] sort_key_filter_id nil
    using bind len by simp
  show ?thesis
    by (rule that [of F S q]) (use nF nS bind len q cl set eq in auto)
qed

section \<open>Properties\<close>

text \<open>
  (C28) A transport-ready plan moves only outputs that two independent native builds produced byte for byte
  alike, and is atomic per producer: both observations carry the same binding, every transported entry
  comes from the first build and has the same digest and producers in the second, none of its producers or
  ancestors is quarantined, the quarantined producers are exactly those of an output that differed, the
  transported and quarantined outputs partition the observed outputs, and production is never authorized.
\<close>

theorem transport_plan_sound:
  assumes "\<And>xs. mset (iter xs) = mset xs" "r = Analyze sha256_hex iter first second" "rs_Decision r = DecisionTransportReady"
  shows "ob_BindingSHA256 first = ob_BindingSHA256 second \<and> \<not> rs_ProductionAuthorized r \<and>
    mset (rs_TransportedOutputs r) + mset (rs_QuarantinedOutputs r) = mset (map cloneEntry (ob_Entries first)) \<and>
    (\<forall>e\<in>set (rs_TransportedOutputs r). \<not> entryIntersects e (set (rs_QuarantinedProducers r)) \<and>
       (\<exists>b\<in>set (map cloneEntry (ob_Entries second)). b = e)) \<and>
    (\<forall>e\<in>set (rs_QuarantinedOutputs r). entryIntersects e (set (rs_QuarantinedProducers r))) \<and>
    set (rs_QuarantinedProducers r) = \<Union> {set (n_ProducerTasks a) |a b. a \<in> set (ob_Entries first) \<and> b \<in> set (ob_Entries second) \<and>
       n_Path a = n_Path b \<and> n_SHA256 a \<noteq> n_SHA256 b}"
proof -
  from assms(1) assms(3) [unfolded assms(2)] show ?thesis
  proof (cases rule: Analyze_ready)
    case (1 F S q)
    have fin: "finite q" unfolding 1(12) by auto
    have r: "rs_TransportedOutputs r = filter (\<lambda>e. \<not> entryIntersects e q) (sortEntries F)"
      "rs_QuarantinedOutputs r = filter (\<lambda>e. entryIntersects e q) (sortEntries F)"
      "set (rs_QuarantinedProducers r) = q" "\<not> rs_ProductionAuthorized r"
      unfolding assms(2) 1(13) using fin by (simp_all add: retained_def)
    have part: "mset (rs_TransportedOutputs r) + mset (rs_QuarantinedOutputs r) = mset F"
      unfolding r by (simp add: sortEntries_def union_commute)
    have same: "e \<in> set S" if e: "e \<in> set F" "\<not> entryIntersects e q" for e
    proof -
      obtain b where b: "entry_at S (n_Path e) = Some b" "n_ProducerTasks e = n_ProducerTasks b" "n_ProducerLineage e = n_ProducerLineage b"
        using 1(11) e(1) by blast
      have "n_ProducerTasks e \<noteq> []" using 1(3) e(1) by (auto simp: normal_def entry_valid_def)
      then have "\<not> set (n_ProducerTasks e) \<subseteq> q" using e(2) by (cases "n_ProducerTasks e") (auto simp: entryIntersects_def intersects_def)
      then have "\<not> differs S e" using e(1) 1(12) by auto
      then have "n_SHA256 e = n_SHA256 b" using b(1) by (simp add: differs_def)
      moreover have "b \<in> set S" "n_Path b = n_Path e" using entry_at_Some [OF b(1)] by auto
      ultimately have "b = e" using b(2,3) by (intro Entry.equality) simp_all
      with \<open>b \<in> set S\<close> show ?thesis by simp
    qed
    have diff: "differs S e \<longleftrightarrow> (\<exists>b\<in>set (ob_Entries second). n_Path e = n_Path b \<and> n_SHA256 e \<noteq> n_SHA256 b)" for e
    proof
      assume "differs S e"
      then obtain b where "entry_at S (n_Path e) = Some b" "n_SHA256 e \<noteq> n_SHA256 b" by (auto simp: differs_def split: option.splits)
      moreover have "b \<in> set S" "n_Path b = n_Path e" using entry_at_Some [OF calculation(1)] by auto
      moreover then obtain x where "x \<in> set (ob_Entries second)" "b = cloneEntry x" unfolding 1(2) by auto
      ultimately show "\<exists>b\<in>set (ob_Entries second). n_Path e = n_Path b \<and> n_SHA256 e \<noteq> n_SHA256 b"
        by (intro bexI [of _ x]) simp_all
    next
      assume "\<exists>b\<in>set (ob_Entries second). n_Path e = n_Path b \<and> n_SHA256 e \<noteq> n_SHA256 b"
      then obtain x where x: "x \<in> set (ob_Entries second)" "n_Path e = n_Path x" "n_SHA256 e \<noteq> n_SHA256 x" by blast
      have "cloneEntry x \<in> set S" "n_Path (cloneEntry x) = n_Path e" "n_SHA256 (cloneEntry x) \<noteq> n_SHA256 e"
        unfolding 1(2) using x by auto
      then show "differs S e" using entry_at_unique [of S "cloneEntry x"] 1(4) by (simp add: differs_def normal_def)
    qed
    have "q = \<Union> {set (n_ProducerTasks a) |a b. a \<in> set (ob_Entries first) \<and> b \<in> set (ob_Entries second) \<and>
       n_Path a = n_Path b \<and> n_SHA256 a \<noteq> n_SHA256 b}"
      unfolding 1(12) diff unfolding 1(1) by fastforce
    then show ?thesis using 1(1,2,9) part same r by (auto simp: sortEntries_def)
  qed
qed

definition ex_entry :: "string \<Rightarrow> char \<Rightarrow> string \<Rightarrow> string list \<Rightarrow> Entry" where
  "ex_entry p c task lineage = \<lparr>n_Path = p, n_SHA256 = replicate 64 c, n_ProducerTasks = [task], n_ProducerLineage = lineage\<rparr>"

definition ex_observation :: "char \<Rightarrow> Observation" where
  "ex_observation c = \<lparr>ob_SchemaVersion = ObservationSchema, ob_BindingSHA256 = replicate 64 (CHR ''b''),
     ob_Entries = [ex_entry ''app/build/a.jar'' (CHR ''1'') '':app:jar'' ['':gen:stamp''],
       ex_entry ''gen/build/stamp.txt'' c '':gen:stamp'' [], ex_entry ''lib/build/l.jar'' (CHR ''2'') '':lib:jar'' []]\<rparr>"

definition ex_sha :: "string \<Rightarrow> string" where
  "ex_sha content = replicate 64 (CHR ''c'')"

theorem transport_plan_sound_witness:
  "rs_Decision (Analyze ex_sha rev (ex_observation (CHR ''3'')) (ex_observation (CHR ''4''))) = DecisionTransportReady \<and>
   ''lib/build/l.jar'' \<in> n_Path ` set (rs_TransportedOutputs (Analyze ex_sha rev (ex_observation (CHR ''3'')) (ex_observation (CHR ''4'')))) \<and>
   mset (rs_TransportedOutputs (Analyze ex_sha rev (ex_observation (CHR ''3'')) (ex_observation (CHR ''4'')))) +
     mset (rs_QuarantinedOutputs (Analyze ex_sha rev (ex_observation (CHR ''3'')) (ex_observation (CHR ''4'')))) =
     mset (map cloneEntry (ob_Entries (ex_observation (CHR ''3''))))"
proof -
  have d: "rs_Decision (Analyze ex_sha rev (ex_observation (CHR ''3'')) (ex_observation (CHR ''4''))) = DecisionTransportReady"
    and m: "''lib/build/l.jar'' \<in> n_Path ` set (rs_TransportedOutputs (Analyze ex_sha rev (ex_observation (CHR ''3'')) (ex_observation (CHR ''4''))))"
    by code_simp+
  have rev: "mset (rev xs) = mset xs" for xs :: "Entry list" by simp
  from transport_plan_sound [OF rev refl d] show ?thesis by (elim conjE) (intro conjI d m, assumption)
qed

lemma validate_normal:
  assumes "normal es" "int (length es) \<le> maximumOutputs" "validSHA b"
  shows "validateObservation sha \<lparr>ob_SchemaVersion = ObservationSchema, ob_BindingSHA256 = b, ob_Entries = es\<rparr> True =
    Inr (es, entriesDigest sha (sortEntries es))"
proof -
  have "map cloneEntry es = es" using assms(1) by (intro map_idI) (simp add: normal_def)
  with assms show ?thesis by (simp add: validateObservation_Inr)
qed

lemma normal_filter_sort:
  assumes "normal es"
  shows "normal (filter P (sortEntries es))"
proof (rule normal_subset [OF assms])
  show "distinct (map n_Path (filter P (sortEntries es)))"
    using assms by (intro distinct_map_filter) (auto simp: normal_def sortEntries_def distinct_map)
qed (auto simp: sortEntries_def)

lemma filter_sort_length: "length (filter P (sortEntries es)) \<le> length es"
  using length_filter_le [of P "sortEntries es"] by (simp add: sortEntries_def)

text \<open>Every result of \<open>Analyze\<close> that is transport-ready passes \<open>ValidateResult\<close>.\<close>

lemma Analyze_validates:
  assumes "\<And>xs. mset (iter xs) = mset xs" "\<And>b. validSHA (sha b)"
    and "rs_Decision (Analyze sha iter first second) = DecisionTransportReady"
  shows "ValidateResult sha (Analyze sha iter first second) = None"
  using assms(1,3)
proof (cases rule: Analyze_ready)
  case (1 F S q)
  let ?Q = "filter (\<lambda>e. entryIntersects e q) (sortEntries F)" and ?T = "filter (\<lambda>e. \<not> entryIntersects e q) (sortEntries F)"
  let ?V = "map n_Path (filter (differs S) (iter F))"
  have fin: "finite q" unfolding 1(12) by auto
  have nq: "normal ?Q" and nt: "normal ?T" using normal_filter_sort [OF 1(3)] by blast+
  have sizes: "int (length ?Q) \<le> maximumOutputs" "int (length ?T) \<le> maximumOutputs" "length ?Q + length ?T = length F"
    using filter_sort_length [of "\<lambda>e. entryIntersects e q" F] filter_sort_length [of "\<lambda>e. \<not> entryIntersects e q" F] 1(7)
      sum_length_filter_compl [of "\<lambda>e. entryIntersects e q" "sortEntries F"]
    by (simp_all add: sortEntries_def)
  have tasks: "n_ProducerTasks e \<noteq> []" "[] \<notin> set (n_ProducerTasks e)" "n_Path e \<noteq> []" if "e \<in> set F" for e
    using 1(3) that by (auto simp: normal_def entry_valid_def uniqueNonEmpty_iff validRelativePath_def)
  have uq: "uniqueNonEmpty (sortedKeys q)" using fin tasks 1(12) by (intro uniqueNonEmpty_distinct) auto
  have setF: "set (iter F) = set F" "distinct (map n_Path (iter F))"
    using assms(1) [of F] 1(3) by (metis set_mset_mset, metis normal_def mset_map mset_eq_imp_distinct_iff)
  have uv: "uniqueNonEmpty (sort ?V)"
    using setF by (intro uniqueNonEmpty_distinct) (auto simp: distinct_map_filter dest!: tasks(3))
  have hit: "entryIntersects e q" if "e \<in> set F" "differs S e" for e
    using tasks(1) [OF that(1)] that 1(12) by (cases "n_ProducerTasks e") (auto simp: entryIntersects_def intersects_def)
  have vq: "set ?V \<subseteq> n_Path ` set ?Q" using hit setF(1) by (auto simp: sortEntries_def)
  have empty: "?Q = []" "?V = []" if "q = {}"
    using that hit setF(1) by (auto simp: filter_empty_conv entryIntersects_def intersects_def list_ex_iff)
  have nonempty: "?V \<noteq> []" if "q \<noteq> {}" using that 1(12) setF(1) by (auto simp: filter_empty_conv)
  have nonemptyQ: "?Q \<noteq> []" if "q \<noteq> {}" 
  proof
    assume "?Q = []"
    then have "set ?V \<subseteq> {}" using vq by (metis image_empty list.set(1))
    with nonempty [OF that] show False by simp
  qed
  have disj: "n_Path e \<notin> n_Path ` set ?T" if "e \<in> set ?Q" for e
    using that 1(3) by (auto simp: normal_def sortEntries_def distinct_map dest: inj_onD)
  have pos: "0 < length F" using 1(5) by simp
  have shas: "validSHA (entriesDigest sha es)" for es using assms(2) by (simp add: entriesDigest_def)
  have none: "length (sortedKeys q) = 0 \<longleftrightarrow> q = {}" using fin by (metis length_0_conv list.set(1) set_empty set_sortedKeys)
  note facts = validate_normal [OF nq sizes(1) 1(8), of sha] validate_normal [OF nt sizes(2) 1(8), of sha] sizes uq uv
    disj pos shas 1(7,8) none fin
  show ?thesis
  proof (cases "q = {}")
    case True
    then show ?thesis unfolding 1(13) ValidateResult_def Let_def
      using facts empty [OF True] by (auto simp: retained_def list_ex_iff entry_at_None)
  next
    case False
    then show ?thesis unfolding 1(13) ValidateResult_def Let_def
      using facts nonempty [OF False] nonemptyQ [OF False] vq by (auto simp: retained_def list_ex_iff entry_at_None)
  qed
qed

lemma verifyExactSet_refl:
  assumes "distinct (map n_Path es)"
  shows "verifyExactSet es es = None"
  using assms by (simp add: verifyExactSet_def entry_at_unique)

lemma permuted_length:
  assumes "distinct (map n_Path es)" "distinct (map n_Path fs)" "n_Path ` set es = n_Path ` set fs"
  shows "length es = length fs"
  using assms by (metis length_map list.set_map distinct_card)

text \<open>
  The plan can be carried out: for every transport-ready plan, reusing the transported outputs of the
  first build and taking the quarantined outputs from the second build is a candidate that
  \<open>VerifyCandidate\<close> accepts. It relies on the digest function producing well-formed digests.
\<close>

theorem transport_plan_candidate_accepted:
  assumes "\<And>xs. mset (iter xs) = mset xs" "\<And>b. validSHA (sha256_hex b)"
    and "r = Analyze sha256_hex iter first second" "rs_Decision r = DecisionTransportReady"
  shows "VerifyCandidate sha256_hex r
    \<lparr>ob_SchemaVersion = ObservationSchema, ob_BindingSHA256 = rs_BindingSHA256 r, ob_Entries = rs_TransportedOutputs r\<rparr>
    (second\<lparr>ob_Entries := filter (\<lambda>e. n_Path e \<in> set (map n_Path (rs_QuarantinedOutputs r))) (ob_Entries second)\<rparr>) = None"
proof -
  have valid: "ValidateResult sha256_hex r = None" using Analyze_validates [OF assms(1,2)] assms(3,4) by simp
  from assms(1) assms(4) [unfolded assms(3)] show ?thesis
  proof (cases rule: Analyze_ready)
    case (1 F S q)
    let ?Q = "filter (\<lambda>e. entryIntersects e q) (sortEntries F)" and ?T = "filter (\<lambda>e. \<not> entryIntersects e q) (sortEntries F)"
    have fin: "finite q" unfolding 1(12) by auto
    have r: "rs_TransportedOutputs r = ?T" "rs_QuarantinedOutputs r = ?Q" "rs_BindingSHA256 r = ob_BindingSHA256 first"
      "set (rs_QuarantinedProducers r) = q"
      unfolding assms(3) 1(13) using fin by (simp_all add: retained_def)
    have nq: "normal ?Q" and nt: "normal ?T" using normal_filter_sort [OF 1(3)] by blast+
    have lt: "int (length ?T) \<le> maximumOutputs" using filter_sort_length [of "\<lambda>e. \<not> entryIntersects e q" F] 1(7) by simp
    define R where "R = filter (\<lambda>e. n_Path e \<in> n_Path ` set ?Q) S"
    have R: "map cloneEntry (filter (\<lambda>e. n_Path e \<in> n_Path ` set ?Q) (ob_Entries second)) = R"
      unfolding R_def 1(2) by (simp add: filter_map comp_def)
    have nR: "normal R" using 1(4) by (intro normal_subset [OF 1(4)]) (auto simp: R_def normal_def distinct_map_filter)
    have lR: "length (filter (\<lambda>e. n_Path e \<in> n_Path ` set ?Q) (ob_Entries second)) \<le> length S"
      unfolding 1(2) by (simp add: length_filter_le)
    have rebuilt: "validateObservation sha256_hex (second\<lparr>ob_Entries := filter (\<lambda>e. n_Path e \<in> n_Path ` set ?Q) (ob_Entries second)\<rparr>) True =
      Inr (R, entriesDigest sha256_hex (sortEntries R))"
      unfolding validateObservation_Inr using 1(6,7,8,9,10) lR nR R [symmetric] by simp
    have at: "\<exists>b. entry_at R (n_Path e) = Some b \<and> n_ProducerTasks b = n_ProducerTasks e \<and> n_ProducerLineage b = n_ProducerLineage e"
      if "e \<in> set ?Q" for e
    proof -
      have "e \<in> set F" using that by (simp add: sortEntries_def)
      with 1(11) obtain b where b: "entry_at S (n_Path e) = Some b" "n_ProducerTasks e = n_ProducerTasks b" "n_ProducerLineage e = n_ProducerLineage b"
        by blast
      have "b \<in> set R" "n_Path b = n_Path e" using entry_at_Some [OF b(1)] that by (auto simp: R_def)
      then have "entry_at R (n_Path e) = Some b" using entry_at_unique [of R b] nR by (simp add: normal_def)
      with b show ?thesis by simp
    qed
    have "n_Path ` set R = n_Path ` set ?Q"
    proof
      show "n_Path ` set ?Q \<subseteq> n_Path ` set R"
      proof
        fix p assume "p \<in> n_Path ` set ?Q"
        then obtain e where "e \<in> set ?Q" "p = n_Path e" by blast
        with at [of e] show "p \<in> n_Path ` set R" using entry_at_Some by (metis imageI)
      qed
    qed (auto simp: R_def)
    then have len: "length ?Q = length R" using nq nR by (intro permuted_length) (auto simp: normal_def)
    have hit: "entryIntersects b q" if "n_ProducerTasks b = n_ProducerTasks e" "n_ProducerLineage b = n_ProducerLineage e" "entryIntersects e q" for b e
      using that by (simp add: entryIntersects_def)
    have exact: "verifyExactSet ?T ?T = None" using nt by (intro verifyExactSet_refl) (simp add: normal_def)
    have built: "verifyRebuiltSet ?Q R (rs_QuarantinedProducers r) = None"
    proof -
      have "\<exists>b. entry_at R (n_Path e) = Some b \<and> n_ProducerTasks b = n_ProducerTasks e \<and> n_ProducerLineage b = n_ProducerLineage e \<and>
        entryIntersects b q" if "e \<in> set ?Q" for e using at [OF that] hit [of _ e] that by auto
      then have "(case entry_at R (n_Path e) of None \<Rightarrow> Some (x :: string) | Some obs \<Rightarrow> reject_if (n_ProducerTasks obs \<noteq> n_ProducerTasks e \<or>
        n_ProducerLineage obs \<noteq> n_ProducerLineage e \<or> \<not> entryIntersects obs q) x) = None" if "e \<in> set ?Q" for e x
        using that by fastforce
      then show ?thesis unfolding verifyRebuiltSet_def r(4) using len by simp
    qed
    show ?thesis
      unfolding VerifyCandidate_def valid r option.case validate_normal [OF nt lt 1(8)] list.set_map rebuilt
      using exact built 1(9) by simp
  qed
qed

theorem transport_plan_candidate_accepted_witness:
  "VerifyCandidate ex_sha (Analyze ex_sha rev (ex_observation (CHR ''3'')) (ex_observation (CHR ''4'')))
    \<lparr>ob_SchemaVersion = ObservationSchema, ob_BindingSHA256 = rs_BindingSHA256 (Analyze ex_sha rev (ex_observation (CHR ''3'')) (ex_observation (CHR ''4''))),
     ob_Entries = rs_TransportedOutputs (Analyze ex_sha rev (ex_observation (CHR ''3'')) (ex_observation (CHR ''4'')))\<rparr>
    ((ex_observation (CHR ''4''))\<lparr>ob_Entries := filter (\<lambda>e. n_Path e \<in> set (map n_Path (rs_QuarantinedOutputs
      (Analyze ex_sha rev (ex_observation (CHR ''3'')) (ex_observation (CHR ''4'')))))) (ob_Entries (ex_observation (CHR ''4'')))\<rparr>) = None"
proof -
  have d: "rs_Decision (Analyze ex_sha rev (ex_observation (CHR ''3'')) (ex_observation (CHR ''4''))) = DecisionTransportReady"
    by code_simp
  have sha: "validSHA (ex_sha b)" for b unfolding ex_sha_def by code_simp
  have rev: "mset (rev xs) = mset xs" for xs :: "Entry list" by simp
  show ?thesis by (rule transport_plan_candidate_accepted [OF rev sha refl d])
qed

end
