(* ===== verification/StickyValue.thy ===== *)
theory StickyValue
  imports Prelude "HOL-Library.Word" "HOL-Library.Signed_Division"
begin

text \<open>
  \<open>internal/stickyvalue/evaluate.go\<close>: the integer-only qualification of paired measurements. Every \<open>int64\<close> of
  the source is a 64-bit word read through \<open>sint\<close>, so that the overflow checks are checks of the model too; the
  random state of the bootstrap is the same word read through \<open>unat\<close>. A pointer to an \<open>int64\<close> is an option.
  Lengths of slices are natural numbers. Go's \<open>/\<close> on \<open>int64\<close> truncates, which is \<open>sdiv\<close> on integers.
\<close>

section \<open>Data\<close>

type_synonym int64 = "64 word"
type_synonym uint64 = "64 word"

definition bootstrapSamples :: nat where "bootstrapSamples = 4096"

record Pair =
  p_PairID :: string
  p_Order :: string
  p_NativeWallNs :: int64
  p_CandidateWallNs :: int64
  p_OutputsEquivalent :: bool
  p_NativeFailure :: bool
  p_CandidateFailure :: bool

record Costs =
  c_BootstrapNs :: "int64 option"
  c_ObservationNs :: "int64 option"
  c_TrialNs :: "int64 option"
  c_CacheNs :: "int64 option"
  c_StateNs :: "int64 option"
  c_FallbackNs :: "int64 option"
  c_ExecutionNs :: "int64 option"
  c_PublicationNs :: "int64 option"
  c_ValidationNs :: "int64 option"

record Evaluation =
  v_PairEffectsNs :: "int64 list"
  v_MeanEffectNs :: int64
  v_LowerBoundNs :: int64
  v_UpperBoundNs :: int64
  v_PositivePairCount :: nat
  v_NativeP95Ns :: int64
  v_CandidateP95Ns :: int64
  v_GrossSavingNs :: int64
  v_TotalCostNs :: int64
  v_NetSavingNs :: int64
  v_Qualified :: bool
  v_Reasons :: "string list"

section \<open>Checked arithmetic\<close>

definition MaxInt64 :: int64 where "MaxInt64 = 0x7fffffffffffffff"
definition MinInt64 :: int64 where "MinInt64 = 0x8000000000000000"

definition checkedAdd :: "int64 \<Rightarrow> int64 \<Rightarrow> int64 option" where
  "checkedAdd a b =
     (if (0 <s b \<and> MaxInt64 - b <s a) \<or> (b <s 0 \<and> a <s MinInt64 - b) then None else Some (a + b))"

definition checkedSub :: "int64 \<Rightarrow> int64 \<Rightarrow> int64 option" where
  "checkedSub a b =
     (if b = MinInt64 then (if 0 \<le>s a then None else Some (a - b)) else checkedAdd a (- b))"

definition go_div :: "int64 \<Rightarrow> nat \<Rightarrow> int64" where
  "go_div a n = word_of_int (sint a sdiv int n)"

section \<open>Order statistics and the bootstrap\<close>

definition nearestRank95 :: "int64 list \<Rightarrow> int64" where
  "nearestRank95 values = sort_key sint values ! ((95 * length values + 99) div 100 - 1)"

definition next_state :: "uint64 \<Rightarrow> uint64" where
  "next_state state = state * 6364136223846793005 + 1442695040888963407"

text \<open>One replicate: as many draws as there are effects.\<close>

fun draw_sum :: "int64 list \<Rightarrow> nat \<Rightarrow> uint64 \<Rightarrow> int64 \<Rightarrow> (uint64 \<times> int64) option" where
  "draw_sum effects 0 state acc = Some (state, acc)"
| "draw_sum effects (Suc k) state acc =
     (let state' = next_state state;
          value = effects ! (unat state' mod length effects) in
      case checkedAdd acc value of None \<Rightarrow> None | Some acc' \<Rightarrow> draw_sum effects k state' acc')"

fun replicates_loop :: "int64 list \<Rightarrow> nat \<Rightarrow> uint64 \<Rightarrow> int64 list option" where
  "replicates_loop effects 0 state = Some []"
| "replicates_loop effects (Suc k) state =
     (case draw_sum effects (length effects) state 0 of
        None \<Rightarrow> None
      | Some (state', acc) \<Rightarrow> map_option ((#) (go_div acc (length effects))) (replicates_loop effects k state'))"

definition pairedBootstrap95 :: "int64 list \<Rightarrow> (int64 \<times> int64) option" where
  "pairedBootstrap95 effects =
     (case replicates_loop effects bootstrapSamples 0x9e3779b97f4a7c15 of
        None \<Rightarrow> None
      | Some reps \<Rightarrow> let r = sort_key sint reps in Some (r ! 102, r ! 3993))"

section \<open>Evaluation\<close>

definition appendUnique :: "string list \<Rightarrow> string \<Rightarrow> string list" where
  "appendUnique values v = (if v \<in> set values then values else values @ [v])"

definition add_reason :: "bool \<Rightarrow> string \<Rightarrow> Evaluation \<Rightarrow> Evaluation" where
  "add_reason cond why r = (if cond then r\<lparr>v_Reasons := appendUnique (v_Reasons r) why\<rparr> else r)"

definition zero_evaluation :: Evaluation where
  "zero_evaluation =
     \<lparr>v_PairEffectsNs = [], v_MeanEffectNs = 0, v_LowerBoundNs = 0, v_UpperBoundNs = 0, v_PositivePairCount = 0,
      v_NativeP95Ns = 0, v_CandidateP95Ns = 0, v_GrossSavingNs = 0, v_TotalCostNs = 0, v_NetSavingNs = 0,
      v_Qualified = False, v_Reasons = []\<rparr>"

definition pair_valid :: "Pair \<Rightarrow> bool" where
  "pair_valid p = (\<not> (p_PairID p = [] \<or> (p_Order p \<noteq> ''NATIVE_FIRST'' \<and> p_Order p \<noteq> ''CANDIDATE_FIRST'') \<or>
     p_NativeWallNs p <s 0 \<or> p_CandidateWallNs p <s 0))"

text \<open>The loop over the pairs: the identifiers seen, the running total and the result so far.\<close>

fun pairs_loop :: "Pair list \<Rightarrow> string set \<Rightarrow> int64 \<Rightarrow> Evaluation \<Rightarrow> (int64 \<times> Evaluation) result" where
  "pairs_loop [] seen acc r = Inr (acc, r)"
| "pairs_loop (p # ps) seen acc r =
     (if \<not> pair_valid p then Inl ''sticky value pair is invalid''
      else if p_PairID p \<in> seen then Inl ''sticky value pair identifier is duplicated''
      else let r1 = add_reason (p_NativeFailure p \<or> p_CandidateFailure p \<or> \<not> p_OutputsEquivalent p) ''PAIR_NOT_COMPARABLE'' r in
        case checkedSub (p_NativeWallNs p) (p_CandidateWallNs p) of
          None \<Rightarrow> Inl ''sticky value pair effect overflows''
        | Some effect \<Rightarrow>
            (case checkedAdd acc effect of
               None \<Rightarrow> Inl ''sticky value effect total overflows''
             | Some acc' \<Rightarrow>
                 pairs_loop ps (insert (p_PairID p) seen) acc'
                   (r1\<lparr>v_PairEffectsNs := v_PairEffectsNs r1 @ [effect],
                      v_PositivePairCount := v_PositivePairCount r1 + (if 0 <s effect then 1 else 0)\<rparr>)))"

definition cost_values :: "Costs \<Rightarrow> int64 option list" where
  "cost_values c = [c_BootstrapNs c, c_ObservationNs c, c_TrialNs c, c_CacheNs c, c_StateNs c, c_FallbackNs c,
     c_ExecutionNs c, c_PublicationNs c, c_ValidationNs c]"

fun costs_loop :: "int64 option list \<Rightarrow> Evaluation \<Rightarrow> Evaluation result" where
  "costs_loop [] r = Inr r"
| "costs_loop (v # vs) r =
     (case v of
        None \<Rightarrow> costs_loop vs (add_reason True ''COST_UNAVAILABLE'' r)
      | Some w \<Rightarrow>
          if w <s 0 then costs_loop vs (add_reason True ''COST_UNAVAILABLE'' r)
          else case checkedAdd (v_TotalCostNs r) w of
            None \<Rightarrow> Inl ''sticky value cost total overflows''
          | Some acc \<Rightarrow> costs_loop vs (r\<lparr>v_TotalCostNs := acc\<rparr>))"

definition qualify :: "Evaluation \<Rightarrow> Evaluation" where
  "qualify r =
     (let r1 = add_reason (v_LowerBoundNs r \<le>s 0) ''LOWER_BOUND_NOT_POSITIVE'' r;
          r2 = add_reason (v_NativeP95Ns r1 <s v_CandidateP95Ns r1) ''P95_REGRESSED'' r1;
          r3 = add_reason (v_NetSavingNs r2 \<le>s 0) ''NET_VALUE_NOT_POSITIVE'' r2;
          q = (v_Reasons r3 = []) in
      r3\<lparr>v_Qualified := q, v_Reasons := (if q then [''QUALIFIED_CONSERVATIVE_VALUE''] else v_Reasons r3)\<rparr>)"

definition Evaluate :: "Pair list \<Rightarrow> Costs \<Rightarrow> Evaluation result" where
  "Evaluate pairs costs =
     (if length pairs = 0 then Inl ''sticky value requires paired evidence''
      else case pairs_loop pairs {} 0 zero_evaluation of
        Inl e \<Rightarrow> Inl e
      | Inr (acc, r) \<Rightarrow>
          let r1 = r\<lparr>v_MeanEffectNs := go_div acc (length pairs), v_GrossSavingNs := acc,
                     v_NativeP95Ns := nearestRank95 (map p_NativeWallNs pairs),
                     v_CandidateP95Ns := nearestRank95 (map p_CandidateWallNs pairs)\<rparr> in
          case pairedBootstrap95 (v_PairEffectsNs r1) of
            None \<Rightarrow> Inl ''sticky value bootstrap overflows''
          | Some (lower, upper) \<Rightarrow>
              (case costs_loop (cost_values costs) (r1\<lparr>v_LowerBoundNs := lower, v_UpperBoundNs := upper\<rparr>) of
                 Inl e \<Rightarrow> Inl e
               | Inr r2 \<Rightarrow>
                   (case checkedSub (v_GrossSavingNs r2) (v_TotalCostNs r2) of
                      None \<Rightarrow> Inl ''sticky value net saving overflows''
                    | Some net \<Rightarrow> Inr (qualify (r2\<lparr>v_NetSavingNs := net\<rparr>)))))"

section \<open>Words as integers\<close>

definition int64_range :: "int set" where "int64_range = {-(2 ^ 63) ..< 2 ^ 63}"

lemma sint_in_range [simp]: "sint (a :: int64) \<in> int64_range"
  using sint_ge [of a] sint_lt [of a] by (simp add: int64_range_def)

lemma sint_bounds: "-(2 ^ 63) \<le> sint (a :: int64)" "sint (a :: int64) < 2 ^ 63"
  using sint_ge [of a] sint_lt [of a] by simp_all

lemma sint_of_int: "k \<in> int64_range \<Longrightarrow> sint (word_of_int k :: int64) = k"
  by (simp add: int64_range_def sint_sbintrunc' signed_take_bit_int_eq_self)

lemma sint_add: "sint a + sint b \<in> int64_range \<Longrightarrow> sint (a + b :: int64) = sint a + sint b"
  by (simp add: sint_word_ariths int64_range_def signed_take_bit_int_eq_self)

lemma sint_sub: "sint a - sint b \<in> int64_range \<Longrightarrow> sint (a - b :: int64) = sint a - sint b"
  by (simp add: sint_word_ariths int64_range_def signed_take_bit_int_eq_self)

lemma sint_limits [simp]: "sint MaxInt64 = 2 ^ 63 - 1" "sint MinInt64 = - (2 ^ 63)"
  by (simp_all add: MaxInt64_def MinInt64_def)

lemmas signed_order = word_sless_alt word_sle_eq

lemma checkedAdd_exact:
  "checkedAdd a b = (if sint a + sint b \<in> int64_range then Some (a + b) else None)"
proof -
  have up: "MaxInt64 - b <s a \<longleftrightarrow> 2 ^ 63 - 1 < sint a + sint b" if "0 < sint b"
    using that sint_bounds [of b] by (simp add: word_sless_alt sint_sub int64_range_def) linarith
  have lo: "a <s MinInt64 - b \<longleftrightarrow> sint a + sint b < - (2 ^ 63)" if "sint b < 0"
    using that sint_bounds [of b] by (simp add: word_sless_alt sint_sub int64_range_def) linarith
  consider "sint b < 0" | "sint b = 0" | "0 < sint b" by linarith
  then show ?thesis
  proof cases
    case 1
    with lo [OF 1] sint_bounds [of a] show ?thesis
      by (auto simp: checkedAdd_def word_sless_alt [of 0] word_sless_alt [of _ 0] int64_range_def)
  next
    case 2
    with sint_bounds [of a] show ?thesis
      by (auto simp: checkedAdd_def word_sless_alt [of 0] word_sless_alt [of _ 0] int64_range_def)
  next
    case 3
    with up [OF 3] sint_bounds [of a] show ?thesis
      by (auto simp: checkedAdd_def word_sless_alt [of 0] word_sless_alt [of _ 0] int64_range_def)
  qed
qed

lemma checkedAdd_Some: "checkedAdd a b = Some c \<longleftrightarrow> sint a + sint b \<in> int64_range \<and> c = a + b"
  by (auto simp: checkedAdd_exact)

lemma checkedAdd_sint: "checkedAdd a b = Some c \<Longrightarrow> sint c = sint a + sint b"
  by (simp add: checkedAdd_Some sint_add)

lemma checkedSub_exact:
  "checkedSub a b = (if sint a - sint b \<in> int64_range then Some (a - b) else None)"
proof (cases "b = MinInt64")
  case True
  then show ?thesis using sint_bounds [of a] by (auto simp: checkedSub_def signed_order int64_range_def)
next
  case False
  then have "sint b \<noteq> sint MinInt64" using signed_word_eqI by blast
  with sint_bounds [of b] have "- (2 ^ 63) < sint b" by simp
  with sint_bounds [of b] have "sint (- b) = - sint b" using sint_sub [of 0 b] by (simp add: int64_range_def)
  with False show ?thesis by (simp add: checkedSub_def checkedAdd_exact)
qed

lemma checkedSub_sint: "checkedSub a b = Some c \<Longrightarrow> sint c = sint a - sint b"
  by (auto simp: checkedSub_exact sint_sub split: if_splits)

lemma div_between: "0 < n \<Longrightarrow> n * lo \<le> x \<Longrightarrow> x \<le> n * hi \<Longrightarrow> lo \<le> x div n \<and> x div n \<le> hi" for n lo hi x :: int
  using zdiv_mono1 [of "n * lo" x n] zdiv_mono1 [of x "n * hi" n] by simp

lemma sdiv_between:
  fixes n lo hi x :: int
  assumes "0 < n" "n * lo \<le> x" "x \<le> n * hi"
  shows "lo \<le> x sdiv n" "x sdiv n \<le> hi"
proof -
  have "lo \<le> x sdiv n \<and> x sdiv n \<le> hi"
  proof (cases "x < 0")
    case True
    with assms(1) have "x sdiv n = - ((- x) div n)" by (simp add: signed_divide_int_def)
    moreover have "- hi \<le> (- x) div n \<and> (- x) div n \<le> - lo" using assms by (intro div_between) simp_all
    ultimately show ?thesis by simp
  next
    case False
    with assms(1) have "x sdiv n = x div n" by (cases "x = 0") (simp_all add: signed_divide_int_def)
    with div_between [OF assms] show ?thesis by simp
  qed
  then show "lo \<le> x sdiv n" "x sdiv n \<le> hi" by simp_all
qed

lemma go_div_sint:
  assumes "0 < n"
  shows "sint (go_div a n) = sint a sdiv int n"
proof -
  have "- (2 ^ 63) * int n \<le> - (2 ^ 63) * 1" "(2 ^ 63 - 1) * 1 \<le> (2 ^ 63 - 1) * int n"
    using assms by (intro mult_left_mono_neg mult_left_mono; simp)+
  with sint_bounds [of a] have "int n * - (2 ^ 63) \<le> sint a" "sint a \<le> int n * (2 ^ 63 - 1)" by (simp_all add: mult.commute)
  from sdiv_between [OF _ this] assms show ?thesis unfolding go_div_def by (intro sint_of_int) (simp add: int64_range_def)
qed

section \<open>The bootstrap\<close>

lemma draw_sum_between:
  assumes "draw_sum effects k state acc = Some (state', acc')" "effects \<noteq> []"
    and "\<And>e. e \<in> set effects \<Longrightarrow> lo \<le> sint e \<and> sint e \<le> hi"
  shows "sint acc + int k * lo \<le> sint acc' \<and> sint acc' \<le> sint acc + int k * hi"
  using assms(1)
proof (induction k arbitrary: state acc)
  case (Suc k)
  let ?v = "effects ! (unat (next_state state) mod length effects)"
  from Suc.prems obtain b where b: "checkedAdd acc ?v = Some b" "draw_sum effects k (next_state state) b = Some (state', acc')"
    by (auto simp: Let_def split: option.splits)
  have "?v \<in> set effects" using assms(2) by simp
  with assms(3) have "lo \<le> sint ?v" "sint ?v \<le> hi" by auto
  with Suc.IH [OF b(2)] checkedAdd_sint [OF b(1)] show ?case by (simp add: algebra_simps)
qed simp

lemma draw_sum_total:
  assumes "effects \<noteq> []" "\<And>e. e \<in> set effects \<Longrightarrow> 0 \<le> sint e \<and> sint e \<le> hi" "0 \<le> hi"
    and "0 \<le> sint acc" "sint acc + int k * hi < 2 ^ 63"
  shows "\<exists>y. draw_sum effects k state acc = Some y"
  using assms(4,5)
proof (induction k arbitrary: state acc)
  case (Suc k)
  let ?v = "effects ! (unat (next_state state) mod length effects)"
  have "?v \<in> set effects" using assms(1) by simp
  with assms(2) have v: "0 \<le> sint ?v" "sint ?v \<le> hi" by auto
  have "0 \<le> int k * hi" "int (Suc k) * hi = hi + int k * hi" using assms(3) by (simp_all add: algebra_simps)
  with v Suc.prems have "0 \<le> sint acc + sint ?v" "sint acc + sint ?v < 2 ^ 63" by linarith+
  then have "sint acc + sint ?v \<in> int64_range" by (simp add: int64_range_def)
  then have b: "checkedAdd acc ?v = Some (acc + ?v)" "sint (acc + ?v) = sint acc + sint ?v"
    by (simp_all add: checkedAdd_exact sint_add)
  have "\<exists>y. draw_sum effects k (next_state state) (acc + ?v) = Some y"
    using v Suc.prems b(2) by (intro Suc.IH) (simp_all add: algebra_simps)
  with b(1) show ?case by (simp add: Let_def)
qed simp

lemma replicates_between:
  assumes "replicates_loop effects k state = Some reps" "effects \<noteq> []"
    and "\<And>e. e \<in> set effects \<Longrightarrow> lo \<le> sint e \<and> sint e \<le> hi"
  shows "length reps = k \<and> (\<forall>r\<in>set reps. lo \<le> sint r \<and> sint r \<le> hi)"
  using assms(1)
proof (induction k arbitrary: state reps)
  case (Suc k)
  from Suc.prems obtain state' acc rest where d: "draw_sum effects (length effects) state 0 = Some (state', acc)"
    and r: "replicates_loop effects k state' = Some rest" and reps: "reps = go_div acc (length effects) # rest"
    by (auto split: option.splits)
  have n: "0 < int (length effects)" using assms(2) by simp
  from draw_sum_between [OF d assms(2,3)] have "int (length effects) * lo \<le> sint acc" "sint acc \<le> int (length effects) * hi" by simp_all
  from sdiv_between [OF n this] go_div_sint [of "length effects" acc] assms(2) Suc.IH [OF r] reps show ?case by simp
qed simp

lemma replicates_total:
  assumes "effects \<noteq> []" "\<And>e. e \<in> set effects \<Longrightarrow> 0 \<le> sint e \<and> sint e \<le> hi" "0 \<le> hi" "int (length effects) * hi < 2 ^ 63"
  shows "\<exists>reps. replicates_loop effects k state = Some reps"
proof (induction k arbitrary: state)
  case (Suc k)
  from draw_sum_total [OF assms(1-3), of 0 "length effects" state] assms(4)
  obtain state' acc where "draw_sum effects (length effects) state 0 = Some (state', acc)" by auto
  with Suc.IH [of state'] show ?case by auto
qed simp

lemma sorted_sint: "sorted (map sint (sort_key sint xs))"
  by simp

lemma bootstrap_between:
  assumes "pairedBootstrap95 effects = Some (lower, upper)" "effects \<noteq> []"
    and "\<And>e. e \<in> set effects \<Longrightarrow> lo \<le> sint e \<and> sint e \<le> hi"
  shows "lo \<le> sint lower" "sint lower \<le> sint upper" "sint upper \<le> hi"
proof -
  obtain reps where reps: "replicates_loop effects bootstrapSamples 0x9e3779b97f4a7c15 = Some reps"
    and lu: "lower = sort_key sint reps ! 102" "upper = sort_key sint reps ! 3993"
    using assms(1) by (auto simp: pairedBootstrap95_def Let_def split: option.splits)
  from replicates_between [OF reps assms(2,3)] have len: "length reps = 4096" and b: "\<forall>r\<in>set reps. lo \<le> sint r \<and> sint r \<le> hi"
    by (simp_all add: bootstrapSamples_def)
  have "lower \<in> set (sort_key sint reps)" "upper \<in> set (sort_key sint reps)" unfolding lu using len by (simp_all del: set_sort)
  with b show "lo \<le> sint lower" "sint upper \<le> hi" by simp_all
  have "map sint (sort_key sint reps) ! 102 \<le> map sint (sort_key sint reps) ! 3993"
    using len by (intro sorted_nth_mono [OF sorted_sint]) simp_all
  with len show "sint lower \<le> sint upper" by (simp add: lu)
qed

lemma bootstrap_total:
  assumes "effects \<noteq> []" "\<And>e. e \<in> set effects \<Longrightarrow> 0 \<le> sint e \<and> sint e \<le> hi" "0 \<le> hi" "int (length effects) * hi < 2 ^ 63"
  shows "\<exists>lower upper. pairedBootstrap95 effects = Some (lower, upper)"
  using replicates_total [OF assms, where k = bootstrapSamples and state = "0x9e3779b97f4a7c15"] by (auto simp: pairedBootstrap95_def Let_def)

section \<open>Order statistics\<close>

lemma sorted_nth_le_iff:
  fixes zs :: "int list"
  assumes "sorted zs" "i < length zs"
  shows "zs ! i \<le> t \<longleftrightarrow> i < length (filter (\<lambda>x. x \<le> t) zs)"
  using assms
proof (induction zs arbitrary: i)
  case (Cons z zs)
  show ?case
  proof (cases "z \<le> t")
    case True
    with Cons show ?thesis by (cases i) auto
  next
    case False
    with Cons.prems(1) have "filter (\<lambda>x. x \<le> t) (z # zs) = []" by (auto simp: filter_empty_conv)
    moreover have "z \<le> (z # zs) ! i" using Cons.prems nth_mem [OF Cons.prems(2)] by auto
    ultimately show ?thesis using False by simp
  qed
qed simp

lemma sort_nth_mono:
  fixes xs ys :: "int list"
  assumes "list_all2 (\<le>) xs ys" "i < length xs"
  shows "sort xs ! i \<le> sort ys ! i"
proof -
  define t where "t = sort ys ! i"
  from assms have len: "length xs = length ys" by (simp add: list_all2_lengthD)
  have "length (filter (\<lambda>x. x \<le> t) ys) \<le> length (filter (\<lambda>x. x \<le> t) xs)"
    using assms(1) by (induction rule: list_all2_induct) auto
  moreover have "i < length (filter (\<lambda>x. x \<le> t) (sort ys))"
    using sorted_nth_le_iff [of "sort ys" i t] assms(2) len by (simp add: t_def)
  ultimately have "i < length (filter (\<lambda>x. x \<le> t) (sort xs))" by (simp add: filter_sort)
  with assms(2) show ?thesis using sorted_nth_le_iff [of "sort xs" i t] by (simp add: t_def)
qed

lemma map_sort_key: "map f (sort_key f xs) = sort (map f xs)"
proof -
  have "map f (insort_key f x ys) = insort (f x) (map f ys)" for x ys by (induction ys) auto
  then show ?thesis by (induction xs) simp_all
qed

lemma nearestRank95_sint:
  assumes "vs \<noteq> []"
  shows "sint (nearestRank95 vs) = sort (map sint vs) ! ((95 * length vs + 99) div 100 - 1)"
proof -
  have "(95 * length vs + 99) div 100 - 1 < length (sort_key sint vs)" using assms by (cases vs) auto
  then show ?thesis by (simp add: nearestRank95_def map_sort_key [symmetric])
qed

lemma nearestRank95_mono:
  assumes "list_all2 (\<lambda>a b. sint a \<le> sint b) xs ys" "xs \<noteq> []"
  shows "sint (nearestRank95 xs) \<le> sint (nearestRank95 ys)"
proof -
  from assms have len: "length ys = length xs" and ys: "ys \<noteq> []" by (auto simp: list_all2_lengthD)
  have "(95 * length xs + 99) div 100 - 1 < length xs" using assms(2) by (cases xs) auto
  with assms sort_nth_mono [of "map sint xs" "map sint ys"] show ?thesis
    by (simp add: nearestRank95_sint ys len list_all2_map1 list_all2_map2)
qed

section \<open>The loops of the evaluation\<close>

abbreviation comparable :: "Pair \<Rightarrow> bool" where
  "comparable p \<equiv> \<not> p_NativeFailure p \<and> \<not> p_CandidateFailure p \<and> p_OutputsEquivalent p"

abbreviation pair_effect :: "Pair \<Rightarrow> int" where
  "pair_effect p \<equiv> sint (p_NativeWallNs p) - sint (p_CandidateWallNs p)"

lemma appendUnique_nonempty [simp]: "appendUnique vs v \<noteq> []"
  by (auto simp: appendUnique_def)

lemma add_reason_simps [simp]:
  "v_Reasons (add_reason c w r) = [] \<longleftrightarrow> \<not> c \<and> v_Reasons r = []"
  "v_PairEffectsNs (add_reason c w r) = v_PairEffectsNs r" "v_LowerBoundNs (add_reason c w r) = v_LowerBoundNs r"
  "v_UpperBoundNs (add_reason c w r) = v_UpperBoundNs r" "v_NativeP95Ns (add_reason c w r) = v_NativeP95Ns r"
  "v_CandidateP95Ns (add_reason c w r) = v_CandidateP95Ns r" "v_GrossSavingNs (add_reason c w r) = v_GrossSavingNs r"
  "v_TotalCostNs (add_reason c w r) = v_TotalCostNs r" "v_NetSavingNs (add_reason c w r) = v_NetSavingNs r"
  "v_MeanEffectNs (add_reason c w r) = v_MeanEffectNs r" "v_PositivePairCount (add_reason c w r) = v_PositivePairCount r"
  by (simp_all add: add_reason_def)

lemma pair_valid_wall: "pair_valid p \<Longrightarrow> 0 \<le> sint (p_NativeWallNs p) \<and> 0 \<le> sint (p_CandidateWallNs p)"
  by (auto simp: pair_valid_def signed_order)

lemma pairs_loop_sound:
  assumes "pairs_loop ps seen acc r = Inr (acc', r')"
  shows "(\<exists>effs. v_PairEffectsNs r' = v_PairEffectsNs r @ effs \<and> map sint effs = map pair_effect ps) \<and>
    sint acc' = sint acc + sum_list (map pair_effect ps) \<and>
    (\<forall>p\<in>set ps. pair_valid p) \<and> distinct (map p_PairID ps) \<and> p_PairID ` set ps \<inter> seen = {} \<and>
    (v_Reasons r' = [] \<longleftrightarrow> v_Reasons r = [] \<and> (\<forall>p\<in>set ps. comparable p)) \<and>
    v_TotalCostNs r' = v_TotalCostNs r \<and>
    v_PositivePairCount r' = v_PositivePairCount r + length (filter (\<lambda>p. 0 < pair_effect p) ps)"
  using assms
proof (induction ps arbitrary: seen acc r)
  case (Cons p ps)
  let ?r1 = "add_reason (p_NativeFailure p \<or> p_CandidateFailure p \<or> \<not> p_OutputsEquivalent p) ''PAIR_NOT_COMPARABLE'' r"
  from Cons.prems obtain e a where v: "pair_valid p" "p_PairID p \<notin> seen"
    and e: "checkedSub (p_NativeWallNs p) (p_CandidateWallNs p) = Some e" and a: "checkedAdd acc e = Some a"
    and rest: "pairs_loop ps (insert (p_PairID p) seen) a
      (?r1\<lparr>v_PairEffectsNs := v_PairEffectsNs ?r1 @ [e], v_PositivePairCount := v_PositivePairCount ?r1 + (if 0 <s e then 1 else 0)\<rparr>) = Inr (acc', r')"
    by (auto simp: Let_def split: if_splits option.splits)
  obtain effs where effs: "v_PairEffectsNs r' = (v_PairEffectsNs r @ [e]) @ effs" "map sint effs = map pair_effect ps"
    using Cons.IH [OF rest] by auto
  have "\<exists>effs. v_PairEffectsNs r' = v_PairEffectsNs r @ effs \<and> map sint effs = map pair_effect (p # ps)"
    using effs checkedSub_sint [OF e] by (intro exI [of _ "e # effs"]) simp
  then show ?case using Cons.IH [OF rest] v checkedSub_sint [OF e] checkedAdd_sint [OF a]
    by (auto simp: signed_order)
qed simp

lemma pairs_loop_total:
  assumes "\<forall>p\<in>set ps. pair_valid p \<and> 0 \<le> pair_effect p" "distinct (map p_PairID ps)" "p_PairID ` set ps \<inter> seen = {}"
    and "0 \<le> sint acc" "sint acc + sum_list (map pair_effect ps) < 2 ^ 63"
  shows "\<exists>acc' r'. pairs_loop ps seen acc r = Inr (acc', r')"
  using assms
proof (induction ps arbitrary: seen acc r)
  case (Cons p ps)
  let ?e = "p_NativeWallNs p - p_CandidateWallNs p"
  from Cons.prems(1) have p: "pair_valid p" "0 \<le> pair_effect p" by simp_all
  have e: "checkedSub (p_NativeWallNs p) (p_CandidateWallNs p) = Some ?e" "sint ?e = pair_effect p"
    using p pair_valid_wall [OF p(1)] sint_bounds [of "p_NativeWallNs p"]
    by (simp_all add: checkedSub_exact sint_sub int64_range_def)
  have "0 \<le> sum_list (map pair_effect ps)" using Cons.prems(1) by (intro sum_list_nonneg) auto
  then have "sint acc + sint ?e \<in> int64_range" using Cons.prems(4,5) p(2) e(2) by (simp add: int64_range_def)
  then have a: "checkedAdd acc ?e = Some (acc + ?e)" "sint (acc + ?e) = sint acc + pair_effect p"
    using e(2) by (simp_all add: checkedAdd_exact sint_add)
  have "\<exists>acc' r'. pairs_loop ps (insert (p_PairID p) seen) (acc + ?e) r = Inr (acc', r')" for r
    using Cons.prems a(2) p(2) by (intro Cons.IH) auto
  with p e a Cons.prems(3) show ?case by (simp add: Let_def)
qed simp

definition known_cost :: "int64 option \<Rightarrow> int" where
  "known_cost v = (case v of None \<Rightarrow> 0 | Some w \<Rightarrow> if sint w < 0 then 0 else sint w)"

lemma known_cost_simps [simp]: "known_cost None = 0" "0 \<le> sint w \<Longrightarrow> known_cost (Some w) = sint w" "0 \<le> known_cost v"
  by (auto simp: known_cost_def split: option.split)

definition cost_available :: "int64 option \<Rightarrow> bool" where
  "cost_available v = (case v of None \<Rightarrow> False | Some w \<Rightarrow> 0 \<le> sint w)"

lemma costs_loop_sound:
  assumes "costs_loop vs r = Inr r'"
  shows "(\<exists>t why. r' = r\<lparr>v_TotalCostNs := t, v_Reasons := why\<rparr> \<and> sint t = sint (v_TotalCostNs r) + sum_list (map known_cost vs) \<and>
    (why = [] \<longleftrightarrow> v_Reasons r = [] \<and> (\<forall>v\<in>set vs. cost_available v)))"
  using assms
proof (induction vs arbitrary: r)
  case Nil
  then show ?case by (intro exI [of _ "v_TotalCostNs r"] exI [of _ "v_Reasons r"]) simp
next
  case (Cons v vs)
  show ?case
  proof (cases "cost_available v")
    case True
    then obtain w where w: "v = Some w" "0 \<le> sint w" by (auto simp: cost_available_def split: option.splits)
    with Cons.prems obtain t where t: "checkedAdd (v_TotalCostNs r) w = Some t" "costs_loop vs (r\<lparr>v_TotalCostNs := t\<rparr>) = Inr r'"
      by (auto simp: signed_order split: option.splits)
    from Cons.IH [OF t(2)] obtain u why where u: "r' = r\<lparr>v_TotalCostNs := u, v_Reasons := why\<rparr>"
      "sint u = sint t + sum_list (map known_cost vs)" "why = [] \<longleftrightarrow> v_Reasons r = [] \<and> (\<forall>v\<in>set vs. cost_available v)" by auto
    with True w checkedAdd_sint [OF t(1)] show ?thesis by (intro exI [of _ u] exI [of _ why]) simp
  next
    case False
    then have k: "known_cost v = 0" by (auto simp: known_cost_def cost_available_def split: option.splits)
    from False Cons.prems have "costs_loop vs (add_reason True ''COST_UNAVAILABLE'' r) = Inr r'"
      by (auto simp: cost_available_def signed_order split: option.splits if_splits)
    from Cons.IH [OF this] obtain u why where "r' = r\<lparr>v_TotalCostNs := u, v_Reasons := why\<rparr>"
      "sint u = sint (v_TotalCostNs r) + sum_list (map known_cost vs)" "why \<noteq> []" by (auto simp: add_reason_def)
    with False k show ?thesis by (intro exI [of _ u] exI [of _ why]) simp
  qed
qed

lemma costs_loop_total:
  assumes "\<forall>v\<in>set vs. cost_available v" "0 \<le> sint (v_TotalCostNs r)" "sint (v_TotalCostNs r) + sum_list (map known_cost vs) < 2 ^ 63"
  shows "\<exists>r'. costs_loop vs r = Inr r'"
  using assms
proof (induction vs arbitrary: r)
  case (Cons v vs)
  then obtain w where w: "v = Some w" "0 \<le> sint w" by (auto simp: cost_available_def split: option.splits)
  have "0 \<le> sum_list (map known_cost vs)" by (intro sum_list_nonneg) auto
  with Cons.prems w have "sint (v_TotalCostNs r) + sint w \<in> int64_range" by (simp add: int64_range_def)
  then have a: "checkedAdd (v_TotalCostNs r) w = Some (v_TotalCostNs r + w)" "sint (v_TotalCostNs r + w) = sint (v_TotalCostNs r) + sint w"
    by (simp_all add: checkedAdd_exact sint_add)
  have "\<exists>r'. costs_loop vs (r\<lparr>v_TotalCostNs := v_TotalCostNs r + w\<rparr>) = Inr r'"
    using Cons.prems w a(2) by (intro Cons.IH) auto
  with w a(1) show ?case by (simp add: signed_order)
qed simp

section \<open>What an evaluation says\<close>

lemma qualify_simps [simp]:
  "v_Qualified (qualify r) \<longleftrightarrow> v_Reasons r = [] \<and> 0 < sint (v_LowerBoundNs r) \<and>
     sint (v_CandidateP95Ns r) \<le> sint (v_NativeP95Ns r) \<and> 0 < sint (v_NetSavingNs r)"
  "v_PairEffectsNs (qualify r) = v_PairEffectsNs r" "v_LowerBoundNs (qualify r) = v_LowerBoundNs r"
  "v_UpperBoundNs (qualify r) = v_UpperBoundNs r" "v_NativeP95Ns (qualify r) = v_NativeP95Ns r"
  "v_CandidateP95Ns (qualify r) = v_CandidateP95Ns r" "v_GrossSavingNs (qualify r) = v_GrossSavingNs r"
  "v_TotalCostNs (qualify r) = v_TotalCostNs r" "v_NetSavingNs (qualify r) = v_NetSavingNs r"
  "v_MeanEffectNs (qualify r) = v_MeanEffectNs r" "v_PositivePairCount (qualify r) = v_PositivePairCount r"
  by (auto simp: qualify_def Let_def signed_order not_le not_less)

lemma qualify_reasons: "v_Qualified (qualify r) \<Longrightarrow> v_Reasons (qualify r) = [''QUALIFIED_CONSERVATIVE_VALUE'']"
  by (simp add: qualify_def Let_def)

lemma Evaluate_cases:
  assumes "Evaluate pairs costs = Inr r"
  obtains acc r0 lower upper r1 net where
    "pairs \<noteq> []" "pairs_loop pairs {} 0 zero_evaluation = Inr (acc, r0)" "pairedBootstrap95 (v_PairEffectsNs r0) = Some (lower, upper)"
    "costs_loop (cost_values costs) (r0\<lparr>v_MeanEffectNs := go_div acc (length pairs), v_GrossSavingNs := acc,
       v_NativeP95Ns := nearestRank95 (map p_NativeWallNs pairs), v_CandidateP95Ns := nearestRank95 (map p_CandidateWallNs pairs),
       v_LowerBoundNs := lower, v_UpperBoundNs := upper\<rparr>) = Inr r1"
    "checkedSub (v_GrossSavingNs r1) (v_TotalCostNs r1) = Some net" "r = qualify (r1\<lparr>v_NetSavingNs := net\<rparr>)"
  using assms by (auto simp: Evaluate_def Let_def split: if_splits sum.splits option.splits prod.splits)

definition evaluation_spec :: "Pair list \<Rightarrow> Costs \<Rightarrow> Evaluation \<Rightarrow> bool" where
  "evaluation_spec pairs costs r \<longleftrightarrow>
     map sint (v_PairEffectsNs r) = map pair_effect pairs \<and>
     sint (v_GrossSavingNs r) = (\<Sum>p\<leftarrow>pairs. pair_effect p) \<and>
     sint (v_TotalCostNs r) = sum_list (map known_cost (cost_values costs)) \<and>
     sint (v_NetSavingNs r) = sint (v_GrossSavingNs r) - sint (v_TotalCostNs r) \<and>
     sint (v_MeanEffectNs r) = (\<Sum>p\<leftarrow>pairs. pair_effect p) sdiv int (length pairs) \<and>
     v_PositivePairCount r = length (filter (\<lambda>p. 0 < pair_effect p) pairs) \<and>
     sint (v_NativeP95Ns r) = sort (map (sint \<circ> p_NativeWallNs) pairs) ! ((95 * length pairs + 99) div 100 - 1) \<and>
     sint (v_CandidateP95Ns r) = sort (map (sint \<circ> p_CandidateWallNs) pairs) ! ((95 * length pairs + 99) div 100 - 1) \<and>
     Min (pair_effect ` set pairs) \<le> sint (v_LowerBoundNs r) \<and> sint (v_LowerBoundNs r) \<le> sint (v_UpperBoundNs r) \<and>
     sint (v_UpperBoundNs r) \<le> Max (pair_effect ` set pairs)"

lemma Evaluate_exact:
  assumes "Evaluate pairs costs = Inr r"
  shows "evaluation_spec pairs costs r"
    and "pairs \<noteq> []" "\<forall>p\<in>set pairs. pair_valid p" "distinct (map p_PairID pairs)"
    and "v_Qualified r \<longleftrightarrow> (\<forall>p\<in>set pairs. comparable p) \<and> (\<forall>v\<in>set (cost_values costs). cost_available v) \<and>
      0 < sint (v_LowerBoundNs r) \<and> sint (v_CandidateP95Ns r) \<le> sint (v_NativeP95Ns r) \<and> 0 < sint (v_NetSavingNs r)"
proof -
  from assms obtain acc r0 lower upper r1 net where ne: "pairs \<noteq> []"
    and loop: "pairs_loop pairs {} 0 zero_evaluation = Inr (acc, r0)" and boot: "pairedBootstrap95 (v_PairEffectsNs r0) = Some (lower, upper)"
    and cost: "costs_loop (cost_values costs) (r0\<lparr>v_MeanEffectNs := go_div acc (length pairs), v_GrossSavingNs := acc,
       v_NativeP95Ns := nearestRank95 (map p_NativeWallNs pairs), v_CandidateP95Ns := nearestRank95 (map p_CandidateWallNs pairs),
       v_LowerBoundNs := lower, v_UpperBoundNs := upper\<rparr>) = Inr r1"
    and net: "checkedSub (v_GrossSavingNs r1) (v_TotalCostNs r1) = Some net" and r: "r = qualify (r1\<lparr>v_NetSavingNs := net\<rparr>)"
    by (rule Evaluate_cases)
  note p = pairs_loop_sound [OF loop]
  from costs_loop_sound [OF cost] obtain t why where
    r1: "r1 = r0\<lparr>v_MeanEffectNs := go_div acc (length pairs), v_GrossSavingNs := acc,
       v_NativeP95Ns := nearestRank95 (map p_NativeWallNs pairs), v_CandidateP95Ns := nearestRank95 (map p_CandidateWallNs pairs),
       v_LowerBoundNs := lower, v_UpperBoundNs := upper, v_TotalCostNs := t, v_Reasons := why\<rparr>"
    and t: "sint t = sint (v_TotalCostNs r0) + sum_list (map known_cost (cost_values costs))"
    and why: "why = [] \<longleftrightarrow> v_Reasons r0 = [] \<and> (\<forall>v\<in>set (cost_values costs). cost_available v)" by auto
  have eff: "map sint (v_PairEffectsNs r0) = map pair_effect pairs" using p by (auto simp: zero_evaluation_def)
  then have eff_set: "sint ` set (v_PairEffectsNs r0) = pair_effect ` set pairs" by (metis list.set_map)
  have "v_PairEffectsNs r0 \<noteq> []" using eff ne by auto
  moreover have "Min (pair_effect ` set pairs) \<le> sint e \<and> sint e \<le> Max (pair_effect ` set pairs)" if "e \<in> set (v_PairEffectsNs r0)" for e
  proof -
    from that have "sint e \<in> pair_effect ` set pairs" using eff_set by blast
    then show ?thesis by simp
  qed
  ultimately have b: "Min (pair_effect ` set pairs) \<le> sint lower" "sint lower \<le> sint upper" "sint upper \<le> Max (pair_effect ` set pairs)"
    using bootstrap_between [OF boot] by blast+
  have zero: "v_TotalCostNs zero_evaluation = 0" "v_Reasons zero_evaluation = []" "v_PositivePairCount zero_evaluation = 0"
    by (simp_all add: zero_evaluation_def)
  from net have netv: "sint net = sint acc - sint t" by (simp add: r1 checkedSub_sint)
  have acc: "sint acc = (\<Sum>p\<leftarrow>pairs. pair_effect p)" and t0: "sint t = sum_list (map known_cost (cost_values costs))"
    and count: "v_PositivePairCount r0 = length (filter (\<lambda>p. 0 < pair_effect p) pairs)" using p t zero by simp_all
  show "evaluation_spec pairs costs r"
    unfolding evaluation_spec_def r r1 using eff b netv acc t0 count ne by (simp add: go_div_sint nearestRank95_sint)
  show "pairs \<noteq> []" "\<forall>p\<in>set pairs. pair_valid p" "distinct (map p_PairID pairs)" using ne p by simp_all
  show "v_Qualified r \<longleftrightarrow> (\<forall>p\<in>set pairs. comparable p) \<and> (\<forall>v\<in>set (cost_values costs). cost_available v) \<and>
      0 < sint (v_LowerBoundNs r) \<and> sint (v_CandidateP95Ns r) \<le> sint (v_NativeP95Ns r) \<and> 0 < sint (v_NetSavingNs r)"
    unfolding r r1 using p zero why by auto
qed

lemma uniform_gain:
  assumes "pairs \<noteq> []" "\<forall>p\<in>set pairs. pair_valid p \<and> comparable p \<and> 0 < pair_effect p \<and> pair_effect p \<le> hi"
    and "distinct (map p_PairID pairs)" "int (length pairs) * hi < 2 ^ 63"
    and "\<forall>v\<in>set (cost_values costs). cost_available v"
    and "sum_list (map known_cost (cost_values costs)) < (\<Sum>p\<leftarrow>pairs. pair_effect p)"
  shows "\<exists>r. Evaluate pairs costs = Inr r \<and> v_Qualified r"
proof -
  have hi: "0 \<le> hi" using assms(1,2) by (metis hd_in_set order.trans order.strict_implies_order)
  have le: "(\<Sum>p\<leftarrow>pairs. pair_effect p) \<le> (\<Sum>p\<leftarrow>pairs. hi)" by (rule sum_list_mono) (use assms(2) in auto)
  then have small: "(\<Sum>p\<leftarrow>pairs. pair_effect p) < 2 ^ 63" using assms(4) by (simp add: sum_list_triv)
  have "\<forall>p\<in>set pairs. pair_valid p \<and> 0 \<le> pair_effect p" using assms(2) by auto
  then obtain acc r0 where loop: "pairs_loop pairs {} 0 zero_evaluation = Inr (acc, r0)"
    using pairs_loop_total [of pairs "{}" 0 zero_evaluation] assms(3) small by auto
  note p = pairs_loop_sound [OF loop]
  have eff: "map sint (v_PairEffectsNs r0) = map pair_effect pairs" using p by (auto simp: zero_evaluation_def)
  then have eff_set: "sint ` set (v_PairEffectsNs r0) = pair_effect ` set pairs" by (metis list.set_map)
  have e0: "v_PairEffectsNs r0 \<noteq> []" using eff assms(1) by auto
  have el: "length (v_PairEffectsNs r0) = length pairs" using eff by (metis length_map)
  have "0 \<le> sint e \<and> sint e \<le> hi" if "e \<in> set (v_PairEffectsNs r0)" for e
  proof -
    from that have "sint e \<in> pair_effect ` set pairs" using eff_set by blast
    with assms(2) show ?thesis by auto
  qed
  then obtain lower upper where boot: "pairedBootstrap95 (v_PairEffectsNs r0) = Some (lower, upper)"
    using bootstrap_total [OF e0 _ hi] assms(4) el by auto
  let ?r = "r0\<lparr>v_MeanEffectNs := go_div acc (length pairs), v_GrossSavingNs := acc,
       v_NativeP95Ns := nearestRank95 (map p_NativeWallNs pairs), v_CandidateP95Ns := nearestRank95 (map p_CandidateWallNs pairs),
       v_LowerBoundNs := lower, v_UpperBoundNs := upper\<rparr>"
  have zero: "v_TotalCostNs zero_evaluation = 0" by (simp add: zero_evaluation_def)
  then have acc: "sint acc = (\<Sum>p\<leftarrow>pairs. pair_effect p)" "v_TotalCostNs r0 = 0" using p by simp_all
  obtain r1 where cost: "costs_loop (cost_values costs) ?r = Inr r1"
    using costs_loop_total [OF assms(5), of ?r] assms(6) small acc(2) by auto
  from costs_loop_sound [OF cost] acc have r1: "v_GrossSavingNs r1 = acc" "sint (v_TotalCostNs r1) = sum_list (map known_cost (cost_values costs))"
    by auto
  have "0 \<le> sum_list (map known_cost (cost_values costs))" by (intro sum_list_nonneg) auto
  with r1 assms(6) small acc have "checkedSub (v_GrossSavingNs r1) (v_TotalCostNs r1) = Some (acc - v_TotalCostNs r1)"
    by (simp add: checkedSub_exact int64_range_def)
  then have ev: "Evaluate pairs costs = Inr (qualify (r1\<lparr>v_NetSavingNs := acc - v_TotalCostNs r1\<rparr>))" (is "_ = Inr ?v")
    using assms(1) loop boot cost by (simp add: Evaluate_def Let_def)
  note x = Evaluate_exact [OF ev]
  have "0 < Min (pair_effect ` set pairs)" using assms(1,2) by (subst Min_gr_iff) auto
  with x(1) have "0 < sint (v_LowerBoundNs ?v)" by (simp add: evaluation_spec_def del: qualify_simps)
  moreover have "0 < sint (v_NetSavingNs ?v)" using x(1) assms(6) by (simp add: evaluation_spec_def del: qualify_simps)
  moreover have "sint (v_CandidateP95Ns ?v) \<le> sint (v_NativeP95Ns ?v)"
  proof -
    have "sort (map (sint \<circ> p_CandidateWallNs) pairs) ! i \<le> sort (map (sint \<circ> p_NativeWallNs) pairs) ! i" if "i < length pairs" for i
      using that assms(2) by (intro sort_nth_mono) (auto simp: list_all2_map1 list_all2_map2 list_all2_same intro: less_imp_le)
    moreover have "(95 * length pairs + 99) div 100 - 1 < length pairs" using assms(1) by (cases pairs) auto
    ultimately show ?thesis using x(1) by (simp add: evaluation_spec_def del: qualify_simps)
  qed
  ultimately have "v_Qualified ?v" using x(5) assms(2,5) by blast
  with ev show ?thesis by blast
qed

section \<open>Properties\<close>

text \<open>
  (C30) The value ledger is exact. Whenever \<open>Evaluate\<close> returns a result, no intermediate sum has wrapped: the
  gross saving, the cost, the net saving and the mean are the sums over unbounded integers, the two
  percentiles are the nearest-rank order statistics, the pair identifiers are unique and the bootstrap interval is
  ordered and lies between the smallest and the largest observed effect. The result is qualified exactly when every
  pair is comparable, every cost category is known and not negative, the lower bound is positive, the 95th percentile did not regress and
  the saving exceeds the cost.
\<close>

theorem value_ledger_exact:
  assumes "Evaluate pairs costs = Inr r"
  shows "evaluation_spec pairs costs r \<and> pairs \<noteq> [] \<and> distinct (map p_PairID pairs) \<and>
    (v_Qualified r \<longleftrightarrow> (\<forall>p\<in>set pairs. comparable p) \<and> (\<forall>v\<in>set (cost_values costs). cost_available v) \<and>
      0 < sint (v_LowerBoundNs r) \<and> sint (v_CandidateP95Ns r) \<le> sint (v_NativeP95Ns r) \<and>
      sum_list (map known_cost (cost_values costs)) < (\<Sum>p\<leftarrow>pairs. pair_effect p))"
proof -
  note x = Evaluate_exact [OF assms]
  have "0 < sint (v_NetSavingNs r) \<longleftrightarrow> sum_list (map known_cost (cost_values costs)) < (\<Sum>p\<leftarrow>pairs. pair_effect p)"
    using x(1) by (simp add: evaluation_spec_def)
  with x show ?thesis by blast
qed

definition ex_pairs :: "Pair list" where
  "ex_pairs =
     [\<lparr>p_PairID = ''p1'', p_Order = ''NATIVE_FIRST'', p_NativeWallNs = 200, p_CandidateWallNs = 100,
       p_OutputsEquivalent = True, p_NativeFailure = False, p_CandidateFailure = False\<rparr>,
      \<lparr>p_PairID = ''p2'', p_Order = ''CANDIDATE_FIRST'', p_NativeWallNs = 220, p_CandidateWallNs = 110,
       p_OutputsEquivalent = True, p_NativeFailure = False, p_CandidateFailure = False\<rparr>]"

definition ex_costs :: Costs where
  "ex_costs = \<lparr>c_BootstrapNs = Some 1, c_ObservationNs = Some 1, c_TrialNs = Some 1, c_CacheNs = Some 1, c_StateNs = Some 1,
     c_FallbackNs = Some 0, c_ExecutionNs = Some 1, c_PublicationNs = Some 0, c_ValidationNs = Some 1\<rparr>"

lemma ex_gain:
  "ex_pairs \<noteq> []" "\<forall>p\<in>set ex_pairs. pair_valid p \<and> comparable p \<and> 0 < pair_effect p \<and> pair_effect p \<le> 110"
  "distinct (map p_PairID ex_pairs)" "int (length ex_pairs) * 110 < 2 ^ 63"
  "\<forall>v\<in>set (cost_values ex_costs). cost_available v"
  "sum_list (map known_cost (cost_values ex_costs)) < (\<Sum>p\<leftarrow>ex_pairs. pair_effect p)"
  by (simp_all add: ex_pairs_def ex_costs_def pair_valid_def signed_order cost_values_def cost_available_def known_cost_def)

theorem value_ledger_exact_witness:
  "\<exists>r. Evaluate ex_pairs ex_costs = Inr r \<and> v_Qualified r \<and> sint (v_NetSavingNs r) = 203"
proof -
  from uniform_gain [OF ex_gain] obtain r where r: "Evaluate ex_pairs ex_costs = Inr r" "v_Qualified r" by blast
  have "sint (v_NetSavingNs r) = 203"
    using value_ledger_exact [OF r(1)]
    by (simp add: evaluation_spec_def ex_pairs_def ex_costs_def cost_values_def known_cost_def)
  with r show ?thesis by blast
qed

text \<open>
  A uniform gain qualifies. If every pair is valid, comparable and favours the candidate, the identifiers
  are unique, the effects are small enough for their sum to fit, every cost is known and their sum is below the total
  gain, then \<open>Evaluate\<close> returns a qualified result: neither the overflow checks nor the bootstrap nor the
  percentile test can reject it.
\<close>

theorem uniform_gain_qualifies:
  assumes "pairs \<noteq> []" "\<forall>p\<in>set pairs. pair_valid p \<and> comparable p \<and> 0 < pair_effect p \<and> pair_effect p \<le> hi"
    and "distinct (map p_PairID pairs)" "int (length pairs) * hi < 2 ^ 63"
    and "\<forall>v\<in>set (cost_values costs). cost_available v"
    and "sum_list (map known_cost (cost_values costs)) < (\<Sum>p\<leftarrow>pairs. pair_effect p)"
  shows "\<exists>r. Evaluate pairs costs = Inr r \<and> v_Qualified r \<and> v_Reasons r = [''QUALIFIED_CONSERVATIVE_VALUE'']"
proof -
  from uniform_gain [OF assms] obtain r where r: "Evaluate pairs costs = Inr r" "v_Qualified r" by blast
  from r(1) have "v_Reasons r = [''QUALIFIED_CONSERVATIVE_VALUE'']"
    by (rule Evaluate_cases) (use r(2) qualify_reasons in simp)
  with r show ?thesis by blast
qed

theorem uniform_gain_qualifies_witness:
  "\<exists>r. Evaluate ex_pairs ex_costs = Inr r \<and> v_Qualified r \<and> v_Reasons r = [''QUALIFIED_CONSERVATIVE_VALUE'']"
  using uniform_gain_qualifies [OF ex_gain] .

end
