(* ===== verification/CriticalPath.thy ===== *)
theory CriticalPath
  imports Prelude
begin

text \<open>
  \<open>internal/gradlecriticalpath/analyzer.go\<close>: the longest chain of dependent tasks of each build, by cumulative
  duration. The JSON lines of the task graph and of the operation trace are given as the lists of their decoded documents and
  records; the digests of the two files are arguments. Of the result of an operation the record keeps what \<open>taskOutcome\<close>
  reads. Go maps are association lists; \<open>iter\<close> is the order in which the map of started operations is
  iterated. Milliseconds are \<open>int64\<close>, kept as integers with the wrap-around of \<open>+\<close> and \<open>-\<close> written out.
\<close>

section \<open>Data\<close>

abbreviation GraphSchema :: string where "GraphSchema \<equiv> ''buildopt.diagnostics/gradle-task-graph/v1''"
abbreviation ReportSchema :: string where "ReportSchema \<equiv> ''buildopt.diagnostics/gradle-task-critical-path/v1''"

definition maximumTasks :: int where "maximumTasks = 100000"

record GraphTask =
  g_Identity :: string
  g_Path :: string
  g_TaskClass :: string
  g_Dependencies :: "string list"

record GraphDocument =
  gd_SchemaVersion :: string
  gd_BuildPath :: string
  gd_Tasks :: "GraphTask list"

record Task =
  t_Identity :: string
  t_BuildPath :: string
  t_Path :: string
  t_TaskClass :: string
  t_StartTimeMs :: int
  t_EndTimeMs :: int
  t_DurationMs :: int
  t_Outcome :: string
  t_Dependencies :: "string list"
  t_CriticalPath :: bool

record BuildSummary =
  b_BuildPath :: string
  b_TaskCount :: nat
  b_TaskExecutionSpanMs :: int
  b_CumulativeDurationMs :: int
  b_CriticalPathDurationMs :: int
  b_CriticalPathTasks :: "string list"

record Report =
  r_SchemaVersion :: string
  r_Arm :: string
  r_OperationTraceSHA256 :: string
  r_TaskGraphSHA256 :: string
  r_Builds :: "BuildSummary list"
  r_Tasks :: "Task list"
  r_CumulativeTaskDurationMs :: int
  r_MainBuild :: BuildSummary
  r_Outcomes :: "(string \<times> nat) list"
  r_DiagnosticOnly :: bool
  r_ProductionAuthorized :: bool

record operationResult =
  o_SkipMessage :: "string option"
  o_OriginBuildCacheKeyBytes :: bool
  o_Actionable :: "bool option"

record operationRecord =
  o_ID :: int
  o_StartTime :: "int option"
  o_EndTime :: "int option"
  o_DetailsClassName :: string
  o_ResultClassName :: string
  o_BuildPath :: string
  o_TaskPath :: string
  o_TaskClass :: string
  o_Result :: operationResult
  o_Failure :: bool

record taskStart =
  s_BuildPath :: string
  s_Path :: string
  s_TaskClass :: string
  s_Started :: int

record taskEnd =
  d_Ended :: int
  d_Result :: operationResult
  d_Failure :: bool

record pathScore =
  p_Duration :: int
  p_Tasks :: "string list"

section \<open>Small functions\<close>

definition wrap64 :: "int \<Rightarrow> int" where "wrap64 x = (x + 2 ^ 63) mod 2 ^ 64 - 2 ^ 63"

definition validBuildPath :: "string \<Rightarrow> bool" where
  "validBuildPath v = (hasPrefix '':'' v \<and> \<not> containsAny v [CHR 0x0D, CHR 0x0A, CHR 0x00])"

definition taskIdentity :: "string \<Rightarrow> string \<Rightarrow> string" where
  "taskIdentity buildPath taskPath = (if buildPath = '':'' then taskPath else buildPath @ taskPath)"

definition taskOutcome :: "taskEnd \<Rightarrow> string" where
  "taskOutcome e =
     (if d_Failure e then ''FAILED''
      else case o_SkipMessage (d_Result e) of
        Some (c # cs) \<Rightarrow> c # cs
      | _ \<Rightarrow>
          if o_OriginBuildCacheKeyBytes (d_Result e) then ''FROM-CACHE''
          else if o_Actionable (d_Result e) = Some False then ''NO-ACTIONS''
          else ''EXECUTED'')"

definition betterPath :: "pathScore \<Rightarrow> pathScore \<Rightarrow> bool" where
  "betterPath candidate current =
     (if length (p_Tasks candidate) = 0 then False
      else if length (p_Tasks current) = 0 then True
      else if p_Duration candidate \<noteq> p_Duration current then p_Duration candidate > p_Duration current
      else if length (p_Tasks candidate) \<noteq> length (p_Tasks current) then length (p_Tasks candidate) > length (p_Tasks current)
      else join_with (CHR 0x00) (p_Tasks candidate) < join_with (CHR 0x00) (p_Tasks current))"

section \<open>Reading\<close>

fun graph_tasks_loop :: "GraphTask list \<Rightarrow> (string \<times> GraphTask) list \<Rightarrow> (string \<times> GraphTask) list result" where
  "graph_tasks_loop [] graphs = Inr graphs"
| "graph_tasks_loop (t # ts) graphs =
     (if g_Identity t = [] \<or> g_Path t = [] \<or> g_TaskClass t = [] \<or> map_of graphs (g_Identity t) \<noteq> None
      then Inl ''invalid or duplicate task graph task''
      else let graphs' = (g_Identity t, t) # graphs in
        if int (length graphs') > maximumTasks then Inl ''task graph exceeds task bound'' else graph_tasks_loop ts graphs')"

fun graphs_loop :: "GraphDocument list \<Rightarrow> string set \<Rightarrow> (string \<times> GraphTask) list \<Rightarrow> (string \<times> GraphTask) list result" where
  "graphs_loop [] builds graphs = Inr graphs"
| "graphs_loop (d # ds) builds graphs =
     (if gd_SchemaVersion d \<noteq> GraphSchema \<or> \<not> validBuildPath (gd_BuildPath d) \<or> length (gd_Tasks d) = 0 \<or> gd_BuildPath d \<in> builds
      then Inl ''invalid or duplicate task graph document''
      else case graph_tasks_loop (gd_Tasks d) graphs of
        Inl e \<Rightarrow> Inl e
      | Inr graphs' \<Rightarrow> graphs_loop ds (insert (gd_BuildPath d) builds) graphs')"

definition readGraphs :: "GraphDocument list \<Rightarrow> (string \<times> GraphTask) list result" where
  "readGraphs documents =
     (case graphs_loop documents {} [] of
        Inl e \<Rightarrow> Inl e
      | Inr graphs \<Rightarrow> if length graphs = 0 then Inl ''task graph is empty'' else Inr graphs)"

definition is_start :: "operationRecord \<Rightarrow> bool" where
  "is_start r = (o_StartTime r \<noteq> None \<and> o_DetailsClassName r = ''org.gradle.api.internal.tasks.execution.ExecuteTaskBuildOperationDetails'')"

definition is_end :: "operationRecord \<Rightarrow> bool" where
  "is_end r = (o_EndTime r \<noteq> None \<and> o_ResultClassName r = ''org.gradle.api.internal.tasks.execution.ExecuteTaskBuildOperationResult'')"

definition new_start :: "operationRecord \<Rightarrow> taskStart" where
  "new_start r = \<lparr>s_BuildPath = o_BuildPath r, s_Path = o_TaskPath r, s_TaskClass = o_TaskClass r, s_Started = the (o_StartTime r)\<rparr>"

definition new_end :: "operationRecord \<Rightarrow> taskEnd" where
  "new_end r = \<lparr>d_Ended = the (o_EndTime r), d_Result = o_Result r, d_Failure = o_Failure r\<rparr>"

fun operations_loop ::
    "operationRecord list \<Rightarrow> (int \<times> taskStart) list \<Rightarrow> (int \<times> taskEnd) list \<Rightarrow> ((int \<times> taskStart) list \<times> (int \<times> taskEnd) list) result" where
  "operations_loop [] starts ends = Inr (starts, ends)"
| "operations_loop (r # rs) starts ends =
     (if is_start r \<and> (map_of starts (o_ID r) \<noteq> None \<or> o_TaskPath r = [] \<or> \<not> validBuildPath (o_BuildPath r))
      then Inl ''invalid or duplicate task start operation''
      else if is_end r \<and> map_of ends (o_ID r) \<noteq> None then Inl ''duplicate task end operation''
      else operations_loop rs (if is_start r then (o_ID r, new_start r) # starts else starts)
             (if is_end r then (o_ID r, new_end r) # ends else ends))"

definition readOperations :: "operationRecord list \<Rightarrow> ((int \<times> taskStart) list \<times> (int \<times> taskEnd) list) result" where
  "readOperations records =
     (case operations_loop records [] [] of
        Inl e \<Rightarrow> Inl e
      | Inr (starts, ends) \<Rightarrow>
          if length starts = 0 \<or> int (length starts) > maximumTasks \<or> length ends \<noteq> length starts
          then Inl ''operation trace has incomplete task operations'' else Inr (starts, ends))"

section \<open>Joining\<close>

fun join_loop ::
    "(string \<times> GraphTask) list \<Rightarrow> (int \<times> taskEnd) list \<Rightarrow> (int \<times> taskStart) list \<Rightarrow> string list \<Rightarrow> Task list \<Rightarrow> (string list \<times> Task list) result" where
  "join_loop graphs ends [] seen tasks = Inr (seen, tasks)"
| "join_loop graphs ends ((i, s) # rest) seen tasks =
     (case map_of ends i of
        None \<Rightarrow> Inl ''task operation end is missing or precedes its start''
      | Some e \<Rightarrow>
          if d_Ended e < s_Started s then Inl ''task operation end is missing or precedes its start''
          else let identity = taskIdentity (s_BuildPath s) (s_Path s) in
            case map_of graphs identity of
              None \<Rightarrow> Inl (''executed task is absent or duplicated in graph: '' @ identity)
            | Some g \<Rightarrow>
                if identity \<in> set seen then Inl (''executed task is absent or duplicated in graph: '' @ identity)
                else join_loop graphs ends rest (identity # seen)
                  (tasks @ [\<lparr>t_Identity = identity, t_BuildPath = s_BuildPath s, t_Path = s_Path s, t_TaskClass = s_TaskClass s,
                     t_StartTimeMs = s_Started s, t_EndTimeMs = d_Ended e, t_DurationMs = wrap64 (d_Ended e - s_Started s),
                     t_Outcome = taskOutcome e, t_Dependencies = g_Dependencies g, t_CriticalPath = False\<rparr>]))"

type_synonym start_iteration = "(int \<times> taskStart) list \<Rightarrow> (int \<times> taskStart) list"

definition joinTasks :: "start_iteration \<Rightarrow> (string \<times> GraphTask) list \<Rightarrow> (int \<times> taskStart) list \<Rightarrow> (int \<times> taskEnd) list \<Rightarrow> Task list result" where
  "joinTasks iter graphs starts ends =
     (case join_loop graphs ends (iter starts) [] [] of
        Inl e \<Rightarrow> Inl e
      | Inr (seen, tasks) \<Rightarrow>
          if length seen \<noteq> length graphs then Inl ''task graph contains tasks without completed operations''
          else Inr (sort_key t_Identity tasks))"

section \<open>Longest paths\<close>

definition zero_task :: Task where
  "zero_task = \<lparr>t_Identity = [], t_BuildPath = [], t_Path = [], t_TaskClass = [], t_StartTimeMs = 0, t_EndTimeMs = 0, t_DurationMs = 0,
     t_Outcome = [], t_Dependencies = [], t_CriticalPath = False\<rparr>"

definition task_at :: "(string \<times> Task) list \<Rightarrow> string \<Rightarrow> Task" where
  "task_at tasks identity = (case map_of tasks identity of None \<Rightarrow> zero_task | Some t \<Rightarrow> t)"

definition extend_path :: "pathScore \<Rightarrow> Task \<Rightarrow> string \<Rightarrow> pathScore" where
  "extend_path best t identity = \<lparr>p_Duration = wrap64 (p_Duration best + t_DurationMs t), p_Tasks = p_Tasks best @ [identity]\<rparr>"

definition zero_score :: pathScore where "zero_score = \<lparr>p_Duration = 0, p_Tasks = []\<rparr>"

text \<open>The measure of the search: the tasks that are not being visited.\<close>

definition path_measure :: "(string \<times> Task) list \<Rightarrow> string list \<Rightarrow> nat" where
  "path_measure tasks visiting = card (fst ` set tasks - set visiting)"

lemma path_measure_visit:
  assumes "x \<notin> set visiting" "x \<in> fst ` set tasks"
  shows "path_measure tasks (x # visiting) < path_measure tasks visiting"
  unfolding path_measure_def using assms by (intro psubset_card_mono) auto

lemma path_measure_le: "path_measure tasks (x # visiting) \<le> path_measure tasks visiting"
  unfolding path_measure_def by (intro card_mono) auto

lemma task_at_absent: "x \<notin> fst ` set tasks \<Longrightarrow> t_Dependencies (task_at tasks x) = []"
  by (simp add: task_at_def zero_task_def map_of_eq_None_iff [THEN iffD2])

text \<open>
  The recursion of \<open>longestPath\<close> and, as \<open>deps_loop\<close>, its loop over the dependencies. The set \<open>visiting\<close> is
  restored before a successful return, so it is an argument; \<open>memo\<close> is threaded.
\<close>

function longestPath ::
    "(string \<times> Task) list \<Rightarrow> string \<Rightarrow> string \<Rightarrow> string list \<Rightarrow> (string \<times> pathScore) list \<Rightarrow> (pathScore \<times> (string \<times> pathScore) list) result"
  and deps_loop ::
    "(string \<times> Task) list \<Rightarrow> string \<Rightarrow> string list \<Rightarrow> string list \<Rightarrow> (string \<times> pathScore) list \<Rightarrow> pathScore \<Rightarrow>
      (pathScore \<times> (string \<times> pathScore) list) result" where
  "longestPath tasks buildPath identity visiting memo =
     (case map_of memo identity of
        Some score \<Rightarrow> Inr (score, memo)
      | None \<Rightarrow>
          if identity \<in> set visiting then Inl ''task dependency graph contains a cycle''
          else case deps_loop tasks buildPath (t_Dependencies (task_at tasks identity)) (identity # visiting) memo zero_score of
            Inl e \<Rightarrow> Inl e
          | Inr (best, memo') \<Rightarrow>
              let best' = extend_path best (task_at tasks identity) identity in Inr (best', (identity, best') # memo'))"
| "deps_loop tasks buildPath [] visiting memo best = Inr (best, memo)"
| "deps_loop tasks buildPath (d # ds) visiting memo best =
     (case map_of tasks d of
        None \<Rightarrow> Inl (''task dependency is absent from operations: '' @ d)
      | Some candidate \<Rightarrow>
          if t_BuildPath candidate \<noteq> buildPath then deps_loop tasks buildPath ds visiting memo best
          else case longestPath tasks buildPath d visiting memo of
            Inl e \<Rightarrow> Inl e
          | Inr (score, memo') \<Rightarrow> deps_loop tasks buildPath ds visiting memo' (if betterPath score best then score else best))"
  by pat_completeness auto

termination
proof (relation "measures [\<lambda>x. case x of Inl (tasks, _, _, visiting, _) \<Rightarrow> path_measure tasks visiting | Inr (tasks, _, _, visiting, _) \<Rightarrow> path_measure tasks visiting,
    \<lambda>x. case x of Inl _ \<Rightarrow> 1 | Inr (_, _, ds, _) \<Rightarrow> 2 * length ds]", goal_cases)
  case (2 tasks buildPath identity visiting memo)
  show ?case
  proof (cases "identity \<in> fst ` set tasks")
    case True
    with 2 show ?thesis using path_measure_visit by simp
  next
    case False
    then show ?thesis using path_measure_le [of tasks identity visiting] by (auto simp: task_at_absent)
  qed
qed auto

declare longestPath.simps [simp del] deps_loop.simps(2) [simp del]

section \<open>Critical paths of the builds\<close>

text \<open>The loop over the tasks of one build: first start, last end, cumulative duration, best score.\<close>

fun build_loop ::
    "(string \<times> Task) list \<Rightarrow> string \<Rightarrow> string list \<Rightarrow> bool \<Rightarrow> int \<Rightarrow> int \<Rightarrow> int \<Rightarrow> (string \<times> pathScore) list \<Rightarrow> pathScore \<Rightarrow> (int \<times> int \<times> int \<times> pathScore) result" where
  "build_loop tasks buildPath [] start lo hi cumulative memo best = Inr (lo, hi, cumulative, best)"
| "build_loop tasks buildPath (i # ids) start lo hi cumulative memo best =
     (let t = task_at tasks i;
          lo' = (if start \<or> t_StartTimeMs t < lo then t_StartTimeMs t else lo);
          hi' = (if t_EndTimeMs t > hi then t_EndTimeMs t else hi) in
      case longestPath tasks buildPath i [] memo of
        Inl e \<Rightarrow> Inl e
      | Inr (score, memo') \<Rightarrow>
          build_loop tasks buildPath ids False lo' hi' (wrap64 (cumulative + t_DurationMs t)) memo' (if betterPath score best then score else best))"

definition byIdentity :: "Task list \<Rightarrow> (string \<times> Task) list" where
  "byIdentity ts = rev (map (\<lambda>t. (t_Identity t, t)) ts)"

definition build_summary :: "Task list \<Rightarrow> string \<Rightarrow> BuildSummary result" where
  "build_summary ts buildPath =
     (let ids = map t_Identity (filter (\<lambda>t. t_BuildPath t = buildPath) ts) in
      case build_loop (byIdentity ts) buildPath ids True 0 0 0 [] zero_score of
        Inl e \<Rightarrow> Inl e
      | Inr (lo, hi, cumulative, best) \<Rightarrow>
          Inr \<lparr>b_BuildPath = buildPath, b_TaskCount = length ids, b_TaskExecutionSpanMs = wrap64 (hi - lo),
               b_CumulativeDurationMs = cumulative, b_CriticalPathDurationMs = p_Duration best, b_CriticalPathTasks = p_Tasks best\<rparr>)"

fun builds_loop :: "Task list \<Rightarrow> string list \<Rightarrow> BuildSummary list result" where
  "builds_loop ts [] = Inr []"
| "builds_loop ts (b # bs) =
     (case build_summary ts b of
        Inl e \<Rightarrow> Inl e
      | Inr s \<Rightarrow> (case builds_loop ts bs of Inl e \<Rightarrow> Inl e | Inr ss \<Rightarrow> Inr (s # ss)))"

definition criticalPaths :: "Task list \<Rightarrow> BuildSummary list result" where
  "criticalPaths ts = builds_loop ts (sortedKeys (set (map t_BuildPath ts)))"

fun count_outcome :: "string \<Rightarrow> (string \<times> nat) list \<Rightarrow> (string \<times> nat) list" where
  "count_outcome k [] = [(k, 1)]"
| "count_outcome k ((x, n) # xs) = (if x = k then (x, Suc n) # xs else (x, n) # count_outcome k xs)"

definition Analyze :: "start_iteration \<Rightarrow> GraphDocument list \<Rightarrow> operationRecord list \<Rightarrow> string \<Rightarrow> string \<Rightarrow> string \<Rightarrow> Report result" where
  "Analyze iter documents records traceDigest graphDigest arm =
     (if arm \<noteq> ''control'' \<and> arm \<noteq> ''candidate'' then Inl ''arm must be control or candidate''
      else case readGraphs documents of
        Inl e \<Rightarrow> Inl e
      | Inr graphs \<Rightarrow>
      case readOperations records of
        Inl e \<Rightarrow> Inl e
      | Inr (starts, ends) \<Rightarrow>
      case joinTasks iter graphs starts ends of
        Inl e \<Rightarrow> Inl e
      | Inr tasks \<Rightarrow>
      case criticalPaths tasks of
        Inl e \<Rightarrow> Inl e
      | Inr builds \<Rightarrow>
          let critical = concat (map b_CriticalPathTasks builds);
              marked = map (\<lambda>t. t\<lparr>t_CriticalPath := (t_Identity t \<in> set critical)\<rparr>) tasks;
              main = (case find (\<lambda>b. b_BuildPath b = '':'') builds of
                        Some b \<Rightarrow> b
                      | None \<Rightarrow> \<lparr>b_BuildPath = '':'', b_TaskCount = 0, b_TaskExecutionSpanMs = 0, b_CumulativeDurationMs = 0,
                                 b_CriticalPathDurationMs = 0, b_CriticalPathTasks = []\<rparr>) in
          Inr \<lparr>r_SchemaVersion = ReportSchema, r_Arm = arm, r_OperationTraceSHA256 = traceDigest, r_TaskGraphSHA256 = graphDigest,
               r_Builds = builds, r_Tasks = marked,
               r_CumulativeTaskDurationMs = foldl (\<lambda>acc t. wrap64 (acc + t_DurationMs t)) 0 marked,
               r_MainBuild = main, r_Outcomes = foldl (\<lambda>m t. count_outcome (t_Outcome t) m) [] marked,
               r_DiagnosticOnly = True, r_ProductionAuthorized = False\<rparr>)"

end
