(* ===== verification/CriticalPathProps.thy ===== *)
theory CriticalPathProps
  imports CriticalPath
begin

text \<open>
  Correctness of the critical-path analysis: the memoized depth-first search finds a longest dependency chain of each build and
  fails exactly on a missing dependency or a cycle.
\<close>

section \<open>Specification\<close>

type_synonym task_table = "(string \<times> Task) list"

definition in_build :: "task_table \<Rightarrow> string \<Rightarrow> string \<Rightarrow> bool" where
  "in_build tasks bp x \<longleftrightarrow> (\<exists>t. map_of tasks x = Some t \<and> t_BuildPath t = bp)"

abbreviation depends :: "task_table \<Rightarrow> string \<Rightarrow> string \<Rightarrow> bool" where
  "depends tasks d x \<equiv> d \<in> set (t_Dependencies (task_at tasks x))"

definition dep_edge :: "task_table \<Rightarrow> string \<Rightarrow> string \<Rightarrow> string \<Rightarrow> bool" where
  "dep_edge tasks bp d x \<longleftrightarrow> in_build tasks bp d \<and> in_build tasks bp x \<and> depends tasks d x"

definition chain :: "task_table \<Rightarrow> string \<Rightarrow> string list \<Rightarrow> bool" where
  "chain tasks bp xs \<longleftrightarrow> xs \<noteq> [] \<and> (\<forall>x\<in>set xs. in_build tasks bp x) \<and> successively (depends tasks) xs"

definition chain_ms :: "task_table \<Rightarrow> string list \<Rightarrow> int" where
  "chain_ms tasks xs = (\<Sum>x\<leftarrow>xs. t_DurationMs (task_at tasks x))"

definition deps_present :: "task_table \<Rightarrow> string \<Rightarrow> bool" where
  "deps_present tasks x \<longleftrightarrow> (\<forall>d. depends tasks d x \<longrightarrow> map_of tasks d \<noteq> None)"

definition best_score :: "task_table \<Rightarrow> string \<Rightarrow> string \<Rightarrow> pathScore \<Rightarrow> bool" where
  "best_score tasks bp x s \<longleftrightarrow> chain tasks bp (p_Tasks s) \<and> last (p_Tasks s) = x \<and> distinct (p_Tasks s) \<and>
     p_Duration s = chain_ms tasks (p_Tasks s) \<and> deps_present tasks x \<and>
     (\<forall>ys. chain tasks bp ys \<and> last ys = x \<longrightarrow>
        chain_ms tasks ys < p_Duration s \<or> chain_ms tasks ys = p_Duration s \<and> length ys \<le> length (p_Tasks s))"

text \<open>Durations are not negative and their sum fits an \<open>int64\<close>.\<close>

definition timed :: "task_table \<Rightarrow> bool" where
  "timed tasks \<longleftrightarrow> distinct (map fst tasks) \<and> (\<forall>t\<in>snd ` set tasks. 0 \<le> t_DurationMs t) \<and> (\<Sum>t\<leftarrow>map snd tasks. t_DurationMs t) < 2 ^ 63"

section \<open>Durations\<close>

lemma wrap64_id: "- (2 ^ 63) \<le> x \<Longrightarrow> x < 2 ^ 63 \<Longrightarrow> wrap64 x = x"
  by (simp add: wrap64_def)

lemma duration_nonneg: "timed tasks \<Longrightarrow> 0 \<le> t_DurationMs (task_at tasks x)"
  by (auto simp: timed_def task_at_def zero_task_def split: option.split dest!: map_of_SomeD)

lemma chain_ms_simps [simp]: "chain_ms tasks [] = 0" "chain_ms tasks (xs @ ys) = chain_ms tasks xs + chain_ms tasks ys"
  "chain_ms tasks [x] = t_DurationMs (task_at tasks x)"
  by (simp_all add: chain_ms_def)

lemma chain_ms_nonneg: "timed tasks \<Longrightarrow> 0 \<le> chain_ms tasks xs"
  unfolding chain_ms_def by (intro sum_list_nonneg) (auto simp: duration_nonneg)

lemma chain_ms_small:
  assumes "timed tasks" "distinct xs" "set xs \<subseteq> fst ` set tasks"
  shows "chain_ms tasks xs < 2 ^ 63"
proof -
  have "chain_ms tasks xs = (\<Sum>x\<in>set xs. t_DurationMs (task_at tasks x))"
    unfolding chain_ms_def using assms(2) by (rule sum_list_distinct_conv_sum_set)
  also have "\<dots> \<le> (\<Sum>x\<in>set (map fst tasks). t_DurationMs (task_at tasks x))"
    using assms(3) by (intro sum_mono2) (auto simp: duration_nonneg [OF assms(1)])
  also have "\<dots> = (\<Sum>x\<leftarrow>map fst tasks. t_DurationMs (task_at tasks x))"
    using assms(1) by (intro sum_list_distinct_conv_sum_set [symmetric]) (simp add: timed_def)
  also have "\<dots> = (\<Sum>t\<leftarrow>map snd tasks. t_DurationMs t)"
  proof -
    have "task_at tasks (fst p) = snd p" if "p \<in> set tasks" for p
    proof -
      have "map_of tasks (fst p) = Some (snd p)" using that assms(1) by (intro map_of_is_SomeI) (auto simp: timed_def)
      then show ?thesis by (simp add: task_at_def)
    qed
    then show ?thesis by (simp add: comp_def cong: map_cong)
  qed
  finally show ?thesis using assms(1) by (simp add: timed_def)
qed

lemma in_build_key: "in_build tasks bp x \<Longrightarrow> x \<in> fst ` set tasks"
  by (metis in_build_def map_of_eq_None_iff option.distinct(1))

lemma chain_keys: "chain tasks bp xs \<Longrightarrow> set xs \<subseteq> fst ` set tasks"
  by (auto simp: chain_def dest: in_build_key)

lemma chain_single: "chain tasks bp [x] \<longleftrightarrow> in_build tasks bp x"
  by (simp add: chain_def)

lemma chain_snoc: "xs \<noteq> [] \<Longrightarrow> chain tasks bp (xs @ [x]) \<longleftrightarrow> chain tasks bp xs \<and> in_build tasks bp x \<and> depends tasks (last xs) x"
  by (auto simp: chain_def successively_append_iff)

section \<open>Comparing scores\<close>

definition score_le :: "pathScore \<Rightarrow> pathScore \<Rightarrow> bool" where
  "score_le s s' \<longleftrightarrow> p_Tasks s = [] \<or>
     (p_Tasks s' \<noteq> [] \<and> (p_Duration s < p_Duration s' \<or> p_Duration s = p_Duration s' \<and> length (p_Tasks s) \<le> length (p_Tasks s')))"

lemma score_le_refl: "score_le s s"
  by (simp add: score_le_def)

lemma score_le_trans: "score_le a b \<Longrightarrow> score_le b c \<Longrightarrow> score_le a c"
  by (auto simp: score_le_def)

lemma pick_better:
  "score_le c (if betterPath c b then c else b)" "score_le b (if betterPath c b then c else b)"
  by (auto simp: score_le_def betterPath_def split: if_splits)

lemma best_score_chain_le:
  assumes "best_score tasks bp x s" "chain tasks bp ys" "last ys = x"
  shows "chain_ms tasks ys < p_Duration s \<or> chain_ms tasks ys = p_Duration s \<and> length ys \<le> length (p_Tasks s)"
  using assms unfolding best_score_def by blast

lemma best_score_nonempty: "best_score tasks bp x s \<Longrightarrow> p_Tasks s \<noteq> []"
  by (simp add: best_score_def chain_def)

section \<open>The search\<close>

definition memo_ok :: "task_table \<Rightarrow> string \<Rightarrow> string list \<Rightarrow> (string \<times> pathScore) list \<Rightarrow> bool" where
  "memo_ok tasks bp visiting memo \<longleftrightarrow>
     (\<forall>x s. (x, s) \<in> set memo \<longrightarrow> best_score tasks bp x s \<and> set (p_Tasks s) \<subseteq> fst ` set memo) \<and> fst ` set memo \<inter> set visiting = {}"

text \<open>A candidate of the loop over dependencies: nothing yet, or the best score of one of them.\<close>

definition candidate_ok :: "task_table \<Rightarrow> string \<Rightarrow> string set \<Rightarrow> (string \<times> pathScore) list \<Rightarrow> pathScore \<Rightarrow> bool" where
  "candidate_ok tasks bp D memo best \<longleftrightarrow> best = zero_score \<or> (\<exists>d\<in>D. best_score tasks bp d best \<and> set (p_Tasks best) \<subseteq> fst ` set memo)"

lemma candidate_mono:
  assumes "candidate_ok tasks bp D memo best" "fst ` set memo \<subseteq> fst ` set memo'"
  shows "candidate_ok tasks bp D memo' best"
  using assms(1) subset_trans [OF _ assms(2)] unfolding candidate_ok_def by metis

lemma extend_best:
  assumes "timed tasks" "in_build tasks bp x" "deps_present tasks x" "memo_ok tasks bp (x # visiting) memo"
    and "candidate_ok tasks bp {d. depends tasks d x} memo best"
    and "\<And>d. depends tasks d x \<Longrightarrow> in_build tasks bp d \<Longrightarrow> \<exists>sd. best_score tasks bp d sd \<and> score_le sd best"
  shows "best_score tasks bp x (extend_path best (task_at tasks x) x)"
proof -
  let ?xs = "p_Tasks best @ [x]"
  have fresh: "x \<notin> set (p_Tasks best)"
    using assms(4,5) by (auto simp: candidate_ok_def zero_score_def memo_ok_def)
  have ch: "chain tasks bp ?xs" and dist: "distinct (p_Tasks best)" and ms: "p_Duration best = chain_ms tasks (p_Tasks best)"
    proof -
    from assms(5) consider "best = zero_score" | d where "depends tasks d x" "best_score tasks bp d best" by (auto simp: candidate_ok_def)
    then have "chain tasks bp ?xs \<and> distinct (p_Tasks best) \<and> p_Duration best = chain_ms tasks (p_Tasks best)"
    proof cases
      case 1
      then show ?thesis using assms(2) by (simp add: zero_score_def chain_single)
    next
      case 2
      then have "chain tasks bp (p_Tasks best)" "last (p_Tasks best) = d" "distinct (p_Tasks best)" "p_Duration best = chain_ms tasks (p_Tasks best)"
        unfolding best_score_def by blast+
      with 2 assms(2) chain_snoc [OF best_score_nonempty [OF 2(2)]] show ?thesis by simp
    qed
    then show "chain tasks bp ?xs" "distinct (p_Tasks best)" "p_Duration best = chain_ms tasks (p_Tasks best)" by blast+
  qed
  have dur: "chain_ms tasks ?xs < 2 ^ 63" "0 \<le> chain_ms tasks ?xs"
    using chain_ms_small [OF assms(1) _ chain_keys [OF ch]] dist fresh chain_ms_nonneg [OF assms(1), of ?xs] by simp_all
  then have w: "wrap64 (p_Duration best + t_DurationMs (task_at tasks x)) = chain_ms tasks ?xs"
    using ms by (simp add: wrap64_id)
  have opt: "chain_ms tasks ys < chain_ms tasks ?xs \<or> chain_ms tasks ys = chain_ms tasks ?xs \<and> length ys \<le> length ?xs"
    if ys: "chain tasks bp ys" "last ys = x" for ys
  proof (cases "butlast ys = []")
    case True
    with ys have "ys = [x]" by (cases ys) (auto simp: chain_def split: if_splits)
    then show ?thesis using chain_ms_nonneg [OF assms(1), of "p_Tasks best"] by auto
  next
    case False
    from ys have eq: "ys = butlast ys @ [x]" by (metis append_butlast_last_id chain_def)
    with ys(1) have z: "chain tasks bp (butlast ys)" "depends tasks (last (butlast ys)) x" using chain_snoc [OF False] by metis+
    then have "in_build tasks bp (last (butlast ys))" using False by (simp add: chain_def)
    from assms(6) [OF z(2) this] obtain sd where sd: "best_score tasks bp (last (butlast ys)) sd" "score_le sd best" by blast
    from best_score_chain_le [OF sd(1) z(1) refl] sd(2) best_score_nonempty [OF sd(1)]
    have "chain_ms tasks (butlast ys) < p_Duration best \<or>
        chain_ms tasks (butlast ys) = p_Duration best \<and> length (butlast ys) \<le> length (p_Tasks best)" by (auto simp: score_le_def)
    moreover have "chain_ms tasks ys = chain_ms tasks (butlast ys) + t_DurationMs (task_at tasks x)"
      by (subst eq) (simp only: chain_ms_simps)
    moreover have "length ys = Suc (length (butlast ys))" by (subst eq) simp
    moreover have "chain_ms tasks ?xs = p_Duration best + t_DurationMs (task_at tasks x)" "length ?xs = Suc (length (p_Tasks best))" by (simp_all add: ms)
    ultimately show ?thesis by linarith
  qed
  have e: "extend_path best (task_at tasks x) x = \<lparr>p_Duration = chain_ms tasks ?xs, p_Tasks = ?xs\<rparr>" by (simp only: extend_path_def w)
  have "distinct ?xs" "last ?xs = x" using dist fresh by simp_all
  with ch opt assms(3) show ?thesis unfolding best_score_def e pathScore.simps by blast
qed

lemma search_sound:
  shows "longestPath tasks bp x visiting memo = Inr (s, memo') \<Longrightarrow> timed tasks \<Longrightarrow> in_build tasks bp x \<Longrightarrow> memo_ok tasks bp visiting memo \<Longrightarrow>
      best_score tasks bp x s \<and> memo_ok tasks bp visiting memo' \<and> fst ` set memo \<subseteq> fst ` set memo' \<and> set (p_Tasks s) \<subseteq> fst ` set memo'"
    and "deps_loop tasks bp ds visiting memo best = Inr (best', memo') \<Longrightarrow> timed tasks \<Longrightarrow> memo_ok tasks bp visiting memo \<Longrightarrow>
      candidate_ok tasks bp D memo best \<Longrightarrow> set ds \<subseteq> D \<Longrightarrow>
      memo_ok tasks bp visiting memo' \<and> fst ` set memo \<subseteq> fst ` set memo' \<and> candidate_ok tasks bp D memo' best' \<and> score_le best best' \<and>
      (\<forall>d\<in>set ds. map_of tasks d \<noteq> None \<and> (in_build tasks bp d \<longrightarrow> (\<exists>sd. best_score tasks bp d sd \<and> score_le sd best')))"
proof (induction tasks bp x visiting memo and tasks bp ds visiting memo best arbitrary: s memo' and best' memo' D rule: longestPath_deps_loop.induct)
  case (1 tasks bp x visiting memo)
  show ?case
  proof (cases "map_of memo x")
    case (Some sc)
    with "1.prems"(1) have "sc = s" "memo' = memo" by (auto simp: longestPath.simps [of tasks bp x])
    with "1.prems"(4) map_of_SomeD [OF Some] show ?thesis unfolding memo_ok_def by blast
  next
    case None
    with "1.prems"(1) obtain b m where nv: "x \<notin> set visiting"
      and l: "deps_loop tasks bp (t_Dependencies (task_at tasks x)) (x # visiting) memo zero_score = Inr (b, m)"
      and s: "s = extend_path b (task_at tasks x) x" "memo' = (x, s) # m"
      by (auto simp: longestPath.simps [of tasks bp x] Let_def split: if_splits sum.splits)
    have nk: "x \<notin> fst ` set memo" using None by (simp add: map_of_eq_None_iff)
    have mo: "memo_ok tasks bp (x # visiting) memo" using "1.prems"(4) nk by (auto simp: memo_ok_def)
    have c: "candidate_ok tasks bp {d. depends tasks d x} memo zero_score" by (simp add: candidate_ok_def)
    note ih = "1.IH" [OF None nv l "1.prems"(2) mo c]
    then have m: "memo_ok tasks bp (x # visiting) m" "fst ` set memo \<subseteq> fst ` set m" "candidate_ok tasks bp {d. depends tasks d x} m b" by auto
    have dp: "deps_present tasks x" using ih by (auto simp: deps_present_def)
    have best: "best_score tasks bp x s" unfolding s(1)
      by (rule extend_best [OF "1.prems"(2,3) dp m(1,3)]) (use ih in auto)
    have sub: "set (p_Tasks s) \<subseteq> fst ` set memo'"
      using m(3) by (auto simp: s extend_path_def candidate_ok_def zero_score_def)
    have "memo_ok tasks bp visiting memo'"
      using m(1) best sub nv by (auto simp: memo_ok_def s(2))
    with best sub m(2) show ?thesis by (auto simp: s(2))
  qed
next
  case (2 tasks bp visiting memo best)
  then show ?case by (auto simp: score_le_refl)
next
  case (3 tasks bp d ds visiting memo best)
  from "3.prems"(1) obtain t where t: "map_of tasks d = Some t" by (auto simp: deps_loop.simps(2) split: option.splits)
  show ?case
  proof (cases "t_BuildPath t = bp")
    case False
    with "3.prems"(1) t have l: "deps_loop tasks bp ds visiting memo best = Inr (best', memo')" by (simp add: deps_loop.simps(2))
    from "3.IH"(1) [OF t False l "3.prems"(2-4)] "3.prems"(5) t False show ?thesis by (auto simp: in_build_def)
  next
    case True
    with "3.prems"(1) t obtain sc m where p: "longestPath tasks bp d visiting memo = Inr (sc, m)"
      and l: "deps_loop tasks bp ds visiting m (if betterPath sc best then sc else best) = Inr (best', memo')"
      by (auto simp: deps_loop.simps(2) split: sum.splits)
    have ib: "in_build tasks bp d" using t True by (simp add: in_build_def)
    have nb: "\<not> t_BuildPath t \<noteq> bp" using True by simp
    note a = "3.IH"(2) [OF t nb p "3.prems"(2) ib "3.prems"(3)]
    have c: "candidate_ok tasks bp D m (if betterPath sc best then sc else best)"
    proof (cases "betterPath sc best")
      case True
      with a "3.prems"(5) show ?thesis by (auto simp: candidate_ok_def)
    next
      case False
      with a "3.prems"(4) show ?thesis by (auto intro: candidate_mono)
    qed
    from a "3.prems"(5) have "memo_ok tasks bp visiting m" "set ds \<subseteq> D" by auto
    note b = "3.IH"(3) [OF t nb p refl l "3.prems"(2) this(1) c this(2)]
    from b have "score_le (if betterPath sc best then sc else best) best'" by (elim conjE)
    then have le: "score_le sc best'" "score_le best best'"
      using score_le_trans [OF pick_better(1) [of sc best]] score_le_trans [OF pick_better(2) [of best sc]] by simp_all
    have "fst ` set memo \<subseteq> fst ` set memo'" using a b by (meson subset_trans)
    moreover have "\<forall>e\<in>set (d # ds). map_of tasks e \<noteq> None \<and> (in_build tasks bp e \<longrightarrow> (\<exists>sd. best_score tasks bp e sd \<and> score_le sd best'))"
      using t a b le(1) by (metis option.distinct(1) set_ConsD)
    ultimately show ?thesis using b le(2) by blast
  qed
qed

section \<open>Failures of the search\<close>

definition broken :: "task_table \<Rightarrow> string \<Rightarrow> bool" where
  "broken tasks bp \<longleftrightarrow> (\<exists>x. in_build tasks bp x \<and> \<not> deps_present tasks x) \<or> (\<exists>x. (dep_edge tasks bp)\<^sup>+\<^sup>+ x x)"

lemma successively_reach: "successively R (x # ys) \<Longrightarrow> y \<in> set ys \<Longrightarrow> R\<^sup>+\<^sup>+ x y"
proof (induction ys arbitrary: x)
  case (Cons z zs)
  then have "R x z" "successively R (z # zs)" by simp_all
  with Cons show ?case by (cases "y = z") (auto intro: tranclp_into_tranclp2)
qed simp

lemma search_error:
  shows "longestPath tasks bp x visiting memo = Inl e \<Longrightarrow> in_build tasks bp x \<Longrightarrow> successively (dep_edge tasks bp) (x # visiting) \<Longrightarrow> broken tasks bp"
    and "deps_loop tasks bp ds visiting memo best = Inl e \<Longrightarrow> visiting = v # vs \<Longrightarrow> in_build tasks bp v \<Longrightarrow>
      \<forall>d\<in>set ds. depends tasks d v \<Longrightarrow> successively (dep_edge tasks bp) visiting \<Longrightarrow> broken tasks bp"
proof (induction tasks bp x visiting memo and tasks bp ds visiting memo best arbitrary: e and e v vs rule: longestPath_deps_loop.induct)
  case (1 tasks bp x visiting memo)
  from "1.prems"(1) have none: "map_of memo x = None" by (auto simp: longestPath.simps [of tasks bp x] split: option.splits)
  show ?case
  proof (cases "x \<in> set visiting")
    case True
    with successively_reach [OF "1.prems"(3)] show ?thesis by (auto simp: broken_def)
  next
    case False
    with "1.prems"(1) none have "deps_loop tasks bp (t_Dependencies (task_at tasks x)) (x # visiting) memo zero_score = Inl e"
      by (auto simp: longestPath.simps [of tasks bp x] Let_def split: sum.splits)
    from "1.IH" [OF none False this refl "1.prems"(2) _ "1.prems"(3)] show ?thesis by simp
  qed
next
  case (3 tasks bp d ds visiting memo best)
  show ?case
  proof (cases "map_of tasks d")
    case None
    with "3.prems"(3,4) show ?thesis by (auto simp: broken_def deps_present_def)
  next
    case (Some t)
    show ?thesis
    proof (cases "t_BuildPath t = bp")
      case False
      with Some "3.prems"(1) have "deps_loop tasks bp ds visiting memo best = Inl e" by (simp add: deps_loop.simps(2))
      from "3.IH"(1) [OF Some False this "3.prems"(2,3) _ "3.prems"(5)] "3.prems"(4) show ?thesis by simp
    next
      case True
      then have nb: "\<not> t_BuildPath t \<noteq> bp" by simp
      have ib: "in_build tasks bp d" using Some True by (simp add: in_build_def)
      show ?thesis
      proof (cases "longestPath tasks bp d visiting memo")
        case (Inl e')
        have "successively (dep_edge tasks bp) (d # visiting)"
          using "3.prems"(2-5) ib by (simp add: dep_edge_def)
        from "3.IH"(2) [OF Some nb Inl ib this] show ?thesis .
      next
        case (Inr p)
        then obtain sc m where p: "longestPath tasks bp d visiting memo = Inr (sc, m)" by (cases p) simp
        with "3.prems"(1) Some True have "deps_loop tasks bp ds visiting m (if betterPath sc best then sc else best) = Inl e"
          by (simp add: deps_loop.simps(2))
        from "3.IH"(3) [OF Some nb p refl this "3.prems"(2,3) _ "3.prems"(5)] "3.prems"(4) show ?thesis by simp
      qed
    qed
  qed
qed simp

text \<open>Conversely a build whose tasks all have a best score has no cycle.\<close>

lemma tranclp_chain:
  assumes "(dep_edge tasks bp)\<^sup>+\<^sup>+ a b" "chain tasks bp xs" "last xs = a"
  shows "\<exists>zs. zs \<noteq> [] \<and> chain tasks bp (xs @ zs) \<and> last (xs @ zs) = b"
  using assms(1)
proof (induction rule: tranclp_induct)
  case (base y)
  then have "chain tasks bp (xs @ [y])" using assms(2,3) by (simp add: dep_edge_def chain_snoc chain_def)
      (auto simp: chain_def successively_append_iff)
  then show ?case by (intro exI [of _ "[y]"]) simp
next
  case (step y z)
  then obtain zs where zs: "zs \<noteq> []" "chain tasks bp (xs @ zs)" "last (xs @ zs) = y" by blast
  have "chain tasks bp ((xs @ zs) @ [z])" using zs step.hyps(2) by (subst chain_snoc) (auto simp: dep_edge_def)
  then show ?case by (intro exI [of _ "zs @ [z]"]) simp
qed

lemma best_score_acyclic:
  assumes "timed tasks" "best_score tasks bp x s"
  shows "\<not> (dep_edge tasks bp)\<^sup>+\<^sup>+ x x"
proof
  assume "(dep_edge tasks bp)\<^sup>+\<^sup>+ x x"
  with assms(2) obtain zs where zs: "zs \<noteq> []" "chain tasks bp (p_Tasks s @ zs)" "last (p_Tasks s @ zs) = x"
    using tranclp_chain unfolding best_score_def by metis
  from best_score_chain_le [OF assms(2) zs(2,3)] assms(2) chain_ms_nonneg [OF assms(1), of zs] zs(1)
  show False by (simp add: best_score_def)
qed

section \<open>One build\<close>

lemma build_loop_sound:
  assumes "build_loop tasks bp ids start lo hi cumulative memo best = Inr (lo', hi', cumulative', best')"
    and "timed tasks" "\<forall>i\<in>set ids. in_build tasks bp i" "memo_ok tasks bp [] memo" "candidate_ok tasks bp D memo best" "set ids \<subseteq> D"
  shows "(\<exists>memo'. candidate_ok tasks bp D memo' best') \<and> score_le best best' \<and> (\<forall>i\<in>set ids. \<exists>s. best_score tasks bp i s \<and> score_le s best')"
  using assms
proof (induction ids arbitrary: start lo hi cumulative memo best)
  case Nil
  then show ?case by (auto simp: score_le_refl)
next
  case (Cons i ids)
  from Cons.prems(1) obtain sc m start' lo1 hi1 c1 where p: "longestPath tasks bp i [] memo = Inr (sc, m)"
    and l: "build_loop tasks bp ids start' lo1 hi1 c1 m (if betterPath sc best then sc else best) = Inr (lo', hi', cumulative', best')"
    by (auto simp: Let_def split: sum.splits)
  from Cons.prems(3) have ib: "in_build tasks bp i" by simp
  note a = search_sound(1) [OF p Cons.prems(2) ib Cons.prems(4)]
  have c: "candidate_ok tasks bp D m (if betterPath sc best then sc else best)"
  proof (cases "betterPath sc best")
    case True
    with a Cons.prems(6) show ?thesis by (auto simp: candidate_ok_def)
  next
    case False
    with a Cons.prems(5) show ?thesis by (auto intro: candidate_mono)
  qed
  from Cons.prems(3,6) a have "\<forall>i\<in>set ids. in_build tasks bp i" "memo_ok tasks bp [] m" "set ids \<subseteq> D" by auto
  note b = Cons.IH [OF l Cons.prems(2) this(1,2) c this(3)]
  from b have "score_le (if betterPath sc best then sc else best) best'" by (elim conjE)
  then have le: "score_le sc best'" "score_le best best'"
    using score_le_trans [OF pick_better(1) [of sc best]] score_le_trans [OF pick_better(2) [of best sc]] by simp_all
  with a b show ?case by (metis set_ConsD)
qed

lemma build_loop_error:
  "build_loop tasks bp ids start lo hi cumulative memo best = Inl e \<Longrightarrow> \<forall>i\<in>set ids. in_build tasks bp i \<Longrightarrow> broken tasks bp"
proof (induction ids arbitrary: start lo hi cumulative memo best)
  case (Cons i ids)
  show ?case
  proof (cases "longestPath tasks bp i [] memo")
    case (Inl e')
    from search_error(1) [OF Inl] Cons.prems(2) show ?thesis by simp
  next
    case (Inr p)
    with Cons show ?thesis by (cases p) (auto simp: Let_def)
  qed
qed simp

section \<open>All builds\<close>

definition timed_tasks :: "Task list \<Rightarrow> bool" where
  "timed_tasks ts \<longleftrightarrow> (\<forall>t\<in>set ts. 0 \<le> t_DurationMs t) \<and> (\<Sum>t\<leftarrow>ts. t_DurationMs t) < 2 ^ 63"

lemma byIdentity_timed: "distinct (map t_Identity ts) \<Longrightarrow> timed_tasks ts \<Longrightarrow> timed (byIdentity ts)"
  by (auto simp: byIdentity_def timed_def timed_tasks_def comp_def rev_map [symmetric])

lemma byIdentity_at:
  assumes "distinct (map t_Identity ts)" "t \<in> set ts"
  shows "map_of (byIdentity ts) (t_Identity t) = Some t" "task_at (byIdentity ts) (t_Identity t) = t"
proof -
  show "map_of (byIdentity ts) (t_Identity t) = Some t"
    using assms by (intro map_of_is_SomeI) (auto simp: byIdentity_def comp_def rev_map [symmetric])
  then show "task_at (byIdentity ts) (t_Identity t) = t" by (simp add: task_at_def)
qed

lemma byIdentity_Some: "map_of (byIdentity ts) x = Some t \<Longrightarrow> t \<in> set ts \<and> t_Identity t = x"
  by (auto simp: byIdentity_def dest!: map_of_SomeD)

lemma in_build_iff:
  assumes "distinct (map t_Identity ts)"
  shows "in_build (byIdentity ts) bp x \<longleftrightarrow> (\<exists>t\<in>set ts. t_Identity t = x \<and> t_BuildPath t = bp)"
  using byIdentity_at [OF assms] byIdentity_Some [of ts x] by (auto simp: in_build_def)

lemma build_ids:
  assumes "distinct (map t_Identity ts)"
  shows "x \<in> set (map t_Identity (filter (\<lambda>t. t_BuildPath t = bp) ts)) \<longleftrightarrow> in_build (byIdentity ts) bp x"
  by (auto simp: in_build_iff [OF assms])

lemma build_summary_sound:
  assumes "build_summary ts bp = Inr b" "distinct (map t_Identity ts)" "timed_tasks ts" "\<exists>t\<in>set ts. t_BuildPath t = bp"
  shows "b_BuildPath b = bp \<and> chain (byIdentity ts) bp (b_CriticalPathTasks b) \<and> distinct (b_CriticalPathTasks b) \<and>
    b_CriticalPathDurationMs b = chain_ms (byIdentity ts) (b_CriticalPathTasks b) \<and>
    (\<forall>ys. chain (byIdentity ts) bp ys \<longrightarrow> chain_ms (byIdentity ts) ys < b_CriticalPathDurationMs b \<or>
       chain_ms (byIdentity ts) ys = b_CriticalPathDurationMs b \<and> length ys \<le> length (b_CriticalPathTasks b)) \<and>
    \<not> broken (byIdentity ts) bp"
proof -
  let ?T = "byIdentity ts" and ?ids = "map t_Identity (filter (\<lambda>t. t_BuildPath t = bp) ts)"
  note T = byIdentity_timed [OF assms(2,3)]
  from assms(1) obtain lo hi c best where l: "build_loop ?T bp ?ids True 0 0 0 [] zero_score = Inr (lo, hi, c, best)"
    and b: "b_BuildPath b = bp" "b_CriticalPathDurationMs b = p_Duration best" "b_CriticalPathTasks b = p_Tasks best"
    by (auto simp: build_summary_def Let_def split: sum.splits)
  have ids: "\<forall>i\<in>set ?ids. in_build ?T bp i" using build_ids [OF assms(2)] by blast
  have "memo_ok ?T bp [] []" "candidate_ok ?T bp (set ?ids) [] zero_score" by (simp_all add: memo_ok_def candidate_ok_def)
  note s = build_loop_sound [OF l T ids this subset_refl]
  have all: "\<exists>s. best_score ?T bp x s \<and> score_le s best" if "in_build ?T bp x" for x
    using s that build_ids [OF assms(2)] by blast
  from assms(4) obtain x where x: "in_build ?T bp x" by (auto simp: in_build_iff [OF assms(2)])
  from all [OF x] have "best \<noteq> zero_score" by (auto simp: score_le_def zero_score_def dest: best_score_nonempty)
  with s obtain d where d: "best_score ?T bp d best" by (auto simp: candidate_ok_def)
  have opt: "chain_ms ?T ys < p_Duration best \<or> chain_ms ?T ys = p_Duration best \<and> length ys \<le> length (p_Tasks best)" if ys: "chain ?T bp ys" for ys
  proof -
    from ys have "in_build ?T bp (last ys)" by (simp add: chain_def)
    from all [OF this] obtain sy where "best_score ?T bp (last ys) sy" "score_le sy best" by blast
    with best_score_chain_le [OF this(1) ys refl] best_score_nonempty [OF this(1)] show ?thesis by (auto simp: score_le_def)
  qed
  have "\<not> broken ?T bp"
  proof
    assume "broken ?T bp"
    then consider y where "in_build ?T bp y" "\<not> deps_present ?T y" | y where "(dep_edge ?T bp)\<^sup>+\<^sup>+ y y" unfolding broken_def by blast
    then show False
    proof cases
      case 1
      with all [OF 1(1)] show False by (auto simp: best_score_def)
    next
      case 2
      then have "in_build ?T bp y" by (auto simp: dep_edge_def dest: tranclpD)
      from all [OF this] best_score_acyclic [OF T] 2 show False by blast
    qed
  qed
  with d b opt show ?thesis by (auto simp: best_score_def)
qed

lemma builds_loop_sound:
  "builds_loop ts bs = Inr builds \<Longrightarrow> list_all2 (\<lambda>bp b. build_summary ts bp = Inr b) bs builds"
  by (induction bs arbitrary: builds) (auto split: sum.splits)

lemma list_all2_partners:
  "list_all2 P xs ys \<Longrightarrow> y \<in> set ys \<Longrightarrow> \<exists>x\<in>set xs. P x y"
  "list_all2 P xs ys \<Longrightarrow> x \<in> set xs \<Longrightarrow> \<exists>y\<in>set ys. P x y"
  by (induction rule: list_all2_induct) auto

lemma builds_loop_paths: "builds_loop ts bs = Inr builds \<Longrightarrow> map b_BuildPath builds = bs"
  by (induction bs arbitrary: builds) (auto simp: build_summary_def Let_def split: sum.splits)

lemma builds_loop_error: "builds_loop ts bs = Inl e \<Longrightarrow> \<exists>bp\<in>set bs. isl (build_summary ts bp)"
  by (induction bs) (auto split: sum.splits)

lemma build_summary_error:
  assumes "isl (build_summary ts bp)" "distinct (map t_Identity ts)"
  shows "broken (byIdentity ts) bp"
proof -
  have ids: "\<forall>i\<in>set (map t_Identity (filter (\<lambda>t. t_BuildPath t = bp) ts)). in_build (byIdentity ts) bp i" using build_ids [OF assms(2)] by blast
  from assms(1) obtain e where "build_loop (byIdentity ts) bp (map t_Identity (filter (\<lambda>t. t_BuildPath t = bp) ts)) True 0 0 0 [] zero_score = Inl e"
    by (auto simp: build_summary_def Let_def split: sum.splits)
  from build_loop_error [OF this ids] show ?thesis .
qed

lemma join_loop_distinct:
  "join_loop graphs ends starts seen tasks = Inr (seen', tasks') \<Longrightarrow> distinct (map t_Identity tasks) \<Longrightarrow> set (map t_Identity tasks) = set seen \<Longrightarrow>
     distinct (map t_Identity tasks')"
  by (induction graphs ends starts seen tasks rule: join_loop.induct) (auto simp: Let_def split: option.splits if_splits)

lemma joinTasks_distinct:
  assumes "joinTasks iter graphs starts ends = Inr ts"
  shows "distinct (map t_Identity ts)"
proof -
  from assms obtain seen tasks where j: "join_loop graphs ends (iter starts) [] [] = Inr (seen, tasks)" and ts: "ts = sort_key t_Identity tasks"
    by (auto simp: joinTasks_def split: sum.splits if_splits)
  from join_loop_distinct [OF j] show ?thesis by (simp add: ts distinct_map)
qed

section \<open>Properties\<close>

text \<open>
  (C21) The critical path is a longest dependency chain. For the tasks joined from a trace and a graph, if their durations are
  not negative and their sum fits 64 bits, every build summary of a successful analysis names a chain of tasks of its
  build, each a dependency of the next, without repetition; its duration is the sum of their durations; and no chain of dependent tasks of the
  build takes longer, nor equally long with more tasks. There is one summary for each build that ran a task.
\<close>

theorem critical_path_longest:
  assumes "joinTasks iter graphs starts ends = Inr ts" "criticalPaths ts = Inr builds" "timed_tasks ts"
  shows "map b_BuildPath builds = sortedKeys (set (map t_BuildPath ts)) \<and>
    (\<forall>b\<in>set builds. chain (byIdentity ts) (b_BuildPath b) (b_CriticalPathTasks b) \<and> distinct (b_CriticalPathTasks b) \<and>
       b_CriticalPathDurationMs b = chain_ms (byIdentity ts) (b_CriticalPathTasks b) \<and>
       (\<forall>ys. chain (byIdentity ts) (b_BuildPath b) ys \<longrightarrow> chain_ms (byIdentity ts) ys < b_CriticalPathDurationMs b \<or>
          chain_ms (byIdentity ts) ys = b_CriticalPathDurationMs b \<and> length ys \<le> length (b_CriticalPathTasks b)))"
proof -
  note dist = joinTasks_distinct [OF assms(1)]
  have keys: "set (sortedKeys (set (map t_BuildPath ts))) = t_BuildPath ` set ts" by simp
  from assms(2) have l: "list_all2 (\<lambda>bp b. build_summary ts bp = Inr b) (sortedKeys (set (map t_BuildPath ts))) builds"
    unfolding criticalPaths_def by (rule builds_loop_sound)
  have each: "b_BuildPath b = bp \<and> chain (byIdentity ts) bp (b_CriticalPathTasks b) \<and> distinct (b_CriticalPathTasks b) \<and>
    b_CriticalPathDurationMs b = chain_ms (byIdentity ts) (b_CriticalPathTasks b) \<and>
    (\<forall>ys. chain (byIdentity ts) bp ys \<longrightarrow> chain_ms (byIdentity ts) ys < b_CriticalPathDurationMs b \<or>
       chain_ms (byIdentity ts) ys = b_CriticalPathDurationMs b \<and> length ys \<le> length (b_CriticalPathTasks b))"
    if "build_summary ts bp = Inr b" "bp \<in> set (sortedKeys (set (map t_BuildPath ts)))" for bp b
  proof -
    from that(2) have "\<exists>t\<in>set ts. t_BuildPath t = bp" unfolding keys by blast
    from build_summary_sound [OF that(1) dist assms(3) this] show ?thesis by blast
  qed
  have "map b_BuildPath builds = sortedKeys (set (map t_BuildPath ts))"
    using assms(2) unfolding criticalPaths_def by (rule builds_loop_paths)
  moreover have "chain (byIdentity ts) (b_BuildPath b) (b_CriticalPathTasks b) \<and> distinct (b_CriticalPathTasks b) \<and>
       b_CriticalPathDurationMs b = chain_ms (byIdentity ts) (b_CriticalPathTasks b) \<and>
       (\<forall>ys. chain (byIdentity ts) (b_BuildPath b) ys \<longrightarrow> chain_ms (byIdentity ts) ys < b_CriticalPathDurationMs b \<or>
          chain_ms (byIdentity ts) ys = b_CriticalPathDurationMs b \<and> length ys \<le> length (b_CriticalPathTasks b))" if b: "b \<in> set builds" for b
  proof -
    obtain bp where bp: "build_summary ts bp = Inr b" "bp \<in> set (sortedKeys (set (map t_BuildPath ts)))"
      using list_all2_partners(1) [OF l b] by blast
    note e = each [OF bp]
    from e have "bp = b_BuildPath b" by (elim conjE) (rule sym)
    with e show ?thesis by blast
  qed
  ultimately show ?thesis by blast
qed

definition ex_graphs :: "string list \<Rightarrow> (string \<times> GraphTask) list" where
  "ex_graphs root_deps =
     [('':a'', \<lparr>g_Identity = '':a'', g_Path = '':a'', g_TaskClass = ''T'', g_Dependencies = root_deps\<rparr>),
      ('':b'', \<lparr>g_Identity = '':b'', g_Path = '':b'', g_TaskClass = ''T'', g_Dependencies = ['':a'']\<rparr>),
      ('':c'', \<lparr>g_Identity = '':c'', g_Path = '':c'', g_TaskClass = ''T'', g_Dependencies = ['':a'', '':b'']\<rparr>)]"

definition ex_start :: "string \<Rightarrow> int \<Rightarrow> taskStart" where
  "ex_start path t = \<lparr>s_BuildPath = '':'', s_Path = path, s_TaskClass = ''T'', s_Started = t\<rparr>"

definition ex_end :: "int \<Rightarrow> taskEnd" where
  "ex_end t = \<lparr>d_Ended = t, d_Result = \<lparr>o_SkipMessage = None, o_OriginBuildCacheKeyBytes = False, o_Actionable = None\<rparr>, d_Failure = False\<rparr>"

definition ex_joined :: "string list \<Rightarrow> Task list result" where
  "ex_joined root_deps = joinTasks (\<lambda>xs. xs) (ex_graphs root_deps) [(1, ex_start '':a'' 0), (2, ex_start '':b'' 10), (3, ex_start '':c'' 30)]
     [(1, ex_end 10), (2, ex_end 30), (3, ex_end 35)]"

definition ex_tasks :: "string list \<Rightarrow> Task list" where
  "ex_tasks root_deps = (case ex_joined root_deps of Inl _ \<Rightarrow> [] | Inr ts \<Rightarrow> ts)"

lemma ex_join: "ex_joined [] = Inr (ex_tasks [])" "ex_joined ['':c''] = Inr (ex_tasks ['':c''])"
  by code_simp+

lemma ex_timed: "timed_tasks (ex_tasks [])" "timed_tasks (ex_tasks ['':c''])"
  unfolding timed_tasks_def by code_simp+

theorem critical_path_longest_witness:
  "\<exists>b. criticalPaths (ex_tasks []) = Inr [b] \<and> b_CriticalPathTasks b = ['':a'', '':b'', '':c''] \<and> b_CriticalPathDurationMs b = 35 \<and>
     chain (byIdentity (ex_tasks [])) '':'' ['':a'', '':b'', '':c'']"
proof -
  have "(case criticalPaths (ex_tasks []) of Inl _ \<Rightarrow> False
      | Inr bs \<Rightarrow> (case bs of [b] \<Rightarrow> b_BuildPath b = '':'' \<and> b_CriticalPathTasks b = ['':a'', '':b'', '':c''] \<and> b_CriticalPathDurationMs b = 35 | _ \<Rightarrow> False))"
    by code_simp
  then obtain b where b: "criticalPaths (ex_tasks []) = Inr [b]" "b_BuildPath b = '':''" "b_CriticalPathTasks b = ['':a'', '':b'', '':c'']"
    "b_CriticalPathDurationMs b = 35" by (auto split: sum.splits list.splits)
  from critical_path_longest [OF ex_join(1) [unfolded ex_joined_def] b(1) ex_timed(1)] b
  show ?thesis by (intro exI [of _ b]) simp
qed

text \<open>
  The analysis fails exactly on a broken graph: for joined tasks with durations as above, computing the critical paths reports an
  error if and only if some task depends on a task that did not run, or the dependencies within some build form a
  cycle. In particular it always returns.
\<close>

theorem critical_path_error_iff:
  assumes "joinTasks iter graphs starts ends = Inr ts" "timed_tasks ts"
  shows "isl (criticalPaths ts) \<longleftrightarrow>
    (\<exists>t\<in>set ts. \<exists>d\<in>set (t_Dependencies t). d \<notin> t_Identity ` set ts) \<or> (\<exists>bp x. (dep_edge (byIdentity ts) bp)\<^sup>+\<^sup>+ x x)"
proof -
  note dist = joinTasks_distinct [OF assms(1)]
  let ?T = "byIdentity ts" and ?keys = "sortedKeys (set (map t_BuildPath ts))"
  have absent: "map_of ?T d = None \<longleftrightarrow> d \<notin> t_Identity ` set ts" for d
    by (simp add: map_of_eq_None_iff byIdentity_def image_image)
  have "(\<exists>bp. broken ?T bp) \<longleftrightarrow> (\<exists>t\<in>set ts. \<exists>d\<in>set (t_Dependencies t). d \<notin> t_Identity ` set ts) \<or> (\<exists>bp x. (dep_edge ?T bp)\<^sup>+\<^sup>+ x x)"
  proof -
    have "(\<exists>bp x. in_build ?T bp x \<and> \<not> deps_present ?T x) \<longleftrightarrow> (\<exists>t\<in>set ts. \<exists>d\<in>set (t_Dependencies t). d \<notin> t_Identity ` set ts)"
      unfolding in_build_iff [OF dist] deps_present_def absent [symmetric] by (metis byIdentity_at(2) [OF dist])
    then show ?thesis unfolding broken_def by blast
  qed
  moreover have "isl (criticalPaths ts) \<longleftrightarrow> (\<exists>bp. broken ?T bp)"
  proof
    assume "isl (criticalPaths ts)"
    then obtain e where "builds_loop ts ?keys = Inl e" by (cases "criticalPaths ts") (auto simp: criticalPaths_def)
    from builds_loop_error [OF this] build_summary_error [OF _ dist] show "\<exists>bp. broken ?T bp" by blast
  next
    assume "\<exists>bp. broken ?T bp"
    then obtain bp where bp: "broken ?T bp" by blast
    then have "\<exists>x. in_build ?T bp x" unfolding broken_def by (metis dep_edge_def tranclpD)
    then obtain x where "in_build ?T bp x" by blast
    then have run: "\<exists>t\<in>set ts. t_BuildPath t = bp" by (auto simp: in_build_iff [OF dist])
    then have mem: "bp \<in> set ?keys" by auto
    show "isl (criticalPaths ts)"
    proof (rule ccontr)
      assume "\<not> isl (criticalPaths ts)"
      then obtain builds where "builds_loop ts ?keys = Inr builds" by (cases "criticalPaths ts") (auto simp: criticalPaths_def)
      from list_all2_partners(2) [OF builds_loop_sound [OF this] mem] obtain b where "build_summary ts bp = Inr b" by blast
      from build_summary_sound [OF this dist assms(2) run] bp show False by blast
    qed
  qed
  ultimately show ?thesis by simp
qed

theorem critical_path_error_iff_witness:
  "isl (criticalPaths (ex_tasks ['':c'']))"
proof -
  let ?T = "byIdentity (ex_tasks ['':c''])"
  have "in_build ?T '':'' '':a''" "in_build ?T '':'' '':c''" unfolding in_build_def by (rule exI, rule conjI, code_simp, code_simp)+
  moreover have "depends ?T '':a'' '':c''" "depends ?T '':c'' '':a''" by code_simp+
  ultimately have "dep_edge ?T '':'' '':a'' '':c''" "dep_edge ?T '':'' '':c'' '':a''" by (simp_all add: dep_edge_def)
  then have "(dep_edge ?T '':'')\<^sup>+\<^sup>+ '':a'' '':a''" by (meson tranclp.r_into_trancl tranclp.trancl_into_trancl)
  then show ?thesis using critical_path_error_iff [OF ex_join(2) [unfolded ex_joined_def] ex_timed(2)] by blast
qed

end
