(* ===== verification/StickyRecords.thy ===== *)
theory StickyRecords
  imports LocalAuthority "HOL-Library.Word"
begin

text \<open>
  \<open>internal/stickydecision/model.go\<close> and \<open>validate.go\<close>: the control-plane records of the sticky wrapper, their
  closed shapes and semantic checks, and the lifecycle of a chain of records. The JCS form and the strict JSON
  decoder are parameters: a \<open>sticky_codec\<close> says what raw bytes decode to. Amounts, generations and sequence
  numbers are 64-bit words, read as signed where the source has \<open>int64\<close>. Instants are nanoseconds since year 1, so that the zero time is 0.
\<close>

section \<open>Errors\<close>

text \<open>The sentinel errors, each with the message that wraps it; \<open>Failure\<close> is any other error.\<close>

datatype sticky_error =
    ErrInvalidDocument string
  | ErrExpired
  | ErrRevoked
  | ErrNotFound
  | ErrGenerationConflict
  | ErrIdempotencyConflict
  | ErrCorrupt
  | ErrCrossScope
  | ErrCrossPlane
  | ErrBusy
  | ErrNotExistOS
  | Failure string

section \<open>Records\<close>

record Binding =
  bi_RepositoryScopeSHA256 :: string
  bi_Workflow :: string
  bi_SourceRevision :: string
  bi_GradleVersion :: string
  bi_WrapperSHA256 :: string
  bi_OptionsSHA256 :: string
  bi_OutputContractSHA256 :: string
  bi_BuildOptExecutableSHA256 :: string
  bi_RevocationEpoch :: int

record ActionRecord =
  ac_SchemaVersion :: string
  ac_RecordType :: string
  ac_ActionID :: string
  ac_StoreGeneration :: "64 word"
  ac_IdempotencyKey :: string
  ac_Sequence :: "64 word"
  ac_Transition :: string
  ac_FromQualificationState :: string
  ac_ToQualificationState :: string
  ac_FromRolloutState :: string
  ac_ToRolloutState :: string
  ac_Binding :: Binding
  ac_DecisionDigest :: string
  ac_EvidenceRefs :: "string list"
  ac_OccurredAt :: string

record Observation =
  ov_SchemaVersion :: string
  ov_RecordType :: string
  ov_ObservationID :: string
  ov_StoreGeneration :: "64 word"
  ov_IdempotencyKey :: string
  ov_Binding :: Binding
  ov_ObservationKind :: string
  ov_Outcome :: string
  ov_WallTimeMs :: "64 word"
  ov_OutputDigest :: string
  ov_EvidenceQuality :: string
  ov_RecordedAt :: string

record Trial =
  tr_SchemaVersion :: string
  tr_RecordType :: string
  tr_TrialID :: string
  tr_StoreGeneration :: "64 word"
  tr_IdempotencyKey :: string
  tr_ActionID :: string
  tr_Binding :: Binding
  tr_IsolationDigest :: string
  tr_CandidateOutcome :: string
  tr_ControlOutcome :: string
  tr_CandidateOutputDigest :: string
  tr_ControlOutputDigest :: string
  tr_Equivalence :: string
  tr_Result :: string
  tr_CandidateWallTimeMs :: "64 word"
  tr_ControlWallTimeMs :: "64 word"
  tr_LearningCostMs :: "64 word"
  tr_RecordedAt :: string

record Authentication =
  an_Algorithm :: string
  an_KeyID :: string
  an_Signature :: string

record Decision =
  dn_SchemaVersion :: string
  dn_RecordType :: string
  dn_DecisionID :: string
  dn_StoreGeneration :: "64 word"
  dn_IdempotencyKey :: string
  dn_Binding :: Binding
  dn_ActionID :: string
  dn_ActionGeneration :: "64 word"
  dn_QualificationState :: string
  dn_RolloutState :: string
  dn_ExecutionDecision :: string
  dn_PolicyDigest :: string
  dn_CacheContractDigest :: string
  dn_EvidenceRefs :: "string list"
  dn_DecisionDigest :: string
  dn_IssuedAt :: string
  dn_ExpiresAt :: string
  dn_Authentication :: Authentication

record LedgerEntry =
  le_ActionID :: string
  le_ObservationRef :: string
  le_GrossSavedMs :: "64 word"
  le_BuildOptCostMs :: "64 word"
  le_NetSavedMs :: "64 word"
  le_Outcome :: string
  le_ObservedAt :: string

record EconomicLedger =
  el_SchemaVersion :: string
  el_RecordType :: string
  el_LedgerID :: string
  el_StoreGeneration :: "64 word"
  el_IdempotencyKey :: string
  el_Binding :: Binding
  el_SupersedesDigest :: string
  el_Entries :: "LedgerEntry list"
  el_GrossSavedMs :: "64 word"
  el_BuildOptCostMs :: "64 word"
  el_NetSavedMs :: "64 word"
  el_AsOf :: string

record StateHead =
  sh_SchemaVersion :: string
  sh_RecordType :: string
  sh_Plane :: string
  sh_RepositoryScopeSHA256 :: string
  sh_Generation :: "64 word"
  sh_RecordTypeAtHead :: string
  sh_RecordDigest :: string
  sh_RevocationEpoch :: int
  sh_UpdatedAt :: string

record Revocation =
  xr_SchemaVersion :: string
  xr_RecordType :: string
  xr_RepositoryScopeSHA256 :: string
  xr_Epoch :: int
  xr_UpdatedAt :: string

text \<open>The pointers of \<open>Document\<close>, of which exactly one is set, as one union.\<close>

datatype record_body =
    ActionBody ActionRecord
  | ObservationBody Observation
  | TrialBody Trial
  | DecisionBody Decision
  | LedgerBody EconomicLedger

record Document =
  dc_Raw :: string
  dc_Digest :: string
  dc_RecordType :: string
  dc_StoreGeneration :: "64 word"
  dc_IdempotencyKey :: string
  dc_Binding :: Binding
  dc_ExpiresAt :: int
  dc_body :: record_body

definition document_decision :: "Document \<Rightarrow> Decision option" where
  "document_decision d = (case dc_body d of DecisionBody v \<Rightarrow> Some v | _ \<Rightarrow> None)"

definition ActionSchemaVersion :: string where "ActionSchemaVersion = ''buildopt.sticky/action/v1''"
definition ObservationSchemaVersion :: string where "ObservationSchemaVersion = ''buildopt.sticky/observation/v1''"
definition TrialSchemaVersion :: string where "TrialSchemaVersion = ''buildopt.sticky/trial/v1''"
definition DecisionSchemaVersion :: string where "DecisionSchemaVersion = ''buildopt.sticky/decision/v1''"
definition LedgerSchemaVersion :: string where "LedgerSchemaVersion = ''buildopt.sticky/economic-ledger/v1''"
definition ActionRecordType :: string where "ActionRecordType = ''STICKY_ACTION''"
definition ObservationRecordType :: string where "ObservationRecordType = ''STICKY_OBSERVATION''"
definition TrialRecordType :: string where "TrialRecordType = ''STICKY_TRIAL''"
definition DecisionRecordType :: string where "DecisionRecordType = ''STICKY_DECISION''"
definition LedgerRecordType :: string where "LedgerRecordType = ''STICKY_ECONOMIC_LEDGER''"
definition ExecutionNativeNoop :: string where "ExecutionNativeNoop = ''NATIVE_NOOP''"
definition ExecutionActiveRuntime :: string where "ExecutionActiveRuntime = ''ACTIVE_RUNTIME_PROFILE''"
definition ExecutionActivePatch :: string where "ExecutionActivePatch = ''ACTIVE_DURABLE_PATCH''"

section \<open>Patterns and closed vocabularies\<close>

definition identifierPattern :: "string \<Rightarrow> bool" where
  "identifierPattern = match_ident is_alnum (\<lambda>c. is_alnum c \<or> c \<in> set ''._:/-'') (Some 255)"

definition digestPattern :: "string \<Rightarrow> bool" where
  "digestPattern s = lower_hex_len 64 s"

definition revisionPattern :: "string \<Rightarrow> bool" where
  "revisionPattern s = (40 \<le> length s \<and> length s \<le> 64 \<and> list_all is_lower_hex s)"

definition gradlePattern :: "string \<Rightarrow> bool" where
  "gradlePattern = match_gradle_version"

definition validExecutionDecisions :: "string list" where
  "validExecutionDecisions = [''NATIVE_NOOP'', ''OBSERVE'', ''SHADOW'', ''TRIAL'', ''ACTIVE_RUNTIME_PROFILE'',
     ''ACTIVE_DURABLE_PATCH'', ''SUSPENDED'', ''RETIRED'']"

definition validQualificationStates :: "string list" where
  "validQualificationStates = [''UNKNOWN'', ''OBSERVING'', ''CONTRACT_QUALIFIED'', ''QUARANTINE_VALIDATED'', ''REJECTED'', ''SUSPENDED'']"

definition validRolloutStates :: "string list" where
  "validRolloutStates = [''PROPOSED'', ''SHADOW'', ''CI_CANARY'', ''ACTIVE_IN_CI'', ''ACTIVE_LOCALLY'', ''SUSPENDED'', ''ROLLED_BACK'']"

definition validOutcomes :: "string list" where
  "validOutcomes = [''SUCCESS'', ''BUILD_FAILURE'', ''INFRA_FAILURE'', ''CANCELLED'']"

definition validEvidenceQuality :: "string list" where
  "validEvidenceQuality = [''EXACT'', ''APPROXIMATED'', ''UNAVAILABLE'']"

section \<open>Checks of one record\<close>

text \<open>\<open>mustParseTime\<close>: the zero time where the string does not parse.\<close>

definition mustParseTime :: "string \<Rightarrow> int" where
  "mustParseTime v = (case parse_nano v of None \<Rightarrow> 0 | Some t \<Rightarrow> t)"

definition validateBinding :: "Binding \<Rightarrow> sticky_error option" where
  "validateBinding b = reject_if
     (\<not> digestPattern (bi_RepositoryScopeSHA256 b) \<or> \<not> identifierPattern (bi_Workflow b) \<or>
      \<not> revisionPattern (bi_SourceRevision b) \<or> \<not> gradlePattern (bi_GradleVersion b) \<or>
      \<not> digestPattern (bi_WrapperSHA256 b) \<or> \<not> digestPattern (bi_OptionsSHA256 b) \<or>
      \<not> digestPattern (bi_OutputContractSHA256 b) \<or> \<not> digestPattern (bi_BuildOptExecutableSHA256 b) \<or>
      bi_RevocationEpoch b < 0) (ErrInvalidDocument ''binding is invalid'')"

definition validateEnvelope ::
    "string \<Rightarrow> string \<Rightarrow> string \<Rightarrow> 64 word \<Rightarrow> string \<Rightarrow> Binding \<Rightarrow> string \<Rightarrow> int \<Rightarrow> sticky_error option" where
  "validateEnvelope schema recordType ident generation key b occurred now = first_err
     [reject_if (schema = [] \<or> recordType = [] \<or> ident = [] \<or> \<not> identifierPattern ident \<or> generation = 0 \<or> \<not> digestPattern key)
        (ErrInvalidDocument ''envelope identity is invalid''),
      validateBinding b,
      reject_if (\<not> ValidUTCTimestamp occurred) (ErrInvalidDocument ''timestamp is invalid''),
      reject_if (now \<noteq> 0 \<and> mustParseTime occurred > now + 300000000000) (ErrInvalidDocument ''timestamp is in the future'')]"

definition transition_allowed :: "ActionRecord \<Rightarrow> bool" where
  "transition_allowed a =
     (let t = ac_Transition a; fq = ac_FromQualificationState a; tq = ac_ToQualificationState a;
          fr = ac_FromRolloutState a; to = ac_ToRolloutState a in
      if t = ''PROPOSE'' then fq = ''UNKNOWN'' \<and> tq = ''OBSERVING'' \<and> fr = ''PROPOSED'' \<and> to = ''PROPOSED''
      else if t = ''BEGIN_SHADOW'' then fq = ''OBSERVING'' \<and> tq = ''CONTRACT_QUALIFIED'' \<and> fr = ''PROPOSED'' \<and> to = ''SHADOW''
      else if t = ''BEGIN_CI_CANARY'' then
        fq = ''CONTRACT_QUALIFIED'' \<and> tq = ''QUARANTINE_VALIDATED'' \<and> fr = ''SHADOW'' \<and> to = ''CI_CANARY''
      else if t = ''ACTIVATE_IN_CI'' then
        fq = ''QUARANTINE_VALIDATED'' \<and> tq = ''QUARANTINE_VALIDATED'' \<and> fr = ''CI_CANARY'' \<and> to = ''ACTIVE_IN_CI''
      else if t = ''ACTIVATE_LOCALLY'' then
        fq = ''QUARANTINE_VALIDATED'' \<and> tq = ''QUARANTINE_VALIDATED'' \<and> fr = ''ACTIVE_IN_CI'' \<and> to = ''ACTIVE_LOCALLY''
      else if t = ''SUSPEND'' then
        fq \<noteq> ''REJECTED'' \<and> fq \<noteq> ''SUSPENDED'' \<and> fr \<noteq> ''SUSPENDED'' \<and> fr \<noteq> ''ROLLED_BACK'' \<and> tq = ''SUSPENDED'' \<and> to = ''SUSPENDED''
      else if t = ''ROLLBACK'' then
        fq = ''QUARANTINE_VALIDATED'' \<and> (fr = ''CI_CANARY'' \<or> fr = ''ACTIVE_IN_CI'' \<or> fr = ''ACTIVE_LOCALLY'') \<and>
        tq = ''SUSPENDED'' \<and> to = ''ROLLED_BACK''
      else if t = ''RETIRE'' then
        fq = ''SUSPENDED'' \<and> tq = ''REJECTED'' \<and> (fr = ''SUSPENDED'' \<or> fr = ''ROLLED_BACK'') \<and> to = ''ROLLED_BACK''
      else False)"

definition ValidateActionTransition :: "ActionRecord \<Rightarrow> sticky_error option" where
  "ValidateActionTransition a =
     reject_if (\<not> transition_allowed a) (ErrInvalidDocument (''impossible action transition '' @ ac_Transition a))"

definition validateAction :: "ActionRecord \<Rightarrow> int \<Rightarrow> sticky_error option" where
  "validateAction a now = first_err
     [reject_if (ac_SchemaVersion a \<noteq> ActionSchemaVersion \<or> ac_RecordType a \<noteq> ActionRecordType \<or> ac_Sequence a = 0 \<or>
        ac_Transition a = [] \<or> ac_FromQualificationState a \<notin> set validQualificationStates \<or>
        ac_ToQualificationState a \<notin> set validQualificationStates \<or> ac_FromRolloutState a \<notin> set validRolloutStates \<or>
        ac_ToRolloutState a \<notin> set validRolloutStates) (ErrInvalidDocument ''action shape is invalid''),
      validateEnvelope (ac_SchemaVersion a) (ac_RecordType a) (ac_ActionID a) (ac_StoreGeneration a) (ac_IdempotencyKey a)
        (ac_Binding a) (ac_OccurredAt a) now,
      ValidateActionTransition a,
      reject_if ((ac_Transition a = ''PROPOSE'' \<and> ac_Sequence a \<noteq> 1) \<or> (ac_Transition a \<noteq> ''PROPOSE'' \<and> ac_Sequence a < 2))
        (ErrInvalidDocument ''action sequence does not match transition''),
      reject_if (ac_Transition a \<noteq> ''PROPOSE'' \<and> ac_EvidenceRefs a = []) (ErrInvalidDocument ''action transition needs evidence''),
      each_err (\<lambda>r. reject_if (\<not> digestPattern r) (ErrInvalidDocument ''action evidence reference is invalid'')) (ac_EvidenceRefs a),
      reject_if (ac_DecisionDigest a \<noteq> [] \<and> \<not> digestPattern (ac_DecisionDigest a))
        (ErrInvalidDocument ''action decision reference is invalid'')]"

definition validateObservation :: "Observation \<Rightarrow> int \<Rightarrow> sticky_error option" where
  "validateObservation v now = first_err
     [reject_if (ov_SchemaVersion v \<noteq> ObservationSchemaVersion \<or> ov_RecordType v \<noteq> ObservationRecordType \<or>
        ov_ObservationKind v \<noteq> ''REQUESTED_BUILD'' \<or> ov_Outcome v \<notin> set validOutcomes \<or>
        ov_EvidenceQuality v \<notin> set validEvidenceQuality) (ErrInvalidDocument ''observation shape is invalid''),
      validateEnvelope (ov_SchemaVersion v) (ov_RecordType v) (ov_ObservationID v) (ov_StoreGeneration v) (ov_IdempotencyKey v)
        (ov_Binding v) (ov_RecordedAt v) now,
      reject_if (ov_EvidenceQuality v = ''UNAVAILABLE'' \<and> ov_OutputDigest v \<noteq> [])
        (ErrInvalidDocument ''unavailable observation cannot carry an output digest''),
      reject_if (ov_OutputDigest v \<noteq> [] \<and> \<not> digestPattern (ov_OutputDigest v))
        (ErrInvalidDocument ''observation output digest is invalid'')]"

definition validateTrial :: "Trial \<Rightarrow> int \<Rightarrow> sticky_error option" where
  "validateTrial v now = first_err
     [reject_if (tr_SchemaVersion v \<noteq> TrialSchemaVersion \<or> tr_RecordType v \<noteq> TrialRecordType \<or> tr_ActionID v = [] \<or>
        \<not> identifierPattern (tr_ActionID v) \<or> \<not> digestPattern (tr_IsolationDigest v) \<or>
        tr_CandidateOutcome v \<notin> set validOutcomes \<or> tr_ControlOutcome v \<notin> set validOutcomes \<or>
        tr_Equivalence v \<notin> {''EXACT'', ''REVIEWED'', ''NONE''} \<or> tr_Result v \<notin> {''QUALIFIED'', ''RETAIN_NATIVE'', ''INCONCLUSIVE''})
        (ErrInvalidDocument ''trial shape is invalid''),
      validateEnvelope (tr_SchemaVersion v) (tr_RecordType v) (tr_TrialID v) (tr_StoreGeneration v) (tr_IdempotencyKey v)
        (tr_Binding v) (tr_RecordedAt v) now,
      reject_if (tr_Result v = ''QUALIFIED'' \<and>
          (tr_Equivalence v = ''NONE'' \<or> tr_CandidateOutcome v \<noteq> ''SUCCESS'' \<or> tr_ControlOutcome v \<noteq> ''SUCCESS''))
        (ErrInvalidDocument ''qualified trial lacks successful equivalent arms''),
      reject_if (tr_CandidateOutputDigest v \<noteq> [] \<and> \<not> digestPattern (tr_CandidateOutputDigest v))
        (ErrInvalidDocument ''candidate output digest is invalid''),
      reject_if (tr_ControlOutputDigest v \<noteq> [] \<and> \<not> digestPattern (tr_ControlOutputDigest v))
        (ErrInvalidDocument ''control output digest is invalid''),
      reject_if (tr_Equivalence v = ''EXACT'' \<and> (tr_CandidateOutputDigest v = [] \<or> tr_ControlOutputDigest v = [] \<or>
          tr_CandidateOutputDigest v \<noteq> tr_ControlOutputDigest v)) (ErrInvalidDocument ''exact trial outputs differ'')]"

definition active_execution :: "Decision \<Rightarrow> bool" where
  "active_execution v = (dn_ExecutionDecision v = ExecutionActiveRuntime \<or> dn_ExecutionDecision v = ExecutionActivePatch)"

definition validateDecision :: "Decision \<Rightarrow> int \<Rightarrow> sticky_error option" where
  "validateDecision v now =
     (let issuedAt = mustParseTime (dn_IssuedAt v); expiresAt = mustParseTime (dn_ExpiresAt v); active = active_execution v in
      first_err
     [reject_if (dn_SchemaVersion v \<noteq> DecisionSchemaVersion \<or> dn_RecordType v \<noteq> DecisionRecordType \<or>
        dn_QualificationState v \<notin> set validQualificationStates \<or> dn_RolloutState v \<notin> set validRolloutStates \<or>
        dn_ExecutionDecision v \<notin> set validExecutionDecisions \<or> \<not> digestPattern (dn_PolicyDigest v) \<or>
        \<not> digestPattern (dn_CacheContractDigest v) \<or> an_Algorithm (dn_Authentication v) \<noteq> ''Ed25519'' \<or>
        \<not> identifierPattern (an_KeyID (dn_Authentication v)) \<or> an_Signature (dn_Authentication v) = [] \<or>
        \<not> ValidUTCTimestamp (dn_IssuedAt v) \<or> \<not> ValidUTCTimestamp (dn_ExpiresAt v)) (ErrInvalidDocument ''decision shape is invalid''),
      validateEnvelope (dn_SchemaVersion v) (dn_RecordType v) (dn_DecisionID v) (dn_StoreGeneration v) (dn_IdempotencyKey v)
        (dn_Binding v) (dn_IssuedAt v) now,
      reject_if (\<not> issuedAt < expiresAt) (ErrInvalidDocument ''decision expiry is not after issuance''),
      reject_if (now \<noteq> 0 \<and> \<not> now < expiresAt) ErrExpired,
      reject_if (dn_DecisionDigest v \<noteq> [] \<and> \<not> digestPattern (dn_DecisionDigest v)) (ErrInvalidDocument ''decision digest is invalid''),
      each_err (\<lambda>r. reject_if (\<not> digestPattern r) (ErrInvalidDocument ''decision evidence reference is invalid'')) (dn_EvidenceRefs v),
      reject_if (active \<and> (dn_ActionID v = [] \<or> dn_ActionGeneration v = 0 \<or> dn_QualificationState v \<noteq> ''QUARANTINE_VALIDATED'' \<or>
          (dn_RolloutState v \<noteq> ''ACTIVE_IN_CI'' \<and> dn_RolloutState v \<noteq> ''ACTIVE_LOCALLY'') \<or> dn_EvidenceRefs v = []))
        (ErrInvalidDocument ''active decision is not fully qualified''),
      reject_if (\<not> active \<and> dn_ActionID v \<noteq> [] \<and> dn_ActionGeneration v = 0) (ErrInvalidDocument ''action generation is missing''),
      reject_if (dn_ExecutionDecision v = ExecutionNativeNoop \<and> (dn_ActionID v \<noteq> [] \<or> dn_ActionGeneration v \<noteq> 0))
        (ErrInvalidDocument ''native no-op carries an action''),
      reject_if (dn_ExecutionDecision v = ExecutionActiveRuntime \<and> dn_RolloutState v = ''ACTIVE_LOCALLY'' \<and> dn_ActionID v = [])
        (ErrInvalidDocument ''local active decision lacks action'')])"

section \<open>The economic ledger\<close>

definition maxInt64Value :: "64 word" where "maxInt64Value = 0x7fffffffffffffff"
definition minInt64Value :: "64 word" where "minInt64Value = - maxInt64Value - 1"

definition ledger_entry_check :: "64 word \<Rightarrow> 64 word \<Rightarrow> LedgerEntry \<Rightarrow> sticky_error option" where
  "ledger_entry_check gross cost e = first_err
     [reject_if (\<not> identifierPattern (le_ActionID e) \<or> \<not> digestPattern (le_ObservationRef e) \<or> le_Outcome e \<notin> set validOutcomes \<or>
        \<not> ValidUTCTimestamp (le_ObservedAt e)) (ErrInvalidDocument ''ledger entry is invalid''),
      reject_if (maxInt64Value < le_BuildOptCostMs e) (ErrInvalidDocument ''ledger cost exceeds signed range''),
      reject_if (le_GrossSavedMs e <s minInt64Value + le_BuildOptCostMs e \<or>
          le_NetSavedMs e \<noteq> le_GrossSavedMs e - le_BuildOptCostMs e)
        (ErrInvalidDocument ''ledger entry arithmetic overflows or does not reconcile''),
      reject_if ((0 <s gross \<and> maxInt64Value - gross <s le_GrossSavedMs e) \<or> (gross <s 0 \<and> le_GrossSavedMs e <s minInt64Value - gross))
        (ErrInvalidDocument ''ledger gross total overflows''),
      reject_if (- 1 - le_BuildOptCostMs e < cost) (ErrInvalidDocument ''ledger cost total overflows'')]"

fun ledger_loop :: "64 word \<Rightarrow> 64 word \<Rightarrow> LedgerEntry list \<Rightarrow> sticky_error + (64 word \<times> 64 word)" where
  "ledger_loop gross cost [] = Inr (gross, cost)"
| "ledger_loop gross cost (e # es) =
     (case ledger_entry_check gross cost e of
        Some x \<Rightarrow> Inl x
      | None \<Rightarrow> ledger_loop (gross + le_GrossSavedMs e) (cost + le_BuildOptCostMs e) es)"

definition ledger_totals :: "EconomicLedger \<Rightarrow> sticky_error option" where
  "ledger_totals v =
     (case ledger_loop 0 0 (el_Entries v) of
        Inl x \<Rightarrow> Some x
      | Inr (gross, cost) \<Rightarrow> reject_if (maxInt64Value < cost \<or> el_GrossSavedMs v \<noteq> gross \<or> el_BuildOptCostMs v \<noteq> cost \<or>
          el_NetSavedMs v \<noteq> gross - cost) (ErrInvalidDocument ''ledger aggregate does not equal entries''))"

definition validateLedger :: "EconomicLedger \<Rightarrow> int \<Rightarrow> sticky_error option" where
  "validateLedger v now = first_err
     [reject_if (el_SchemaVersion v \<noteq> LedgerSchemaVersion \<or> el_RecordType v \<noteq> LedgerRecordType \<or> el_Entries v = [])
        (ErrInvalidDocument ''ledger shape is invalid''),
      validateEnvelope (el_SchemaVersion v) (el_RecordType v) (el_LedgerID v) (el_StoreGeneration v) (el_IdempotencyKey v)
        (el_Binding v) (el_AsOf v) now,
      reject_if (el_SupersedesDigest v \<noteq> [] \<and> \<not> digestPattern (el_SupersedesDigest v))
        (ErrInvalidDocument ''ledger predecessor is invalid''),
      ledger_totals v]"

section \<open>Decoding\<close>

text \<open>
  \<open>cx_canonicalize\<close> is \<open>contractcrypto.CanonicalizeJCS\<close>, \<open>cx_recordType\<close> the member read by the first
  \<open>json.Unmarshal\<close>, the next five are \<open>decodeStrict\<close> into one record type, \<open>cx_encode\<close> and \<open>cx_encodeHead\<close> are
  \<open>CanonicalDocument\<close> of a decision and of a state head, \<open>cx_sha256\<close> the hexadecimal SHA-256, \<open>cx_base64\<close> the raw URL decoding and \<open>cx_ed25519\<close> the check of a
  signature.
\<close>

record sticky_codec =
  cx_canonicalize :: "string \<Rightarrow> string option"
  cx_recordType :: "string \<Rightarrow> string option"
  cx_action :: "string \<Rightarrow> ActionRecord option"
  cx_observation :: "string \<Rightarrow> Observation option"
  cx_trial :: "string \<Rightarrow> Trial option"
  cx_decision :: "string \<Rightarrow> Decision option"
  cx_ledger :: "string \<Rightarrow> EconomicLedger option"
  cx_encode :: "Decision \<Rightarrow> string option"
  cx_encodeHead :: "StateHead \<Rightarrow> string"
  cx_sha256 :: "string \<Rightarrow> string"
  cx_base64 :: "string \<Rightarrow> string option"
  cx_ed25519 :: "string \<Rightarrow> string \<Rightarrow> string \<Rightarrow> bool"

definition digestBytes :: "sticky_codec \<Rightarrow> string \<Rightarrow> string" where
  "digestBytes cx raw = cx_sha256 cx raw"

definition equalCanonical :: "sticky_codec \<Rightarrow> string \<Rightarrow> sticky_error + string" where
  "equalCanonical cx raw =
     (if cx_canonicalize cx raw = Some raw then Inr raw else Inl (ErrInvalidDocument ''document is not canonical JCS''))"

definition body_validate :: "record_body \<Rightarrow> int \<Rightarrow> sticky_error option" where
  "body_validate b now = (case b of ActionBody v \<Rightarrow> validateAction v now | ObservationBody v \<Rightarrow> validateObservation v now
     | TrialBody v \<Rightarrow> validateTrial v now | DecisionBody v \<Rightarrow> validateDecision v now | LedgerBody v \<Rightarrow> validateLedger v now)"

definition document_of :: "string \<Rightarrow> string \<Rightarrow> record_body \<Rightarrow> Document" where
  "document_of raw dig b =
     (let mk = (\<lambda>rt g k bi ex. \<lparr>dc_Raw = raw, dc_Digest = dig, dc_RecordType = rt, dc_StoreGeneration = g, dc_IdempotencyKey = k,
          dc_Binding = bi, dc_ExpiresAt = ex, dc_body = b\<rparr>) in
      case b of
        ActionBody v \<Rightarrow> mk (ac_RecordType v) (ac_StoreGeneration v) (ac_IdempotencyKey v) (ac_Binding v) 0
      | ObservationBody v \<Rightarrow> mk (ov_RecordType v) (ov_StoreGeneration v) (ov_IdempotencyKey v) (ov_Binding v) 0
      | TrialBody v \<Rightarrow> mk (tr_RecordType v) (tr_StoreGeneration v) (tr_IdempotencyKey v) (tr_Binding v) 0
      | DecisionBody v \<Rightarrow> mk (dn_RecordType v) (dn_StoreGeneration v) (dn_IdempotencyKey v) (dn_Binding v) (mustParseTime (dn_ExpiresAt v))
      | LedgerBody v \<Rightarrow> mk (el_RecordType v) (el_StoreGeneration v) (el_IdempotencyKey v) (el_Binding v) 0)"

definition decode_body :: "sticky_codec \<Rightarrow> string \<Rightarrow> string \<Rightarrow> sticky_error + record_body" where
  "decode_body cx recordType raw =
     (let strict = (\<lambda>kind r. case r of None \<Rightarrow> Inl (ErrInvalidDocument kind) | Some b \<Rightarrow> Inr b) in
      if recordType = ActionRecordType then strict ''action'' (map_option ActionBody (cx_action cx raw))
      else if recordType = ObservationRecordType then strict ''observation'' (map_option ObservationBody (cx_observation cx raw))
      else if recordType = TrialRecordType then strict ''trial'' (map_option TrialBody (cx_trial cx raw))
      else if recordType = DecisionRecordType then strict ''decision'' (map_option DecisionBody (cx_decision cx raw))
      else if recordType = LedgerRecordType then strict ''ledger'' (map_option LedgerBody (cx_ledger cx raw))
      else Inl (ErrInvalidDocument (''unsupported record type '' @ recordType)))"

definition DecodeDocument :: "sticky_codec \<Rightarrow> string \<Rightarrow> int \<Rightarrow> sticky_error + Document" where
  "DecodeDocument cx raw now =
     (case equalCanonical cx raw of
        Inl e \<Rightarrow> Inl e
      | Inr canonicalRaw \<Rightarrow>
          (case cx_recordType cx canonicalRaw of
             None \<Rightarrow> Inl (ErrInvalidDocument ''record type'')
           | Some recordType \<Rightarrow>
               (case decode_body cx recordType canonicalRaw of
                  Inl e \<Rightarrow> Inl e
                | Inr b \<Rightarrow> (case body_validate b now of
                    Some e \<Rightarrow> Inl e
                  | None \<Rightarrow> Inr (document_of canonicalRaw (digestBytes cx canonicalRaw) b)))))"

definition IsExpired :: "Document \<Rightarrow> int \<Rightarrow> bool" where
  "IsExpired d now = (document_decision d \<noteq> None \<and> \<not> now < dc_ExpiresAt d)"

definition HasControlPlaneIdentity :: "Document \<Rightarrow> bool" where
  "HasControlPlaneIdentity d = (dc_RecordType d = ActionRecordType \<or> dc_RecordType d = ObservationRecordType \<or>
     dc_RecordType d = TrialRecordType \<or> dc_RecordType d = DecisionRecordType \<or> dc_RecordType d = LedgerRecordType)"

section \<open>Chains of records\<close>

text \<open>
  The local variables of \<open>ValidateChain\<close>. The source keeps the latest record of each action in two maps with
  the same contents, \<open>lastAction\<close> and \<open>actions\<close>; here they are one. The newest binding of a key comes first.
\<close>

record chain_state =
  ch_scope :: string
  ch_previousGeneration :: "64 word"
  ch_lastAction :: "(string \<times> ActionRecord) list"
  ch_trialsByDigest :: "(string \<times> Trial) list"
  ch_observationsByDigest :: "(string \<times> Observation) list"

definition chain_action :: "chain_state \<Rightarrow> ActionRecord \<Rightarrow> sticky_error + chain_state" where
  "chain_action c a =
     (let prior = map_of (ch_lastAction c) (ac_ActionID a) in
      if ac_Sequence a = 1 \<and> prior \<noteq> None then Inl (ErrInvalidDocument ''action sequence restarted'')
      else if ac_Sequence a \<noteq> 1 \<and> (case prior of None \<Rightarrow> True
          | Some p \<Rightarrow> ac_Sequence a \<noteq> ac_Sequence p + 1 \<or> ac_FromQualificationState a \<noteq> ac_ToQualificationState p \<or>
              ac_FromRolloutState a \<noteq> ac_ToRolloutState p) then Inl (ErrInvalidDocument ''action sequence is discontinuous'')
      else Inr (c\<lparr>ch_lastAction := (ac_ActionID a, a) # ch_lastAction c\<rparr>))"

definition evidence_check :: "chain_state \<Rightarrow> string \<Rightarrow> sticky_error option" where
  "evidence_check c r =
     (case map_of (ch_trialsByDigest c) r of
        Some t \<Rightarrow> reject_if (tr_Result t = ''INCONCLUSIVE'') (ErrInvalidDocument ''inconclusive trial cannot authorize activation'')
      | None \<Rightarrow> reject_if (map_of (ch_observationsByDigest c) r = None) (ErrInvalidDocument ''active decision references unknown evidence''))"

definition chain_decision :: "chain_state \<Rightarrow> Decision \<Rightarrow> sticky_error option" where
  "chain_decision c v =
     (if active_execution v then first_err
        [reject_if (dn_QualificationState v \<noteq> ''QUARANTINE_VALIDATED'' \<or> dn_EvidenceRefs v = [])
           (ErrInvalidDocument ''active decision lacks qualification evidence''),
         each_err (evidence_check c) (dn_EvidenceRefs v)]
      else None)"

definition chain_entry :: "chain_state \<Rightarrow> LedgerEntry \<Rightarrow> sticky_error option" where
  "chain_entry c e = first_err
     [reject_if (map_of (ch_observationsByDigest c) (le_ObservationRef e) = None) (ErrInvalidDocument ''ledger references unknown observation''),
      reject_if (map_of (ch_lastAction c) (le_ActionID e) = None \<and> le_ActionID e \<noteq> ''native'')
        (ErrInvalidDocument ''ledger action reference is unknown'')]"

definition chain_body :: "chain_state \<Rightarrow> Document \<Rightarrow> sticky_error + chain_state" where
  "chain_body c d =
     (let keep = (\<lambda>r. case r of None \<Rightarrow> Inr c | Some e \<Rightarrow> Inl e) in
      case dc_body d of
        ActionBody a \<Rightarrow> chain_action c a
      | TrialBody t \<Rightarrow> Inr (c\<lparr>ch_trialsByDigest := (dc_Digest d, t) # ch_trialsByDigest c\<rparr>)
      | ObservationBody v \<Rightarrow> Inr (c\<lparr>ch_observationsByDigest := (dc_Digest d, v) # ch_observationsByDigest c\<rparr>)
      | DecisionBody v \<Rightarrow> keep (chain_decision c v)
      | LedgerBody l \<Rightarrow> keep (each_err (chain_entry c) (el_Entries l)))"

definition chain_step :: "chain_state \<Rightarrow> Document \<Rightarrow> sticky_error + chain_state" where
  "chain_step c d =
     (if dc_RecordType d = [] \<or> dc_StoreGeneration d \<noteq> ch_previousGeneration c + 1 then Inl ErrGenerationConflict
      else let c1 = c\<lparr>ch_previousGeneration := dc_StoreGeneration d\<rparr> in
        if ch_scope c = [] then chain_body (c1\<lparr>ch_scope := bi_RepositoryScopeSHA256 (dc_Binding d)\<rparr>) d
        else if bi_RepositoryScopeSHA256 (dc_Binding d) \<noteq> ch_scope c then Inl ErrCrossScope
        else chain_body c1 d)"

fun chain_loop :: "chain_state \<Rightarrow> Document list \<Rightarrow> sticky_error + chain_state" where
  "chain_loop c [] = Inr c"
| "chain_loop c (d # ds) = (case chain_step c d of Inl e \<Rightarrow> Inl e | Inr c' \<Rightarrow> chain_loop c' ds)"

definition empty_chain :: chain_state where
  "empty_chain = \<lparr>ch_scope = [], ch_previousGeneration = 0, ch_lastAction = [], ch_trialsByDigest = [], ch_observationsByDigest = []\<rparr>"

definition ValidateChain :: "Document list \<Rightarrow> sticky_error option" where
  "ValidateChain documents =
     (if documents = [] then Some (ErrInvalidDocument ''empty lifecycle'')
      else case chain_loop empty_chain documents of Inl e \<Rightarrow> Some e | Inr _ \<Rightarrow> None)"

end
