(* ===== verification/JcsNumber.thy ===== *)
theory JcsNumber
  imports Prelude
begin

text \<open>
  \<open>canonicalJCSNumber\<close> of \<open>internal/contractcrypto/jcs.go\<close> on the integers that Go marshals: every number of a
  canonical document is read as a \<open>float64\<close> (\<open>strconv.ParseFloat\<close>, round half to even on 53 bits) and printed with the
  fewest digits that read back as the same value (\<open>strconv.FormatFloat\<close> with precision -1), padded with zeros. A
  64-bit integer is below \<open>1e21\<close>, so the scientific form is never used.
\<close>

section \<open>Rounding\<close>

function bit_length :: "int \<Rightarrow> nat" where
  "bit_length n = (if n \<le> 0 then 0 else Suc (bit_length (n div 2)))"
  by pat_completeness auto
termination by (relation "measure nat") auto

declare bit_length.simps [simp del]

text \<open>The multiple of \<open>u\<close> that is nearest to \<open>n\<close>, the even one when two are equally near.\<close>

definition nearest :: "int \<Rightarrow> int \<Rightarrow> int" where
  "nearest u n = (let q = n div u; r = n mod u in if 2 * r < u \<or> (2 * r = u \<and> even q) then q * u else (q + 1) * u)"

definition float64 :: "int \<Rightarrow> int" where
  "float64 n = nearest (2 ^ (bit_length n - 53)) n"

text \<open>The multiple of the largest power of ten that reads back as \<open>v\<close>: fewer significant digits first, then the nearest.\<close>

fun shortest_from :: "int \<Rightarrow> nat \<Rightarrow> int" where
  "shortest_from v 0 = v"
| "shortest_from v (Suc k) =
     (let p = 10 ^ Suc k; lower = v div p * p; upper = lower + p in
      if float64 lower = v \<and> float64 upper = v then nearest p v
      else if float64 lower = v then lower
      else if float64 upper = v then upper
      else shortest_from v k)"

definition maximumExactInteger :: int where "maximumExactInteger = 9007199254740992"

text \<open>Up to two to the fifty-third, neighbouring integers are different \<open>float64\<close> values, and each prints as itself.\<close>

definition jcs_int :: "int \<Rightarrow> int" where
  "jcs_int n = (if \<bar>n\<bar> \<le> maximumExactInteger then n else sgn n * shortest_from (float64 \<bar>n\<bar>) 20)"

section \<open>Facts\<close>

lemma bit_length_le: "n < 2 ^ k \<Longrightarrow> bit_length n \<le> k"
proof (induction k arbitrary: n)
  case 0
  then show ?case by (simp add: bit_length.simps)
next
  case (Suc k)
  then have "n div 2 < 2 ^ k" by simp
  from Suc.IH [OF this] show ?case by (subst bit_length.simps) simp
qed

lemma nearest_ge:
  assumes "0 < u" "u dvd a" "a \<le> n"
  shows "a \<le> nearest u n"
proof -
  from assms(2) obtain c where a: "a = c * u" by (metis dvd_def mult.commute)
  have "c \<le> n div u" using assms(1,3) a by (metis nonzero_mult_div_cancel_right order_less_irrefl zdiv_mono1)
  then have "c * u \<le> n div u * u" "c * u \<le> (n div u + 1) * u" using assms(1) by (simp_all add: mult_right_mono)
  then show ?thesis using a by (simp add: nearest_def Let_def)
qed

lemma nearest_cases: "nearest u n = n div u * u \<or> nearest u n = n div u * u + u"
  by (simp add: nearest_def Let_def distrib_right)

lemma float64_exact: "n < maximumExactInteger \<Longrightarrow> float64 n = n"
  using bit_length_le [of n 53] by (simp add: float64_def nearest_def maximumExactInteger_def)

lemma float64_ge:
  assumes "maximumExactInteger \<le> n" "n < 2 ^ 64"
  shows "maximumExactInteger \<le> float64 n"
proof -
  have "bit_length n - 53 \<le> 53" using bit_length_le [OF assms(2)] by simp
  then have "(2 :: int) ^ (bit_length n - 53) dvd 2 ^ 53" by (rule le_imp_power_dvd)
  then show ?thesis using nearest_ge [OF _ _ assms(1)] by (simp add: float64_def maximumExactInteger_def)
qed

lemma float64_preimage: "float64 m = v \<Longrightarrow> maximumExactInteger \<le> v \<Longrightarrow> maximumExactInteger \<le> m"
  using float64_exact [of m] by linarith

lemma shortest_from_cases:
  "shortest_from v (Suc k) = shortest_from v k \<or> float64 (shortest_from v (Suc k)) = v"
proof -
  define p lower :: int where "p = 10 ^ Suc k" and "lower = v div p * p"
  have "nearest p v = lower \<or> nearest p v = lower + p" using nearest_cases [of p v] by (simp add: lower_def)
  then show ?thesis unfolding shortest_from.simps(2) Let_def p_def [symmetric] lower_def [symmetric] by auto
qed

lemma shortest_from_ge: "maximumExactInteger \<le> v \<Longrightarrow> maximumExactInteger \<le> shortest_from v k"
proof (induction k)
  case (Suc k)
  then show ?case using shortest_from_cases [of v k] float64_preimage [OF _ Suc.prems] by metis
qed simp

lemma jcs_int_exact: "\<bar>n\<bar> \<le> maximumExactInteger \<Longrightarrow> jcs_int n = n"
  by (simp add: jcs_int_def)

lemma jcs_int_ge:
  assumes "maximumExactInteger \<le> n" "n < 2 ^ 64"
  shows "maximumExactInteger \<le> jcs_int n"
proof -
  have "0 < n" using assms(1) by (simp add: maximumExactInteger_def)
  then show ?thesis using assms shortest_from_ge [OF float64_ge [OF assms]] by (simp add: jcs_int_def)
qed

text \<open>Values of the source: the first odd integer above the exact range, and the largest \<open>int64\<close>.\<close>

lemma jcs_int_examples:
  "jcs_int 9007199254740993 = 9007199254740992" "jcs_int 9007199254740995 = 9007199254740996"
  "jcs_int 9223372036854775807 = 9223372036854776000" "jcs_int (- 9223372036854775000) = - 9223372036854775000"
  by code_simp+

end
