(* ===== verification/StickyStore.thy ===== *)
theory StickyStore
  imports StickyRecords GoPath JcsNumber
begin

text \<open>
  \<open>internal/stickydecision/sign.go\<close>, the local store of \<open>store.go\<close> and \<open>selector.go\<close>. The directory of a store is a
  record of its files: \<open>head.json\<close> and \<open>revocation.json\<close> are the mutable pointers, \<open>records/\<close>, \<open>requests/\<close> and
  \<open>cache/\<close> are association lists from file names to contents. Files the store itself encodes hold the decoded
  value and whether their bytes are canonical. Outcomes of the advisory lock and of disk writes, the instants read
  from the clock and the formatted time of the update are arguments.
\<close>

section \<open>Signatures\<close>

definition signatureDomain :: string where "signatureDomain = ''buildopt-sticky-decision/v1''"

definition signature_payload :: "string \<Rightarrow> string \<Rightarrow> string" where
  "signature_payload keyID dig = signatureDomain @ [CHR 0x00] @ keyID @ [CHR 0x00] @ dig"

definition unsigned_decision :: "Decision \<Rightarrow> Decision" where
  "unsigned_decision d = d\<lparr>dn_DecisionDigest := [], dn_Authentication := (dn_Authentication d)\<lparr>an_Signature := []\<rparr>\<rparr>"

definition UnsignedDecisionDigest :: "sticky_codec \<Rightarrow> Decision \<Rightarrow> string option" where
  "UnsignedDecisionDigest cx d = map_option (digestBytes cx) (cx_encode cx (unsigned_decision d))"

definition VerifyDecision ::
    "sticky_codec \<Rightarrow> string \<Rightarrow> (string \<times> string) list \<Rightarrow> int \<Rightarrow> int \<Rightarrow> sticky_error + Decision" where
  "VerifyDecision cx raw publicKeys currentRevocationEpoch now =
     (case DecodeDocument cx raw now of
        Inl e \<Rightarrow> Inl e
      | Inr document \<Rightarrow>
          (case document_decision document of
             None \<Rightarrow> Inl ErrCrossPlane
           | Some d \<Rightarrow>
               if bi_RevocationEpoch (dn_Binding d) \<noteq> currentRevocationEpoch then Inl ErrRevoked
               else (case map_of publicKeys (an_KeyID (dn_Authentication d)) of
                 None \<Rightarrow> Inl (ErrInvalidDocument ''decision key is unknown'')
               | Some publicKey \<Rightarrow>
                   if length publicKey \<noteq> 32 then Inl (ErrInvalidDocument ''decision key is unknown'')
                   else (case UnsignedDecisionDigest cx d of
                     None \<Rightarrow> Inl (ErrInvalidDocument ''canonicalize decision payload'')
                   | Some dig \<Rightarrow>
                       if dn_DecisionDigest d \<noteq> dig then Inl (ErrInvalidDocument ''decision digest mismatch'')
                       else (case cx_base64 cx (an_Signature (dn_Authentication d)) of
                         None \<Rightarrow> Inl (ErrInvalidDocument ''decision signature is invalid'')
                       | Some sig \<Rightarrow>
                           if length sig \<noteq> 64 \<or> \<not> cx_ed25519 cx publicKey (signature_payload (an_KeyID (dn_Authentication d)) dig) sig
                           then Inl (ErrInvalidDocument ''decision signature is invalid'')
                           else if dc_Raw document \<noteq> raw then Inl (ErrInvalidDocument ''signed bytes are not canonical'')
                           else Inr d)))))"

section \<open>The store and its files\<close>

datatype 'a stored = Unreadable | Garbage | NonCanonical 'a | Canonical 'a

record AppendResult =
  ap_Generation :: "64 word"
  ap_RecordDigest :: string
  ap_HeadDigest :: string
  ap_Replayed :: bool

record localRequest =
  lr_SchemaVersion :: string
  lr_RecordType :: string
  lr_IdempotencyKey :: string
  lr_RequestDigest :: string
  lr_Result :: AppendResult

record HeadSnapshot =
  hs_Head :: StateHead
  hs_HeadDigest :: string
  hs_Document :: Document
  hs_RecordDigest :: string

record LocalStore =
  ks_scope :: string
  ks_publicKeys :: "(string \<times> string) list"

record store_files =
  sf_head :: "StateHead stored option"
  sf_revocation :: "Revocation stored option"
  sf_records :: "(string \<times> string) list"
  sf_requests :: "(string \<times> localRequest stored) list"
  sf_cache :: "(string \<times> string) list"

definition StateHeadSchemaVersion :: string where "StateHeadSchemaVersion = ''buildopt.sticky/state-head/v1''"
definition StateHeadRecordType :: string where "StateHeadRecordType = ''STICKY_STATE_HEAD''"
definition RevocationSchemaVersion :: string where "RevocationSchemaVersion = ''buildopt.sticky/revocation/v1''"
definition RevocationRecordType :: string where "RevocationRecordType = ''STICKY_REVOCATION''"
definition ControlPlane :: string where "ControlPlane = ''BUILDOPT_STATE''"
definition maximumRecordBytes :: int where "maximumRecordBytes = 4194304"

text \<open>The outcome of taking the advisory lock, and of writing a file: a torn write leaves a prefix behind.\<close>

datatype lock_outcome = Held | Busy | LockError sticky_error
datatype disk_write = Stored | Refused | Torn nat

record disk_outcomes =
  dk_directory :: "string option"
  dk_record :: disk_write
  dk_head :: bool
  dk_request :: disk_write

section \<open>File names and request digests\<close>

text \<open>\<open>strconv.FormatUint(n, 20)\<close>: the digits are \<open>0\<close> to \<open>9\<close> and \<open>a\<close> to \<open>j\<close>.\<close>

definition digit20 :: "nat \<Rightarrow> char" where
  "digit20 n = (if n < 10 then char_of (48 + n) else char_of (87 + n))"

function format20 :: "nat \<Rightarrow> string" where
  "format20 n = (if n < 20 then [digit20 n] else format20 (n div 20) @ [digit20 (n mod 20)])"
  by pat_completeness auto
termination by (relation "measure id") auto

declare format20.simps [simp del]

definition recordFilename :: "64 word \<Rightarrow> string \<Rightarrow> string" where
  "recordFilename generation dig = format20 (unat generation) @ ''-'' @ dig @ ''.json''"

definition appendRequestDigest :: "sticky_codec \<Rightarrow> string \<Rightarrow> 64 word \<Rightarrow> string \<Rightarrow> string \<Rightarrow> string" where
  "appendRequestDigest cx raw expectedGeneration expectedHeadDigest idempotencyKey =
     digestBytes cx (raw @ [CHR 0x00] @ decimal (unat expectedGeneration) @ [CHR 0x00] @ expectedHeadDigest @ [CHR 0x00] @ idempotencyKey)"

definition validateAppendIdentity :: "Document \<Rightarrow> string \<Rightarrow> 64 word \<Rightarrow> string \<Rightarrow> string \<Rightarrow> sticky_error option" where
  "validateAppendIdentity d scope expectedGeneration expectedHeadDigest idempotencyKey = first_err
     [reject_if (\<not> HasControlPlaneIdentity d) ErrCrossPlane,
      reject_if (bi_RepositoryScopeSHA256 (dc_Binding d) \<noteq> scope) ErrCrossScope,
      reject_if (\<not> digestPattern idempotencyKey \<or> dc_IdempotencyKey d \<noteq> idempotencyKey) ErrIdempotencyConflict,
      reject_if (expectedGeneration = 0 \<and> expectedHeadDigest \<noteq> []) ErrGenerationConflict,
      reject_if (expectedGeneration > 0 \<and> \<not> digestPattern expectedHeadDigest) ErrGenerationConflict]"

section \<open>Reading the pointers\<close>

definition verify_stored :: "sticky_codec \<Rightarrow> LocalStore \<Rightarrow> Document \<Rightarrow> int \<Rightarrow> int \<Rightarrow> sticky_error option" where
  "verify_stored cx st d now epoch =
     (if document_decision d = None \<or> ks_publicKeys st = [] then None
      else case VerifyDecision cx (dc_Raw d) (ks_publicKeys st) epoch now of Inl e \<Rightarrow> Some e | Inr _ \<Rightarrow> None)"

definition revocation_valid :: "LocalStore \<Rightarrow> Revocation \<Rightarrow> bool" where
  "revocation_valid st r = (xr_SchemaVersion r = RevocationSchemaVersion \<and> xr_RecordType r = RevocationRecordType \<and>
     xr_RepositoryScopeSHA256 r = ks_scope st \<and> 1 \<le> xr_Epoch r \<and> ValidUTCTimestamp (xr_UpdatedAt r))"

definition loadRevocationUnlocked :: "LocalStore \<Rightarrow> store_files \<Rightarrow> sticky_error + int" where
  "loadRevocationUnlocked st f =
     (let check = (\<lambda>r. if revocation_valid st r then Inr (xr_Epoch r) else Inl ErrCorrupt) in
      case sf_revocation f of
        None \<Rightarrow> Inr 0
      | Some Unreadable \<Rightarrow> Inl (Failure ''read revocation'')
      | Some Garbage \<Rightarrow> Inl ErrCorrupt
      | Some (NonCanonical r) \<Rightarrow> check r
      | Some (Canonical r) \<Rightarrow> check r)"

definition head_valid :: "LocalStore \<Rightarrow> StateHead \<Rightarrow> bool" where
  "head_valid st h = (sh_SchemaVersion h = StateHeadSchemaVersion \<and> sh_RecordType h = StateHeadRecordType \<and>
     sh_Plane h = ControlPlane \<and> sh_RepositoryScopeSHA256 h = ks_scope st \<and> sh_Generation h \<noteq> 0 \<and>
     digestPattern (sh_RecordDigest h) \<and> 0 \<le> sh_RevocationEpoch h \<and> ValidUTCTimestamp (sh_UpdatedAt h))"

definition loadHeadUnlocked :: "sticky_codec \<Rightarrow> LocalStore \<Rightarrow> store_files \<Rightarrow> int \<Rightarrow> sticky_error + HeadSnapshot" where
  "loadHeadUnlocked cx st f now =
     (case sf_head f of
        None \<Rightarrow> Inl ErrNotFound
      | Some Unreadable \<Rightarrow> Inl (Failure ''read head'')
      | Some Garbage \<Rightarrow> Inl ErrCorrupt
      | Some (NonCanonical _) \<Rightarrow> Inl ErrCorrupt
      | Some (Canonical h) \<Rightarrow>
          if \<not> head_valid st h then Inl ErrCorrupt
          else (case map_of (sf_records f) (recordFilename (sh_Generation h) (sh_RecordDigest h)) of
             None \<Rightarrow> Inl ErrCorrupt
           | Some raw \<Rightarrow>
               (case DecodeDocument cx raw now of
                  Inl e \<Rightarrow> Inl (if e = ErrExpired then ErrExpired else ErrCorrupt)
                | Inr d \<Rightarrow>
                    if dc_Digest d \<noteq> sh_RecordDigest h \<or> dc_StoreGeneration d \<noteq> sh_Generation h \<or>
                       dc_RecordType d \<noteq> sh_RecordTypeAtHead h \<or> bi_RepositoryScopeSHA256 (dc_Binding d) \<noteq> ks_scope st
                    then Inl ErrCorrupt
                    else Inr \<lparr>hs_Head = h, hs_HeadDigest = digestBytes cx (cx_encodeHead cx h), hs_Document = d,
                       hs_RecordDigest = dc_Digest d\<rparr>)))"

text \<open>\<open>Current\<close> and \<open>CurrentReadOnly\<close> differ only in how the lock file is opened.\<close>

definition current :: "sticky_codec \<Rightarrow> LocalStore \<Rightarrow> store_files \<Rightarrow> lock_outcome \<Rightarrow> int \<Rightarrow> int \<Rightarrow> sticky_error + HeadSnapshot" where
  "current cx st f lock loaded verified =
     (case lock of
        Busy \<Rightarrow> Inl ErrBusy
      | LockError e \<Rightarrow> Inl e
      | Held \<Rightarrow>
          (case loadHeadUnlocked cx st f loaded of
             Inl e \<Rightarrow> Inl e
           | Inr snapshot \<Rightarrow>
               (case loadRevocationUnlocked st f of
                  Inl e \<Rightarrow> Inl e
                | Inr epoch \<Rightarrow>
                    if sh_RevocationEpoch (hs_Head snapshot) \<noteq> epoch \<or> bi_RevocationEpoch (dc_Binding (hs_Document snapshot)) \<noteq> epoch
                    then Inl ErrRevoked
                    else (case verify_stored cx st (hs_Document snapshot) verified epoch of
                      Some e \<Rightarrow> Inl e
                    | None \<Rightarrow> Inr snapshot))))"

section \<open>Appending\<close>

record append_clock =
  cl_decode :: int
  cl_verify :: int
  cl_load :: int
  cl_updatedAt :: string

text \<open>\<open>writeImmutable\<close> on a directory: it fails on an existing file, and a torn write leaves a prefix.\<close>

datatype write_status = Wrote | AlreadyExists | WriteFailed

definition writeImmutable ::
    "(string \<times> 'c) list \<Rightarrow> string \<Rightarrow> 'c \<Rightarrow> (nat \<Rightarrow> 'c) \<Rightarrow> disk_write \<Rightarrow> (string \<times> 'c) list \<times> write_status" where
  "writeImmutable files name content torn w =
     (if map_of files name \<noteq> None then (files, AlreadyExists)
      else case w of Stored \<Rightarrow> ((name, content) # files, Wrote) | Refused \<Rightarrow> (files, WriteFailed)
        | Torn n \<Rightarrow> ((name, torn n) # files, WriteFailed))"

definition new_head :: "LocalStore \<Rightarrow> Document \<Rightarrow> int \<Rightarrow> string \<Rightarrow> StateHead" where
  "new_head st d epoch updatedAt = \<lparr>sh_SchemaVersion = StateHeadSchemaVersion, sh_RecordType = StateHeadRecordType,
     sh_Plane = ControlPlane, sh_RepositoryScopeSHA256 = ks_scope st, sh_Generation = dc_StoreGeneration d,
     sh_RecordTypeAtHead = dc_RecordType d, sh_RecordDigest = dc_Digest d, sh_RevocationEpoch = epoch, sh_UpdatedAt = updatedAt\<rparr>"

definition head_result :: "sticky_codec \<Rightarrow> Document \<Rightarrow> StateHead \<Rightarrow> AppendResult" where
  "head_result cx d h = \<lparr>ap_Generation = sh_Generation h, ap_RecordDigest = dc_Digest d,
     ap_HeadDigest = digestBytes cx (cx_encodeHead cx h), ap_Replayed = False\<rparr>"

definition new_request :: "string \<Rightarrow> string \<Rightarrow> AppendResult \<Rightarrow> localRequest" where
  "new_request idempotencyKey requestDigest r = \<lparr>lr_SchemaVersion = StateHeadSchemaVersion, lr_RecordType = ''STICKY_STATE_CAS'',
     lr_IdempotencyKey = idempotencyKey, lr_RequestDigest = requestDigest, lr_Result = r\<rparr>"

text \<open>The three writes of an append, in the order of the source: record, head, request.\<close>

definition publish ::
    "sticky_codec \<Rightarrow> LocalStore \<Rightarrow> store_files \<Rightarrow> Document \<Rightarrow> int \<Rightarrow> string \<Rightarrow> string \<Rightarrow> string \<Rightarrow> disk_outcomes \<Rightarrow>
     store_files \<times> (sticky_error + AppendResult)" where
  "publish cx st f d epoch updatedAt idempotencyKey requestDigest disk =
     (let name = recordFilename (dc_StoreGeneration d) (dc_Digest d);
          (records, status) = writeImmutable (sf_records f) name (dc_Raw d) (\<lambda>n. take n (dc_Raw d)) (dk_record disk);
          f1 = f\<lparr>sf_records := records\<rparr> in
      if status = WriteFailed then (f1, Inl (Failure ''publish sticky decision record''))
      else if status = AlreadyExists \<and> map_of (sf_records f) name \<noteq> Some (dc_Raw d) then (f1, Inl ErrCorrupt)
      else if \<not> dk_head disk then (f1, Inl (Failure ''publish sticky decision head''))
      else let h = new_head st d epoch updatedAt; f2 = f1\<lparr>sf_head := Some (Canonical h)\<rparr>; r = head_result cx d h;
               (requests, written) = writeImmutable (sf_requests f2) (idempotencyKey @ ''.json'')
                 (Canonical (new_request idempotencyKey requestDigest r)) (\<lambda>n. Garbage) (dk_request disk);
               f3 = f2\<lparr>sf_requests := requests\<rparr> in
        if written = WriteFailed then (f3, Inl (Failure ''publish sticky decision idempotency record'')) else (f3, Inr r))"

text \<open>The compare-and-swap of the head against what the caller expects.\<close>

definition head_precondition ::
    "sticky_codec \<Rightarrow> LocalStore \<Rightarrow> store_files \<Rightarrow> Document \<Rightarrow> 64 word \<Rightarrow> string \<Rightarrow> int \<Rightarrow> int \<Rightarrow> sticky_error option" where
  "head_precondition cx st f d expectedGeneration expectedHeadDigest epoch loaded =
     (case loadHeadUnlocked cx st f loaded of
        Inl e \<Rightarrow>
          if e = ErrNotFound then first_err
            [reject_if (expectedGeneration \<noteq> 0 \<or> expectedHeadDigest \<noteq> []) ErrGenerationConflict,
             reject_if (dc_StoreGeneration d \<noteq> expectedGeneration + 1) ErrGenerationConflict]
          else Some e
      | Inr c \<Rightarrow> first_err
          [reject_if (sh_Generation (hs_Head c) \<noteq> expectedGeneration \<or> hs_HeadDigest c \<noteq> expectedHeadDigest) ErrGenerationConflict,
           reject_if (dc_StoreGeneration d \<noteq> expectedGeneration + 1) ErrGenerationConflict,
           reject_if (sh_RevocationEpoch (hs_Head c) \<noteq> epoch) ErrRevoked,
           reject_if (bi_RepositoryScopeSHA256 (dc_Binding (hs_Document c)) \<noteq> ks_scope st) ErrCrossScope])"

definition append_locked ::
    "sticky_codec \<Rightarrow> LocalStore \<Rightarrow> store_files \<Rightarrow> string \<Rightarrow> Document \<Rightarrow> 64 word \<Rightarrow> string \<Rightarrow> string \<Rightarrow> append_clock \<Rightarrow> disk_outcomes \<Rightarrow>
     store_files \<times> (sticky_error + AppendResult)" where
  "append_locked cx st f raw d expectedGeneration expectedHeadDigest idempotencyKey ck disk =
     (case loadRevocationUnlocked st f of
        Inl e \<Rightarrow> (f, Inl e)
      | Inr epoch \<Rightarrow>
          if bi_RevocationEpoch (dc_Binding d) \<noteq> epoch then (f, Inl ErrRevoked)
          else (case verify_stored cx st d (cl_verify ck) epoch of
             Some e \<Rightarrow> (f, Inl e)
           | None \<Rightarrow>
               let requestDigest = appendRequestDigest cx raw expectedGeneration expectedHeadDigest idempotencyKey;
                   replay = (\<lambda>r. if lr_RequestDigest r \<noteq> requestDigest \<or> lr_IdempotencyKey r \<noteq> idempotencyKey
                     then (f, Inl ErrIdempotencyConflict) else (f, Inr ((lr_Result r)\<lparr>ap_Replayed := True\<rparr>))) in
               case map_of (sf_requests f) (idempotencyKey @ ''.json'') of
                 Some (Canonical r) \<Rightarrow> replay r
               | Some (NonCanonical r) \<Rightarrow> replay r
               | Some Garbage \<Rightarrow> (f, Inl ErrIdempotencyConflict)
               | Some Unreadable \<Rightarrow> (f, Inl (Failure ''read sticky decision idempotency record''))
               | None \<Rightarrow>
                   (case dk_directory disk of
                      Some e \<Rightarrow> (f, Inl (Failure e))
                    | None \<Rightarrow>
                        (case head_precondition cx st f d expectedGeneration expectedHeadDigest epoch (cl_load ck) of
                           Some e \<Rightarrow> (f, Inl e)
                         | None \<Rightarrow> publish cx st f d epoch (cl_updatedAt ck) idempotencyKey requestDigest disk))))"

definition Append ::
    "sticky_codec \<Rightarrow> LocalStore \<Rightarrow> store_files \<Rightarrow> string \<Rightarrow> 64 word \<Rightarrow> string \<Rightarrow> string \<Rightarrow> lock_outcome \<Rightarrow> append_clock \<Rightarrow> disk_outcomes \<Rightarrow>
     store_files \<times> (sticky_error + AppendResult)" where
  "Append cx st f raw expectedGeneration expectedHeadDigest idempotencyKey lock ck disk =
     (if raw = [] \<or> int (length raw) > maximumRecordBytes \<or> \<not> digestPattern idempotencyKey then (f, Inl (ErrInvalidDocument []))
      else case DecodeDocument cx raw (cl_decode ck) of
        Inl e \<Rightarrow> (f, Inl e)
      | Inr d \<Rightarrow>
          (case validateAppendIdentity d (ks_scope st) expectedGeneration expectedHeadDigest idempotencyKey of
             Some e \<Rightarrow> (f, Inl e)
           | None \<Rightarrow>
               (case lock of
                  Busy \<Rightarrow> (f, Inl ErrBusy)
                | LockError e \<Rightarrow> (f, Inl e)
                | Held \<Rightarrow> append_locked cx st f raw d expectedGeneration expectedHeadDigest idempotencyKey ck disk)))"

text \<open>
  The revocation document is canonical JSON, which keeps the digits of an epoch only up to two to the fifty-third:
  above it the number that is written is \<open>jcs_int epoch\<close>, and one that no longer fits an \<open>int64\<close> does not decode.
  The numbers of the other documents come from canonical records and are written as they are.
\<close>

definition stored_revocation :: "LocalStore \<Rightarrow> int \<Rightarrow> string \<Rightarrow> Revocation stored" where
  "stored_revocation st epoch updatedAt =
     (if jcs_int epoch > 9223372036854775807 then Garbage
      else Canonical \<lparr>xr_SchemaVersion = RevocationSchemaVersion, xr_RecordType = RevocationRecordType,
        xr_RepositoryScopeSHA256 = ks_scope st, xr_Epoch = jcs_int epoch, xr_UpdatedAt = updatedAt\<rparr>)"

definition Revoke :: "LocalStore \<Rightarrow> store_files \<Rightarrow> int \<Rightarrow> lock_outcome \<Rightarrow> string \<Rightarrow> bool \<Rightarrow> store_files \<times> sticky_error option" where
  "Revoke st f epoch lock updatedAt written =
     (if epoch < 1 then (f, Some (ErrInvalidDocument []))
      else case lock of
        Busy \<Rightarrow> (f, Some ErrBusy)
      | LockError e \<Rightarrow> (f, Some e)
      | Held \<Rightarrow>
          (case loadRevocationUnlocked st f of
             Inl e \<Rightarrow> (f, Some e)
           | Inr present \<Rightarrow>
               if epoch \<le> present then (f, Some ErrGenerationConflict)
               else if \<not> written then (f, Some (Failure ''replace revocation''))
               else (f\<lparr>sf_revocation := Some (stored_revocation st epoch updatedAt)\<rparr>, None)))"

section \<open>The data plane\<close>

text \<open>The character set of \<open>strings.ContainsAny\<close> is the slash and the backslash.\<close>

definition cache_key_ok :: "string \<Rightarrow> bool" where
  "cache_key_ok key = (key \<noteq> [] \<and> \<not> list_ex (\<lambda>c. c = CHR 0x2F \<or> c = CHR 0x5C) key)"

definition PutCacheObject :: "sticky_codec \<Rightarrow> store_files \<Rightarrow> string \<Rightarrow> string \<Rightarrow> disk_write \<Rightarrow> store_files \<times> (sticky_error + string)" where
  "PutCacheObject cx f key raw w =
     (if \<not> cache_key_ok key \<or> raw = [] \<or> int (length raw) > maximumRecordBytes then (f, Inl ErrCrossPlane)
      else let dig = digestBytes cx raw;
               (files, status) = writeImmutable (sf_cache f) (key @ ''-'' @ dig) raw (\<lambda>n. take n raw) w in
        (f\<lparr>sf_cache := files\<rparr>, if status = WriteFailed then Inl (Failure ''write cache object'') else Inr dig))"

definition OpenCacheObject :: "store_files \<Rightarrow> string \<Rightarrow> string \<Rightarrow> sticky_error + string" where
  "OpenCacheObject f key dig =
     (if \<not> cache_key_ok key \<or> \<not> digestPattern dig then Inl ErrCrossPlane
      else case map_of (sf_cache f) (key @ ''-'' @ dig) of None \<Rightarrow> Inl ErrNotExistOS | Some raw \<Rightarrow> Inr raw)"

section \<open>Opening a store for reading\<close>

text \<open>What \<open>os.Lstat\<close> reports of a path: nothing, an error, a directory or a regular file with its permissions, or another kind.\<close>

datatype path_info = NoEntry | StatError string | Directory nat | Regular nat | OtherEntry

definition validatePrivateDirectory :: "path_info \<Rightarrow> sticky_error option" where
  "validatePrivateDirectory i = (case i of NoEntry \<Rightarrow> Some ErrNotFound | StatError e \<Rightarrow> Some (Failure e)
     | Directory mode \<Rightarrow> reject_if (mode \<noteq> 448) ErrCorrupt | Regular _ \<Rightarrow> Some ErrCorrupt | OtherEntry \<Rightarrow> Some ErrCorrupt)"

definition validatePrivateFile :: "path_info \<Rightarrow> bool \<Rightarrow> sticky_error option" where
  "validatePrivateFile i allowMissing = (case i of NoEntry \<Rightarrow> (if allowMissing then None else Some ErrNotFound) | StatError e \<Rightarrow> Some (Failure e)
     | Regular mode \<Rightarrow> reject_if (mode \<noteq> 384) ErrCorrupt | Directory _ \<Rightarrow> Some ErrCorrupt | OtherEntry \<Rightarrow> Some ErrCorrupt)"

definition clean_absolute :: "string \<Rightarrow> bool" where
  "clean_absolute dir = (dir \<noteq> [] \<and> hasPrefix ''/'' dir \<and> path_clean dir = dir)"

definition OpenLocalReadOnly :: "(string \<Rightarrow> path_info) \<Rightarrow> string \<Rightarrow> string \<Rightarrow> (string \<times> string) list \<Rightarrow> sticky_error + LocalStore" where
  "OpenLocalReadOnly lstat dir scope publicKeys =
     (case first_err
        [reject_if (\<not> clean_absolute dir) (ErrInvalidDocument ''local root must be one clean absolute path''),
         reject_if (\<not> digestPattern scope) ErrCrossScope,
         validatePrivateDirectory (lstat dir),
         validatePrivateDirectory (lstat (path_clean (dir @ ''/records''))),
         validatePrivateDirectory (lstat (path_clean (dir @ ''/cache''))),
         validatePrivateFile (lstat (path_clean (dir @ ''/state.lock''))) False] of
        Some e \<Rightarrow> Inl e
      | None \<Rightarrow> Inr \<lparr>ks_scope = scope, ks_publicKeys = publicKeys\<rparr>)"

definition LocalDecisionRoot :: "string \<Rightarrow> string \<Rightarrow> sticky_error + string" where
  "LocalDecisionRoot cacheRoot scope =
     (if \<not> clean_absolute cacheRoot then Inl (ErrInvalidDocument ''decision cache root must be one clean absolute path'')
      else if \<not> digestPattern scope then Inl ErrCrossScope
      else Inr (path_clean (cacheRoot @ ''/buildopt/sticky/state/'' @ scope)))"

section \<open>Selection\<close>

datatype SelectionStatus = SelectionNative | SelectionActive

record Selection =
  se_Status :: SelectionStatus
  se_Decision :: string
  se_StoredDecision :: string
  se_Reason :: string
  se_Generation :: "64 word"
  se_RecordDigest :: string
  se_RefreshScheduled :: bool

text \<open>The scheduler holds whether a refresh is running; \<open>None\<close> is a nil scheduler or a nil refresh.\<close>

definition Schedule :: "bool option \<Rightarrow> bool option \<times> bool" where
  "Schedule working = (case working of None \<Rightarrow> (None, False) | Some True \<Rightarrow> (Some True, False) | Some False \<Rightarrow> (Some True, True))"

definition refresh_done :: "bool option \<Rightarrow> bool option" where
  "refresh_done working = map_option (\<lambda>_. False) working"

definition shouldRefresh :: "string \<Rightarrow> bool" where
  "shouldRefresh reason = (reason \<in> {''NO_LOCAL_SNAPSHOT'', ''EXPIRED_SNAPSHOT'', ''SNAPSHOT_BUSY'', ''CORRUPT_SNAPSHOT'',
     ''INCOMPATIBLE_SNAPSHOT'', ''LOCAL_STATE_UNAVAILABLE''})"

definition classifySelectionError :: "sticky_error \<Rightarrow> string" where
  "classifySelectionError e = (case e of
       ErrNotFound \<Rightarrow> ''NO_LOCAL_SNAPSHOT'' | ErrNotExistOS \<Rightarrow> ''NO_LOCAL_SNAPSHOT'' | ErrExpired \<Rightarrow> ''EXPIRED_SNAPSHOT''
     | ErrRevoked \<Rightarrow> ''REVOKED_SNAPSHOT'' | ErrBusy \<Rightarrow> ''SNAPSHOT_BUSY'' | ErrCorrupt \<Rightarrow> ''CORRUPT_SNAPSHOT''
     | ErrCrossScope \<Rightarrow> ''INCOMPATIBLE_SNAPSHOT'' | ErrInvalidDocument _ \<Rightarrow> ''INCOMPATIBLE_SNAPSHOT'' | ErrCrossPlane \<Rightarrow> ''INCOMPATIBLE_SNAPSHOT''
     | ErrGenerationConflict \<Rightarrow> ''LOCAL_STATE_UNAVAILABLE'' | ErrIdempotencyConflict \<Rightarrow> ''LOCAL_STATE_UNAVAILABLE''
     | Failure _ \<Rightarrow> ''LOCAL_STATE_UNAVAILABLE'')"

definition native_selection :: Selection where
  "native_selection = \<lparr>se_Status = SelectionNative, se_Decision = ExecutionNativeNoop, se_StoredDecision = [], se_Reason = [],
     se_Generation = 0, se_RecordDigest = [], se_RefreshScheduled = False\<rparr>"

definition finish :: "bool option \<Rightarrow> Selection \<Rightarrow> string \<Rightarrow> bool option \<times> Selection" where
  "finish scheduler s reason =
     (if shouldRefresh reason then (case Schedule scheduler of (sched, started) \<Rightarrow> (sched, s\<lparr>se_Reason := reason, se_RefreshScheduled := started\<rparr>))
      else (scheduler, s\<lparr>se_Reason := reason\<rparr>))"

definition select_snapshot :: "bool option \<Rightarrow> Binding \<Rightarrow> HeadSnapshot \<Rightarrow> bool option \<times> Selection" where
  "select_snapshot scheduler expected snapshot =
     (case document_decision (hs_Document snapshot) of
        None \<Rightarrow> finish scheduler native_selection ''INCOMPATIBLE_SNAPSHOT''
      | Some d \<Rightarrow>
          if dc_RecordType (hs_Document snapshot) \<noteq> DecisionRecordType then finish scheduler native_selection ''INCOMPATIBLE_SNAPSHOT''
          else let s = native_selection\<lparr>se_StoredDecision := dn_ExecutionDecision d, se_Generation := sh_Generation (hs_Head snapshot),
                 se_RecordDigest := hs_RecordDigest snapshot\<rparr> in
            if dn_Binding d \<noteq> expected then finish scheduler s ''INCOMPATIBLE_SNAPSHOT''
            else if dn_ExecutionDecision d = ExecutionNativeNoop then (scheduler, s\<lparr>se_Reason := ''VERIFIED_NATIVE_NOOP''\<rparr>)
            else if active_execution d then (scheduler, s\<lparr>se_Status := SelectionActive, se_Decision := dn_ExecutionDecision d,
              se_Reason := ''VERIFIED_ACTIVE_DEFERRED''\<rparr>)
            else finish scheduler s ''DECISION_NOT_EXECUTABLE'')"

definition SelectLocal ::
    "sticky_codec \<Rightarrow> (string \<Rightarrow> path_info) \<Rightarrow> store_files \<Rightarrow> string \<Rightarrow> string \<Rightarrow> Binding \<Rightarrow> (string \<times> string) list \<Rightarrow> bool option \<Rightarrow>
     lock_outcome \<Rightarrow> int \<Rightarrow> int \<Rightarrow> bool option \<times> Selection" where
  "SelectLocal cx lstat f dir scope expected publicKeys scheduler lock loaded verified =
     (if \<not> clean_absolute dir \<or> \<not> digestPattern scope \<or> bi_RepositoryScopeSHA256 expected \<noteq> scope \<or> publicKeys = []
      then finish scheduler native_selection ''INVALID_SELECTOR_REQUEST''
      else case OpenLocalReadOnly lstat dir scope publicKeys of
        Inl e \<Rightarrow> finish scheduler native_selection (classifySelectionError e)
      | Inr st \<Rightarrow>
          (case current cx st f lock loaded verified of
             Inl e \<Rightarrow> finish scheduler native_selection (classifySelectionError e)
           | Inr snapshot \<Rightarrow> select_snapshot scheduler expected snapshot))"

end
