(* ===== verification/StickyLedger.thy ===== *)
theory StickyLedger
  imports StickyRecords StickyValue JcsNumber
begin

text \<open>
  The arithmetic of the economic ledger at 64 bits (\<open>internal/stickydecision/validate.go\<close>): the totals of an
  accepted ledger are the exact sums of its entries, except for the net total, which may wrap.
\<close>

section \<open>Costs and totals\<close>

lemma ledger_limits [simp]: "maxInt64Value = MaxInt64" "minInt64Value = MinInt64"
  by (simp_all add: maxInt64Value_def minInt64Value_def MaxInt64_def MinInt64_def)

lemma uint_MaxInt64 [simp]: "uint MaxInt64 = 2 ^ 63 - 1"
  by (simp add: MaxInt64_def)

lemma cost_sint: "\<not> MaxInt64 < c \<Longrightarrow> sint c = uint c" for c :: "64 word"
proof -
  assume "\<not> MaxInt64 < c"
  then have "uint c \<in> int64_range" using uint_nonnegative [of c] unfolding word_less_def uint_MaxInt64 int64_range_def atLeastLessThan_iff by linarith
  from sint_of_int [OF this] show ?thesis by simp
qed

lemma cost_add: "\<not> - 1 - c < t \<Longrightarrow> uint (t + c) = uint t + uint c" for c t :: "64 word"
proof -
  assume "\<not> - 1 - c < t"
  moreover have "uint (- 1 - c) = uint (- 1 :: 64 word) - uint c"
    using uint_sub_lem [of c "- 1"] uint_lt2p [of c] by (simp add: unsigned_minus_1_eq_mask mask_eq_exp_minus_1)
  ultimately have "uint t + uint c < 2 ^ LENGTH(64)" by (simp add: word_less_def unsigned_minus_1_eq_mask mask_eq_exp_minus_1)
  then show ?thesis using uint_add_lem [of t c] by blast
qed

lemma entry_check:
  assumes "ledger_entry_check gross cost e = None"
  shows "sint (gross + le_GrossSavedMs e) = sint gross + sint (le_GrossSavedMs e)"
    and "uint (cost + le_BuildOptCostMs e) = uint cost + uint (le_BuildOptCostMs e)"
    and "sint (le_NetSavedMs e) = sint (le_GrossSavedMs e) - uint (le_BuildOptCostMs e)"
proof -
  have c: "\<not> MaxInt64 < le_BuildOptCostMs e" and n: "\<not> le_GrossSavedMs e <s MinInt64 + le_BuildOptCostMs e"
    "le_NetSavedMs e = le_GrossSavedMs e - le_BuildOptCostMs e"
    and g: "checkedAdd (le_GrossSavedMs e) gross \<noteq> None" and t: "\<not> - 1 - le_BuildOptCostMs e < cost"
    using assms by (auto simp: ledger_entry_check_def checkedAdd_def)
  from g obtain w where "checkedAdd (le_GrossSavedMs e) gross = Some w" by blast
  then show "sint (gross + le_GrossSavedMs e) = sint gross + sint (le_GrossSavedMs e)"
    using sint_add [of "le_GrossSavedMs e" gross] by (simp add: checkedAdd_Some add.commute)
  show "uint (cost + le_BuildOptCostMs e) = uint cost + uint (le_BuildOptCostMs e)" using cost_add [OF t] .
  have s: "sint (le_BuildOptCostMs e) = uint (le_BuildOptCostMs e)" by (rule cost_sint [OF c])
  have b: "0 \<le> uint (le_BuildOptCostMs e)" "uint (le_BuildOptCostMs e) \<le> 2 ^ 63 - 1" using c by (simp_all add: word_less_def)
  have "sint (MinInt64 + le_BuildOptCostMs e) = - (2 ^ 63) + uint (le_BuildOptCostMs e)"
    using sint_add [of MinInt64 "le_BuildOptCostMs e"] s b by (simp add: int64_range_def)
  with n(1) have "- (2 ^ 63) \<le> sint (le_GrossSavedMs e) - uint (le_BuildOptCostMs e)" by (simp add: word_sless_alt)
  then have "sint (le_GrossSavedMs e) - sint (le_BuildOptCostMs e) \<in> int64_range"
    using s b(1) sint_bounds(2) [of "le_GrossSavedMs e"] unfolding int64_range_def atLeastLessThan_iff by linarith
  then show "sint (le_NetSavedMs e) = sint (le_GrossSavedMs e) - uint (le_BuildOptCostMs e)" using sint_sub n(2) s by simp
qed

lemma ledger_loop_exact:
  assumes "ledger_loop gross cost es = Inr (gross', cost')"
  shows "sint gross' = sint gross + (\<Sum>e\<leftarrow>es. sint (le_GrossSavedMs e)) \<and> uint cost' = uint cost + (\<Sum>e\<leftarrow>es. uint (le_BuildOptCostMs e)) \<and>
    (\<forall>e\<in>set es. sint (le_NetSavedMs e) = sint (le_GrossSavedMs e) - uint (le_BuildOptCostMs e))"
  using assms
proof (induction es arbitrary: gross cost)
  case (Cons e es)
  then have none: "ledger_entry_check gross cost e = None" by (simp split: option.splits)
  with Cons show ?case using entry_check [OF none] by fastforce
qed simp

lemma ledger_totals_exact:
  assumes "ledger_totals v = None"
  shows "sint (el_GrossSavedMs v) = (\<Sum>e\<leftarrow>el_Entries v. sint (le_GrossSavedMs e))"
    and "uint (el_BuildOptCostMs v) = (\<Sum>e\<leftarrow>el_Entries v. uint (le_BuildOptCostMs e))" "uint (el_BuildOptCostMs v) < 2 ^ 63"
    and "\<forall>e\<in>set (el_Entries v). sint (le_NetSavedMs e) = sint (le_GrossSavedMs e) - uint (le_BuildOptCostMs e)"
    and "el_NetSavedMs v = el_GrossSavedMs v - el_BuildOptCostMs v"
proof -
  from assms obtain gross cost where loop: "ledger_loop 0 0 (el_Entries v) = Inr (gross, cost)"
    and eq: "\<not> MaxInt64 < cost" "el_GrossSavedMs v = gross" "el_BuildOptCostMs v = cost" "el_NetSavedMs v = gross - cost"
    by (auto simp: ledger_totals_def split: sum.splits prod.splits)
  from ledger_loop_exact [OF loop] eq show "sint (el_GrossSavedMs v) = (\<Sum>e\<leftarrow>el_Entries v. sint (le_GrossSavedMs e))"
    "uint (el_BuildOptCostMs v) = (\<Sum>e\<leftarrow>el_Entries v. uint (le_BuildOptCostMs e))"
    "\<forall>e\<in>set (el_Entries v). sint (le_NetSavedMs e) = sint (le_GrossSavedMs e) - uint (le_BuildOptCostMs e)"
    "el_NetSavedMs v = el_GrossSavedMs v - el_BuildOptCostMs v" by simp_all
  show "uint (el_BuildOptCostMs v) < 2 ^ 63" using eq by (simp add: word_less_def)
qed

lemma net_sum: "(\<Sum>e\<leftarrow>es. sint (le_NetSavedMs e)) = (\<Sum>e\<leftarrow>es. sint (le_GrossSavedMs e)) - (\<Sum>e\<leftarrow>es. uint (le_BuildOptCostMs e))"
  if "\<forall>e\<in>set es. sint (le_NetSavedMs e) = sint (le_GrossSavedMs e) - uint (le_BuildOptCostMs e)"
  using that by (induction es) simp_all

section \<open>Properties\<close>

text \<open>
  (C27) In a ledger that passes validation the gross total and the cost total are the exact sums of the entries, each
  entry's net is its gross minus its cost, and the net total is the exact sum of the nets whenever that sum fits into 64
  bits.
\<close>

theorem sticky_ledger_exact:
  assumes "validateLedger v now = None"
  shows "sint (el_GrossSavedMs v) = (\<Sum>e\<leftarrow>el_Entries v. sint (le_GrossSavedMs e)) \<and>
    uint (el_BuildOptCostMs v) = (\<Sum>e\<leftarrow>el_Entries v. uint (le_BuildOptCostMs e)) \<and>
    (\<forall>e\<in>set (el_Entries v). sint (le_NetSavedMs e) = sint (le_GrossSavedMs e) - uint (le_BuildOptCostMs e)) \<and>
    ((\<Sum>e\<leftarrow>el_Entries v. sint (le_NetSavedMs e)) \<in> int64_range \<longrightarrow>
       sint (el_NetSavedMs v) = (\<Sum>e\<leftarrow>el_Entries v. sint (le_NetSavedMs e)))"
proof -
  have "ledger_totals v = None" using assms by (simp add: validateLedger_def)
  note t = ledger_totals_exact [OF this]
  have "sint (el_BuildOptCostMs v) = uint (el_BuildOptCostMs v)" using t(3) by (intro cost_sint) (simp add: word_less_def)
  then have "sint (el_NetSavedMs v) = (\<Sum>e\<leftarrow>el_Entries v. sint (le_NetSavedMs e))"
    if "(\<Sum>e\<leftarrow>el_Entries v. sint (le_NetSavedMs e)) \<in> int64_range"
    using that sint_sub [of "el_GrossSavedMs v" "el_BuildOptCostMs v"] net_sum [OF t(4)] t(1,2,5) by simp
  with t show ?thesis by blast
qed

definition ex_scope64 :: string where "ex_scope64 = replicate 64 (CHR ''a'')"

definition ex_sticky_binding :: Binding where
  "ex_sticky_binding = \<lparr>bi_RepositoryScopeSHA256 = ex_scope64, bi_Workflow = ''build'', bi_SourceRevision = replicate 40 (CHR ''b''),
     bi_GradleVersion = ''8.10.2'', bi_WrapperSHA256 = ex_scope64, bi_OptionsSHA256 = ex_scope64, bi_OutputContractSHA256 = ex_scope64,
     bi_BuildOptExecutableSHA256 = ex_scope64, bi_RevocationEpoch = 0\<rparr>"

definition ex_entry :: "64 word \<Rightarrow> 64 word \<Rightarrow> LedgerEntry" where
  "ex_entry gross cost = \<lparr>le_ActionID = ''native'', le_ObservationRef = ex_scope64, le_GrossSavedMs = gross, le_BuildOptCostMs = cost,
     le_NetSavedMs = gross - cost, le_Outcome = ''SUCCESS'', le_ObservedAt = ''2026-01-02T00:00:00Z''\<rparr>"

definition ex_ledger :: "LedgerEntry list \<Rightarrow> 64 word \<Rightarrow> 64 word \<Rightarrow> 64 word \<Rightarrow> EconomicLedger" where
  "ex_ledger es gross cost net = \<lparr>el_SchemaVersion = LedgerSchemaVersion, el_RecordType = LedgerRecordType, el_LedgerID = ''ledger-1'',
     el_StoreGeneration = 4, el_IdempotencyKey = ex_scope64, el_Binding = ex_sticky_binding, el_SupersedesDigest = [],
     el_Entries = es, el_GrossSavedMs = gross, el_BuildOptCostMs = cost, el_NetSavedMs = net, el_AsOf = ''2026-01-02T00:00:00Z''\<rparr>"

lemma ex_ledger_valid: "validateLedger (ex_ledger [ex_entry 100 30, ex_entry (- 5) 7] 95 37 58) 0 = None"
  by code_simp

theorem sticky_ledger_exact_witness:
  "(let v = ex_ledger [ex_entry 100 30, ex_entry (- 5) 7] 95 37 58 in
     validateLedger v 0 = None \<and> sint (el_NetSavedMs v) = (\<Sum>e\<leftarrow>el_Entries v. sint (le_NetSavedMs e)))"
proof -
  have "(\<Sum>e\<leftarrow>el_Entries (ex_ledger [ex_entry 100 30, ex_entry (- 5) 7] 95 37 58). sint (le_NetSavedMs e)) = 58" by code_simp
  then show ?thesis using sticky_ledger_exact [OF ex_ledger_valid] ex_ledger_valid by (simp add: int64_range_def Let_def)
qed

text \<open>
  (C32) The net total is not checked for overflow. In every ledger that passes validation and whose nets sum to less
  than the smallest \<open>int64\<close>, the stored net total is that sum plus two to the sixty-fourth, a positive number: the
  ledger reports a saving where the entries record a loss. The nets can never sum to more than the largest \<open>int64\<close>.
\<close>

theorem sticky_ledger_net_wraps:
  assumes "validateLedger v now = None" "(\<Sum>e\<leftarrow>el_Entries v. sint (le_NetSavedMs e)) \<notin> int64_range"
  shows "(\<Sum>e\<leftarrow>el_Entries v. sint (le_NetSavedMs e)) < - (2 ^ 63) \<and>
    sint (el_NetSavedMs v) = (\<Sum>e\<leftarrow>el_Entries v. sint (le_NetSavedMs e)) + 2 ^ 64 \<and> 0 < sint (el_NetSavedMs v)"
proof -
  have "ledger_totals v = None" using assms(1) by (simp add: validateLedger_def)
  note t = ledger_totals_exact [OF this]
  let ?n = "\<Sum>e\<leftarrow>el_Entries v. sint (le_NetSavedMs e)"
  have cost: "sint (el_BuildOptCostMs v) = uint (el_BuildOptCostMs v)" using t(3) by (intro cost_sint) (simp add: word_less_def)
  have n: "?n = sint (el_GrossSavedMs v) - sint (el_BuildOptCostMs v)" using net_sum [OF t(4)] t(1,2) cost by simp
  have two: "(2 :: int) ^ 64 = 2 ^ 63 + 2 ^ 63" by simp
  have bounds: "?n < 2 ^ 63" "- (2 ^ 64) < ?n"
    unfolding two using n cost t(3) uint_nonnegative [of "el_BuildOptCostMs v"] sint_bounds [of "el_GrossSavedMs v"] by linarith+
  then have low: "?n < - (2 ^ 63)" using assms(2) by (auto simp: int64_range_def)
  have "el_NetSavedMs v = word_of_int (?n + 2 ^ 64)" unfolding t(5) n by simp
  moreover have "?n + 2 ^ 64 \<in> int64_range" using low bounds(2) by (auto simp: int64_range_def)
  ultimately have "sint (el_NetSavedMs v) = ?n + 2 ^ 64" by (simp only: sint_of_int)
  with low bounds show ?thesis by simp
qed

text \<open>A ledger whose numbers are written the same in canonical JSON.\<close>

definition ex_loss :: EconomicLedger where
  "ex_loss = ex_ledger [ex_entry (- 9223372036854775000) 0, ex_entry 0 9223372036854775000] (- 9223372036854775000) 9223372036854775000 1616"

lemma ex_loss_canonical: "\<forall>n\<in>{- 9223372036854775000, 0, 9223372036854775000, 1616}. jcs_int n = n"
  by code_simp

lemma ex_loss_valid: "validateLedger ex_loss 0 = None" "(\<Sum>e\<leftarrow>el_Entries ex_loss. sint (le_NetSavedMs e)) = - 18446744073709550000"
  by code_simp+

theorem sticky_ledger_net_wraps_witness:
  "validateLedger ex_loss 0 = None \<and> (\<Sum>e\<leftarrow>el_Entries ex_loss. sint (le_NetSavedMs e)) = - 18446744073709550000 \<and>
     sint (el_NetSavedMs ex_loss) = 1616"
  using sticky_ledger_net_wraps [OF ex_loss_valid(1)] ex_loss_valid by (simp add: int64_range_def)

end
