(* ===== verification/StickyChain.thy ===== *)
theory StickyChain
  imports StickyLedger
begin

text \<open>
  What an accepted chain of records means (\<open>ValidateChain\<close> of \<open>internal/stickydecision/validate.go\<close>): the records of
  each action are a path of one rollout automaton, and an active decision rests on earlier evidence of the chain.
\<close>

section \<open>The rollout automaton\<close>

text \<open>
  The two state machines of an action, qualification and rollout, move together. Their reachable combinations are
  the stages of one automaton, which serves as the specification.
\<close>

datatype stage = Unproposed | Proposed | Shadowing | Canary | InCI | Locally | Suspended | RolledBack | Retired

definition stage_states :: "stage \<Rightarrow> string \<times> string" where
  "stage_states g = (case g of Unproposed \<Rightarrow> (''UNKNOWN'', ''PROPOSED'') | Proposed \<Rightarrow> (''OBSERVING'', ''PROPOSED'')
     | Shadowing \<Rightarrow> (''CONTRACT_QUALIFIED'', ''SHADOW'') | Canary \<Rightarrow> (''QUARANTINE_VALIDATED'', ''CI_CANARY'')
     | InCI \<Rightarrow> (''QUARANTINE_VALIDATED'', ''ACTIVE_IN_CI'') | Locally \<Rightarrow> (''QUARANTINE_VALIDATED'', ''ACTIVE_LOCALLY'')
     | Suspended \<Rightarrow> (''SUSPENDED'', ''SUSPENDED'') | RolledBack \<Rightarrow> (''SUSPENDED'', ''ROLLED_BACK'') | Retired \<Rightarrow> (''REJECTED'', ''ROLLED_BACK''))"

definition advance_stage :: "stage \<Rightarrow> string \<Rightarrow> stage option" where
  "advance_stage g t =
     (if t = ''PROPOSE'' \<and> g = Unproposed then Some Proposed
      else if t = ''BEGIN_SHADOW'' \<and> g = Proposed then Some Shadowing
      else if t = ''BEGIN_CI_CANARY'' \<and> g = Shadowing then Some Canary
      else if t = ''ACTIVATE_IN_CI'' \<and> g = Canary then Some InCI
      else if t = ''ACTIVATE_LOCALLY'' \<and> g = InCI then Some Locally
      else if t = ''SUSPEND'' \<and> g \<in> {Proposed, Shadowing, Canary, InCI, Locally} then Some Suspended
      else if t = ''ROLLBACK'' \<and> g \<in> {Canary, InCI, Locally} then Some RolledBack
      else if t = ''RETIRE'' \<and> g \<in> {Suspended, RolledBack} then Some Retired
      else None)"

fun run_stages :: "stage \<Rightarrow> string list \<Rightarrow> stage option" where
  "run_stages g [] = Some g"
| "run_stages g (t # ts) = (case advance_stage g t of None \<Rightarrow> None | Some g' \<Rightarrow> run_stages g' ts)"

lemma run_stages_snoc: "run_stages g (ts @ [t]) = (case run_stages g ts of None \<Rightarrow> None | Some g' \<Rightarrow> advance_stage g' t)"
  by (induction ts arbitrary: g) (auto split: option.splits)

text \<open>The record of a transition that the validation allows is a step of the automaton.\<close>

lemma transition_advances:
  assumes "transition_allowed a" "stage_states g = (ac_FromQualificationState a, ac_FromRolloutState a)"
    and "ac_Transition a = ''SUSPEND'' \<Longrightarrow> g \<noteq> Unproposed"
  shows "\<exists>g'. advance_stage g (ac_Transition a) = Some g' \<and> stage_states g' = (ac_ToQualificationState a, ac_ToRolloutState a)"
proof -
  let ?t = "ac_Transition a" and ?q = "ac_FromQualificationState a" and ?r = "ac_FromRolloutState a"
    and ?to = "(ac_ToQualificationState a, ac_ToRolloutState a)"
  consider "?t = ''PROPOSE''" "?q = ''UNKNOWN''" "?r = ''PROPOSED''" "?to = stage_states Proposed"
    | "?t = ''BEGIN_SHADOW''" "?q = ''OBSERVING''" "?r = ''PROPOSED''" "?to = stage_states Shadowing"
    | "?t = ''BEGIN_CI_CANARY''" "?q = ''CONTRACT_QUALIFIED''" "?r = ''SHADOW''" "?to = stage_states Canary"
    | "?t = ''ACTIVATE_IN_CI''" "?q = ''QUARANTINE_VALIDATED''" "?r = ''CI_CANARY''" "?to = stage_states InCI"
    | "?t = ''ACTIVATE_LOCALLY''" "?q = ''QUARANTINE_VALIDATED''" "?r = ''ACTIVE_IN_CI''" "?to = stage_states Locally"
    | "?t = ''SUSPEND''" "?q \<noteq> ''REJECTED''" "?q \<noteq> ''SUSPENDED''" "?to = stage_states Suspended"
    | "?t = ''ROLLBACK''" "?q = ''QUARANTINE_VALIDATED''" "?r = ''CI_CANARY'' \<or> ?r = ''ACTIVE_IN_CI'' \<or> ?r = ''ACTIVE_LOCALLY''" "?to = stage_states RolledBack"
    | "?t = ''RETIRE''" "?q = ''SUSPENDED''" "?to = stage_states Retired"
    using assms(1) unfolding transition_allowed_def Let_def stage_states_def by (simp split: if_split_asm)
  then show ?thesis
    by cases (use assms(2,3) in \<open>cases g; simp add: stage_states_def advance_stage_def\<close>)+
qed

text \<open>Paths to the stage of local activation: each stage up to it has one path from the start.\<close>

definition path_to :: "stage \<Rightarrow> string list" where
  "path_to g = take (case g of Proposed \<Rightarrow> 1 | Shadowing \<Rightarrow> 2 | Canary \<Rightarrow> 3 | InCI \<Rightarrow> 4 | Locally \<Rightarrow> 5 | _ \<Rightarrow> 0)
     [''PROPOSE'', ''BEGIN_SHADOW'', ''BEGIN_CI_CANARY'', ''ACTIVATE_IN_CI'', ''ACTIVATE_LOCALLY'']"

lemma advance_into:
  assumes "advance_stage g t = Some g'" "g' \<in> {Unproposed, Proposed, Shadowing, Canary, InCI, Locally}"
  shows "path_to g' = path_to g @ [t] \<and> g \<in> {Unproposed, Proposed, Shadowing, Canary, InCI, Locally}"
  using assms by (auto simp: advance_stage_def path_to_def split: if_splits)

lemma run_stages_path:
  assumes "run_stages Unproposed ts = Some g" "g \<in> {Unproposed, Proposed, Shadowing, Canary, InCI, Locally}"
  shows "ts = path_to g"
  using assms
proof (induction ts arbitrary: g rule: rev_induct)
  case (snoc t ts)
  then obtain g0 where g0: "run_stages Unproposed ts = Some g0" "advance_stage g0 t = Some g"
    by (auto simp: run_stages_snoc split: option.splits)
  with advance_into [OF g0(2) snoc.prems(2)] snoc.IH [OF g0(1)] show ?case by simp
qed (simp add: path_to_def)

section \<open>Histories\<close>

definition action_of :: "Document \<Rightarrow> ActionRecord option" where
  "action_of d = (case dc_body d of ActionBody a \<Rightarrow> Some a | _ \<Rightarrow> None)"

definition history :: "string \<Rightarrow> Document list \<Rightarrow> ActionRecord list" where
  "history i ds = filter (\<lambda>a. ac_ActionID a = i) (List.map_filter action_of ds)"

lemma history_simps [simp]:
  "history i [] = []"
  "history i (ds @ [d]) = history i ds @ (case action_of d of None \<Rightarrow> [] | Some a \<Rightarrow> if ac_ActionID a = i then [a] else [])"
  by (simp_all add: history_def map_filter_simps List.map_filter_def split: option.splits)

definition decoded :: "Document \<Rightarrow> bool" where
  "decoded d = (\<exists>now. body_validate (dc_body d) now = None)"

lemma decoded_action:
  assumes "decoded d" "dc_body d = ActionBody a"
  shows "transition_allowed a" "ac_Transition a = ''PROPOSE'' \<longleftrightarrow> ac_Sequence a = 1"
  using assms by (auto simp: decoded_def body_validate_def validateAction_def ValidateActionTransition_def)

definition indexed :: "('a \<Rightarrow> record_body) \<Rightarrow> (string \<times> 'a) list \<Rightarrow> Document list \<Rightarrow> bool" where
  "indexed body m ds = (\<forall>r x. map_of m r = Some x \<longrightarrow> (\<exists>d\<in>set ds. dc_Digest d = r \<and> dc_body d = body x))"

lemma indexed_intros:
  "indexed body m ds \<Longrightarrow> indexed body m (ds @ [d])"
  "indexed body m ds \<Longrightarrow> dc_body d = body x \<Longrightarrow> indexed body ((dc_Digest d, x) # m) (ds @ [d])"
  by (auto simp: indexed_def)

text \<open>What the variables of the loop say about the documents seen so far.\<close>

definition chain_inv :: "Document list \<Rightarrow> chain_state \<Rightarrow> bool" where
  "chain_inv ds c =
     ((\<forall>i. map_of (ch_lastAction c) i = (if history i ds = [] then None else Some (last (history i ds)))) \<and>
      (\<forall>i. history i ds \<noteq> [] \<longrightarrow> (\<exists>g. run_stages Unproposed (map ac_Transition (history i ds)) = Some g \<and> g \<noteq> Unproposed \<and>
         stage_states g = (ac_ToQualificationState (last (history i ds)), ac_ToRolloutState (last (history i ds))))) \<and>
      indexed TrialBody (ch_trialsByDigest c) ds \<and> indexed ObservationBody (ch_observationsByDigest c) ds)"

lemma advanced_proposed: "advance_stage g t = Some g' \<Longrightarrow> g' \<noteq> Unproposed"
  by (auto simp: advance_stage_def split: if_splits)

lemma chain_action_inv:
  assumes "chain_inv ds c" "chain_action c a = Inr c'" "decoded d" "dc_body d = ActionBody a"
  shows "chain_inv (ds @ [d]) c'"
proof -
  let ?h = "history (ac_ActionID a) ds"
  have act: "action_of d = Some a" using assms(4) by (simp add: action_of_def)
  note a = decoded_action [OF assms(3,4)]
  have c': "c' = c\<lparr>ch_lastAction := (ac_ActionID a, a) # ch_lastAction c\<rparr>"
    using assms(2) by (auto simp: chain_action_def Let_def split: if_splits)
  have prior: "map_of (ch_lastAction c) (ac_ActionID a) = (if ?h = [] then None else Some (last ?h))"
    using assms(1) by (simp add: chain_inv_def)
  have "\<exists>g. run_stages Unproposed (map ac_Transition (?h @ [a])) = Some g \<and> g \<noteq> Unproposed \<and>
      stage_states g = (ac_ToQualificationState a, ac_ToRolloutState a)"
  proof (cases "?h = []")
    case True
    then have "ac_Transition a = ''PROPOSE''" using assms(2) a(2) prior by (auto simp: chain_action_def Let_def split: if_splits)
    with a(1) True show ?thesis by (simp add: transition_allowed_def advance_stage_def stage_states_def)
  next
    case False
    then obtain g where g: "run_stages Unproposed (map ac_Transition ?h) = Some g" "g \<noteq> Unproposed"
      "stage_states g = (ac_ToQualificationState (last ?h), ac_ToRolloutState (last ?h))" using assms(1) unfolding chain_inv_def by blast
    have "stage_states g = (ac_FromQualificationState a, ac_FromRolloutState a)"
      using assms(2) prior False g(3) by (auto simp: chain_action_def Let_def split: if_splits)
    from transition_advances [OF a(1) this] g show ?thesis by (auto simp: run_stages_snoc dest: advanced_proposed)
  qed
  with assms(1) c' act show ?thesis unfolding chain_inv_def by (auto simp: act intro: indexed_intros)
qed

lemma chain_step_inv:
  assumes "chain_inv ds c" "chain_step c d = Inr c'" "decoded d"
  shows "chain_inv (ds @ [d]) c'"
proof -
  obtain c1 where c1: "chain_body c1 d = Inr c'" "chain_inv ds c1"
  proof (rule that)
    show "chain_inv ds (c\<lparr>ch_previousGeneration := dc_StoreGeneration d,
        ch_scope := (if ch_scope c = [] then bi_RepositoryScopeSHA256 (dc_Binding d) else ch_scope c)\<rparr>)"
      using assms(1) by (simp add: chain_inv_def)
    show "chain_body (c\<lparr>ch_previousGeneration := dc_StoreGeneration d,
        ch_scope := (if ch_scope c = [] then bi_RepositoryScopeSHA256 (dc_Binding d) else ch_scope c)\<rparr>) d = Inr c'"
      using assms(2) by (cases "ch_scope c = []") (auto simp: chain_step_def Let_def split: if_splits)
  qed
  show ?thesis
  proof (cases "dc_body d")
    case (ActionBody a)
    then show ?thesis using chain_action_inv [OF c1(2) _ assms(3) ActionBody] c1(1) by (simp add: chain_body_def)
  qed (use c1 in \<open>auto simp: chain_body_def chain_inv_def action_of_def Let_def intro: indexed_intros split: option.splits\<close>)
qed

lemma chain_loop_prefix:
  assumes "chain_loop c (ds @ d # es) = Inr c'" "chain_inv seen c" "\<forall>x\<in>set (ds @ [d]). decoded x"
  shows "\<exists>c1 c2. chain_inv (seen @ ds) c1 \<and> chain_step c1 d = Inr c2 \<and> chain_inv (seen @ ds @ [d]) c2"
  using assms
proof (induction ds arbitrary: c seen)
  case Nil
  then obtain c2 where c2: "chain_step c d = Inr c2" by (auto split: sum.splits)
  with Nil chain_step_inv [of seen c d c2] show ?case by auto
next
  case (Cons x ds)
  then obtain c0 where c0: "chain_step c x = Inr c0" "chain_loop c0 (ds @ d # es) = Inr c'" by (auto split: sum.splits)
  have "chain_inv (seen @ [x]) c0" using chain_step_inv [OF Cons.prems(2) c0(1)] Cons.prems(3) by simp
  from Cons.IH [OF c0(2) this] Cons.prems(3) show ?case by simp
qed

lemma chain_prefix:
  assumes "ValidateChain (ds @ d # es) = None" "\<forall>x\<in>set (ds @ d # es). decoded x"
  obtains c1 c2 where "chain_inv ds c1" "chain_step c1 d = Inr c2" "chain_inv (ds @ [d]) c2"
proof -
  have "chain_inv [] empty_chain" by (simp add: chain_inv_def indexed_def empty_chain_def)
  moreover obtain c' where "chain_loop empty_chain (ds @ d # es) = Inr c'"
    using assms(1) by (auto simp: ValidateChain_def split: sum.splits)
  ultimately show ?thesis using chain_loop_prefix [of empty_chain ds d es c' "[]"] assms(2) that by auto
qed

section \<open>Properties\<close>

text \<open>
  (C20) In an accepted chain of decoded records, the records of one action up to any of them are a run of the rollout
  automaton that ends in the state the last one claims. In particular a record that activates an action locally comes
  after exactly its proposal, its shadow, its canary and its activation in CI, in this order, and never after a
  suspension or a rollback.
\<close>

theorem sticky_chain_lifecycle:
  assumes "ValidateChain (ds @ d # es) = None" "\<forall>x\<in>set (ds @ d # es). decoded x" "dc_body d = ActionBody a"
  shows "\<exists>g. run_stages Unproposed (map ac_Transition (history (ac_ActionID a) (ds @ [d]))) = Some g \<and>
    stage_states g = (ac_ToQualificationState a, ac_ToRolloutState a) \<and>
    (ac_ToRolloutState a = ''ACTIVE_LOCALLY'' \<longrightarrow> map ac_Transition (history (ac_ActionID a) (ds @ [d])) = path_to Locally)"
proof -
  let ?h = "history (ac_ActionID a) (ds @ [d])"
  obtain c1 c2 where "chain_inv (ds @ [d]) c2" using chain_prefix [OF assms(1,2)] by metis
  moreover have h: "?h \<noteq> []" "last ?h = a" using assms(3) by (simp_all add: action_of_def)
  ultimately obtain g where g: "run_stages Unproposed (map ac_Transition ?h) = Some g"
    "stage_states g = (ac_ToQualificationState a, ac_ToRolloutState a)" unfolding chain_inv_def by metis
  have "g = Locally" if "ac_ToRolloutState a = ''ACTIVE_LOCALLY''" using g(2) that by (cases g) (simp_all add: stage_states_def)
  with g run_stages_path [OF g(1)] show ?thesis by auto
qed

text \<open>
  In an accepted chain an active decision is quarantine-validated and cites evidence, and everything it cites is
  an earlier record of the chain: an observation, or a trial that was not inconclusive.
\<close>

theorem sticky_chain_evidence:
  assumes "ValidateChain (ds @ d # es) = None" "\<forall>x\<in>set (ds @ d # es). decoded x" "dc_body d = DecisionBody v" "active_execution v"
  shows "dn_QualificationState v = ''QUARANTINE_VALIDATED'' \<and> dn_EvidenceRefs v \<noteq> [] \<and>
    (\<forall>r\<in>set (dn_EvidenceRefs v). \<exists>e\<in>set ds. dc_Digest e = r \<and>
       ((\<exists>t. dc_body e = TrialBody t \<and> tr_Result t \<noteq> ''INCONCLUSIVE'') \<or> (\<exists>b. dc_body e = ObservationBody b)))"
proof -
  obtain c1 c2 where c: "chain_inv ds c1" "chain_step c1 d = Inr c2" using chain_prefix [OF assms(1,2)] by metis
  let ?c = "c1\<lparr>ch_previousGeneration := dc_StoreGeneration d,
      ch_scope := (if ch_scope c1 = [] then bi_RepositoryScopeSHA256 (dc_Binding d) else ch_scope c1)\<rparr>"
  have same: "evidence_check ?c r = evidence_check c1 r" for r by (auto simp: evidence_check_def split: option.splits)
  from c have "chain_decision ?c v = None"
    using assms(3) by (cases "ch_scope c1 = []") (auto simp: chain_step_def chain_body_def Let_def split: if_splits option.splits)
  then have v: "dn_QualificationState v = ''QUARANTINE_VALIDATED''" "dn_EvidenceRefs v \<noteq> []"
    "\<forall>r\<in>set (dn_EvidenceRefs v). evidence_check c1 r = None"
    using assms(4) by (auto simp: chain_decision_def same)
  have "\<exists>e\<in>set ds. dc_Digest e = r \<and> ((\<exists>t. dc_body e = TrialBody t \<and> tr_Result t \<noteq> ''INCONCLUSIVE'') \<or> (\<exists>b. dc_body e = ObservationBody b))"
    if r: "r \<in> set (dn_EvidenceRefs v)" for r
  proof (cases "map_of (ch_trialsByDigest c1) r")
    case None
    then obtain b where "map_of (ch_observationsByDigest c1) r = Some b" using bspec [OF v(3) r] by (auto simp: evidence_check_def)
    then show ?thesis using c(1) unfolding chain_inv_def indexed_def by blast
  next
    case (Some t)
    then have "tr_Result t \<noteq> ''INCONCLUSIVE''" using bspec [OF v(3) r] by (simp add: evidence_check_def)
    with Some show ?thesis using c(1) unfolding chain_inv_def indexed_def by blast
  qed
  with v show ?thesis by blast
qed

text \<open>A chain that observes one build, carries an action through its rollout and activates it.\<close>

definition ex_hex :: "char \<Rightarrow> string" where "ex_hex c = replicate 64 c"

definition ex_time :: string where "ex_time = ''2026-01-02T00:00:00Z''"

definition ex_observation :: Observation where
  "ex_observation = \<lparr>ov_SchemaVersion = ObservationSchemaVersion, ov_RecordType = ObservationRecordType, ov_ObservationID = ''observation-1'',
     ov_StoreGeneration = 1, ov_IdempotencyKey = ex_hex (CHR ''1''), ov_Binding = ex_sticky_binding, ov_ObservationKind = ''REQUESTED_BUILD'',
     ov_Outcome = ''SUCCESS'', ov_WallTimeMs = 1000, ov_OutputDigest = [], ov_EvidenceQuality = ''EXACT'', ov_RecordedAt = ex_time\<rparr>"

definition ex_action :: "64 word \<Rightarrow> string \<Rightarrow> string \<times> string \<Rightarrow> string \<times> string \<Rightarrow> ActionRecord" where
  "ex_action n t from to = \<lparr>ac_SchemaVersion = ActionSchemaVersion, ac_RecordType = ActionRecordType, ac_ActionID = ''action-1'',
     ac_StoreGeneration = n + 1, ac_IdempotencyKey = ex_hex (CHR ''2''), ac_Sequence = n, ac_Transition = t,
     ac_FromQualificationState = fst from, ac_ToQualificationState = fst to, ac_FromRolloutState = snd from, ac_ToRolloutState = snd to,
     ac_Binding = ex_sticky_binding, ac_DecisionDigest = [], ac_EvidenceRefs = [ex_hex (CHR ''0'')], ac_OccurredAt = ex_time\<rparr>"

definition ex_active :: Decision where
  "ex_active = \<lparr>dn_SchemaVersion = DecisionSchemaVersion, dn_RecordType = DecisionRecordType, dn_DecisionID = ''decision-1'',
     dn_StoreGeneration = 7, dn_IdempotencyKey = ex_hex (CHR ''3''), dn_Binding = ex_sticky_binding, dn_ActionID = ''action-1'', dn_ActionGeneration = 6,
     dn_QualificationState = ''QUARANTINE_VALIDATED'', dn_RolloutState = ''ACTIVE_LOCALLY'', dn_ExecutionDecision = ExecutionActiveRuntime,
     dn_PolicyDigest = ex_hex (CHR ''4''), dn_CacheContractDigest = ex_hex (CHR ''5''), dn_EvidenceRefs = [ex_hex (CHR ''0'')],
     dn_DecisionDigest = ex_hex (CHR ''6''), dn_IssuedAt = ex_time, dn_ExpiresAt = ''2026-02-02T00:00:00Z'',
     dn_Authentication = \<lparr>an_Algorithm = ''Ed25519'', an_KeyID = ''owner'', an_Signature = ''sig''\<rparr>\<rparr>"

definition ex_document_of :: "char \<Rightarrow> record_body \<Rightarrow> StickyRecords.Document" where
  "ex_document_of c b = document_of [c] (ex_hex c) b"

definition ex_rollout :: "StickyRecords.Document list" where
  "ex_rollout = [ex_document_of (CHR ''0'') (ObservationBody ex_observation),
     ex_document_of (CHR ''1'') (ActionBody (ex_action 1 ''PROPOSE'' (stage_states Unproposed) (stage_states Proposed))),
     ex_document_of (CHR ''2'') (ActionBody (ex_action 2 ''BEGIN_SHADOW'' (stage_states Proposed) (stage_states Shadowing))),
     ex_document_of (CHR ''3'') (ActionBody (ex_action 3 ''BEGIN_CI_CANARY'' (stage_states Shadowing) (stage_states Canary))),
     ex_document_of (CHR ''4'') (ActionBody (ex_action 4 ''ACTIVATE_IN_CI'' (stage_states Canary) (stage_states InCI)))]"

definition ex_local :: ActionRecord where
  "ex_local = ex_action 5 ''ACTIVATE_LOCALLY'' (stage_states InCI) (stage_states Locally)"

definition ex_chain :: "StickyRecords.Document list" where
  "ex_chain = ex_rollout @ [ex_document_of (CHR ''5'') (ActionBody ex_local), ex_document_of (CHR ''6'') (DecisionBody ex_active)]"

lemma ex_chain_valid: "ValidateChain ex_chain = None"
  by code_simp

lemma ex_chain_decoded: "\<forall>x\<in>set ex_chain. decoded x"
proof -
  have "list_all (\<lambda>x. body_validate (dc_body x) 0 = None) ex_chain" by code_simp
  then show ?thesis by (auto simp: list_all_iff decoded_def)
qed

theorem sticky_chain_lifecycle_witness:
  "map ac_Transition (history ''action-1'' (ex_rollout @ [ex_document_of (CHR ''5'') (ActionBody ex_local)])) = path_to Locally"
proof -
  have body: "dc_body (ex_document_of (CHR ''5'') (ActionBody ex_local)) = ActionBody ex_local"
    "ac_ToRolloutState ex_local = ''ACTIVE_LOCALLY''" "ac_ActionID ex_local = ''action-1''"
    by (simp_all add: ex_document_of_def document_of_def ex_local_def ex_action_def stage_states_def)
  from sticky_chain_lifecycle [OF ex_chain_valid [unfolded ex_chain_def append_Cons append_Nil] ex_chain_decoded [unfolded ex_chain_def append_Cons append_Nil] body(1)] body(2,3)
  show ?thesis by auto
qed

theorem sticky_chain_evidence_witness:
  "\<exists>e\<in>set ex_chain. dc_Digest e = ex_hex (CHR ''0'') \<and> dn_QualificationState ex_active = ''QUARANTINE_VALIDATED''"
proof -
  have chain: "ex_chain = (ex_rollout @ [ex_document_of (CHR ''5'') (ActionBody ex_local)]) @ ex_document_of (CHR ''6'') (DecisionBody ex_active) # []"
    by (simp add: ex_chain_def)
  have body: "dc_body (ex_document_of (CHR ''6'') (DecisionBody ex_active)) = DecisionBody ex_active" "active_execution ex_active"
    by (simp_all add: ex_document_of_def document_of_def ex_active_def active_execution_def)
  have "ex_hex (CHR ''0'') \<in> set (dn_EvidenceRefs ex_active)" by (simp add: ex_active_def)
  with sticky_chain_evidence [OF ex_chain_valid [unfolded chain] ex_chain_decoded [unfolded chain] body] show ?thesis
    unfolding chain by (metis Un_iff set_append)
qed

end
