(* ===== verification/StickyFacts.thy ===== *)
theory StickyFacts
  imports StickyStore StickyChain Lifecycle
begin

text \<open>
  Facts about the local decision store of \<open>internal/stickydecision\<close>: what decoding and verification establish, how they
  depend on the clock, and the steps of the store with the order they respect.
\<close>

section \<open>Decoding\<close>

lemma DecodeDocument_Inr:
  assumes "DecodeDocument cx raw now = Inr d"
  obtains b where "cx_canonicalize cx raw = Some raw" "d = document_of raw (digestBytes cx raw) b" "body_validate b now = None"
    "\<And>v. b = DecisionBody v \<Longrightarrow> cx_decision cx raw = Some v"
  using assms unfolding DecodeDocument_def equalCanonical_def decode_body_def Let_def
  by (auto split: if_splits option.splits)

lemma document_of_simps [simp]:
  "dc_Raw (document_of raw dig b) = raw" "dc_Digest (document_of raw dig b) = dig" "dc_body (document_of raw dig b) = b"
  by (simp_all add: document_of_def Let_def split: record_body.splits)

lemma document_decision_of [simp]:
  "document_decision (document_of raw dig b) = (case b of DecisionBody v \<Rightarrow> Some v | _ \<Rightarrow> None)"
  by (simp add: document_decision_def)

lemma DecodeDocument_raw: "DecodeDocument cx raw now = Inr d \<Longrightarrow> dc_Raw d = raw \<and> dc_Digest d = digestBytes cx raw"
  by (erule DecodeDocument_Inr) simp

lemma DecodeDocument_decision:
  assumes "DecodeDocument cx raw now = Inr d" "document_decision d = Some v"
  shows "cx_decision cx raw = Some v" "validateDecision v now = None" "dc_Binding d = dn_Binding v" "dc_ExpiresAt d = mustParseTime (dn_ExpiresAt v)"
proof -
  from assms obtain b where b: "d = document_of raw (digestBytes cx raw) b" "body_validate b now = None"
    "\<And>w. b = DecisionBody w \<Longrightarrow> cx_decision cx raw = Some w" by (elim DecodeDocument_Inr) blast
  with assms(2) have "b = DecisionBody v" by (cases b) auto
  with b show "cx_decision cx raw = Some v" "validateDecision v now = None" "dc_Binding d = dn_Binding v"
    "dc_ExpiresAt d = mustParseTime (dn_ExpiresAt v)" by (simp_all add: body_validate_def document_of_def)
qed

lemma DecodeDocument_generation:
  assumes "DecodeDocument cx raw now = Inr d"
  shows "dc_StoreGeneration d \<noteq> 0"
proof -
  from assms obtain b where "d = document_of raw (digestBytes cx raw) b" "body_validate b now = None" by (elim DecodeDocument_Inr) blast
  then show ?thesis by (cases b) (auto simp: document_of_def body_validate_def validateAction_def validateObservation_def
    validateTrial_def validateDecision_def validateLedger_def validateEnvelope_def Let_def)
qed

section \<open>The clock\<close>

text \<open>A record that was valid stays valid: only the expiry of a decision depends on the passing of time.\<close>

lemma envelope_later:
  assumes "validateEnvelope schema rt i g k b occurred now = None" "0 < now" "now \<le> now'"
  shows "validateEnvelope schema rt i g k b occurred now' = None"
  using assms by (auto simp: validateEnvelope_def)

definition unexpired :: "record_body \<Rightarrow> int \<Rightarrow> bool" where
  "unexpired b now = (case b of DecisionBody v \<Rightarrow> now < mustParseTime (dn_ExpiresAt v) | _ \<Rightarrow> True)"

lemma body_later:
  assumes "body_validate b now = None" "0 < now" "now \<le> now'" "unexpired b now'"
  shows "body_validate b now' = None"
  using assms by (cases b) (auto simp: body_validate_def unexpired_def validateAction_def validateObservation_def validateTrial_def
    validateDecision_def validateLedger_def Let_def intro: envelope_later)

lemma DecodeDocument_later:
  assumes "DecodeDocument cx raw now = Inr d" "0 < now" "now \<le> now'" "unexpired (dc_body d) now'"
  shows "DecodeDocument cx raw now' = Inr d"
proof -
  from assms(1) have "body_validate (dc_body d) now = None" by (elim DecodeDocument_Inr) simp
  from body_later [OF this assms(2-4)] assms(1) show ?thesis
    unfolding DecodeDocument_def by (auto split: sum.splits option.splits if_splits)
qed

section \<open>Verification\<close>

text \<open>The owner's signature over the unsigned form of a decision, under a key of the registry.\<close>

definition sticky_signed :: "sticky_codec \<Rightarrow> (string \<times> string) list \<Rightarrow> Decision \<Rightarrow> bool" where
  "sticky_signed cx keys d = (\<exists>key sig. map_of keys (an_KeyID (dn_Authentication d)) = Some key \<and> length key = 32 \<and>
     UnsignedDecisionDigest cx d = Some (dn_DecisionDigest d) \<and> cx_base64 cx (an_Signature (dn_Authentication d)) = Some sig \<and>
     length sig = 64 \<and> cx_ed25519 cx key (signature_payload (an_KeyID (dn_Authentication d)) (dn_DecisionDigest d)) sig)"

lemma VerifyDecision_Inr:
  "VerifyDecision cx raw keys epoch now = Inr v \<longleftrightarrow>
     (\<exists>d. DecodeDocument cx raw now = Inr d \<and> document_decision d = Some v) \<and> bi_RevocationEpoch (dn_Binding v) = epoch \<and> sticky_signed cx keys v"
  unfolding VerifyDecision_def sticky_signed_def
  by (auto split: sum.splits option.splits if_splits dest: DecodeDocument_raw)

lemma verify_stored_None:
  assumes "verify_stored cx st d now epoch = None" "DecodeDocument cx raw t = Inr d" "document_decision d = Some v" "ks_publicKeys st \<noteq> []"
  shows "sticky_signed cx (ks_publicKeys st) v" "validateDecision v now = None"
proof -
  have raw: "dc_Raw d = raw" using DecodeDocument_raw [OF assms(2)] by simp
  obtain w where w: "VerifyDecision cx raw (ks_publicKeys st) epoch now = Inr w"
    using assms(1,3,4) raw by (auto simp: verify_stored_def split: sum.splits)
  then obtain d' where d': "DecodeDocument cx raw now = Inr d'" "document_decision d' = Some w" "sticky_signed cx (ks_publicKeys st) w"
    by (auto simp: VerifyDecision_Inr)
  have "w = v" using DecodeDocument_decision(1) [OF d'(1,2)] DecodeDocument_decision(1) [OF assms(2,3)] by simp
  with d' DecodeDocument_decision(2) [OF d'(1,2)] show "sticky_signed cx (ks_publicKeys st) v" "validateDecision v now = None" by simp_all
qed

lemma verify_stored_later:
  assumes "verify_stored cx st d now epoch = None" "DecodeDocument cx raw t = Inr d" "0 < now" "now \<le> now'" "unexpired (dc_body d) now'"
  shows "verify_stored cx st d now' epoch = None"
proof (cases "document_decision d = None \<or> ks_publicKeys st = []")
  case False
  then obtain v where v: "document_decision d = Some v" by auto
  have raw: "dc_Raw d = raw" using DecodeDocument_raw [OF assms(2)] by simp
  obtain w where "VerifyDecision cx raw (ks_publicKeys st) epoch now = Inr w"
    using assms(1) False raw by (auto simp: verify_stored_def split: sum.splits)
  then obtain d' where d': "DecodeDocument cx raw now = Inr d'" "document_decision d' = Some w" "bi_RevocationEpoch (dn_Binding w) = epoch"
    "sticky_signed cx (ks_publicKeys st) w" by (auto simp: VerifyDecision_Inr)
  have "w = v" using DecodeDocument_decision(1) [OF d'(1,2)] DecodeDocument_decision(1) [OF assms(2) v] by simp
  then have "unexpired (dc_body d') now'" using assms(5) d'(2) v
    by (auto simp: unexpired_def document_decision_def split: record_body.splits)
  from DecodeDocument_later [OF d'(1) assms(3,4) this] d' have "VerifyDecision cx raw (ks_publicKeys st) epoch now' = Inr w"
    by (auto simp: VerifyDecision_Inr)
  with raw show ?thesis by (simp add: verify_stored_def)
qed (simp add: verify_stored_def)

section \<open>Reading the head\<close>

lemma loadHead_Inr:
  assumes "loadHeadUnlocked cx st f now = Inr s"
  obtains raw where "sf_head f = Some (Canonical (hs_Head s))" "head_valid st (hs_Head s)"
    "map_of (sf_records f) (recordFilename (sh_Generation (hs_Head s)) (sh_RecordDigest (hs_Head s))) = Some raw"
    "DecodeDocument cx raw now = Inr (hs_Document s)" "hs_HeadDigest s = digestBytes cx (cx_encodeHead cx (hs_Head s))"
    "dc_Digest (hs_Document s) = sh_RecordDigest (hs_Head s)" "hs_RecordDigest s = sh_RecordDigest (hs_Head s)"
  using assms unfolding loadHeadUnlocked_def by (auto split: stored.splits if_splits option.splits sum.splits)

lemma loadHead_NotFound: "loadHeadUnlocked cx st f now = Inl ErrNotFound \<Longrightarrow> sf_head f = None"
  unfolding loadHeadUnlocked_def by (auto split: stored.splits if_splits option.splits sum.splits)

lemma current_Inr:
  assumes "current cx st f lock loaded verified = Inr s"
  shows "lock = Held" "loadHeadUnlocked cx st f loaded = Inr s"
    "loadRevocationUnlocked st f = Inr (bi_RevocationEpoch (dc_Binding (hs_Document s)))"
    "verify_stored cx st (hs_Document s) verified (bi_RevocationEpoch (dc_Binding (hs_Document s))) = None"
  using assms unfolding current_def by (auto split: lock_outcome.splits sum.splits if_splits option.splits)

section \<open>Writing\<close>

lemma writeImmutable_kept: "map_of files n = Some c \<Longrightarrow> map_of (fst (writeImmutable files name x torn w)) n = Some c"
  by (auto simp: writeImmutable_def split: disk_write.splits)

lemma writeImmutable_new: "writeImmutable files name x torn w = (files', Wrote) \<Longrightarrow> map_of files' name = Some x"
  by (auto simp: writeImmutable_def split: disk_write.splits if_splits)

lemma writeImmutable_exists: "writeImmutable files name x torn w = (files', AlreadyExists) \<Longrightarrow> files' = files \<and> map_of files name \<noteq> None"
  by (auto simp: writeImmutable_def split: disk_write.splits if_splits)

lemma writeImmutable_present:
  assumes "writeImmutable files name x torn w = (files', status)" "status \<noteq> WriteFailed" "status = AlreadyExists \<longrightarrow> map_of files name = Some x"
  shows "map_of files' name = Some x"
  using assms by (auto simp: writeImmutable_def split: disk_write.splits if_splits)

definition files_kept :: "(string \<times> 'c) list \<Rightarrow> (string \<times> 'c) list \<Rightarrow> bool" where
  "files_kept files files' = (\<forall>n c. map_of files n = Some c \<longrightarrow> map_of files' n = Some c)"

lemma files_kept_refl: "files_kept files files"
  by (simp add: files_kept_def)

lemma files_kept_trans: "files_kept a b \<Longrightarrow> files_kept b c \<Longrightarrow> files_kept a c"
  by (simp add: files_kept_def)

lemma writeImmutable_files: "writeImmutable files name x torn w = (files', status) \<Longrightarrow> files_kept files files'"
  using writeImmutable_kept [of files _ _ name x torn w] by (auto simp: files_kept_def)

text \<open>The effect of the three writes: files are only added, and a new head points to a record that is on disk.\<close>

lemma publish_effect:
  assumes "publish cx st f d epoch updatedAt key rd disk = (f', out)"
  shows "files_kept (sf_records f) (sf_records f')" "files_kept (sf_requests f) (sf_requests f')" "sf_revocation f' = sf_revocation f"
    "sf_cache f' = sf_cache f"
    "sf_head f' = sf_head f \<or> (sf_head f' = Some (Canonical (new_head st d epoch updatedAt)) \<and>
       map_of (sf_records f') (recordFilename (dc_StoreGeneration d) (dc_Digest d)) = Some (dc_Raw d))"
proof -
  obtain records status where w1: "writeImmutable (sf_records f) (recordFilename (dc_StoreGeneration d) (dc_Digest d)) (dc_Raw d)
      (\<lambda>n. take n (dc_Raw d)) (dk_record disk) = (records, status)" by fastforce
  let ?r = "head_result cx d (new_head st d epoch updatedAt)"
  obtain requests written where w2: "writeImmutable (sf_requests f) (key @ ''.json'') (Canonical (new_request key rd ?r)) (\<lambda>n. Garbage)
      (dk_request disk) = (requests, written)" by fastforce
  show "files_kept (sf_records f) (sf_records f')" "files_kept (sf_requests f) (sf_requests f')" "sf_revocation f' = sf_revocation f"
    "sf_cache f' = sf_cache f"
    using assms writeImmutable_files [OF w1] writeImmutable_files [OF w2]
    by (auto simp: publish_def w1 w2 Let_def files_kept_refl split: if_splits)
  have "map_of records (recordFilename (dc_StoreGeneration d) (dc_Digest d)) = Some (dc_Raw d)"
    if "status \<noteq> WriteFailed" "status = AlreadyExists \<longrightarrow> map_of (sf_records f) (recordFilename (dc_StoreGeneration d) (dc_Digest d)) = Some (dc_Raw d)"
    using writeImmutable_present [OF w1 that] .
  then show "sf_head f' = sf_head f \<or> (sf_head f' = Some (Canonical (new_head st d epoch updatedAt)) \<and>
       map_of (sf_records f') (recordFilename (dc_StoreGeneration d) (dc_Digest d)) = Some (dc_Raw d))"
    using assms by (auto simp: publish_def w1 w2 Let_def split: if_splits)
qed

lemma publish_Inr:
  assumes "publish cx st f d epoch updatedAt key rd disk = (f', Inr r)" "map_of (sf_requests f) (key @ ''.json'') = None"
  shows "r = head_result cx d (new_head st d epoch updatedAt)" "sf_head f' = Some (Canonical (new_head st d epoch updatedAt))"
    "map_of (sf_records f') (recordFilename (dc_StoreGeneration d) (dc_Digest d)) = Some (dc_Raw d)"
    "map_of (sf_requests f') (key @ ''.json'') = Some (Canonical (new_request key rd r))"
proof -
  obtain records status where w1: "writeImmutable (sf_records f) (recordFilename (dc_StoreGeneration d) (dc_Digest d)) (dc_Raw d)
      (\<lambda>n. take n (dc_Raw d)) (dk_record disk) = (records, status)" by fastforce
  let ?r = "head_result cx d (new_head st d epoch updatedAt)"
  obtain requests written where w2: "writeImmutable (sf_requests f) (key @ ''.json'') (Canonical (new_request key rd ?r)) (\<lambda>n. Garbage)
      (dk_request disk) = (requests, written)" by fastforce
  have e: "status \<noteq> WriteFailed" "status = AlreadyExists \<longrightarrow> map_of (sf_records f) (recordFilename (dc_StoreGeneration d) (dc_Digest d)) = Some (dc_Raw d)"
    "written \<noteq> WriteFailed" "r = ?r"
    "f' = f\<lparr>sf_records := records, sf_head := Some (Canonical (new_head st d epoch updatedAt)), sf_requests := requests\<rparr>"
    using assms(1) by (auto simp: publish_def w1 w2 Let_def split: if_splits)
  then show "r = ?r" "sf_head f' = Some (Canonical (new_head st d epoch updatedAt))" by simp_all
  show "map_of (sf_records f') (recordFilename (dc_StoreGeneration d) (dc_Digest d)) = Some (dc_Raw d)"
    using writeImmutable_present [OF w1 e(1,2)] e(5) by simp
  have "written = Wrote" using e(3) assms(2) w2 by (cases written) (auto dest: writeImmutable_exists)
  with w2 e(4,5) writeImmutable_new show "map_of (sf_requests f') (key @ ''.json'') = Some (Canonical (new_request key rd r))" by fastforce
qed

section \<open>Appending\<close>

text \<open>An append has passed every check of the source when it reaches the disk or replays.\<close>

definition admitted :: "sticky_codec \<Rightarrow> LocalStore \<Rightarrow> store_files \<Rightarrow> string \<Rightarrow> 64 word \<Rightarrow> string \<Rightarrow> string \<Rightarrow> append_clock \<Rightarrow> Document \<Rightarrow> bool" where
  "admitted cx st f raw g hdig key ck d =
     (raw \<noteq> [] \<and> int (length raw) \<le> maximumRecordBytes \<and> digestPattern key \<and> DecodeDocument cx raw (cl_decode ck) = Inr d \<and>
      validateAppendIdentity d (ks_scope st) g hdig key = None \<and> loadRevocationUnlocked st f = Inr (bi_RevocationEpoch (dc_Binding d)) \<and>
      verify_stored cx st d (cl_verify ck) (bi_RevocationEpoch (dc_Binding d)) = None)"

lemma Append_cases:
  assumes "Append cx st f raw g hdig key lock ck disk = (f', out)"
  obtains (failed) e where "f' = f" "out = Inl e"
    | (replayed) d r where "lock = Held" "f' = f" "admitted cx st f raw g hdig key ck d" "out = Inr ((lr_Result r)\<lparr>ap_Replayed := True\<rparr>)"
        "map_of (sf_requests f) (key @ ''.json'') \<in> {Some (Canonical r), Some (NonCanonical r)}"
        "lr_RequestDigest r = appendRequestDigest cx raw g hdig key" "lr_IdempotencyKey r = key"
    | (published) d where "lock = Held" "admitted cx st f raw g hdig key ck d" "map_of (sf_requests f) (key @ ''.json'') = None"
        "head_precondition cx st f d g hdig (bi_RevocationEpoch (dc_Binding d)) (cl_load ck) = None"
        "publish cx st f d (bi_RevocationEpoch (dc_Binding d)) (cl_updatedAt ck) key (appendRequestDigest cx raw g hdig key) disk = (f', out)"
proof -
  show ?thesis
  proof (cases "raw = [] \<or> int (length raw) > maximumRecordBytes \<or> \<not> digestPattern key \<or> lock \<noteq> Held")
    case True
    then show ?thesis using failed assms by (auto simp: Append_def split: sum.splits option.splits lock_outcome.splits if_splits)
  next
    case False
    show ?thesis
    proof (cases "DecodeDocument cx raw (cl_decode ck)")
      case (Inl e)
      then show ?thesis using failed assms False by (auto simp: Append_def)
    next
      case (Inr d)
      let ?e = "bi_RevocationEpoch (dc_Binding d)"
      show ?thesis
      proof (cases "validateAppendIdentity d (ks_scope st) g hdig key = None \<and> loadRevocationUnlocked st f = Inr ?e \<and>
          verify_stored cx st d (cl_verify ck) ?e = None")
        case bad: False
        then show ?thesis using failed assms False Inr
          by (auto simp: Append_def append_locked_def split: option.splits sum.splits if_splits)
      next
        case ok: True
        then have adm: "admitted cx st f raw g hdig key ck d" using False Inr by (simp add: admitted_def)
        have locked: "append_locked cx st f raw d g hdig key ck disk = (f', out)" using assms False Inr ok by (simp add: Append_def)
        show ?thesis
        proof (cases "map_of (sf_requests f) (key @ ''.json'')")
          case None
          then show ?thesis using locked ok adm failed published False
            by (auto simp: append_locked_def Let_def split: option.splits)
        next
          case (Some x)
          then show ?thesis using locked ok adm failed replayed False
            by (cases x) (auto simp: append_locked_def Let_def split: if_splits)
        qed
      qed
    qed
  qed
qed

lemma head_precondition_None:
  assumes "head_precondition cx st f d g hdig epoch now = None"
  shows "dc_StoreGeneration d = g + 1"
    "sf_head f = Some x \<Longrightarrow> \<exists>h. x = Canonical h \<and> sh_Generation h = g \<and> hdig = digestBytes cx (cx_encodeHead cx h)"
    "sf_head f = None \<Longrightarrow> g = 0 \<and> hdig = []"
proof -
  show "dc_StoreGeneration d = g + 1"
    using assms by (auto simp: head_precondition_def split: sum.splits if_splits)
  show "\<exists>h. x = Canonical h \<and> sh_Generation h = g \<and> hdig = digestBytes cx (cx_encodeHead cx h)" if x: "sf_head f = Some x"
  proof (cases "loadHeadUnlocked cx st f now")
    case (Inl e)
    with assms loadHead_NotFound [of cx st f now] x show ?thesis by (auto simp: head_precondition_def split: if_splits)
  next
    case (Inr s)
    from loadHead_Inr [OF Inr] have "sf_head f = Some (Canonical (hs_Head s))" "hs_HeadDigest s = digestBytes cx (cx_encodeHead cx (hs_Head s))"
      by metis+
    with assms x Inr show ?thesis by (auto simp: head_precondition_def)
  qed
  show "g = 0 \<and> hdig = []" if "sf_head f = None"
  proof -
    from that have "loadHeadUnlocked cx st f now = Inl ErrNotFound" by (simp add: loadHeadUnlocked_def)
    with assms show ?thesis by (simp add: head_precondition_def)
  qed
qed

section \<open>Selection\<close>

lemma native_simps [simp]: "se_Status native_selection = SelectionNative" "se_Decision native_selection = ExecutionNativeNoop"
  by (simp_all add: native_selection_def)

lemma finish_simps [simp]: "se_Status (snd (finish sched x r)) = se_Status x" "se_Decision (snd (finish sched x r)) = se_Decision x"
  by (simp_all add: finish_def split: prod.splits)

lemma select_snapshot_active:
  assumes "se_Status (snd (select_snapshot sched expected snap)) = SelectionActive"
  obtains d where "document_decision (hs_Document snap) = Some d" "dn_Binding d = expected" "active_execution d"
    "se_Decision (snd (select_snapshot sched expected snap)) = dn_ExecutionDecision d"
proof (cases "document_decision (hs_Document snap)")
  case (Some d)
  with assms that [OF Some] show ?thesis by (auto simp: select_snapshot_def Let_def split: if_splits)
qed (use assms in \<open>simp add: select_snapshot_def\<close>)

lemma SelectLocal_active:
  assumes "SelectLocal cx lstat f dir scope expected keys sched lock loaded verified = (sched', s)" "se_Status s = SelectionActive"
  shows "\<exists>st snap. OpenLocalReadOnly lstat dir scope keys = Inr st \<and> keys \<noteq> [] \<and> current cx st f lock loaded verified = Inr snap \<and>
    select_snapshot sched expected snap = (sched', s)"
proof -
  have "finish sched native_selection r \<noteq> (sched', s)" for r
    using assms(2) by (metis SelectionStatus.distinct(1) finish_simps(1) native_simps(1) snd_conv)
  with assms(1) show ?thesis unfolding SelectLocal_def by (auto split: if_splits sum.splits)
qed

end
