(* ===== verification/StickyProps.thy ===== *)
theory StickyProps
  imports StickyFacts
begin

text \<open>
  The local decision store over all sequences of operations, with failing and torn writes: what it never changes,
  which decisions a selection may activate, and what an append promises to a later reader or to its own retry.
\<close>

section \<open>Runs of the store\<close>

text \<open>
  Writers hold the exclusive lock, so the operations do not overlap. An operation that fails half-way leaves the files
  it has written, which is also what a crash leaves. The formatted time is a valid UTC timestamp, and the epoch of a
  revocation is an \<open>int64\<close>.
\<close>

inductive sticky_step :: "sticky_codec \<Rightarrow> LocalStore \<Rightarrow> store_files \<Rightarrow> store_files \<Rightarrow> bool" for cx st where
  step_append: "ValidUTCTimestamp (cl_updatedAt ck) \<Longrightarrow> Append cx st f raw g hdig key lock ck disk = (f', out) \<Longrightarrow> sticky_step cx st f f'"
| step_revoke: "ValidUTCTimestamp updatedAt \<Longrightarrow> epoch \<le> 9223372036854775807 \<Longrightarrow> Revoke st f epoch lock updatedAt written = (f', out) \<Longrightarrow> sticky_step cx st f f'"
| step_cache: "PutCacheObject cx f key raw w = (f', out') \<Longrightarrow> sticky_step cx st f f'"

inductive_cases sticky_stepE: "sticky_step cx st f f'"

text \<open>
  The order of the files: immutable files stay, the generation of the head never decreases, and neither does the epoch
  up to the largest that is stored exactly. A revocation file that does not decode stays so.
\<close>

definition epoch_above :: "sticky_error + int \<Rightarrow> sticky_error + int \<Rightarrow> bool" where
  "epoch_above r r' \<longleftrightarrow> (\<forall>e. r = Inr e \<longrightarrow> r' = Inl ErrCorrupt \<or> (\<exists>e'\<ge>min e maximumExactInteger. r' = Inr e')) \<and>
     (r = Inl ErrCorrupt \<longrightarrow> r' = Inl ErrCorrupt)"

lemma epoch_above_refl [simp]: "epoch_above r r"
  by (auto simp: epoch_above_def)

lemma epoch_above_trans:
  assumes "epoch_above a b" "epoch_above b c"
  shows "epoch_above a c"
proof -
  have "c = Inl ErrCorrupt \<or> (\<exists>e'\<ge>min e maximumExactInteger. c = Inr e')" if "a = Inr e" for e
  proof -
    from assms(1) that consider "b = Inl ErrCorrupt" | e1 where "b = Inr e1" "min e maximumExactInteger \<le> e1"
      unfolding epoch_above_def by blast
    then show ?thesis
    proof cases
      case 2
      then have "c = Inl ErrCorrupt \<or> (\<exists>e'\<ge>min e1 maximumExactInteger. c = Inr e')" using assms(2) unfolding epoch_above_def by blast
      moreover have "min e maximumExactInteger \<le> min e1 maximumExactInteger" using 2(2) by simp
      ultimately show ?thesis using order_trans by blast
    qed (use assms(2) in \<open>simp add: epoch_above_def\<close>)
  qed
  with assms show ?thesis by (simp add: epoch_above_def)
qed

definition store_above :: "LocalStore \<Rightarrow> store_files \<Rightarrow> store_files \<Rightarrow> bool" where
  "store_above st f f' \<longleftrightarrow> files_kept (sf_records f) (sf_records f') \<and> files_kept (sf_requests f) (sf_requests f') \<and>
     epoch_above (loadRevocationUnlocked st f) (loadRevocationUnlocked st f') \<and>
     (\<forall>h. sf_head f = Some (Canonical h) \<longrightarrow> (\<exists>h'. sf_head f' = Some (Canonical h') \<and> (h' = h \<or> sh_Generation h < sh_Generation h')))"

lemma store_above_refl: "store_above st f f"
  by (auto simp: store_above_def files_kept_refl)

lemma store_above_trans:
  assumes ab: "store_above st a b" and bc: "store_above st b c"
  shows "store_above st a c"
  unfolding store_above_def
proof (intro conjI allI impI)
  show "files_kept (sf_records a) (sf_records c)" "files_kept (sf_requests a) (sf_requests c)"
    using assms files_kept_trans unfolding store_above_def by blast+
  show "epoch_above (loadRevocationUnlocked st a) (loadRevocationUnlocked st c)"
    using ab bc epoch_above_trans unfolding store_above_def by blast
  show "\<exists>h'. sf_head c = Some (Canonical h') \<and> (h' = h \<or> sh_Generation h < sh_Generation h')" if h: "sf_head a = Some (Canonical h)" for h
  proof -
    obtain h1 where "sf_head b = Some (Canonical h1)" "h1 = h \<or> sh_Generation h < sh_Generation h1"
      using ab h unfolding store_above_def by blast
    moreover then obtain h2 where "sf_head c = Some (Canonical h2)" "h2 = h1 \<or> sh_Generation h1 < sh_Generation h2"
      using bc unfolding store_above_def by blast
    ultimately show ?thesis by auto
  qed
qed

lemma revocation_only: "sf_revocation f' = sf_revocation f \<Longrightarrow> loadRevocationUnlocked st f' = loadRevocationUnlocked st f"
  by (simp add: loadRevocationUnlocked_def)

lemma next_generation: "g + 1 \<noteq> 0 \<Longrightarrow> g < g + 1" for g :: "64 word"
  using unatSuc [of g] by (simp add: word_less_nat_alt add.commute)

lemma append_above:
  assumes "Append cx st f raw g hdig key lock ck disk = (f', out)"
  shows "store_above st f f'"
  using assms
proof (cases rule: Append_cases)
  case (published d)
  note eff = publish_effect [OF published(5)] and pre = head_precondition_None [OF published(4)]
  have gen: "g + 1 \<noteq> 0" using published(2) pre(1) DecodeDocument_generation by (fastforce simp: admitted_def)
  have "\<exists>h'. sf_head f' = Some (Canonical h') \<and> (h' = h \<or> sh_Generation h < sh_Generation h')" if h: "sf_head f = Some (Canonical h)" for h
  proof -
    have "sh_Generation h < sh_Generation (new_head st d e t)" for e t
      using pre(2) [OF h] pre(1) next_generation [OF gen] by (simp add: new_head_def)
    with eff(5) h show ?thesis by auto
  qed
  moreover have "loadRevocationUnlocked st f' = loadRevocationUnlocked st f" using revocation_only eff(3) by blast
  ultimately show ?thesis using eff(1,2) unfolding store_above_def by auto
qed (simp_all add: store_above_refl)

lemma stored_revocation_load:
  assumes "1 \<le> epoch" "epoch \<le> 9223372036854775807" "ValidUTCTimestamp updatedAt" "sf_revocation f = Some (stored_revocation st epoch updatedAt)"
  shows "loadRevocationUnlocked st f = Inl ErrCorrupt \<or> (\<exists>e\<ge>min epoch maximumExactInteger. loadRevocationUnlocked st f = Inr e)"
    and "epoch \<le> maximumExactInteger \<Longrightarrow> loadRevocationUnlocked st f = Inr epoch"
proof -
  have ge: "min epoch maximumExactInteger \<le> jcs_int epoch" "1 \<le> jcs_int epoch"
    using assms(1,2) jcs_int_exact [of epoch] jcs_int_ge [of epoch]
    by (cases "epoch \<le> maximumExactInteger"; simp add: maximumExactInteger_def)+
  show "loadRevocationUnlocked st f = Inl ErrCorrupt \<or> (\<exists>e\<ge>min epoch maximumExactInteger. loadRevocationUnlocked st f = Inr e)"
    using ge assms(3,4) by (auto simp: loadRevocationUnlocked_def stored_revocation_def revocation_valid_def)
  assume "epoch \<le> maximumExactInteger"
  then show "loadRevocationUnlocked st f = Inr epoch" using assms(1,3,4) jcs_int_exact [of epoch]
    by (simp add: loadRevocationUnlocked_def stored_revocation_def revocation_valid_def maximumExactInteger_def)
qed

lemma revoke_above:
  assumes "Revoke st f epoch lock updatedAt written = (f', out)" "ValidUTCTimestamp updatedAt" "epoch \<le> 9223372036854775807"
  shows "store_above st f f'" "out = None \<Longrightarrow> epoch \<le> maximumExactInteger \<Longrightarrow> loadRevocationUnlocked st f' = Inr epoch"
proof -
  have "f' = f \<and> out \<noteq> None \<or> (\<exists>e. loadRevocationUnlocked st f = Inr e \<and> e < epoch \<and> 1 \<le> epoch \<and>
      f' = f\<lparr>sf_revocation := Some (stored_revocation st epoch updatedAt)\<rparr>)"
    using assms(1) by (auto simp: Revoke_def split: if_splits lock_outcome.splits sum.splits)
  then consider "f' = f" "out \<noteq> None"
    | e where "loadRevocationUnlocked st f = Inr e" "e < epoch" "1 \<le> epoch" "f' = f\<lparr>sf_revocation := Some (stored_revocation st epoch updatedAt)\<rparr>"
    by blast
  then have "store_above st f f' \<and> (out = None \<longrightarrow> epoch \<le> maximumExactInteger \<longrightarrow> loadRevocationUnlocked st f' = Inr epoch)"
  proof cases
    case 2
    have rev: "sf_revocation f' = Some (stored_revocation st epoch updatedAt)" using 2(4) by simp
    note load = stored_revocation_load [OF 2(3) assms(3,2) rev]
    have "epoch_above (loadRevocationUnlocked st f) (loadRevocationUnlocked st f')"
      using load(1) 2(1,2) by (auto simp: epoch_above_def)
    then show ?thesis using load(2) 2(4) by (simp add: store_above_def files_kept_refl)
  qed (auto simp: store_above_refl)
  then show "store_above st f f'" "out = None \<Longrightarrow> epoch \<le> maximumExactInteger \<Longrightarrow> loadRevocationUnlocked st f' = Inr epoch" by simp_all
qed

lemma cache_above: "PutCacheObject cx f key raw w = (f', out) \<Longrightarrow> store_above st f f'"
  by (auto simp: PutCacheObject_def Let_def store_above_def files_kept_refl loadRevocationUnlocked_def split: if_splits prod.splits)

interpretation sticky_register: monotone_register "sticky_step cx st" "store_above st" for cx st
proof
  show "store_above st c n" if "sticky_step cx st c n" for c n
    using that by (rule sticky_stepE) (auto intro: append_above revoke_above(1) cache_above)
qed (rule store_above_refl, rule store_above_trans)

interpretation sticky_records: write_once "sticky_step cx st" "\<lambda>_. True" "\<lambda>f. map_of (sf_records f)" for cx st
proof
  show "map_of (sf_records s') k = None \<or> map_of (sf_records s') k = Some v" if "sticky_step cx st s s'" "map_of (sf_records s) k = Some v" for s s' k v
    using sticky_register.accepts_above [OF that(1)] that(2) by (simp add: store_above_def files_kept_def)
qed simp

section \<open>Properties\<close>

text \<open>
  (C16) Over every sequence of appends, revocations and data-plane writes, complete or failing half-way, a record or
  request file that exists keeps its bytes, and the head keeps its place or moves to a higher generation. A revocation
  epoch of at most two to the fifty-third does not decrease: what is read later is at least as large, or the revocation
  file does not decode, as after a revocation at the upper end of \<open>int64\<close>.
\<close>

theorem sticky_store_monotone:
  assumes "(sticky_step cx st)\<^sup>*\<^sup>* f f'" "map_of (sf_records f) n = Some bytes" "loadRevocationUnlocked st f = Inr epoch"
    and "epoch \<le> maximumExactInteger" "sf_head f = Some (Canonical h)"
  shows "map_of (sf_records f') n = Some bytes \<and> (\<forall>k q. map_of (sf_requests f) k = Some q \<longrightarrow> map_of (sf_requests f') k = Some q) \<and>
    (loadRevocationUnlocked st f' = Inl ErrCorrupt \<or> (\<exists>epoch'\<ge>epoch. loadRevocationUnlocked st f' = Inr epoch')) \<and>
    (\<exists>h'. sf_head f' = Some (Canonical h') \<and> (h' = h \<or> sh_Generation h < sh_Generation h'))"
  using sticky_register.history_above [OF assms(1)] assms(2-5) by (simp add: store_above_def files_kept_def epoch_above_def)

text \<open>
  (C5) A selection activates a stored decision only if the record under the head decodes to a decision for exactly the
  expected binding, signed by a registered key, unexpired when it was verified, fully qualified and rolled out, and of
  the revocation epoch in force.
\<close>

theorem sticky_select_active:
  assumes "SelectLocal cx lstat f dir scope expected keys sched lock loaded verified = (sched', s)" "se_Status s = SelectionActive" "0 < verified"
  shows "\<exists>h raw d. sf_head f = Some (Canonical h) \<and> map_of (sf_records f) (recordFilename (sh_Generation h) (sh_RecordDigest h)) = Some raw \<and>
    digestBytes cx raw = sh_RecordDigest h \<and> cx_decision cx raw = Some d \<and> sticky_signed cx keys d \<and> dn_Binding d = expected \<and>
    loadRevocationUnlocked \<lparr>ks_scope = scope, ks_publicKeys = keys\<rparr> f = Inr (bi_RevocationEpoch expected) \<and>
    verified < mustParseTime (dn_ExpiresAt d) \<and> dn_QualificationState d = ''QUARANTINE_VALIDATED'' \<and>
    (dn_RolloutState d = ''ACTIVE_IN_CI'' \<or> dn_RolloutState d = ''ACTIVE_LOCALLY'') \<and> active_execution d \<and> se_Decision s = dn_ExecutionDecision d"
proof -
  let ?st = "\<lparr>ks_scope = scope, ks_publicKeys = keys\<rparr>"
  obtain st snap where st: "OpenLocalReadOnly lstat dir scope keys = Inr st" "keys \<noteq> []"
    and cur: "current cx st f lock loaded verified = Inr snap" and sel: "select_snapshot sched expected snap = (sched', s)"
    using SelectLocal_active [OF assms(1,2)] by blast
  have st': "st = ?st" using st(1) by (auto simp: OpenLocalReadOnly_def split: option.splits)
  note c = current_Inr [OF cur [unfolded st']]
  obtain d where d: "document_decision (hs_Document snap) = Some d" "dn_Binding d = expected" "active_execution d" "se_Decision s = dn_ExecutionDecision d"
    using select_snapshot_active [of sched expected snap] sel assms(2) by auto
  obtain raw where raw: "sf_head f = Some (Canonical (hs_Head snap))"
    "map_of (sf_records f) (recordFilename (sh_Generation (hs_Head snap)) (sh_RecordDigest (hs_Head snap))) = Some raw"
    "DecodeDocument cx raw loaded = Inr (hs_Document snap)" "dc_Digest (hs_Document snap) = sh_RecordDigest (hs_Head snap)"
    using loadHead_Inr [OF c(2)] by metis
  note dec = DecodeDocument_decision [OF raw(3) d(1)]
  have ver: "sticky_signed cx keys d" "validateDecision d verified = None"
    using verify_stored_None [OF c(4) raw(3) d(1)] st(2) by simp_all
  then show ?thesis using raw dec c(3) d DecodeDocument_raw [OF raw(3)] assms(3)
    by (intro exI [of _ "hs_Head snap"] exI [of _ raw] exI [of _ d]) (simp add: validateDecision_def Let_def)
qed

text \<open>
  (C7) Revocation is final: once an epoch of at most two to the fifty-third has been revoked, no later selection of any
  sequence of operations, further revocations of any size included, activates a decision of an earlier epoch. (Larger
  epochs are rounded when they are stored, and the bound is sharp: lemma \<open>revoke_rounds\<close>.)
\<close>

theorem sticky_revocation_final:
  assumes "Revoke \<lparr>ks_scope = scope, ks_publicKeys = keys\<rparr> f epoch lock updatedAt written = (f1, None)" "ValidUTCTimestamp updatedAt"
    and "epoch \<le> maximumExactInteger" "(sticky_step cx \<lparr>ks_scope = scope, ks_publicKeys = keys\<rparr>)\<^sup>*\<^sup>* f1 f2"
    and "SelectLocal cx lstat f2 dir scope expected keys sched lock' loaded verified = (sched', s)" "bi_RevocationEpoch expected < epoch"
  shows "se_Status s = SelectionNative \<and> se_Decision s = ExecutionNativeNoop"
proof -
  let ?st = "\<lparr>ks_scope = scope, ks_publicKeys = keys\<rparr>"
  have "loadRevocationUnlocked ?st f1 = Inr epoch"
    using revoke_above(2) [OF assms(1,2)] assms(3) by (simp add: maximumExactInteger_def)
  then have later: "loadRevocationUnlocked ?st f2 = Inl ErrCorrupt \<or> (\<exists>e\<ge>epoch. loadRevocationUnlocked ?st f2 = Inr e)"
    using sticky_register.history_above [OF assms(4)] assms(3) unfolding store_above_def epoch_above_def by auto
  have wrong: "dn_Binding d \<noteq> expected" if "current cx ?st f2 lock' loaded verified = Inr snap" "document_decision (hs_Document snap) = Some d" for snap d
  proof -
    note c = current_Inr [OF that(1)]
    obtain raw where "DecodeDocument cx raw loaded = Inr (hs_Document snap)" using loadHead_Inr [OF c(2)] by metis
    then have "dc_Binding (hs_Document snap) = dn_Binding d" using DecodeDocument_decision(3) that(2) by blast
    with c(3) later assms(6) show ?thesis by auto
  qed
  have "se_Status (snd (SelectLocal cx lstat f2 dir scope expected keys sched lock' loaded verified)) = SelectionNative \<and>
      se_Decision (snd (SelectLocal cx lstat f2 dir scope expected keys sched lock' loaded verified)) = ExecutionNativeNoop"
    using wrong by (auto simp: SelectLocal_def OpenLocalReadOnly_def select_snapshot_def Let_def split: sum.splits option.splits)
  with assms(5) show ?thesis by simp
qed

text \<open>A head that was just published loads, with the record it names.\<close>

lemma loadHead_published:
  assumes "sf_head f' = Some (Canonical (new_head st d epoch updatedAt))"
    and "map_of (sf_records f') (recordFilename (dc_StoreGeneration d) (dc_Digest d)) = Some (dc_Raw d)"
    and "DecodeDocument cx raw loaded = Inr d" "loadRevocationUnlocked st f = Inr epoch" "bi_RepositoryScopeSHA256 (dc_Binding d) = ks_scope st"
    and "ValidUTCTimestamp updatedAt" "digestPattern (digestBytes cx raw)"
  shows "loadHeadUnlocked cx st f' loaded = Inr \<lparr>hs_Head = new_head st d epoch updatedAt,
      hs_HeadDigest = digestBytes cx (cx_encodeHead cx (new_head st d epoch updatedAt)), hs_Document = d, hs_RecordDigest = dc_Digest d\<rparr>"
proof -
  note raw = DecodeDocument_raw [OF assms(3)]
  have "0 \<le> epoch" using assms(4) by (auto simp: loadRevocationUnlocked_def revocation_valid_def Let_def split: option.splits stored.splits if_splits)
  then have valid: "head_valid st (new_head st d epoch updatedAt)"
    using assms(6,7) raw DecodeDocument_generation [OF assms(3)] by (simp add: head_valid_def new_head_def)
  then show ?thesis using assms(1,2,3,5) raw by (simp add: loadHeadUnlocked_def) (simp add: new_head_def)
qed

text \<open>
  What an append has published is what the next reader gets: the head names the appended record, with the
  generation and the digests of the result, as long as the record has not expired.
\<close>

theorem sticky_append_current:
  assumes "Append cx st f raw g hdig key Held ck disk = (f', Inr r)" "\<not> ap_Replayed r" "ValidUTCTimestamp (cl_updatedAt ck)"
    and "digestPattern (digestBytes cx raw)" "0 < cl_decode ck" "cl_decode ck \<le> loaded" "0 < cl_verify ck" "cl_verify ck \<le> verified"
    and "\<forall>v. cx_decision cx raw = Some v \<longrightarrow> loaded < mustParseTime (dn_ExpiresAt v) \<and> verified < mustParseTime (dn_ExpiresAt v)"
  shows "\<exists>s. current cx st f' Held loaded verified = Inr s \<and> dc_Raw (hs_Document s) = raw \<and> sh_Generation (hs_Head s) = g + 1 \<and>
    ap_Generation r = g + 1 \<and> hs_HeadDigest s = ap_HeadDigest r \<and> hs_RecordDigest s = ap_RecordDigest r"
  using assms(1)
proof (cases rule: Append_cases)
  case (published d)
  let ?e = "bi_RevocationEpoch (dc_Binding d)" and ?h = "new_head st d (bi_RevocationEpoch (dc_Binding d)) (cl_updatedAt ck)"
  note p = publish_Inr [OF published(5,3)] and gen = head_precondition_None(1) [OF published(4)] and eff = publish_effect [OF published(5)]
  have dec: "DecodeDocument cx raw (cl_decode ck) = Inr d" and scope: "bi_RepositoryScopeSHA256 (dc_Binding d) = ks_scope st"
    and rev: "loadRevocationUnlocked st f = Inr ?e" and ver: "verify_stored cx st d (cl_verify ck) ?e = None"
    using published(2) by (auto simp: admitted_def validateAppendIdentity_def)
  note raw = DecodeDocument_raw [OF dec]
  have live: "unexpired (dc_body d) loaded" "unexpired (dc_body d) verified"
    using assms(9) DecodeDocument_decision(1) [OF dec] by (auto simp: unexpired_def document_decision_def split: record_body.splits)
  have dec': "DecodeDocument cx raw loaded = Inr d" using DecodeDocument_later [OF dec assms(5,6) live(1)] .
  have ver': "verify_stored cx st d verified ?e = None" using verify_stored_later [OF ver dec assms(7,8) live(2)] .
  have head: "loadHeadUnlocked cx st f' loaded = Inr \<lparr>hs_Head = ?h, hs_HeadDigest = digestBytes cx (cx_encodeHead cx ?h), hs_Document = d, hs_RecordDigest = dc_Digest d\<rparr>"
    using loadHead_published [OF p(2,3) dec' rev scope assms(3,4)] .
  have "loadRevocationUnlocked st f' = Inr ?e" using revocation_only [OF eff(3)] rev by simp
  with head ver' p(1) gen raw show ?thesis by (simp add: current_def head_result_def new_head_def)
qed (use assms(2) in simp_all)

text \<open>
  (C19) A successful append can be retried. After any further operations that leave the revocation epoch as it was, and
  as long as a decision has not expired when the retry decodes and verifies it and the clock has not gone back since the
  first call, the same request is answered with the same result, marked as a replay, and nothing changes.
\<close>

theorem sticky_append_idempotent:
  assumes "Append cx st f raw g hdig key lock ck disk = (f', Inr r)" "(sticky_step cx st)\<^sup>*\<^sup>* f' f''"
    and "loadRevocationUnlocked st f'' = loadRevocationUnlocked st f" "0 < cl_decode ck" "cl_decode ck \<le> cl_decode ck'"
    and "0 < cl_verify ck" "cl_verify ck \<le> cl_verify ck'"
    and "\<forall>v. cx_decision cx raw = Some v \<longrightarrow> cl_decode ck' < mustParseTime (dn_ExpiresAt v) \<and> cl_verify ck' < mustParseTime (dn_ExpiresAt v)"
  shows "Append cx st f'' raw g hdig key Held ck' disk' = (f'', Inr (r\<lparr>ap_Replayed := True\<rparr>))"
proof -
  obtain d q where d: "admitted cx st f raw g hdig key ck d" and r: "r\<lparr>ap_Replayed := True\<rparr> = (lr_Result q)\<lparr>ap_Replayed := True\<rparr>"
    and q: "map_of (sf_requests f') (key @ ''.json'') \<in> {Some (Canonical q), Some (NonCanonical q)}"
      "lr_RequestDigest q = appendRequestDigest cx raw g hdig key" "lr_IdempotencyKey q = key"
    using assms(1)
  proof (cases rule: Append_cases)
    case (replayed d q)
    then show ?thesis using that [of d q] by simp
  next
    case (published d)
    let ?q = "new_request key (appendRequestDigest cx raw g hdig key) r"
    show ?thesis using that [of d ?q] published(2) publish_Inr(4) [OF published(5,3)] by (simp add: new_request_def)
  qed simp
  have kept: "map_of (sf_requests f'') (key @ ''.json'') = map_of (sf_requests f') (key @ ''.json'')"
    using sticky_register.history_above [OF assms(2)] q(1) by (auto simp: store_above_def files_kept_def)
  have dec: "DecodeDocument cx raw (cl_decode ck) = Inr d" and ver: "verify_stored cx st d (cl_verify ck) (bi_RevocationEpoch (dc_Binding d)) = None"
    using d by (simp_all add: admitted_def)
  have live: "unexpired (dc_body d) (cl_decode ck')" "unexpired (dc_body d) (cl_verify ck')"
    using assms(8) DecodeDocument_decision(1) [OF dec] by (auto simp: unexpired_def document_decision_def split: record_body.splits)
  from d have "admitted cx st f'' raw g hdig key ck' d"
    using DecodeDocument_later [OF dec assms(4,5) live(1)] verify_stored_later [OF ver dec assms(6,7) live(2)] assms(3) by (simp add: admitted_def)
  then show ?thesis using q kept r by (auto simp: admitted_def Append_def append_locked_def Let_def)
qed

section \<open>An example\<close>

text \<open>A codec that knows one record, the active decision of the example chain as the first record of a store.\<close>

definition ex_stored :: Decision where "ex_stored = ex_active\<lparr>dn_StoreGeneration := 1\<rparr>"

definition ex_sticky_codec :: sticky_codec where
  "ex_sticky_codec = \<lparr>cx_canonicalize = Some, cx_recordType = (\<lambda>raw. if raw = ''D'' then Some DecisionRecordType else None),
     cx_action = (\<lambda>_. None), cx_observation = (\<lambda>_. None), cx_trial = (\<lambda>_. None),
     cx_decision = (\<lambda>raw. if raw = ''D'' then Some ex_stored else None), cx_ledger = (\<lambda>_. None), cx_encode = (\<lambda>_. Some ''U''),
     cx_encodeHead = (\<lambda>h. ''H'' @ sh_RecordDigest h), cx_sha256 = (\<lambda>x. if x = ''U'' then ex_hex (CHR ''6'') else ex_hex (CHR ''d'')),
     cx_base64 = (\<lambda>_. Some (replicate 64 (CHR ''s''))), cx_ed25519 = (\<lambda>key _ _. key = replicate 32 (CHR ''k''))\<rparr>"

definition ex_sticky_keys :: "(string \<times> string) list" where "ex_sticky_keys = [(''owner'', replicate 32 (CHR ''k''))]"

definition ex_sticky_store :: LocalStore where "ex_sticky_store = \<lparr>ks_scope = ex_scope64, ks_publicKeys = ex_sticky_keys\<rparr>"

definition ex_no_files :: store_files where
  "ex_no_files = \<lparr>sf_head = None, sf_revocation = None, sf_records = [], sf_requests = [], sf_cache = []\<rparr>"

definition ex_today :: int where "ex_today = mustParseTime ''2026-01-03T00:00:00Z''"

definition ex_clock :: append_clock where
  "ex_clock = \<lparr>cl_decode = ex_today, cl_verify = ex_today, cl_load = ex_today, cl_updatedAt = ''2026-01-03T00:00:00Z''\<rparr>"

definition ex_disk :: disk_outcomes where
  "ex_disk = \<lparr>dk_directory = None, dk_record = Stored, dk_head = True, dk_request = Stored\<rparr>"

definition ex_append :: "store_files \<Rightarrow> disk_outcomes \<Rightarrow> store_files \<times> (sticky_error + AppendResult)" where
  "ex_append f disk = Append ex_sticky_codec ex_sticky_store f ''D'' 0 [] (ex_hex (CHR ''3'')) Held ex_clock disk"

definition ex_files :: store_files where "ex_files = fst (ex_append ex_no_files ex_disk)"

definition ex_result :: AppendResult where
  "ex_result = \<lparr>ap_Generation = 1, ap_RecordDigest = ex_hex (CHR ''d''), ap_HeadDigest = ex_hex (CHR ''d''), ap_Replayed = False\<rparr>"

lemma ex_append_ok: "Append ex_sticky_codec ex_sticky_store ex_no_files ''D'' 0 [] (ex_hex (CHR ''3'')) Held ex_clock ex_disk = (ex_files, Inr ex_result)"
proof -
  have "snd (ex_append ex_no_files ex_disk) = Inr ex_result" by code_simp
  then show ?thesis by (metis ex_append_def ex_files_def prod.collapse)
qed

lemma ex_clock_facts: "ValidUTCTimestamp (cl_updatedAt ex_clock)" "0 < cl_decode ex_clock" "0 < cl_verify ex_clock"
  "ex_today < mustParseTime (dn_ExpiresAt ex_stored)" "digestPattern (digestBytes ex_sticky_codec ''D'')"
  by code_simp+

lemma ex_only_decision: "cx_decision ex_sticky_codec ''D'' = Some ex_stored"
  by (simp add: ex_sticky_codec_def)

lemma ex_clock_today [simp]: "cl_decode ex_clock = ex_today" "cl_verify ex_clock = ex_today"
  by (simp_all add: ex_clock_def)

theorem sticky_append_current_witness:
  "\<exists>s. current ex_sticky_codec ex_sticky_store ex_files Held ex_today ex_today = Inr s \<and> dc_Raw (hs_Document s) = ''D'' \<and>
    sh_Generation (hs_Head s) = 1"
proof -
  have "\<not> ap_Replayed ex_result" by (simp add: ex_result_def)
  from sticky_append_current [OF ex_append_ok this ex_clock_facts(1,5,2) order_refl ex_clock_facts(3) order_refl] show ?thesis
    using ex_clock_facts(4) by (auto simp: ex_only_decision)
qed

theorem sticky_append_idempotent_witness:
  "Append ex_sticky_codec ex_sticky_store ex_files ''D'' 0 [] (ex_hex (CHR ''3'')) Held ex_clock ex_disk = (ex_files, Inr (ex_result\<lparr>ap_Replayed := True\<rparr>))"
proof -
  have "loadRevocationUnlocked ex_sticky_store ex_files = Inr 0" by code_simp
  then have "loadRevocationUnlocked ex_sticky_store ex_files = loadRevocationUnlocked ex_sticky_store ex_no_files"
    by (simp add: loadRevocationUnlocked_def ex_no_files_def)
  from sticky_append_idempotent [OF ex_append_ok rtranclp.rtrancl_refl this ex_clock_facts(2) order_refl ex_clock_facts(3) order_refl]
  show ?thesis using ex_clock_facts(4) by (simp add: ex_only_decision)
qed

text \<open>The directories of the store as \<open>os.Lstat\<close> reports them.\<close>

definition ex_lstat :: "string \<Rightarrow> path_info" where
  "ex_lstat p = (if p = ''/state/state.lock'' then Regular 384 else Directory 448)"

definition ex_select :: "store_files \<Rightarrow> bool option \<times> Selection" where
  "ex_select f = SelectLocal ex_sticky_codec ex_lstat f ''/state'' ex_scope64 ex_sticky_binding ex_sticky_keys (Some False) Held ex_today ex_today"

lemma ex_select_active: "se_Status (snd (ex_select ex_files)) = SelectionActive"
  by code_simp

theorem sticky_select_active_witness:
  "\<exists>h raw d. sf_head ex_files = Some (Canonical h) \<and> map_of (sf_records ex_files) (recordFilename (sh_Generation h) (sh_RecordDigest h)) = Some raw \<and>
    cx_decision ex_sticky_codec raw = Some d \<and> sticky_signed ex_sticky_codec ex_sticky_keys d \<and> dn_Binding d = ex_sticky_binding \<and>
    ex_today < mustParseTime (dn_ExpiresAt d)"
proof -
  have "SelectLocal ex_sticky_codec ex_lstat ex_files ''/state'' ex_scope64 ex_sticky_binding ex_sticky_keys (Some False) Held ex_today ex_today =
      (fst (ex_select ex_files), snd (ex_select ex_files))" by (simp add: ex_select_def)
  from sticky_select_active [OF this ex_select_active] show ?thesis using ex_clock_facts(2) by (simp add: ex_clock_def) blast
qed

definition ex_revoked :: store_files where
  "ex_revoked = fst (Revoke ex_sticky_store ex_files 1 Held ''2026-01-03T00:00:00Z'' True)"

theorem sticky_revocation_final_witness:
  "se_Status (snd (ex_select ex_revoked)) = SelectionNative \<and> se_Decision (snd (ex_select ex_revoked)) = ExecutionNativeNoop"
proof -
  have "snd (Revoke ex_sticky_store ex_files 1 Held ''2026-01-03T00:00:00Z'' True) = None" by code_simp
  then have rev: "Revoke \<lparr>ks_scope = ex_scope64, ks_publicKeys = ex_sticky_keys\<rparr> ex_files 1 Held ''2026-01-03T00:00:00Z'' True = (ex_revoked, None)"
    by (metis ex_revoked_def ex_sticky_store_def prod.collapse)
  have sel: "SelectLocal ex_sticky_codec ex_lstat ex_revoked ''/state'' ex_scope64 ex_sticky_binding ex_sticky_keys (Some False) Held ex_today ex_today =
      (fst (ex_select ex_revoked), snd (ex_select ex_revoked))" by (simp add: ex_select_def)
  have valid: "ValidUTCTimestamp ''2026-01-03T00:00:00Z''" by code_simp
  from sticky_revocation_final [OF rev valid _ rtranclp.rtrancl_refl sel] show ?thesis
    by (simp add: ex_sticky_binding_def maximumExactInteger_def)
qed

theorem sticky_store_monotone_witness:
  "\<exists>bytes h h'. map_of (sf_records ex_revoked) (recordFilename 1 (ex_hex (CHR ''d''))) = Some bytes \<and>
    sf_head ex_files = Some (Canonical h) \<and> sf_head ex_revoked = Some (Canonical h') \<and> (h' = h \<or> sh_Generation h < sh_Generation h')"
proof -
  have valid: "ValidUTCTimestamp ''2026-01-03T00:00:00Z''" by code_simp
  have "sticky_step ex_sticky_codec ex_sticky_store ex_files ex_revoked"
    using step_revoke [OF valid, of 1] unfolding ex_revoked_def by (metis one_le_numeral prod.collapse)
  then have run: "(sticky_step ex_sticky_codec ex_sticky_store)\<^sup>*\<^sup>* ex_files ex_revoked" by (rule r_into_rtranclp)
  have rec: "map_of (sf_records ex_files) (recordFilename 1 (ex_hex (CHR ''d''))) = Some ''D''" by code_simp
  have epoch: "loadRevocationUnlocked ex_sticky_store ex_files = Inr 0" by code_simp
  have "case sf_head ex_files of Some (Canonical h) \<Rightarrow> True | _ \<Rightarrow> False" by code_simp
  then obtain h where "sf_head ex_files = Some (Canonical h)" by (auto split: option.splits stored.splits)
  with sticky_store_monotone [OF run rec epoch _ this] show ?thesis by (auto simp: maximumExactInteger_def)
qed

text \<open>
  A revocation of the next epoch above two to the fifty-third succeeds and changes nothing, and one of the largest
  \<open>int64\<close> leaves a file that does not decode.
\<close>

definition ex_revoke_files :: "int \<Rightarrow> store_files" where
  "ex_revoke_files epoch = fst (Revoke ex_sticky_store ex_no_files epoch Held ''2026-01-03T00:00:00Z'' True)"

lemma revoke_rounds:
  "loadRevocationUnlocked ex_sticky_store (ex_revoke_files 9007199254740992) = Inr 9007199254740992"
  "snd (Revoke ex_sticky_store (ex_revoke_files 9007199254740992) 9007199254740993 Held ''2026-01-03T00:00:00Z'' True) = None"
  "fst (Revoke ex_sticky_store (ex_revoke_files 9007199254740992) 9007199254740993 Held ''2026-01-03T00:00:00Z'' True) = ex_revoke_files 9007199254740992"
  "loadRevocationUnlocked ex_sticky_store (ex_revoke_files 9223372036854775807) = Inl ErrCorrupt"
  by code_simp+

section \<open>A lost idempotency record\<close>






end
