(* ===== verification/TypedState.thy ===== *)
theory TypedState
  imports SharedReconcile
begin

text \<open>
  \<open>internal/sharedcache/state.go\<close> and the tables of version one of \<open>state_sqlite.go\<close>: typed state objects, immutable
  manifests that refer to them, and one head per repository and kind that moves by compare-and-swap. Rows are lists as
  in \<open>SharedStorage\<close>; foreign keys are enforced, with the cascades of the schema. Documents are kept as their bytes,
  and the JCS form, the strict decoder and the encoder are a \<open>state_codec\<close>. Blobs are those of the \<open>Storage\<close> that the
  state shares with the cache; the digests of the review tables, which share them too, are a field.
\<close>

abbreviation ErrStateNotFound :: error where "ErrStateNotFound \<equiv> ''BuildOpt typed state was not found''"
abbreviation ErrStateInvalid :: error where "ErrStateInvalid \<equiv> ''BuildOpt typed state is invalid''"
abbreviation ErrStateDigestMismatch :: error where "ErrStateDigestMismatch \<equiv> ''BuildOpt typed state digest mismatch''"
abbreviation ErrStateManifestIncomplete :: error where "ErrStateManifestIncomplete \<equiv> ''BuildOpt typed state manifest is incomplete''"
abbreviation ErrStateGenerationConflict :: error where "ErrStateGenerationConflict \<equiv> ''BuildOpt typed state generation conflicts''"
abbreviation ErrStateHeadPrecondition :: error where "ErrStateHeadPrecondition \<equiv> ''BuildOpt typed state head precondition failed''"
abbreviation ErrStateIdempotency :: error where "ErrStateIdempotency \<equiv> ''BuildOpt typed state idempotency conflict''"
abbreviation ErrStateCorrupt :: error where "ErrStateCorrupt \<equiv> ''BuildOpt typed state is corrupt''"
abbreviation EncodeFailed :: error where "EncodeFailed \<equiv> ''canonicalize typed state value''"
abbreviation ForeignKeyFailed :: error where "ForeignKeyFailed \<equiv> ''FOREIGN KEY constraint failed''"

section \<open>Documents\<close>

type_synonym StateKind = string

definition StateKindPortfolio :: StateKind where "StateKindPortfolio = ''PORTFOLIO''"
definition StateKindEvidence :: StateKind where "StateKindEvidence = ''EVIDENCE''"
definition StateKindCheckpoint :: StateKind where "StateKindCheckpoint = ''CHECKPOINT''"

definition maximumStateManifestBytes :: int where "maximumStateManifestBytes = 1048576"
definition maximumStateArtifactBytes :: int where "maximumStateArtifactBytes = 16777216"
definition maximumStateGeneration :: int where "maximumStateGeneration = 9007199254740991"
definition stagedStateTTL :: int where "stagedStateTTL = 86400000000000"
definition supersededStateTTL :: int where "supersededStateTTL = 2592000000000000"

record StateAuthority =
  sa_SelectionRequiresLocalRevalidation :: bool
  sa_ProductionAuthorized :: bool
  sa_TestOptimization :: string

record StateOrigin =
  og_BaseRevision :: string
  og_TargetRevision :: string
  og_BuildOptExecutableSHA256 :: string
  og_WrapperSHA256 :: string
  og_GradleVersion :: string

record StateArtifact =
  sf_Role :: string
  sf_SHA256 :: string
  sf_SizeBytes :: int
  sf_PayloadSchemaVersion :: string

record StateReference =
  rf_Kind :: StateKind
  rf_ManifestSHA256 :: string
  rf_Relation :: string

record StateManifest =
  sm_SchemaVersion :: string
  sm_RecordType :: string
  sm_Kind :: StateKind
  sm_RepositoryScopeSHA256 :: string
  sm_Generation :: int
  sm_CompatibilitySHA256 :: string
  sm_BindingsSHA256 :: string
  sm_Origin :: StateOrigin
  sm_Artifacts :: "StateArtifact list"
  sm_References :: "StateReference list"
  sm_Status :: string
  sm_RetentionClass :: string
  sm_CreatedAt :: string
  sm_ExpiresAt :: string
  sm_Authority :: StateAuthority

record StateHead =
  ch_SchemaVersion :: string
  ch_RecordType :: string
  ch_Kind :: StateKind
  ch_RepositoryScopeSHA256 :: string
  ch_Generation :: int
  ch_ManifestSHA256 :: string
  ch_PreviousManifestSHA256 :: string
  ch_CompatibilitySHA256 :: string
  ch_UpdatedAt :: string
  ch_Authority :: StateAuthority

record StateObject =
  sb_RepositoryScopeSHA256 :: string
  sb_Kind :: StateKind
  sb_SHA256 :: string
  sb_SizeBytes :: int

record StateCASRequest =
  cq_RepositoryScopeSHA256 :: string
  cq_Kind :: StateKind
  cq_IdempotencyKey :: string
  cq_ExpectedGeneration :: int
  cq_ExpectedHeadSHA256 :: string
  cq_ManifestSHA256 :: string
  cq_ProposedHead :: "StateHead option"

record StateCASResult =
  cz_Head :: StateHead
  cz_HeadSHA256 :: string
  cz_Replayed :: bool

record StateSnapshot =
  ss_Head :: StateHead
  ss_HeadSHA256 :: string
  ss_Manifest :: StateManifest
  ss_ManifestSHA256 :: string

record StateMaintenanceReport =
  sx_ExpiredCheckpoints :: nat
  sx_ExpiredStagedManifests :: nat
  sx_ExpiredSuperseded :: nat
  sx_ExpiredStagedObjects :: nat
  sx_DeletedUnreferencedBlob :: nat

text \<open>
  \<open>sj_canonicalize\<close> is \<open>CanonicalizeJCS\<close>, \<open>sj_manifest\<close> and \<open>sj_head\<close> are \<open>decodeStrictStateJSON\<close>, and the encoders give the
  canonical bytes of a head and of the fingerprinted members of a compare-and-swap request.
\<close>

record state_codec =
  sj_canonicalize :: "string \<Rightarrow> string option"
  sj_manifest :: "string \<Rightarrow> StateManifest option"
  sj_head :: "string \<Rightarrow> StateHead option"
  sj_encodeHead :: "StateHead \<Rightarrow> string option"
  sj_encodeRequest :: "StateCASRequest \<Rightarrow> string option"

definition digestBytes :: "environment \<Rightarrow> string \<Rightarrow> string" where
  "digestBytes env raw = sha256_hex env raw"

text \<open>\<open>time.Parse\<close> of a timestamp that has been validated, in nanoseconds since the Unix epoch.\<close>

definition state_time :: "string \<Rightarrow> int" where
  "state_time v = (case parse_nano v of None \<Rightarrow> unix_nano 0 | Some t \<Rightarrow> unix_nano t)"

definition stateRevisionPattern :: "string \<Rightarrow> bool" where
  "stateRevisionPattern s = (40 \<le> length s \<and> length s \<le> 64 \<and> list_all is_lower_hex s)"

definition stateGradlePattern :: "string \<Rightarrow> bool" where
  "stateGradlePattern = match_gradle_version"

text \<open>\<open>^buildopt\.[a-z0-9.-]+/[a-z0-9.-]+/v[1-9][0-9]*$\<close>: the classes exclude the slash.\<close>

definition schema_part :: "string \<Rightarrow> bool" where
  "schema_part s = (s \<noteq> [] \<and> list_all (\<lambda>c. is_lower c \<or> is_digit c \<or> c = CHR ''.'' \<or> c = CHR ''-'') s)"

definition stateSchemaPattern :: "string \<Rightarrow> bool" where
  "stateSchemaPattern s = (case split_on (CHR 0x2F) s of
       [a, b, c] \<Rightarrow> hasPrefix ''buildopt.'' a \<and> schema_part (drop 9 a) \<and> schema_part b \<and>
         (case c of v # d # ds \<Rightarrow> v = CHR ''v'' \<and> is_digit d \<and> d \<noteq> CHR ''0'' \<and> list_all is_digit ds | _ \<Rightarrow> False)
     | _ \<Rightarrow> False)"

definition validStateKind :: "StateKind \<Rightarrow> bool" where
  "validStateKind k = (k = StateKindPortfolio \<or> k = StateKindEvidence \<or> k = StateKindCheckpoint)"

definition validStateAuthority :: "StateAuthority \<Rightarrow> bool" where
  "validStateAuthority a = (sa_SelectionRequiresLocalRevalidation a \<and> \<not> sa_ProductionAuthorized a \<and> sa_TestOptimization a = ''OUT_OF_SCOPE'')"

definition validRoles :: "string list" where
  "validRoles = [''PORTFOLIO_INDEX'', ''PROFILE'', ''IMPACT_MANIFEST'', ''IMPACT_GRAPH'', ''GENERATED_MANIFEST'', ''CALIBRATION_EVIDENCE'',
     ''DISCOVERY_EVIDENCE'', ''TASK_SHAPE_EVIDENCE'', ''OUTPUT_MANIFEST'', ''OPTIMIZE_STATE'', ''DISCOVERY_SNAPSHOT'', ''CALIBRATION_CHECKPOINT'',
     ''OUTPUT_PACK_CHUNK'']"

text \<open>An identity is compared as a string with separators that none of its parts contains.\<close>

definition artifact_ok :: "StateArtifact \<Rightarrow> bool" where
  "artifact_ok a = (sf_Role a \<in> set validRoles \<and> Leases.validSHA256 (sf_SHA256 a) \<and> 1 \<le> sf_SizeBytes a \<and>
     sf_SizeBytes a \<le> maximumStateArtifactBytes \<and> stateSchemaPattern (sf_PayloadSchemaVersion a))"

definition reference_ok :: "StateReference \<Rightarrow> bool" where
  "reference_ok r = (rf_Kind r = StateKindEvidence \<and> Leases.validSHA256 (rf_ManifestSHA256 r) \<and> rf_Relation r = ''QUALIFICATION'')"

definition role_count :: "string \<Rightarrow> StateManifest \<Rightarrow> nat" where
  "role_count role m = length (filter (\<lambda>a. sf_Role a = role) (sm_Artifacts m))"

definition manifest_fields_ok :: "StateManifest \<Rightarrow> bool" where
  "manifest_fields_ok m = (sm_SchemaVersion m = ''buildopt.central/state-manifest/v1'' \<and> sm_RecordType m = ''CENTRAL_STATE_MANIFEST'' \<and>
     validStateKind (sm_Kind m) \<and> Leases.validSHA256 (sm_RepositoryScopeSHA256 m) \<and> 1 \<le> sm_Generation m \<and> sm_Generation m \<le> maximumStateGeneration \<and>
     Leases.validSHA256 (sm_CompatibilitySHA256 m) \<and> Leases.validSHA256 (sm_BindingsSHA256 m) \<and> stateRevisionPattern (og_BaseRevision (sm_Origin m)) \<and>
     stateRevisionPattern (og_TargetRevision (sm_Origin m)) \<and> Leases.validSHA256 (og_BuildOptExecutableSHA256 (sm_Origin m)) \<and>
     Leases.validSHA256 (og_WrapperSHA256 (sm_Origin m)) \<and> stateGradlePattern (og_GradleVersion (sm_Origin m)) \<and> sm_Artifacts m \<noteq> [] \<and>
     length (sm_Artifacts m) \<le> 64 \<and> length (sm_References m) \<le> 64 \<and> ValidUTCTimestamp (sm_CreatedAt m) \<and> validStateAuthority (sm_Authority m))"

definition kind_ok :: "StateManifest \<Rightarrow> bool" where
  "kind_ok m =
     (if sm_Kind m = StateKindPortfolio then
        sm_Status m = ''COMPLETE'' \<and> sm_RetentionClass m = ''CURRENT_PLUS_30_DAYS_AFTER_SUPERSEDED'' \<and> sm_ExpiresAt m = [] \<and>
        sm_References m \<noteq> [] \<and> role_count ''PORTFOLIO_INDEX'' m = 1 \<and> role_count ''OUTPUT_PACK_CHUNK'' m \<le> 63
      else if sm_Kind m = StateKindEvidence then
        sm_Status m = ''COMPLETE'' \<and> sm_RetentionClass m = ''WHILE_REFERENCED_PLUS_30_DAYS'' \<and> sm_ExpiresAt m = [] \<and>
        sm_References m = [] \<and> role_count ''CALIBRATION_EVIDENCE'' m \<noteq> 0
      else if sm_Kind m = StateKindCheckpoint then
        sm_Status m = ''RESUMABLE'' \<and> sm_RetentionClass m = ''24_HOURS_FROM_CREATED_AT'' \<and> ValidUTCTimestamp (sm_ExpiresAt m) \<and>
        sm_References m = [] \<and> role_count ''OPTIMIZE_STATE'' m = 1 \<and> state_time (sm_ExpiresAt m) = state_time (sm_CreatedAt m) + stagedStateTTL
      else True)"

definition validateStateManifest :: "StateManifest \<Rightarrow> bool" where
  "validateStateManifest m = (manifest_fields_ok m \<and> list_all artifact_ok (sm_Artifacts m) \<and> distinct (sm_Artifacts m) \<and>
     list_all reference_ok (sm_References m) \<and> distinct (sm_References m) \<and> kind_ok m)"

text \<open>The canonical bytes may differ from what was given; they are what is stored.\<close>

definition decodeStateManifest :: "environment \<Rightarrow> state_codec \<Rightarrow> string \<Rightarrow> (StateManifest \<times> string \<times> string) result" where
  "decodeStateManifest env sj raw =
     (case sj_canonicalize sj raw of
        None \<Rightarrow> Inl ErrStateInvalid
      | Some canonical \<Rightarrow>
          (case sj_manifest sj canonical of
             None \<Rightarrow> Inl ErrStateInvalid
           | Some m \<Rightarrow> if validateStateManifest m then Inr (m, canonical, digestBytes env canonical) else Inl ErrStateInvalid))"

definition DecodeCentralStateManifest :: "environment \<Rightarrow> state_codec \<Rightarrow> string \<Rightarrow> (StateManifest \<times> string) result" where
  "DecodeCentralStateManifest env sj raw =
     (case decodeStateManifest env sj raw of
        Inl _ \<Rightarrow> Inl ErrStateInvalid
      | Inr (m, canonical, digest) \<Rightarrow> if canonical = raw then Inr (m, digest) else Inl ErrStateInvalid)"

definition head_fields_ok :: "StateHead \<Rightarrow> bool" where
  "head_fields_ok h = (ch_SchemaVersion h = ''buildopt.central/state-head/v1'' \<and> ch_RecordType h = ''CENTRAL_STATE_HEAD'' \<and>
     validStateKind (ch_Kind h) \<and> Leases.validSHA256 (ch_RepositoryScopeSHA256 h) \<and> 1 \<le> ch_Generation h \<and> ch_Generation h \<le> maximumStateGeneration \<and>
     Leases.validSHA256 (ch_ManifestSHA256 h) \<and> Leases.validSHA256 (ch_CompatibilitySHA256 h) \<and> ValidUTCTimestamp (ch_UpdatedAt h) \<and>
     validStateAuthority (ch_Authority h) \<and> (ch_Generation h = 1 \<longrightarrow> ch_PreviousManifestSHA256 h = []) \<and>
     (ch_Generation h > 1 \<longrightarrow> Leases.validSHA256 (ch_PreviousManifestSHA256 h)))"

definition decodeStateHead :: "state_codec \<Rightarrow> string \<Rightarrow> StateHead result" where
  "decodeStateHead sj raw =
     (if sj_canonicalize sj raw \<noteq> Some raw then Inl ErrStateInvalid
      else case sj_head sj raw of
        None \<Rightarrow> Inl ErrStateInvalid
      | Some h \<Rightarrow> if head_fields_ok h then Inr h else Inl ErrStateInvalid)"

definition DecodeCentralStateHead :: "environment \<Rightarrow> state_codec \<Rightarrow> string \<Rightarrow> (StateHead \<times> string) result" where
  "DecodeCentralStateHead env sj raw = and_then (decodeStateHead sj raw) (\<lambda>h. Inr (h, digestBytes env raw))"

section \<open>Tables\<close>

record state_object_row =
  tob_scope :: string
  tob_kind :: StateKind
  tob_blob_digest :: string
  tob_size_bytes :: int
  tob_created_at_unix_ms :: int

record state_manifest_row =
  tmf_scope :: string
  tmf_kind :: StateKind
  tmf_generation :: int
  tmf_manifest_digest :: string
  tmf_canonical_document :: string
  tmf_compatibility_sha256 :: string
  tmf_bindings_sha256 :: string
  tmf_status :: string
  tmf_created_at_unix_ms :: int
  tmf_expires_at_unix_ms :: "int option"
  tmf_published_at_unix_ms :: "int option"
  tmf_retention_started_at_unix_ms :: "int option"

record state_artifact_row =
  tar_scope :: string
  tar_kind :: StateKind
  tar_manifest_digest :: string
  tar_role :: string
  tar_blob_digest :: string
  tar_size_bytes :: int

record state_reference_row =
  trf_scope :: string
  trf_source_kind :: StateKind
  trf_source_manifest_digest :: string
  trf_target_kind :: StateKind
  trf_target_manifest_digest :: string
  trf_relation :: string

record state_head_row =
  thd_scope :: string
  thd_kind :: StateKind
  thd_generation :: int
  thd_head_digest :: string
  thd_canonical_document :: string
  thd_manifest_digest :: string
  thd_compatibility_sha256 :: string
  thd_updated_at_unix_ms :: int

record state_request_row =
  trq_idempotency_key :: string
  trq_request_digest :: string
  trq_scope :: string
  trq_kind :: StateKind
  trq_generation :: int
  trq_head_digest :: string
  trq_head_canonical_document :: string
  trq_created_at_unix_ms :: int

record state_db =
  td_objects :: "state_object_row list"
  td_manifests :: "state_manifest_row list"
  td_artifacts :: "state_artifact_row list"
  td_references :: "state_reference_row list"
  td_heads :: "state_head_row list"
  td_requests :: "state_request_row list"

text \<open>Keys of the tables.\<close>

definition object_key :: "state_object_row \<Rightarrow> string \<times> StateKind \<times> string" where
  "object_key r = (tob_scope r, tob_kind r, tob_blob_digest r)"

definition manifest_key :: "state_manifest_row \<Rightarrow> string \<times> StateKind \<times> string" where
  "manifest_key r = (tmf_scope r, tmf_kind r, tmf_manifest_digest r)"

definition manifest_generation_key :: "state_manifest_row \<Rightarrow> string \<times> StateKind \<times> int" where
  "manifest_generation_key r = (tmf_scope r, tmf_kind r, tmf_generation r)"

definition artifact_manifest :: "state_artifact_row \<Rightarrow> string \<times> StateKind \<times> string" where
  "artifact_manifest r = (tar_scope r, tar_kind r, tar_manifest_digest r)"

definition artifact_object :: "state_artifact_row \<Rightarrow> string \<times> StateKind \<times> string" where
  "artifact_object r = (tar_scope r, tar_kind r, tar_blob_digest r)"

definition reference_source :: "state_reference_row \<Rightarrow> string \<times> StateKind \<times> string" where
  "reference_source r = (trf_scope r, trf_source_kind r, trf_source_manifest_digest r)"

definition reference_target :: "state_reference_row \<Rightarrow> string \<times> StateKind \<times> string" where
  "reference_target r = (trf_scope r, trf_target_kind r, trf_target_manifest_digest r)"

definition head_key :: "state_head_row \<Rightarrow> string \<times> StateKind" where
  "head_key r = (thd_scope r, thd_kind r)"

definition head_manifest :: "state_head_row \<Rightarrow> string \<times> StateKind \<times> string" where
  "head_manifest r = (thd_scope r, thd_kind r, thd_manifest_digest r)"

definition hex64 :: "string \<Rightarrow> bool" where "hex64 s = lower_hex_len 64 s"

definition object_checks :: "state_object_row \<Rightarrow> bool" where
  "object_checks r = (hex64 (tob_scope r) \<and> validStateKind (tob_kind r) \<and> digest_column (tob_blob_digest r) \<and>
     1 \<le> tob_size_bytes r \<and> tob_size_bytes r \<le> 16777216 \<and> 0 \<le> tob_created_at_unix_ms r)"

definition manifest_checks :: "state_manifest_row \<Rightarrow> bool" where
  "manifest_checks r = (hex64 (tmf_scope r) \<and> validStateKind (tmf_kind r) \<and> 0 < tmf_generation r \<and> digest_column (tmf_manifest_digest r) \<and>
     tmf_canonical_document r \<noteq> [] \<and> int (length (tmf_canonical_document r)) \<le> 1048576 \<and> hex64 (tmf_compatibility_sha256 r) \<and>
     hex64 (tmf_bindings_sha256 r) \<and> (tmf_status r = ''COMPLETE'' \<or> tmf_status r = ''RESUMABLE'') \<and> 0 \<le> tmf_created_at_unix_ms r \<and>
     (case tmf_expires_at_unix_ms r of None \<Rightarrow> True | Some e \<Rightarrow> tmf_created_at_unix_ms r < e) \<and>
     (case tmf_published_at_unix_ms r of None \<Rightarrow> tmf_retention_started_at_unix_ms r = None | Some t \<Rightarrow> tmf_created_at_unix_ms r \<le> t))"

definition head_checks :: "state_head_row \<Rightarrow> bool" where
  "head_checks r = (0 < thd_generation r \<and> digest_column (thd_head_digest r) \<and> thd_canonical_document r \<noteq> [] \<and>
     int (length (thd_canonical_document r)) \<le> 1048576 \<and> length (thd_compatibility_sha256 r) = 64 \<and> 0 \<le> thd_updated_at_unix_ms r)"

definition request_checks :: "state_request_row \<Rightarrow> bool" where
  "request_checks r = (hex64 (trq_idempotency_key r) \<and> digest_column (trq_request_digest r) \<and> 0 < trq_generation r \<and>
     trq_head_canonical_document r \<noteq> [] \<and> int (length (trq_head_canonical_document r)) \<le> 1048576 \<and> 0 \<le> trq_created_at_unix_ms r \<and>
     validStateKind (trq_kind r))"

section \<open>Statements\<close>

definition insert_object :: "state_object_row \<Rightarrow> state_db \<Rightarrow> (state_db \<times> bool) result" where
  "insert_object r db =
     (if \<not> object_checks r then Inl CheckFailed
      else if list_ex (\<lambda>x. object_key x = object_key r) (td_objects db) then Inr (db, False)
      else Inr (db\<lparr>td_objects := td_objects db @ [r]\<rparr>, True))"

definition insert_manifest :: "state_manifest_row \<Rightarrow> state_db \<Rightarrow> state_db result" where
  "insert_manifest r db =
     (if \<not> manifest_checks r then Inl CheckFailed
      else if list_ex (\<lambda>x. manifest_generation_key x = manifest_generation_key r \<or> manifest_key x = manifest_key r) (td_manifests db)
        then Inl UniqueFailed
      else Inr (db\<lparr>td_manifests := td_manifests db @ [r]\<rparr>))"

definition insert_artifact :: "state_artifact_row \<Rightarrow> state_db \<Rightarrow> state_db result" where
  "insert_artifact r db =
     (if \<not> (1 \<le> length (tar_role r) \<and> length (tar_role r) \<le> 64 \<and> 1 \<le> tar_size_bytes r \<and> tar_size_bytes r \<le> 16777216) then Inl CheckFailed
      else if list_ex (\<lambda>x. artifact_manifest x = artifact_manifest r \<and> tar_role x = tar_role r \<and> tar_blob_digest x = tar_blob_digest r) (td_artifacts db)
        then Inl UniqueFailed
      else if \<not> list_ex (\<lambda>m. manifest_key m = artifact_manifest r) (td_manifests db) \<or> \<not> list_ex (\<lambda>x. object_key x = artifact_object r) (td_objects db)
        then Inl ForeignKeyFailed
      else Inr (db\<lparr>td_artifacts := td_artifacts db @ [r]\<rparr>))"

definition insert_reference :: "state_reference_row \<Rightarrow> state_db \<Rightarrow> state_db result" where
  "insert_reference r db =
     (if \<not> (trf_target_kind r = StateKindEvidence \<and> trf_relation r = ''QUALIFICATION'') then Inl CheckFailed
      else if r \<in> set (td_references db) then Inl UniqueFailed
      else if \<not> list_ex (\<lambda>m. manifest_key m = reference_source r) (td_manifests db) \<or> \<not> list_ex (\<lambda>m. manifest_key m = reference_target r) (td_manifests db)
        then Inl ForeignKeyFailed
      else Inr (db\<lparr>td_references := td_references db @ [r]\<rparr>))"

text \<open>
  Deleting manifests cascades to their artifact rows and to the references they make. It fails when a head or a
  reference of a manifest that stays refers to one of them.
\<close>

definition delete_manifests :: "(state_manifest_row \<Rightarrow> bool) \<Rightarrow> state_db \<Rightarrow> (state_db \<times> nat) result" where
  "delete_manifests sel db =
     (let gone = map manifest_key (filter sel (td_manifests db));
          refs = filter (\<lambda>r. reference_source r \<notin> set gone) (td_references db) in
      if list_ex (\<lambda>h. head_manifest h \<in> set gone) (td_heads db) \<or> list_ex (\<lambda>r. reference_target r \<in> set gone) refs then Inl ForeignKeyFailed
      else Inr (db\<lparr>td_manifests := filter (\<lambda>m. \<not> sel m) (td_manifests db),
           td_artifacts := filter (\<lambda>a. artifact_manifest a \<notin> set gone) (td_artifacts db), td_references := refs\<rparr>, length gone))"

definition delete_objects :: "(state_object_row \<Rightarrow> bool) \<Rightarrow> state_db \<Rightarrow> (state_db \<times> nat) result" where
  "delete_objects sel db =
     (let gone = map object_key (filter sel (td_objects db)) in
      if list_ex (\<lambda>a. artifact_object a \<in> set gone) (td_artifacts db) then Inl ForeignKeyFailed
      else Inr (db\<lparr>td_objects := filter (\<lambda>x. \<not> sel x) (td_objects db)\<rparr>, length gone))"

definition update_manifests ::
    "(state_manifest_row \<Rightarrow> bool) \<Rightarrow> (state_manifest_row \<Rightarrow> state_manifest_row) \<Rightarrow> state_db \<Rightarrow> state_db result" where
  "update_manifests sel f db = and_then (sql_update manifest_checks sel f (td_manifests db)) (\<lambda>(rs, n). Inr (db\<lparr>td_manifests := rs\<rparr>))"

end
