(* ===== verification/TypedStore.thy ===== *)
theory TypedStore
  imports TypedState
begin

text \<open>
  The operations of \<open>internal/sharedcache/state.go\<close> on a \<open>Storage\<close> and its typed state database: put and open objects,
  put and load manifests, compare-and-swap of a head, load the current state, maintain retention. An operation that
  changes metadata holds \<open>stateMutationMutex\<close> and one transaction, and is one function; maintenance also excludes every
  other operation. \<open>now\<close> is the clock in nanoseconds since the Unix epoch, \<open>stamp\<close> its RFC 3339 form, \<open>commits\<close> the
  outcome of the commit.
\<close>

record TypedStorage =
  ty_storage :: Storage
  ty_db :: state_db
  ty_wcncp_digests :: "string list"

text \<open>The digests that \<open>deleteOrphanBlobs\<close> reads are those of the object tables of the database.\<close>

definition with_db :: "TypedStorage \<Rightarrow> state_db \<Rightarrow> TypedStorage" where
  "with_db t db = t\<lparr>ty_db := db,
     ty_storage := (ty_storage t)\<lparr>so_state_digests := map tob_blob_digest (td_objects db) @ ty_wcncp_digests t\<rparr>\<rparr>"

section \<open>Objects\<close>

definition find_object :: "state_db \<Rightarrow> string \<Rightarrow> StateKind \<Rightarrow> string \<Rightarrow> state_object_row option" where
  "find_object db scope kind digest = find (\<lambda>r. object_key r = (scope, kind, digest)) (td_objects db)"

definition PutStateObject ::
    "environment \<Rightarrow> TypedStorage \<Rightarrow> string \<Rightarrow> StateKind \<Rightarrow> string \<Rightarrow> string \<Rightarrow> int \<Rightarrow> TypedStorage \<times> (StateObject \<times> bool) result" where
  "PutStateObject env t scope kind expected bytes now =
     (if \<not> Leases.validSHA256 scope \<or> \<not> validStateKind kind \<or> \<not> Leases.validSHA256 expected then (t, Inl ErrStateInvalid)
      else if so_closed (ty_storage t) then (t, Inl ErrClosed)
      else case putLocked env (ty_storage t) bytes of
        (s, Inl e) \<Rightarrow> (t\<lparr>ty_storage := s\<rparr>, Inl e)
      | (s, Inr (blob, _)) \<Rightarrow>
          let t = t\<lparr>ty_storage := s\<rparr> in
          if bl_Size blob < 1 \<or> bl_Size blob > maximumStateArtifactBytes \<or> trimPrefix digestPrefix (bl_Digest blob) \<noteq> expected
          then (t, Inl ErrStateDigestMismatch)
          else (case insert_object \<lparr>tob_scope = scope, tob_kind = kind, tob_blob_digest = bl_Digest blob, tob_size_bytes = bl_Size blob,
                    tob_created_at_unix_ms = to_milli now\<rparr> (ty_db t) of
                  Inl e \<Rightarrow> (t, Inl e)
                | Inr (db, fresh) \<Rightarrow> (with_db t db,
                    Inr (\<lparr>sb_RepositoryScopeSHA256 = scope, sb_Kind = kind, sb_SHA256 = expected, sb_SizeBytes = bl_Size blob\<rparr>, fresh))))"

definition OpenStateObject :: "environment \<Rightarrow> TypedStorage \<Rightarrow> string \<Rightarrow> StateKind \<Rightarrow> string \<Rightarrow> string result" where
  "OpenStateObject env t scope kind digest =
     (if \<not> Leases.validSHA256 scope \<or> \<not> validStateKind kind \<or> \<not> Leases.validSHA256 digest then Inl ErrStateInvalid
      else if so_closed (ty_storage t) then Inl ErrClosed
      else case find_object (ty_db t) scope kind (digestPrefix @ digest) of
        None \<Rightarrow> Inl ErrStateNotFound
      | Some r \<Rightarrow>
          (case openVerified env (ty_storage t) \<lparr>bl_Digest = digestPrefix @ digest, bl_Size = tob_size_bytes r\<rparr> of
             Inl e \<Rightarrow> Inl (ErrStateCorrupt @ '': '' @ e)
           | Inr bytes \<Rightarrow> Inr bytes))"

section \<open>Manifests\<close>

definition find_manifest :: "state_db \<Rightarrow> string \<Rightarrow> StateKind \<Rightarrow> string \<Rightarrow> state_manifest_row option" where
  "find_manifest db scope kind digest = find (\<lambda>r. manifest_key r = (scope, kind, digest)) (td_manifests db)"

fun insert_all :: "('r \<Rightarrow> state_db \<Rightarrow> state_db result) \<Rightarrow> 'r list \<Rightarrow> state_db \<Rightarrow> state_db result" where
  "insert_all f [] db = Inr db"
| "insert_all f (r # rs) db = and_then (f r db) (insert_all f rs)"

definition manifest_row :: "StateManifest \<Rightarrow> string \<Rightarrow> string \<Rightarrow> state_manifest_row" where
  "manifest_row m canonical digest =
     \<lparr>tmf_scope = sm_RepositoryScopeSHA256 m, tmf_kind = sm_Kind m, tmf_generation = sm_Generation m, tmf_manifest_digest = digestPrefix @ digest,
      tmf_canonical_document = canonical, tmf_compatibility_sha256 = sm_CompatibilitySHA256 m, tmf_bindings_sha256 = sm_BindingsSHA256 m,
      tmf_status = sm_Status m, tmf_created_at_unix_ms = to_milli (state_time (sm_CreatedAt m)),
      tmf_expires_at_unix_ms = (if sm_ExpiresAt m = [] then None else Some (to_milli (state_time (sm_ExpiresAt m)))),
      tmf_published_at_unix_ms = None, tmf_retention_started_at_unix_ms = None\<rparr>"

definition artifact_row :: "StateManifest \<Rightarrow> string \<Rightarrow> StateArtifact \<Rightarrow> state_artifact_row" where
  "artifact_row m digest a =
     \<lparr>tar_scope = sm_RepositoryScopeSHA256 m, tar_kind = sm_Kind m, tar_manifest_digest = digestPrefix @ digest, tar_role = sf_Role a,
      tar_blob_digest = digestPrefix @ sf_SHA256 a, tar_size_bytes = sf_SizeBytes a\<rparr>"

definition reference_row :: "StateManifest \<Rightarrow> string \<Rightarrow> StateReference \<Rightarrow> state_reference_row" where
  "reference_row m digest r =
     \<lparr>trf_scope = sm_RepositoryScopeSHA256 m, trf_source_kind = sm_Kind m, trf_source_manifest_digest = digestPrefix @ digest,
      trf_target_kind = rf_Kind r, trf_target_manifest_digest = digestPrefix @ rf_ManifestSHA256 r, trf_relation = rf_Relation r\<rparr>"

text \<open>Everything a manifest names has to be there before its rows are written.\<close>

definition manifest_complete :: "state_db \<Rightarrow> StateManifest \<Rightarrow> bool" where
  "manifest_complete db m =
     (list_all (\<lambda>a. case find_object db (sm_RepositoryScopeSHA256 m) (sm_Kind m) (digestPrefix @ sf_SHA256 a) of
         None \<Rightarrow> False | Some r \<Rightarrow> tob_size_bytes r = sf_SizeBytes a) (sm_Artifacts m) \<and>
      list_all (\<lambda>r. find_manifest db (sm_RepositoryScopeSHA256 m) (rf_Kind r) (digestPrefix @ rf_ManifestSHA256 r) \<noteq> None) (sm_References m))"

definition put_manifest_tx :: "state_db \<Rightarrow> StateManifest \<Rightarrow> string \<Rightarrow> string \<Rightarrow> (state_db \<times> bool) result" where
  "put_manifest_tx db m canonical digest =
     (case find_manifest db (sm_RepositoryScopeSHA256 m) (sm_Kind m) (digestPrefix @ digest) of
        Some r \<Rightarrow> if tmf_canonical_document r \<noteq> canonical then Inl ErrStateCorrupt else Inr (db, False)
      | None \<Rightarrow>
          if \<not> manifest_complete db m then Inl ErrStateManifestIncomplete
          else (case insert_manifest (manifest_row m canonical digest) db of
            Inl e \<Rightarrow> Inl (if e = UniqueFailed then ErrStateGenerationConflict else e)
          | Inr db1 \<Rightarrow>
              and_then (insert_all insert_artifact (map (artifact_row m digest) (sm_Artifacts m)) db1) (\<lambda>db2.
              and_then (insert_all insert_reference (map (reference_row m digest) (sm_References m)) db2) (\<lambda>db3. Inr (db3, True)))))"

definition PutStateManifest ::
    "environment \<Rightarrow> state_codec \<Rightarrow> TypedStorage \<Rightarrow> string \<Rightarrow> bool \<Rightarrow> TypedStorage \<times> (StateManifest \<times> string \<times> bool) result" where
  "PutStateManifest env sj t raw commits =
     (if raw = [] \<or> int (length raw) > maximumStateManifestBytes then (t, Inl ErrStateInvalid)
      else case decodeStateManifest env sj raw of
        Inl e \<Rightarrow> (t, Inl e)
      | Inr (m, canonical, digest) \<Rightarrow>
          if so_closed (ty_storage t) then (t, Inl ErrClosed)
          else (case put_manifest_tx (ty_db t) m canonical digest of
            Inl e \<Rightarrow> (t, Inl e)
          | Inr (db, fresh) \<Rightarrow> if commits then (with_db t db, Inr (m, digest, fresh)) else (t, Inl DatabaseError)))"

definition loadStateManifestTx :: "environment \<Rightarrow> state_codec \<Rightarrow> state_db \<Rightarrow> string \<Rightarrow> StateKind \<Rightarrow> string \<Rightarrow> StateManifest result" where
  "loadStateManifestTx env sj db scope kind digest =
     (case find_manifest db scope kind (digestPrefix @ digest) of
        None \<Rightarrow> Inl ErrStateNotFound
      | Some r \<Rightarrow>
          (case decodeStateManifest env sj (tmf_canonical_document r) of
             Inl _ \<Rightarrow> Inl ErrStateCorrupt
           | Inr (m, canonical, actual) \<Rightarrow> if tmf_canonical_document r \<noteq> canonical \<or> actual \<noteq> digest then Inl ErrStateCorrupt else Inr m))"

text \<open>The two joins of the publication check, as the rows they select.\<close>

definition artifact_sizes :: "state_db \<Rightarrow> state_artifact_row \<Rightarrow> int list" where
  "artifact_sizes db a = concat (map (\<lambda>x. if x = a then map tob_size_bytes (filter (\<lambda>r. object_key r = artifact_object x) (td_objects db)) else [])
     (td_artifacts db))"

definition reference_targets :: "state_db \<Rightarrow> state_reference_row \<Rightarrow> state_manifest_row list" where
  "reference_targets db r = concat (map (\<lambda>x. if x = r then filter (\<lambda>m. manifest_key m = reference_target x) (td_manifests db) else [])
     (td_references db))"

definition verify_artifact :: "environment \<Rightarrow> Storage \<Rightarrow> state_db \<Rightarrow> error \<Rightarrow> state_artifact_row \<Rightarrow> error option" where
  "verify_artifact env s db incomplete a =
     (case artifact_sizes db a of
        [] \<Rightarrow> Some incomplete
      | found # _ \<Rightarrow>
          if found \<noteq> tar_size_bytes a then Some incomplete
          else (case openVerified env s \<lparr>bl_Digest = tar_blob_digest a, bl_Size = tar_size_bytes a\<rparr> of
            Inl e \<Rightarrow> Some (ErrStateCorrupt @ '': '' @ e)
          | Inr _ \<Rightarrow> None))"

definition verify_rows :: "environment \<Rightarrow> Storage \<Rightarrow> state_db \<Rightarrow> error \<Rightarrow> StateManifest \<Rightarrow> string \<Rightarrow> error option" where
  "verify_rows env s db incomplete m digest = first_err
     [each_err (\<lambda>a. verify_artifact env s db incomplete (artifact_row m digest a)) (sm_Artifacts m),
      each_err (\<lambda>r. reject_if (reference_targets db (reference_row m digest r) = []) incomplete) (sm_References m)]"

definition verifyStateManifestForPublication :: "environment \<Rightarrow> Storage \<Rightarrow> state_db \<Rightarrow> StateManifest \<Rightarrow> string \<Rightarrow> error option" where
  "verifyStateManifestForPublication env s db m digest = verify_rows env s db ErrStateManifestIncomplete m digest"

definition LoadStateManifest ::
    "environment \<Rightarrow> state_codec \<Rightarrow> TypedStorage \<Rightarrow> string \<Rightarrow> StateKind \<Rightarrow> string \<Rightarrow> int \<Rightarrow> bool \<Rightarrow> StateManifest result" where
  "LoadStateManifest env sj t scope kind digest now commits =
     (if \<not> Leases.validSHA256 scope \<or> \<not> validStateKind kind \<or> \<not> Leases.validSHA256 digest then Inl ErrStateInvalid
      else if so_closed (ty_storage t) then Inl ErrClosed
      else and_then (loadStateManifestTx env sj (ty_db t) scope kind digest) (\<lambda>m.
        if kind = StateKindCheckpoint \<and> state_time (sm_ExpiresAt m) \<le> now then Inl ErrStateNotFound
        else case verifyStateManifestForPublication env (ty_storage t) (ty_db t) m digest of
          Some e \<Rightarrow> Inl e
        | None \<Rightarrow> if commits then Inr m else Inl DatabaseError))"

section \<open>Heads\<close>

definition find_head :: "state_db \<Rightarrow> string \<Rightarrow> StateKind \<Rightarrow> state_head_row option" where
  "find_head db scope kind = find (\<lambda>r. head_key r = (scope, kind)) (td_heads db)"

definition currentStateHeadTx :: "environment \<Rightarrow> state_codec \<Rightarrow> state_db \<Rightarrow> string \<Rightarrow> StateKind \<Rightarrow> (StateHead \<times> string) option result" where
  "currentStateHeadTx env sj db scope kind =
     (case find_head db scope kind of
        None \<Rightarrow> Inr None
      | Some r \<Rightarrow>
          let digest = trimPrefix digestPrefix (thd_head_digest r) in
          (case decodeStateHead sj (thd_canonical_document r) of
             Inl _ \<Rightarrow> Inl ErrStateCorrupt
           | Inr h \<Rightarrow> if digestBytes env (thd_canonical_document r) \<noteq> digest then Inl ErrStateCorrupt else Inr (Some (h, digest))))"

definition canonicalStateHead :: "environment \<Rightarrow> state_codec \<Rightarrow> StateHead \<Rightarrow> (string \<times> string) result" where
  "canonicalStateHead env sj h =
     (case sj_encodeHead sj h of None \<Rightarrow> Inl EncodeFailed | Some canonical \<Rightarrow> Inr (canonical, digestBytes env canonical))"

definition stateCASFingerprint :: "environment \<Rightarrow> state_codec \<Rightarrow> StateCASRequest \<Rightarrow> string result" where
  "stateCASFingerprint env sj q =
     (case sj_encodeRequest sj q of None \<Rightarrow> Inl EncodeFailed | Some canonical \<Rightarrow> Inr (digestBytes env canonical))"

definition cas_request_ok :: "StateCASRequest \<Rightarrow> bool" where
  "cas_request_ok q = (Leases.validSHA256 (cq_RepositoryScopeSHA256 q) \<and> validStateKind (cq_Kind q) \<and> Leases.validSHA256 (cq_IdempotencyKey q) \<and>
     Leases.validSHA256 (cq_ManifestSHA256 q) \<and> 0 \<le> cq_ExpectedGeneration q \<and> cq_ExpectedGeneration q < maximumStateGeneration \<and>
     (cq_ExpectedGeneration q = 0 \<longrightarrow> cq_ExpectedHeadSHA256 q = []) \<and> (cq_ExpectedGeneration q > 0 \<longrightarrow> Leases.validSHA256 (cq_ExpectedHeadSHA256 q)))"

definition proposed_ok :: "environment \<Rightarrow> state_codec \<Rightarrow> StateCASRequest \<Rightarrow> bool" where
  "proposed_ok env sj q =
     (case cq_ProposedHead q of
        None \<Rightarrow> True
      | Some h \<Rightarrow> (case canonicalStateHead env sj h of Inl _ \<Rightarrow> False | Inr (canonical, _) \<Rightarrow> decodeStateHead sj canonical = Inr h))"

definition find_request :: "state_db \<Rightarrow> string \<Rightarrow> state_request_row option" where
  "find_request db key = find (\<lambda>r. trq_idempotency_key r = key) (td_requests db)"

definition cas_replay :: "environment \<Rightarrow> state_codec \<Rightarrow> string \<Rightarrow> state_request_row \<Rightarrow> StateCASResult result" where
  "cas_replay env sj fingerprint r =
     (if trq_request_digest r \<noteq> digestPrefix @ fingerprint then Inl ErrStateIdempotency
      else case decodeStateHead sj (trq_head_canonical_document r) of
        Inl _ \<Rightarrow> Inl ErrStateCorrupt
      | Inr h \<Rightarrow>
          if digestBytes env (trq_head_canonical_document r) \<noteq> trimPrefix digestPrefix (trq_head_digest r) then Inl ErrStateCorrupt
          else Inr \<lparr>cz_Head = h, cz_HeadSHA256 = trimPrefix digestPrefix (trq_head_digest r), cz_Replayed = True\<rparr>)"

definition previous_manifest :: "(StateHead \<times> string) option \<Rightarrow> string" where
  "previous_manifest current = (case current of None \<Rightarrow> [] | Some (h, _) \<Rightarrow> ch_ManifestSHA256 h)"

definition precondition_ok :: "StateCASRequest \<Rightarrow> (StateHead \<times> string) option \<Rightarrow> bool" where
  "precondition_ok q current =
     (case current of
        None \<Rightarrow> cq_ExpectedGeneration q = 0
      | Some (h, digest) \<Rightarrow> ch_Generation h = cq_ExpectedGeneration q \<and> digest = cq_ExpectedHeadSHA256 q)"

definition proposal_matches :: "StateCASRequest \<Rightarrow> StateManifest \<Rightarrow> (StateHead \<times> string) option \<Rightarrow> int \<Rightarrow> StateHead \<Rightarrow> bool" where
  "proposal_matches q m current now h = (ch_Kind h = cq_Kind q \<and> ch_RepositoryScopeSHA256 h = cq_RepositoryScopeSHA256 q \<and>
     ch_Generation h = sm_Generation m \<and> ch_ManifestSHA256 h = cq_ManifestSHA256 q \<and> ch_CompatibilitySHA256 h = sm_CompatibilitySHA256 m \<and>
     state_time (sm_CreatedAt m) \<le> state_time (ch_UpdatedAt h) \<and> state_time (ch_UpdatedAt h) \<le> now + 300000000000 \<and>
     ch_PreviousManifestSHA256 h = previous_manifest current)"

definition authored_head :: "StateCASRequest \<Rightarrow> StateManifest \<Rightarrow> (StateHead \<times> string) option \<Rightarrow> string \<Rightarrow> StateHead" where
  "authored_head q m current stamp =
     \<lparr>ch_SchemaVersion = ''buildopt.central/state-head/v1'', ch_RecordType = ''CENTRAL_STATE_HEAD'', ch_Kind = cq_Kind q,
      ch_RepositoryScopeSHA256 = cq_RepositoryScopeSHA256 q, ch_Generation = sm_Generation m, ch_ManifestSHA256 = cq_ManifestSHA256 q,
      ch_PreviousManifestSHA256 = previous_manifest current, ch_CompatibilitySHA256 = sm_CompatibilitySHA256 m, ch_UpdatedAt = stamp,
      ch_Authority = \<lparr>sa_SelectionRequiresLocalRevalidation = True, sa_ProductionAuthorized = False, sa_TestOptimization = ''OUT_OF_SCOPE''\<rparr>\<rparr>"

definition next_head ::
    "StateCASRequest \<Rightarrow> StateManifest \<Rightarrow> (StateHead \<times> string) option \<Rightarrow> int \<Rightarrow> string \<Rightarrow> StateHead result" where
  "next_head q m current now stamp =
     (if now < state_time (sm_CreatedAt m) then Inl ErrStateInvalid
      else if sm_Kind m = StateKindCheckpoint \<and> state_time (sm_ExpiresAt m) \<le> now then Inl ErrStateInvalid
      else case cq_ProposedHead q of
        Some h \<Rightarrow> if proposal_matches q m current now h then Inr h else Inl ErrStateInvalid
      | None \<Rightarrow> Inr (authored_head q m current stamp))"

text \<open>A head is written with the same statement shapes for every kind; its foreign key is the manifest.\<close>

definition head_row :: "StateCASRequest \<Rightarrow> StateHead \<Rightarrow> string \<Rightarrow> string \<Rightarrow> int \<Rightarrow> state_head_row" where
  "head_row q h canonical digest now =
     \<lparr>thd_scope = cq_RepositoryScopeSHA256 q, thd_kind = cq_Kind q, thd_generation = ch_Generation h, thd_head_digest = digestPrefix @ digest,
      thd_canonical_document = canonical, thd_manifest_digest = digestPrefix @ ch_ManifestSHA256 h,
      thd_compatibility_sha256 = ch_CompatibilitySHA256 h, thd_updated_at_unix_ms = to_milli now\<rparr>"

definition manifest_exists :: "state_db \<Rightarrow> state_head_row \<Rightarrow> bool" where
  "manifest_exists db r = list_ex (\<lambda>m. manifest_key m = head_manifest r) (td_manifests db)"

definition insert_head :: "state_head_row \<Rightarrow> state_db \<Rightarrow> state_db result" where
  "insert_head r db = and_then (sql_insert head_checks head_key r (td_heads db)) (\<lambda>rs.
     if manifest_exists db r then Inr (db\<lparr>td_heads := rs\<rparr>) else Inl ForeignKeyFailed)"

definition update_head :: "StateCASRequest \<Rightarrow> state_head_row \<Rightarrow> state_db \<Rightarrow> state_db result" where
  "update_head q r db =
     (let sel = (\<lambda>x. head_key x = head_key r \<and> thd_generation x = cq_ExpectedGeneration q \<and>
            thd_head_digest x = digestPrefix @ cq_ExpectedHeadSHA256 q) in
      case sql_update head_checks sel (\<lambda>_. r) (td_heads db) of
        Inl e \<Rightarrow> Inl e
      | Inr (rs, n) \<Rightarrow>
          if n \<noteq> 0 \<and> \<not> manifest_exists db r then Inl ForeignKeyFailed
          else if n \<noteq> 1 then Inl ErrStateHeadPrecondition else Inr (db\<lparr>td_heads := rs\<rparr>))"

definition write_head :: "StateCASRequest \<Rightarrow> (StateHead \<times> string) option \<Rightarrow> state_head_row \<Rightarrow> int \<Rightarrow> state_db \<Rightarrow> state_db result" where
  "write_head q current r now db =
     (case current of
        None \<Rightarrow> insert_head r db
      | Some (h, _) \<Rightarrow> and_then (update_head q r db)
          (update_manifests (\<lambda>m. manifest_key m = (cq_RepositoryScopeSHA256 q, cq_Kind q, digestPrefix @ ch_ManifestSHA256 h))
             (\<lambda>m. m\<lparr>tmf_retention_started_at_unix_ms := Some (to_milli now)\<rparr>)))"

definition mark_published :: "StateCASRequest \<Rightarrow> int \<Rightarrow> state_db \<Rightarrow> state_db result" where
  "mark_published q now =
     update_manifests (\<lambda>m. manifest_key m = (cq_RepositoryScopeSHA256 q, cq_Kind q, digestPrefix @ cq_ManifestSHA256 q))
       (\<lambda>m. m\<lparr>tmf_published_at_unix_ms := (case tmf_published_at_unix_ms m of None \<Rightarrow> Some (to_milli now) | Some p \<Rightarrow> Some p),
               tmf_retention_started_at_unix_ms := None\<rparr>)"

definition request_row :: "StateCASRequest \<Rightarrow> string \<Rightarrow> StateHead \<Rightarrow> string \<Rightarrow> string \<Rightarrow> int \<Rightarrow> state_request_row" where
  "request_row q fingerprint h canonical digest now =
     \<lparr>trq_idempotency_key = cq_IdempotencyKey q, trq_request_digest = digestPrefix @ fingerprint, trq_scope = cq_RepositoryScopeSHA256 q,
      trq_kind = cq_Kind q, trq_generation = ch_Generation h, trq_head_digest = digestPrefix @ digest,
      trq_head_canonical_document = canonical, trq_created_at_unix_ms = to_milli now\<rparr>"

definition insert_request :: "state_request_row \<Rightarrow> state_db \<Rightarrow> state_db result" where
  "insert_request r db = and_then (sql_insert request_checks trq_idempotency_key r (td_requests db)) (\<lambda>rs. Inr (db\<lparr>td_requests := rs\<rparr>))"

definition publish_head ::
    "environment \<Rightarrow> state_codec \<Rightarrow> state_db \<Rightarrow> StateCASRequest \<Rightarrow> string \<Rightarrow> (StateHead \<times> string) option \<Rightarrow> StateHead \<Rightarrow> int \<Rightarrow>
       (state_db \<times> StateCASResult) result" where
  "publish_head env sj db q fingerprint current h now =
     and_then (canonicalStateHead env sj h) (\<lambda>(canonical, digest).
     and_then (write_head q current (head_row q h canonical digest now) now db) (\<lambda>db.
     and_then (mark_published q now db) (\<lambda>db.
     and_then (insert_request (request_row q fingerprint h canonical digest now) db) (\<lambda>db.
       Inr (db, \<lparr>cz_Head = h, cz_HeadSHA256 = digest, cz_Replayed = False\<rparr>)))))"

definition cas_tx ::
    "environment \<Rightarrow> state_codec \<Rightarrow> Storage \<Rightarrow> state_db \<Rightarrow> StateCASRequest \<Rightarrow> string \<Rightarrow> int \<Rightarrow> string \<Rightarrow> (state_db \<times> StateCASResult) result" where
  "cas_tx env sj s db q fingerprint now stamp =
     (case find_request db (cq_IdempotencyKey q) of
        Some r \<Rightarrow> and_then (cas_replay env sj fingerprint r) (\<lambda>z. Inr (db, z))
      | None \<Rightarrow>
          (case loadStateManifestTx env sj db (cq_RepositoryScopeSHA256 q) (cq_Kind q) (cq_ManifestSHA256 q) of
             Inl e \<Rightarrow> Inl (if e = ErrStateNotFound then ErrStateManifestIncomplete else e)
           | Inr m \<Rightarrow>
               if sm_Generation m \<noteq> cq_ExpectedGeneration q + 1 then Inl ErrStateGenerationConflict
               else (case verifyStateManifestForPublication env s db m (cq_ManifestSHA256 q) of
                 Some e \<Rightarrow> Inl e
               | None \<Rightarrow>
                   and_then (currentStateHeadTx env sj db (cq_RepositoryScopeSHA256 q) (cq_Kind q)) (\<lambda>current.
                   if \<not> precondition_ok q current then Inl ErrStateHeadPrecondition
                   else and_then (next_head q m current now stamp) (\<lambda>h. publish_head env sj db q fingerprint current h now)))))"

definition CASStateHead ::
    "environment \<Rightarrow> state_codec \<Rightarrow> TypedStorage \<Rightarrow> StateCASRequest \<Rightarrow> int \<Rightarrow> string \<Rightarrow> bool \<Rightarrow> TypedStorage \<times> StateCASResult result" where
  "CASStateHead env sj t q now stamp commits =
     (if \<not> cas_request_ok q \<or> \<not> proposed_ok env sj q then (t, Inl ErrStateInvalid)
      else if so_closed (ty_storage t) then (t, Inl ErrClosed)
      else case stateCASFingerprint env sj q of
        Inl e \<Rightarrow> (t, Inl e)
      | Inr fingerprint \<Rightarrow>
          (case cas_tx env sj (ty_storage t) (ty_db t) q fingerprint now stamp of
             Inl e \<Rightarrow> (t, Inl e)
           | Inr (db, z) \<Rightarrow> if commits then (with_db t db, Inr z) else (t, Inl DatabaseError)))"

definition head_join :: "state_db \<Rightarrow> string \<Rightarrow> StateKind \<Rightarrow> (state_head_row \<times> state_manifest_row) list" where
  "head_join db scope kind = concat (map (\<lambda>h. map (Pair h) (filter (\<lambda>m. manifest_key m = head_manifest h) (td_manifests db)))
     (filter (\<lambda>h. head_key h = (scope, kind)) (td_heads db)))"

definition snapshot_matches :: "StateHead \<Rightarrow> StateManifest \<Rightarrow> string \<Rightarrow> bool" where
  "snapshot_matches h m digest = (ch_ManifestSHA256 h = digest \<and> ch_Generation h = sm_Generation m \<and>
     ch_RepositoryScopeSHA256 h = sm_RepositoryScopeSHA256 m \<and> ch_Kind h = sm_Kind m \<and> ch_CompatibilitySHA256 h = sm_CompatibilitySHA256 m)"

text \<open>
  The artifact and reference queries use the scope and kind that were asked for and the digest column of the row. When
  they are reached the manifest has this digest; its scope and kind are those of the head that was decoded.
\<close>

definition load_current :: "environment \<Rightarrow> state_codec \<Rightarrow> Storage \<Rightarrow> state_db \<Rightarrow> string \<Rightarrow> StateKind \<Rightarrow> int \<Rightarrow> StateSnapshot result" where
  "load_current env sj s db scope kind now =
     (case head_join db scope kind of
        [] \<Rightarrow> Inl ErrStateNotFound
      | (hr, mr) # _ \<Rightarrow>
          (case decodeStateHead sj (thd_canonical_document hr) of
             Inl _ \<Rightarrow> Inl ErrStateCorrupt
           | Inr h \<Rightarrow>
               if digestBytes env (thd_canonical_document hr) \<noteq> trimPrefix digestPrefix (thd_head_digest hr) then Inl ErrStateCorrupt
               else (case decodeStateManifest env sj (tmf_canonical_document mr) of
                 Inl _ \<Rightarrow> Inl ErrStateCorrupt
               | Inr (m, canonical, digest) \<Rightarrow>
                   if canonical \<noteq> tmf_canonical_document mr \<or> digest \<noteq> trimPrefix digestPrefix (tmf_manifest_digest mr) \<or>
                      \<not> snapshot_matches h m digest then Inl ErrStateCorrupt
                   else if kind = StateKindCheckpoint \<and> state_time (sm_ExpiresAt m) \<le> now then Inl ErrStateNotFound
                   else (case first_err
                       [each_err (\<lambda>a. verify_artifact env s db ErrStateCorrupt ((artifact_row m digest a)\<lparr>tar_scope := scope, tar_kind := kind,
                            tar_manifest_digest := tmf_manifest_digest mr\<rparr>)) (sm_Artifacts m),
                        each_err (\<lambda>r. reject_if (reference_targets db ((reference_row m digest r)\<lparr>trf_scope := scope, trf_source_kind := kind,
                            trf_source_manifest_digest := tmf_manifest_digest mr\<rparr>) = []) ErrStateCorrupt) (sm_References m)] of
                     Some e \<Rightarrow> Inl e
                   | None \<Rightarrow> Inr \<lparr>ss_Head = h, ss_HeadSHA256 = trimPrefix digestPrefix (thd_head_digest hr), ss_Manifest = m,
                        ss_ManifestSHA256 = trimPrefix digestPrefix (tmf_manifest_digest mr)\<rparr>))))"

definition LoadCurrentState :: "environment \<Rightarrow> state_codec \<Rightarrow> TypedStorage \<Rightarrow> string \<Rightarrow> StateKind \<Rightarrow> int \<Rightarrow> StateSnapshot result" where
  "LoadCurrentState env sj t scope kind now =
     (if \<not> Leases.validSHA256 scope \<or> \<not> validStateKind kind then Inl ErrStateInvalid
      else if so_closed (ty_storage t) then Inl ErrClosed
      else load_current env sj (ty_storage t) (ty_db t) scope kind now)"

section \<open>Retention\<close>

definition at_most :: "int option \<Rightarrow> int \<Rightarrow> bool" where
  "at_most x limit = (case x of None \<Rightarrow> False | Some v \<Rightarrow> v \<le> limit)"

definition is_head :: "state_db \<Rightarrow> state_manifest_row \<Rightarrow> bool" where
  "is_head db m = list_ex (\<lambda>h. head_manifest h = manifest_key m) (td_heads db)"

definition is_referenced :: "state_db \<Rightarrow> state_manifest_row \<Rightarrow> bool" where
  "is_referenced db m = list_ex (\<lambda>r. reference_target r = manifest_key m) (td_references db)"

definition expired_head :: "state_db \<Rightarrow> int \<Rightarrow> state_head_row \<Rightarrow> bool" where
  "expired_head db now h = (thd_kind h = StateKindCheckpoint \<and>
     list_ex (\<lambda>m. manifest_key m = head_manifest h \<and> at_most (tmf_expires_at_unix_ms m) (to_milli now)) (td_manifests db))"

definition delete_heads :: "(state_head_row \<Rightarrow> bool) \<Rightarrow> state_db \<Rightarrow> state_db \<times> nat" where
  "delete_heads sel db = (db\<lparr>td_heads := filter (\<lambda>h. \<not> sel h) (td_heads db)\<rparr>, length (filter sel (td_heads db)))"

definition expired_checkpoint :: "int \<Rightarrow> state_manifest_row \<Rightarrow> bool" where
  "expired_checkpoint now m = (tmf_kind m = StateKindCheckpoint \<and> at_most (tmf_expires_at_unix_ms m) (to_milli now))"

definition expired_staged :: "int \<Rightarrow> state_manifest_row \<Rightarrow> bool" where
  "expired_staged now m = (tmf_published_at_unix_ms m = None \<and> tmf_created_at_unix_ms m \<le> to_milli (now - stagedStateTTL))"

definition superseded_portfolio :: "state_db \<Rightarrow> int \<Rightarrow> state_manifest_row \<Rightarrow> bool" where
  "superseded_portfolio db now m = (tmf_kind m = StateKindPortfolio \<and>
     at_most (tmf_retention_started_at_unix_ms m) (to_milli (now - supersededStateTTL)) \<and> \<not> is_head db m)"

definition superseded_evidence :: "state_db \<Rightarrow> int \<Rightarrow> state_manifest_row \<Rightarrow> bool" where
  "superseded_evidence db now m = (tmf_kind m = StateKindEvidence \<and>
     at_most (tmf_retention_started_at_unix_ms m) (to_milli (now - supersededStateTTL)) \<and> \<not> is_head db m \<and> \<not> is_referenced db m)"

definition mark_referenced :: "state_db \<Rightarrow> state_db result" where
  "mark_referenced db = update_manifests (\<lambda>m. tmf_kind m = StateKindEvidence \<and> is_referenced db m)
     (\<lambda>m. m\<lparr>tmf_retention_started_at_unix_ms := None\<rparr>) db"

definition mark_unreferenced :: "int \<Rightarrow> state_db \<Rightarrow> state_db result" where
  "mark_unreferenced now db = update_manifests
     (\<lambda>m. tmf_kind m = StateKindEvidence \<and> tmf_published_at_unix_ms m \<noteq> None \<and> tmf_retention_started_at_unix_ms m = None \<and>
        \<not> is_head db m \<and> \<not> is_referenced db m)
     (\<lambda>m. m\<lparr>tmf_retention_started_at_unix_ms := Some (to_milli now)\<rparr>) db"

definition expired_object :: "state_db \<Rightarrow> int \<Rightarrow> state_object_row \<Rightarrow> bool" where
  "expired_object db now r = (tob_created_at_unix_ms r \<le> to_milli (now - stagedStateTTL) \<and>
     \<not> list_ex (\<lambda>a. artifact_object a = object_key r) (td_artifacts db))"

text \<open>The statements of the transaction in order. The partial report that goes with an error is not kept.\<close>

definition maintain_state_tx :: "state_db \<Rightarrow> int \<Rightarrow> (state_db \<times> StateMaintenanceReport) result" where
  "maintain_state_tx db0 now =
     (let (db1, checkpoints) = delete_heads (expired_head db0 now) db0 in
      and_then (delete_manifests (expired_checkpoint now) db1) (\<lambda>(db2, _).
      and_then (delete_manifests (expired_staged now) db2) (\<lambda>(db3, staged).
      and_then (delete_manifests (superseded_portfolio db3 now) db3) (\<lambda>(db4, portfolios).
      and_then (mark_referenced db4) (\<lambda>db5.
      and_then (mark_unreferenced now db5) (\<lambda>db6.
      and_then (delete_manifests (superseded_evidence db6 now) db6) (\<lambda>(db7, evidence).
      and_then (delete_objects (expired_object db7 now) db7) (\<lambda>(db8, objects).
        Inr (db8, \<lparr>sx_ExpiredCheckpoints = checkpoints, sx_ExpiredStagedManifests = staged, sx_ExpiredSuperseded = portfolios + evidence,
                   sx_ExpiredStagedObjects = objects, sx_DeletedUnreferencedBlob = 0\<rparr>)))))))))"

definition maintainStateMetadata :: "TypedStorage \<Rightarrow> int \<Rightarrow> bool \<Rightarrow> TypedStorage \<times> StateMaintenanceReport result" where
  "maintainStateMetadata t now commits =
     (case maintain_state_tx (ty_db t) now of
        Inl e \<Rightarrow> (t, Inl e)
      | Inr (db, report) \<Rightarrow> if commits then (with_db t db, Inr report) else (t, Inl DatabaseError))"

definition MaintainState :: "TypedStorage \<Rightarrow> int \<Rightarrow> bool \<Rightarrow> TypedStorage \<times> StateMaintenanceReport result" where
  "MaintainState t now commits =
     (if so_closed (ty_storage t) then (t, Inl ErrClosed)
      else case maintainStateMetadata t now commits of
        (t, Inl e) \<Rightarrow> (t, Inl e)
      | (t, Inr report) \<Rightarrow>
          let (s, deleted) = deleteOrphanBlobs (ty_storage t) in
          (t\<lparr>ty_storage := s\<rparr>, Inr (report\<lparr>sx_DeletedUnreferencedBlob := deleted\<rparr>)))"

end
