(* ===== verification/TypedRetention.thy ===== *)
theory TypedRetention
  imports TypedStore
begin

text \<open>
  Retention of the typed state: what a maintenance transaction keeps of the rows that a current head reads, and the
  references that stop it.
\<close>

section \<open>What loading the current state reads\<close>

definition documents :: "state_db \<Rightarrow> string \<times> StateKind \<times> string \<Rightarrow> (string \<times> string) list" where
  "documents db k = map (\<lambda>m. (tmf_manifest_digest m, tmf_canonical_document m)) (filter (\<lambda>m. manifest_key m = k) (td_manifests db))"

text \<open>\<open>same_view db db' k\<close>: the manifest with key \<open>k\<close>, its artifacts and its references read the same in both.\<close>

definition same_view :: "state_db \<Rightarrow> state_db \<Rightarrow> string \<times> StateKind \<times> string \<Rightarrow> bool" where
  "same_view db db' k \<longleftrightarrow> documents db' k = documents db k \<and>
     (\<forall>a. artifact_manifest a = k \<longrightarrow> artifact_sizes db' a = artifact_sizes db a) \<and>
     (\<forall>r. reference_source r = k \<longrightarrow> (reference_targets db' r = []) = (reference_targets db r = []))"

definition views_kept :: "state_db \<Rightarrow> state_db \<Rightarrow> bool" where
  "views_kept db db' \<longleftrightarrow> set (td_heads db') \<subseteq> set (td_heads db) \<and> (\<forall>h\<in>set (td_heads db'). same_view db db' (head_manifest h))"

lemma views_kept_trans: "views_kept a b \<Longrightarrow> views_kept b c \<Longrightarrow> views_kept a c"
  unfolding views_kept_def same_view_def by (metis subset_iff)

lemma concat_map_filter:
  assumes "\<And>x. x \<in> set xs \<Longrightarrow> \<not> P x \<Longrightarrow> f x = []"
  shows "concat (map f (filter P xs)) = concat (map f xs)"
  using assms by (induction xs) auto

lemma concat_map_cong_empty:
  assumes "\<And>x. x \<in> set xs \<Longrightarrow> (f x = []) = (g x = [])"
  shows "(concat (map f xs) = []) = (concat (map g xs) = [])"
  using assms by (induction xs) auto

text \<open>Each of the three parts of a view reads only some of the tables.\<close>

lemma view_tables:
  "td_manifests db' = td_manifests db \<Longrightarrow> documents db' k = documents db k"
  "td_objects db' = td_objects db \<Longrightarrow> td_artifacts db' = td_artifacts db \<Longrightarrow> artifact_sizes db' a = artifact_sizes db a"
  "td_manifests db' = td_manifests db \<Longrightarrow> td_references db' = td_references db \<Longrightarrow> reference_targets db' r = reference_targets db r"
  by (simp_all only: documents_def artifact_sizes_def reference_targets_def)

lemma delete_heads_kept: "views_kept db (fst (delete_heads sel db))"
  by (auto simp: views_kept_def same_view_def delete_heads_def view_tables [of "db\<lparr>td_heads := x\<rparr>" db for x])

lemma delete_manifests_view:
  assumes "delete_manifests sel db = Inr (db', n)" "\<not> (\<exists>m\<in>set (td_manifests db). sel m \<and> manifest_key m = k)"
  shows "same_view db db' k"
proof -
  let ?gone = "set (map manifest_key (filter sel (td_manifests db)))"
  let ?refs = "filter (\<lambda>r. reference_source r \<notin> ?gone) (td_references db)"
  from assms(1) have fk: "\<not> list_ex (\<lambda>r. reference_target r \<in> ?gone) ?refs"
    and db': "db' = db\<lparr>td_manifests := filter (\<lambda>m. \<not> sel m) (td_manifests db),
      td_artifacts := filter (\<lambda>a. artifact_manifest a \<notin> ?gone) (td_artifacts db), td_references := ?refs\<rparr>"
    by (auto simp: delete_manifests_def Let_def split: if_splits)
  have t: "td_objects db' = td_objects db" "td_artifacts db' = filter (\<lambda>a. artifact_manifest a \<notin> ?gone) (td_artifacts db)"
    "td_manifests db' = filter (\<lambda>m. \<not> sel m) (td_manifests db)" "td_references db' = ?refs" by (simp_all add: db')
  have k: "k \<notin> ?gone" using assms(2) by auto
  have doc: "filter (\<lambda>m. manifest_key m = j \<and> \<not> sel m) (td_manifests db) = filter (\<lambda>m. manifest_key m = j) (td_manifests db)" if "j \<notin> ?gone" for j
    using that by (intro filter_cong) auto
  have "artifact_sizes db' a = artifact_sizes db a" if "artifact_manifest a = k" for a
    unfolding artifact_sizes_def t by (rule concat_map_filter) (use that k in auto)
  moreover have "(reference_targets db' r = []) = (reference_targets db r = [])" if r: "reference_source r = k" for r
  proof -
    have "reference_targets db' r = concat (map (\<lambda>x. if x = r then filter (\<lambda>m. manifest_key m = reference_target x) (td_manifests db) else []) ?refs)"
      unfolding reference_targets_def t filter_filter
    proof (intro arg_cong [of _ _ concat] map_cong refl)
      fix x assume "x \<in> set ?refs"
      then have "reference_target x \<notin> ?gone" using fk unfolding list_ex_iff by blast
      then show "(if x = r then filter (\<lambda>m. \<not> sel m \<and> manifest_key m = reference_target x) (td_manifests db) else []) =
          (if x = r then filter (\<lambda>m. manifest_key m = reference_target x) (td_manifests db) else [])"
        using doc [of "reference_target x"] by (auto simp: conj_commute)
    qed
    also have "\<dots> = reference_targets db r"
      unfolding reference_targets_def by (rule concat_map_filter) (use r k in auto)
    finally show ?thesis by simp
  qed
  ultimately show ?thesis using doc [OF k] by (simp add: same_view_def documents_def t(3) conj_commute)
qed

lemma delete_manifests_kept:
  assumes "delete_manifests sel db = Inr (db', n)"
  shows "views_kept db db'"
proof -
  have h: "td_heads db' = td_heads db" and fk: "\<not> list_ex (\<lambda>h. head_manifest h \<in> set (map manifest_key (filter sel (td_manifests db)))) (td_heads db)"
    using assms by (auto simp: delete_manifests_def Let_def split: if_splits)
  have "same_view db db' (head_manifest x)" if "x \<in> set (td_heads db)" for x
    using fk that by (intro delete_manifests_view [OF assms]) (force simp: list_ex_iff)
  with h show ?thesis by (simp add: views_kept_def)
qed

lemma delete_objects_kept:
  assumes "delete_objects sel db = Inr (db', n)"
  shows "views_kept db db'"
proof -
  let ?gone = "set (map object_key (filter sel (td_objects db)))"
  from assms have fk: "\<not> list_ex (\<lambda>a. artifact_object a \<in> ?gone) (td_artifacts db)"
    and db': "db' = db\<lparr>td_objects := filter (\<lambda>x. \<not> sel x) (td_objects db)\<rparr>"
    by (auto simp: delete_objects_def Let_def split: if_splits)
  have same: "filter (\<lambda>r. \<not> sel r \<and> object_key r = artifact_object a) (td_objects db) = filter (\<lambda>r. object_key r = artifact_object a) (td_objects db)"
    if "a \<in> set (td_artifacts db)" for a using fk that by (intro filter_cong) (force simp: list_ex_iff)+
  have t: "td_objects db' = filter (\<lambda>x. \<not> sel x) (td_objects db)" "td_artifacts db' = td_artifacts db" "td_manifests db' = td_manifests db"
    "td_references db' = td_references db" "td_heads db' = td_heads db" by (simp_all add: db')
  have "artifact_sizes db' a = artifact_sizes db a" for a
    unfolding artifact_sizes_def t filter_filter using same by (intro arg_cong [of _ _ concat] map_cong) auto
  then show ?thesis using view_tables(1) [OF t(3)] view_tables(3) [OF t(3,4)] by (simp add: views_kept_def same_view_def t(5))
qed

lemma update_manifests_view:
  assumes "update_manifests sel f db = Inr db'" "\<And>m. manifest_key (f m) = manifest_key m" "\<And>m. tmf_canonical_document (f m) = tmf_canonical_document m"
  shows "same_view db db' k"
proof -
  from assms(1) have db': "db' = db\<lparr>td_manifests := map (\<lambda>m. if sel m then f m else m) (td_manifests db)\<rparr>"
    by (auto simp: update_manifests_def sql_update_def split: if_splits)
  have t: "td_objects db' = td_objects db" "td_artifacts db' = td_artifacts db" "td_references db' = td_references db" by (simp_all add: db')
  have digest: "tmf_manifest_digest (f m) = tmf_manifest_digest m" for m using assms(2) [of m] by (simp add: manifest_key_def)
  have doc: "documents db' j = documents db j" for j
    by (simp add: documents_def db' filter_map o_def assms(2,3) digest if_distrib [of manifest_key] if_distrib [of tmf_canonical_document]
        if_distrib [of tmf_manifest_digest] cong: filter_cong)
  have empty: "(filter (\<lambda>m. manifest_key m = j) (td_manifests db') = []) = (filter (\<lambda>m. manifest_key m = j) (td_manifests db) = [])" for j
    using arg_cong [OF doc [of j], of length] by (simp add: documents_def flip: length_0_conv)
  have "(reference_targets db' r = []) = (reference_targets db r = [])" for r
    unfolding reference_targets_def t by (intro concat_map_cong_empty) (simp add: empty)
  then show ?thesis using doc view_tables(2) [OF t(1,2)] by (simp add: same_view_def)
qed

lemma update_manifests_kept:
  assumes "update_manifests sel f db = Inr db'" "\<And>m. manifest_key (f m) = manifest_key m" "\<And>m. tmf_canonical_document (f m) = tmf_canonical_document m"
  shows "views_kept db db'" "td_heads db' = td_heads db"
proof -
  show h: "td_heads db' = td_heads db" using assms(1) by (auto simp: update_manifests_def)
  show "views_kept db db'" using update_manifests_view [OF assms] by (simp add: views_kept_def h)
qed

section \<open>Maintenance\<close>

text \<open>After the expired heads are gone, every statement of the transaction is of one of three forms.\<close>

lemma maintain_state_statements:
  assumes "maintain_state_tx db now = Inr (db', report)"
    and trans: "\<And>x y z. Q x y \<Longrightarrow> Q y z \<Longrightarrow> Q x z"
    and del: "\<And>sel x y n. delete_manifests sel x = Inr (y, n) \<Longrightarrow> Q x y"
    and upd: "\<And>sel f x y. update_manifests sel f x = Inr y \<Longrightarrow> (\<And>m. manifest_key (f m) = manifest_key m) \<Longrightarrow>
      (\<And>m. tmf_canonical_document (f m) = tmf_canonical_document m) \<Longrightarrow> Q x y"
    and obj: "\<And>sel x y n. delete_objects sel x = Inr (y, n) \<Longrightarrow> Q x y"
  shows "Q (fst (delete_heads (expired_head db now) db)) db'"
proof -
  obtain db1 n1 where h1: "delete_heads (expired_head db now) db = (db1, n1)" by (cases "delete_heads (expired_head db now) db")
  from assms(1) obtain db2 n2 db3 n3 db4 n4 db5 db6 db7 n7 n8 where
    d: "delete_manifests (expired_checkpoint now) db1 = Inr (db2, n2)" "delete_manifests (expired_staged now) db2 = Inr (db3, n3)"
      "delete_manifests (superseded_portfolio db3 now) db3 = Inr (db4, n4)" "delete_manifests (superseded_evidence db6 now) db6 = Inr (db7, n7)"
    and u: "mark_referenced db4 = Inr db5" "mark_unreferenced now db5 = Inr db6"
    and o: "delete_objects (expired_object db7 now) db7 = Inr (db', n8)"
    unfolding maintain_state_tx_def h1 Let_def by (auto split: prod.splits)
  have "Q db4 db5" "Q db5 db6"
    using upd [OF u(1) [unfolded mark_referenced_def]] upd [OF u(2) [unfolded mark_unreferenced_def]] by (simp_all add: manifest_key_def)
  then show ?thesis using d [THEN del] obj [OF o] trans h1 by (metis fst_conv)
qed

lemma maintain_state_kept:
  assumes "maintain_state_tx db now = Inr (db', report)"
  shows "views_kept db db'" "td_heads db' = filter (\<lambda>h. \<not> expired_head db now h) (td_heads db)"
proof -
  show "views_kept db db'"
    by (rule views_kept_trans [OF delete_heads_kept], rule maintain_state_statements [OF assms, of views_kept])
      (rule views_kept_trans delete_manifests_kept update_manifests_kept(1) delete_objects_kept, assumption+)+
  have "td_heads db' = td_heads (fst (delete_heads (expired_head db now) db))"
    by (rule maintain_state_statements [OF assms, of "\<lambda>x y. td_heads y = td_heads x"])
      (auto simp: delete_manifests_def update_manifests_def delete_objects_def Let_def split: if_splits)
  then show "td_heads db' = filter (\<lambda>h. \<not> expired_head db now h) (td_heads db)" by (simp add: delete_heads_def)
qed

text \<open>Requests are never removed, and every manifest that is left was there before.\<close>

lemma maintain_state_frame:
  assumes "maintain_state_tx db now = Inr (db', report)"
  shows "td_requests db' = td_requests db" "set (documents db' k) \<subseteq> set (documents db k)"
proof -
  have "td_requests db' = td_requests (fst (delete_heads (expired_head db now) db))"
    by (rule maintain_state_statements [OF assms, of "\<lambda>x y. td_requests y = td_requests x"])
      (auto simp: delete_manifests_def update_manifests_def delete_objects_def Let_def split: if_splits)
  then show "td_requests db' = td_requests db" by (simp add: delete_heads_def)
  have "set (documents db' k) \<subseteq> set (documents (fst (delete_heads (expired_head db now) db)) k)"
  proof (rule maintain_state_statements [OF assms, of "\<lambda>x y. set (documents y k) \<subseteq> set (documents x k)"])
    show "set (documents y k) \<subseteq> set (documents x k)" if "update_manifests sel f x = Inr y" "\<And>m. manifest_key (f m) = manifest_key m"
      "\<And>m. tmf_canonical_document (f m) = tmf_canonical_document m" for sel f x y
      using update_manifests_view [OF that, of k] by (simp add: same_view_def)
  qed (auto simp: documents_def delete_manifests_def delete_objects_def Let_def split: if_splits)
  then show "set (documents db' k) \<subseteq> set (documents db k)" by (simp add: documents_def delete_heads_def)
qed

section \<open>Loading\<close>

definition head_documents :: "state_db \<Rightarrow> string \<Rightarrow> StateKind \<Rightarrow> (state_head_row \<times> string \<times> string) list" where
  "head_documents db scope kind = concat (map (\<lambda>h. map (Pair h) (documents db (head_manifest h))) (filter (\<lambda>h. head_key h = (scope, kind)) (td_heads db)))"

lemma head_documents_join:
  "head_documents db scope kind = map (\<lambda>(h, m). (h, tmf_manifest_digest m, tmf_canonical_document m)) (head_join db scope kind)"
  by (simp add: head_documents_def head_join_def documents_def map_concat o_def)

lemma head_join_hd:
  assumes "head_join db scope kind = (hr, mr) # rest"
  shows "hr \<in> set (td_heads db)" "head_key hr = (scope, kind)" "head_manifest hr = (scope, kind, tmf_manifest_digest mr)"
proof -
  have "(hr, mr) \<in> set (head_join db scope kind)" using assms by simp
  then show "hr \<in> set (td_heads db)" "head_key hr = (scope, kind)" "head_manifest hr = (scope, kind, tmf_manifest_digest mr)"
    by (auto simp: head_join_def head_key_def head_manifest_def manifest_key_def)
qed

lemma artifact_sizes_object:
  assumes "artifact_sizes db a \<noteq> []"
  shows "tar_blob_digest a \<in> set (map tob_blob_digest (td_objects db))"
proof -
  from assms obtain r where "r \<in> set (td_objects db)" "object_key r = artifact_object a"
    by (auto simp: artifact_sizes_def filter_empty_conv split: if_splits)
  then show ?thesis by (force simp: artifact_object_def object_key_def)
qed

lemma verify_artifact_cong:
  assumes "artifact_sizes db' a = artifact_sizes db a"
    and "artifact_sizes db a \<noteq> [] \<Longrightarrow> map_of (so_blobs s') (tar_blob_digest a) = map_of (so_blobs s) (tar_blob_digest a)"
    and "so_maximumBlobBytes s' = so_maximumBlobBytes s"
  shows "verify_artifact env s' db' e a = verify_artifact env s db e a"
  using assms by (cases "artifact_sizes db a") (simp_all add: verify_artifact_def openVerified_def)

lemma load_current_cong:
  assumes heads: "filter (\<lambda>h. head_key h = (scope, kind)) (td_heads db') = filter (\<lambda>h. head_key h = (scope, kind)) (td_heads db)"
    and view: "\<And>h. h \<in> set (td_heads db) \<Longrightarrow> head_key h = (scope, kind) \<Longrightarrow> same_view db db' (head_manifest h)"
    and blobs: "\<And>d. d \<in> set (map tob_blob_digest (td_objects db')) \<Longrightarrow> map_of (so_blobs s') d = map_of (so_blobs s) d"
    and max: "so_maximumBlobBytes s' = so_maximumBlobBytes s"
  shows "load_current env sj s' db' scope kind now = load_current env sj s db scope kind now"
proof -
  have docs: "head_documents db' scope kind = head_documents db scope kind"
    unfolding head_documents_def heads using view by (intro arg_cong [of _ _ concat] map_cong) (auto simp: same_view_def)
  show ?thesis
  proof (cases "head_join db scope kind")
    case Nil
    then have "head_join db' scope kind = []" using docs by (simp add: head_documents_join)
    with Nil show ?thesis by (simp add: load_current_def)
  next
    case (Cons p rest)
    obtain hr mr where p: "p = (hr, mr)" by force
    from docs Cons p obtain mr' rest' where j': "head_join db' scope kind = (hr, mr') # rest'"
      and doc: "tmf_manifest_digest mr' = tmf_manifest_digest mr" "tmf_canonical_document mr' = tmf_canonical_document mr"
      by (cases "head_join db' scope kind") (auto simp: head_documents_join)
    note h = head_join_hd [OF Cons [unfolded p]]
    have v: "same_view db db' (scope, kind, tmf_manifest_digest mr)" using view [OF h(1,2)] h(3) by simp
    have sizes: "artifact_sizes db' a = artifact_sizes db a" if "artifact_manifest a = (scope, kind, tmf_manifest_digest mr)" for a
      using v that by (simp add: same_view_def)
    have art: "verify_artifact env s' db' e a = verify_artifact env s db e a" if "artifact_manifest a = (scope, kind, tmf_manifest_digest mr)" for e a
      using sizes [OF that] blobs artifact_sizes_object [of db' a] max by (intro verify_artifact_cong) simp_all
    have ref: "(reference_targets db' r = []) = (reference_targets db r = [])" if "reference_source r = (scope, kind, tmf_manifest_digest mr)" for r
      using v that by (simp add: same_view_def)
    have "verify_artifact env s' db' e ((artifact_row m digest a)\<lparr>tar_scope := scope, tar_kind := kind, tar_manifest_digest := tmf_manifest_digest mr\<rparr>) =
        verify_artifact env s db e ((artifact_row m digest a)\<lparr>tar_scope := scope, tar_kind := kind, tar_manifest_digest := tmf_manifest_digest mr\<rparr>)"
      "(reference_targets db' ((reference_row m digest r)\<lparr>trf_scope := scope, trf_source_kind := kind,
          trf_source_manifest_digest := tmf_manifest_digest mr\<rparr>) = []) =
       (reference_targets db ((reference_row m digest r)\<lparr>trf_scope := scope, trf_source_kind := kind,
          trf_source_manifest_digest := tmf_manifest_digest mr\<rparr>) = [])" for e m digest a r
      by (intro art ref, simp add: artifact_manifest_def reference_source_def)+
    then show ?thesis unfolding load_current_def Cons p j' doc list.case prod.case by (simp only:)
  qed
qed

section \<open>Properties\<close>

lemma orphan_blobs_kept:
  assumes "d \<in> referenced s"
  shows "map_of (so_blobs (fst (deleteOrphanBlobs s))) d = map_of (so_blobs s) d"
proof -
  have "map_of (filter (\<lambda>b. fst b \<in> R) xs) d = map_of xs d" if "d \<in> R" for R and xs :: "(string \<times> string) list"
    using that by (induction xs) auto
  with assms show ?thesis by (simp add: deleteOrphanBlobs_def)
qed

text \<open>
  (C15) Maintenance of the typed state, successful or not, never changes what is served as the current state of a
  portfolio or of evidence: the head, its manifest, every artifact and every reference stay readable.
\<close>

theorem typed_maintenance_keeps_current:
  assumes "MaintainState t now commits = (t', r)" "kind \<noteq> StateKindCheckpoint"
  shows "LoadCurrentState env sj t' scope kind later = LoadCurrentState env sj t scope kind later"
proof (cases r)
  case (Inl e)
  with assms(1) have "t' = t" by (auto simp: MaintainState_def maintainStateMetadata_def Let_def split: if_splits sum.splits prod.splits)
  then show ?thesis by simp
next
  case (Inr report)
  from assms(1) Inr obtain db' report' where m: "maintain_state_tx (ty_db t) now = Inr (db', report')"
    and t': "t' = (with_db t db')\<lparr>ty_storage := fst (deleteOrphanBlobs (ty_storage (with_db t db')))\<rparr>"
    by (auto simp: MaintainState_def maintainStateMetadata_def Let_def split: if_splits sum.splits prod.splits)
  let ?s = "ty_storage (with_db t db')"
  have s: "so_closed ?s = so_closed (ty_storage t)" "so_blobs ?s = so_blobs (ty_storage t)" "so_maximumBlobBytes ?s = so_maximumBlobBytes (ty_storage t)"
    "set (map tob_blob_digest (td_objects db')) \<subseteq> referenced ?s" by (auto simp: with_db_def referenced_def)
  have orphan: "so_closed (fst (deleteOrphanBlobs ?s)) = so_closed ?s" "so_maximumBlobBytes (fst (deleteOrphanBlobs ?s)) = so_maximumBlobBytes ?s"
    by (simp_all add: deleteOrphanBlobs_def)
  note kept = maintain_state_kept [OF m]
  have "load_current env sj (fst (deleteOrphanBlobs ?s)) db' scope kind later = load_current env sj (ty_storage t) (ty_db t) scope kind later"
  proof (rule load_current_cong)
    show "filter (\<lambda>h. head_key h = (scope, kind)) (td_heads db') = filter (\<lambda>h. head_key h = (scope, kind)) (td_heads (ty_db t))"
      unfolding kept(2) filter_filter using assms(2) by (intro filter_cong) (auto simp: expired_head_def head_key_def)
    show "same_view (ty_db t) db' (head_manifest h)" if "h \<in> set (td_heads (ty_db t))" "head_key h = (scope, kind)" for h
      using kept that assms(2) by (auto simp: views_kept_def expired_head_def head_key_def)
    show "map_of (so_blobs (fst (deleteOrphanBlobs ?s))) d = map_of (so_blobs (ty_storage t)) d" if "d \<in> set (map tob_blob_digest (td_objects db'))" for d
      using orphan_blobs_kept [of d ?s] s(2,4) that by auto
  qed (simp add: orphan s)
  then show ?thesis using orphan(1) s(1) by (simp add: LoadCurrentState_def t' with_db_def)
qed

lemma delete_manifests_Inl: "delete_manifests sel db = Inl e \<Longrightarrow> e = ForeignKeyFailed"
  by (auto simp: delete_manifests_def Let_def split: if_splits)

lemma delete_manifests_stopped:
  assumes "r \<in> set (td_references db)" "m \<in> set (td_manifests db)" "manifest_key m = reference_target r" "sel m"
    and "\<forall>p\<in>set (td_manifests db). manifest_key p = reference_source r \<longrightarrow> \<not> sel p"
  shows "delete_manifests sel db = Inl ForeignKeyFailed"
proof -
  have "\<exists>x\<in>set (td_references db). reference_source x \<notin> manifest_key ` {x \<in> set (td_manifests db). sel x} \<and>
      reference_target x \<in> manifest_key ` {x \<in> set (td_manifests db). sel x}"
    using assms by (intro bexI [of _ r]) force+
  then show ?thesis by (simp add: delete_manifests_def Let_def list_ex_iff) blast
qed

text \<open>
  (C34) An evidence manifest that was never published itself and is older than a day stops all retention while a
  published portfolio refers to it: deleting it violates the foreign key, the transaction is rolled back and no
  expired row is ever removed. The reference is not consulted, unlike for published evidence.
\<close>

theorem typed_maintenance_stuck:
  assumes "r \<in> set (td_references (ty_db t))" "m \<in> set (td_manifests (ty_db t))" "manifest_key m = reference_target r"
    and "tmf_published_at_unix_ms m = None" "tmf_kind m \<noteq> StateKindCheckpoint" "tmf_created_at_unix_ms m \<le> to_milli (now - stagedStateTTL)"
    and "\<forall>p\<in>set (td_manifests (ty_db t)). manifest_key p = reference_source r \<longrightarrow>
       tmf_published_at_unix_ms p \<noteq> None \<and> tmf_kind p \<noteq> StateKindCheckpoint"
  shows "maintainStateMetadata t now commits = (t, Inl ForeignKeyFailed)"
proof -
  let ?db = "ty_db t" and ?db1 = "fst (delete_heads (expired_head (ty_db t) now) (ty_db t))"
  have db1: "td_references ?db1 = td_references ?db" "td_manifests ?db1 = td_manifests ?db" by (simp_all add: delete_heads_def)
  have "delete_manifests (expired_staged now) db2 = Inl ForeignKeyFailed" if "delete_manifests (expired_checkpoint now) ?db1 = Inr (db2, n)" for db2 n
  proof -
    have db2: "td_manifests db2 = filter (\<lambda>m. \<not> expired_checkpoint now m) (td_manifests ?db)"
      "td_references db2 = filter (\<lambda>r. reference_source r \<notin> manifest_key ` {x \<in> set (td_manifests ?db). expired_checkpoint now x}) (td_references ?db)"
      using that db1 by (auto simp: delete_manifests_def Let_def split: if_splits)
    show ?thesis
    proof (rule delete_manifests_stopped [of r _ m])
      show "r \<in> set (td_references db2)" using assms(1,7) by (force simp: db2 expired_checkpoint_def)
    qed (use assms in \<open>auto simp: db2 expired_checkpoint_def expired_staged_def\<close>)
  qed
  then have "maintain_state_tx ?db now = Inl ForeignKeyFailed"
    unfolding maintain_state_tx_def using delete_manifests_Inl [of "expired_checkpoint now" ?db1]
    by (cases "delete_manifests (expired_checkpoint now) ?db1") (auto simp: split_beta)
  then show ?thesis by (simp add: maintainStateMetadata_def)
qed

end
