(* ===== verification/TypedHeads.thy ===== *)
theory TypedHeads
  imports TypedRetention Lifecycle
begin

text \<open>
  Heads of the typed state under any sequence of operations: compare-and-swap publishes a generation once, what it
  publishes is what is loaded next, and a request can be repeated.
\<close>

section \<open>Steps\<close>

text \<open>The object service changes the \<open>Storage\<close> and the review tables; it has no access to the rows of the typed state.\<close>

inductive typed_step :: "environment \<Rightarrow> state_codec \<Rightarrow> TypedStorage \<Rightarrow> TypedStorage \<Rightarrow> bool" for env sj where
  step_object: "PutStateObject env t scope kind expected bytes now = (t', r) \<Longrightarrow> typed_step env sj t t'"
| step_manifest: "PutStateManifest env sj t raw commits = (t', r) \<Longrightarrow> typed_step env sj t t'"
| step_cas: "CASStateHead env sj t q now stamp commits = (t', r) \<Longrightarrow> typed_step env sj t t'"
| step_maintain: "MaintainState t now commits = (t', r) \<Longrightarrow> typed_step env sj t t'"
| step_service: "typed_step env sj t (t\<lparr>ty_storage := s, ty_wcncp_digests := ds\<rparr>)"

definition empty_state :: state_db where
  "empty_state = \<lparr>td_objects = [], td_manifests = [], td_artifacts = [], td_references = [], td_heads = [], td_requests = []\<rparr>"

definition typed_reachable :: "environment \<Rightarrow> state_codec \<Rightarrow> TypedStorage \<Rightarrow> bool" where
  "typed_reachable env sj t \<longleftrightarrow> (\<exists>t0. ty_db t0 = empty_state \<and> (typed_step env sj)\<^sup>*\<^sup>* t0 t)"

section \<open>Compare-and-swap taken apart\<close>

lemma ty_db_with_db [simp]: "ty_db (with_db t db) = db" "so_closed (ty_storage (with_db t db)) = so_closed (ty_storage t)"
  "so_blobs (ty_storage (with_db t db)) = so_blobs (ty_storage t)" "so_maximumBlobBytes (ty_storage (with_db t db)) = so_maximumBlobBytes (ty_storage t)"
  by (simp_all add: with_db_def)

lemma trim_digest [simp]: "trimPrefix digestPrefix (digestPrefix @ d) = d"
  by (simp add: trimPrefix_def hasPrefix_def)

record cas_run =
  cr_fingerprint :: string
  cr_manifest :: StateManifest
  cr_current :: "(StateHead \<times> string) option"
  cr_head :: StateHead
  cr_canonical :: string
  cr_digest :: string

text \<open>\<open>cas_checked\<close> and \<open>cas_written\<close> collect what a compare-and-swap that publishes has checked and written.\<close>

definition cas_checked :: "environment \<Rightarrow> state_codec \<Rightarrow> TypedStorage \<Rightarrow> StateCASRequest \<Rightarrow> int \<Rightarrow> string \<Rightarrow> cas_run \<Rightarrow> bool" where
  "cas_checked env sj t q now stamp c \<longleftrightarrow> cas_request_ok q \<and> proposed_ok env sj q \<and> \<not> so_closed (ty_storage t) \<and>
     stateCASFingerprint env sj q = Inr (cr_fingerprint c) \<and> find_request (ty_db t) (cq_IdempotencyKey q) = None \<and>
     loadStateManifestTx env sj (ty_db t) (cq_RepositoryScopeSHA256 q) (cq_Kind q) (cq_ManifestSHA256 q) = Inr (cr_manifest c) \<and>
     sm_Generation (cr_manifest c) = cq_ExpectedGeneration q + 1 \<and>
     verifyStateManifestForPublication env (ty_storage t) (ty_db t) (cr_manifest c) (cq_ManifestSHA256 q) = None \<and>
     currentStateHeadTx env sj (ty_db t) (cq_RepositoryScopeSHA256 q) (cq_Kind q) = Inr (cr_current c) \<and> precondition_ok q (cr_current c) \<and>
     next_head q (cr_manifest c) (cr_current c) now stamp = Inr (cr_head c) \<and>
     canonicalStateHead env sj (cr_head c) = Inr (cr_canonical c, cr_digest c)"

definition cas_written :: "TypedStorage \<Rightarrow> StateCASRequest \<Rightarrow> int \<Rightarrow> cas_run \<Rightarrow> state_db \<Rightarrow> bool" where
  "cas_written t q now c db' \<longleftrightarrow> (\<exists>db1 db2.
     write_head q (cr_current c) (head_row q (cr_head c) (cr_canonical c) (cr_digest c) now) now (ty_db t) = Inr db1 \<and>
     mark_published q now db1 = Inr db2 \<and>
     insert_request (request_row q (cr_fingerprint c) (cr_head c) (cr_canonical c) (cr_digest c) now) db2 = Inr db')"

lemma publish_head_Inr:
  assumes "publish_head env sj db q fp current h now = Inr (db', z)"
  obtains canonical digest db1 db2 where "canonicalStateHead env sj h = Inr (canonical, digest)"
    "write_head q current (head_row q h canonical digest now) now db = Inr db1" "mark_published q now db1 = Inr db2"
    "insert_request (request_row q fp h canonical digest now) db2 = Inr db'" "z = \<lparr>cz_Head = h, cz_HeadSHA256 = digest, cz_Replayed = False\<rparr>"
proof (cases "canonicalStateHead env sj h")
  case (Inr p)
  obtain canonical digest where p: "p = (canonical, digest)" by force
  with Inr assms show ?thesis using that unfolding publish_head_def p Inr and_then.simps prod.case and_then_Inr by blast
qed (use assms in \<open>simp add: publish_head_def\<close>)

lemma cas_replay_Inr:
  assumes "cas_replay env sj fp r = Inr z"
  shows "cz_Replayed z" "trq_request_digest r = digestPrefix @ fp"
  using assms by (auto simp: cas_replay_def split: if_splits sum.splits)

lemma cas_tx_Inr:
  assumes "cas_tx env sj s db q fp now stamp = Inr (db', z)"
  obtains (replayed) r where "find_request db (cq_IdempotencyKey q) = Some r" "cas_replay env sj fp r = Inr z" "db' = db"
  | (published) m current h where "find_request db (cq_IdempotencyKey q) = None"
      "loadStateManifestTx env sj db (cq_RepositoryScopeSHA256 q) (cq_Kind q) (cq_ManifestSHA256 q) = Inr m" "sm_Generation m = cq_ExpectedGeneration q + 1"
      "verifyStateManifestForPublication env s db m (cq_ManifestSHA256 q) = None"
      "currentStateHeadTx env sj db (cq_RepositoryScopeSHA256 q) (cq_Kind q) = Inr current" "precondition_ok q current"
      "next_head q m current now stamp = Inr h" "publish_head env sj db q fp current h now = Inr (db', z)"
proof (cases "find_request db (cq_IdempotencyKey q)")
  case (Some r)
  with assms have "cas_replay env sj fp r = Inr z" "db' = db" by (auto simp: cas_tx_def)
  with Some show ?thesis by (rule replayed)
next
  case None
  let ?load = "loadStateManifestTx env sj db (cq_RepositoryScopeSHA256 q) (cq_Kind q) (cq_ManifestSHA256 q)"
  from assms None obtain m where m: "?load = Inr m" by (cases ?load) (auto simp: cas_tx_def)
  with assms None have v: "sm_Generation m = cq_ExpectedGeneration q + 1" "verifyStateManifestForPublication env s db m (cq_ManifestSHA256 q) = None"
    by (auto simp: cas_tx_def split: if_splits option.splits)
  with assms None m obtain current h where "currentStateHeadTx env sj db (cq_RepositoryScopeSHA256 q) (cq_Kind q) = Inr current"
    "precondition_ok q current" "next_head q m current now stamp = Inr h" "publish_head env sj db q fp current h now = Inr (db', z)"
    by (auto simp: cas_tx_def split: if_splits)
  with None m v show ?thesis by (intro published)
qed

lemma CASStateHead_cases:
  assumes "CASStateHead env sj t q now stamp commits = (t', r)"
  obtains (failed) e where "t' = t" "r = Inl e"
  | (replayed) fp row z where "cas_request_ok q" "proposed_ok env sj q" "\<not> so_closed (ty_storage t)" "stateCASFingerprint env sj q = Inr fp"
      "find_request (ty_db t) (cq_IdempotencyKey q) = Some row" "cas_replay env sj fp row = Inr z" "t' = with_db t (ty_db t)" "r = Inr z"
  | (published) c db' where "cas_checked env sj t q now stamp c" "cas_written t q now c db'" "t' = with_db t db'"
      "r = Inr \<lparr>cz_Head = cr_head c, cz_HeadSHA256 = cr_digest c, cz_Replayed = False\<rparr>"
proof (cases r)
  case (Inl e)
  with assms have "t' = t" by (auto simp: CASStateHead_def split: if_splits sum.splits)
  with Inl show ?thesis using failed by simp
next
  case (Inr z)
  with assms obtain fp db' where ok: "cas_request_ok q" "proposed_ok env sj q" "\<not> so_closed (ty_storage t)" "stateCASFingerprint env sj q = Inr fp"
    and tx: "cas_tx env sj (ty_storage t) (ty_db t) q fp now stamp = Inr (db', z)" and t': "t' = with_db t db'"
    by (auto simp: CASStateHead_def split: if_splits sum.splits)
  from tx show ?thesis
  proof (cases rule: cas_tx_Inr)
    case (replayed row)
    with ok t' Inr show ?thesis using that(2) by blast
  next
    case (published m current h)
    from published(8) obtain canonical digest db1 db2 where p: "canonicalStateHead env sj h = Inr (canonical, digest)"
      "write_head q current (head_row q h canonical digest now) now (ty_db t) = Inr db1" "mark_published q now db1 = Inr db2"
      "insert_request (request_row q fp h canonical digest now) db2 = Inr db'" "z = \<lparr>cz_Head = h, cz_HeadSHA256 = digest, cz_Replayed = False\<rparr>"
      by (rule publish_head_Inr)
    let ?c = "\<lparr>cr_fingerprint = fp, cr_manifest = m, cr_current = current, cr_head = h, cr_canonical = canonical, cr_digest = digest\<rparr>"
    have "cas_checked env sj t q now stamp ?c" using ok published p(1) by (simp add: cas_checked_def)
    moreover have "cas_written t q now ?c db'" using p(2-4) by (auto simp: cas_written_def)
    ultimately show ?thesis using that(3) [of ?c db'] t' Inr p(5) by simp
  qed
qed

text \<open>The row that an update of a head selects.\<close>

definition expected_row :: "StateCASRequest \<Rightarrow> state_head_row \<Rightarrow> state_head_row \<Rightarrow> bool" where
  "expected_row q r x \<longleftrightarrow> head_key x = head_key r \<and> thd_generation x = cq_ExpectedGeneration q \<and> thd_head_digest x = digestPrefix @ cq_ExpectedHeadSHA256 q"

text \<open>What publication writes: one head row, retention columns of manifests, one request row.\<close>

definition swapped :: "StateCASRequest \<Rightarrow> state_head_row \<Rightarrow> state_head_row \<Rightarrow> state_head_row" where
  "swapped q r x = (if expected_row q r x then r else x)"

lemma swapped_key [simp]: "head_key (swapped q r x) = head_key x"
  by (simp add: swapped_def expected_row_def)

lemma write_head_effect:
  assumes "write_head q current r now db = Inr db'"
  shows "td_requests db' = td_requests db \<and> same_view db db' k \<and>
    (case current of None \<Rightarrow> td_heads db' = td_heads db @ [r] \<and> head_key r \<notin> head_key ` set (td_heads db)
     | Some _ \<Rightarrow> td_heads db' = map (swapped q r) (td_heads db) \<and> (\<exists>x\<in>set (td_heads db). expected_row q r x))"
proof (cases current)
  case None
  with assms have db': "db' = db\<lparr>td_heads := td_heads db @ [r]\<rparr>" "head_key r \<notin> head_key ` set (td_heads db)"
    by (auto simp: write_head_def insert_head_def sql_insert_def list_ex_iff split: if_splits)
  then have "same_view db db' k" by (simp add: same_view_def view_tables [of "db\<lparr>td_heads := x\<rparr>" db for x])
  with None db' show ?thesis by simp
next
  case (Some p)
  obtain h d where p: "p = (h, d)" by force
  from assms Some p obtain db1 where u: "update_head q r db = Inr db1"
    and m: "update_manifests (\<lambda>m. manifest_key m = (cq_RepositoryScopeSHA256 q, cq_Kind q, digestPrefix @ ch_ManifestSHA256 h))
             (\<lambda>m. m\<lparr>tmf_retention_started_at_unix_ms := Some (to_milli now)\<rparr>) db1 = Inr db'" by (auto simp: write_head_def)
  from u have db1: "db1 = db\<lparr>td_heads := map (swapped q r) (td_heads db)\<rparr>" and n: "length (filter (expected_row q r) (td_heads db)) = 1"
    by (auto simp: update_head_def sql_update_def Let_def swapped_def expected_row_def [abs_def] split: if_splits)
  have "filter (expected_row q r) (td_heads db) \<noteq> []" using n by auto
  then have "\<exists>x\<in>set (td_heads db). expected_row q r x" by (simp add: filter_empty_conv)
  moreover have "td_requests db' = td_requests db1" "td_heads db' = td_heads db1" using m by (auto simp: update_manifests_def)
  moreover have "same_view db1 db' k" using m by (rule update_manifests_view) (simp_all add: manifest_key_def)
  moreover have "same_view db1 db' k = same_view db db' k"
    by (simp add: same_view_def db1 view_tables [of "db\<lparr>td_heads := x\<rparr>" db for x])
  ultimately show ?thesis by (simp add: Some db1)
qed

lemma cas_written_effect:
  assumes "cas_written t q now c db'"
  defines "r \<equiv> head_row q (cr_head c) (cr_canonical c) (cr_digest c) now"
  shows "same_view (ty_db t) db' k"
    and "case cr_current c of None \<Rightarrow> td_heads db' = td_heads (ty_db t) @ [r] \<and> head_key r \<notin> head_key ` set (td_heads (ty_db t))
      | Some _ \<Rightarrow> td_heads db' = map (swapped q r) (td_heads (ty_db t)) \<and> (\<exists>x\<in>set (td_heads (ty_db t)). expected_row q r x)"
    and "td_requests db' = td_requests (ty_db t) @ [request_row q (cr_fingerprint c) (cr_head c) (cr_canonical c) (cr_digest c) now]"
proof -
  from assms(1) obtain db1 db2 where w: "write_head q (cr_current c) r now (ty_db t) = Inr db1" and m: "mark_published q now db1 = Inr db2"
    and i: "insert_request (request_row q (cr_fingerprint c) (cr_head c) (cr_canonical c) (cr_digest c) now) db2 = Inr db'"
    unfolding cas_written_def r_def by blast
  have db': "db' = db2\<lparr>td_requests := td_requests db2 @ [request_row q (cr_fingerprint c) (cr_head c) (cr_canonical c) (cr_digest c) now]\<rparr>"
    using i by (auto simp: insert_request_def sql_insert_def split: if_splits)
  have same: "td_requests db2 = td_requests db1" "td_heads db2 = td_heads db1" using m by (auto simp: mark_published_def update_manifests_def)
  note e = write_head_effect [OF w, of k]
  have v2: "same_view db1 db2 k" using m unfolding mark_published_def by (rule update_manifests_view) (simp_all add: manifest_key_def)
  have "same_view db2 db' k" by (simp add: same_view_def db' view_tables [of "db2\<lparr>td_requests := x\<rparr>" db2 for x])
  then show "same_view (ty_db t) db' k" using e v2 unfolding same_view_def by simp
  show "case cr_current c of None \<Rightarrow> td_heads db' = td_heads (ty_db t) @ [r] \<and> head_key r \<notin> head_key ` set (td_heads (ty_db t))
      | Some _ \<Rightarrow> td_heads db' = map (swapped q r) (td_heads (ty_db t)) \<and> (\<exists>x\<in>set (td_heads (ty_db t)). expected_row q r x)"
    using e same(2) by (auto simp: db' split: option.splits)
  show "td_requests db' = td_requests (ty_db t) @ [request_row q (cr_fingerprint c) (cr_head c) (cr_canonical c) (cr_digest c) now]"
    using e same(1) by (simp add: db')
qed

lemma head_row_simps [simp]: "head_key (head_row q h canonical digest now) = (cq_RepositoryScopeSHA256 q, cq_Kind q)"
  "thd_generation (head_row q h canonical digest now) = ch_Generation h"
  "head_manifest (head_row q h canonical digest now) = (cq_RepositoryScopeSHA256 q, cq_Kind q, digestPrefix @ ch_ManifestSHA256 h)"
  "thd_canonical_document (head_row q h canonical digest now) = canonical" "thd_head_digest (head_row q h canonical digest now) = digestPrefix @ digest"
  by (simp_all add: head_row_def head_key_def head_manifest_def)

lemma next_head_fields:
  assumes "next_head q m current now stamp = Inr h"
  shows "ch_Generation h = sm_Generation m" "ch_ManifestSHA256 h = cq_ManifestSHA256 q" "ch_Kind h = cq_Kind q"
    "ch_RepositoryScopeSHA256 h = cq_RepositoryScopeSHA256 q" "ch_CompatibilitySHA256 h = sm_CompatibilitySHA256 m"
  using assms by (auto simp: next_head_def authored_head_def proposal_matches_def split: if_splits option.splits)

section \<open>Invariant\<close>

lemma find_filter: "find P xs = (case filter P xs of [] \<Rightarrow> None | x # _ \<Rightarrow> Some x)"
  by (induction xs) auto


text \<open>Heads have distinct keys, and a manifest is stored under the scope and kind of its own document.\<close>

definition row_decoded :: "environment \<Rightarrow> state_codec \<Rightarrow> string \<times> StateKind \<times> string \<Rightarrow> string \<Rightarrow> bool" where
  "row_decoded env sj k doc \<longleftrightarrow>
     (\<forall>m c d. decodeStateManifest env sj doc = Inr (m, c, d) \<longrightarrow> sm_RepositoryScopeSHA256 m = fst k \<and> sm_Kind m = fst (snd k))"

definition typed_ok :: "environment \<Rightarrow> state_codec \<Rightarrow> state_db \<Rightarrow> bool" where
  "typed_ok env sj db \<longleftrightarrow> distinct (map head_key (td_heads db)) \<and> (\<forall>k. \<forall>(d, doc)\<in>set (documents db k). row_decoded env sj k doc)"

text \<open>What is relied on of JCS and of the JSON decoder: canonicalizing twice changes nothing, and an encoded head is decoded as it was.\<close>

definition codec_laws :: "state_codec \<Rightarrow> bool" where
  "codec_laws sj \<longleftrightarrow> (\<forall>raw c. sj_canonicalize sj raw = Some c \<longrightarrow> sj_canonicalize sj c = Some c) \<and>
     (\<forall>h c. sj_encodeHead sj h = Some c \<longrightarrow> sj_canonicalize sj c = Some c \<and> sj_head sj c = Some h)"

lemma documents_set: "set (documents db k) = {(tmf_manifest_digest m, tmf_canonical_document m) |m. m \<in> set (td_manifests db) \<and> manifest_key m = k}"
  by (auto simp: documents_def)

lemma insert_all_frame:
  assumes "insert_all f rs db = Inr db'" "\<And>r a b. f r a = Inr b \<Longrightarrow> P a \<Longrightarrow> P b" "P db"
  shows "P db'"
  using assms(1,3) by (induction rs arbitrary: db) (auto dest: assms(2))

lemma put_manifest_tx_effect:
  assumes "put_manifest_tx db m canonical digest = Inr (db', fresh)"
  shows "td_heads db' = td_heads db \<and> td_requests db' = td_requests db \<and>
    (td_manifests db' = td_manifests db \<or> td_manifests db' = td_manifests db @ [manifest_row m canonical digest])"
proof (cases "find_manifest db (sm_RepositoryScopeSHA256 m) (sm_Kind m) (digestPrefix @ digest)")
  case (Some r)
  with assms show ?thesis by (auto simp: put_manifest_tx_def split: if_splits)
next
  case None
  let ?r = "manifest_row m canonical digest"
  define P where "P b \<longleftrightarrow> td_heads b = td_heads db \<and> td_requests b = td_requests db \<and> td_manifests b = td_manifests db @ [?r]" for b :: state_db
  from assms None obtain db1 db2 where 1: "insert_manifest ?r db = Inr db1"
    "insert_all insert_artifact (map (artifact_row m digest) (sm_Artifacts m)) db1 = Inr db2"
    "insert_all insert_reference (map (reference_row m digest) (sm_References m)) db2 = Inr db'"
    by (auto simp: put_manifest_tx_def split: if_splits sum.splits)
  have "P db1" using 1(1) by (auto simp: P_def insert_manifest_def split: if_splits)
  then have "P db2" by (rule insert_all_frame [OF 1(2), rotated]) (auto simp: P_def insert_artifact_def split: if_splits)
  then have "P db'" by (rule insert_all_frame [OF 1(3), rotated]) (auto simp: P_def insert_reference_def split: if_splits)
  then show ?thesis by (simp add: P_def)
qed

lemma put_object_frame:
  assumes "PutStateObject env t scope kind expected bytes now = (t', r)"
  shows "td_heads (ty_db t') = td_heads (ty_db t)" "td_requests (ty_db t') = td_requests (ty_db t)" "td_manifests (ty_db t') = td_manifests (ty_db t)"
  using assms by (auto simp: PutStateObject_def insert_object_def Let_def split: if_splits sum.splits prod.splits)

lemma put_manifest_frame:
  assumes "PutStateManifest env sj t raw commits = (t', r)" "codec_laws sj"
  shows "td_heads (ty_db t') = td_heads (ty_db t)" "td_requests (ty_db t') = td_requests (ty_db t)"
    "typed_ok env sj (ty_db t) \<Longrightarrow> typed_ok env sj (ty_db t')"
proof -
  have "ty_db t' = ty_db t \<or> (\<exists>m canonical digest db' fresh. decodeStateManifest env sj raw = Inr (m, canonical, digest) \<and>
      put_manifest_tx (ty_db t) m canonical digest = Inr (db', fresh) \<and> ty_db t' = db')"
    using assms(1) by (auto simp: PutStateManifest_def split: if_splits sum.splits prod.splits)
  then consider "ty_db t' = ty_db t" | m canonical digest fresh where "decodeStateManifest env sj raw = Inr (m, canonical, digest)"
    "put_manifest_tx (ty_db t) m canonical digest = Inr (ty_db t', fresh)" by blast
  then have "td_heads (ty_db t') = td_heads (ty_db t) \<and> td_requests (ty_db t') = td_requests (ty_db t) \<and>
    (typed_ok env sj (ty_db t) \<longrightarrow> typed_ok env sj (ty_db t'))"
  proof cases
    case 2
    note e = put_manifest_tx_effect [OF 2(2)]
    have "sj_canonicalize sj canonical = Some canonical" using 2(1) assms(2) by (auto simp: decodeStateManifest_def codec_laws_def split: option.splits if_splits)
    then have "decodeStateManifest env sj canonical = Inr (m, canonical, digest)"
      using 2(1) by (auto simp: decodeStateManifest_def split: option.splits if_splits)
    then have "row_decoded env sj (manifest_key (manifest_row m canonical digest)) canonical"
      by (simp add: row_decoded_def manifest_row_def manifest_key_def)
    moreover have "tmf_canonical_document (manifest_row m canonical digest) = canonical" by (simp add: manifest_row_def)
    ultimately show ?thesis using e by (fastforce simp: typed_ok_def documents_set)
  qed simp
  then show "td_heads (ty_db t') = td_heads (ty_db t)" "td_requests (ty_db t') = td_requests (ty_db t)"
    "typed_ok env sj (ty_db t) \<Longrightarrow> typed_ok env sj (ty_db t')" by auto
qed

lemma maintain_frame:
  assumes "MaintainState t now commits = (t', r)"
  shows "td_requests (ty_db t') = td_requests (ty_db t)" "typed_ok env sj (ty_db t) \<Longrightarrow> typed_ok env sj (ty_db t')"
    "kind \<noteq> StateKindCheckpoint \<Longrightarrow> find_head (ty_db t') scope kind = find_head (ty_db t) scope kind"
proof -
  have "ty_db t' = ty_db t \<or> (\<exists>report. maintain_state_tx (ty_db t) now = Inr (ty_db t', report))"
    using assms by (auto simp: MaintainState_def maintainStateMetadata_def Let_def split: if_splits sum.splits prod.splits)
  then consider "ty_db t' = ty_db t" | report where "maintain_state_tx (ty_db t) now = Inr (ty_db t', report)" by blast
  then have "td_requests (ty_db t') = td_requests (ty_db t) \<and> (typed_ok env sj (ty_db t) \<longrightarrow> typed_ok env sj (ty_db t')) \<and>
    (kind \<noteq> StateKindCheckpoint \<longrightarrow> find_head (ty_db t') scope kind = find_head (ty_db t) scope kind)"
  proof cases
    case 2
    note k = maintain_state_kept [OF 2] and f = maintain_state_frame [OF 2]
    have "find_head (ty_db t') scope kind = find_head (ty_db t) scope kind" if "kind \<noteq> StateKindCheckpoint"
    proof -
      have "filter (\<lambda>h. head_key h = (scope, kind)) (td_heads (ty_db t')) = filter (\<lambda>h. head_key h = (scope, kind)) (td_heads (ty_db t))"
        unfolding k(2) filter_filter using that by (intro filter_cong) (auto simp: expired_head_def head_key_def)
      then show ?thesis by (simp add: find_head_def find_filter)
    qed
    moreover have "typed_ok env sj (ty_db t')" if "typed_ok env sj (ty_db t)"
      using that f(2) by (fastforce simp: typed_ok_def k(2) intro: distinct_map_filter)
    ultimately show ?thesis using f(1) by simp
  qed simp
  then show "td_requests (ty_db t') = td_requests (ty_db t)" "typed_ok env sj (ty_db t) \<Longrightarrow> typed_ok env sj (ty_db t')"
    "kind \<noteq> StateKindCheckpoint \<Longrightarrow> find_head (ty_db t') scope kind = find_head (ty_db t) scope kind" by auto
qed

section \<open>The heads as a monotone register\<close>

definition state_above :: "TypedStorage \<Rightarrow> TypedStorage \<Rightarrow> bool" where
  "state_above t t' \<longleftrightarrow>
     (\<forall>scope kind r. kind \<noteq> StateKindCheckpoint \<longrightarrow> find_head (ty_db t) scope kind = Some r \<longrightarrow>
        (\<exists>r'. find_head (ty_db t') scope kind = Some r' \<and> (r' = r \<or> thd_generation r < thd_generation r'))) \<and>
     (\<forall>key r. find_request (ty_db t) key = Some r \<longrightarrow> find_request (ty_db t') key = Some r)"

lemma state_aboveI:
  assumes "\<And>scope kind r. kind \<noteq> StateKindCheckpoint \<Longrightarrow> find_head (ty_db t) scope kind = Some r \<Longrightarrow>
      \<exists>r'. find_head (ty_db t') scope kind = Some r' \<and> (r' = r \<or> thd_generation r < thd_generation r')"
    and "\<exists>rs. td_requests (ty_db t') = td_requests (ty_db t) @ rs"
  shows "state_above t t'"
proof -
  have "find P xs = Some y \<Longrightarrow> find P (xs @ ys) = Some y" for P :: "state_request_row \<Rightarrow> bool" and xs ys y by (induction xs) (auto split: if_splits)
  with assms show ?thesis by (auto simp: state_above_def find_request_def)
qed

lemma state_aboveD:
  assumes "state_above t t'"
  shows "kind \<noteq> StateKindCheckpoint \<Longrightarrow> find_head (ty_db t) scope kind = Some r \<Longrightarrow>
      \<exists>r'. find_head (ty_db t') scope kind = Some r' \<and> (r' = r \<or> thd_generation r < thd_generation r')"
    and "find_request (ty_db t) key = Some row \<Longrightarrow> find_request (ty_db t') key = Some row"
  using assms unfolding state_above_def by simp_all

lemma state_above_same:
  "td_heads (ty_db t') = td_heads (ty_db t) \<Longrightarrow> td_requests (ty_db t') = td_requests (ty_db t) \<Longrightarrow> state_above t t'"
  by (simp add: state_above_def find_head_def find_request_def)

lemma find_head_mapped: "(\<And>x. key (g x) = key x) \<Longrightarrow> find (\<lambda>r. key r = k) (map g xs) = map_option g (find (\<lambda>r. key r = k) xs)"
  by (induction xs) auto

lemma cas_heads:
  assumes "cas_written t q now c db'"
  defines "r \<equiv> head_row q (cr_head c) (cr_canonical c) (cr_digest c) now"
  shows "find_head (ty_db t) scope kind = Some x \<Longrightarrow> find_head db' scope kind = Some x \<or> find_head db' scope kind = Some (swapped q r x)"
    and "distinct (map head_key (td_heads (ty_db t))) \<Longrightarrow> distinct (map head_key (td_heads db'))"
    and "r \<in> set (td_heads db')"
proof -
  note e = cas_written_effect(2) [OF assms(1), folded r_def]
  have app: "find P xs = Some y \<Longrightarrow> find P (xs @ ys) = Some y" for P :: "state_head_row \<Rightarrow> bool" and xs ys y by (induction xs) (auto split: if_splits)
  show "find_head db' scope kind = Some x \<or> find_head db' scope kind = Some (swapped q r x)" if "find_head (ty_db t) scope kind = Some x"
    using e that app by (auto simp: find_head_def find_head_mapped split: option.splits)
  have "head_key \<circ> swapped q r = head_key" by (simp add: fun_eq_iff)
  then show "distinct (map head_key (td_heads db'))" if "distinct (map head_key (td_heads (ty_db t)))"
    using e that by (auto split: option.splits)
  show "r \<in> set (td_heads db')" using e by (force simp: swapped_def split: option.splits)
qed

lemma cas_above:
  assumes "CASStateHead env sj t q now stamp commits = (t', r)"
  shows "state_above t t'" "typed_ok env sj (ty_db t) \<Longrightarrow> typed_ok env sj (ty_db t')"
proof -
  from assms have "state_above t t' \<and> (typed_ok env sj (ty_db t) \<longrightarrow> typed_ok env sj (ty_db t'))"
  proof (cases rule: CASStateHead_cases)
    case (published c db')
    let ?r = "head_row q (cr_head c) (cr_canonical c) (cr_digest c) now"
    have gen: "ch_Generation (cr_head c) = cq_ExpectedGeneration q + 1"
      using published(1) by (auto simp: cas_checked_def dest!: next_head_fields(1))
    have "\<exists>r'. find_head (ty_db t') scope kind = Some r' \<and> (r' = x \<or> thd_generation x < thd_generation r')" if "find_head (ty_db t) scope kind = Some x" for scope kind x
      using cas_heads(1) [OF published(2) that] gen by (auto simp: published(3) swapped_def expected_row_def split: if_splits)
    moreover have "\<exists>rs. td_requests (ty_db t') = td_requests (ty_db t) @ rs" using cas_written_effect(3) [OF published(2)] by (simp add: published(3))
    ultimately have "state_above t t'" by (rule state_aboveI)
    moreover have "documents db' k = documents (ty_db t) k" for k using cas_written_effect(1) [OF published(2)] by (simp add: same_view_def)
    ultimately show ?thesis using cas_heads(2) [OF published(2)] by (simp add: typed_ok_def published(3))
  qed (auto intro: state_above_same)
  then show "state_above t t'" "typed_ok env sj (ty_db t) \<Longrightarrow> typed_ok env sj (ty_db t')" by auto
qed

lemma step_above:
  assumes "typed_step env sj t t'"
  shows "state_above t t'"
  using assms
proof cases
  case step_object
  then show ?thesis by (intro state_above_same) (auto dest: put_object_frame)
next
  case (step_manifest raw commits r)
  have "td_heads (ty_db t') = td_heads (ty_db t) \<and> td_requests (ty_db t') = td_requests (ty_db t)"
    using step_manifest by (auto simp: PutStateManifest_def dest!: put_manifest_tx_effect split: if_splits sum.splits prod.splits)
  then show ?thesis by (intro state_above_same) auto
next
  case step_maintain
  note f = maintain_frame [OF step_maintain]
  show ?thesis using f(1,3) by (intro state_aboveI) simp_all
qed (auto intro: cas_above state_above_same)

interpretation typed_register: monotone_register "typed_step env sj" state_above
proof
  show "state_above t t" for t by (rule state_above_same) simp_all
  show "state_above t t''" if "state_above t t'" "state_above t' t''" for t t' t''
  proof -
    have "\<exists>r''. find_head (ty_db t'') scope kind = Some r'' \<and> (r'' = r \<or> thd_generation r < thd_generation r'')"
      if h: "kind \<noteq> StateKindCheckpoint" "find_head (ty_db t) scope kind = Some r" for scope kind r
    proof -
      obtain r' where 1: "find_head (ty_db t') scope kind = Some r'" "r' = r \<or> thd_generation r < thd_generation r'"
        using state_aboveD(1) [OF \<open>state_above t t'\<close> h] by blast
      obtain r'' where 2: "find_head (ty_db t'') scope kind = Some r''" "r'' = r' \<or> thd_generation r' < thd_generation r''"
        using state_aboveD(1) [OF \<open>state_above t' t''\<close> h(1) 1(1)] by blast
      from 1(2) 2(2) have "r'' = r \<or> thd_generation r < thd_generation r''" by auto
      with 2(1) show ?thesis by blast
    qed
    then show ?thesis using state_aboveD(2) [OF that(1)] state_aboveD(2) [OF that(2)] unfolding state_above_def by simp
  qed
qed (rule step_above)

lemma step_typed_ok:
  assumes "codec_laws sj" "typed_step env sj t t'" "typed_ok env sj (ty_db t)"
  shows "typed_ok env sj (ty_db t')"
  using assms(2)
proof cases
  case step_object
  then show ?thesis using assms(3) put_object_frame [OF step_object] by (simp add: typed_ok_def documents_set)
next
  case step_manifest
  then show ?thesis using assms put_manifest_frame(3) by blast
next
  case step_cas
  then show ?thesis using assms(3) cas_above(2) by blast
next
  case step_maintain
  then show ?thesis using assms(3) maintain_frame(2) by blast
qed (use assms(3) in simp)

lemma run_typed_ok:
  assumes "(typed_step env sj)\<^sup>*\<^sup>* t t'" "codec_laws sj" "typed_ok env sj (ty_db t)"
  shows "typed_ok env sj (ty_db t')"
  using assms by (induction rule: rtranclp_induct) (auto intro: step_typed_ok)

lemma reachable_ok: "typed_reachable env sj t \<Longrightarrow> codec_laws sj \<Longrightarrow> typed_ok env sj (ty_db t)"
proof -
  assume "typed_reachable env sj t" "codec_laws sj"
  then obtain t0 where "ty_db t0 = empty_state" "(typed_step env sj)\<^sup>*\<^sup>* t0 t" unfolding typed_reachable_def by blast
  moreover have "typed_ok env sj empty_state" by (simp add: typed_ok_def empty_state_def documents_def)
  ultimately show ?thesis using run_typed_ok \<open>codec_laws sj\<close> by metis
qed

section \<open>Properties\<close>

lemma find_head_distinct: "distinct (map head_key xs) \<Longrightarrow> r \<in> set xs \<Longrightarrow> head_key r = k \<Longrightarrow> find (\<lambda>x. head_key x = k) xs = Some r"
  by (induction xs) force+

lemma cas_new_head:
  assumes "cas_checked env sj t q now stamp c" "cas_written t q now c db'" "typed_ok env sj (ty_db t)"
  shows "find_head db' (cq_RepositoryScopeSHA256 q) (cq_Kind q) = Some (head_row q (cr_head c) (cr_canonical c) (cr_digest c) now)"
  using cas_heads(2,3) [OF assms(2)] assms(3) by (simp add: find_head_def typed_ok_def find_head_distinct)

lemma cas_old_head:
  assumes "cas_checked env sj t q now stamp c" "cas_written t q now c db'" "typed_ok env sj (ty_db t)"
    and "find_head (ty_db t) (cq_RepositoryScopeSHA256 q) (cq_Kind q) = Some r"
  shows "thd_generation r = cq_ExpectedGeneration q" "thd_head_digest r = digestPrefix @ cq_ExpectedHeadSHA256 q"
proof -
  let ?r = "head_row q (cr_head c) (cr_canonical c) (cr_digest c) now"
  have "currentStateHeadTx env sj (ty_db t) (cq_RepositoryScopeSHA256 q) (cq_Kind q) \<noteq> Inr None"
    using assms(4) by (simp add: currentStateHeadTx_def Let_def split: sum.splits)
  then obtain p where "cr_current c = Some p" using assms(1) by (cases "cr_current c") (simp_all add: cas_checked_def)
  then obtain x where x: "x \<in> set (td_heads (ty_db t))" "expected_row q ?r x" using cas_written_effect(2) [OF assms(2)] by auto
  then have "find_head (ty_db t) (cq_RepositoryScopeSHA256 q) (cq_Kind q) = Some x"
    using assms(3) by (simp add: find_head_def typed_ok_def expected_row_def find_head_distinct)
  with x assms(4) show "thd_generation r = cq_ExpectedGeneration q" "thd_head_digest r = digestPrefix @ cq_ExpectedHeadSHA256 q"
    by (simp_all add: expected_row_def)
qed

text \<open>
  (C14) Each generation of a portfolio or of evidence is published at most once, whatever happens between two requests:
  if two compare-and-swap requests for the same repository and kind publish, the later one expected a later generation.
\<close>

theorem typed_generation_once:
  assumes "typed_reachable env sj t" "codec_laws sj"
    and "CASStateHead env sj t q now stamp commits = (t1, Inr z)" "\<not> cz_Replayed z"
    and "(typed_step env sj)\<^sup>*\<^sup>* t1 t2"
    and "CASStateHead env sj t2 q' now' stamp' commits' = (t3, Inr z')" "\<not> cz_Replayed z'"
    and "cq_RepositoryScopeSHA256 q' = cq_RepositoryScopeSHA256 q" "cq_Kind q' = cq_Kind q" "cq_Kind q \<noteq> StateKindCheckpoint"
  shows "cq_ExpectedGeneration q < cq_ExpectedGeneration q'"
proof -
  have ok: "typed_ok env sj (ty_db t)" using assms(1,2) by (rule reachable_ok)
  then have ok1: "typed_ok env sj (ty_db t1)" using cas_above(2) [OF assms(3)] by simp
  have ok2: "typed_ok env sj (ty_db t2)" using run_typed_ok [OF assms(5,2) ok1] .
  from assms(3) obtain c db1 where c: "cas_checked env sj t q now stamp c" "cas_written t q now c db1" "t1 = with_db t db1"
    by (cases rule: CASStateHead_cases) (use assms(4) cas_replay_Inr(1) in auto)
  from assms(6) obtain c' db3 where c': "cas_checked env sj t2 q' now' stamp' c'" "cas_written t2 q' now' c' db3"
    by (cases rule: CASStateHead_cases) (use assms(7) cas_replay_Inr(1) in auto)
  have g: "ch_Generation (cr_head c) = cq_ExpectedGeneration q + 1" using c(1) by (auto simp: cas_checked_def dest!: next_head_fields(1))
  have "find_head (ty_db t1) (cq_RepositoryScopeSHA256 q) (cq_Kind q) = Some (head_row q (cr_head c) (cr_canonical c) (cr_digest c) now)"
    using cas_new_head [OF c(1,2) ok] c(3) by simp
  from state_aboveD(1) [OF typed_register.history_above [OF assms(5)] assms(10) this]
  obtain r' where r': "find_head (ty_db t2) (cq_RepositoryScopeSHA256 q') (cq_Kind q') = Some r'" "cq_ExpectedGeneration q + 1 \<le> thd_generation r'"
    using g assms(8,9) by auto
  then show ?thesis using cas_old_head(1) [OF c' ok2 r'(1)] by simp
qed

lemma published_decodes:
  assumes "cas_checked env sj t q now stamp c" "codec_laws sj" "ValidUTCTimestamp stamp"
  shows "decodeStateHead sj (cr_canonical c) = Inr (cr_head c)" "cr_digest c = digestBytes env (cr_canonical c)"
proof -
  let ?h = "cr_head c" and ?m = "cr_manifest c" and ?cur = "cr_current c"
  from assms(1) have q: "cas_request_ok q" and p: "proposed_ok env sj q" and gen: "sm_Generation ?m = cq_ExpectedGeneration q + 1"
    and next_head: "next_head q ?m ?cur now stamp = Inr ?h" and enc: "canonicalStateHead env sj ?h = Inr (cr_canonical c, cr_digest c)"
    and cur: "currentStateHeadTx env sj (ty_db t) (cq_RepositoryScopeSHA256 q) (cq_Kind q) = Inr ?cur" "precondition_ok q ?cur"
    and m: "loadStateManifestTx env sj (ty_db t) (cq_RepositoryScopeSHA256 q) (cq_Kind q) (cq_ManifestSHA256 q) = Inr ?m"
    by (simp_all add: cas_checked_def)
  from enc have e: "sj_encodeHead sj ?h = Some (cr_canonical c)" "cr_digest c = digestBytes env (cr_canonical c)"
    by (auto simp: canonicalStateHead_def split: option.splits)
  show "cr_digest c = digestBytes env (cr_canonical c)" by (rule e)
  have l: "sj_canonicalize sj (cr_canonical c) = Some (cr_canonical c)" "sj_head sj (cr_canonical c) = Some ?h"
    using assms(2) e(1) by (auto simp: codec_laws_def)
  show "decodeStateHead sj (cr_canonical c) = Inr ?h"
  proof (cases "cq_ProposedHead q")
    case (Some h)
    then have "?h = h" using next_head by (auto simp: next_head_def split: if_splits)
    with Some p enc show ?thesis by (simp add: proposed_ok_def)
  next
    case None
    then have h: "?h = authored_head q ?m ?cur stamp" using next_head by (auto simp: next_head_def split: if_splits)
    have compat: "Leases.validSHA256 (sm_CompatibilitySHA256 ?m)"
      using m by (auto simp: loadStateManifestTx_def decodeStateManifest_def validateStateManifest_def manifest_fields_ok_def split: option.splits if_splits)
    have prev: "(sm_Generation ?m = 1 \<longrightarrow> previous_manifest ?cur = []) \<and> (sm_Generation ?m > 1 \<longrightarrow> Leases.validSHA256 (previous_manifest ?cur))"
    proof (cases ?cur)
      case (Some x)
      obtain hd' d where x: "x = (hd', d)" by force
      have "head_fields_ok hd'" using cur(1) Some x
        by (auto simp: currentStateHeadTx_def decodeStateHead_def Let_def split: option.splits sum.splits if_splits)
      then show ?thesis using Some x cur(2) gen by (auto simp: previous_manifest_def precondition_ok_def head_fields_ok_def)
    qed (use cur(2) gen in \<open>simp add: previous_manifest_def precondition_ok_def\<close>)
    have "head_fields_ok ?h"
      using q gen compat prev assms(3) by (simp add: h authored_head_def head_fields_ok_def cas_request_ok_def validStateAuthority_def)
    with l show ?thesis by (simp add: decodeStateHead_def)
  qed
qed

lemma verify_artifact_None:
  "verify_artifact env s db e a = None \<longleftrightarrow> (\<exists>rest bytes. artifact_sizes db a = tar_size_bytes a # rest \<and>
     openVerified env s \<lparr>bl_Digest = tar_blob_digest a, bl_Size = tar_size_bytes a\<rparr> = Inr bytes)"
  by (auto simp: verify_artifact_def split: list.splits sum.splits)

lemma manifest_loaded:
  assumes "loadStateManifestTx env sj db scope kind digest = Inr m"
  shows "\<exists>rest doc. documents db (scope, kind, digestPrefix @ digest) = (digestPrefix @ digest, doc) # rest \<and>
    decodeStateManifest env sj doc = Inr (m, doc, digest)" "validateStateManifest m"
proof -
  from assms obtain r where r: "find_manifest db scope kind (digestPrefix @ digest) = Some r"
    "decodeStateManifest env sj (tmf_canonical_document r) = Inr (m, tmf_canonical_document r, digest)"
    by (auto simp: loadStateManifestTx_def split: option.splits sum.splits if_splits)
  then obtain rest where "filter (\<lambda>x. manifest_key x = (scope, kind, digestPrefix @ digest)) (td_manifests db) = r # rest"
    by (auto simp: find_manifest_def find_filter split: list.splits)
  moreover have "tmf_manifest_digest r = digestPrefix @ digest" using r(1) by (auto simp: find_manifest_def find_Some_iff manifest_key_def)
  ultimately show "\<exists>rest doc. documents db (scope, kind, digestPrefix @ digest) = (digestPrefix @ digest, doc) # rest \<and>
      decodeStateManifest env sj doc = Inr (m, doc, digest)" using r(2) by (simp add: documents_def)
  show "validateStateManifest m" using r(2) by (auto simp: decodeStateManifest_def split: option.splits if_splits)
qed

lemma head_join_found:
  assumes "find_head db scope kind = Some hr" "documents db (head_manifest hr) = (digest, doc) # rest"
  shows "\<exists>mr rest. head_join db scope kind = (hr, mr) # rest \<and> tmf_manifest_digest mr = digest \<and> tmf_canonical_document mr = doc"
proof -
  have "\<exists>rest. head_documents db scope kind = (hr, digest, doc) # rest"
    using assms by (auto simp: head_documents_def find_head_def find_filter split: list.splits)
  then show ?thesis by (cases "head_join db scope kind") (auto simp: head_documents_join)
qed

lemma cas_loads:
  assumes c: "cas_checked env sj t q now stamp c" "cas_written t q now c db'" "typed_ok env sj (ty_db t)" "codec_laws sj" "ValidUTCTimestamp stamp"
    and later: "cq_Kind q = StateKindCheckpoint \<longrightarrow> later < state_time (sm_ExpiresAt (cr_manifest c))"
    and s: "so_blobs s = so_blobs (ty_storage t)" "so_maximumBlobBytes s = so_maximumBlobBytes (ty_storage t)"
  shows "load_current env sj s db' (cq_RepositoryScopeSHA256 q) (cq_Kind q) later =
    Inr \<lparr>ss_Head = cr_head c, ss_HeadSHA256 = cr_digest c, ss_Manifest = cr_manifest c, ss_ManifestSHA256 = cq_ManifestSHA256 q\<rparr>"
proof -
  let ?scope = "cq_RepositoryScopeSHA256 q" and ?kind = "cq_Kind q" and ?m = "cr_manifest c" and ?d = "cq_ManifestSHA256 q"
  let ?hr = "head_row q (cr_head c) (cr_canonical c) (cr_digest c) now" and ?k = "(cq_RepositoryScopeSHA256 q, cq_Kind q, digestPrefix @ cq_ManifestSHA256 q)"
  note dec = published_decodes [OF c(1,4,5)] and view = cas_written_effect(1) [OF c(2), of ?k]
  have fields: "ch_Generation (cr_head c) = sm_Generation ?m" "ch_ManifestSHA256 (cr_head c) = ?d" "ch_Kind (cr_head c) = ?kind"
    "ch_RepositoryScopeSHA256 (cr_head c) = ?scope" "ch_CompatibilitySHA256 (cr_head c) = sm_CompatibilitySHA256 ?m"
    using c(1) by (auto simp: cas_checked_def dest: next_head_fields)
  have load: "loadStateManifestTx env sj (ty_db t) ?scope ?kind ?d = Inr ?m" and ver: "verifyStateManifestForPublication env (ty_storage t) (ty_db t) ?m ?d = None"
    using c(1) by (simp_all add: cas_checked_def)
  obtain rest doc where doc: "documents (ty_db t) ?k = (digestPrefix @ ?d, doc) # rest" "decodeStateManifest env sj doc = Inr (?m, doc, ?d)"
    using manifest_loaded(1) [OF load] by blast
  have own: "sm_RepositoryScopeSHA256 ?m = ?scope" "sm_Kind ?m = ?kind"
  proof -
    have "(digestPrefix @ ?d, doc) \<in> set (documents (ty_db t) ?k)" using doc(1) by simp
    then have "row_decoded env sj ?k doc" using c(3) unfolding typed_ok_def by blast
    then show "sm_RepositoryScopeSHA256 ?m = ?scope" "sm_Kind ?m = ?kind" using doc(2) by (simp_all add: row_decoded_def)
  qed
  have "documents db' (head_manifest ?hr) = (digestPrefix @ ?d, doc) # rest" using view doc(1) fields(2) by (simp add: same_view_def)
  from head_join_found [OF cas_new_head [OF c(1-3)] this] obtain mr rest' where j: "head_join db' ?scope ?kind = (?hr, mr) # rest'"
    "tmf_manifest_digest mr = digestPrefix @ ?d" "tmf_canonical_document mr = doc" by blast
  have row: "(artifact_row ?m ?d a)\<lparr>tar_scope := ?scope, tar_kind := ?kind, tar_manifest_digest := digestPrefix @ ?d\<rparr> = artifact_row ?m ?d a"
    "(reference_row ?m ?d r)\<lparr>trf_scope := ?scope, trf_source_kind := ?kind, trf_source_manifest_digest := digestPrefix @ ?d\<rparr> = reference_row ?m ?d r"
    for a r by (simp_all add: artifact_row_def reference_row_def own)
  have art: "verify_artifact env s db' ErrStateCorrupt (artifact_row ?m ?d a) = None" if "a \<in> set (sm_Artifacts ?m)" for a
  proof -
    have "artifact_sizes db' (artifact_row ?m ?d a) = artifact_sizes (ty_db t) (artifact_row ?m ?d a)"
      using view by (simp add: same_view_def artifact_manifest_def artifact_row_def own)
    moreover have "verify_artifact env (ty_storage t) (ty_db t) ErrStateManifestIncomplete (artifact_row ?m ?d a) = None"
      using ver that by (simp add: verifyStateManifestForPublication_def verify_rows_def)
    moreover have "openVerified env s b = openVerified env (ty_storage t) b" for b by (simp only: openVerified_def s)
    ultimately show ?thesis by (simp add: verify_artifact_None)
  qed
  have ref: "reference_targets db' (reference_row ?m ?d r) \<noteq> []" if "r \<in> set (sm_References ?m)" for r
  proof -
    have "reference_targets (ty_db t) (reference_row ?m ?d r) \<noteq> []" using ver that by (simp add: verifyStateManifestForPublication_def verify_rows_def)
    then show ?thesis using view by (simp add: same_view_def reference_source_def reference_row_def own)
  qed
  have ok: "snapshot_matches (cr_head c) ?m ?d" by (simp add: snapshot_matches_def fields own)
  have live: "\<not> (?kind = StateKindCheckpoint \<and> state_time (sm_ExpiresAt ?m) \<le> later)" using later by auto
  have "first_err [each_err (\<lambda>a. verify_artifact env s db' ErrStateCorrupt (artifact_row ?m ?d a)) (sm_Artifacts ?m),
      each_err (\<lambda>r. reject_if (reference_targets db' (reference_row ?m ?d r) = []) ErrStateCorrupt) (sm_References ?m)] = None"
    using art ref by simp
  then show ?thesis
    unfolding load_current_def j(1) list.case prod.case
    by (simp add: dec doc(2) j(2,3) ok live row del: first_err_None each_err_None)
qed

lemma cas_others:
  assumes "cas_written t q now c db'" "(scope, kind) \<noteq> (cq_RepositoryScopeSHA256 q, cq_Kind q)"
  shows "find_head db' scope kind = find_head (ty_db t) scope kind"
proof -
  let ?r = "head_row q (cr_head c) (cr_canonical c) (cr_digest c) now"
  have app: "find P (xs @ [r]) = find P xs" if "\<not> P r" for P :: "state_head_row \<Rightarrow> bool" and xs r using that by (induction xs) auto
  have "map_option (swapped q ?r) (find_head (ty_db t) scope kind) = find_head (ty_db t) scope kind"
  proof (cases "find_head (ty_db t) scope kind")
    case (Some x)
    then have "head_key x = (scope, kind)" by (auto simp: find_head_def find_Some_iff)
    with Some assms(2) show ?thesis by (auto simp: swapped_def expected_row_def)
  qed simp
  then show ?thesis
    using cas_written_effect(2) [OF assms(1)] assms(2) app [of "\<lambda>r. head_key r = (scope, kind)" ?r]
    by (auto simp: find_head_def find_head_mapped split: option.splits)
qed

text \<open>
  (C9) A compare-and-swap that publishes moves the head from exactly the generation and digest that were expected to
  the next generation, and what it publishes is complete: the next load returns the new head with its manifest, every
  artifact verified against its digest and every reference resolved. Heads of other repositories and kinds are left alone.
\<close>

theorem typed_cas_current:
  assumes "typed_reachable env sj t" "codec_laws sj" "ValidUTCTimestamp stamp"
    and "CASStateHead env sj t q now stamp commits = (t', Inr z)" "\<not> cz_Replayed z"
  shows "(case find_head (ty_db t) (cq_RepositoryScopeSHA256 q) (cq_Kind q) of
        None \<Rightarrow> cq_ExpectedGeneration q = 0
      | Some r \<Rightarrow> thd_generation r = cq_ExpectedGeneration q \<and> thd_head_digest r = digestPrefix @ cq_ExpectedHeadSHA256 q) \<and>
    (\<exists>m. sm_Generation m = cq_ExpectedGeneration q + 1 \<and> validateStateManifest m \<and>
       (\<forall>later. (cq_Kind q = StateKindCheckpoint \<longrightarrow> later < state_time (sm_ExpiresAt m)) \<longrightarrow>
          LoadCurrentState env sj t' (cq_RepositoryScopeSHA256 q) (cq_Kind q) later =
          Inr \<lparr>ss_Head = cz_Head z, ss_HeadSHA256 = cz_HeadSHA256 z, ss_Manifest = m, ss_ManifestSHA256 = cq_ManifestSHA256 q\<rparr>)) \<and>
    (\<forall>scope kind. (scope, kind) \<noteq> (cq_RepositoryScopeSHA256 q, cq_Kind q) \<longrightarrow> find_head (ty_db t') scope kind = find_head (ty_db t) scope kind)"
proof -
  have ok: "typed_ok env sj (ty_db t)" using assms(1,2) by (rule reachable_ok)
  from assms(4) obtain c db' where c: "cas_checked env sj t q now stamp c" "cas_written t q now c db'" "t' = with_db t db'"
    and z: "z = \<lparr>cz_Head = cr_head c, cz_HeadSHA256 = cr_digest c, cz_Replayed = False\<rparr>"
    by (cases rule: CASStateHead_cases) (use assms(5) cas_replay_Inr(1) in auto)
  have "cq_ExpectedGeneration q = 0" if "find_head (ty_db t) (cq_RepositoryScopeSHA256 q) (cq_Kind q) = None"
    using c(1) that by (auto simp: cas_checked_def currentStateHeadTx_def precondition_ok_def)
  then have "case find_head (ty_db t) (cq_RepositoryScopeSHA256 q) (cq_Kind q) of None \<Rightarrow> cq_ExpectedGeneration q = 0
      | Some r \<Rightarrow> thd_generation r = cq_ExpectedGeneration q \<and> thd_head_digest r = digestPrefix @ cq_ExpectedHeadSHA256 q"
    using cas_old_head [OF c(1,2) ok] by (auto split: option.splits)
  moreover have m: "sm_Generation (cr_manifest c) = cq_ExpectedGeneration q + 1" "validateStateManifest (cr_manifest c)"
    and q: "cas_request_ok q" "\<not> so_closed (ty_storage t)" using c(1) by (auto simp: cas_checked_def dest: manifest_loaded(2))
  moreover have "LoadCurrentState env sj t' (cq_RepositoryScopeSHA256 q) (cq_Kind q) later =
      Inr \<lparr>ss_Head = cz_Head z, ss_HeadSHA256 = cz_HeadSHA256 z, ss_Manifest = cr_manifest c, ss_ManifestSHA256 = cq_ManifestSHA256 q\<rparr>"
    if "cq_Kind q = StateKindCheckpoint \<longrightarrow> later < state_time (sm_ExpiresAt (cr_manifest c))" for later
    using cas_loads [OF c(1,2) ok assms(2,3) that, of "ty_storage t'"] q by (simp add: LoadCurrentState_def cas_request_ok_def c(3) z)
  moreover have "find_head (ty_db t') scope kind = find_head (ty_db t) scope kind" if "(scope, kind) \<noteq> (cq_RepositoryScopeSHA256 q, cq_Kind q)" for scope kind
    using cas_others [OF c(2) that] c(3) by simp
  ultimately show ?thesis by blast
qed

text \<open>
  (C22) A compare-and-swap that was answered can be repeated at any later time, after any other operations: it is answered
  with the same head, marked as a replay, and changes no row.
\<close>

theorem typed_cas_replay:
  assumes "codec_laws sj" "ValidUTCTimestamp stamp" "CASStateHead env sj t q now stamp commits = (t1, Inr z)"
    and "(typed_step env sj)\<^sup>*\<^sup>* t1 t2" "\<not> so_closed (ty_storage t2)"
  shows "\<exists>t3. CASStateHead env sj t2 q now' stamp' True = (t3, Inr (z\<lparr>cz_Replayed := True\<rparr>)) \<and> ty_db t3 = ty_db t2"
proof -
  obtain fp row where q: "cas_request_ok q" "proposed_ok env sj q" "stateCASFingerprint env sj q = Inr fp"
    and row: "find_request (ty_db t1) (cq_IdempotencyKey q) = Some row" "cas_replay env sj fp row = Inr (z\<lparr>cz_Replayed := True\<rparr>)"
    using assms(3)
  proof (cases rule: CASStateHead_cases)
    case (replayed fp row z')
    with that show ?thesis using cas_replay_Inr(1) [OF replayed(6)] by simp
  next
    case (published c db')
    let ?row = "request_row q (cr_fingerprint c) (cr_head c) (cr_canonical c) (cr_digest c) now"
    note dec = published_decodes [OF published(1) assms(1,2)]
    have app: "find P xs = None \<Longrightarrow> P r \<Longrightarrow> find P (xs @ [r]) = Some r" for P :: "state_request_row \<Rightarrow> bool" and xs r by (induction xs) (auto split: if_splits)
    have "find_request (ty_db t) (cq_IdempotencyKey q) = None" using published(1) by (simp add: cas_checked_def)
    then have "find_request (ty_db t1) (cq_IdempotencyKey q) = Some ?row"
      using cas_written_effect(3) [OF published(2)] by (simp add: published(3) find_request_def app request_row_def)
    moreover have "cas_replay env sj (cr_fingerprint c) ?row = Inr (z\<lparr>cz_Replayed := True\<rparr>)"
      using dec published(4) by (simp add: cas_replay_def request_row_def)
    ultimately show ?thesis using that published(1) by (simp add: cas_checked_def)
  qed simp
  have "find_request (ty_db t2) (cq_IdempotencyKey q) = Some row"
    using state_aboveD(2) [OF typed_register.history_above [OF assms(4)] row(1)] .
  then have "cas_tx env sj (ty_storage t2) (ty_db t2) q fp now' stamp' = Inr (ty_db t2, z\<lparr>cz_Replayed := True\<rparr>)" using row(2) by (simp add: cas_tx_def)
  then show ?thesis using q assms(5) by (simp add: CASStateHead_def)
qed

end
