(* ===== verification/TypedExample.thy ===== *)
theory TypedExample
  imports TypedHeads
begin

text \<open>
  A concrete run of the typed state: evidence and a portfolio of one repository are put and published. It shows that
  the hypotheses of the properties can be met.
\<close>

definition tx_hash :: "string \<Rightarrow> string" where "tx_hash bytes = replicate 64 (case bytes of [] \<Rightarrow> CHR ''0'' | c # _ \<Rightarrow> c)"

definition tx_env :: environment where
  "tx_env = \<lparr>sha256_hex = tx_hash, map_order = (\<lambda>xs. xs), json_start = (\<lambda>_. []), json_abort = (\<lambda>_. []), json_expired = (\<lambda>_ _. []),
     json_quarantine = (\<lambda>_ _ _. [])\<rparr>"

definition tx_sha :: "char \<Rightarrow> string" where "tx_sha c = replicate 64 c"

definition tx_authority :: StateAuthority where
  "tx_authority = \<lparr>sa_SelectionRequiresLocalRevalidation = True, sa_ProductionAuthorized = False, sa_TestOptimization = ''OUT_OF_SCOPE''\<rparr>"

definition tx_stamp :: string where "tx_stamp = ''2026-01-01T00:00:01Z''"

definition tx_now :: int where "tx_now = 1767225601000000000"

definition tx_manifest :: "StateKind \<Rightarrow> int \<Rightarrow> string \<Rightarrow> string \<Rightarrow> StateReference list \<Rightarrow> StateManifest" where
  "tx_manifest kind generation role retention references =
     \<lparr>sm_SchemaVersion = ''buildopt.central/state-manifest/v1'', sm_RecordType = ''CENTRAL_STATE_MANIFEST'', sm_Kind = kind,
      sm_RepositoryScopeSHA256 = tx_sha (CHR ''5''), sm_Generation = generation, sm_CompatibilitySHA256 = tx_sha (CHR ''6''),
      sm_BindingsSHA256 = tx_sha (CHR ''7''),
      sm_Origin = \<lparr>og_BaseRevision = tx_sha (CHR ''1''), og_TargetRevision = tx_sha (CHR ''2''), og_BuildOptExecutableSHA256 = tx_sha (CHR ''3''),
        og_WrapperSHA256 = tx_sha (CHR ''4''), og_GradleVersion = ''8.5''\<rparr>,
      sm_Artifacts = [\<lparr>sf_Role = role, sf_SHA256 = tx_sha (CHR ''0''), sf_SizeBytes = 1, sf_PayloadSchemaVersion = ''buildopt.state/payload/v1''\<rparr>],
      sm_References = references, sm_Status = ''COMPLETE'', sm_RetentionClass = retention, sm_CreatedAt = ''2026-01-01T00:00:00Z'',
      sm_ExpiresAt = [], sm_Authority = tx_authority\<rparr>"

definition tx_evidence :: "int \<Rightarrow> StateManifest" where
  "tx_evidence generation = tx_manifest StateKindEvidence generation ''CALIBRATION_EVIDENCE'' ''WHILE_REFERENCED_PLUS_30_DAYS'' []"

definition tx_portfolio :: StateManifest where
  "tx_portfolio = tx_manifest StateKindPortfolio 1 ''PORTFOLIO_INDEX'' ''CURRENT_PLUS_30_DAYS_AFTER_SUPERSEDED''
     [\<lparr>rf_Kind = StateKindEvidence, rf_ManifestSHA256 = tx_sha (CHR ''e''), rf_Relation = ''QUALIFICATION''\<rparr>]"

definition tx_head :: "StateKind \<Rightarrow> int \<Rightarrow> char \<Rightarrow> string \<Rightarrow> StateHead" where
  "tx_head kind generation manifest previous =
     \<lparr>ch_SchemaVersion = ''buildopt.central/state-head/v1'', ch_RecordType = ''CENTRAL_STATE_HEAD'', ch_Kind = kind,
      ch_RepositoryScopeSHA256 = tx_sha (CHR ''5''), ch_Generation = generation, ch_ManifestSHA256 = tx_sha manifest,
      ch_PreviousManifestSHA256 = previous, ch_CompatibilitySHA256 = tx_sha (CHR ''6''), ch_UpdatedAt = tx_stamp, ch_Authority = tx_authority\<rparr>"

definition tx_documents :: "(string \<times> StateManifest) list" where
  "tx_documents = [(''e'', tx_evidence 1), (''d'', tx_evidence 2), (''b'', tx_portfolio)]"

definition tx_heads :: "(StateHead \<times> string) list" where
  "tx_heads = [(tx_head StateKindEvidence 1 (CHR ''e'') [], ''a''), (tx_head StateKindEvidence 2 (CHR ''d'') (tx_sha (CHR ''e'')), ''c''),
     (tx_head StateKindPortfolio 1 (CHR ''b'') [], ''f'')]"

definition tx_codec :: state_codec where
  "tx_codec = \<lparr>sj_canonicalize = Some, sj_manifest = map_of tx_documents, sj_head = map_of (map (\<lambda>(h, c). (c, h)) tx_heads),
     sj_encodeHead = map_of tx_heads, sj_encodeRequest = (\<lambda>_. Some ''9'')\<rparr>"

definition tx_storage :: Storage where
  "tx_storage = \<lparr>so_closed = False,
     so_cache = \<lparr>db_attempts = [], db_authorities = [], db_pending = [], db_decisions = [], db_committed = [], db_entries = [], db_quarantine = []\<rparr>,
     so_audit = [], so_reconciliation_runs = [], so_maintenance_runs = [], so_state_digests = [], so_blobs = [], so_quarantine_files = [],
     so_maximumBlobBytes = 50,
     so_capacity = \<lparr>cp_DeploymentBytes = 1000, cp_RepositoryBytes = 500, cp_PendingQuarantineBytes = 100, cp_StableTTL = 1000000000000,
       cp_QuarantineTTL = 1000000000, cp_HighWatermarkPercent = 85, cp_LowWatermarkPercent = 75, cp_ProtectedPercent = 80,
       cp_AccessUpdateInterval = 60000000000\<rparr>,
     so_reservations = [], so_next_reservation = 0, so_blobCleanupPending = False, so_quarantineCleanupPending = False,
     so_minimumNamespaceGeneration = 1, so_currentAccessBatch = None, so_protectedAccessError = False\<rparr>"

definition tx_request :: "StateKind \<Rightarrow> char \<Rightarrow> int \<Rightarrow> string \<Rightarrow> char \<Rightarrow> StateCASRequest" where
  "tx_request kind key generation head manifest =
     \<lparr>cq_RepositoryScopeSHA256 = tx_sha (CHR ''5''), cq_Kind = kind, cq_IdempotencyKey = tx_sha key, cq_ExpectedGeneration = generation,
      cq_ExpectedHeadSHA256 = head, cq_ManifestSHA256 = tx_sha manifest, cq_ProposedHead = None\<rparr>"

abbreviation tx_object :: "TypedStorage \<Rightarrow> StateKind \<Rightarrow> TypedStorage \<times> (StateObject \<times> bool) result" where
  "tx_object t kind \<equiv> PutStateObject tx_env t (tx_sha (CHR ''5'')) kind (tx_sha (CHR ''0'')) ''0'' tx_now"

abbreviation tx_put :: "TypedStorage \<Rightarrow> string \<Rightarrow> TypedStorage \<times> (StateManifest \<times> string \<times> bool) result" where
  "tx_put t raw \<equiv> PutStateManifest tx_env tx_codec t raw True"

abbreviation tx_cas :: "TypedStorage \<Rightarrow> StateCASRequest \<Rightarrow> TypedStorage \<times> StateCASResult result" where
  "tx_cas t q \<equiv> CASStateHead tx_env tx_codec t q tx_now tx_stamp True"

definition tx_empty :: TypedStorage where
  "tx_empty = \<lparr>ty_storage = tx_storage, ty_db = empty_state, ty_wcncp_digests = []\<rparr>"

definition tx_staged :: TypedStorage where
  "tx_staged = fst (tx_put (fst (tx_put (fst (tx_object tx_empty StateKindEvidence)) ''e'')) ''d'')"

definition tx_first :: StateCASRequest where "tx_first = tx_request StateKindEvidence (CHR ''1'') 0 [] (CHR ''e'')"
definition tx_second :: StateCASRequest where "tx_second = tx_request StateKindEvidence (CHR ''2'') 1 (tx_sha (CHR ''a'')) (CHR ''d'')"

definition tx_published :: TypedStorage where "tx_published = fst (tx_cas tx_staged tx_first)"

text \<open>The portfolio is published; the evidence it refers to is only staged.\<close>

definition tx_dangling :: TypedStorage where
  "tx_dangling = fst (tx_cas (fst (tx_put (fst (tx_object tx_staged StateKindPortfolio)) ''b''))
     (tx_request StateKindPortfolio (CHR ''3'') 0 [] (CHR ''b'')))"

lemma tx_runs:
  assumes "(typed_step env sj)\<^sup>*\<^sup>* t0 t"
  shows "(typed_step env sj)\<^sup>*\<^sup>* t0 (fst (PutStateObject env t scope kind expected bytes now))"
    "(typed_step env sj)\<^sup>*\<^sup>* t0 (fst (PutStateManifest env sj t raw commits))"
    "(typed_step env sj)\<^sup>*\<^sup>* t0 (fst (CASStateHead env sj t q now stamp commits))"
  by (rule rtranclp.rtrancl_into_rtrancl [OF assms], rule step_object step_manifest step_cas, rule prod.collapse [symmetric])+

lemma tx_reachable: "typed_reachable tx_env tx_codec tx_staged"
proof -
  have "(typed_step tx_env tx_codec)\<^sup>*\<^sup>* tx_empty tx_staged" unfolding tx_staged_def by (intro tx_runs rtranclp.rtrancl_refl)
  then show ?thesis unfolding typed_reachable_def by (intro exI [of _ tx_empty]) (simp add: tx_empty_def)
qed

lemma tx_laws: "codec_laws tx_codec"
  by (auto simp: codec_laws_def tx_codec_def tx_heads_def tx_head_def StateKindEvidence_def StateKindPortfolio_def split: if_splits)

lemma tx_first_published: "tx_cas tx_staged tx_first =
  (tx_published, Inr \<lparr>cz_Head = tx_head StateKindEvidence 1 (CHR ''e'') [], cz_HeadSHA256 = tx_sha (CHR ''a''), cz_Replayed = False\<rparr>)"
proof -
  have "snd (tx_cas tx_staged tx_first) = Inr \<lparr>cz_Head = tx_head StateKindEvidence 1 (CHR ''e'') [], cz_HeadSHA256 = tx_sha (CHR ''a''), cz_Replayed = False\<rparr>"
    by code_simp
  then show ?thesis by (simp add: tx_published_def prod_eq_iff)
qed

lemma tx_stamp_valid: "ValidUTCTimestamp tx_stamp" by code_simp

lemma tx_second_published: "\<exists>t z. tx_cas tx_published tx_second = (t, Inr z) \<and> \<not> cz_Replayed z"
proof -
  have "case snd (tx_cas tx_published tx_second) of Inl _ \<Rightarrow> False | Inr z \<Rightarrow> \<not> cz_Replayed z" by code_simp
  then show ?thesis by (auto simp: prod_eq_iff split: sum.splits)
qed

section \<open>Witnesses\<close>

theorem typed_maintenance_keeps_current_witness:
  "(\<exists>report. snd (MaintainState tx_published (tx_now + 259200000000000) True) = Inr report) \<and>
   LoadCurrentState tx_env tx_codec (fst (MaintainState tx_published (tx_now + 259200000000000) True)) (tx_sha (CHR ''5'')) StateKindEvidence 0 =
   LoadCurrentState tx_env tx_codec tx_published (tx_sha (CHR ''5'')) StateKindEvidence 0"
proof
  have "case snd (MaintainState tx_published (tx_now + 259200000000000) True) of Inl _ \<Rightarrow> False | Inr report \<Rightarrow> sx_ExpiredStagedManifests report = 1" by code_simp
  then show "\<exists>report. snd (MaintainState tx_published (tx_now + 259200000000000) True) = Inr report" by (auto split: sum.splits)
  show "LoadCurrentState tx_env tx_codec (fst (MaintainState tx_published (tx_now + 259200000000000) True)) (tx_sha (CHR ''5'')) StateKindEvidence 0 =
      LoadCurrentState tx_env tx_codec tx_published (tx_sha (CHR ''5'')) StateKindEvidence 0"
    by (rule typed_maintenance_keeps_current [OF prod.collapse [symmetric]]) (simp add: StateKindEvidence_def StateKindCheckpoint_def)
qed

theorem typed_maintenance_stuck_witness:
  "maintainStateMetadata tx_dangling (tx_now + 86400000000000) True = (tx_dangling, Inl ForeignKeyFailed)"
proof -
  let ?r = "reference_row tx_portfolio (tx_sha (CHR ''b'')) (sm_References tx_portfolio ! 0)"
  let ?m = "manifest_row (tx_evidence 1) ''e'' (tx_sha (CHR ''e''))"
  have 1: "?r \<in> set (td_references (ty_db tx_dangling))" by code_simp
  have 2: "?m \<in> set (td_manifests (ty_db tx_dangling))" by code_simp
  have 3: "manifest_key ?m = reference_target ?r" by code_simp
  have 4: "tmf_published_at_unix_ms ?m = None" "tmf_kind ?m \<noteq> StateKindCheckpoint" by code_simp+
  have 5: "tmf_created_at_unix_ms ?m \<le> to_milli (tx_now + 86400000000000 - stagedStateTTL)" by code_simp
  have 6: "\<forall>p\<in>set (td_manifests (ty_db tx_dangling)). manifest_key p = reference_source ?r \<longrightarrow>
      tmf_published_at_unix_ms p \<noteq> None \<and> tmf_kind p \<noteq> StateKindCheckpoint" by code_simp
  show ?thesis using 1 2 3 4 5 6 by (rule typed_maintenance_stuck)
qed

theorem typed_generation_once_witness: "cq_ExpectedGeneration tx_first < cq_ExpectedGeneration tx_second"
proof -
  obtain t z where 2: "tx_cas tx_published tx_second = (t, Inr z)" "\<not> cz_Replayed z" using tx_second_published by blast
  show ?thesis
    by (rule typed_generation_once [OF tx_reachable tx_laws tx_first_published _ rtranclp.rtrancl_refl 2])
      (simp_all add: tx_first_def tx_second_def tx_request_def StateKindEvidence_def StateKindCheckpoint_def)
qed

theorem typed_cas_current_witness:
  "\<exists>m. sm_Generation m = 1 \<and> LoadCurrentState tx_env tx_codec tx_published (tx_sha (CHR ''5'')) StateKindEvidence 0 =
     Inr \<lparr>ss_Head = tx_head StateKindEvidence 1 (CHR ''e'') [], ss_HeadSHA256 = tx_sha (CHR ''a''), ss_Manifest = m, ss_ManifestSHA256 = tx_sha (CHR ''e'')\<rparr>"
proof -
  have q: "cq_ExpectedGeneration tx_first = 0" "cq_RepositoryScopeSHA256 tx_first = tx_sha (CHR ''5'')" "cq_Kind tx_first = StateKindEvidence"
    "cq_ManifestSHA256 tx_first = tx_sha (CHR ''e'')" "StateKindEvidence \<noteq> StateKindCheckpoint"
    by (simp_all add: tx_first_def tx_request_def StateKindEvidence_def StateKindCheckpoint_def)
  show ?thesis
    using typed_cas_current [OF tx_reachable tx_laws tx_stamp_valid tx_first_published] by (auto simp: q)
qed

theorem typed_cas_replay_witness:
  "\<exists>t z. CASStateHead tx_env tx_codec tx_published tx_first (tx_now + 5) tx_stamp True = (t, Inr z) \<and> cz_Replayed z \<and>
     cz_Head z = tx_head StateKindEvidence 1 (CHR ''e'') []"
proof -
  have live: "\<not> so_closed (ty_storage tx_published)" by code_simp
  show ?thesis using typed_cas_replay [OF tx_laws tx_stamp_valid tx_first_published rtranclp.rtrancl_refl live, of "tx_now + 5" tx_stamp] by auto
qed

end
