(* ===== verification/Spec2Isabelle.thy ===== *)
theory Spec2Isabelle
  imports SelectionProps Ownership ChangeAware SharedRecovery EdgeComposition NativeVolatility Leases StickyValue CriticalPathProps StickyProps TypedExample
begin

text \<open>
  A verification development for buildopt, a Go system that speeds up Gradle builds without changing what they produce. It
  models decision procedures and durable stores of \<open>src/internal\<close> and proves that they fail closed, keep their
  invariants and do what their reports say.

  \<^bold>\<open>Conventions.\<close> A Go struct is a record with the source's field names behind a short prefix, a
  string is a list of bytes ordered as in Go, an \<open>error\<close> is its message (an option, or the left of a sum), a slice is a list, a map
  used as a set is a set, and any other map is an association list or a partial function. Where Go's map iteration order
  could be observed it is a parameter \<open>iter\<close>. A SQLite table is the list of its rows, a blob directory an association list from
  digest to bytes; operations that hold a lock are single functions on the state, and interleavings are step relations over
  them. SHA-256, the fetch and push of the Shared client, and the outcomes of locks and disk writes are
  parameters. \<open>int64\<close> and \<open>uint64\<close> values are 64-bit words in \<open>StickyValue\<close> and the sticky records, integers with the wrap-around written out in
  \<open>CriticalPath\<close>, and integers elsewhere, where they are only compared or where the code bounds them. \<open>float64\<close> quantities of
  the promotion rules and policy budgets are exact numbers. Contexts and cancellation are not modelled.

  \<^bold>\<open>Prelude.\<close> \<open>Prelude\<close> (results, first-error chains, Go string functions, character classes, numerals), \<open>GoPath\<close>
  (\<open>path.Clean\<close> and repository paths), \<open>GoTime\<close> (canonical timestamps and instants), \<open>JcsNumber\<close>
  (integers in the canonical JSON of \<open>src/internal/contractcrypto\<close>), \<open>GraphSearch\<close> (worklist closures and
  depth-first search).

  \<^bold>\<open>Build impact\<close> (\<open>src/internal/buildimpact\<close>). \<open>Manifest\<close> (\<open>manifest.go\<close>), \<open>ImpactGraph\<close> (\<open>graph.go\<close>), \<open>Validation\<close>
  (\<open>validation.go\<close>), \<open>Promotion\<close> (\<open>promotion.go\<close>), \<open>Selection\<close> (\<open>selection.go\<close>, \<open>poc_candidate.go\<close>), \<open>Ownership\<close>
  (\<open>proposal.go\<close>, \<open>workflow_inputs.go\<close>). \<open>ImpactFacts\<close> and \<open>ImpactProps\<close> show that a narrower set of entrypoints is proposed
  exactly for eligible changes, covers every artifact and check the change can reach and is least, and that globs, closures and cycle
  detection meet their specifications; \<open>ValidationFacts\<close>, \<open>PromotionFacts\<close> and \<open>SelectionProps\<close> that a passed control means
  equal results, that promotion and suspension are decided by the stated conditions, and that a selection is authorized
  only under a current promotion and otherwise runs the original entrypoints; \<open>Ownership\<close> that changed files are attributed to
  their owners or rejected.

  \<^bold>\<open>Change awareness\<close> (\<open>src/internal/changeaware\<close>). \<open>ChangeAware\<close>: an action is offered only if every omitted task is
  outside the reach of the change.

  \<^bold>\<open>Edge cache\<close> (\<open>src/internal/edgecache\<close>). \<open>EdgeStore\<close> (\<open>store.go\<close>, \<open>capacity.go\<close>, \<open>config.go\<close>) and \<open>EdgePending\<close>
  (\<open>pending.go\<close>) model the store; \<open>EdgeLedger\<close> states its byte ledger as a locale, interprets it on the store and defines the
  interleavings of its operations; \<open>EdgeFacts\<close>, \<open>EdgeProps\<close>, \<open>EdgeServe\<close> and \<open>EdgeReplication\<close> show that capacity is never exceeded, that
  eviction removes the least necessary prefix of the segmented LRU order, that reads return verified bytes of the reader's own scope, that
  writes can be read back, that the queue refines the automaton of a pending object and that one replication pass (at most 64 claims, the
  bound of the source, which is also the fuel of the loop) handles everything due.

  \<^bold>\<open>Shared cache\<close> (\<open>src/internal/sharedcache\<close>). The object service that all builds of a deployment share. \<open>SharedStorage\<close>
  (\<open>storage.go\<close>, \<open>sqlite.go\<close>, \<open>blob.go\<close>) has the tables of \<open>cache.sqlite\<close> with their constraints, the blob and quarantine
  directories and the state of an open \<open>Storage\<close>; \<open>SharedDecision\<close> (\<open>decision.go\<close>) commit decisions and their verification;
  \<open>SharedCapacity\<close> (\<open>capacity.go\<close>) policies, admission, reservations, maintenance and segmented LRU eviction; \<open>SharedAttempts\<close> and
  \<open>SharedReads\<close> (\<open>lifecycle.go\<close>, \<open>http.go\<close>) starting, writing, committing and aborting attempts, reads and the HTTP handler;
  \<open>SharedReconcile\<close> (\<open>reconcile.go\<close>, \<open>storage.go\<close>) reconciliation, opening, closing and crashing. \<open>SharedRuns\<close> cuts the operations where
  the code releases its lock and defines the step relation \<open>shared_step\<close> over any number of concurrent puts, reads and maintenance, with crashes,
  restarts and changes of the disk; the capacity policy is the same at every restart. \<open>Lifecycle\<close> states interfaces as locales: a table whose keys are written once, rows with
  a version that grows until a terminal state, and a register that only moves up; \<open>SharedPublished\<close> interprets the first two on \<open>shared_step\<close>. \<open>SharedFacts\<close>, \<open>SharedMoves\<close>,
  \<open>SharedSystem\<close>, \<open>SharedBytes\<close>, \<open>SharedBudget\<close> and \<open>SharedPuts\<close> hold the invariants of the steps, \<open>SharedExample\<close> a concrete run.
  \<open>SharedProps\<close>, \<open>SharedCommits\<close> and \<open>SharedRecovery\<close> show over all runs that stable bytes never exceed a budget, that pending bytes do
  not either unless a reservation grew on usage answers that a concurrent commit had made obsolete (the queries of a growing reservation run
  outside the lifecycle lock, so their answers are arbitrary in \<open>shared_step\<close>), that what is served is what a signed
  decision lists, that published objects and terminal attempts never change, that a commit publishes exactly its decision or
  nothing and can be replayed, and that reconciliation restores the invariants of the disk.

  \<^bold>\<open>Typed state\<close> (\<open>src/internal/sharedcache/state.go\<close>, \<open>state_sqlite.go\<close>). The second database of the Shared service keeps portfolios,
  evidence and checkpoints. \<open>TypedState\<close> has the documents with their validation and the tables with checks, keys, foreign keys and
  cascades; \<open>TypedStore\<close> the operations on objects, manifests and heads, loading and retention; both use the \<open>Storage\<close> and blobs of the
  object service, whose runs see this database as the set of digests it keeps alive. \<open>TypedRetention\<close> shows that maintenance never takes anything from the current state
  and when a staged manifest stops it; \<open>TypedHeads\<close> interprets the register of \<open>Lifecycle\<close> on all sequences of operations and shows that a
  generation is published once, complete and repeatably; \<open>TypedExample\<close> is a concrete run with the witnesses.

  \<^bold>\<open>Local authority\<close> (\<open>src/internal/localauthority\<close>). \<open>LocalAuthority\<close> models the documents, their semantic validation, version
  ranges, the anti-rollback record and its store. \<open>LocalAuthorityProps\<close> interprets the monotone register of \<open>Lifecycle\<close> on
  \<open>Advance\<close>, and shows that no sequence of installations rolls back and that an accepted document grants no more than its policy.
  \<open>EdgeAuthority\<close> (\<open>edgecache/authority.go\<close>, \<open>runtime.go\<close>) and \<open>EdgeComposition\<close> compose it with the Edge cache.

  \<^bold>\<open>Sticky decisions\<close> (\<open>src/internal/stickydecision\<close>). The append-only control plane that remembers what was learnt about a build.
  \<open>StickyRecords\<close> (\<open>model.go\<close>, \<open>validate.go\<close>) has the records and their validation, chains of records and the economic ledger;
  \<open>StickyStore\<close> (\<open>sign.go\<close>, \<open>store.go\<close>, \<open>selector.go\<close>) signatures, the files of a local store with its append, current, revoke and data-plane
  operations, where each write of a file may fail on its own, and the selector. \<open>StickyLedger\<close> shows where the 64-bit totals of a ledger are exact and where
  they are not; \<open>StickyChain\<close> that an accepted chain follows the rollout automaton of every action and cites earlier evidence only. \<open>StickyFacts\<close> and
  \<open>StickyProps\<close> interpret the locales of \<open>Lifecycle\<close> on the steps of a store and show that records are never rewritten, that the head and the
  revocation epoch (up to two to the fifty-third, above which its canonical form is rounded) only grow, that an activated decision is signed, current and unrevoked, and which appends can be retried.

  \<^bold>\<open>Critical paths\<close> (\<open>src/internal/gradlecriticalpath\<close>). \<open>CriticalPath\<close> models the analyzer; \<open>CriticalPathProps\<close> shows that its
  memoized search finds a longest chain and fails exactly on a missing dependency or a cycle. Termination is by the number of
  tasks not being visited.

  \<^bold>\<open>Further components.\<close> \<open>NativeVolatility\<close> (\<open>nativevolatility/quarantine.go\<close>): what is transported is what two builds
  agreed on. \<open>Leases\<close> (\<open>sharedcache/wcncp_lease.go\<close>): validation leases are exclusive over all interleavings and a free
  proposal can be claimed. \<open>StickyValue\<close> (\<open>stickyvalue/evaluate.go\<close>): the value ledger is exact at 64 bits, the bootstrap of
  4096 replicates stays within the observed effects and a uniform gain qualifies.

  \<^bold>\<open>Not modelled.\<close> Process execution, HTTP, SQLite and file-system calls themselves, JSON decoding, JCS canonicalization beyond integers and
  Ed25519 itself (parameters of the model), Gradle discovery, the launcher, the central HTTP service with its tokens and review
  state, the Edge proxy, and the benchmark and audit tools. Of the Shared object service, migrations and pragmas of SQLite, directory locks and permissions,
  cancellation and the managed lifecycle lease. Of the sticky decisions, signing, the creation of a store's directories
  and the central adapter. Of the remaining decision logic, the review lifecycle, ordinary learning and adaptive fragments are not modelled.
\<close>

end
